(* ===== verification/Prelude.thy ===== *)
theory Prelude
  imports Main "HOL-Library.Word" "HOL-Library.Signed_Division" "HOL-Library.Mapping"
    "HOL-Library.AList_Mapping" "HOL-Library.List_Lexorder" "HOL-Library.Char_ord"
begin

text \<open>
  Shared vocabulary of the development.

  \<^item> Go's \<^verbatim>\<open>int64\<close> is an \<open>int\<close> that satisfies \<open>in64\<close>; every addition, subtraction and
    multiplication the source does on it is \<open>add64\<close>, \<open>sub64\<close> or \<open>mul64\<close>, which wrap
    around in two's complement as Go's operators do (\<open>wrap64\<close> keeps the low 64 bits and
    reads them as signed). Arbitrary precision \<^verbatim>\<open>math/big\<close> values are plain \<open>int\<close>.
  \<^item> Go maps are \<open>mapping\<close>s with finite key sets; ranging in sorted order is
    \<open>Mapping.ordered_keys\<close>. Strings are byte strings, compared bytewise as in Go.
  \<^item> A \<^verbatim>\<open>time.Time\<close> is the number of nanoseconds since the zero time
    (1 January of year 1, UTC), so that \<^verbatim>\<open>IsZero\<close> is \<open>t = 0\<close> and \<^verbatim>\<open>Before\<close>
    is \<open><\<close>; a \<^verbatim>\<open>time.Duration\<close> is an \<^verbatim>\<open>int64\<close> number of nanoseconds.
  \<^item> A Go \<^verbatim>\<open>error\<close> result is the left side of a sum.

  The collections \<open>i64_defs\<close> and \<open>gomap_simps\<close> carry the component proofs.
\<close>

named_theorems i64_defs
named_theorems gomap_simps

section \<open>Machine integers\<close>

definition MaxInt64 :: int where
  "MaxInt64 = 9223372036854775807"

definition MinInt64 :: int where
  "MinInt64 = - 9223372036854775808"

definition in64 :: "int \<Rightarrow> bool" where
  "in64 x \<longleftrightarrow> MinInt64 \<le> x \<and> x \<le> MaxInt64"

definition wrap64 :: "int \<Rightarrow> int" where
  "wrap64 x = signed_take_bit 63 x"

definition add64 :: "int \<Rightarrow> int \<Rightarrow> int" where
  "add64 a b = wrap64 (a + b)"

definition sub64 :: "int \<Rightarrow> int \<Rightarrow> int" where
  "sub64 a b = wrap64 (a - b)"

definition mul64 :: "int \<Rightarrow> int \<Rightarrow> int" where
  "mul64 a b = wrap64 (a * b)"

lemmas in64_bounds [i64_defs] = in64_def MaxInt64_def MinInt64_def

lemma in64_wrap64 [simp, intro]: "in64 (wrap64 x)"
  using signed_take_bit_int_greater_eq_minus_exp [of 63 x]
    signed_take_bit_int_less_exp [of 63 x]
  by (simp add: in64_bounds wrap64_def)

lemma wrap64_id: "in64 x \<Longrightarrow> wrap64 x = x"
  by (simp add: wrap64_def in64_bounds signed_take_bit_int_eq_self)

lemma add64_exact: "in64 (a + b) \<Longrightarrow> add64 a b = a + b"
  by (simp add: add64_def wrap64_id)

lemma sub64_exact: "in64 (a - b) \<Longrightarrow> sub64 a b = a - b"
  by (simp add: sub64_def wrap64_id)

lemma mul64_exact: "in64 (a * b) \<Longrightarrow> mul64 a b = a * b"
  by (simp add: mul64_def wrap64_id)

lemma add64_wrap: "add64 (wrap64 a) b = wrap64 (a + b)"
  by (metis add64_def signed_take_bit_add signed_take_bit_signed_take_bit wrap64_def min.idem)

lemma in64_0 [simp]: "in64 0"
  by (simp add: in64_bounds)

text \<open>Between two nonnegative values a difference never leaves the range.\<close>

lemma sub64_nonneg: "in64 a \<Longrightarrow> 0 \<le> b \<Longrightarrow> b \<le> a \<Longrightarrow> sub64 a b = a - b"
  by (intro sub64_exact) (simp add: in64_bounds)

lemma sub64_in64_nonneg:
  "in64 a \<Longrightarrow> in64 b \<Longrightarrow> 0 \<le> a \<Longrightarrow> 0 \<le> b \<Longrightarrow> sub64 a b = a - b"
  by (intro sub64_exact) (simp add: in64_bounds)

lemma in64_between: "in64 b \<Longrightarrow> 0 \<le> a \<Longrightarrow> a \<le> b \<Longrightarrow> in64 a"
  by (simp add: in64_bounds)

lemma add64_between: "in64 c \<Longrightarrow> 0 \<le> a + b \<Longrightarrow> a + b \<le> c \<Longrightarrow> add64 a b = a + b"
  by (intro add64_exact) (rule in64_between)

section \<open>Checked accounting\<close>

text \<open>
  Several packages of the source carry a private copy of one contract: an addition of two
  amounts that refuses negative operands and overflow and is exact otherwise. The contract
  is a locale, the copies interpret it.
\<close>

locale checked_accounting =
  fixes cadd :: "int \<Rightarrow> int \<Rightarrow> 'e + int"
  assumes cadd_ok: "0 \<le> a \<Longrightarrow> 0 \<le> b \<Longrightarrow> a + b \<le> MaxInt64 \<Longrightarrow> cadd a b = Inr (a + b)"
    and cadd_error: "a < 0 \<or> b < 0 \<or> MaxInt64 < a + b \<Longrightarrow> \<exists>e. cadd a b = Inl e"
begin

lemma cadd_InrD:
  assumes "cadd a b = Inr c"
  shows "c = a + b \<and> 0 \<le> a \<and> 0 \<le> b \<and> a + b \<le> MaxInt64"
proof -
  have "\<not> (a < 0 \<or> b < 0 \<or> MaxInt64 < a + b)"
    using assms cadd_error [of a b] by auto
  then show ?thesis
    using assms cadd_ok [of a b] by auto
qed

lemma cadd_Inr_iff: "cadd a b = Inr c \<longleftrightarrow> c = a + b \<and> 0 \<le> a \<and> 0 \<le> b \<and> a + b \<le> MaxInt64"
  using cadd_InrD cadd_ok by blast

lemma cadd_Inl_iff: "(\<exists>e. cadd a b = Inl e) \<longleftrightarrow> a < 0 \<or> b < 0 \<or> MaxInt64 < a + b"
  using cadd_error [of a b] cadd_ok [of a b] by force

lemma cadd_mono:
  assumes "cadd a b = Inr c"
  shows "a \<le> c \<and> b \<le> c \<and> in64 c"
  using cadd_InrD [OF assms] by (simp add: in64_bounds)

end

section \<open>Results and loops with early return\<close>

text \<open>
  A Go loop that may return an error in the middle is a monadic fold over the ranged
  list: the first error ends it.
\<close>

fun foldE :: "('a \<Rightarrow> 's \<Rightarrow> 'e + 's) \<Rightarrow> 'a list \<Rightarrow> 's \<Rightarrow> 'e + 's" where
  "foldE f [] s = Inr s"
| "foldE f (x # xs) s = (case f x s of Inl e \<Rightarrow> Inl e | Inr s' \<Rightarrow> foldE f xs s')"

lemma foldE_append:
  "foldE f (xs @ ys) s = (case foldE f xs s of Inl e \<Rightarrow> Inl e | Inr s' \<Rightarrow> foldE f ys s')"
  by (induction xs arbitrary: s) (auto split: sum.splits)

text \<open>An invariant of the body is an invariant of the loop.\<close>

lemma foldE_invariant:
  assumes "foldE f xs s = Inr s'" and "P s"
    and "\<And>x s s'. x \<in> set xs \<Longrightarrow> P s \<Longrightarrow> f x s = Inr s' \<Longrightarrow> P s'"
  shows "P s'"
  using assms
proof (induction xs arbitrary: s)
  case Nil
  then show ?case by simp
next
  case (Cons x xs)
  then obtain s1 where s1: "f x s = Inr s1" "foldE f xs s1 = Inr s'"
    by (auto split: sum.splits)
  have "P s1" using Cons.prems(2,3) s1(1) by (metis list.set_intros(1))
  then show ?case
    using Cons.IH [OF s1(2)] Cons.prems(3) by (meson list.set_intros(2))
qed

section \<open>Maps\<close>

lemmas lookup_simps [gomap_simps] =
  lookup_update' lookup_filter lookup_map_values lookup_map_entry'
  Mapping.lookup_of_alist

lemma lookup_delete' [gomap_simps]:
  "Mapping.lookup (Mapping.delete k m) k' = (if k = k' then None else Mapping.lookup m k')"
  by (cases "k = k'") simp_all

lemma keys_lookup: "k \<in> Mapping.keys m \<longleftrightarrow> Mapping.lookup m k \<noteq> None"
  by (simp add: keys_dom_lookup domIff)

lemma lookup_in_keys: "Mapping.lookup m k = Some v \<Longrightarrow> k \<in> Mapping.keys m"
  by (simp add: keys_lookup)

text \<open>Ranging over the sorted keys of a finite map visits exactly its entries.\<close>

lemma set_ordered_keys_lookup:
  "finite (Mapping.keys m) \<Longrightarrow> k \<in> set (Mapping.ordered_keys m) \<longleftrightarrow> Mapping.lookup m k \<noteq> None"
  by (simp add: keys_lookup)

lemma size_card: "Mapping.size m = card (Mapping.keys m)"
  by (simp add: Mapping.size_def)

lemma finite_keys_map_values [simp]:
  "finite (Mapping.keys (Mapping.map_values f m)) = finite (Mapping.keys m)"
  by simp

lemma finite_keys_filter:
  "finite (Mapping.keys m) \<Longrightarrow> finite (Mapping.keys (Mapping.filter P m))"
  by (rule finite_subset [OF keys_filter])

text \<open>
  A Go loop \<^verbatim>\<open>for k, v := range r { m[k] = ... }\<close> that writes at most the ranged key:
  \<open>f k v cur\<close> is the value written, \<open>None\<close> when the body writes nothing. Each key is
  visited once and only its own entry is touched, so the order of the visits does not matter.
\<close>

definition range_put ::
  "('k::linorder \<Rightarrow> 'v \<Rightarrow> 'w option \<Rightarrow> 'w option) \<Rightarrow> ('k, 'v) mapping \<Rightarrow> ('k, 'w) mapping \<Rightarrow> ('k, 'w) mapping" where
  "range_put f r m =
     fold (\<lambda>k m. case Option.bind (Mapping.lookup r k) (\<lambda>v. f k v (Mapping.lookup m k)) of
                   None \<Rightarrow> m | Some w \<Rightarrow> Mapping.update k w m)
       (Mapping.ordered_keys r) m"

lemma lookup_fold_put:
  assumes "distinct ks"
  shows "Mapping.lookup (fold (\<lambda>k m. case g k (Mapping.lookup m k) of None \<Rightarrow> m | Some w \<Rightarrow> Mapping.update k w m) ks m) k
    = (if k \<in> set ks then (case g k (Mapping.lookup m k) of None \<Rightarrow> Mapping.lookup m k | Some w \<Rightarrow> Some w)
       else Mapping.lookup m k)"
  using assms by (induction ks arbitrary: m) (auto simp: lookup_update' split: option.splits)

lemma lookup_range_put:
  assumes "finite (Mapping.keys r)"
  shows "Mapping.lookup (range_put f r m) k =
    (case Mapping.lookup r k of
       None \<Rightarrow> Mapping.lookup m k
     | Some v \<Rightarrow> (case f k v (Mapping.lookup m k) of None \<Rightarrow> Mapping.lookup m k | Some w \<Rightarrow> Some w))"
  using assms
    lookup_fold_put [where g = "\<lambda>k c. Option.bind (Mapping.lookup r k) (\<lambda>v. f k v c)",
      OF distinct_ordered_keys [of r], of m k]
  by (auto simp: range_put_def keys_lookup split: option.split)

text \<open>The total of a measure over the entries of a map.\<close>

definition mtotal :: "('k \<Rightarrow> 'v \<Rightarrow> int) \<Rightarrow> ('k, 'v) mapping \<Rightarrow> int" where
  "mtotal f m = (\<Sum>k \<in> Mapping.keys m. f k (the (Mapping.lookup m k)))"

lemma mtotal_empty [simp]: "mtotal f Mapping.empty = 0"
  by (simp add: mtotal_def)

lemma mtotal_update:
  assumes "finite (Mapping.keys m)"
  shows "mtotal f (Mapping.update k v m) =
    mtotal f m - (case Mapping.lookup m k of None \<Rightarrow> 0 | Some o' \<Rightarrow> f k o') + f k v"
proof -
  let ?K = "Mapping.keys m - {k}"
  have "mtotal f (Mapping.update k v m) =
      (\<Sum>x \<in> insert k ?K. f x (the (Mapping.lookup (Mapping.update k v m) x)))"
    by (simp add: mtotal_def insert_Diff_if)
  also have "\<dots> = f k v + (\<Sum>x \<in> ?K. f x (the (Mapping.lookup (Mapping.update k v m) x)))"
    using assms by (subst sum.insert) (auto simp: lookup_update')
  also have "(\<Sum>x \<in> ?K. f x (the (Mapping.lookup (Mapping.update k v m) x))) = (\<Sum>x \<in> ?K. f x (the (Mapping.lookup m x)))"
    by (rule sum.cong) (auto simp: lookup_update')
  also have "\<dots> = mtotal f m - (case Mapping.lookup m k of None \<Rightarrow> 0 | Some o' \<Rightarrow> f k o')"
    using assms by (auto simp: mtotal_def sum_diff1 keys_lookup split: option.split)
  finally show ?thesis by simp
qed

lemma mtotal_nonneg: "(\<And>k v. Mapping.lookup m k = Some v \<Longrightarrow> 0 \<le> f k v) \<Longrightarrow> 0 \<le> mtotal f m"
  by (auto simp: mtotal_def keys_lookup intro!: sum_nonneg)

lemma mtotal_ge:
  assumes "finite (Mapping.keys m)" "Mapping.lookup m k = Some v"
    and "\<And>k v. Mapping.lookup m k = Some v \<Longrightarrow> 0 \<le> f k v"
  shows "f k v \<le> mtotal f m"
proof -
  have "f k (the (Mapping.lookup m k)) \<le> (\<Sum>x \<in> Mapping.keys m. f x (the (Mapping.lookup m x)))"
    by (rule member_le_sum) (use assms in \<open>auto simp: keys_lookup\<close>)
  with assms(2) show ?thesis by (simp add: mtotal_def)
qed

section \<open>Time\<close>

text \<open>
  \<^verbatim>\<open>t.Add(d)\<close> and \<^verbatim>\<open>t.Sub(u)\<close>: an instant is exact, a difference saturates at the range
  of \<^verbatim>\<open>Duration\<close>, as the standard library documents.
\<close>

type_synonym gotime = int
type_synonym duration = int

definition Second :: duration where
  "Second = 1000000000"

definition time_add :: "gotime \<Rightarrow> duration \<Rightarrow> gotime" where
  "time_add t d = t + d"

definition time_sub :: "gotime \<Rightarrow> gotime \<Rightarrow> duration" where
  "time_sub t u = max MinInt64 (min MaxInt64 (t - u))"

lemma in64_time_sub [simp]: "in64 (time_sub t u)"
  by (simp add: time_sub_def in64_bounds)

lemma time_sub_exact: "in64 (t - u) \<Longrightarrow> time_sub t u = t - u"
  by (simp add: time_sub_def in64_bounds)

lemma time_sub_pos_iff: "0 < time_sub t u \<longleftrightarrow> u < t"
  by (auto simp: time_sub_def in64_bounds)

lemma time_sub_le: "u \<le> t \<Longrightarrow> time_sub t u \<le> t - u"
  by (simp add: time_sub_def in64_bounds)

end
