(* ===== verification/Pricing.thy ===== *)
theory Pricing
  imports Prelude
begin

text \<open>
  The rate table of \<^verbatim>\<open>internal/pricing\<close>: lookup with the Bedrock region prefix fallback,
  the settlement cost (\<^verbatim>\<open>CostUSDMicros\<close>), its checked variant
  (\<^verbatim>\<open>CostUSDMicrosChecked\<close>) and the admission bound (\<^verbatim>\<open>AuthorityBound\<close>). A nil
  table is \<open>None\<close>; \<^verbatim>\<open>math/big\<close> values are unbounded integers, narrowed by \<open>wrap64\<close>
  where the source calls \<^verbatim>\<open>Int64\<close>.

  The lemmas show that the rounding is round-half-to-even on every nonnegative amount, that
  the checked and the unchecked cost agree whenever the former succeeds, and that the bound
  reserved before a call dominates what the call can be charged.
\<close>

section \<open>Data\<close>

record PriceKey =
  pk_Provider :: string
  pk_Model :: string

record Rate =
  InputPerMTok :: int
  OutputPerMTok :: int
  CacheReadPerMTok :: int
  CacheWrite5mPerMTok :: int
  CacheWrite1hPerMTok :: int

record Usage =
  u_Input :: int
  u_Output :: int
  u_CacheRead :: int
  u_CacheWrite5m :: int
  u_CacheWrite1h :: int

datatype OnMissing = OnMissingAllow | OnMissingBlock

record Table =
  onMissing :: OnMissing
  rates :: "(PriceKey, Rate) mapping"
  Version :: string

datatype pricing_error = ErrAuthorityBound | ErrInvalidCost

definition NewVersioned :: "OnMissing \<Rightarrow> (PriceKey, Rate) mapping option \<Rightarrow> string \<Rightarrow> Table" where
  "NewVersioned om rs version =
     \<lparr>onMissing = om,
      rates = (case rs of None \<Rightarrow> Mapping.empty | Some m \<Rightarrow> m),
      Version = (if version = '''' then ''unversioned'' else version)\<rparr>"

definition NewTable :: "OnMissing \<Rightarrow> (PriceKey, Rate) mapping option \<Rightarrow> Table" where
  "NewTable om rs = NewVersioned om rs ''bundled''"

section \<open>Lookup\<close>

definition bedrockRegionPrefixes :: "string list" where
  "bedrockRegionPrefixes = [''global.'', ''us.'', ''eu.'', ''apac.'', ''us-gov.'']"

definition hasPrefix :: "string \<Rightarrow> string \<Rightarrow> bool" where
  "hasPrefix s p \<longleftrightarrow> take (length p) s = p"

fun stripFirst :: "string list \<Rightarrow> string \<Rightarrow> string" where
  "stripFirst [] model = ''''"
| "stripFirst (p # ps) model =
     (if hasPrefix model p then drop (length p) model else stripFirst ps model)"

definition normalizeModel :: "string \<Rightarrow> string" where
  "normalizeModel model = stripFirst bedrockRegionPrefixes model"

definition BaseModelID :: "string \<Rightarrow> string" where
  "BaseModelID model = (let base = normalizeModel model in if base \<noteq> '''' then base else model)"

definition mkKey :: "string \<Rightarrow> string \<Rightarrow> PriceKey" where
  "mkKey p m = \<lparr>pk_Provider = p, pk_Model = m\<rparr>"

text \<open>The two-stage lookup that \<^verbatim>\<open>CostUSDMicros\<close> and \<^verbatim>\<open>AuthorityBound\<close> share.\<close>

definition findRate :: "Table \<Rightarrow> string \<Rightarrow> string \<Rightarrow> Rate option" where
  "findRate t provider model =
     (case Mapping.lookup (rates t) (mkKey provider model) of
        Some r \<Rightarrow> Some r
      | None \<Rightarrow>
          (let base = normalizeModel model
           in if base \<noteq> '''' then Mapping.lookup (rates t) (mkKey provider base) else None))"

definition HasRate :: "Table \<Rightarrow> string \<Rightarrow> string \<Rightarrow> bool" where
  "HasRate t provider model =
     (case Mapping.lookup (rates t) (mkKey provider model) of
        Some r \<Rightarrow> True
      | None \<Rightarrow>
          (let base = normalizeModel model
           in if base \<noteq> '''' then Mapping.lookup (rates t) (mkKey provider base) \<noteq> None
              else False))"

section \<open>Cost\<close>

text \<open>
  \<^verbatim>\<open>big.Int.QuoRem\<close> truncates towards zero and its remainder has the dividend's sign;
  \<^verbatim>\<open>CmpAbs\<close> compares magnitudes and \<^verbatim>\<open>Bit(0)\<close> is the parity.
\<close>

definition mulDivRoundHalfEven :: "int \<Rightarrow> int \<Rightarrow> int" where
  "mulDivRoundHalfEven tokens perMTok =
     (if tokens = 0 \<or> perMTok = 0 then 0
      else
        (let num = tokens * perMTok; denom = 1000000;
             q = num sdiv denom; rem = num smod denom;
             twice = rem * 2
         in wrap64 (if \<bar>twice\<bar> > \<bar>denom\<bar> \<or> (\<bar>twice\<bar> = \<bar>denom\<bar> \<and> odd q) then q + 1 else q)))"

definition CostUSDMicros :: "Table \<Rightarrow> string \<Rightarrow> string \<Rightarrow> Usage \<Rightarrow> int \<times> bool" where
  "CostUSDMicros t provider model u =
     (case findRate t provider model of
        None \<Rightarrow> (0, True)
      | Some r \<Rightarrow>
          (let t1 = add64 0 (mulDivRoundHalfEven (u_Input u) (InputPerMTok r));
               t2 = add64 t1 (mulDivRoundHalfEven (u_Output u) (OutputPerMTok r));
               t3 = add64 t2 (mulDivRoundHalfEven (u_CacheRead u) (CacheReadPerMTok r));
               t4 = add64 t3 (mulDivRoundHalfEven (u_CacheWrite5m u) (CacheWrite5mPerMTok r));
               t5 = add64 t4 (mulDivRoundHalfEven (u_CacheWrite1h u) (CacheWrite1hPerMTok r))
           in (t5, False)))"

fun sumChecked :: "(int \<times> int) list \<Rightarrow> int \<Rightarrow> pricing_error + int" where
  "sumChecked [] acc = Inr acc"
| "sumChecked ((count, rate) # items) acc =
     (if count < 0 \<or> rate < 0 then Inl ErrInvalidCost
      else
        (let n = count * rate; denom = 1000000;
             q = n sdiv denom; rem = n smod denom;
             q' = (if 2 * rem > denom \<or> (2 * rem = denom \<and> odd q) then q + 1 else q)
         in sumChecked items (acc + q')))"

definition CostUSDMicrosChecked ::
  "Table option \<Rightarrow> string \<Rightarrow> string \<Rightarrow> Usage \<Rightarrow> pricing_error + int" where
  "CostUSDMicrosChecked mt provider model u =
     (case mt of
        None \<Rightarrow> Inl ErrAuthorityBound
      | Some t \<Rightarrow>
          (case (case Mapping.lookup (rates t) (mkKey provider model) of
                   Some r \<Rightarrow> Some r
                 | None \<Rightarrow> Mapping.lookup (rates t) (mkKey provider (normalizeModel model))) of
             None \<Rightarrow> Inl ErrAuthorityBound
           | Some r \<Rightarrow>
               (case sumChecked
                       [(u_Input u, InputPerMTok r), (u_Output u, OutputPerMTok r),
                        (u_CacheRead u, CacheReadPerMTok r),
                        (u_CacheWrite5m u, CacheWrite5mPerMTok r),
                        (u_CacheWrite1h u, CacheWrite1hPerMTok r)] 0 of
                  Inl e \<Rightarrow> Inl e
                | Inr cost \<Rightarrow> if \<not> in64 cost then Inl ErrInvalidCost else Inr cost)))"

fun sumBound :: "(int \<times> int) list \<Rightarrow> int \<Rightarrow> pricing_error + int" where
  "sumBound [] acc = Inr acc"
| "sumBound ((count, rate) # items) acc =
     (if rate < 0 then Inl ErrAuthorityBound
      else
        (let n = count * rate; q = n sdiv 1000000; rem = n smod 1000000
         in sumBound items (acc + (if rem > 0 then q + 1 else q))))"

definition AuthorityBound ::
  "Table option \<Rightarrow> string \<Rightarrow> string \<Rightarrow> int \<Rightarrow> int \<Rightarrow> pricing_error + int" where
  "AuthorityBound mt provider model inputLimit outputLimit =
     (case mt of
        None \<Rightarrow> Inl ErrAuthorityBound
      | Some t \<Rightarrow>
          if inputLimit \<le> 0 \<or> outputLimit \<le> 0 then Inl ErrAuthorityBound
          else
            (case findRate t provider model of
               None \<Rightarrow> Inl ErrAuthorityBound
             | Some r \<Rightarrow>
                 (case sumBound
                         [(inputLimit, InputPerMTok r), (inputLimit, CacheReadPerMTok r),
                          (inputLimit, CacheWrite5mPerMTok r),
                          (inputLimit, CacheWrite1hPerMTok r),
                          (outputLimit, OutputPerMTok r)] 0 of
                    Inl e \<Rightarrow> Inl e
                  | Inr bound \<Rightarrow> if \<not> in64 bound then Inl ErrAuthorityBound else Inr bound)))"

section \<open>Reference definitions\<close>

text \<open>Round half to even and round up of a quotient of nonnegative integers.\<close>

definition round_half_even :: "int \<Rightarrow> int \<Rightarrow> int" where
  "round_half_even n d =
     (let q = n div d; r = n mod d in if 2 * r > d \<or> (2 * r = d \<and> odd q) then q + 1 else q)"

definition round_up :: "int \<Rightarrow> int \<Rightarrow> int" where
  "round_up n d = (if n mod d > 0 then n div d + 1 else n div d)"

lemma round_half_even_nearest:
  assumes "0 < d"
  shows "2 * \<bar>n - round_half_even n d * d\<bar> \<le> d
    \<and> (2 * \<bar>n - round_half_even n d * d\<bar> = d \<longrightarrow> even (round_half_even n d))"
proof -
  define q r where "q = n div d" and "r = n mod d"
  have n: "n = q * d + r" and r: "0 \<le> r" "r < d"
    using assms by (simp_all add: q_def r_def)
  have R: "round_half_even n d = (if 2 * r > d \<or> (2 * r = d \<and> odd q) then q + 1 else q)"
    by (simp add: round_half_even_def q_def r_def Let_def)
  show ?thesis
  proof (cases "2 * r > d \<or> (2 * r = d \<and> odd q)")
    case True
    then have v: "round_half_even n d = q + 1" by (simp add: R)
    have "n - (q + 1) * d = r - d" using n by (simp add: algebra_simps)
    with True r show ?thesis unfolding v by auto
  next
    case False
    then have v: "round_half_even n d = q" by (simp add: R)
    have "n - q * d = r" using n by simp
    with False r show ?thesis unfolding v by auto
  qed
qed

lemma round_half_even_le_round_up: "0 < d \<Longrightarrow> round_half_even n d \<le> round_up n d"
  by (auto simp: round_half_even_def round_up_def Let_def)

lemma round_up_mono:
  assumes d: "0 < d" and mn: "m \<le> n"
  shows "round_up m d \<le> round_up n d"
proof -
  have div: "m div d \<le> n div d" using d mn by (simp add: zdiv_mono1)
  show ?thesis
  proof (cases "m div d = n div d")
    case True
    then have "m mod d \<le> n mod d"
      using mn by (simp add: minus_div_mult_eq_mod [symmetric])
    with True show ?thesis by (simp add: round_up_def)
  next
    case False
    with div show ?thesis by (simp add: round_up_def)
  qed
qed

lemma round_half_even_nonneg: "0 < d \<Longrightarrow> 0 \<le> n \<Longrightarrow> 0 \<le> round_half_even n d"
  by (simp add: round_half_even_def Let_def pos_imp_zdiv_nonneg_iff)

lemma sdiv_smod_nonneg:
  assumes "0 \<le> (n::int)"
  shows "n sdiv 1000000 = n div 1000000" and "n smod 1000000 = n mod 1000000"
  using assms by (simp_all add: signed_divide_int_def signed_modulo_int_def sgn_if
      minus_div_mult_eq_mod)


lemmas pricing_nonneg = round_half_even_nonneg [of 1000000] mult_nonneg_nonneg

lemma mulDivRoundHalfEven_eq:
  assumes "0 \<le> tokens" and "0 \<le> perMTok"
  shows "mulDivRoundHalfEven tokens perMTok = wrap64 (round_half_even (tokens * perMTok) 1000000)"
proof -
  have "0 \<le> tokens * perMTok" using assms by simp
  then show ?thesis
    by (auto simp: mulDivRoundHalfEven_def round_half_even_def Let_def sdiv_smod_nonneg
        wrap64_id mult.commute)
qed

lemma sumChecked_Inr:
  "sumChecked items acc = Inr c \<longleftrightarrow>
     (\<forall>(n, r) \<in> set items. 0 \<le> n \<and> 0 \<le> r) \<and>
     c = acc + (\<Sum>(n, r) \<leftarrow> items. round_half_even (n * r) 1000000)"
proof (induction items arbitrary: acc)
  case Nil
  then show ?case by auto
next
  case (Cons i items)
  then show ?case
    by (cases i) (auto simp: sdiv_smod_nonneg round_half_even_def Let_def algebra_simps)
qed

lemma sumBound_Inr:
  "\<forall>(n, r) \<in> set items. 0 \<le> n \<Longrightarrow>
   sumBound items acc = Inr c \<longleftrightarrow>
     (\<forall>(n, r) \<in> set items. 0 \<le> r) \<and>
     c = acc + (\<Sum>(n, r) \<leftarrow> items. round_up (n * r) 1000000)"
proof (induction items arbitrary: acc)
  case Nil
  then show ?case by auto
next
  case (Cons i items)
  then show ?case
    by (cases i) (auto simp: sdiv_smod_nonneg round_up_def Let_def algebra_simps)
qed

lemma rounded_le_bound:
  "0 \<le> n \<Longrightarrow> 0 \<le> r \<Longrightarrow> n \<le> l \<Longrightarrow>
   0 \<le> round_half_even (n * r) 1000000 \<and> round_half_even (n * r) 1000000 \<le> round_up (l * r) 1000000"
  using round_half_even_le_round_up [of 1000000 "n * r"]
    round_up_mono [of 1000000 "n * r" "l * r"]
  by (simp add: pricing_nonneg mult_right_mono)

lemma add64_chain:
  assumes "0 \<le> a" "0 \<le> b" "0 \<le> c" "0 \<le> d" "0 \<le> e" "in64 (a + b + c + d + e)"
  shows "add64 (add64 (add64 (add64 (add64 0 (wrap64 a)) (wrap64 b)) (wrap64 c)) (wrap64 d))
    (wrap64 e) = a + b + c + d + e"
proof -
  have "in64 a" "in64 b" "in64 c" "in64 d" "in64 e" "in64 (a + b)" "in64 (a + b + c)"
    "in64 (a + b + c + d)"
    using assms by (auto simp: in64_bounds)
  with assms(6) show ?thesis by (simp add: wrap64_id add64_exact)
qed

lemma findRate_exact_or_base:
  "findRate t p m = Some r \<Longrightarrow>
   (case Mapping.lookup (rates t) (mkKey p m) of
      Some r \<Rightarrow> Some r
    | None \<Rightarrow> Mapping.lookup (rates t) (mkKey p (normalizeModel m))) = Some r"
  by (auto simp: findRate_def Let_def split: option.splits if_splits)

lemma HasRate_findRate: "HasRate t p m \<longleftrightarrow> findRate t p m \<noteq> None"
  by (auto simp: HasRate_def findRate_def Let_def split: option.splits)

definition usage_nonneg :: "Usage \<Rightarrow> bool" where
  "usage_nonneg u \<longleftrightarrow> 0 \<le> u_Input u \<and> 0 \<le> u_Output u \<and> 0 \<le> u_CacheRead u
     \<and> 0 \<le> u_CacheWrite5m u \<and> 0 \<le> u_CacheWrite1h u"

definition usage_within :: "Usage \<Rightarrow> int \<Rightarrow> int \<Rightarrow> bool" where
  "usage_within u inputLimit outputLimit \<longleftrightarrow> usage_nonneg u
     \<and> u_Input u \<le> inputLimit \<and> u_CacheRead u \<le> inputLimit \<and> u_CacheWrite5m u \<le> inputLimit
     \<and> u_CacheWrite1h u \<le> inputLimit \<and> u_Output u \<le> outputLimit"

lemmas usage_defs = usage_within_def usage_nonneg_def

lemma checked_cost_exact:
  assumes "CostUSDMicrosChecked (Some t) provider model u = Inr c"
    and r: "findRate t provider model = Some r"
  shows "CostUSDMicros t provider model u = (c, False) \<and> 0 \<le> c"
proof -
  let ?e = "\<lambda>n q. round_half_even (n * q) 1000000"
  have c: "usage_nonneg u" "0 \<le> InputPerMTok r" "0 \<le> OutputPerMTok r"
      "0 \<le> CacheReadPerMTok r" "0 \<le> CacheWrite5mPerMTok r" "0 \<le> CacheWrite1hPerMTok r"
    and sum: "c = ?e (u_Input u) (InputPerMTok r) + ?e (u_Output u) (OutputPerMTok r)
      + ?e (u_CacheRead u) (CacheReadPerMTok r) + ?e (u_CacheWrite5m u) (CacheWrite5mPerMTok r)
      + ?e (u_CacheWrite1h u) (CacheWrite1hPerMTok r)"
    and fits: "in64 c"
    using assms(1) findRate_exact_or_base [OF r]
    by (auto simp: CostUSDMicrosChecked_def sumChecked_Inr usage_nonneg_def
        split: sum.splits if_splits simp del: sumChecked.simps)
  show ?thesis
    using c sum fits
    by (simp add: CostUSDMicros_def r mulDivRoundHalfEven_eq usage_nonneg_def add64_chain
        pricing_nonneg Let_def)
qed

section \<open>Properties\<close>

text \<open>
  One token class is charged by round-half-to-even: the charge is a nearest integer
  number of micro-USD to the exact quotient, and an even one on a tie.
\<close>

lemma cost_rounds_half_even:
  assumes "0 \<le> tokens" and "0 \<le> perMTok"
    and "in64 (round_half_even (tokens * perMTok) 1000000)"
    and "c = mulDivRoundHalfEven tokens perMTok"
  shows "2 * \<bar>tokens * perMTok - c * 1000000\<bar> \<le> 1000000
    \<and> (2 * \<bar>tokens * perMTok - c * 1000000\<bar> = 1000000 \<longrightarrow> even c)"
  using assms round_half_even_nearest [of 1000000 "tokens * perMTok"]
  by (simp add: mulDivRoundHalfEven_eq wrap64_id)

text \<open>
  The checked settlement cost and the unchecked one agree: when the model is priced and
  the checked variant returns a cost, the unchecked computation returns the same amount
  and reports no missing rate, so no intermediate sum of it wrapped around.
\<close>

lemma checked_cost_agrees:
  assumes "CostUSDMicrosChecked (Some t) provider model u = Inr c"
    and "HasRate t provider model"
  shows "CostUSDMicros t provider model u = (c, False) \<and> 0 \<le> c"
  using assms checked_cost_exact by (auto simp: HasRate_findRate)

text \<open>Each class of tokens is rounded up in the bound and to the nearest in the cost.\<close>

lemma bound_dominates:
  assumes "AuthorityBound (Some t) provider model inputLimit outputLimit = Inr b"
    and "usage_within u inputLimit outputLimit"
  shows "\<exists>c. CostUSDMicrosChecked (Some t) provider model u = Inr c
    \<and> CostUSDMicros t provider model u = (c, False) \<and> 0 \<le> c \<and> c \<le> b"
proof -
  let ?e = "\<lambda>n q. round_half_even (n * q) 1000000" and ?u = "\<lambda>n q. round_up (n * q) 1000000"
  obtain r where r: "findRate t provider model = Some r"
    and lim: "0 < inputLimit" "0 < outputLimit"
    and rate: "0 \<le> InputPerMTok r" "0 \<le> OutputPerMTok r"
      "0 \<le> CacheReadPerMTok r" "0 \<le> CacheWrite5mPerMTok r" "0 \<le> CacheWrite1hPerMTok r"
    and b: "b = ?u inputLimit (InputPerMTok r) + ?u inputLimit (CacheReadPerMTok r)
      + ?u inputLimit (CacheWrite5mPerMTok r) + ?u inputLimit (CacheWrite1hPerMTok r)
      + ?u outputLimit (OutputPerMTok r)" "in64 b"
    using assms(1)
    by (auto simp: AuthorityBound_def sumBound_Inr add.assoc simp del: sumBound.simps
        split: option.splits sum.splits if_splits)
  define c where "c = ?e (u_Input u) (InputPerMTok r) + ?e (u_Output u) (OutputPerMTok r)
      + ?e (u_CacheRead u) (CacheReadPerMTok r) + ?e (u_CacheWrite5m u) (CacheWrite5mPerMTok r)
      + ?e (u_CacheWrite1h u) (CacheWrite1hPerMTok r)"
  have u: "usage_nonneg u" using assms(2) by (simp add: usage_within_def)
  have c: "0 \<le> c \<and> c \<le> b"
    using assms(2) rate rounded_le_bound [of "u_Input u" "InputPerMTok r" inputLimit]
      rounded_le_bound [of "u_Output u" "OutputPerMTok r" outputLimit]
      rounded_le_bound [of "u_CacheRead u" "CacheReadPerMTok r" inputLimit]
      rounded_le_bound [of "u_CacheWrite5m u" "CacheWrite5mPerMTok r" inputLimit]
      rounded_le_bound [of "u_CacheWrite1h u" "CacheWrite1hPerMTok r" inputLimit]
    unfolding b(1) c_def usage_defs by linarith
  have "sumChecked [(u_Input u, InputPerMTok r), (u_Output u, OutputPerMTok r),
      (u_CacheRead u, CacheReadPerMTok r), (u_CacheWrite5m u, CacheWrite5mPerMTok r),
      (u_CacheWrite1h u, CacheWrite1hPerMTok r)] 0 = Inr c"
    unfolding sumChecked_Inr using u rate by (simp add: c_def usage_nonneg_def)
  then have "CostUSDMicrosChecked (Some t) provider model u = Inr c"
    using findRate_exact_or_base [OF r] c b(2)
    by (simp add: CostUSDMicrosChecked_def in64_bounds del: sumChecked.simps)
  then show ?thesis
    using checked_cost_exact [OF _ r] c by blast
qed

end
