(* ===== verification/Calendar.thy ===== *)
theory Calendar
  imports Prelude
begin

text \<open>
  The part of Go's \<^verbatim>\<open>time\<close> and \<^verbatim>\<open>strconv\<close> packages the gateway relies on: the proleptic
  Gregorian calendar behind \<^verbatim>\<open>Year\<close>, \<^verbatim>\<open>Month\<close>, \<^verbatim>\<open>Day\<close> and \<^verbatim>\<open>time.Date\<close>, locations, the layouts
  \<^verbatim>\<open>2006-01-02\<close> and \<^verbatim>\<open>2006-01\<close>, decimal printing and \<^verbatim>\<open>Duration.String\<close>.

  A location is the zone table's lookup function: for a second (counted from the zero time)
  it gives the offset in force and the half-open range of seconds in which it is in force.
  The table itself is data outside the repository, so it stays an argument. Instants lie at
  or after the zero time. The lemmas bracket a day between the first days of its year and of
  its month, which is what the budget windows need.
\<close>

section \<open>Decimal printing\<close>

definition digit :: "nat \<Rightarrow> char" where
  "digit d = char_of (48 + d mod 10)"

fun show_nat :: "nat \<Rightarrow> string" where
  "show_nat n = (if n < 10 then [digit n] else show_nat (n div 10) @ [digit n])"

declare show_nat.simps [simp del]

definition Itoa :: "int \<Rightarrow> string" where
  "Itoa i = (if i < 0 then ''-'' @ show_nat (nat (- i)) else show_nat (nat i))"

text \<open>A number padded with zeros to a width, as the date layouts print it.\<close>

definition pad :: "nat \<Rightarrow> nat \<Rightarrow> string" where
  "pad width n = (let s = show_nat n in replicate (width - length s) (CHR ''0'') @ s)"

text \<open>Printed numbers hold decimal digits only, so no separator the store keys use.\<close>

lemma digit_not_colon: "digit d \<noteq> CHR '':''"
proof -
  have "\<forall>k < (10::nat). char_of (48 + k) \<noteq> CHR '':''" by code_simp
  then show ?thesis by (simp add: digit_def)
qed

lemma show_nat_no_colon: "CHR '':'' \<notin> set (show_nat n)"
proof (induction n rule: show_nat.induct)
  case (1 n)
  then show ?case
    using digit_not_colon [of n] by (subst show_nat.simps) auto
qed

section \<open>Gregorian calendar\<close>

definition leap :: "int \<Rightarrow> bool" where
  "leap y \<longleftrightarrow> 4 dvd y \<and> (\<not> 100 dvd y \<or> 400 dvd y)"

text \<open>Days from 1 January of year 1 to 1 January of year \<open>y\<close>.\<close>

definition days_before_year :: "int \<Rightarrow> int" where
  "days_before_year y = 365 * (y - 1) + (y - 1) div 4 - (y - 1) div 100 + (y - 1) div 400"

definition days_before_month :: "bool \<Rightarrow> int \<Rightarrow> int" where
  "days_before_month lp m =
     (if m \<le> 1 then 0 else if m = 2 then 31
      else (if lp then 1 else 0) +
        (if m = 3 then 59 else if m = 4 then 90 else if m = 5 then 120 else if m = 6 then 151
         else if m = 7 then 181 else if m = 8 then 212 else if m = 9 then 243
         else if m = 10 then 273 else if m = 11 then 304 else if m = 12 then 334 else 365))"

function year_search :: "int \<Rightarrow> int \<Rightarrow> int" where
  "year_search n y = (if y \<le> 1 \<or> days_before_year y \<le> n then y else year_search n (y - 1))"
  by pat_completeness auto
termination
  by (relation "measure (\<lambda>(n, y). nat y)") auto

declare year_search.simps [simp del]

definition year_of_day :: "int \<Rightarrow> int" where
  "year_of_day n = year_search n (n div 365 + 1)"

fun month_search :: "bool \<Rightarrow> int \<Rightarrow> nat \<Rightarrow> int" where
  "month_search lp yd 0 = 1"
| "month_search lp yd (Suc m) =
     (if days_before_month lp (int (Suc m)) \<le> yd then int (Suc m) else month_search lp yd m)"

text \<open>Year, month and day of a day number (0 is 1 January of year 1).\<close>

definition civil :: "int \<Rightarrow> int \<times> int \<times> int" where
  "civil n =
     (let y = year_of_day n; yd = n - days_before_year y; m = month_search (leap y) yd 12
      in (y, m, yd - days_before_month (leap y) m + 1))"

text \<open>The day number \<^verbatim>\<open>time.Date\<close> computes: months outside 1 to 12 carry into the year.\<close>

definition date_days :: "int \<Rightarrow> int \<Rightarrow> int \<Rightarrow> int" where
  "date_days y m d =
     (let y' = y + (m - 1) div 12; m' = (m - 1) mod 12 + 1
      in days_before_year y' + days_before_month (leap y') m' + (d - 1))"

section \<open>Locations\<close>

type_synonym location = "int \<Rightarrow> int \<times> int \<times> int"

definition UTC :: location where
  "UTC sec = (0, 0, 0)"

definition fixed_zone :: "int \<Rightarrow> location" where
  "fixed_zone off = (\<lambda>sec. (off, MinInt64, MaxInt64))"

text \<open>The local day number of an instant: \<^verbatim>\<open>t.In(l)\<close> and then its date.\<close>

definition local_day :: "location \<Rightarrow> gotime \<Rightarrow> int" where
  "local_day l t = (let sec = t div Second; (off, _, _) = l sec in (sec + off) div 86400)"

text \<open>
  \<^verbatim>\<open>time.Date(y, m, d, 0, 0, 0, 0, l)\<close>: the offset is first looked up at the naive second
  and looked up again when the shifted second falls outside the range it is valid for.
\<close>

definition time_Date :: "int \<Rightarrow> int \<Rightarrow> int \<Rightarrow> location \<Rightarrow> gotime" where
  "time_Date y m d l =
     (let sec = 86400 * date_days y m d; (off, start, end) = l sec
      in Second *
         (if off \<noteq> 0 then
            (let utc = sec - off
             in if utc < start \<or> utc \<ge> end then sec - fst (l utc) else sec - off)
          else sec))"

definition format_day :: "location \<Rightarrow> gotime \<Rightarrow> string" where
  "format_day l t =
     (case civil (local_day l t) of (y, m, d) \<Rightarrow>
        pad 4 (nat y) @ ''-'' @ pad 2 (nat m) @ ''-'' @ pad 2 (nat d))"

definition format_month :: "location \<Rightarrow> gotime \<Rightarrow> string" where
  "format_month l t =
     (case civil (local_day l t) of (y, m, d) \<Rightarrow> pad 4 (nat y) @ ''-'' @ pad 2 (nat m))"

section \<open>Duration.String\<close>

text \<open>
  \<open>fmtFrac v prec\<close> prints the fraction \<open>v / 10 ^ prec\<close> without trailing zeros, with the
  decimal point when something is printed, and returns the integral part.
\<close>

fun fmtFrac :: "nat \<Rightarrow> nat \<Rightarrow> string \<Rightarrow> string \<times> nat" where
  "fmtFrac v 0 out = (if out = [] then [] else CHR ''.'' # out, v)"
| "fmtFrac v (Suc prec) out =
     fmtFrac (v div 10) prec (if v mod 10 \<noteq> 0 \<or> out \<noteq> [] then digit v # out else [])"

definition micro_sign :: string where
  "micro_sign = [char_of (194::nat), char_of (181::nat)]"

definition Duration_String :: "duration \<Rightarrow> string" where
  "Duration_String dur =
     (let u = nat \<bar>dur\<bar>; sign = (if dur < 0 then ''-'' else '''')
      in if u = 0 then ''0s''
         else if u < 1000 then sign @ show_nat u @ ''ns''
         else if u < 1000000 then
           (case fmtFrac u 3 [] of (frac, v) \<Rightarrow> sign @ show_nat v @ frac @ micro_sign @ ''s'')
         else if u < 1000000000 then
           (case fmtFrac u 6 [] of (frac, v) \<Rightarrow> sign @ show_nat v @ frac @ ''ms'')
         else
           (case fmtFrac u 9 [] of (frac, v) \<Rightarrow>
              (let sec = show_nat (v mod 60) @ frac @ ''s''; mins = v div 60
               in sign @
                 (if mins > 0 then
                    (let hours = mins div 60
                     in (if hours > 0 then show_nat hours @ ''h'' else '''')
                        @ show_nat (mins mod 60) @ ''m'')
                  else '''') @ sec)))"

section \<open>Budget periods\<close>

text \<open>The period names of the policy API, \<^verbatim>\<open>api/v1alpha1\<close>.\<close>

type_synonym BudgetPeriod = string

definition PeriodCalendarDay :: BudgetPeriod where
  "PeriodCalendarDay = ''CalendarDay''"

definition PeriodCalendarMonth :: BudgetPeriod where
  "PeriodCalendarMonth = ''CalendarMonth''"

section \<open>Lemmas\<close>

lemma div_pred:
  fixes k y :: int
  assumes "0 < k"
  shows "y div k = (y - 1) div k + (if k dvd y then 1 else 0)"
proof (cases "k dvd y")
  case True
  then obtain j where "y = k * j" ..
  moreover from this have "(y - 1) div k = j - 1"
    using assms by (intro int_div_pos_eq [of _ _ _ "k - 1"]) (simp_all add: algebra_simps)
  ultimately show ?thesis using assms by simp
next
  case False
  then have r: "0 < y mod k" using assms
    by (simp add: dvd_eq_mod_eq_0 order.not_eq_order_implies_strict)
  have "y mod k < k" using assms by simp
  with r have "(y - 1) div k = y div k"
    by (intro int_div_pos_eq [of _ _ _ "y mod k - 1"]) (simp, linarith+)
  with False show ?thesis by simp
qed

lemma days_before_year_Suc:
  "days_before_year (y + 1) = days_before_year y + (if leap y then 366 else 365)"
proof -
  have d: "100 dvd y \<Longrightarrow> 4 dvd y" "400 dvd y \<Longrightarrow> 100 dvd y"
    by (rule dvd_trans; simp)+
  define a a' b b' c c' p q r where "a = y div 4" "a' = (y - 1) div 4" "b = y div 100"
    "b' = (y - 1) div 100" "c = y div 400" "c' = (y - 1) div 400"
    "p \<longleftrightarrow> 4 dvd y" "q \<longleftrightarrow> 100 dvd y" "r \<longleftrightarrow> 400 dvd y"
  note quotients = this
  have "a = a' + (if p then 1 else 0)" "b = b' + (if q then 1 else 0)"
    "c = c' + (if r then 1 else 0)"
    unfolding quotients by (rule div_pred; simp)+
  moreover have "days_before_year (y + 1) = 365 * y + a - b + c"
    "days_before_year y = 365 * (y - 1) + a' - b' + c'"
    by (simp_all add: days_before_year_def quotients)
  moreover have "leap y \<longleftrightarrow> p \<and> (\<not> q \<or> r)" by (simp add: leap_def quotients)
  moreover have "q \<longrightarrow> p" "r \<longrightarrow> q" using d by (simp_all add: quotients)
  ultimately show ?thesis by (cases p; cases q; cases r) simp_all
qed

lemma days_before_year_mono1: "days_before_year y < days_before_year (y + 1)"
  by (simp add: days_before_year_Suc)

lemma year_search_bounds:
  "days_before_year 1 \<le> n \<Longrightarrow> 1 \<le> y \<Longrightarrow> n < days_before_year (y + 1) \<Longrightarrow>
   days_before_year (year_search n y) \<le> n \<and> n < days_before_year (year_search n y + 1)
   \<and> 1 \<le> year_search n y"
proof (induction n y rule: year_search.induct)
  case (1 n y)
  show ?case
  proof (cases "y \<le> 1 \<or> days_before_year y \<le> n")
    case True
    with "1.prems" show ?thesis by (auto simp: year_search.simps [of n y])
  next
    case False
    with "1.IH" "1.prems" show ?thesis by (simp add: year_search.simps [of n y])
  qed
qed

lemma year_of_day_bounds:
  assumes "0 \<le> n"
  shows "days_before_year (year_of_day n) \<le> n \<and> n < days_before_year (year_of_day n + 1)
    \<and> 1 \<le> year_of_day n"
proof -
  have y: "1 \<le> n div 365 + 1" using assms by (simp add: pos_imp_zdiv_nonneg_iff)
  define z where "z = n div 365 + 1"
  have "z div 100 \<le> z div 4" "0 \<le> z div 400"
    using y by (simp_all add: z_def zdiv_mono2 pos_imp_zdiv_nonneg_iff)
  then have "365 * z \<le> days_before_year (z + 1)" by (simp add: days_before_year_def)
  moreover have "n < 365 * z" by (simp add: z_def)
  ultimately have "n < days_before_year (n div 365 + 1 + 1)" by (simp add: z_def)
  with y assms show ?thesis
    unfolding year_of_day_def by (intro year_search_bounds) (simp_all add: days_before_year_def)
qed

lemma month_search_bounds:
  "0 \<le> yd \<Longrightarrow> 1 \<le> month_search lp yd k \<and> month_search lp yd k \<le> max 1 (int k)
   \<and> days_before_month lp (month_search lp yd k) \<le> yd
   \<and> (yd < days_before_month lp (int k + 1) \<longrightarrow> yd < days_before_month lp (month_search lp yd k + 1))"
proof (induction k)
  case 0
  then show ?case by (simp add: days_before_month_def)
next
  case (Suc k)
  then show ?case by (auto simp: add.commute)
qed

lemma civil_bounds:
  assumes "0 \<le> n" and "civil n = (y, m, d)"
  shows "date_days y m 1 \<le> n" and "n < date_days y (m + 1) 1" and "date_days y m d = n"
    and "1 \<le> m" and "m \<le> 12" and "1 \<le> y"
proof -
  define yd where "yd = n - days_before_year y"
  have y: "y = year_of_day n" and m: "m = month_search (leap y) yd 12"
    and d: "d = yd - days_before_month (leap y) m + 1"
    using assms(2) by (auto simp: civil_def Let_def yd_def)
  have yb: "days_before_year y \<le> n" "n < days_before_year (y + 1)" "1 \<le> y"
    using year_of_day_bounds [OF assms(1)] by (simp_all add: y)
  have "yd < days_before_month (leap y) (int 12 + 1)"
    using yb(2) by (cases "leap y") (simp_all add: yd_def days_before_year_Suc days_before_month_def)
  then have mb: "1 \<le> m" "m \<le> 12" "days_before_month (leap y) m \<le> yd"
      "yd < days_before_month (leap y) (m + 1)"
    using month_search_bounds [of yd "leap y" 12] yb(1) by (simp_all add: m yd_def)
  have m1: "(m - 1) div 12 = 0" "(m - 1) mod 12 = m - 1"
    using mb(1,2) by (simp_all add: div_pos_pos_trivial mod_pos_pos_trivial)
  then have norm: "date_days y m k = days_before_year y + days_before_month (leap y) m + (k - 1)" for k
    by (simp add: date_days_def)
  show "date_days y m 1 \<le> n" "date_days y m d = n"
    using mb(3) by (simp_all add: norm d yd_def)
  show "n < date_days y (m + 1) 1"
  proof (cases "m = 12")
    case True
    then show ?thesis
      using yb(2) by (simp add: date_days_def days_before_month_def)
  next
    case False
    with mb(1,2) have "m div 12 = 0" "m mod 12 = m"
      by (simp_all add: div_pos_pos_trivial mod_pos_pos_trivial)
    then show ?thesis
      using mb(4) by (simp add: date_days_def yd_def)
  qed
  show "1 \<le> m" "m \<le> 12" "1 \<le> y" by fact+
qed

text \<open>Months follow one another, so the month of a day is the only one that contains it.\<close>

lemma date_days_shift: "date_days y m d = date_days 0 (12 * y + m) d"
proof -
  have e: "12 * y + m - 1 = m - 1 + y * 12" by simp
  have "(12 * y + m - 1) div 12 = y + (m - 1) div 12" "(12 * y + m - 1) mod 12 = (m - 1) mod 12"
    unfolding e by simp_all
  then show ?thesis by (simp add: date_days_def)
qed

lemma month_step: "date_days 0 m 1 < date_days 0 (m + 1) 1"
proof -
  define q r where "q = (m - 1) div 12" "r = (m - 1) mod 12"
  have r: "0 \<le> r" "r < 12" and m: "m = 12 * q + r + 1"
    using div_mult_mod_eq [of "m - 1" 12] by (simp_all add: q_r_def)
  have now: "date_days 0 m 1 = days_before_year q + days_before_month (leap q) (r + 1)"
    by (simp add: date_days_def q_r_def Let_def)
  show ?thesis
  proof (cases "r = 11")
    case True
    then have "m div 12 = q + 1" "m mod 12 = 0" using m by simp_all
    then have "date_days 0 (m + 1) 1 = days_before_year (q + 1)"
      by (simp add: date_days_def days_before_month_def)
    then show ?thesis
      using True now by (simp add: days_before_year_Suc days_before_month_def)
  next
    case False
    then have "m div 12 = q" "m mod 12 = r + 1"
      using m r int_div_pos_eq [of m 12 q "r + 1"] int_mod_pos_eq [of m 12 q "r + 1"] by simp_all
    then have "date_days 0 (m + 1) 1 = days_before_year q + days_before_month (leap q) (r + 2)"
      by (simp add: date_days_def add.commute)
    moreover have "days_before_month (leap q) (r + 1) < days_before_month (leap q) (r + 2)"
      using r False by (simp add: days_before_month_def) arith
    ultimately show ?thesis using now by simp
  qed
qed

lemma month_mono:
  assumes "a \<le> b"
  shows "date_days 0 a 1 \<le> date_days 0 b 1"
  using assms
proof (induction b rule: int_ge_induct)
  case (step i)
  then show ?case using month_step [of i] by simp
qed simp

lemma civil_unique:
  assumes "0 \<le> n" "0 \<le> k" "civil n = (y, m, d)" "civil k = (y', m', d')"
    and "date_days y m 1 \<le> k" "k < date_days y (m + 1) 1"
  shows "y' = y \<and> m' = m"
proof -
  note b = civil_bounds [OF assms(1,3)] and b' = civil_bounds [OF assms(2,4)]
  have "12 * y + m \<le> 12 * y' + m'"
  proof (rule ccontr)
    assume "\<not> 12 * y + m \<le> 12 * y' + m'"
    then have "date_days y' (m' + 1) 1 \<le> date_days y m 1"
      using month_mono [of "12 * y' + (m' + 1)" "12 * y + m"] by (simp flip: date_days_shift)
    then show False using assms(5) b'(2) by simp
  qed
  moreover have "12 * y' + m' \<le> 12 * y + m"
  proof (rule ccontr)
    assume "\<not> 12 * y' + m' \<le> 12 * y + m"
    then have "date_days y (m + 1) 1 \<le> date_days y' m' 1"
      using month_mono [of "12 * y + (m + 1)" "12 * y' + m'"] by (simp flip: date_days_shift)
    then show False using assms(6) b'(1) by simp
  qed
  ultimately have eq: "12 * y' + m' = 12 * y + m" by simp
  then show ?thesis using b(4,5) b'(4,5) by presburger
qed

end
