(* ===== verification/Counter.thy ===== *)
theory Counter
  imports Prelude
begin

text \<open>
  The contract the money store and the token-quota store share: counters that live in a time
  window, an optimistic check against a limit and a debit after the fact. A client such as
  the governor relies on the contract only; the stores discharge it for their own
  definitions. \<open>aux\<close> stands for whatever else a store can be asked to do in between.
\<close>

datatype ('w, 'x) counter_op =
    CCheck gotime string int int 'w
  | CDebit gotime string int 'w
  | CAux 'x

fun counter_step ::
  "(gotime \<Rightarrow> string \<Rightarrow> int \<Rightarrow> int \<Rightarrow> 'w \<Rightarrow> 's \<Rightarrow> 's \<times> 'd) \<Rightarrow>
   (gotime \<Rightarrow> string \<Rightarrow> int \<Rightarrow> 'w \<Rightarrow> 's \<Rightarrow> 's) \<Rightarrow> ('x \<Rightarrow> 's \<Rightarrow> 's) \<Rightarrow>
   ('w, 'x) counter_op \<Rightarrow> 's \<Rightarrow> 's" where
  "counter_step check debit aux (CCheck t k est lim w) s = fst (check t k est lim w s)"
| "counter_step check debit aux (CDebit t k amount w) s = debit t k amount w s"
| "counter_step check debit aux (CAux x) s = aux x s"

fun counter_run ::
  "(gotime \<Rightarrow> string \<Rightarrow> int \<Rightarrow> int \<Rightarrow> 'w \<Rightarrow> 's \<Rightarrow> 's \<times> 'd) \<Rightarrow>
   (gotime \<Rightarrow> string \<Rightarrow> int \<Rightarrow> 'w \<Rightarrow> 's \<Rightarrow> 's) \<Rightarrow> ('x \<Rightarrow> 's \<Rightarrow> 's) \<Rightarrow>
   ('w, 'x) counter_op list \<Rightarrow> 's \<Rightarrow> 's" where
  "counter_run check debit aux [] s = s"
| "counter_run check debit aux (x # xs) s =
     counter_run check debit aux xs (counter_step check debit aux x s)"

fun op_time :: "('x \<Rightarrow> gotime) \<Rightarrow> ('w, 'x) counter_op \<Rightarrow> gotime" where
  "op_time aux_time (CCheck t k est lim w) = t"
| "op_time aux_time (CDebit t k amount w) = t"
| "op_time aux_time (CAux x) = aux_time x"

fun debit_to :: "string \<Rightarrow> ('w, 'x) counter_op \<Rightarrow> int" where
  "debit_to key (CDebit t k amount w) = (if k = key then amount else 0)"
| "debit_to key _ = 0"

definition debits_to :: "string \<Rightarrow> ('w, 'x) counter_op list \<Rightarrow> int" where
  "debits_to key ops = (\<Sum>x \<leftarrow> ops. debit_to key x)"

locale window_counter =
  fixes usage :: "gotime \<Rightarrow> 's \<Rightarrow> string \<Rightarrow> int option"
    and inv :: "'s \<Rightarrow> bool"
    and check :: "gotime \<Rightarrow> string \<Rightarrow> int \<Rightarrow> int \<Rightarrow> 'w \<Rightarrow> 's \<Rightarrow> 's \<times> 'd"
    and blocks :: "'d \<Rightarrow> bool"
    and debit :: "gotime \<Rightarrow> string \<Rightarrow> int \<Rightarrow> 'w \<Rightarrow> 's \<Rightarrow> 's"
    and aux :: "'x \<Rightarrow> 's \<Rightarrow> 's"
    and aux_time :: "'x \<Rightarrow> gotime"
  assumes inv_check: "inv s \<Longrightarrow> inv (fst (check t key est lim w s))"
    and inv_debit: "inv s \<Longrightarrow> inv (debit t key amount w s)"
    and inv_aux: "inv s \<Longrightarrow> inv (aux x s)"
    and check_frame: "inv s \<Longrightarrow> t \<le> t' \<Longrightarrow> usage t' s k = Some u \<Longrightarrow>
      usage t' (fst (check t key est lim w s)) k = Some u"
    and debit_law: "inv s \<Longrightarrow> t \<le> t' \<Longrightarrow> usage t' s k = Some u \<Longrightarrow>
      usage t' (debit t key amount w s) k = Some (if k = key then add64 u amount else u)"
    and aux_frame: "inv s \<Longrightarrow> aux_time x \<le> t' \<Longrightarrow> usage t' s k = Some u \<Longrightarrow>
      usage t' (aux x s) k = Some u"
    and check_law: "inv s \<Longrightarrow> 0 < lim \<Longrightarrow> usage t s key = Some u \<Longrightarrow>
      blocks (snd (check t key est lim w s)) \<longleftrightarrow> lim < add64 u est"
begin

lemma step_inv: "inv s \<Longrightarrow> inv (counter_step check debit aux x s)"
  by (cases x) (simp_all add: inv_check inv_debit inv_aux)

lemma run_inv: "inv s \<Longrightarrow> inv (counter_run check debit aux ops s)"
  by (induction ops arbitrary: s) (simp_all add: step_inv)

lemma step_usage:
  assumes "inv s" and "op_time aux_time x \<le> t" and "usage t s k = Some (wrap64 u)"
  shows "usage t (counter_step check debit aux x s) k = Some (wrap64 (u + debit_to k x))"
  using assms by (cases x) (simp_all add: check_frame debit_law aux_frame add64_wrap)

text \<open>Whatever is interleaved, a live window counts exactly the debits made to it.\<close>

lemma run_usage:
  assumes "inv s" and "\<forall>x \<in> set ops. op_time aux_time x \<le> t" and "usage t s k = Some (wrap64 u)"
  shows "usage t (counter_run check debit aux ops s) k = Some (wrap64 (u + debits_to k ops))
    \<and> inv (counter_run check debit aux ops s)"
  using assms
proof (induction ops arbitrary: s u)
  case Nil
  then show ?case by (simp add: debits_to_def)
next
  case (Cons x ops)
  then have "usage t (counter_step check debit aux x s) k = Some (wrap64 (u + debit_to k x))"
    by (simp add: step_usage)
  with Cons show ?case by (simp add: step_inv debits_to_def add.assoc)
qed

lemma run_blocks:
  assumes "inv s" and "\<forall>x \<in> set ops. op_time aux_time x \<le> t" and "usage t s k = Some u"
    and "in64 u" and "0 < lim" and "in64 (u + debits_to k ops + est)"
  shows "blocks (snd (check t k est lim w (counter_run check debit aux ops s)))
    \<longleftrightarrow> lim < u + debits_to k ops + est"
proof -
  have "usage t s k = Some (wrap64 u)" using assms(3,4) by (simp add: wrap64_id)
  from run_usage [OF assms(1,2) this] show ?thesis
    using assms(5,6) by (simp add: check_law add64_wrap wrap64_id)
qed

end

end
