(* ===== verification/Budget.thy ===== *)
theory Budget
  imports Calendar Counter
begin

text \<open>
  The in-memory budget counters of \<^verbatim>\<open>internal/budget\<close>: windows and their boundaries,
  the store keys, and the \<^verbatim>\<open>Memory\<close> store with its amortised sweep and its
  at-capacity fail-safe. The store's mutex makes every method one atomic step; the reading of
  the clock a method takes is an argument. A method returns the new store first.

  The lemmas show where a window ends, that two counters never share a key, that the sweep
  is not observable, that the store never exceeds its capacity and never refuses a key it
  tracks, and that the spend of a live window is exactly the sum of the debits made to it,
  whatever else happens in between.
\<close>

section \<open>Windows\<close>

datatype WindowKind = Rolling | CalDay | CalMonth

record Window =
  Kind :: WindowKind
  Dur :: duration
  Loc :: "location option"

definition CalendarDayIn :: "location option \<Rightarrow> Window" where
  "CalendarDayIn l = \<lparr>Kind = CalDay, Dur = 0, Loc = l\<rparr>"

definition CalendarMonthIn :: "location option \<Rightarrow> Window" where
  "CalendarMonthIn l = \<lparr>Kind = CalMonth, Dur = 0, Loc = l\<rparr>"

definition Tag :: "Window \<Rightarrow> string" where
  "Tag w = (case Kind w of
     CalDay \<Rightarrow> ''day'' | CalMonth \<Rightarrow> ''month'' | Rolling \<Rightarrow> ''r'' @ Duration_String (Dur w))"

definition window_loc :: "Window \<Rightarrow> location" where
  "window_loc w = (case Loc w of None \<Rightarrow> UTC | Some l \<Rightarrow> l)"

definition nextMidnight :: "location \<Rightarrow> gotime \<Rightarrow> gotime" where
  "nextMidnight l t = (case civil (local_day l t) of (y, m, d) \<Rightarrow> time_Date y m (d + 1) l)"

definition nextMonth :: "location \<Rightarrow> gotime \<Rightarrow> gotime" where
  "nextMonth l t = (case civil (local_day l t) of (y, m, d) \<Rightarrow> time_Date y (m + 1) 1 l)"

definition windowEnd :: "gotime \<Rightarrow> Window \<Rightarrow> gotime" where
  "windowEnd t w =
     (case Kind w of
        CalDay \<Rightarrow> nextMidnight (window_loc w) t
      | CalMonth \<Rightarrow> nextMonth (window_loc w) t
      | Rolling \<Rightarrow> time_add t (Dur w))"

definition ScopeTeam :: string where "ScopeTeam = ''team''"
definition ScopeKey :: string where "ScopeKey = ''key''"
definition ScopeUser :: string where "ScopeUser = ''user''"

definition budget_key :: "string \<Rightarrow> string \<Rightarrow> Window \<Rightarrow> string" where
  "budget_key scope ident w = ''budget:'' @ Tag w @ '':'' @ scope @ '':'' @ ident"

section \<open>The store\<close>

datatype Decision = Allow | Block | BlockCapacity

record win =
  win_spent :: int
  win_end :: gotime

record Memory =
  bm :: "(string, win) mapping"
  maxEntries :: int
  sweepTick :: int
  rejected :: int

definition sweepEvery :: int where "sweepEvery = 256"
definition defaultMaxEntries :: int where "defaultMaxEntries = 100000"

definition NewMemory :: Memory where
  "NewMemory = \<lparr>bm = Mapping.empty, maxEntries = defaultMaxEntries, sweepTick = 0, rejected = 0\<rparr>"

definition Rejections :: "Memory \<Rightarrow> int" where
  "Rejections b = rejected b"

definition sweepExpired :: "gotime \<Rightarrow> Memory \<Rightarrow> Memory" where
  "sweepExpired t b = b\<lparr>bm := Mapping.filter (\<lambda>k v. t < win_end v) (bm b)\<rparr>"

definition tickSweep :: "gotime \<Rightarrow> Memory \<Rightarrow> Memory" where
  "tickSweep t b =
     (let n = sweepTick b + 1
      in if n \<ge> sweepEvery then sweepExpired t (b\<lparr>sweepTick := 0\<rparr>) else b\<lparr>sweepTick := n\<rparr>)"

definition fresh :: "gotime \<Rightarrow> string \<Rightarrow> Window \<Rightarrow> Memory \<Rightarrow> Memory \<times> win option" where
  "fresh t key w b =
     (let bkt = \<lparr>win_spent = 0, win_end = windowEnd t w\<rparr>
      in (b\<lparr>bm := Mapping.update key bkt (bm b)\<rparr>, Some bkt))"

definition cur :: "gotime \<Rightarrow> string \<Rightarrow> Window \<Rightarrow> Memory \<Rightarrow> Memory \<times> win option" where
  "cur t key w b0 =
     (let b = tickSweep t b0
      in case Mapping.lookup (bm b) key of
           Some bkt \<Rightarrow> if t < win_end bkt then (b, Some bkt) else fresh t key w b
         | None \<Rightarrow>
             if int (Mapping.size (bm b)) \<ge> maxEntries b then
               (let b' = sweepExpired t b
                in if int (Mapping.size (bm b')) \<ge> maxEntries b'
                   then (b'\<lparr>rejected := add64 (rejected b') 1\<rparr>, None)
                   else fresh t key w b')
             else fresh t key w b)"

definition Check :: "gotime \<Rightarrow> string \<Rightarrow> int \<Rightarrow> int \<Rightarrow> Window \<Rightarrow> Memory \<Rightarrow> Memory \<times> Decision" where
  "Check t key estimateMicros limitMicros w b =
     (if limitMicros \<le> 0 then (b, Allow)
      else case cur t key w b of
             (b', None) \<Rightarrow> (b', BlockCapacity)
           | (b', Some bkt) \<Rightarrow>
               (b', if add64 (win_spent bkt) estimateMicros > limitMicros then Block else Allow))"

definition Debit :: "gotime \<Rightarrow> string \<Rightarrow> int \<Rightarrow> Window \<Rightarrow> Memory \<Rightarrow> Memory" where
  "Debit t key actualMicros w b =
     (case cur t key w b of
        (b', None) \<Rightarrow> b'
      | (b', Some bkt) \<Rightarrow>
          b'\<lparr>bm := Mapping.update key
                (bkt\<lparr>win_spent := add64 (win_spent bkt) actualMicros\<rparr>) (bm b')\<rparr>)"

definition Spent :: "gotime \<Rightarrow> string \<Rightarrow> Window \<Rightarrow> Memory \<Rightarrow> Memory \<times> int" where
  "Spent t key w b =
     (case cur t key w b of (b', None) \<Rightarrow> (b', 0) | (b', Some bkt) \<Rightarrow> (b', win_spent bkt))"

text \<open>\<^verbatim>\<open>ResetsAt\<close> reads the clock a second time when the store is full.\<close>

definition ResetsAt ::
  "gotime \<Rightarrow> gotime \<Rightarrow> string \<Rightarrow> Window \<Rightarrow> Memory \<Rightarrow> Memory \<times> gotime" where
  "ResetsAt t t' key w b =
     (case cur t key w b of
        (b', None) \<Rightarrow> (b', windowEnd t' w) | (b', Some bkt) \<Rightarrow> (b', win_end bkt))"

section \<open>Window boundaries\<close>

lemma date_days_Suc: "date_days y m (d + 1) = date_days y m d + 1"
  by (simp add: date_days_def Let_def)

lemma UTC_fixed: "time_Date y m d UTC = Second * 86400 * date_days y m d"
  by (simp add: time_Date_def UTC_def)

text \<open>A zone whose offset never changes: UTC and every fixed zone.\<close>

definition constant_zone :: "location \<Rightarrow> int \<Rightarrow> bool" where
  "constant_zone l off \<longleftrightarrow> (\<forall>s. fst (l s) = off)"

lemma constant_zone_UTC: "constant_zone UTC 0"
  by (simp add: constant_zone_def UTC_def)

lemma constant_zone_fixed: "constant_zone (fixed_zone off) off"
  by (simp add: constant_zone_def fixed_zone_def)

lemma constant_zone_Date:
  assumes "constant_zone l off"
  shows "time_Date y m d l = Second * (86400 * date_days y m d - off)"
  using assms by (auto simp: time_Date_def constant_zone_def Let_def split: prod.splits)
    (metis fst_conv)+

lemma constant_zone_day:
  "constant_zone l off \<Longrightarrow> local_day l t = (t div Second + off) div 86400"
  by (auto simp: local_day_def constant_zone_def Let_def split: prod.splits) (metis fst_conv)

lemma div_less_mult: "0 < k \<Longrightarrow> x div k < n \<Longrightarrow> x < k * n" for k x n :: int
proof -
  assume a: "0 < k" "x div k < n"
  have eq: "x = k * (x div k) + x mod k" "x mod k < k" using a by simp_all
  have "k * (x div k + 1) \<le> k * n" using a by (intro mult_left_mono) simp_all
  then have "k * (x div k) + k \<le> k * n" by (simp add: distrib_left)
  with eq show ?thesis by linarith
qed

lemma before_next_day:
  assumes "(t div Second + off) div 86400 < n"
  shows "t < Second * (86400 * n - off)"
proof -
  have "t div Second + off < 86400 * n"
    using assms by (intro div_less_mult) simp_all
  then have "t div Second < 86400 * n - off" by simp
  then show ?thesis by (intro div_less_mult) (simp_all add: Second_def)
qed

lemma windowEnd_constant_zone:
  assumes "constant_zone (window_loc w) off" and "Kind w \<noteq> Rolling" and "0 \<le> t div Second + off"
  shows "t < windowEnd t w"
proof -
  let ?n = "local_day (window_loc w) t"
  obtain y m d where c: "civil ?n = (y, m, d)" by (cases "civil ?n") auto
  have n: "?n = (t div Second + off) div 86400" "0 \<le> ?n"
    using assms by (simp_all add: constant_zone_day pos_imp_zdiv_nonneg_iff)
  have "?n < date_days y m (d + 1)" "?n < date_days y (m + 1) 1"
    using civil_bounds [OF n(2) c] by (simp_all add: date_days_Suc)
  then show ?thesis
    using assms(2) before_next_day [of t off] unfolding n(1)
    by (cases "Kind w")
      (simp_all add: windowEnd_def nextMidnight_def nextMonth_def c [unfolded n(1)] constant_zone_Date [OF assms(1)] n(1))
qed


section \<open>Store keys\<close>

lemma fmtFrac_no_colon:
  "CHR '':'' \<notin> set out \<Longrightarrow> fmtFrac v prec out = (fr, n) \<Longrightarrow> CHR '':'' \<notin> set fr"
proof (induction v prec out rule: fmtFrac.induct)
  case (1 v out)
  then show ?case by (auto split: if_splits)
next
  case (2 v prec out)
  have "CHR '':'' \<notin> set (if v mod 10 \<noteq> 0 \<or> out \<noteq> [] then digit v # out else [])"
    using "2.prems"(1) digit_not_colon [of v] by auto
  with "2.IH" "2.prems"(2) show ?case by simp
qed

lemma Duration_String_no_colon: "CHR '':'' \<notin> set (Duration_String d)"
proof -
  have micro: "CHR '':'' \<notin> set micro_sign" by code_simp
  have frac: "CHR '':'' \<notin> set (fst (fmtFrac v prec []))" for v prec
    using fmtFrac_no_colon [of "[]" v prec] by (cases "fmtFrac v prec []") auto
  show ?thesis
    using frac [of "nat \<bar>d\<bar>"] micro
    by (simp add: Duration_String_def Let_def show_nat_no_colon case_prod_unfold)
qed

lemma Tag_no_colon: "CHR '':'' \<notin> set (Tag w)"
  by (cases "Kind w") (simp_all add: Tag_def Duration_String_no_colon)

lemma split_at_colon:
  assumes "xs @ CHR '':'' # ys = xs' @ CHR '':'' # ys'"
    and "CHR '':'' \<notin> set xs" and "CHR '':'' \<notin> set xs'"
  shows "xs = xs' \<and> ys = ys'"
  using assms
proof (induction xs arbitrary: xs')
  case Nil
  then show ?case by (cases xs') auto
next
  case (Cons x xs)
  then show ?case by (cases xs') auto
qed

lemma scopes_no_colon:
  "scope \<in> {ScopeTeam, ScopeKey, ScopeUser} \<Longrightarrow> CHR '':'' \<notin> set scope"
  by (auto simp: ScopeTeam_def ScopeKey_def ScopeUser_def)


lemma budget_key_inj:
  assumes "scope \<in> {ScopeTeam, ScopeKey, ScopeUser}" and "scope' \<in> {ScopeTeam, ScopeKey, ScopeUser}"
    and "budget_key scope ident w = budget_key scope' ident' w'"
  shows "Tag w = Tag w' \<and> scope = scope' \<and> ident = ident'"
proof -
  have eq: "Tag w @ CHR '':'' # scope @ CHR '':'' # ident
      = Tag w' @ CHR '':'' # scope' @ CHR '':'' # ident'"
    using assms(3) by (simp add: budget_key_def)
  then show ?thesis
    using split_at_colon [OF eq Tag_no_colon Tag_no_colon]
      split_at_colon [OF _ scopes_no_colon [OF assms(1)] scopes_no_colon [OF assms(2)]]
    by blast
qed


section \<open>Live windows\<close>

definition live :: "gotime \<Rightarrow> Memory \<Rightarrow> string \<Rightarrow> win option" where
  "live t b k = (case Mapping.lookup (bm b) k of
     None \<Rightarrow> None | Some v \<Rightarrow> if t < win_end v then Some v else None)"

definition spend_view :: "gotime \<Rightarrow> Memory \<Rightarrow> string \<Rightarrow> int" where
  "spend_view t b k = (case live t b k of None \<Rightarrow> 0 | Some v \<Rightarrow> win_spent v)"

definition live_keys :: "gotime \<Rightarrow> Memory \<Rightarrow> string set" where
  "live_keys t b = {k. live t b k \<noteq> None}"

definition wf_store :: "Memory \<Rightarrow> bool" where
  "wf_store b \<longleftrightarrow> finite (Mapping.keys (bm b)) \<and> int (Mapping.size (bm b)) \<le> maxEntries b"

lemma live_Some_iff:
  "live t b k = Some v \<longleftrightarrow> Mapping.lookup (bm b) k = Some v \<and> t < win_end v"
  by (auto simp: live_def split: option.splits if_splits)

lemma live_update:
  "live t (b\<lparr>bm := Mapping.update key v (bm b)\<rparr>) k =
     (if k = key then (if t < win_end v then Some v else None) else live t b k)"
  by (auto simp: live_def lookup_update')

lemma lookup_sweepExpired:
  "Mapping.lookup (bm (sweepExpired t b)) k = live t b k"
  by (auto simp: sweepExpired_def live_def lookup_filter split: option.splits)

lemma live_sweepExpired: "t \<le> t' \<Longrightarrow> live t' (sweepExpired t b) k = live t' b k"
  by (auto simp: live_def [of t' "sweepExpired t b"] lookup_sweepExpired live_def
      split: option.splits)

lemma keys_sweepExpired: "Mapping.keys (bm (sweepExpired t b)) = live_keys t b"
  by (auto simp: keys_lookup lookup_sweepExpired live_keys_def)

lemma live_keys_subset: "live_keys t b \<subseteq> Mapping.keys (bm b)"
  by (auto simp: live_keys_def live_def keys_lookup split: option.splits)

lemma sweepExpired_sel [simp]:
  "maxEntries (sweepExpired t b) = maxEntries b" "rejected (sweepExpired t b) = rejected b"
  by (simp_all add: sweepExpired_def)

lemma tickSweep_sel [simp]:
  "maxEntries (tickSweep t b) = maxEntries b" "rejected (tickSweep t b) = rejected b"
  by (simp_all add: tickSweep_def Let_def)

lemma tickSweep_cases:
  obtains "bm (tickSweep t b) = bm b" | "bm (tickSweep t b) = bm (sweepExpired t b)"
  by (cases "sweepTick b + 1 \<ge> sweepEvery") (auto simp: tickSweep_def sweepExpired_def Let_def)

lemma live_rejected [simp]: "live t (b\<lparr>rejected := n\<rparr>) = live t b"
  by (simp add: live_def fun_eq_iff)

lemma live_cong: "bm b = bm b' \<Longrightarrow> live t b = live t b'"
  by (simp add: live_def fun_eq_iff)

lemma live_tickSweep: "t \<le> t' \<Longrightarrow> live t' (tickSweep t b) k = live t' b k"
  by (rule tickSweep_cases [of t b]) (metis live_cong live_sweepExpired)+

lemma live_keys_tickSweep: "live_keys t (tickSweep t b) = live_keys t b"
  by (simp add: live_keys_def live_tickSweep)

lemma wf_sweepExpired: "wf_store b \<Longrightarrow> wf_store (sweepExpired t b)"
  unfolding wf_store_def size_card keys_sweepExpired
  using live_keys_subset [of t b] card_mono [of "Mapping.keys (bm b)" "live_keys t b"]
  by (auto intro: finite_subset)

lemma wf_tickSweep: "wf_store b \<Longrightarrow> wf_store (tickSweep t b)"
  using wf_sweepExpired [of b t]
  by (rule_tac tickSweep_cases [of t b]) (simp_all add: wf_store_def)

text \<open>A window that is tracked but has ended is swept only together with its entry.\<close>

lemma swept_key_leaves_room:
  assumes "wf_store b" and "Mapping.lookup (bm b) key \<noteq> None"
    and "Mapping.lookup (bm (tickSweep t b)) key = None"
  shows "int (Mapping.size (bm (tickSweep t b))) < maxEntries b"
proof -
  have sub: "Mapping.keys (bm (tickSweep t b)) \<subseteq> Mapping.keys (bm b) - {key}"
  proof (rule tickSweep_cases [of t b])
    assume "bm (tickSweep t b) = bm b"
    with assms(2,3) show ?thesis by simp
  next
    assume "bm (tickSweep t b) = bm (sweepExpired t b)"
    with assms(3) live_keys_subset [of t b] show ?thesis
      by (auto simp: keys_sweepExpired [symmetric] keys_lookup)
  qed
  have "key \<in> Mapping.keys (bm b)" "finite (Mapping.keys (bm b))"
    using assms by (auto simp: keys_lookup wf_store_def)
  then have "card (Mapping.keys (bm (tickSweep t b))) < card (Mapping.keys (bm b))"
    using sub by (metis Diff_insert_absorb card_Diff1_less card_mono finite_Diff order.strict_trans1)
  with assms(1) show ?thesis by (simp add: wf_store_def size_card)
qed

section \<open>The current bucket\<close>

text \<open>
  What \<^verbatim>\<open>cur\<close> answers, over the live windows: a live window is returned, anything else
  starts a window at zero, and only an untracked key at a store full of live windows is
  refused.
\<close>

definition refused :: "gotime \<Rightarrow> string \<Rightarrow> Memory \<Rightarrow> bool" where
  "refused t key b \<longleftrightarrow> Mapping.lookup (bm b) key = None \<and> maxEntries b \<le> int (card (live_keys t b))"

lemma cur_live:
  assumes "live t b key = Some v"
  shows "cur t key w b = (tickSweep t b, Some v)"
proof -
  have "live t (tickSweep t b) key = Some v" using assms by (simp add: live_tickSweep)
  then show ?thesis by (simp add: cur_def Let_def live_Some_iff)
qed

lemma swept_size: "Mapping.size (bm (sweepExpired t (tickSweep t b))) = card (live_keys t b)"
  by (simp add: size_card keys_sweepExpired live_keys_tickSweep)

lemma live_le_size:
  assumes "wf_store b"
  shows "card (live_keys t b) \<le> Mapping.size (bm (tickSweep t b))"
proof -
  have "finite (Mapping.keys (bm (tickSweep t b)))"
    using wf_tickSweep [OF assms, of t] by (simp add: wf_store_def)
  then show ?thesis
    using live_keys_subset [of t "tickSweep t b"]
    by (simp add: size_card live_keys_tickSweep card_mono)
qed

lemma lookup_tickSweep_None:
  "Mapping.lookup (bm b) key = None \<Longrightarrow> Mapping.lookup (bm (tickSweep t b)) key = None"
  by (rule tickSweep_cases [of t b]) (simp_all add: lookup_sweepExpired live_def)

lemma cur_refused:
  assumes "wf_store b" and "refused t key b"
  shows "cur t key w b =
    ((sweepExpired t (tickSweep t b))\<lparr>rejected := add64 (rejected b) 1\<rparr>, None)"
proof -
  have "maxEntries b \<le> int (Mapping.size (bm (tickSweep t b)))"
    "maxEntries b \<le> int (Mapping.size (bm (sweepExpired t (tickSweep t b))))"
    using assms live_le_size [of b t] by (simp_all add: refused_def swept_size)
  then show ?thesis
    using assms by (simp add: cur_def Let_def refused_def lookup_tickSweep_None)
qed

lemma cur_fresh:
  assumes "wf_store b" and "live t b key = None" and "\<not> refused t key b"
  shows "\<exists>b'. cur t key w b = fresh t key w b'
    \<and> (b' = tickSweep t b \<or> b' = sweepExpired t (tickSweep t b))
    \<and> (Mapping.lookup (bm b') key = None \<longrightarrow> int (Mapping.size (bm b')) < maxEntries b')"
proof -
  let ?b = "tickSweep t b"
  have dead: "live t ?b key = None" using assms(2) by (simp add: live_tickSweep)
  show ?thesis
  proof (cases "Mapping.lookup (bm ?b) key")
    case (Some v)
    with dead have "\<not> t < win_end v" by (auto simp: live_def)
    with Some show ?thesis by (auto simp: cur_def Let_def)
  next
    case None
    show ?thesis
    proof (cases "maxEntries b \<le> int (Mapping.size (bm ?b))")
      case True
      have "Mapping.lookup (bm b) key = None"
        using swept_key_leaves_room [OF assms(1) _ None] True by linarith
      with assms(3) have "\<not> maxEntries b \<le> int (Mapping.size (bm (sweepExpired t ?b)))"
        by (simp add: refused_def swept_size)
      with True None show ?thesis by (auto simp: cur_def Let_def)
    next
      case False
      with None show ?thesis by (auto simp: cur_def Let_def)
    qed
  qed
qed

lemma wf_fresh:
  assumes "wf_store b" and "Mapping.lookup (bm b) key = None \<longrightarrow> int (Mapping.size (bm b)) < maxEntries b"
  shows "wf_store (fst (fresh t key w b))"
  using assms
  by (cases "key \<in> Mapping.keys (bm b)")
    (auto simp: wf_store_def fresh_def Let_def size_card insert_absorb keys_lookup)

lemmas cur_outcomes = cur_live cur_refused cur_fresh

lemma wf_cur: "wf_store b \<Longrightarrow> wf_store (fst (cur t key w b))"
proof -
  assume wf: "wf_store b"
  note sweeps = wf wf_tickSweep [OF wf, of t] wf_sweepExpired [OF wf_tickSweep [OF wf], of t]
  consider v where "live t b key = Some v" | "refused t key b"
    | "live t b key = None" "\<not> refused t key b" by fastforce
  then show ?thesis
  proof cases
    case 1
    then show ?thesis using sweeps by (simp add: cur_live)
  next
    case 2
    then show ?thesis using sweeps by (simp add: cur_refused [OF wf] wf_store_def)
  next
    case 3
    then show ?thesis using sweeps cur_fresh [OF wf 3, of w] wf_fresh by fastforce
  qed
qed

text \<open>The other counters are untouched by an access, at this and at every later time.\<close>

lemma live_cur_other:
  assumes "wf_store b" and "k \<noteq> key" and "t \<le> t'"
  shows "live t' (fst (cur t key w b)) k = live t' b k"
proof -
  have swept: "live t' (sweepExpired t (tickSweep t b)) k = live t' b k"
    "live t' (tickSweep t b) k = live t' b k"
    using assms(3) by (simp_all add: live_sweepExpired live_tickSweep)
  consider v where "live t b key = Some v" | "refused t key b"
    | "live t b key = None" "\<not> refused t key b" by fastforce
  then show ?thesis
  proof cases
    case 1
    then show ?thesis using swept by (simp add: cur_live)
  next
    case 2
    then show ?thesis using swept(1) by (simp add: cur_refused [OF assms(1)])
  next
    case 3
    then show ?thesis
      using swept assms(2) cur_fresh [OF assms(1) 3, of w]
      by (auto simp: fresh_def Let_def live_update)
  qed
qed


section \<open>Operations over live windows\<close>

lemma live_later: "live t' b k = Some v \<Longrightarrow> t \<le> t' \<Longrightarrow> live t b k = Some v"
  by (auto simp: live_Some_iff)

lemma cur_keeps_live:
  assumes "wf_store b" and "t \<le> t'" and "live t' b k = Some v"
  shows "live t' (fst (cur t key w b)) k = Some v"
proof (cases "k = key")
  case True
  with assms have "live t b key = Some v" using live_later by blast
  with True assms show ?thesis by (simp add: cur_live live_tickSweep)
next
  case False
  then show ?thesis using assms by (simp add: live_cur_other)
qed

lemma fst_Check: "fst (Check t key est lim w b) = (if lim \<le> 0 then b else fst (cur t key w b))"
  by (simp add: Check_def split: prod.splits option.splits)

lemma fst_Spent: "fst (Spent t key w b) = fst (cur t key w b)"
  by (simp add: Spent_def split: prod.splits option.splits)

lemma fst_ResetsAt: "fst (ResetsAt t t' key w b) = fst (cur t key w b)"
  by (simp add: ResetsAt_def split: prod.splits option.splits)

lemma cur_Some_tracked: "cur t key w b = (b', Some v) \<Longrightarrow> Mapping.lookup (bm b') key = Some v"
  by (auto simp: cur_def fresh_def Let_def split: option.splits if_splits)

lemma wf_Debit: "wf_store b \<Longrightarrow> wf_store (Debit t key amount w b)"
  using wf_cur [of b t key w] cur_Some_tracked [of t key w b]
  by (auto simp: Debit_def wf_store_def size_card insert_absorb lookup_in_keys
      split: prod.splits option.splits)

lemma live_Debit:
  assumes "wf_store b" and "t \<le> t'" and "live t' b k = Some v"
  shows "live t' (Debit t key amount w b) k =
    Some (if k = key then v\<lparr>win_spent := add64 (win_spent v) amount\<rparr> else v)"
proof (cases "k = key")
  case True
  with assms have "live t b key = Some v" using live_later by blast
  then have "Debit t key amount w b = (tickSweep t b)\<lparr>bm := Mapping.update key
      (v\<lparr>win_spent := add64 (win_spent v) amount\<rparr>) (bm (tickSweep t b))\<rparr>"
    by (simp add: Debit_def cur_live)
  moreover have "t' < win_end v" using assms(3) by (simp add: live_Some_iff)
  ultimately show ?thesis using True by (simp add: live_update)
next
  case False
  have "live t' (fst (cur t key w b)) k = Some v" using assms by (rule cur_keeps_live)
  with False show ?thesis
    by (auto simp: Debit_def live_update split: prod.splits option.splits)
qed

text \<open>The read accesses of the store, as the remaining operations of the counter contract.\<close>

datatype budget_read = ReadSpent gotime string Window | ReadResetsAt gotime gotime string Window

fun budget_aux :: "budget_read \<Rightarrow> Memory \<Rightarrow> Memory" where
  "budget_aux (ReadSpent t key w) b = fst (Spent t key w b)"
| "budget_aux (ReadResetsAt t t' key w) b = fst (ResetsAt t t' key w b)"

fun budget_aux_time :: "budget_read \<Rightarrow> gotime" where
  "budget_aux_time (ReadSpent t key w) = t"
| "budget_aux_time (ReadResetsAt t t' key w) = t"

definition budget_usage :: "gotime \<Rightarrow> Memory \<Rightarrow> string \<Rightarrow> int option" where
  "budget_usage t b k = map_option win_spent (live t b k)"

definition denies :: "Decision \<Rightarrow> bool" where
  "denies d \<longleftrightarrow> d \<noteq> Allow"

interpretation money: window_counter budget_usage wf_store Check denies Debit budget_aux budget_aux_time
proof unfold_locales
  fix b t key est w amount x and lim :: int
  assume wf: "wf_store b"
  show "wf_store (fst (Check t key est lim w b))" using wf by (simp add: fst_Check wf_cur)
  show "wf_store (Debit t key amount w b)" using wf by (rule wf_Debit)
  show "wf_store (budget_aux x b)" using wf by (cases x) (simp_all add: fst_Spent fst_ResetsAt wf_cur)
next
  fix b t t' k u key est w and lim :: int
  assume "wf_store b" "t \<le> t'" "budget_usage t' b k = Some u"
  then show "budget_usage t' (fst (Check t key est lim w b)) k = Some u"
    by (auto simp: budget_usage_def fst_Check cur_keeps_live)
next
  fix b t t' k u key amount w
  assume "wf_store b" "t \<le> t'" "budget_usage t' b k = Some u"
  then show "budget_usage t' (Debit t key amount w b) k = Some (if k = key then add64 u amount else u)"
    by (auto simp: budget_usage_def live_Debit)
next
  fix b x t' k u
  assume "wf_store b" "budget_aux_time x \<le> t'" "budget_usage t' b k = Some u"
  then show "budget_usage t' (budget_aux x b) k = Some u"
    by (cases x) (auto simp: budget_usage_def fst_Spent fst_ResetsAt cur_keeps_live)
next
  fix b t key u est w and lim :: int
  assume "wf_store b" "0 < lim" "budget_usage t b key = Some u"
  then show "denies (snd (Check t key est lim w b)) \<longleftrightarrow> lim < add64 u est"
    by (auto simp: budget_usage_def Check_def denies_def cur_live split: if_splits)
qed

lemma Check_decision:
  assumes "wf_store b" and "in64 (spend_view t b key + est)"
  shows "snd (Check t key est lim w b) =
    (if lim \<le> 0 then Allow
     else if Mapping.lookup (bm b) key = None \<and> maxEntries b \<le> int (card (live_keys t b))
       then BlockCapacity
     else if lim < spend_view t b key + est then Block else Allow)"
proof (cases "lim \<le> 0")
  case True
  then show ?thesis by (simp add: Check_def)
next
  case False
  consider v where "live t b key = Some v" | "refused t key b"
    | "live t b key = None" "\<not> refused t key b" by fastforce
  then show ?thesis
  proof cases
    case 1
    then have "Mapping.lookup (bm b) key \<noteq> None" by (simp add: live_Some_iff)
    with 1 assms(2) False show ?thesis
      by (auto simp: Check_def cur_live spend_view_def add64_exact)
  next
    case 2
    with False show ?thesis by (simp add: Check_def cur_refused [OF assms(1)] refused_def)
  next
    case 3
    with False assms(2) cur_fresh [OF assms(1) 3, of w] show ?thesis
      by (auto simp: Check_def fresh_def Let_def spend_view_def add64_exact refused_def)
  qed
qed

text \<open>What an access does not change: the spend of every counter, from then on, and the size by more than one.\<close>

lemma spend_view_cur:
  assumes "wf_store b" and "t \<le> t'"
  shows "spend_view t' (fst (cur t key w b)) k = spend_view t' b k"
proof (cases "k = key \<and> live t b key = None \<and> \<not> refused t key b")
  case True
  then have "live t' b k = None"
    using live_later [OF _ assms(2)] by (cases "live t' b k") auto
  with True cur_fresh [OF assms(1), of t key w] show ?thesis
    by (auto simp: fresh_def Let_def spend_view_def live_update)
next
  case False
  then consider "k \<noteq> key" | v where "k = key" "live t b key = Some v" | "k = key" "refused t key b"
    by fastforce
  then have "live t' (fst (cur t key w b)) k = live t' b k"
    using assms
    by cases (simp_all add: live_cur_other cur_live live_tickSweep cur_refused live_sweepExpired)
  then show ?thesis by (simp add: spend_view_def)
qed

lemma fresh_sel [simp]: "maxEntries (fst (fresh t key w b)) = maxEntries b"
  by (simp add: fresh_def Let_def)

lemma maxEntries_cur: "maxEntries (fst (cur t key w b)) = maxEntries b"
  by (simp add: cur_def Let_def split: option.split)

lemma size_sweeps:
  assumes "wf_store b"
  shows "Mapping.size (bm (tickSweep t b)) \<le> Mapping.size (bm b)"
    and "Mapping.size (bm (sweepExpired t (tickSweep t b))) \<le> Mapping.size (bm b)"
proof -
  have fin: "finite (Mapping.keys (bm b))" using assms by (simp add: wf_store_def)
  have sw: "Mapping.size (bm (sweepExpired t b')) \<le> Mapping.size (bm b')" if "finite (Mapping.keys (bm b'))" for b'
    using live_keys_subset that by (simp add: size_card keys_sweepExpired card_mono)
  show 1: "Mapping.size (bm (tickSweep t b)) \<le> Mapping.size (bm b)"
    by (rule tickSweep_cases [of t b]) (simp_all add: sw [OF fin])
  have "finite (Mapping.keys (bm (tickSweep t b)))"
    using wf_tickSweep [OF assms] by (simp add: wf_store_def)
  from sw [OF this] 1 show "Mapping.size (bm (sweepExpired t (tickSweep t b))) \<le> Mapping.size (bm b)"
    by simp
qed

lemma size_update_le: "finite (Mapping.keys m) \<Longrightarrow> Mapping.size (Mapping.update k v m) \<le> Mapping.size m + 1"
  by (simp add: size_card card_insert_le_m1 card_insert_if)

lemma size_cur:
  assumes "wf_store b"
  shows "Mapping.size (bm (fst (cur t key w b))) \<le> Mapping.size (bm b) + 1"
proof -
  let ?b1 = "tickSweep t b" and ?b2 = "sweepExpired t (tickSweep t b)"
  have wf: "finite (Mapping.keys (bm ?b1))" "finite (Mapping.keys (bm ?b2))"
    using wf_tickSweep [OF assms] wf_sweepExpired [OF wf_tickSweep [OF assms]]
    by (simp_all add: wf_store_def)
  have "Mapping.size (bm (fst (fresh t key w b'))) \<le> Mapping.size (bm b) + 1"
    if "b' = ?b1 \<or> b' = ?b2" for b'
  proof -
    have "Mapping.size (bm b') \<le> Mapping.size (bm b)" "finite (Mapping.keys (bm b'))"
      using that wf size_sweeps [OF assms, of t] by auto
    then show ?thesis
      using size_update_le [of "bm b'" key "\<lparr>win_spent = 0, win_end = windowEnd t w\<rparr>"]
      by (simp add: fresh_def Let_def)
  qed
  with size_sweeps [OF assms, of t] show ?thesis
    by (auto simp: cur_def Let_def split: option.split)
qed

lemma not_refused_room:
  assumes "wf_store b" and "int (Mapping.size (bm b)) < maxEntries b"
  shows "\<not> (Mapping.lookup (bm b) key = None \<and> maxEntries b \<le> int (card (live_keys t b)))"
proof -
  have "card (live_keys t b) \<le> Mapping.size (bm b)"
    using live_keys_subset [of t b] assms(1) by (simp add: size_card wf_store_def card_mono)
  with assms(2) show ?thesis by linarith
qed

section \<open>Properties\<close>

text \<open>
  C40: A live money window counts exactly the debits made to it. Starting from a live window
  with spend \<open>u\<close>, after any interleaving of checks, debits and reads on any keys, a check
  within the window denies exactly when the spend, the debits to this key and the
  estimate together exceed the limit: neither the sweep nor the capacity fail-safe nor
  traffic on other keys loses or adds spend.
\<close>

theorem budget_window_exact:
  assumes "wf_store b"
    and "\<forall>x \<in> set ops. op_time budget_aux_time x \<le> t"
    and "live t b k = Some v" and "in64 (win_spent v)"
    and "0 < lim" and "in64 (win_spent v + debits_to k ops + est)"
  shows "denies (snd (Check t k est lim w (counter_run Check Debit budget_aux ops b)))
    \<longleftrightarrow> lim < win_spent v + debits_to k ops + est"
  using assms by (intro money.run_blocks) (auto simp: budget_usage_def)

theorem budget_window_exact_witness:
  "denies (snd (Check 20 ''k'' 5 100 (CalendarDayIn None)
      (counter_run Check Debit budget_aux
        [CDebit 15 ''k'' 60 (CalendarDayIn None), CCheck 16 ''j'' 0 10 (CalendarDayIn None),
         CAux (ReadSpent 17 ''k'' (CalendarDayIn None)), CDebit 18 ''k'' 30 (CalendarDayIn None)]
        (fst (cur 10 ''k'' (CalendarDayIn None) NewMemory)))))
   = (100 < (0::int) + 90 + 5)"
proof -
  let ?d = "CalendarDayIn None" and ?b = "fst (cur 10 ''k'' (CalendarDayIn None) NewMemory)"
  let ?ops = "[CDebit 15 ''k'' 60 ?d, CCheck 16 ''j'' 0 10 ?d, CAux (ReadSpent 17 ''k'' ?d),
    CDebit 18 ''k'' 30 ?d]"
  have wf: "wf_store ?b"
    by (rule wf_cur) (simp add: wf_store_def NewMemory_def defaultMaxEntries_def)
  have ops: "\<forall>x \<in> set ?ops. op_time budget_aux_time x \<le> 20" by simp
  have v: "live 20 ?b ''k'' = Some \<lparr>win_spent = 0, win_end = 86400000000000\<rparr>" by code_simp
  have d: "debits_to ''k'' ?ops = 90" by (simp add: debits_to_def)
  show ?thesis
    using budget_window_exact [OF wf ops v, of 100 5 ?d] by (simp add: d in64_bounds)
qed


text \<open>
  The decision of the money check, on every branch: no limit admits; an untracked key
  is refused for capacity exactly when the store is full of live windows; otherwise the
  live spend plus the estimate is compared with the limit. In particular a key the store
  already tracks is never refused for capacity, even when its window has just ended and
  the sweep of this very call reclaims it.
\<close>

lemma budget_check_decision:
  assumes "wf_store b" and "in64 (spend_view t b key + est)"
  shows "snd (Check t key est lim w b) =
    (if lim \<le> 0 then Allow
     else if Mapping.lookup (bm b) key = None \<and> maxEntries b \<le> int (card (live_keys t b))
       then BlockCapacity
     else if lim < spend_view t b key + est then Block else Allow)"
  using assms by (rule Check_decision)

text \<open>
  Two budget counters share a store key only if they have the same window tag, the
  same scope and the same identifier, whatever characters a team name or a user id
  contains: no identifier can impersonate another window or scope.
\<close>

lemma budget_key_separation:
  assumes "scope \<in> {ScopeTeam, ScopeKey, ScopeUser}" and "scope' \<in> {ScopeTeam, ScopeKey, ScopeUser}"
    and "budget_key scope ident w = budget_key scope' ident' w'"
  shows "Tag w = Tag w' \<and> scope = scope' \<and> ident = ident'"
  using assms by (rule budget_key_inj)

text \<open>
  In a zone with a constant offset a calendar window ends strictly after the instant it
  is computed from, and the end is a local midnight: the first instant of the next local day
  or of the next local month.
\<close>

lemma calendar_window_end:
  assumes "constant_zone (window_loc w) off" and "Kind w \<noteq> Rolling" and "0 \<le> t div Second + off"
  shows "t < windowEnd t w \<and>
    (\<exists>y m d. civil (local_day (window_loc w) t) = (y, m, d) \<and>
       windowEnd t w = Second * (86400 *
         (if Kind w = CalDay then local_day (window_loc w) t + 1 else date_days y (m + 1) 1) - off))"
proof -
  let ?n = "local_day (window_loc w) t"
  obtain y m d where c: "civil ?n = (y, m, d)" by (cases "civil ?n") auto
  have "0 \<le> ?n" using assms by (simp add: constant_zone_day pos_imp_zdiv_nonneg_iff)
  then have "date_days y m (d + 1) = ?n + 1" using civil_bounds(3) [OF _ c] by (simp add: date_days_Suc)
  with assms(2) have "windowEnd t w = Second * (86400 *
      (if Kind w = CalDay then ?n + 1 else date_days y (m + 1) 1) - off)"
    by (cases "Kind w")
      (simp_all add: windowEnd_def nextMidnight_def nextMonth_def c constant_zone_Date [OF assms(1)])
  with c windowEnd_constant_zone [OF assms] show ?thesis by blast
qed

end
