(* ===== verification/Float64.thy ===== *)
theory Float64
  imports Complex_Main "HOL-Library.Log_Nat" Prelude
begin

text \<open>
  Go's \<^verbatim>\<open>float64\<close> as the rational numbers it represents. Every operation of the source is
  the exact rational operation followed by \<open>fl\<close>, the rounding of IEEE 754 to 53
  significant bits, ties to even; a conversion from an integer is rounded the same way. The
  exponent range is not bounded: the limiter's values are token counts and seconds, far from
  overflow and underflow, and there are no infinities or NaNs. The source is taken without
  fused multiply-add.

  What the clients use is a locale, \<open>rounding\<close>: the rounding is monotone and exact on
  integers up to \<open>2 ^ 53\<close>. It is interpreted on \<open>fl\<close>.
\<close>

section \<open>Rounding\<close>

definition round_even :: "rat \<Rightarrow> int" where
  "round_even r =
     (let f = \<lfloor>r\<rfloor>; d = r - of_int f in if d > 1 / 2 \<or> (d = 1 / 2 \<and> odd f) then f + 1 else f)"

text \<open>The binary exponent of a positive rational: the power of two just below it.\<close>

definition exponent :: "rat \<Rightarrow> int" where
  "exponent x =
     (case quotient_of x of (p, q) \<Rightarrow>
        (let e = bitlen p - bitlen q in if 2 powi e \<le> x then e else e - 1))"

definition fl_pos :: "rat \<Rightarrow> rat" where
  "fl_pos x = (let s = 2 powi (exponent x - 52) in of_int (round_even (x / s)) * s)"

definition fl :: "rat \<Rightarrow> rat" where
  "fl x = (if x = 0 then 0 else if 0 < x then fl_pos x else - fl_pos (- x))"

definition float_of_int :: "int \<Rightarrow> rat" where
  "float_of_int n = fl (of_int n)"

text \<open>\<^verbatim>\<open>int64(x)\<close> truncates towards zero.\<close>

definition trunc :: "rat \<Rightarrow> int" where
  "trunc x = (if 0 \<le> x then \<lfloor>x\<rfloor> else - \<lfloor>- x\<rfloor>)"

text \<open>\<^verbatim>\<open>Duration.Seconds\<close>.\<close>

definition Seconds :: "duration \<Rightarrow> rat" where
  "Seconds d =
     fl (float_of_int (d sdiv Second) + fl (float_of_int (d smod Second) / 1000000000))"

section \<open>The contract\<close>

locale rounding =
  fixes rnd :: "rat \<Rightarrow> rat"
  assumes rnd_mono: "x \<le> y \<Longrightarrow> rnd x \<le> rnd y"
    and rnd_int: "\<bar>n\<bar> \<le> 2 ^ 53 \<Longrightarrow> rnd (of_int n) = of_int n"
begin

lemma rnd_0: "rnd 0 = 0"
  using rnd_int [of 0] by simp

lemma rnd_nonneg: "0 \<le> x \<Longrightarrow> 0 \<le> rnd x"
  using rnd_mono [of 0 x] by (simp add: rnd_0)

lemma rnd_le_int: "x \<le> of_int n \<Longrightarrow> \<bar>n\<bar> \<le> 2 ^ 53 \<Longrightarrow> rnd x \<le> of_int n"
  using rnd_mono [of x "of_int n"] by (simp add: rnd_int)

end

section \<open>Rounding is monotone and exact on integers\<close>

lemma round_even_bounds: "\<lfloor>r\<rfloor> \<le> round_even r \<and> round_even r \<le> \<lfloor>r\<rfloor> + 1"
  by (simp add: round_even_def Let_def)

lemma round_even_mono:
  assumes "r \<le> s"
  shows "round_even r \<le> round_even s"
proof (cases "\<lfloor>r\<rfloor> = \<lfloor>s\<rfloor>")
  case True
  then have "r - of_int \<lfloor>r\<rfloor> \<le> s - of_int \<lfloor>s\<rfloor>" using assms by simp
  with True show ?thesis by (auto simp: round_even_def Let_def)
next
  case False
  with assms have "\<lfloor>r\<rfloor> + 1 \<le> \<lfloor>s\<rfloor>" using floor_mono [OF assms] by linarith
  then show ?thesis using round_even_bounds [of r] round_even_bounds [of s] by linarith
qed

lemma round_even_of_int [simp]: "round_even (of_int n) = n"
  by (simp add: round_even_def)

lemma exponent_bounds:
  assumes "0 < x"
  shows "2 powi exponent x \<le> x" and "x < 2 powi (exponent x + 1)"
proof -
  obtain p q where pq: "quotient_of x = (p, q)" by (cases "quotient_of x") auto
  have q: "0 < q" and x: "x = of_int p / of_int q"
    using quotient_of_denom_pos [OF pq] quotient_of_div [OF pq] by simp_all
  have p: "0 < p" using assms q by (simp add: x zero_less_divide_iff)
  have bits: "(2::rat) powi (bitlen n - 1) \<le> of_int n" "of_int n < (2::rat) powi bitlen n"
    if "0 < n" for n
  proof -
    have b: "2 ^ nat (bitlen n - 1) \<le> n" "n < 2 ^ nat (bitlen n)" "0 < bitlen n"
      using bitlen_bounds [OF that] bitlen_ge_iff_power [of 1 n] that by simp_all
    have "(2::rat) ^ nat (bitlen n - 1) \<le> of_int n" "of_int n < (2::rat) ^ nat (bitlen n)"
      using b(1,2) by (metis of_int_le_iff of_int_numeral of_int_power)
        (metis b(2) of_int_less_iff of_int_numeral of_int_power)
    then show "(2::rat) powi (bitlen n - 1) \<le> of_int n" "of_int n < (2::rat) powi bitlen n"
      using b(3) by (simp_all add: power_int_def)
  qed
  define e where "e = bitlen p - bitlen q"
  have upper: "x < 2 powi (e + 1)"
  proof -
    have "x < 2 powi bitlen p / 2 powi (bitlen q - 1)"
      unfolding x using bits [OF p] bits [OF q] p q by (intro frac_less) simp_all
    also have "\<dots> = 2 powi (e + 1)"
      by (simp add: e_def power_int_diff [symmetric] algebra_simps)
    finally show ?thesis .
  qed
  have lower: "2 powi (e - 1) \<le> x"
  proof -
    have "(2::rat) powi (e - 1) = 2 powi (bitlen p - 1) / 2 powi bitlen q"
      by (simp add: e_def power_int_diff [symmetric] algebra_simps)
    also have "\<dots> \<le> x"
      unfolding x using bits [OF p] bits [OF q] p q by (intro frac_le) simp_all
    finally show ?thesis .
  qed
  have "exponent x = (if 2 powi e \<le> x then e else e - 1)"
    by (simp add: exponent_def pq e_def Let_def)
  then show "2 powi exponent x \<le> x" "x < 2 powi (exponent x + 1)"
    using upper lower by (auto split: if_splits)
qed


lemma two_powi_less_iff: "(2::rat) powi a < 2 powi b \<longleftrightarrow> a < b"
  using power_int_strict_increasing [of a b "2::rat"] power_int_increasing [of b a "2::rat"]
  by (cases "a < b") (simp_all add: not_less)

lemma two_powi_le_iff: "(2::rat) powi a \<le> 2 powi b \<longleftrightarrow> a \<le> b"
  by (metis not_less two_powi_less_iff)

lemma exponent_unique:
  assumes "0 < x" and "2 powi e \<le> x" and "x < 2 powi (e + 1)"
  shows "exponent x = e"
proof -
  have "(2::rat) powi e < 2 powi (exponent x + 1)" "(2::rat) powi exponent x < 2 powi (e + 1)"
    using assms exponent_bounds [OF assms(1)] by linarith+
  then have "e < exponent x + 1" "exponent x < e + 1"
    by (simp_all add: two_powi_less_iff)
  then show ?thesis by simp
qed

lemma exponent_mono:
  assumes "0 < x" and "x \<le> y"
  shows "exponent x \<le> exponent y"
proof -
  have "(2::rat) powi exponent x < 2 powi (exponent y + 1)"
    using exponent_bounds [of x] exponent_bounds [of y] assms by linarith
  then show ?thesis by (simp add: two_powi_less_iff)
qed

lemma scaled_bounds:
  assumes "0 < x"
  shows "2 ^ 52 \<le> x / 2 powi (exponent x - 52)" and "x / 2 powi (exponent x - 52) < 2 ^ 53"
  using exponent_bounds [OF assms]
  by (simp_all add: field_simps power_int_diff power_int_add)

lemma fl_pos_bounds:
  assumes "0 < x"
  shows "2 powi exponent x \<le> fl_pos x" and "fl_pos x \<le> 2 powi (exponent x + 1)"
proof -
  let ?s = "2 powi (exponent x - 52) :: rat"
  have "2 ^ 52 \<le> round_even (x / ?s)"
    using round_even_mono [OF scaled_bounds(1) [OF assms]] round_even_of_int [of "2 ^ 52"] by simp
  then have "(2::rat) ^ 52 \<le> of_int (round_even (x / ?s))"
    by (metis of_int_le_iff of_int_numeral of_int_power)
  then have "2 ^ 52 * ?s \<le> fl_pos x"
    by (simp add: fl_pos_def Let_def mult_right_mono)
  then show "2 powi exponent x \<le> fl_pos x" by (simp add: power_int_diff)
  have "round_even (x / ?s) \<le> 2 ^ 53"
    using round_even_mono [OF less_imp_le [OF scaled_bounds(2) [OF assms]]]
      round_even_of_int [of "2 ^ 53"] by simp
  then have "of_int (round_even (x / ?s)) \<le> (2::rat) ^ 53"
    by (metis of_int_le_iff of_int_numeral of_int_power)
  then have "fl_pos x \<le> 2 ^ 53 * ?s"
    by (simp add: fl_pos_def Let_def mult_right_mono)
  then show "fl_pos x \<le> 2 powi (exponent x + 1)" by (simp add: power_int_diff power_int_add)
qed

lemma fl_pos_mono:
  assumes "0 < x" and "x \<le> y"
  shows "fl_pos x \<le> fl_pos y"
proof (cases "exponent x = exponent y")
  case True
  have "x / 2 powi (exponent y - 52) \<le> y / 2 powi (exponent y - 52)"
    using assms(2) by (simp add: divide_right_mono)
  from round_even_mono [OF this] show ?thesis
    by (simp add: fl_pos_def Let_def True mult_right_mono)
next
  case False
  with exponent_mono [OF assms] have "exponent x + 1 \<le> exponent y" by simp
  then have "(2::rat) powi (exponent x + 1) \<le> 2 powi exponent y"
    by (simp add: power_int_increasing)
  then show ?thesis using fl_pos_bounds [of x] fl_pos_bounds [of y] assms by linarith
qed

lemma fl_pos_pos: "0 < x \<Longrightarrow> 0 < fl_pos x"
  using fl_pos_bounds(1) [of x] zero_less_power_int [of "2::rat" "exponent x"] by linarith

lemma fl_mono: "x \<le> y \<Longrightarrow> fl x \<le> fl y"
  using fl_pos_mono [of x y] fl_pos_mono [of "- y" "- x"] fl_pos_pos [of y] fl_pos_pos [of "- x"]
  by (auto simp: fl_def)

lemma fl_pos_int:
  assumes "0 < n" and "n \<le> 2 ^ 53"
  shows "fl_pos (of_int n) = of_int n"
proof -
  define e where "e = exponent (of_int n)"
  have n0: "0 < (of_int n :: rat)" using assms(1) by simp
  have b: "2 powi e \<le> (of_int n :: rat)" "(of_int n :: rat) < 2 powi (e + 1)"
    using exponent_bounds [OF n0] by (simp_all add: e_def)
  have "(of_int n :: rat) \<le> 2 powi 53"
    using assms(2) by (metis of_int_le_iff of_int_numeral of_int_power power_int_numeral)
  then have e53: "e \<le> 53" using b(1) by (metis order.trans two_powi_le_iff)
  have "\<exists>k. (of_int n :: rat) / 2 powi (e - 52) = of_int k"
  proof (cases "e \<le> 52")
    case True
    then have "(of_int n :: rat) / 2 powi (e - 52) = of_int (n * 2 ^ nat (52 - e))"
      by (simp add: power_int_def field_simps)
    then show ?thesis by blast
  next
    case False
    with e53 have "e = 53" by simp
    with b(1) have "(of_int (2 ^ 53) :: rat) \<le> of_int n" by simp
    then have "2 ^ 53 \<le> n" by (rule of_int_le_iff [THEN iffD1])
    with assms(2) have "n = 2 ^ 53" by (rule antisym)
    then have "(of_int n :: rat) / 2 powi (e - 52) = of_int (2 ^ 52)"
      by (simp add: \<open>e = 53\<close>)
    then show ?thesis by blast
  qed
  then obtain k where k: "(of_int n :: rat) / 2 powi (e - 52) = of_int k" ..
  then have "fl_pos (of_int n) = of_int k * 2 powi (e - 52)"
    by (simp add: fl_pos_def Let_def e_def [symmetric])
  also have "\<dots> = of_int n" using k by (simp add: field_simps)
  finally show ?thesis .
qed

lemma fl_int: "\<bar>n\<bar> \<le> 2 ^ 53 \<Longrightarrow> fl (of_int n) = of_int n"
  using fl_pos_int [of n] fl_pos_int [of "- n"] by (auto simp: fl_def)

interpretation ieee: rounding fl
  by unfold_locales (simp_all add: fl_mono fl_int)

end
