(* ===== verification/Limiter.thy ===== *)
theory Limiter
  imports Counter Float64
begin

text \<open>
  The instance-local limiter, \<^verbatim>\<open>internal/limiter/limiter.go\<close>: token buckets for requests and
  tokens per minute (refilled continuously, charged before the request, trued up after it)
  and token quotas in fixed windows (checked before, debited after). One store holds both
  kinds of entries under one capacity; an amortized sweep reclaims entries that carry no
  state. Every operation takes the reading of the clock as an argument.
\<close>

section \<open>State\<close>

datatype QuotaDecision = QAllow | QBlock

record bucket =
  tokens :: rat
  last_refill :: gotime
  bkt_rate :: int
  bkt_burst :: int

record quotaWin =
  q_used :: int
  q_end :: gotime

record LimiterMemory =
  buckets :: "(string, bucket) mapping"
  quotas :: "(string, quotaWin) mapping"
  lim_maxEntries :: int
  lim_tick :: int
  lim_rejected :: int

definition lim_sweepEvery :: int where "lim_sweepEvery = 256"
definition lim_defaultMaxEntries :: int where "lim_defaultMaxEntries = 100000"

definition NewLimiter :: LimiterMemory where
  "NewLimiter = \<lparr>buckets = Mapping.empty, quotas = Mapping.empty,
     lim_maxEntries = lim_defaultMaxEntries, lim_tick = 0, lim_rejected = 0\<rparr>"

definition lim_Rejections :: "LimiterMemory \<Rightarrow> int" where
  "lim_Rejections m = lim_rejected m"

section \<open>Operations\<close>

text \<open>The refill expression, \<^verbatim>\<open>b.tokens + t.Sub(b.last).Seconds()*(float64(ratePerMin)/60.0)\<close>.\<close>

definition refilled :: "gotime \<Rightarrow> int \<Rightarrow> bucket \<Rightarrow> rat" where
  "refilled t ratePerMin b =
     fl (tokens b + fl (Seconds (time_sub t (last_refill b)) * fl (float_of_int ratePerMin / 60)))"

definition bucket_reclaimable :: "gotime \<Rightarrow> bucket \<Rightarrow> bool" where
  "bucket_reclaimable t b \<longleftrightarrow>
     \<not> bkt_rate b \<le> 0 \<and> refilled t (bkt_rate b) b \<ge> float_of_int (bkt_burst b)"

definition sweepReclaimable :: "gotime \<Rightarrow> LimiterMemory \<Rightarrow> LimiterMemory" where
  "sweepReclaimable t m =
     m\<lparr>buckets := Mapping.filter (\<lambda>k b. \<not> bucket_reclaimable t b) (buckets m),
       quotas := Mapping.filter (\<lambda>k q. t < q_end q) (quotas m)\<rparr>"

definition entries :: "LimiterMemory \<Rightarrow> int" where
  "entries m = int (Mapping.size (buckets m)) + int (Mapping.size (quotas m))"

definition admit :: "gotime \<Rightarrow> LimiterMemory \<Rightarrow> LimiterMemory \<times> bool" where
  "admit t m =
     (if entries m < lim_maxEntries m then (m, True)
      else let m' = sweepReclaimable t m
           in if entries m' < lim_maxEntries m' then (m', True)
              else (m'\<lparr>lim_rejected := add64 (lim_rejected m') 1\<rparr>, False))"

definition lim_tickSweep :: "gotime \<Rightarrow> LimiterMemory \<Rightarrow> LimiterMemory" where
  "lim_tickSweep t m =
     (let n = lim_tick m + 1
      in if n \<ge> lim_sweepEvery then sweepReclaimable t (m\<lparr>lim_tick := 0\<rparr>) else m\<lparr>lim_tick := n\<rparr>)"

definition allowBucket ::
  "gotime \<Rightarrow> string \<Rightarrow> int \<Rightarrow> int \<Rightarrow> int \<Rightarrow> bucket \<Rightarrow> LimiterMemory \<Rightarrow> LimiterMemory \<times> bool" where
  "allowBucket t key cost ratePerMin burst b m =
     (let raw = refilled t ratePerMin b;
          tk = (if raw > float_of_int burst then float_of_int burst else raw);
          ok = (tk \<ge> float_of_int cost);
          b' = \<lparr>tokens = (if ok then fl (tk - float_of_int cost) else tk), last_refill = t,
                bkt_rate = ratePerMin, bkt_burst = burst\<rparr>
      in (m\<lparr>buckets := Mapping.update key b' (buckets m)\<rparr>, ok))"

definition newBucket :: "gotime \<Rightarrow> int \<Rightarrow> int \<Rightarrow> bucket" where
  "newBucket t ratePerMin burst =
     \<lparr>tokens = float_of_int burst, last_refill = t, bkt_rate = ratePerMin, bkt_burst = burst\<rparr>"

definition AllowRate ::
  "gotime \<Rightarrow> string \<Rightarrow> int \<Rightarrow> int \<Rightarrow> int \<Rightarrow> LimiterMemory \<Rightarrow> LimiterMemory \<times> bool" where
  "AllowRate t key cost ratePerMin burst m0 =
     (if ratePerMin \<le> 0 then (m0, True)
      else let m = lim_tickSweep t m0
           in case Mapping.lookup (buckets m) key of
                Some b \<Rightarrow> allowBucket t key cost ratePerMin burst b m
              | None \<Rightarrow>
                  (case admit t m of
                     (m', False) \<Rightarrow> (m', False)
                   | (m', True) \<Rightarrow>
                       allowBucket t key cost ratePerMin burst (newBucket t ratePerMin burst) m'))"

definition startWindow ::
  "gotime \<Rightarrow> string \<Rightarrow> duration \<Rightarrow> LimiterMemory \<Rightarrow> LimiterMemory \<times> quotaWin option" where
  "startWindow t key window m =
     (let q = \<lparr>q_used = 0, q_end = time_add t window\<rparr>
      in (m\<lparr>quotas := Mapping.update key q (quotas m)\<rparr>, Some q))"

definition curWindow ::
  "gotime \<Rightarrow> string \<Rightarrow> duration \<Rightarrow> LimiterMemory \<Rightarrow> LimiterMemory \<times> quotaWin option" where
  "curWindow t key window m0 =
     (let m = lim_tickSweep t m0
      in case Mapping.lookup (quotas m0) key of
           Some q \<Rightarrow> if t < q_end q then (m, Some q) else startWindow t key window m
         | None \<Rightarrow>
             (case admit t m of
                (m', False) \<Rightarrow> (m', None)
              | (m', True) \<Rightarrow> startWindow t key window m'))"

definition CheckQuota ::
  "gotime \<Rightarrow> string \<Rightarrow> int \<Rightarrow> int \<Rightarrow> duration \<Rightarrow> LimiterMemory \<Rightarrow> LimiterMemory \<times> QuotaDecision" where
  "CheckQuota t key estimate limit window m =
     (if limit \<le> 0 then (m, QAllow)
      else case curWindow t key window m of
             (m', None) \<Rightarrow> (m', QBlock)
           | (m', Some q) \<Rightarrow> (m', if add64 (q_used q) estimate > limit then QBlock else QAllow))"

definition DebitQuota ::
  "gotime \<Rightarrow> string \<Rightarrow> int \<Rightarrow> duration \<Rightarrow> LimiterMemory \<Rightarrow> LimiterMemory" where
  "DebitQuota t key actual window m =
     (case curWindow t key window m of
        (m', None) \<Rightarrow> m'
      | (m', Some q) \<Rightarrow>
          m'\<lparr>quotas := Mapping.update key (q\<lparr>q_used := add64 (q_used q) actual\<rparr>) (quotas m')\<rparr>)"

definition QuotaUsed :: "gotime \<Rightarrow> string \<Rightarrow> LimiterMemory \<Rightarrow> int" where
  "QuotaUsed t key m =
     (case Mapping.lookup (quotas m) key of
        None \<Rightarrow> 0
      | Some q \<Rightarrow> if \<not> t < q_end q then 0 else q_used q)"

definition RateUsed :: "gotime \<Rightarrow> string \<Rightarrow> int \<Rightarrow> int \<Rightarrow> LimiterMemory \<Rightarrow> int" where
  "RateUsed t key ratePerMin burst m =
     (if ratePerMin \<le> 0 then 0
      else case Mapping.lookup (buckets m) key of
             None \<Rightarrow> 0
           | Some b \<Rightarrow>
               (let raw = refilled t ratePerMin b;
                    tk = (if raw > float_of_int burst then float_of_int burst else raw);
                    used = fl (float_of_int burst - tk);
                    used' = (if used < 0 then 0 else used)
                in trunc (fl (used' + 1 / 2))))"

definition AdjustRate :: "string \<Rightarrow> int \<Rightarrow> int \<Rightarrow> LimiterMemory \<Rightarrow> LimiterMemory" where
  "AdjustRate key delta burst m =
     (case Mapping.lookup (buckets m) key of
        None \<Rightarrow> m
      | Some b \<Rightarrow>
          (let tk = fl (tokens b + float_of_int delta)
           in m\<lparr>buckets := Mapping.update key
                 (b\<lparr>tokens := if tk > float_of_int burst then float_of_int burst else tk\<rparr>) (buckets m)\<rparr>))"

section \<open>Refill\<close>

lemma Seconds_0 [simp]: "Seconds 0 = 0"
  by (simp add: Seconds_def float_of_int_def ieee.rnd_0)

lemma float_mono: "m \<le> n \<Longrightarrow> float_of_int m \<le> float_of_int n"
  by (simp add: float_of_int_def ieee.rnd_mono)

lemma float_exact: "\<bar>n\<bar> \<le> 2 ^ 53 \<Longrightarrow> float_of_int n = of_int n"
  by (simp add: float_of_int_def ieee.rnd_int)

lemma float_nonneg: "0 \<le> n \<Longrightarrow> 0 \<le> float_of_int n"
  by (simp add: float_of_int_def ieee.rnd_nonneg)

lemma subsecond_bounds:
  assumes "0 \<le> r" and "r < Second"
  shows "0 \<le> fl (float_of_int r / 1000000000)" and "fl (float_of_int r / 1000000000) \<le> 1"
proof -
  have f: "float_of_int r = of_int r" using assms by (intro float_exact) (simp add: Second_def)
  show "0 \<le> fl (float_of_int r / 1000000000)"
    using assms(1) by (intro ieee.rnd_nonneg) (simp add: f)
  show "fl (float_of_int r / 1000000000) \<le> 1"
    using assms(2) ieee.rnd_le_int [of "float_of_int r / 1000000000" 1] by (simp add: f Second_def)
qed

lemma Seconds_mono:
  assumes "0 \<le> d" and "d \<le> d'" and "in64 d'"
  shows "Seconds d \<le> Seconds d'"
proof -
  let ?f = "\<lambda>r. fl (float_of_int r / 1000000000)"
  have sd: "x sdiv Second = x div Second" "x smod Second = x mod Second" if "0 \<le> x" for x
    using that by (simp_all add: signed_divide_int_def signed_modulo_int_def Second_def sgn_if)
  have div_le: "d div Second \<le> d' div Second" using assms(2) by (simp add: Second_def zdiv_mono1)
  have small: "\<bar>x div Second\<bar> \<le> 2 ^ 53" if "0 \<le> x" "x \<le> d'" for x
    using that assms(3) by (simp add: Second_def in64_bounds)
  have ex: "float_of_int (d div Second) = of_int (d div Second)"
    "float_of_int (d' div Second) = of_int (d' div Second)"
    using small [of d] small [of d'] assms(1,2) by (simp_all add: float_exact)
  have r: "0 \<le> x mod Second" "x mod Second < Second" for x by (simp_all add: Second_def)
  have "of_int (d div Second) + ?f (d mod Second) \<le> of_int (d' div Second) + ?f (d' mod Second)"
  proof (cases "d div Second = d' div Second")
    case True
    then have "d mod Second \<le> d' mod Second"
      using assms(2) by (metis add_le_cancel_left div_mult_mod_eq)
    then have "?f (d mod Second) \<le> ?f (d' mod Second)"
      by (intro ieee.rnd_mono) (simp add: float_mono divide_right_mono)
    with True show ?thesis by simp
  next
    case False
    with div_le have "d div Second + 1 \<le> d' div Second" by simp
    then have "(of_int (d div Second) :: rat) + 1 \<le> of_int (d' div Second)"
      by (metis of_int_1 of_int_add of_int_le_iff)
    then show ?thesis
      using subsecond_bounds(2) [OF r [of d]] subsecond_bounds(1) [OF r [of d']] by linarith
  qed
  then show ?thesis
    using assms(1,2) by (simp add: Seconds_def sd ex ieee.rnd_mono)
qed

lemma rate_nonneg: "0 \<le> r \<Longrightarrow> 0 \<le> fl (float_of_int r / 60)"
  by (simp add: ieee.rnd_nonneg float_nonneg)

lemma time_sub_mono: "t \<le> t' \<Longrightarrow> time_sub t u \<le> time_sub t' u"
  by (simp add: time_sub_def)

lemma time_sub_nonneg: "u \<le> t \<Longrightarrow> 0 \<le> time_sub t u"
  by (simp add: time_sub_def in64_bounds)

text \<open>As time passes a bucket only fills.\<close>

lemma refilled_mono:
  assumes "0 \<le> r" and "last_refill b \<le> t" and "t \<le> t'"
  shows "refilled t r b \<le> refilled t' r b"
proof -
  have "Seconds (time_sub t (last_refill b)) \<le> Seconds (time_sub t' (last_refill b))"
    using assms by (intro Seconds_mono) (simp_all add: time_sub_mono time_sub_nonneg)
  then have "Seconds (time_sub t (last_refill b)) * fl (float_of_int r / 60)
      \<le> Seconds (time_sub t' (last_refill b)) * fl (float_of_int r / 60)"
    using rate_nonneg [OF assms(1)] by (rule mult_right_mono)
  then show ?thesis
    unfolding refilled_def by (intro ieee.rnd_mono add_left_mono)
qed

lemma refilled_now: "last_refill b = t \<Longrightarrow> refilled t r b = fl (tokens b)"
  by (simp add: refilled_def time_sub_def in64_bounds ieee.rnd_0)

lemma reclaimable_later:
  "bucket_reclaimable t b \<Longrightarrow> last_refill b \<le> t \<Longrightarrow> t \<le> t' \<Longrightarrow> bucket_reclaimable t' b"
  using refilled_mono [of "bkt_rate b" b t t'] by (auto simp: bucket_reclaimable_def)

section \<open>The store invariant\<close>

definition wf_limiter :: "LimiterMemory \<Rightarrow> bool" where
  "wf_limiter m \<longleftrightarrow> finite (Mapping.keys (buckets m)) \<and> finite (Mapping.keys (quotas m))
     \<and> entries m \<le> lim_maxEntries m"

lemma sweep_sel [simp]:
  "lim_maxEntries (sweepReclaimable t m) = lim_maxEntries m"
  "lim_rejected (sweepReclaimable t m) = lim_rejected m"
  "lim_tick (sweepReclaimable t m) = lim_tick m"
  by (simp_all add: sweepReclaimable_def)

lemma lookup_sweep:
  "Mapping.lookup (buckets (sweepReclaimable t m)) k =
     (case Mapping.lookup (buckets m) k of None \<Rightarrow> None
      | Some b \<Rightarrow> if bucket_reclaimable t b then None else Some b)"
  "Mapping.lookup (quotas (sweepReclaimable t m)) k =
     (case Mapping.lookup (quotas m) k of None \<Rightarrow> None
      | Some q \<Rightarrow> if t < q_end q then Some q else None)"
  by (auto simp: sweepReclaimable_def lookup_filter split: option.splits)

lemma keys_sweep:
  "Mapping.keys (buckets (sweepReclaimable t m)) \<subseteq> Mapping.keys (buckets m)"
  "Mapping.keys (quotas (sweepReclaimable t m)) \<subseteq> Mapping.keys (quotas m)"
  by (simp_all add: sweepReclaimable_def keys_filter)

lemma size_mono:
  "Mapping.keys m' \<subseteq> Mapping.keys m \<Longrightarrow> finite (Mapping.keys m) \<Longrightarrow> Mapping.size m' \<le> Mapping.size m"
  by (simp add: size_card card_mono)

lemma entries_sweep: "wf_limiter m \<Longrightarrow> entries (sweepReclaimable t m) \<le> entries m"
  unfolding entries_def wf_limiter_def
  using size_mono [OF keys_sweep(1), of m t] size_mono [OF keys_sweep(2), of m t] by linarith

lemma wf_sweep: "wf_limiter m \<Longrightarrow> wf_limiter (sweepReclaimable t m)"
  using entries_sweep [of m t] keys_sweep [of t m]
  by (auto simp: wf_limiter_def intro: finite_subset)

lemma tick_cases:
  obtains "buckets (lim_tickSweep t m) = buckets m" "quotas (lim_tickSweep t m) = quotas m"
  | "buckets (lim_tickSweep t m) = buckets (sweepReclaimable t m)"
    "quotas (lim_tickSweep t m) = quotas (sweepReclaimable t m)"
  by (cases "lim_tick m + 1 \<ge> lim_sweepEvery")
    (auto simp: lim_tickSweep_def sweepReclaimable_def Let_def)

lemma tick_sel [simp]:
  "lim_maxEntries (lim_tickSweep t m) = lim_maxEntries m"
  "lim_rejected (lim_tickSweep t m) = lim_rejected m"
  by (simp_all add: lim_tickSweep_def Let_def)

lemma wf_tick: "wf_limiter m \<Longrightarrow> wf_limiter (lim_tickSweep t m)"
  using wf_sweep [of m t]
  by (rule_tac tick_cases [of t m]) (simp_all add: wf_limiter_def entries_def)

lemma tick_lookup_None:
  "Mapping.lookup (buckets m) k = None \<Longrightarrow> Mapping.lookup (buckets (lim_tickSweep t m)) k = None"
  "Mapping.lookup (quotas m) k = None \<Longrightarrow> Mapping.lookup (quotas (lim_tickSweep t m)) k = None"
  by (rule tick_cases [of t m]; simp add: lookup_sweep)+

lemma size_strict_mono:
  assumes "Mapping.keys m' \<subseteq> Mapping.keys m" and "finite (Mapping.keys m)"
    and "Mapping.lookup m k \<noteq> None" and "Mapping.lookup m' k = None"
  shows "Mapping.size m' < Mapping.size m"
proof -
  have "k \<in> Mapping.keys m" "k \<notin> Mapping.keys m'" using assms(3,4) by (simp_all add: keys_lookup)
  then have "Mapping.keys m' \<subset> Mapping.keys m" using assms(1) by auto
  then show ?thesis using assms(2) by (simp add: size_card psubset_card_mono)
qed

text \<open>Sweeping a tracked entry makes room for it.\<close>

lemma sweep_makes_room:
  assumes "wf_limiter m"
    and "(Mapping.lookup (buckets m) key \<noteq> None \<and> Mapping.lookup (buckets (sweepReclaimable t m)) key = None)
      \<or> (Mapping.lookup (quotas m) key \<noteq> None \<and> Mapping.lookup (quotas (sweepReclaimable t m)) key = None)"
  shows "entries (sweepReclaimable t m) < lim_maxEntries m"
proof -
  have fin: "finite (Mapping.keys (buckets m))" "finite (Mapping.keys (quotas m))"
    "entries m \<le> lim_maxEntries m" using assms(1) by (simp_all add: wf_limiter_def)
  have "Mapping.size (buckets (sweepReclaimable t m)) < Mapping.size (buckets m)
      \<and> Mapping.size (quotas (sweepReclaimable t m)) \<le> Mapping.size (quotas m)
    \<or> Mapping.size (buckets (sweepReclaimable t m)) \<le> Mapping.size (buckets m)
      \<and> Mapping.size (quotas (sweepReclaimable t m)) < Mapping.size (quotas m)"
    using assms(2) size_strict_mono [OF keys_sweep(1) fin(1)] size_strict_mono [OF keys_sweep(2) fin(2)]
      size_mono [OF keys_sweep(1) fin(1)] size_mono [OF keys_sweep(2) fin(2)] by blast
  then show ?thesis using fin(3) by (auto simp: entries_def)
qed

lemma tick_makes_room:
  assumes "wf_limiter m"
    and "(Mapping.lookup (buckets m) key \<noteq> None \<and> Mapping.lookup (buckets (lim_tickSweep t m)) key = None)
      \<or> (Mapping.lookup (quotas m) key \<noteq> None \<and> Mapping.lookup (quotas (lim_tickSweep t m)) key = None)"
  shows "entries (lim_tickSweep t m) < lim_maxEntries m"
  using assms sweep_makes_room [of m key t]
  by (rule_tac tick_cases [of t m]) (auto simp: entries_def)

lemma sweep_sweep:
  assumes "\<And>k b. Mapping.lookup (buckets m) k = Some b \<Longrightarrow> last_refill b \<le> t" and "t \<le> t'"
  shows "sweepReclaimable t' (sweepReclaimable t m) = sweepReclaimable t' m"
proof -
  have "Mapping.lookup (buckets (sweepReclaimable t' (sweepReclaimable t m))) k
      = Mapping.lookup (buckets (sweepReclaimable t' m)) k" for k
    using assms reclaimable_later by (fastforce simp: lookup_sweep split: option.splits)
  moreover have "Mapping.lookup (quotas (sweepReclaimable t' (sweepReclaimable t m))) k
      = Mapping.lookup (quotas (sweepReclaimable t' m)) k" for k
    using assms(2) by (auto simp: lookup_sweep split: option.splits)
  ultimately show ?thesis
    by (intro LimiterMemory.equality mapping_eqI) simp_all
qed

lemma sweep_tick_eq:
  "buckets (sweepReclaimable t (lim_tickSweep t m)) = buckets (sweepReclaimable t m)"
  "quotas (sweepReclaimable t (lim_tickSweep t m)) = quotas (sweepReclaimable t m)"
proof -
  have q: "Mapping.filter P (Mapping.filter P x) = Mapping.filter P x" for P :: "'k \<Rightarrow> 'v \<Rightarrow> bool" and x
    by (rule mapping_eqI) (simp add: lookup_filter split: option.splits)
  show "buckets (sweepReclaimable t (lim_tickSweep t m)) = buckets (sweepReclaimable t m)"
    "quotas (sweepReclaimable t (lim_tickSweep t m)) = quotas (sweepReclaimable t m)"
    by (simp_all add: lim_tickSweep_def Let_def sweepReclaimable_def q)
qed

lemma entries_sweep_tick:
  "entries (sweepReclaimable t (lim_tickSweep t m)) = entries (sweepReclaimable t m)"
  by (simp add: entries_def sweep_tick_eq)

text \<open>Admission of a new entry: exactly when the entries that carry state leave room.\<close>

lemma admit_outcome:
  assumes "wf_limiter m"
  shows "snd (admit t m) \<longleftrightarrow> entries (sweepReclaimable t m) < lim_maxEntries m"
    and "snd (admit t m) \<Longrightarrow> entries (fst (admit t m)) < lim_maxEntries (fst (admit t m))"
    and "wf_limiter (fst (admit t m))"
proof -
  let ?m = "sweepReclaimable t m"
  have le: "entries ?m \<le> entries m" and wf: "wf_limiter ?m"
    using entries_sweep [OF assms] wf_sweep [OF assms] by simp_all
  show "snd (admit t m) \<longleftrightarrow> entries ?m < lim_maxEntries m"
    using le by (auto simp: admit_def Let_def)
  show "snd (admit t m) \<Longrightarrow> entries (fst (admit t m)) < lim_maxEntries (fst (admit t m))"
    by (auto simp: admit_def Let_def split: if_splits)
  show "wf_limiter (fst (admit t m))"
    using wf assms by (auto simp: admit_def Let_def wf_limiter_def entries_def)
qed

lemma admit_cases:
  obtains "buckets (fst (admit t m)) = buckets m" "quotas (fst (admit t m)) = quotas m"
  | "buckets (fst (admit t m)) = buckets (sweepReclaimable t m)"
    "quotas (fst (admit t m)) = quotas (sweepReclaimable t m)"
  by (cases "entries m < lim_maxEntries m") (auto simp: admit_def Let_def)

lemma admit_sel: "lim_maxEntries (fst (admit t m)) = lim_maxEntries m"
  by (simp add: admit_def Let_def)

lemma wf_insert_bucket:
  assumes "wf_limiter m" and "Mapping.lookup (buckets m) key \<noteq> None \<or> entries m < lim_maxEntries m"
  shows "wf_limiter (m\<lparr>buckets := Mapping.update key b (buckets m)\<rparr>)"
  using assms
  by (cases "key \<in> Mapping.keys (buckets m)")
    (auto simp: wf_limiter_def entries_def size_card insert_absorb keys_lookup)

lemma wf_insert_quota:
  assumes "wf_limiter m" and "Mapping.lookup (quotas m) key \<noteq> None \<or> entries m < lim_maxEntries m"
  shows "wf_limiter (m\<lparr>quotas := Mapping.update key q (quotas m)\<rparr>)"
  using assms
  by (cases "key \<in> Mapping.keys (quotas m)")
    (auto simp: wf_limiter_def entries_def size_card insert_absorb keys_lookup)

lemma wf_allowBucket:
  assumes "wf_limiter m" and "Mapping.lookup (buckets m) key \<noteq> None \<or> entries m < lim_maxEntries m"
  shows "wf_limiter (fst (allowBucket t key cost r burst b m))"
  using wf_insert_bucket [OF assms] by (simp add: allowBucket_def Let_def)

lemma wf_AllowRate:
  assumes "wf_limiter m"
  shows "wf_limiter (fst (AllowRate t key cost r burst m))"
proof -
  note wf = wf_tick [OF assms, of t]
  show ?thesis
    using admit_outcome(2,3) [OF wf, of t] wf_allowBucket [OF wf] assms
    by (auto simp: AllowRate_def Let_def intro: wf_allowBucket
        split: option.splits prod.splits bool.splits)
qed

lemma wf_AdjustRate: "wf_limiter m \<Longrightarrow> wf_limiter (AdjustRate key delta burst m)"
  by (auto simp: AdjustRate_def Let_def intro: wf_insert_bucket split: option.splits)

section \<open>Quota windows\<close>

definition quota_live :: "gotime \<Rightarrow> LimiterMemory \<Rightarrow> string \<Rightarrow> quotaWin option" where
  "quota_live t m k = (case Mapping.lookup (quotas m) k of
     None \<Rightarrow> None | Some q \<Rightarrow> if t < q_end q then Some q else None)"

definition quota_usage :: "gotime \<Rightarrow> LimiterMemory \<Rightarrow> string \<Rightarrow> int option" where
  "quota_usage t m k = map_option q_used (quota_live t m k)"

lemma quota_live_Some_iff:
  "quota_live t m k = Some q \<longleftrightarrow> Mapping.lookup (quotas m) k = Some q \<and> t < q_end q"
  by (auto simp: quota_live_def split: option.splits if_splits)

lemma quota_live_cong: "quotas m = quotas m' \<Longrightarrow> quota_live t m = quota_live t m'"
  by (simp add: quota_live_def fun_eq_iff)

lemma quota_live_sweep: "t \<le> t' \<Longrightarrow> quota_live t' (sweepReclaimable t m) k = quota_live t' m k"
  by (auto simp: quota_live_def lookup_sweep split: option.splits)

lemma quota_live_tick: "t \<le> t' \<Longrightarrow> quota_live t' (lim_tickSweep t m) k = quota_live t' m k"
  by (rule tick_cases [of t m]) (metis quota_live_cong quota_live_sweep)+

lemma quota_live_admit: "t \<le> t' \<Longrightarrow> quota_live t' (fst (admit t m)) k = quota_live t' m k"
  by (rule admit_cases [of t m]) (metis quota_live_cong quota_live_sweep)+

lemma quota_live_update:
  "quota_live t (m\<lparr>quotas := Mapping.update key q (quotas m)\<rparr>) k =
     (if k = key then (if t < q_end q then Some q else None) else quota_live t m k)"
  by (auto simp: quota_live_def lookup_update')

lemma quota_live_buckets [simp]: "quota_live t (m\<lparr>buckets := x\<rparr>) k = quota_live t m k"
  by (simp add: quota_live_def)

lemma curWindow_live:
  "quota_live t m key = Some q \<Longrightarrow> curWindow t key w m = (lim_tickSweep t m, Some q)"
  by (simp add: curWindow_def quota_live_Some_iff)

lemma curWindow_keeps:
  assumes "t \<le> t'" and "quota_live t' m k = Some q"
  shows "quota_live t' (fst (curWindow t key w m)) k = Some q"
proof (cases "k = key")
  case True
  with assms have "quota_live t m key = Some q" by (auto simp: quota_live_Some_iff)
  with True assms show ?thesis by (simp add: curWindow_live quota_live_tick)
next
  case False
  have kept: "quota_live t' (lim_tickSweep t m) k = Some q"
    "quota_live t' (fst (admit t (lim_tickSweep t m))) k = Some q"
    using assms by (simp_all add: quota_live_tick quota_live_admit)
  with False show ?thesis
    by (auto simp: curWindow_def startWindow_def Let_def quota_live_update
        split: option.splits prod.splits bool.splits)
qed

lemma curWindow_Some_tracked:
  assumes "curWindow t key w m = (m', Some q)"
  shows "Mapping.lookup (quotas m') key = Some q"
proof (cases "quota_live t m key")
  case (Some q')
  with assms have "m' = lim_tickSweep t m" "q' = q" by (simp_all add: curWindow_live)
  with quota_live_tick [of t t m key] Some show ?thesis by (simp add: quota_live_Some_iff)
next
  case None
  with assms show ?thesis
    by (auto simp: curWindow_def startWindow_def quota_live_def Let_def
        split: option.splits prod.splits bool.splits if_splits)
qed

lemma wf_curWindow:
  assumes "wf_limiter m"
  shows "wf_limiter (fst (curWindow t key w m))"
proof -
  note wf = wf_tick [OF assms, of t]
  have start: "wf_limiter (fst (startWindow t key w m'))"
    if "wf_limiter m'" "Mapping.lookup (quotas m') key \<noteq> None \<or> entries m' < lim_maxEntries m'" for m'
    using wf_insert_quota [OF that] by (simp add: startWindow_def Let_def)
  have room: "Mapping.lookup (quotas (lim_tickSweep t m)) key \<noteq> None
      \<or> entries (lim_tickSweep t m) < lim_maxEntries (lim_tickSweep t m)"
    if "Mapping.lookup (quotas m) key \<noteq> None"
    using tick_makes_room [OF assms, of key t] that by auto
  show ?thesis
    using wf start [OF wf] room admit_outcome(2,3) [OF wf, of t] start
    by (auto simp: curWindow_def Let_def split: option.splits prod.splits bool.splits)
qed

lemma fst_CheckQuota:
  "fst (CheckQuota t key est lmt w m) = (if lmt \<le> 0 then m else fst (curWindow t key w m))"
  by (simp add: CheckQuota_def split: prod.splits option.splits)

lemma wf_DebitQuota: "wf_limiter m \<Longrightarrow> wf_limiter (DebitQuota t key amount w m)"
  using wf_curWindow [of m t key w] curWindow_Some_tracked [of t key w m]
  by (auto simp: DebitQuota_def intro!: wf_insert_quota split: prod.splits option.splits)

lemma quota_live_Debit:
  assumes "t \<le> t'" and "quota_live t' m k = Some q"
  shows "quota_live t' (DebitQuota t key amount w m) k =
    Some (if k = key then q\<lparr>q_used := add64 (q_used q) amount\<rparr> else q)"
proof (cases "k = key")
  case True
  with assms have "quota_live t m key = Some q" "t' < q_end q" by (auto simp: quota_live_Some_iff)
  with True show ?thesis by (simp add: DebitQuota_def curWindow_live quota_live_update)
next
  case False
  with curWindow_keeps [OF assms, of key w] show ?thesis
    by (auto simp: DebitQuota_def quota_live_update split: prod.splits option.splits)
qed

text \<open>The bucket operations of the store, as the remaining operations of the counter contract.\<close>

datatype rate_op = RAllow gotime string int int int | RAdjust gotime string int int

fun rate_aux :: "rate_op \<Rightarrow> LimiterMemory \<Rightarrow> LimiterMemory" where
  "rate_aux (RAllow t key cost r burst) m = fst (AllowRate t key cost r burst m)"
| "rate_aux (RAdjust t key delta burst) m = AdjustRate key delta burst m"

fun rate_aux_time :: "rate_op \<Rightarrow> gotime" where
  "rate_aux_time (RAllow t key cost r burst) = t"
| "rate_aux_time (RAdjust t key delta burst) = t"

definition quota_denies :: "QuotaDecision \<Rightarrow> bool" where
  "quota_denies d \<longleftrightarrow> d = QBlock"

lemma quota_live_AllowRate:
  assumes "t \<le> t'"
  shows "quota_live t' (fst (AllowRate t key cost r burst m)) k = quota_live t' m k"
  using quota_live_tick [OF assms, of m k] quota_live_admit [OF assms, of "lim_tickSweep t m" k]
  by (auto simp: AllowRate_def allowBucket_def Let_def split: option.splits prod.splits bool.splits)

lemma quota_live_AdjustRate: "quota_live t (AdjustRate key delta burst m) k = quota_live t m k"
  by (simp add: AdjustRate_def Let_def split: option.splits)

interpretation quota: window_counter quota_usage wf_limiter CheckQuota quota_denies DebitQuota
  rate_aux rate_aux_time
proof unfold_locales
  fix m t key est w amount x and lmt :: int
  assume wf: "wf_limiter m"
  show "wf_limiter (fst (CheckQuota t key est lmt w m))"
    using wf by (simp add: fst_CheckQuota wf_curWindow)
  show "wf_limiter (DebitQuota t key amount w m)" using wf by (rule wf_DebitQuota)
  show "wf_limiter (rate_aux x m)" using wf by (cases x) (simp_all add: wf_AllowRate wf_AdjustRate)
next
  fix m t t' k u key est w and lmt :: int
  assume "t \<le> t'" "quota_usage t' m k = Some u"
  then show "quota_usage t' (fst (CheckQuota t key est lmt w m)) k = Some u"
    by (auto simp: quota_usage_def fst_CheckQuota curWindow_keeps)
next
  fix m t t' k u key amount w
  assume "t \<le> t'" "quota_usage t' m k = Some u"
  then show "quota_usage t' (DebitQuota t key amount w m) k = Some (if k = key then add64 u amount else u)"
    by (auto simp: quota_usage_def quota_live_Debit)
next
  fix m x t' k u
  assume "rate_aux_time x \<le> t'" "quota_usage t' m k = Some u"
  then show "quota_usage t' (rate_aux x m) k = Some u"
    by (cases x) (auto simp: quota_usage_def quota_live_AllowRate quota_live_AdjustRate)
next
  fix m t key u est w and lmt :: int
  assume "0 < lmt" "quota_usage t m key = Some u"
  then show "quota_denies (snd (CheckQuota t key est lmt w m)) \<longleftrightarrow> lmt < add64 u est"
    by (auto simp: quota_usage_def CheckQuota_def quota_denies_def curWindow_live split: if_splits)
qed

lemma step_maxEntries:
  "lim_maxEntries (counter_step CheckQuota DebitQuota rate_aux x m) = lim_maxEntries m"
proof -
  have ad: "lim_maxEntries (fst (admit t m)) = lim_maxEntries m" for t m by (rule admit_sel)
  have cw: "lim_maxEntries (fst (curWindow t key w m)) = lim_maxEntries m" for t key w m
    using ad [of t "lim_tickSweep t m"]
    by (auto simp: curWindow_def startWindow_def Let_def split: option.splits prod.splits bool.splits)
  have ar: "lim_maxEntries (fst (AllowRate t key c r b m)) = lim_maxEntries m" for t key c r b m
    using ad [of t "lim_tickSweep t m"]
    by (auto simp: AllowRate_def allowBucket_def Let_def split: option.splits prod.splits bool.splits)
  have dq: "lim_maxEntries (DebitQuota t key a w m) = lim_maxEntries m" for t key a w m
    using cw [of t key w m] by (auto simp: DebitQuota_def split: option.splits prod.splits)
  have "lim_maxEntries (rate_aux y m) = lim_maxEntries m" for y
    by (cases y) (simp_all add: ar AdjustRate_def Let_def split: option.splits)
  with cw dq show ?thesis by (cases x) (simp_all add: fst_CheckQuota)
qed

lemma run_maxEntries:
  "lim_maxEntries (counter_run CheckQuota DebitQuota rate_aux ops m) = lim_maxEntries m"
  by (induction ops arbitrary: m) (simp_all add: step_maxEntries)

section \<open>Bucket decisions\<close>

definition capped :: "gotime \<Rightarrow> int \<Rightarrow> int \<Rightarrow> bucket \<Rightarrow> rat" where
  "capped t r burst b = min (float_of_int burst) (refilled t r b)"

lemma snd_allowBucket:
  "snd (allowBucket t key cost r burst b m) \<longleftrightarrow> float_of_int cost \<le> capped t r burst b"
  by (auto simp: allowBucket_def Let_def capped_def)

lemma bucket_allowBucket:
  "Mapping.lookup (buckets (fst (allowBucket t key cost r burst b m))) key =
     Some \<lparr>tokens = (if float_of_int cost \<le> capped t r burst b
                     then fl (capped t r burst b - float_of_int cost) else capped t r burst b),
           last_refill = t, bkt_rate = r, bkt_burst = burst\<rparr>"
  by (auto simp: allowBucket_def Let_def capped_def lookup_update')

lemma refilled_newBucket: "\<bar>burst\<bar> \<le> 2 ^ 53 \<Longrightarrow> refilled t r (newBucket t r burst) = float_of_int burst"
  by (simp add: refilled_now newBucket_def float_exact ieee.rnd_int)

lemma capped_newBucket: "\<bar>burst\<bar> \<le> 2 ^ 53 \<Longrightarrow> capped t r burst (newBucket t r burst) = float_of_int burst"
  by (simp add: capped_def refilled_newBucket)

text \<open>A bucket the sweep may drop decides like one that was never created.\<close>

lemma capped_reclaimable:
  "bucket_reclaimable t b \<Longrightarrow> bkt_rate b = r \<Longrightarrow> bkt_burst b = burst \<Longrightarrow>
     capped t r burst b = float_of_int burst"
  by (simp add: capped_def bucket_reclaimable_def min_absorb1)

lemma tick_lookup_bucket:
  "Mapping.lookup (buckets m) key = Some b \<Longrightarrow>
     Mapping.lookup (buckets (lim_tickSweep t m)) key = Some b
     \<or> Mapping.lookup (buckets (lim_tickSweep t m)) key = None \<and> bucket_reclaimable t b"
  by (rule tick_cases [of t m]) (auto simp: lookup_sweep)

lemma AllowRate_tracked:
  assumes "wf_limiter m" and "0 < r" and "\<bar>burst\<bar> \<le> 2 ^ 53"
    and "Mapping.lookup (buckets m) key = Some b" and "bkt_rate b = r" and "bkt_burst b = burst"
  shows "\<exists>m' b'. AllowRate t key cost r burst m = allowBucket t key cost r burst b' m'
    \<and> capped t r burst b' = capped t r burst b"
proof (cases "Mapping.lookup (buckets (lim_tickSweep t m)) key")
  case (Some b')
  with tick_lookup_bucket [OF assms(4), of t] have "b' = b" by simp
  with Some assms(2) show ?thesis by (auto simp: AllowRate_def)
next
  case None
  with tick_lookup_bucket [OF assms(4), of t] have full: "bucket_reclaimable t b" by simp
  have "entries (lim_tickSweep t m) < lim_maxEntries m"
    using tick_makes_room [OF assms(1), of key t] None assms(4) by simp
  then have "admit t (lim_tickSweep t m) = (lim_tickSweep t m, True)" by (simp add: admit_def)
  with None assms(2) have "AllowRate t key cost r burst m
      = allowBucket t key cost r burst (newBucket t r burst) (lim_tickSweep t m)"
    by (simp add: AllowRate_def)
  with capped_newBucket [OF assms(3)] capped_reclaimable [OF full assms(5,6)] show ?thesis
    by metis
qed

lemma AllowRate_untracked:
  assumes "wf_limiter m" and "0 < r" and "Mapping.lookup (buckets m) key = None"
  shows "if entries (sweepReclaimable t m) < lim_maxEntries m
    then \<exists>m'. AllowRate t key cost r burst m = allowBucket t key cost r burst (newBucket t r burst) m'
    else \<not> snd (AllowRate t key cost r burst m)"
  using admit_outcome(1) [OF wf_tick [OF assms(1), of t], of t] assms(2)
    tick_lookup_None(1) [OF assms(3), of t]
  by (auto simp: AllowRate_def entries_sweep_tick split: prod.splits bool.splits)

definition bucket_policy :: "string \<Rightarrow> int \<Rightarrow> int \<Rightarrow> LimiterMemory \<Rightarrow> bool" where
  "bucket_policy key r burst m =
     (case Mapping.lookup (buckets m) key of
        None \<Rightarrow> True | Some b \<Rightarrow> bkt_rate b = r \<and> bkt_burst b = burst)"

lemma AllowRate_decision:
  assumes "wf_limiter m" and "0 < r" and "\<bar>burst\<bar> \<le> 2 ^ 53" and "bucket_policy key r burst m"
  shows "snd (AllowRate t key cost r burst m) \<longleftrightarrow>
    (case Mapping.lookup (buckets m) key of
       Some b \<Rightarrow> float_of_int cost \<le> capped t r burst b
     | None \<Rightarrow> entries (sweepReclaimable t m) < lim_maxEntries m
         \<and> float_of_int cost \<le> float_of_int burst)"
proof (cases "Mapping.lookup (buckets m) key")
  case None
  with AllowRate_untracked [OF assms(1,2) None, of t cost burst] show ?thesis
    by (auto simp: snd_allowBucket capped_newBucket [OF assms(3)] split: if_splits)
next
  case (Some b)
  then have "bkt_rate b = r" "bkt_burst b = burst" using assms(4) by (simp_all add: bucket_policy_def)
  from AllowRate_tracked [OF assms(1-3) Some this, of t cost] Some show ?thesis
    by (auto simp: snd_allowBucket)
qed

definition clock_past :: "gotime \<Rightarrow> LimiterMemory \<Rightarrow> bool" where
  "clock_past t m \<longleftrightarrow> (\<forall>k b. Mapping.lookup (buckets m) k = Some b \<longrightarrow> last_refill b \<le> t)"

section \<open>Charging one bucket within an instant\<close>

fun allowAll ::
  "gotime \<Rightarrow> string \<Rightarrow> int \<Rightarrow> int \<Rightarrow> int list \<Rightarrow> LimiterMemory \<Rightarrow> bool list" where
  "allowAll t key r burst [] m = []"
| "allowAll t key r burst (c # cs) m =
     (case AllowRate t key c r burst m of (m', ok) \<Rightarrow> ok # allowAll t key r burst cs m')"

text \<open>The specification: admit what still fits.\<close>

fun greedy :: "int \<Rightarrow> int list \<Rightarrow> bool list" where
  "greedy left [] = []"
| "greedy left (c # cs) = (if c \<le> left then True # greedy (left - c) cs else False # greedy left cs)"

fun charged :: "int list \<Rightarrow> bool list \<Rightarrow> int" where
  "charged (c # cs) (ok # oks) = (if ok then c else 0) + charged cs oks"
| "charged _ _ = 0"

lemma greedy_bound: "0 \<le> left \<Longrightarrow> charged cs (greedy left cs) \<le> left"
  by (induction left cs rule: greedy.induct) fastforce+

definition level_at :: "gotime \<Rightarrow> string \<Rightarrow> int \<Rightarrow> int \<Rightarrow> int \<Rightarrow> LimiterMemory \<Rightarrow> bool" where
  "level_at t key r burst n m \<longleftrightarrow> wf_limiter m \<and>
     Mapping.lookup (buckets m) key =
       Some \<lparr>tokens = of_int n, last_refill = t, bkt_rate = r, bkt_burst = burst\<rparr>"

lemma charge_level:
  assumes "capped t r burst b = of_int n" and "0 \<le> c" "c \<le> 2 ^ 53" "0 \<le> n" "n \<le> 2 ^ 53"
    and "wf_limiter (fst (allowBucket t key c r burst b m))"
  shows "snd (allowBucket t key c r burst b m) \<longleftrightarrow> c \<le> n"
    and "level_at t key r burst (if c \<le> n then n - c else n) (fst (allowBucket t key c r burst b m))"
proof -
  have c: "float_of_int c = of_int c" using assms by (simp add: float_exact)
  have "c \<le> n \<Longrightarrow> fl (of_int n - of_int c) = (of_int (n - c) :: rat)"
    using ieee.rnd_int [of "n - c"] assms by simp
  then show "snd (allowBucket t key c r burst b m) \<longleftrightarrow> c \<le> n"
    and "level_at t key r burst (if c \<le> n then n - c else n) (fst (allowBucket t key c r burst b m))"
    using assms by (simp_all add: snd_allowBucket level_at_def bucket_allowBucket c)
qed

lemma capped_level:
  assumes "0 \<le> n" and "n \<le> burst" and "burst \<le> 2 ^ 53"
  shows "capped t r burst \<lparr>tokens = of_int n, last_refill = t, bkt_rate = r', bkt_burst = b'\<rparr> = of_int n"
  using assms by (simp add: capped_def refilled_now ieee.rnd_int float_exact min_absorb2)

lemma allowAll_level:
  assumes "level_at t key r burst n m" and "0 < r" and "0 \<le> n" "n \<le> burst" "burst \<le> 2 ^ 53"
    and "\<forall>c \<in> set cs. 0 \<le> c \<and> c \<le> 2 ^ 53"
  shows "allowAll t key r burst cs m = greedy n cs"
  using assms
proof (induction cs arbitrary: n m)
  case Nil
  then show ?case by simp
next
  case (Cons c cs)
  let ?m = "fst (AllowRate t key c r burst m)"
  from Cons.prems have wf: "wf_limiter m" and c: "0 \<le> c" "c \<le> 2 ^ 53"
    and b: "\<bar>burst\<bar> \<le> 2 ^ 53" "n \<le> 2 ^ 53" by (auto simp: level_at_def)
  obtain m' b' where step: "AllowRate t key c r burst m = allowBucket t key c r burst b' m'"
    and "capped t r burst b' = of_int n"
    using AllowRate_tracked [OF wf Cons.prems(2) b(1), of key] Cons.prems(1,3-5)
    by (fastforce simp: level_at_def capped_level)
  then have "snd (AllowRate t key c r burst m) \<longleftrightarrow> c \<le> n"
    "level_at t key r burst (if c \<le> n then n - c else n) ?m"
    using charge_level [of t r burst b' n c key m'] c b(2) Cons.prems(3) wf_AllowRate [OF wf, of t key c r burst]
    by simp_all
  then show ?case
    using Cons.IH [of "if c \<le> n then n - c else n" ?m] Cons.prems c
    by (simp add: case_prod_unfold split: if_splits)
qed

section \<open>Properties\<close>

text \<open>
  Sweeping a bucket that has refilled is unobservable. While the policy of a key is stable,
  a rate decision at any later time is the same whether or not the sweep ran before, for
  every key, also one at a store that is at its capacity; in particular a bucket in debt is
  never laundered by the sweep.
\<close>

lemma sweep_unobservable:
  assumes "wf_limiter m" and "clock_past t m" and "t \<le> t'"
    and "0 < r" and "\<bar>burst\<bar> \<le> 2 ^ 53" and "bucket_policy key r burst m"
  shows "snd (AllowRate t' key cost r burst (sweepReclaimable t m))
    = snd (AllowRate t' key cost r burst m)"
proof -
  let ?s = "sweepReclaimable t m"
  have pol: "bucket_policy key r burst ?s"
    using assms(6) by (auto simp: bucket_policy_def lookup_sweep split: option.splits)
  have same: "sweepReclaimable t' ?s = sweepReclaimable t' m"
    using assms(2,3) by (intro sweep_sweep) (auto simp: clock_past_def)
  note dec = AllowRate_decision [OF wf_sweep [OF assms(1)] assms(4,5) pol, of t' cost]
    AllowRate_decision [OF assms(1,4,5,6), of t' cost]
  show ?thesis
  proof (cases "Mapping.lookup (buckets ?s) key = None \<and> Mapping.lookup (buckets m) key \<noteq> None")
    case True
    then obtain b where b: "Mapping.lookup (buckets m) key = Some b" "bucket_reclaimable t b"
      by (auto simp: lookup_sweep split: option.splits if_splits)
    have "bucket_reclaimable t' b"
      using b assms(2,3) by (auto simp: clock_past_def intro: reclaimable_later)
    moreover have "entries (sweepReclaimable t' ?s) < lim_maxEntries m"
      using sweep_makes_room [OF assms(1), of key t] True entries_sweep [OF wf_sweep [OF assms(1)], of t' t]
      by simp
    ultimately show ?thesis
      using b True assms(6) unfolding dec by (simp add: capped_reclaimable bucket_policy_def)
  next
    case False
    then have "Mapping.lookup (buckets ?s) key = Mapping.lookup (buckets m) key"
      by (auto simp: lookup_sweep split: option.splits)
    then show ?thesis unfolding dec by (simp add: same split: option.split)
  qed
qed

text \<open>
  Within one instant a new bucket admits greedily up to its burst and not one token more:
  the decisions for any sequence of charges are exactly those of a counter that starts at
  the burst, so the admitted cost never exceeds it, despite the floating-point balance and
  the sweeps that may run in between.
\<close>

lemma burst_bound:
  assumes "wf_limiter m" and "Mapping.lookup (buckets m) key = None"
    and "entries (sweepReclaimable t m) < lim_maxEntries m"
    and "0 < r" and "0 \<le> burst" and "burst \<le> 2 ^ 53"
    and "\<forall>c \<in> set cs. 0 \<le> c \<and> c \<le> 2 ^ 53"
  shows "allowAll t key r burst cs m = greedy burst cs
    \<and> charged cs (allowAll t key r burst cs m) \<le> burst"
proof -
  have "allowAll t key r burst cs m = greedy burst cs"
  proof (cases cs)
    case Nil
    then show ?thesis by simp
  next
    case (Cons c cs')
    obtain m' where step: "AllowRate t key c r burst m = allowBucket t key c r burst (newBucket t r burst) m'"
      using AllowRate_untracked [OF assms(1,4,2), of t c burst] assms(3) by auto
    have "capped t r burst (newBucket t r burst) = of_int burst"
      using assms(5,6) by (simp add: capped_newBucket float_exact)
    from charge_level [OF this, of c key m'] step wf_AllowRate [OF assms(1), of t key c r burst]
    have "snd (AllowRate t key c r burst m) \<longleftrightarrow> c \<le> burst"
      "level_at t key r burst (if c \<le> burst then burst - c else burst) (fst (AllowRate t key c r burst m))"
      using assms(5-7) Cons by simp_all
    then show ?thesis
      using allowAll_level [of t key r burst "if c \<le> burst then burst - c else burst"
          "fst (AllowRate t key c r burst m)" cs'] assms(4-7) Cons
      by (simp add: case_prod_unfold split: if_splits)
  qed
  with greedy_bound [OF assms(5)] show ?thesis by simp
qed

text \<open>
  A live quota window counts exactly the tokens debited to it: whatever is interleaved
  (checks, debits of other keys, bucket charges and true-ups on the same store), a check
  within the window blocks exactly when used tokens, debits and estimate exceed the limit.
\<close>

lemma quota_window_exact:
  assumes "wf_limiter m"
    and "\<forall>x \<in> set ops. op_time rate_aux_time x \<le> t"
    and "quota_live t m k = Some q" and "in64 (q_used q)"
    and "0 < lmt" and "in64 (q_used q + debits_to k ops + est)"
  shows "quota_denies (snd (CheckQuota t k est lmt w (counter_run CheckQuota DebitQuota rate_aux ops m)))
    \<longleftrightarrow> lmt < q_used q + debits_to k ops + est"
  using assms by (intro quota.run_blocks) (auto simp: quota_usage_def)

text \<open>
  The limiter store is bounded: after any sequence of operations the buckets and the
  windows together never exceed the configured capacity.
\<close>

lemma limiter_capacity:
  assumes "0 \<le> cap"
  shows "entries (counter_run CheckQuota DebitQuota rate_aux ops (NewLimiter\<lparr>lim_maxEntries := cap\<rparr>)) \<le> cap"
proof -
  let ?m = "NewLimiter\<lparr>lim_maxEntries := cap\<rparr>"
  have "wf_limiter ?m"
    using assms by (simp add: wf_limiter_def entries_def NewLimiter_def)
  then have "wf_limiter (counter_run CheckQuota DebitQuota rate_aux ops ?m)" by (rule quota.run_inv)
  then show ?thesis by (simp add: wf_limiter_def run_maxEntries)
qed

end
