(* ===== verification/Tier.thy ===== *)
theory Tier
  imports Calendar
begin

text \<open>
  Budget tiers, \<^verbatim>\<open>internal/tier/tier.go\<close> and \<^verbatim>\<open>internal/tier/period.go\<close>: the table of
  model substitutions active for a subject (team, user or both), the strict constraints that
  must never be loosened, the latch that makes tier activation monotone within a budget
  window, and the utilization percentage that drives it.
\<close>

section \<open>The substitution table\<close>

record ActiveTier =
  at_Policy :: string
  at_Rule :: string
  at_BudgetRef :: string
  at_Team :: string
  at_Threshold :: int
  at_Substitute :: "(string, string) mapping"
  at_EnforceTargets :: bool
  at_User :: string

type_synonym subjectKey = "string \<times> string"

record winner =
  w_threshold :: int
  w_policy :: string
  w_rule :: string

record choice =
  c_target :: string
  c_priority :: winner

record TierTable =
  bySubject :: "(subjectKey, (string, choice) mapping) mapping"
  strict :: "(subjectKey, (string, string) mapping) mapping"

definition NewTierTable :: TierTable where
  "NewTierTable = \<lparr>bySubject = Mapping.empty, strict = Mapping.empty\<rparr>"

definition higherPressure :: "winner \<Rightarrow> winner \<Rightarrow> bool" where
  "higherPressure cand cur =
     (if w_threshold cand \<noteq> w_threshold cur then w_threshold cand > w_threshold cur
      else if w_policy cand \<noteq> w_policy cur then w_policy cand < w_policy cur
      else w_rule cand < w_rule cur)"

definition matchingKeys :: "string \<Rightarrow> string \<Rightarrow> subjectKey list" where
  "matchingKeys team user =
     [(team, []), ([], user), if team \<noteq> [] \<and> user \<noteq> [] then (team, user) else ([], [])]"

definition mapAt :: "('k, ('a, 'b) mapping) mapping \<Rightarrow> 'k \<Rightarrow> ('a, 'b) mapping" where
  "mapAt m k = (case Mapping.lookup m k of None \<Rightarrow> Mapping.empty | Some x \<Rightarrow> x)"

definition mergeChoices :: "(string, choice) mapping \<Rightarrow> (string, choice) mapping \<Rightarrow> (string, choice) mapping" where
  "mergeChoices candidates selected =
     range_put (\<lambda>frm candidate previous.
       case previous of
         None \<Rightarrow> Some candidate
       | Some p \<Rightarrow> if higherPressure (c_priority candidate) (c_priority p) then Some candidate else None)
       candidates selected"

text \<open>A nil result map of the source is the empty mapping here: callers only look names up.\<close>

definition GetForSubject :: "string \<Rightarrow> string \<Rightarrow> TierTable \<Rightarrow> (string, string) mapping" where
  "GetForSubject team user tb =
     Mapping.map_values (\<lambda>frm c. c_target c)
       (fold (\<lambda>key selected. if key = ([], []) then selected else mergeChoices (mapAt (bySubject tb) key) selected)
         (matchingKeys team user) Mapping.empty)"

definition tier_Get :: "string \<Rightarrow> TierTable \<Rightarrow> (string, string) mapping" where
  "tier_Get team tb = GetForSubject team [] tb"

definition mergeConstraints :: "(string, string) mapping \<Rightarrow> (string, string) mapping \<Rightarrow> (string, string) mapping" where
  "mergeConstraints out restrictions =
     range_put (\<lambda>frm to old. case old of
         Some o' \<Rightarrow> if o' \<noteq> to then Some [] else Some to
       | None \<Rightarrow> Some to) restrictions out"

definition ConstraintsForSubject :: "string \<Rightarrow> string \<Rightarrow> TierTable \<Rightarrow> (string, string) mapping" where
  "ConstraintsForSubject team user tb =
     fold (\<lambda>key out. if key = ([], []) \<or> Mapping.is_empty (mapAt (strict tb) key) then out
                    else mergeConstraints out (mapAt (strict tb) key))
       (matchingKeys team user) Mapping.empty"

definition Constraints :: "string \<Rightarrow> TierTable \<Rightarrow> (string, string) mapping" where
  "Constraints team tb = ConstraintsForSubject team [] tb"

definition tierPriority :: "ActiveTier \<Rightarrow> winner" where
  "tierPriority a = \<lparr>w_threshold = at_Threshold a, w_policy = at_Policy a, w_rule = at_Rule a\<rparr>"

definition setTier :: "ActiveTier \<Rightarrow> TierTable \<Rightarrow> TierTable" where
  "setTier a tb =
     (let key = (at_Team a, at_User a)
      in if key = ([], []) then tb
         else \<lparr>bySubject = Mapping.update key
                  (range_put (\<lambda>frm to cur.
                      case cur of
                        Some c \<Rightarrow> if \<not> higherPressure (tierPriority a) (c_priority c) then None
                                  else Some \<lparr>c_target = to, c_priority = tierPriority a\<rparr>
                      | None \<Rightarrow> Some \<lparr>c_target = to, c_priority = tierPriority a\<rparr>)
                    (at_Substitute a) (mapAt (bySubject tb) key)) (bySubject tb),
               strict = (if at_EnforceTargets a
                  then Mapping.update key (mergeConstraints (mapAt (strict tb) key) (at_Substitute a)) (strict tb)
                  else strict tb)\<rparr>)"

text \<open>The table \<^verbatim>\<open>Set\<close> installs depends on the active tiers only, not on the previous table.\<close>

definition tier_Set :: "ActiveTier list \<Rightarrow> TierTable" where
  "tier_Set active = fold setTier active NewTierTable"

section \<open>The latch\<close>

record latchEntry =
  le_window :: string
  tierIndex :: int

type_synonym Latch = "(string, latchEntry) mapping"

definition NewLatch :: Latch where
  "NewLatch = Mapping.empty"

fun crossedFrom :: "int \<Rightarrow> int list \<Rightarrow> int \<Rightarrow> int \<Rightarrow> int" where
  "crossedFrom i [] percentUtilized crossed = crossed"
| "crossedFrom i (th # ths) percentUtilized crossed =
     crossedFrom (i + 1) ths percentUtilized (if percentUtilized \<ge> th then i else crossed)"

definition Evaluate :: "string \<Rightarrow> string \<Rightarrow> int list \<Rightarrow> int \<Rightarrow> Latch \<Rightarrow> Latch \<times> int" where
  "Evaluate key window thresholds percentUtilized l =
     (let e = (case Mapping.lookup l key of
                 Some e \<Rightarrow> if le_window e \<noteq> window then \<lparr>le_window = window, tierIndex = - 1\<rparr> else e
               | None \<Rightarrow> \<lparr>le_window = window, tierIndex = - 1\<rparr>);
          crossed = crossedFrom 0 thresholds percentUtilized (- 1);
          i1 = (if crossed > tierIndex e then crossed else tierIndex e);
          i2 = (if i1 \<ge> int (length thresholds) then int (length thresholds) - 1 else i1)
      in (Mapping.update key (e\<lparr>tierIndex := i2\<rparr>) l, i2))"

definition Forget :: "string \<Rightarrow> Latch \<Rightarrow> Latch" where
  "Forget key l = Mapping.delete key l"

definition WindowKey :: "gotime \<Rightarrow> string" where
  "WindowKey now = format_month UTC now"

section \<open>Utilization\<close>

text \<open>\<^verbatim>\<open>bits.Mul64\<close> and \<^verbatim>\<open>bits.Div64\<close>; the latter panics, here \<open>None\<close>, when the quotient does not fit.\<close>

definition Mul64 :: "int \<Rightarrow> int \<Rightarrow> int \<times> int" where
  "Mul64 x y = (x * y div 2 ^ 64, x * y mod 2 ^ 64)"

definition Div64 :: "int \<Rightarrow> int \<Rightarrow> int \<Rightarrow> (int \<times> int) option" where
  "Div64 hi lo y =
     (if y = 0 \<or> y \<le> hi then None else Some ((hi * 2 ^ 64 + lo) div y, (hi * 2 ^ 64 + lo) mod y))"

definition UtilizedPercent :: "int \<Rightarrow> int \<Rightarrow> int \<Rightarrow> int option" where
  "UtilizedPercent spent outstanding limit =
     (if spent < 0 \<or> outstanding < 0 \<or> limit \<le> 0 \<or> spent \<ge> limit \<or> outstanding \<ge> sub64 limit spent
      then Some 100
      else case Mul64 (add64 spent outstanding mod 2 ^ 64) 100 of
             (hi, lo) \<Rightarrow> map_option fst (Div64 hi lo (limit mod 2 ^ 64)))"

definition WindowKeyForPeriod :: "location \<Rightarrow> gotime \<Rightarrow> BudgetPeriod \<Rightarrow> string" where
  "WindowKeyForPeriod loc now period =
     (if period = PeriodCalendarDay then format_day loc now else format_month loc now)"

section \<open>Pressure is a total order\<close>

lemma hp_irrefl: "\<not> higherPressure a a"
  by (simp add: higherPressure_def)

lemma hp_trans_neg:
  "\<not> higherPressure a b \<Longrightarrow> \<not> higherPressure b c \<Longrightarrow> \<not> higherPressure a c"
  by (auto simp: higherPressure_def split: if_splits)

lemma hp_asym: "higherPressure a b \<Longrightarrow> \<not> higherPressure b a"
  by (auto simp: higherPressure_def split: if_splits)

lemma hp_total: "\<not> higherPressure a b \<Longrightarrow> \<not> higherPressure b a \<Longrightarrow> a = b"
  by (auto simp: higherPressure_def split: if_splits)

text \<open>The result of a selection: nothing offered, or an offer no other offer beats.\<close>

definition is_best :: "choice set \<Rightarrow> choice option \<Rightarrow> bool" where
  "is_best S c = (case c of
     None \<Rightarrow> S = {}
   | Some x \<Rightarrow> x \<in> S \<and> (\<forall>y \<in> S. \<not> higherPressure (c_priority y) (c_priority x)))"

definition pick :: "choice option \<Rightarrow> choice option \<Rightarrow> choice option" where
  "pick cand prev = (case cand of
     None \<Rightarrow> prev
   | Some c \<Rightarrow> (case prev of
       None \<Rightarrow> Some c
     | Some p \<Rightarrow> if higherPressure (c_priority c) (c_priority p) then Some c else Some p))"

lemma is_best_pick:
  assumes "is_best S cand" and "is_best T prev"
  shows "is_best (S \<union> T) (pick cand prev)"
proof (cases cand; cases prev)
  fix c p
  assume c: "cand = Some c" and p: "prev = Some p"
  show ?thesis
  proof (cases "higherPressure (c_priority c) (c_priority p)")
    case True
    then have "\<forall>y \<in> T. \<not> higherPressure (c_priority y) (c_priority c)"
      using assms(2) p hp_trans_neg [OF _ hp_asym [OF True]] by (simp add: is_best_def)
    with True c p assms(1) show ?thesis by (auto simp: is_best_def pick_def)
  next
    case False
    then have "\<forall>y \<in> S. \<not> higherPressure (c_priority y) (c_priority p)"
      using assms(1) c hp_trans_neg [OF _ False] by (simp add: is_best_def)
    with False c p assms(2) show ?thesis by (auto simp: is_best_def pick_def)
  qed
qed (use assms in \<open>auto simp: is_best_def pick_def\<close>)

lemma is_best_empty: "is_best {} None"
  by (simp add: is_best_def)

lemma finite_keys_range_put:
  assumes "finite (Mapping.keys r)" and "finite (Mapping.keys m)"
  shows "finite (Mapping.keys (range_put f r m))"
proof (rule finite_subset)
  show "Mapping.keys (range_put f r m) \<subseteq> Mapping.keys r \<union> Mapping.keys m"
    by (auto simp: keys_lookup lookup_range_put [OF assms(1)] split: option.splits)
qed (use assms in simp)

lemma lookup_mergeChoices:
  "finite (Mapping.keys m) \<Longrightarrow>
     Mapping.lookup (mergeChoices m selected) k = pick (Mapping.lookup m k) (Mapping.lookup selected k)"
  by (auto simp: mergeChoices_def lookup_range_put pick_def split: option.splits)

lemma lookup_mapAt_empty [simp]: "mapAt Mapping.empty k = Mapping.empty"
  by (simp add: mapAt_def)

lemma mapAt_update: "mapAt (Mapping.update k v m) k' = (if k = k' then v else mapAt m k')"
  by (simp add: mapAt_def lookup_update')

definition offer :: "ActiveTier \<Rightarrow> string \<Rightarrow> choice option" where
  "offer a frm = map_option (\<lambda>to. \<lparr>c_target = to, c_priority = tierPriority a\<rparr>)
     (Mapping.lookup (at_Substitute a) frm)"

definition finite_tier :: "ActiveTier \<Rightarrow> bool" where
  "finite_tier a \<longleftrightarrow> finite (Mapping.keys (at_Substitute a))"

lemma setTier_bySubject:
  assumes "finite_tier a" and "key \<noteq> ([], [])"
  shows "Mapping.lookup (mapAt (bySubject (setTier a tb)) key) frm =
    (if (at_Team a, at_User a) = key
     then pick (offer a frm) (Mapping.lookup (mapAt (bySubject tb) key) frm)
     else Mapping.lookup (mapAt (bySubject tb) key) frm)"
  using assms
  by (auto simp: setTier_def Let_def mapAt_update lookup_range_put finite_tier_def offer_def pick_def
      split: option.splits)

lemma setTier_finite:
  assumes "finite_tier a" and "finite (Mapping.keys (mapAt (bySubject tb) key))"
  shows "finite (Mapping.keys (mapAt (bySubject (setTier a tb)) key))"
  using assms by (auto simp: setTier_def Let_def mapAt_update finite_tier_def finite_keys_range_put)

definition offers :: "(ActiveTier \<Rightarrow> bool) \<Rightarrow> ActiveTier list \<Rightarrow> string \<Rightarrow> choice set" where
  "offers P active frm = {c. \<exists>a \<in> set active. P a \<and> offer a frm = Some c}"

lemma offers_snoc:
  "offers P (active @ [a]) frm =
     (if P a then set_option (offer a frm) else {}) \<union> offers P active frm"
  by (auto simp: offers_def)

lemma is_best_offer: "is_best (set_option (offer a frm)) (offer a frm)"
  by (cases "offer a frm") (simp_all add: is_best_def hp_irrefl)

lemma tier_Set_snoc: "tier_Set (active @ [a]) = setTier a (tier_Set active)"
  by (simp add: tier_Set_def)

lemma tier_Set_best:
  assumes "\<forall>a \<in> set active. finite_tier a" and "key \<noteq> ([], [])"
  shows "is_best (offers (\<lambda>a. (at_Team a, at_User a) = key) active frm)
      (Mapping.lookup (mapAt (bySubject (tier_Set active)) key) frm)
    \<and> finite (Mapping.keys (mapAt (bySubject (tier_Set active)) key))"
  using assms(1)
proof (induction active rule: rev_induct)
  case Nil
  then show ?case by (simp add: tier_Set_def NewTierTable_def offers_def is_best_empty)
next
  case (snoc a active)
  let ?P = "\<lambda>a. (at_Team a, at_User a) = key"
  have IH: "is_best (offers ?P active frm) (Mapping.lookup (mapAt (bySubject (tier_Set active)) key) frm)"
    "finite (Mapping.keys (mapAt (bySubject (tier_Set active)) key))" "finite_tier a"
    using snoc by simp_all
  show ?case
    using is_best_pick [OF is_best_offer [of a frm] IH(1)] IH
    by (cases "?P a")
      (simp_all add: offers_snoc tier_Set_snoc setTier_bySubject [OF IH(3) assms(2)] setTier_finite)
qed

definition applies :: "string \<Rightarrow> string \<Rightarrow> ActiveTier \<Rightarrow> bool" where
  "applies team user a \<longleftrightarrow> (at_Team a \<noteq> [] \<or> at_User a \<noteq> [])
     \<and> (at_Team a = [] \<or> at_Team a = team) \<and> (at_User a = [] \<or> at_User a = user)"

lemma applies_matchingKeys:
  "applies team user a \<longleftrightarrow>
     (at_Team a, at_User a) \<in> set (matchingKeys team user) \<and> (at_Team a, at_User a) \<noteq> ([], [])"
  by (auto simp: applies_def matchingKeys_def)

lemma fold_selected_best:
  assumes "\<And>k. k \<in> set keys \<Longrightarrow> k \<noteq> ([], []) \<Longrightarrow>
      is_best (S k) (Mapping.lookup (m k) frm) \<and> finite (Mapping.keys (m k))"
    and "is_best T (Mapping.lookup sel frm)"
  shows "is_best (T \<union> (\<Union>k \<in> set keys - {([], [])}. S k))
    (Mapping.lookup (fold (\<lambda>key selected. if key = ([], []) then selected else mergeChoices (m key) selected) keys sel) frm)"
  using assms
proof (induction keys arbitrary: sel T)
  case Nil
  then show ?case by simp
next
  case (Cons k keys)
  show ?case
  proof (cases "k = ([], [])")
    case True
    then show ?thesis using Cons.IH [of T sel] Cons.prems by simp
  next
    case False
    then have "is_best (S k \<union> T) (Mapping.lookup (mergeChoices (m k) sel) frm)"
      using Cons.prems(1) [of k] Cons.prems(2) by (simp add: lookup_mergeChoices is_best_pick)
    from Cons.IH [OF _ this] Cons.prems(1) False show ?thesis
      by (simp add: insert_Diff_if Un_ac)
  qed
qed

lemma GetForSubject_best:
  assumes "\<forall>a \<in> set active. finite_tier a"
  shows "\<exists>c. is_best (offers (applies team user) active frm) c
    \<and> Mapping.lookup (GetForSubject team user (tier_Set active)) frm = map_option c_target c"
proof -
  let ?S = "\<lambda>key. offers (\<lambda>a. (at_Team a, at_User a) = key) active frm"
  have "(\<Union>k \<in> set (matchingKeys team user) - {([], [])}. ?S k) = offers (applies team user) active frm"
    by (auto simp: offers_def applies_matchingKeys)
  then show ?thesis
    using fold_selected_best [of "matchingKeys team user" ?S
        "\<lambda>k. mapAt (bySubject (tier_Set active)) k" "frm" "{}" Mapping.empty]
      tier_Set_best [OF assms] is_best_empty
    by (auto simp: GetForSubject_def lookup_map_values)
qed

section \<open>Strict constraints\<close>

text \<open>The join of the demanded targets: the one all agree on, or the empty target when they conflict.\<close>

definition is_join :: "string set \<Rightarrow> string option \<Rightarrow> bool" where
  "is_join S d = (case d of
     None \<Rightarrow> S = {}
   | Some x \<Rightarrow> S = {x} \<or> x = [] \<and> (\<exists>y \<in> S. \<exists>z \<in> S. y \<noteq> z))"

definition joinTarget :: "string option \<Rightarrow> string option \<Rightarrow> string option" where
  "joinTarget new old = (case new of
     None \<Rightarrow> old
   | Some to \<Rightarrow> (case old of None \<Rightarrow> Some to | Some o' \<Rightarrow> if o' \<noteq> to then Some [] else Some to))"

lemma is_join_step:
  assumes "is_join S new" and "is_join T old"
  shows "is_join (S \<union> T) (joinTarget new old)"
  using assms by (cases new; cases old) (auto simp: is_join_def joinTarget_def)

lemma is_join_cases:
  "is_join S d \<Longrightarrow> (S = {} \<longrightarrow> d = None) \<and> (\<forall>x. S = {x} \<longrightarrow> d = Some x)
     \<and> ((\<exists>x \<in> S. \<exists>y \<in> S. x \<noteq> y) \<longrightarrow> d = Some [])"
  by (cases d) (auto simp: is_join_def)

lemma is_join_empty: "is_join {} None"
  by (simp add: is_join_def)

lemma lookup_mergeConstraints:
  "finite (Mapping.keys m) \<Longrightarrow>
     Mapping.lookup (mergeConstraints out m) k = joinTarget (Mapping.lookup m k) (Mapping.lookup out k)"
  by (auto simp: mergeConstraints_def lookup_range_put joinTarget_def split: option.splits)

definition demand :: "ActiveTier \<Rightarrow> string \<Rightarrow> string option" where
  "demand a frm = (if at_EnforceTargets a then Mapping.lookup (at_Substitute a) frm else None)"

definition demands :: "(ActiveTier \<Rightarrow> bool) \<Rightarrow> ActiveTier list \<Rightarrow> string \<Rightarrow> string set" where
  "demands P active frm = {to. \<exists>a \<in> set active. P a \<and> demand a frm = Some to}"

lemma demands_snoc:
  "demands P (active @ [a]) frm = (if P a then set_option (demand a frm) else {}) \<union> demands P active frm"
  by (auto simp: demands_def)

lemma is_join_demand: "is_join (set_option (demand a frm)) (demand a frm)"
  by (cases "demand a frm") (simp_all add: is_join_def)

lemma setTier_strict:
  assumes "finite_tier a" and "key \<noteq> ([], [])"
  shows "Mapping.lookup (mapAt (strict (setTier a tb)) key) frm =
    (if (at_Team a, at_User a) = key
     then joinTarget (demand a frm) (Mapping.lookup (mapAt (strict tb) key) frm)
     else Mapping.lookup (mapAt (strict tb) key) frm)"
  using assms
  by (auto simp: setTier_def Let_def mapAt_update lookup_mergeConstraints finite_tier_def demand_def)
    (simp_all add: joinTarget_def)

lemma setTier_strict_finite:
  assumes "finite_tier a" and "finite (Mapping.keys (mapAt (strict tb) key))"
  shows "finite (Mapping.keys (mapAt (strict (setTier a tb)) key))"
  using assms
  by (auto simp: setTier_def Let_def mapAt_update finite_tier_def mergeConstraints_def finite_keys_range_put)

lemma tier_Set_join:
  assumes "\<forall>a \<in> set active. finite_tier a" and "key \<noteq> ([], [])"
  shows "is_join (demands (\<lambda>a. (at_Team a, at_User a) = key) active frm)
      (Mapping.lookup (mapAt (strict (tier_Set active)) key) frm)
    \<and> finite (Mapping.keys (mapAt (strict (tier_Set active)) key))"
  using assms(1)
proof (induction active rule: rev_induct)
  case Nil
  then show ?case by (simp add: tier_Set_def NewTierTable_def demands_def is_join_empty)
next
  case (snoc a active)
  let ?P = "\<lambda>a. (at_Team a, at_User a) = key"
  have IH: "is_join (demands ?P active frm) (Mapping.lookup (mapAt (strict (tier_Set active)) key) frm)"
    "finite (Mapping.keys (mapAt (strict (tier_Set active)) key))" "finite_tier a"
    using snoc by simp_all
  show ?case
    using is_join_step [OF is_join_demand [of a frm] IH(1)] IH
    by (cases "?P a")
      (simp_all add: demands_snoc tier_Set_snoc setTier_strict [OF IH(3) assms(2)] setTier_strict_finite)
qed

lemma is_empty_lookup: "Mapping.is_empty m \<Longrightarrow> Mapping.lookup m k = None"
  by (metis empty_iff keys_is_none_rep Mapping.is_empty_def keys_lookup)

lemma fold_constraints_join:
  assumes "\<And>k. k \<in> set keys \<Longrightarrow> k \<noteq> ([], []) \<Longrightarrow>
      is_join (S k) (Mapping.lookup (m k) frm) \<and> finite (Mapping.keys (m k))"
    and "is_join T (Mapping.lookup out frm)"
  shows "is_join (T \<union> (\<Union>k \<in> set keys - {([], [])}. S k))
    (Mapping.lookup (fold (\<lambda>key out. if key = ([], []) \<or> Mapping.is_empty (m key) then out
                                    else mergeConstraints out (m key)) keys out) frm)"
  using assms
proof (induction keys arbitrary: out T)
  case Nil
  then show ?case by simp
next
  case (Cons k keys)
  let ?out = "if k = ([], []) \<or> Mapping.is_empty (m k) then out else mergeConstraints out (m k)"
  have "is_join ((if k = ([], []) then {} else S k) \<union> T) (Mapping.lookup ?out frm)"
  proof (cases "k = ([], [])")
    case True
    then show ?thesis using Cons.prems(2) by simp
  next
    case False
    with Cons.prems have "is_join (S k \<union> T) (joinTarget (Mapping.lookup (m k) frm) (Mapping.lookup out frm))"
      "finite (Mapping.keys (m k))" by (simp_all add: is_join_step)
    with False show ?thesis
      by (cases "Mapping.is_empty (m k)")
        (simp_all add: lookup_mergeConstraints is_empty_lookup joinTarget_def)
  qed
  from Cons.IH [OF _ this] Cons.prems(1) show ?case
    by (cases "k = ([], [])") (simp_all add: insert_Diff_if Un_ac)
qed

lemma ConstraintsForSubject_join:
  assumes "\<forall>a \<in> set active. finite_tier a"
  shows "is_join (demands (applies team user) active frm)
    (Mapping.lookup (ConstraintsForSubject team user (tier_Set active)) frm)"
proof -
  let ?S = "\<lambda>key. demands (\<lambda>a. (at_Team a, at_User a) = key) active frm"
  have "(\<Union>k \<in> set (matchingKeys team user) - {([], [])}. ?S k) = demands (applies team user) active frm"
    by (auto simp: demands_def applies_matchingKeys)
  then show ?thesis
    using fold_constraints_join [of "matchingKeys team user" ?S
        "\<lambda>k. mapAt (strict (tier_Set active)) k" frm "{}" Mapping.empty]
      tier_Set_join [OF assms] is_join_empty
    by (auto simp: ConstraintsForSubject_def)
qed

section \<open>The latch over a history\<close>

abbreviation crossed :: "int list \<Rightarrow> int \<Rightarrow> int" where
  "crossed thresholds p \<equiv> crossedFrom 0 thresholds p (- 1)"

type_synonym sample = "string \<times> string \<times> int list \<times> int"

fun latch_step :: "sample \<Rightarrow> Latch \<Rightarrow> Latch" where
  "latch_step (k, w, ths, p) l = fst (Evaluate k w ths p l)"

definition latch_run :: "sample list \<Rightarrow> Latch \<Rightarrow> Latch" where
  "latch_run = fold latch_step"

lemma crossedFrom_mono:
  "p \<le> q \<Longrightarrow> c \<le> d \<Longrightarrow> d \<le> i \<Longrightarrow> crossedFrom i ths p c \<le> crossedFrom i ths q d"
  by (induction i ths p c arbitrary: d rule: crossedFrom.induct) simp_all

lemma crossedFrom_bounds:
  "c < i \<Longrightarrow> c \<le> crossedFrom i ths p c \<and> crossedFrom i ths p c < i + int (length ths)"
  by (induction i ths p c rule: crossedFrom.induct) fastforce+

lemma crossed_mono: "p \<le> q \<Longrightarrow> crossed ths p \<le> crossed ths q"
  by (rule crossedFrom_mono) simp_all

lemma crossed_bounds: "- 1 \<le> crossed ths p \<and> crossed ths p < int (length ths)"
  using crossedFrom_bounds [of "- 1" 0 ths p] by simp

lemma crossed_max: "crossed ths (max p q) = max (crossed ths p) (crossed ths q)"
  using crossed_mono [of p q ths] crossed_mono [of q p ths] by (auto simp: max_def)

definition latched :: "string \<Rightarrow> string \<Rightarrow> Latch \<Rightarrow> int" where
  "latched k w l = (case Mapping.lookup l k of
     Some e \<Rightarrow> if le_window e = w then tierIndex e else - 1 | None \<Rightarrow> - 1)"

definition wf_latch :: "Latch \<Rightarrow> bool" where
  "wf_latch l \<longleftrightarrow> (\<forall>k e. Mapping.lookup l k = Some e \<longrightarrow> - 1 \<le> tierIndex e)"

lemma Evaluate_result:
  "snd (Evaluate k w ths p l) = min (max (crossed ths p) (latched k w l)) (int (length ths) - 1)"
  by (auto simp: Evaluate_def Let_def latched_def min_def max_def split: option.splits)

lemma Evaluate_latched:
  "latched k' w' (fst (Evaluate k w ths p l)) =
     (if k' = k then (if w' = w then snd (Evaluate k w ths p l) else - 1) else latched k' w' l)"
  by (auto simp: Evaluate_def Let_def latched_def lookup_update' split: option.splits)

lemma wf_Evaluate: "wf_latch l \<Longrightarrow> wf_latch (fst (Evaluate k w ths p l))"
  using crossed_bounds [of ths p]
  by (auto simp: wf_latch_def Evaluate_def Let_def lookup_update' split: option.splits if_splits)

lemma wf_latch_run: "wf_latch l \<Longrightarrow> wf_latch (latch_run ops l)"
proof (induction ops arbitrary: l)
  case (Cons x ops)
  then show ?case using wf_Evaluate by (cases x) (simp add: latch_run_def)
qed (simp add: latch_run_def)

lemma latched_lower: "wf_latch l \<Longrightarrow> - 1 \<le> latched k w l"
  by (auto simp: wf_latch_def latched_def split: option.splits)

definition samples_of :: "string \<Rightarrow> sample list \<Rightarrow> int list" where
  "samples_of k ops = map (\<lambda>(k', w, ths, p). p) (filter (\<lambda>(k', w, ths, p). k' = k) ops)"

lemma latched_run:
  assumes "\<forall>(k', w', ths', p) \<in> set ops. k' = k \<longrightarrow> w' = w \<and> ths' = ths"
    and "latched k w l < int (length ths)"
  shows "latched k w (latch_run ops l) = fold (\<lambda>p i. max (crossed ths p) i) (samples_of k ops) (latched k w l)"
  using assms
proof (induction ops arbitrary: l)
  case Nil
  then show ?case by (simp add: latch_run_def samples_of_def)
next
  case (Cons x ops)
  obtain k' w' ths' p where x: "x = (k', w', ths', p)" by (cases x) auto
  let ?l = "fst (Evaluate k' w' ths' p l)"
  have same: "k' = k \<Longrightarrow> w' = w \<and> ths' = ths" using Cons.prems(1) x by auto
  have "latched k w ?l = (if k' = k then max (crossed ths p) (latched k w l) else latched k w l)"
    using same Cons.prems(2) crossed_bounds [of ths p] by (auto simp: Evaluate_latched Evaluate_result)
  moreover have "latched k w ?l < int (length ths)"
    using calculation Cons.prems(2) crossed_bounds [of ths p] by auto
  ultimately show ?case
    using Cons.IH [of ?l] Cons.prems(1) x by (auto simp: latch_run_def samples_of_def)
qed

lemma fold_max_crossed:
  "fold (\<lambda>p i. max (crossed ths p) i) ps (crossed ths q) = crossed ths (fold max ps q)"
  by (induction ps arbitrary: q) (simp_all add: crossed_max [symmetric])

lemma fold_max_out: "max a (fold (\<lambda>p i. max (f p) i) ps b) = fold (\<lambda>p i. max (f p) i) ps (max a b)"
  for a b :: int
  by (induction ps arbitrary: b) (simp_all add: max.left_commute)

section \<open>Properties\<close>

text \<open>
  The substitution applied to a request is the one under the deepest budget pressure.
  For a requested model, \<^verbatim>\<open>GetForSubject\<close> answers the target of an active tier that applies to
  the subject (team-wide, user-wide or both) and that no other applying tier for this model
  beats in the order of thresholds, then policy and rule names; it answers nothing only when
  no applying tier substitutes the model.
\<close>

lemma tier_highest_pressure:
  assumes "\<forall>a \<in> set active. finite_tier a"
  shows "case Mapping.lookup (GetForSubject team user (tier_Set active)) frm of
      None \<Rightarrow> \<forall>a \<in> set active. applies team user a \<longrightarrow> Mapping.lookup (at_Substitute a) frm = None
    | Some to \<Rightarrow> \<exists>a \<in> set active. applies team user a \<and> Mapping.lookup (at_Substitute a) frm = Some to
        \<and> (\<forall>b \<in> set active. applies team user b \<and> Mapping.lookup (at_Substitute b) frm \<noteq> None
              \<longrightarrow> \<not> higherPressure (tierPriority b) (tierPriority a))"
proof -
  obtain c where c: "is_best (offers (applies team user) active frm) c"
    "Mapping.lookup (GetForSubject team user (tier_Set active)) frm = map_option c_target c"
    using GetForSubject_best [OF assms] by blast
  show ?thesis
  proof (cases c)
    case None
    with c(1) have "offer a frm = None" if "a \<in> set active" "applies team user a" for a
      using that by (cases "offer a frm") (auto simp: is_best_def offers_def)
    with None c(2) show ?thesis by (simp add: offer_def)
  next
    case (Some x)
    then obtain a where a: "a \<in> set active" "applies team user a" "offer a frm = Some x"
      using c(1) by (auto simp: is_best_def offers_def)
    have "\<not> higherPressure (tierPriority b) (tierPriority a)"
      if "b \<in> set active" "applies team user b" "Mapping.lookup (at_Substitute b) frm = Some t" for b t
    proof -
      have "\<lparr>c_target = t, c_priority = tierPriority b\<rparr> \<in> offers (applies team user) active frm"
        using that by (auto simp: offers_def offer_def)
      with c(1) Some a(3) show ?thesis by (fastforce simp: is_best_def offer_def)
    qed
    with a c(2) Some show ?thesis by (auto simp: offer_def)
  qed
qed

definition demo_tier :: "string \<Rightarrow> string \<Rightarrow> int \<Rightarrow> string \<Rightarrow> bool \<Rightarrow> ActiveTier" where
  "demo_tier team user th to enforce = \<lparr>at_Policy = ''p'', at_Rule = team @ user, at_BudgetRef = ''b'', at_Team = team,
     at_Threshold = th, at_Substitute = Mapping.of_alist [(''opus'', to)], at_EnforceTargets = enforce, at_User = user\<rparr>"

lemma demo_tier_finite: "finite_tier (demo_tier team user th to enforce)"
  by (simp add: demo_tier_def finite_tier_def)

text \<open>
  The order in which the control plane lists the active tiers is irrelevant, as long as
  no two tiers of the same threshold, policy and rule disagree.
\<close>

lemma tier_order_independent:
  assumes "\<forall>a \<in> set active. finite_tier a" and "set active' = set active"
    and "\<forall>a \<in> set active. \<forall>b \<in> set active.
      tierPriority a = tierPriority b \<longrightarrow> at_Substitute a = at_Substitute b"
  shows "Mapping.lookup (GetForSubject team user (tier_Set active')) frm
    = Mapping.lookup (GetForSubject team user (tier_Set active)) frm"
proof -
  obtain c where c: "is_best (offers (applies team user) active frm) c"
    "Mapping.lookup (GetForSubject team user (tier_Set active)) frm = map_option c_target c"
    using GetForSubject_best [OF assms(1)] by blast
  have "\<forall>a \<in> set active'. finite_tier a" using assms(1,2) by simp
  then obtain c' where c': "is_best (offers (applies team user) active' frm) c'"
    "Mapping.lookup (GetForSubject team user (tier_Set active')) frm = map_option c_target c'"
    using GetForSubject_best by blast
  have same: "offers (applies team user) active' frm = offers (applies team user) active frm"
    using assms(2) by (simp add: offers_def)
  have tgt: "c_target x = c_target y"
    if "x \<in> offers (applies team user) active frm" "y \<in> offers (applies team user) active frm"
      "c_priority x = c_priority y" for x y
  proof -
    note xy = that
    obtain a b where ab: "a \<in> set active" "offer a frm = Some x" "b \<in> set active" "offer b frm = Some y"
      using xy(1,2) by (auto simp: offers_def)
    then have "tierPriority a = tierPriority b" using xy(3) by (auto simp: offer_def)
    with assms(3) ab have "at_Substitute a = at_Substitute b" by blast
    with ab show ?thesis by (auto simp: offer_def)
  qed
  show ?thesis
  proof (cases "c = None \<or> c' = None")
    case True
    then have "c = None \<and> c' = None" using c(1) c'(1) same by (auto simp: is_best_def split: option.splits)
    with c(2) c'(2) show ?thesis by simp
  next
    case False
    then obtain x y where xy: "c = Some x" "c' = Some y" by auto
    then have mem: "x \<in> offers (applies team user) active frm" "y \<in> offers (applies team user) active frm"
      and "\<not> higherPressure (c_priority x) (c_priority y)" "\<not> higherPressure (c_priority y) (c_priority x)"
      using c(1) c'(1) same by (simp_all add: is_best_def)
    with hp_total have "c_priority x = c_priority y" by blast
    with tgt [OF mem] xy c(2) c'(2) show ?thesis by simp
  qed
qed

text \<open>
  Strict restrictions cannot be loosened: for a model, the constraint of a subject is the
  one target all applying enforcing tiers demand, the empty target (deny) as soon as two of
  them disagree, and absent only when none applies; ordinary tiers have no influence.
\<close>

lemma strict_constraints_join:
  assumes "\<forall>a \<in> set active. finite_tier a"
    and "S = {to. \<exists>a \<in> set active. applies team user a \<and> at_EnforceTargets a
      \<and> Mapping.lookup (at_Substitute a) frm = Some to}"
  shows "(S = {} \<longrightarrow> Mapping.lookup (ConstraintsForSubject team user (tier_Set active)) frm = None)
    \<and> (\<forall>to. S = {to} \<longrightarrow> Mapping.lookup (ConstraintsForSubject team user (tier_Set active)) frm = Some to)
    \<and> ((\<exists>x \<in> S. \<exists>y \<in> S. x \<noteq> y) \<longrightarrow>
        Mapping.lookup (ConstraintsForSubject team user (tier_Set active)) frm = Some [])"
proof -
  have "demand a frm = Some to \<longleftrightarrow> at_EnforceTargets a \<and> Mapping.lookup (at_Substitute a) frm = Some to" for a to
    by (simp add: demand_def)
  then have "S = demands (applies team user) active frm"
    unfolding assms(2) demands_def by simp
  then have "is_join S (Mapping.lookup (ConstraintsForSubject team user (tier_Set active)) frm)"
    using ConstraintsForSubject_join [OF assms(1), of team user frm] by (simp only:)
  then show ?thesis by (rule is_join_cases)
qed

text \<open>
  Tier activation is monotone within a budget window: in a window that starts without an
  active tier, after any interleaving of evaluations of any rules, the index a rule reports
  is the tier crossed by the highest utilization sampled so far in the window, however
  the later samples dip.
\<close>

lemma latch_running_max:
  assumes "\<forall>(k', w', ths', p) \<in> set ops. k' = k \<longrightarrow> w' = w \<and> ths' = ths"
    and "latched k w l = - 1"
  shows "snd (Evaluate k w ths p (latch_run ops l)) = crossedFrom 0 ths (fold max (samples_of k ops) p) (- 1)"
proof -
  have "latched k w (latch_run ops l) = fold (\<lambda>p i. max (crossed ths p) i) (samples_of k ops) (- 1)"
    using latched_run [OF assms(1), of l] assms(2) by simp
  then have "max (crossed ths p) (latched k w (latch_run ops l))
      = crossed ths (fold max (samples_of k ops) p)"
    using crossed_bounds [of ths p] by (simp add: fold_max_out fold_max_crossed)
  then show ?thesis
    using crossed_bounds [of ths "fold max (samples_of k ops) p"] by (simp add: Evaluate_result)
qed

text \<open>
  The tier index is always usable: whatever rules were evaluated with whatever threshold
  lists before (a policy edit may shorten a list while the latch survives), the index
  returned is \<open>- 1\<close> or a valid position of the current list, so the callers' unchecked
  indexing never panics.
\<close>

lemma latch_index_safe:
  "- 1 \<le> snd (Evaluate k w ths p (latch_run ops NewLatch))
   \<and> snd (Evaluate k w ths p (latch_run ops NewLatch)) < int (length ths)"
proof -
  have "wf_latch (latch_run ops NewLatch)" by (rule wf_latch_run) (simp add: wf_latch_def NewLatch_def)
  from latched_lower [OF this, of k w] crossed_bounds [of ths p] show ?thesis
    by (auto simp: Evaluate_result)
qed

text \<open>
  The utilization percentage is exact and total: it never panics, is the floor of
  \<open>(spent + outstanding) * 100 / limit\<close> in unbounded arithmetic when the budget is not
  exhausted, and 100 otherwise (also for invalid accounting); its wide product and
  division need no overflow hypothesis beyond the operands being \<^verbatim>\<open>int64\<close>.
\<close>

lemma utilized_percent_exact:
  assumes "in64 spent" and "in64 outstanding" and "in64 limit"
  shows "UtilizedPercent spent outstanding limit =
    Some (if 0 \<le> spent \<and> 0 \<le> outstanding \<and> 0 < limit \<and> spent + outstanding < limit
          then (spent + outstanding) * 100 div limit else 100)"
proof (cases "0 \<le> spent \<and> 0 \<le> outstanding \<and> 0 < limit \<and> spent < limit")
  case False
  then show ?thesis by (auto simp: UtilizedPercent_def)
next
  case True
  then have s: "sub64 limit spent = limit - spent"
    using assms by (intro sub64_exact) (simp add: in64_bounds)
  show ?thesis
  proof (cases "spent + outstanding < limit")
    case False
    with True s show ?thesis by (auto simp: UtilizedPercent_def)
  next
    case less: True
    let ?x = "spent + outstanding"
    have x: "0 \<le> ?x" "in64 ?x" using True less assms(3) by (simp_all add: in64_bounds)
    have a: "add64 spent outstanding mod 2 ^ 64 = ?x" "limit mod 2 ^ 64 = limit"
      using x True assms(3) by (simp_all add: add64_exact in64_bounds)
    have "?x * 100 div 2 ^ 64 \<le> ?x" using x(1) by simp
    then have hi: "?x * 100 div 2 ^ 64 < limit" using less by linarith
    have "?x * 100 div 2 ^ 64 * 2 ^ 64 + ?x * 100 mod 2 ^ 64 = ?x * 100" by (rule div_mult_mod_eq)
    then have "Div64 (?x * 100 div 2 ^ 64) (?x * 100 mod 2 ^ 64) limit = Some (?x * 100 div limit, ?x * 100 mod limit)"
      using hi True unfolding Div64_def by (metis less_irrefl linorder_not_less)
    with True less s show ?thesis unfolding UtilizedPercent_def Mul64_def a by auto
  qed
qed

end
