(* ===== verification/Breaker.thy ===== *)
theory Breaker
  imports Prelude
begin

text \<open>
  The instance-local circuit breaker, \<^verbatim>\<open>internal/router/breaker.go\<close>: one entry per
  provider, opened after a number of consecutive failures for a backoff that doubles with
  every further failure. Every operation that reads the clock takes its reading.
\<close>

section \<open>State and operations\<close>

record brkState =
  consecutiveFails :: int
  openUntil :: gotime
  backoff :: duration

record breaker =
  threshold :: int
  baseBackoff :: duration
  brk_state :: "(string, brkState) mapping"

definition newBreaker :: "int \<Rightarrow> duration \<Rightarrow> breaker" where
  "newBreaker thr base = \<lparr>threshold = thr, baseBackoff = base, brk_state = Mapping.empty\<rparr>"

definition maxBackoff :: duration where
  "maxBackoff = 30 * Second"

definition brk_Allow :: "gotime \<Rightarrow> string \<Rightarrow> breaker \<Rightarrow> bool" where
  "brk_Allow now provider b =
     (case Mapping.lookup (brk_state b) provider of
        None \<Rightarrow> True
      | Some s \<Rightarrow> if openUntil s = 0 then True else \<not> now < openUntil s)"

definition failState :: "gotime \<Rightarrow> int \<Rightarrow> duration \<Rightarrow> brkState \<Rightarrow> brkState" where
  "failState now thr base s =
     (let n = add64 (consecutiveFails s) 1
      in if n \<ge> thr then
           (let bo = (if backoff s = 0 then base
                      else let d = mul64 (backoff s) 2 in if d > maxBackoff then maxBackoff else d)
            in \<lparr>consecutiveFails = n, openUntil = time_add now bo, backoff = bo\<rparr>)
         else s\<lparr>consecutiveFails := n\<rparr>)"

definition RecordFailure :: "gotime \<Rightarrow> string \<Rightarrow> breaker \<Rightarrow> breaker" where
  "RecordFailure now provider b =
     (let s = (case Mapping.lookup (brk_state b) provider of
                 None \<Rightarrow> \<lparr>consecutiveFails = 0, openUntil = 0, backoff = 0\<rparr> | Some s \<Rightarrow> s)
      in b\<lparr>brk_state := Mapping.update provider
             (failState now (threshold b) (baseBackoff b) s) (brk_state b)\<rparr>)"

definition brk_Retain :: "string set \<Rightarrow> breaker \<Rightarrow> breaker" where
  "brk_Retain keep b = b\<lparr>brk_state := Mapping.filter (\<lambda>k s. k \<in> keep) (brk_state b)\<rparr>"

definition RecordSuccess :: "string \<Rightarrow> breaker \<Rightarrow> breaker" where
  "RecordSuccess provider b =
     (case Mapping.lookup (brk_state b) provider of
        None \<Rightarrow> b
      | Some s \<Rightarrow> b\<lparr>brk_state := Mapping.update provider
          (s\<lparr>consecutiveFails := 0, openUntil := 0, backoff := 0\<rparr>) (brk_state b)\<rparr>)"

definition brk_State :: "gotime \<Rightarrow> string \<Rightarrow> breaker \<Rightarrow> int" where
  "brk_State now provider b =
     (case Mapping.lookup (brk_state b) provider of
        None \<Rightarrow> 0
      | Some s \<Rightarrow> if openUntil s = 0 then 0 else if now < openUntil s then 2 else 1)"

section \<open>Histories\<close>

datatype brk_op = BFailure gotime string | BSuccess string | BRetain "string set"

fun brk_step :: "brk_op \<Rightarrow> breaker \<Rightarrow> breaker" where
  "brk_step (BFailure t p) b = RecordFailure t p b"
| "brk_step (BSuccess p) b = RecordSuccess p b"
| "brk_step (BRetain keep) b = brk_Retain keep b"

definition brk_run :: "brk_op list \<Rightarrow> breaker \<Rightarrow> breaker" where
  "brk_run ops b = fold brk_step ops b"

text \<open>
  The specification over a history: the failures of a provider since its last success (or
  since its entry was dropped) with the time of the last one, and the backoff schedule.
\<close>

fun streak_step :: "string \<Rightarrow> brk_op \<Rightarrow> int \<times> gotime \<Rightarrow> int \<times> gotime" where
  "streak_step p (BFailure t q) (n, l) = (if q = p then (n + 1, t) else (n, l))"
| "streak_step p (BSuccess q) (n, l) = (if q = p then (0, 0) else (n, l))"
| "streak_step p (BRetain keep) (n, l) = (if p \<in> keep then (n, l) else (0, 0))"

definition streak :: "string \<Rightarrow> brk_op list \<Rightarrow> int \<times> gotime" where
  "streak p ops = fold (streak_step p) ops (0, 0)"

definition schedule :: "int \<Rightarrow> duration \<Rightarrow> int \<Rightarrow> duration" where
  "schedule thr base n = (if n < thr then 0 else min maxBackoff (base * 2 ^ nat (n - thr)))"

lemma schedule_step:
  assumes "thr \<le> n" and "0 < base"
  shows "schedule thr base (n + 1) = min maxBackoff (schedule thr base n * 2)"
proof -
  have "nat (n + 1 - thr) = Suc (nat (n - thr))" using assms(1) by simp
  then show ?thesis
    using assms by (simp add: schedule_def min_def maxBackoff_def Second_def)
qed

lemma schedule_pos: "0 < base \<Longrightarrow> thr \<le> n \<Longrightarrow> 0 < schedule thr base n"
  by (simp add: schedule_def maxBackoff_def Second_def)

lemma schedule_le: "0 < base \<Longrightarrow> schedule thr base n \<le> maxBackoff"
  by (simp add: schedule_def maxBackoff_def Second_def)

definition matches :: "int \<Rightarrow> duration \<Rightarrow> int \<times> gotime \<Rightarrow> brkState option \<Rightarrow> bool" where
  "matches thr base st so =
     (case st of (n, l) \<Rightarrow>
        (case so of
           None \<Rightarrow> n = 0
         | Some s \<Rightarrow> consecutiveFails s = n \<and> backoff s = schedule thr base n
             \<and> openUntil s = (if n < thr then 0 else time_add l (schedule thr base n))))"

lemma failState_matches:
  assumes "matches thr base (n, l) (Some s)" and "0 < thr" and "0 < base" and "base \<le> maxBackoff"
    and "0 \<le> n" and "n < MaxInt64"
  shows "matches thr base (n + 1, t) (Some (failState t thr base s))"
proof -
  have s: "consecutiveFails s = n" "backoff s = schedule thr base n"
    "openUntil s = (if n < thr then 0 else time_add l (schedule thr base n))"
    using assms(1) by (simp_all add: matches_def)
  have n: "add64 n 1 = n + 1" using assms(5,6) by (intro add64_exact) (simp add: in64_bounds)
  have d: "mul64 (schedule thr base n) 2 = schedule thr base n * 2"
    using schedule_le [OF assms(3), of thr n] schedule_pos [OF assms(3), of thr n]
    by (cases "n < thr") (auto simp: mul64_exact in64_bounds maxBackoff_def Second_def schedule_def)
  consider "n + 1 < thr" | "n + 1 = thr" | "thr \<le> n" by linarith
  then show ?thesis
  proof cases
    case 1
    with s show ?thesis by (simp add: matches_def failState_def n schedule_def)
  next
    case 2
    with s assms(3,4) show ?thesis
      by (simp add: matches_def failState_def n schedule_def min_absorb2)
  next
    case 3
    have "schedule thr base n \<noteq> 0" using schedule_pos [OF assms(3) 3] by simp
    with 3 s show ?thesis
      by (auto simp: matches_def failState_def n d schedule_step [OF 3 assms(3)] min_def Let_def)
  qed
qed

lemma brk_step_sel [simp]:
  "threshold (brk_step x b) = threshold b" "baseBackoff (brk_step x b) = baseBackoff b"
  by (cases x; simp add: RecordFailure_def RecordSuccess_def brk_Retain_def Let_def split: option.split)+

lemma brk_step_matches:
  assumes "matches (threshold b) (baseBackoff b) (n, l) (Mapping.lookup (brk_state b) p)"
    and "0 < threshold b" and "0 < baseBackoff b" and "baseBackoff b \<le> maxBackoff"
    and "0 \<le> n" and "n < MaxInt64"
  shows "matches (threshold b) (baseBackoff b) (streak_step p x (n, l))
    (Mapping.lookup (brk_state (brk_step x b)) p)"
proof (cases x)
  case (BFailure t q)
  have new: "matches (threshold b) (baseBackoff b) (n, l)
      (Some \<lparr>consecutiveFails = 0, openUntil = 0, backoff = 0\<rparr>)"
    if "Mapping.lookup (brk_state b) p = None"
    using assms(1,2) that by (simp add: matches_def schedule_def)
  show ?thesis
    using BFailure assms(1) failState_matches [OF _ assms(2-6), of l _ t] new
    by (auto simp: RecordFailure_def Let_def lookup_update' split: option.split)
next
  case (BSuccess q)
  then show ?thesis
    using assms(1,2)
    by (auto simp: RecordSuccess_def lookup_update' matches_def schedule_def split: option.splits)
next
  case (BRetain keep)
  then show ?thesis
    using assms(1,2) by (auto simp: brk_Retain_def lookup_filter matches_def split: option.splits)
qed

lemma streak_bounds:
  "fold (streak_step p) ops (n, l) = (n', l') \<Longrightarrow> 0 \<le> n \<Longrightarrow> 0 \<le> n' \<and> n' \<le> n + int (length ops)"
proof (induction ops arbitrary: n l)
  case Nil
  then show ?case by simp
next
  case (Cons x ops)
  obtain n1 l1 where 1: "streak_step p x (n, l) = (n1, l1)" by fastforce
  then have "0 \<le> n1 \<and> n1 \<le> n + 1" using Cons.prems(2) by (cases x) (auto split: if_splits)
  then show ?case using Cons.IH [of n1 l1] Cons.prems(1) 1 by auto
qed

lemma brk_run_matches:
  assumes "0 < thr" and "0 < base" and "base \<le> maxBackoff" and "int (length ops) < MaxInt64"
  shows "matches thr base (streak p ops) (Mapping.lookup (brk_state (brk_run ops (newBreaker thr base))) p)
    \<and> threshold (brk_run ops (newBreaker thr base)) = thr
    \<and> baseBackoff (brk_run ops (newBreaker thr base)) = base"
  using assms(4)
proof (induction ops rule: rev_induct)
  case Nil
  then show ?case by (simp add: brk_run_def streak_def newBreaker_def matches_def)
next
  case (snoc x ops)
  obtain n l where st: "streak p ops = (n, l)" by fastforce
  have n: "0 \<le> n" "n < MaxInt64"
    using streak_bounds [of p ops 0 0 n l] st snoc.prems by (simp_all add: streak_def)
  let ?b = "brk_run ops (newBreaker thr base)"
  have b: "matches thr base (n, l) (Mapping.lookup (brk_state ?b) p)" "threshold ?b = thr" "baseBackoff ?b = base"
    using snoc st by simp_all
  have "brk_run (ops @ [x]) (newBreaker thr base) = brk_step x ?b"
    "streak p (ops @ [x]) = streak_step p x (n, l)"
    using st by (simp_all add: brk_run_def streak_def)
  with brk_step_matches [of ?b n l p x] b assms(1-3) n show ?case by simp
qed

text \<open>Thirty seconds after its last failure no provider is refused.\<close>

lemma streak_last:
  assumes "\<forall>t q. BFailure t q \<in> set ops \<longrightarrow> t \<le> T" and "l \<le> T" and "0 \<le> T"
  shows "snd (fold (streak_step p) ops (n, l)) \<le> T"
  using assms
proof (induction ops arbitrary: n l)
  case Nil
  then show ?case by simp
next
  case (Cons x ops)
  obtain n1 l1 where 1: "streak_step p x (n, l) = (n1, l1)" by fastforce
  then have "l1 \<le> T" using Cons.prems by (cases x) (auto split: if_splits)
  moreover have "\<forall>t q. BFailure t q \<in> set ops \<longrightarrow> t \<le> T" using Cons.prems(1) by auto
  ultimately show ?case using Cons.IH [of l1 n1] Cons.prems(3) 1 by simp
qed

lemma breaker_recovers:
  assumes "0 < thr" and "0 < base" and "base \<le> maxBackoff" and "int (length ops) < MaxInt64"
    and "\<forall>t q. BFailure t q \<in> set ops \<longrightarrow> t \<le> T" and "0 \<le> T" and "T + maxBackoff \<le> now"
  shows "brk_Allow now p (brk_run ops (newBreaker thr base))"
proof -
  obtain n l where st: "streak p ops = (n, l)" by fastforce
  have "l \<le> T" using streak_last [OF assms(5,6,6), of p 0] st by (simp add: streak_def)
  moreover have "matches thr base (n, l) (Mapping.lookup (brk_state (brk_run ops (newBreaker thr base))) p)"
    using brk_run_matches [OF assms(1-4), of p] st by simp
  ultimately show ?thesis
    using assms(7) schedule_le [OF assms(2), of thr n]
    by (auto simp: brk_Allow_def matches_def time_add_def split: option.splits if_splits)
qed

section \<open>Properties\<close>

text \<open>
  The breaker refuses a provider exactly while the backoff of its current failure streak
  runs: after any history, with \<open>n\<close> consecutive failures of the provider, the last one at
  time \<open>l\<close>, a call is refused at \<open>now\<close> if and only if \<open>n\<close> has reached the threshold and
  \<open>now\<close> is before \<open>l\<close> plus the base backoff doubled \<open>n - threshold\<close> times, capped at
  thirty seconds. Other providers' results never matter, and the metric state is 2 exactly then.
\<close>

lemma breaker_decision:
  assumes "0 < thr" and "0 < base" and "base \<le> maxBackoff" and "int (length ops) < MaxInt64"
    and "streak p ops = (n, l)" and "0 \<le> l"
  shows "(brk_Allow now p (brk_run ops (newBreaker thr base)) \<longleftrightarrow>
      \<not> (thr \<le> n \<and> now < l + min maxBackoff (base * 2 ^ nat (n - thr))))
    \<and> (brk_State now p (brk_run ops (newBreaker thr base)) = 2 \<longleftrightarrow>
      \<not> brk_Allow now p (brk_run ops (newBreaker thr base)))"
proof -
  have m: "matches thr base (n, l) (Mapping.lookup (brk_state (brk_run ops (newBreaker thr base))) p)"
    using brk_run_matches [OF assms(1-4), of p] assms(5) by simp
  have "n = 0 \<Longrightarrow> \<not> thr \<le> n" using assms(1) by simp
  moreover have "thr \<le> n \<Longrightarrow> l + min maxBackoff (base * 2 ^ nat (n - thr)) \<noteq> 0"
    using assms(6) schedule_pos [OF assms(2), of thr n] unfolding schedule_def by (smt (verit))
  ultimately show ?thesis
    using m by (auto simp: brk_Allow_def brk_State_def matches_def schedule_def time_add_def
        split: option.splits if_splits)
qed

end
