(* ===== verification/Subjects.thy ===== *)
theory Subjects
  imports Prelude
begin

text \<open>
  Whom a governance decision is about, \<^verbatim>\<open>governance.Subject\<close>: the team that owns the
  virtual key, the key, and the user the key was issued to (empty when unset). The governor
  and the escrow share the type. Then the record of a team and the principal resolved from a virtual
  key, \<^verbatim>\<open>internal/keystore/keystore.go\<close>; tags, guardrail overrides and timestamps of these
  rows are left out.
\<close>

record Subject =
  s_Team :: string
  s_KeyID :: string
  s_User :: string

record TeamRecord =
  tr_Name :: string
  tr_AllowedModels :: "string list"
  tr_RPM :: int
  tr_TPM :: int
  tr_TokensPerDay :: int
  tr_QuotaOnExceeded :: string
  tr_BudgetUSDMicros :: int
  tr_BudgetUSDMicrosPerDay :: int
  tr_BudgetOnExceeded :: string
  tr_AllowedRegions :: "string list"

record Principal =
  pn_KeyID :: string
  pn_Team :: string
  pn_AllowedModels :: "string list"
  pn_Owner :: string
  pn_RPM :: int
  pn_TPM :: int
  pn_BudgetUSDMicros :: int
  pn_BudgetUSDMicrosPerDay :: int
  pn_ExpiresAt :: "gotime option"
  pn_SharedRevision :: string
  pn_TeamSnapshot :: "TeamRecord option"
  pn_TeamSnapshotLoaded :: bool

definition Principal_Allows :: "Principal \<Rightarrow> string \<Rightarrow> bool" where
  "Principal_Allows p model \<longleftrightarrow> list_ex (\<lambda>m. m = ''*'' \<or> m = model) (pn_AllowedModels p)"

end
