(* ===== verification/Governance.thy ===== *)
theory Governance
  imports Subjects Pricing Budget Limiter
begin

text \<open>
  The governor, \<^verbatim>\<open>internal/governance\<close>: the check of every limit before a request reaches a
  provider (\<^verbatim>\<open>PreCheck\<close>), the settlement of its tokens and its cost afterwards
  (\<^verbatim>\<open>Settle\<close>), the usage report (\<^verbatim>\<open>UsageOf\<close>), the pricing guard and the team policies
  made from limits.

  The governor owns the limiter store and the budget store; both are passed and returned
  explicitly (\<open>Stores\<close>). Each store call reads the clock for itself: \<open>clk i\<close> is the reading
  at the \<open>i\<close>-th place of the handler, and the lemmas ask only that the readings do not go
  backwards. The dynamic lookups, the lease gate and the budget hooks are callbacks installed
  at startup: they are fields of the governor (\<open>None\<close> for nil). Calls of the alert hooks
  are returned as a list of notifications. The Prometheus sink is not modelled.
\<close>

section \<open>Data\<close>

record TeamPolicy =
  tp_RatePerMin :: int
  tp_RateBurst :: int
  tp_TokensPerMinute :: int
  tp_TokensPerDay :: int
  tp_QuotaExceeded :: string
  tp_BudgetMicrosPerMonth :: int
  tp_BudgetExceeded :: string
  tp_BudgetMicrosPerDay :: int
  tp_BudgetDayExceeded :: string
  tp_AdminContact :: string

definition zeroTeamPolicy :: TeamPolicy where
  "zeroTeamPolicy = \<lparr>tp_RatePerMin = 0, tp_RateBurst = 0, tp_TokensPerMinute = 0, tp_TokensPerDay = 0,
     tp_QuotaExceeded = [], tp_BudgetMicrosPerMonth = 0, tp_BudgetExceeded = [], tp_BudgetMicrosPerDay = 0,
     tp_BudgetDayExceeded = [], tp_AdminContact = []\<rparr>"

record KeyPolicy =
  kp_RatePerMin :: int
  kp_TokensPerMinute :: int
  kp_BudgetMicrosPerMonth :: int
  kp_BudgetMicrosPerDay :: int

record UserPolicy =
  up_BudgetMicrosPerMonth :: int
  up_BudgetMicrosPerDay :: int
  up_BudgetExceeded :: string
  up_AdminContact :: string

record BudgetUsage =
  bu_Limit :: int
  bu_Spent :: int
  bu_Remaining :: int
  bu_Window :: string
  bu_ResetsAt :: gotime

record QuotaUsage =
  qu_Limit :: int
  qu_Used :: int
  qu_Window :: string

record UsageStatus =
  us_EnforcementMode :: string
  us_Team :: string
  us_TeamBudget :: "BudgetUsage option"
  us_TeamQuota :: "QuotaUsage option"
  us_KeyBudget :: "BudgetUsage option"
  us_KeyQuota :: "QuotaUsage option"
  us_TeamBudgetDay :: "BudgetUsage option"
  us_KeyBudgetDay :: "BudgetUsage option"
  us_UserBudget :: "BudgetUsage option"
  us_UserBudgetDay :: "BudgetUsage option"

record Governor =
  g_shared :: bool
  g_teams :: "(string, TeamPolicy) mapping"
  g_lookup :: "(string \<Rightarrow> TeamPolicy option) option"
  g_userLookup :: "(string \<Rightarrow> string \<Rightarrow> UserPolicy option) option"
  g_leaseGate :: "(string \<Rightarrow> bool \<times> string) option"
  g_notifyBudget :: bool
  g_notifyKeyBudget :: bool
  g_budgetLoc :: "location option"

record Stores =
  lim_store :: LimiterMemory
  bud_store :: Memory

datatype notification =
    NotifyBudget string int int
  | NotifyKeyBudget string string int int

type_synonym clock = "nat \<Rightarrow> gotime"

record GovDecision =
  gd_Allowed :: bool
  gd_Status :: int
  gd_Reason :: string
  gd_Code :: string

definition govAllow :: GovDecision where
  "govAllow = \<lparr>gd_Allowed = True, gd_Status = 0, gd_Reason = [], gd_Code = []\<rparr>"

definition govDeny :: "int \<Rightarrow> string \<Rightarrow> string \<Rightarrow> GovDecision" where
  "govDeny status reason code = \<lparr>gd_Allowed = False, gd_Status = status, gd_Reason = reason, gd_Code = code\<rparr>"

definition DenyTeamRateLimited :: string where "DenyTeamRateLimited = ''team_rate_limited''"
definition DenyTeamTokenRateLimited :: string where "DenyTeamTokenRateLimited = ''team_token_rate_limited''"
definition DenyTeamQuotaExceeded :: string where "DenyTeamQuotaExceeded = ''team_quota_exceeded''"
definition DenyKeyRateLimited :: string where "DenyKeyRateLimited = ''key_rate_limited''"
definition DenyKeyTokenRateLimited :: string where "DenyKeyTokenRateLimited = ''key_token_rate_limited''"
definition DenyTeamBudgetExceeded :: string where "DenyTeamBudgetExceeded = ''team_budget_exceeded''"
definition DenyKeyBudgetExceeded :: string where "DenyKeyBudgetExceeded = ''key_budget_exceeded''"
definition DenyUserBudgetExceeded :: string where "DenyUserBudgetExceeded = ''user_budget_exceeded''"
definition DenyPricingMissing :: string where "DenyPricingMissing = ''pricing_missing''"

section \<open>Policies\<close>

record Limits =
  l_RatePerMin :: int
  l_TokensPerMinute :: int
  l_TokensPerDay :: int
  l_QuotaExceeded :: string
  l_BudgetMicrosPerMonth :: int
  l_BudgetExceeded :: string
  l_BudgetMicrosPerDay :: int
  l_BudgetDayExceeded :: string

definition PolicyFromLimits :: "Limits \<Rightarrow> TeamPolicy" where
  "PolicyFromLimits l =
     (let burst = (if l_RatePerMin l \<le> 0 then 1 else l_RatePerMin l)
      in \<lparr>tp_RatePerMin = l_RatePerMin l, tp_RateBurst = burst, tp_TokensPerMinute = l_TokensPerMinute l,
          tp_TokensPerDay = l_TokensPerDay l, tp_QuotaExceeded = l_QuotaExceeded l,
          tp_BudgetMicrosPerMonth = l_BudgetMicrosPerMonth l, tp_BudgetExceeded = l_BudgetExceeded l,
          tp_BudgetMicrosPerDay = l_BudgetMicrosPerDay l, tp_BudgetDayExceeded = l_BudgetDayExceeded l,
          tp_AdminContact = []\<rparr>)"

definition policyOf :: "Governor \<Rightarrow> string \<Rightarrow> TeamPolicy option" where
  "policyOf g team =
     (case (case g_lookup g of None \<Rightarrow> None | Some f \<Rightarrow> f team) of
        Some p \<Rightarrow> Some p
      | None \<Rightarrow> Mapping.lookup (g_teams g) team)"

definition userPolicyOf :: "Governor \<Rightarrow> Subject \<Rightarrow> UserPolicy option" where
  "userPolicyOf g s =
     (if s_User s \<noteq> [] then (case g_userLookup g of None \<Rightarrow> None | Some f \<Rightarrow> f (s_Team s) (s_User s))
      else None)"

definition dayWindow :: "Governor \<Rightarrow> Window" where
  "dayWindow g = CalendarDayIn (g_budgetLoc g)"

definition monthWindow :: "Governor \<Rightarrow> Window" where
  "monthWindow g = CalendarMonthIn (g_budgetLoc g)"

definition budgetLocOrUTC :: "Governor \<Rightarrow> location" where
  "budgetLocOrUTC g = (case g_budgetLoc g of None \<Rightarrow> UTC | Some l \<Rightarrow> l)"

definition userBudgetID :: "Subject \<Rightarrow> string" where
  "userBudgetID s = s_Team s @ ''/'' @ s_User s"

definition PricingVersionOf :: "Table option \<Rightarrow> string" where
  "PricingVersionOf table = (case table of None \<Rightarrow> [] | Some t \<Rightarrow> Version t)"

definition mustDenyBudget :: "Decision \<Rightarrow> string \<Rightarrow> bool" where
  "mustDenyBudget dec onExceeded \<longleftrightarrow> dec = BlockCapacity \<or> (dec = Block \<and> onExceeded \<noteq> ''warn'')"

text \<open>The em dash of the message is the three bytes of its UTF-8 encoding.\<close>

definition em_dash :: string where
  "em_dash = [char_of (226::nat), char_of (128::nat), char_of (148::nat)]"

definition budgetExceededMessage :: "string \<Rightarrow> gotime \<Rightarrow> location \<Rightarrow> string \<Rightarrow> string" where
  "budgetExceededMessage kind resetsAt loc adminContact =
     (let msg = kind @ '' exceeded '' @ em_dash @ '' resets '' @ format_day loc resetsAt
      in if adminContact \<noteq> [] then msg @ ''. Contact your admin: '' @ adminContact else msg)"

section \<open>PreCheck\<close>

text \<open>
  The stages of the handler, in its order. A stage returns the stores and an early return,
  if any. The two-window budget block stands three times in the source, for the team, the
  key and the user: once with the team's two knobs, once with no knob and once with the
  user's single knob.
\<close>

definition budgetWindowStage ::
  "clock \<Rightarrow> nat \<Rightarrow> Governor \<Rightarrow> Window \<Rightarrow> string \<Rightarrow> string \<Rightarrow> int \<Rightarrow> string \<Rightarrow> string \<Rightarrow> string \<Rightarrow> string \<Rightarrow>
   Memory \<times> (GovDecision \<times> gotime) option \<Rightarrow> Memory \<times> (GovDecision \<times> gotime) option" where
  "budgetWindowStage clk i g w scope ident limit onExceeded kind contact code st =
     (case st of (b, deny) \<Rightarrow>
        if limit > 0 then
          (let key = budget_key scope ident w
           in case Check (clk i) key 0 limit w b of
                (b1, dec) \<Rightarrow>
                  if mustDenyBudget dec onExceeded then
                    (case ResetsAt (clk (i + 1)) (clk (i + 2)) key w b1 of
                       (b2, resetsAt) \<Rightarrow>
                         (b2, if (case deny of None \<Rightarrow> True | Some (d, r) \<Rightarrow> resetsAt < r)
                              then Some (govDeny 402
                                (budgetExceededMessage kind resetsAt (budgetLocOrUTC g) contact) code, resetsAt)
                              else deny))
                  else (b1, deny))
        else (b, deny))"

definition budgetStage ::
  "clock \<Rightarrow> nat \<Rightarrow> Governor \<Rightarrow> string \<Rightarrow> string \<Rightarrow> int \<Rightarrow> string \<Rightarrow> int \<Rightarrow> string \<Rightarrow> string \<Rightarrow> string \<Rightarrow> string \<Rightarrow>
   Memory \<Rightarrow> Memory \<times> GovDecision option" where
  "budgetStage clk i g scope ident perMonth onMonth perDay onDay prefix contact code b =
     (case budgetWindowStage clk (i + 3) g (dayWindow g) scope ident perDay onDay
             (prefix @ ''daily budget'') contact code
             (budgetWindowStage clk i g (monthWindow g) scope ident perMonth onMonth
               (prefix @ ''budget'') contact code (b, None)) of
        (b', None) \<Rightarrow> (b', None)
      | (b', Some (d, r)) \<Rightarrow> (b', Some d))"

definition rateStage ::
  "gotime \<Rightarrow> string \<Rightarrow> int \<Rightarrow> int \<Rightarrow> int \<Rightarrow> string \<Rightarrow> string \<Rightarrow> LimiterMemory \<Rightarrow>
   LimiterMemory \<times> GovDecision option" where
  "rateStage t key cost rate burst reason code m =
     (if rate > 0 then
        (case AllowRate t key cost rate burst m of
           (m', ok) \<Rightarrow> (m', if ok then None else Some (govDeny 429 reason code)))
      else (m, None))"

definition Day24h :: duration where
  "Day24h = 24 * 3600 * Second"

definition quotaStage ::
  "gotime \<Rightarrow> string \<Rightarrow> int \<Rightarrow> int \<Rightarrow> string \<Rightarrow> LimiterMemory \<Rightarrow> LimiterMemory \<times> GovDecision option" where
  "quotaStage t key estimateTokens perDay onExceeded m =
     (if perDay > 0 then
        (case CheckQuota t key estimateTokens perDay Day24h m of
           (m', dec) \<Rightarrow>
             (m', if dec = QBlock \<and> onExceeded \<noteq> ''warn''
                  then Some (govDeny 429 ''token quota exceeded'' DenyTeamQuotaExceeded) else None))
      else (m, None))"

definition onLim ::
  "(LimiterMemory \<Rightarrow> LimiterMemory \<times> GovDecision option) \<Rightarrow> Stores \<Rightarrow> Stores \<times> GovDecision option" where
  "onLim f st = (case f (lim_store st) of (m, d) \<Rightarrow> (st\<lparr>lim_store := m\<rparr>, d))"

definition onBud ::
  "(Memory \<Rightarrow> Memory \<times> GovDecision option) \<Rightarrow> Stores \<Rightarrow> Stores \<times> GovDecision option" where
  "onBud f st = (case f (bud_store st) of (b, d) \<Rightarrow> (st\<lparr>bud_store := b\<rparr>, d))"

fun runStages ::
  "(Stores \<Rightarrow> Stores \<times> GovDecision option) list \<Rightarrow> Stores \<Rightarrow> Stores \<times> GovDecision" where
  "runStages [] st = (st, govAllow)"
| "runStages (f # fs) st =
     (case f st of (st', None) \<Rightarrow> runStages fs st' | (st', Some d) \<Rightarrow> (st', d))"

definition teamStages ::
  "clock \<Rightarrow> Governor \<Rightarrow> Subject \<Rightarrow> int \<Rightarrow> TeamPolicy \<Rightarrow> (Stores \<Rightarrow> Stores \<times> GovDecision option) list" where
  "teamStages clk g s estimateTokens p =
     [onLim (rateStage (clk 0) (''rate:'' @ s_Team s) 1 (tp_RatePerMin p) (max (tp_RateBurst p) 1)
        ''rate limit exceeded'' DenyTeamRateLimited),
      onLim (rateStage (clk 1) (''tpm:'' @ s_Team s) estimateTokens (tp_TokensPerMinute p) (tp_TokensPerMinute p)
        ''token rate limit exceeded'' DenyTeamTokenRateLimited),
      onLim (quotaStage (clk 2) (''quota:'' @ s_Team s) estimateTokens (tp_TokensPerDay p) (tp_QuotaExceeded p)),
      onBud (budgetStage clk 3 g ScopeTeam (s_Team s) (tp_BudgetMicrosPerMonth p) (tp_BudgetExceeded p)
        (tp_BudgetMicrosPerDay p) (tp_BudgetDayExceeded p) [] (tp_AdminContact p) DenyTeamBudgetExceeded)]"

definition keyStages ::
  "clock \<Rightarrow> Governor \<Rightarrow> Subject \<Rightarrow> int \<Rightarrow> KeyPolicy \<Rightarrow> (Stores \<Rightarrow> Stores \<times> GovDecision option) list" where
  "keyStages clk g s estimateTokens kp =
     [onLim (rateStage (clk 9) (''rate:key:'' @ s_KeyID s) 1 (kp_RatePerMin kp) (kp_RatePerMin kp)
        ''key rate limit exceeded'' DenyKeyRateLimited),
      onLim (rateStage (clk 10) (''tpm:key:'' @ s_KeyID s) estimateTokens (kp_TokensPerMinute kp) (kp_TokensPerMinute kp)
        ''key token rate limit exceeded'' DenyKeyTokenRateLimited),
      onBud (budgetStage clk 11 g ScopeKey (s_KeyID s) (kp_BudgetMicrosPerMonth kp) []
        (kp_BudgetMicrosPerDay kp) [] ''key '' [] DenyKeyBudgetExceeded)]"

definition userStages ::
  "clock \<Rightarrow> Governor \<Rightarrow> Subject \<Rightarrow> UserPolicy \<Rightarrow> (Stores \<Rightarrow> Stores \<times> GovDecision option) list" where
  "userStages clk g s up =
     [onBud (budgetStage clk 17 g ScopeUser (userBudgetID s) (up_BudgetMicrosPerMonth up) (up_BudgetExceeded up)
        (up_BudgetMicrosPerDay up) (up_BudgetExceeded up) ''user '' (up_AdminContact up) DenyUserBudgetExceeded)]"

definition PreCheck ::
  "clock \<Rightarrow> Governor \<Rightarrow> Subject \<Rightarrow> KeyPolicy \<Rightarrow> int \<Rightarrow> Stores \<Rightarrow> Stores \<times> GovDecision" where
  "PreCheck clk g s kp estimateTokens st =
     (if g_shared g then (st, govAllow)
      else
        (case (case g_leaseGate g of None \<Rightarrow> (False, []) | Some f \<Rightarrow> f (s_Team s)) of
           (True, reason) \<Rightarrow> (st, govDeny 402 reason DenyTeamBudgetExceeded)
         | (False, _) \<Rightarrow>
             runStages
               ((case policyOf g (s_Team s) of None \<Rightarrow> [] | Some p \<Rightarrow> teamStages clk g s estimateTokens p)
                @ keyStages clk g s estimateTokens kp
                @ (case userPolicyOf g s of None \<Rightarrow> [] | Some up \<Rightarrow> userStages clk g s up)) st))"

section \<open>Settle\<close>

definition debitStage :: "gotime \<Rightarrow> string \<Rightarrow> string \<Rightarrow> int \<Rightarrow> Window \<Rightarrow> int \<Rightarrow> Memory \<Rightarrow> Memory" where
  "debitStage t scope ident limit w cost b =
     (if limit > 0 then Debit t (budget_key scope ident w) cost w b else b)"

text \<open>The debits of the budget store, with the read-backs that feed the alert hooks.\<close>

definition settleBudgets ::
  "clock \<Rightarrow> Governor \<Rightarrow> Subject \<Rightarrow> TeamPolicy \<Rightarrow> KeyPolicy \<Rightarrow> int \<Rightarrow> Memory \<Rightarrow> Memory \<times> notification list" where
  "settleBudgets clk g s p kp cost b0 =
     (let mw = monthWindow g; dw = dayWindow g;
          tbk = budget_key ScopeTeam (s_Team s) mw;
          kbk = budget_key ScopeKey (s_KeyID s) mw;
          (b1, n1) =
            (if tp_BudgetMicrosPerMonth p > 0 then
               (case Spent (clk 3) tbk mw (Debit (clk 2) tbk cost mw b0) of
                  (b, spent) \<Rightarrow>
                    (b, if g_notifyBudget g
                        then [NotifyBudget (s_Team s) spent (tp_BudgetMicrosPerMonth p)] else []))
             else (b0, []));
          b2 = debitStage (clk 4) ScopeTeam (s_Team s) (tp_BudgetMicrosPerDay p) dw cost b1;
          (b3, n3) =
            (if kp_BudgetMicrosPerMonth kp > 0 then
               (let b = Debit (clk 5) kbk cost mw b2
                in if g_notifyKeyBudget g then
                     (case Spent (clk 6) kbk mw b of
                        (b', spent) \<Rightarrow>
                          (b', [NotifyKeyBudget (s_Team s) (s_KeyID s) spent (kp_BudgetMicrosPerMonth kp)]))
                   else (b, []))
             else (b2, []));
          b4 = debitStage (clk 7) ScopeKey (s_KeyID s) (kp_BudgetMicrosPerDay kp) dw cost b3;
          b5 = (case userPolicyOf g s of
                  None \<Rightarrow> b4
                | Some up \<Rightarrow>
                    debitStage (clk 9) ScopeUser (userBudgetID s) (up_BudgetMicrosPerDay up) dw cost
                      (debitStage (clk 8) ScopeUser (userBudgetID s) (up_BudgetMicrosPerMonth up) mw cost b4))
      in (b5, n1 @ n3))"

definition actualTokens :: "Usage \<Rightarrow> int" where
  "actualTokens u = add64 (add64 (add64 (add64 (u_Input u) (u_Output u)) (u_CacheRead u)) (u_CacheWrite5m u)) (u_CacheWrite1h u)"

definition settleLimiter ::
  "clock \<Rightarrow> Subject \<Rightarrow> TeamPolicy \<Rightarrow> KeyPolicy \<Rightarrow> int \<Rightarrow> int \<Rightarrow> LimiterMemory \<Rightarrow> LimiterMemory" where
  "settleLimiter clk s p kp actual estimatedTokens m0 =
     (let m1 = (if tp_TokensPerDay p > 0 then DebitQuota (clk 0) (''quota:'' @ s_Team s) actual Day24h m0 else m0);
          tpmDelta = sub64 estimatedTokens actual;
          m2 = (if tp_TokensPerMinute p > 0
                then AdjustRate (''tpm:'' @ s_Team s) tpmDelta (tp_TokensPerMinute p) m1 else m1)
      in if kp_TokensPerMinute kp > 0
         then AdjustRate (''tpm:key:'' @ s_KeyID s) tpmDelta (kp_TokensPerMinute kp) m2 else m2)"

definition Settle ::
  "clock \<Rightarrow> Governor \<Rightarrow> Subject \<Rightarrow> KeyPolicy \<Rightarrow> string \<Rightarrow> string \<Rightarrow> Usage \<Rightarrow> Table option \<Rightarrow> int \<Rightarrow> Stores \<Rightarrow>
   Stores \<times> notification list \<times> int \<times> bool" where
  "Settle clk g s kp provider model u table estimatedTokens st =
     (if g_shared g then
        (case table of
           None \<Rightarrow> (st, [], 0, True)
         | Some t \<Rightarrow>
             (case CostUSDMicrosChecked (Some t) provider model u of
                Inl e \<Rightarrow> (st, [], 0, True)
              | Inr cost \<Rightarrow> (st, [], cost, False)))
      else
        (let p = (case policyOf g (s_Team s) of None \<Rightarrow> zeroTeamPolicy | Some p \<Rightarrow> p);
             m = settleLimiter clk s p kp (actualTokens u) estimatedTokens (lim_store st);
             (cost, missing) =
               (case table of None \<Rightarrow> (0, True) | Some t \<Rightarrow> CostUSDMicros t provider model u);
             (b, ns) = settleBudgets clk g s p kp cost (bud_store st)
         in (\<lparr>lim_store = m, bud_store = b\<rparr>, ns, cost, missing)))"

section \<open>UsageOf\<close>

definition budgetUsageOf ::
  "clock \<Rightarrow> nat \<Rightarrow> string \<Rightarrow> string \<Rightarrow> int \<Rightarrow> Window \<Rightarrow> string \<Rightarrow> Memory \<Rightarrow> Memory \<times> BudgetUsage option" where
  "budgetUsageOf clk i scope ident limit w name b =
     (if limit > 0 then
        (let key = budget_key scope ident w
         in case Spent (clk i) key w b of
              (b1, spent) \<Rightarrow>
                (case ResetsAt (clk (i + 1)) (clk (i + 2)) key w b1 of
                   (b2, resetsAt) \<Rightarrow>
                     (b2, Some \<lparr>bu_Limit = limit, bu_Spent = spent, bu_Remaining = max 0 (sub64 limit spent),
                           bu_Window = name, bu_ResetsAt = resetsAt\<rparr>)))
      else (b, None))"

definition UsageOf ::
  "clock \<Rightarrow> Governor \<Rightarrow> Subject \<Rightarrow> KeyPolicy \<Rightarrow> Stores \<Rightarrow> Stores \<times> UsageStatus" where
  "UsageOf clk g s kp st =
     (let u0 = \<lparr>us_EnforcementMode = [], us_Team = s_Team s, us_TeamBudget = None, us_TeamQuota = None,
            us_KeyBudget = None, us_KeyQuota = None, us_TeamBudgetDay = None, us_KeyBudgetDay = None,
            us_UserBudget = None, us_UserBudgetDay = None\<rparr>
      in if g_shared g then (st, u0\<lparr>us_EnforcementMode := ''shared''\<rparr>)
         else
           (let mw = monthWindow g; dw = dayWindow g;
                p = (case policyOf g (s_Team s) of None \<Rightarrow> zeroTeamPolicy | Some p \<Rightarrow> p);
                up = (case userPolicyOf g s of
                        None \<Rightarrow> \<lparr>up_BudgetMicrosPerMonth = 0, up_BudgetMicrosPerDay = 0,
                                 up_BudgetExceeded = [], up_AdminContact = []\<rparr>
                      | Some up \<Rightarrow> up);
                (b1, tb) = budgetUsageOf clk 0 ScopeTeam (s_Team s) (tp_BudgetMicrosPerMonth p) mw ''calendar-month'' (bud_store st);
                (b2, tbd) = budgetUsageOf clk 3 ScopeTeam (s_Team s) (tp_BudgetMicrosPerDay p) dw ''calendar-day'' b1;
                tq = (if tp_TokensPerDay p > 0
                      then Some \<lparr>qu_Limit = tp_TokensPerDay p,
                                 qu_Used = QuotaUsed (clk 6) (''quota:'' @ s_Team s) (lim_store st), qu_Window = ''24h''\<rparr>
                      else None);
                (b3, kb) = budgetUsageOf clk 7 ScopeKey (s_KeyID s) (kp_BudgetMicrosPerMonth kp) mw ''calendar-month'' b2;
                (b4, kbd) = budgetUsageOf clk 10 ScopeKey (s_KeyID s) (kp_BudgetMicrosPerDay kp) dw ''calendar-day'' b3;
                (b5, ub) = budgetUsageOf clk 13 ScopeUser (userBudgetID s) (up_BudgetMicrosPerMonth up) mw ''calendar-month'' b4;
                (b6, ubd) = budgetUsageOf clk 16 ScopeUser (userBudgetID s) (up_BudgetMicrosPerDay up) dw ''calendar-day'' b5;
                kq = (if kp_TokensPerMinute kp > 0
                      then Some \<lparr>qu_Limit = kp_TokensPerMinute kp,
                                 qu_Used = RateUsed (clk 19) (''tpm:key:'' @ s_KeyID s) (kp_TokensPerMinute kp)
                                   (kp_TokensPerMinute kp) (lim_store st), qu_Window = ''1m''\<rparr>
                      else None)
            in (st\<lparr>bud_store := b6\<rparr>,
                u0\<lparr>us_TeamBudget := tb, us_TeamQuota := tq, us_KeyBudget := kb, us_KeyQuota := kq,
                   us_TeamBudgetDay := tbd, us_KeyBudgetDay := kbd, us_UserBudget := ub, us_UserBudgetDay := ubd\<rparr>)))"

section \<open>Pricing guard\<close>

record PricedTarget =
  pt_Provider :: string
  pt_Upstream :: string

fun guardTargets :: "Table \<Rightarrow> PricedTarget list \<Rightarrow> GovDecision" where
  "guardTargets table [] = govAllow"
| "guardTargets table (t # ts) =
     (if \<not> HasRate table (pt_Provider t) (pt_Upstream t)
      then govDeny 402 (''no pricing rate for '' @ pt_Provider t @ ''/'' @ pt_Upstream t) DenyPricingMissing
      else guardTargets table ts)"

definition PricingGuard :: "Table option \<Rightarrow> PricedTarget list \<Rightarrow> GovDecision" where
  "PricingGuard table targets =
     (case table of
        None \<Rightarrow> govAllow
      | Some t \<Rightarrow> if onMissing t \<noteq> OnMissingBlock then govAllow else guardTargets t targets)"

section \<open>The budget store along PreCheck\<close>

text \<open>
  What every stage of the check keeps, at the \<open>n\<close>-th reading of the clock: the budget store is
  well formed, has grown by at most \<open>n\<close> entries, and shows, from this reading on, the spend
  the initial store \<open>b0\<close> shows.
\<close>

definition unspent :: "clock \<Rightarrow> Memory \<Rightarrow> nat \<Rightarrow> Memory \<Rightarrow> bool" where
  "unspent clk b0 n b \<longleftrightarrow> wf_store b \<and> maxEntries b = maxEntries b0
     \<and> Mapping.size (bm b) \<le> Mapping.size (bm b0) + n
     \<and> (\<forall>t k. clk n \<le> t \<longrightarrow> spend_view t b k = spend_view t b0 k)"

lemma unspent_mono: "mono clk \<Longrightarrow> unspent clk b0 n b \<Longrightarrow> n \<le> m \<Longrightarrow> unspent clk b0 m b"
  by (auto simp: unspent_def dest: monoD [of clk n m])

lemma unspent_cur:
  assumes "mono clk" and "unspent clk b0 n b"
  shows "unspent clk b0 (n + 1) (fst (cur (clk n) key w b))"
  using assms wf_cur [of b "clk n" key w] size_cur [of b "clk n" key w] monoD [OF assms(1), of n "n + 1"]
  by (auto simp: unspent_def maxEntries_cur spend_view_cur)

lemma unspent_Check:
  assumes "mono clk" and "unspent clk b0 n b"
  shows "unspent clk b0 (n + 1) (fst (Check (clk n) key est lmt w b))"
  using unspent_cur [OF assms] unspent_mono [OF assms, of "n + 1"] by (simp add: fst_Check)

lemma unspent_ResetsAt:
  assumes "mono clk" and "unspent clk b0 n b"
  shows "unspent clk b0 (n + 1) (fst (ResetsAt (clk n) t key w b))"
  using unspent_cur [OF assms] by (simp add: fst_ResetsAt)

lemma unspent_start: "wf_store b0 \<Longrightarrow> unspent clk b0 n b0"
  by (simp add: unspent_def)

text \<open>One window of a budget block: it denies exactly what its limit demands.\<close>

definition exceeded :: "clock \<Rightarrow> Memory \<Rightarrow> nat \<Rightarrow> string \<Rightarrow> int \<Rightarrow> string \<Rightarrow> bool" where
  "exceeded clk b0 i key limit on \<longleftrightarrow> 0 < limit \<and> on \<noteq> ''warn'' \<and> limit < spend_view (clk i) b0 key"

definition crowded :: "Memory \<Rightarrow> nat \<Rightarrow> bool" where
  "crowded b0 n \<longleftrightarrow> maxEntries b0 \<le> int (Mapping.size (bm b0)) + int n"

lemma Check_zero:
  assumes "wf_store b" and "in64 (spend_view t b key)" and "0 < limit"
  shows "mustDenyBudget (snd (Check t key 0 limit w b)) on \<longleftrightarrow>
    (Mapping.lookup (bm b) key = None \<and> maxEntries b \<le> int (card (live_keys t b)))
    \<or> (on \<noteq> ''warn'' \<and> limit < spend_view t b key)"
proof -
  have "in64 (spend_view t b key + 0)" using assms(2) by simp
  have "spend_view t b key = 0" if "Mapping.lookup (bm b) key = None"
    using that by (simp add: spend_view_def live_def)
  then show ?thesis
    using Check_decision [OF assms(1) \<open>in64 (spend_view t b key + 0)\<close>, of limit w] assms(3)
    by (auto simp: mustDenyBudget_def)
qed

lemma budgetWindowStage_outcome:
  assumes "mono clk" and "unspent clk b0 i b" and "in64 (spend_view (clk i) b0 (budget_key scope ident w))"
    and "budgetWindowStage clk i g w scope ident limit on kind contact code (b, deny) = (b', deny')"
  shows "unspent clk b0 (i + 3) b'"
    and "deny' = None \<longleftrightarrow> deny = None \<and>
      \<not> (0 < limit \<and> mustDenyBudget (snd (Check (clk i) (budget_key scope ident w) 0 limit w b)) on)"
    and "exceeded clk b0 i (budget_key scope ident w) limit on \<Longrightarrow> deny' \<noteq> None"
    and "deny' \<noteq> None \<Longrightarrow> deny = None \<Longrightarrow>
      exceeded clk b0 i (budget_key scope ident w) limit on \<or> crowded b0 i"
    and "(\<forall>d r. deny = Some (d, r) \<longrightarrow> \<not> gd_Allowed d \<and> gd_Status d = 402) \<Longrightarrow>
      (\<forall>d r. deny' = Some (d, r) \<longrightarrow> \<not> gd_Allowed d \<and> gd_Status d = 402)"
proof -
  let ?key = "budget_key scope ident w"
  let ?c = "Check (clk i) ?key 0 limit w b"
  let ?r = "ResetsAt (clk (i + 1)) (clk (i + 2)) ?key w (fst ?c)"
  have c: "unspent clk b0 (i + 1) (fst ?c)" by (rule unspent_Check [OF assms(1,2)])
  have r: "unspent clk b0 (i + 1 + 1) (fst ?r)" by (rule unspent_ResetsAt [OF assms(1) c])
  show "unspent clk b0 (i + 3) b'"
    using assms(4) unspent_mono [OF assms(1) c, of "i + 3"] unspent_mono [OF assms(1) r, of "i + 3"]
      unspent_mono [OF assms(1,2), of "i + 3"]
    by (auto simp: budgetWindowStage_def Let_def case_prod_unfold split: if_splits)
  show iff: "deny' = None \<longleftrightarrow> deny = None \<and> \<not> (0 < limit \<and> mustDenyBudget (snd ?c) on)"
    using assms(4) by (auto simp: budgetWindowStage_def Let_def case_prod_unfold split: if_splits option.splits)
  have wf: "wf_store b" "maxEntries b = maxEntries b0" "Mapping.size (bm b) \<le> Mapping.size (bm b0) + i"
    and view: "spend_view (clk i) b ?key = spend_view (clk i) b0 ?key"
    using assms(2) by (simp_all add: unspent_def)
  have must: "0 < limit \<Longrightarrow> mustDenyBudget (snd ?c) on \<longleftrightarrow>
      (Mapping.lookup (bm b) ?key = None \<and> maxEntries b \<le> int (card (live_keys (clk i) b)))
      \<or> (on \<noteq> ''warn'' \<and> limit < spend_view (clk i) b0 ?key)"
    using Check_zero [OF wf(1), of "clk i" ?key limit w on] assms(3) view by simp
  show "exceeded clk b0 i ?key limit on \<Longrightarrow> deny' \<noteq> None"
    unfolding iff using must by (auto simp: exceeded_def)
  show "deny' \<noteq> None \<Longrightarrow> deny = None \<Longrightarrow> exceeded clk b0 i ?key limit on \<or> crowded b0 i"
    unfolding iff using must not_refused_room [OF wf(1), of ?key "clk i"] wf(2,3)
    by (auto simp: exceeded_def crowded_def)
  show "(\<forall>d r. deny = Some (d, r) \<longrightarrow> \<not> gd_Allowed d \<and> gd_Status d = 402) \<Longrightarrow>
      (\<forall>d r. deny' = Some (d, r) \<longrightarrow> \<not> gd_Allowed d \<and> gd_Status d = 402)"
    using assms(4)
    by (auto simp: budgetWindowStage_def Let_def case_prod_unfold govDeny_def split: if_splits option.splits)
qed

definition in64_spend :: "Memory \<Rightarrow> bool" where
  "in64_spend b \<longleftrightarrow> (\<forall>k v. Mapping.lookup (bm b) k = Some v \<longrightarrow> in64 (win_spent v))"

lemma in64_spend_view: "in64_spend b \<Longrightarrow> in64 (spend_view t b k)"
  by (auto simp: in64_spend_def spend_view_def live_def split: option.splits)

lemma budgetStage_outcome:
  assumes "mono clk" and "unspent clk b0 i b" and "in64_spend b0"
    and "budgetStage clk i g scope ident perMonth onMonth perDay onDay prefix contact code b = (b', d)"
  shows "unspent clk b0 (i + 6) b'"
    and "d = None \<Longrightarrow> \<not> exceeded clk b0 i (budget_key scope ident (monthWindow g)) perMonth onMonth
      \<and> \<not> exceeded clk b0 (i + 3) (budget_key scope ident (dayWindow g)) perDay onDay"
    and "d = Some x \<Longrightarrow> \<not> gd_Allowed x \<and> gd_Status x = 402
      \<and> (exceeded clk b0 i (budget_key scope ident (monthWindow g)) perMonth onMonth
         \<or> exceeded clk b0 (i + 3) (budget_key scope ident (dayWindow g)) perDay onDay \<or> crowded b0 (i + 3))"
proof -
  obtain b1 d1 where m: "budgetWindowStage clk i g (monthWindow g) scope ident perMonth onMonth
      (prefix @ ''budget'') contact code (b, None) = (b1, d1)" by fastforce
  obtain b2 d2 where dd: "budgetWindowStage clk (i + 3) g (dayWindow g) scope ident perDay onDay
      (prefix @ ''daily budget'') contact code (b1, d1) = (b2, d2)" by fastforce
  note month = budgetWindowStage_outcome [OF assms(1,2) in64_spend_view [OF assms(3)] m]
  note day = budgetWindowStage_outcome [OF assms(1) month(1) in64_spend_view [OF assms(3)] dd]
  have res: "b' = b2" "d = map_option fst d2"
    using assms(4) m dd by (auto simp: budgetStage_def split: option.splits)
  show "unspent clk b0 (i + 6) b'" using day(1) res(1) by (simp add: add.assoc)
  have up: "crowded b0 i \<Longrightarrow> crowded b0 (i + 3)" by (simp add: crowded_def)
  show "d = None \<Longrightarrow> \<not> exceeded clk b0 i (budget_key scope ident (monthWindow g)) perMonth onMonth
      \<and> \<not> exceeded clk b0 (i + 3) (budget_key scope ident (dayWindow g)) perDay onDay"
    using res(2) month(3) day(2,3) by auto
  show "d = Some x \<Longrightarrow> \<not> gd_Allowed x \<and> gd_Status x = 402
      \<and> (exceeded clk b0 i (budget_key scope ident (monthWindow g)) perMonth onMonth
         \<or> exceeded clk b0 (i + 3) (budget_key scope ident (dayWindow g)) perDay onDay \<or> crowded b0 (i + 3))"
  proof -
    assume "d = Some x"
    then obtain r where d2: "d2 = Some (x, r)" using res(2) by auto
    have "\<forall>d r. d1 = Some (d, r) \<longrightarrow> \<not> gd_Allowed d \<and> gd_Status d = 402" using month(5) by simp
    from day(5) [OF this] d2 have "\<not> gd_Allowed x \<and> gd_Status x = 402" by simp
    moreover have "d1 = None \<Longrightarrow> exceeded clk b0 (i + 3) (budget_key scope ident (dayWindow g)) perDay onDay
        \<or> crowded b0 (i + 3)" using day(4) d2 by simp
    moreover have "d1 \<noteq> None \<Longrightarrow> exceeded clk b0 i (budget_key scope ident (monthWindow g)) perMonth onMonth
        \<or> crowded b0 (i + 3)" using month(4) up by blast
    ultimately show ?thesis by blast
  qed
qed

section \<open>Pipelines of stages\<close>

text \<open>
  A pipeline is a list of stages with, for each, the clock place after it, what a pass of the
  stage means and what a denial means.
\<close>

type_synonym stage = "Stores \<Rightarrow> Stores \<times> GovDecision option"
type_synonym pipeline = "(nat \<times> stage \<times> bool \<times> (GovDecision \<Rightarrow> bool)) list"

fun pipeline_ok :: "(nat \<Rightarrow> Stores \<Rightarrow> bool) \<Rightarrow> nat \<Rightarrow> pipeline \<Rightarrow> bool" where
  "pipeline_ok J n [] = True"
| "pipeline_ok J n ((n', f, Q, R) # ps) =
     ((\<forall>st st' d. J n st \<longrightarrow> f st = (st', d) \<longrightarrow>
         J n' st' \<and> (case d of None \<Rightarrow> Q | Some x \<Rightarrow> \<not> gd_Allowed x \<and> R x))
      \<and> pipeline_ok J n' ps)"

lemma pipeline_verdict:
  assumes "pipeline_ok J n ps" and "J n st"
  shows "(gd_Allowed (snd (runStages (map (\<lambda>(n, f, Q, R). f) ps) st)) \<longrightarrow>
      snd (runStages (map (\<lambda>(n, f, Q, R). f) ps) st) = govAllow \<and> (\<forall>(n, f, Q, R) \<in> set ps. Q))
    \<and> (\<not> gd_Allowed (snd (runStages (map (\<lambda>(n, f, Q, R). f) ps) st)) \<longrightarrow>
        (\<exists>(n, f, Q, R) \<in> set ps. R (snd (runStages (map (\<lambda>(n, f, Q, R). f) ps) st))))"
  using assms
proof (induction ps arbitrary: n st)
  case Nil
  then show ?case by (simp add: govAllow_def)
next
  case (Cons x ps)
  obtain n' f Q R where x: "x = (n', f, Q, R)" by (cases x) auto
  obtain st' d where f: "f st = (st', d)" by fastforce
  have step: "J n' st'" "case d of None \<Rightarrow> Q | Some y \<Rightarrow> \<not> gd_Allowed y \<and> R y" "pipeline_ok J n' ps"
    using Cons.prems x f by auto
  show ?case
  proof (cases d)
    case None
    then show ?thesis using step Cons.IH [OF step(3,1)] x f by fastforce
  next
    case (Some y)
    then show ?thesis using step x f by auto
  qed
qed

definition kept :: "clock \<Rightarrow> Memory \<Rightarrow> nat \<Rightarrow> Stores \<Rightarrow> bool" where
  "kept clk b0 n st \<longleftrightarrow> unspent clk b0 n (bud_store st)"

definition limStage :: "nat \<Rightarrow> stage \<Rightarrow> nat \<times> stage \<times> bool \<times> (GovDecision \<Rightarrow> bool)" where
  "limStage n f = (n, f, True, \<lambda>d. gd_Status d = 429)"

definition budStage ::
  "clock \<Rightarrow> Memory \<Rightarrow> nat \<Rightarrow> stage \<Rightarrow> (nat \<times> string \<times> int \<times> string) list \<Rightarrow>
   nat \<times> stage \<times> bool \<times> (GovDecision \<Rightarrow> bool)" where
  "budStage clk b0 n f bs = (n, f, (\<forall>(i, k, l, on) \<in> set bs. \<not> exceeded clk b0 i k l on),
     \<lambda>d. gd_Status d = 402 \<and> ((\<exists>(i, k, l, on) \<in> set bs. exceeded clk b0 i k l on) \<or> crowded b0 20))"

lemma rateStage_ok:
  assumes "mono clk" and "n \<le> m" and "pipeline_ok (kept clk b0) m ps"
  shows "pipeline_ok (kept clk b0) n (limStage m (onLim (rateStage t key cost r burst reason code)) # ps)"
  using assms unspent_mono [of clk b0 n _ m]
  by (auto simp: limStage_def onLim_def kept_def rateStage_def govDeny_def split: prod.splits if_splits)

lemma quotaStage_ok:
  assumes "mono clk" and "n \<le> m" and "pipeline_ok (kept clk b0) m ps"
  shows "pipeline_ok (kept clk b0) n (limStage m (onLim (quotaStage t key est perDay on)) # ps)"
  using assms unspent_mono [of clk b0 n _ m]
  by (auto simp: limStage_def onLim_def kept_def quotaStage_def govDeny_def split: prod.splits if_splits)

definition budgetPair ::
  "Governor \<Rightarrow> nat \<Rightarrow> string \<Rightarrow> string \<Rightarrow> int \<Rightarrow> string \<Rightarrow> int \<Rightarrow> string \<Rightarrow> (nat \<times> string \<times> int \<times> string) list" where
  "budgetPair g i scope ident perMonth onMonth perDay onDay =
     [(i, budget_key scope ident (monthWindow g), perMonth, onMonth),
      (i + 3, budget_key scope ident (dayWindow g), perDay, onDay)]"

lemma budgetStage_ok:
  assumes "mono clk" and "in64_spend b0" and "n \<le> i" and "i \<le> 17" and "pipeline_ok (kept clk b0) (i + 6) ps"
  shows "pipeline_ok (kept clk b0) n
    (budStage clk b0 (i + 6)
      (onBud (budgetStage clk i g scope ident perMonth onMonth perDay onDay prefix contact code))
      (budgetPair g i scope ident perMonth onMonth perDay onDay) # ps)"
proof -
  have crowd: "crowded b0 (i + 3) \<Longrightarrow> crowded b0 20" using assms(4) by (simp add: crowded_def)
  have "kept clk b0 (i + 6) st'
      \<and> (case d of None \<Rightarrow> (\<forall>(i, k, l, on) \<in> set (budgetPair g i scope ident perMonth onMonth perDay onDay). \<not> exceeded clk b0 i k l on)
         | Some x \<Rightarrow> \<not> gd_Allowed x \<and> gd_Status x = 402
           \<and> ((\<exists>(i, k, l, on) \<in> set (budgetPair g i scope ident perMonth onMonth perDay onDay). exceeded clk b0 i k l on)
              \<or> crowded b0 20))"
    if "kept clk b0 n st" "onBud (budgetStage clk i g scope ident perMonth onMonth perDay onDay prefix contact code) st = (st', d)"
    for st st' d
  proof -
    note run = that
    obtain b' where b: "budgetStage clk i g scope ident perMonth onMonth perDay onDay prefix contact code (bud_store st) = (b', d)"
      "bud_store st' = b'" using run(2) by (auto simp: onBud_def split: prod.splits)
    have "unspent clk b0 i (bud_store st)" using run(1) assms(1,3) unspent_mono by (auto simp: kept_def)
    from budgetStage_outcome [OF assms(1) this assms(2) b(1)] crowd b(2) show ?thesis
      by (cases d) (auto simp: kept_def budgetPair_def)
  qed
  with assms(5) show ?thesis by (simp add: budStage_def)
qed

section \<open>The budgets that bind a subject\<close>

text \<open>Place in the check, store key, limit and knob of every budget counter of a subject.\<close>

definition teamBudgets :: "Governor \<Rightarrow> Subject \<Rightarrow> TeamPolicy \<Rightarrow> (nat \<times> string \<times> int \<times> string) list" where
  "teamBudgets g s p = budgetPair g 3 ScopeTeam (s_Team s) (tp_BudgetMicrosPerMonth p) (tp_BudgetExceeded p)
     (tp_BudgetMicrosPerDay p) (tp_BudgetDayExceeded p)"

definition keyBudgets :: "Governor \<Rightarrow> Subject \<Rightarrow> KeyPolicy \<Rightarrow> (nat \<times> string \<times> int \<times> string) list" where
  "keyBudgets g s kp = budgetPair g 11 ScopeKey (s_KeyID s) (kp_BudgetMicrosPerMonth kp) []
     (kp_BudgetMicrosPerDay kp) []"

definition userBudgets :: "Governor \<Rightarrow> Subject \<Rightarrow> UserPolicy \<Rightarrow> (nat \<times> string \<times> int \<times> string) list" where
  "userBudgets g s up = budgetPair g 17 ScopeUser (userBudgetID s) (up_BudgetMicrosPerMonth up) (up_BudgetExceeded up)
     (up_BudgetMicrosPerDay up) (up_BudgetExceeded up)"

definition budgetsOf :: "Governor \<Rightarrow> Subject \<Rightarrow> KeyPolicy \<Rightarrow> (nat \<times> string \<times> int \<times> string) list" where
  "budgetsOf g s kp =
     (case policyOf g (s_Team s) of None \<Rightarrow> [] | Some p \<Rightarrow> teamBudgets g s p)
     @ keyBudgets g s kp
     @ (case userPolicyOf g s of None \<Rightarrow> [] | Some up \<Rightarrow> userBudgets g s up)"

definition teamPipe :: "clock \<Rightarrow> Memory \<Rightarrow> Governor \<Rightarrow> Subject \<Rightarrow> int \<Rightarrow> TeamPolicy \<Rightarrow> pipeline" where
  "teamPipe clk b0 g s est p = (case teamStages clk g s est p of
     [f1, f2, f3, f4] \<Rightarrow> [limStage 1 f1, limStage 2 f2, limStage 3 f3, budStage clk b0 9 f4 (teamBudgets g s p)] | _ \<Rightarrow> [])"

definition keyPipe :: "clock \<Rightarrow> Memory \<Rightarrow> Governor \<Rightarrow> Subject \<Rightarrow> int \<Rightarrow> KeyPolicy \<Rightarrow> pipeline" where
  "keyPipe clk b0 g s est kp = (case keyStages clk g s est kp of
     [f1, f2, f3] \<Rightarrow> [limStage 10 f1, limStage 11 f2, budStage clk b0 17 f3 (keyBudgets g s kp)] | _ \<Rightarrow> [])"

definition userPipe :: "clock \<Rightarrow> Memory \<Rightarrow> Governor \<Rightarrow> Subject \<Rightarrow> UserPolicy \<Rightarrow> pipeline" where
  "userPipe clk b0 g s up = (case userStages clk g s up of
     [f1] \<Rightarrow> [budStage clk b0 23 f1 (userBudgets g s up)] | _ \<Rightarrow> [])"

lemmas pipe_defs = teamPipe_def keyPipe_def userPipe_def teamStages_def keyStages_def userStages_def

definition precheckPipe :: "clock \<Rightarrow> Memory \<Rightarrow> Governor \<Rightarrow> Subject \<Rightarrow> int \<Rightarrow> KeyPolicy \<Rightarrow> pipeline" where
  "precheckPipe clk b0 g s est kp =
     (case policyOf g (s_Team s) of None \<Rightarrow> [] | Some p \<Rightarrow> teamPipe clk b0 g s est p)
     @ keyPipe clk b0 g s est kp
     @ (case userPolicyOf g s of None \<Rightarrow> [] | Some up \<Rightarrow> userPipe clk b0 g s up)"

lemma precheckPipe_stages:
  "map (\<lambda>(n, f, Q, R). f) (precheckPipe clk b0 g s est kp) =
     (case policyOf g (s_Team s) of None \<Rightarrow> [] | Some p \<Rightarrow> teamStages clk g s est p)
     @ keyStages clk g s est kp
     @ (case userPolicyOf g s of None \<Rightarrow> [] | Some up \<Rightarrow> userStages clk g s up)"
  by (simp add: precheckPipe_def pipe_defs limStage_def budStage_def split: option.split)

lemma userPipe_ok:
  assumes "mono clk" and "in64_spend b0" and "n \<le> 17"
  shows "pipeline_ok (kept clk b0) n (userPipe clk b0 g s up)"
  using assms budgetStage_ok [OF assms(1,2), of n 17 "[]"]
  by (simp add: userPipe_def userStages_def userBudgets_def)

lemma keyPipe_ok:
  assumes "mono clk" and "in64_spend b0" and "n \<le> 9" and "pipeline_ok (kept clk b0) 17 ps"
  shows "pipeline_ok (kept clk b0) n (keyPipe clk b0 g s est kp @ ps)"
  using assms budgetStage_ok [OF assms(1,2), of 11 11 ps]
  by (simp add: keyPipe_def keyStages_def keyBudgets_def rateStage_ok)

lemma teamPipe_ok:
  assumes "mono clk" and "in64_spend b0" and "pipeline_ok (kept clk b0) 9 ps"
  shows "pipeline_ok (kept clk b0) 0 (teamPipe clk b0 g s est p @ ps)"
  using assms budgetStage_ok [OF assms(1,2), of 3 3 ps]
  by (simp add: teamPipe_def teamStages_def teamBudgets_def rateStage_ok quotaStage_ok)

lemma precheckPipe_ok:
  assumes "mono clk" and "in64_spend b0"
  shows "pipeline_ok (kept clk b0) 0 (precheckPipe clk b0 g s est kp)"
proof -
  have user: "pipeline_ok (kept clk b0) 17 (case userPolicyOf g s of None \<Rightarrow> [] | Some up \<Rightarrow> userPipe clk b0 g s up)"
    using userPipe_ok [OF assms, of 17] by (simp split: option.split)
  then show ?thesis
    using keyPipe_ok [OF assms _ user] teamPipe_ok [OF assms]
    by (simp add: precheckPipe_def split: option.split)
qed

definition leaseBlocks :: "Governor \<Rightarrow> Subject \<Rightarrow> bool" where
  "leaseBlocks g s = (case g_leaseGate g of None \<Rightarrow> False | Some f \<Rightarrow> fst (f (s_Team s)))"

lemma PreCheck_pipe:
  "\<not> g_shared g \<Longrightarrow> \<not> leaseBlocks g s \<Longrightarrow>
     PreCheck clk g s kp est st = runStages (map (\<lambda>(n, f, Q, R). f) (precheckPipe clk b0 g s est kp)) st"
  unfolding precheckPipe_stages
  by (auto simp: PreCheck_def leaseBlocks_def split: option.splits prod.splits bool.splits)

lemma precheck_allowed_lease:
  "\<not> g_shared g \<Longrightarrow> gd_Allowed (snd (PreCheck clk g s kp est st)) \<Longrightarrow> \<not> leaseBlocks g s"
  by (auto simp: PreCheck_def leaseBlocks_def govDeny_def split: option.splits prod.splits bool.splits)

lemma pipe_budget_stage:
  assumes "x \<in> set (budgetsOf g s kp)"
  shows "\<exists>n f bs. budStage clk b0 n f bs \<in> set (precheckPipe clk b0 g s est kp) \<and> x \<in> set bs"
proof -
  have team: "\<exists>n f. budStage clk b0 n f (teamBudgets g s p) \<in> set (teamPipe clk b0 g s est p)" for p
    unfolding teamPipe_def teamStages_def by simp blast
  have key: "\<exists>n f. budStage clk b0 n f (keyBudgets g s kp) \<in> set (keyPipe clk b0 g s est kp)"
    unfolding keyPipe_def keyStages_def by simp blast
  have user: "\<exists>n f. budStage clk b0 n f (userBudgets g s up) \<in> set (userPipe clk b0 g s up)" for up
    unfolding userPipe_def userStages_def by simp blast
  consider p where "policyOf g (s_Team s) = Some p" "x \<in> set (teamBudgets g s p)" | "x \<in> set (keyBudgets g s kp)"
    | up where "userPolicyOf g s = Some up" "x \<in> set (userBudgets g s up)"
    using assms by (cases "policyOf g (s_Team s)"; cases "userPolicyOf g s") (auto simp: budgetsOf_def)
  then show ?thesis
  proof cases
    case 1
    then show ?thesis using team [of p] by (auto simp: precheckPipe_def)
  next
    case 2
    then show ?thesis using key by (auto simp: precheckPipe_def)
  next
    case 3
    then show ?thesis using user [of up] by (auto simp: precheckPipe_def)
  qed
qed

lemma pipe_budgets:
  assumes "\<forall>(n, f, Q, R) \<in> set (precheckPipe clk b0 g s est kp). Q" and "(i, k, l, on) \<in> set (budgetsOf g s kp)"
  shows "\<not> exceeded clk b0 i k l on"
proof -
  obtain n f bs where st: "budStage clk b0 n f bs \<in> set (precheckPipe clk b0 g s est kp)" "(i, k, l, on) \<in> set bs"
    using pipe_budget_stage [OF assms(2)] by blast
  have "case budStage clk b0 n f bs of (n, f, Q, R) \<Rightarrow> Q" by (rule bspec [OF assms(1) st(1)])
  then show ?thesis using st(2) by (auto simp: budStage_def)
qed

lemma pipe_stage_cases:
  assumes "x \<in> set (precheckPipe clk b0 g s est kp)"
  obtains n f where "x = limStage n f"
  | n f bs where "x = budStage clk b0 n f bs" "set bs \<subseteq> set (budgetsOf g s kp)"
  using assms by (force simp: precheckPipe_def budgetsOf_def pipe_defs split: option.splits)

lemma pipe_denial:
  assumes "(n, f, Q, R) \<in> set (precheckPipe clk b0 g s est kp)" and "R d" and "gd_Status d = 402"
  shows "(\<exists>(i, k, l, on) \<in> set (budgetsOf g s kp). exceeded clk b0 i k l on) \<or> crowded b0 20"
proof (rule pipe_stage_cases [OF assms(1)])
  fix n' f'
  assume "(n, f, Q, R) = limStage n' f'"
  then show ?thesis using assms(2,3) by (simp add: limStage_def)
next
  fix n' f' bs
  assume bs: "(n, f, Q, R) = budStage clk b0 n' f' bs" "set bs \<subseteq> set (budgetsOf g s kp)"
  then have "(\<exists>(i, k, l, on) \<in> set bs. exceeded clk b0 i k l on) \<or> crowded b0 20"
    using assms(2) by (simp add: budStage_def)
  then show ?thesis using bs(2) by blast
qed

lemma precheck_verdict:
  assumes "mono clk" and "wf_store (bud_store st)" and "in64_spend (bud_store st)" and "\<not> g_shared g"
  shows "gd_Allowed (snd (PreCheck clk g s kp est st)) \<Longrightarrow> (i, k, l, on) \<in> set (budgetsOf g s kp) \<Longrightarrow>
      \<not> exceeded clk (bud_store st) i k l on"
    and "gd_Status (snd (PreCheck clk g s kp est st)) = 402 \<Longrightarrow> \<not> leaseBlocks g s \<Longrightarrow>
      (\<exists>(i, k, l, on) \<in> set (budgetsOf g s kp). exceeded clk (bud_store st) i k l on) \<or> crowded (bud_store st) 20"
proof -
  let ?b0 = "bud_store st" and ?ps = "precheckPipe clk (bud_store st) g s est kp"
  let ?d = "snd (runStages (map (\<lambda>(n, f, Q, R). f) ?ps) st)"
  have v: "(gd_Allowed ?d \<longrightarrow> ?d = govAllow \<and> (\<forall>(n, f, Q, R) \<in> set ?ps. Q))
    \<and> (\<not> gd_Allowed ?d \<longrightarrow> (\<exists>(n, f, Q, R) \<in> set ?ps. R ?d))"
    by (rule pipeline_verdict [OF precheckPipe_ok [OF assms(1,3)]])
      (simp add: kept_def unspent_start [OF assms(2)])
  have run: "\<not> leaseBlocks g s \<Longrightarrow> snd (PreCheck clk g s kp est st) = ?d"
    using PreCheck_pipe [OF assms(4), of s clk kp est st ?b0] by simp
  show "\<not> exceeded clk ?b0 i k l on"
    if "gd_Allowed (snd (PreCheck clk g s kp est st))" "(i, k, l, on) \<in> set (budgetsOf g s kp)"
  proof -
    have "gd_Allowed ?d" using that(1) run precheck_allowed_lease [OF assms(4) that(1)] by simp
    with v have "\<forall>(n, f, Q, R) \<in> set ?ps. Q" by blast
    then show ?thesis using that(2) by (rule pipe_budgets)
  qed
  show "(\<exists>(i, k, l, on) \<in> set (budgetsOf g s kp). exceeded clk ?b0 i k l on) \<or> crowded ?b0 20"
    if "gd_Status (snd (PreCheck clk g s kp est st)) = 402" "\<not> leaseBlocks g s"
  proof -
    have d: "gd_Status ?d = 402" using that run by simp
    then have "\<not> gd_Allowed ?d" using v by (auto simp: govAllow_def)
    with v obtain n f Q R where "(n, f, Q, R) \<in> set ?ps" "R ?d" by auto
    then show ?thesis using pipe_denial d by blast
  qed
qed

section \<open>Settlement as a history of the budget store\<close>

definition settleOps ::
  "clock \<Rightarrow> Governor \<Rightarrow> Subject \<Rightarrow> TeamPolicy \<Rightarrow> KeyPolicy \<Rightarrow> int \<Rightarrow> (Window, budget_read) counter_op list" where
  "settleOps clk g s p kp cost =
     (let mw = monthWindow g; dw = dayWindow g;
          tbk = budget_key ScopeTeam (s_Team s) mw; kbk = budget_key ScopeKey (s_KeyID s) mw
      in (if tp_BudgetMicrosPerMonth p > 0
          then [CDebit (clk 2) tbk cost mw, CAux (ReadSpent (clk 3) tbk mw)] else [])
       @ (if tp_BudgetMicrosPerDay p > 0 then [CDebit (clk 4) (budget_key ScopeTeam (s_Team s) dw) cost dw] else [])
       @ (if kp_BudgetMicrosPerMonth kp > 0
          then [CDebit (clk 5) kbk cost mw] @ (if g_notifyKeyBudget g then [CAux (ReadSpent (clk 6) kbk mw)] else [])
          else [])
       @ (if kp_BudgetMicrosPerDay kp > 0 then [CDebit (clk 7) (budget_key ScopeKey (s_KeyID s) dw) cost dw] else [])
       @ (case userPolicyOf g s of None \<Rightarrow> []
          | Some up \<Rightarrow>
              (if up_BudgetMicrosPerMonth up > 0 then [CDebit (clk 8) (budget_key ScopeUser (userBudgetID s) mw) cost mw] else [])
              @ (if up_BudgetMicrosPerDay up > 0 then [CDebit (clk 9) (budget_key ScopeUser (userBudgetID s) dw) cost dw] else [])))"

lemma counter_run_append:
  "counter_run c d a (xs @ ys) s = counter_run c d a ys (counter_run c d a xs s)"
  by (induction xs arbitrary: s) simp_all

lemma settleBudgets_run:
  "fst (settleBudgets clk g s p kp cost b) = counter_run Check Debit budget_aux (settleOps clk g s p kp cost) b"
  by (simp add: settleBudgets_def settleOps_def debitStage_def Let_def counter_run_append case_prod_unfold
      split: option.split)

lemma windows_differ: "Tag (monthWindow g) \<noteq> Tag (dayWindow g)"
  by (simp add: Tag_def monthWindow_def dayWindow_def CalendarMonthIn_def CalendarDayIn_def)

lemma budget_keys_eq:
  assumes "scope \<in> {ScopeTeam, ScopeKey, ScopeUser}" and "scope' \<in> {ScopeTeam, ScopeKey, ScopeUser}"
    and "w \<in> {monthWindow g, dayWindow g}" and "w' \<in> {monthWindow g, dayWindow g}"
  shows "budget_key scope ident w = budget_key scope' ident' w' \<longleftrightarrow> scope = scope' \<and> ident = ident' \<and> w = w'"
  using budget_key_inj [OF assms(1,2), of ident w ident' w'] assms(3,4) windows_differ [of g] by auto

lemma scopes_distinct:
  "ScopeTeam \<noteq> ScopeKey" "ScopeTeam \<noteq> ScopeUser" "ScopeKey \<noteq> ScopeUser"
  "ScopeKey \<noteq> ScopeTeam" "ScopeUser \<noteq> ScopeTeam" "ScopeUser \<noteq> ScopeKey"
  by (simp_all add: ScopeTeam_def ScopeKey_def ScopeUser_def)

lemma windows_distinct: "monthWindow g \<noteq> dayWindow g" "dayWindow g \<noteq> monthWindow g"
  using windows_differ [of g] by auto

definition chargedKeys :: "Governor \<Rightarrow> Subject \<Rightarrow> KeyPolicy \<Rightarrow> string set" where
  "chargedKeys g s kp = {k. \<exists>i l on. (i, k, l, on) \<in> set (budgetsOf g s kp) \<and> 0 < l}"

lemma debits_append: "debits_to k (xs @ ys) = debits_to k xs + debits_to k ys"
  by (simp add: debits_to_def)

definition teamPolicyOrZero :: "Governor \<Rightarrow> Subject \<Rightarrow> TeamPolicy" where
  "teamPolicyOrZero g s = (case policyOf g (s_Team s) of None \<Rightarrow> zeroTeamPolicy | Some p \<Rightarrow> p)"

lemma settle_debits_sum:
  "debits_to k (settleOps clk g s (teamPolicyOrZero g s) kp cost) =
     (\<Sum>(i, key, l, on) \<leftarrow> budgetsOf g s kp. if key = k \<and> 0 < l then cost else 0)"
  by (cases "policyOf g (s_Team s)"; cases "userPolicyOf g s")
    (simp_all add: settleOps_def budgetsOf_def teamBudgets_def keyBudgets_def userBudgets_def budgetPair_def
      teamPolicyOrZero_def zeroTeamPolicy_def debits_to_def Let_def)

lemma budgets_distinct: "distinct (map (\<lambda>(i, k, l, on). k) (budgetsOf g s kp))"
  using scopes_distinct windows_distinct [of g]
  by (cases "policyOf g (s_Team s)"; cases "userPolicyOf g s")
    (simp_all add: budgetsOf_def teamBudgets_def keyBudgets_def userBudgets_def budgetPair_def budget_keys_eq [of _ _ _ g])

lemma sum_charged:
  assumes "distinct (map (\<lambda>(i, k, l, on). k) bs)"
  shows "(\<Sum>(i, key, l, on) \<leftarrow> bs. if key = k \<and> 0 < l then cost else (0::int)) =
    (if \<exists>i l on. (i, k, l, on) \<in> set bs \<and> 0 < (l::int) then cost else 0)"
  using assms
proof (induction bs)
  case Nil
  then show ?case by simp
next
  case (Cons x bs)
  obtain i key l on where x: "x = (i, key, l, on)" by (cases x) auto
  have "(i', key, l', on') \<notin> set bs" for i' l' on'
    using Cons.prems x by (force simp: image_iff)
  with Cons x show ?case by (cases "key = k") auto
qed

lemma settle_debits:
  "debits_to k (settleOps clk g s (teamPolicyOrZero g s) kp cost) = (if k \<in> chargedKeys g s kp then cost else 0)"
  unfolding settle_debits_sum sum_charged [OF budgets_distinct] by (simp add: chargedKeys_def)

lemma Settle_budget_store:
  "\<not> g_shared g \<Longrightarrow>
     bud_store (fst (Settle clk g s kp provider model u table est st)) =
       counter_run Check Debit budget_aux
         (settleOps clk g s (teamPolicyOrZero g s) kp (fst (snd (snd (Settle clk g s kp provider model u table est st)))))
         (bud_store st)"
  by (simp add: Settle_def Let_def case_prod_unfold settleBudgets_run teamPolicyOrZero_def)

lemma settleOps_times:
  "\<forall>i. clk i \<le> t \<Longrightarrow> \<forall>x \<in> set (settleOps clk g s p kp cost). op_time budget_aux_time x \<le> t"
  by (auto simp: settleOps_def Let_def split: option.splits)

section \<open>The limiter along Settle\<close>

lemma kept_bucket:
  assumes "Mapping.lookup (buckets m) key = Some b" and "\<not> bucket_reclaimable t b"
  shows "Mapping.lookup (buckets (DebitQuota t k amount w m)) key = Some b"
proof -
  have tick: "Mapping.lookup (buckets (lim_tickSweep t m)) key = Some b"
    using tick_lookup_bucket [OF assms(1), of t] assms(2) by auto
  have "Mapping.lookup (buckets (fst (admit t (lim_tickSweep t m)))) key = Some b"
    using tick assms(2) by (rule_tac admit_cases [of t "lim_tickSweep t m"]) (simp_all add: lookup_sweep)
  with tick show ?thesis
    by (auto simp: DebitQuota_def curWindow_def startWindow_def Let_def split: option.splits prod.splits bool.splits)
qed

lemma lookup_AdjustRate:
  "Mapping.lookup (buckets (AdjustRate key delta burst m)) k =
     (if k = key then map_option (\<lambda>b. b\<lparr>tokens := min (float_of_int burst) (fl (tokens b + float_of_int delta))\<rparr>)
        (Mapping.lookup (buckets m) k)
      else Mapping.lookup (buckets m) k)"
  by (auto simp: AdjustRate_def Let_def lookup_update' min_def split: option.splits)

lemma true_up_exact:
  assumes "\<bar>n\<bar> \<le> 2 ^ 53" and "\<bar>delta\<bar> \<le> 2 ^ 53" and "\<bar>n + delta\<bar> \<le> 2 ^ 53" and "\<bar>burst\<bar> \<le> 2 ^ 53"
  shows "min (float_of_int burst) (fl (of_int n + float_of_int delta)) = of_int (min burst (n + delta))"
  using assms ieee.rnd_int [of "n + delta"] by (simp add: float_exact of_int_min)

section \<open>Properties\<close>

text \<open>
  C38: A request that passes the check is within every blocking budget. When \<^verbatim>\<open>PreCheck\<close>
  allows a request, then for each of the six counters of its team, key and user, by month and
  by day, whose limit is set and whose knob is not warn, the spend its window shows at the
  moment of the check does not exceed the limit, whatever the rate and quota stages and
  the other counters did to the stores before.
\<close>

theorem precheck_admits_within_budget:
  assumes "mono clk" and "wf_store (bud_store st)" and "in64_spend (bud_store st)" and "\<not> g_shared g"
    and "gd_Allowed (snd (PreCheck clk g s kp est st))"
  shows "\<forall>(i, k, l, on) \<in> set (budgetsOf g s kp).
    0 < l \<and> on \<noteq> ''warn'' \<longrightarrow> spend_view (clk i) (bud_store st) k \<le> l"
  using precheck_verdict(1) [OF assms] by (force simp: exceeded_def)

definition demo_policy :: TeamPolicy where
  "demo_policy = zeroTeamPolicy\<lparr>tp_BudgetMicrosPerMonth := 100, tp_BudgetExceeded := ''block'', tp_TokensPerMinute := 1000\<rparr>"

definition demo_gov :: Governor where
  "demo_gov = \<lparr>g_shared = False, g_teams = Mapping.of_alist [(''acme'', demo_policy)], g_lookup = None,
     g_userLookup = None, g_leaseGate = None, g_notifyBudget = False, g_notifyKeyBudget = False, g_budgetLoc = None\<rparr>"

definition demo_subject :: Subject where
  "demo_subject = \<lparr>s_Team = ''acme'', s_KeyID = ''k1'', s_User = []\<rparr>"

definition demo_key :: KeyPolicy where
  "demo_key = \<lparr>kp_RatePerMin = 0, kp_TokensPerMinute = 0, kp_BudgetMicrosPerMonth = 50, kp_BudgetMicrosPerDay = 0\<rparr>"

definition demo_stores :: "int \<Rightarrow> Stores" where
  "demo_stores spent = \<lparr>lim_store = NewLimiter,
     bud_store = NewMemory\<lparr>bm := Mapping.of_alist [(''budget:month:team:acme'', \<lparr>win_spent = spent, win_end = 1000\<rparr>)]\<rparr>\<rparr>"

lemma demo_stores_ok: "wf_store (bud_store (demo_stores spent))" "in64 spent \<Longrightarrow> in64_spend (bud_store (demo_stores spent))"
  by (simp_all add: demo_stores_def wf_store_def NewMemory_def defaultMaxEntries_def size_card in64_spend_def
      Mapping.lookup_of_alist)

theorem precheck_admits_within_budget_witness:
  "gd_Allowed (snd (PreCheck (\<lambda>i. 10) demo_gov demo_subject demo_key 5 (demo_stores 80)))
   \<and> spend_view 10 (bud_store (demo_stores 80)) ''budget:month:team:acme'' \<le> 100"
proof -
  have ok: "gd_Allowed (snd (PreCheck (\<lambda>i. 10) demo_gov demo_subject demo_key 5 (demo_stores 80)))" by code_simp
  have b: "(3, ''budget:month:team:acme'', 100, ''block'') \<in> set (budgetsOf demo_gov demo_subject demo_key)"
    by code_simp
  have m: "mono (\<lambda>i. 10 :: gotime)" by (simp add: mono_def)
  have ns: "\<not> g_shared demo_gov" by (simp add: demo_gov_def)
  have "in64 80" by (simp add: in64_bounds)
  from precheck_admits_within_budget [OF m demo_stores_ok(1) demo_stores_ok(2) [OF this] ns ok] b ok show ?thesis
    by fastforce
qed

text \<open>
  A budget denial is never spurious: unless the lease gate blocked, a 402 means that some
  counter of the subject whose knob is not warn is over its limit, provided the store has
  room for the counters the check itself may create.
\<close>

lemma precheck_402_justified:
  assumes "mono clk" and "wf_store (bud_store st)" and "in64_spend (bud_store st)" and "\<not> g_shared g"
    and "\<not> leaseBlocks g s" and "int (Mapping.size (bm (bud_store st))) + 20 < maxEntries (bud_store st)"
    and "gd_Status (snd (PreCheck clk g s kp est st)) = 402"
  shows "\<exists>(i, k, l, on) \<in> set (budgetsOf g s kp).
    0 < l \<and> on \<noteq> ''warn'' \<and> l < spend_view (clk i) (bud_store st) k"
  using precheck_verdict(2) [OF assms(1-4,7,5)] assms(6) by (simp add: crowded_def exceeded_def)

text \<open>
  C39: Settlement charges each applicable counter exactly once and nothing else. A counter
  with a live window grows by exactly the cost of the request when it is one of the counters
  of the subject with a limit, and is unchanged otherwise; the six counters never coincide,
  whatever the names of the team, the key and the user are.
\<close>

theorem settle_charges_once:
  assumes "\<not> g_shared g" and "wf_store (bud_store st)" and "\<forall>i. clk i \<le> t"
    and "Settle clk g s kp provider model u table est st = (st', ns, cost, missing)"
    and "live t (bud_store st) k = Some v"
    and "in64 (win_spent v)" and "in64 (win_spent v + (if k \<in> chargedKeys g s kp then cost else 0))"
  shows "spend_view t (bud_store st') k = win_spent v + (if k \<in> chargedKeys g s kp then cost else 0)"
proof -
  let ?ops = "settleOps clk g s (teamPolicyOrZero g s) kp cost"
  have st': "bud_store st' = counter_run Check Debit budget_aux ?ops (bud_store st)"
    using Settle_budget_store [OF assms(1), of clk s kp provider model u table est st] assms(4) by simp
  have "budget_usage t (bud_store st) k = Some (wrap64 (win_spent v))"
    using assms(5,6) by (simp add: budget_usage_def wrap64_id)
  from money.run_usage [OF assms(2) settleOps_times [OF assms(3)] this]
  have "budget_usage t (bud_store st') k = Some (win_spent v + (if k \<in> chargedKeys g s kp then cost else 0))"
    using assms(7) by (simp add: st' settle_debits wrap64_id)
  then show ?thesis by (auto simp: budget_usage_def spend_view_def)
qed

definition demo_table :: Table where
  "demo_table = NewTable OnMissingBlock (Some (Mapping.of_alist
     [(mkKey ''p'' ''m'', \<lparr>InputPerMTok = 3000000, OutputPerMTok = 15000000, CacheReadPerMTok = 0,
        CacheWrite5mPerMTok = 0, CacheWrite1hPerMTok = 0\<rparr>)]))"

definition demo_usage :: Usage where
  "demo_usage = \<lparr>u_Input = 4, u_Output = 2, u_CacheRead = 1, u_CacheWrite5m = 0, u_CacheWrite1h = 0\<rparr>"

theorem settle_charges_once_witness:
  "spend_view 20 (bud_store (fst (Settle (\<lambda>i. 10) demo_gov demo_subject demo_key ''p'' ''m'' demo_usage
     (Some demo_table) 5 (demo_stores 80)))) ''budget:month:team:acme'' = 80 + 42"
proof -
  let ?r = "Settle (\<lambda>i. 10) demo_gov demo_subject demo_key ''p'' ''m'' demo_usage (Some demo_table) 5 (demo_stores 80)"
  have cost: "fst (snd (snd ?r)) = 42" by code_simp
  have r: "?r = (fst ?r, fst (snd ?r), 42, snd (snd (snd ?r)))" using cost by (metis prod.collapse)
  have v: "live 20 (bud_store (demo_stores 80)) ''budget:month:team:acme'' = Some \<lparr>win_spent = 80, win_end = 1000\<rparr>"
    by code_simp
  have "(3, ''budget:month:team:acme'', 100, ''block'') \<in> set (budgetsOf demo_gov demo_subject demo_key)"
    by code_simp
  then have c: "''budget:month:team:acme'' \<in> chargedKeys demo_gov demo_subject demo_key"
    by (force simp: chargedKeys_def)
  have ns: "\<not> g_shared demo_gov" by (simp add: demo_gov_def)
  from settle_charges_once [OF ns demo_stores_ok(1) _ r v] c show ?thesis by (simp add: in64_bounds)
qed

text \<open>
  The tokens-per-minute true-up is exact: when the bucket charged by the check is still
  there at settlement, its balance moves by exactly the estimate minus the tokens really
  used, capped at the burst and never floored, so an under-charge leaves a debt.
  The key bucket must not be the team bucket under another name.
\<close>

lemma settle_true_up:
  assumes "\<not> g_shared g" and "policyOf g (s_Team s) = Some p" and "0 < tp_TokensPerMinute p"
    and "''tpm:key:'' @ s_KeyID s \<noteq> ''tpm:'' @ s_Team s"
    and "Mapping.lookup (buckets (lim_store st)) (''tpm:'' @ s_Team s) = Some b"
    and "\<not> bucket_reclaimable (clk 0) b" and "tokens b = of_int n"
    and "sub64 est (actualTokens u) = delta"
    and "\<bar>n\<bar> \<le> 2 ^ 53" and "\<bar>delta\<bar> \<le> 2 ^ 53" and "\<bar>n + delta\<bar> \<le> 2 ^ 53" and "tp_TokensPerMinute p \<le> 2 ^ 53"
  shows "Mapping.lookup (buckets (lim_store (fst (Settle clk g s kp provider model u table est st)))) (''tpm:'' @ s_Team s)
    = Some (b\<lparr>tokens := of_int (min (tp_TokensPerMinute p) (n + delta))\<rparr>)"
proof -
  let ?m1 = "if tp_TokensPerDay p > 0 then DebitQuota (clk 0) (''quota:'' @ s_Team s) (actualTokens u) Day24h (lim_store st)
    else lim_store st"
  have m1: "Mapping.lookup (buckets ?m1) (''tpm:'' @ s_Team s) = Some b"
    using assms(5) kept_bucket [OF assms(5,6)] by simp
  have st': "lim_store (fst (Settle clk g s kp provider model u table est st))
      = settleLimiter clk s p kp (actualTokens u) est (lim_store st)"
    using assms(1,2) by (simp add: Settle_def Let_def case_prod_unfold)
  have "Mapping.lookup (buckets (settleLimiter clk s p kp (actualTokens u) est (lim_store st))) (''tpm:'' @ s_Team s)
      = Mapping.lookup (buckets (AdjustRate (''tpm:'' @ s_Team s) delta (tp_TokensPerMinute p) ?m1)) (''tpm:'' @ s_Team s)"
    using assms(3,4,8) unfolding settleLimiter_def Let_def
    by (auto simp: lookup_AdjustRate)
  with true_up_exact [OF assms(9-11), of "tp_TokensPerMinute p"] assms(3,7,12) m1 st' show ?thesis
    by (simp add: lookup_AdjustRate)
qed

text \<open>
  The pricing guard and the billing never disagree: with \<^verbatim>\<open>on_missing: block\<close> the guard
  allows a chain of targets exactly when every target would be billed at a rate, for any
  usage; a denied chain has a target that would have been billed zero.
\<close>

lemma pricing_guard_agrees:
  "gd_Allowed (PricingGuard (Some t) targets) \<longleftrightarrow>
     (onMissing t = OnMissingBlock \<longrightarrow>
        (\<forall>x \<in> set targets. \<forall>u. \<not> snd (CostUSDMicros t (pt_Provider x) (pt_Upstream x) u)))"
proof -
  have priced: "(\<forall>u. \<not> snd (CostUSDMicros t p m u)) \<longleftrightarrow> HasRate t p m" for p m
    by (simp add: CostUSDMicros_def HasRate_findRate Let_def split: option.split)
  have "gd_Allowed (guardTargets t targets) \<longleftrightarrow> (\<forall>x \<in> set targets. HasRate t (pt_Provider x) (pt_Upstream x))"
    by (induction targets) (simp_all add: govAllow_def govDeny_def)
  then show ?thesis by (auto simp: PricingGuard_def priced govAllow_def)
qed

section \<open>Limits of the contract\<close>

text \<open>
  Two behaviours the comments of the source do not announce. A team may legally be named
  like a key of another tenant, with a colon: the two then share one rate bucket. And a
  bucket that refilled and was swept before the settlement of a request it was charged for
  loses the true-up, so the sweep is observable through \<^verbatim>\<open>AdjustRate\<close>.
\<close>

lemma limiter_key_collision: "''rate:'' @ ''key:k1'' = ''rate:key:'' @ ''k1''"
  by simp

lemma sweep_forgives_debt:
  "let m = fst (AllowRate 0 ''tpm:acme'' 1 60 60 NewLimiter);
       later = 2000000000;
       kept = AdjustRate ''tpm:acme'' (- 600) 60 m;
       swept = AdjustRate ''tpm:acme'' (- 600) 60 (sweepReclaimable later m)
   in \<not> snd (AllowRate later ''tpm:acme'' 1 60 60 kept) \<and> snd (AllowRate later ''tpm:acme'' 1 60 60 swept)"
  by code_simp

end
