(* ===== verification/Journal.thy ===== *)
theory Journal
  imports Subjects
begin

text \<open>
  The journal of the node-local budget escrow, \<^verbatim>\<open>internal/authority/local\<close> (\<^verbatim>\<open>store.go\<close> and
  \<^verbatim>\<open>gc.go\<close>) with the wire types of \<^verbatim>\<open>internal/policy/authority.go\<close>: the data one SQLite row
  holds, the checked accounting, what decoding refuses, what a restart retires and what
  the collector drops.

  The pointers of the source live in exactly one map each, so a mutation through a pointer is
  an update of that map. Wire timestamps are instants: a response with a timestamp that is
  not in UTC is refused by the code before anything else. A nil receipt map is an
  empty one. The fingerprint of a grant (SHA-256 of its JSON) is a parameter \<open>fp\<close>.
\<close>

section \<open>Wire types\<close>

record AuthorityBudget =
  ab_Key :: string
  ab_Policy :: string
  ab_Rule :: string
  ab_Team :: string
  ab_User :: string
  ab_Revision :: string
  ab_WindowID :: string
  ab_WindowStart :: gotime
  ab_WindowEnd :: gotime
  ab_LimitMicroUSD :: int
  ab_GrantMicroUSD :: int
  ab_LeaseSeconds :: int
  ab_HardCap :: bool

record AuthorityGrantRequest =
  rw_RequestID :: string
  rw_Key :: string
  rw_Revision :: string
  rw_WindowID :: string
  rw_WantMicroUSD :: int

record AuthorityGrant =
  ag_ID :: string
  ag_RequestID :: string
  ag_Key :: string
  ag_Revision :: string
  ag_WindowID :: string
  ag_Amount :: int
  ag_ExpiresAt :: gotime

record AuthorityReport =
  ar_Instance :: string
  ar_GrantID :: string
  ar_RequestID :: string
  ar_Sequence :: int
  ar_Consumed :: int
  ar_Observed :: int
  ar_Closed :: bool
  ar_Overrun :: bool

record AuthorityMeter =
  am_Instance :: string
  am_Key :: string
  am_WindowID :: string
  am_Sequence :: int
  am_Consumed :: int
  am_Observed :: int

record AuthorityRequest =
  aq_Protocol :: string
  aq_Instance :: string
  aq_Requests :: "AuthorityGrantRequest list"
  aq_Reports :: "AuthorityReport list"
  aq_Meters :: "AuthorityMeter list"

record AuthorityAck =
  ak_Instance :: string
  ak_ID :: string
  ak_Sequence :: int

record AuthorityDenial =
  ad_RequestID :: string
  ad_Key :: string
  ad_Reason :: string

text \<open>The fields of a response the store reads; the policy bundle is checked by the syncer.\<close>

record AuthorityResponse =
  as_Protocol :: string
  as_ServerTime :: gotime
  as_Budgets :: "AuthorityBudget list"
  as_Grants :: "AuthorityGrant list"
  as_ReportAcks :: "AuthorityAck list"
  as_MeterAcks :: "AuthorityAck list"
  as_Denied :: "AuthorityDenial list"

definition AuthorityProtocol :: string where
  "AuthorityProtocol = ''escrow-v1''"

section \<open>Journal\<close>

datatype authority_error =
    ErrAuthorityUnavailable
  | ErrAuthorityExhausted
  | ErrAuthorityInvalid
  | ErrNonce

record grant =
  gr_Wire :: AuthorityGrant
  gr_Instance :: string
  gr_Consumed :: int
  gr_Observed :: int
  gr_Reserved :: int
  gr_Pending :: int
  gr_Closed :: bool
  gr_Overrun :: bool
  gr_Sequence :: int
  gr_Ack :: int
  gr_Sent :: int

record grantRequest =
  rq_Wire :: AuthorityGrantRequest
  rq_Budget :: AuthorityBudget
  rq_Instance :: string
  rq_Sent :: bool
  rq_GrantID :: string
  rq_Denied :: string
  rq_Obsolete :: bool
  rq_PendingReply :: bool

record permit =
  pm_Instance :: string
  pm_Bound :: int
  pm_Grants :: "string list"
  pm_Meters :: "string list"
  pm_Done :: bool
  pm_Complete :: bool
  pm_Actual :: "int option"
  pm_Retired :: bool
  pm_InvalidUsage :: bool

record meter =
  mt_Wire :: AuthorityMeter
  mt_Ack :: int
  mt_Sent :: int
  mt_WindowEnd :: gotime

record replayReceipt =
  rr_Instance :: string
  rr_Sequence :: int
  rr_GrantHash :: string

record journal =
  j_Version :: int
  j_Ready :: bool
  j_Poisoned :: bool
  j_ServerTime :: gotime
  j_Budgets :: "(string, AuthorityBudget) mapping"
  j_Grants :: "(string, grant) mapping"
  j_Requests :: "(string, grantRequest) mapping"
  j_Permits :: "(string, permit) mapping"
  j_Meters :: "(string, meter) mapping"
  j_RequestCursor :: string
  j_ReportCursor :: string
  j_MeterCursor :: string
  j_ObsoleteRequests :: "string list"
  j_Completed :: "string list"
  j_Receipts :: "(string, replayReceipt) mapping"
  j_ReceiptOrder :: "string list"

definition emptyJournal :: journal where
  "emptyJournal = \<lparr>j_Version = 1, j_Ready = False, j_Poisoned = False, j_ServerTime = 0,
     j_Budgets = Mapping.empty, j_Grants = Mapping.empty, j_Requests = Mapping.empty,
     j_Permits = Mapping.empty, j_Meters = Mapping.empty, j_RequestCursor = [], j_ReportCursor = [],
     j_MeterCursor = [], j_ObsoleteRequests = [], j_Completed = [], j_Receipts = Mapping.empty, j_ReceiptOrder = []\<rparr>"

section \<open>Accounting\<close>

text \<open>The difference is evaluated for a nonnegative \<open>b\<close> only, so it does not wrap.\<close>

definition add_checked :: "int \<Rightarrow> int \<Rightarrow> authority_error + int" where
  "add_checked a b =
     (if a < 0 \<or> b < 0 \<or> a > MaxInt64 - b then Inl ErrAuthorityInvalid else Inr (add64 a b))"

definition bump :: "int \<Rightarrow> authority_error + int" where
  "bump sequence = add_checked sequence 1"

interpretation acc: checked_accounting add_checked
  by unfold_locales (auto simp: add_checked_def add64_exact in64_bounds)

section \<open>Identifiers\<close>

text \<open>\<^verbatim>\<open>json.Marshal\<close> of a string: the quote, the backslash, the control characters and the HTML characters are escaped.\<close>

definition hexDigit :: "nat \<Rightarrow> char" where
  "hexDigit d = (if d < 10 then char_of (48 + d) else char_of (87 + d))"

definition jsonChar :: "char \<Rightarrow> string" where
  "jsonChar c =
     (let n = (of_char c :: nat)
      in if n = 34 then [char_of (92::nat), char_of (34::nat)]
         else if n = 92 then [char_of (92::nat), char_of (92::nat)]
         else if n = 10 then [char_of (92::nat), CHR ''n'']
         else if n = 13 then [char_of (92::nat), CHR ''r'']
         else if n = 9 then [char_of (92::nat), CHR ''t'']
         else if n = 8 then [char_of (92::nat), CHR ''b'']
         else if n = 12 then [char_of (92::nat), CHR ''f'']
         else if n < 32 \<or> n = 60 \<or> n = 62 \<or> n = 38
           then [char_of (92::nat), CHR ''u'', CHR ''0'', CHR ''0'', hexDigit (n div 16), hexDigit (n mod 16)]
         else [c])"

definition jsonString :: "string \<Rightarrow> string" where
  "jsonString s = [char_of (34::nat)] @ concat (map jsonChar s) @ [char_of (34::nat)]"

fun jsonArray :: "string list \<Rightarrow> string" where
  "jsonArray [] = []"
| "jsonArray [s] = jsonString s"
| "jsonArray (s # ss) = jsonString s @ '','' @ jsonArray ss"

definition meterID :: "string \<Rightarrow> string \<Rightarrow> string \<Rightarrow> string" where
  "meterID inst key window = ''['' @ jsonArray [inst, key, window] @ '']''"

definition reportReceiptID :: "string \<Rightarrow> string" where
  "reportReceiptID gid = ''grant:'' @ gid"

definition meterReceiptID :: "string \<Rightarrow> string \<Rightarrow> string" where
  "meterReceiptID inst window = ''meter:['' @ jsonArray [inst, window] @ '']''"

definition sameDefinition :: "AuthorityBudget \<Rightarrow> AuthorityBudget \<Rightarrow> bool" where
  "sameDefinition a b \<longleftrightarrow> ab_Key a = ab_Key b \<and> ab_Revision a = ab_Revision b \<and> ab_WindowID a = ab_WindowID b"

section \<open>What decoding refuses\<close>

definition grantOK :: "string \<Rightarrow> grant \<Rightarrow> bool" where
  "grantOK gid g \<longleftrightarrow> \<not> (ag_ID (gr_Wire g) \<noteq> gid \<or> ag_Amount (gr_Wire g) \<le> 0 \<or> gr_Consumed g < 0
     \<or> gr_Observed g < 0 \<or> gr_Reserved g < 0 \<or> gr_Pending g < 0 \<or> gr_Sequence g \<le> 0 \<or> gr_Ack g < 0
     \<or> gr_Ack g > gr_Sent g \<or> gr_Sent g > gr_Sequence g)"

definition meterOK :: "meter \<Rightarrow> bool" where
  "meterOK m \<longleftrightarrow> \<not> (am_Consumed (mt_Wire m) < 0 \<or> am_Observed (mt_Wire m) < 0 \<or> am_Sequence (mt_Wire m) \<le> 0
     \<or> mt_Ack m < 0 \<or> mt_Ack m > mt_Sent m \<or> mt_Sent m > am_Sequence (mt_Wire m))"

definition permitOK :: "journal \<Rightarrow> permit \<Rightarrow> bool" where
  "permitOK j p \<longleftrightarrow> \<not> pm_Bound p < 0
     \<and> (\<forall>gid \<in> set (pm_Grants p). Mapping.lookup (j_Grants j) gid \<noteq> None)
     \<and> (\<forall>mid \<in> set (pm_Meters p). Mapping.lookup (j_Meters j) mid \<noteq> None)"

definition all_entries :: "('k::linorder \<Rightarrow> 'v \<Rightarrow> bool) \<Rightarrow> ('k, 'v) mapping \<Rightarrow> bool" where
  "all_entries P m = list_all (\<lambda>k. case Mapping.lookup m k of None \<Rightarrow> True | Some v \<Rightarrow> P k v) (Mapping.ordered_keys m)"

text \<open>A stored journal is decoded into itself; \<^verbatim>\<open>decode\<close> then refuses a corrupt one.\<close>

definition decode :: "journal \<Rightarrow> authority_error + journal" where
  "decode j =
     (if j_Version j \<noteq> 1 \<or> \<not> all_entries grantOK (j_Grants j) \<or> \<not> all_entries (\<lambda>k. meterOK) (j_Meters j)
         \<or> \<not> all_entries (\<lambda>k. permitOK j) (j_Permits j)
      then Inl ErrAuthorityInvalid else Inr j)"

section \<open>Restart\<close>

definition retireMeter :: "int \<Rightarrow> string \<Rightarrow> journal \<Rightarrow> authority_error + journal" where
  "retireMeter bound mid j =
     (case Mapping.lookup (j_Meters j) mid of
        None \<Rightarrow> Inl ErrAuthorityInvalid
      | Some m \<Rightarrow>
          (case add_checked (am_Consumed (mt_Wire m)) bound of
             Inl e \<Rightarrow> Inl e
           | Inr c \<Rightarrow>
               (case bump (am_Sequence (mt_Wire m)) of
                  Inl e \<Rightarrow> Inl e
                | Inr sq \<Rightarrow>
                    Inr (j\<lparr>j_Meters := Mapping.update mid
                          (m\<lparr>mt_Wire := (mt_Wire m)\<lparr>am_Consumed := c, am_Sequence := sq\<rparr>\<rparr>) (j_Meters j)\<rparr>))))"

definition retirePermit :: "string \<Rightarrow> journal \<Rightarrow> authority_error + journal" where
  "retirePermit pid j =
     (case Mapping.lookup (j_Permits j) pid of
        None \<Rightarrow> Inr j
      | Some p \<Rightarrow>
          if pm_Done p then Inr j
          else
            (case foldE (retireMeter (pm_Bound p)) (pm_Meters p) j of
               Inl e \<Rightarrow> Inl e
             | Inr j' \<Rightarrow>
                 Inr (j'\<lparr>j_Permits := Mapping.update pid (p\<lparr>pm_Done := True, pm_Retired := True\<rparr>) (j_Permits j')\<rparr>)))"

definition burn :: "grant \<Rightarrow> authority_error + grant" where
  "burn g =
     (let c = (if gr_Consumed g < ag_Amount (gr_Wire g) then ag_Amount (gr_Wire g) else gr_Consumed g)
      in case bump (gr_Sequence g) of
           Inl e \<Rightarrow> Inl e
         | Inr sq \<Rightarrow> Inr (g\<lparr>gr_Consumed := c, gr_Closed := True, gr_Reserved := 0, gr_Pending := 0, gr_Sequence := sq\<rparr>))"

definition onGrant :: "(grant \<Rightarrow> authority_error + grant) \<Rightarrow> string \<Rightarrow> journal \<Rightarrow> authority_error + journal" where
  "onGrant f gid j =
     (case Mapping.lookup (j_Grants j) gid of
        None \<Rightarrow> Inl ErrAuthorityInvalid
      | Some g \<Rightarrow>
          (case f g of
             Inl e \<Rightarrow> Inl e
           | Inr g' \<Rightarrow> Inr (j\<lparr>j_Grants := Mapping.update gid g' (j_Grants j)\<rparr>)))"

definition retire :: "journal \<Rightarrow> authority_error + journal" where
  "retire j =
     (case foldE retirePermit (Mapping.ordered_keys (j_Permits j)) j of
        Inl e \<Rightarrow> Inl e
      | Inr j1 \<Rightarrow>
          (case foldE (onGrant burn) (Mapping.ordered_keys (j_Grants j1)) j1 of
             Inl e \<Rightarrow> Inl e
           | Inr j2 \<Rightarrow>
               Inr (j2\<lparr>j_Requests := Mapping.map_values (\<lambda>k r. r\<lparr>rq_Obsolete := True\<rparr>) (j_Requests j2)\<rparr>)))"

section \<open>Collection\<close>

definition completedReceiptLimit :: int where "completedReceiptLimit = 256"
definition replayReceiptLimit :: int where "replayReceiptLimit = 1024"
definition obsoleteRequestLimit :: int where "obsoleteRequestLimit = 1024"

fun trimReceipts :: "string list \<Rightarrow> (string, replayReceipt) mapping \<Rightarrow> string list \<times> (string, replayReceipt) mapping" where
  "trimReceipts [] rs = ([], rs)"
| "trimReceipts (x # xs) rs =
     (if int (length (x # xs)) > replayReceiptLimit then trimReceipts xs (Mapping.delete x rs) else (x # xs, rs))"

definition remember :: "string \<Rightarrow> replayReceipt \<Rightarrow> journal \<Rightarrow> journal" where
  "remember rid receipt j =
     (let order = (if Mapping.lookup (j_Receipts j) rid = None then j_ReceiptOrder j @ [rid] else j_ReceiptOrder j);
          rs = Mapping.update rid receipt (j_Receipts j)
      in case trimReceipts order rs of
           (order', rs') \<Rightarrow> j\<lparr>j_ReceiptOrder := order', j_Receipts := rs'\<rparr>)"

fun keepDone :: "(string, permit) mapping \<Rightarrow> string list \<Rightarrow> string list \<Rightarrow> string list" where
  "keepDone ps [] order = order"
| "keepDone ps (pid # pids) order =
     keepDone ps pids
       (if (case Mapping.lookup ps pid of None \<Rightarrow> False | Some p \<Rightarrow> pm_Done p) \<and> pid \<notin> set order
        then order @ [pid] else order)"

definition permitDone :: "journal \<Rightarrow> string \<Rightarrow> bool" where
  "permitDone j pid = (case Mapping.lookup (j_Permits j) pid of None \<Rightarrow> False | Some p \<Rightarrow> pm_Done p)"

definition pendingOf :: "(permit \<Rightarrow> string list) \<Rightarrow> journal \<Rightarrow> string list" where
  "pendingOf sel j = concat (map (\<lambda>pid. case Mapping.lookup (j_Permits j) pid of
     None \<Rightarrow> [] | Some p \<Rightarrow> if pm_Done p then [] else sel p) (Mapping.ordered_keys (j_Permits j)))"

definition dropHead :: "int \<Rightarrow> string list \<Rightarrow> string list \<times> string list" where
  "dropHead limit order =
     (let excess = int (length order) - limit
      in if excess > 0 then (take (nat excess) order, drop (nat excess) order) else ([], order))"

definition collectPermits :: "journal \<Rightarrow> journal" where
  "collectPermits j =
     (let seen = keepDone (j_Permits j) (j_Completed j) [];
          order = seen @ filter (\<lambda>pid. permitDone j pid \<and> pid \<notin> set seen) (Mapping.ordered_keys (j_Permits j));
          ps = Mapping.map_values (\<lambda>k p. if pm_Done p then p\<lparr>pm_Grants := [], pm_Meters := []\<rparr> else p) (j_Permits j)
      in case dropHead completedReceiptLimit order of
           (dropped, left) \<Rightarrow>
             j\<lparr>j_Permits := fold Mapping.delete dropped ps, j_Completed := left\<rparr>)"

definition collectGrant :: "(AuthorityGrant \<Rightarrow> string) \<Rightarrow> string list \<Rightarrow> string \<Rightarrow> journal \<Rightarrow> journal" where
  "collectGrant fp pending gid j =
     (case Mapping.lookup (j_Grants j) gid of
        None \<Rightarrow> j
      | Some g \<Rightarrow>
          if \<not> gr_Closed g \<or> gr_Pending g \<noteq> 0 \<or> gr_Reserved g \<noteq> 0 \<or> gr_Ack g \<noteq> gr_Sequence g \<or> gid \<in> set pending
          then j
          else
            (let j1 = remember (reportReceiptID gid)
                        \<lparr>rr_Instance = gr_Instance g, rr_Sequence = gr_Sequence g, rr_GrantHash = fp (gr_Wire g)\<rparr> j
             in j1\<lparr>j_Requests := Mapping.delete (ag_RequestID (gr_Wire g)) (j_Requests j1),
                   j_Grants := Mapping.delete gid (j_Grants j1)\<rparr>))"

definition collectMeter :: "string \<Rightarrow> string list \<Rightarrow> string \<Rightarrow> journal \<Rightarrow> journal" where
  "collectMeter inst pending mid j =
     (case Mapping.lookup (j_Meters j) mid of
        None \<Rightarrow> j
      | Some m \<Rightarrow>
          (let old = (am_Instance (mt_Wire m) \<noteq> inst
                 \<or> (mt_WindowEnd m \<noteq> 0 \<and> j_ServerTime j \<noteq> 0 \<and> \<not> j_ServerTime j < mt_WindowEnd m))
           in if old \<and> mid \<notin> set pending \<and> mt_Ack m = am_Sequence (mt_Wire m) then
                (let j1 = remember (meterReceiptID (am_Instance (mt_Wire m)) (am_WindowID (mt_Wire m)))
                       \<lparr>rr_Instance = am_Instance (mt_Wire m), rr_Sequence = am_Sequence (mt_Wire m), rr_GrantHash = []\<rparr> j
                 in j1\<lparr>j_Meters := Mapping.delete mid (j_Meters j1)\<rparr>)
              else j))"

definition requestExpired :: "journal \<Rightarrow> grantRequest \<Rightarrow> bool" where
  "requestExpired j r \<longleftrightarrow> j_ServerTime j \<noteq> 0 \<and> ab_WindowEnd (rq_Budget r) \<noteq> 0
     \<and> \<not> j_ServerTime j < ab_WindowEnd (rq_Budget r)"

definition requestSkipped :: "grantRequest \<Rightarrow> bool" where
  "requestSkipped r \<longleftrightarrow> \<not> rq_Obsolete r \<or> rq_GrantID r \<noteq> []"

definition requestDropped :: "journal \<Rightarrow> grantRequest \<Rightarrow> bool" where
  "requestDropped j r \<longleftrightarrow> \<not> requestSkipped r
     \<and> (\<not> rq_Sent r \<or> (rq_Denied r \<noteq> [] \<and> \<not> rq_PendingReply r) \<or> requestExpired j r)"

fun keepListed :: "string list \<Rightarrow> string list \<Rightarrow> string list \<times> string list" where
  "keepListed remaining [] = ([], remaining)"
| "keepListed remaining (rid # rids) =
     (if rid \<in> set remaining then
        (case keepListed (removeAll rid remaining) rids of (order, rest) \<Rightarrow> (rid # order, rest))
      else keepListed remaining rids)"

definition collectObsoleteRequests :: "journal \<Rightarrow> journal" where
  "collectObsoleteRequests j =
     (let rs = Mapping.filter (\<lambda>k r. \<not> requestDropped j r) (j_Requests j);
          remaining = filter (\<lambda>k. case Mapping.lookup rs k of None \<Rightarrow> False | Some r \<Rightarrow> \<not> requestSkipped r)
                        (Mapping.ordered_keys rs)
      in case keepListed remaining (j_ObsoleteRequests j) of
           (listed, rest) \<Rightarrow>
             (case dropHead obsoleteRequestLimit (listed @ rest) of
                (dropped, left) \<Rightarrow>
                  j\<lparr>j_Requests := fold Mapping.delete dropped rs, j_ObsoleteRequests := left\<rparr>))"

definition collect :: "(AuthorityGrant \<Rightarrow> string) \<Rightarrow> string \<Rightarrow> journal \<Rightarrow> journal" where
  "collect fp inst j =
     (let pg = pendingOf pm_Grants j; pm = pendingOf pm_Meters j;
          j1 = collectPermits j;
          j2 = fold (collectGrant fp pg) (Mapping.ordered_keys (j_Grants j1)) j1;
          j3 = fold (collectMeter inst pm) (Mapping.ordered_keys (j_Meters j2)) j2
      in collectObsoleteRequests j3)"

definition pruneDeadlines :: "journal \<Rightarrow> (string, gotime) mapping \<Rightarrow> (string, gotime) mapping" where
  "pruneDeadlines j ds =
     Mapping.filter (\<lambda>gid t. case Mapping.lookup (j_Grants j) gid of None \<Rightarrow> False | Some g \<Rightarrow> \<not> gr_Closed g) ds"

end
