(* ===== verification/Escrow.thy ===== *)
theory Escrow
  imports Journal
begin

text \<open>
  Admission against the node-local escrow, \<^verbatim>\<open>internal/authority/local/admission.go\<close> and the
  transactions of \<^verbatim>\<open>store.go\<close>: opening a journal (which fences the previous owner),
  \<^verbatim>\<open>Reserve\<close> and \<^verbatim>\<open>Finish\<close>.

  The store's mutex serializes its methods, and SQLite's immediate transactions serialize
  the processes that share a journal file: a method is one step on the pair of the store
  and the database row. What SQLite, the clock and the random source answer are arguments: a
  storage outcome per transaction, the readings of the clock, and the list of the nonces the
  random source will produce (an exhausted list is a failing source). The wake-up channel is
  not modelled.
\<close>

section \<open>State\<close>

record Store =
  st_instance :: string
  st_closed :: bool
  st_broken :: "authority_error option"
  st_deadlines :: "(string, gotime) mapping"
  st_windows :: "(string, gotime) mapping"

record Db =
  db_owner :: string
  db_state :: journal

record World =
  w_store :: Store
  w_db :: Db

record BudgetPermit =
  bp_ID :: string
  bp_BoundMicroUSD :: int
  bp_InvalidUsage :: bool

text \<open>
  How the storage answers a transaction: it works, or it fails before the journal was read or
  after the closure ran; a cancelled context does not mark the store broken.
\<close>

datatype storage = StorageOK | FailsEarly bool | FailsLate bool

section \<open>Transactions\<close>

definition storageError :: "bool \<Rightarrow> World \<Rightarrow> World \<times> (authority_error + 'r)" where
  "storageError cancelled w =
     (if cancelled then w else w\<lparr>w_store := (w_store w)\<lparr>st_broken := Some ErrAuthorityInvalid\<rparr>\<rparr>, Inl ErrAuthorityInvalid)"

definition transaction ::
  "(AuthorityGrant \<Rightarrow> string) \<Rightarrow> storage \<Rightarrow> (journal \<Rightarrow> authority_error + (journal \<times> 'r)) \<Rightarrow> World \<Rightarrow>
   World \<times> (authority_error + 'r)" where
  "transaction fp io fn w =
     (let s = w_store w; db = w_db w
      in if st_closed s then (w, Inl ErrAuthorityUnavailable)
         else case st_broken s of
           Some e \<Rightarrow> (w, Inl e)
         | None \<Rightarrow>
             (case io of
                FailsEarly c \<Rightarrow> storageError c w
              | _ \<Rightarrow>
                  if db_owner db \<noteq> st_instance s then (w, Inl ErrAuthorityUnavailable)
                  else
                    (case decode (db_state db) of
                       Inl e \<Rightarrow> (w\<lparr>w_store := s\<lparr>st_broken := Some e\<rparr>\<rparr>, Inl e)
                     | Inr j \<Rightarrow>
                         (case fn j of
                            Inl e \<Rightarrow> (w, Inl e)
                          | Inr (j', r) \<Rightarrow>
                              (case io of
                                 FailsLate c \<Rightarrow> storageError c w
                               | _ \<Rightarrow>
                                   (let j'' = collect fp (st_instance s) j'
                                    in (w\<lparr>w_db := db\<lparr>db_state := j''\<rparr>,
                                          w_store := s\<lparr>st_deadlines := pruneDeadlines j'' (st_deadlines s)\<rparr>\<rparr>,
                                        Inr r)))))))"

section \<open>Opening\<close>

definition initialize :: "(AuthorityGrant \<Rightarrow> string) \<Rightarrow> string \<Rightarrow> Db option \<Rightarrow> authority_error + Db" where
  "initialize fp inst db =
     (case (case db of
              None \<Rightarrow> Inr emptyJournal
            | Some d \<Rightarrow> (case decode (db_state d) of Inl e \<Rightarrow> Inl e | Inr j \<Rightarrow> retire j)) of
        Inl e \<Rightarrow> Inl e
      | Inr j \<Rightarrow>
          Inr \<lparr>db_owner = inst,
               db_state = collect fp inst (j\<lparr>j_Ready := False, j_ServerTime := 0, j_Budgets := Mapping.empty\<rparr>)\<rparr>)"

definition newStore :: "string \<Rightarrow> Store" where
  "newStore inst = \<lparr>st_instance = inst, st_closed = False, st_broken = None,
     st_deadlines = Mapping.empty, st_windows = Mapping.empty\<rparr>"

definition Open :: "(AuthorityGrant \<Rightarrow> string) \<Rightarrow> string \<Rightarrow> Db option \<Rightarrow> authority_error + World" where
  "Open fp inst db =
     (case initialize fp inst db of
        Inl e \<Rightarrow> Inl e | Inr d \<Rightarrow> Inr \<lparr>w_store = newStore inst, w_db = d\<rparr>)"

definition Close :: "World \<Rightarrow> World" where
  "Close w = w\<lparr>w_store := (w_store w)\<lparr>st_closed := True\<rparr>\<rparr>"

section \<open>Grants\<close>

definition budgetMatches :: "AuthorityBudget \<Rightarrow> Subject \<Rightarrow> bool" where
  "budgetMatches b s \<longleftrightarrow> (ab_Team b = [] \<or> ab_Team b = s_Team s) \<and> (ab_User b = [] \<or> ab_User b = s_User s)"

definition timeAt :: "(string, gotime) mapping \<Rightarrow> string \<Rightarrow> gotime" where
  "timeAt m k = (case Mapping.lookup m k of None \<Rightarrow> 0 | Some t \<Rightarrow> t)"

definition usable :: "Store \<Rightarrow> grant \<Rightarrow> AuthorityBudget \<Rightarrow> gotime \<Rightarrow> bool" where
  "usable s g b now \<longleftrightarrow> gr_Instance g = st_instance s \<and> \<not> gr_Closed g \<and> \<not> gr_Overrun g
     \<and> ag_Key (gr_Wire g) = ab_Key b \<and> ag_Revision (gr_Wire g) = ab_Revision b \<and> ag_WindowID (gr_Wire g) = ab_WindowID b
     \<and> gr_Consumed g \<le> ag_Amount (gr_Wire g) \<and> gr_Reserved g \<le> sub64 (ag_Amount (gr_Wire g)) (gr_Consumed g)
     \<and> now < timeAt (st_deadlines s) (ag_ID (gr_Wire g))"

definition closeGrant :: "grant \<Rightarrow> authority_error + grant" where
  "closeGrant g =
     (if gr_Closed g then Inr g
      else if gr_Pending g \<noteq> 0 \<or> gr_Reserved g \<noteq> 0 then Inl ErrAuthorityInvalid
      else (case bump (gr_Sequence g) of
              Inl e \<Rightarrow> Inl e | Inr sq \<Rightarrow> Inr (g\<lparr>gr_Closed := True, gr_Sequence := sq\<rparr>)))"

definition closeIfInactive :: "Store \<Rightarrow> gotime \<Rightarrow> (string, AuthorityBudget) mapping \<Rightarrow> grant \<Rightarrow> authority_error + grant" where
  "closeIfInactive s now budgets g =
     (if gr_Closed g \<or> gr_Pending g \<noteq> 0 then Inr g
      else (case Mapping.lookup budgets (ag_Key (gr_Wire g)) of
              None \<Rightarrow> closeGrant g
            | Some b \<Rightarrow> if \<not> ab_HardCap b \<or> \<not> usable s g b now then closeGrant g else Inr g))"

definition closeInactive :: "Store \<Rightarrow> gotime \<Rightarrow> journal \<Rightarrow> authority_error + journal" where
  "closeInactive s now j =
     foldE (onGrant (closeIfInactive s now (j_Budgets j))) (Mapping.ordered_keys (j_Grants j)) j"

section \<open>Wants\<close>

definition nonce :: "string list \<Rightarrow> authority_error + (string \<times> string list)" where
  "nonce ns = (case ns of [] \<Rightarrow> Inl ErrNonce | n # ns' \<Rightarrow> Inr (n, ns'))"

definition exhaustedDenial :: "string \<Rightarrow> bool" where
  "exhaustedDenial d \<longleftrightarrow> d = ''exhausted'' \<or> d = ''frozen_window''"

text \<open>The scan for a pending request to coalesce with: the new requests and whether the budget is exhausted.\<close>

fun queueScan ::
  "Store \<Rightarrow> AuthorityBudget \<Rightarrow> int \<Rightarrow> string list \<Rightarrow> (string, grantRequest) mapping \<Rightarrow>
   ((string, grantRequest) mapping \<times> bool) option" where
  "queueScan s b want [] rs = None"
| "queueScan s b want (rid # rids) rs =
     (case Mapping.lookup rs rid of
        None \<Rightarrow> queueScan s b want rids rs
      | Some r \<Rightarrow>
          if rq_Instance r \<noteq> st_instance s \<or> rq_Obsolete r \<or> rq_GrantID r \<noteq> [] \<or> \<not> sameDefinition (rq_Budget r) b
          then queueScan s b want rids rs
          else if rw_WantMicroUSD (rq_Wire r) \<ge> want then Some (rs, exhaustedDenial (rq_Denied r))
          else if \<not> rq_Sent r
            then Some (Mapping.update rid (r\<lparr>rq_Wire := (rq_Wire r)\<lparr>rw_WantMicroUSD := want\<rparr>\<rparr>) rs, False)
          else queueScan s b want rids rs)"

definition queue ::
  "Store \<Rightarrow> AuthorityBudget \<Rightarrow> int \<Rightarrow> string list \<Rightarrow> journal \<Rightarrow> authority_error + (journal \<times> string list \<times> bool)" where
  "queue s b bound ns j =
     (let want = max bound 1
      in case queueScan s b want (Mapping.ordered_keys (j_Requests j)) (j_Requests j) of
           Some (rs, exhausted) \<Rightarrow> Inr (j\<lparr>j_Requests := rs\<rparr>, ns, exhausted)
         | None \<Rightarrow>
             (case nonce ns of
                Inl e \<Rightarrow> Inl e
              | Inr (rid, ns') \<Rightarrow>
                  Inr (j\<lparr>j_Requests := Mapping.update rid
                     \<lparr>rq_Wire = \<lparr>rw_RequestID = rid, rw_Key = ab_Key b, rw_Revision = ab_Revision b,
                        rw_WindowID = ab_WindowID b, rw_WantMicroUSD = want\<rparr>,
                      rq_Budget = b, rq_Instance = st_instance s, rq_Sent = False, rq_GrantID = [], rq_Denied = [],
                      rq_Obsolete = False, rq_PendingReply = False\<rparr> (j_Requests j)\<rparr>, ns', False)))"

section \<open>Reserve\<close>

definition earlier :: "gotime \<Rightarrow> gotime \<Rightarrow> gotime" where
  "earlier a b = (if a = 0 \<or> b < a then b else a)"

fun pickGrant ::
  "Store \<Rightarrow> AuthorityBudget \<Rightarrow> gotime \<Rightarrow> int \<Rightarrow> string list \<Rightarrow> journal \<Rightarrow> authority_error + (journal \<times> string option)" where
  "pickGrant s b now bound [] j = Inr (j, None)"
| "pickGrant s b now bound (gid # gids) j =
     (case Mapping.lookup (j_Grants j) gid of
        None \<Rightarrow> pickGrant s b now bound gids j
      | Some g \<Rightarrow>
          if \<not> usable s g b now then pickGrant s b now bound gids j
          else
            (let available = sub64 (sub64 (ag_Amount (gr_Wire g)) (gr_Consumed g)) (gr_Reserved g)
             in if available > 0 \<and> available \<ge> bound then Inr (j, Some gid)
                else if gr_Pending g = 0 then
                  (case closeGrant g of
                     Inl e \<Rightarrow> Inl e
                   | Inr g' \<Rightarrow> pickGrant s b now bound gids (j\<lparr>j_Grants := Mapping.update gid g' (j_Grants j)\<rparr>))
                else pickGrant s b now bound gids j))"

record reserveAcc =
  ra_j :: journal
  ra_ns :: "string list"
  ra_chosen :: "string list"
  ra_soft :: "AuthorityBudget list"
  ra_denied :: "authority_error option"
  ra_expires :: gotime

definition reserveBudget ::
  "Store \<Rightarrow> Subject \<Rightarrow> int \<Rightarrow> gotime \<Rightarrow> string \<Rightarrow> reserveAcc \<Rightarrow> authority_error + reserveAcc" where
  "reserveBudget s subject bound now key a =
     (case Mapping.lookup (j_Budgets (ra_j a)) key of
        None \<Rightarrow> Inr a
      | Some b \<Rightarrow>
          if \<not> budgetMatches b subject then Inr a
          else
            (let a = a\<lparr>ra_expires := earlier (ra_expires a) (timeAt (st_windows s) key)\<rparr>
             in if \<not> now < timeAt (st_windows s) key then Inr (a\<lparr>ra_denied := Some ErrAuthorityUnavailable\<rparr>)
                else if \<not> ab_HardCap b then Inr (a\<lparr>ra_soft := ra_soft a @ [b]\<rparr>)
                else
                  (case pickGrant s b now bound (Mapping.ordered_keys (j_Grants (ra_j a))) (ra_j a) of
                     Inl e \<Rightarrow> Inl e
                   | Inr (j, Some gid) \<Rightarrow>
                       Inr (a\<lparr>ra_j := j, ra_chosen := ra_chosen a @ [gid],
                              ra_expires := earlier (ra_expires a) (timeAt (st_deadlines s) gid)\<rparr>)
                   | Inr (j, None) \<Rightarrow>
                       (case queue s b bound (ra_ns a) j of
                          Inl e \<Rightarrow> Inl e
                        | Inr (j', ns', exhausted) \<Rightarrow>
                            Inr (a\<lparr>ra_j := j', ra_ns := ns',
                                   ra_denied := (if exhausted then Some ErrAuthorityExhausted
                                                 else if ra_denied a = None then Some ErrAuthorityUnavailable
                                                 else ra_denied a)\<rparr>)))))"

definition reserveGrant :: "int \<Rightarrow> grant \<Rightarrow> authority_error + grant" where
  "reserveGrant bound g =
     (case add_checked (gr_Reserved g) bound of
        Inl e \<Rightarrow> Inl e
      | Inr r \<Rightarrow> (case bump (gr_Pending g) of Inl e \<Rightarrow> Inl e | Inr n \<Rightarrow> Inr (g\<lparr>gr_Reserved := r, gr_Pending := n\<rparr>)))"

definition addMeter :: "string \<Rightarrow> AuthorityBudget \<Rightarrow> (string, meter) mapping \<Rightarrow> (string, meter) mapping" where
  "addMeter inst b ms =
     (let mid = meterID inst (ab_Key b) (ab_WindowID b)
      in if Mapping.lookup ms mid = None then
           Mapping.update mid \<lparr>mt_Wire = \<lparr>am_Instance = inst, am_Key = ab_Key b, am_WindowID = ab_WindowID b,
               am_Sequence = 1, am_Consumed = 0, am_Observed = 0\<rparr>, mt_Ack = 0, mt_Sent = 0,
             mt_WindowEnd = ab_WindowEnd b\<rparr> ms
         else ms)"

definition issuePermit ::
  "Store \<Rightarrow> int \<Rightarrow> reserveAcc \<Rightarrow> authority_error + (journal \<times> BudgetPermit)" where
  "issuePermit s bound a =
     (case nonce (ra_ns a) of
        Inl e \<Rightarrow> Inl e
      | Inr (pid, _) \<Rightarrow>
          (case foldE (onGrant (reserveGrant bound)) (ra_chosen a) (ra_j a) of
             Inl e \<Rightarrow> Inl e
           | Inr j \<Rightarrow>
               (let p = \<lparr>pm_Instance = st_instance s, pm_Bound = bound, pm_Grants = ra_chosen a,
                         pm_Meters = map (\<lambda>b. meterID (st_instance s) (ab_Key b) (ab_WindowID b)) (ra_soft a),
                         pm_Done = False, pm_Complete = False, pm_Actual = None, pm_Retired = False, pm_InvalidUsage = False\<rparr>
                in Inr (j\<lparr>j_Meters := fold (addMeter (st_instance s)) (ra_soft a) (j_Meters j),
                          j_Permits := Mapping.update pid p (j_Permits j)\<rparr>,
                        \<lparr>bp_ID = pid, bp_BoundMicroUSD = bound, bp_InvalidUsage = False\<rparr>))))"

definition reserveBody ::
  "Store \<Rightarrow> Subject \<Rightarrow> int \<Rightarrow> gotime \<Rightarrow> string list \<Rightarrow> journal \<Rightarrow>
   authority_error + (journal \<times> (authority_error + BudgetPermit) \<times> gotime)" where
  "reserveBody s subject bound now ns j0 =
     (if j_Poisoned j0 then Inl ErrAuthorityInvalid
      else if \<not> j_Ready j0 then Inl ErrAuthorityUnavailable
      else
        (case closeInactive s now j0 of
           Inl e \<Rightarrow> Inl e
         | Inr j1 \<Rightarrow>
             (case foldE (reserveBudget s subject bound now) (Mapping.ordered_keys (j_Budgets j1))
                     \<lparr>ra_j = j1, ra_ns = ns, ra_chosen = [], ra_soft = [], ra_denied = None, ra_expires = 0\<rparr> of
                Inl e \<Rightarrow> Inl e
              | Inr a \<Rightarrow>
                  (case ra_denied a of
                     Some d \<Rightarrow> Inr (ra_j a, Inl d, ra_expires a)
                   | None \<Rightarrow>
                       (case issuePermit s bound a of
                          Inl e \<Rightarrow> Inl e
                        | Inr (j, p) \<Rightarrow> Inr (j, Inr p, ra_expires a))))))"

definition releaseGrant :: "int \<Rightarrow> grant \<Rightarrow> authority_error + grant" where
  "releaseGrant bound g =
     (if gr_Pending g \<le> 0 \<or> gr_Reserved g < bound \<or> gr_Closed g then Inl ErrAuthorityInvalid
      else Inr (g\<lparr>gr_Pending := sub64 (gr_Pending g) 1, gr_Reserved := sub64 (gr_Reserved g) bound\<rparr>))"

definition undoBody :: "Store \<Rightarrow> string \<Rightarrow> gotime \<Rightarrow> journal \<Rightarrow> authority_error + (journal \<times> unit)" where
  "undoBody s pid now j =
     (case Mapping.lookup (j_Permits j) pid of
        None \<Rightarrow> Inl ErrAuthorityInvalid
      | Some p \<Rightarrow>
          if pm_Done p then Inl ErrAuthorityInvalid
          else
            (case foldE (onGrant (releaseGrant (pm_Bound p))) (pm_Grants p) j of
               Inl e \<Rightarrow> Inl e
             | Inr j1 \<Rightarrow>
                 (case closeInactive s now (j1\<lparr>j_Permits := Mapping.update pid
                         (p\<lparr>pm_Done := True, pm_Complete := True, pm_Actual := Some 0\<rparr>) (j_Permits j1)\<rparr>) of
                    Inl e \<Rightarrow> Inl e
                  | Inr j2 \<Rightarrow> Inr (j2, ()))))"

text \<open>The readings of the clock: at admission, after the commit, and while undoing an expired reservation.\<close>

definition Reserve ::
  "(AuthorityGrant \<Rightarrow> string) \<Rightarrow> storage \<times> storage \<Rightarrow> gotime \<times> gotime \<times> gotime \<Rightarrow> string list \<Rightarrow> Subject \<Rightarrow> int \<Rightarrow>
   World \<Rightarrow> World \<times> (authority_error + BudgetPermit)" where
  "Reserve fp io clk ns subject bound w =
     (case (io, clk) of ((io1, io2), (now, now2, now3)) \<Rightarrow>
        if bound < 0 \<or> s_Team subject = [] then (w, Inl ErrAuthorityInvalid)
        else
          (case transaction fp io1 (reserveBody (w_store w) subject bound now ns) w of
             (w1, Inl e) \<Rightarrow> (w1, Inl e)
           | (w1, Inr (Inl denied, _)) \<Rightarrow> (w1, Inl denied)
           | (w1, Inr (Inr p, expires)) \<Rightarrow>
               if expires \<noteq> 0 \<and> \<not> now2 < expires then
                 (case transaction fp io2 (undoBody (w_store w1) (bp_ID p) now3) w1 of
                    (w2, Inl e) \<Rightarrow> (w2, Inl e)
                  | (w2, Inr _) \<Rightarrow> (w2, Inl ErrAuthorityUnavailable))
               else (w1, Inr p)))"

section \<open>Finish\<close>

text \<open>The amounts of a settlement: what is consumed from every grant, and what was observed.\<close>

definition settledAmounts :: "int \<Rightarrow> int option \<Rightarrow> bool \<Rightarrow> int \<times> int" where
  "settledAmounts bound actual complete =
     (case actual of
        None \<Rightarrow> (bound, 0)
      | Some a \<Rightarrow> (if complete \<or> a > bound then a else bound, a))"

definition settleFits :: "int \<Rightarrow> int \<Rightarrow> int \<Rightarrow> int \<Rightarrow> int \<Rightarrow> authority_error option" where
  "settleFits consumed observed consumedBefore observedBefore sequence =
     (case add_checked consumedBefore consumed of
        Inl e \<Rightarrow> Some e
      | Inr _ \<Rightarrow>
          (case add_checked observedBefore observed of
             Inl e \<Rightarrow> Some e
           | Inr _ \<Rightarrow> (case add_checked sequence 1 of Inl e \<Rightarrow> Some e | Inr _ \<Rightarrow> None)))"

datatype settle_check = SettleOK | SettleInvalid authority_error | SettlePoison authority_error

fun checkGrants :: "int \<Rightarrow> int \<Rightarrow> int \<Rightarrow> journal \<Rightarrow> string list \<Rightarrow> settle_check" where
  "checkGrants bound consumed observed j [] = SettleOK"
| "checkGrants bound consumed observed j (gid # gids) =
     (case Mapping.lookup (j_Grants j) gid of
        None \<Rightarrow> SettleInvalid ErrAuthorityInvalid
      | Some g \<Rightarrow>
          if gr_Closed g \<or> gr_Pending g \<le> 0 \<or> gr_Reserved g < bound then SettleInvalid ErrAuthorityInvalid
          else (case settleFits consumed observed (gr_Consumed g) (gr_Observed g) (gr_Sequence g) of
                  Some e \<Rightarrow> SettlePoison e
                | None \<Rightarrow> checkGrants bound consumed observed j gids))"

fun checkMeters :: "int \<Rightarrow> int \<Rightarrow> journal \<Rightarrow> string list \<Rightarrow> settle_check" where
  "checkMeters consumed observed j [] = SettleOK"
| "checkMeters consumed observed j (mid # mids) =
     (case Mapping.lookup (j_Meters j) mid of
        None \<Rightarrow> SettleInvalid ErrAuthorityInvalid
      | Some m \<Rightarrow>
          (case settleFits consumed observed (am_Consumed (mt_Wire m)) (am_Observed (mt_Wire m)) (am_Sequence (mt_Wire m)) of
             Some e \<Rightarrow> SettlePoison e
           | None \<Rightarrow> checkMeters consumed observed j mids))"

definition settleGrant :: "int \<Rightarrow> int \<Rightarrow> int \<Rightarrow> bool \<Rightarrow> grant \<Rightarrow> authority_error + grant" where
  "settleGrant bound consumed observed overrun g =
     (let over = (gr_Overrun g \<or> overrun); n = sub64 (gr_Pending g) 1
      in Inr (g\<lparr>gr_Consumed := add64 (gr_Consumed g) consumed, gr_Observed := add64 (gr_Observed g) observed,
               gr_Reserved := sub64 (gr_Reserved g) bound, gr_Pending := n, gr_Overrun := over,
               gr_Closed := (if over \<and> n = 0 then True else gr_Closed g),
               gr_Sequence := add64 (gr_Sequence g) 1\<rparr>))"

definition settleMeter :: "int \<Rightarrow> int \<Rightarrow> string \<Rightarrow> journal \<Rightarrow> journal" where
  "settleMeter consumed observed mid j =
     j\<lparr>j_Meters := Mapping.map_entry mid
        (\<lambda>m. m\<lparr>mt_Wire := (mt_Wire m)\<lparr>am_Consumed := add64 (am_Consumed (mt_Wire m)) consumed,
                 am_Observed := add64 (am_Observed (mt_Wire m)) observed,
                 am_Sequence := add64 (am_Sequence (mt_Wire m)) 1\<rparr>\<rparr>) (j_Meters j)\<rparr>"

definition poisonJournal :: "string \<Rightarrow> permit \<Rightarrow> bool \<Rightarrow> int option \<Rightarrow> journal \<Rightarrow> journal" where
  "poisonJournal pid p invalidUsage actual j =
     j\<lparr>j_Poisoned := True,
       j_Permits := Mapping.update pid
         (p\<lparr>pm_Retired := True, pm_InvalidUsage := invalidUsage,
            pm_Actual := (case actual of None \<Rightarrow> pm_Actual p | Some a \<Rightarrow> Some a)\<rparr>) (j_Permits j),
       j_Grants := (if invalidUsage
          then fold (\<lambda>gid gs. Mapping.map_entry gid (\<lambda>g. g\<lparr>gr_Overrun := True\<rparr>) gs) (pm_Grants p) (j_Grants j)
          else j_Grants j)\<rparr>"

definition finishBody ::
  "Store \<Rightarrow> BudgetPermit \<Rightarrow> int option \<Rightarrow> bool \<Rightarrow> gotime \<Rightarrow> journal \<Rightarrow> authority_error + (journal \<times> authority_error option)" where
  "finishBody s auth actual complete now j =
     (case Mapping.lookup (j_Permits j) (bp_ID auth) of
        None \<Rightarrow> Inl ErrAuthorityInvalid
      | Some p \<Rightarrow>
          if pm_Bound p \<noteq> bp_BoundMicroUSD auth \<or> pm_Retired p then Inl ErrAuthorityInvalid
          else if pm_Done p then
            (if pm_Complete p \<noteq> complete \<or> pm_InvalidUsage p \<noteq> bp_InvalidUsage auth \<or> pm_Actual p \<noteq> actual
             then Inl ErrAuthorityInvalid else Inr (j, None))
          else if pm_Instance p \<noteq> st_instance s then Inl ErrAuthorityInvalid
          else
            (case settledAmounts (pm_Bound p) actual complete of
               (consumed, observed) \<Rightarrow>
                 (let overrun = (bp_InvalidUsage auth \<or> observed > pm_Bound p);
                      verdict = (case checkGrants (pm_Bound p) consumed observed j (pm_Grants p) of
                                   SettleOK \<Rightarrow> checkMeters consumed observed j (pm_Meters p)
                                 | v \<Rightarrow> v)
                  in case verdict of
                       SettleInvalid e \<Rightarrow> Inl e
                     | SettlePoison e \<Rightarrow>
                         Inr (poisonJournal (bp_ID auth) p (bp_InvalidUsage auth) actual j, Some e)
                     | SettleOK \<Rightarrow>
                         (case foldE (onGrant (settleGrant (pm_Bound p) consumed observed overrun)) (pm_Grants p) j of
                            Inl e \<Rightarrow> Inl e
                          | Inr j1 \<Rightarrow>
                              (let j2 = fold (settleMeter consumed observed) (pm_Meters p) j1;
                                   p' = p\<lparr>pm_Done := True, pm_Complete := complete, pm_InvalidUsage := bp_InvalidUsage auth,
                                          pm_Actual := (case actual of None \<Rightarrow> pm_Actual p | Some a \<Rightarrow> Some a)\<rparr>;
                                   j3 = j2\<lparr>j_Permits := Mapping.update (bp_ID auth) p' (j_Permits j2),
                                           j_Poisoned := (j_Poisoned j2 \<or> overrun)\<rparr>
                               in case closeInactive s now j3 of
                                    Inl e \<Rightarrow> Inl e
                                  | Inr j4 \<Rightarrow> Inr (j4, None))))))"

definition Finish ::
  "(AuthorityGrant \<Rightarrow> string) \<Rightarrow> storage \<Rightarrow> gotime \<Rightarrow> BudgetPermit option \<Rightarrow> int option \<Rightarrow> bool \<Rightarrow> World \<Rightarrow>
   World \<times> authority_error option" where
  "Finish fp io now authorization actual complete w =
     (case authorization of
        None \<Rightarrow> (w, Some ErrAuthorityInvalid)
      | Some auth \<Rightarrow>
          if bp_ID auth = [] \<or> bp_BoundMicroUSD auth < 0 \<or> (case actual of None \<Rightarrow> False | Some a \<Rightarrow> a < 0)
          then (w, Some ErrAuthorityInvalid)
          else
            (let complete' = (if bp_InvalidUsage auth then False else complete)
             in case transaction fp io (finishBody (w_store w) auth actual complete' now) w of
                  (w', Inl e) \<Rightarrow> (w', Some e)
                | (w', Inr settlementErr) \<Rightarrow> (w', settlementErr)))"

end
