(* ===== verification/EscrowSync.thy ===== *)
theory EscrowSync
  imports Escrow
begin

text \<open>
  Synchronization of the escrow with the authority, \<^verbatim>\<open>internal/authority/local/sync.go\<close>:
  \<^verbatim>\<open>Request\<close> snapshots the wants, the reports and the meters, \<^verbatim>\<open>Apply\<close> validates a
  response and commits it atomically.
\<close>

section \<open>Request\<close>

definition perStream :: int where "perStream = 1024 div 3"

definition rotatingKeys :: "(string, 'v) mapping \<Rightarrow> string \<Rightarrow> string list" where
  "rotatingKeys values cursor =
     (let keys = Mapping.ordered_keys values
      in dropWhile (\<lambda>k. \<not> k > cursor) keys @ takeWhile (\<lambda>k. \<not> k > cursor) keys)"

definition requestStep ::
  "Store \<Rightarrow> string \<Rightarrow> journal \<times> AuthorityGrantRequest list \<Rightarrow> journal \<times> AuthorityGrantRequest list" where
  "requestStep s rid st =
     (case st of (j, out) \<Rightarrow>
        if int (length out) = perStream then st
        else
          (case Mapping.lookup (j_Requests j) rid of
             None \<Rightarrow> st
           | Some r \<Rightarrow>
               (case Mapping.lookup (j_Budgets j) (rw_Key (rq_Wire r)) of
                  None \<Rightarrow> st
                | Some b \<Rightarrow>
                    if rq_Instance r \<noteq> st_instance s \<or> rq_Obsolete r \<or> rq_GrantID r \<noteq> [] \<or> \<not> sameDefinition (rq_Budget r) b
                    then st
                    else (j\<lparr>j_Requests := Mapping.update rid (r\<lparr>rq_Sent := True, rq_PendingReply := True\<rparr>) (j_Requests j),
                            j_RequestCursor := rid\<rparr>, out @ [rq_Wire r]))))"

definition reportStep :: "string \<Rightarrow> journal \<times> AuthorityReport list \<Rightarrow> journal \<times> AuthorityReport list" where
  "reportStep gid st =
     (case st of (j, out) \<Rightarrow>
        if int (length out) = perStream then st
        else
          (case Mapping.lookup (j_Grants j) gid of
             None \<Rightarrow> st
           | Some g \<Rightarrow>
               if gr_Ack g = gr_Sequence g \<or> (gr_Overrun g \<and> \<not> gr_Closed g) then st
               else (j\<lparr>j_Grants := Mapping.update gid (g\<lparr>gr_Sent := gr_Sequence g\<rparr>) (j_Grants j), j_ReportCursor := gid\<rparr>,
                     out @ [\<lparr>ar_Instance = gr_Instance g, ar_GrantID = ag_ID (gr_Wire g), ar_RequestID = ag_RequestID (gr_Wire g),
                             ar_Sequence = gr_Sequence g, ar_Consumed = gr_Consumed g, ar_Observed = gr_Observed g,
                             ar_Closed = gr_Closed g, ar_Overrun = gr_Overrun g\<rparr>])))"

definition meterStep :: "string \<Rightarrow> journal \<times> AuthorityMeter list \<Rightarrow> journal \<times> AuthorityMeter list" where
  "meterStep mid st =
     (case st of (j, out) \<Rightarrow>
        if int (length out) = perStream then st
        else
          (case Mapping.lookup (j_Meters j) mid of
             None \<Rightarrow> st
           | Some m \<Rightarrow>
               if mt_Ack m = am_Sequence (mt_Wire m) then st
               else (j\<lparr>j_Meters := Mapping.update mid (m\<lparr>mt_Sent := am_Sequence (mt_Wire m)\<rparr>) (j_Meters j), j_MeterCursor := mid\<rparr>,
                     out @ [mt_Wire m])))"

definition requestBody :: "Store \<Rightarrow> gotime \<Rightarrow> journal \<Rightarrow> authority_error + (journal \<times> AuthorityRequest)" where
  "requestBody s now j0 =
     (case closeInactive s now j0 of
        Inl e \<Rightarrow> Inl e
      | Inr j1 \<Rightarrow>
          (case fold (requestStep s) (rotatingKeys (j_Requests j1) (j_RequestCursor j1)) (j1, []) of
             (j2, reqs) \<Rightarrow>
               (case fold reportStep (rotatingKeys (j_Grants j2) (j_ReportCursor j2)) (j2, []) of
                  (j3, reports) \<Rightarrow>
                    (case fold meterStep (rotatingKeys (j_Meters j3) (j_MeterCursor j3)) (j3, []) of
                       (j4, meters) \<Rightarrow>
                         Inr (j4, \<lparr>aq_Protocol = AuthorityProtocol, aq_Instance = st_instance s,
                                   aq_Requests = reqs, aq_Reports = reports, aq_Meters = meters\<rparr>)))))"

definition Request ::
  "(AuthorityGrant \<Rightarrow> string) \<Rightarrow> storage \<Rightarrow> gotime \<Rightarrow> World \<Rightarrow> World \<times> (authority_error + AuthorityRequest)" where
  "Request fp io now w = transaction fp io (requestBody (w_store w) now) w"

section \<open>Validation\<close>

definition utcTime :: "gotime \<Rightarrow> bool" where
  "utcTime t \<longleftrightarrow> t \<noteq> 0"

definition validString :: "string \<Rightarrow> bool" where
  "validString s \<longleftrightarrow> s \<noteq> [] \<and> int (length s) \<le> 4096
     \<and> \<not> (\<exists>c \<in> set s. c = char_of (0::nat) \<or> c = char_of (13::nat) \<or> c = char_of (10::nat))"

definition optionalString :: "string \<Rightarrow> bool" where
  "optionalString s \<longleftrightarrow> s = [] \<or> validString s"

definition budgetInvalid :: "gotime \<Rightarrow> AuthorityBudget \<Rightarrow> bool" where
  "budgetInvalid serverTime b \<longleftrightarrow> \<not> validString (ab_Key b) \<or> \<not> validString (ab_Policy b) \<or> \<not> validString (ab_Rule b)
     \<or> \<not> validString (ab_Revision b) \<or> \<not> validString (ab_WindowID b) \<or> (ab_Team b = [] \<and> ab_User b = [])
     \<or> \<not> optionalString (ab_Team b) \<or> \<not> optionalString (ab_User b) \<or> ab_LimitMicroUSD b < 0 \<or> ab_GrantMicroUSD b < 0
     \<or> ab_LeaseSeconds b \<le> 0 \<or> ab_LeaseSeconds b > MaxInt64 div Second \<or> (ab_HardCap b \<and> ab_GrantMicroUSD b = 0)
     \<or> \<not> utcTime (ab_WindowStart b) \<or> \<not> utcTime (ab_WindowEnd b) \<or> \<not> ab_WindowStart b < ab_WindowEnd b
     \<or> serverTime < ab_WindowStart b \<or> \<not> serverTime < ab_WindowEnd b"

fun validateBudgetsFrom ::
  "gotime \<Rightarrow> AuthorityBudget list \<Rightarrow> string list \<Rightarrow> (string, AuthorityBudget) mapping \<Rightarrow>
   authority_error + (string, AuthorityBudget) mapping" where
  "validateBudgetsFrom serverTime [] windows res = Inr res"
| "validateBudgetsFrom serverTime (b # bs) windows res =
     (if Mapping.lookup res (ab_Key b) \<noteq> None \<or> ab_WindowID b \<in> set windows \<or> budgetInvalid serverTime b
      then Inl ErrAuthorityInvalid
      else validateBudgetsFrom serverTime bs (ab_WindowID b # windows) (Mapping.update (ab_Key b) b res))"

definition validateBudgets :: "AuthorityResponse \<Rightarrow> authority_error + (string, AuthorityBudget) mapping" where
  "validateBudgets r = validateBudgetsFrom (as_ServerTime r) (as_Budgets r) [] Mapping.empty"

definition validateGrant :: "AuthorityGrant \<Rightarrow> grantRequest option \<Rightarrow> gotime \<Rightarrow> bool" where
  "validateGrant g ro serverTime =
     (case ro of
        None \<Rightarrow> False
      | Some r \<Rightarrow>
          \<not> (\<not> rq_Sent r \<or> \<not> ab_HardCap (rq_Budget r) \<or> \<not> validString (ag_ID g)
             \<or> ag_RequestID g \<noteq> rw_RequestID (rq_Wire r) \<or> ag_Key g \<noteq> rw_Key (rq_Wire r)
             \<or> ag_Revision g \<noteq> rw_Revision (rq_Wire r) \<or> ag_WindowID g \<noteq> rw_WindowID (rq_Wire r)
             \<or> ag_Amount g < rw_WantMicroUSD (rq_Wire r) \<or> ag_Amount g \<le> 0
             \<or> ag_Amount g > max (ab_GrantMicroUSD (rq_Budget r)) (rw_WantMicroUSD (rq_Wire r))
             \<or> ag_Amount g > ab_LimitMicroUSD (rq_Budget r) \<or> \<not> utcTime (ag_ExpiresAt g)
             \<or> \<not> ag_ExpiresAt g > ab_WindowStart (rq_Budget r)
             \<or> ag_ExpiresAt g > time_add serverTime (mul64 (ab_LeaseSeconds (rq_Budget r)) Second)))"

definition deadline :: "gotime \<Rightarrow> gotime \<Rightarrow> gotime \<Rightarrow> duration \<Rightarrow> gotime" where
  "deadline now serverTime expiry rtt =
     (let remaining = time_sub expiry serverTime
      in if remaining \<le> 0 \<or> rtt \<ge> remaining then now else time_add now (sub64 remaining rtt))"

definition equalBudgets :: "(string, AuthorityBudget) mapping \<Rightarrow> (string, AuthorityBudget) mapping \<Rightarrow> bool" where
  "equalBudgets a b \<longleftrightarrow> Mapping.size a = Mapping.size b \<and> all_entries (\<lambda>k x. Mapping.lookup b k = Some x) a"

section \<open>Apply\<close>

record applyAcc =
  aa_j :: journal
  aa_deadlines :: "(string, gotime) mapping"
  aa_seen :: "string list"
  aa_ids :: "string list"

definition newGrant ::
  "Store \<Rightarrow> bool \<Rightarrow> gotime \<Rightarrow> gotime \<Rightarrow> duration \<Rightarrow> AuthorityGrant \<Rightarrow> grantRequest \<Rightarrow> applyAcc \<Rightarrow> applyAcc" where
  "newGrant s stale received serverTime rtt wire r a =
     (let j = aa_j a;
          g0 = \<lparr>gr_Wire = wire, gr_Instance = rq_Instance r, gr_Consumed = 0, gr_Observed = 0, gr_Reserved = 0,
                gr_Pending = 0, gr_Closed = False, gr_Overrun = False, gr_Sequence = 1, gr_Ack = 0, gr_Sent = 0\<rparr>;
          expiry = (if ag_ExpiresAt wire > ab_WindowEnd (rq_Budget r) then ab_WindowEnd (rq_Budget r) else ag_ExpiresAt wire);
          until = deadline received serverTime expiry rtt;
          dead = (stale \<or> rq_Obsolete r
            \<or> (case Mapping.lookup (j_Budgets j) (ag_Key wire) of
                 None \<Rightarrow> True | Some b \<Rightarrow> \<not> ab_HardCap b \<or> \<not> sameDefinition (rq_Budget r) b)
            \<or> \<not> received < until);
          g = (if rq_Instance r \<noteq> st_instance s then g0\<lparr>gr_Consumed := ag_Amount wire, gr_Closed := True\<rparr>
               else if dead then g0\<lparr>gr_Closed := True\<rparr> else g0);
          ds = (if rq_Instance r \<noteq> st_instance s \<or> dead then aa_deadlines a
                else Mapping.update (ag_ID wire) until (aa_deadlines a))
      in a\<lparr>aa_j := j\<lparr>j_Grants := Mapping.update (ag_ID wire) g (j_Grants j),
                      j_Requests := Mapping.update (ag_RequestID wire)
                        (r\<lparr>rq_GrantID := ag_ID wire, rq_Denied := [], rq_PendingReply := False\<rparr>) (j_Requests j)\<rparr>,
            aa_deadlines := ds\<rparr>)"

definition applyGrant ::
  "(AuthorityGrant \<Rightarrow> string) \<Rightarrow> Store \<Rightarrow> bool \<Rightarrow> gotime \<Rightarrow> gotime \<Rightarrow> duration \<Rightarrow> AuthorityGrant \<Rightarrow> applyAcc \<Rightarrow>
   authority_error + applyAcc" where
  "applyGrant fp s stale received serverTime rtt wire a0 =
     (if ag_RequestID wire \<in> set (aa_seen a0) \<or> ag_ID wire \<in> set (aa_ids a0) then Inl ErrAuthorityInvalid
      else
        (let a = a0\<lparr>aa_seen := ag_RequestID wire # aa_seen a0, aa_ids := ag_ID wire # aa_ids a0\<rparr>; j = aa_j a
         in case Mapping.lookup (j_Receipts j) (reportReceiptID (ag_ID wire)) of
              Some receipt \<Rightarrow> if rr_GrantHash receipt \<noteq> fp wire then Inl ErrAuthorityInvalid else Inr a
            | None \<Rightarrow>
                (case Mapping.lookup (j_Requests j) (ag_RequestID wire) of
                   None \<Rightarrow> Inl ErrAuthorityInvalid
                 | Some r \<Rightarrow>
                     if \<not> validateGrant wire (Some r) serverTime then Inl ErrAuthorityInvalid
                     else
                       (case Mapping.lookup (j_Grants j) (ag_ID wire) of
                          Some old \<Rightarrow> if gr_Wire old \<noteq> wire then Inl ErrAuthorityInvalid else Inr a
                        | None \<Rightarrow>
                            if rq_GrantID r \<noteq> [] then Inl ErrAuthorityInvalid
                            else Inr (newGrant s stale received serverTime rtt wire r a)))))"

definition applyDenial :: "bool \<Rightarrow> AuthorityDenial \<Rightarrow> applyAcc \<Rightarrow> authority_error + applyAcc" where
  "applyDenial stale d a =
     (case Mapping.lookup (j_Requests (aa_j a)) (ad_RequestID d) of
        None \<Rightarrow> Inl ErrAuthorityInvalid
      | Some r \<Rightarrow>
          if ad_RequestID d \<in> set (aa_seen a) \<or> \<not> rq_Sent r \<or> rw_Key (rq_Wire r) \<noteq> ad_Key d \<or> \<not> validString (ad_Reason d)
          then Inl ErrAuthorityInvalid
          else
            (let a1 = a\<lparr>aa_seen := ad_RequestID d # aa_seen a\<rparr>; j = aa_j a1
             in if rq_GrantID r = [] \<and> \<not> stale then
                  Inr (a1\<lparr>aa_j := j\<lparr>j_Requests := Mapping.update (ad_RequestID d)
                        (r\<lparr>rq_Denied := ad_Reason d, rq_PendingReply := False\<rparr>) (j_Requests j)\<rparr>\<rparr>)
                else Inr a1))"

definition applyReportAck :: "AuthorityAck \<Rightarrow> journal \<times> string list \<Rightarrow> authority_error + journal \<times> string list" where
  "applyReportAck ack st =
     (case st of (j, seen) \<Rightarrow>
        (case Mapping.lookup (j_Grants j) (ak_ID ack) of
           None \<Rightarrow>
             (case Mapping.lookup (j_Receipts j) (reportReceiptID (ak_ID ack)) of
                None \<Rightarrow> Inl ErrAuthorityInvalid
              | Some receipt \<Rightarrow>
                  if ak_ID ack \<in> set seen \<or> ak_Sequence ack \<le> 0 \<or> ak_Sequence ack > rr_Sequence receipt
                     \<or> (ak_Instance ack \<noteq> [] \<and> ak_Instance ack \<noteq> rr_Instance receipt)
                  then Inl ErrAuthorityInvalid else Inr (j, ak_ID ack # seen))
         | Some g \<Rightarrow>
             if ak_ID ack \<in> set seen \<or> (ak_Instance ack \<noteq> [] \<and> ak_Instance ack \<noteq> gr_Instance g)
                \<or> ak_Sequence ack \<le> 0 \<or> ak_Sequence ack > gr_Sent g
             then Inl ErrAuthorityInvalid
             else Inr (j\<lparr>j_Grants := Mapping.update (ak_ID ack) (g\<lparr>gr_Ack := max (gr_Ack g) (ak_Sequence ack)\<rparr>) (j_Grants j)\<rparr>,
                       ak_ID ack # seen)))"

definition metersFor :: "AuthorityAck \<Rightarrow> journal \<Rightarrow> string list" where
  "metersFor ack j = filter (\<lambda>mid. case Mapping.lookup (j_Meters j) mid of
     None \<Rightarrow> False | Some m \<Rightarrow> am_Instance (mt_Wire m) = ak_Instance ack \<and> am_WindowID (mt_Wire m) = ak_ID ack)
     (Mapping.ordered_keys (j_Meters j))"

definition applyMeterAck :: "AuthorityAck \<Rightarrow> journal \<times> string list \<Rightarrow> authority_error + journal \<times> string list" where
  "applyMeterAck ack st =
     (case st of (j, seen) \<Rightarrow>
        if ak_Instance ack = [] \<or> ak_ID ack = [] \<or> ak_Sequence ack \<le> 0 then Inl ErrAuthorityInvalid
        else
          (let rid = meterReceiptID (ak_Instance ack) (ak_ID ack)
           in case Mapping.lookup (j_Receipts j) rid of
                Some receipt \<Rightarrow>
                  if rid \<in> set seen \<or> ak_Sequence ack > rr_Sequence receipt then Inl ErrAuthorityInvalid
                  else Inr (j, rid # seen)
              | None \<Rightarrow>
                  (case metersFor ack j of
                     [mid] \<Rightarrow>
                       (case Mapping.lookup (j_Meters j) mid of
                          None \<Rightarrow> Inl ErrAuthorityInvalid
                        | Some m \<Rightarrow>
                            if mid \<in> set seen \<or> ak_Sequence ack > mt_Sent m then Inl ErrAuthorityInvalid
                            else Inr (j\<lparr>j_Meters := Mapping.update mid (m\<lparr>mt_Ack := max (mt_Ack m) (ak_Sequence ack)\<rparr>) (j_Meters j)\<rparr>,
                                      mid # seen))
                   | _ \<Rightarrow> Inl ErrAuthorityInvalid)))"

definition applyAcks :: "AuthorityResponse \<Rightarrow> journal \<Rightarrow> authority_error + journal" where
  "applyAcks r j =
     (case foldE applyReportAck (as_ReportAcks r) (j, []) of
        Inl e \<Rightarrow> Inl e
      | Inr (j1, _) \<Rightarrow>
          (case foldE applyMeterAck (as_MeterAcks r) (j1, []) of
             Inl e \<Rightarrow> Inl e | Inr (j2, _) \<Rightarrow> Inr j2))"

definition markObsolete :: "journal \<Rightarrow> journal" where
  "markObsolete j =
     j\<lparr>j_Requests := Mapping.map_values (\<lambda>k r.
         (case Mapping.lookup (j_Budgets j) (rw_Key (rq_Wire r)) of
            None \<Rightarrow> r\<lparr>rq_Obsolete := True\<rparr>
          | Some b \<Rightarrow> if \<not> sameDefinition (rq_Budget r) b then r\<lparr>rq_Obsolete := True\<rparr> else r)) (j_Requests j)\<rparr>"

definition closeStale ::
  "gotime \<Rightarrow> (string, gotime) mapping \<Rightarrow> (string, AuthorityBudget) mapping \<Rightarrow> string \<Rightarrow> grant \<Rightarrow> authority_error + grant" where
  "closeStale received deadlines budgets gid g =
     (if \<not> gr_Closed g \<and> gr_Pending g = 0
         \<and> (case Mapping.lookup budgets (ag_Key (gr_Wire g)) of
              None \<Rightarrow> True
            | Some b \<Rightarrow> \<not> ab_HardCap b \<or> ag_Revision (gr_Wire g) \<noteq> ab_Revision b \<or> ag_WindowID (gr_Wire g) \<noteq> ab_WindowID b
                \<or> \<not> received < timeAt deadlines gid)
      then closeGrant g else Inr g)"

definition installSnapshot ::
  "gotime \<Rightarrow> duration \<Rightarrow> AuthorityResponse \<Rightarrow> (string, AuthorityBudget) mapping \<Rightarrow> (string, gotime) mapping \<Rightarrow> journal \<Rightarrow>
   authority_error + (journal \<times> (string, gotime) mapping \<times> bool)" where
  "installSnapshot received rtt r budgets windows j =
     (let stale = (j_ServerTime j \<noteq> 0 \<and> as_ServerTime r < j_ServerTime j);
          advance = (\<not> j_Ready j \<or> as_ServerTime r > j_ServerTime j)
      in if stale then Inr (j, windows, True)
         else if \<not> advance \<and> \<not> equalBudgets (j_Budgets j) budgets then Inl ErrAuthorityInvalid
         else if advance then
           Inr (j\<lparr>j_Budgets := budgets, j_ServerTime := as_ServerTime r, j_Ready := True\<rparr>,
                Mapping.map_values (\<lambda>key b. deadline received (as_ServerTime r) (ab_WindowEnd b) rtt) budgets, False)
         else Inr (j, windows, False))"

definition applyBody ::
  "(AuthorityGrant \<Rightarrow> string) \<Rightarrow> Store \<Rightarrow> gotime \<Rightarrow> duration \<Rightarrow> AuthorityResponse \<Rightarrow> (string, AuthorityBudget) mapping \<Rightarrow> journal \<Rightarrow>
   authority_error + (journal \<times> bool \<times> (string, gotime) mapping \<times> (string, gotime) mapping)" where
  "applyBody fp s received rtt r budgets j0 =
     (case installSnapshot received rtt r budgets (st_windows s) j0 of
        Inl e \<Rightarrow> Inl e
      | Inr (j1, windows, stale) \<Rightarrow>
          (case foldE (applyGrant fp s stale received (as_ServerTime r) rtt) (as_Grants r)
                  \<lparr>aa_j = j1, aa_deadlines = st_deadlines s, aa_seen = [], aa_ids = []\<rparr> of
             Inl e \<Rightarrow> Inl e
           | Inr a1 \<Rightarrow>
               (case foldE (applyDenial stale) (as_Denied r) a1 of
                  Inl e \<Rightarrow> Inl e
                | Inr a2 \<Rightarrow>
                    (case applyAcks r (aa_j a2) of
                       Inl e \<Rightarrow> Inl e
                     | Inr j3 \<Rightarrow>
                         (let j4 = markObsolete j3
                          in case foldE (\<lambda>gid. onGrant (closeStale received (aa_deadlines a2) (j_Budgets j4) gid) gid)
                                    (Mapping.ordered_keys (j_Grants j4)) j4 of
                               Inl e \<Rightarrow> Inl e
                             | Inr j5 \<Rightarrow> Inr (j5, stale, aa_deadlines a2, windows))))))"

definition Apply ::
  "(AuthorityGrant \<Rightarrow> string) \<Rightarrow> storage \<Rightarrow> gotime \<Rightarrow> AuthorityResponse \<Rightarrow> duration \<Rightarrow> World \<Rightarrow> World \<times> authority_error option" where
  "Apply fp io received r roundTrip w =
     (if as_Protocol r \<noteq> AuthorityProtocol \<or> \<not> utcTime (as_ServerTime r) \<or> roundTrip < 0 then (w, Some ErrAuthorityInvalid)
      else
        (case validateBudgets r of
           Inl e \<Rightarrow> (w, Some e)
         | Inr budgets \<Rightarrow>
             (case transaction fp io (applyBody fp (w_store w) received roundTrip r budgets) w of
                (w', Inl e) \<Rightarrow> (w', Some e)
              | (w', Inr (stale, deadlines, windows)) \<Rightarrow>
                  (w'\<lparr>w_store := (w_store w')\<lparr>
                      st_deadlines := pruneDeadlines (db_state (w_db w')) deadlines, st_windows := windows\<rparr>\<rparr>,
                   if stale then Some ErrAuthorityInvalid else None))))"

end
