(* ===== verification/EscrowInv.thy ===== *)
theory EscrowInv
  imports EscrowSync
begin

text \<open>
  The invariant of the escrow journal and its preservation by every operation: what a grant
  has reserved is exactly the sum of the bounds of the permits in flight on it, a closed grant
  has nothing in flight, and a grant that no settlement overran never promises more than its
  amount.
\<close>

section \<open>What is in flight\<close>

definition holders :: "(string, permit) mapping \<Rightarrow> string \<Rightarrow> string set" where
  "holders ps gid = {pid. \<exists>p. Mapping.lookup ps pid = Some p \<and> \<not> pm_Done p \<and> gid \<in> set (pm_Grants p)}"

definition boundOf :: "(string, permit) mapping \<Rightarrow> string \<Rightarrow> int" where
  "boundOf ps pid = (case Mapping.lookup ps pid of None \<Rightarrow> 0 | Some p \<Rightarrow> pm_Bound p)"

definition heldAmount :: "(string, permit) mapping \<Rightarrow> string \<Rightarrow> int" where
  "heldAmount ps gid = (\<Sum>pid \<in> holders ps gid. boundOf ps pid)"

definition heldCount :: "(string, permit) mapping \<Rightarrow> string \<Rightarrow> int" where
  "heldCount ps gid = int (card (holders ps gid))"

definition grant_inv :: "(string, permit) mapping \<Rightarrow> string \<Rightarrow> grant \<Rightarrow> bool" where
  "grant_inv ps gid g \<longleftrightarrow> ag_ID (gr_Wire g) = gid \<and> 0 < ag_Amount (gr_Wire g) \<and> ag_Amount (gr_Wire g) \<le> MaxInt64
     \<and> 0 \<le> gr_Consumed g \<and> gr_Consumed g \<le> MaxInt64 \<and> 0 \<le> gr_Observed g \<and> gr_Observed g \<le> MaxInt64
     \<and> gr_Reserved g = heldAmount ps gid \<and> gr_Pending g = heldCount ps gid
     \<and> gr_Reserved g \<le> MaxInt64 \<and> gr_Pending g \<le> MaxInt64
     \<and> (gr_Closed g \<longrightarrow> gr_Pending g = 0)
     \<and> (\<not> gr_Overrun g \<longrightarrow> gr_Consumed g + gr_Reserved g \<le> ag_Amount (gr_Wire g))"

definition permit_inv :: "journal \<Rightarrow> permit \<Rightarrow> bool" where
  "permit_inv j p \<longleftrightarrow> 0 \<le> pm_Bound p \<and> distinct (pm_Grants p)
     \<and> (\<not> pm_Done p \<longrightarrow> (\<forall>gid \<in> set (pm_Grants p). Mapping.lookup (j_Grants j) gid \<noteq> None))
     \<and> (\<not> pm_Done p \<longrightarrow> \<not> pm_Retired p \<longrightarrow> pm_Actual p = None)"

definition journal_inv :: "journal \<Rightarrow> bool" where
  "journal_inv j \<longleftrightarrow> finite (Mapping.keys (j_Grants j)) \<and> finite (Mapping.keys (j_Permits j))
     \<and> finite (Mapping.keys (j_Budgets j)) \<and> finite (Mapping.keys (j_Requests j)) \<and> finite (Mapping.keys (j_Meters j))
     \<and> (\<forall>gid g. Mapping.lookup (j_Grants j) gid = Some g \<longrightarrow> grant_inv (j_Permits j) gid g)
     \<and> (\<forall>pid p. Mapping.lookup (j_Permits j) pid = Some p \<longrightarrow> permit_inv j p)
     \<and> (\<forall>k b. Mapping.lookup (j_Budgets j) k = Some b \<longrightarrow> ab_Key b = k)"

lemma journal_invD:
  assumes "journal_inv j"
  shows "finite (Mapping.keys (j_Grants j))" "finite (Mapping.keys (j_Permits j))"
    "finite (Mapping.keys (j_Budgets j))" "finite (Mapping.keys (j_Requests j))" "finite (Mapping.keys (j_Meters j))"
    "Mapping.lookup (j_Grants j) gid = Some g \<Longrightarrow> grant_inv (j_Permits j) gid g"
    "Mapping.lookup (j_Permits j) pid = Some p \<Longrightarrow> permit_inv j p"
    "Mapping.lookup (j_Budgets j) k = Some b \<Longrightarrow> ab_Key b = k"
  using assms by (simp_all add: journal_inv_def)

lemma holders_subset: "holders ps gid \<subseteq> Mapping.keys ps"
  by (auto simp: holders_def keys_lookup)

lemma finite_holders: "finite (Mapping.keys ps) \<Longrightarrow> finite (holders ps gid)"
  by (rule finite_subset [OF holders_subset])

text \<open>Only the permits in flight matter.\<close>

definition same_undone :: "(string, permit) mapping \<Rightarrow> (string, permit) mapping \<Rightarrow> bool" where
  "same_undone ps qs \<longleftrightarrow> (\<forall>pid p. \<not> pm_Done p \<longrightarrow> (Mapping.lookup qs pid = Some p \<longleftrightarrow> Mapping.lookup ps pid = Some p))"

lemma same_undone_held:
  assumes "same_undone ps qs"
  shows "heldAmount qs gid = heldAmount ps gid" and "heldCount qs gid = heldCount ps gid"
proof -
  have h: "holders qs gid = holders ps gid"
    using assms by (auto simp: holders_def same_undone_def)
  moreover have "boundOf qs pid = boundOf ps pid" if "pid \<in> holders ps gid" for pid
  proof -
    from that obtain p where "Mapping.lookup ps pid = Some p" "\<not> pm_Done p" by (auto simp: holders_def)
    moreover from this assms have "Mapping.lookup qs pid = Some p" unfolding same_undone_def by blast
    ultimately show ?thesis by (simp add: boundOf_def)
  qed
  ultimately show "heldAmount qs gid = heldAmount ps gid" "heldCount qs gid = heldCount ps gid"
    by (simp_all add: heldAmount_def heldCount_def)
qed

lemma grant_inv_same_undone: "same_undone ps qs \<Longrightarrow> grant_inv qs gid g = grant_inv ps gid g"
  by (simp add: grant_inv_def same_undone_held)

lemma held_new:
  assumes "finite (Mapping.keys ps)" and "Mapping.lookup ps pid = None" and "\<not> pm_Done p"
  shows "heldAmount (Mapping.update pid p ps) gid = heldAmount ps gid + (if gid \<in> set (pm_Grants p) then pm_Bound p else 0)"
    and "heldCount (Mapping.update pid p ps) gid = heldCount ps gid + (if gid \<in> set (pm_Grants p) then 1 else 0)"
proof -
  have h: "holders (Mapping.update pid p ps) gid =
      (if gid \<in> set (pm_Grants p) then insert pid (holders ps gid) else holders ps gid)"
    using assms(2,3) by (auto simp: holders_def lookup_update' split: if_splits)
  have out: "pid \<notin> holders ps gid" using assms(2) by (simp add: holders_def)
  have same: "(\<Sum>x \<in> holders ps gid. boundOf (Mapping.update pid p ps) x) = (\<Sum>x \<in> holders ps gid. boundOf ps x)"
    using out by (intro sum.cong) (auto simp: boundOf_def lookup_update')
  show "heldAmount (Mapping.update pid p ps) gid = heldAmount ps gid + (if gid \<in> set (pm_Grants p) then pm_Bound p else 0)"
    using out finite_holders [OF assms(1), of gid] same
    by (auto simp: heldAmount_def h boundOf_def lookup_update')
  show "heldCount (Mapping.update pid p ps) gid = heldCount ps gid + (if gid \<in> set (pm_Grants p) then 1 else 0)"
    using out finite_holders [OF assms(1), of gid] by (auto simp: heldCount_def h)
qed

lemma held_done:
  assumes "finite (Mapping.keys ps)" and "Mapping.lookup ps pid = Some p" and "\<not> pm_Done p" and "pm_Done p'"
  shows "heldAmount (Mapping.update pid p' ps) gid = heldAmount ps gid - (if gid \<in> set (pm_Grants p) then pm_Bound p else 0)"
    and "heldCount (Mapping.update pid p' ps) gid = heldCount ps gid - (if gid \<in> set (pm_Grants p) then 1 else 0)"
proof -
  let ?qs = "Mapping.delete pid ps"
  have fin: "finite (Mapping.keys ?qs)" using assms(1) by simp
  have restore: "Mapping.update pid p ?qs = ps"
    by (rule mapping_eqI) (use assms(2) in \<open>auto simp: lookup_update' lookup_delete'\<close>)
  have su: "same_undone ?qs (Mapping.update pid p' ps)"
    using assms(4) by (auto simp: same_undone_def lookup_update' lookup_delete')
  have none: "Mapping.lookup ?qs pid = None" by (simp add: lookup_delete')
  show "heldAmount (Mapping.update pid p' ps) gid = heldAmount ps gid - (if gid \<in> set (pm_Grants p) then pm_Bound p else 0)"
    and "heldCount (Mapping.update pid p' ps) gid = heldCount ps gid - (if gid \<in> set (pm_Grants p) then 1 else 0)"
    using held_new [OF fin none assms(3), of gid, unfolded restore] by (simp_all add: same_undone_held [OF su])
qed

lemma held_positive:
  assumes "finite (Mapping.keys ps)" and "\<And>pid p. Mapping.lookup ps pid = Some p \<Longrightarrow> 0 \<le> pm_Bound p"
    and "Mapping.lookup ps pid = Some p" and "\<not> pm_Done p" and "gid \<in> set (pm_Grants p)"
  shows "0 < heldCount ps gid" and "pm_Bound p \<le> heldAmount ps gid"
proof -
  have mem: "pid \<in> holders ps gid" using assms(3-5) by (auto simp: holders_def)
  then show "0 < heldCount ps gid"
    using finite_holders [OF assms(1), of gid] by (auto simp: heldCount_def card_gt_0_iff)
  have "boundOf ps pid \<le> heldAmount ps gid"
    unfolding heldAmount_def using mem finite_holders [OF assms(1)] assms(2)
    by (intro member_le_sum) (auto simp: boundOf_def holders_def)
  then show "pm_Bound p \<le> heldAmount ps gid" by (simp add: boundOf_def assms(3))
qed

lemma held_nonneg:
  assumes "\<And>pid p. Mapping.lookup ps pid = Some p \<Longrightarrow> 0 \<le> pm_Bound p"
  shows "0 \<le> heldAmount ps gid"
  unfolding heldAmount_def by (rule sum_nonneg) (use assms in \<open>auto simp: boundOf_def holders_def\<close>)

lemma held_none: "heldCount ps gid = 0 \<Longrightarrow> finite (Mapping.keys ps) \<Longrightarrow> heldAmount ps gid = 0"
  using finite_holders [of ps gid] by (simp add: heldCount_def heldAmount_def)

lemma inv_bound_nonneg: "journal_inv j \<Longrightarrow> Mapping.lookup (j_Permits j) pid = Some p \<Longrightarrow> 0 \<le> pm_Bound p"
  using journal_invD(7) by (auto simp: permit_inv_def)

section \<open>Loops over grants\<close>

lemma onGrant_Inr:
  assumes "onGrant f gid j = Inr j'"
  obtains g g' where "Mapping.lookup (j_Grants j) gid = Some g" "f g = Inr g'"
    "j' = j\<lparr>j_Grants := Mapping.update gid g' (j_Grants j)\<rparr>"
  using assms by (auto simp: onGrant_def split: option.splits sum.splits)

text \<open>Each listed grant is transformed once, the others and the rest of the journal stay.\<close>

lemma foldE_onGrant:
  assumes "foldE (\<lambda>gid. onGrant (f gid) gid) gids j = Inr j'" and "distinct gids"
  shows "j' = j\<lparr>j_Grants := j_Grants j'\<rparr>
    \<and> (\<forall>gid \<in> set gids. \<exists>g g'. Mapping.lookup (j_Grants j) gid = Some g \<and> f gid g = Inr g'
          \<and> Mapping.lookup (j_Grants j') gid = Some g')
    \<and> (\<forall>gid. gid \<notin> set gids \<longrightarrow> Mapping.lookup (j_Grants j') gid = Mapping.lookup (j_Grants j) gid)
    \<and> Mapping.keys (j_Grants j') = Mapping.keys (j_Grants j)"
  using assms
proof (induction gids arbitrary: j)
  case Nil
  then show ?case by simp
next
  case (Cons gid gids)
  then obtain j1 where j1: "onGrant (f gid) gid j = Inr j1" "foldE (\<lambda>gid. onGrant (f gid) gid) gids j1 = Inr j'"
    by (auto split: sum.splits)
  then obtain g g' where g: "Mapping.lookup (j_Grants j) gid = Some g" "f gid g = Inr g'"
    "j1 = j\<lparr>j_Grants := Mapping.update gid g' (j_Grants j)\<rparr>"
    by (rule_tac onGrant_Inr [OF j1(1)]) blast
  have IH: "j' = j1\<lparr>j_Grants := j_Grants j'\<rparr>"
    "\<forall>gid \<in> set gids. \<exists>g g'. Mapping.lookup (j_Grants j1) gid = Some g \<and> f gid g = Inr g'
          \<and> Mapping.lookup (j_Grants j') gid = Some g'"
    "\<forall>gid. gid \<notin> set gids \<longrightarrow> Mapping.lookup (j_Grants j') gid = Mapping.lookup (j_Grants j1) gid"
    "Mapping.keys (j_Grants j') = Mapping.keys (j_Grants j1)"
    using Cons.IH [OF j1(2)] Cons.prems(2) by simp_all
  have keys: "Mapping.keys (j_Grants j1) = Mapping.keys (j_Grants j)"
    using g by (simp add: insert_absorb lookup_in_keys)
  have "j' = j\<lparr>j_Grants := j_Grants j'\<rparr>" using IH(1) g(3) by (metis journal.surjective journal.update_convs(6))
  moreover have out: "gid \<notin> set gids" using Cons.prems(2) by simp
  moreover have "Mapping.lookup (j_Grants j1) x = Mapping.lookup (j_Grants j) x" if "x \<noteq> gid" for x
    using that g(3) by (simp add: lookup_update')
  moreover have "Mapping.lookup (j_Grants j') gid = Some g'" using IH(3) out g(3) by (simp add: lookup_update')
  ultimately show ?case
    using IH(2-4) g(1,2) keys by (metis set_ConsD list.set_intros)
qed

lemma journal_inv_grants:
  assumes "journal_inv j" and "j' = j\<lparr>j_Grants := j_Grants j'\<rparr>" and "Mapping.keys (j_Grants j') = Mapping.keys (j_Grants j)"
    and "\<And>gid g. Mapping.lookup (j_Grants j') gid = Some g \<Longrightarrow> grant_inv (j_Permits j) gid g"
  shows "journal_inv j'"
proof -
  have eq: "j_Permits j' = j_Permits j" "j_Budgets j' = j_Budgets j" "j_Requests j' = j_Requests j" "j_Meters j' = j_Meters j"
    by (subst assms(2), simp)+
  have "Mapping.lookup (j_Grants j') gid \<noteq> None \<longleftrightarrow> Mapping.lookup (j_Grants j) gid \<noteq> None" for gid
    using assms(3) by (metis keys_lookup)
  then have "permit_inv j' p" if "permit_inv j p" for p
    using that unfolding permit_inv_def by blast
  with assms(1,3,4) eq show ?thesis by (simp add: journal_inv_def)
qed

lemma foldE_onGrant_inv:
  assumes "foldE (\<lambda>gid. onGrant (f gid) gid) gids j = Inr j'" and "distinct gids" and "journal_inv j"
    and "\<And>gid g g'. grant_inv (j_Permits j) gid g \<Longrightarrow> f gid g = Inr g' \<Longrightarrow> grant_inv (j_Permits j) gid g'"
  shows "journal_inv j' \<and> j' = j\<lparr>j_Grants := j_Grants j'\<rparr>"
proof -
  note r = foldE_onGrant [OF assms(1,2)]
  have "grant_inv (j_Permits j) gid g" if "Mapping.lookup (j_Grants j') gid = Some g" for gid g
  proof (cases "gid \<in> set gids")
    case True
    with r obtain g0 g' where g: "Mapping.lookup (j_Grants j) gid = Some g0" "f gid g0 = Inr g'"
      "Mapping.lookup (j_Grants j') gid = Some g'" by blast
    then have "grant_inv (j_Permits j) gid g'"
      using assms(4) journal_invD(6) [OF assms(3)] by blast
    then show ?thesis using g(3) that by simp
  next
    case False
    then show ?thesis using r that journal_invD(6) [OF assms(3)] by simp
  qed
  then show ?thesis using r journal_inv_grants [OF assms(3)] by blast
qed

lemma closeGrant_inv: "grant_inv ps gid g \<Longrightarrow> closeGrant g = Inr g' \<Longrightarrow> grant_inv ps gid g'"
  by (auto simp: closeGrant_def grant_inv_def split: if_splits sum.splits)

lemma closeIfInactive_inv: "grant_inv ps gid g \<Longrightarrow> closeIfInactive s now bs g = Inr g' \<Longrightarrow> grant_inv ps gid g'"
  using closeGrant_inv by (auto simp: closeIfInactive_def split: if_splits option.splits)

lemma closeInactive_inv:
  assumes "journal_inv j" and "closeInactive s now j = Inr j'"
  shows "journal_inv j' \<and> j' = j\<lparr>j_Grants := j_Grants j'\<rparr>"
  using assms(2) unfolding closeInactive_def
  by (rule foldE_onGrant_inv) (simp_all add: assms(1) closeIfInactive_inv)

lemma update_grant_inv:
  assumes "journal_inv j" and "Mapping.lookup (j_Grants j) gid = Some g" and "grant_inv (j_Permits j) gid g'"
  shows "journal_inv (j\<lparr>j_Grants := Mapping.update gid g' (j_Grants j)\<rparr>)"
  by (rule journal_inv_grants [OF assms(1)])
    (use assms journal_invD(6) [OF assms(1)] in \<open>auto simp: lookup_update' insert_absorb lookup_in_keys split: if_splits\<close>)

section \<open>Reserve\<close>

text \<open>A grant with room for one more bound.\<close>

definition roomy :: "int \<Rightarrow> journal \<Rightarrow> string \<Rightarrow> grant \<Rightarrow> bool" where
  "roomy bound j gid g \<longleftrightarrow> Mapping.lookup (j_Grants j) gid = Some g \<and> \<not> gr_Closed g \<and> \<not> gr_Overrun g
     \<and> gr_Consumed g + gr_Reserved g + bound \<le> ag_Amount (gr_Wire g)"

lemma usable_available:
  assumes "grant_inv ps gid g" and "usable s g b now" and "0 \<le> gr_Reserved g"
  shows "sub64 (sub64 (ag_Amount (gr_Wire g)) (gr_Consumed g)) (gr_Reserved g)
    = ag_Amount (gr_Wire g) - gr_Consumed g - gr_Reserved g"
proof -
  have c: "sub64 (ag_Amount (gr_Wire g)) (gr_Consumed g) = ag_Amount (gr_Wire g) - gr_Consumed g"
    using assms(1) by (intro sub64_exact) (simp add: grant_inv_def in64_bounds)
  show ?thesis
    unfolding c using assms by (intro sub64_exact) (simp add: grant_inv_def usable_def c in64_bounds)
qed

lemma inv_reserved_nonneg:
  assumes "journal_inv j" and "grant_inv (j_Permits j) gid g"
  shows "0 \<le> gr_Reserved g"
  using assms held_nonneg inv_bound_nonneg [OF assms(1)] by (auto simp: grant_inv_def)

lemma pickGrant_outcome:
  assumes "pickGrant s b now bound gids j = Inr (j', r)" and "journal_inv j"
  shows "journal_inv j' \<and> j' = j\<lparr>j_Grants := j_Grants j'\<rparr>
    \<and> (\<forall>gid g. Mapping.lookup (j_Grants j) gid = Some g \<longrightarrow> ag_Key (gr_Wire g) \<noteq> ab_Key b \<longrightarrow>
          Mapping.lookup (j_Grants j') gid = Some g)
    \<and> (\<forall>gid. r = Some gid \<longrightarrow> (\<exists>g. roomy bound j' gid g \<and> usable s g b now))"
  using assms
proof (induction gids arbitrary: j)
  case Nil
  then show ?case by simp
next
  case (Cons gid gids)
  show ?case
  proof (cases "Mapping.lookup (j_Grants j) gid")
    case None
    then have "pickGrant s b now bound gids j = Inr (j', r)" using Cons.prems(1) by simp
    then show ?thesis by (rule Cons.IH [OF _ Cons.prems(2)])
  next
    case (Some g)
    have inv: "grant_inv (j_Permits j) gid g" using journal_invD(6) [OF Cons.prems(2)] Some by blast
    show ?thesis
    proof (cases "usable s g b now")
      case False
      then have "pickGrant s b now bound gids j = Inr (j', r)" using Cons.prems(1) Some by simp
      then show ?thesis by (rule Cons.IH [OF _ Cons.prems(2)])
    next
      case True
      note av = usable_available [OF inv True inv_reserved_nonneg [OF Cons.prems(2) inv]]
      let ?av = "ag_Amount (gr_Wire g) - gr_Consumed g - gr_Reserved g"
      consider (take) "?av > 0 \<and> ?av \<ge> bound" | (close) "\<not> (?av > 0 \<and> ?av \<ge> bound)" "gr_Pending g = 0"
        | (skip) "\<not> (?av > 0 \<and> ?av \<ge> bound)" "gr_Pending g \<noteq> 0" by blast
      then show ?thesis
      proof cases
        case take
        then have "j' = j" "r = Some gid" using Cons.prems(1) Some True by (simp_all add: av Let_def)
        moreover have "roomy bound j gid g" using Some True take by (auto simp: roomy_def usable_def)
        ultimately show ?thesis using True Cons.prems(2) by auto
      next
        case close
        then obtain g' where g': "closeGrant g = Inr g'"
          "pickGrant s b now bound gids (j\<lparr>j_Grants := Mapping.update gid g' (j_Grants j)\<rparr>) = Inr (j', r)"
          using Cons.prems(1) Some True by (auto simp: av Let_def split: sum.splits)
        let ?j = "j\<lparr>j_Grants := Mapping.update gid g' (j_Grants j)\<rparr>"
        have j: "journal_inv ?j"
          by (rule update_grant_inv [OF Cons.prems(2) Some closeGrant_inv [OF inv g'(1)]])
        note IH = Cons.IH [OF g'(2) j]
        have key: "ag_Key (gr_Wire g) = ab_Key b" using True by (simp add: usable_def)
        have "j' = j\<lparr>j_Grants := j_Grants j'\<rparr>"
          using IH by (metis journal.surjective journal.update_convs(6))
        moreover have "Mapping.lookup (j_Grants j') x = Some y"
          if "Mapping.lookup (j_Grants j) x = Some y" "ag_Key (gr_Wire y) \<noteq> ab_Key b" for x y
        proof -
          have "x \<noteq> gid" using that key Some by auto
          then have "Mapping.lookup (j_Grants ?j) x = Some y" using that(1) by (simp add: lookup_update')
          with IH that(2) show ?thesis by blast
        qed
        ultimately show ?thesis using IH by blast
      next
        case skip
        then have "pickGrant s b now bound gids j = Inr (j', r)"
          using Cons.prems(1) Some True by (auto simp: av Let_def)
        then show ?thesis by (rule Cons.IH [OF _ Cons.prems(2)])
      qed
    qed
  qed
qed

lemma journal_inv_requests:
  "journal_inv j \<Longrightarrow> finite (Mapping.keys rs) \<Longrightarrow> journal_inv (j\<lparr>j_Requests := rs\<rparr>)"
  by (simp add: journal_inv_def permit_inv_def)

lemma queueScan_finite:
  "queueScan s b want rids rs = Some (rs', e) \<Longrightarrow> finite (Mapping.keys rs) \<Longrightarrow> finite (Mapping.keys rs')"
  by (induction s b want rids rs rule: queueScan.induct) (auto split: option.splits if_splits)

lemma queue_inv:
  assumes "queue s b bound ns j = Inr (j', ns', e)" and "journal_inv j"
  shows "journal_inv j' \<and> j_Grants j' = j_Grants j \<and> j_Permits j' = j_Permits j \<and> j_Budgets j' = j_Budgets j
    \<and> set ns' \<subseteq> set ns"
  using assms journal_invD(4) [OF assms(2)] queueScan_finite
  by (auto simp: queue_def nonce_def Let_def intro!: journal_inv_requests
      split: option.splits sum.splits list.splits prod.splits)

definition acc_inv :: "journal \<Rightarrow> string list \<Rightarrow> int \<Rightarrow> string set \<Rightarrow> reserveAcc \<Rightarrow> bool" where
  "acc_inv j0 ns bound done a \<longleftrightarrow> journal_inv (ra_j a) \<and> j_Permits (ra_j a) = j_Permits j0 \<and> j_Budgets (ra_j a) = j_Budgets j0
     \<and> set (ra_ns a) \<subseteq> set ns \<and> distinct (ra_chosen a)
     \<and> (\<forall>gid \<in> set (ra_chosen a). \<exists>g. roomy bound (ra_j a) gid g \<and> ag_Key (gr_Wire g) \<in> done)"

lemma acc_inv_chosen_key:
  "acc_inv j0 ns bound done a \<Longrightarrow> gid \<in> set (ra_chosen a) \<Longrightarrow> Mapping.lookup (j_Grants (ra_j a)) gid = Some g \<Longrightarrow>
     ag_Key (gr_Wire g) \<in> done"
  by (fastforce simp: acc_inv_def roomy_def)

lemma reserveBudget_inv:
  assumes "reserveBudget s subject bound now key a = Inr a'" and "acc_inv j0 ns bound done a" and "key \<notin> done"
  shows "acc_inv j0 ns bound (insert key done) a'"
proof (cases "Mapping.lookup (j_Budgets (ra_j a)) key")
  case None
  then show ?thesis using assms by (auto simp: reserveBudget_def acc_inv_def)
next
  case (Some b)
  have inv: "journal_inv (ra_j a)" using assms(2) by (simp add: acc_inv_def)
  then have bk: "ab_Key b = key" using journal_invD(8) Some by blast
  let ?picked = "pickGrant s b now bound (Mapping.ordered_keys (j_Grants (ra_j a))) (ra_j a)"
  consider (same) "ra_j a' = ra_j a" "ra_chosen a' = ra_chosen a" "ra_ns a' = ra_ns a"
    | (picked) j gid where "?picked = Inr (j, Some gid)" "ra_j a' = j" "ra_chosen a' = ra_chosen a @ [gid]" "ra_ns a' = ra_ns a"
    | (queued) j j' ns' e where "?picked = Inr (j, None)" "queue s b bound (ra_ns a) j = Inr (j', ns', e)"
        "ra_j a' = j'" "ra_chosen a' = ra_chosen a" "ra_ns a' = ns'"
    using assms(1) Some
    by (auto simp: reserveBudget_def Let_def split: if_splits sum.splits option.splits prod.splits)
  then show ?thesis
  proof cases
    case same
    then show ?thesis using assms(2) by (auto simp: acc_inv_def roomy_def)
  next
    case picked
    note p = pickGrant_outcome [OF picked(1) inv]
    have kept: "\<exists>g. roomy bound j x g \<and> ag_Key (gr_Wire g) \<in> done" if "x \<in> set (ra_chosen a)" for x
    proof -
      note x = that
      obtain g where g: "roomy bound (ra_j a) x g" "ag_Key (gr_Wire g) \<in> done"
        using assms(2) x unfolding acc_inv_def by blast
      have "Mapping.lookup (j_Grants (ra_j a)) x = Some g" "ag_Key (gr_Wire g) \<noteq> ab_Key b"
        using g assms(3) bk by (auto simp: roomy_def)
      with p have "Mapping.lookup (j_Grants j) x = Some g" by blast
      with g show ?thesis by (auto simp: roomy_def)
    qed
    obtain g where g: "roomy bound j gid g" "usable s g b now" using p by blast
    then have k: "ag_Key (gr_Wire g) = key" using bk by (simp add: usable_def)
    then have new: "gid \<notin> set (ra_chosen a)"
      using kept [of gid] g(1) assms(3) by (auto simp: roomy_def)
    have same: "j_Permits j = j_Permits (ra_j a)" "j_Budgets j = j_Budgets (ra_j a)"
      using p by (metis journal.select_convs(5,8) journal.surjective journal.update_convs(6))+
    have "\<exists>g. roomy bound j x g \<and> ag_Key (gr_Wire g) \<in> insert key done" if "x \<in> set (ra_chosen a')" for x
    proof (cases "x = gid")
      case True
      then show ?thesis using g(1) k by blast
    next
      case False
      then have "x \<in> set (ra_chosen a)" using that picked(3) by simp
      then show ?thesis using kept by blast
    qed
    then show ?thesis
      using assms(2) picked(2-4) p new same unfolding acc_inv_def by simp
  next
    case queued
    note p = pickGrant_outcome [OF queued(1) inv]
    have jp: "j_Permits j = j_Permits (ra_j a)" "j_Budgets j = j_Budgets (ra_j a)"
      using p by (metis journal.select_convs(5,8) journal.surjective journal.update_convs(6))+
    have q: "journal_inv j'" "j_Grants j' = j_Grants j" "j_Permits j' = j_Permits j" "j_Budgets j' = j_Budgets j"
      "set ns' \<subseteq> set (ra_ns a)"
      using queue_inv [OF queued(2)] p by blast+
    have "\<exists>g. roomy bound j' x g \<and> ag_Key (gr_Wire g) \<in> insert key done" if "x \<in> set (ra_chosen a)" for x
    proof -
      note x = that
      obtain g where g: "roomy bound (ra_j a) x g" "ag_Key (gr_Wire g) \<in> done"
        using assms(2) x unfolding acc_inv_def by blast
      have "Mapping.lookup (j_Grants (ra_j a)) x = Some g" "ag_Key (gr_Wire g) \<noteq> ab_Key b"
        using g assms(3) bk by (auto simp: roomy_def)
      with p have "Mapping.lookup (j_Grants j) x = Some g" by blast
      with g q(2) show ?thesis by (auto simp: roomy_def)
    qed
    with assms(2) q jp queued(3-5) show ?thesis by (auto simp: acc_inv_def)
  qed
qed

lemma reserveLoop_inv:
  assumes "foldE (reserveBudget s subject bound now) keys a = Inr a'" and "acc_inv j0 ns bound done a"
    and "distinct keys" and "set keys \<inter> done = {}"
  shows "\<exists>d. acc_inv j0 ns bound d a'"
  using assms
proof (induction keys arbitrary: a "done")
  case Nil
  then show ?case by auto
next
  case (Cons key keys)
  then obtain a1 where a1: "reserveBudget s subject bound now key a = Inr a1"
    "foldE (reserveBudget s subject bound now) keys a1 = Inr a'" by (auto split: sum.splits)
  have "acc_inv j0 ns bound (insert key done) a1"
    using reserveBudget_inv [OF a1(1) Cons.prems(2)] Cons.prems(4) by auto
  then show ?case using Cons.IH [OF a1(2)] Cons.prems(3,4) by auto
qed

lemma reserveGrant_Inr:
  assumes "reserveGrant bound g = Inr g'"
  shows "g' = g\<lparr>gr_Reserved := gr_Reserved g + bound, gr_Pending := gr_Pending g + 1\<rparr>
    \<and> gr_Reserved g + bound \<le> MaxInt64 \<and> gr_Pending g + 1 \<le> MaxInt64"
  using assms acc.cadd_InrD
  by (auto simp: reserveGrant_def bump_def split: sum.splits)

lemma permit_inv_cong:
  "Mapping.keys (j_Grants j') = Mapping.keys (j_Grants j) \<Longrightarrow> permit_inv j' p = permit_inv j p"
  by (metis keys_lookup permit_inv_def)

lemma finite_addMeter: "finite (Mapping.keys ms) \<Longrightarrow> finite (Mapping.keys (addMeter inst b ms))"
  by (simp add: addMeter_def Let_def)

lemma finite_addMeters: "finite (Mapping.keys ms) \<Longrightarrow> finite (Mapping.keys (fold (addMeter inst) bs ms))"
  by (induction bs arbitrary: ms) (simp_all add: finite_addMeter)

lemma issuePermit_inv:
  assumes "issuePermit s bound a = Inr (j, p)" and "acc_inv j0 ns bound done a" and "0 \<le> bound"
    and "set ns \<inter> Mapping.keys (j_Permits j0) = {}"
  shows "journal_inv j"
proof -
  obtain pid ns' j1 where nn: "nonce (ra_ns a) = Inr (pid, ns')"
    and j1: "foldE (onGrant (reserveGrant bound)) (ra_chosen a) (ra_j a) = Inr j1"
    and j: "j = j1\<lparr>j_Meters := fold (addMeter (st_instance s)) (ra_soft a) (j_Meters j1),
        j_Permits := Mapping.update pid \<lparr>pm_Instance = st_instance s, pm_Bound = bound, pm_Grants = ra_chosen a,
            pm_Meters = map (\<lambda>b. meterID (st_instance s) (ab_Key b) (ab_WindowID b)) (ra_soft a),
            pm_Done = False, pm_Complete = False, pm_Actual = None, pm_Retired = False, pm_InvalidUsage = False\<rparr> (j_Permits j1)\<rparr>"
    using assms(1) by (auto simp: issuePermit_def Let_def split: sum.splits prod.splits)
  let ?p = "\<lparr>pm_Instance = st_instance s, pm_Bound = bound, pm_Grants = ra_chosen a,
            pm_Meters = map (\<lambda>b. meterID (st_instance s) (ab_Key b) (ab_WindowID b)) (ra_soft a),
            pm_Done = False, pm_Complete = False, pm_Actual = None, pm_Retired = False, pm_InvalidUsage = False\<rparr>"
  have inv: "journal_inv (ra_j a)" and dist: "distinct (ra_chosen a)" and perm: "j_Permits (ra_j a) = j_Permits j0"
    using assms(2) by (simp_all add: acc_inv_def)
  note r = foldE_onGrant [OF j1 dist]
  have pj: "j_Permits j1 = j_Permits j0" "j_Budgets j1 = j_Budgets (ra_j a)" "j_Requests j1 = j_Requests (ra_j a)"
    "j_Meters j1 = j_Meters (ra_j a)"
    using r perm by (metis journal.select_convs(5,7,8,9) journal.surjective journal.update_convs(6))+
  have "pid \<in> set ns" using nn assms(2) by (auto simp: nonce_def acc_inv_def split: list.splits)
  then have fresh: "Mapping.lookup (j_Permits j0) pid = None" using assms(4) by (auto simp: keys_lookup)
  have finp: "finite (Mapping.keys (j_Permits j0))" using journal_invD(2) [OF inv] perm by simp
  note held = held_new [OF finp fresh, of ?p]
  have ginv: "grant_inv (Mapping.update pid ?p (j_Permits j0)) gid g" if l: "Mapping.lookup (j_Grants j1) gid = Some g" for gid g
  proof (cases "gid \<in> set (ra_chosen a)")
    case True
    then obtain g0 where g0: "Mapping.lookup (j_Grants (ra_j a)) gid = Some g0" "reserveGrant bound g0 = Inr g"
      using r l by fastforce
    have room: "\<not> gr_Closed g0" "gr_Consumed g0 + gr_Reserved g0 + bound \<le> ag_Amount (gr_Wire g0)"
      using assms(2) True g0(1) by (auto simp: acc_inv_def roomy_def)
    have "grant_inv (j_Permits j0) gid g0" using journal_invD(6) [OF inv g0(1)] perm by simp
    with True room reserveGrant_Inr [OF g0(2)] show ?thesis by (simp add: grant_inv_def held)
  next
    case False
    then have "grant_inv (j_Permits j0) gid g" using r l journal_invD(6) [OF inv] perm by auto
    with False show ?thesis by (auto simp: grant_inv_def held)
  qed
  have keys: "Mapping.keys (j_Grants j) = Mapping.keys (j_Grants (ra_j a))" using r j by simp
  have "permit_inv j q" if "Mapping.lookup (j_Permits j) x = Some q" for x q
  proof (cases "x = pid")
    case True
    with that j have "q = ?p" by (simp add: lookup_update')
    moreover have "Mapping.lookup (j_Grants (ra_j a)) gid \<noteq> None" if "gid \<in> set (ra_chosen a)" for gid
      using assms(2) that by (auto simp: acc_inv_def roomy_def)
    ultimately show ?thesis
      using assms(3) dist unfolding permit_inv_cong [OF keys] by (simp add: permit_inv_def)
  next
    case False
    with that j pj perm have "permit_inv (ra_j a) q" using journal_invD(7) [OF inv] by (simp add: lookup_update')
    then show ?thesis using permit_inv_cong [OF keys] by simp
  qed
  then show ?thesis
    using ginv journal_invD [OF inv] keys pj finp finite_addMeters [OF journal_invD(5) [OF inv]]
    by (simp add: journal_inv_def j)
qed

lemma reserveBody_inv:
  assumes "reserveBody s subject bound now ns j = Inr (j', r)" and "journal_inv j" and "0 \<le> bound"
    and "set ns \<inter> Mapping.keys (j_Permits j) = {}"
  shows "journal_inv j'"
proof -
  obtain j1 a where j1: "closeInactive s now j = Inr j1"
    and a: "foldE (reserveBudget s subject bound now) (Mapping.ordered_keys (j_Budgets j1))
       \<lparr>ra_j = j1, ra_ns = ns, ra_chosen = [], ra_soft = [], ra_denied = None, ra_expires = 0\<rparr> = Inr a"
    and res: "j' = ra_j a \<or> (\<exists>p. issuePermit s bound a = Inr (j', p))"
    using assms(1) by (auto simp: reserveBody_def split: if_splits sum.splits option.splits prod.splits)
  have inv1: "journal_inv j1" "j1 = j\<lparr>j_Grants := j_Grants j1\<rparr>" using closeInactive_inv [OF assms(2) j1] by simp_all
  then have p1: "j_Permits j1 = j_Permits j" by (metis journal.select_convs(8) journal.surjective journal.update_convs(6))
  have "acc_inv j1 ns bound {} \<lparr>ra_j = j1, ra_ns = ns, ra_chosen = [], ra_soft = [], ra_denied = None, ra_expires = 0\<rparr>"
    using inv1(1) by (simp add: acc_inv_def)
  from reserveLoop_inv [OF a this] obtain d where acc: "acc_inv j1 ns bound d a" by auto
  from res show ?thesis
  proof
    assume "j' = ra_j a"
    with acc show ?thesis by (simp add: acc_inv_def)
  next
    assume "\<exists>p. issuePermit s bound a = Inr (j', p)"
    with issuePermit_inv [OF _ acc assms(3)] assms(4) p1 show ?thesis by auto
  qed
qed

section \<open>Settling a permit\<close>

text \<open>What a settlement does to a grant of the permit: the bound leaves the reservation.\<close>

definition releases :: "int \<Rightarrow> grant \<Rightarrow> grant \<Rightarrow> bool" where
  "releases bound g g' \<longleftrightarrow> gr_Wire g' = gr_Wire g \<and> gr_Reserved g' = gr_Reserved g - bound \<and> gr_Pending g' = gr_Pending g - 1
     \<and> 0 \<le> gr_Consumed g' \<and> gr_Consumed g' \<le> MaxInt64 \<and> 0 \<le> gr_Observed g' \<and> gr_Observed g' \<le> MaxInt64
     \<and> (gr_Closed g' \<longrightarrow> gr_Pending g' = 0)
     \<and> (\<not> gr_Overrun g' \<longrightarrow> gr_Consumed g' + gr_Reserved g' \<le> ag_Amount (gr_Wire g'))"

lemma settle_permit_inv:
  assumes inv: "journal_inv j" and p: "Mapping.lookup (j_Permits j) pid = Some p" "\<not> pm_Done p"
    and p': "pm_Done p'" "pm_Bound p' = pm_Bound p" "pm_Grants p' = pm_Grants p"
    and j1: "foldE (onGrant f) (pm_Grants p) j = Inr j1"
    and rel: "\<And>gid g g'. gid \<in> set (pm_Grants p) \<Longrightarrow> Mapping.lookup (j_Grants j) gid = Some g \<Longrightarrow> f g = Inr g' \<Longrightarrow>
      releases (pm_Bound p) g g'"
  shows "journal_inv (j1\<lparr>j_Permits := Mapping.update pid p' (j_Permits j1)\<rparr>)"
proof -
  have pi: "permit_inv j p" using journal_invD(7) [OF inv p(1)] .
  then have dist: "distinct (pm_Grants p)" and b: "0 \<le> pm_Bound p" by (simp_all add: permit_inv_def)
  note r = foldE_onGrant [OF j1 dist]
  have pj: "j_Permits j1 = j_Permits j" "j_Budgets j1 = j_Budgets j" "j_Requests j1 = j_Requests j" "j_Meters j1 = j_Meters j"
    using r by (metis journal.select_convs(5,7,8,9) journal.surjective journal.update_convs(6))+
  note held = held_done [OF journal_invD(2) [OF inv] p p'(1)]
  have "grant_inv (Mapping.update pid p' (j_Permits j)) gid g" if l: "Mapping.lookup (j_Grants j1) gid = Some g" for gid g
  proof (cases "gid \<in> set (pm_Grants p)")
    case True
    then obtain g0 where g0: "Mapping.lookup (j_Grants j) gid = Some g0" "f g0 = Inr g" using r l by fastforce
    have "grant_inv (j_Permits j) gid g0" using journal_invD(6) [OF inv g0(1)] .
    with True rel [OF True g0] b show ?thesis by (auto simp: grant_inv_def releases_def held)
  next
    case False
    then have "grant_inv (j_Permits j) gid g" using r l journal_invD(6) [OF inv] by auto
    with False show ?thesis by (auto simp: grant_inv_def held)
  qed
  moreover have "permit_inv (j1\<lparr>j_Permits := Mapping.update pid p' (j_Permits j1)\<rparr>) q"
    if "Mapping.lookup (Mapping.update pid p' (j_Permits j)) x = Some q" for x q
  proof -
    have "permit_inv j q" using that p' b dist journal_invD(7) [OF inv]
      by (auto simp: lookup_update' permit_inv_def split: if_splits)
    then show ?thesis using permit_inv_cong [of "j1\<lparr>j_Permits := Mapping.update pid p' (j_Permits j1)\<rparr>" j] r by simp
  qed
  ultimately show ?thesis
    using journal_invD [OF inv] r pj by (simp add: journal_inv_def)
qed

lemma sub64_dec: "0 < n \<Longrightarrow> n \<le> MaxInt64 \<Longrightarrow> sub64 n 1 = n - 1"
  by (intro sub64_exact) (simp add: in64_bounds)

lemma sub64_le: "0 \<le> b \<Longrightarrow> b \<le> n \<Longrightarrow> n \<le> MaxInt64 \<Longrightarrow> sub64 n b = n - b"
  by (intro sub64_exact) (simp add: in64_bounds)

lemma undoBody_inv:
  assumes "undoBody s pid now j = Inr (j', r)" and inv: "journal_inv j"
  shows "journal_inv j'"
proof -
  obtain p j1 where p: "Mapping.lookup (j_Permits j) pid = Some p" "\<not> pm_Done p"
    and j1: "foldE (onGrant (releaseGrant (pm_Bound p))) (pm_Grants p) j = Inr j1"
    and j': "closeInactive s now (j1\<lparr>j_Permits := Mapping.update pid
        (p\<lparr>pm_Done := True, pm_Complete := True, pm_Actual := Some 0\<rparr>) (j_Permits j1)\<rparr>) = Inr j'"
    using assms(1) by (auto simp: undoBody_def split: option.splits if_splits sum.splits)
  have b: "0 \<le> pm_Bound p" using inv_bound_nonneg [OF inv p(1)] .
  have "releases (pm_Bound p) g g'"
    if "gid \<in> set (pm_Grants p)" "Mapping.lookup (j_Grants j) gid = Some g" "releaseGrant (pm_Bound p) g = Inr g'" for gid g g'
    using that(3) journal_invD(6) [OF inv that(2)] b
    by (auto simp: releaseGrant_def releases_def grant_inv_def sub64_dec sub64_le split: if_splits)
  then have "journal_inv (j1\<lparr>j_Permits := Mapping.update pid
      (p\<lparr>pm_Done := True, pm_Complete := True, pm_Actual := Some 0\<rparr>) (j_Permits j1)\<rparr>)"
    by (intro settle_permit_inv [OF inv p _ _ _ j1]) simp_all
  then show ?thesis using closeInactive_inv [OF _ j'] by simp
qed

lemma settleFits_None:
  "settleFits c o' cb ob sq = None \<Longrightarrow> 0 \<le> cb \<and> 0 \<le> c \<and> cb + c \<le> MaxInt64 \<and> 0 \<le> ob \<and> 0 \<le> o' \<and> ob + o' \<le> MaxInt64
     \<and> 0 \<le> sq \<and> sq + 1 \<le> MaxInt64"
  using acc.cadd_InrD by (fastforce simp: settleFits_def split: sum.splits)

lemma checkGrants_OK:
  "checkGrants bound c o' j gids = SettleOK \<Longrightarrow> gid \<in> set gids \<Longrightarrow>
     \<exists>g. Mapping.lookup (j_Grants j) gid = Some g \<and> \<not> gr_Closed g \<and> 0 < gr_Pending g \<and> bound \<le> gr_Reserved g
       \<and> settleFits c o' (gr_Consumed g) (gr_Observed g) (gr_Sequence g) = None"
  by (induction bound c o' j gids rule: checkGrants.induct) (auto split: option.splits if_splits)

lemma settledAmounts_le:
  "settledAmounts bound actual complete = (c, o') \<Longrightarrow> \<not> o' > bound \<Longrightarrow> c \<le> bound"
  by (auto simp: settledAmounts_def split: option.splits if_splits)

lemma settleMeters_sel:
  "j_Grants (fold (settleMeter c o') mids j) = j_Grants j \<and> j_Permits (fold (settleMeter c o') mids j) = j_Permits j
   \<and> j_Budgets (fold (settleMeter c o') mids j) = j_Budgets j \<and> j_Requests (fold (settleMeter c o') mids j) = j_Requests j
   \<and> (finite (Mapping.keys (j_Meters j)) \<longrightarrow> finite (Mapping.keys (j_Meters (fold (settleMeter c o') mids j))))"
  by (induction mids arbitrary: j) (simp_all add: settleMeter_def)

lemma journal_inv_frame:
  assumes "journal_inv j" and "j_Grants j' = j_Grants j" and "j_Permits j' = j_Permits j" and "j_Budgets j' = j_Budgets j"
    and "finite (Mapping.keys (j_Requests j'))" and "finite (Mapping.keys (j_Meters j'))"
  shows "journal_inv j'"
  using assms by (simp add: journal_inv_def permit_inv_def)

lemma fold_overrun:
  "Mapping.lookup (fold (\<lambda>gid gs. Mapping.map_entry gid (\<lambda>g. g\<lparr>gr_Overrun := True\<rparr>) gs) gids gs) x =
     map_option (\<lambda>g. if x \<in> set gids then g\<lparr>gr_Overrun := True\<rparr> else g) (Mapping.lookup gs x)"
  by (induction gids arbitrary: gs)
    (simp_all add: lookup_map_entry' option.map_comp comp_def map_option.id [unfolded id_def] map_option_case
      split: option.split)

lemma poison_inv:
  assumes inv: "journal_inv j" and p: "Mapping.lookup (j_Permits j) pid = Some p" and nd: "\<not> pm_Done p"
  shows "journal_inv (poisonJournal pid p invalidUsage actual j)"
proof -
  let ?j = "poisonJournal pid p invalidUsage actual j"
  let ?p = "p\<lparr>pm_Retired := True, pm_InvalidUsage := invalidUsage, pm_Actual := (case actual of None \<Rightarrow> pm_Actual p | Some a \<Rightarrow> Some a)\<rparr>"
  have jp: "j_Permits ?j = Mapping.update pid ?p (j_Permits j)" by (simp add: poisonJournal_def)
  have h: "holders (j_Permits ?j) gid = holders (j_Permits j) gid" for gid
    using p nd by (auto simp: jp holders_def lookup_update' split: if_splits)
  have "boundOf (j_Permits ?j) x = boundOf (j_Permits j) x" for x
    using p by (cases "x = pid") (simp_all add: jp boundOf_def lookup_update')
  then have held: "heldAmount (j_Permits ?j) gid = heldAmount (j_Permits j) gid"
    "heldCount (j_Permits ?j) gid = heldCount (j_Permits j) gid" for gid
    by (simp_all add: heldAmount_def heldCount_def h)
  have lk: "Mapping.lookup (j_Grants ?j) gid = map_option (\<lambda>g. if invalidUsage \<and> gid \<in> set (pm_Grants p)
      then g\<lparr>gr_Overrun := True\<rparr> else g) (Mapping.lookup (j_Grants j) gid)" for gid
    by (simp add: poisonJournal_def fold_overrun map_option.id [unfolded id_def])
  then have keys: "Mapping.keys (j_Grants ?j) = Mapping.keys (j_Grants j)"
    by (auto simp: keys_lookup)
  have "grant_inv (j_Permits ?j) gid g" if l: "Mapping.lookup (j_Grants ?j) gid = Some g" for gid g
  proof -
    obtain z where z: "Mapping.lookup (j_Grants j) gid = Some z"
      "g = (if invalidUsage \<and> gid \<in> set (pm_Grants p) then z\<lparr>gr_Overrun := True\<rparr> else z)"
      using l by (auto simp: lk)
    have "grant_inv (j_Permits j) gid z" using journal_invD(6) [OF inv z(1)] .
    with z(2) show ?thesis by (auto simp: grant_inv_def held)
  qed
  moreover have "permit_inv ?j q" if "Mapping.lookup (j_Permits ?j) x = Some q" for x q
  proof -
    have "permit_inv j q"
      using that p journal_invD(7) [OF inv] by (auto simp: jp lookup_update' permit_inv_def split: if_splits)
    then show ?thesis using permit_inv_cong [OF keys] by simp
  qed
  moreover have "j_Budgets ?j = j_Budgets j" "j_Requests ?j = j_Requests j" "j_Meters ?j = j_Meters j"
    by (simp_all add: poisonJournal_def)
  ultimately show ?thesis
    using journal_invD [OF inv] keys by (simp add: journal_inv_def jp)
qed

lemma finishBody_inv:
  assumes "finishBody s auth actual complete now j = Inr (j', r)" and inv: "journal_inv j"
  shows "journal_inv j'"
proof -
  obtain p where p: "Mapping.lookup (j_Permits j) (bp_ID auth) = Some p"
    using assms(1) by (auto simp: finishBody_def split: option.splits)
  obtain c o' where am: "settledAmounts (pm_Bound p) actual complete = (c, o')" by fastforce
  let ?over = "bp_InvalidUsage auth \<or> o' > pm_Bound p"
  let ?p = "p\<lparr>pm_Done := True, pm_Complete := complete, pm_InvalidUsage := bp_InvalidUsage auth,
    pm_Actual := (case actual of None \<Rightarrow> pm_Actual p | Some a \<Rightarrow> Some a)\<rparr>"
  consider (replay) "j' = j"
    | (poison) "\<not> pm_Done p" "j' = poisonJournal (bp_ID auth) p (bp_InvalidUsage auth) actual j"
    | (settle) j1 where "\<not> pm_Done p" "checkGrants (pm_Bound p) c o' j (pm_Grants p) = SettleOK"
        "foldE (onGrant (settleGrant (pm_Bound p) c o' ?over)) (pm_Grants p) j = Inr j1"
        "closeInactive s now ((fold (settleMeter c o') (pm_Meters p) j1)\<lparr>j_Permits :=
           Mapping.update (bp_ID auth) ?p (j_Permits (fold (settleMeter c o') (pm_Meters p) j1)),
           j_Poisoned := (j_Poisoned (fold (settleMeter c o') (pm_Meters p) j1) \<or> ?over)\<rparr>) = Inr j'"
    using assms(1) p am
    by (auto simp: finishBody_def Let_def split: if_splits settle_check.splits sum.splits)
  then show ?thesis
  proof cases
    case replay
    then show ?thesis using inv by simp
  next
    case poison
    then show ?thesis using poison_inv [OF inv p] by simp
  next
    case settle
    have b: "0 \<le> pm_Bound p" using inv_bound_nonneg [OF inv p] .
    have "releases (pm_Bound p) g g'"
      if "gid \<in> set (pm_Grants p)" "Mapping.lookup (j_Grants j) gid = Some g"
        "settleGrant (pm_Bound p) c o' ?over g = Inr g'" for gid g g'
    proof -
      have ok: "\<not> gr_Closed g" "0 < gr_Pending g" "pm_Bound p \<le> gr_Reserved g"
        "settleFits c o' (gr_Consumed g) (gr_Observed g) (gr_Sequence g) = None"
        using checkGrants_OK [OF settle(2) that(1)] that(2) by auto
      note fits = settleFits_None [OF ok(4)]
      have gi: "grant_inv (j_Permits j) gid g" using journal_invD(6) [OF inv that(2)] .
      have add: "add64 (gr_Consumed g) c = gr_Consumed g + c" "add64 (gr_Observed g) o' = gr_Observed g + o'"
        using fits by (simp_all add: add64_exact in64_bounds)
      have "\<not> ?over \<Longrightarrow> c \<le> pm_Bound p" using settledAmounts_le [OF am] by auto
      with that(3) ok fits gi b show ?thesis
        by (auto simp: settleGrant_def releases_def Let_def add grant_inv_def sub64_dec sub64_le split: if_splits)
    qed
    then have J: "journal_inv (j1\<lparr>j_Permits := Mapping.update (bp_ID auth) ?p (j_Permits j1)\<rparr>)"
      by (intro settle_permit_inv [OF inv p settle(1) _ _ _ settle(3)]) simp_all
    have "journal_inv ((fold (settleMeter c o') (pm_Meters p) j1)\<lparr>j_Permits :=
           Mapping.update (bp_ID auth) ?p (j_Permits (fold (settleMeter c o') (pm_Meters p) j1)),
           j_Poisoned := (j_Poisoned (fold (settleMeter c o') (pm_Meters p) j1) \<or> ?over)\<rparr>)"
      by (rule journal_inv_frame [OF J])
        (use settleMeters_sel [of c o' "pm_Meters p" j1] journal_invD(4,5) [OF J] in simp_all)
    then show ?thesis using closeInactive_inv [OF _ settle(4)] by simp
  qed
qed

section \<open>Collection\<close>

lemma lookup_fold_delete: "Mapping.lookup (fold Mapping.delete ks m) k = (if k \<in> set ks then None else Mapping.lookup m k)"
  by (induction ks arbitrary: m) (auto simp: lookup_delete')

lemma finite_fold_delete: "finite (Mapping.keys m) \<Longrightarrow> finite (Mapping.keys (fold Mapping.delete ks m))"
  by (induction ks arbitrary: m) simp_all

lemma keepDone_done:
  "pid \<in> set (keepDone ps pids order) \<Longrightarrow> pid \<in> set order \<or> (\<exists>p. Mapping.lookup ps pid = Some p \<and> pm_Done p)"
  by (induction ps pids order rule: keepDone.induct) (auto split: if_splits option.splits)

lemma dropHead_append: "dropHead n xs = (dropped, left) \<Longrightarrow> dropped @ left = xs"
  by (auto simp: dropHead_def Let_def split: if_splits)

lemma collectPermits_outcome:
  assumes "finite (Mapping.keys (j_Permits j))"
  shows "collectPermits j = j\<lparr>j_Permits := j_Permits (collectPermits j), j_Completed := j_Completed (collectPermits j)\<rparr>
    \<and> same_undone (j_Permits j) (j_Permits (collectPermits j)) \<and> finite (Mapping.keys (j_Permits (collectPermits j)))
    \<and> (\<forall>pid p. Mapping.lookup (j_Permits (collectPermits j)) pid = Some p \<longrightarrow>
         (\<exists>q. Mapping.lookup (j_Permits j) pid = Some q \<and> (p = q \<or> pm_Done p \<and> p = q\<lparr>pm_Grants := [], pm_Meters := []\<rparr>)))"
proof -
  let ?seen = "keepDone (j_Permits j) (j_Completed j) []"
  let ?order = "?seen @ filter (\<lambda>pid. permitDone j pid \<and> pid \<notin> set ?seen) (Mapping.ordered_keys (j_Permits j))"
  let ?ps = "Mapping.map_values (\<lambda>k p. if pm_Done p then p\<lparr>pm_Grants := [], pm_Meters := []\<rparr> else p) (j_Permits j)"
  obtain dropped left where d: "dropHead completedReceiptLimit ?order = (dropped, left)" by fastforce
  have c: "collectPermits j = j\<lparr>j_Permits := fold Mapping.delete dropped ?ps, j_Completed := left\<rparr>"
    by (simp add: collectPermits_def d)
  have "\<exists>p. Mapping.lookup (j_Permits j) pid = Some p \<and> pm_Done p" if "pid \<in> set dropped" for pid
  proof -
    have "pid \<in> set ?order" using that dropHead_append [OF d] by (metis Un_iff set_append)
    then show ?thesis using keepDone_done [of pid "j_Permits j" "j_Completed j" "[]"]
      by (auto simp: permitDone_def split: option.splits)
  qed
  then have su: "same_undone (j_Permits j) (fold Mapping.delete dropped ?ps)"
    by (fastforce simp: same_undone_def lookup_fold_delete lookup_map_values split: if_splits)
  have "\<forall>pid p. Mapping.lookup (fold Mapping.delete dropped ?ps) pid = Some p \<longrightarrow>
         (\<exists>q. Mapping.lookup (j_Permits j) pid = Some q \<and> (p = q \<or> pm_Done p \<and> p = q\<lparr>pm_Grants := [], pm_Meters := []\<rparr>))"
    by (auto simp: lookup_fold_delete lookup_map_values split: if_splits)
  with su show ?thesis using assms by (simp add: c finite_fold_delete)
qed

lemma collectPermits_inv:
  assumes "journal_inv j"
  shows "journal_inv (collectPermits j)"
proof -
  note c = collectPermits_outcome [OF journal_invD(2) [OF assms]]
  let ?j = "collectPermits j"
  have sel: "j_Grants ?j = j_Grants j" "j_Budgets ?j = j_Budgets j" "j_Requests ?j = j_Requests j" "j_Meters ?j = j_Meters j"
    by (simp_all add: collectPermits_def Let_def split: prod.split)
  have "permit_inv ?j p" if l: "Mapping.lookup (j_Permits ?j) pid = Some p" for pid p
  proof -
    obtain q where q: "Mapping.lookup (j_Permits j) pid = Some q" "p = q \<or> pm_Done p \<and> p = q\<lparr>pm_Grants := [], pm_Meters := []\<rparr>"
      using c l by blast
    have "permit_inv j q" using journal_invD(7) [OF assms q(1)] .
    with q(2) show ?thesis by (auto simp: permit_inv_def sel)
  qed
  moreover have "grant_inv (j_Permits ?j) gid g" if "Mapping.lookup (j_Grants j) gid = Some g" for gid g
    using grant_inv_same_undone c journal_invD(6) [OF assms that] by blast
  ultimately show ?thesis using journal_invD [OF assms] c by (simp add: journal_inv_def sel)
qed

lemma remember_sel [simp]:
  "j_Grants (remember rid rc j) = j_Grants j" "j_Permits (remember rid rc j) = j_Permits j"
  "j_Budgets (remember rid rc j) = j_Budgets j" "j_Requests (remember rid rc j) = j_Requests j"
  "j_Meters (remember rid rc j) = j_Meters j" "j_ServerTime (remember rid rc j) = j_ServerTime j"
  by (simp_all add: remember_def Let_def split: prod.split)

definition covers :: "string list \<Rightarrow> journal \<Rightarrow> bool" where
  "covers pending j \<longleftrightarrow> (\<forall>pid p gid. Mapping.lookup (j_Permits j) pid = Some p \<longrightarrow> \<not> pm_Done p \<longrightarrow>
     gid \<in> set (pm_Grants p) \<longrightarrow> gid \<in> set pending)"

lemma delete_grant_inv:
  assumes "journal_inv j" and "\<forall>pid p. Mapping.lookup (j_Permits j) pid = Some p \<longrightarrow> \<not> pm_Done p \<longrightarrow> gid \<notin> set (pm_Grants p)"
  shows "journal_inv (j\<lparr>j_Grants := Mapping.delete gid (j_Grants j)\<rparr>)"
proof -
  have "permit_inv (j\<lparr>j_Grants := Mapping.delete gid (j_Grants j)\<rparr>) p"
    if "Mapping.lookup (j_Permits j) pid = Some p" for pid p
    using journal_invD(7) [OF assms(1) that] assms(2) that by (auto simp: permit_inv_def lookup_delete')
  moreover have "grant_inv (j_Permits j) x g" if "Mapping.lookup (Mapping.delete gid (j_Grants j)) x = Some g" for x g
    using that journal_invD(6) [OF assms(1)] by (simp add: lookup_delete' split: if_splits)
  ultimately show ?thesis using journal_invD [OF assms(1)] by (simp add: journal_inv_def)
qed

lemma collectGrant_inv:
  assumes "journal_inv j" and "covers pending j"
  shows "journal_inv (collectGrant fp pending gid j) \<and> j_Permits (collectGrant fp pending gid j) = j_Permits j"
proof (cases "Mapping.lookup (j_Grants j) gid")
  case None
  then show ?thesis using assms by (simp add: collectGrant_def)
next
  case (Some g)
  have "journal_inv (remember rid rc j\<lparr>j_Requests := Mapping.delete x (j_Requests j),
      j_Grants := Mapping.delete gid (j_Grants j)\<rparr>)" if "gid \<notin> set pending" for rid rc x
  proof -
    have "journal_inv (j\<lparr>j_Grants := Mapping.delete gid (j_Grants j)\<rparr>)"
      using delete_grant_inv [OF assms(1)] assms(2) that by (auto simp: covers_def)
    then show ?thesis
      by (rule journal_inv_frame) (use journal_invD(4,5) [OF assms(1)] in simp_all)
  qed
  then show ?thesis
    using assms(1) Some by (simp add: collectGrant_def Let_def)
qed

lemma collectGrants_inv:
  assumes "journal_inv j" and "covers pending j"
  shows "journal_inv (fold (collectGrant fp pending) gids j) \<and> j_Permits (fold (collectGrant fp pending) gids j) = j_Permits j"
  using assms
proof (induction gids arbitrary: j)
  case (Cons gid gids)
  then show ?case using collectGrant_inv [OF Cons.prems, of fp gid] by (simp add: covers_def)
qed simp

lemma collectMeters_inv:
  "journal_inv j \<Longrightarrow> journal_inv (fold (collectMeter inst pending) mids j)"
proof (induction mids arbitrary: j)
  case (Cons mid mids)
  have "journal_inv (remember rid rc j\<lparr>j_Meters := Mapping.delete mid (j_Meters j)\<rparr>)" for rid rc
    by (rule journal_inv_frame [OF Cons.prems]) (use journal_invD(4,5) [OF Cons.prems] in simp_all)
  then have "journal_inv (collectMeter inst pending mid j)"
    using Cons.prems by (simp add: collectMeter_def Let_def split: option.split)
  then show ?case using Cons.IH by simp
qed simp

lemma collectObsolete_inv:
  assumes "journal_inv j"
  shows "journal_inv (collectObsoleteRequests j)"
proof -
  have "finite (Mapping.keys (fold Mapping.delete ks (Mapping.filter P (j_Requests j))))" for ks P
    using journal_invD(4) [OF assms] by (simp add: finite_fold_delete finite_keys_filter)
  then show ?thesis
    by (intro journal_inv_frame [OF assms])
      (use journal_invD(5) [OF assms] in \<open>simp_all add: collectObsoleteRequests_def Let_def split: prod.split\<close>)
qed

lemma pendingOf_covers:
  assumes "finite (Mapping.keys (j_Permits j))"
  shows "covers (pendingOf pm_Grants j) j"
  unfolding covers_def
proof (intro allI impI)
  fix pid p gid
  assume p: "Mapping.lookup (j_Permits j) pid = Some p" "\<not> pm_Done p" "gid \<in> set (pm_Grants p)"
  then have "pid \<in> set (Mapping.ordered_keys (j_Permits j))" using assms by (simp add: lookup_in_keys)
  with p show "gid \<in> set (pendingOf pm_Grants j)" unfolding pendingOf_def by force
qed

lemma collect_inv:
  assumes "journal_inv j"
  shows "journal_inv (collect fp inst j)"
proof -
  have "covers (pendingOf pm_Grants j) (collectPermits j)"
    using pendingOf_covers [OF journal_invD(2) [OF assms]] collectPermits_outcome [OF journal_invD(2) [OF assms]]
    by (auto simp: covers_def same_undone_def)
  then show ?thesis
    using collectGrants_inv [OF collectPermits_inv [OF assms]]
    by (simp add: collect_def Let_def collectMeters_inv collectObsolete_inv)
qed

section \<open>Restart\<close>

lemma retireMeters_sel:
  assumes "foldE (retireMeter bound) mids j = Inr j'"
  shows "j_Grants j' = j_Grants j \<and> j_Permits j' = j_Permits j \<and> j_Budgets j' = j_Budgets j \<and> j_Requests j' = j_Requests j
    \<and> (finite (Mapping.keys (j_Meters j)) \<longrightarrow> finite (Mapping.keys (j_Meters j')))"
  using assms
proof (induction mids arbitrary: j)
  case (Cons mid mids)
  then obtain j1 where j1: "retireMeter bound mid j = Inr j1" "foldE (retireMeter bound) mids j1 = Inr j'"
    by (auto split: sum.splits)
  then have "j_Grants j1 = j_Grants j \<and> j_Permits j1 = j_Permits j \<and> j_Budgets j1 = j_Budgets j \<and> j_Requests j1 = j_Requests j
    \<and> (finite (Mapping.keys (j_Meters j)) \<longrightarrow> finite (Mapping.keys (j_Meters j1)))"
    by (auto simp: retireMeter_def split: option.splits sum.splits)
  then show ?case using Cons.IH [OF j1(2)] by simp
qed simp

text \<open>After the permits are retired: the same permits, those of the list done, all else but the meters unchanged.\<close>

definition retired :: "string set \<Rightarrow> journal \<Rightarrow> journal \<Rightarrow> bool" where
  "retired D j j' \<longleftrightarrow> j_Grants j' = j_Grants j \<and> j_Budgets j' = j_Budgets j \<and> j_Requests j' = j_Requests j
     \<and> (finite (Mapping.keys (j_Meters j)) \<longrightarrow> finite (Mapping.keys (j_Meters j')))
     \<and> Mapping.keys (j_Permits j') = Mapping.keys (j_Permits j)
     \<and> (\<forall>pid p'. Mapping.lookup (j_Permits j') pid = Some p' \<longrightarrow>
          (\<exists>p. Mapping.lookup (j_Permits j) pid = Some p \<and> pm_Bound p' = pm_Bound p \<and> pm_Grants p' = pm_Grants p
             \<and> (pid \<in> D \<longrightarrow> pm_Done p') \<and> (pm_Done p \<longrightarrow> pm_Done p')))"

lemma retired_trans:
  assumes "retired D j j1" and "retired E j1 j2"
  shows "retired (D \<union> E) j j2"
proof -
  have "\<exists>p. Mapping.lookup (j_Permits j) pid = Some p \<and> pm_Bound p2 = pm_Bound p \<and> pm_Grants p2 = pm_Grants p
      \<and> (pid \<in> D \<union> E \<longrightarrow> pm_Done p2) \<and> (pm_Done p \<longrightarrow> pm_Done p2)"
    if l: "Mapping.lookup (j_Permits j2) pid = Some p2" for pid p2
  proof -
    obtain p1 where p1: "Mapping.lookup (j_Permits j1) pid = Some p1" "pm_Bound p2 = pm_Bound p1" "pm_Grants p2 = pm_Grants p1"
      "pid \<in> E \<longrightarrow> pm_Done p2" "pm_Done p1 \<longrightarrow> pm_Done p2" using assms(2) l unfolding retired_def by blast
    obtain p where "Mapping.lookup (j_Permits j) pid = Some p" "pm_Bound p1 = pm_Bound p" "pm_Grants p1 = pm_Grants p"
      "pid \<in> D \<longrightarrow> pm_Done p1" "pm_Done p \<longrightarrow> pm_Done p1" using assms(1) p1(1) unfolding retired_def by blast
    with p1 show ?thesis by auto
  qed
  then show ?thesis using assms unfolding retired_def by simp
qed

lemma retirePermit_retired:
  assumes "retirePermit pid j = Inr j'"
  shows "retired {pid} j j'"
proof (cases "Mapping.lookup (j_Permits j) pid")
  case None
  then show ?thesis using assms by (auto simp: retirePermit_def retired_def)
next
  case (Some p)
  show ?thesis
  proof (cases "pm_Done p")
    case True
    then show ?thesis using assms Some by (auto simp: retirePermit_def retired_def)
  next
    case False
    then obtain j1 where j1: "foldE (retireMeter (pm_Bound p)) (pm_Meters p) j = Inr j1"
      "j' = j1\<lparr>j_Permits := Mapping.update pid (p\<lparr>pm_Done := True, pm_Retired := True\<rparr>) (j_Permits j1)\<rparr>"
      using assms Some by (auto simp: retirePermit_def split: sum.splits)
    show ?thesis
      using retireMeters_sel [OF j1(1)] Some
      by (auto simp: retired_def j1(2) lookup_update' insert_absorb lookup_in_keys split: if_splits)
  qed
qed

lemma retirePermits_retired: "foldE retirePermit pids j = Inr j' \<Longrightarrow> retired (set pids) j j'"
proof (induction pids arbitrary: j)
  case Nil
  then show ?case by (auto simp: retired_def)
next
  case (Cons pid pids)
  then obtain j1 where j1: "retirePermit pid j = Inr j1" "foldE retirePermit pids j1 = Inr j'"
    by (auto split: sum.splits)
  from retired_trans [OF retirePermit_retired [OF j1(1)] Cons.IH [OF j1(2)]] show ?case by simp
qed

lemma burn_Inr:
  "burn g = Inr g' \<Longrightarrow> gr_Wire g' = gr_Wire g \<and> gr_Instance g' = gr_Instance g \<and> gr_Overrun g' = gr_Overrun g
     \<and> gr_Observed g' = gr_Observed g \<and> gr_Closed g' \<and> gr_Reserved g' = 0 \<and> gr_Pending g' = 0
     \<and> gr_Consumed g' = max (gr_Consumed g) (ag_Amount (gr_Wire g))"
  by (auto simp: burn_def Let_def split: sum.splits)

text \<open>A retired journal: nothing in flight, every grant closed and burned, every request obsolete.\<close>

lemma retire_outcome:
  assumes "retire j = Inr j'" and inv: "journal_inv j"
  shows "journal_inv j' \<and> j_Budgets j' = j_Budgets j
    \<and> (\<forall>pid p. Mapping.lookup (j_Permits j') pid = Some p \<longrightarrow> pm_Done p)
    \<and> (\<forall>gid g. Mapping.lookup (j_Grants j') gid = Some g \<longrightarrow> gr_Closed g \<and> ag_Amount (gr_Wire g) \<le> gr_Consumed g)
    \<and> (\<forall>rid r. Mapping.lookup (j_Requests j') rid = Some r \<longrightarrow> rq_Obsolete r)"
proof -
  obtain j1 j2 where j1: "foldE retirePermit (Mapping.ordered_keys (j_Permits j)) j = Inr j1"
    and j2: "foldE (onGrant burn) (Mapping.ordered_keys (j_Grants j1)) j1 = Inr j2"
    and j': "j' = j2\<lparr>j_Requests := Mapping.map_values (\<lambda>k r. r\<lparr>rq_Obsolete := True\<rparr>) (j_Requests j2)\<rparr>"
    using assms(1) by (auto simp: retire_def split: sum.splits)
  note rp = retirePermits_retired [OF j1]
  have fin: "finite (Mapping.keys (j_Permits j))" "finite (Mapping.keys (j_Grants j))" using journal_invD [OF inv] by simp_all
  have alldone: "pm_Done p" if "Mapping.lookup (j_Permits j1) pid = Some p" for pid p
  proof -
    have "pid \<in> Mapping.keys (j_Permits j)" using rp that by (auto simp: retired_def lookup_in_keys)
    then show ?thesis using rp that fin(1) unfolding retired_def by fastforce
  qed
  then have "holders (j_Permits j1) gid = {}" for gid by (auto simp: holders_def)
  then have held: "heldAmount (j_Permits j1) gid = 0" "heldCount (j_Permits j1) gid = 0" for gid
    by (simp_all add: heldAmount_def heldCount_def)
  note r = foldE_onGrant [OF j2 distinct_ordered_keys]
  have sel: "j_Permits j2 = j_Permits j1" "j_Budgets j2 = j_Budgets j1" "j_Requests j2 = j_Requests j1" "j_Meters j2 = j_Meters j1"
    using r by (metis journal.select_convs(5,7,8,9) journal.surjective journal.update_convs(6))+
  have g1: "j_Grants j1 = j_Grants j" using rp by (simp add: retired_def)
  have burned: "\<exists>g0. Mapping.lookup (j_Grants j) gid = Some g0 \<and> burn g0 = Inr g"
    if "Mapping.lookup (j_Grants j2) gid = Some g" for gid g
  proof -
    have "gid \<in> Mapping.keys (j_Grants j1)" using r that lookup_in_keys by metis
    then have "gid \<in> set (Mapping.ordered_keys (j_Grants j1))" using fin(2) g1 by simp
    then obtain g0 g' where "Mapping.lookup (j_Grants j1) gid = Some g0" "burn g0 = Inr g'"
      "Mapping.lookup (j_Grants j2) gid = Some g'" using r by blast
    then show ?thesis using that g1 by auto
  qed
  have "grant_inv (j_Permits j1) gid g" if l: "Mapping.lookup (j_Grants j2) gid = Some g" for gid g
  proof -
    obtain g0 where g0: "Mapping.lookup (j_Grants j) gid = Some g0" "burn g0 = Inr g" using burned [OF l] by blast
    have "grant_inv (j_Permits j) gid g0" using journal_invD(6) [OF inv g0(1)] .
    moreover have "0 \<le> gr_Reserved g0" by (rule inv_reserved_nonneg [OF inv calculation])
    ultimately show ?thesis using burn_Inr [OF g0(2)] by (auto simp: grant_inv_def held)
  qed
  moreover have "permit_inv j' p" if l: "Mapping.lookup (j_Permits j1) pid = Some p" for pid p
  proof -
    obtain q where q: "Mapping.lookup (j_Permits j) pid = Some q" "pm_Bound p = pm_Bound q" "pm_Grants p = pm_Grants q"
      using rp l unfolding retired_def by blast
    have "permit_inv j q" using journal_invD(7) [OF inv q(1)] .
    then show ?thesis using q alldone [OF l] by (simp add: permit_inv_def)
  qed
  moreover have "finite (Mapping.keys (j_Permits j1))" "finite (Mapping.keys (j_Meters j1))"
    "finite (Mapping.keys (j_Requests j1))" "finite (Mapping.keys (j_Grants j2))" "j_Budgets j1 = j_Budgets j"
    using rp fin journal_invD [OF inv] r g1 by (simp_all add: retired_def)
  ultimately have "journal_inv j'"
    using journal_invD(3,8) [OF inv] by (simp add: journal_inv_def j' sel)
  moreover have "gr_Closed g \<and> ag_Amount (gr_Wire g) \<le> gr_Consumed g" if "Mapping.lookup (j_Grants j2) gid = Some g" for gid g
    using burned [OF that] burn_Inr by fastforce
  ultimately show ?thesis
    using alldone \<open>j_Budgets j1 = j_Budgets j\<close> by (auto simp: j' sel lookup_map_values)
qed

section \<open>Synchronization\<close>

lemma requestStep_inv: "journal_inv j \<Longrightarrow> journal_inv (fst (requestStep s rid (j, out)))"
  by (auto simp: requestStep_def intro!: journal_inv_frame [where j = j] dest: journal_invD split: option.split)

lemma reportStep_inv:
  assumes "journal_inv j"
  shows "journal_inv (fst (reportStep gid (j, out)))"
proof (cases "Mapping.lookup (j_Grants j) gid")
  case None
  then show ?thesis using assms by (simp add: reportStep_def)
next
  case (Some g)
  have "grant_inv (j_Permits j) gid (g\<lparr>gr_Sent := gr_Sequence g\<rparr>)"
    using journal_invD(6) [OF assms Some] by (auto simp: grant_inv_def)
  from update_grant_inv [OF assms Some this]
  have J: "journal_inv (j\<lparr>j_Grants := Mapping.update gid (g\<lparr>gr_Sent := gr_Sequence g\<rparr>) (j_Grants j)\<rparr>)" .
  have "journal_inv (j\<lparr>j_Grants := Mapping.update gid (g\<lparr>gr_Sent := gr_Sequence g\<rparr>) (j_Grants j), j_ReportCursor := gid\<rparr>)"
    by (rule journal_inv_frame [OF J]) (use journal_invD(4,5) [OF assms] in simp_all)
  then show ?thesis using assms Some by (simp add: reportStep_def)
qed

lemma meterStep_inv: "journal_inv j \<Longrightarrow> journal_inv (fst (meterStep mid (j, out)))"
  by (auto simp: meterStep_def intro!: journal_inv_frame [where j = j] dest: journal_invD split: option.split)

lemma fold_step_inv:
  assumes "\<And>x j out. journal_inv j \<Longrightarrow> journal_inv (fst (f x (j, out)))" and "journal_inv j"
  shows "journal_inv (fst (fold f xs (j, out)))"
  using assms(2)
proof (induction xs arbitrary: j out)
  case (Cons x xs)
  obtain j1 o1 where 1: "f x (j, out) = (j1, o1)" by fastforce
  with assms(1) [OF Cons.prems, of x out] Cons.IH [of j1 o1] show ?case by simp
qed simp

lemma requestBody_inv:
  assumes "requestBody s now j = Inr (j', r)" and "journal_inv j"
  shows "journal_inv j'"
proof -
  obtain j1 where j1: "closeInactive s now j = Inr j1" using assms(1) by (auto simp: requestBody_def split: sum.splits)
  let ?a = "fold (requestStep s) (rotatingKeys (j_Requests j1) (j_RequestCursor j1)) (j1, [])"
  let ?b = "fold reportStep (rotatingKeys (j_Grants (fst ?a)) (j_ReportCursor (fst ?a))) (fst ?a, [])"
  let ?c = "fold meterStep (rotatingKeys (j_Meters (fst ?b)) (j_MeterCursor (fst ?b))) (fst ?b, [])"
  have "journal_inv j1" using closeInactive_inv [OF assms(2) j1] by simp
  then have "journal_inv (fst ?a)" by (rule fold_step_inv [rotated]) (rule requestStep_inv)
  then have "journal_inv (fst ?b)" by (rule fold_step_inv [rotated]) (rule reportStep_inv)
  then have "journal_inv (fst ?c)" by (rule fold_step_inv [rotated]) (rule meterStep_inv)
  moreover have "j' = fst ?c" using assms(1) j1 by (auto simp: requestBody_def split: prod.splits)
  ultimately show ?thesis by simp
qed

lemma validateBudgets_keys:
  assumes "validateBudgetsFrom t bs ws res = Inr budgets"
    and "\<forall>k b. Mapping.lookup res k = Some b \<longrightarrow> ab_Key b = k" and "finite (Mapping.keys res)"
  shows "(\<forall>k b. Mapping.lookup budgets k = Some b \<longrightarrow> ab_Key b = k) \<and> finite (Mapping.keys budgets)"
  using assms
proof (induction bs arbitrary: ws res)
  case Nil
  then show ?case by simp
next
  case (Cons b bs)
  have "validateBudgetsFrom t bs (ab_WindowID b # ws) (Mapping.update (ab_Key b) b res) = Inr budgets"
    using Cons.prems(1) by (simp split: if_splits)
  moreover have "\<forall>k x. Mapping.lookup (Mapping.update (ab_Key b) b res) k = Some x \<longrightarrow> ab_Key x = k"
    using Cons.prems(2) by (simp add: lookup_update')
  moreover have "finite (Mapping.keys (Mapping.update (ab_Key b) b res))" using Cons.prems(3) by simp
  ultimately show ?case by (rule Cons.IH)
qed

lemma installSnapshot_inv:
  assumes "installSnapshot received rtt r budgets ws j = Inr (j', ws', stale)" and "journal_inv j"
    and "\<forall>k b. Mapping.lookup budgets k = Some b \<longrightarrow> ab_Key b = k" and "finite (Mapping.keys budgets)"
  shows "journal_inv j'"
  using assms by (auto simp: installSnapshot_def Let_def journal_inv_def permit_inv_def split: if_splits)

lemma no_holder:
  assumes "journal_inv j" and "Mapping.lookup (j_Grants j) gid = None"
  shows "heldAmount (j_Permits j) gid = 0" and "heldCount (j_Permits j) gid = 0"
proof -
  have "holders (j_Permits j) gid = {}"
    using journal_invD(7) [OF assms(1)] assms(2) by (fastforce simp: holders_def permit_inv_def)
  then show "heldAmount (j_Permits j) gid = 0" and "heldCount (j_Permits j) gid = 0"
    by (simp_all add: heldAmount_def heldCount_def)
qed

lemma new_grant_inv:
  assumes "journal_inv j" and "Mapping.lookup (j_Grants j) gid = None" and "grant_inv (j_Permits j) gid g"
  shows "journal_inv (j\<lparr>j_Grants := Mapping.update gid g (j_Grants j)\<rparr>)"
proof -
  have "permit_inv (j\<lparr>j_Grants := Mapping.update gid g (j_Grants j)\<rparr>) p"
    if "Mapping.lookup (j_Permits j) pid = Some p" for pid p
    using journal_invD(7) [OF assms(1) that] by (auto simp: permit_inv_def lookup_update')
  moreover have "grant_inv (j_Permits j) x y" if "Mapping.lookup (Mapping.update gid g (j_Grants j)) x = Some y" for x y
    using that assms(3) journal_invD(6) [OF assms(1)] by (auto simp: lookup_update' split: if_splits)
  ultimately show ?thesis using journal_invD [OF assms(1)] by (simp add: journal_inv_def)
qed

lemma applyGrant_inv:
  assumes "applyGrant fp s stale received t rtt wire a = Inr a'" and "journal_inv (aa_j a)" and "ag_Amount wire \<le> MaxInt64"
  shows "journal_inv (aa_j a')"
proof (cases "aa_j a' = aa_j a")
  case True
  then show ?thesis using assms(2) by simp
next
  case False
  then obtain r a0 where r: "validateGrant wire (Some r) t" and none: "Mapping.lookup (j_Grants (aa_j a)) (ag_ID wire) = None"
    and a0: "a' = newGrant s stale received t rtt wire r a0" "aa_j a0 = aa_j a"
    using assms(1) by (auto simp: applyGrant_def Let_def split: if_splits option.splits)
  let ?j = "aa_j a"
  obtain g where g: "j_Grants (aa_j a') = Mapping.update (ag_ID wire) g (j_Grants ?j)"
    and gi: "gr_Wire g = wire" "gr_Reserved g = 0" "gr_Pending g = 0" "gr_Observed g = 0" "\<not> gr_Overrun g"
      "gr_Consumed g = 0 \<or> gr_Consumed g = ag_Amount wire"
    using a0 by (auto simp: newGrant_def Let_def)
  have "0 < ag_Amount wire" using r by (auto simp: validateGrant_def)
  then have "grant_inv (j_Permits ?j) (ag_ID wire) g"
    using gi assms(3) no_holder [OF assms(2) none] by (auto simp: grant_inv_def MaxInt64_def)
  from new_grant_inv [OF assms(2) none this]
  have J: "journal_inv (?j\<lparr>j_Grants := Mapping.update (ag_ID wire) g (j_Grants ?j)\<rparr>)" .
  show ?thesis
    by (rule journal_inv_frame [OF J])
      (use g a0 journal_invD(4,5) [OF assms(2)] in \<open>simp_all add: newGrant_def Let_def\<close>)
qed

lemma applyDenial_inv:
  assumes "applyDenial stale d a = Inr a'" and "journal_inv (aa_j a)"
  shows "journal_inv (aa_j a')"
  using assms journal_invD(4) [OF assms(2)]
  by (auto simp: applyDenial_def Let_def intro!: journal_inv_requests split: option.splits if_splits)

lemma applyReportAck_inv:
  assumes "applyReportAck ack (j, seen) = Inr (j', seen')" and "journal_inv j"
  shows "journal_inv j'"
proof (cases "Mapping.lookup (j_Grants j) (ak_ID ack)")
  case None
  then show ?thesis using assms by (auto simp: applyReportAck_def split: option.splits if_splits)
next
  case (Some g)
  have "grant_inv (j_Permits j) (ak_ID ack) (g\<lparr>gr_Ack := max (gr_Ack g) (ak_Sequence ack)\<rparr>)"
    using journal_invD(6) [OF assms(2) Some] by (auto simp: grant_inv_def)
  then show ?thesis
    using update_grant_inv [OF assms(2) Some] assms(1) Some by (auto simp: applyReportAck_def split: if_splits)
qed

lemma applyMeterAck_inv:
  assumes "applyMeterAck ack (j, seen) = Inr (j', seen')" and "journal_inv j"
  shows "journal_inv j'"
proof -
  have J: "journal_inv (j\<lparr>j_Meters := Mapping.update mid m (j_Meters j)\<rparr>)" for mid m
    by (rule journal_inv_frame [OF assms(2)]) (use journal_invD(4,5) [OF assms(2)] in simp_all)
  show ?thesis
    using assms J by (auto simp: applyMeterAck_def Let_def split: option.splits if_splits list.splits)
qed

lemma applyAcks_inv:
  assumes "applyAcks r j = Inr j'" and "journal_inv j"
  shows "journal_inv j'"
proof -
  obtain j1 s1 s2 where 1: "foldE applyReportAck (as_ReportAcks r) (j, []) = Inr (j1, s1)"
    and 2: "foldE applyMeterAck (as_MeterAcks r) (j1, []) = Inr (j', s2)"
    using assms(1) by (auto simp: applyAcks_def split: sum.splits prod.splits)
  have "journal_inv (fst (j1, s1))"
    by (rule foldE_invariant [OF 1, where P = "\<lambda>x. journal_inv (fst x)"])
      (use assms(2) applyReportAck_inv in auto)
  then have "journal_inv (fst (j', s2))"
    by (rule_tac foldE_invariant [OF 2, where P = "\<lambda>x. journal_inv (fst x)"])
      (use applyMeterAck_inv in auto)
  then show ?thesis by simp
qed

lemma closeStale_inv: "grant_inv ps gid g \<Longrightarrow> closeStale received ds bs x g = Inr g' \<Longrightarrow> grant_inv ps gid g'"
  using closeGrant_inv by (auto simp: closeStale_def split: if_splits)

definition response64 :: "AuthorityResponse \<Rightarrow> bool" where
  "response64 r \<longleftrightarrow> (\<forall>g \<in> set (as_Grants r). ag_Amount g \<le> MaxInt64)"

lemma applyBody_inv:
  assumes "applyBody fp s received rtt r budgets j = Inr (j', x)" and "journal_inv j"
    and "validateBudgets r = Inr budgets" and "response64 r"
  shows "journal_inv j'"
proof -
  obtain j1 ws stale a1 a2 j3 ds where
    1: "installSnapshot received rtt r budgets (st_windows s) j = Inr (j1, ws, stale)"
    and 2: "foldE (applyGrant fp s stale received (as_ServerTime r) rtt) (as_Grants r)
        \<lparr>aa_j = j1, aa_deadlines = st_deadlines s, aa_seen = [], aa_ids = []\<rparr> = Inr a1"
    and 3: "foldE (applyDenial stale) (as_Denied r) a1 = Inr a2"
    and 4: "applyAcks r (aa_j a2) = Inr j3"
    and 5: "foldE (\<lambda>gid. onGrant (closeStale received ds (j_Budgets (markObsolete j3)) gid) gid)
        (Mapping.ordered_keys (j_Grants (markObsolete j3))) (markObsolete j3) = Inr j'"
    using assms(1) by (auto simp: applyBody_def Let_def split: sum.splits prod.splits)
  have b: "\<forall>k b. Mapping.lookup budgets k = Some b \<longrightarrow> ab_Key b = k" "finite (Mapping.keys budgets)"
    using validateBudgets_keys [OF assms(3) [unfolded validateBudgets_def]] by simp_all
  have "journal_inv (aa_j a1)"
    by (rule foldE_invariant [OF 2, where P = "\<lambda>a. journal_inv (aa_j a)"])
      (use installSnapshot_inv [OF 1 assms(2) b] applyGrant_inv assms(4) in \<open>auto simp: response64_def\<close>)
  then have "journal_inv (aa_j a2)"
    by (rule foldE_invariant [OF 3, where P = "\<lambda>a. journal_inv (aa_j a)"]) (use applyDenial_inv in auto)
  from applyAcks_inv [OF 4 this]
  have "journal_inv (markObsolete j3)"
    unfolding markObsolete_def by (rule journal_inv_requests) (simp add: journal_invD(4) [OF applyAcks_inv [OF 4 \<open>journal_inv (aa_j a2)\<close>]])
  then show ?thesis
    using foldE_onGrant_inv [OF 5 distinct_ordered_keys] closeStale_inv by blast
qed

end
