(* ===== verification/EscrowCollect.thy ===== *)
theory EscrowCollect
  imports EscrowInv
begin

text \<open>
  What the collector of \<^verbatim>\<open>internal/authority/local/gc.go\<close> keeps. It runs at the end of every
  transaction, so everything said of an operation has to survive it.
\<close>

section \<open>Grants\<close>

text \<open>A grant is finalized when it is closed and the authority acknowledged its last report.\<close>

definition finalized :: "grant \<Rightarrow> bool" where
  "finalized g \<longleftrightarrow> gr_Closed g \<and> gr_Pending g = 0 \<and> gr_Reserved g = 0 \<and> gr_Ack g = gr_Sequence g"

lemma collectGrant_lookup:
  "Mapping.lookup (j_Grants (collectGrant fp pending gid j)) x =
     (case Mapping.lookup (j_Grants j) x of
        None \<Rightarrow> None
      | Some g \<Rightarrow> if x = gid \<and> finalized g \<and> x \<notin> set pending then None else Some g)"
  by (auto simp: collectGrant_def finalized_def Let_def lookup_delete' split: option.split)

lemma collectGrants_lookup:
  "Mapping.lookup (j_Grants (fold (collectGrant fp pending) gids j)) x =
     (case Mapping.lookup (j_Grants j) x of
        None \<Rightarrow> None
      | Some g \<Rightarrow> if x \<in> set gids \<and> finalized g \<and> x \<notin> set pending then None else Some g)"
  by (induction gids arbitrary: j) (auto simp: collectGrant_lookup split: option.splits)

lemma collectGrants_frame:
  "j_Permits (fold (collectGrant fp pending) gids j) = j_Permits j \<and> j_Completed (fold (collectGrant fp pending) gids j) = j_Completed j
   \<and> j_Ready (fold (collectGrant fp pending) gids j) = j_Ready j \<and> j_Poisoned (fold (collectGrant fp pending) gids j) = j_Poisoned j
   \<and> j_Budgets (fold (collectGrant fp pending) gids j) = j_Budgets j"
  by (induction gids arbitrary: j)
    (auto simp: collectGrant_def remember_def Let_def split: option.splits prod.splits)

lemma collectMeters_frame:
  "j_Permits (fold (collectMeter inst pending) mids j) = j_Permits j
   \<and> j_Completed (fold (collectMeter inst pending) mids j) = j_Completed j
   \<and> j_Grants (fold (collectMeter inst pending) mids j) = j_Grants j
   \<and> j_Ready (fold (collectMeter inst pending) mids j) = j_Ready j
   \<and> j_Poisoned (fold (collectMeter inst pending) mids j) = j_Poisoned j
   \<and> j_Budgets (fold (collectMeter inst pending) mids j) = j_Budgets j"
  by (induction mids arbitrary: j)
    (auto simp: collectMeter_def remember_def Let_def split: option.splits prod.splits)

lemma collectObsolete_frame:
  "j_Permits (collectObsoleteRequests j) = j_Permits j \<and> j_Completed (collectObsoleteRequests j) = j_Completed j
   \<and> j_Grants (collectObsoleteRequests j) = j_Grants j \<and> j_Ready (collectObsoleteRequests j) = j_Ready j
   \<and> j_Poisoned (collectObsoleteRequests j) = j_Poisoned j \<and> j_Budgets (collectObsoleteRequests j) = j_Budgets j
   \<and> j_Receipts (collectObsoleteRequests j) = j_Receipts j \<and> j_ReceiptOrder (collectObsoleteRequests j) = j_ReceiptOrder j
   \<and> j_Meters (collectObsoleteRequests j) = j_Meters j"
  by (simp add: collectObsoleteRequests_def Let_def split: prod.split)

lemma collectPermits_frame:
  "j_Grants (collectPermits j) = j_Grants j \<and> j_Ready (collectPermits j) = j_Ready j
   \<and> j_Poisoned (collectPermits j) = j_Poisoned j \<and> j_Budgets (collectPermits j) = j_Budgets j
   \<and> j_Receipts (collectPermits j) = j_Receipts j \<and> j_ReceiptOrder (collectPermits j) = j_ReceiptOrder j
   \<and> j_Requests (collectPermits j) = j_Requests j"
  by (simp add: collectPermits_def Let_def split: prod.split)

lemma collect_frame:
  "j_Permits (collect fp inst j) = j_Permits (collectPermits j) \<and> j_Completed (collect fp inst j) = j_Completed (collectPermits j)
   \<and> j_Ready (collect fp inst j) = j_Ready j \<and> j_Poisoned (collect fp inst j) = j_Poisoned j
   \<and> j_Budgets (collect fp inst j) = j_Budgets j"
  by (simp add: collect_def Let_def collectObsolete_frame collectMeters_frame collectGrants_frame collectPermits_frame)

lemma not_pending:
  assumes "journal_inv j" and "Mapping.lookup (j_Grants j) gid = Some g" and "finalized g"
  shows "gid \<notin> set (pendingOf pm_Grants j)"
proof
  assume "gid \<in> set (pendingOf pm_Grants j)"
  then obtain pid where "gid \<in> set (case Mapping.lookup (j_Permits j) pid of
      None \<Rightarrow> [] | Some p \<Rightarrow> if pm_Done p then [] else pm_Grants p)"
    by (auto simp: pendingOf_def)
  then obtain p where p: "Mapping.lookup (j_Permits j) pid = Some p" "\<not> pm_Done p" "gid \<in> set (pm_Grants p)"
    by (cases "Mapping.lookup (j_Permits j) pid") (auto split: if_splits)
  then have "0 < heldCount (j_Permits j) gid"
    using held_positive(1) [OF journal_invD(2) [OF assms(1)] inv_bound_nonneg [OF assms(1)] p] by simp
  then show False
    using journal_invD(6) [OF assms(1,2)] assms(3) by (simp add: grant_inv_def finalized_def)
qed

lemma collect_grants:
  assumes "journal_inv j"
  shows "Mapping.lookup (j_Grants (collect fp inst j)) gid =
    (case Mapping.lookup (j_Grants j) gid of None \<Rightarrow> None | Some g \<Rightarrow> if finalized g then None else Some g)"
  using journal_invD(1) [OF assms] not_pending [OF assms]
  by (auto simp: collect_def Let_def collectObsolete_frame collectMeters_frame collectGrants_lookup collectPermits_frame
      lookup_in_keys split: option.splits)

section \<open>Permits\<close>

lemma collect_permit_kept:
  assumes "journal_inv j" and "Mapping.lookup (j_Permits (collect fp inst j)) pid = Some p"
  obtains q where "Mapping.lookup (j_Permits j) pid = Some q"
    "p = q \<or> pm_Done p \<and> p = q\<lparr>pm_Grants := [], pm_Meters := []\<rparr>"
  using assms(2) collectPermits_outcome [OF journal_invD(2) [OF assms(1)]] collect_frame [of fp inst j] by metis

lemma collect_permits:
  assumes "journal_inv j" and "\<not> pm_Done p"
  shows "Mapping.lookup (j_Permits (collect fp inst j)) pid = Some p \<longleftrightarrow> Mapping.lookup (j_Permits j) pid = Some p"
  using assms(2) collectPermits_outcome [OF journal_invD(2) [OF assms(1)]] collect_frame [of fp inst j]
  by (simp add: same_undone_def)

section \<open>Bounded memory\<close>

lemma dropHead_length: "0 \<le> n \<Longrightarrow> dropHead n xs = (dropped, left) \<Longrightarrow> int (length left) \<le> n"
  by (auto simp: dropHead_def Let_def split: if_splits)

lemma collectPermits_bound: "int (length (j_Completed (collectPermits j))) \<le> completedReceiptLimit"
  using dropHead_length [of completedReceiptLimit]
  by (auto simp: collectPermits_def Let_def completedReceiptLimit_def split: prod.split)

lemma collectObsolete_bound: "int (length (j_ObsoleteRequests (collectObsoleteRequests j))) \<le> obsoleteRequestLimit"
  using dropHead_length [of obsoleteRequestLimit]
  by (auto simp: collectObsoleteRequests_def Let_def obsoleteRequestLimit_def split: prod.split)

lemma trimReceipts_bound: "int (length (fst (trimReceipts xs rs))) \<le> replayReceiptLimit"
  by (induction xs rs rule: trimReceipts.induct) (auto simp: replayReceiptLimit_def)

lemma remember_bound: "int (length (j_ReceiptOrder (remember rid rc j))) \<le> replayReceiptLimit"
  using trimReceipts_bound
  by (simp add: remember_def Let_def case_prod_beta)

lemma collectGrants_bound:
  "int (length (j_ReceiptOrder j)) \<le> replayReceiptLimit \<Longrightarrow>
   int (length (j_ReceiptOrder (fold (collectGrant fp pending) gids j))) \<le> replayReceiptLimit"
  by (induction gids arbitrary: j) (auto simp: collectGrant_def Let_def remember_bound split: option.split)

lemma collectMeters_bound:
  "int (length (j_ReceiptOrder j)) \<le> replayReceiptLimit \<Longrightarrow>
   int (length (j_ReceiptOrder (fold (collectMeter inst pending) mids j))) \<le> replayReceiptLimit"
  by (induction mids arbitrary: j) (auto simp: collectMeter_def Let_def remember_bound split: option.split)

lemma trimReceipts_keys:
  "Mapping.keys rs \<subseteq> set xs \<Longrightarrow> Mapping.keys (snd (trimReceipts xs rs)) \<subseteq> set (fst (trimReceipts xs rs))"
  by (induction xs rs rule: trimReceipts.induct) auto

text \<open>The replay receipts are indexed by their order of arrival, which is bounded.\<close>

definition receipts_listed :: "journal \<Rightarrow> bool" where
  "receipts_listed j \<longleftrightarrow> Mapping.keys (j_Receipts j) \<subseteq> set (j_ReceiptOrder j) \<and> int (length (j_ReceiptOrder j)) \<le> replayReceiptLimit"

lemma receipts_listed_frame:
  "receipts_listed j \<Longrightarrow> j_Receipts j' = j_Receipts j \<Longrightarrow> j_ReceiptOrder j' = j_ReceiptOrder j \<Longrightarrow> receipts_listed j'"
  by (simp add: receipts_listed_def)

lemma remember_listed:
  assumes "receipts_listed j"
  shows "receipts_listed (remember rid rc j)"
proof -
  let ?order = "if Mapping.lookup (j_Receipts j) rid = None then j_ReceiptOrder j @ [rid] else j_ReceiptOrder j"
  have "Mapping.keys (Mapping.update rid rc (j_Receipts j)) \<subseteq> set ?order"
    using assms by (auto simp: receipts_listed_def lookup_in_keys)
  from trimReceipts_keys [OF this] show ?thesis
    using remember_bound [of rid rc j] by (simp add: receipts_listed_def remember_def Let_def case_prod_beta)
qed

lemma collectGrants_listed: "receipts_listed j \<Longrightarrow> receipts_listed (fold (collectGrant fp pending) gids j)"
proof (induction gids arbitrary: j)
  case (Cons gid gids)
  have "receipts_listed (collectGrant fp pending gid j)"
    using Cons.prems remember_listed [OF Cons.prems]
    by (simp add: collectGrant_def Let_def receipts_listed_def split: option.split)
  then show ?case using Cons.IH by simp
qed simp

lemma collectMeters_listed: "receipts_listed j \<Longrightarrow> receipts_listed (fold (collectMeter inst pending) mids j)"
proof (induction mids arbitrary: j)
  case (Cons mid mids)
  have "receipts_listed (collectMeter inst pending mid j)"
    using Cons.prems remember_listed [OF Cons.prems]
    by (simp add: collectMeter_def Let_def receipts_listed_def split: option.split)
  then show ?case using Cons.IH by simp
qed simp

lemma collect_listed: "receipts_listed j \<Longrightarrow> receipts_listed (collect fp inst j)"
  unfolding collect_def Let_def
  by (rule receipts_listed_frame [OF collectMeters_listed [OF collectGrants_listed [OF receipts_listed_frame]]])
    (simp_all add: collectObsolete_frame collectPermits_frame)

lemma card_le_length: "A \<subseteq> set xs \<Longrightarrow> int (length xs) \<le> n \<Longrightarrow> int (card A) \<le> n"
  using card_mono [of "set xs" A] card_length [of xs] by simp

lemma collectPermits_done:
  assumes "finite (Mapping.keys (j_Permits j))"
  shows "{pid. \<exists>p. Mapping.lookup (j_Permits (collectPermits j)) pid = Some p \<and> pm_Done p} \<subseteq> set (j_Completed (collectPermits j))"
proof
  fix pid assume "pid \<in> {pid. \<exists>p. Mapping.lookup (j_Permits (collectPermits j)) pid = Some p \<and> pm_Done p}"
  then obtain p where p: "Mapping.lookup (j_Permits (collectPermits j)) pid = Some p" "pm_Done p" by blast
  let ?seen = "keepDone (j_Permits j) (j_Completed j) []"
  let ?order = "?seen @ filter (\<lambda>pid. permitDone j pid \<and> pid \<notin> set ?seen) (Mapping.ordered_keys (j_Permits j))"
  obtain dropped left where d: "dropHead completedReceiptLimit ?order = (dropped, left)" by fastforce
  have nd: "pid \<notin> set dropped" and left: "j_Completed (collectPermits j) = left"
    using p(1) by (auto simp: collectPermits_def d lookup_fold_delete split: if_splits)
  obtain q where q: "Mapping.lookup (j_Permits j) pid = Some q" "pm_Done q"
    using collectPermits_outcome [OF assms] p by fastforce
  then have "pid \<in> set ?order" using assms by (simp add: permitDone_def lookup_in_keys)
  then show "pid \<in> set (j_Completed (collectPermits j))"
    using nd left dropHead_append [OF d] by (metis Un_iff set_append)
qed

lemma keepListed_set: "keepListed remaining xs = (listed, rest) \<Longrightarrow> set remaining \<subseteq> set listed \<union> set rest"
proof (induction xs arbitrary: remaining listed rest)
  case (Cons x xs)
  show ?case
  proof (cases "x \<in> set remaining")
    case True
    obtain l r where "keepListed (removeAll x remaining) xs = (l, r)" by fastforce
    with Cons.IH [OF this] Cons.prems True show ?thesis by auto
  next
    case False
    then show ?thesis using Cons by simp
  qed
qed simp

lemma collectObsolete_listed:
  assumes "finite (Mapping.keys (j_Requests j))"
  shows "{rid. \<exists>r. Mapping.lookup (j_Requests (collectObsoleteRequests j)) rid = Some r \<and> \<not> requestSkipped r}
    \<subseteq> set (j_ObsoleteRequests (collectObsoleteRequests j))"
proof
  fix rid assume "rid \<in> {rid. \<exists>r. Mapping.lookup (j_Requests (collectObsoleteRequests j)) rid = Some r \<and> \<not> requestSkipped r}"
  then obtain r where r: "Mapping.lookup (j_Requests (collectObsoleteRequests j)) rid = Some r" "\<not> requestSkipped r" by blast
  let ?rs = "Mapping.filter (\<lambda>k r. \<not> requestDropped j r) (j_Requests j)"
  let ?remaining = "filter (\<lambda>k. case Mapping.lookup ?rs k of None \<Rightarrow> False | Some r \<Rightarrow> \<not> requestSkipped r) (Mapping.ordered_keys ?rs)"
  obtain listed rest where k: "keepListed ?remaining (j_ObsoleteRequests j) = (listed, rest)" by fastforce
  obtain dropped left where d: "dropHead obsoleteRequestLimit (listed @ rest) = (dropped, left)" by fastforce
  have c: "j_Requests (collectObsoleteRequests j) = fold Mapping.delete dropped ?rs"
    "j_ObsoleteRequests (collectObsoleteRequests j) = left"
    by (simp_all add: collectObsoleteRequests_def Let_def k d)
  have l: "Mapping.lookup ?rs rid = Some r" and nd: "rid \<notin> set dropped"
    using r(1) by (auto simp: c lookup_fold_delete split: if_splits)
  then have "rid \<in> set ?remaining"
    using r(2) assms by (simp add: lookup_in_keys finite_keys_filter)
  then have "rid \<in> set (listed @ rest)" using keepListed_set [OF k] by auto
  then show "rid \<in> set (j_ObsoleteRequests (collectObsoleteRequests j))"
    using nd dropHead_append [OF d] c by (metis Un_iff set_append)
qed

lemma collect_reaches:
  assumes "journal_inv j"
  shows "\<exists>j0. collect fp inst j = collectObsoleteRequests j0 \<and> journal_inv j0"
proof -
  have "covers (pendingOf pm_Grants j) (collectPermits j)"
    using pendingOf_covers [OF journal_invD(2) [OF assms]] collectPermits_outcome [OF journal_invD(2) [OF assms]]
    by (auto simp: covers_def same_undone_def)
  then show ?thesis
    unfolding collect_def Let_def using collectGrants_inv [OF collectPermits_inv [OF assms]] collectMeters_inv by blast
qed

end
