(* ===== verification/EscrowAdmit.thy ===== *)
theory EscrowAdmit
  imports EscrowCollect
begin

text \<open>
  What one operation of the escrow does to the amounts: admission reserves the bound on a grant
  of every hard budget that applies, settlement charges every grant of the permit once, and a
  response of the authority never touches what a grant already spent.
\<close>

section \<open>Admission\<close>

text \<open>The grants a reservation has chosen cover the budgets of the keys visited so far.\<close>

definition covered :: "Store \<Rightarrow> AuthorityBudget \<Rightarrow> int \<Rightarrow> gotime \<Rightarrow> reserveAcc \<Rightarrow> bool" where
  "covered s b bound now a \<longleftrightarrow> now < timeAt (st_windows s) (ab_Key b)
     \<and> (if ab_HardCap b then (\<exists>gid \<in> set (ra_chosen a). \<exists>g. roomy bound (ra_j a) gid g \<and> usable s g b now)
        else b \<in> set (ra_soft a))"

definition cover_inv :: "Store \<Rightarrow> Subject \<Rightarrow> int \<Rightarrow> gotime \<Rightarrow> string set \<Rightarrow> reserveAcc \<Rightarrow> bool" where
  "cover_inv s subject bound now done a \<longleftrightarrow> journal_inv (ra_j a)
     \<and> (ra_denied a = None \<longrightarrow> (\<forall>key \<in> done. \<forall>b. Mapping.lookup (j_Budgets (ra_j a)) key = Some b \<longrightarrow>
          budgetMatches b subject \<longrightarrow> covered s b bound now a))"

lemma covered_mono:
  assumes "covered s b bound now a" and "set (ra_chosen a) \<subseteq> set (ra_chosen a')" and "set (ra_soft a) \<subseteq> set (ra_soft a')"
    and "\<And>gid g. Mapping.lookup (j_Grants (ra_j a)) gid = Some g \<Longrightarrow> ag_Key (gr_Wire g) = ab_Key b \<Longrightarrow>
      Mapping.lookup (j_Grants (ra_j a')) gid = Some g"
  shows "covered s b bound now a'"
proof (cases "ab_HardCap b")
  case True
  then obtain gid g where g: "gid \<in> set (ra_chosen a)" "roomy bound (ra_j a) gid g" "usable s g b now"
    using assms(1) by (auto simp: covered_def)
  then have "roomy bound (ra_j a') gid g" using assms(4) by (auto simp: roomy_def usable_def)
  with g assms(1,2) True show ?thesis by (auto simp: covered_def)
next
  case False
  then show ?thesis using assms(1,3) by (auto simp: covered_def)
qed

lemma reserveBudget_cover:
  assumes step: "reserveBudget s subject bound now key a = Inr a'" and inv: "cover_inv s subject bound now done a"
    and "key \<notin> done"
  shows "cover_inv s subject bound now (insert key done) a'"
proof (cases "Mapping.lookup (j_Budgets (ra_j a)) key")
  case None
  then show ?thesis using assms by (auto simp: reserveBudget_def cover_inv_def)
next
  case (Some b)
  have J: "journal_inv (ra_j a)" using inv by (simp add: cover_inv_def)
  then have bk: "ab_Key b = key" using journal_invD(8) Some by blast
  let ?picked = "pickGrant s b now bound (Mapping.ordered_keys (j_Grants (ra_j a))) (ra_j a)"
  consider (skip) "\<not> budgetMatches b subject" "a' = a"
    | (window) "ra_denied a' \<noteq> None" "ra_j a' = ra_j a"
    | (soft) "now < timeAt (st_windows s) key" "\<not> ab_HardCap b" "ra_j a' = ra_j a" "ra_chosen a' = ra_chosen a"
        "ra_soft a' = ra_soft a @ [b]" "ra_denied a' = ra_denied a"
    | (picked) j gid where "?picked = Inr (j, Some gid)" "now < timeAt (st_windows s) key" "ab_HardCap b" "ra_j a' = j"
        "ra_chosen a' = ra_chosen a @ [gid]" "ra_soft a' = ra_soft a" "ra_denied a' = ra_denied a"
    | (queued) j j' ns' e where "?picked = Inr (j, None)" "queue s b bound (ra_ns a) j = Inr (j', ns', e)"
        "ra_j a' = j'" "ra_denied a' \<noteq> None"
    using step Some
    by (auto simp: reserveBudget_def Let_def split: if_splits sum.splits option.splits prod.splits)
  then show ?thesis
  proof cases
    case skip
    then show ?thesis using inv Some by (auto simp: cover_inv_def)
  next
    case window
    then show ?thesis using J by (auto simp: cover_inv_def)
  next
    case soft
    have "covered s b' bound now a'" if "covered s b' bound now a" for b'
      by (rule covered_mono [OF that]) (use soft in auto)
    moreover have "covered s b bound now a'" using soft bk by (simp add: covered_def)
    ultimately show ?thesis using inv Some soft by (auto simp: cover_inv_def)
  next
    case picked
    note p = pickGrant_outcome [OF picked(1) J]
    have jb: "j_Budgets j = j_Budgets (ra_j a)"
      using p by (metis journal.select_convs(5) journal.surjective journal.update_convs(6))
    have old: "covered s b' bound now a'"
      if "covered s b' bound now a" "ab_Key b' \<noteq> key" for b'
      by (rule covered_mono [OF that(1)]) (use p picked bk that(2) in auto)
    have new: "covered s b bound now a'" using p picked bk by (auto simp: covered_def)
    have "covered s b' bound now a'"
      if "x \<in> insert key done" "Mapping.lookup (j_Budgets (ra_j a')) x = Some b'" "budgetMatches b' subject" "ra_denied a' = None"
      for x b'
    proof (cases "x = key")
      case True
      then show ?thesis using new that(2) Some picked(4) jb by simp
    next
      case False
      have l: "Mapping.lookup (j_Budgets (ra_j a)) x = Some b'" using that(2) picked(4) jb by simp
      then have "covered s b' bound now a" using inv that False picked(7) by (auto simp: cover_inv_def)
      then show ?thesis using old journal_invD(8) [OF J l] False by simp
    qed
    then show ?thesis using p picked(4) by (simp add: cover_inv_def)
  next
    case queued
    then show ?thesis using queue_inv [OF queued(2)] pickGrant_outcome [OF queued(1) J] by (auto simp: cover_inv_def)
  qed
qed

lemma reserveLoop_cover:
  assumes "foldE (reserveBudget s subject bound now) keys a = Inr a'" and "cover_inv s subject bound now done a"
    and "distinct keys" and "set keys \<inter> done = {}"
  shows "cover_inv s subject bound now (set keys \<union> done) a'"
  using assms
proof (induction keys arbitrary: a "done")
  case Nil
  then show ?case by simp
next
  case (Cons key keys)
  then obtain a1 where a1: "reserveBudget s subject bound now key a = Inr a1"
    "foldE (reserveBudget s subject bound now) keys a1 = Inr a'" by (auto split: sum.splits)
  have "cover_inv s subject bound now (insert key done) a1"
    using reserveBudget_cover [OF a1(1) Cons.prems(2)] Cons.prems(4) by auto
  then show ?case using Cons.IH [OF a1(2), of "insert key done"] Cons.prems(3,4) by simp
qed

lemma reserveLoop_budgets:
  assumes "foldE (reserveBudget s subject bound now) keys a = Inr a'" and "acc_inv j0 ns bound {} a" and "distinct keys"
  shows "j_Budgets (ra_j a') = j_Budgets j0" and "distinct (ra_chosen a')" and "set (ra_ns a') \<subseteq> set ns"
    and "j_Permits (ra_j a') = j_Permits j0"
  using reserveLoop_inv [OF assms(1,2,3)] by (auto simp: acc_inv_def)

text \<open>The permit a successful reservation returns, and the grants behind it.\<close>

definition permitCovers :: "Store \<Rightarrow> AuthorityBudget \<Rightarrow> int \<Rightarrow> gotime \<Rightarrow> permit \<Rightarrow> journal \<Rightarrow> bool" where
  "permitCovers s b bound now p j \<longleftrightarrow> now < timeAt (st_windows s) (ab_Key b)
     \<and> (ab_HardCap b \<longrightarrow> (\<exists>gid \<in> set (pm_Grants p). \<exists>g. Mapping.lookup (j_Grants j) gid = Some g
          \<and> ag_Key (gr_Wire g) = ab_Key b \<and> ag_Revision (gr_Wire g) = ab_Revision b \<and> ag_WindowID (gr_Wire g) = ab_WindowID b
          \<and> gr_Instance g = st_instance s \<and> \<not> gr_Closed g \<and> bound \<le> gr_Reserved g
          \<and> gr_Consumed g + gr_Reserved g \<le> ag_Amount (gr_Wire g) \<and> now < timeAt (st_deadlines s) gid))
     \<and> (\<not> ab_HardCap b \<longrightarrow> meterID (st_instance s) (ab_Key b) (ab_WindowID b) \<in> set (pm_Meters p))"

lemma permitCovers_collect:
  assumes "permitCovers s b bound now p j" and "journal_inv j"
  shows "permitCovers s b bound now p (collect fp inst j)"
proof -
  have "Mapping.lookup (j_Grants (collect fp inst j)) gid = Some g"
    if "Mapping.lookup (j_Grants j) gid = Some g" "\<not> gr_Closed g" for gid g
    using collect_grants [OF assms(2), of fp inst gid] that by (simp add: finalized_def)
  with assms(1) show ?thesis unfolding permitCovers_def by blast
qed

lemma issuePermit_covers:
  assumes iss: "issuePermit s bound a = Inr (j, bp)" and cov: "covered s b bound now a"
    and inv: "journal_inv (ra_j a)" and dist: "distinct (ra_chosen a)"
  obtains p where "Mapping.lookup (j_Permits j) (bp_ID bp) = Some p" "pm_Bound p = bound" "\<not> pm_Done p"
    "pm_Instance p = st_instance s" "permitCovers s b bound now p j"
proof -
  note result = that
  obtain pid ns' j1 where nn: "nonce (ra_ns a) = Inr (pid, ns')"
    and j1: "foldE (onGrant (reserveGrant bound)) (ra_chosen a) (ra_j a) = Inr j1"
    and j: "j_Grants j = j_Grants j1" "j_Permits j = Mapping.update pid \<lparr>pm_Instance = st_instance s, pm_Bound = bound, pm_Grants = ra_chosen a,
            pm_Meters = map (\<lambda>b. meterID (st_instance s) (ab_Key b) (ab_WindowID b)) (ra_soft a),
            pm_Done = False, pm_Complete = False, pm_Actual = None, pm_Retired = False, pm_InvalidUsage = False\<rparr> (j_Permits j1)"
    and bp: "bp_ID bp = pid"
    using iss by (auto simp: issuePermit_def Let_def split: sum.splits prod.splits)
  note r = foldE_onGrant [OF j1 dist]
  let ?p = "\<lparr>pm_Instance = st_instance s, pm_Bound = bound, pm_Grants = ra_chosen a,
            pm_Meters = map (\<lambda>b. meterID (st_instance s) (ab_Key b) (ab_WindowID b)) (ra_soft a),
            pm_Done = False, pm_Complete = False, pm_Actual = None, pm_Retired = False, pm_InvalidUsage = False\<rparr>"
  have "permitCovers s b bound now ?p j"
  proof (cases "ab_HardCap b")
    case False
    then show ?thesis using cov by (auto simp: covered_def permitCovers_def)
  next
    case True
    then obtain gid g where g: "gid \<in> set (ra_chosen a)" "roomy bound (ra_j a) gid g" "usable s g b now"
      using cov by (auto simp: covered_def)
    have l: "Mapping.lookup (j_Grants (ra_j a)) gid = Some g" using g(2) by (simp add: roomy_def)
    obtain g' where g': "reserveGrant bound g = Inr g'" "Mapping.lookup (j_Grants j) gid = Some g'"
      using r g(1) l j(1) by fastforce
    have "grant_inv (j_Permits (ra_j a)) gid g" using journal_invD(6) [OF inv l] .
    then have "0 \<le> gr_Reserved g" "ag_ID (gr_Wire g) = gid"
      using inv_reserved_nonneg [OF inv] by (auto simp: grant_inv_def)
    with g g' reserveGrant_Inr [OF g'(1)] cov True show ?thesis
      by (auto simp: permitCovers_def roomy_def usable_def covered_def intro!: bexI [of _ gid])
  qed
  then show thesis using result [of ?p] j(2) bp by simp
qed

lemma reserveBody_covers:
  assumes R: "reserveBody s subject bound now ns j = Inr (j', Inr bp, expires)" and inv: "journal_inv j"
    and b: "Mapping.lookup (j_Budgets j) key = Some b" "budgetMatches b subject"
  obtains p where "Mapping.lookup (j_Permits j') (bp_ID bp) = Some p" "pm_Bound p = bound" "\<not> pm_Done p"
    "pm_Instance p = st_instance s" "permitCovers s b bound now p j'"
proof -
  note result = that
  let ?a0 = "\<lambda>j1. \<lparr>ra_j = j1, ra_ns = ns, ra_chosen = [], ra_soft = [], ra_denied = None, ra_expires = 0\<rparr>"
  obtain j1 a where j1: "closeInactive s now j = Inr j1"
    and a: "foldE (reserveBudget s subject bound now) (Mapping.ordered_keys (j_Budgets j1)) (?a0 j1) = Inr a"
    and nd: "ra_denied a = None" and iss: "issuePermit s bound a = Inr (j', bp)"
    using R by (auto simp: reserveBody_def split: if_splits sum.splits option.splits prod.splits)
  have inv1: "journal_inv j1" "j1 = j\<lparr>j_Grants := j_Grants j1\<rparr>" using closeInactive_inv [OF inv j1] by simp_all
  then have b1: "j_Budgets j1 = j_Budgets j" by (metis journal.select_convs(5) journal.surjective journal.update_convs(6))
  have "acc_inv j1 ns bound {} (?a0 j1)" using inv1(1) by (simp add: acc_inv_def)
  note keep = reserveLoop_budgets [OF a this distinct_ordered_keys]
  have "cover_inv s subject bound now {} (?a0 j1)" using inv1(1) by (simp add: cover_inv_def)
  from reserveLoop_cover [OF a this distinct_ordered_keys]
  have c: "cover_inv s subject bound now (set (Mapping.ordered_keys (j_Budgets j1))) a" by simp
  have "key \<in> set (Mapping.ordered_keys (j_Budgets j1))"
    using b(1) b1 journal_invD(3) [OF inv1(1)] by (simp add: lookup_in_keys)
  then have "covered s b bound now a" using c nd keep(1) b b1 by (simp add: cover_inv_def)
  from issuePermit_covers [OF iss this _ keep(2)] c show thesis
    using result by (auto simp: cover_inv_def)
qed

section \<open>Amounts\<close>

text \<open>Two states of a grant between which nothing was spent, reserved or settled.\<close>

definition sameAmounts :: "grant \<Rightarrow> grant \<Rightarrow> bool" where
  "sameAmounts g g' \<longleftrightarrow> gr_Wire g' = gr_Wire g \<and> gr_Instance g' = gr_Instance g \<and> gr_Consumed g' = gr_Consumed g
     \<and> gr_Observed g' = gr_Observed g \<and> gr_Reserved g' = gr_Reserved g \<and> gr_Pending g' = gr_Pending g
     \<and> gr_Overrun g' = gr_Overrun g \<and> (gr_Closed g \<longrightarrow> gr_Closed g')"

lemma sameAmounts_refl [simp]: "sameAmounts g g"
  by (simp add: sameAmounts_def)

lemma sameAmounts_trans [trans]: "sameAmounts a b \<Longrightarrow> sameAmounts b c \<Longrightarrow> sameAmounts a c"
  by (simp add: sameAmounts_def)

lemma closeGrant_amounts: "closeGrant g = Inr g' \<Longrightarrow> sameAmounts g g'"
  by (auto simp: closeGrant_def sameAmounts_def split: if_splits sum.splits)

lemma closeIfInactive_amounts: "closeIfInactive s now bs g = Inr g' \<Longrightarrow> sameAmounts g g'"
  by (auto simp: closeIfInactive_def closeGrant_amounts split: if_splits option.splits)

lemma closeStale_amounts: "closeStale received ds bs gid g = Inr g' \<Longrightarrow> sameAmounts g g'"
  by (auto simp: closeStale_def closeGrant_amounts split: if_splits)

lemma foldE_amounts:
  assumes "foldE (\<lambda>gid. onGrant (f gid) gid) gids j = Inr j'" and "distinct gids"
    and "\<And>gid g g'. f gid g = Inr g' \<Longrightarrow> sameAmounts g g'"
    and "Mapping.lookup (j_Grants j) gid = Some g"
  obtains g' where "Mapping.lookup (j_Grants j') gid = Some g'" "sameAmounts g g'"
proof (cases "gid \<in> set gids")
  case True
  then show thesis using foldE_onGrant [OF assms(1,2)] assms(3,4) that by fastforce
next
  case False
  then show thesis using foldE_onGrant [OF assms(1,2)] assms(4) that [of g] by simp
qed

lemma closeInactive_amounts:
  assumes "closeInactive s now j = Inr j'" and "Mapping.lookup (j_Grants j) gid = Some g"
  obtains g' where "Mapping.lookup (j_Grants j') gid = Some g'" "sameAmounts g g'"
  using assms(1) unfolding closeInactive_def
  by (rule foldE_amounts [OF _ distinct_ordered_keys closeIfInactive_amounts assms(2)]) (auto intro: that)

section \<open>Settlement\<close>

lemma finishBody_settles:
  assumes F: "finishBody s auth actual complete now j = Inr (j', None)" and inv: "journal_inv j"
    and p: "Mapping.lookup (j_Permits j) (bp_ID auth) = Some p" and nd: "\<not> pm_Done p"
    and am: "settledAmounts (pm_Bound p) actual complete = (c, o')"
  obtains j1 j3 where "\<not> pm_Retired p" "pm_Bound p = bp_BoundMicroUSD auth"
    "checkGrants (pm_Bound p) c o' j (pm_Grants p) = SettleOK"
    "foldE (onGrant (settleGrant (pm_Bound p) c o' (bp_InvalidUsage auth \<or> o' > pm_Bound p))) (pm_Grants p) j = Inr j1"
    "j_Grants j3 = j_Grants j1"
    "j_Permits j3 = Mapping.update (bp_ID auth) (p\<lparr>pm_Done := True, pm_Complete := complete,
       pm_InvalidUsage := bp_InvalidUsage auth, pm_Actual := actual\<rparr>) (j_Permits j)"
    "j_Poisoned j3 = (j_Poisoned j \<or> bp_InvalidUsage auth \<or> o' > pm_Bound p)"
    "closeInactive s now j3 = Inr j'"
proof -
  note result = that
  have ret: "\<not> pm_Retired p" "pm_Bound p = bp_BoundMicroUSD auth"
    using F p by (auto simp: finishBody_def split: if_splits)
  then have act: "(case actual of None \<Rightarrow> pm_Actual p | Some a \<Rightarrow> Some a) = actual"
    using journal_invD(7) [OF inv p] nd by (auto simp: permit_inv_def split: option.split)
  let ?over = "bp_InvalidUsage auth \<or> o' > pm_Bound p"
  let ?p = "p\<lparr>pm_Done := True, pm_Complete := complete, pm_InvalidUsage := bp_InvalidUsage auth, pm_Actual := actual\<rparr>"
  obtain j1 where 1: "checkGrants (pm_Bound p) c o' j (pm_Grants p) = SettleOK"
    "foldE (onGrant (settleGrant (pm_Bound p) c o' ?over)) (pm_Grants p) j = Inr j1"
    "closeInactive s now ((fold (settleMeter c o') (pm_Meters p) j1)\<lparr>j_Permits :=
           Mapping.update (bp_ID auth) ?p (j_Permits (fold (settleMeter c o') (pm_Meters p) j1)),
           j_Poisoned := (j_Poisoned (fold (settleMeter c o') (pm_Meters p) j1) \<or> ?over)\<rparr>) = Inr j'"
    using F p nd am act
    by (auto simp: finishBody_def Let_def split: if_splits settle_check.splits sum.splits)
  have "distinct (pm_Grants p)" using journal_invD(7) [OF inv p] by (simp add: permit_inv_def)
  note r = foldE_onGrant [OF 1(2) this]
  have "j_Permits j1 = j_Permits j" "j_Poisoned j1 = j_Poisoned j"
    using r by (metis journal.select_convs(3,8) journal.surjective journal.update_convs(6))+
  moreover have "j_Poisoned (fold (settleMeter c o') ms j1) = j_Poisoned j1" for ms
    by (induction ms arbitrary: j1) (simp_all add: settleMeter_def)
  ultimately show thesis
    using result [OF ret 1(1,2) _ _ _ 1(3)] settleMeters_sel [of c o' "pm_Meters p" j1] by simp
qed

lemma settleGrant_exact:
  assumes "settleGrant bound c o' over g = Inr g'" and "checkGrants bound c o' j gids = SettleOK" and "gid \<in> set gids"
    and "Mapping.lookup (j_Grants j) gid = Some g" and "grant_inv ps gid g" and "0 \<le> bound"
  shows "gr_Wire g' = gr_Wire g \<and> gr_Instance g' = gr_Instance g \<and> gr_Consumed g' = gr_Consumed g + c
    \<and> gr_Observed g' = gr_Observed g + o' \<and> gr_Reserved g' = gr_Reserved g - bound \<and> gr_Pending g' = gr_Pending g - 1
    \<and> gr_Overrun g' = (gr_Overrun g \<or> over)"
proof -
  have ok: "0 < gr_Pending g" "bound \<le> gr_Reserved g"
    "settleFits c o' (gr_Consumed g) (gr_Observed g) (gr_Sequence g) = None"
    using checkGrants_OK [OF assms(2,3)] assms(4) by auto
  note fits = settleFits_None [OF ok(3)]
  have "add64 (gr_Consumed g) c = gr_Consumed g + c" "add64 (gr_Observed g) o' = gr_Observed g + o'"
    using fits by (simp_all add: add64_exact in64_bounds)
  moreover have "sub64 (gr_Pending g) 1 = gr_Pending g - 1" "sub64 (gr_Reserved g) bound = gr_Reserved g - bound"
    using ok assms(5,6) by (simp_all add: sub64_dec sub64_le grant_inv_def)
  ultimately show ?thesis using assms(1) by (auto simp: settleGrant_def Let_def)
qed

text \<open>The effect of a settlement on one grant: charged when the permit holds it, untouched otherwise.\<close>

definition charged :: "permit \<Rightarrow> int \<Rightarrow> int \<Rightarrow> string \<Rightarrow> grant \<Rightarrow> grant \<Rightarrow> bool" where
  "charged p c o' gid g g' \<longleftrightarrow>
     (if gid \<in> set (pm_Grants p)
      then gr_Wire g' = gr_Wire g \<and> gr_Consumed g' = gr_Consumed g + c \<and> gr_Observed g' = gr_Observed g + o'
        \<and> gr_Reserved g' = gr_Reserved g - pm_Bound p \<and> gr_Pending g' = gr_Pending g - 1
      else sameAmounts g g')"

lemma finishBody_charges:
  assumes F: "finishBody s auth actual complete now j = Inr (j', None)" and inv: "journal_inv j"
    and p: "Mapping.lookup (j_Permits j) (bp_ID auth) = Some p" and nd: "\<not> pm_Done p"
    and am: "settledAmounts (pm_Bound p) actual complete = (c, o')"
    and g: "Mapping.lookup (j_Grants j) gid = Some g"
  obtains g' where "Mapping.lookup (j_Grants j') gid = Some g'" "charged p c o' gid g g'"
proof -
  note result = that
  obtain j1 j3 where ok: "checkGrants (pm_Bound p) c o' j (pm_Grants p) = SettleOK"
    and j1: "foldE (onGrant (settleGrant (pm_Bound p) c o' (bp_InvalidUsage auth \<or> o' > pm_Bound p))) (pm_Grants p) j = Inr j1"
    and j3: "j_Grants j3 = j_Grants j1" "closeInactive s now j3 = Inr j'"
    using finishBody_settles [OF F inv p nd am] by metis
  have d: "distinct (pm_Grants p)" "0 \<le> pm_Bound p" using journal_invD(7) [OF inv p] by (simp_all add: permit_inv_def)
  note r = foldE_onGrant [OF j1 d(1)]
  obtain g1 where g1: "Mapping.lookup (j_Grants j1) gid = Some g1" "charged p c o' gid g g1"
  proof (cases "gid \<in> set (pm_Grants p)")
    case True
    then obtain g1 where "settleGrant (pm_Bound p) c o' (bp_InvalidUsage auth \<or> o' > pm_Bound p) g = Inr g1"
      "Mapping.lookup (j_Grants j1) gid = Some g1" using r g by fastforce
    with True show thesis
      using that settleGrant_exact [OF _ ok True g journal_invD(6) [OF inv g] d(2)] by (simp add: charged_def)
  next
    case False
    then show thesis using that [of g] r g by (simp add: charged_def)
  qed
  obtain g' where g': "Mapping.lookup (j_Grants j') gid = Some g'" "sameAmounts g1 g'"
    using closeInactive_amounts [OF j3(2)] j3(1) g1(1) by metis
  have "charged p c o' gid g g'"
    using g1(2) g'(2) by (auto simp: charged_def sameAmounts_def)
  then show thesis using result g'(1) by blast
qed

section \<open>Replayed settlements\<close>

lemma finishBody_replay:
  assumes "Mapping.lookup (j_Permits j) (bp_ID auth) = Some p" and "pm_Done p" and "\<not> pm_Retired p"
    and "pm_Bound p = bp_BoundMicroUSD auth"
  shows "finishBody s auth actual complete now j =
    (if pm_Complete p = complete \<and> pm_InvalidUsage p = bp_InvalidUsage auth \<and> pm_Actual p = actual
     then Inr (j, None) else Inl ErrAuthorityInvalid)"
  using assms by (simp add: finishBody_def)

lemma finishBody_receipt:
  assumes F: "finishBody s auth actual complete now j = Inr (j', None)" and inv: "journal_inv j"
    and p: "Mapping.lookup (j_Permits j) (bp_ID auth) = Some p"
  obtains p' where "Mapping.lookup (j_Permits j') (bp_ID auth) = Some p'" "pm_Done p'" "\<not> pm_Retired p'"
    "pm_Bound p' = bp_BoundMicroUSD auth" "pm_Complete p' = complete" "pm_InvalidUsage p' = bp_InvalidUsage auth"
    "pm_Actual p' = actual"
proof (cases "pm_Done p")
  case True
  then show thesis using F p that [of p] by (auto simp: finishBody_def split: if_splits)
next
  case False
  obtain c o' where am: "settledAmounts (pm_Bound p) actual complete = (c, o')" by fastforce
  obtain j3 where j3: "\<not> pm_Retired p" "pm_Bound p = bp_BoundMicroUSD auth" "closeInactive s now j3 = Inr j'"
    "j_Permits j3 = Mapping.update (bp_ID auth) (p\<lparr>pm_Done := True, pm_Complete := complete,
       pm_InvalidUsage := bp_InvalidUsage auth, pm_Actual := actual\<rparr>) (j_Permits j)"
    using finishBody_settles [OF F inv p False am] by metis
  have "j_Permits j' = j_Permits j3"
    using foldE_onGrant [OF j3(3) [unfolded closeInactive_def] distinct_ordered_keys]
    by (metis journal.select_convs(8) journal.surjective journal.update_convs(6))
  then show thesis
    using j3 that by (simp add: lookup_update')
qed

lemma collect_receipt:
  assumes "journal_inv j" and "Mapping.lookup (j_Permits j) pid = Some p" and "Mapping.lookup (j_Permits (collect fp inst j)) pid = Some q"
  shows "pm_Done q = pm_Done p \<and> pm_Retired q = pm_Retired p \<and> pm_Bound q = pm_Bound p \<and> pm_Complete q = pm_Complete p
    \<and> pm_InvalidUsage q = pm_InvalidUsage p \<and> pm_Actual q = pm_Actual p"
proof -
  obtain q0 where "Mapping.lookup (j_Permits j) pid = Some q0" "q = q0 \<or> pm_Done q \<and> q = q0\<lparr>pm_Grants := [], pm_Meters := []\<rparr>"
    using collect_permit_kept [OF assms(1,3)] by blast
  then show ?thesis using assms(2) by (elim disjE conjE) simp_all
qed

section \<open>Responses\<close>

lemma applyGrant_keeps:
  assumes "applyGrant fp s stale received t rtt wire a = Inr a'" and "Mapping.lookup (j_Grants (aa_j a)) gid = Some g"
  shows "Mapping.lookup (j_Grants (aa_j a')) gid = Some g"
proof (cases "aa_j a' = aa_j a")
  case False
  then obtain r a0 where none: "Mapping.lookup (j_Grants (aa_j a)) (ag_ID wire) = None"
    and a0: "a' = newGrant s stale received t rtt wire r a0" "aa_j a0 = aa_j a"
    using assms(1) by (auto simp: applyGrant_def Let_def split: if_splits option.splits)
  have "\<exists>x. j_Grants (aa_j a') = Mapping.update (ag_ID wire) x (j_Grants (aa_j a))"
    by (simp add: a0 newGrant_def Let_def) blast
  then show ?thesis using none assms(2) by (auto simp: lookup_update')
qed (use assms(2) in simp)

lemma applyDenial_keeps:
  "applyDenial stale d a = Inr a' \<Longrightarrow> j_Grants (aa_j a') = j_Grants (aa_j a) \<and> aa_deadlines a' = aa_deadlines a"
  by (auto simp: applyDenial_def Let_def split: if_splits option.splits)

lemma applyMeterAck_keeps: "applyMeterAck ack st = Inr st' \<Longrightarrow> j_Grants (fst st') = j_Grants (fst st)"
  by (auto simp: applyMeterAck_def Let_def split: if_splits option.splits list.splits prod.splits)

lemma applyReportAck_keeps:
  assumes "applyReportAck ack st = Inr st'" and "Mapping.lookup (j_Grants (fst st)) gid = Some g"
  obtains g' where "Mapping.lookup (j_Grants (fst st')) gid = Some g'" "sameAmounts g g'"
proof -
  note result = that
  obtain j seen where st: "st = (j, seen)" by fastforce
  show thesis
  proof (cases "Mapping.lookup (j_Grants j) (ak_ID ack)")
    case None
    then show thesis using assms result [of g] st by (auto simp: applyReportAck_def split: option.splits if_splits)
  next
    case (Some a)
    have j': "j_Grants (fst st') = Mapping.update (ak_ID ack) (a\<lparr>gr_Ack := max (gr_Ack a) (ak_Sequence ack)\<rparr>) (j_Grants j)"
      using assms(1) Some st by (auto simp: applyReportAck_def split: if_splits)
    show thesis
    proof (cases "gid = ak_ID ack")
      case True
      then show thesis
        using result [of "a\<lparr>gr_Ack := max (gr_Ack a) (ak_Sequence ack)\<rparr>"] j' Some assms(2) st
        by (simp add: lookup_update' sameAmounts_def)
    next
      case False
      then show thesis using result [of g] j' assms(2) st by (simp add: lookup_update')
    qed
  qed
qed

lemma applyAcks_keeps:
  assumes "applyAcks r j = Inr j'" and "Mapping.lookup (j_Grants j) gid = Some g"
  obtains g' where "Mapping.lookup (j_Grants j') gid = Some g'" "sameAmounts g g'"
proof -
  obtain j1 s1 s2 where 1: "foldE applyReportAck (as_ReportAcks r) (j, []) = Inr (j1, s1)"
    and 2: "foldE applyMeterAck (as_MeterAcks r) (j1, []) = Inr (j', s2)"
    using assms(1) by (auto simp: applyAcks_def split: sum.splits prod.splits)
  let ?P = "\<lambda>st. \<exists>g'. Mapping.lookup (j_Grants (fst st)) gid = Some g' \<and> sameAmounts g g'"
  have "?P (j1, s1)"
    by (rule foldE_invariant [OF 1, where P = ?P]) (use assms(2) in \<open>auto elim!: applyReportAck_keeps intro: sameAmounts_trans\<close>)
  then have "?P (j', s2)"
    by (rule_tac foldE_invariant [OF 2, where P = ?P]) (auto dest: applyMeterAck_keeps)
  then show thesis using that by auto
qed

text \<open>The stages of a response: the snapshot, the grants, and what follows, which keeps every amount.\<close>

lemma applyBody_stages:
  assumes A: "applyBody fp s received rtt r budgets j = Inr (j', stale', ds, ws)"
  obtains j1 stale a1 where
    "j_Grants j1 = j_Grants j"
    "foldE (applyGrant fp s stale received (as_ServerTime r) rtt) (as_Grants r)
        \<lparr>aa_j = j1, aa_deadlines = st_deadlines s, aa_seen = [], aa_ids = []\<rparr> = Inr a1"
    "ds = aa_deadlines a1"
    "\<And>gid g. Mapping.lookup (j_Grants (aa_j a1)) gid = Some g \<Longrightarrow>
        \<exists>g'. Mapping.lookup (j_Grants j') gid = Some g' \<and> sameAmounts g g'"
proof -
  note result = that
  obtain j1 ws stale a1 a2 j3 where
    1: "installSnapshot received rtt r budgets (st_windows s) j = Inr (j1, ws, stale)"
    and 2: "foldE (applyGrant fp s stale received (as_ServerTime r) rtt) (as_Grants r)
        \<lparr>aa_j = j1, aa_deadlines = st_deadlines s, aa_seen = [], aa_ids = []\<rparr> = Inr a1"
    and 3: "foldE (applyDenial stale) (as_Denied r) a1 = Inr a2"
    and 4: "applyAcks r (aa_j a2) = Inr j3"
    and 5: "foldE (\<lambda>gid. onGrant (closeStale received ds (j_Budgets (markObsolete j3)) gid) gid)
        (Mapping.ordered_keys (j_Grants (markObsolete j3))) (markObsolete j3) = Inr j'"
    and 6: "ds = aa_deadlines a2"
    using A by (auto simp: applyBody_def Let_def split: sum.splits prod.splits)
  have g1: "j_Grants j1 = j_Grants j"
    using 1 by (auto simp: installSnapshot_def Let_def split: if_splits)
  have d: "j_Grants (aa_j a2) = j_Grants (aa_j a1) \<and> aa_deadlines a2 = aa_deadlines a1"
    by (rule foldE_invariant [OF 3, where P = "\<lambda>a. j_Grants (aa_j a) = j_Grants (aa_j a1) \<and> aa_deadlines a = aa_deadlines a1"])
      (auto dest: applyDenial_keeps)
  have "\<exists>g'. Mapping.lookup (j_Grants j') gid = Some g' \<and> sameAmounts g g'"
    if "Mapping.lookup (j_Grants (aa_j a1)) gid = Some g" for gid g
  proof -
    have "Mapping.lookup (j_Grants (aa_j a2)) gid = Some g" using that d by simp
    then obtain g1 where g1: "Mapping.lookup (j_Grants j3) gid = Some g1" "sameAmounts g g1"
      using applyAcks_keeps [OF 4] by blast
    then have "Mapping.lookup (j_Grants (markObsolete j3)) gid = Some g1" by (simp add: markObsolete_def)
    from foldE_amounts [OF 5 distinct_ordered_keys _ this] closeStale_amounts
    obtain g2 where "Mapping.lookup (j_Grants j') gid = Some g2" "sameAmounts g1 g2" by blast
    then show ?thesis using g1(2) sameAmounts_trans by blast
  qed
  then show thesis using result [OF g1 2] 6 d by simp
qed

lemma applyBody_keeps:
  assumes A: "applyBody fp s received rtt r budgets j = Inr (j', x)" and g: "Mapping.lookup (j_Grants j) gid = Some g"
  obtains g' where "Mapping.lookup (j_Grants j') gid = Some g'" "sameAmounts g g'"
proof -
  note result = that
  obtain stale' ds ws where x: "x = (stale', ds, ws)" by (metis prod.exhaust)
  obtain j1 stale a1 where s: "j_Grants j1 = j_Grants j"
    "foldE (applyGrant fp s stale received (as_ServerTime r) rtt) (as_Grants r)
        \<lparr>aa_j = j1, aa_deadlines = st_deadlines s, aa_seen = [], aa_ids = []\<rparr> = Inr a1"
    "\<And>gid g. Mapping.lookup (j_Grants (aa_j a1)) gid = Some g \<Longrightarrow>
        \<exists>g'. Mapping.lookup (j_Grants j') gid = Some g' \<and> sameAmounts g g'"
    by (rule applyBody_stages [OF A [unfolded x]]) blast
  have "Mapping.lookup (j_Grants (aa_j a1)) gid = Some g"
    by (rule foldE_invariant [OF s(2), where P = "\<lambda>a. Mapping.lookup (j_Grants (aa_j a)) gid = Some g"])
      (use g s(1) in \<open>auto dest: applyGrant_keeps\<close>)
  then show thesis using s(3) result by blast
qed

section \<open>Leases\<close>

text \<open>
  The local clock runs \<open>off\<close> ahead of the authority's. A local deadline is sound when
  it lies before the expiry of its grant on the authority's clock.
\<close>

definition leaseOK :: "int \<Rightarrow> journal \<Rightarrow> (string, gotime) mapping \<Rightarrow> bool" where
  "leaseOK off j ds \<longleftrightarrow> (\<forall>gid t. Mapping.lookup ds gid = Some t \<longrightarrow>
     (\<exists>g. Mapping.lookup (j_Grants j) gid = Some g \<and> t \<le> ag_ExpiresAt (gr_Wire g) + off))"

lemma deadline_sound:
  assumes "now < deadline now t expiry rtt" and "0 \<le> rtt" and "now \<le> t + off + rtt"
  shows "deadline now t expiry rtt \<le> expiry + off"
proof -
  let ?remaining = "time_sub expiry t"
  have pos: "0 < ?remaining" "rtt < ?remaining" "deadline now t expiry rtt = now + sub64 ?remaining rtt"
    using assms(1) by (auto simp: deadline_def Let_def time_add_def split: if_splits)
  have "sub64 ?remaining rtt = ?remaining - rtt"
    using pos assms(2) in64_time_sub [of expiry t] by (simp add: sub64_exact in64_bounds)
  moreover have "t < expiry" using pos(1) by (simp add: time_sub_pos_iff)
  then have "?remaining \<le> expiry - t" using time_sub_le [of t expiry] by simp
  ultimately show ?thesis using pos(3) assms(3) by simp
qed

lemma applyGrant_lease:
  assumes step: "applyGrant fp s stale received t rtt wire a = Inr a'" and inv: "leaseOK off (aa_j a) (aa_deadlines a)"
    and clk: "0 \<le> rtt" "received \<le> t + off + rtt"
  shows "leaseOK off (aa_j a') (aa_deadlines a')"
proof (cases "aa_j a' = aa_j a \<and> aa_deadlines a' = aa_deadlines a")
  case True
  then show ?thesis using inv by simp
next
  case False
  then obtain r a0 where a0: "a' = newGrant s stale received t rtt wire r a0" "aa_j a0 = aa_j a" "aa_deadlines a0 = aa_deadlines a"
    using step by (auto simp: applyGrant_def Let_def split: if_splits option.splits)
  let ?expiry = "if ag_ExpiresAt wire > ab_WindowEnd (rq_Budget r) then ab_WindowEnd (rq_Budget r) else ag_ExpiresAt wire"
  let ?until = "deadline received t ?expiry rtt"
  obtain g where g: "j_Grants (aa_j a') = Mapping.update (ag_ID wire) g (j_Grants (aa_j a))" "gr_Wire g = wire"
    using a0 by (auto simp: newGrant_def Let_def)
  have ds: "aa_deadlines a' = aa_deadlines a
      \<or> aa_deadlines a' = Mapping.update (ag_ID wire) ?until (aa_deadlines a) \<and> received < ?until"
    using a0 by (auto simp: newGrant_def Let_def)
  have new: "?until \<le> ag_ExpiresAt wire + off" if "received < ?until"
    using deadline_sound [OF that clk] by (auto split: if_splits)
  have "\<exists>g. Mapping.lookup (j_Grants (aa_j a')) gid = Some g \<and> u \<le> ag_ExpiresAt (gr_Wire g) + off"
    if l: "Mapping.lookup (aa_deadlines a') gid = Some u" for gid u
  proof (cases "aa_deadlines a' \<noteq> aa_deadlines a \<and> gid = ag_ID wire")
    case True
    then show ?thesis using ds new l g by (auto simp: lookup_update')
  next
    case False
    then have "Mapping.lookup (aa_deadlines a) gid = Some u" using l ds by (auto simp: lookup_update')
    then obtain g0 where "Mapping.lookup (j_Grants (aa_j a)) gid = Some g0" "u \<le> ag_ExpiresAt (gr_Wire g0) + off"
      using inv unfolding leaseOK_def by blast
    then show ?thesis using applyGrant_keeps [OF step] by blast
  qed
  then show ?thesis by (simp add: leaseOK_def)
qed

lemma applyBody_lease:
  assumes A: "applyBody fp s received rtt r budgets j = Inr (j', stale', ds, ws)" and "leaseOK off j (st_deadlines s)"
    and "0 \<le> rtt" and "received \<le> as_ServerTime r + off + rtt"
  shows "leaseOK off j' ds"
proof -
  obtain j1 stale a1 where s: "j_Grants j1 = j_Grants j"
    "foldE (applyGrant fp s stale received (as_ServerTime r) rtt) (as_Grants r)
        \<lparr>aa_j = j1, aa_deadlines = st_deadlines s, aa_seen = [], aa_ids = []\<rparr> = Inr a1"
    "ds = aa_deadlines a1"
    "\<And>gid g. Mapping.lookup (j_Grants (aa_j a1)) gid = Some g \<Longrightarrow>
        \<exists>g'. Mapping.lookup (j_Grants j') gid = Some g' \<and> sameAmounts g g'"
    by (rule applyBody_stages [OF A]) blast
  have "leaseOK off (aa_j a1) (aa_deadlines a1)"
    by (rule foldE_invariant [OF s(2), where P = "\<lambda>a. leaseOK off (aa_j a) (aa_deadlines a)"])
      (use assms(2-4) s(1) applyGrant_lease in \<open>auto simp: leaseOK_def\<close>)
  then show ?thesis using s(3,4) by (fastforce simp: leaseOK_def sameAmounts_def)
qed

lemma leaseOK_prune:
  assumes "leaseOK off j ds" and "journal_inv j"
  shows "leaseOK off (collect fp inst j) (pruneDeadlines (collect fp inst j) ds)"
proof -
  have "\<exists>g. Mapping.lookup (j_Grants (collect fp inst j)) gid = Some g \<and> t \<le> ag_ExpiresAt (gr_Wire g) + off"
    if l: "Mapping.lookup (pruneDeadlines (collect fp inst j) ds) gid = Some t" for gid t
  proof -
    have "Mapping.lookup ds gid = Some t" and "Mapping.lookup (j_Grants (collect fp inst j)) gid \<noteq> None"
      using l by (auto simp: pruneDeadlines_def lookup_filter split: option.splits if_splits)
    moreover from this obtain g where "Mapping.lookup (j_Grants j) gid = Some g" "t \<le> ag_ExpiresAt (gr_Wire g) + off"
      using assms(1) unfolding leaseOK_def by blast
    ultimately show ?thesis using collect_grants [OF assms(2), of fp inst gid] by (auto split: if_splits)
  qed
  then show ?thesis by (simp add: leaseOK_def)
qed

end
