(* ===== verification/EscrowSafety.thy ===== *)
theory EscrowSafety
  imports EscrowAdmit
begin

text \<open>
  The escrow as a system: any number of processes share one journal file, each opened under a
  fresh instance nonce, and their operations interleave. A step of the system is one
  operation of one process, or a process opening the file. The properties of this theory are
  about the reachable states of that system and about single operations.
\<close>

section \<open>Transactions\<close>

lemma transaction_journal:
  assumes "transaction fp io fn w = (w', res)"
  shows "w_db w' = w_db w
    \<or> (\<exists>j r. st_instance (w_store w) = db_owner (w_db w) \<and> decode (db_state (w_db w)) = Inr (db_state (w_db w))
        \<and> fn (db_state (w_db w)) = Inr (j, r)
        \<and> w_db w' = (w_db w)\<lparr>db_state := collect fp (st_instance (w_store w)) j\<rparr>)"
  using assms
  by (auto simp: transaction_def storageError_def Let_def decode_def split: if_splits option.splits storage.splits sum.splits)

lemma transaction_instance:
  "transaction fp io fn w = (w', res) \<Longrightarrow> st_instance (w_store w') = st_instance (w_store w)"
  by (auto simp: transaction_def storageError_def Let_def split: if_splits option.splits storage.splits sum.splits)

lemma transaction_inv:
  assumes "transaction fp io fn w = (w', res)" and "journal_inv (db_state (w_db w))"
    and "\<And>j r. fn (db_state (w_db w)) = Inr (j, r) \<Longrightarrow> journal_inv j"
  shows "journal_inv (db_state (w_db w'))"
  using transaction_journal [OF assms(1)] assms(2,3) collect_inv by fastforce

lemma transaction_fenced:
  "transaction fp io fn w = (w', res) \<Longrightarrow> st_instance (w_store w) \<noteq> db_owner (w_db w) \<Longrightarrow> w_db w' = w_db w"
  using transaction_journal by blast

lemma transaction_owner: "transaction fp io fn w = (w', res) \<Longrightarrow> db_owner (w_db w') = db_owner (w_db w)"
  using transaction_journal [of fp io fn w w' res] by auto

text \<open>A committed transaction of the owner.\<close>

lemma transaction_commits:
  assumes "transaction fp io fn w = (w', Inr r)"
  obtains j where "fn (db_state (w_db w)) = Inr (j, r)" "st_instance (w_store w) = db_owner (w_db w)"
    "w_db w' = (w_db w)\<lparr>db_state := collect fp (st_instance (w_store w)) j\<rparr>"
  using assms
  by (auto simp: transaction_def storageError_def Let_def decode_def split: if_splits option.splits storage.splits sum.splits)

lemma transaction_fails:
  "transaction fp io fn w = (w', Inl e) \<Longrightarrow> w_db w' = w_db w \<and> st_deadlines (w_store w') = st_deadlines (w_store w)"
  by (auto simp: transaction_def storageError_def Let_def split: if_splits option.splits storage.splits sum.splits)

section \<open>The operations of one process\<close>

inductive local_step :: "(AuthorityGrant \<Rightarrow> string) \<Rightarrow> World \<Rightarrow> World \<Rightarrow> bool" for fp where
  reserve: "set ns \<inter> Mapping.keys (j_Permits (db_state (w_db w))) = {} \<Longrightarrow>
    local_step fp w (fst (Reserve fp io clk ns subject bound w))"
| finish: "local_step fp w (fst (Finish fp io now authorization actual complete w))"
| request: "local_step fp w (fst (Request fp io now w))"
| apply_response: "response64 r \<Longrightarrow> local_step fp w (fst (Apply fp io received r rtt w))"
| close: "local_step fp w (Close w)"


lemma Reserve_outcome:
  assumes "Reserve fp io clk ns subject bound w = (w', res)"
  obtains "w' = w"
  | io1 now r where "0 \<le> bound" "transaction fp io1 (reserveBody (w_store w) subject bound now ns) w = (w', r)"
  | io1 io2 now now3 w1 r p r2 where "0 \<le> bound" "transaction fp io1 (reserveBody (w_store w) subject bound now ns) w = (w1, r)"
      "transaction fp io2 (undoBody (w_store w1) p now3) w1 = (w', r2)"
proof -
  note cases = that
  obtain io1 io2 now now2 now3 where i: "io = (io1, io2)" "clk = (now, now2, now3)" by (metis prod.exhaust)
  show thesis
  proof (cases "bound < 0 \<or> s_Team subject = []")
    case True
    then show thesis using assms cases(1) by (simp add: Reserve_def i)
  next
    case False
    then have b: "0 \<le> bound" by simp
    obtain w1 r1 where t: "transaction fp io1 (reserveBody (w_store w) subject bound now ns) w = (w1, r1)" by fastforce
    consider "w' = w1" | p w2 r2 where "transaction fp io2 (undoBody (w_store w1) p now3) w1 = (w2, r2)" "w' = w2"
      using assms False t
      by (fastforce simp: Reserve_def i split: sum.splits prod.splits if_splits)
    then show thesis using cases(2,3) b t by cases blast+
  qed
qed

lemma Finish_outcome:
  assumes "Finish fp io now authorization actual complete w = (w', res)"
  obtains "w' = w"
  | auth c r where "transaction fp io (finishBody (w_store w) auth actual c now) w = (w', r)"
proof (cases authorization)
  case None
  then show thesis using assms that(1) by (simp add: Finish_def)
next
  case (Some auth)
  let ?c = "if bp_InvalidUsage auth then False else complete"
  obtain w1 r where t: "transaction fp io (finishBody (w_store w) auth actual ?c now) w = (w1, r)" by fastforce
  then have "w' = w \<or> w' = w1"
    using assms Some by (auto simp: Finish_def Let_def split: if_splits sum.splits)
  then show thesis using that t by blast
qed

lemma Apply_outcome:
  assumes "Apply fp io received r rtt w = (w', res)"
  obtains "w' = w"
  | budgets w1 r1 where "validateBudgets r = Inr budgets"
      "transaction fp io (applyBody fp (w_store w) received rtt r budgets) w = (w1, r1)"
      "w_db w' = w_db w1" "st_instance (w_store w') = st_instance (w_store w1)"
proof (cases "validateBudgets r")
  case (Inl e)
  then show thesis using assms that(1) by (simp add: Apply_def split: if_splits)
next
  case (Inr budgets)
  obtain w1 r1 where t: "transaction fp io (applyBody fp (w_store w) received rtt r budgets) w = (w1, r1)" by fastforce
  have "w' = w \<or> w_db w' = w_db w1 \<and> st_instance (w_store w') = st_instance (w_store w1)"
    using assms Inr t by (auto simp: Apply_def split: if_splits sum.splits prod.splits)
  then show thesis using that Inr t by blast
qed

lemma Apply_fails:
  assumes "Apply fp io received r rtt w = (w', res)"
  shows "(w_db w' = w_db w \<and> st_deadlines (w_store w') = st_deadlines (w_store w))
    \<or> (\<exists>budgets stale ds ws w1. validateBudgets r = Inr budgets \<and> 0 \<le> rtt
        \<and> transaction fp io (applyBody fp (w_store w) received rtt r budgets) w = (w1, Inr (stale, ds, ws))
        \<and> w_db w' = w_db w1 \<and> st_deadlines (w_store w') = pruneDeadlines (db_state (w_db w1)) ds)"
proof (cases "validateBudgets r")
  case (Inl e)
  then show ?thesis using assms by (simp add: Apply_def split: if_splits)
next
  case (Inr budgets)
  obtain w1 r1 where t: "transaction fp io (applyBody fp (w_store w) received rtt r budgets) w = (w1, r1)" by fastforce
  show ?thesis
  proof (cases r1)
    case Inl: (Inl e)
    have "w_db w1 = w_db w \<and> st_deadlines (w_store w1) = st_deadlines (w_store w)"
      using transaction_fails [OF t [unfolded Inl]] .
    then show ?thesis using assms Inr t Inl by (auto simp: Apply_def split: if_splits)
  next
    case r1: (Inr x)
    obtain stale ds ws where "x = (stale, ds, ws)" by (metis prod.exhaust)
    then show ?thesis using assms Inr t r1 by (auto simp: Apply_def split: if_splits)
  qed
qed

lemma Request_transaction: "transaction fp io (requestBody (w_store w) now) w = (fst (Request fp io now w), snd (Request fp io now w))"
  by (simp add: Request_def)

text \<open>Every operation is a sequence of transactions: what they keep, the operation keeps.\<close>

lemma local_step_keeps:
  assumes "local_step fp w w'"
  shows "st_instance (w_store w') = st_instance (w_store w) \<and> db_owner (w_db w') = db_owner (w_db w)
    \<and> (st_instance (w_store w) \<noteq> db_owner (w_db w) \<longrightarrow> w_db w' = w_db w)
    \<and> (journal_inv (db_state (w_db w)) \<longrightarrow> journal_inv (db_state (w_db w')))"
  (is "?K w w'")
  using assms
proof cases
  case (reserve ns io clk subject bound)
  obtain res where R: "Reserve fp io clk ns subject bound w = (w', res)" using reserve(1) by (metis prod.collapse)
  have first: "?K w w1" if "transaction fp io1 (reserveBody (w_store w) subject bound now ns) w = (w1, r)" "0 \<le> bound"
    for io1 now w1 r
    using transaction_instance [OF that(1)] transaction_owner [OF that(1)] transaction_fenced [OF that(1)]
      transaction_inv [OF that(1)] reserveBody_inv [OF _ _ that(2) reserve(2)] by metis
  show ?thesis
    using R
  proof (cases rule: Reserve_outcome)
    case 1
    then show ?thesis by simp
  next
    case (2 io1 now r)
    then show ?thesis using first by blast
  next
    case (3 io1 io2 now now3 w1 r p r2)
    have "?K w1 w'"
      using transaction_instance [OF 3(3)] transaction_owner [OF 3(3)] transaction_fenced [OF 3(3)]
        transaction_inv [OF 3(3)] undoBody_inv by metis
    then show ?thesis using first [OF 3(2,1)] by metis
  qed
next
  case (finish io now authorization actual complete)
  obtain res where R: "Finish fp io now authorization actual complete w = (w', res)" using finish by (metis prod.collapse)
  show ?thesis
    using R
  proof (cases rule: Finish_outcome)
    case 1
    then show ?thesis by simp
  next
    case (2 auth c r)
    then show ?thesis
      using transaction_instance [OF 2] transaction_owner [OF 2] transaction_fenced [OF 2]
        transaction_inv [OF 2] finishBody_inv by metis
  qed
next
  case (request io now)
  note t = Request_transaction [where fp = fp and io = io and w = w and now = now, folded request]
  then show ?thesis
    using transaction_instance [OF t] transaction_owner [OF t] transaction_fenced [OF t] transaction_inv [OF t] requestBody_inv
    by metis
next
  case (apply_response r io received rtt)
  obtain res where R: "Apply fp io received r rtt w = (w', res)" using apply_response(1) by (metis prod.collapse)
  show ?thesis
    using R
  proof (cases rule: Apply_outcome)
    case 1
    then show ?thesis by simp
  next
    case (2 budgets w1 r1)
    have "?K w w1"
      using transaction_instance [OF 2(2)] transaction_owner [OF 2(2)] transaction_fenced [OF 2(2)]
        transaction_inv [OF 2(2)] applyBody_inv [OF _ _ 2(1) apply_response(2)] by metis
    then show ?thesis using 2 by simp
  qed
next
  case close
  then show ?thesis by (simp add: Close_def)
qed

section \<open>Processes sharing a journal\<close>

record Cluster =
  c_db :: "Db option"
  c_stores :: "(string, Store) mapping"

definition noProcess :: Cluster where
  "noProcess = \<lparr>c_db = None, c_stores = Mapping.empty\<rparr>"

definition opened :: "string \<Rightarrow> Db \<Rightarrow> Cluster \<Rightarrow> Cluster" where
  "opened inst d c = c\<lparr>c_db := Some d, c_stores := Mapping.update inst (newStore inst) (c_stores c)\<rparr>"

definition operated :: "string \<Rightarrow> World \<Rightarrow> Cluster \<Rightarrow> Cluster" where
  "operated inst w c = c\<lparr>c_db := Some (w_db w), c_stores := Mapping.update inst (w_store w) (c_stores c)\<rparr>"

inductive cluster_step :: "(AuthorityGrant \<Rightarrow> string) \<Rightarrow> Cluster \<Rightarrow> Cluster \<Rightarrow> bool" for fp where
  opens: "initialize fp inst (c_db c) = Inr d \<Longrightarrow> Mapping.lookup (c_stores c) inst = None \<Longrightarrow>
    cluster_step fp c (opened inst d c)"
| operates: "Mapping.lookup (c_stores c) inst = Some s \<Longrightarrow> c_db c = Some d \<Longrightarrow>
    local_step fp \<lparr>w_store = s, w_db = d\<rparr> w \<Longrightarrow> cluster_step fp c (operated inst w c)"

inductive cluster_steps :: "(AuthorityGrant \<Rightarrow> string) \<Rightarrow> Cluster \<Rightarrow> Cluster \<Rightarrow> bool" for fp where
  here: "cluster_steps fp c c"
| further: "cluster_steps fp c c1 \<Longrightarrow> cluster_step fp c1 c2 \<Longrightarrow> cluster_steps fp c c2"

abbreviation cluster_reachable :: "(AuthorityGrant \<Rightarrow> string) \<Rightarrow> Cluster \<Rightarrow> bool" where
  "cluster_reachable fp c \<equiv> cluster_steps fp noProcess c"

definition cluster_inv :: "Cluster \<Rightarrow> bool" where
  "cluster_inv c \<longleftrightarrow> (\<forall>d. c_db c = Some d \<longrightarrow> journal_inv (db_state d) \<and> Mapping.lookup (c_stores c) (db_owner d) \<noteq> None)
     \<and> (\<forall>i s. Mapping.lookup (c_stores c) i = Some s \<longrightarrow> st_instance s = i)"

lemma emptyJournal_inv: "journal_inv emptyJournal"
  by (simp add: journal_inv_def emptyJournal_def)

lemma journal_inv_reset: "journal_inv j \<Longrightarrow> journal_inv (j\<lparr>j_Ready := b, j_ServerTime := t, j_Budgets := Mapping.empty\<rparr>)"
  by (simp add: journal_inv_def permit_inv_def)

lemma initialize_inv:
  assumes "initialize fp inst db = Inr d" and "\<And>d0. db = Some d0 \<Longrightarrow> journal_inv (db_state d0)"
  shows "journal_inv (db_state d) \<and> db_owner d = inst"
proof -
  obtain j where j: "journal_inv j"
    and d: "d = \<lparr>db_owner = inst, db_state = collect fp inst (j\<lparr>j_Ready := False, j_ServerTime := 0, j_Budgets := Mapping.empty\<rparr>)\<rparr>"
    using assms emptyJournal_inv retire_outcome
    by (fastforce simp: initialize_def decode_def split: option.splits sum.splits if_splits)
  then show ?thesis using collect_inv [OF journal_inv_reset] by simp
qed

lemma cluster_step_inv:
  assumes "cluster_step fp c c'" and "cluster_inv c"
  shows "cluster_inv c'"
  using assms(1)
proof cases
  case (opens inst d)
  then show ?thesis
    using initialize_inv [OF opens(2)] assms(2) by (auto simp: cluster_inv_def opened_def newStore_def lookup_update')
next
  case (operates inst s d w)
  then show ?thesis
    using local_step_keeps [OF operates(4)] assms(2) by (auto simp: cluster_inv_def operated_def lookup_update')
qed

lemma cluster_steps_inv: "cluster_steps fp c c' \<Longrightarrow> cluster_inv c \<Longrightarrow> cluster_inv c'"
  by (induction rule: cluster_steps.induct) (auto intro: cluster_step_inv)

lemma reachable_inv: "cluster_reachable fp c \<Longrightarrow> cluster_inv c"
  by (rule cluster_steps_inv) (auto simp: cluster_inv_def noProcess_def)

text \<open>A process that lost the journal to a later one never owns it again.\<close>

lemma cluster_step_fenced:
  assumes "cluster_step fp c c'" and "c_db c = Some d" and "db_owner d \<noteq> i"
    and "Mapping.lookup (c_stores c) i \<noteq> None"
  shows "\<exists>d'. c_db c' = Some d' \<and> db_owner d' \<noteq> i \<and> Mapping.lookup (c_stores c') i \<noteq> None"
  using assms(1)
proof cases
  case (opens inst d')
  moreover have "db_owner d' = inst"
    using opens(2) by (auto simp: initialize_def split: option.splits sum.splits)
  ultimately show ?thesis using assms(4) by (auto simp: opened_def lookup_update')
next
  case (operates inst s d' w)
  then show ?thesis
    using local_step_keeps [OF operates(4)] assms(2-4) by (auto simp: operated_def lookup_update')
qed

lemma cluster_steps_fenced:
  assumes "cluster_steps fp c c'" and "c_db c = Some d" and "db_owner d \<noteq> i" and "Mapping.lookup (c_stores c) i \<noteq> None"
  shows "\<exists>d'. c_db c' = Some d' \<and> db_owner d' \<noteq> i \<and> Mapping.lookup (c_stores c') i \<noteq> None"
  using assms
proof (induction rule: cluster_steps.induct)
  case (further c c1 c2)
  then show ?case using cluster_step_fenced by blast
qed auto

text \<open>Before the first response of the authority nothing is admitted.\<close>

lemma Reserve_unready:
  assumes "\<not> j_Ready (db_state d)"
  shows "\<exists>e. snd (Reserve fp io clk ns subject bound \<lparr>w_store = s, w_db = d\<rparr>) = Inl e"
proof -
  obtain io1 io2 now now2 now3 where i: "io = (io1, io2)" "clk = (now, now2, now3)" by (metis prod.exhaust)
  let ?w = "\<lparr>w_store = s, w_db = d\<rparr>"
  obtain w1 r where t: "transaction fp io1 (reserveBody s subject bound now ns) ?w = (w1, r)" by fastforce
  have "\<exists>e. r = Inl e"
  proof (cases r)
    case (Inr x)
    obtain j where "reserveBody s subject bound now ns (db_state d) = Inr (j, x)"
      by (rule transaction_commits [OF t [unfolded Inr]]) simp
    with assms show ?thesis by (simp add: reserveBody_def split: if_splits)
  qed simp
  then show ?thesis using t by (auto simp: Reserve_def i)
qed

end
