(* ===== verification/EscrowProps.thy ===== *)
theory EscrowProps
  imports EscrowSafety
begin

text \<open>
  The properties of the node-local escrow, with a run of one process that the witnesses use: it
  opens an empty journal, learns a hard budget of 100 micro-dollars, queues a want, receives a grant of 50,
  reserves 5 on it and settles at 3.
\<close>

section \<open>A run\<close>

definition demoFp :: "AuthorityGrant \<Rightarrow> string" where
  "demoFp g = ag_ID g"

definition demoBudget :: AuthorityBudget where
  "demoBudget = \<lparr>ab_Key = ''k'', ab_Policy = ''p'', ab_Rule = ''r'', ab_Team = ''t'', ab_User = [], ab_Revision = ''v1'',
     ab_WindowID = ''w'', ab_WindowStart = 1, ab_WindowEnd = 1000, ab_LimitMicroUSD = 100, ab_GrantMicroUSD = 50,
     ab_LeaseSeconds = 1, ab_HardCap = True\<rparr>"

definition demoResponse :: "gotime \<Rightarrow> AuthorityGrant list \<Rightarrow> AuthorityResponse" where
  "demoResponse t gs = \<lparr>as_Protocol = AuthorityProtocol, as_ServerTime = t, as_Budgets = [demoBudget], as_Grants = gs,
     as_ReportAcks = [], as_MeterAcks = [], as_Denied = []\<rparr>"

definition demoGrant :: AuthorityGrant where
  "demoGrant = \<lparr>ag_ID = ''g1'', ag_RequestID = ''r1'', ag_Key = ''k'', ag_Revision = ''v1'', ag_WindowID = ''w'',
     ag_Amount = 50, ag_ExpiresAt = 900\<rparr>"

definition demoSubject :: Subject where
  "demoSubject = \<lparr>s_Team = ''t'', s_KeyID = [], s_User = []\<rparr>"

definition demoPermit :: BudgetPermit where
  "demoPermit = \<lparr>bp_ID = ''p1'', bp_BoundMicroUSD = 5, bp_InvalidUsage = False\<rparr>"

definition demoDb :: Db where
  "demoDb = \<lparr>db_owner = ''i1'', db_state = collect demoFp ''i1'' (emptyJournal\<lparr>j_Ready := False, j_ServerTime := 0, j_Budgets := Mapping.empty\<rparr>)\<rparr>"

definition demo1 :: World where
  "demo1 = \<lparr>w_store = newStore ''i1'', w_db = demoDb\<rparr>"

definition demo2 :: World where
  "demo2 = fst (Apply demoFp StorageOK 10 (demoResponse 10 []) 2 demo1)"

definition demo3 :: World where
  "demo3 = fst (Reserve demoFp (StorageOK, StorageOK) (11, 11, 11) [''r1''] demoSubject 5 demo2)"

definition demo4 :: World where
  "demo4 = fst (Request demoFp StorageOK 12 demo3)"

definition demo5 :: World where
  "demo5 = fst (Apply demoFp StorageOK 14 (demoResponse 13 [demoGrant]) 2 demo4)"

definition demo6 :: World where
  "demo6 = fst (Reserve demoFp (StorageOK, StorageOK) (15, 15, 15) [''p1''] demoSubject 5 demo5)"

definition demo7 :: World where
  "demo7 = fst (Finish demoFp StorageOK 20 (Some demoPermit) (Some 3) True demo6)"

definition demoJournal :: journal where
  "demoJournal = db_state (w_db demo6)"

definition demoCluster :: "World \<Rightarrow> Cluster" where
  "demoCluster w = \<lparr>c_db = Some (w_db w), c_stores = Mapping.update ''i1'' (w_store w) Mapping.empty\<rparr>"

lemma demo_open: "initialize demoFp ''i1'' None = Inr demoDb"
  by (simp add: initialize_def demoDb_def)

lemma demo_start: "cluster_reachable demoFp (demoCluster demo1)"
proof -
  have "cluster_step demoFp noProcess (opened ''i1'' demoDb noProcess)"
    by (rule cluster_step.opens) (simp_all add: noProcess_def demo_open)
  moreover have "opened ''i1'' demoDb noProcess = demoCluster demo1"
    by (simp add: opened_def demoCluster_def noProcess_def demo1_def)
  ultimately show ?thesis by (metis cluster_steps.here cluster_steps.further)
qed

lemma demo_step:
  assumes "cluster_reachable demoFp (demoCluster w)" and "local_step demoFp w w'"
  shows "cluster_reachable demoFp (demoCluster w')"
proof -
  have w: "\<lparr>w_store = w_store w, w_db = w_db w\<rparr> = w" by simp
  have "cluster_step demoFp (demoCluster w) (operated ''i1'' w' (demoCluster w))"
    by (rule cluster_step.operates [of _ _ "w_store w" "w_db w"]) (simp_all add: demoCluster_def lookup_update' w assms(2))
  moreover have "operated ''i1'' w' (demoCluster w) = demoCluster w'"
    by (auto simp: operated_def demoCluster_def lookup_update' intro: mapping_eqI)
  ultimately show ?thesis using assms(1) by (metis cluster_steps.further)
qed

lemma demo_fresh:
  "set [''r1''] \<inter> Mapping.keys (j_Permits (db_state (w_db demo2))) = {}"
  "set [''p1''] \<inter> Mapping.keys (j_Permits (db_state (w_db demo5))) = {}"
proof -
  have "Mapping.lookup (j_Permits (db_state (w_db demo2))) ''r1'' = None"
    "Mapping.lookup (j_Permits (db_state (w_db demo5))) ''p1'' = None"
    by code_simp+
  then show "set [''r1''] \<inter> Mapping.keys (j_Permits (db_state (w_db demo2))) = {}"
    "set [''p1''] \<inter> Mapping.keys (j_Permits (db_state (w_db demo5))) = {}"
    by (simp_all add: keys_lookup)
qed

lemma demo_reachable:
  shows "cluster_reachable demoFp (demoCluster demo5)" and "cluster_reachable demoFp (demoCluster demo6)"
    and "cluster_reachable demoFp (demoCluster demo4)"
proof -
  have "cluster_reachable demoFp (demoCluster demo2)"
    unfolding demo2_def by (rule demo_step [OF demo_start local_step.apply_response]) (simp add: response64_def demoResponse_def)
  then have "cluster_reachable demoFp (demoCluster demo3)"
    unfolding demo3_def by (rule demo_step [OF _ local_step.reserve [OF demo_fresh(1)]])
  then show 4: "cluster_reachable demoFp (demoCluster demo4)"
    unfolding demo4_def by (rule demo_step [OF _ local_step.request])
  from 4 show 5: "cluster_reachable demoFp (demoCluster demo5)"
    unfolding demo5_def by (rule demo_step [OF _ local_step.apply_response])
      (simp_all add: response64_def demoResponse_def demoGrant_def MaxInt64_def)
  from 5 show "cluster_reachable demoFp (demoCluster demo6)"
    unfolding demo6_def by (rule demo_step [OF _ local_step.reserve [OF demo_fresh(2)]])
qed

lemma demo_inv: "journal_inv (db_state (w_db demo5))" "journal_inv (db_state (w_db demo6))" "journal_inv (db_state (w_db demo4))"
  using demo_reachable [THEN reachable_inv] by (simp_all add: cluster_inv_def demoCluster_def)

lemma demoJournal_inv: "journal_inv demoJournal"
  using demo_inv by (simp add: demoJournal_def)

lemma demoJournal_open: "\<exists>g. Mapping.lookup (j_Grants demoJournal) ''g1'' = Some g \<and> \<not> gr_Closed g"
proof -
  have "(case Mapping.lookup (j_Grants demoJournal) ''g1'' of None \<Rightarrow> False | Some g \<Rightarrow> \<not> gr_Closed g)" by code_simp
  then show ?thesis by (auto split: option.splits)
qed

section \<open>The system\<close>

text \<open>
  C1: Whatever processes share the journal and however their operations interleave, every grant in
  the journal has exactly the bounds of its unsettled permits reserved on it, and unless an overrun was
  recorded on it, what it consumed and what is reserved never exceed its amount.
\<close>

theorem escrow_covers_reservations:
  assumes "cluster_reachable fp c" and "c_db c = Some d" and "Mapping.lookup (j_Grants (db_state d)) gid = Some g"
  shows "gr_Reserved g = heldAmount (j_Permits (db_state d)) gid \<and> gr_Pending g = heldCount (j_Permits (db_state d)) gid
    \<and> 0 \<le> gr_Consumed g \<and> (gr_Closed g \<longrightarrow> gr_Reserved g = 0)
    \<and> (\<not> gr_Overrun g \<longrightarrow> gr_Consumed g + gr_Reserved g \<le> ag_Amount (gr_Wire g))"
proof -
  have inv: "journal_inv (db_state d)" using reachable_inv [OF assms(1)] assms(2) by (simp add: cluster_inv_def)
  have "grant_inv (j_Permits (db_state d)) gid g" using journal_invD(6) [OF inv assms(3)] .
  then show ?thesis
    using held_none [OF _ journal_invD(2) [OF inv]] by (auto simp: grant_inv_def)
qed

theorem escrow_covers_reservations_witness:
  "\<exists>g. Mapping.lookup (j_Grants (db_state (w_db demo6))) ''g1'' = Some g \<and> gr_Reserved g = 5
     \<and> gr_Reserved g = heldAmount (j_Permits (db_state (w_db demo6))) ''g1''"
proof -
  have "(case Mapping.lookup (j_Grants (db_state (w_db demo6))) ''g1'' of None \<Rightarrow> False | Some g \<Rightarrow> gr_Reserved g = 5)"
    by code_simp
  then obtain g where g: "Mapping.lookup (j_Grants (db_state (w_db demo6))) ''g1'' = Some g" "gr_Reserved g = 5"
    by (auto split: option.splits)
  have "c_db (demoCluster demo6) = Some (w_db demo6)" by (simp add: demoCluster_def)
  from escrow_covers_reservations [OF demo_reachable(2) this g(1)] g show ?thesis by blast
qed

text \<open>
  C5: Opening a journal fences its previous owner for good: once another instance owns the
  journal, no operation of the old process, at any later time, changes it.
\<close>

theorem fenced_process_cannot_commit:
  assumes "cluster_reachable fp c" and "c_db c = Some d" and "Mapping.lookup (c_stores c) i \<noteq> None" and "db_owner d \<noteq> i"
    and "cluster_steps fp c c'" and "Mapping.lookup (c_stores c') i = Some s" and "c_db c' = Some d'"
    and "local_step fp \<lparr>w_store = s, w_db = d'\<rparr> w"
  shows "w_db w = d'"
proof -
  have "db_owner d' \<noteq> i" using cluster_steps_fenced [OF assms(5,2,4,3)] assms(7) by auto
  moreover have "st_instance s = i"
    using cluster_steps_inv [OF assms(5) reachable_inv [OF assms(1)]] assms(6) by (simp add: cluster_inv_def)
  ultimately show ?thesis using local_step_keeps [OF assms(8)] by simp
qed

definition demoTaken :: Cluster where
  "demoTaken = opened ''i2'' (case initialize demoFp ''i2'' (Some (w_db demo6)) of Inr d \<Rightarrow> d | Inl e \<Rightarrow> w_db demo6) (demoCluster demo6)"

theorem fenced_process_cannot_commit_witness:
  "\<exists>d. c_db demoTaken = Some d \<and> w_db (fst (Finish demoFp StorageOK 20 (Some demoPermit) (Some 3) True
     \<lparr>w_store = w_store demo6, w_db = d\<rparr>)) = d"
proof -
  have "(case initialize demoFp ''i2'' (Some (w_db demo6)) of Inr d \<Rightarrow> True | Inl e \<Rightarrow> False)" by code_simp
  then obtain d where d: "initialize demoFp ''i2'' (Some (w_db demo6)) = Inr d" by (auto split: sum.splits)
  then have taken: "demoTaken = opened ''i2'' d (demoCluster demo6)" "db_owner d = ''i2''"
    using initialize_inv [OF d] demo_inv by (simp_all add: demoTaken_def)
  have "cluster_step demoFp (demoCluster demo6) (opened ''i2'' d (demoCluster demo6))"
    by (rule cluster_step.opens) (simp_all add: demoCluster_def d lookup_update')
  with taken have r: "cluster_reachable demoFp demoTaken" using cluster_steps.further [OF demo_reachable(2)] by simp
  have "c_db demoTaken = Some d" "Mapping.lookup (c_stores demoTaken) ''i1'' = Some (w_store demo6)"
    by (simp_all add: taken opened_def demoCluster_def lookup_update')
  with fenced_process_cannot_commit [OF r _ _ _ cluster_steps.here _ _ local_step.finish, where i = "''i1''"] taken(2)
  show ?thesis by auto
qed

text \<open>
  C6: A restart forfeits everything the previous process held: in the journal a new process opens, no permit is in
  flight, every grant is closed with its whole amount consumed, and the new process
  admits nothing before the first response of the authority.
\<close>

theorem restart_forfeits_escrow:
  assumes "cluster_reachable fp c" and "c_db c = Some d0" and "initialize fp inst (Some d0) = Inr d"
  shows "(\<forall>pid p. Mapping.lookup (j_Permits (db_state d)) pid = Some p \<longrightarrow> pm_Done p)
    \<and> (\<forall>gid g. Mapping.lookup (j_Grants (db_state d)) gid = Some g \<longrightarrow> gr_Closed g \<and> ag_Amount (gr_Wire g) \<le> gr_Consumed g)
    \<and> (\<exists>e. snd (Reserve fp io clk ns subject bound \<lparr>w_store = newStore inst, w_db = d\<rparr>) = Inl e)"
proof -
  have inv: "journal_inv (db_state d0)" using reachable_inv [OF assms(1)] assms(2) by (simp add: cluster_inv_def)
  obtain j where j: "retire (db_state d0) = Inr j"
    and d: "db_state d = collect fp inst (j\<lparr>j_Ready := False, j_ServerTime := 0, j_Budgets := Mapping.empty\<rparr>)"
    using assms(3) by (auto simp: initialize_def decode_def split: sum.splits if_splits)
  let ?j = "j\<lparr>j_Ready := False, j_ServerTime := 0, j_Budgets := Mapping.empty\<rparr>"
  note r = retire_outcome [OF j inv]
  then have ij: "journal_inv ?j" using journal_inv_reset by blast
  have "pm_Done p" if "Mapping.lookup (j_Permits (db_state d)) pid = Some p" for pid p
    using collect_permits [OF ij, of p fp inst pid] that r unfolding d by auto
  moreover have "gr_Closed g \<and> ag_Amount (gr_Wire g) \<le> gr_Consumed g"
    if "Mapping.lookup (j_Grants (db_state d)) gid = Some g" for gid g
    using collect_grants [OF ij, of fp inst gid] that r unfolding d by (auto split: option.splits if_splits)
  moreover have "\<not> j_Ready (db_state d)" by (simp add: d collect_frame)
  then have "\<exists>e. snd (Reserve fp io clk ns subject bound \<lparr>w_store = newStore inst, w_db = d\<rparr>) = Inl e"
    by (rule Reserve_unready)
  ultimately show ?thesis by blast
qed

theorem restart_forfeits_escrow_witness:
  "\<exists>d. initialize demoFp ''i2'' (Some (w_db demo6)) = Inr d
     \<and> (\<exists>e. snd (Reserve demoFp (StorageOK, StorageOK) (30, 30, 30) [''p2''] demoSubject 1 \<lparr>w_store = newStore ''i2'', w_db = d\<rparr>) = Inl e)"
proof -
  have "(case initialize demoFp ''i2'' (Some (w_db demo6)) of Inr d \<Rightarrow> True | Inl e \<Rightarrow> False)" by code_simp
  then obtain d where d: "initialize demoFp ''i2'' (Some (w_db demo6)) = Inr d" by (auto split: sum.splits)
  have "c_db (demoCluster demo6) = Some (w_db demo6)" by (simp add: demoCluster_def)
  from restart_forfeits_escrow [OF demo_reachable(2) this d] d show ?thesis by blast
qed

section \<open>Admission and settlement\<close>

lemma Reserve_commits:
  assumes "Reserve fp io (now, now2, now3) ns subject bound w = (w', Inr bp)"
  obtains io1 expires where "transaction fp io1 (reserveBody (w_store w) subject bound now ns) w = (w', Inr (Inr bp, expires))"
    "0 \<le> bound"
proof -
  note result = that
  obtain io1 io2 where i: "io = (io1, io2)" by fastforce
  have b: "0 \<le> bound" "\<not> (bound < 0 \<or> s_Team subject = [])" using assms by (auto simp: Reserve_def i split: if_splits)
  obtain w1 r where t: "transaction fp io1 (reserveBody (w_store w) subject bound now ns) w = (w1, r)" by fastforce
  then have "w1 = w' \<and> (\<exists>e. r = Inr (Inr bp, e))"
    using assms b(2) by (auto simp: Reserve_def i split: sum.splits prod.splits if_splits)
  then show thesis using result t b(1) by blast
qed

text \<open>
  C2: A permit is covered by every budget that applies to its subject: for a hard budget
  it holds a grant of this process for that budget, revision and window, whose lease has not
  run out, with the whole bound reserved inside the amount of the grant; for a soft budget
  it is metered.
\<close>

theorem reserve_covers_every_budget:
  assumes "Reserve fp io (now, now2, now3) ns subject bound w = (w', Inr bp)" and "journal_inv (db_state (w_db w))"
    and "set ns \<inter> Mapping.keys (j_Permits (db_state (w_db w))) = {}"
    and "Mapping.lookup (j_Budgets (db_state (w_db w))) key = Some b" and "budgetMatches b subject"
  shows "\<exists>p. Mapping.lookup (j_Permits (db_state (w_db w'))) (bp_ID bp) = Some p \<and> pm_Bound p = bound \<and> \<not> pm_Done p
    \<and> pm_Instance p = st_instance (w_store w) \<and> permitCovers (w_store w) b bound now p (db_state (w_db w'))"
proof -
  obtain io1 expires where t: "transaction fp io1 (reserveBody (w_store w) subject bound now ns) w = (w', Inr (Inr bp, expires))"
    and b0: "0 \<le> bound"
    by (rule Reserve_commits [OF assms(1)])
  obtain j where j: "reserveBody (w_store w) subject bound now ns (db_state (w_db w)) = Inr (j, Inr bp, expires)"
    "w_db w' = (w_db w)\<lparr>db_state := collect fp (st_instance (w_store w)) j\<rparr>"
    by (rule transaction_commits [OF t]) blast
  have inv: "journal_inv j" by (rule reserveBody_inv [OF j(1) assms(2) b0 assms(3)])
  obtain p where p: "Mapping.lookup (j_Permits j) (bp_ID bp) = Some p" "pm_Bound p = bound" "\<not> pm_Done p"
    "pm_Instance p = st_instance (w_store w)" "permitCovers (w_store w) b bound now p j"
    by (rule reserveBody_covers [OF j(1) assms(2,4,5)])
  have "permitCovers (w_store w) b bound now p (collect fp (st_instance (w_store w)) j)"
    by (rule permitCovers_collect [OF p(5) inv])
  then show ?thesis
    using p(1-4) collect_permits [OF inv p(3), of fp "st_instance (w_store w)" "bp_ID bp"] j(2)
    by (intro exI [of _ p]) simp
qed

theorem reserve_covers_every_budget_witness:
  "\<exists>p. Mapping.lookup (j_Permits (db_state (w_db demo6))) ''p1'' = Some p \<and> pm_Bound p = 5
     \<and> permitCovers (w_store demo5) demoBudget 5 15 p (db_state (w_db demo6))"
proof -
  have "snd (Reserve demoFp (StorageOK, StorageOK) (15, 15, 15) [''p1''] demoSubject 5 demo5) = Inr demoPermit" by code_simp
  then have r: "Reserve demoFp (StorageOK, StorageOK) (15, 15, 15) [''p1''] demoSubject 5 demo5 = (demo6, Inr demoPermit)"
    by (metis demo6_def prod.collapse)
  have "Mapping.lookup (j_Budgets (db_state (w_db demo5))) ''k'' = Some demoBudget" "budgetMatches demoBudget demoSubject"
    by code_simp+
  from reserve_covers_every_budget [OF r demo_inv(1) demo_fresh(2) this] show ?thesis
    by (auto simp: demoPermit_def)
qed

lemma Finish_commits:
  assumes "Finish fp io now (Some auth) actual complete w = (w', None)"
  defines "c \<equiv> (if bp_InvalidUsage auth then False else complete)"
  obtains j where "finishBody (w_store w) auth actual c now (db_state (w_db w)) = Inr (j, None)"
    "w_db w' = (w_db w)\<lparr>db_state := collect fp (st_instance (w_store w)) j\<rparr>"
proof -
  note result = that
  obtain w1 r where t: "transaction fp io (finishBody (w_store w) auth actual c now) w = (w1, r)" by fastforce
  have "w1 = w' \<and> r = Inr None"
    using assms(1) t by (auto simp: Finish_def Let_def c_def split: if_splits sum.splits)
  then have "transaction fp io (finishBody (w_store w) auth actual c now) w = (w', Inr None)" using t by simp
  then show thesis by (rule transaction_commits) (use result in blast)
qed

text \<open>What the transaction did to the grants is what the journal holds, up to the collector.\<close>

lemma finish_charges:
  assumes "Finish fp io now (Some auth) actual complete w = (w', None)" and "journal_inv (db_state (w_db w))"
    and "Mapping.lookup (j_Permits (db_state (w_db w))) (bp_ID auth) = Some p" and "\<not> pm_Done p"
    and "Mapping.lookup (j_Grants (db_state (w_db w))) gid = Some g"
    and "settledAmounts (pm_Bound p) actual (if bp_InvalidUsage auth then False else complete) = (c, o')"
  shows "\<exists>g'. charged p c o' gid g g' \<and> (Mapping.lookup (j_Grants (db_state (w_db w'))) gid = Some g'
      \<or> finalized g' \<and> Mapping.lookup (j_Grants (db_state (w_db w'))) gid = None)"
proof -
  obtain j where j: "finishBody (w_store w) auth actual (if bp_InvalidUsage auth then False else complete) now (db_state (w_db w)) = Inr (j, None)"
    "w_db w' = (w_db w)\<lparr>db_state := collect fp (st_instance (w_store w)) j\<rparr>"
    by (rule Finish_commits [OF assms(1)])
  obtain g' where g': "Mapping.lookup (j_Grants j) gid = Some g'" "charged p c o' gid g g'"
    by (rule finishBody_charges [OF j(1) assms(2-4,6,5)])
  show ?thesis
    using g' collect_grants [OF finishBody_inv [OF j(1) assms(2)], of fp "st_instance (w_store w)" gid] j(2)
    by (auto split: if_splits)
qed

text \<open>
  Settling is idempotent while the receipt of the permit is kept: repeating the settlement, from any process and at any
  time, is accepted and changes nothing; a settlement that reports another cost, another completeness or
  other validity is refused.
\<close>

lemma finish_replay:
  assumes "Finish fp io now (Some auth) actual complete w = (w', None)" and "journal_inv (db_state (w_db w))"
    and "Mapping.lookup (j_Permits (db_state (w_db w'))) (bp_ID auth) \<noteq> None"
    and "bp_ID auth' = bp_ID auth" and "bp_BoundMicroUSD auth' = bp_BoundMicroUSD auth"
  shows "finishBody s auth' actual' complete' now' (db_state (w_db w')) =
    (if actual' = actual \<and> complete' = (if bp_InvalidUsage auth then False else complete)
        \<and> bp_InvalidUsage auth' = bp_InvalidUsage auth
     then Inr (db_state (w_db w'), None) else Inl ErrAuthorityInvalid)"
proof -
  let ?c = "if bp_InvalidUsage auth then False else complete"
  obtain j where j: "finishBody (w_store w) auth actual ?c now (db_state (w_db w)) = Inr (j, None)"
    "w_db w' = (w_db w)\<lparr>db_state := collect fp (st_instance (w_store w)) j\<rparr>"
    by (rule Finish_commits [OF assms(1)])
  obtain p where p: "Mapping.lookup (j_Permits (db_state (w_db w))) (bp_ID auth) = Some p"
    using j(1) by (auto simp: finishBody_def split: option.splits)
  obtain p' where p': "Mapping.lookup (j_Permits j) (bp_ID auth) = Some p'" "pm_Done p'" "\<not> pm_Retired p'"
    "pm_Bound p' = bp_BoundMicroUSD auth" "pm_Complete p' = ?c" "pm_InvalidUsage p' = bp_InvalidUsage auth" "pm_Actual p' = actual"
    by (rule finishBody_receipt [OF j(1) assms(2) p])
  obtain q where q: "Mapping.lookup (j_Permits (collect fp (st_instance (w_store w)) j)) (bp_ID auth) = Some q"
    using assms(3) j(2) by auto
  have "pm_Done q" "\<not> pm_Retired q" "pm_Bound q = bp_BoundMicroUSD auth'" "pm_Complete q = ?c"
    "pm_InvalidUsage q = bp_InvalidUsage auth" "pm_Actual q = actual"
    using collect_receipt [OF finishBody_inv [OF j(1) assms(2)] p'(1) q] p' assms(5) by auto
  with finishBody_replay [of "db_state (w_db w')" auth' q] q j(2) assms(4) show ?thesis by auto
qed

section \<open>Responses\<close>

text \<open>
  A response of the authority, replayed, delayed or duplicated, never resets what a grant has spent: a grant the journal
  already holds keeps its amount, its consumption and its reservations, and a closed grant is not reopened; it can only
  leave the journal once finalized.
\<close>

lemma apply_keeps_spend:
  assumes "Apply fp io received r rtt w = (w', res)" and "journal_inv (db_state (w_db w))" and "response64 r"
    and "Mapping.lookup (j_Grants (db_state (w_db w))) gid = Some g"
  shows "\<exists>g'. sameAmounts g g' \<and> (Mapping.lookup (j_Grants (db_state (w_db w'))) gid = Some g'
      \<or> finalized g' \<and> Mapping.lookup (j_Grants (db_state (w_db w'))) gid = None)"
  using assms(1)
proof (cases rule: Apply_outcome)
  case 1
  then show ?thesis using assms(4) sameAmounts_refl by blast
next
  case (2 budgets w1 r1)
  from transaction_journal [OF 2(2)]
  consider "w_db w1 = w_db w"
    | j x where "applyBody fp (w_store w) received rtt r budgets (db_state (w_db w)) = Inr (j, x)"
        "w_db w1 = (w_db w)\<lparr>db_state := collect fp (st_instance (w_store w)) j\<rparr>" by blast
  then show ?thesis
  proof cases
    case 1
    then show ?thesis using 2(3) assms(4) sameAmounts_refl by auto
  next
    case a: (2 j x)
    obtain g' where g': "Mapping.lookup (j_Grants j) gid = Some g'" "sameAmounts g g'"
      by (rule applyBody_keeps [OF a(1) assms(4)])
    have "journal_inv j" by (rule applyBody_inv [OF a(1) assms(2) 2(1) assms(3)])
    from collect_grants [OF this, of fp "st_instance (w_store w)" gid] g' a(2) 2(3) show ?thesis
      by (auto split: if_splits)
  qed
qed

text \<open>
  C7: A node never spends on a grant past its expiry. With a local clock that runs at the authority's rate, ahead by an
  unknown offset, and a response whose server time was read within the measured round trip, every local
  deadline the store keeps lies before the expiry of its grant on the authority's clock.
\<close>

theorem lease_deadline_sound:
  assumes "Apply fp io received r rtt w = (w', res)" and "journal_inv (db_state (w_db w))" and "response64 r"
    and "leaseOK off (db_state (w_db w)) (st_deadlines (w_store w))" and "received \<le> as_ServerTime r + off + rtt"
  shows "leaseOK off (db_state (w_db w')) (st_deadlines (w_store w'))"
proof (cases "\<exists>budgets j stale ds ws w1. validateBudgets r = Inr budgets \<and> 0 \<le> rtt
    \<and> transaction fp io (applyBody fp (w_store w) received rtt r budgets) w = (w1, Inr (stale, ds, ws))
    \<and> w_db w' = w_db w1 \<and> st_deadlines (w_store w') = pruneDeadlines (db_state (w_db w1)) ds")
  case True
  then obtain budgets j stale ds ws w1 where b: "validateBudgets r = Inr budgets" "0 \<le> rtt"
    and t: "transaction fp io (applyBody fp (w_store w) received rtt r budgets) w = (w1, Inr (stale, ds, ws))"
    and w': "w_db w' = w_db w1" "st_deadlines (w_store w') = pruneDeadlines (db_state (w_db w1)) ds" by blast
  obtain j where j: "applyBody fp (w_store w) received rtt r budgets (db_state (w_db w)) = Inr (j, stale, ds, ws)"
    "w_db w1 = (w_db w)\<lparr>db_state := collect fp (st_instance (w_store w)) j\<rparr>"
    by (rule transaction_commits [OF t]) blast
  have "leaseOK off j ds" by (rule applyBody_lease [OF j(1) assms(4) b(2) assms(5)])
  from leaseOK_prune [OF this applyBody_inv [OF j(1) assms(2) b(1) assms(3)]] show ?thesis by (simp add: w' j(2))
next
  case False
  then have "w_db w' = w_db w \<and> st_deadlines (w_store w') = st_deadlines (w_store w)"
    using Apply_fails [OF assms(1)] by blast
  then show ?thesis using assms(4) by simp
qed

theorem lease_deadline_sound_witness:
  "leaseOK 0 (db_state (w_db demo5)) (st_deadlines (w_store demo5)) \<and> timeAt (st_deadlines (w_store demo5)) ''g1'' = 899"
proof -
  have r: "response64 (demoResponse 13 [demoGrant])"
    by (simp add: response64_def demoResponse_def demoGrant_def MaxInt64_def)
  have "Mapping.is_empty (st_deadlines (w_store demo4))" by code_simp
  then have "leaseOK 0 (db_state (w_db demo4)) (st_deadlines (w_store demo4))"
    by (auto simp: leaseOK_def Mapping.is_empty_def dest: lookup_in_keys)
  moreover obtain res where "Apply demoFp StorageOK 14 (demoResponse 13 [demoGrant]) 2 demo4 = (demo5, res)"
    by (metis demo5_def prod.collapse)
  moreover have "14 \<le> as_ServerTime (demoResponse 13 [demoGrant]) + 0 + 2" by (simp add: demoResponse_def)
  ultimately have "leaseOK 0 (db_state (w_db demo5)) (st_deadlines (w_store demo5))"
    using lease_deadline_sound [OF _ demo_inv(3) r] by blast
  moreover have "timeAt (st_deadlines (w_store demo5)) ''g1'' = 899" by code_simp
  ultimately show ?thesis by simp
qed

section \<open>The collector\<close>

text \<open>
  The collector forgets exactly the grants that are over: a grant survives unchanged until it is
  closed, nothing is in flight against it and the authority acknowledged its last report; a permit
  in flight is never dropped or altered.
\<close>

lemma collect_forgets_only_finalized:
  assumes "journal_inv j"
  shows "Mapping.lookup (j_Grants (collect fp inst j)) gid =
      (case Mapping.lookup (j_Grants j) gid of
         None \<Rightarrow> None
       | Some g \<Rightarrow> if gr_Closed g \<and> gr_Pending g = 0 \<and> gr_Reserved g = 0 \<and> gr_Ack g = gr_Sequence g then None else Some g)
    \<and> (\<not> pm_Done p \<longrightarrow>
      (Mapping.lookup (j_Permits (collect fp inst j)) pid = Some p \<longleftrightarrow> Mapping.lookup (j_Permits j) pid = Some p))"
  using collect_grants [OF assms, of fp inst gid] collect_permits [OF assms, of p fp inst pid]
  unfolding finalized_def by blast

text \<open>
  The journal does not grow with traffic: after a transaction at most 256 settled permits, 1024
  replay receipts and 1024 requests whose budget is gone are kept.
\<close>

lemma collect_bounded:
  assumes "journal_inv j" and "Mapping.keys (j_Receipts j) \<subseteq> set (j_ReceiptOrder j)"
    and "int (length (j_ReceiptOrder j)) \<le> replayReceiptLimit"
  shows "int (card {pid. \<exists>p. Mapping.lookup (j_Permits (collect fp inst j)) pid = Some p \<and> pm_Done p}) \<le> 256
    \<and> int (card (Mapping.keys (j_Receipts (collect fp inst j)))) \<le> 1024
    \<and> int (card {rid. \<exists>r. Mapping.lookup (j_Requests (collect fp inst j)) rid = Some r \<and> rq_Obsolete r \<and> rq_GrantID r = []}) \<le> 1024
    \<and> Mapping.keys (j_Receipts (collect fp inst j)) \<subseteq> set (j_ReceiptOrder (collect fp inst j))
    \<and> int (length (j_ReceiptOrder (collect fp inst j))) \<le> replayReceiptLimit"
proof -
  have l: "receipts_listed (collect fp inst j)" by (rule collect_listed) (use assms in \<open>simp add: receipts_listed_def\<close>)
  then have "int (card (Mapping.keys (j_Receipts (collect fp inst j)))) \<le> 1024"
    using card_le_length [of _ "j_ReceiptOrder (collect fp inst j)" 1024] by (simp add: receipts_listed_def replayReceiptLimit_def)
  moreover have "int (card {pid. \<exists>p. Mapping.lookup (j_Permits (collect fp inst j)) pid = Some p \<and> pm_Done p}) \<le> 256"
    using card_le_length [OF collectPermits_done [OF journal_invD(2) [OF assms(1)]], of 256] collectPermits_bound [of j]
    by (simp add: collect_frame completedReceiptLimit_def)
  moreover have "int (card {rid. \<exists>r. Mapping.lookup (j_Requests (collect fp inst j)) rid = Some r \<and> rq_Obsolete r \<and> rq_GrantID r = []}) \<le> 1024"
  proof -
    obtain j0 where j0: "collect fp inst j = collectObsoleteRequests j0" "journal_inv j0"
      using collect_reaches [OF assms(1)] by blast
    show ?thesis
      using card_le_length [OF collectObsolete_listed [OF journal_invD(4) [OF j0(2)]], of 1024] collectObsolete_bound [of j0]
      by (simp add: j0 requestSkipped_def obsoleteRequestLimit_def)
  qed
  ultimately show ?thesis using l by (simp add: receipts_listed_def)
qed

end
