(* ===== verification/GoStd.thy ===== *)
theory GoStd
  imports Float64
begin

text \<open>
  The parts of Go's standard library the policy documents rely on:
  \<^verbatim>\<open>strings.TrimSpace\<close>, \<^verbatim>\<open>strings.ContainsAny\<close> and \<^verbatim>\<open>time.ParseDuration\<close>, written
  out from their documented algorithm. Strings are byte strings, so the white space that
  \<^verbatim>\<open>TrimSpace\<close> removes is recognised in its UTF-8 encoding.
\<close>

section \<open>Strings\<close>

text \<open>The number of bytes of the white space character at the head of a string, 0 if none.\<close>

definition space_len :: "string \<Rightarrow> nat" where
  "space_len s =
     (case map of_char s :: nat list of
        [] \<Rightarrow> 0
      | a # r \<Rightarrow>
          if a \<in> {9, 10, 11, 12, 13, 32} then 1
          else (case r of
                  [] \<Rightarrow> 0
                | b # r' \<Rightarrow>
                    if a = 194 \<and> b \<in> {133, 160} then 2
                    else (case r' of
                            [] \<Rightarrow> 0
                          | c # _ \<Rightarrow>
                              if (a = 225 \<and> b = 154 \<and> c = 128)
                                \<or> (a = 226 \<and> b = 128 \<and> (128 \<le> c \<and> c \<le> 138 \<or> c \<in> {168, 169, 175}))
                                \<or> (a = 226 \<and> b = 129 \<and> c = 159)
                                \<or> (a = 227 \<and> b = 128 \<and> c = 128) then 3
                              else 0)))"

lemma space_len_length: "space_len s \<le> length s"
proof -
  consider "s = []" | a where "s = [a]" | a b where "s = [a, b]" | a b c r where "s = a # b # c # r"
    by (metis list.exhaust)
  then show ?thesis by cases (simp_all add: space_len_def)
qed

function trim_left :: "string \<Rightarrow> string" where
  "trim_left s = (if space_len s = 0 then s else trim_left (drop (space_len s) s))"
  by pat_completeness auto
termination
proof (relation "measure length")
  show "(drop (space_len s) s, s) \<in> measure length" if "space_len s \<noteq> 0" for s
    using that space_len_length [of s] by simp
qed simp

declare trim_left.simps [simp del]

text \<open>\<^verbatim>\<open>strings.TrimSpace(s) == ""\<close>: nothing is left once the leading white space is gone.\<close>

definition blank :: "string \<Rightarrow> bool" where
  "blank s \<longleftrightarrow> trim_left s = []"

lemma blank_Nil [simp]: "blank []"
  by (simp add: blank_def trim_left.simps [of "[]"] space_len_def)

lemma not_blank_ne: "\<not> blank s \<Longrightarrow> s \<noteq> []"
  by auto

definition ContainsAny :: "string \<Rightarrow> string \<Rightarrow> bool" where
  "ContainsAny s chars \<longleftrightarrow> list_ex (\<lambda>c. c \<in> set chars) s"

section \<open>Durations\<close>

definition is_digit :: "char \<Rightarrow> bool" where
  "is_digit c \<longleftrightarrow> 48 \<le> (of_char c :: nat) \<and> (of_char c :: nat) \<le> 57"

definition digit_of :: "char \<Rightarrow> int" where
  "digit_of c = int (of_char c) - 48"

text \<open>\<^verbatim>\<open>leadingInt\<close>: \<open>None\<close> on overflow of \<open>2 ^ 63\<close>.\<close>

fun leadingInt :: "int \<Rightarrow> string \<Rightarrow> (int \<times> string) option" where
  "leadingInt x [] = Some (x, [])"
| "leadingInt x (c # s) =
     (if \<not> is_digit c then Some (x, c # s)
      else if x > 2 ^ 63 div 10 then None
      else (let x' = x * 10 + digit_of c in if x' > 2 ^ 63 then None else leadingInt x' s))"

text \<open>\<^verbatim>\<open>leadingFraction\<close>: digits beyond the range are skipped.\<close>

fun leadingFraction :: "int \<Rightarrow> int \<Rightarrow> bool \<Rightarrow> string \<Rightarrow> int \<times> int \<times> string" where
  "leadingFraction x scale over [] = (x, scale, [])"
| "leadingFraction x scale over (c # s) =
     (if \<not> is_digit c then (x, scale, c # s)
      else if over \<or> x > MaxInt64 div 10 \<or> x * 10 + digit_of c > 2 ^ 63
        then leadingFraction x scale True s
      else leadingFraction (x * 10 + digit_of c) (scale * 10) False s)"

definition duration_unit :: "string \<Rightarrow> int option" where
  "duration_unit u =
     (if u = ''ns'' then Some 1
      else if u = ''us'' \<or> u = [char_of (194::nat), char_of (181::nat), CHR ''s'']
        \<or> u = [char_of (206::nat), char_of (188::nat), CHR ''s''] then Some 1000
      else if u = ''ms'' then Some 1000000
      else if u = ''s'' then Some 1000000000
      else if u = ''m'' then Some 60000000000
      else if u = ''h'' then Some 3600000000000
      else None)"

text \<open>One iteration of the loop: a number with its unit, and the rest of the string.\<close>

definition duration_item :: "string \<Rightarrow> (int \<times> string) option" where
  "duration_item s =
     (if s = [] \<or> \<not> (hd s = CHR ''.'' \<or> is_digit (hd s)) then None
      else (case leadingInt 0 s of
              None \<Rightarrow> None
            | Some (v, s1) \<Rightarrow>
                (let pre = (length s \<noteq> length s1);
                     dot = (s1 \<noteq> [] \<and> hd s1 = CHR ''.'');
                     (f, scale, s2) = (if dot then leadingFraction 0 1 False (tl s1) else (0, 1, s1));
                     post = (dot \<and> length (tl s1) \<noteq> length s2);
                     u = takeWhile (\<lambda>c. \<not> (c = CHR ''.'' \<or> is_digit c)) s2;
                     rest = dropWhile (\<lambda>c. \<not> (c = CHR ''.'' \<or> is_digit c)) s2
                 in if \<not> pre \<and> \<not> post then None
                    else if u = [] then None
                    else (case duration_unit u of
                            None \<Rightarrow> None
                          | Some unit \<Rightarrow>
                              if v > 2 ^ 63 div unit then None
                              else (let v' = v * unit
                                          + (if f > 0
                                             then trunc (fl (float_of_int f
                                                    * fl (float_of_int unit / float_of_int scale)))
                                             else 0)
                                    in if f > 0 \<and> v' > 2 ^ 63 then None else Some (v', rest))))))"

lemma leadingInt_length: "leadingInt x s = Some (v, r) \<Longrightarrow> length r \<le> length s"
  by (induction x s rule: leadingInt.induct) (auto simp: Let_def split: if_splits)

lemma leadingFraction_length: "leadingFraction x sc b s = (f, sc', r) \<Longrightarrow> length r \<le> length s"
proof (induction x sc b s rule: leadingFraction.induct)
  case (2 x scale over c s)
  show ?case
  proof (cases "is_digit c")
    case False
    then show ?thesis using "2.prems" by simp
  next
    case True
    then show ?thesis
      using "2.prems" "2.IH" by (simp only: leadingFraction.simps split: if_splits) (auto intro: le_SucI)
  qed
qed simp

lemma duration_item_shorter:
  assumes "duration_item s = Some (v, rest)"
  shows "length rest < length s"
proof -
  obtain w s1 where 1: "leadingInt 0 s = Some (w, s1)"
    using assms by (auto simp: duration_item_def split: if_splits option.splits)
  define s2 where "s2 = snd (snd (if s1 \<noteq> [] \<and> hd s1 = CHR ''.'' then leadingFraction 0 1 False (tl s1) else (0, 1, s1)))"
  have "length s2 \<le> length s1"
  proof (cases "s1 \<noteq> [] \<and> hd s1 = CHR ''.''")
    case True
    obtain f sc r where l: "leadingFraction 0 1 False (tl s1) = (f, sc, r)"
      by (cases "leadingFraction 0 1 False (tl s1)") auto
    then show ?thesis using True leadingFraction_length [OF l] by (simp add: s2_def)
  next
    case False
    then show ?thesis by (simp only: s2_def if_False snd_conv)
  qed
  then have 2: "length s2 \<le> length s" using leadingInt_length [OF 1] by simp
  let ?P = "\<lambda>c. \<not> (c = CHR ''.'' \<or> is_digit c)"
  have 3: "takeWhile ?P s2 \<noteq> []" and 4: "rest = dropWhile ?P s2"
    using assms 1 unfolding duration_item_def s2_def Let_def
    by (auto split: if_splits prod.splits option.splits)
  have "length (takeWhile ?P s2) + length (dropWhile ?P s2) = length s2"
    by (metis length_append takeWhile_dropWhile_id)
  moreover have "length (takeWhile ?P s2) > 0" using 3 by simp
  ultimately show ?thesis using 2 unfolding 4 by linarith
qed

text \<open>The sum is kept in a \<^verbatim>\<open>uint64\<close>.\<close>

function duration_sum :: "int \<Rightarrow> string \<Rightarrow> int option" where
  "duration_sum d s =
     (if s = [] then Some d
      else (case duration_item s of
              None \<Rightarrow> None
            | Some (v, rest) \<Rightarrow>
                (let d' = (d + v) mod 2 ^ 64 in if d' > 2 ^ 63 then None else duration_sum d' rest)))"
  by pat_completeness auto
termination
  by (relation "measure (\<lambda>(d, s). length s)") (auto dest: duration_item_shorter)

declare duration_sum.simps [simp del]

definition ParseDuration :: "string \<Rightarrow> duration option" where
  "ParseDuration str =
     (let neg = (str \<noteq> [] \<and> hd str = CHR ''-'');
          s = (if str \<noteq> [] \<and> (hd str = CHR ''-'' \<or> hd str = CHR ''+'') then tl str else str)
      in if s = ''0'' then Some 0
         else if s = [] then None
         else (case duration_sum 0 s of
                 None \<Rightarrow> None
               | Some d \<Rightarrow> if neg then Some (wrap64 (- d)) else if d > MaxInt64 then None else Some d))"

lemma duration_sum_range:
  "duration_sum d s = Some d' \<Longrightarrow> 0 \<le> d \<Longrightarrow> d \<le> 2 ^ 63 \<Longrightarrow> 0 \<le> d' \<and> d' \<le> 2 ^ 63"
proof (induction d s rule: duration_sum.induct)
  case (1 d s)
  show ?case
  proof (cases "s = []")
    case True
    then show ?thesis using "1.prems" by (simp add: duration_sum.simps)
  next
    case False
    then obtain v rest where item: "duration_item s = Some (v, rest)"
      using "1.prems"(1) by (subst (asm) duration_sum.simps) (auto split: option.splits)
    then have "duration_sum ((d + v) mod 2 ^ 64) rest = Some d'" "(d + v) mod 2 ^ 64 \<le> 2 ^ 63"
      using "1.prems"(1) False by (subst (asm) duration_sum.simps; simp add: Let_def split: if_splits)+
    then show ?thesis using "1.IH" [OF False item] by (simp add: linorder_not_less)
  qed
qed

lemma ParseDuration_in64: "ParseDuration s = Some d \<Longrightarrow> in64 d"
  using duration_sum_range [of 0]
  by (auto simp: ParseDuration_def Let_def split: if_splits option.splits)
    (fastforce simp: in64_bounds)+

end
