(* ===== verification/PolicyDoc.thy ===== *)
theory PolicyDoc
  imports GoStd Calendar
begin

text \<open>
  Governance policy documents: the wire types of \<^verbatim>\<open>api/v1alpha1/types.go\<close>, the internal
  form of \<^verbatim>\<open>internal/policy/policy.go\<close> and the conversion between them, which rejects
  everything the build does not fully support, and the classification of
  \<^verbatim>\<open>internal/policy/routing_budget.go\<close>.

  A string type of the wire (a failure policy, a period) is a \<open>string\<close>, because a document
  may carry any value there. A rejection carries the document's version and kind, the rule
  and a reason: the reasons are a datatype with one constructor per message of the source.
  Where the source ranges over a map (the substitutions of a tier), the model visits the keys
  in ascending order; only the choice among several applicable reasons depends on it.
\<close>

section \<open>Wire types\<close>

definition APIVersion :: string where
  "APIVersion = ''inferplane.dev/v1alpha1''"

definition KindGovernancePolicy :: string where
  "KindGovernancePolicy = ''GovernancePolicy''"

definition FailOpen :: string where
  "FailOpen = ''FailOpen''"

definition FailClosed :: string where
  "FailClosed = ''FailClosed''"

definition PreferAffinity :: string where
  "PreferAffinity = ''PreferAffinity''"

definition PreferFallback :: string where
  "PreferFallback = ''PreferFallback''"

definition InternalOnly :: string where
  "InternalOnly = ''InternalOnly''"

definition BlockAction :: string where
  "BlockAction = ''Block''"

definition Mask :: string where
  "Mask = ''Mask''"

definition Shadow :: string where
  "Shadow = ''Shadow''"

definition Enforce :: string where
  "Enforce = ''Enforce''"

lemmas wire_names =
  FailOpen_def FailClosed_def PeriodCalendarDay_def PeriodCalendarMonth_def PreferAffinity_def
  PreferFallback_def InternalOnly_def BlockAction_def Mask_def Shadow_def Enforce_def

record TypeMeta =
  tm_APIVersion :: string
  tm_Kind :: string

record ObjectMeta =
  om_Name :: string
  om_Generation :: int

record V1Subject =
  v1s_Team :: string
  v1s_User :: string

record TokenQuotaRule =
  tq_LimitTokens :: int
  tq_Period :: string

record LeaseSpec =
  ls_GrantMilliUSD :: int
  ls_RenewInterval :: string

record BudgetRule =
  br_Unlimited :: bool
  br_LimitMilliUSD :: int
  br_HardCap :: bool
  br_Lease :: LeaseSpec
  br_AdminContact :: string
  br_Period :: string

record ModelAccessRule =
  ma_Allow :: "string list"

record RateRule =
  rr_Unlimited :: bool
  rr_RPM :: int
  rr_TPM :: int

record V1BudgetTier =
  vt_ThresholdPercent :: int
  vt_Substitute :: "(string, string) mapping"

record BudgetTiersRule =
  bt_BudgetRef :: string
  bt_Tiers :: "V1BudgetTier list"
  bt_EnforceTargets :: bool

record SensitiveDataRule =
  sd_OnDetected :: string
  sd_OnUninspectable :: string
  sd_InternalModels :: "string list"

record V1ContextStability =
  vs_MinHold :: string
  vs_MinRequests :: int
  vs_SessionTTL :: string

record ContextRule =
  cr_Mode :: string
  cr_FromModels :: "string list"
  cr_SimpleModel :: string
  cr_ComplexModel :: string
  cr_MaxSimpleInputTokens :: int
  cr_ComplexKeywords :: "string list"
  cr_NormalModel :: string
  cr_MaxNormalInputTokens :: int
  cr_Stability :: "V1ContextStability option"

record RoutingRule =
  rt_OnAffinityConflict :: string
  rt_BudgetTiers :: "BudgetTiersRule option"
  rt_Context :: "ContextRule option"

record V1Rule =
  wr_Name :: string
  wr_FailurePolicy :: string
  wr_Budget :: "BudgetRule option"
  wr_Routing :: "RoutingRule option"
  wr_ModelAccess :: "ModelAccessRule option"
  wr_Rate :: "RateRule option"
  wr_SensitiveData :: "SensitiveDataRule option"
  wr_TokenQuota :: "TokenQuotaRule option"

record GovernancePolicySpec =
  gs_Subject :: V1Subject
  gs_Rules :: "V1Rule list"

record GovernancePolicy =
  gp_TypeMeta :: TypeMeta
  gp_Metadata :: ObjectMeta
  gp_Spec :: GovernancePolicySpec

section \<open>Internal types\<close>

record TokenQuota =
  q_LimitTokens :: int
  q_Period :: string

record PolicyBudget =
  b_Unlimited :: bool
  b_LimitMicroUSD :: int
  b_HardCap :: bool
  b_LeaseGrantMicroUSD :: int
  b_LeaseRenewInterval :: duration
  b_AdminContact :: string
  b_Period :: string

record ModelAccess =
  m_Allow :: "string list"

record PolicyRate =
  pr_Unlimited :: bool
  pr_RPM :: int
  pr_TPM :: int

record Affinity =
  af_OnAffinityConflict :: string

record BudgetTier =
  t_ThresholdPercent :: int
  t_Substitute :: "(string, string) mapping"

record BudgetTiers =
  ts_BudgetRef :: string
  ts_Tiers :: "BudgetTier list"
  ts_EnforceTargets :: bool

record ContextStability =
  cs_MinHold :: duration
  cs_MinRequests :: int
  cs_SessionTTL :: duration

record PolicyContext =
  cx_Mode :: string
  cx_FromModels :: "string list"
  cx_SimpleModel :: string
  cx_ComplexModel :: string
  cx_MaxSimpleInputTokens :: int
  cx_ComplexKeywords :: "string list"
  cx_NormalModel :: string
  cx_MaxNormalInputTokens :: int
  cx_Stability :: "ContextStability option"

record Routing =
  ro_Affinity :: "Affinity option"
  ro_BudgetTiers :: "BudgetTiers option"
  ro_Context :: "PolicyContext option"

record SensitiveData =
  s_OnDetected :: string
  s_OnUninspectable :: string
  s_InternalModels :: "string list"

record Rule =
  r_Name :: string
  r_FailurePolicy :: string
  r_Budget :: "PolicyBudget option"
  r_Routing :: "Routing option"
  r_ModelAccess :: "ModelAccess option"
  r_SensitiveData :: "SensitiveData option"
  r_Rate :: "PolicyRate option"
  r_TokenQuota :: "TokenQuota option"

record PolicySubject =
  ps_Team :: string
  ps_User :: string

record Policy =
  p_Name :: string
  p_Generation :: int
  p_Subject :: PolicySubject
  p_Rules :: "Rule list"

section \<open>Rejections\<close>

datatype reason =
    VersionNotSupported | UnknownKind string | NoSubject | NoRules | TooManyRules
  | EmptyRuleName | DuplicateRuleName | FailurePolicyRequired | UnknownFailurePolicy string
  | NotOneKind | QuotaInvalid | QuotaNotFailClosed
  | AllowEmpty | AllowEmptyName | RateNegative | RateUnlimitedCombined | RateNoLimit
  | BudgetUnlimitedCombined | LimitOutOfRange | HardCapNotFailClosed | UnknownPeriod string
  | GrantOutOfRange | RenewNotDuration string | RenewTooShort
  | RoutingNotOneShape | UnknownAffinity string | StrictNotTeamOnly | BudgetRefRequired
  | BudgetRefNotBudget string | BudgetRefUnlimited string | TiersEmpty
  | ThresholdOutOfRange int int | ThresholdNotIncreasing | SubstituteEmpty
  | SubstituteEmptyName | SubstituteSelf string | SubstituteChain string
  | SensitiveNotFailClosed | OnDetectedInvalid | OnUninspectableInvalid
  | InternalModelsRequired | InternalModelsNotExplicit
  | ContextNotFailOpen | ContextModeInvalid | ContextModelsRequired | FromModelsNotExplicit
  | MaxSimpleNotPositive | NormalModelInvalid | MinHoldNotDuration | SessionTTLNotDuration
  | StabilityOutOfRange | KeywordBlank
  | QuotaNeedsShared | TargetRefused string string | AffinityNotEnforceable
  | SubstituteTargetRefused string string | RateNotTeamOnly | NameMissingOrDuplicate

record UnsupportedError =
  ue_APIVersion :: string
  ue_Kind :: string
  ue_Rule :: string
  ue_Reason :: reason

definition reject :: "GovernancePolicy \<Rightarrow> string \<Rightarrow> reason \<Rightarrow> UnsupportedError" where
  "reject doc rule why =
     \<lparr>ue_APIVersion = tm_APIVersion (gp_TypeMeta doc), ue_Kind = tm_Kind (gp_TypeMeta doc),
      ue_Rule = rule, ue_Reason = why\<rparr>"

section \<open>The conversion\<close>

definition SupportedAPIVersions :: "string list" where
  "SupportedAPIVersions = [APIVersion]"

definition Supports :: "string \<Rightarrow> bool" where
  "Supports v \<longleftrightarrow> list_ex (\<lambda>w. w = v) SupportedAPIVersions"

definition maxPolicyRules :: nat where
  "maxPolicyRules = 256"

definition DefaultLeaseRenewInterval :: duration where
  "DefaultLeaseRenewInterval = 10 * Second"

definition MinLeaseRenewInterval :: duration where
  "MinLeaseRenewInterval = Second"

definition DefaultLeaseGrantBP :: int where
  "DefaultLeaseGrantBP = 10"

definition microPerMilli :: int where
  "microPerMilli = 1000"

definition maxWireMilliUSD :: int where
  "maxWireMilliUSD = MaxInt64 div microPerMilli"

definition explicitModel :: "string \<Rightarrow> bool" where
  "explicitModel name \<longleftrightarrow> \<not> blank name \<and> \<not> ContainsAny name ''*?[]''"

definition budgetPeriod :: "string \<Rightarrow> string option" where
  "budgetPeriod period =
     (if period = PeriodCalendarDay \<or> period = PeriodCalendarMonth then Some period
      else if period = [] then Some PeriodCalendarMonth
      else None)"

definition leaseGrantMilli :: "BudgetRule \<Rightarrow> int option" where
  "leaseGrantMilli wb =
     (let g = ls_GrantMilliUSD (br_Lease wb) in
      if g < 0 \<or> g > maxWireMilliUSD then None
      else if g = 0 then Some (max 1 (mul64 (br_LimitMilliUSD wb) DefaultLeaseGrantBP sdiv 10000))
      else Some g)"

definition renewInterval :: "string \<Rightarrow> reason + duration" where
  "renewInterval s =
     (if s = [] then Inr DefaultLeaseRenewInterval
      else (case ParseDuration s of
              None \<Rightarrow> Inl (RenewNotDuration s)
            | Some d \<Rightarrow> if d < MinLeaseRenewInterval then Inl RenewTooShort else Inr d))"

definition budgetFromV1Alpha1 :: "V1Rule \<Rightarrow> BudgetRule \<Rightarrow> reason + PolicyBudget" where
  "budgetFromV1Alpha1 wr wb =
     (if br_Unlimited wb then
        if br_LimitMilliUSD wb \<noteq> 0 \<or> br_HardCap wb
          \<or> br_Lease wb \<noteq> \<lparr>ls_GrantMilliUSD = 0, ls_RenewInterval = []\<rparr>
          \<or> br_AdminContact wb \<noteq> [] \<or> br_Period wb \<noteq> []
        then Inl BudgetUnlimitedCombined
        else Inr \<lparr>b_Unlimited = True, b_LimitMicroUSD = 0, b_HardCap = False,
                  b_LeaseGrantMicroUSD = 0, b_LeaseRenewInterval = 0, b_AdminContact = [],
                  b_Period = PeriodCalendarMonth\<rparr>
      else if br_LimitMilliUSD wb \<le> 0 \<or> br_LimitMilliUSD wb > maxWireMilliUSD then Inl LimitOutOfRange
      else if br_HardCap wb \<and> wr_FailurePolicy wr \<noteq> FailClosed then Inl HardCapNotFailClosed
      else (case budgetPeriod (br_Period wb) of
              None \<Rightarrow> Inl (UnknownPeriod (br_Period wb))
            | Some period \<Rightarrow>
                (case leaseGrantMilli wb of
                   None \<Rightarrow> Inl GrantOutOfRange
                 | Some grantMilli \<Rightarrow>
                     (case renewInterval (ls_RenewInterval (br_Lease wb)) of
                        Inl why \<Rightarrow> Inl why
                      | Inr iv \<Rightarrow>
                          Inr \<lparr>b_Unlimited = False,
                               b_LimitMicroUSD = mul64 (br_LimitMilliUSD wb) microPerMilli,
                               b_HardCap = br_HardCap wb,
                               b_LeaseGrantMicroUSD = mul64 grantMilli microPerMilli,
                               b_LeaseRenewInterval = iv, b_AdminContact = br_AdminContact wb,
                               b_Period = period\<rparr>))))"

definition checkSubstitutions :: "(string, string) mapping \<Rightarrow> reason option" where
  "checkSubstitutions sub =
     (if Mapping.size sub = 0 then Some SubstituteEmpty
      else (case List.find (\<lambda>k. k = [] \<or> Mapping.lookup sub k \<in> {Some [], Some k}) (Mapping.ordered_keys sub) of
              Some k \<Rightarrow> if k = [] \<or> Mapping.lookup sub k = Some [] then Some SubstituteEmptyName
                        else Some (SubstituteSelf k)
            | None \<Rightarrow>
                (case List.find (\<lambda>k. list_ex (\<lambda>j. Mapping.lookup sub j = Some k) (Mapping.ordered_keys sub))
                        (Mapping.ordered_keys sub) of
                   Some k \<Rightarrow> Some (SubstituteChain k)
                 | None \<Rightarrow> None)))"

text \<open>The tiers in order, with the threshold of the previous one.\<close>

fun convertTiers :: "int \<Rightarrow> int \<Rightarrow> V1BudgetTier list \<Rightarrow> reason + BudgetTier list" where
  "convertTiers maxThreshold prevThreshold [] = Inr []"
| "convertTiers maxThreshold prevThreshold (t # ts) =
     (let p = vt_ThresholdPercent t in
      if p < 1 \<or> p > maxThreshold then Inl (ThresholdOutOfRange maxThreshold p)
      else if p \<le> prevThreshold then Inl ThresholdNotIncreasing
      else (case checkSubstitutions (vt_Substitute t) of
              Some why \<Rightarrow> Inl why
            | None \<Rightarrow>
                (case convertTiers maxThreshold p ts of
                   Inl why \<Rightarrow> Inl why
                 | Inr out \<Rightarrow>
                     Inr (\<lparr>t_ThresholdPercent = p, t_Substitute = vt_Substitute t\<rparr> # out))))"

definition stabilityDuration :: "string \<Rightarrow> duration \<Rightarrow> duration option" where
  "stabilityDuration s dflt = (if s = [] then Some dflt else ParseDuration s)"

definition contextStability :: "V1ContextStability \<Rightarrow> reason + ContextStability" where
  "contextStability vs =
     (case stabilityDuration (vs_MinHold vs) (300 * Second) of
        None \<Rightarrow> Inl MinHoldNotDuration
      | Some hold \<Rightarrow>
          (case stabilityDuration (vs_SessionTTL vs) (1800 * Second) of
             None \<Rightarrow> Inl SessionTTLNotDuration
           | Some ttl \<Rightarrow>
               (let n = (if vs_MinRequests vs \<noteq> 0 then vs_MinRequests vs else 3) in
                if hold < 0 \<or> hold > 86400 * Second \<or> ttl \<le> 0 \<or> ttl > 86400 * Second
                  \<or> ttl < hold \<or> n < 1 \<or> n > 10000
                then Inl StabilityOutOfRange
                else Inr \<lparr>cs_MinHold = hold, cs_MinRequests = n, cs_SessionTTL = ttl\<rparr>)))"

definition contextFromV1Alpha1 :: "V1Rule \<Rightarrow> ContextRule \<Rightarrow> reason + PolicyContext" where
  "contextFromV1Alpha1 wr c =
     (let mode = (if cr_Mode c = [] then Shadow else cr_Mode c) in
      if wr_FailurePolicy wr \<noteq> FailOpen then Inl ContextNotFailOpen
      else if mode \<noteq> Shadow \<and> mode \<noteq> Enforce then Inl ContextModeInvalid
      else if cr_FromModels c = [] \<or> \<not> explicitModel (cr_SimpleModel c) \<or> \<not> explicitModel (cr_ComplexModel c)
        then Inl ContextModelsRequired
      else if list_ex (\<lambda>m. \<not> explicitModel m) (cr_FromModels c) then Inl FromModelsNotExplicit
      else if cr_MaxSimpleInputTokens c \<le> 0 then Inl MaxSimpleNotPositive
      else if (cr_NormalModel c = [] \<and> cr_MaxNormalInputTokens c \<noteq> 0)
        \<or> (cr_NormalModel c \<noteq> [] \<and> (\<not> explicitModel (cr_NormalModel c)
              \<or> cr_MaxNormalInputTokens c \<le> cr_MaxSimpleInputTokens c))
        then Inl NormalModelInvalid
      else (case (case cr_Stability c of None \<Rightarrow> Inr None
                  | Some vs \<Rightarrow> (case contextStability vs of Inl why \<Rightarrow> Inl why | Inr st \<Rightarrow> Inr (Some st))) of
              Inl why \<Rightarrow> Inl why
            | Inr stability \<Rightarrow>
                if list_ex blank (cr_ComplexKeywords c) then Inl KeywordBlank
                else Inr \<lparr>cx_Mode = mode, cx_FromModels = cr_FromModels c,
                          cx_SimpleModel = cr_SimpleModel c, cx_ComplexModel = cr_ComplexModel c,
                          cx_MaxSimpleInputTokens = cr_MaxSimpleInputTokens c,
                          cx_ComplexKeywords = cr_ComplexKeywords c,
                          cx_NormalModel = cr_NormalModel c,
                          cx_MaxNormalInputTokens = cr_MaxNormalInputTokens c,
                          cx_Stability = stability\<rparr>))"

definition sensitiveDataFromV1Alpha1 :: "V1Rule \<Rightarrow> SensitiveDataRule \<Rightarrow> reason + SensitiveData" where
  "sensitiveDataFromV1Alpha1 wr sd =
     (if wr_FailurePolicy wr \<noteq> FailClosed then Inl SensitiveNotFailClosed
      else if sd_OnDetected sd \<noteq> InternalOnly \<and> sd_OnDetected sd \<noteq> BlockAction \<and> sd_OnDetected sd \<noteq> Mask
        then Inl OnDetectedInvalid
      else if sd_OnUninspectable sd \<noteq> InternalOnly \<and> sd_OnUninspectable sd \<noteq> BlockAction
        then Inl OnUninspectableInvalid
      else if (sd_OnDetected sd = InternalOnly \<or> sd_OnUninspectable sd = InternalOnly)
        \<and> sd_InternalModels sd = [] then Inl InternalModelsRequired
      else if list_ex (\<lambda>m. \<not> explicitModel m) (sd_InternalModels sd) then Inl InternalModelsNotExplicit
      else Inr \<lparr>s_OnDetected = sd_OnDetected sd, s_OnUninspectable = sd_OnUninspectable sd,
                s_InternalModels = sd_InternalModels sd\<rparr>)"

text \<open>The number of fields that are set: the loop over the list of booleans.\<close>

definition countSet :: "bool list \<Rightarrow> nat" where
  "countSet bs = length (filter id bs)"

definition findRule :: "V1Rule list \<Rightarrow> string \<Rightarrow> V1Rule option" where
  "findRule rules name = List.find (\<lambda>r. wr_Name r = name) rules"

definition budgetTiersFromV1Alpha1 :: "GovernancePolicy \<Rightarrow> BudgetTiersRule \<Rightarrow> reason + BudgetTiers" where
  "budgetTiersFromV1Alpha1 doc bt =
     (let subject = gs_Subject (gp_Spec doc) in
      if bt_EnforceTargets bt \<and> (v1s_Team subject = [] \<or> v1s_User subject \<noteq> []) then Inl StrictNotTeamOnly
      else if bt_BudgetRef bt = [] then Inl BudgetRefRequired
      else (case Option.bind (findRule (gs_Rules (gp_Spec doc)) (bt_BudgetRef bt)) wr_Budget of
              None \<Rightarrow> Inl (BudgetRefNotBudget (bt_BudgetRef bt))
            | Some refBudget \<Rightarrow>
                if br_Unlimited refBudget then Inl (BudgetRefUnlimited (bt_BudgetRef bt))
                else if bt_Tiers bt = [] then Inl TiersEmpty
                else (case convertTiers (if bt_EnforceTargets bt then 100 else 99) 0 (bt_Tiers bt) of
                        Inl why \<Rightarrow> Inl why
                      | Inr tiers \<Rightarrow>
                          Inr \<lparr>ts_BudgetRef = bt_BudgetRef bt, ts_Tiers = tiers,
                               ts_EnforceTargets = bt_EnforceTargets bt\<rparr>)))"

definition noRouting :: Routing where
  "noRouting = \<lparr>ro_Affinity = None, ro_BudgetTiers = None, ro_Context = None\<rparr>"

definition routingFromV1Alpha1 :: "V1Rule \<Rightarrow> RoutingRule \<Rightarrow> GovernancePolicy \<Rightarrow> reason + Routing" where
  "routingFromV1Alpha1 wr wrt doc =
     (let affinitySet = (rt_OnAffinityConflict wrt \<noteq> []) in
      if countSet [affinitySet, rt_BudgetTiers wrt \<noteq> None, rt_Context wrt \<noteq> None] \<noteq> 1
        then Inl RoutingNotOneShape
      else (case rt_Context wrt of
              Some c \<Rightarrow>
                (case contextFromV1Alpha1 wr c of
                   Inl why \<Rightarrow> Inl why
                 | Inr cx \<Rightarrow> Inr (noRouting\<lparr>ro_Context := Some cx\<rparr>))
            | None \<Rightarrow>
                if affinitySet then
                  if rt_OnAffinityConflict wrt = PreferAffinity \<or> rt_OnAffinityConflict wrt = PreferFallback
                  then Inr (noRouting\<lparr>ro_Affinity :=
                         Some \<lparr>af_OnAffinityConflict = rt_OnAffinityConflict wrt\<rparr>\<rparr>)
                  else Inl (UnknownAffinity (rt_OnAffinityConflict wrt))
                else (case rt_BudgetTiers wrt of
                        None \<Rightarrow> Inl RoutingNotOneShape
                      | Some bt \<Rightarrow>
                          (case budgetTiersFromV1Alpha1 doc bt of
                             Inl why \<Rightarrow> Inl why
                           | Inr ts \<Rightarrow> Inr (noRouting\<lparr>ro_BudgetTiers := Some ts\<rparr>)))))"

definition emptyRule :: "string \<Rightarrow> string \<Rightarrow> Rule" where
  "emptyRule name failurePolicy =
     \<lparr>r_Name = name, r_FailurePolicy = failurePolicy, r_Budget = None, r_Routing = None,
      r_ModelAccess = None, r_SensitiveData = None, r_Rate = None, r_TokenQuota = None\<rparr>"

definition tokenQuotaFromV1Alpha1 :: "V1Rule \<Rightarrow> TokenQuotaRule \<Rightarrow> reason + TokenQuota" where
  "tokenQuotaFromV1Alpha1 wr q =
     (if tq_LimitTokens q \<le> 0 \<or> (tq_Period q \<noteq> PeriodCalendarDay \<and> tq_Period q \<noteq> PeriodCalendarMonth)
        then Inl QuotaInvalid
      else if wr_FailurePolicy wr \<noteq> FailClosed then Inl QuotaNotFailClosed
      else Inr \<lparr>q_LimitTokens = tq_LimitTokens q, q_Period = tq_Period q\<rparr>)"

definition modelAccessFromV1Alpha1 :: "ModelAccessRule \<Rightarrow> reason + ModelAccess" where
  "modelAccessFromV1Alpha1 ma =
     (if ma_Allow ma = [] then Inl AllowEmpty
      else if list_ex (\<lambda>m. m = []) (ma_Allow ma) then Inl AllowEmptyName
      else Inr \<lparr>m_Allow = ma_Allow ma\<rparr>)"

definition rateFromV1Alpha1 :: "RateRule \<Rightarrow> reason + PolicyRate" where
  "rateFromV1Alpha1 rr =
     (if rr_RPM rr < 0 \<or> rr_TPM rr < 0 then Inl RateNegative
      else if rr_Unlimited rr then
        if rr_RPM rr \<noteq> 0 \<or> rr_TPM rr \<noteq> 0 then Inl RateUnlimitedCombined
        else Inr \<lparr>pr_Unlimited = True, pr_RPM = 0, pr_TPM = 0\<rparr>
      else if rr_RPM rr = 0 \<and> rr_TPM rr = 0 then Inl RateNoLimit
      else Inr \<lparr>pr_Unlimited = False, pr_RPM = rr_RPM rr, pr_TPM = rr_TPM rr\<rparr>)"

text \<open>A converted kind put into its rule.\<close>

definition withKind :: "('a option \<Rightarrow> Rule \<Rightarrow> Rule) \<Rightarrow> Rule \<Rightarrow> reason + 'a \<Rightarrow> reason + Rule" where
  "withKind put r res = (case res of Inl why \<Rightarrow> Inl why | Inr x \<Rightarrow> Inr (put (Some x) r))"

definition ruleKinds :: "V1Rule \<Rightarrow> bool list" where
  "ruleKinds wr =
     [wr_Budget wr \<noteq> None, wr_Routing wr \<noteq> None, wr_ModelAccess wr \<noteq> None, wr_Rate wr \<noteq> None,
      wr_SensitiveData wr \<noteq> None, wr_TokenQuota wr \<noteq> None]"

definition convertKind :: "GovernancePolicy \<Rightarrow> V1Rule \<Rightarrow> reason + Rule" where
  "convertKind doc wr =
     (let r = emptyRule (wr_Name wr) (wr_FailurePolicy wr) in
      case wr_TokenQuota wr of
        Some q \<Rightarrow> withKind (\<lambda>x. r_TokenQuota_update (\<lambda>_. x)) r (tokenQuotaFromV1Alpha1 wr q)
      | None \<Rightarrow>
        (case wr_SensitiveData wr of
           Some sd \<Rightarrow> withKind (\<lambda>x. r_SensitiveData_update (\<lambda>_. x)) r (sensitiveDataFromV1Alpha1 wr sd)
         | None \<Rightarrow>
           (case wr_Budget wr of
              Some wb \<Rightarrow> withKind (\<lambda>x. r_Budget_update (\<lambda>_. x)) r (budgetFromV1Alpha1 wr wb)
            | None \<Rightarrow>
              (case wr_Routing wr of
                 Some wrt \<Rightarrow> withKind (\<lambda>x. r_Routing_update (\<lambda>_. x)) r (routingFromV1Alpha1 wr wrt doc)
               | None \<Rightarrow>
                 (case wr_ModelAccess wr of
                    Some ma \<Rightarrow> withKind (\<lambda>x. r_ModelAccess_update (\<lambda>_. x)) r (modelAccessFromV1Alpha1 ma)
                  | None \<Rightarrow>
                    (case wr_Rate wr of
                       Some rr \<Rightarrow> withKind (\<lambda>x. r_Rate_update (\<lambda>_. x)) r (rateFromV1Alpha1 rr)
                     | None \<Rightarrow> Inr r))))))"

text \<open>The body of the loop over the rules; the state is the set of names seen and the rules so far.\<close>

definition convertRule ::
  "GovernancePolicy \<Rightarrow> V1Rule \<Rightarrow> string set \<times> Rule list \<Rightarrow> UnsupportedError + string set \<times> Rule list" where
  "convertRule doc wr st =
     (case st of (ruleNames, rules) \<Rightarrow>
        if wr_Name wr = [] then Inl (reject doc [] EmptyRuleName)
        else if wr_Name wr \<in> ruleNames then Inl (reject doc (wr_Name wr) DuplicateRuleName)
        else if wr_FailurePolicy wr = [] then Inl (reject doc (wr_Name wr) FailurePolicyRequired)
        else if wr_FailurePolicy wr \<noteq> FailOpen \<and> wr_FailurePolicy wr \<noteq> FailClosed
          then Inl (reject doc (wr_Name wr) (UnknownFailurePolicy (wr_FailurePolicy wr)))
        else if countSet (ruleKinds wr) \<noteq> 1 then Inl (reject doc (wr_Name wr) NotOneKind)
        else (case convertKind doc wr of
                Inl why \<Rightarrow> Inl (reject doc (wr_Name wr) why)
              | Inr r \<Rightarrow> Inr (insert (wr_Name wr) ruleNames, rules @ [r])))"

definition FromV1Alpha1 :: "GovernancePolicy \<Rightarrow> UnsupportedError + Policy" where
  "FromV1Alpha1 doc =
     (let meta = gp_TypeMeta doc; spec = gp_Spec doc; subject = gs_Subject spec in
      if \<not> Supports (tm_APIVersion meta) then Inl (reject doc [] VersionNotSupported)
      else if tm_Kind meta \<noteq> KindGovernancePolicy then Inl (reject doc [] (UnknownKind (tm_Kind meta)))
      else if v1s_Team subject = [] \<and> v1s_User subject = [] then Inl (reject doc [] NoSubject)
      else if length (gs_Rules spec) = 0 then Inl (reject doc [] NoRules)
      else if length (gs_Rules spec) > maxPolicyRules then Inl (reject doc [] TooManyRules)
      else (case foldE (convertRule doc) (gs_Rules spec) ({}, []) of
              Inl e \<Rightarrow> Inl e
            | Inr (_, rules) \<Rightarrow>
                Inr \<lparr>p_Name = om_Name (gp_Metadata doc), p_Generation = om_Generation (gp_Metadata doc),
                     p_Subject = \<lparr>ps_Team = v1s_Team subject, ps_User = v1s_User subject\<rparr>,
                     p_Rules = rules\<rparr>))"

section \<open>Routing-only budgets\<close>

definition IsRoutingOnlyBudget :: "Policy option \<Rightarrow> string \<Rightarrow> bool" where
  "IsRoutingOnlyBudget pol ruleName =
     (case pol of
        None \<Rightarrow> False
      | Some p \<Rightarrow>
          if ruleName = [] \<or> ps_Team (p_Subject p) = [] \<or> ps_User (p_Subject p) \<noteq> [] then False
          else (case Option.bind (List.find (\<lambda>r. r_Name r = ruleName) (p_Rules p)) r_Budget of
                  None \<Rightarrow> False
                | Some b \<Rightarrow>
                    \<not> (b_HardCap b \<or> b_Unlimited b \<or> b_LimitMicroUSD b \<le> 0)
                    \<and> list_ex (\<lambda>r. case Option.bind (r_Routing r) ro_BudgetTiers of
                                     None \<Rightarrow> False
                                   | Some ts \<Rightarrow> ts_EnforceTargets ts \<and> ts_BudgetRef ts = ruleName)
                        (p_Rules p)))"

section \<open>Well-formed policies\<close>

text \<open>
  What every consumer of the internal form may rely on. The predicates speak only of the
  internal form and of no wire field.
\<close>

definition wfBudget :: "string \<Rightarrow> PolicyBudget \<Rightarrow> bool" where
  "wfBudget failurePolicy b \<longleftrightarrow>
     b_Period b \<in> {PeriodCalendarDay, PeriodCalendarMonth} \<and>
     (if b_Unlimited b then b_LimitMicroUSD b = 0 \<and> \<not> b_HardCap b \<and> b_LeaseGrantMicroUSD b = 0
      else 0 < b_LimitMicroUSD b \<and> in64 (b_LimitMicroUSD b)
        \<and> 0 < b_LeaseGrantMicroUSD b \<and> in64 (b_LeaseGrantMicroUSD b)
        \<and> MinLeaseRenewInterval \<le> b_LeaseRenewInterval b \<and> in64 (b_LeaseRenewInterval b)
        \<and> (b_HardCap b \<longrightarrow> failurePolicy = FailClosed))"

definition wfTier :: "int \<Rightarrow> BudgetTier \<Rightarrow> bool" where
  "wfTier maxThreshold t \<longleftrightarrow>
     1 \<le> t_ThresholdPercent t \<and> t_ThresholdPercent t \<le> maxThreshold \<and>
     Mapping.keys (t_Substitute t) \<noteq> {} \<and>
     (\<forall>k v. Mapping.lookup (t_Substitute t) k = Some v \<longrightarrow>
        k \<noteq> [] \<and> v \<noteq> [] \<and> Mapping.lookup (t_Substitute t) v = None)"

definition wfTiers :: "Policy \<Rightarrow> BudgetTiers \<Rightarrow> bool" where
  "wfTiers p ts \<longleftrightarrow>
     ts_Tiers ts \<noteq> [] \<and>
     (\<forall>t \<in> set (ts_Tiers ts). wfTier (if ts_EnforceTargets ts then 100 else 99) t) \<and>
     sorted_wrt (<) (map t_ThresholdPercent (ts_Tiers ts)) \<and>
     (ts_EnforceTargets ts \<longrightarrow> ps_Team (p_Subject p) \<noteq> [] \<and> ps_User (p_Subject p) = []) \<and>
     (\<exists>r b. r \<in> set (p_Rules p) \<and> r_Name r = ts_BudgetRef ts \<and> r_Budget r = Some b
        \<and> \<not> b_Unlimited b \<and> 0 < b_LimitMicroUSD b)"

definition wfStability :: "ContextStability \<Rightarrow> bool" where
  "wfStability st \<longleftrightarrow>
     0 \<le> cs_MinHold st \<and> cs_MinHold st \<le> cs_SessionTTL st \<and> 0 < cs_SessionTTL st
     \<and> cs_SessionTTL st \<le> 86400 * Second \<and> 1 \<le> cs_MinRequests st \<and> cs_MinRequests st \<le> 10000"

definition wfContext :: "string \<Rightarrow> PolicyContext \<Rightarrow> bool" where
  "wfContext failurePolicy cx \<longleftrightarrow>
     failurePolicy = FailOpen \<and> cx_Mode cx \<in> {Shadow, Enforce} \<and> cx_FromModels cx \<noteq> [] \<and>
     (\<forall>m \<in> set (cx_SimpleModel cx # cx_ComplexModel cx # cx_FromModels cx). explicitModel m) \<and>
     0 < cx_MaxSimpleInputTokens cx \<and>
     (if cx_NormalModel cx = [] then cx_MaxNormalInputTokens cx = 0
      else explicitModel (cx_NormalModel cx) \<and> cx_MaxSimpleInputTokens cx < cx_MaxNormalInputTokens cx) \<and>
     (\<forall>k \<in> set (cx_ComplexKeywords cx). \<not> blank k) \<and>
     (\<forall>st. cx_Stability cx = Some st \<longrightarrow> wfStability st)"

definition wfSensitive :: "string \<Rightarrow> SensitiveData \<Rightarrow> bool" where
  "wfSensitive failurePolicy sd \<longleftrightarrow>
     failurePolicy = FailClosed \<and> s_OnDetected sd \<in> {InternalOnly, BlockAction, Mask} \<and>
     s_OnUninspectable sd \<in> {InternalOnly, BlockAction} \<and>
     (InternalOnly \<in> {s_OnDetected sd, s_OnUninspectable sd} \<longrightarrow> s_InternalModels sd \<noteq> []) \<and>
     (\<forall>m \<in> set (s_InternalModels sd). explicitModel m)"

definition wfRouting :: "Policy \<Rightarrow> string \<Rightarrow> Routing \<Rightarrow> bool" where
  "wfRouting p failurePolicy ro \<longleftrightarrow>
     countSet [ro_Affinity ro \<noteq> None, ro_BudgetTiers ro \<noteq> None, ro_Context ro \<noteq> None] = 1 \<and>
     (\<forall>a. ro_Affinity ro = Some a \<longrightarrow> af_OnAffinityConflict a \<in> {PreferAffinity, PreferFallback}) \<and>
     (\<forall>ts. ro_BudgetTiers ro = Some ts \<longrightarrow> wfTiers p ts) \<and>
     (\<forall>cx. ro_Context ro = Some cx \<longrightarrow> wfContext failurePolicy cx)"

definition wfQuota :: "string \<Rightarrow> TokenQuota \<Rightarrow> bool" where
  "wfQuota failurePolicy q \<longleftrightarrow>
     failurePolicy = FailClosed \<and> 0 < q_LimitTokens q \<and> q_Period q \<in> {PeriodCalendarDay, PeriodCalendarMonth}"

definition wfRate :: "PolicyRate \<Rightarrow> bool" where
  "wfRate r \<longleftrightarrow> 0 \<le> pr_RPM r \<and> 0 \<le> pr_TPM r \<and> (pr_Unlimited r \<longleftrightarrow> pr_RPM r = 0 \<and> pr_TPM r = 0)"

definition wfRule :: "Policy \<Rightarrow> Rule \<Rightarrow> bool" where
  "wfRule p r \<longleftrightarrow>
     r_FailurePolicy r \<in> {FailOpen, FailClosed} \<and>
     countSet [r_Budget r \<noteq> None, r_Routing r \<noteq> None, r_ModelAccess r \<noteq> None, r_Rate r \<noteq> None,
       r_SensitiveData r \<noteq> None, r_TokenQuota r \<noteq> None] = 1 \<and>
     (\<forall>b. r_Budget r = Some b \<longrightarrow> wfBudget (r_FailurePolicy r) b) \<and>
     (\<forall>ro. r_Routing r = Some ro \<longrightarrow> wfRouting p (r_FailurePolicy r) ro) \<and>
     (\<forall>ma. r_ModelAccess r = Some ma \<longrightarrow> m_Allow ma \<noteq> [] \<and> [] \<notin> set (m_Allow ma)) \<and>
     (\<forall>ra. r_Rate r = Some ra \<longrightarrow> wfRate ra) \<and>
     (\<forall>sd. r_SensitiveData r = Some sd \<longrightarrow> wfSensitive (r_FailurePolicy r) sd) \<and>
     (\<forall>q. r_TokenQuota r = Some q \<longrightarrow> wfQuota (r_FailurePolicy r) q)"

definition wfPolicy :: "Policy \<Rightarrow> bool" where
  "wfPolicy p \<longleftrightarrow>
     (ps_Team (p_Subject p) \<noteq> [] \<or> ps_User (p_Subject p) \<noteq> []) \<and>
     1 \<le> length (p_Rules p) \<and> length (p_Rules p) \<le> maxPolicyRules \<and>
     distinct (map r_Name (p_Rules p)) \<and> [] \<notin> set (map r_Name (p_Rules p)) \<and>
     (\<forall>r \<in> set (p_Rules p). wfRule p r)"

end
