(* ===== verification/PolicyProps.thy ===== *)
theory PolicyProps
  imports PolicyDoc
begin

text \<open>
  The conversion of policy documents is well typed: whatever \<open>FromV1Alpha1\<close> accepts
  satisfies \<open>wfPolicy\<close>, amounts are exact, and what it rejects it rejects by name. One lemma
  per kind of rule; the loop over the rules is characterised by \<open>convert_rules_iff\<close>.
\<close>

lemma list_all2_in1: "list_all2 P xs ys \<Longrightarrow> x \<in> set xs \<Longrightarrow> \<exists>y \<in> set ys. P x y"
  by (induction rule: list_all2_induct) auto

lemma list_all2_in2: "list_all2 P xs ys \<Longrightarrow> y \<in> set ys \<Longrightarrow> \<exists>x \<in> set xs. P x y"
  by (induction rule: list_all2_induct) auto

section \<open>The kinds of rules\<close>

lemma explicit_not_empty: "explicitModel m \<Longrightarrow> m \<noteq> []"
  by (auto simp: explicitModel_def)

lemma maxWire_value: "maxWireMilliUSD = 9223372036854775"
  by (simp add: maxWireMilliUSD_def MaxInt64_def microPerMilli_def)

lemma milli_exact: "0 \<le> x \<Longrightarrow> x \<le> maxWireMilliUSD \<Longrightarrow> mul64 x microPerMilli = 1000 * x"
  by (subst mul64_exact) (simp_all add: maxWire_value in64_bounds microPerMilli_def)

lemma grant_range:
  assumes "leaseGrantMilli wb = Some g" and "0 < br_LimitMilliUSD wb" and "br_LimitMilliUSD wb \<le> maxWireMilliUSD"
  shows "0 < g \<and> g \<le> maxWireMilliUSD"
proof (cases "ls_GrantMilliUSD (br_Lease wb) = 0")
  case True
  have "mul64 (br_LimitMilliUSD wb) DefaultLeaseGrantBP = 10 * br_LimitMilliUSD wb"
    using assms(2,3) by (subst mul64_exact) (simp_all add: maxWire_value in64_bounds DefaultLeaseGrantBP_def)
  then have "g = max 1 (10 * br_LimitMilliUSD wb div 10000)"
    using assms True maxWire_value by (simp add: leaseGrantMilli_def Let_def signed_divide_int_def)
  moreover have "br_LimitMilliUSD wb div 1000 \<le> maxWireMilliUSD"
    using assms(2,3) by (simp add: maxWire_value)
  ultimately show ?thesis by (simp add: maxWire_value)
next
  case False
  then show ?thesis using assms(1) by (auto simp: leaseGrantMilli_def Let_def split: if_splits)
qed

lemma renew_range: "renewInterval s = Inr d \<Longrightarrow> MinLeaseRenewInterval \<le> d \<and> in64 d"
  by (auto simp: renewInterval_def MinLeaseRenewInterval_def DefaultLeaseRenewInterval_def Second_def
      in64_bounds split: if_splits option.splits dest!: ParseDuration_in64)

lemma period_known: "budgetPeriod p = Some q \<Longrightarrow> q \<in> {PeriodCalendarDay, PeriodCalendarMonth}"
  by (auto simp: budgetPeriod_def split: if_splits)

lemma budget_outcome:
  assumes "budgetFromV1Alpha1 wr wb = Inr b"
  shows "b_Unlimited b = br_Unlimited wb"
    and "wfBudget (wr_FailurePolicy wr) b"
    and "b_HardCap b = br_HardCap wb"
    and "\<not> br_Unlimited wb \<Longrightarrow> b_LimitMicroUSD b = 1000 * br_LimitMilliUSD wb"
proof -
  have "b_Unlimited b = br_Unlimited wb \<and> wfBudget (wr_FailurePolicy wr) b \<and> b_HardCap b = br_HardCap wb
    \<and> (\<not> br_Unlimited wb \<longrightarrow> b_LimitMicroUSD b = 1000 * br_LimitMilliUSD wb)"
  proof (cases "br_Unlimited wb")
    case True
    then show ?thesis
      using assms by (auto simp: budgetFromV1Alpha1_def wfBudget_def split: if_splits)
  next
    case False
    with assms have limit: "0 < br_LimitMilliUSD wb" "br_LimitMilliUSD wb \<le> maxWireMilliUSD"
      and cap: "br_HardCap wb \<longrightarrow> wr_FailurePolicy wr = FailClosed"
      by (auto simp: budgetFromV1Alpha1_def split: if_splits)
    obtain q g iv where parts: "budgetPeriod (br_Period wb) = Some q" "leaseGrantMilli wb = Some g"
      "renewInterval (ls_RenewInterval (br_Lease wb)) = Inr iv"
      "b = \<lparr>b_Unlimited = False, b_LimitMicroUSD = mul64 (br_LimitMilliUSD wb) microPerMilli,
            b_HardCap = br_HardCap wb, b_LeaseGrantMicroUSD = mul64 g microPerMilli,
            b_LeaseRenewInterval = iv, b_AdminContact = br_AdminContact wb, b_Period = q\<rparr>"
      using assms False by (auto simp: budgetFromV1Alpha1_def split: if_splits option.splits sum.splits)
    have g: "0 < g" "g \<le> maxWireMilliUSD" using grant_range [OF parts(2) limit] by simp_all
    show ?thesis
      using False limit cap g period_known [OF parts(1)] renew_range [OF parts(3)]
      by (simp add: parts(4) wfBudget_def milli_exact) (simp add: maxWire_value in64_bounds)
  qed
  then show "b_Unlimited b = br_Unlimited wb" and "wfBudget (wr_FailurePolicy wr) b"
    and "b_HardCap b = br_HardCap wb"
    and "\<not> br_Unlimited wb \<Longrightarrow> b_LimitMicroUSD b = 1000 * br_LimitMilliUSD wb" by simp_all
qed

lemma substitutions_ok:
  assumes "checkSubstitutions sub = None"
  shows "Mapping.keys sub \<noteq> {}"
    and "Mapping.lookup sub k = Some v \<Longrightarrow> k \<noteq> [] \<and> v \<noteq> [] \<and> Mapping.lookup sub v = None"
proof -
  have size: "Mapping.size sub \<noteq> 0"
    using assms by (simp add: checkSubstitutions_def split: if_split_asm)
  then have fin: "finite (Mapping.keys sub)"
    by (metis card.infinite size_card)
  show "Mapping.keys sub \<noteq> {}" using size by (auto simp: size_card)
  have names: "k \<noteq> [] \<and> Mapping.lookup sub k \<noteq> Some [] \<and> Mapping.lookup sub k \<noteq> Some k"
    if "k \<in> Mapping.keys sub" for k
  proof -
    have "List.find (\<lambda>k. k = [] \<or> Mapping.lookup sub k \<in> {Some [], Some k}) (Mapping.ordered_keys sub) = None"
      using assms size by (auto simp: checkSubstitutions_def split: option.splits if_splits)
    then show ?thesis using that fin by (simp add: find_None_iff)
  qed
  have chain: "Mapping.lookup sub j \<noteq> Some k" if "k \<in> Mapping.keys sub" "j \<in> Mapping.keys sub" for j k
  proof -
    have "List.find (\<lambda>k. list_ex (\<lambda>j. Mapping.lookup sub j = Some k) (Mapping.ordered_keys sub))
        (Mapping.ordered_keys sub) = None"
      using assms size by (auto simp: checkSubstitutions_def split: option.splits if_splits)
    then show ?thesis using that fin by (simp add: find_None_iff list_ex_iff)
  qed
  show "k \<noteq> [] \<and> v \<noteq> [] \<and> Mapping.lookup sub v = None" if "Mapping.lookup sub k = Some v"
    using names [of k] chain [of v k] that by (cases "Mapping.lookup sub v") (auto simp: keys_lookup)
qed

lemma tiers_outcome:
  assumes "convertTiers maxT prev ts = Inr out"
  shows "(\<forall>t \<in> set out. wfTier maxT t) \<and> sorted_wrt (<) (prev # map t_ThresholdPercent out) \<and> length out = length ts"
  using assms
proof (induction ts arbitrary: prev out)
  case Nil
  then show ?case by simp
next
  case (Cons t ts)
  let ?p = "vt_ThresholdPercent t"
  obtain rest where range: "1 \<le> ?p" "?p \<le> maxT" "prev < ?p"
    and sub: "checkSubstitutions (vt_Substitute t) = None"
    and rest: "convertTiers maxT ?p ts = Inr rest"
    and out: "out = \<lparr>t_ThresholdPercent = ?p, t_Substitute = vt_Substitute t\<rparr> # rest"
    using Cons.prems by (auto simp: Let_def split: if_splits option.splits sum.splits)
  have "wfTier maxT \<lparr>t_ThresholdPercent = ?p, t_Substitute = vt_Substitute t\<rparr>"
    using range substitutions_ok [OF sub] by (auto simp: wfTier_def)
  then show ?case
    using Cons.IH [OF rest] range by (auto simp: out)
qed

lemma budget_tiers_outcome:
  assumes "budgetTiersFromV1Alpha1 doc bt = Inr ts"
  obtains ref wb where "findRule (gs_Rules (gp_Spec doc)) (ts_BudgetRef ts) = Some ref"
    "wr_Budget ref = Some wb" "\<not> br_Unlimited wb" "ts_Tiers ts \<noteq> []"
    "\<forall>t \<in> set (ts_Tiers ts). wfTier (if ts_EnforceTargets ts then 100 else 99) t"
    "sorted_wrt (<) (map t_ThresholdPercent (ts_Tiers ts))"
    "ts_EnforceTargets ts \<longrightarrow> v1s_Team (gs_Subject (gp_Spec doc)) \<noteq> [] \<and> v1s_User (gs_Subject (gp_Spec doc)) = []"
proof -
  obtain ref wb tiers where parts: "findRule (gs_Rules (gp_Spec doc)) (bt_BudgetRef bt) = Some ref"
    "wr_Budget ref = Some wb" "\<not> br_Unlimited wb" "bt_Tiers bt \<noteq> []"
    "convertTiers (if bt_EnforceTargets bt then 100 else 99) 0 (bt_Tiers bt) = Inr tiers"
    "bt_EnforceTargets bt \<longrightarrow> v1s_Team (gs_Subject (gp_Spec doc)) \<noteq> [] \<and> v1s_User (gs_Subject (gp_Spec doc)) = []"
    "ts = \<lparr>ts_BudgetRef = bt_BudgetRef bt, ts_Tiers = tiers, ts_EnforceTargets = bt_EnforceTargets bt\<rparr>"
    using assms unfolding budgetTiersFromV1Alpha1_def Let_def
    by (auto simp: bind_eq_Some_conv split: if_splits option.splits sum.splits)
  show thesis
    by (rule that) (use parts tiers_outcome [OF parts(5)] in auto)
qed

lemma stability_wf: "contextStability vs = Inr st \<Longrightarrow> wfStability st"
  by (auto simp: contextStability_def wfStability_def Let_def split: option.splits if_splits)

lemma stability_opt_wf:
  assumes "(case so of None \<Rightarrow> Inr None
      | Some vs \<Rightarrow> (case contextStability vs of Inl why \<Rightarrow> Inl why | Inr st \<Rightarrow> Inr (Some st))) = Inr res"
    and "res = Some st"
  shows "wfStability st"
  using assms by (auto split: option.splits sum.splits intro: stability_wf)

lemma context_wf:
  assumes "contextFromV1Alpha1 wr c = Inr cx"
  shows "wfContext (wr_FailurePolicy wr) cx"
proof -
  let ?stab = "case cr_Stability c of None \<Rightarrow> Inr None
      | Some vs \<Rightarrow> (case contextStability vs of Inl why \<Rightarrow> Inl why | Inr st \<Rightarrow> Inr (Some st))"
  define mode where "mode = (if cr_Mode c = [] then Shadow else cr_Mode c)"
  note def = contextFromV1Alpha1_def [of wr c, folded mode_def, unfolded Let_def]
  have guards: "wr_FailurePolicy wr = FailOpen" "mode = Shadow \<or> mode = Enforce" "cr_FromModels c \<noteq> []"
    "explicitModel (cr_SimpleModel c)" "explicitModel (cr_ComplexModel c)"
    "list_all explicitModel (cr_FromModels c)" "0 < cr_MaxSimpleInputTokens c"
    "if cr_NormalModel c = [] then cr_MaxNormalInputTokens c = 0
     else explicitModel (cr_NormalModel c) \<and> cr_MaxSimpleInputTokens c < cr_MaxNormalInputTokens c"
    using assms unfolding def by (simp_all add: list_all_iff list_ex_iff split: if_split_asm) auto
  then obtain st where st: "?stab = Inr st" and rest: "\<not> list_ex blank (cr_ComplexKeywords c)"
    "cx = \<lparr>cx_Mode = mode, cx_FromModels = cr_FromModels c, cx_SimpleModel = cr_SimpleModel c,
       cx_ComplexModel = cr_ComplexModel c, cx_MaxSimpleInputTokens = cr_MaxSimpleInputTokens c,
       cx_ComplexKeywords = cr_ComplexKeywords c, cx_NormalModel = cr_NormalModel c,
       cx_MaxNormalInputTokens = cr_MaxNormalInputTokens c, cx_Stability = st\<rparr>"
    using assms unfolding def by (cases ?stab) (simp_all split: if_split_asm)
  show ?thesis
    using guards rest(1) stability_opt_wf [OF st]
    by (auto simp: wfContext_def rest(2) list_all_iff list_ex_iff)
qed

lemma sensitive_wf: "sensitiveDataFromV1Alpha1 wr sd = Inr s \<Longrightarrow> wfSensitive (wr_FailurePolicy wr) s"
  by (auto simp: sensitiveDataFromV1Alpha1_def wfSensitive_def list_ex_iff split: if_splits)

lemma quota_wf: "tokenQuotaFromV1Alpha1 wr q = Inr x \<Longrightarrow> wfQuota (wr_FailurePolicy wr) x"
  by (auto simp: tokenQuotaFromV1Alpha1_def wfQuota_def split: if_splits)

lemma rate_wf: "rateFromV1Alpha1 rr = Inr x \<Longrightarrow> wfRate x"
  by (auto simp: rateFromV1Alpha1_def wfRate_def split: if_splits)

lemma model_access_wf: "modelAccessFromV1Alpha1 ma = Inr x \<Longrightarrow> m_Allow x \<noteq> [] \<and> [] \<notin> set (m_Allow x)"
  by (auto simp: modelAccessFromV1Alpha1_def list_ex_iff split: if_splits)

section \<open>Rules and documents\<close>

lemma withKind_Inr: "withKind put r res = Inr r' \<longleftrightarrow> (\<exists>x. res = Inr x \<and> r' = put (Some x) r)"
  by (auto simp: withKind_def split: sum.splits)

lemma countSet_Nil [simp]: "countSet [] = 0"
  by (simp add: countSet_def)

lemma countSet_Cons [simp]: "countSet (b # bs) = (if b then Suc (countSet bs) else countSet bs)"
  by (simp add: countSet_def)

text \<open>A converted rule has the kind of the wire rule, converted, and no other.\<close>

lemma kind_outcome:
  assumes "convertKind doc wr = Inr r" and "countSet (ruleKinds wr) = 1"
  obtains (Quota) q x where "wr_TokenQuota wr = Some q" "tokenQuotaFromV1Alpha1 wr q = Inr x"
      "r = emptyRule (wr_Name wr) (wr_FailurePolicy wr)\<lparr>r_TokenQuota := Some x\<rparr>" "wr_Budget wr = None"
    | (Sensitive) sd x where "wr_SensitiveData wr = Some sd" "sensitiveDataFromV1Alpha1 wr sd = Inr x"
      "r = emptyRule (wr_Name wr) (wr_FailurePolicy wr)\<lparr>r_SensitiveData := Some x\<rparr>" "wr_Budget wr = None"
    | (Budget) wb x where "wr_Budget wr = Some wb" "budgetFromV1Alpha1 wr wb = Inr x"
      "r = emptyRule (wr_Name wr) (wr_FailurePolicy wr)\<lparr>r_Budget := Some x\<rparr>"
    | (Routing) wrt x where "wr_Routing wr = Some wrt" "routingFromV1Alpha1 wr wrt doc = Inr x"
      "r = emptyRule (wr_Name wr) (wr_FailurePolicy wr)\<lparr>r_Routing := Some x\<rparr>" "wr_Budget wr = None"
    | (Access) ma x where "wr_ModelAccess wr = Some ma" "modelAccessFromV1Alpha1 ma = Inr x"
      "r = emptyRule (wr_Name wr) (wr_FailurePolicy wr)\<lparr>r_ModelAccess := Some x\<rparr>" "wr_Budget wr = None"
    | (Rate) rr x where "wr_Rate wr = Some rr" "rateFromV1Alpha1 rr = Inr x"
      "r = emptyRule (wr_Name wr) (wr_FailurePolicy wr)\<lparr>r_Rate := Some x\<rparr>" "wr_Budget wr = None"
proof -
  note cases = that
  consider "wr_TokenQuota wr \<noteq> None" | "wr_TokenQuota wr = None" "wr_SensitiveData wr \<noteq> None"
    | "wr_TokenQuota wr = None" "wr_SensitiveData wr = None" "wr_Budget wr \<noteq> None"
    | "wr_TokenQuota wr = None" "wr_SensitiveData wr = None" "wr_Budget wr = None" "wr_Routing wr \<noteq> None"
    | "wr_TokenQuota wr = None" "wr_SensitiveData wr = None" "wr_Budget wr = None" "wr_Routing wr = None"
      "wr_ModelAccess wr \<noteq> None"
    | "wr_TokenQuota wr = None" "wr_SensitiveData wr = None" "wr_Budget wr = None" "wr_Routing wr = None"
      "wr_ModelAccess wr = None" "wr_Rate wr \<noteq> None"
    using assms(2) by (auto simp: ruleKinds_def split: if_splits)
  then show thesis
  proof cases
    case 1
    then show ?thesis using assms Quota
      by (auto simp: convertKind_def withKind_Inr ruleKinds_def split: if_splits)
  next
    case 2
    then show ?thesis using assms Sensitive
      by (auto simp: convertKind_def withKind_Inr ruleKinds_def split: if_splits)
  next
    case 3
    then show ?thesis using assms Budget by (auto simp: convertKind_def withKind_Inr)
  next
    case 4
    then show ?thesis using assms Routing by (auto simp: convertKind_def withKind_Inr)
  next
    case 5
    then show ?thesis using assms Access by (auto simp: convertKind_def withKind_Inr)
  next
    case 6
    then show ?thesis using assms Rate by (auto simp: convertKind_def withKind_Inr)
  qed
qed

text \<open>What the loop demands of a rule before it looks at the kind.\<close>

definition ruleShape :: "V1Rule \<Rightarrow> bool" where
  "ruleShape wr \<longleftrightarrow> wr_Name wr \<noteq> [] \<and> wr_FailurePolicy wr \<in> {FailOpen, FailClosed} \<and> countSet (ruleKinds wr) = 1"

lemma convertRule_Inr:
  "convertRule doc wr (N, acc) = Inr (N', out) \<longleftrightarrow>
     ruleShape wr \<and> wr_Name wr \<notin> N \<and> N' = insert (wr_Name wr) N \<and>
     (\<exists>r. convertKind doc wr = Inr r \<and> out = acc @ [r])"
  by (auto simp: convertRule_def ruleShape_def wire_names split: if_splits sum.splits)

lemma convert_rules_iff:
  "(\<exists>N'. foldE (convertRule doc) wrs (N, acc) = Inr (N', out)) \<longleftrightarrow>
     distinct (map wr_Name wrs) \<and> wr_Name ` set wrs \<inter> N = {} \<and> (\<forall>wr \<in> set wrs. ruleShape wr) \<and>
     (\<exists>rs. out = acc @ rs \<and> list_all2 (\<lambda>wr r. convertKind doc wr = Inr r) wrs rs)"
proof (induction wrs arbitrary: N acc)
  case Nil
  then show ?case by auto
next
  case (Cons wr wrs)
  have "(\<exists>N'. foldE (convertRule doc) (wr # wrs) (N, acc) = Inr (N', out)) \<longleftrightarrow>
    (\<exists>r. convertKind doc wr = Inr r \<and> ruleShape wr \<and> wr_Name wr \<notin> N \<and>
       (\<exists>N'. foldE (convertRule doc) wrs (insert (wr_Name wr) N, acc @ [r]) = Inr (N', out)))"
    (is "?L \<longleftrightarrow> ?R")
  proof
    assume ?L
    then obtain N' s where s: "convertRule doc wr (N, acc) = Inr s" "foldE (convertRule doc) wrs s = Inr (N', out)"
      by (auto split: sum.splits)
    then show ?R by (cases s) (auto simp: convertRule_Inr)
  next
    assume ?R
    then obtain r N' where r: "convertKind doc wr = Inr r" "ruleShape wr" "wr_Name wr \<notin> N"
      "foldE (convertRule doc) wrs (insert (wr_Name wr) N, acc @ [r]) = Inr (N', out)" by blast
    then have "convertRule doc wr (N, acc) = Inr (insert (wr_Name wr) N, acc @ [r])"
      by (simp add: convertRule_Inr)
    with r(4) show ?L by auto
  qed
  then show ?case
    unfolding Cons.IH by (auto simp: list_all2_Cons1)
qed

lemma kind_name: "convertKind doc wr = Inr r \<Longrightarrow> countSet (ruleKinds wr) = 1 \<Longrightarrow>
    r_Name r = wr_Name wr \<and> r_FailurePolicy r = wr_FailurePolicy wr"
  by (erule kind_outcome) (simp_all add: emptyRule_def)

text \<open>The outcome of an accepted document, rule by rule.\<close>

lemma document_outcome:
  assumes "FromV1Alpha1 doc = Inr p"
  shows "ps_Team (p_Subject p) = v1s_Team (gs_Subject (gp_Spec doc))"
    and "ps_User (p_Subject p) = v1s_User (gs_Subject (gp_Spec doc))"
    and "v1s_Team (gs_Subject (gp_Spec doc)) \<noteq> [] \<or> v1s_User (gs_Subject (gp_Spec doc)) \<noteq> []"
    and "1 \<le> length (gs_Rules (gp_Spec doc))" "length (gs_Rules (gp_Spec doc)) \<le> maxPolicyRules"
    and "distinct (map wr_Name (gs_Rules (gp_Spec doc)))"
    and "\<forall>wr \<in> set (gs_Rules (gp_Spec doc)). ruleShape wr"
    and "list_all2 (\<lambda>wr r. convertKind doc wr = Inr r) (gs_Rules (gp_Spec doc)) (p_Rules p)"
    and "p_Name p = om_Name (gp_Metadata doc)"
proof -
  let ?rs = "gs_Rules (gp_Spec doc)"
  let ?subj = "gs_Subject (gp_Spec doc)"
  have guards: "v1s_Team ?subj \<noteq> [] \<or> v1s_User ?subj \<noteq> []" "?rs \<noteq> []" "length ?rs \<le> maxPolicyRules"
    using assms unfolding FromV1Alpha1_def Let_def by (simp_all split: if_split_asm)
  then obtain s where loop: "foldE (convertRule doc) ?rs ({}, []) = Inr s"
    using assms unfolding FromV1Alpha1_def Let_def by (simp split: if_split_asm sum.split_asm)
  then have p: "p = \<lparr>p_Name = om_Name (gp_Metadata doc), p_Generation = om_Generation (gp_Metadata doc),
      p_Subject = \<lparr>ps_Team = v1s_Team ?subj, ps_User = v1s_User ?subj\<rparr>, p_Rules = snd s\<rparr>"
    using assms unfolding FromV1Alpha1_def Let_def by (cases s) (simp split: if_split_asm)
  then have rest: "ps_Team (p_Subject p) = v1s_Team ?subj" "ps_User (p_Subject p) = v1s_User ?subj"
    "p_Name p = om_Name (gp_Metadata doc)" by simp_all
  have "foldE (convertRule doc) ?rs ({}, []) = Inr (fst s, p_Rules p)" using loop p by simp
  then have "\<exists>N'. foldE (convertRule doc) ?rs ({}, []) = Inr (N', p_Rules p)" by blast
  note all = this [unfolded convert_rules_iff]
  show "ps_Team (p_Subject p) = v1s_Team (gs_Subject (gp_Spec doc))"
    "ps_User (p_Subject p) = v1s_User (gs_Subject (gp_Spec doc))"
    "v1s_Team (gs_Subject (gp_Spec doc)) \<noteq> [] \<or> v1s_User (gs_Subject (gp_Spec doc)) \<noteq> []"
    "1 \<le> length ?rs" "length ?rs \<le> maxPolicyRules" "p_Name p = om_Name (gp_Metadata doc)"
    using rest guards by (simp_all add: Suc_le_eq)
  show "distinct (map wr_Name ?rs)" "\<forall>wr \<in> set ?rs. ruleShape wr"
    "list_all2 (\<lambda>wr r. convertKind doc wr = Inr r) ?rs (p_Rules p)"
    using all by auto
qed

text \<open>A reference of a tier finds the converted budget it was checked against.\<close>

lemma reference_found:
  assumes conv: "list_all2 (\<lambda>wr r. convertKind doc wr = Inr r) wrs rs"
    and shape: "\<forall>wr \<in> set wrs. ruleShape wr"
    and found: "findRule wrs name = Some ref" "wr_Budget ref = Some wb" "\<not> br_Unlimited wb"
  shows "\<exists>r b. r \<in> set rs \<and> r_Name r = name \<and> r_Budget r = Some b \<and> \<not> b_Unlimited b \<and> 0 < b_LimitMicroUSD b"
proof -
  have ref: "ref \<in> set wrs" "wr_Name ref = name"
    using found(1) by (auto simp: findRule_def find_Some_iff)
  then obtain r where r: "r \<in> set rs" "convertKind doc ref = Inr r"
    using list_all2_in1 [OF conv] by blast
  have one: "countSet (ruleKinds ref) = 1" using shape ref(1) by (simp add: ruleShape_def)
  from r(2) one show ?thesis
  proof (cases rule: kind_outcome)
    case (Budget wb' x)
    then have "budgetFromV1Alpha1 ref wb = Inr x" using found(2) by simp
    note out = budget_outcome [OF this]
    have "\<not> b_Unlimited x" "0 < b_LimitMicroUSD x"
      using out(1,2) found(3) by (simp_all add: wfBudget_def)
    then show ?thesis using r(1) kind_name [OF r(2) one] ref(2) Budget(3) by (auto simp: emptyRule_def)
  qed (use found(2) in simp_all)
qed

lemma routing_wf:
  assumes "routingFromV1Alpha1 wr wrt doc = Inr ro"
    and "ps_Team (p_Subject p) = v1s_Team (gs_Subject (gp_Spec doc))"
    and "ps_User (p_Subject p) = v1s_User (gs_Subject (gp_Spec doc))"
    and "list_all2 (\<lambda>wr r. convertKind doc wr = Inr r) (gs_Rules (gp_Spec doc)) (p_Rules p)"
    and "\<forall>wr \<in> set (gs_Rules (gp_Spec doc)). ruleShape wr"
  shows "wfRouting p (wr_FailurePolicy wr) ro"
proof -
  consider (cx) c cx where "contextFromV1Alpha1 wr c = Inr cx" "ro = noRouting\<lparr>ro_Context := Some cx\<rparr>"
    | (af) "rt_OnAffinityConflict wrt \<in> {PreferAffinity, PreferFallback}"
        "ro = noRouting\<lparr>ro_Affinity := Some \<lparr>af_OnAffinityConflict = rt_OnAffinityConflict wrt\<rparr>\<rparr>"
    | (ts) bt ts where "budgetTiersFromV1Alpha1 doc bt = Inr ts" "ro = noRouting\<lparr>ro_BudgetTiers := Some ts\<rparr>"
    using assms(1) unfolding routingFromV1Alpha1_def Let_def
    by (auto split: if_splits option.splits sum.splits)
  then show ?thesis
  proof cases
    case cx
    then show ?thesis using context_wf by (simp add: wfRouting_def noRouting_def)
  next
    case af
    then show ?thesis by (simp add: wfRouting_def noRouting_def)
  next
    case ts
    obtain ref wb where out: "findRule (gs_Rules (gp_Spec doc)) (ts_BudgetRef ts) = Some ref"
      "wr_Budget ref = Some wb" "\<not> br_Unlimited wb" "ts_Tiers ts \<noteq> []"
      "\<forall>t \<in> set (ts_Tiers ts). wfTier (if ts_EnforceTargets ts then 100 else 99) t"
      "sorted_wrt (<) (map t_ThresholdPercent (ts_Tiers ts))"
      "ts_EnforceTargets ts \<longrightarrow> v1s_Team (gs_Subject (gp_Spec doc)) \<noteq> [] \<and> v1s_User (gs_Subject (gp_Spec doc)) = []"
      by (rule budget_tiers_outcome [OF ts(1)])
    have "wfTiers p ts"
      unfolding wfTiers_def
      using out(4-7) assms(2,3) reference_found [OF assms(4,5) out(1-3)] by simp
    then show ?thesis by (simp add: wfRouting_def noRouting_def ts(2))
  qed
qed

lemma rule_wf:
  assumes "convertKind doc wr = Inr r" "ruleShape wr"
    and "ps_Team (p_Subject p) = v1s_Team (gs_Subject (gp_Spec doc))"
    and "ps_User (p_Subject p) = v1s_User (gs_Subject (gp_Spec doc))"
    and "list_all2 (\<lambda>wr r. convertKind doc wr = Inr r) (gs_Rules (gp_Spec doc)) (p_Rules p)"
    and "\<forall>wr \<in> set (gs_Rules (gp_Spec doc)). ruleShape wr"
  shows "wfRule p r"
proof -
  have fp: "wr_FailurePolicy wr \<in> {FailOpen, FailClosed}" and one: "countSet (ruleKinds wr) = 1"
    using assms(2) by (simp_all add: ruleShape_def)
  from assms(1) one show ?thesis
  proof (cases rule: kind_outcome)
    case (Quota q x)
    then show ?thesis using fp quota_wf by (simp add: wfRule_def emptyRule_def)
  next
    case (Sensitive sd x)
    then show ?thesis using fp sensitive_wf by (simp add: wfRule_def emptyRule_def)
  next
    case (Budget wb x)
    then show ?thesis using fp budget_outcome(2) by (simp add: wfRule_def emptyRule_def)
  next
    case (Routing wrt x)
    then show ?thesis using fp routing_wf [OF Routing(2) assms(3-6)] by (simp add: wfRule_def emptyRule_def)
  next
    case (Access ma x)
    then show ?thesis using fp model_access_wf by (simp add: wfRule_def emptyRule_def)
  next
    case (Rate rr x)
    then show ?thesis using fp rate_wf by (simp add: wfRule_def emptyRule_def)
  qed
qed

lemma names_kept:
  assumes "list_all2 (\<lambda>wr r. convertKind doc wr = Inr r) wrs rs" "\<forall>wr \<in> set wrs. ruleShape wr"
  shows "map r_Name rs = map wr_Name wrs"
  using assms by (induction rule: list_all2_induct) (auto simp: ruleShape_def dest: kind_name)

text \<open>
  Every policy the conversion returns is well formed: it selects somebody, has between 1
  and 256 rules with distinct nonempty names, every rule has exactly one kind and a known
  failure policy; a finite budget has a positive limit and grant within \<^verbatim>\<open>int64\<close>, a known
  period and a renew interval of at least a second, a hard cap fails closed; tiers refer to a
  finite budget of the same document with strictly increasing thresholds and substitutions
  without chains; and the remaining kinds satisfy their own constraints.
\<close>

lemma conversion_wf:
  assumes "FromV1Alpha1 doc = Inr p"
  shows "wfPolicy p"
proof -
  note out = document_outcome [OF assms]
  have names: "map r_Name (p_Rules p) = map wr_Name (gs_Rules (gp_Spec doc))"
    by (rule names_kept [OF out(8,7)])
  have "wfRule p r" if "r \<in> set (p_Rules p)" for r
  proof -
    obtain wr where "wr \<in> set (gs_Rules (gp_Spec doc))" "convertKind doc wr = Inr r"
      using list_all2_in2 [OF out(8)] \<open>r \<in> set (p_Rules p)\<close> by blast
    then show ?thesis using rule_wf [OF _ _ out(1,2,8,7)] out(7) by blast
  qed
  moreover have "length (p_Rules p) = length (gs_Rules (gp_Spec doc))"
    using list_all2_lengthD [OF out(8)] by simp
  moreover have "[] \<notin> set (map r_Name (p_Rules p))"
    unfolding names using out(7) by (auto simp: ruleShape_def)
  ultimately show ?thesis
    using out(1-6) names by (simp add: wfPolicy_def)
qed

section \<open>Properties\<close>

text \<open>A team document with a hard daily cap and a strict tier on it, and the policy it becomes.\<close>

definition sampleSub :: "(string, string) mapping" where
  "sampleSub = Mapping.update ''opus'' ''haiku'' Mapping.empty"

definition sampleCap :: V1Rule where
  "sampleCap = \<lparr>wr_Name = ''cap'', wr_FailurePolicy = FailClosed,
     wr_Budget = Some \<lparr>br_Unlimited = False, br_LimitMilliUSD = 5000, br_HardCap = True,
       br_Lease = \<lparr>ls_GrantMilliUSD = 0, ls_RenewInterval = ''1m30s''\<rparr>, br_AdminContact = ''ops'',
       br_Period = PeriodCalendarDay\<rparr>,
     wr_Routing = None, wr_ModelAccess = None, wr_Rate = None, wr_SensitiveData = None, wr_TokenQuota = None\<rparr>"

definition sampleTier :: V1Rule where
  "sampleTier = \<lparr>wr_Name = ''tier'', wr_FailurePolicy = FailOpen, wr_Budget = None,
     wr_Routing = Some \<lparr>rt_OnAffinityConflict = [],
       rt_BudgetTiers = Some \<lparr>bt_BudgetRef = ''cap'',
         bt_Tiers = [\<lparr>vt_ThresholdPercent = 80, vt_Substitute = sampleSub\<rparr>], bt_EnforceTargets = True\<rparr>,
       rt_Context = None\<rparr>,
     wr_ModelAccess = None, wr_Rate = None, wr_SensitiveData = None, wr_TokenQuota = None\<rparr>"

definition sampleDoc :: "V1Rule list \<Rightarrow> GovernancePolicy" where
  "sampleDoc rules = \<lparr>gp_TypeMeta = \<lparr>tm_APIVersion = APIVersion, tm_Kind = KindGovernancePolicy\<rparr>,
     gp_Metadata = \<lparr>om_Name = ''acme'', om_Generation = 3\<rparr>,
     gp_Spec = \<lparr>gs_Subject = \<lparr>v1s_Team = ''research'', v1s_User = []\<rparr>, gs_Rules = rules\<rparr>\<rparr>"

definition samplePolicy :: Policy where
  "samplePolicy = \<lparr>p_Name = ''acme'', p_Generation = 3,
     p_Subject = \<lparr>ps_Team = ''research'', ps_User = []\<rparr>,
     p_Rules =
       [emptyRule ''cap'' FailClosed\<lparr>r_Budget := Some \<lparr>b_Unlimited = False, b_LimitMicroUSD = 5000000,
          b_HardCap = True, b_LeaseGrantMicroUSD = 5000, b_LeaseRenewInterval = 90000000000,
          b_AdminContact = ''ops'', b_Period = PeriodCalendarDay\<rparr>\<rparr>,
        emptyRule ''tier'' FailOpen\<lparr>r_Routing := Some (noRouting\<lparr>ro_BudgetTiers := Some
          \<lparr>ts_BudgetRef = ''cap'', ts_Tiers = [\<lparr>t_ThresholdPercent = 80, t_Substitute = sampleSub\<rparr>],
           ts_EnforceTargets = True\<rparr>\<rparr>)\<rparr>]\<rparr>"

lemma sample_converts: "FromV1Alpha1 (sampleDoc [sampleCap, sampleTier]) = Inr samplePolicy"
  by code_simp

text \<open>
  Nothing is dropped or weakened: the rules of an accepted document are the converted
  rules, one for one and in order, with their names and failure policies; the finite limit
  of a budget rule is exactly its wire amount in micro-dollars, its hard-cap flag is kept,
  and a hard cap is never classified as a mere routing threshold.
\<close>

lemma policy_conversion_lossless:
  assumes "FromV1Alpha1 doc = Inr p" and "i < length (gs_Rules (gp_Spec doc))"
  shows "let wr = gs_Rules (gp_Spec doc) ! i; r = p_Rules p ! i in
    length (p_Rules p) = length (gs_Rules (gp_Spec doc)) \<and>
    r_Name r = wr_Name wr \<and> r_FailurePolicy r = wr_FailurePolicy wr \<and>
    (case wr_Budget wr of
       None \<Rightarrow> r_Budget r = None
     | Some wb \<Rightarrow>
         (\<exists>b. r_Budget r = Some b \<and> b_Unlimited b = br_Unlimited wb \<and> b_HardCap b = br_HardCap wb \<and>
            (br_Unlimited wb \<or> b_LimitMicroUSD b = 1000 * br_LimitMilliUSD wb) \<and>
            \<not> (br_HardCap wb \<and> IsRoutingOnlyBudget (Some p) (wr_Name wr))))"
proof -
  note out = document_outcome [OF assms(1)]
  let ?wr = "gs_Rules (gp_Spec doc) ! i" and ?r = "p_Rules p ! i"
  have conv: "convertKind doc ?wr = Inr ?r" and len: "length (p_Rules p) = length (gs_Rules (gp_Spec doc))"
    using list_all2_nthD [OF out(8) assms(2)] list_all2_lengthD [OF out(8)] by simp_all
  have one: "countSet (ruleKinds ?wr) = 1" using out(7) assms(2) by (simp add: ruleShape_def)
  have names: "map r_Name (p_Rules p) = map wr_Name (gs_Rules (gp_Spec doc))"
    by (rule names_kept [OF out(8,7)])
  have first: "List.find (\<lambda>r. r_Name r = wr_Name ?wr) (p_Rules p) = Some ?r"
  proof -
    have "j = i" if "j < length (p_Rules p)" "r_Name (p_Rules p ! j) = wr_Name ?wr" for j
    proof -
      have "map wr_Name (gs_Rules (gp_Spec doc)) ! j = map wr_Name (gs_Rules (gp_Spec doc)) ! i"
        unfolding names [symmetric] using that len assms(2) kind_name [OF conv one] by simp
      then show ?thesis using nth_eq_iff_index_eq [OF out(6)] that(1) len assms(2) by simp
    qed
    then have "\<forall>j<i. r_Name (p_Rules p ! j) \<noteq> wr_Name ?wr"
      using assms(2) len by (metis less_irrefl less_trans)
    then show ?thesis
      using kind_name [OF conv one] assms(2) len by (simp add: find_Some_iff exI [of _ i])
  qed
  from conv one have "case wr_Budget ?wr of
       None \<Rightarrow> r_Budget ?r = None
     | Some wb \<Rightarrow>
         (\<exists>b. r_Budget ?r = Some b \<and> b_Unlimited b = br_Unlimited wb \<and> b_HardCap b = br_HardCap wb \<and>
            (br_Unlimited wb \<or> b_LimitMicroUSD b = 1000 * br_LimitMilliUSD wb) \<and>
            \<not> (br_HardCap wb \<and> IsRoutingOnlyBudget (Some p) (wr_Name ?wr)))"
  proof (cases rule: kind_outcome)
    case (Budget wb x)
    note b = budget_outcome [OF Budget(2)]
    have "r_Budget ?r = Some x" by (simp add: Budget(3) emptyRule_def)
    then show ?thesis
      using b(1,3,4) first by (auto simp: Budget(1) IsRoutingOnlyBudget_def)
  qed (simp_all add: emptyRule_def)
  then show ?thesis using kind_name [OF conv one] len by (simp add: Let_def)
qed

text \<open>
  A rejection tells who is at fault: it carries the version and kind of the document, and
  either names no rule, because the version, the kind, the subject, the number of rules or an
  empty rule name is to blame, or names a rule of the document that repeats a name, has no
  valid failure policy or kind, or fails its own conversion for exactly the reported reason.
\<close>

lemma policy_rejection_names_culprit:
  assumes "FromV1Alpha1 doc = Inl e"
  shows "ue_APIVersion e = tm_APIVersion (gp_TypeMeta doc) \<and> ue_Kind e = tm_Kind (gp_TypeMeta doc) \<and>
    (let rules = gs_Rules (gp_Spec doc) in
     if ue_Rule e = [] then
       \<not> Supports (tm_APIVersion (gp_TypeMeta doc)) \<or> tm_Kind (gp_TypeMeta doc) \<noteq> KindGovernancePolicy
       \<or> (v1s_Team (gs_Subject (gp_Spec doc)) = [] \<and> v1s_User (gs_Subject (gp_Spec doc)) = [])
       \<or> length rules \<notin> {1..maxPolicyRules} \<or> [] \<in> wr_Name ` set rules
     else \<exists>wr \<in> set rules. wr_Name wr = ue_Rule e \<and>
       (\<not> distinct (map wr_Name rules) \<or> \<not> ruleShape wr \<or> convertKind doc wr = Inl (ue_Reason e)))"
proof -
  let ?rules = "gs_Rules (gp_Spec doc)"
  let ?early = "\<not> Supports (tm_APIVersion (gp_TypeMeta doc)) \<or> tm_Kind (gp_TypeMeta doc) \<noteq> KindGovernancePolicy
       \<or> (v1s_Team (gs_Subject (gp_Spec doc)) = [] \<and> v1s_User (gs_Subject (gp_Spec doc)) = [])
       \<or> length ?rules \<notin> {1..maxPolicyRules}"
  have body: "\<exists>why. e = reject doc (if wr_Name wr = [] then [] else wr_Name wr) why \<and>
      (wr_Name wr \<noteq> [] \<longrightarrow> wr_Name wr \<in> N \<or> \<not> ruleShape wr \<or> convertKind doc wr = Inl why)"
    if "convertRule doc wr (N, acc) = Inl e" for wr N acc
    using that by (auto simp: convertRule_def ruleShape_def wire_names split: if_splits sum.splits)
  have loop: "\<exists>wr why. wr \<in> set wrs \<and> e = reject doc (wr_Name wr) why \<and>
      (wr_Name wr \<noteq> [] \<longrightarrow> wr_Name wr \<in> N \<or> \<not> distinct (map wr_Name wrs) \<or> \<not> ruleShape wr
         \<or> convertKind doc wr = Inl why)"
    if "foldE (convertRule doc) wrs (N, acc) = Inl e" for wrs N acc
    using that
  proof (induction wrs arbitrary: N acc)
    case (Cons wr wrs)
    show ?case
    proof (cases "convertRule doc wr (N, acc)")
      case (Inl e')
      then have "convertRule doc wr (N, acc) = Inl e" using Cons.prems by simp
      from body [OF this] show ?thesis by (auto split: if_splits)
    next
      case (Inr s)
      then obtain N' acc' where s: "s = (N', acc')" "N' = insert (wr_Name wr) N"
        by (cases s) (auto simp: convertRule_Inr)
      have "foldE (convertRule doc) wrs (N', acc') = Inl e" using Cons.prems Inr s by simp
      from Cons.IH [OF this] obtain w why where w: "w \<in> set wrs" "e = reject doc (wr_Name w) why"
        "wr_Name w \<noteq> [] \<longrightarrow> wr_Name w \<in> N' \<or> \<not> distinct (map wr_Name wrs) \<or> \<not> ruleShape w
           \<or> convertKind doc w = Inl why" by blast
      have "wr_Name w \<noteq> [] \<longrightarrow> wr_Name w \<in> N \<or> \<not> distinct (map wr_Name (wr # wrs)) \<or> \<not> ruleShape w
           \<or> convertKind doc w = Inl why"
        using w(1,3) s(2) by (auto simp: image_iff) metis
      then show ?thesis using w(1,2) by auto
    qed
  qed simp
  have "(\<exists>why. e = reject doc [] why \<and> ?early) \<or> foldE (convertRule doc) ?rules ({}, []) = Inl e"
    using assms unfolding FromV1Alpha1_def Let_def
    by (auto simp: Suc_le_eq split: if_splits sum.splits)
  then show ?thesis
  proof
    assume "\<exists>why. e = reject doc [] why \<and> ?early"
    then show ?thesis by (auto simp: reject_def)
  next
    assume "foldE (convertRule doc) ?rules ({}, []) = Inl e"
    from loop [OF this] show ?thesis by (force simp: reject_def Let_def)
  qed
qed

end
