(* ===== verification/AuthorityDefs.thy ===== *)
theory AuthorityDefs
  imports Journal PolicyProps Calendar
begin

text \<open>
  The budget definitions both sides of the escrow derive from the policy documents,
  \<^verbatim>\<open>internal/policy/authority_definitions.go\<close>: the account key of a budget rule, its revision,
  its calendar window on the database clock in UTC, and the check a data plane makes on a
  received bundle.

  The hash of the source (SHA-256 of a JSON encoding) is two parameters, one per type it is
  applied to: \<open>hs\<close> on lists of strings and \<open>hb\<close> on a budget with its failure policy; the
  fingerprint of the documents is \<open>gen\<close>. Bundles are compared as values: the source compares
  the JSON encodings of lists whose timestamps are in UTC and whose strings are valid UTF-8.
\<close>

section \<open>Windows\<close>

definition utcWindow :: "gotime \<Rightarrow> string \<Rightarrow> gotime \<times> gotime" where
  "utcWindow now period =
     (case civil (local_day UTC now) of (y, m, d) \<Rightarrow>
        if period = PeriodCalendarDay then (time_Date y m d UTC, time_Date y m (d + 1) UTC)
        else (time_Date y m 1 UTC, time_Date y (m + 1) 1 UTC))"

text \<open>\<^verbatim>\<open>t.Format(time.RFC3339)\<close> of a midnight in UTC.\<close>

definition rfc3339_midnight :: "gotime \<Rightarrow> string" where
  "rfc3339_midnight t = format_day UTC t @ ''T00:00:00Z''"

section \<open>Definitions\<close>

datatype definitions_error =
    MissingClock | DuplicatePolicy string | InvalidPolicy UnsupportedError | InvalidLease

definition leaseSeconds :: "duration \<Rightarrow> int" where
  "leaseSeconds renew = mul64 3 renew sdiv Second"

definition authorityKey :: "(string list \<Rightarrow> string) \<Rightarrow> Policy \<Rightarrow> Rule \<Rightarrow> PolicyBudget \<Rightarrow> string" where
  "authorityKey hs p r b = hs [p_Name p, r_Name r, ps_Team (p_Subject p), ps_User (p_Subject p), b_Period b]"

definition authorityBudget ::
  "(string list \<Rightarrow> string) \<Rightarrow> (PolicyBudget \<Rightarrow> string \<Rightarrow> string) \<Rightarrow> gotime \<Rightarrow> Policy \<Rightarrow> Rule \<Rightarrow> PolicyBudget
   \<Rightarrow> AuthorityBudget" where
  "authorityBudget hs hb now p r b =
     (case utcWindow now (b_Period b) of (start, finish) \<Rightarrow>
        let key = authorityKey hs p r b
        in \<lparr>ab_Key = key, ab_Policy = p_Name p, ab_Rule = r_Name r,
            ab_Team = ps_Team (p_Subject p), ab_User = ps_User (p_Subject p),
            ab_Revision = hb b (r_FailurePolicy r),
            ab_WindowID = hs [key, rfc3339_midnight start, rfc3339_midnight finish],
            ab_WindowStart = start, ab_WindowEnd = finish,
            ab_LimitMicroUSD = b_LimitMicroUSD b, ab_GrantMicroUSD = b_LeaseGrantMicroUSD b,
            ab_LeaseSeconds = leaseSeconds (b_LeaseRenewInterval b), ab_HardCap = b_HardCap b\<rparr>)"

text \<open>The inner loop over the rules of one document and the outer one over the documents.\<close>

definition ruleBudgets ::
  "(string list \<Rightarrow> string) \<Rightarrow> (PolicyBudget \<Rightarrow> string \<Rightarrow> string) \<Rightarrow> gotime \<Rightarrow> Policy \<Rightarrow> Rule
   \<Rightarrow> AuthorityBudget list \<Rightarrow> definitions_error + AuthorityBudget list" where
  "ruleBudgets hs hb now p r budgets =
     (case r_Budget r of
        None \<Rightarrow> Inr budgets
      | Some b \<Rightarrow>
          if b_Unlimited b then Inr budgets
          else if leaseSeconds (b_LeaseRenewInterval b) < 1 then Inl InvalidLease
          else Inr (budgets @ [authorityBudget hs hb now p r b]))"

definition docBudgets ::
  "(string list \<Rightarrow> string) \<Rightarrow> (PolicyBudget \<Rightarrow> string \<Rightarrow> string) \<Rightarrow> gotime \<Rightarrow> GovernancePolicy
   \<Rightarrow> string set \<times> AuthorityBudget list \<Rightarrow> definitions_error + string set \<times> AuthorityBudget list" where
  "docBudgets hs hb now doc st =
     (case st of (seen, budgets) \<Rightarrow>
        let name = om_Name (gp_Metadata doc) in
        if name \<in> seen then Inl (DuplicatePolicy name)
        else (case FromV1Alpha1 doc of
                Inl e \<Rightarrow> Inl (InvalidPolicy e)
              | Inr p \<Rightarrow>
                  (case foldE (ruleBudgets hs hb now p) (p_Rules p) budgets of
                     Inl e \<Rightarrow> Inl e
                   | Inr budgets' \<Rightarrow> Inr (insert name seen, budgets'))))"

definition AuthorityBudgets ::
  "(string list \<Rightarrow> string) \<Rightarrow> (PolicyBudget \<Rightarrow> string \<Rightarrow> string) \<Rightarrow> GovernancePolicy list \<Rightarrow> gotime
   \<Rightarrow> definitions_error + AuthorityBudget list" where
  "AuthorityBudgets hs hb docs now =
     (if now = 0 then Inl MissingClock
      else (case foldE (docBudgets hs hb now) docs ({}, []) of
              Inl e \<Rightarrow> Inl e
            | Inr (_, budgets) \<Rightarrow> Inr (sort_key ab_Key budgets)))"

section \<open>The bundle\<close>

text \<open>The fields of an \<^verbatim>\<open>AuthorityResponse\<close> the bundle check reads; a nil slice is \<open>None\<close>.\<close>

record Bundle =
  bu_Protocol :: string
  bu_ServerTime :: gotime
  bu_Generation :: string
  bu_Policies :: "GovernancePolicy list option"
  bu_Budgets :: "AuthorityBudget list option"

datatype bundle_error = IncompleteBundle | BundleDefinitions definitions_error | BudgetsMismatch

definition ValidateAuthorityBundle ::
  "(string list \<Rightarrow> string) \<Rightarrow> (PolicyBudget \<Rightarrow> string \<Rightarrow> string) \<Rightarrow> (GovernancePolicy list \<Rightarrow> string)
   \<Rightarrow> Bundle option \<Rightarrow> bundle_error option" where
  "ValidateAuthorityBundle hs hb gen response =
     (case response of
        None \<Rightarrow> Some IncompleteBundle
      | Some bu \<Rightarrow>
          (case (bu_Policies bu, bu_Budgets bu) of
             (Some docs, Some budgets) \<Rightarrow>
               if bu_Protocol bu \<noteq> AuthorityProtocol \<or> bu_Generation bu \<noteq> gen docs then Some IncompleteBundle
               else (case AuthorityBudgets hs hb docs (bu_ServerTime bu) of
                       Inl e \<Rightarrow> Some (BundleDefinitions e)
                     | Inr expected \<Rightarrow>
                         if expected = sort_key ab_Key budgets then None else Some BudgetsMismatch)
           | _ \<Rightarrow> Some IncompleteBundle))"

section \<open>Windows contain the clock and are stable within it\<close>

lemma utc_day: "local_day UTC t = t div Second div 86400"
  by (simp add: local_day_def UTC_def Let_def)

lemma utc_Date: "time_Date y m d UTC = 86400 * Second * date_days y m d"
  by (simp add: time_Date_def UTC_def)

lemma midnight_le_iff: "86400 * Second * n \<le> t \<longleftrightarrow> n \<le> local_day UTC t"
proof -
  have "t div Second div 86400 = t div 86400000000000"
    by (simp add: Second_def flip: zdiv_zmult2_eq)
  moreover have "t = 86400000000000 * (t div 86400000000000) + t mod 86400000000000"
    "0 \<le> t mod 86400000000000" "t mod 86400000000000 < 86400000000000" by simp_all
  ultimately show ?thesis unfolding utc_day by (simp only: Second_def) linarith
qed

lemma less_midnight_iff: "t < 86400 * Second * n \<longleftrightarrow> local_day UTC t < n"
  using midnight_le_iff [of n t] by linarith

lemma day_nonneg: "0 \<le> t \<Longrightarrow> 0 \<le> local_day UTC t"
  by (simp add: utc_day Second_def pos_imp_zdiv_nonneg_iff)

lemma utc_window_contains:
  assumes "0 \<le> now" "utcWindow now period = (start, finish)"
  shows "start \<le> now \<and> now < finish"
proof -
  obtain y m d where c: "civil (local_day UTC now) = (y, m, d)" by (metis prod_cases3)
  note b = civil_bounds [OF day_nonneg [OF assms(1)] c]
  have next_day: "date_days y m (d + 1) = date_days y m d + 1" by (simp add: date_days_def Let_def)
  show ?thesis
    using assms(2) b next_day
    by (auto simp: utcWindow_def c utc_Date midnight_le_iff less_midnight_iff split: if_splits)
qed

text \<open>Every instant of a window has that window: a definition does not depend on when in it it is derived.\<close>

lemma utc_window_stable:
  assumes "0 \<le> now" "0 \<le> later" "utcWindow now period = (start, finish)" "start \<le> later" "later < finish"
  shows "utcWindow later period = (start, finish)"
proof -
  obtain y m d where c: "civil (local_day UTC now) = (y, m, d)" by (metis prod_cases3)
  obtain y' m' d' where c': "civil (local_day UTC later) = (y', m', d')" by (metis prod_cases3)
  note b = civil_bounds [OF day_nonneg [OF assms(1)] c]
  have next_day: "date_days y m (d + 1) = date_days y m d + 1" by (simp add: date_days_def Let_def)
  show ?thesis
  proof (cases "period = PeriodCalendarDay")
    case True
    then have "local_day UTC later = local_day UTC now"
      using assms(3-5) b(3) next_day
      by (auto simp: utcWindow_def c utc_Date midnight_le_iff less_midnight_iff)
    then show ?thesis using assms(3) by (simp add: utcWindow_def)
  next
    case False
    then have w: "start = 86400 * Second * date_days y m 1" "finish = 86400 * Second * date_days y (m + 1) 1"
      using assms(3) by (simp_all add: utcWindow_def c utc_Date)
    then have "date_days y m 1 \<le> local_day UTC later" "local_day UTC later < date_days y (m + 1) 1"
      using assms(4,5) by (simp_all add: midnight_le_iff less_midnight_iff)
    with civil_unique [OF day_nonneg [OF assms(1)] day_nonneg [OF assms(2)] c c'] False w
    show ?thesis by (simp add: utcWindow_def c' utc_Date)
  qed
qed

section \<open>The derivation as a comprehension\<close>

text \<open>The finite budgets of a policy, and the definitions they give at an instant.\<close>

definition finiteBudget :: "Rule \<Rightarrow> (Rule \<times> PolicyBudget) list" where
  "finiteBudget r = (case r_Budget r of None \<Rightarrow> [] | Some b \<Rightarrow> if b_Unlimited b then [] else [(r, b)])"

definition finiteBudgets :: "Policy \<Rightarrow> (Rule \<times> PolicyBudget) list" where
  "finiteBudgets p = concat (map finiteBudget (p_Rules p))"

definition policyBudgets ::
  "(string list \<Rightarrow> string) \<Rightarrow> (PolicyBudget \<Rightarrow> string \<Rightarrow> string) \<Rightarrow> gotime \<Rightarrow> Policy \<Rightarrow> AuthorityBudget list" where
  "policyBudgets hs hb now p = map (\<lambda>(r, b). authorityBudget hs hb now p r b) (finiteBudgets p)"

definition leasesOK :: "Policy \<Rightarrow> bool" where
  "leasesOK p \<longleftrightarrow> (\<forall>(r, b) \<in> set (finiteBudgets p). 1 \<le> leaseSeconds (b_LeaseRenewInterval b))"

lemma in_finiteBudget: "(r, b) \<in> set (finiteBudget r') \<longleftrightarrow> r = r' \<and> r_Budget r = Some b \<and> \<not> b_Unlimited b"
  by (cases "r_Budget r'") (auto simp: finiteBudget_def)

lemma in_finiteBudgets:
  "(r, b) \<in> set (finiteBudgets p) \<longleftrightarrow> r \<in> set (p_Rules p) \<and> r_Budget r = Some b \<and> \<not> b_Unlimited b"
  by (auto simp: finiteBudgets_def in_finiteBudget)

lemma rule_budgets_step:
  "ruleBudgets hs hb now p r acc =
     (if \<forall>(r, b) \<in> set (finiteBudget r). 1 \<le> leaseSeconds (b_LeaseRenewInterval b)
      then Inr (acc @ map (\<lambda>(r, b). authorityBudget hs hb now p r b) (finiteBudget r))
      else Inl InvalidLease)"
  by (cases "r_Budget r") (auto simp: ruleBudgets_def finiteBudget_def)

lemma rule_budgets_fold:
  "foldE (ruleBudgets hs hb now p) rs acc = Inr out \<longleftrightarrow>
     (\<forall>(r, b) \<in> set (concat (map finiteBudget rs)). 1 \<le> leaseSeconds (b_LeaseRenewInterval b)) \<and>
     out = acc @ map (\<lambda>(r, b). authorityBudget hs hb now p r b) (concat (map finiteBudget rs))"
proof (induction rs arbitrary: acc)
  case Nil
  then show ?case by auto
next
  case (Cons r rs)
  show ?case by (simp add: rule_budgets_step [of hs hb now p r] Cons.IH ball_Un)
qed

lemma policy_budgets_fold:
  "foldE (ruleBudgets hs hb now p) (p_Rules p) acc = Inr out \<longleftrightarrow> leasesOK p \<and> out = acc @ policyBudgets hs hb now p"
  unfolding rule_budgets_fold leasesOK_def policyBudgets_def finiteBudgets_def ..

lemma doc_budgets_Inr:
  "docBudgets hs hb now doc (seen, acc) = Inr (seen', out) \<longleftrightarrow>
     om_Name (gp_Metadata doc) \<notin> seen \<and> seen' = insert (om_Name (gp_Metadata doc)) seen \<and>
     (\<exists>p. FromV1Alpha1 doc = Inr p \<and> leasesOK p \<and> out = acc @ policyBudgets hs hb now p)"
proof (cases "FromV1Alpha1 doc")
  case (Inl e)
  then show ?thesis by (auto simp: docBudgets_def Let_def)
next
  case (Inr p)
  have "docBudgets hs hb now doc (seen, acc) = Inr (seen', out) \<longleftrightarrow>
     om_Name (gp_Metadata doc) \<notin> seen \<and> seen' = insert (om_Name (gp_Metadata doc)) seen \<and>
     foldE (ruleBudgets hs hb now p) (p_Rules p) acc = Inr out"
    by (auto simp: docBudgets_def Let_def Inr split: sum.splits)
  then show ?thesis by (simp add: Inr policy_budgets_fold)
qed

lemma docs_budgets_fold:
  "(\<exists>seen'. foldE (docBudgets hs hb now) docs (seen, acc) = Inr (seen', out)) \<longleftrightarrow>
     distinct (map (\<lambda>d. om_Name (gp_Metadata d)) docs) \<and> (\<lambda>d. om_Name (gp_Metadata d)) ` set docs \<inter> seen = {} \<and>
     (\<exists>ps. list_all2 (\<lambda>d p. FromV1Alpha1 d = Inr p) docs ps \<and> list_all leasesOK ps \<and>
        out = acc @ concat (map (policyBudgets hs hb now) ps))"
proof (induction docs arbitrary: seen acc)
  case Nil
  then show ?case by auto
next
  case (Cons d docs)
  let ?n = "om_Name (gp_Metadata d)"
  have step: "(\<exists>seen'. foldE (docBudgets hs hb now) (d # docs) (seen, acc) = Inr (seen', out)) \<longleftrightarrow>
    (\<exists>p. FromV1Alpha1 d = Inr p \<and> leasesOK p \<and> ?n \<notin> seen \<and>
       (\<exists>seen'. foldE (docBudgets hs hb now) docs (insert ?n seen, acc @ policyBudgets hs hb now p) = Inr (seen', out)))"
    (is "?L \<longleftrightarrow> ?R")
  proof
    assume ?L
    then obtain s seen' where s: "docBudgets hs hb now d (seen, acc) = Inr s"
      "foldE (docBudgets hs hb now) docs s = Inr (seen', out)"
      by (auto split: sum.splits)
    then show ?R by (cases s) (auto simp: doc_budgets_Inr)
  next
    assume ?R
    then obtain p seen' where p: "FromV1Alpha1 d = Inr p" "leasesOK p" "?n \<notin> seen"
      "foldE (docBudgets hs hb now) docs (insert ?n seen, acc @ policyBudgets hs hb now p) = Inr (seen', out)"
      by blast
    then have "docBudgets hs hb now d (seen, acc) = Inr (insert ?n seen, acc @ policyBudgets hs hb now p)"
      by (simp add: doc_budgets_Inr)
    with p(4) show ?L by auto
  qed
  have split: "(\<exists>ps. list_all2 (\<lambda>d p. FromV1Alpha1 d = Inr p) (d # docs) ps \<and> list_all leasesOK ps \<and>
      out = acc @ concat (map (policyBudgets hs hb now) ps)) \<longleftrightarrow>
    (\<exists>p. FromV1Alpha1 d = Inr p \<and> leasesOK p \<and>
       (\<exists>ps. list_all2 (\<lambda>d p. FromV1Alpha1 d = Inr p) docs ps \<and> list_all leasesOK ps \<and>
          out = (acc @ policyBudgets hs hb now p) @ concat (map (policyBudgets hs hb now) ps)))"
    unfolding list_all2_Cons1 by force
  show ?case unfolding step split Cons.IH by auto
qed

lemma authority_budgets_iff:
  "AuthorityBudgets hs hb docs now = Inr bs \<longleftrightarrow>
     now \<noteq> 0 \<and> distinct (map (\<lambda>d. om_Name (gp_Metadata d)) docs) \<and>
     (\<exists>ps. list_all2 (\<lambda>d p. FromV1Alpha1 d = Inr p) docs ps \<and> list_all leasesOK ps \<and>
        bs = sort_key ab_Key (concat (map (policyBudgets hs hb now) ps)))"
proof -
  have "AuthorityBudgets hs hb docs now = Inr bs \<longleftrightarrow> now \<noteq> 0 \<and>
      (\<exists>out. (\<exists>seen'. foldE (docBudgets hs hb now) docs ({}, []) = Inr (seen', out)) \<and> bs = sort_key ab_Key out)"
    by (auto simp: AuthorityBudgets_def split: sum.splits)
  then show ?thesis unfolding docs_budgets_fold by auto
qed

text \<open>Where a definition comes from.\<close>

lemma authority_budget_source:
  assumes "AuthorityBudgets hs hb docs now = Inr bs" "B \<in> set bs"
  obtains doc p r b where "doc \<in> set docs" "FromV1Alpha1 doc = Inr p" "r \<in> set (p_Rules p)"
    "r_Budget r = Some b" "\<not> b_Unlimited b" "B = authorityBudget hs hb now p r b"
    "1 \<le> leaseSeconds (b_LeaseRenewInterval b)"
proof -
  obtain ps where ps: "list_all2 (\<lambda>d p. FromV1Alpha1 d = Inr p) docs ps" "list_all leasesOK ps"
    "bs = sort_key ab_Key (concat (map (policyBudgets hs hb now) ps))"
    using assms(1) unfolding authority_budgets_iff by blast
  then obtain p r b where p: "p \<in> set ps" "(r, b) \<in> set (finiteBudgets p)" "B = authorityBudget hs hb now p r b"
    using assms(2) by (auto simp: policyBudgets_def)
  obtain doc where "doc \<in> set docs" "FromV1Alpha1 doc = Inr p"
    using list_all2_in2 [OF ps(1) p(1)] by blast
  moreover have "1 \<le> leaseSeconds (b_LeaseRenewInterval b)"
    using ps(2) p(1,2) by (auto simp: leasesOK_def list_all_iff)
  ultimately show thesis using that p(2,3) by (auto simp: in_finiteBudgets)
qed

lemma authority_budget_fields [simp]:
  "ab_Key (authorityBudget hs hb now p r b) = authorityKey hs p r b"
  "ab_WindowStart (authorityBudget hs hb now p r b) = fst (utcWindow now (b_Period b))"
  "ab_WindowEnd (authorityBudget hs hb now p r b) = snd (utcWindow now (b_Period b))"
  "ab_LimitMicroUSD (authorityBudget hs hb now p r b) = b_LimitMicroUSD b"
  "ab_GrantMicroUSD (authorityBudget hs hb now p r b) = b_LeaseGrantMicroUSD b"
  "ab_HardCap (authorityBudget hs hb now p r b) = b_HardCap b"
  "ab_Policy (authorityBudget hs hb now p r b) = p_Name p"
  "ab_Rule (authorityBudget hs hb now p r b) = r_Name r"
  "ab_LeaseSeconds (authorityBudget hs hb now p r b) = leaseSeconds (b_LeaseRenewInterval b)"
  by (simp_all add: authorityBudget_def Let_def split: prod.splits)

lemma authority_budget_later:
  assumes "utcWindow now (b_Period b) = utcWindow later (b_Period b)"
  shows "authorityBudget hs hb now p r b = authorityBudget hs hb later p r b"
  by (simp add: authorityBudget_def assms)

lemma authority_budgets_stable:
  assumes "AuthorityBudgets hs hb docs now = Inr bs" "0 < now" "0 < later"
    and inside: "\<forall>b \<in> set bs. ab_WindowStart b \<le> later \<and> later < ab_WindowEnd b"
  shows "AuthorityBudgets hs hb docs later = Inr bs"
proof -
  obtain ps where ps: "list_all2 (\<lambda>d p. FromV1Alpha1 d = Inr p) docs ps" "list_all leasesOK ps"
    "bs = sort_key ab_Key (concat (map (policyBudgets hs hb now) ps))"
    and docs: "distinct (map (\<lambda>d. om_Name (gp_Metadata d)) docs)"
    using assms(1) unfolding authority_budgets_iff by blast
  have "policyBudgets hs hb now p = policyBudgets hs hb later p" if p: "p \<in> set ps" for p
  proof -
    have "utcWindow now (b_Period b) = utcWindow later (b_Period b)" if rb: "(r, b) \<in> set (finiteBudgets p)" for r b
    proof -
      have "authorityBudget hs hb now p r b \<in> set bs"
        using p rb by (force simp: ps(3) policyBudgets_def)
      then have "fst (utcWindow now (b_Period b)) \<le> later" "later < snd (utcWindow now (b_Period b))"
        using inside by auto
      then show ?thesis
        using utc_window_stable [of now later "b_Period b" "fst (utcWindow now (b_Period b))"
            "snd (utcWindow now (b_Period b))"] assms(2,3) by simp
    qed
    then show ?thesis unfolding policyBudgets_def by (auto intro: authority_budget_later)
  qed
  then have "map (policyBudgets hs hb now) ps = map (policyBudgets hs hb later) ps" by simp
  then show ?thesis using ps docs assms(3) unfolding authority_budgets_iff by (metis less_irrefl)
qed

end
