(* ===== verification/Ledger.thy ===== *)
theory Ledger
  imports AuthorityDefs Tier "HOL-Library.Product_Lexorder"
begin

text \<open>
  The central ledger of the budget escrow, \<^verbatim>\<open>internal/authority/pgstore\<close> (\<^verbatim>\<open>pgstore.go\<close>,
  \<^verbatim>\<open>grants.go\<close>, \<^verbatim>\<open>accounts.go\<close>): the tables of its Postgres schema as maps keyed by their
  primary keys, and \<^verbatim>\<open>Sync\<close>, one transaction that applies cumulative reports and meters and
  answers grant requests.

  A transaction is a function on the tables. The locks of the source serialize every
  transaction on the rows it touches, so concurrent calls are sequences of these functions.
  Every statement can fail; the transaction is then rolled back. That is the argument
  \<open>commit\<close>: it commits, it aborts somewhere before, or the connection is lost in the commit,
  in which case the caller sees an error and the changes may or may not be there. The
  database clock, the rows of the policy table, the parser of a stored document and the
  random grant identities are arguments; SHA-256 is a parameter as elsewhere. A nil pointer
  dereference would be the error \<open>LPanic\<close>.
\<close>

section \<open>Tables\<close>

type_synonym accountKey = "string \<times> string"

record account =
  hardEncumbered :: int
  hardConsumed :: int
  softConsumed :: int
  softPending :: int
  acceptsMeters :: bool
  frozen :: bool

record grantState =
  g_key :: string
  g_window :: string
  g_revision :: string
  g_id :: string
  g_denial :: string
  g_want :: int
  g_amount :: int
  g_seq :: int
  g_consumed :: int
  g_observed :: int
  g_expires :: "gotime option"
  g_closed :: bool
  g_overrun :: bool

text \<open>A row of \<^verbatim>\<open>authority_meters\<close>: sequence, consumed, observed.\<close>

type_synonym meterRow = "int \<times> int \<times> int"

record Ledger =
  lg_dataplanes :: "string set"
  lg_accounts :: "(accountKey, account) mapping"
  lg_requests :: "(string \<times> string \<times> string, grantState) mapping"
  lg_meters :: "(string \<times> string \<times> string \<times> string, meterRow) mapping"
  lg_tiers :: "(string \<times> string \<times> string \<times> string, int) mapping"

definition emptyLedger :: Ledger where
  "emptyLedger = \<lparr>lg_dataplanes = {}, lg_accounts = Mapping.empty, lg_requests = Mapping.empty,
     lg_meters = Mapping.empty, lg_tiers = Mapping.empty\<rparr>"

datatype ledger_error =
    LInvalidIdentity | LBatchTooLarge | LMalformedRequest | LDuplicateRequest
  | LMalformedReport | LDuplicateReport | LMalformedMeter | LDuplicateMeter
  | LUnknownGrant | LNonmonotonicReport | LReportExceedsGrant | LDoubleRefund | LInconsistentRefund
  | LAccounting | LNoSoftWindow | LNonmonotonicMeter
  | LConflictingReplay | LInvalidGrantAmount | LNonce | LDuplicateGrantID
  | LUnknownWindow | LInconsistentPending | LNoFiniteWindow | LWindowChanged
  | LDefinitions definitions_error | LPolicyInvalid | LPolicyIdentity | LDatabase | LPanic

datatype commit = Commits | Aborts | CommitLost bool

text \<open>The hash functions and the document parser.\<close>

record LedgerEnv =
  le_hs :: "string list \<Rightarrow> string"
  le_hb :: "PolicyBudget \<Rightarrow> string \<Rightarrow> string"
  le_gen :: "GovernancePolicy list \<Rightarrow> string"
  le_ch :: "string \<Rightarrow> string"
  le_parse :: "string \<Rightarrow> GovernancePolicy list option"

section \<open>Validation\<close>

text \<open>The difference is evaluated for a nonnegative \<open>b\<close> only, so it does not wrap.\<close>

definition checkedAdd :: "int \<Rightarrow> int \<Rightarrow> ledger_error + int" where
  "checkedAdd a b = (if a < 0 \<or> b < 0 \<or> a > MaxInt64 - b then Inl LAccounting else Inr (add64 a b))"

interpretation led: checked_accounting checkedAdd
  by unfold_locales (auto simp: checkedAdd_def add64_exact in64_bounds)

definition validText :: "string \<Rightarrow> bool" where
  "validText s \<longleftrightarrow> s \<noteq> [] \<and> length s \<le> 1024 \<and> char_of (0::nat) \<notin> set s"

definition validCapability :: "string \<Rightarrow> bool" where
  "validCapability s \<longleftrightarrow> validText s \<and> length s \<ge> 32"

definition validateGrantRequest :: "AuthorityGrantRequest \<Rightarrow> string set \<Rightarrow> ledger_error + string set" where
  "validateGrantRequest r requests =
     (if \<not> validCapability (rw_RequestID r) \<or> \<not> validText (rw_Key r) \<or> \<not> validText (rw_WindowID r)
         \<or> \<not> validText (rw_Revision r) \<or> rw_WantMicroUSD r < 0 then Inl LMalformedRequest
      else if rw_RequestID r \<in> requests then Inl LDuplicateRequest
      else Inr (insert (rw_RequestID r) requests))"

definition validateReport :: "AuthorityReport \<Rightarrow> string set \<Rightarrow> ledger_error + string set" where
  "validateReport r reports =
     (if \<not> validText (ar_Instance r) \<or> \<not> validText (ar_GrantID r) \<or> \<not> validCapability (ar_RequestID r)
         \<or> ar_Sequence r \<le> 0 \<or> ar_Consumed r < 0 \<or> ar_Observed r < 0
         \<or> (\<not> ar_Overrun r \<and> ar_Observed r > ar_Consumed r) \<or> (ar_Overrun r \<and> \<not> ar_Closed r)
      then Inl LMalformedReport
      else if ar_GrantID r \<in> reports then Inl LDuplicateReport
      else Inr (insert (ar_GrantID r) reports))"

definition validateMeter ::
  "AuthorityMeter \<Rightarrow> (string \<times> string \<times> string) set \<Rightarrow> ledger_error + (string \<times> string \<times> string) set" where
  "validateMeter m meters =
     (if \<not> validText (am_Instance m) \<or> \<not> validText (am_Key m) \<or> \<not> validText (am_WindowID m)
         \<or> am_Sequence m \<le> 0 \<or> am_Consumed m < 0 \<or> am_Observed m < 0 \<or> am_Observed m > am_Consumed m
      then Inl LMalformedMeter
      else if (am_Instance m, am_Key m, am_WindowID m) \<in> meters then Inl LDuplicateMeter
      else Inr (insert (am_Instance m, am_Key m, am_WindowID m) meters))"

definition validateRequest :: "string \<Rightarrow> AuthorityRequest \<Rightarrow> ledger_error option" where
  "validateRequest owner req =
     (if aq_Protocol req \<noteq> AuthorityProtocol \<or> \<not> validText owner \<or> \<not> validText (aq_Instance req)
        then Some LInvalidIdentity
      else if length (aq_Requests req) + length (aq_Reports req) + length (aq_Meters req) > 1024
        then Some LBatchTooLarge
      else (case foldE validateGrantRequest (aq_Requests req) {} of
              Inl e \<Rightarrow> Some e
            | Inr _ \<Rightarrow>
                (case foldE validateReport (aq_Reports req) {} of
                   Inl e \<Rightarrow> Some e
                 | Inr _ \<Rightarrow>
                     (case foldE validateMeter (aq_Meters req) {} of
                        Inl e \<Rightarrow> Some e
                      | Inr _ \<Rightarrow> None))))"

section \<open>Accounts\<close>

text \<open>The transaction in progress: the tables and the locked accounts, a working copy.\<close>

record Tx =
  tx_db :: Ledger
  tx_accounts :: "(accountKey, account) mapping"

definition orderedKeys :: "accountKey list \<Rightarrow> accountKey list" where
  "orderedKeys ks = sort (remdups ks)"

definition accountOf :: "AuthorityBudget \<Rightarrow> accountKey" where
  "accountOf b = (ab_Key b, ab_WindowID b)"

definition newAccount :: "AuthorityBudget \<Rightarrow> account" where
  "newAccount b = \<lparr>hardEncumbered = 0, hardConsumed = 0, softConsumed = 0, softPending = 0,
     acceptsMeters = \<not> ab_HardCap b, frozen = False\<rparr>"

text \<open>The row a report refers to, selected by grant, owner, instance and request capability.\<close>

definition reportGrant :: "LedgerEnv \<Rightarrow> string \<Rightarrow> AuthorityReport \<Rightarrow> Ledger \<Rightarrow> ledger_error + grantState" where
  "reportGrant env owner r db =
     (case Mapping.lookup (lg_requests db) (owner, ar_Instance r, le_ch env (ar_RequestID r)) of
        None \<Rightarrow> Inl LUnknownGrant
      | Some g \<Rightarrow> if g_id g = ar_GrantID r \<and> g_amount g > 0 then Inr g else Inl LUnknownGrant)"

definition lockAccount ::
  "AuthorityBudget list \<Rightarrow> accountKey \<Rightarrow> Tx \<Rightarrow> ledger_error + Tx" where
  "lockAccount budgets k tx =
     (let active = map_of (rev (map (\<lambda>b. (accountOf b, b)) budgets)) k;
          rows = lg_accounts (tx_db tx);
          rows' = (case active of
                     None \<Rightarrow> rows
                   | Some b \<Rightarrow> if Mapping.lookup rows k = None then Mapping.update k (newAccount b) rows else rows)
      in case Mapping.lookup rows' k of
           None \<Rightarrow> Inl LUnknownWindow
         | Some a \<Rightarrow>
             (let a' = (case active of
                          None \<Rightarrow> a
                        | Some b \<Rightarrow> if \<not> ab_HardCap b then a\<lparr>acceptsMeters := True\<rparr> else a)
              in Inr \<lparr>tx_db = (tx_db tx)\<lparr>lg_accounts := rows'\<rparr>,
                      tx_accounts = Mapping.update k a' (tx_accounts tx)\<rparr>))"

definition collectReport ::
  "LedgerEnv \<Rightarrow> string \<Rightarrow> Ledger \<Rightarrow> AuthorityReport \<Rightarrow> accountKey list \<Rightarrow> ledger_error + accountKey list" where
  "collectReport env owner db r wanted =
     (case reportGrant env owner r db of
        Inl e \<Rightarrow> Inl e
      | Inr g \<Rightarrow> Inr (wanted @ [(g_key g, g_window g)]))"

definition lockAccounts ::
  "LedgerEnv \<Rightarrow> string \<Rightarrow> AuthorityReport list \<Rightarrow> AuthorityMeter list \<Rightarrow> AuthorityBudget list \<Rightarrow> Ledger
   \<Rightarrow> ledger_error + Tx" where
  "lockAccounts env owner reports meters budgets db =
     (case foldE (collectReport env owner db) reports (map accountOf budgets) of
        Inl e \<Rightarrow> Inl e
      | Inr wanted \<Rightarrow>
          foldE (lockAccount budgets)
            (orderedKeys (wanted @ map (\<lambda>m. (am_Key m, am_WindowID m)) meters))
            \<lparr>tx_db = db, tx_accounts = Mapping.empty\<rparr>)"

definition persistAccount :: "(accountKey, account) mapping \<Rightarrow> accountKey \<Rightarrow> Ledger \<Rightarrow> ledger_error + Ledger" where
  "persistAccount accounts k db =
     (case Mapping.lookup accounts k of
        None \<Rightarrow> Inl LPanic
      | Some a \<Rightarrow>
          (case checkedAdd (hardEncumbered a) (softConsumed a) of
             Inl e \<Rightarrow> Inl e
           | Inr _ \<Rightarrow>
               if softPending a < 0 \<or> softPending a > softConsumed a then Inl LInconsistentPending
               else Inr (db\<lparr>lg_accounts := Mapping.update k a (lg_accounts db)\<rparr>)))"

definition persistAccounts :: "Tx \<Rightarrow> ledger_error + Ledger" where
  "persistAccounts tx = foldE (persistAccount (tx_accounts tx)) (Mapping.ordered_keys (tx_accounts tx)) (tx_db tx)"

section \<open>Reports\<close>

text \<open>\<^verbatim>\<open>UPDATE authority_requests SET ... WHERE grant_id = id\<close>.\<close>

definition updateGrant :: "string \<Rightarrow> (grantState \<Rightarrow> grantState) \<Rightarrow> Ledger \<Rightarrow> Ledger" where
  "updateGrant gid f db =
     db\<lparr>lg_requests := Mapping.map_values (\<lambda>_ g. if g_id g = gid then f g else g) (lg_requests db)\<rparr>"

text \<open>The account after a new report: consumption grows, a closure returns what was not consumed.\<close>

definition chargeReport :: "grantState \<Rightarrow> AuthorityReport \<Rightarrow> account \<Rightarrow> ledger_error + account" where
  "chargeReport g r a =
     (let newConsumed = max (ar_Consumed r) (ar_Observed r);
          oldConsumed = max (g_consumed g) (g_observed g)
      in case checkedAdd (hardConsumed a) (sub64 newConsumed oldConsumed) of
           Inl e \<Rightarrow> Inl e
         | Inr hc \<Rightarrow>
             if \<not> ar_Closed r then Inr (a\<lparr>hardConsumed := hc\<rparr>)
             else
               (let previous = (if g_closed g
                                then if g_overrun g then max oldConsumed (g_amount g) else oldConsumed
                                else g_amount g);
                    retained = (if ar_Overrun r then max newConsumed (g_amount g) else newConsumed);
                    a' = a\<lparr>hardConsumed := hc, frozen := frozen a \<or> ar_Overrun r\<rparr>
                in if retained < previous then
                     if g_closed g then Inl LDoubleRefund
                     else if sub64 previous retained > hardEncumbered a then Inl LInconsistentRefund
                     else Inr (a'\<lparr>hardEncumbered := sub64 (hardEncumbered a) (sub64 previous retained)\<rparr>)
                   else (case checkedAdd (hardEncumbered a) (sub64 retained previous) of
                           Inl e \<Rightarrow> Inl e
                         | Inr he \<Rightarrow> Inr (a'\<lparr>hardEncumbered := he\<rparr>))))"

text \<open>A terminal copy from an earlier boot of a grant that is already closed.\<close>

definition recoveredClosure :: "string \<Rightarrow> grantState \<Rightarrow> AuthorityReport \<Rightarrow> bool" where
  "recoveredClosure currentInstance g r \<longleftrightarrow>
     g_closed g \<and> ar_Closed r \<and> ar_Instance r \<noteq> currentInstance \<and> \<not> ar_Overrun r
     \<and> (ar_Consumed r = g_amount g \<or> ar_Consumed r = g_consumed g)
     \<and> ar_Observed r \<le> max (g_consumed g) (g_observed g)"

definition recoveryBurn :: "string \<Rightarrow> grantState \<Rightarrow> AuthorityReport \<Rightarrow> bool" where
  "recoveryBurn currentInstance g r \<longleftrightarrow>
     \<not> g_closed g \<and> ar_Closed r \<and> ar_Instance r \<noteq> currentInstance \<and> \<not> ar_Overrun r
     \<and> ar_Consumed r = g_amount g"

definition reportRejected :: "bool \<Rightarrow> grantState \<Rightarrow> AuthorityReport \<Rightarrow> ledger_error option" where
  "reportRejected burned g r =
     (let same = (ar_Consumed r = g_consumed g \<and> ar_Observed r = g_observed g
                  \<and> ar_Closed r = g_closed g \<and> ar_Overrun r = g_overrun g)
      in if (\<not> burned \<and> (ar_Sequence r < g_seq g \<or> (ar_Sequence r = g_seq g \<and> \<not> same)))
           \<or> ar_Consumed r < g_consumed g \<or> ar_Observed r < g_observed g
           \<or> (g_closed g \<and> \<not> same \<and> \<not> (ar_Closed r \<and> ar_Overrun r))
         then Some LNonmonotonicReport
         else if \<not> ar_Overrun r \<and> ar_Consumed r > g_amount g then Some LReportExceedsGrant
         else None)"

definition applyReport ::
  "LedgerEnv \<Rightarrow> string \<Rightarrow> string \<Rightarrow> AuthorityReport \<Rightarrow> Tx \<Rightarrow> ledger_error + Tx" where
  "applyReport env owner currentInstance r0 tx =
     (case reportGrant env owner r0 (tx_db tx) of
        Inl e \<Rightarrow> Inl e
      | Inr g \<Rightarrow>
          if recoveredClosure currentInstance g r0 then
            Inr (tx\<lparr>tx_db := updateGrant (g_id g)
                   (\<lambda>row. row\<lparr>g_seq := max (g_seq row) (ar_Sequence r0),
                              g_observed := max (g_observed row) (ar_Observed r0)\<rparr>) (tx_db tx)\<rparr>)
          else
            (let burned = recoveryBurn currentInstance g r0;
                 r = (if burned then r0\<lparr>ar_Sequence := max (ar_Sequence r0) (g_seq g),
                                      ar_Observed := max (ar_Observed r0) (g_observed g)\<rparr> else r0)
             in case reportRejected burned g r of
                  Some e \<Rightarrow> Inl e
                | None \<Rightarrow>
                    if ar_Sequence r = g_seq g \<and> \<not> burned then Inr tx
                    else (case Mapping.lookup (tx_accounts tx) (g_key g, g_window g) of
                            None \<Rightarrow> Inl LPanic
                          | Some a \<Rightarrow>
                              (case chargeReport g r a of
                                 Inl e \<Rightarrow> Inl e
                               | Inr a' \<Rightarrow>
                                   Inr \<lparr>tx_db = updateGrant (g_id g)
                                          (\<lambda>row. row\<lparr>g_seq := ar_Sequence r, g_consumed := ar_Consumed r,
                                             g_observed := ar_Observed r, g_closed := ar_Closed r,
                                             g_overrun := ar_Overrun r\<rparr>) (tx_db tx),
                                        tx_accounts = Mapping.update (g_key g, g_window g) a' (tx_accounts tx)\<rparr>))))"

section \<open>Meters\<close>

definition applyMeter :: "string \<Rightarrow> string \<Rightarrow> AuthorityMeter \<Rightarrow> Tx \<Rightarrow> ledger_error + Tx" where
  "applyMeter owner currentInstance m tx =
     (let k = (am_Key m, am_WindowID m); row = (owner, am_Instance m, am_Key m, am_WindowID m) in
      case Mapping.lookup (tx_accounts tx) k of
        None \<Rightarrow> Inl LNoSoftWindow
      | Some a \<Rightarrow>
          if \<not> acceptsMeters a then Inl LNoSoftWindow
          else
            (case (case Mapping.lookup (lg_meters (tx_db tx)) row of None \<Rightarrow> (0, 0, 0) | Some v \<Rightarrow> v) of
               (seq, consumed, observed) \<Rightarrow>
                 (let recover = (am_Instance m \<noteq> currentInstance);
                      s = (if recover then max (am_Sequence m) seq else am_Sequence m);
                      c = (if recover then max (am_Consumed m) consumed else am_Consumed m);
                      b = (if recover then max (am_Observed m) observed else am_Observed m)
                  in if \<not> recover \<and> (s < seq \<or> c < consumed \<or> b < observed
                         \<or> (s = seq \<and> (c \<noteq> consumed \<or> b \<noteq> observed))) then Inl LNonmonotonicMeter
                     else if s = seq \<and> c = consumed \<and> b = observed then Inr tx
                     else (case checkedAdd (softConsumed a) (sub64 c consumed) of
                             Inl e \<Rightarrow> Inl e
                           | Inr sc \<Rightarrow>
                               Inr \<lparr>tx_db = (tx_db tx)\<lparr>lg_meters := Mapping.update row (s, c, b) (lg_meters (tx_db tx))\<rparr>,
                                    tx_accounts = Mapping.update k (a\<lparr>softConsumed := sc\<rparr>) (tx_accounts tx)\<rparr>))))"

section \<open>Grants\<close>

text \<open>The grants and denials of the response, in the order they are appended.\<close>

type_synonym answers = "AuthorityGrant list \<times> AuthorityDenial list"

definition appendGrantResult :: "AuthorityGrantRequest \<Rightarrow> grantState \<Rightarrow> answers \<Rightarrow> answers" where
  "appendGrantResult r g out =
     (case out of (grants, denied) \<Rightarrow>
        if g_denial g \<noteq> [] \<or> g_closed g then
          (grants, denied @ [\<lparr>ad_RequestID = rw_RequestID r, ad_Key = rw_Key r,
             ad_Reason = (if g_closed g then ''closed_grant'' else g_denial g)\<rparr>])
        else
          (grants @ [\<lparr>ag_ID = g_id g, ag_RequestID = rw_RequestID r, ag_Key = g_key g, ag_Revision = g_revision g,
             ag_WindowID = g_window g, ag_Amount = g_amount g,
             ag_ExpiresAt = (case g_expires g of None \<Rightarrow> 0 | Some t \<Rightarrow> t)\<rparr>], denied))"

definition grantExpiry :: "gotime \<Rightarrow> AuthorityBudget \<Rightarrow> gotime" where
  "grantExpiry now b =
     (if ab_LeaseSeconds b \<le> time_sub (ab_WindowEnd b) now sdiv Second
      then time_add now (mul64 (ab_LeaseSeconds b) Second)
      else ab_WindowEnd b)"

text \<open>
  What the request is given: a denial with its reason, or an amount, with the account after
  the reservation.
\<close>

definition decideGrant ::
  "gotime \<Rightarrow> AuthorityBudget option \<Rightarrow> AuthorityGrantRequest \<Rightarrow> grantState \<Rightarrow> (accountKey, account) mapping
   \<Rightarrow> ledger_error + grantState \<times> (accountKey, account) mapping" where
  "decideGrant now budget r g accounts =
     (case budget of
        None \<Rightarrow> Inr (g\<lparr>g_denial := ''unknown_budget''\<rparr>, accounts)
      | Some b \<Rightarrow>
          if ab_Revision b \<noteq> rw_Revision r \<or> ab_WindowID b \<noteq> rw_WindowID r
            then Inr (g\<lparr>g_denial := ''stale_budget''\<rparr>, accounts)
          else if \<not> ab_HardCap b then Inr (g\<lparr>g_denial := ''soft_budget''\<rparr>, accounts)
          else (case Mapping.lookup accounts (accountOf b) of
                  None \<Rightarrow> Inl LPanic
                | Some a \<Rightarrow>
                    (case checkedAdd (hardEncumbered a) (softConsumed a) of
                       Inl e \<Rightarrow> Inl e
                     | Inr encumbered \<Rightarrow>
                         if frozen a then Inr (g\<lparr>g_denial := ''frozen_window''\<rparr>, accounts)
                         else if encumbered \<ge> ab_LimitMicroUSD b
                           \<or> sub64 (ab_LimitMicroUSD b) encumbered < rw_WantMicroUSD r
                           then Inr (g\<lparr>g_denial := ''exhausted''\<rparr>, accounts)
                         else
                           (let amount = min (max (ab_GrantMicroUSD b) (rw_WantMicroUSD r))
                                  (sub64 (ab_LimitMicroUSD b) encumbered)
                            in if amount \<le> 0 then Inl LInvalidGrantAmount
                               else (case checkedAdd (hardEncumbered a) amount of
                                       Inl e \<Rightarrow> Inl e
                                     | Inr he \<Rightarrow>
                                         Inr (g\<lparr>g_amount := amount, g_expires := Some (grantExpiry now b)\<rparr>,
                                              Mapping.update (accountOf b) (a\<lparr>hardEncumbered := he\<rparr>) accounts))))))"

definition freshGrant :: "AuthorityGrantRequest \<Rightarrow> string \<Rightarrow> grantState" where
  "freshGrant r gid =
     \<lparr>g_key = rw_Key r, g_window = rw_WindowID r, g_revision = rw_Revision r, g_id = gid, g_denial = [],
      g_want = rw_WantMicroUSD r, g_amount = 0, g_seq = 0, g_consumed = 0, g_observed = 0,
      g_expires = None, g_closed = False, g_overrun = False\<rparr>"

text \<open>\<^verbatim>\<open>grant_id TEXT UNIQUE\<close>: an insert with an identity in use is refused by the database.\<close>

definition grantIDs :: "Ledger \<Rightarrow> string set" where
  "grantIDs db = (\<lambda>k. g_id (the (Mapping.lookup (lg_requests db) k))) ` Mapping.keys (lg_requests db)"

definition issueGrant ::
  "LedgerEnv \<Rightarrow> (AuthorityGrantRequest \<Rightarrow> string option) \<Rightarrow> AuthorityBudget list \<Rightarrow> gotime \<Rightarrow> string \<Rightarrow> string
   \<Rightarrow> AuthorityGrantRequest \<Rightarrow> Tx \<times> answers \<Rightarrow> ledger_error + Tx \<times> answers" where
  "issueGrant env newID budgets now owner instance r st =
     (case st of (tx, out) \<Rightarrow>
        let db = tx_db tx; row = (owner, instance, le_ch env (rw_RequestID r));
            current = map_of (rev (map (\<lambda>b. (ab_Key b, b)) budgets));
            old = Mapping.lookup (lg_requests db) row
        in case old of
             Some g \<Rightarrow>
               if g_key g \<noteq> rw_Key r \<or> g_window g \<noteq> rw_WindowID r \<or> g_revision g \<noteq> rw_Revision r
                 \<or> g_want g \<noteq> rw_WantMicroUSD r then Inl LConflictingReplay
               else if g_amount g > 0 then Inr (tx, appendGrantResult r g out)
               else (case decideGrant now (current (rw_Key r)) r (freshGrant r (g_id g)) (tx_accounts tx) of
                       Inl e \<Rightarrow> Inl e
                     | Inr (g', accounts) \<Rightarrow>
                         Inr (\<lparr>tx_db = db\<lparr>lg_requests := Mapping.update row
                                 (g\<lparr>g_amount := g_amount g', g_expires := g_expires g', g_denial := g_denial g'\<rparr>)
                                 (lg_requests db)\<rparr>, tx_accounts = accounts\<rparr>,
                              appendGrantResult r g' out))
           | None \<Rightarrow>
               (case decideGrant now (current (rw_Key r)) r (freshGrant r []) (tx_accounts tx) of
                  Inl e \<Rightarrow> Inl e
                | Inr (g', accounts) \<Rightarrow>
                    (case newID r of
                       None \<Rightarrow> Inl LNonce
                     | Some gid \<Rightarrow>
                         if gid \<in> grantIDs db then Inl LDuplicateGrantID
                         else Inr (\<lparr>tx_db = db\<lparr>lg_requests := Mapping.update row (g'\<lparr>g_id := gid\<rparr>) (lg_requests db)\<rparr>,
                                    tx_accounts = accounts\<rparr>,
                                   appendGrantResult r (g'\<lparr>g_id := gid\<rparr>) out))))"

section \<open>Tiers\<close>

definition crossedThreshold :: "int \<Rightarrow> V1BudgetTier list \<Rightarrow> int" where
  "crossedThreshold percent tiers =
     fold (\<lambda>t th. if percent \<ge> vt_ThresholdPercent t then vt_ThresholdPercent t else th) tiers 0"

definition selectedTier :: "int \<Rightarrow> V1BudgetTier list \<Rightarrow> V1BudgetTier option" where
  "selectedTier threshold tiers =
     fold (\<lambda>t best. if vt_ThresholdPercent t \<le> threshold then Some t else best) tiers None"

definition activeTier ::
  "AuthorityBudget list \<Rightarrow> (accountKey, account) mapping \<Rightarrow> GovernancePolicy \<Rightarrow> V1Rule
   \<Rightarrow> Ledger \<times> ActiveTier list \<Rightarrow> ledger_error + Ledger \<times> ActiveTier list" where
  "activeTier budgets accounts doc rule st =
     (case st of (db, out) \<Rightarrow>
        case Option.bind (wr_Routing rule) rt_BudgetTiers of
          None \<Rightarrow> Inr (db, out)
        | Some tr \<Rightarrow>
            (case map_of (rev (map (\<lambda>b. ((ab_Policy b, ab_Rule b), b)) budgets))
                    (om_Name (gp_Metadata doc), bt_BudgetRef tr) of
               None \<Rightarrow> Inl LNoFiniteWindow
             | Some b \<Rightarrow>
                 (case Mapping.lookup accounts (accountOf b) of
                    None \<Rightarrow> Inl LPanic
                  | Some a \<Rightarrow>
                      (case UtilizedPercent
                              (if ab_HardCap b then hardEncumbered a else hardConsumed a)
                              (if ab_HardCap b then softConsumed a else sub64 (softConsumed a) (softPending a))
                              (ab_LimitMicroUSD b) of
                         None \<Rightarrow> Inl LPanic
                       | Some percent \<Rightarrow>
                           (let row = (ab_Key b, ab_WindowID b, om_Name (gp_Metadata doc), wr_Name rule);
                                threshold = crossedThreshold percent (bt_Tiers tr);
                                tiers = (if threshold > 0
                                         then Mapping.update row
                                           (case Mapping.lookup (lg_tiers db) row of
                                              None \<Rightarrow> threshold | Some old \<Rightarrow> max old threshold) (lg_tiers db)
                                         else lg_tiers db);
                                db' = db\<lparr>lg_tiers := tiers\<rparr>
                            in case Mapping.lookup tiers row of
                                 None \<Rightarrow> Inr (db', out)
                               | Some kept \<Rightarrow>
                                   (case selectedTier kept (bt_Tiers tr) of
                                      None \<Rightarrow> Inr (db', out)
                                    | Some t \<Rightarrow>
                                        Inr (db', out @
                                          [\<lparr>at_Policy = om_Name (gp_Metadata doc), at_Rule = wr_Name rule,
                                            at_BudgetRef = bt_BudgetRef tr,
                                            at_Team = v1s_Team (gs_Subject (gp_Spec doc)),
                                            at_Threshold = vt_ThresholdPercent t, at_Substitute = vt_Substitute t,
                                            at_EnforceTargets = bt_EnforceTargets tr,
                                            at_User = v1s_User (gs_Subject (gp_Spec doc))\<rparr>])))))))"

definition activeTiers ::
  "GovernancePolicy list \<Rightarrow> AuthorityBudget list \<Rightarrow> (accountKey, account) mapping \<Rightarrow> Ledger
   \<Rightarrow> ledger_error + Ledger \<times> ActiveTier list" where
  "activeTiers docs budgets accounts db =
     foldE (\<lambda>doc. foldE (activeTier budgets accounts doc) (gs_Rules (gp_Spec doc))) docs (db, [])"

section \<open>Sync\<close>

record SyncResponse =
  sr_Policies :: "GovernancePolicy list"
  sr_Generation :: string
  sr_SyncIntervalSeconds :: int
  sr_AuthorityID :: string
  sr_Authority :: AuthorityResponse
  sr_ActiveTiers :: "ActiveTier list"

text \<open>The rows of the policy table are given in the order the database returns them.\<close>

definition readPolicy ::
  "LedgerEnv \<Rightarrow> string \<times> string \<Rightarrow> GovernancePolicy list \<Rightarrow> ledger_error + GovernancePolicy list" where
  "readPolicy env row docs =
     (case row of (name, body) \<Rightarrow>
        (case le_parse env body of
           None \<Rightarrow> Inl LPolicyInvalid
         | Some parsed \<Rightarrow>
             if length parsed \<noteq> 1 \<or> om_Name (gp_Metadata (hd parsed)) \<noteq> name \<or> name = []
             then Inl LPolicyIdentity else Inr (docs @ [hd parsed])))"

definition readPolicies :: "LedgerEnv \<Rightarrow> (string \<times> string) list \<Rightarrow> ledger_error + GovernancePolicy list" where
  "readPolicies env rows = foldE (readPolicy env) rows []"

definition syncInterval :: "AuthorityBudget list \<Rightarrow> int" where
  "syncInterval budgets =
     fold (\<lambda>b i. let cadence = max 1 (ab_LeaseSeconds b sdiv 3) in if cadence < i then cadence else i) budgets 10"

definition reportAck :: "AuthorityReport \<Rightarrow> AuthorityAck" where
  "reportAck r = \<lparr>ak_Instance = ar_Instance r, ak_ID = ar_GrantID r, ak_Sequence = ar_Sequence r\<rparr>"

definition meterAck :: "AuthorityMeter \<Rightarrow> AuthorityAck" where
  "meterAck m = \<lparr>ak_Instance = am_Instance m, ak_ID = am_WindowID m, ak_Sequence = am_Sequence m\<rparr>"

text \<open>The accounting part of the transaction: reports, then meters, then grants.\<close>

definition syncAccounts ::
  "LedgerEnv \<Rightarrow> (AuthorityGrantRequest \<Rightarrow> string option) \<Rightarrow> AuthorityBudget list \<Rightarrow> gotime \<Rightarrow> string
   \<Rightarrow> AuthorityRequest \<Rightarrow> Tx \<Rightarrow> ledger_error + Tx \<times> answers" where
  "syncAccounts env newID budgets now dataplane req tx0 =
     (case foldE (applyReport env dataplane (aq_Instance req)) (aq_Reports req) tx0 of
        Inl e \<Rightarrow> Inl e
      | Inr tx1 \<Rightarrow>
          (case foldE (applyMeter dataplane (aq_Instance req)) (aq_Meters req) tx1 of
             Inl e \<Rightarrow> Inl e
           | Inr tx2 \<Rightarrow>
               foldE (issueGrant env newID budgets now dataplane (aq_Instance req)) (aq_Requests req) (tx2, ([], []))))"

definition syncTransaction ::
  "LedgerEnv \<Rightarrow> (AuthorityGrantRequest \<Rightarrow> string option) \<Rightarrow> string \<Rightarrow> (string \<times> string) list \<Rightarrow> gotime \<Rightarrow> gotime
   \<Rightarrow> string \<Rightarrow> AuthorityRequest \<Rightarrow> Ledger \<Rightarrow> ledger_error + Ledger \<times> SyncResponse" where
  "syncTransaction env newID authorityID rows now1 now dataplane req db =
     (case readPolicies env rows of
        Inl e \<Rightarrow> Inl e
      | Inr docs \<Rightarrow>
          (case AuthorityBudgets (le_hs env) (le_hb env) docs now1 of
             Inl e \<Rightarrow> Inl (LDefinitions e)
           | Inr budgets \<Rightarrow>
               (case lockAccounts env dataplane (aq_Reports req) (aq_Meters req) budgets
                       (db\<lparr>lg_dataplanes := insert dataplane (lg_dataplanes db)\<rparr>) of
                  Inl e \<Rightarrow> Inl e
                | Inr tx0 \<Rightarrow>
                    if list_ex (\<lambda>b. \<not> now < ab_WindowEnd b \<or> now < ab_WindowStart b) budgets then Inl LWindowChanged
                    else
                      (case syncAccounts env newID budgets now dataplane req tx0 of
                         Inl e \<Rightarrow> Inl e
                       | Inr (tx, (grants, denied)) \<Rightarrow>
                           (case persistAccounts tx of
                              Inl e \<Rightarrow> Inl e
                            | Inr db' \<Rightarrow>
                                (case activeTiers docs budgets (tx_accounts tx) db' of
                                   Inl e \<Rightarrow> Inl e
                                 | Inr (db'', tiers) \<Rightarrow>
                                     Inr (db'',
                                       \<lparr>sr_Policies = docs, sr_Generation = le_gen env docs,
                                        sr_SyncIntervalSeconds = syncInterval budgets,
                                        sr_AuthorityID = authorityID,
                                        sr_Authority =
                                          \<lparr>as_Protocol = AuthorityProtocol, as_ServerTime = now, as_Budgets = budgets,
                                           as_Grants = grants,
                                           as_ReportAcks = map reportAck (aq_Reports req),
                                           as_MeterAcks = map meterAck (aq_Meters req), as_Denied = denied\<rparr>,
                                        sr_ActiveTiers = tiers\<rparr>)))))))"

definition runTransaction :: "commit \<Rightarrow> (Ledger \<Rightarrow> ledger_error + Ledger \<times> 'r) \<Rightarrow> Ledger \<Rightarrow> Ledger \<times> (ledger_error + 'r)" where
  "runTransaction oc body db =
     (if oc = Aborts then (db, Inl LDatabase)
      else (case body db of
              Inl e \<Rightarrow> (db, Inl e)
            | Inr (db', res) \<Rightarrow>
                (case oc of
                   CommitLost applied \<Rightarrow> (if applied then db' else db, Inl LDatabase)
                 | _ \<Rightarrow> (db', Inr res))))"

definition Sync ::
  "LedgerEnv \<Rightarrow> (AuthorityGrantRequest \<Rightarrow> string option) \<Rightarrow> string \<Rightarrow> (string \<times> string) list \<Rightarrow> gotime \<Rightarrow> gotime
   \<Rightarrow> commit \<Rightarrow> string \<Rightarrow> AuthorityRequest \<Rightarrow> Ledger \<Rightarrow> Ledger \<times> (ledger_error + SyncResponse)" where
  "Sync env newID authorityID rows now1 now oc dataplane req db =
     (case validateRequest dataplane req of
        Some e \<Rightarrow> (db, Inl e)
      | None \<Rightarrow> runTransaction oc (syncTransaction env newID authorityID rows now1 now dataplane req) db)"

end
