(* ===== verification/LedgerInv.thy ===== *)
theory LedgerInv
  imports Ledger
begin

text \<open>
  The accounting invariant of the ledger: what an account has encumbered is exactly what its
  grants may still cost (the whole amount of an open grant, the settled consumption of a
  closed one, at least the amount of an overrun one) plus the liabilities other parts of the
  system booked on it, and likewise for consumption and for soft meters. Every phase of
  \<open>Sync\<close> keeps it; \<open>view\<close> is the account as the transaction sees it, the working copy
  where there is one.
\<close>

text \<open>Keys are pairs; quantifiers over them are kept as they are.\<close>

declare split_paired_All [simp del] split_paired_Ex [simp del]

section \<open>Definitions\<close>

definition spent :: "grantState \<Rightarrow> int" where
  "spent g = max (g_consumed g) (g_observed g)"

definition liability :: "grantState \<Rightarrow> int" where
  "liability g =
     (if \<not> g_closed g then g_amount g
      else if g_overrun g then max (spent g) (g_amount g) else spent g)"

definition grantTotal :: "(grantState \<Rightarrow> int) \<Rightarrow> accountKey \<Rightarrow> Ledger \<Rightarrow> int" where
  "grantTotal f k db = mtotal (\<lambda>_ g. if (g_key g, g_window g) = k then f g else 0) (lg_requests db)"

definition meterTotal :: "accountKey \<Rightarrow> Ledger \<Rightarrow> int" where
  "meterTotal k db = mtotal (\<lambda>(_, _, b, w) (_, c, _). if (b, w) = k then c else 0) (lg_meters db)"

definition rowOK :: "grantState \<Rightarrow> bool" where
  "rowOK g \<longleftrightarrow>
     0 \<le> g_amount g \<and> in64 (g_amount g) \<and> 0 \<le> g_consumed g \<and> in64 (g_consumed g)
     \<and> 0 \<le> g_observed g \<and> in64 (g_observed g) \<and> (g_overrun g \<longrightarrow> g_closed g)
     \<and> (\<not> g_overrun g \<longrightarrow> g_observed g \<le> g_consumed g \<and> g_consumed g \<le> g_amount g)
     \<and> (if g_amount g = 0 then \<not> g_closed g \<and> g_denial g \<noteq> [] \<and> g_expires g = None
        else g_denial g = [] \<and> g_expires g \<noteq> None)"

definition zeroAccount :: account where
  "zeroAccount = \<lparr>hardEncumbered = 0, hardConsumed = 0, softConsumed = 0, softPending = 0,
     acceptsMeters = False, frozen = False\<rparr>"

definition accountAt :: "(accountKey, account) mapping \<Rightarrow> accountKey \<Rightarrow> account" where
  "accountAt m k = (case Mapping.lookup m k of None \<Rightarrow> zeroAccount | Some a \<Rightarrow> a)"

definition view :: "Tx \<Rightarrow> accountKey \<Rightarrow> account" where
  "view tx k =
     (case Mapping.lookup (tx_accounts tx) k of Some a \<Rightarrow> a | None \<Rightarrow> accountAt (lg_accounts (tx_db tx)) k)"

definition accountOK :: "account \<Rightarrow> bool" where
  "accountOK a \<longleftrightarrow>
     0 \<le> hardEncumbered a \<and> in64 (hardEncumbered a) \<and> 0 \<le> hardConsumed a \<and> in64 (hardConsumed a)
     \<and> 0 \<le> softConsumed a \<and> in64 (softConsumed a) \<and> 0 \<le> softPending a \<and> softPending a \<le> softConsumed a"

text \<open>The liabilities other parts of the system have on an account.\<close>

record external =
  x_encumbered :: "accountKey \<Rightarrow> int"
  x_consumed :: "accountKey \<Rightarrow> int"
  x_soft :: "accountKey \<Rightarrow> int"
  x_pending :: "accountKey \<Rightarrow> int"

definition balanced :: "external \<Rightarrow> Ledger \<Rightarrow> accountKey \<Rightarrow> account \<Rightarrow> bool" where
  "balanced x db k a \<longleftrightarrow>
     accountOK a \<and> hardEncumbered a = grantTotal liability k db + x_encumbered x k
     \<and> hardConsumed a = grantTotal spent k db + x_consumed x k
     \<and> softConsumed a = meterTotal k db + x_soft x k \<and> softPending a = x_pending x k"

definition uniqueIDs :: "Ledger \<Rightarrow> bool" where
  "uniqueIDs db \<longleftrightarrow>
     (\<forall>row row' g g'. Mapping.lookup (lg_requests db) row = Some g \<longrightarrow> Mapping.lookup (lg_requests db) row' = Some g'
        \<longrightarrow> g_id g = g_id g' \<longrightarrow> row = row')"

definition tablesOK :: "Ledger \<Rightarrow> bool" where
  "tablesOK db \<longleftrightarrow>
     finite (Mapping.keys (lg_requests db)) \<and> finite (Mapping.keys (lg_meters db)) \<and> uniqueIDs db
     \<and> (\<forall>row g. Mapping.lookup (lg_requests db) row = Some g \<longrightarrow> rowOK g)
     \<and> (\<forall>row s c b. Mapping.lookup (lg_meters db) row = Some (s, c, b) \<longrightarrow> 0 \<le> c \<and> in64 c)"

definition txInv :: "external \<Rightarrow> Tx \<Rightarrow> bool" where
  "txInv x tx \<longleftrightarrow>
     finite (Mapping.keys (tx_accounts tx)) \<and> tablesOK (tx_db tx) \<and> (\<forall>k. balanced x (tx_db tx) k (view tx k))"

definition ledgerInv :: "external \<Rightarrow> Ledger \<Rightarrow> bool" where
  "ledgerInv x db \<longleftrightarrow> tablesOK db \<and> (\<forall>k. balanced x db k (accountAt (lg_accounts db) k))"

text \<open>Requests as they arrive: every number is an \<^verbatim>\<open>int64\<close>.\<close>

definition report64 :: "AuthorityReport \<Rightarrow> bool" where
  "report64 r \<longleftrightarrow> in64 (ar_Sequence r) \<and> in64 (ar_Consumed r) \<and> in64 (ar_Observed r)"

definition meter64 :: "AuthorityMeter \<Rightarrow> bool" where
  "meter64 m \<longleftrightarrow> in64 (am_Sequence m) \<and> in64 (am_Consumed m) \<and> in64 (am_Observed m)"

definition request64 :: "AuthorityRequest \<Rightarrow> bool" where
  "request64 req \<longleftrightarrow>
     list_all report64 (aq_Reports req) \<and> list_all meter64 (aq_Meters req)
     \<and> list_all (\<lambda>r. in64 (rw_WantMicroUSD r)) (aq_Requests req)"

section \<open>Updates of one row\<close>

lemma grantTotal_update:
  assumes "finite (Mapping.keys (lg_requests db))"
  shows "grantTotal f k (db\<lparr>lg_requests := Mapping.update row g (lg_requests db)\<rparr>) =
    grantTotal f k db
      - (case Mapping.lookup (lg_requests db) row of
           None \<Rightarrow> 0 | Some o' \<Rightarrow> if (g_key o', g_window o') = k then f o' else 0)
      + (if (g_key g, g_window g) = k then f g else 0)"
  using assms by (simp add: grantTotal_def mtotal_update)

lemma updateGrant_row:
  assumes "uniqueIDs db" "Mapping.lookup (lg_requests db) row = Some g"
  shows "updateGrant (g_id g) f db = db\<lparr>lg_requests := Mapping.update row (f g) (lg_requests db)\<rparr>"
proof -
  have "Mapping.map_values (\<lambda>_ h. if g_id h = g_id g then f h else h) (lg_requests db) =
      Mapping.update row (f g) (lg_requests db)"
  proof (rule mapping_eqI)
    fix r
    have "r = row" if "Mapping.lookup (lg_requests db) r = Some h" "g_id h = g_id g" for h
      using assms that unfolding uniqueIDs_def by blast
    then show "Mapping.lookup (Mapping.map_values (\<lambda>_ h. if g_id h = g_id g then f h else h) (lg_requests db)) r =
        Mapping.lookup (Mapping.update row (f g) (lg_requests db)) r"
      using assms(2) by (cases "Mapping.lookup (lg_requests db) r") (auto simp: lookup_map_values lookup_update')
  qed
  then show ?thesis by (simp add: updateGrant_def)
qed

text \<open>An identity no other row uses, and a row that carries no authority yet.\<close>

definition freshID :: "Ledger \<Rightarrow> string \<times> string \<times> string \<Rightarrow> string \<Rightarrow> bool" where
  "freshID db row gid \<longleftrightarrow> (\<forall>row' h. Mapping.lookup (lg_requests db) row' = Some h \<longrightarrow> g_id h = gid \<longrightarrow> row' = row)"

definition freeRow :: "Ledger \<Rightarrow> string \<times> string \<times> string \<Rightarrow> bool" where
  "freeRow db row \<longleftrightarrow> (\<forall>g. Mapping.lookup (lg_requests db) row = Some g \<longrightarrow> g_amount g = 0)"

lemma row_update_tables:
  assumes "tablesOK db" "rowOK g'" and "freshID db row (g_id g')"
  shows "tablesOK (db\<lparr>lg_requests := Mapping.update row g' (lg_requests db)\<rparr>)"
  using assms unfolding tablesOK_def uniqueIDs_def freshID_def by (auto simp: lookup_update' split: if_splits)

text \<open>
  A grant that changes its liability and its consumption by what its account records keeps
  every account balanced.
\<close>

lemma row_update_balanced:
  assumes inv: "txInv x tx"
    and row: "Mapping.lookup (lg_requests (tx_db tx)) row = Some g"
    and ok: "rowOK g'" "g_id g' = g_id g" "g_key g' = g_key g" "g_window g' = g_window g"
    and acc: "accountOK a'"
      "hardEncumbered a' = hardEncumbered (view tx (g_key g, g_window g)) - liability g + liability g'"
      "hardConsumed a' = hardConsumed (view tx (g_key g, g_window g)) - spent g + spent g'"
      "softConsumed a' = softConsumed (view tx (g_key g, g_window g))"
      "softPending a' = softPending (view tx (g_key g, g_window g))"
  shows "txInv x \<lparr>tx_db = (tx_db tx)\<lparr>lg_requests := Mapping.update row g' (lg_requests (tx_db tx))\<rparr>,
    tx_accounts = Mapping.update (g_key g, g_window g) a' (tx_accounts tx)\<rparr>" (is "txInv x ?tx'")
proof -
  let ?db = "tx_db tx" and ?db' = "(tx_db tx)\<lparr>lg_requests := Mapping.update row g' (lg_requests (tx_db tx))\<rparr>"
  have tables: "tablesOK ?db" and bal: "balanced x ?db k (view tx k)" for k
    using inv by (simp_all add: txInv_def)
  have fin: "finite (Mapping.keys (lg_requests ?db))" and uniq: "uniqueIDs ?db"
    using tables by (simp_all add: tablesOK_def)
  have "tablesOK ?db'"
    by (rule row_update_tables [OF tables ok(1)]) (use uniq row ok(2) in \<open>auto simp: uniqueIDs_def freshID_def\<close>)
  moreover have "balanced x ?db' k (view ?tx' k)" for k
  proof (cases "k = (g_key g, g_window g)")
    case True
    then show ?thesis
      using bal [of k] acc ok(3,4) row
      by (simp add: balanced_def view_def lookup_update' grantTotal_update [OF fin] meterTotal_def)
  next
    case False
    then have "view ?tx' k = view tx k" by (simp add: view_def lookup_update' split: option.split)
    then show ?thesis
      using bal [of k] False ok(3,4) row
      by (auto simp: balanced_def grantTotal_update [OF fin] meterTotal_def)
  qed
  ultimately show ?thesis using inv by (simp add: txInv_def)
qed

lemma view_balanced: "txInv x tx \<Longrightarrow> Mapping.lookup (tx_accounts tx) k = Some a \<Longrightarrow> balanced x (tx_db tx) k a"
  unfolding txInv_def view_def by (metis option.simps(5))

section \<open>Reports\<close>

text \<open>What validation guarantees of each report of the batch.\<close>

definition reportOK :: "AuthorityReport \<Rightarrow> bool" where
  "reportOK r \<longleftrightarrow>
     0 \<le> ar_Consumed r \<and> in64 (ar_Consumed r) \<and> 0 \<le> ar_Observed r \<and> in64 (ar_Observed r)
     \<and> (\<not> ar_Overrun r \<longrightarrow> ar_Observed r \<le> ar_Consumed r) \<and> (ar_Overrun r \<longrightarrow> ar_Closed r)"

definition reported :: "AuthorityReport \<Rightarrow> grantState \<Rightarrow> grantState" where
  "reported r g = g\<lparr>g_seq := ar_Sequence r, g_consumed := ar_Consumed r,
     g_observed := ar_Observed r, g_closed := ar_Closed r, g_overrun := ar_Overrun r\<rparr>"

lemma charge_outcome:
  assumes g: "rowOK g" "0 < g_amount g" and r: "reportOK r" and a: "accountOK a"
    and accepted: "reportRejected b g r = None" and charge: "chargeReport g r a = Inr a'"
  shows "rowOK (reported r g)" and "accountOK a'"
    and "hardEncumbered a' = hardEncumbered a - liability g + liability (reported r g)"
    and "hardConsumed a' = hardConsumed a - spent g + spent (reported r g)"
    and "softConsumed a' = softConsumed a"
    and "frozen a' = (frozen a \<or> ar_Overrun r)"
    and "\<not> ar_Overrun r \<Longrightarrow> hardEncumbered a' \<le> hardEncumbered a"
    and "softPending a' = softPending a"
proof -
  let ?new = "max (ar_Consumed r) (ar_Observed r)"
  have mono: "g_consumed g \<le> ar_Consumed r" "g_observed g \<le> ar_Observed r"
    and bound: "\<not> ar_Overrun r \<Longrightarrow> ar_Consumed r \<le> g_amount g"
    and closed: "g_closed g \<Longrightarrow> ar_Closed r" "g_overrun g \<Longrightarrow> ar_Overrun r"
      "g_closed g \<Longrightarrow> \<not> ar_Overrun r \<Longrightarrow> ar_Consumed r = g_consumed g \<and> ar_Observed r = g_observed g"
    using accepted g(1) by (auto simp: reportRejected_def Let_def rowOK_def split: if_splits)
  show row': "rowOK (reported r g)"
    using g r bound by (auto simp: rowOK_def reported_def reportOK_def)
  have nonneg: "0 \<le> spent g" "in64 (spent g)" "0 \<le> ?new" "in64 ?new" "spent g \<le> ?new"
    "0 \<le> g_amount g" "in64 (g_amount g)"
    using g(1) r mono by (auto simp: rowOK_def reportOK_def spent_def in64_bounds)
  have sub: "sub64 ?new (spent g) = ?new - spent g"
    using nonneg(4) by (rule sub64_nonneg) (use nonneg in simp_all)
  have acc: "0 \<le> hardEncumbered a" "in64 (hardEncumbered a)" "0 \<le> hardConsumed a" "in64 (hardConsumed a)"
    "0 \<le> softConsumed a" "in64 (softConsumed a)" "0 \<le> softPending a" "softPending a \<le> softConsumed a"
    using a by (simp_all add: accountOK_def)
  obtain hc where hc: "checkedAdd (hardConsumed a) (sub64 ?new (spent g)) = Inr hc"
    using charge by (auto simp: chargeReport_def Let_def spent_def split: sum.splits)
  then have hc': "hc = hardConsumed a + (?new - spent g)" "in64 hc" "0 \<le> hc"
    using led.cadd_InrD [OF hc] led.cadd_mono [OF hc] acc(3) nonneg by (auto simp: sub)
  define prev where "prev = liability g"
  define ret where "ret = (if ar_Overrun r then max ?new (g_amount g) else ?new)"
  have lia: "liability (reported r g) = (if ar_Closed r then ret else g_amount g)"
    and spent': "spent (reported r g) = ?new"
    by (simp_all add: liability_def reported_def spent_def ret_def)
  have prev: "prev = (if g_closed g then if g_overrun g then max (spent g) (g_amount g) else spent g else g_amount g)"
    by (simp add: prev_def liability_def)
  have bounds: "0 \<le> prev" "in64 prev" "0 \<le> ret" "in64 ret"
    using nonneg by (auto simp: prev ret_def in64_bounds)
  then have diffs: "sub64 prev ret = prev - ret" "sub64 ret prev = ret - prev"
    by (auto intro!: sub64_exact simp: in64_bounds)
  have out: "accountOK a' \<and> hardEncumbered a' = hardEncumbered a - prev + liability (reported r g)
    \<and> hardConsumed a' = hc \<and> softConsumed a' = softConsumed a \<and> frozen a' = (frozen a \<or> ar_Overrun r)
    \<and> (\<not> ar_Overrun r \<longrightarrow> hardEncumbered a' \<le> hardEncumbered a) \<and> softPending a' = softPending a"
  proof (cases "ar_Closed r")
    case False
    then have "a' = a\<lparr>hardConsumed := hc\<rparr>"
      using charge hc by (simp add: chargeReport_def Let_def spent_def)
    moreover have "\<not> g_closed g" "\<not> ar_Overrun r" using False closed(1) r by (auto simp: reportOK_def)
    ultimately show ?thesis using False acc hc' by (simp add: lia prev accountOK_def)
  next
    case True
    note c = charge [unfolded chargeReport_def Let_def, folded spent_def, unfolded hc, simplified,
        folded prev ret_def, unfolded diffs]
    have small: "\<not> ar_Overrun r \<Longrightarrow> ret \<le> prev"
      using r bound closed nonneg(3) by (auto simp: prev ret_def spent_def reportOK_def)
    show ?thesis
    proof (cases "ret < prev")
      case True
      then have "prev - ret \<le> hardEncumbered a"
        and a': "a' = a\<lparr>hardConsumed := hc, frozen := frozen a \<or> ar_Overrun r,
             hardEncumbered := sub64 (hardEncumbered a) (prev - ret)\<rparr>"
        using c \<open>ar_Closed r\<close> by (auto split: if_splits)
      moreover from this have "sub64 (hardEncumbered a) (prev - ret) = hardEncumbered a - (prev - ret)"
        using acc True by (intro sub64_exact) (simp add: in64_bounds)
      ultimately show ?thesis
        using acc hc' \<open>ar_Closed r\<close> True by (simp add: lia accountOK_def in64_bounds)
    next
      case False
      then obtain he where he: "checkedAdd (hardEncumbered a) (ret - prev) = Inr he"
        and a': "a' = a\<lparr>hardConsumed := hc, frozen := frozen a \<or> ar_Overrun r, hardEncumbered := he\<rparr>"
        using c \<open>ar_Closed r\<close> by (auto split: sum.splits)
      have "he = hardEncumbered a + (ret - prev)" "in64 he" "0 \<le> he"
        using led.cadd_InrD [OF he] led.cadd_mono [OF he] by auto
      then show ?thesis using acc hc' \<open>ar_Closed r\<close> small by (simp add: a' lia accountOK_def)
    qed
  qed
  then show "accountOK a'" "hardEncumbered a' = hardEncumbered a - liability g + liability (reported r g)"
    "hardConsumed a' = hardConsumed a - spent g + spent (reported r g)" "softConsumed a' = softConsumed a"
    "frozen a' = (frozen a \<or> ar_Overrun r)" "\<not> ar_Overrun r \<Longrightarrow> hardEncumbered a' \<le> hardEncumbered a"
    "softPending a' = softPending a"
    using hc' by (simp_all add: prev_def spent')
qed


text \<open>The hard cap: an account that is not frozen has at most \<open>L k\<close> encumbered.\<close>

definition withinCaps :: "(accountKey \<Rightarrow> int) \<Rightarrow> (accountKey \<Rightarrow> account) \<Rightarrow> bool" where
  "withinCaps L acct \<longleftrightarrow> (\<forall>k. frozen (acct k) \<or> hardEncumbered (acct k) \<le> L k)"

definition txOK :: "external \<Rightarrow> (accountKey \<Rightarrow> int) \<Rightarrow> Tx \<Rightarrow> bool" where
  "txOK x L tx \<longleftrightarrow> txInv x tx \<and> withinCaps L (view tx)"

lemma view_update:
  "view \<lparr>tx_db = db, tx_accounts = Mapping.update k a m\<rparr> k' =
     (if k' = k then a else view \<lparr>tx_db = db, tx_accounts = m\<rparr> k')"
  by (simp add: view_def lookup_update' split: option.split)

lemma view_db:
  "lg_accounts db = lg_accounts (tx_db tx) \<Longrightarrow> view \<lparr>tx_db = db, tx_accounts = tx_accounts tx\<rparr> k = view tx k"
  by (simp add: view_def split: option.split)

lemma within_caps_put:
  assumes "withinCaps L (view tx)" "lg_accounts db = lg_accounts (tx_db tx)"
    and "frozen a \<or> hardEncumbered a \<le> L k"
  shows "withinCaps L (view \<lparr>tx_db = db, tx_accounts = Mapping.update k a (tx_accounts tx)\<rparr>)"
  using assms by (simp add: withinCaps_def view_update view_db [OF assms(2)])

lemma view_known: "Mapping.lookup (tx_accounts tx) k = Some a \<Longrightarrow> view tx k = a"
  by (simp add: view_def)

text \<open>A known row of a report.\<close>

lemma reportGrant_row:
  assumes "reportGrant env owner r db = Inr g"
  obtains row where "row = (owner, ar_Instance r, le_ch env (ar_RequestID r))"
    "Mapping.lookup (lg_requests db) row = Some g" "g_id g = ar_GrantID r" "0 < g_amount g"
  using assms by (auto simp: reportGrant_def split: option.splits if_splits)

lemma tx_row_ok: "txInv x tx \<Longrightarrow> Mapping.lookup (lg_requests (tx_db tx)) row = Some g \<Longrightarrow> rowOK g"
  by (auto simp: txInv_def tablesOK_def)

lemma tx_unique: "txInv x tx \<Longrightarrow> uniqueIDs (tx_db tx)"
  by (simp add: txInv_def tablesOK_def)

text \<open>Acknowledging a recovered closure moves no money.\<close>

lemma recovered_row:
  assumes "rowOK g" "recoveredClosure cur g r" "reportOK r"
  defines "g' \<equiv> g\<lparr>g_seq := max (g_seq g) (ar_Sequence r), g_observed := max (g_observed g) (ar_Observed r)\<rparr>"
  shows "rowOK g' \<and> liability g' = liability g \<and> spent g' = spent g"
proof -
  have obs: "ar_Observed r \<le> max (g_consumed g) (g_observed g)" "0 \<le> ar_Observed r" "g_closed g"
    using assms(2,3) by (simp_all add: recoveredClosure_def reportOK_def)
  then have same: "spent g' = spent g" by (auto simp: g'_def spent_def)
  have "rowOK g'"
    using assms(1,3) obs by (auto simp: rowOK_def g'_def reportOK_def in64_bounds)
  then show ?thesis using same by (simp add: liability_def g'_def)
qed

lemma burn_report:
  assumes "rowOK g" "reportOK r" "recoveryBurn cur g r"
  shows "reportOK (r\<lparr>ar_Sequence := sq, ar_Observed := max (ar_Observed r) (g_observed g)\<rparr>)"
  using assms by (auto simp: reportOK_def recoveryBurn_def rowOK_def in64_bounds)

lemma apply_report_ok:
  assumes inv: "txOK x L tx" and r: "reportOK r" and step: "applyReport env owner cur r tx = Inr tx'"
  shows "txOK x L tx'"
proof -
  have ti: "txInv x tx" and cap: "withinCaps L (view tx)" using inv by (simp_all add: txOK_def)
  obtain g where g: "reportGrant env owner r (tx_db tx) = Inr g"
    using step by (auto simp: applyReport_def split: sum.splits)
  obtain row where row: "Mapping.lookup (lg_requests (tx_db tx)) row = Some g" and amount: "0 < g_amount g"
    using reportGrant_row [OF g] by metis
  note gok = tx_row_ok [OF ti row] and upd = updateGrant_row [OF tx_unique [OF ti] row]
  show ?thesis
  proof (cases "recoveredClosure cur g r")
    case True
    let ?g' = "g\<lparr>g_seq := max (g_seq g) (ar_Sequence r), g_observed := max (g_observed g) (ar_Observed r)\<rparr>"
    let ?db' = "(tx_db tx)\<lparr>lg_requests := Mapping.update row ?g' (lg_requests (tx_db tx))\<rparr>"
    let ?k = "(g_key g, g_window g)"
    have tx': "tx' = tx\<lparr>tx_db := ?db'\<rparr>"
      using step g True by (simp add: applyReport_def upd)
    note rec = recovered_row [OF gok True r]
    have "txInv x \<lparr>tx_db = ?db', tx_accounts = Mapping.update ?k (view tx ?k) (tx_accounts tx)\<rparr>" (is "txInv x ?tx''")
      by (rule row_update_balanced [OF ti row]) (use rec ti in \<open>auto simp: txInv_def balanced_def\<close>)
    moreover have "view ?tx'' k = view tx' k" for k
      by (cases "k = ?k") (auto simp: tx' view_def lookup_update' split: option.split)
    ultimately have "txInv x tx'"
      using ti by (simp add: txInv_def tx')
    moreover have "view tx' k = view tx k" for k by (simp add: tx' view_def split: option.split)
    ultimately show ?thesis using cap by (simp add: txOK_def withinCaps_def)
  next
    case False
    define burned where "burned = recoveryBurn cur g r"
    define r' where "r' = (if burned then r\<lparr>ar_Sequence := max (ar_Sequence r) (g_seq g),
        ar_Observed := max (ar_Observed r) (g_observed g)\<rparr> else r)"
    have r': "reportOK r'"
      using r burn_report [OF gok r] by (simp add: r'_def burned_def)
    note body = step [unfolded applyReport_def g sum.case if_not_P [OF False] Let_def,
        folded burned_def, folded r'_def]
    have accepted: "reportRejected burned g r' = None"
      using body by (simp split: option.splits)
    show ?thesis
    proof (cases "ar_Sequence r' = g_seq g \<and> \<not> burned")
      case True
      then have "tx' = tx"
        using body accepted by simp
      then show ?thesis using inv by simp
    next
      case moved: False
      let ?k = "(g_key g, g_window g)"
      obtain a a' where a: "Mapping.lookup (tx_accounts tx) ?k = Some a" "chargeReport g r' a = Inr a'"
        and tx': "tx' = \<lparr>tx_db = (tx_db tx)\<lparr>lg_requests := Mapping.update row (reported r' g) (lg_requests (tx_db tx))\<rparr>,
            tx_accounts = Mapping.update ?k a' (tx_accounts tx)\<rparr>"
        using body accepted moved by (auto simp: reported_def upd split: option.splits sum.splits)
      have av: "view tx ?k = a" by (rule view_known [OF a(1)])
      have aok: "accountOK a" using view_balanced [OF ti a(1)] by (simp add: balanced_def)
      note out = charge_outcome [OF gok amount r' aok accepted a(2)]
      have "txInv x tx'"
        unfolding tx' by (rule row_update_balanced [OF ti row out(1)]) (use out in \<open>simp_all add: reported_def av\<close>)
      moreover have "frozen a' \<or> hardEncumbered a' \<le> L ?k"
        using out(6,7) cap av by (force simp: withinCaps_def)
      then have "withinCaps L (view tx')"
        unfolding tx' by (intro within_caps_put [OF cap]) simp_all
      ultimately show ?thesis by (simp add: txOK_def)
    qed
  qed
qed

section \<open>Meters\<close>

lemma tables_meter: "tablesOK db \<Longrightarrow> Mapping.lookup (lg_meters db) row = Some (s, c, b) \<Longrightarrow> 0 \<le> c \<and> in64 c"
  unfolding tablesOK_def by blast

definition meterValid :: "AuthorityMeter \<Rightarrow> bool" where
  "meterValid m \<longleftrightarrow> 0 \<le> am_Consumed m \<and> in64 (am_Consumed m)"

lemma apply_meter_ok:
  assumes inv: "txOK x L tx" and m: "meterValid m" and step: "applyMeter owner cur m tx = Inr tx'"
  shows "txOK x L tx'"
proof (cases "tx' = tx")
  case True
  then show ?thesis using inv by simp
next
  case moved: False
  have ti: "txInv x tx" and cap: "withinCaps L (view tx)" using inv by (simp_all add: txOK_def)
  let ?k = "(am_Key m, am_WindowID m)" and ?row = "(owner, am_Instance m, am_Key m, am_WindowID m)"
  define old where "old = (case Mapping.lookup (lg_meters (tx_db tx)) ?row of None \<Rightarrow> (0, 0, 0) | Some v \<Rightarrow> v)"
  obtain sq co ob where o: "old = (sq, co, ob)" by (metis prod_cases3)
  obtain a s c b sc where a: "Mapping.lookup (tx_accounts tx) ?k = Some a"
    and add: "checkedAdd (softConsumed a) (sub64 c co) = Inr sc"
    and c: "c = am_Consumed m \<or> c = max (am_Consumed m) co"
    and tx': "tx' = \<lparr>tx_db = (tx_db tx)\<lparr>lg_meters := Mapping.update ?row (s, c, b) (lg_meters (tx_db tx))\<rparr>,
        tx_accounts = Mapping.update ?k (a\<lparr>softConsumed := sc\<rparr>) (tx_accounts tx)\<rparr>"
    using step moved unfolding applyMeter_def Let_def old_def [symmetric] o
    by (auto split: option.splits if_splits sum.splits)
  have aok: "balanced x (tx_db tx) ?k a" by (rule view_balanced [OF ti a])
  have tables: "tablesOK (tx_db tx)" using ti by (simp add: txInv_def)
  have co: "0 \<le> co \<and> in64 co"
    using o by (cases "Mapping.lookup (lg_meters (tx_db tx)) ?row") (auto simp: old_def dest: tables_meter [OF tables])
  have c64: "0 \<le> c" "in64 c" using c m co by (auto simp: meterValid_def in64_bounds)
  have sub: "sub64 c co = c - co" by (rule sub64_in64_nonneg) (use co c64 in simp_all)
  have sc: "sc = softConsumed a + (c - co)" "0 \<le> c - co" "in64 sc" "softConsumed a \<le> sc"
    using led.cadd_InrD [OF add] led.cadd_mono [OF add] by (auto simp: sub)
  have fin: "finite (Mapping.keys (lg_meters (tx_db tx)))" using tables by (simp add: tablesOK_def)
  have total: "meterTotal k (tx_db tx') = meterTotal k (tx_db tx) + (if k = ?k then c - co else 0)" for k
  proof -
    have "co = (case Mapping.lookup (lg_meters (tx_db tx)) ?row of None \<Rightarrow> 0 | Some (_, c, _) \<Rightarrow> c)"
      using o by (auto simp: old_def split: option.splits)
    then show ?thesis
      by (auto simp: tx' meterTotal_def mtotal_update [OF fin] split: option.splits)
  qed
  have grants: "grantTotal f k (tx_db tx') = grantTotal f k (tx_db tx)" for f k by (simp add: tx' grantTotal_def)
  have "tablesOK (tx_db tx')"
    using tables c64 by (auto simp: tx' tablesOK_def uniqueIDs_def lookup_update' split: if_splits)
  moreover have other: "view tx' k = (if k = ?k then a\<lparr>softConsumed := sc\<rparr> else view tx k)" for k
    by (simp add: tx' view_update view_db)
  moreover have "balanced x (tx_db tx') k (view tx' k)" for k
  proof (cases "k = ?k")
    case True
    have "accountOK a" using aok by (simp add: balanced_def)
    then have "accountOK (a\<lparr>softConsumed := sc\<rparr>)" using sc by (simp add: accountOK_def)
    then show ?thesis
      using aok sc(1) True unfolding other by (simp add: balanced_def total grants)
  next
    case False
    then have "view tx' k = view tx k" "meterTotal k (tx_db tx') = meterTotal k (tx_db tx)"
      using other [of k] total [of k] by simp_all
    then show ?thesis using ti by (simp add: txInv_def balanced_def grants)
  qed
  ultimately have "txInv x tx'" using ti by (simp add: txInv_def tx')
  moreover have "withinCaps L (view tx')"
  proof -
    have "frozen a \<or> hardEncumbered a \<le> L ?k"
      using cap view_known [OF a] by (force simp: withinCaps_def)
    then show ?thesis unfolding tx' by (intro within_caps_put [OF cap]) simp_all
  qed
  ultimately show ?thesis by (simp add: txOK_def)
qed


section \<open>Grants\<close>

text \<open>What the derivation guarantees of every definition.\<close>

definition budgetOK :: "AuthorityBudget \<Rightarrow> bool" where
  "budgetOK b \<longleftrightarrow> 0 < ab_LimitMicroUSD b \<and> in64 (ab_LimitMicroUSD b) \<and> 0 < ab_GrantMicroUSD b \<and> in64 (ab_GrantMicroUSD b)"

lemma current_budget:
  assumes "map_of (rev (map (\<lambda>b. (ab_Key b, b)) budgets)) key = Some b"
  shows "b \<in> set budgets \<and> ab_Key b = key"
  using map_of_SomeD [OF assms] by auto

lemma decide_outcome:
  assumes "decideGrant now (map_of (rev (map (\<lambda>b. (ab_Key b, b)) budgets)) (rw_Key r)) r (freshGrant r gid) accounts
      = Inr (g', accounts')"
    and ok: "\<forall>b \<in> set budgets. budgetOK b" and want: "0 \<le> rw_WantMicroUSD r" "in64 (rw_WantMicroUSD r)"
  obtains (Denied) why where "g' = (freshGrant r gid)\<lparr>g_denial := why\<rparr>" "why \<noteq> []" "accounts' = accounts"
    | (Granted) b a amount where "b \<in> set budgets" "accountOf b = (rw_Key r, rw_WindowID r)" "ab_HardCap b"
      "ab_Revision b = rw_Revision r"
      "Mapping.lookup accounts (accountOf b) = Some a" "\<not> frozen a" "0 < amount" "in64 amount" "rw_WantMicroUSD r \<le> amount"
      "hardEncumbered a + softConsumed a + amount \<le> ab_LimitMicroUSD b"
      "g' = (freshGrant r gid)\<lparr>g_amount := amount, g_expires := Some (grantExpiry now b)\<rparr>"
      "accounts' = Mapping.update (accountOf b) (a\<lparr>hardEncumbered := hardEncumbered a + amount\<rparr>) accounts"
proof -
  define cur where "cur = map_of (rev (map (\<lambda>b. (ab_Key b, b)) budgets)) (rw_Key r)"
  note step = assms(1) [folded cur_def]
  show thesis
  proof (cases "\<exists>why. why \<noteq> [] \<and> g' = (freshGrant r gid)\<lparr>g_denial := why\<rparr> \<and> accounts' = accounts")
    case True
    then show ?thesis using Denied by blast
  next
    case False
    then have not_denied: "g' \<noteq> (freshGrant r gid)\<lparr>g_denial := c # why\<rparr> \<or> accounts' \<noteq> accounts" for c why by blast
    obtain b where b: "cur = Some b"
      using step not_denied by (auto simp: decideGrant_def split: option.splits)
    have inb: "b \<in> set budgets" "ab_Key b = rw_Key r" using current_budget [OF b [unfolded cur_def]] by simp_all
    have bok: "0 < ab_LimitMicroUSD b" "in64 (ab_LimitMicroUSD b)" "0 < ab_GrantMicroUSD b" "in64 (ab_GrantMicroUSD b)"
      using ok inb(1) by (auto simp: budgetOK_def)
    note step1 = step [unfolded b decideGrant_def option.case]
    have fresh: "ab_Revision b = rw_Revision r" "ab_WindowID b = rw_WindowID r" "ab_HardCap b"
      using step1 not_denied by (auto split: if_splits)
    then have key: "accountOf b = (rw_Key r, rw_WindowID r)" using inb(2) by (simp add: accountOf_def)
    obtain a enc where a: "Mapping.lookup accounts (accountOf b) = Some a"
      and enc: "checkedAdd (hardEncumbered a) (softConsumed a) = Inr enc"
      using step1 fresh by (auto split: option.splits sum.splits)
    have e: "enc = hardEncumbered a + softConsumed a" "in64 enc" "0 \<le> enc"
      using led.cadd_InrD [OF enc] led.cadd_mono [OF enc] by auto
    have sub: "sub64 (ab_LimitMicroUSD b) enc = ab_LimitMicroUSD b - enc"
      by (rule sub64_in64_nonneg) (use e bok in simp_all)
    define amount where "amount = min (max (ab_GrantMicroUSD b) (rw_WantMicroUSD r)) (ab_LimitMicroUSD b - enc)"
    note step2 = step1 [unfolded a enc option.case sum.case sub Let_def, folded amount_def]
    have free: "\<not> frozen a" "enc < ab_LimitMicroUSD b" "rw_WantMicroUSD r \<le> ab_LimitMicroUSD b - enc"
      using step2 fresh not_denied by (auto split: if_splits)
    have amount: "0 < amount" "amount \<le> ab_LimitMicroUSD b - enc" "rw_WantMicroUSD r \<le> amount" "in64 amount"
      using free bok want e by (auto simp: amount_def in64_bounds)
    obtain he where he: "checkedAdd (hardEncumbered a) amount = Inr he"
      and out: "g' = (freshGrant r gid)\<lparr>g_amount := amount, g_expires := Some (grantExpiry now b)\<rparr>"
        "accounts' = Mapping.update (accountOf b) (a\<lparr>hardEncumbered := he\<rparr>) accounts"
      using step2 fresh free amount by (auto split: sum.splits)
    have "he = hardEncumbered a + amount" using led.cadd_InrD [OF he] by simp
    then show ?thesis
      using Granted [OF inb(1) key fresh(3,1) a free(1) amount(1,4,3) _ out(1)] out(2) amount(2) e(1) by simp
  qed
qed

lemma issue_state:
  assumes "issueGrant env newID budgets now owner inst r (tx, out) = Inr (tx', out')"
  obtains (Replay) g where "Mapping.lookup (lg_requests (tx_db tx)) (owner, inst, le_ch env (rw_RequestID r)) = Some g"
      "0 < g_amount g" "tx' = tx" "out' = appendGrantResult r g out"
      "g_key g = rw_Key r" "g_window g = rw_WindowID r" "g_revision g = rw_Revision r" "g_want g = rw_WantMicroUSD r"
    | (Retry) g g' accounts where "Mapping.lookup (lg_requests (tx_db tx)) (owner, inst, le_ch env (rw_RequestID r)) = Some g"
      "g_amount g \<le> 0" "g_key g = rw_Key r" "g_window g = rw_WindowID r" "g_revision g = rw_Revision r"
      "g_want g = rw_WantMicroUSD r"
      "decideGrant now (map_of (rev (map (\<lambda>b. (ab_Key b, b)) budgets)) (rw_Key r)) r (freshGrant r (g_id g))
         (tx_accounts tx) = Inr (g', accounts)"
      "tx' = \<lparr>tx_db = (tx_db tx)\<lparr>lg_requests := Mapping.update (owner, inst, le_ch env (rw_RequestID r))
           (g\<lparr>g_amount := g_amount g', g_expires := g_expires g', g_denial := g_denial g'\<rparr>) (lg_requests (tx_db tx))\<rparr>,
         tx_accounts = accounts\<rparr>" "out' = appendGrantResult r g' out"
    | (New) gid g' accounts where "Mapping.lookup (lg_requests (tx_db tx)) (owner, inst, le_ch env (rw_RequestID r)) = None"
      "newID r = Some gid" "gid \<notin> grantIDs (tx_db tx)"
      "decideGrant now (map_of (rev (map (\<lambda>b. (ab_Key b, b)) budgets)) (rw_Key r)) r (freshGrant r [])
         (tx_accounts tx) = Inr (g', accounts)"
      "tx' = \<lparr>tx_db = (tx_db tx)\<lparr>lg_requests := Mapping.update (owner, inst, le_ch env (rw_RequestID r))
           (g'\<lparr>g_id := gid\<rparr>) (lg_requests (tx_db tx))\<rparr>, tx_accounts = accounts\<rparr>"
      "out' = appendGrantResult r (g'\<lparr>g_id := gid\<rparr>) out"
proof (cases "Mapping.lookup (lg_requests (tx_db tx)) (owner, inst, le_ch env (rw_RequestID r))")
  case None
  then show ?thesis using assms New
    by (auto simp: issueGrant_def Let_def split: sum.splits option.splits if_splits prod.splits)
next
  case (Some g)
  note body = assms [unfolded issueGrant_def Let_def prod.case Some option.case]
  have same: "g_key g = rw_Key r" "g_window g = rw_WindowID r" "g_revision g = rw_Revision r" "g_want g = rw_WantMicroUSD r"
    using body by (auto split: if_splits)
  show ?thesis
  proof (cases "0 < g_amount g")
    case True
    then show ?thesis using body same Replay [OF Some True] by simp
  next
    case False
    then show ?thesis using body same Retry [OF Some]
      by (auto split: sum.splits prod.splits)
  qed
qed


lemma known_accounts_ok: "txInv x tx \<Longrightarrow> Mapping.lookup (tx_accounts tx) k = Some a \<Longrightarrow> accountOK a"
  using view_balanced by (auto simp: balanced_def)

text \<open>Writing a request row: a denied row weighs nothing, a granted one is charged to its account.\<close>

lemma write_denied:
  assumes inv: "txInv x tx"
    and old: "freeRow (tx_db tx) row" and fresh: "freshID (tx_db tx) row (g_id g')"
    and g': "rowOK g'" "g_amount g' = 0"
  shows "txInv x \<lparr>tx_db = (tx_db tx)\<lparr>lg_requests := Mapping.update row g' (lg_requests (tx_db tx))\<rparr>,
    tx_accounts = tx_accounts tx\<rparr>" (is "txInv x ?tx'")
proof -
  have tables: "tablesOK (tx_db tx)" and fin: "finite (Mapping.keys (lg_requests (tx_db tx)))"
    using inv by (simp_all add: txInv_def tablesOK_def)
  have zero: "liability g = 0 \<and> spent g = 0" if "rowOK g" "g_amount g = 0" for g
    using that by (auto simp: rowOK_def liability_def spent_def split: if_splits)
  have old0: "liability g = 0 \<and> spent g = 0" if "Mapping.lookup (lg_requests (tx_db tx)) row = Some g" for g
    using zero tx_row_ok [OF inv that] old that by (simp add: freeRow_def)
  have "grantTotal f k (tx_db ?tx') = grantTotal f k (tx_db tx)" if "f = liability \<or> f = spent" for f k
    using that zero [OF g'] old0 by (auto simp: grantTotal_update [OF fin] split: option.split)
  moreover have "meterTotal k (tx_db ?tx') = meterTotal k (tx_db tx)" for k by (simp add: meterTotal_def)
  moreover have "view ?tx' k = view tx k" for k by (simp add: view_def split: option.split)
  moreover have "tablesOK (tx_db ?tx')"
    using row_update_tables [OF tables g'(1) fresh] by simp
  ultimately show ?thesis using inv by (simp add: txInv_def balanced_def)
qed

lemma write_granted:
  assumes inv: "txInv x tx"
    and old: "freeRow (tx_db tx) row" and fresh: "freshID (tx_db tx) row (g_id g')"
    and g': "rowOK g'" "\<not> g_closed g'" "g_consumed g' = 0" "g_observed g' = 0"
    and a: "Mapping.lookup (tx_accounts tx) (g_key g', g_window g') = Some a"
    and fits: "in64 (hardEncumbered a + g_amount g')"
  shows "txInv x \<lparr>tx_db = (tx_db tx)\<lparr>lg_requests := Mapping.update row g' (lg_requests (tx_db tx))\<rparr>,
    tx_accounts = Mapping.update (g_key g', g_window g') (a\<lparr>hardEncumbered := hardEncumbered a + g_amount g'\<rparr>)
      (tx_accounts tx)\<rparr>" (is "txInv x ?tx'")
proof -
  let ?k = "(g_key g', g_window g')"
  have tables: "tablesOK (tx_db tx)" and fin: "finite (Mapping.keys (lg_requests (tx_db tx)))"
    using inv by (simp_all add: txInv_def tablesOK_def)
  have old0: "liability g = 0 \<and> spent g = 0" if "Mapping.lookup (lg_requests (tx_db tx)) row = Some g" for g
    using tx_row_ok [OF inv that] old that
    by (auto simp: freeRow_def rowOK_def liability_def spent_def split: if_splits)
  have new: "liability g' = g_amount g'" "spent g' = 0" using g' by (simp_all add: liability_def spent_def)
  have totals: "grantTotal liability k (tx_db ?tx') = grantTotal liability k (tx_db tx) + (if k = ?k then g_amount g' else 0)"
    "grantTotal spent k (tx_db ?tx') = grantTotal spent k (tx_db tx)" for k
    using old0 new by (auto simp: grantTotal_update [OF fin] split: option.split)
  have meters: "meterTotal k (tx_db ?tx') = meterTotal k (tx_db tx)" for k by (simp add: meterTotal_def)
  have views: "view ?tx' k = (if k = ?k then a\<lparr>hardEncumbered := hardEncumbered a + g_amount g'\<rparr> else view tx k)" for k
    by (simp add: view_update view_db)
  have bal: "balanced x (tx_db tx) k (view tx k)" for k using inv by (simp add: txInv_def)
  have "balanced x (tx_db ?tx') k (view ?tx' k)" for k
  proof (cases "k = ?k")
    case True
    have "accountOK a" by (rule known_accounts_ok [OF inv a])
    then have "accountOK (a\<lparr>hardEncumbered := hardEncumbered a + g_amount g'\<rparr>)"
      using fits g'(1) by (simp add: accountOK_def rowOK_def)
    then show ?thesis
      using view_balanced [OF inv a] True unfolding views balanced_def totals meters by simp
  next
    case False
    then show ?thesis using bal [of k] unfolding views balanced_def totals meters by simp
  qed
  moreover have "tablesOK (tx_db ?tx')"
    using row_update_tables [OF tables g'(1) fresh] by simp
  ultimately show ?thesis using inv by (simp add: txInv_def)
qed

lemma issue_ok:
  assumes inv: "txOK x L tx" and budgets: "\<forall>b \<in> set budgets. budgetOK b"
    and cap: "\<forall>b \<in> set budgets. ab_HardCap b \<longrightarrow> ab_LimitMicroUSD b \<le> L (accountOf b)"
    and want: "0 \<le> rw_WantMicroUSD r" "in64 (rw_WantMicroUSD r)"
    and step: "issueGrant env newID budgets now owner inst r (tx, out) = Inr (tx', out')"
  shows "txOK x L tx'"
proof -
  have ti: "txInv x tx" and capd: "withinCaps L (view tx)" using inv by (simp_all add: txOK_def)
  let ?row = "(owner, inst, le_ch env (rw_RequestID r))" and ?k = "(rw_Key r, rw_WindowID r)"
  note accs = known_accounts_ok [OF ti]
  have main: "txOK x L \<lparr>tx_db = (tx_db tx)\<lparr>lg_requests := Mapping.update ?row h (lg_requests (tx_db tx))\<rparr>,
      tx_accounts = accounts\<rparr>"
    if dec: "decideGrant now (map_of (rev (map (\<lambda>b. (ab_Key b, b)) budgets)) (rw_Key r)) r (freshGrant r gid)
        (tx_accounts tx) = Inr (g', accounts)"
      and h: "h = g'\<lparr>g_id := g_id h, g_seq := g_seq h\<rparr>"
      and old: "freeRow (tx_db tx) ?row" and uniq: "freshID (tx_db tx) ?row (g_id h)"
    for gid g' accounts h
    using dec budgets want
  proof (cases rule: decide_outcome)
    case (Denied why)
    have hf: "g_denial h = why" "g_amount h = 0" "\<not> g_closed h" "g_expires h = None" "g_consumed h = 0" "g_observed h = 0"
      "\<not> g_overrun h"
      by (subst h; simp add: Denied(1) freshGrant_def)+
    then have "rowOK h" using Denied(2) by (simp add: rowOK_def)
    with write_denied [OF ti old uniq] hf(2) Denied(3) have "txInv x \<lparr>tx_db = (tx_db tx)\<lparr>lg_requests :=
        Mapping.update ?row h (lg_requests (tx_db tx))\<rparr>, tx_accounts = accounts\<rparr>" by simp
    moreover have "withinCaps L (view \<lparr>tx_db = (tx_db tx)\<lparr>lg_requests :=
        Mapping.update ?row h (lg_requests (tx_db tx))\<rparr>, tx_accounts = accounts\<rparr>)"
      using capd by (simp add: Denied(3) withinCaps_def view_db)
    ultimately show ?thesis by (simp add: txOK_def)
  next
    case (Granted b a amount)
    have hf: "g_denial h = []" "g_amount h = amount" "\<not> g_closed h" "g_expires h = Some (grantExpiry now b)"
      "g_consumed h = 0" "g_observed h = 0" "\<not> g_overrun h" "g_key h = rw_Key r" "g_window h = rw_WindowID r"
      by (subst h; simp add: Granted(11) freshGrant_def)+
    have aok: "accountOK a" by (rule accs [OF Granted(5)])
    have limit: "ab_LimitMicroUSD b \<le> L ?k" "in64 (ab_LimitMicroUSD b)"
      using cap budgets Granted(1,2,3) by (auto simp: budgetOK_def)
    have fits: "hardEncumbered a + amount \<le> ab_LimitMicroUSD b" "0 \<le> hardEncumbered a"
      using Granted(10) aok by (auto simp: accountOK_def)
    have "rowOK h" using Granted(7,8) hf by (simp add: rowOK_def)
    then have "txInv x \<lparr>tx_db = (tx_db tx)\<lparr>lg_requests := Mapping.update ?row h (lg_requests (tx_db tx))\<rparr>,
        tx_accounts = Mapping.update ?k (a\<lparr>hardEncumbered := hardEncumbered a + amount\<rparr>) (tx_accounts tx)\<rparr>"
      using write_granted [OF ti old uniq, where a = a] hf Granted(5,2,7) fits limit(2) by (simp add: in64_bounds)
    moreover have "withinCaps L (view \<lparr>tx_db = (tx_db tx)\<lparr>lg_requests := Mapping.update ?row h (lg_requests (tx_db tx))\<rparr>,
        tx_accounts = Mapping.update ?k (a\<lparr>hardEncumbered := hardEncumbered a + amount\<rparr>) (tx_accounts tx)\<rparr>)"
      by (rule within_caps_put [OF capd]) (use fits limit in simp_all)
    ultimately show ?thesis by (simp add: txOK_def Granted(12,2))
  qed
  from step show ?thesis
  proof (cases rule: issue_state)
    case (Replay g)
    then show ?thesis using inv by simp
  next
    case (Retry g g' accounts)
    have gok: "rowOK g" by (rule tx_row_ok [OF ti Retry(1)])
    then have g0: "g_amount g = 0" "\<not> g_closed g" "g_consumed g = 0" "g_observed g = 0" "\<not> g_overrun g"
      using Retry(2) by (auto simp: rowOK_def split: if_splits)
    have same: "g_key g' = rw_Key r" "g_window g' = rw_WindowID r" "g_revision g' = rw_Revision r"
        "g_want g' = rw_WantMicroUSD r" "g_consumed g' = 0" "g_observed g' = 0" "\<not> g_closed g'" "\<not> g_overrun g'"
      using Retry(7) budgets want by (cases rule: decide_outcome; simp add: freshGrant_def)+
    show ?thesis
      unfolding Retry(8)
      by (rule main [OF Retry(7)])
        (use Retry(1,3-6) g0 same tx_unique [OF ti] in
          \<open>auto simp: uniqueIDs_def freeRow_def freshID_def intro!: grantState.equality\<close>)
  next
    case (New gid g' accounts)
    have "gid \<noteq> g_id h" if "Mapping.lookup (lg_requests (tx_db tx)) row' = Some h" for row' h
      using New(3) that by (force simp: grantIDs_def keys_lookup)
    then show ?thesis
      unfolding New(5) by (intro main [OF New(4)]) (use New(1) in \<open>auto simp: freeRow_def freshID_def intro!: grantState.equality\<close>)
  qed
qed

end
