(* ===== verification/LedgerSync.thy ===== *)
theory LedgerSync
  imports LedgerInv
begin

text \<open>
  The whole transaction: locking, validation, the loops and the write-back keep the accounting
  invariant and the hard cap of \<open>LedgerInv\<close>; a failed or lost transaction changes nothing or
  everything.
\<close>

section \<open>Locking\<close>

definition money :: "account \<Rightarrow> int \<times> int \<times> int \<times> int \<times> bool" where
  "money a = (hardEncumbered a, hardConsumed a, softConsumed a, softPending a, frozen a)"

lemma balanced_money: "money a = money b \<Longrightarrow> balanced x db k a \<longleftrightarrow> balanced x db k b"
  by (simp add: money_def balanced_def accountOK_def)

text \<open>Locking changes no amount and no other table.\<close>

definition lockedFrom :: "Ledger \<Rightarrow> Tx \<Rightarrow> bool" where
  "lockedFrom db tx \<longleftrightarrow>
     finite (Mapping.keys (tx_accounts tx))
     \<and> lg_requests (tx_db tx) = lg_requests db \<and> lg_meters (tx_db tx) = lg_meters db
     \<and> (\<forall>k. money (view tx k) = money (accountAt (lg_accounts db) k))
     \<and> (\<forall>k. money (accountAt (lg_accounts (tx_db tx)) k) = money (accountAt (lg_accounts db) k))"

lemma lock_account_locked:
  assumes "lockedFrom db tx" "lockAccount budgets k tx = Inr tx'"
  shows "lockedFrom db tx'"
proof -
  define act where "act = map_of (rev (map (\<lambda>b. (accountOf b, b)) budgets)) k"
  let ?rows = "lg_accounts (tx_db tx)"
  define rows' where "rows' = (case act of None \<Rightarrow> ?rows
    | Some b \<Rightarrow> if Mapping.lookup ?rows k = None then Mapping.update k (newAccount b) ?rows else ?rows)"
  obtain a where a: "Mapping.lookup rows' k = Some a"
    and tx': "tx' = \<lparr>tx_db = (tx_db tx)\<lparr>lg_accounts := rows'\<rparr>, tx_accounts = Mapping.update k
        (case act of None \<Rightarrow> a | Some b \<Rightarrow> if \<not> ab_HardCap b then a\<lparr>acceptsMeters := True\<rparr> else a) (tx_accounts tx)\<rparr>"
    using assms(2) by (auto simp: lockAccount_def Let_def act_def rows'_def split: option.splits)
  have table: "money (accountAt rows' j) = money (accountAt ?rows j)" for j
    by (auto simp: rows'_def accountAt_def lookup_update' money_def newAccount_def zeroAccount_def split: option.split)
  have "accountAt rows' k = a" using a by (simp add: accountAt_def)
  then have copy: "money (case act of None \<Rightarrow> a | Some b \<Rightarrow> if \<not> ab_HardCap b then a\<lparr>acceptsMeters := True\<rparr> else a) =
      money (accountAt ?rows k)"
    using table [of k] by (auto simp: money_def split: option.split)
  have "money (view tx' j) = money (if j = k then accountAt ?rows k else view tx j)" for j
  proof (cases "j = k")
    case True
    then show ?thesis using copy by (simp add: tx' view_def)
  next
    case False
    then show ?thesis using table [of j] by (simp add: tx' view_def lookup_update' split: option.split)
  qed
  then show ?thesis
    using assms(1) table by (simp add: lockedFrom_def tx')
qed

lemma lock_accounts_locked:
  assumes "lockAccounts env owner reports meters budgets db = Inr tx"
  shows "lockedFrom db tx"
proof -
  obtain ks where fold: "foldE (lockAccount budgets) ks \<lparr>tx_db = db, tx_accounts = Mapping.empty\<rparr> = Inr tx"
    using assms by (auto simp: lockAccounts_def split: sum.splits)
  show ?thesis
  proof (rule foldE_invariant [OF fold])
    show "lockedFrom db \<lparr>tx_db = db, tx_accounts = Mapping.empty\<rparr>"
      by (simp add: lockedFrom_def view_def)
  qed (rule lock_account_locked)
qed

lemma locked_ok:
  assumes "ledgerInv x db" "withinCaps L (accountAt (lg_accounts db))" "lockedFrom db tx"
  shows "txOK x L tx"
proof -
  note l = assms(3) [unfolded lockedFrom_def]
  have same: "grantTotal f k (tx_db tx) = grantTotal f k db" "meterTotal k (tx_db tx) = meterTotal k db" for f k
    using l by (simp_all add: grantTotal_def meterTotal_def)
  have bal: "balanced x (tx_db tx) k (view tx k)" for k
  proof -
    have "money (view tx k) = money (accountAt (lg_accounts db) k)" using l by blast
    from balanced_money [OF this] have "balanced x db k (view tx k)"
      using assms(1) by (simp add: ledgerInv_def)
    then show ?thesis by (simp add: balanced_def same)
  qed
  have "tablesOK (tx_db tx)"
    using assms(1) l by (simp add: ledgerInv_def tablesOK_def uniqueIDs_def)
  moreover have "frozen (view tx k) = frozen (accountAt (lg_accounts db) k)"
    "hardEncumbered (view tx k) = hardEncumbered (accountAt (lg_accounts db) k)" for k
    using l by (simp_all add: money_def)
  ultimately show ?thesis
    using l bal assms(2) by (simp add: txOK_def txInv_def withinCaps_def)
qed

section \<open>Validation\<close>

lemma foldE_each:
  assumes "foldE f xs s = Inr s'" and "\<And>x s s'. f x s = Inr s' \<Longrightarrow> P x"
  shows "\<forall>x \<in> set xs. P x"
  using assms(1) by (induction xs arbitrary: s) (auto split: sum.splits dest: assms(2))

lemma validated:
  assumes "validateRequest owner req = None" "request64 req"
  shows "\<forall>r \<in> set (aq_Reports req). reportOK r" and "\<forall>m \<in> set (aq_Meters req). meterValid m"
    and "\<forall>r \<in> set (aq_Requests req). 0 \<le> rw_WantMicroUSD r \<and> in64 (rw_WantMicroUSD r)"
proof -
  obtain s1 s2 s3 where f: "foldE validateGrantRequest (aq_Requests req) {} = Inr s1"
    "foldE validateReport (aq_Reports req) {} = Inr s2" "foldE validateMeter (aq_Meters req) {} = Inr s3"
    using assms(1) by (auto simp: validateRequest_def split: if_splits sum.splits)
  have "\<forall>r \<in> set (aq_Reports req). 0 \<le> ar_Consumed r \<and> 0 \<le> ar_Observed r
      \<and> (\<not> ar_Overrun r \<longrightarrow> ar_Observed r \<le> ar_Consumed r) \<and> (ar_Overrun r \<longrightarrow> ar_Closed r)"
    by (rule foldE_each [OF f(2)]) (auto simp: validateReport_def split: if_splits)
  then show "\<forall>r \<in> set (aq_Reports req). reportOK r"
    using assms(2) by (auto simp: request64_def report64_def reportOK_def list_all_iff)
  have "\<forall>m \<in> set (aq_Meters req). 0 \<le> am_Consumed m"
    by (rule foldE_each [OF f(3)]) (auto simp: validateMeter_def split: if_splits)
  then show "\<forall>m \<in> set (aq_Meters req). meterValid m"
    using assms(2) by (auto simp: request64_def meter64_def meterValid_def list_all_iff)
  have "\<forall>r \<in> set (aq_Requests req). 0 \<le> rw_WantMicroUSD r"
    by (rule foldE_each [OF f(1)]) (auto simp: validateGrantRequest_def split: if_splits)
  then show "\<forall>r \<in> set (aq_Requests req). 0 \<le> rw_WantMicroUSD r \<and> in64 (rw_WantMicroUSD r)"
    using assms(2) by (auto simp: request64_def list_all_iff)
qed

text \<open>The definitions an authority derives are positive and fit.\<close>

lemma authority_budgets_ok:
  assumes "AuthorityBudgets hs hb docs now = Inr bs"
  shows "\<forall>b \<in> set bs. budgetOK b"
proof
  fix B assume "B \<in> set bs"
  then obtain doc p r b where src: "FromV1Alpha1 doc = Inr p" "r \<in> set (p_Rules p)" "r_Budget r = Some b"
    "\<not> b_Unlimited b" "B = authorityBudget hs hb now p r b"
    using authority_budget_source [OF assms] by metis
  then have "wfBudget (r_FailurePolicy r) b"
    using conversion_wf [OF src(1)] by (auto simp: wfPolicy_def wfRule_def)
  then show "budgetOK B" using src(4,5) by (simp add: wfBudget_def budgetOK_def)
qed

section \<open>The loops and the write-back\<close>

lemma sync_accounts_ok:
  assumes "txOK x L tx" and "\<forall>b \<in> set budgets. budgetOK b"
    and "\<forall>b \<in> set budgets. ab_HardCap b \<longrightarrow> ab_LimitMicroUSD b \<le> L (accountOf b)"
    and "\<forall>r \<in> set (aq_Reports req). reportOK r" "\<forall>m \<in> set (aq_Meters req). meterValid m"
      "\<forall>r \<in> set (aq_Requests req). 0 \<le> rw_WantMicroUSD r \<and> in64 (rw_WantMicroUSD r)"
    and "syncAccounts env newID budgets now dp req tx = Inr (tx', out)"
  shows "txOK x L tx'"
proof -
  obtain tx1 tx2 where f: "foldE (applyReport env dp (aq_Instance req)) (aq_Reports req) tx = Inr tx1"
    "foldE (applyMeter dp (aq_Instance req)) (aq_Meters req) tx1 = Inr tx2"
    "foldE (issueGrant env newID budgets now dp (aq_Instance req)) (aq_Requests req) (tx2, ([], [])) = Inr (tx', out)"
    using assms(7) by (auto simp: syncAccounts_def split: sum.splits)
  have "txOK x L tx1"
    by (rule foldE_invariant [where P = "txOK x L", OF f(1) assms(1)]) (use assms(4) apply_report_ok in blast)
  then have tx2: "txOK x L tx2"
    by (rule foldE_invariant [where P = "txOK x L", OF f(2)]) (use assms(5) apply_meter_ok in blast)
  have "txOK x L (fst (tx', out))"
  proof (rule foldE_invariant [OF f(3), where P = "\<lambda>st. txOK x L (fst st)"])
    show "txOK x L (fst s')" if "r \<in> set (aq_Requests req)" "txOK x L (fst s)"
      "issueGrant env newID budgets now dp (aq_Instance req) r s = Inr s'" for r s s'
      using issue_ok [OF that(2) assms(2,3), of r env newID now dp "aq_Instance req" "snd s" "fst s'" "snd s'"]
        that(1,3) assms(6) by simp
  qed (use tx2 in simp)
  then show ?thesis by simp
qed

lemma persist_tables:
  assumes "foldE (persistAccount m) ks db = Inr db'" "distinct ks"
  shows "db' = db\<lparr>lg_accounts := lg_accounts db'\<rparr>"
    and "Mapping.lookup (lg_accounts db') k = (if k \<in> set ks then Mapping.lookup m k else Mapping.lookup (lg_accounts db) k)"
    and "\<forall>k \<in> set ks. \<exists>a. Mapping.lookup m k = Some a \<and> hardEncumbered a + softConsumed a \<le> MaxInt64"
proof -
  have "db' = db\<lparr>lg_accounts := lg_accounts db'\<rparr> \<and>
    (\<forall>k. Mapping.lookup (lg_accounts db') k = (if k \<in> set ks then Mapping.lookup m k else Mapping.lookup (lg_accounts db) k))
    \<and> (\<forall>k \<in> set ks. \<exists>a. Mapping.lookup m k = Some a \<and> hardEncumbered a + softConsumed a \<le> MaxInt64)"
    using assms
  proof (induction ks arbitrary: db)
    case Nil
    then show ?case by simp
  next
    case (Cons j ks)
    obtain a n where a: "Mapping.lookup m j = Some a" "checkedAdd (hardEncumbered a) (softConsumed a) = Inr n"
      and rest: "foldE (persistAccount m) ks (db\<lparr>lg_accounts := Mapping.update j a (lg_accounts db)\<rparr>) = Inr db'"
      using Cons.prems(1)
      by (cases "Mapping.lookup m j")
        (auto simp: persistAccount_def [of m j] split: sum.splits if_splits)
    from Cons.IH [OF rest] Cons.prems(2) a(1) led.cadd_InrD [OF a(2)] show ?case
      by (auto simp: lookup_update' intro: Ledger.equality)
  qed
  then show "db' = db\<lparr>lg_accounts := lg_accounts db'\<rparr>"
    and "Mapping.lookup (lg_accounts db') k = (if k \<in> set ks then Mapping.lookup m k else Mapping.lookup (lg_accounts db) k)"
    and "\<forall>k \<in> set ks. \<exists>a. Mapping.lookup m k = Some a \<and> hardEncumbered a + softConsumed a \<le> MaxInt64"
    by blast+
qed

text \<open>Writing back makes the tables what the transaction sees.\<close>

lemma persist_view:
  assumes "persistAccounts tx = Inr db'" "finite (Mapping.keys (tx_accounts tx))"
  shows "accountAt (lg_accounts db') = view tx" and "lg_requests db' = lg_requests (tx_db tx)"
    and "lg_meters db' = lg_meters (tx_db tx)"
proof -
  note p = persist_tables [OF assms(1) [unfolded persistAccounts_def] distinct_ordered_keys]
  show "accountAt (lg_accounts db') = view tx"
    using assms(2) by (auto simp: fun_eq_iff accountAt_def view_def p(2) keys_lookup split: option.split)
  show "lg_requests db' = lg_requests (tx_db tx)" "lg_meters db' = lg_meters (tx_db tx)"
    by (subst p(1); simp)+
qed

lemma persist_ok:
  assumes "txOK x L tx" "persistAccounts tx = Inr db'"
  shows "ledgerInv x db' \<and> withinCaps L (accountAt (lg_accounts db'))"
proof -
  have fin: "finite (Mapping.keys (tx_accounts tx))" using assms(1) by (simp add: txOK_def txInv_def)
  note p = persist_view [OF assms(2) fin]
  have "grantTotal f k db' = grantTotal f k (tx_db tx)" "meterTotal k db' = meterTotal k (tx_db tx)" for f k
    by (simp_all add: grantTotal_def meterTotal_def p)
  then show ?thesis
    using assms(1) unfolding p(1)
    by (simp add: txOK_def txInv_def ledgerInv_def balanced_def tablesOK_def uniqueIDs_def p)
qed

section \<open>Tiers touch no account\<close>

definition sameMoney :: "Ledger \<Rightarrow> Ledger \<Rightarrow> bool" where
  "sameMoney db db' \<longleftrightarrow> lg_accounts db' = lg_accounts db \<and> lg_requests db' = lg_requests db \<and> lg_meters db' = lg_meters db"

lemma active_tiers_same:
  assumes "activeTiers docs budgets accounts db = Inr (db', out)"
  shows "sameMoney db db'"
proof -
  have one: "sameMoney db (fst s')" if "sameMoney db (fst s)" "activeTier budgets accounts doc rule s = Inr s'" for doc rule s s'
    using that by (cases s) (auto simp: activeTier_def Let_def sameMoney_def split: option.splits if_splits)
  have "sameMoney db (fst (db', out))"
  proof (rule foldE_invariant [OF assms [unfolded activeTiers_def], where P = "\<lambda>s. sameMoney db (fst s)"])
    show "sameMoney db (fst s')" if "sameMoney db (fst s)"
      "foldE (activeTier budgets accounts doc) (gs_Rules (gp_Spec doc)) s = Inr s'" for doc s s'
      by (rule foldE_invariant [OF that(2), where P = "\<lambda>s. sameMoney db (fst s)"]) (use that(1) one in auto)
  qed (simp add: sameMoney_def)
  then show ?thesis by simp
qed

lemma same_money_ok:
  assumes "sameMoney db db'" "ledgerInv x db \<and> withinCaps L (accountAt (lg_accounts db))"
  shows "ledgerInv x db' \<and> withinCaps L (accountAt (lg_accounts db'))"
  using assms
  by (simp add: sameMoney_def ledgerInv_def balanced_def tablesOK_def uniqueIDs_def grantTotal_def meterTotal_def)

section \<open>The transaction\<close>

lemma sync_transaction_parts:
  assumes "syncTransaction env newID aid rows now1 now dp req db = Inr (db', resp)"
  obtains docs budgets tx0 tx out db1 tiers where
    "readPolicies env rows = Inr docs" "AuthorityBudgets (le_hs env) (le_hb env) docs now1 = Inr budgets"
    "lockAccounts env dp (aq_Reports req) (aq_Meters req) budgets
       (db\<lparr>lg_dataplanes := insert dp (lg_dataplanes db)\<rparr>) = Inr tx0"
    "\<forall>b \<in> set budgets. ab_WindowStart b \<le> now \<and> now < ab_WindowEnd b"
    "syncAccounts env newID budgets now dp req tx0 = Inr (tx, out)" "persistAccounts tx = Inr db1"
    "activeTiers docs budgets (tx_accounts tx) db1 = Inr (db', tiers)"
    "resp = \<lparr>sr_Policies = docs, sr_Generation = le_gen env docs, sr_SyncIntervalSeconds = syncInterval budgets,
       sr_AuthorityID = aid,
       sr_Authority = \<lparr>as_Protocol = AuthorityProtocol, as_ServerTime = now, as_Budgets = budgets,
         as_Grants = fst out, as_ReportAcks = map reportAck (aq_Reports req),
         as_MeterAcks = map meterAck (aq_Meters req), as_Denied = snd out\<rparr>,
       sr_ActiveTiers = tiers\<rparr>"
proof -
  note parts = that
  obtain docs where docs: "readPolicies env rows = Inr docs"
    using assms by (auto simp: syncTransaction_def split: sum.splits)
  note s1 = assms [unfolded syncTransaction_def docs sum.case]
  obtain budgets where budgets: "AuthorityBudgets (le_hs env) (le_hb env) docs now1 = Inr budgets"
    using s1 by (auto split: sum.splits)
  note s2 = s1 [unfolded budgets sum.case]
  obtain tx0 where tx0: "lockAccounts env dp (aq_Reports req) (aq_Meters req) budgets
       (db\<lparr>lg_dataplanes := insert dp (lg_dataplanes db)\<rparr>) = Inr tx0"
    using s2 by (auto split: sum.splits)
  note s3 = s2 [unfolded tx0 sum.case]
  have win: "\<not> list_ex (\<lambda>b. \<not> now < ab_WindowEnd b \<or> now < ab_WindowStart b) budgets"
    using s3 by (auto split: if_splits)
  note s4 = s3 [unfolded if_not_P [OF win]]
  obtain tx out where acc: "syncAccounts env newID budgets now dp req tx0 = Inr (tx, out)"
    using s4 by (auto split: sum.splits)
  note s5 = s4 [unfolded acc sum.case prod.case]
  obtain db1 where db1: "persistAccounts tx = Inr db1"
    using s5 by (cases out) (auto split: sum.splits)
  obtain tiers where "activeTiers docs budgets (tx_accounts tx) db1 = Inr (db', tiers)"
    "resp = \<lparr>sr_Policies = docs, sr_Generation = le_gen env docs, sr_SyncIntervalSeconds = syncInterval budgets,
       sr_AuthorityID = aid,
       sr_Authority = \<lparr>as_Protocol = AuthorityProtocol, as_ServerTime = now, as_Budgets = budgets,
         as_Grants = fst out, as_ReportAcks = map reportAck (aq_Reports req),
         as_MeterAcks = map meterAck (aq_Meters req), as_Denied = snd out\<rparr>,
       sr_ActiveTiers = tiers\<rparr>"
    using s5 db1 by (cases out) (auto split: sum.splits prod.splits)
  with docs budgets tx0 win acc db1 show thesis
    by (intro parts) (auto simp: list_ex_iff not_le)
qed

text \<open>The limits of the hard budgets a list of policy rows defines.\<close>

definition limitsWithin :: "LedgerEnv \<Rightarrow> (accountKey \<Rightarrow> int) \<Rightarrow> (string \<times> string) list \<Rightarrow> gotime \<Rightarrow> bool" where
  "limitsWithin env L rows now \<longleftrightarrow>
     (\<forall>docs budgets. readPolicies env rows = Inr docs \<longrightarrow>
        AuthorityBudgets (le_hs env) (le_hb env) docs now = Inr budgets \<longrightarrow>
        (\<forall>b \<in> set budgets. ab_HardCap b \<longrightarrow> ab_LimitMicroUSD b \<le> L (accountOf b)))"

lemma sync_transaction_ok:
  assumes "ledgerInv x db \<and> withinCaps L (accountAt (lg_accounts db))"
    and "validateRequest dp req = None" "request64 req" "limitsWithin env L rows now1"
    and step: "syncTransaction env newID aid rows now1 now dp req db = Inr (db', resp)"
  shows "ledgerInv x db' \<and> withinCaps L (accountAt (lg_accounts db'))"
  using step
proof (cases rule: sync_transaction_parts)
  case (1 docs budgets tx0 tx out db1 tiers)
  let ?db0 = "db\<lparr>lg_dataplanes := insert dp (lg_dataplanes db)\<rparr>"
  have "ledgerInv x ?db0 \<and> withinCaps L (accountAt (lg_accounts ?db0))"
    by (rule same_money_ok [OF _ assms(1)]) (simp add: sameMoney_def)
  then have "txOK x L tx0" using locked_ok lock_accounts_locked [OF 1(3)] by blast
  then have "txOK x L tx"
    using sync_accounts_ok [OF _ authority_budgets_ok [OF 1(2)] _ validated [OF assms(2,3)] 1(5)]
      assms(4) 1(1,2) by (auto simp: limitsWithin_def)
  then show ?thesis
    using persist_ok [OF _ 1(6)] same_money_ok [OF active_tiers_same [OF 1(7)]] by blast
qed

lemma run_transaction_cases:
  assumes "runTransaction oc body db = (db', res)"
  obtains "db' = db" "\<exists>e. res = Inl e" | r where "body db = Inr (db', r)" "res = Inr r \<or> res = Inl LDatabase"
  using assms by (auto simp: runTransaction_def split: if_splits sum.splits commit.splits prod.splits)

lemma sync_ok:
  assumes "ledgerInv x db \<and> withinCaps L (accountAt (lg_accounts db))" "request64 req" "limitsWithin env L rows now1"
    and "Sync env newID aid rows now1 now oc dp req db = (db', res)"
  shows "ledgerInv x db' \<and> withinCaps L (accountAt (lg_accounts db'))"
proof (cases "validateRequest dp req")
  case (Some e)
  then show ?thesis using assms(1,4) by (simp add: Sync_def)
next
  case None
  then have "runTransaction oc (syncTransaction env newID aid rows now1 now dp req) db = (db', res)"
    using assms(4) by (simp add: Sync_def)
  then show ?thesis
  proof (cases rule: run_transaction_cases)
    case 1
    then show ?thesis using assms(1) by simp
  next
    case (2 r)
    then show ?thesis using sync_transaction_ok [OF assms(1) None assms(2,3)] by blast
  qed
qed

end
