(* ===== verification/SharedLedger.thy ===== *)
theory SharedLedger
  imports LedgerSync
begin

text \<open>
  The shared admission profile of the ledger, \<^verbatim>\<open>internal/authority/pgstore\<close> (\<^verbatim>\<open>shared.go\<close>,
  \<^verbatim>\<open>shared_constraints.go\<close>, \<^verbatim>\<open>shared_finish.go\<close>, \<^verbatim>\<open>shared_rate.go\<close>) with its types in
  \<^verbatim>\<open>internal/governance/shared.go\<close>: one transaction reserves every applicable limit before a
  provider call, another one settles or cancels it. Money of policy budgets is also booked on
  the accounts of the escrow.

  The principal a transaction reads from the key store is an argument (\<open>None\<close> when it cannot
  be read); clocks, the permit identity and the commit outcome are arguments as for \<open>Sync\<close>.
  \<open>fpr\<close> is the fingerprint of a terminal outcome. The debt of a rate counter and its segments
  are arbitrary precision integers, as in the source. The rows of \<^verbatim>\<open>shared_rate_segments\<close> are
  a list in the order of their identity.
\<close>

section \<open>Types\<close>

record SharedRequest =
  sq_Subject :: Subject
  sq_AuthRevision :: string
  sq_PolicyGeneration :: string
  sq_RequestedModel :: string
  sq_Model :: string
  sq_TokenBound :: int
  sq_CostBoundMicroUSD :: int

record SharedPermit =
  sp_ID :: string
  sp_TokenBound :: int
  sp_CostBoundMicroUSD :: int

record SharedSettlement =
  ss_Tokens :: "int option"
  ss_CostMicroUSD :: "int option"
  ss_Complete :: bool
  ss_InvalidUsage :: bool

record SharedLimit =
  sl_Scope :: string
  sl_Kind :: string
  sl_Policy :: string
  sl_Rule :: string
  sl_Window :: string
  sl_Limit :: int
  sl_Used :: int
  sl_Reserved :: int
  sl_Remaining :: int
  sl_ResetsAt :: gotime
  sl_Hard :: bool

datatype shared_error = ErrSharedUnavailable | SharedDenial int string int

record sharedDefinition =
  sf_id :: accountKey
  sf_scope :: string
  sf_kind :: string
  sf_policy :: string
  sf_rule :: string
  sf_window :: string
  sf_moneyKey :: string
  sf_limit :: int
  sf_hard :: bool
  sf_start :: gotime
  sf_end :: gotime

record sharedCounter =
  sc_used :: int
  sc_reserved :: int
  sc_rate :: int
  sc_debt :: int
  sc_refilled :: int
  sc_updated :: gotime
  sc_frozen :: bool

record sharedBooking =
  sbk_id :: accountKey
  sbk_kind :: string
  sbk_moneyKey :: string
  sbk_amount :: int
  sbk_hard :: bool

text \<open>A row of \<^verbatim>\<open>shared_permits\<close> and one of \<^verbatim>\<open>shared_rate_segments\<close>.\<close>

record permitRow =
  pw_tokens :: int
  pw_cost :: int
  pw_bookings :: nat
  pw_terminal :: string
  pw_fingerprint :: string
  pw_invalid :: bool

record segment =
  sg_permit :: string
  sg_counter :: accountKey
  sg_remaining :: int
  sg_uncertain :: bool

record SharedDb =
  sd_ledger :: Ledger
  sd_counters :: "(accountKey, sharedCounter) mapping"
  sd_permits :: "(string, permitRow) mapping"
  sd_bookings :: "(string \<times> accountKey, sharedBooking) mapping"
  sd_segments :: "segment list"

definition emptyShared :: SharedDb where
  "emptyShared = \<lparr>sd_ledger = emptyLedger, sd_counters = Mapping.empty, sd_permits = Mapping.empty,
     sd_bookings = Mapping.empty, sd_segments = []\<rparr>"

section \<open>Definitions of the limits\<close>

definition sharedRateScale :: int where
  "sharedRateScale = 60000000"

definition sharedScaled :: "int \<Rightarrow> int" where
  "sharedScaled amount = amount * sharedRateScale"

definition sharedCeil :: "int \<Rightarrow> shared_error + int" where
  "sharedCeil v =
     (let n = (v + (sharedRateScale - 1)) sdiv sharedRateScale
      in if \<not> in64 n \<or> n < 0 then Inl ErrSharedUnavailable else Inr n)"

definition sf_rate :: "sharedDefinition \<Rightarrow> int" where
  "sf_rate d = (if sf_kind d = ''rpm'' \<or> sf_kind d = ''tpm'' then sf_limit d else 0)"

definition sf_bound :: "sharedDefinition \<Rightarrow> SharedRequest \<Rightarrow> int" where
  "sf_bound d r =
     (if sf_kind d = ''rpm'' then 1
      else if sf_kind d = ''microUSD'' then sq_CostBoundMicroUSD r
      else sq_TokenBound r)"

definition sharedWindow :: "gotime \<Rightarrow> string \<Rightarrow> gotime \<times> gotime" where
  "sharedWindow now period = utcWindow now period"

definition sharedScope :: "string \<Rightarrow> string \<Rightarrow> string" where
  "sharedScope team user =
     (if team \<noteq> [] \<and> user \<noteq> [] then ''team-user'' else if user \<noteq> [] then ''user'' else ''team'')"

definition sharedMatch :: "string \<Rightarrow> string \<Rightarrow> Principal \<Rightarrow> bool" where
  "sharedMatch team user p \<longleftrightarrow> (team = [] \<or> team = pn_Team p) \<and> (user = [] \<or> user = pn_Owner p)"

text \<open>The closure \<^verbatim>\<open>add\<close>: a limit of 0 is no limit.\<close>

definition addDefinition ::
  "LedgerEnv \<Rightarrow> gotime \<Rightarrow> string \<Rightarrow> string \<Rightarrow> string \<Rightarrow> string \<Rightarrow> string \<Rightarrow> int \<Rightarrow> bool \<Rightarrow> string \<Rightarrow> sharedDefinition list" where
  "addDefinition env now scope identity kind pol rule limit hard period =
     (if limit = 0 then []
      else
        (let key = le_hs env [scope, identity, kind, pol, rule, period];
             (start, finish) = (if period \<noteq> [] then sharedWindow now period else (0, 0))
         in [\<lparr>sf_id = (key, if period \<noteq> [] then rfc3339_midnight start else ''bucket''),
              sf_scope = scope, sf_kind = kind, sf_policy = pol, sf_rule = rule,
              sf_window = (if period \<noteq> [] then period else ''minute''), sf_moneyKey = [],
              sf_limit = limit, sf_hard = hard, sf_start = start, sf_end = finish\<rparr>]))"

definition identityDefinitions :: "LedgerEnv \<Rightarrow> gotime \<Rightarrow> Principal \<Rightarrow> TeamRecord \<Rightarrow> sharedDefinition list" where
  "identityDefinitions env now p t =
     (let team = pn_Team p; key = pn_KeyID p; add = addDefinition env now in
      add ''team'' team ''rpm'' [] [] (tr_RPM t) True []
      @ add ''team'' team ''tpm'' [] [] (tr_TPM t) True []
      @ add ''team'' team ''tokens'' [] [] (tr_TokensPerDay t) (tr_QuotaOnExceeded t \<noteq> ''warn'') PeriodCalendarDay
      @ add ''team'' team ''microUSD'' [] [] (tr_BudgetUSDMicros t) (tr_BudgetOnExceeded t \<noteq> ''warn'') PeriodCalendarMonth
      @ add ''team'' team ''microUSD'' [] [] (tr_BudgetUSDMicrosPerDay t) (tr_BudgetOnExceeded t \<noteq> ''warn'') PeriodCalendarDay
      @ add ''key'' key ''rpm'' [] [] (pn_RPM p) True []
      @ add ''key'' key ''tpm'' [] [] (pn_TPM p) True []
      @ add ''key'' key ''microUSD'' [] [] (pn_BudgetUSDMicros p) True PeriodCalendarMonth
      @ add ''key'' key ''microUSD'' [] [] (pn_BudgetUSDMicrosPerDay p) True PeriodCalendarDay)"

definition ruleDefinitions :: "LedgerEnv \<Rightarrow> gotime \<Rightarrow> Policy \<Rightarrow> Rule \<Rightarrow> sharedDefinition list" where
  "ruleDefinitions env now pol r =
     (let team = ps_Team (p_Subject pol); user = ps_User (p_Subject pol);
          scope = sharedScope team user; identity = le_hs env [team, user]
      in (case r_Rate r of
            None \<Rightarrow> []
          | Some rate \<Rightarrow>
              if pr_Unlimited rate then []
              else addDefinition env now scope identity ''rpm'' (p_Name pol) (r_Name r) (pr_RPM rate) True []
                 @ addDefinition env now scope identity ''tpm'' (p_Name pol) (r_Name r) (pr_TPM rate) True [])
         @ (case r_TokenQuota r of
              None \<Rightarrow> []
            | Some q \<Rightarrow>
                addDefinition env now scope identity ''tokens'' (p_Name pol) (r_Name r) (q_LimitTokens q) True (q_Period q)))"

definition docDefinitions ::
  "LedgerEnv \<Rightarrow> gotime \<Rightarrow> Principal \<Rightarrow> GovernancePolicy \<Rightarrow> sharedDefinition list \<Rightarrow> shared_error + sharedDefinition list" where
  "docDefinitions env now p doc defs =
     (case FromV1Alpha1 doc of
        Inl _ \<Rightarrow> Inl ErrSharedUnavailable
      | Inr pol \<Rightarrow>
          if \<not> sharedMatch (ps_Team (p_Subject pol)) (ps_User (p_Subject pol)) p then Inr defs
          else Inr (defs @ concat (map (ruleDefinitions env now pol) (p_Rules pol))))"

definition budgetDefinition :: "AuthorityBudget \<Rightarrow> sharedDefinition" where
  "budgetDefinition b =
     \<lparr>sf_id = (''money:'' @ ab_Key b, ab_WindowID b), sf_scope = sharedScope (ab_Team b) (ab_User b),
      sf_kind = ''microUSD'', sf_policy = ab_Policy b, sf_rule = ab_Rule b,
      sf_window = (if time_sub (ab_WindowEnd b) (ab_WindowStart b) = 86400 * Second
                   then PeriodCalendarDay else PeriodCalendarMonth),
      sf_moneyKey = ab_Key b, sf_limit = ab_LimitMicroUSD b, sf_hard = ab_HardCap b,
      sf_start = ab_WindowStart b, sf_end = ab_WindowEnd b\<rparr>"

definition limitsValid :: "Principal \<Rightarrow> TeamRecord \<Rightarrow> bool" where
  "limitsValid p t \<longleftrightarrow>
     list_all (\<lambda>n. 0 \<le> n) [tr_RPM t, tr_TPM t, tr_TokensPerDay t, tr_BudgetUSDMicros t, tr_BudgetUSDMicrosPerDay t,
       pn_RPM p, pn_TPM p, pn_BudgetUSDMicros p, pn_BudgetUSDMicrosPerDay p]
     \<and> tr_QuotaOnExceeded t \<in> {[], ''block'', ''warn''} \<and> tr_BudgetOnExceeded t \<in> {[], ''block'', ''warn''}"

definition sharedChanged :: shared_error where
  "sharedChanged = SharedDenial 503 ''shared authentication snapshot changed'' 1"

definition sharedDefinitions ::
  "LedgerEnv \<Rightarrow> (string \<times> string) list \<Rightarrow> Principal \<Rightarrow> gotime \<Rightarrow> string option
   \<Rightarrow> shared_error + sharedDefinition list \<times> AuthorityBudget list" where
  "sharedDefinitions env rows p now generation =
     (case readPolicies env rows of
        Inl _ \<Rightarrow> Inl ErrSharedUnavailable
      | Inr docs \<Rightarrow>
          if (case generation of None \<Rightarrow> False | Some g \<Rightarrow> g = [] \<or> g \<noteq> le_gen env docs)
          then Inl (SharedDenial 503 ''shared policy snapshot changed'' 1)
          else (case AuthorityBudgets (le_hs env) (le_hb env) docs now of
                  Inl _ \<Rightarrow> Inl ErrSharedUnavailable
                | Inr allBudgets \<Rightarrow>
                    (case pn_TeamSnapshot p of
                       None \<Rightarrow> Inl sharedChanged
                     | Some t \<Rightarrow>
                         if \<not> limitsValid p t then Inl ErrSharedUnavailable
                         else (case foldE (docDefinitions env now p) docs (identityDefinitions env now p t) of
                                 Inl e \<Rightarrow> Inl e
                               | Inr defs \<Rightarrow>
                                   (let budgets = filter (\<lambda>b. sharedMatch (ab_Team b) (ab_User b) p) allBudgets
                                    in Inr (sort_key sf_id (defs @ map budgetDefinition budgets), budgets))))))"

section \<open>Counters\<close>

definition newCounter :: "sharedDefinition \<Rightarrow> gotime \<Rightarrow> sharedCounter" where
  "newCounter d now = \<lparr>sc_used = 0, sc_reserved = 0, sc_rate = sf_rate d, sc_debt = 0, sc_refilled = 0,
     sc_updated = now, sc_frozen = False\<rparr>"

text \<open>The transaction in progress: the tables, the locked accounts and the locked counters.\<close>

record STx =
  st_db :: SharedDb
  st_accounts :: "(accountKey, account) mapping"
  st_counters :: "(accountKey, sharedCounter) mapping"

definition lockSharedCounter ::
  "sharedDefinition list \<Rightarrow> gotime \<Rightarrow> bool \<Rightarrow> accountKey \<Rightarrow> STx \<Rightarrow> shared_error + STx" where
  "lockSharedCounter defs now create k tx =
     (let rows = sd_counters (st_db tx);
          rows' = (case map_of (rev (map (\<lambda>d. (sf_id d, d)) defs)) k of
                     None \<Rightarrow> rows
                   | Some d \<Rightarrow> if create \<and> Mapping.lookup rows k = None then Mapping.update k (newCounter d now) rows else rows)
      in case Mapping.lookup rows' k of
           None \<Rightarrow> Inl ErrSharedUnavailable
         | Some c \<Rightarrow> Inr (tx\<lparr>st_db := (st_db tx)\<lparr>sd_counters := rows'\<rparr>,
                            st_counters := Mapping.update k c (st_counters tx)\<rparr>))"

definition lockSharedCounters :: "sharedDefinition list \<Rightarrow> gotime \<Rightarrow> bool \<Rightarrow> STx \<Rightarrow> shared_error + STx" where
  "lockSharedCounters defs now create tx =
     foldE (lockSharedCounter defs now create) (orderedKeys (map sf_id defs)) tx"

definition persistSharedCounters :: "STx \<Rightarrow> SharedDb \<Rightarrow> SharedDb" where
  "persistSharedCounters tx db =
     db\<lparr>sd_counters := range_put (\<lambda>_ c _. Some c) (st_counters tx) (sd_counters db)\<rparr>"

definition refill :: "gotime \<Rightarrow> int \<Rightarrow> sharedCounter \<Rightarrow> shared_error + sharedCounter" where
  "refill now rate c =
     (if now < sc_updated c then Inl ErrSharedUnavailable
      else
        (let delta = (if sc_rate c > 0
                      then min ((now div 1000 - sc_updated c div 1000) * min (sc_rate c) rate) (sc_debt c)
                      else 0)
         in Inr (c\<lparr>sc_debt := sc_debt c - delta, sc_refilled := sc_refilled c + delta,
                   sc_rate := rate, sc_updated := now\<rparr>)))"

text \<open>
  The update of the segments of one counter: the oldest debt is retired first. \<open>prior\<close> is the
  sum of the remaining debt before the segment.
\<close>

fun retireSegments :: "accountKey \<Rightarrow> int \<Rightarrow> int \<Rightarrow> segment list \<Rightarrow> segment list \<times> int" where
  "retireSegments k amount prior [] = ([], 0)"
| "retireSegments k amount prior (s # ss) =
     (if sg_counter s \<noteq> k then
        (case retireSegments k amount prior ss of (out, n) \<Rightarrow> (s # out, n))
      else
        (let remaining = (if prior < amount
                          then max 0 (sg_remaining s - max 0 (amount - prior)) else sg_remaining s)
         in case retireSegments k amount (prior + sg_remaining s) ss of
              (out, n) \<Rightarrow> (s\<lparr>sg_remaining := remaining\<rparr> # out, n + (sg_remaining s - remaining))))"

definition dropRetired :: "accountKey \<Rightarrow> segment list \<Rightarrow> segment list" where
  "dropRetired k ss = filter (\<lambda>s. \<not> (sg_counter s = k \<and> sg_remaining s = 0)) ss"

definition refillSharedRate :: "accountKey \<Rightarrow> gotime \<Rightarrow> int \<Rightarrow> STx \<Rightarrow> shared_error + STx" where
  "refillSharedRate k now rate tx =
     (case Mapping.lookup (st_counters tx) k of
        None \<Rightarrow> Inl ErrSharedUnavailable
      | Some c \<Rightarrow>
          (case refill now rate c of
             Inl e \<Rightarrow> Inl e
           | Inr c' \<Rightarrow>
               (let retired = sc_debt c - sc_debt c'; tx' = tx\<lparr>st_counters := Mapping.update k c' (st_counters tx)\<rparr>
                in if retired = 0 then Inr tx'
                   else (case retireSegments k retired 0 (sd_segments (st_db tx)) of
                           (segments, n) \<Rightarrow>
                             if n \<noteq> retired then Inl ErrSharedUnavailable
                             else Inr (tx'\<lparr>st_db := (st_db tx)\<lparr>sd_segments := dropRetired k segments\<rparr>\<rparr>)))))"

section \<open>Admission\<close>

definition sharedSubjectMatches :: "Principal \<Rightarrow> Subject \<Rightarrow> bool" where
  "sharedSubjectMatches p subject \<longleftrightarrow> pn_Team p = s_Team subject \<and> pn_KeyID p = s_KeyID subject \<and> pn_Owner p = s_User subject"

definition sharedSnapshot :: "Principal option \<Rightarrow> Subject \<Rightarrow> shared_error + Principal" where
  "sharedSnapshot row subject =
     (if \<not> validText (s_KeyID subject) \<or> \<not> validText (s_Team subject)
         \<or> (s_User subject \<noteq> [] \<and> \<not> validText (s_User subject)) then Inl sharedChanged
      else (case row of
              None \<Rightarrow> Inl ErrSharedUnavailable
            | Some p \<Rightarrow>
                if \<not> sharedSubjectMatches p subject \<or> \<not> pn_TeamSnapshotLoaded p
                  \<or> (case pn_TeamSnapshot p of None \<Rightarrow> True | Some t \<Rightarrow> tr_Name t \<noteq> pn_Team p)
                  \<or> pn_SharedRevision p = []
                then Inl sharedChanged else Inr p))"

definition sharedCheckClock :: "Principal \<Rightarrow> sharedDefinition list \<Rightarrow> gotime \<Rightarrow> shared_error option" where
  "sharedCheckClock p defs now =
     (if (case pn_ExpiresAt p of None \<Rightarrow> False | Some t \<Rightarrow> \<not> now < t) then Some sharedChanged
      else if list_ex (\<lambda>d. sf_end d \<noteq> 0 \<and> (now < sf_start d \<or> \<not> now < sf_end d)) defs then Some ErrSharedUnavailable
      else None)"

text \<open>\<^verbatim>\<open>accounts[accountKey{d.moneyKey, d.id.window}]\<close>\<close>

definition moneyAccount :: "string \<Rightarrow> accountKey \<Rightarrow> accountKey" where
  "moneyAccount mk k = (mk, snd k)"

definition unavailable :: "ledger_error + 'a \<Rightarrow> shared_error + 'a" where
  "unavailable res = (case res of Inl _ \<Rightarrow> Inl ErrSharedUnavailable | Inr v \<Rightarrow> Inr v)"

definition sharedCheckCapacity ::
  "sharedDefinition \<Rightarrow> sharedCounter \<Rightarrow> (accountKey, account) mapping \<Rightarrow> int \<Rightarrow> shared_error option" where
  "sharedCheckCapacity d c accounts amount =
     (case (if sf_moneyKey d \<noteq> []
            then (case Mapping.lookup accounts (moneyAccount (sf_moneyKey d) (sf_id d)) of
                    None \<Rightarrow> Inl ErrSharedUnavailable
                  | Some a \<Rightarrow> unavailable (checkedAdd (hardEncumbered a) (softConsumed a)))
            else Inr (sc_used c)) of
        Inl e \<Rightarrow> Some e
      | Inr used \<Rightarrow>
          (case (checkedAdd used amount, checkedAdd (sc_used c) amount, checkedAdd (sc_reserved c) amount) of
             (Inr nxt, Inr _, Inr _) \<Rightarrow>
               (let exhausted = (if sf_rate d > 0 then sc_debt c + sharedScaled amount > sharedScaled (sf_limit d)
                                 else nxt > sf_limit d)
                in if sf_hard d \<and> exhausted
                   then if sf_kind d = ''microUSD''
                        then Some (SharedDenial 402 ''shared monetary budget exhausted'' 0)
                        else Some (SharedDenial 429 ''shared rate or token quota exhausted''
                                     (if sf_rate d > 0 then 60 else 1))
                   else None)
           | _ \<Rightarrow> Some ErrSharedUnavailable))"

definition sharedIsDenial :: "shared_error \<Rightarrow> bool" where
  "sharedIsDenial e = (case e of SharedDenial _ _ _ \<Rightarrow> True | ErrSharedUnavailable \<Rightarrow> False)"

text \<open>The first loop of the admission: refill, freeze and capacity of every limit; the first denial is kept.\<close>

definition admitDefinition ::
  "SharedRequest \<Rightarrow> gotime \<Rightarrow> sharedDefinition \<Rightarrow> STx \<times> shared_error option \<Rightarrow> shared_error + STx \<times> shared_error option" where
  "admitDefinition req now d st =
     (case st of (tx, denial) \<Rightarrow>
        (case refillSharedRate (sf_id d) now (sf_rate d) tx of
           Inl e \<Rightarrow> Inl e
         | Inr tx' \<Rightarrow>
             (case Mapping.lookup (st_counters tx') (sf_id d) of
                None \<Rightarrow> Inl ErrSharedUnavailable
              | Some c \<Rightarrow>
                  if sc_frozen c
                    \<or> (sf_moneyKey d \<noteq> [] \<and>
                       (case Mapping.lookup (st_accounts tx') (moneyAccount (sf_moneyKey d) (sf_id d)) of
                          None \<Rightarrow> True | Some a \<Rightarrow> frozen a))
                  then Inl ErrSharedUnavailable
                  else (case sharedCheckCapacity d c (st_accounts tx') (sf_bound d req) of
                          None \<Rightarrow> Inr (tx', denial)
                        | Some e \<Rightarrow>
                            if sharedIsDenial e then Inr (tx', if denial = None then Some e else denial)
                            else Inl e))))"

definition bookMoney :: "sharedDefinition \<Rightarrow> int \<Rightarrow> account \<Rightarrow> shared_error + account" where
  "bookMoney d amount a =
     (if sf_hard d then
        (case unavailable (checkedAdd (hardEncumbered a) amount) of
           Inl e \<Rightarrow> Inl e
         | Inr v \<Rightarrow> Inr (a\<lparr>hardEncumbered := v\<rparr>))
      else
        (case unavailable (checkedAdd (softConsumed a) amount) of
           Inl e \<Rightarrow> Inl e
         | Inr v \<Rightarrow>
             (case unavailable (checkedAdd (softPending a) amount) of
                Inl e \<Rightarrow> Inl e
              | Inr w \<Rightarrow> Inr (a\<lparr>softConsumed := v, softPending := w\<rparr>))))"

definition bookCounter :: "sharedDefinition \<Rightarrow> int \<Rightarrow> sharedCounter \<Rightarrow> shared_error + sharedCounter" where
  "bookCounter d amount c =
     (case unavailable (checkedAdd (sc_used c) amount) of
        Inl e \<Rightarrow> Inl e
      | Inr u \<Rightarrow>
          (case unavailable (checkedAdd (sc_reserved c) amount) of
             Inl e \<Rightarrow> Inl e
           | Inr r \<Rightarrow>
               Inr (c\<lparr>sc_used := u, sc_reserved := r,
                      sc_debt := (if sf_rate d > 0 then sc_debt c + sharedScaled amount else sc_debt c)\<rparr>)))"

definition sharedBook :: "sharedDefinition \<Rightarrow> int \<Rightarrow> STx \<Rightarrow> shared_error + STx" where
  "sharedBook d amount tx =
     (case Mapping.lookup (st_counters tx) (sf_id d) of
        None \<Rightarrow> Inl ErrSharedUnavailable
      | Some c \<Rightarrow>
          (case bookCounter d amount c of
             Inl e \<Rightarrow> Inl e
           | Inr c' \<Rightarrow>
               (let tx' = tx\<lparr>st_counters := Mapping.update (sf_id d) c' (st_counters tx)\<rparr>;
                    k = moneyAccount (sf_moneyKey d) (sf_id d)
                in if sf_moneyKey d = [] then Inr tx'
                   else (case Mapping.lookup (st_accounts tx) k of
                           None \<Rightarrow> Inl ErrSharedUnavailable
                         | Some a \<Rightarrow>
                             (case bookMoney d amount a of
                                Inl e \<Rightarrow> Inl e
                              | Inr a' \<Rightarrow> Inr (tx'\<lparr>st_accounts := Mapping.update k a' (st_accounts tx)\<rparr>))))))"

definition bookingOf :: "sharedDefinition \<Rightarrow> int \<Rightarrow> sharedBooking" where
  "bookingOf d amount = \<lparr>sbk_id = sf_id d, sbk_kind = sf_kind d, sbk_moneyKey = sf_moneyKey d,
     sbk_amount = amount, sbk_hard = sf_hard d\<rparr>"

text \<open>The second loop: book, insert the booking, which must be new, and the rate segment.\<close>

definition bookDefinition :: "SharedRequest \<Rightarrow> string \<Rightarrow> sharedDefinition \<Rightarrow> STx \<Rightarrow> shared_error + STx" where
  "bookDefinition req hash d tx =
     (let amount = sf_bound d req in
      case sharedBook d amount tx of
        Inl e \<Rightarrow> Inl e
      | Inr tx' \<Rightarrow>
          (let db = st_db tx' in
           if Mapping.lookup (sd_bookings db) (hash, sf_id d) \<noteq> None then Inl ErrSharedUnavailable
           else Inr (tx'\<lparr>st_db := db\<lparr>sd_bookings := Mapping.update (hash, sf_id d) (bookingOf d amount) (sd_bookings db),
                  sd_segments := (if sf_rate d > 0 \<and> amount > 0
                                  then sd_segments db @ [\<lparr>sg_permit = hash, sg_counter = sf_id d,
                                         sg_remaining = sharedScaled amount, sg_uncertain = True\<rparr>]
                                  else sd_segments db)\<rparr>\<rparr>)))"

definition persistShared :: "STx \<Rightarrow> shared_error + SharedDb" where
  "persistShared tx =
     (case unavailable (persistAccounts \<lparr>tx_db = sd_ledger (st_db tx), tx_accounts = st_accounts tx\<rparr>) of
        Inl e \<Rightarrow> Inl e
      | Inr ledger \<Rightarrow> Inr (persistSharedCounters tx ((st_db tx)\<lparr>sd_ledger := ledger\<rparr>)))"

text \<open>Locking both kinds of rows, for the definitions of one principal.\<close>

definition sharedLock ::
  "LedgerEnv \<Rightarrow> AuthorityBudget list \<Rightarrow> AuthorityMeter list \<Rightarrow> sharedDefinition list \<Rightarrow> gotime \<Rightarrow> bool \<Rightarrow> SharedDb
   \<Rightarrow> shared_error + STx" where
  "sharedLock env budgets meters defs now create db =
     (case unavailable (lockAccounts env [] [] meters budgets (sd_ledger db)) of
        Inl e \<Rightarrow> Inl e
      | Inr tx \<Rightarrow>
          lockSharedCounters defs now create
            \<lparr>st_db = db\<lparr>sd_ledger := tx_db tx\<rparr>, st_accounts = tx_accounts tx, st_counters = Mapping.empty\<rparr>)"

definition reserveTransaction ::
  "LedgerEnv \<Rightarrow> string option \<Rightarrow> Principal option \<Rightarrow> (string \<times> string) list \<Rightarrow> gotime \<Rightarrow> gotime \<Rightarrow> SharedRequest \<Rightarrow> SharedDb
   \<Rightarrow> shared_error + SharedDb \<times> SharedPermit" where
  "reserveTransaction env newID row rows now1 now req db =
     (case sharedSnapshot row (sq_Subject req) of
        Inl e \<Rightarrow> Inl e
      | Inr p \<Rightarrow>
          if pn_SharedRevision p \<noteq> sq_AuthRevision req then Inl sharedChanged
          else (case sharedDefinitions env rows p now1 (Some (sq_PolicyGeneration req)) of
                  Inl e \<Rightarrow> Inl e
                | Inr (defs, budgets) \<Rightarrow>
                    (case sharedLock env budgets [] defs now1 True db of
                       Inl e \<Rightarrow> Inl e
                     | Inr tx0 \<Rightarrow>
                         (case sharedCheckClock p defs now of
                            Some e \<Rightarrow> Inl e
                          | None \<Rightarrow>
                              (case foldE (admitDefinition req now) defs (tx0, None) of
                                 Inl e \<Rightarrow> Inl e
                               | Inr (_, Some e) \<Rightarrow> Inl e
                               | Inr (tx1, None) \<Rightarrow>
                                   (case newID of
                                      None \<Rightarrow> Inl ErrSharedUnavailable
                                    | Some pid \<Rightarrow>
                                        (let hash = le_ch env pid;
                                             prow = \<lparr>pw_tokens = sq_TokenBound req, pw_cost = sq_CostBoundMicroUSD req,
                                               pw_bookings = length defs, pw_terminal = [], pw_fingerprint = [],
                                               pw_invalid = False\<rparr>
                                         in if Mapping.lookup (sd_permits (st_db tx1)) hash \<noteq> None then Inl ErrSharedUnavailable
                                            else (case foldE (bookDefinition req hash) defs
                                                    (tx1\<lparr>st_db := (st_db tx1)\<lparr>sd_permits :=
                                                       Mapping.update hash prow (sd_permits (st_db tx1))\<rparr>\<rparr>) of
                                                    Inl e \<Rightarrow> Inl e
                                                  | Inr tx2 \<Rightarrow>
                                                      (case persistShared tx2 of
                                                         Inl e \<Rightarrow> Inl e
                                                       | Inr db' \<Rightarrow>
                                                           Inr (db', \<lparr>sp_ID = pid, sp_TokenBound = sq_TokenBound req,
                                                             sp_CostBoundMicroUSD = sq_CostBoundMicroUSD req\<rparr>))))))))))"

definition runShared :: "commit \<Rightarrow> (SharedDb \<Rightarrow> shared_error + SharedDb \<times> 'r) \<Rightarrow> SharedDb \<Rightarrow> SharedDb \<times> (shared_error + 'r)" where
  "runShared oc body db =
     (if oc = Aborts then (db, Inl ErrSharedUnavailable)
      else (case body db of
              Inl e \<Rightarrow> (db, Inl e)
            | Inr (db', res) \<Rightarrow>
                (case oc of
                   CommitLost applied \<Rightarrow> (if applied then db' else db, Inl ErrSharedUnavailable)
                 | _ \<Rightarrow> (db', Inr res))))"

definition ReserveShared ::
  "LedgerEnv \<Rightarrow> string option \<Rightarrow> Principal option \<Rightarrow> (string \<times> string) list \<Rightarrow> gotime \<Rightarrow> gotime \<Rightarrow> commit
   \<Rightarrow> SharedRequest \<Rightarrow> SharedDb \<Rightarrow> SharedDb \<times> (shared_error + SharedPermit)" where
  "ReserveShared env newID row rows now1 now oc req db =
     (if sq_TokenBound req < 0 \<or> sq_CostBoundMicroUSD req < 0 \<or> \<not> validText (sq_AuthRevision req)
         \<or> \<not> validText (sq_Model req) \<or> \<not> validText (sq_RequestedModel req) then (db, Inl ErrSharedUnavailable)
      else runShared oc (reserveTransaction env newID row rows now1 now req) db)"

section \<open>Settlement\<close>

definition sharedInvalidObservation :: "int option \<Rightarrow> int \<Rightarrow> bool" where
  "sharedInvalidObservation observation bound =
     (case observation of None \<Rightarrow> False | Some v \<Rightarrow> v < 0 \<or> v > bound)"

definition readSharedBookings :: "SharedDb \<Rightarrow> string \<Rightarrow> sharedBooking list" where
  "readSharedBookings db hash =
     map (\<lambda>row. the (Mapping.lookup (sd_bookings db) row))
       (filter (\<lambda>row. fst row = hash) (Mapping.ordered_keys (sd_bookings db)))"

text \<open>What a booking keeps, and whether that is known.\<close>

definition sharedRetained :: "sharedBooking \<Rightarrow> string \<Rightarrow> SharedSettlement \<Rightarrow> int \<times> bool" where
  "sharedRetained b terminal u =
     (if terminal = ''cancel'' then (0, True)
      else if sbk_kind b = ''rpm'' then (sbk_amount b, True)
      else if \<not> ss_Complete u then (sbk_amount b, False)
      else (case (if sbk_kind b = ''microUSD'' then ss_CostMicroUSD u else ss_Tokens u) of
              None \<Rightarrow> (sbk_amount b, False)
            | Some v \<Rightarrow> (v, True)))"

definition segmentOf :: "string \<Rightarrow> accountKey \<Rightarrow> segment \<Rightarrow> bool" where
  "segmentOf hash k s \<longleftrightarrow> sg_permit s = hash \<and> sg_counter s = k"

text \<open>The debt a settlement gives back is at most what is left of the booking's own segment.\<close>

definition returnSharedRate ::
  "string \<Rightarrow> sharedBooking \<Rightarrow> int \<Rightarrow> bool \<Rightarrow> segment list \<Rightarrow> sharedCounter \<Rightarrow> shared_error + segment list \<times> sharedCounter" where
  "returnSharedRate hash b refund known segments c =
     (case List.find (segmentOf hash (sbk_id b)) segments of
        None \<Rightarrow> Inr (segments, c)
      | Some s \<Rightarrow>
          if sg_remaining s < 0 then Inl ErrSharedUnavailable
          else
            (let release = min (sharedScaled refund) (sg_remaining s) in
             if release > sc_debt c then Inl ErrSharedUnavailable
             else
               (let remaining = sg_remaining s - release
                in Inr ((if remaining = 0 then filter (\<lambda>t. \<not> segmentOf hash (sbk_id b) t) segments
                         else map (\<lambda>t. if segmentOf hash (sbk_id b) t
                                       then t\<lparr>sg_remaining := remaining, sg_uncertain := \<not> known\<rparr> else t) segments),
                        c\<lparr>sc_debt := sc_debt c - release\<rparr>))))"

definition settleMoney :: "sharedBooking \<Rightarrow> int \<Rightarrow> account \<Rightarrow> shared_error + account" where
  "settleMoney b retained a =
     (let refund = sub64 (sbk_amount b) retained in
      if sbk_hard b then
        if hardEncumbered a < refund then Inl ErrSharedUnavailable
        else (case unavailable (checkedAdd (hardConsumed a) retained) of
                Inl e \<Rightarrow> Inl e
              | Inr hc \<Rightarrow> Inr (a\<lparr>hardEncumbered := sub64 (hardEncumbered a) refund, hardConsumed := hc\<rparr>))
      else if softConsumed a < refund then Inl ErrSharedUnavailable
      else Inr (a\<lparr>softConsumed := sub64 (softConsumed a) refund\<rparr>))"

definition settleCounter ::
  "string \<Rightarrow> sharedBooking \<Rightarrow> int \<Rightarrow> bool \<Rightarrow> segment list \<Rightarrow> sharedCounter \<Rightarrow> shared_error + segment list \<times> sharedCounter" where
  "settleCounter hash b retained known segments c =
     (let amount = sbk_amount b; refund = sub64 amount retained in
      if retained < 0 \<or> retained > amount \<or> sc_reserved c < amount \<or> sc_used c < amount then Inl ErrSharedUnavailable
      else if sbk_kind b = ''rpm'' \<or> sbk_kind b = ''tpm'' then
        (case returnSharedRate hash b refund known segments c of
           Inl e \<Rightarrow> Inl e
         | Inr (segments', c') \<Rightarrow>
             Inr (segments', c'\<lparr>sc_used := sub64 (sc_used c') amount, sc_reserved := sub64 (sc_reserved c') amount\<rparr>))
      else Inr (segments, c\<lparr>sc_used := sub64 (sc_used c) refund,
                            sc_reserved := (if known then sub64 (sc_reserved c) amount else sc_reserved c)\<rparr>))"

definition settleSharedBooking :: "string \<Rightarrow> sharedBooking \<Rightarrow> int \<Rightarrow> bool \<Rightarrow> STx \<Rightarrow> shared_error + STx" where
  "settleSharedBooking hash b retained known tx =
     (case Mapping.lookup (st_counters tx) (sbk_id b) of
        None \<Rightarrow> Inl ErrSharedUnavailable
      | Some c \<Rightarrow>
          (case settleCounter hash b retained known (sd_segments (st_db tx)) c of
             Inl e \<Rightarrow> Inl e
           | Inr (segments, c') \<Rightarrow>
               (let tx' = tx\<lparr>st_db := (st_db tx)\<lparr>sd_segments := segments\<rparr>,
                       st_counters := Mapping.update (sbk_id b) c' (st_counters tx)\<rparr>;
                    k = moneyAccount (sbk_moneyKey b) (sbk_id b)
                in if sbk_moneyKey b = [] then Inr tx'
                   else (case Mapping.lookup (st_accounts tx) k of
                           None \<Rightarrow> Inl ErrSharedUnavailable
                         | Some a \<Rightarrow>
                             (case settleMoney b retained a of
                                Inl e \<Rightarrow> Inl e
                              | Inr a' \<Rightarrow> Inr (tx'\<lparr>st_accounts := Mapping.update k a' (st_accounts tx)\<rparr>))))))"

text \<open>The pending amount of a soft booking is cleared whatever the outcome.\<close>

definition clearPending :: "sharedBooking \<Rightarrow> STx \<Rightarrow> shared_error + STx" where
  "clearPending b tx =
     (let k = moneyAccount (sbk_moneyKey b) (sbk_id b) in
      if sbk_moneyKey b = [] \<or> sbk_hard b then Inr tx
      else (case Mapping.lookup (st_accounts tx) k of
              None \<Rightarrow> Inl ErrSharedUnavailable
            | Some a \<Rightarrow>
                if softPending a < sbk_amount b then Inl ErrSharedUnavailable
                else Inr (tx\<lparr>st_accounts := Mapping.update k (a\<lparr>softPending := sub64 (softPending a) (sbk_amount b)\<rparr>)
                       (st_accounts tx)\<rparr>)))"

definition freezeBooking :: "sharedBooking \<Rightarrow> STx \<Rightarrow> STx" where
  "freezeBooking b tx =
     (let k = moneyAccount (sbk_moneyKey b) (sbk_id b);
          tx' = tx\<lparr>st_counters := Mapping.map_entry (sbk_id b) (\<lambda>c. c\<lparr>sc_frozen := True\<rparr>) (st_counters tx)\<rparr>
      in if sbk_moneyKey b = [] then tx'
         else tx'\<lparr>st_accounts := Mapping.map_entry k (\<lambda>a. a\<lparr>frozen := True\<rparr>) (st_accounts tx)\<rparr>)"

definition settleBooking ::
  "string \<Rightarrow> string \<Rightarrow> SharedSettlement \<Rightarrow> bool \<Rightarrow> sharedBooking \<Rightarrow> STx \<Rightarrow> shared_error + STx" where
  "settleBooking hash terminal usage invalid b tx =
     (case clearPending b tx of
        Inl e \<Rightarrow> Inl e
      | Inr tx' \<Rightarrow>
          if invalid then Inr (freezeBooking b tx')
          else (case sharedRetained b terminal usage of
                  (retained, known) \<Rightarrow> settleSharedBooking hash b retained known tx'))"

definition bookedMeters :: "sharedBooking list \<Rightarrow> AuthorityMeter list" where
  "bookedMeters bookings =
     map (\<lambda>(mk, w). \<lparr>am_Instance = [], am_Key = mk, am_WindowID = w, am_Sequence = 0, am_Consumed = 0, am_Observed = 0\<rparr>)
       (remdups (map (\<lambda>b. moneyAccount (sbk_moneyKey b) (sbk_id b)) (filter (\<lambda>b. sbk_moneyKey b \<noteq> []) bookings)))"

definition bookedDefinition :: "sharedBooking \<Rightarrow> sharedDefinition" where
  "bookedDefinition b = \<lparr>sf_id = sbk_id b, sf_scope = [], sf_kind = [], sf_policy = [], sf_rule = [], sf_window = [],
     sf_moneyKey = [], sf_limit = 0, sf_hard = False, sf_start = 0, sf_end = 0\<rparr>"

text \<open>The result of a terminal transaction is the invalid flag the caller turns into an error.\<close>

definition terminalTransaction ::
  "LedgerEnv \<Rightarrow> (string \<Rightarrow> SharedSettlement \<Rightarrow> string) \<Rightarrow> gotime \<Rightarrow> SharedPermit \<Rightarrow> string \<Rightarrow> SharedSettlement \<Rightarrow> SharedDb
   \<Rightarrow> shared_error + SharedDb \<times> bool" where
  "terminalTransaction env fpr now p terminal usage db =
     (let hash = le_ch env (sp_ID p); fingerprint = fpr terminal usage in
      case Mapping.lookup (sd_permits db) hash of
        None \<Rightarrow> Inl ErrSharedUnavailable
      | Some row \<Rightarrow>
          if pw_tokens row \<noteq> sp_TokenBound p \<or> pw_cost row \<noteq> sp_CostBoundMicroUSD p then Inl ErrSharedUnavailable
          else if pw_terminal row \<noteq> [] then
            if pw_terminal row \<noteq> terminal \<or> pw_fingerprint row \<noteq> fingerprint \<or> pw_invalid row
            then Inl ErrSharedUnavailable else Inr (db, False)
          else
            (let bookings = readSharedBookings db hash;
                 invalid = (ss_InvalidUsage usage \<or> sharedInvalidObservation (ss_Tokens usage) (pw_tokens row)
                            \<or> sharedInvalidObservation (ss_CostMicroUSD usage) (pw_cost row))
             in if length bookings \<noteq> pw_bookings row then Inl ErrSharedUnavailable
                else (case sharedLock env [] (bookedMeters bookings) (map bookedDefinition bookings) now False db of
                        Inl e \<Rightarrow> Inl e
                      | Inr tx \<Rightarrow>
                          (case foldE (settleBooking hash terminal usage invalid) bookings tx of
                             Inl e \<Rightarrow> Inl e
                           | Inr tx' \<Rightarrow>
                               (case persistShared tx' of
                                  Inl e \<Rightarrow> Inl e
                                | Inr db' \<Rightarrow>
                                    Inr (db'\<lparr>sd_permits := Mapping.update hash
                                           (row\<lparr>pw_terminal := terminal, pw_fingerprint := fingerprint, pw_invalid := invalid\<rparr>)
                                           (sd_permits db')\<rparr>, invalid))))))"

definition sharedTerminal ::
  "LedgerEnv \<Rightarrow> (string \<Rightarrow> SharedSettlement \<Rightarrow> string) \<Rightarrow> gotime \<Rightarrow> commit \<Rightarrow> SharedPermit option \<Rightarrow> string
   \<Rightarrow> SharedSettlement \<Rightarrow> SharedDb \<Rightarrow> SharedDb \<times> shared_error option" where
  "sharedTerminal env fpr now oc permit terminal usage db =
     (case permit of
        None \<Rightarrow> (db, Some ErrSharedUnavailable)
      | Some p \<Rightarrow>
          if \<not> validCapability (sp_ID p) \<or> sp_TokenBound p < 0 \<or> sp_CostBoundMicroUSD p < 0
          then (db, Some ErrSharedUnavailable)
          else (case runShared oc (terminalTransaction env fpr now p terminal usage) db of
                  (db', Inl e) \<Rightarrow> (db', Some e)
                | (db', Inr invalid) \<Rightarrow> (db', if invalid then Some ErrSharedUnavailable else None)))"

definition FinishShared ::
  "LedgerEnv \<Rightarrow> (string \<Rightarrow> SharedSettlement \<Rightarrow> string) \<Rightarrow> gotime \<Rightarrow> commit \<Rightarrow> SharedPermit option \<Rightarrow> SharedSettlement
   \<Rightarrow> SharedDb \<Rightarrow> SharedDb \<times> shared_error option" where
  "FinishShared env fpr now oc permit usage db = sharedTerminal env fpr now oc permit ''finish'' usage db"

definition emptySettlement :: SharedSettlement where
  "emptySettlement = \<lparr>ss_Tokens = None, ss_CostMicroUSD = None, ss_Complete = False, ss_InvalidUsage = False\<rparr>"

definition CancelShared ::
  "LedgerEnv \<Rightarrow> (string \<Rightarrow> SharedSettlement \<Rightarrow> string) \<Rightarrow> gotime \<Rightarrow> commit \<Rightarrow> SharedPermit option
   \<Rightarrow> SharedDb \<Rightarrow> SharedDb \<times> shared_error option" where
  "CancelShared env fpr now oc permit db = sharedTerminal env fpr now oc permit ''cancel'' emptySettlement db"

section \<open>Usage\<close>

definition sharedRateReserved :: "accountKey \<Rightarrow> SharedDb \<Rightarrow> shared_error + int" where
  "sharedRateReserved k db =
     sharedCeil (sum_list (map sg_remaining (filter (\<lambda>s. sg_counter s = k \<and> sg_uncertain s) (sd_segments db))))"

definition localReserved :: "accountKey \<Rightarrow> Ledger \<Rightarrow> int" where
  "localReserved k db =
     sum_list (map (\<lambda>row. case Mapping.lookup (lg_requests db) row of
                None \<Rightarrow> 0
              | Some g \<Rightarrow> if (g_key g, g_window g) = k \<and> \<not> g_closed g then max (g_amount g - g_consumed g) 0 else 0)
       (Mapping.ordered_keys (lg_requests db)))"

definition usageOf :: "STx \<Rightarrow> sharedDefinition \<Rightarrow> sharedCounter \<Rightarrow> shared_error + int \<times> int" where
  "usageOf tx d c =
     (case (if sf_rate d > 0
            then (case (sharedCeil (sc_debt c), sharedRateReserved (sf_id d) (st_db tx)) of
                    (Inr u, Inr r) \<Rightarrow> Inr (u, r)
                  | _ \<Rightarrow> Inl ErrSharedUnavailable)
            else Inr (sc_used c, sc_reserved c)) of
        Inl e \<Rightarrow> Inl e
      | Inr (used, reserved) \<Rightarrow>
          if sf_moneyKey d = [] then Inr (used, reserved)
          else
            (let k = moneyAccount (sf_moneyKey d) (sf_id d); loc = localReserved k (sd_ledger (st_db tx)) in
             case Mapping.lookup (st_accounts tx) k of
               None \<Rightarrow> Inl ErrSharedUnavailable
             | Some a \<Rightarrow>
                 (case unavailable (checkedAdd (hardEncumbered a) (softConsumed a)) of
                    Inl e \<Rightarrow> Inl e
                  | Inr u \<Rightarrow>
                      if \<not> in64 loc then Inl ErrSharedUnavailable
                      else (case unavailable (checkedAdd reserved loc) of
                              Inl e \<Rightarrow> Inl e
                            | Inr r \<Rightarrow> Inr (u, r)))))"

definition usageDefinition ::
  "gotime \<Rightarrow> sharedDefinition \<Rightarrow> STx \<times> SharedLimit list \<Rightarrow> shared_error + STx \<times> SharedLimit list" where
  "usageDefinition now d st =
     (case st of (tx, out) \<Rightarrow>
        (case refillSharedRate (sf_id d) now (sf_rate d) tx of
           Inl e \<Rightarrow> Inl e
         | Inr tx' \<Rightarrow>
             (case Mapping.lookup (st_counters tx') (sf_id d) of
                None \<Rightarrow> Inl ErrSharedUnavailable
              | Some c \<Rightarrow>
                  (case usageOf tx' d c of
                     Inl e \<Rightarrow> Inl e
                   | Inr (used, reserved) \<Rightarrow>
                       Inr (tx', out @ [\<lparr>sl_Scope = sf_scope d, sl_Kind = sf_kind d, sl_Policy = sf_policy d,
                              sl_Rule = sf_rule d, sl_Window = sf_window d, sl_Limit = sf_limit d,
                              sl_Used = used, sl_Reserved = reserved,
                              sl_Remaining = max 0 (sub64 (sf_limit d) used),
                              sl_ResetsAt = sf_end d, sl_Hard = sf_hard d\<rparr>])))))"

text \<open>The transaction is always rolled back, so only the answer is left of it.\<close>

definition SharedUsage ::
  "LedgerEnv \<Rightarrow> Principal option \<Rightarrow> (string \<times> string) list \<Rightarrow> gotime \<Rightarrow> gotime \<Rightarrow> Subject \<Rightarrow> SharedDb
   \<Rightarrow> shared_error + SharedLimit list" where
  "SharedUsage env row rows now1 now subject db =
     (case sharedSnapshot row subject of
        Inl e \<Rightarrow> Inl e
      | Inr p \<Rightarrow>
          (case sharedDefinitions env rows p now1 None of
             Inl e \<Rightarrow> Inl e
           | Inr (defs, budgets) \<Rightarrow>
               (case sharedLock env budgets [] defs now1 True db of
                  Inl e \<Rightarrow> Inl e
                | Inr tx \<Rightarrow>
                    (case sharedCheckClock p defs now of
                       Some e \<Rightarrow> Inl e
                     | None \<Rightarrow>
                         (case foldE (usageDefinition now) defs (tx, []) of
                            Inl e \<Rightarrow> Inl e
                          | Inr (_, out) \<Rightarrow> Inr out)))))"

end
