(* ===== verification/SharedInv.thy ===== *)
theory SharedInv
  imports SharedLedger
begin

text \<open>
  The invariant of the shared profile on top of the accounting invariant of the escrow: the
  liabilities the ledger records for it cover the bookings of every permit that has no terminal
  outcome yet, and the pending part of a soft account is exactly the soft bookings in flight.
\<close>

section \<open>Definitions\<close>

definition hardOf :: "accountKey \<Rightarrow> sharedBooking \<Rightarrow> int" where
  "hardOf k b =
     (if sbk_moneyKey b \<noteq> [] \<and> sbk_hard b \<and> moneyAccount (sbk_moneyKey b) (sbk_id b) = k then sbk_amount b else 0)"

definition softOf :: "accountKey \<Rightarrow> sharedBooking \<Rightarrow> int" where
  "softOf k b =
     (if sbk_moneyKey b \<noteq> [] \<and> \<not> sbk_hard b \<and> moneyAccount (sbk_moneyKey b) (sbk_id b) = k then sbk_amount b else 0)"

definition isOpen :: "SharedDb \<Rightarrow> string \<Rightarrow> bool" where
  "isOpen db h \<longleftrightarrow> (case Mapping.lookup (sd_permits db) h of None \<Rightarrow> False | Some row \<Rightarrow> pw_terminal row = [])"

definition openTotal :: "(accountKey \<Rightarrow> sharedBooking \<Rightarrow> int) \<Rightarrow> accountKey \<Rightarrow> SharedDb \<Rightarrow> int" where
  "openTotal f k db = mtotal (\<lambda>row b. if isOpen db (fst row) then f k b else 0) (sd_bookings db)"

definition bookingsOK :: "SharedDb \<Rightarrow> bool" where
  "bookingsOK db \<longleftrightarrow>
     finite (Mapping.keys (sd_bookings db)) \<and>
     (\<forall>row b. Mapping.lookup (sd_bookings db) row = Some b \<longrightarrow>
        sbk_id b = snd row \<and> 0 \<le> sbk_amount b \<and> in64 (sbk_amount b) \<and> Mapping.lookup (sd_permits db) (fst row) \<noteq> None)"

definition coversOpen :: "external \<Rightarrow> SharedDb \<Rightarrow> bool" where
  "coversOpen x db \<longleftrightarrow>
     (\<forall>k. openTotal hardOf k db \<le> x_encumbered x k \<and> x_pending x k = openTotal softOf k db
        \<and> openTotal softOf k db \<le> x_soft x k \<and> 0 \<le> x_consumed x k)"

lemma covers_open_cong: "(\<And>f k. openTotal f k db' = openTotal f k db) \<Longrightarrow> coversOpen x db' = coversOpen x db"
  by (simp add: coversOpen_def)

abbreviation moneyTx :: "STx \<Rightarrow> Tx" where
  "moneyTx tx \<equiv> \<lparr>tx_db = sd_ledger (st_db tx), tx_accounts = st_accounts tx\<rparr>"

definition moneyInv :: "(accountKey \<Rightarrow> int) \<Rightarrow> SharedDb \<Rightarrow> bool" where
  "moneyInv L db \<longleftrightarrow>
     bookingsOK db \<and>
     (\<exists>x. ledgerInv x (sd_ledger db) \<and> withinCaps L (accountAt (lg_accounts (sd_ledger db))) \<and> coversOpen x db)"

definition stInv :: "external \<Rightarrow> (accountKey \<Rightarrow> int) \<Rightarrow> STx \<Rightarrow> bool" where
  "stInv x L tx \<longleftrightarrow> txOK x L (moneyTx tx) \<and> coversOpen x (st_db tx) \<and> bookingsOK (st_db tx)"

section \<open>Moving an account together with the outside liability\<close>

definition shift :: "external \<Rightarrow> accountKey \<Rightarrow> account \<Rightarrow> account \<Rightarrow> external" where
  "shift x k a a' =
     \<lparr>x_encumbered = (x_encumbered x)(k := x_encumbered x k + (hardEncumbered a' - hardEncumbered a)),
      x_consumed = (x_consumed x)(k := x_consumed x k + (hardConsumed a' - hardConsumed a)),
      x_soft = (x_soft x)(k := x_soft x k + (softConsumed a' - softConsumed a)),
      x_pending = (x_pending x)(k := x_pending x k + (softPending a' - softPending a))\<rparr>"

lemma shift_ok:
  assumes inv: "txOK x L t" and a: "Mapping.lookup (tx_accounts t) k = Some a" and ok: "accountOK a'"
    and cap: "frozen a' \<or> hardEncumbered a' \<le> L k"
  shows "txOK (shift x k a a') L \<lparr>tx_db = tx_db t, tx_accounts = Mapping.update k a' (tx_accounts t)\<rparr>" (is "txOK _ L ?t'")
proof -
  have ti: "txInv x t" and capd: "withinCaps L (view t)" using inv by (simp_all add: txOK_def)
  have bal: "balanced x (tx_db t) j (view t j)" for j using ti by (simp add: txInv_def)
  have views: "view ?t' j = (if j = k then a' else view t j)" for j
    by (simp add: view_update view_db)
  have "balanced (shift x k a a') (tx_db t) j (view ?t' j)" for j
  proof (cases "j = k")
    case True
    then show ?thesis
      using bal [of k] view_known [OF a] ok by (simp add: views balanced_def shift_def)
  next
    case False
    then show ?thesis using bal [of j] by (simp add: views balanced_def shift_def)
  qed
  then have "txInv (shift x k a a') ?t'" using ti by (simp add: txInv_def)
  moreover have "withinCaps L (view ?t')" by (rule within_caps_put [OF capd _ cap]) simp
  ultimately show ?thesis by (simp add: txOK_def)
qed

section \<open>Booking\<close>

lemma open_total_insert:
  assumes "bookingsOK db" "Mapping.lookup (sd_bookings db) (h, i) = None" "isOpen db h"
  shows "openTotal f k (db\<lparr>sd_bookings := Mapping.update (h, i) b (sd_bookings db), sd_segments := ss\<rparr>) =
    openTotal f k db + f k b"
  using assms by (simp add: openTotal_def isOpen_def bookingsOK_def mtotal_update)

lemma unavailable_Inr [simp]: "unavailable r = Inr v \<longleftrightarrow> r = Inr v"
  by (auto simp: unavailable_def split: sum.splits)

lemma book_money_outcome:
  assumes "bookMoney d amount a = Inr a'" "accountOK a"
  shows "accountOK a'" "frozen a' = frozen a" "hardConsumed a' = hardConsumed a" "0 \<le> amount"
    and "hardEncumbered a' = hardEncumbered a + (if sf_hard d then amount else 0)"
    and "softConsumed a' = softConsumed a + (if sf_hard d then 0 else amount)"
    and "softPending a' = softPending a + (if sf_hard d then 0 else amount)"
proof -
  have "accountOK a' \<and> frozen a' = frozen a \<and> hardConsumed a' = hardConsumed a \<and> 0 \<le> amount
    \<and> hardEncumbered a' = hardEncumbered a + (if sf_hard d then amount else 0)
    \<and> softConsumed a' = softConsumed a + (if sf_hard d then 0 else amount)
    \<and> softPending a' = softPending a + (if sf_hard d then 0 else amount)"
  proof (cases "sf_hard d")
    case True
    then obtain v where v: "checkedAdd (hardEncumbered a) amount = Inr v" "a' = a\<lparr>hardEncumbered := v\<rparr>"
      using assms(1) by (auto simp: bookMoney_def split: sum.splits)
    then show ?thesis
      using True assms(2) led.cadd_InrD [OF v(1)] led.cadd_mono [OF v(1)] by (auto simp: accountOK_def)
  next
    case False
    then obtain v w where v: "checkedAdd (softConsumed a) amount = Inr v" "checkedAdd (softPending a) amount = Inr w"
      "a' = a\<lparr>softConsumed := v, softPending := w\<rparr>"
      using assms(1) by (auto simp: bookMoney_def split: sum.splits)
    then show ?thesis
      using False assms(2) led.cadd_InrD [OF v(1)] led.cadd_InrD [OF v(2)] led.cadd_mono [OF v(1)]
      by (auto simp: accountOK_def)
  qed
  then show "accountOK a'" "frozen a' = frozen a" "hardConsumed a' = hardConsumed a" "0 \<le> amount"
    "hardEncumbered a' = hardEncumbered a + (if sf_hard d then amount else 0)"
    "softConsumed a' = softConsumed a + (if sf_hard d then 0 else amount)"
    "softPending a' = softPending a + (if sf_hard d then 0 else amount)" by simp_all
qed

text \<open>The account a definition is booked on.\<close>

abbreviation defAccount :: "sharedDefinition \<Rightarrow> accountKey" where
  "defAccount d \<equiv> moneyAccount (sf_moneyKey d) (sf_id d)"

lemma book_definition_parts:
  assumes "bookDefinition req hash d tx = Inr tx'"
  obtains c c' db' where "Mapping.lookup (st_counters tx) (sf_id d) = Some c" "bookCounter d (sf_bound d req) c = Inr c'"
    "Mapping.lookup (sd_bookings (st_db tx)) (hash, sf_id d) = None"
    "st_counters tx' = Mapping.update (sf_id d) c' (st_counters tx)"
    "st_db tx' = (st_db tx)\<lparr>sd_bookings := Mapping.update (hash, sf_id d) (bookingOf d (sf_bound d req)) (sd_bookings (st_db tx)),
       sd_segments := (if sf_rate d > 0 \<and> sf_bound d req > 0
          then sd_segments (st_db tx) @ [\<lparr>sg_permit = hash, sg_counter = sf_id d,
                 sg_remaining = sharedScaled (sf_bound d req), sg_uncertain = True\<rparr>]
          else sd_segments (st_db tx))\<rparr>"
    "if sf_moneyKey d = [] then st_accounts tx' = st_accounts tx
     else (\<exists>a a'. Mapping.lookup (st_accounts tx) (defAccount d) = Some a \<and> bookMoney d (sf_bound d req) a = Inr a'
       \<and> st_accounts tx' = Mapping.update (defAccount d) a' (st_accounts tx))"
proof -
  note parts = that
  obtain tx1 where b: "sharedBook d (sf_bound d req) tx = Inr tx1"
    using assms by (auto simp: bookDefinition_def Let_def split: sum.splits)
  note s1 = assms [unfolded bookDefinition_def Let_def b sum.case]
  obtain c c' where c: "Mapping.lookup (st_counters tx) (sf_id d) = Some c" "bookCounter d (sf_bound d req) c = Inr c'"
    using b by (auto simp: sharedBook_def split: option.splits sum.splits)
  note b1 = b [unfolded sharedBook_def c option.case sum.case Let_def]
  have same: "st_db tx1 = st_db tx" "st_counters tx1 = Mapping.update (sf_id d) c' (st_counters tx)"
    using b1 by (auto split: if_splits option.splits sum.splits)
  have acc: "if sf_moneyKey d = [] then st_accounts tx1 = st_accounts tx
     else (\<exists>a a'. Mapping.lookup (st_accounts tx) (defAccount d) = Some a \<and> bookMoney d (sf_bound d req) a = Inr a'
       \<and> st_accounts tx1 = Mapping.update (defAccount d) a' (st_accounts tx))"
    using b1 by (auto split: if_splits option.splits sum.splits)
  show thesis
    by (rule parts [OF c]) (use s1 same acc in \<open>auto split: if_splits\<close>)
qed

lemma book_step:
  assumes inv: "stInv x L tx" and op: "isOpen (st_db tx) hash"
    and bound: "0 \<le> sf_bound d req" "in64 (sf_bound d req)"
    and room: "sf_moneyKey d \<noteq> [] \<Longrightarrow> sf_hard d \<Longrightarrow>
      hardEncumbered (view (moneyTx tx) (defAccount d)) + sf_bound d req \<le> L (defAccount d)"
    and step: "bookDefinition req hash d tx = Inr tx'"
  shows "\<exists>x'. stInv x' L tx' \<and> isOpen (st_db tx') hash"
    and "sd_bookings (st_db tx') = Mapping.update (hash, sf_id d) (bookingOf d (sf_bound d req)) (sd_bookings (st_db tx))"
    and "view (moneyTx tx') k = view (moneyTx tx) k \<or> sf_moneyKey d \<noteq> [] \<and> k = defAccount d"
    and "Mapping.lookup (sd_bookings (st_db tx)) (hash, sf_id d) = None"
proof -
  obtain c c' where new: "Mapping.lookup (sd_bookings (st_db tx)) (hash, sf_id d) = None"
    and db': "st_db tx' = (st_db tx)\<lparr>sd_bookings := Mapping.update (hash, sf_id d) (bookingOf d (sf_bound d req)) (sd_bookings (st_db tx)),
       sd_segments := (if sf_rate d > 0 \<and> sf_bound d req > 0
          then sd_segments (st_db tx) @ [\<lparr>sg_permit = hash, sg_counter = sf_id d,
                 sg_remaining = sharedScaled (sf_bound d req), sg_uncertain = True\<rparr>]
          else sd_segments (st_db tx))\<rparr>"
    and acc: "if sf_moneyKey d = [] then st_accounts tx' = st_accounts tx
     else (\<exists>a a'. Mapping.lookup (st_accounts tx) (defAccount d) = Some a \<and> bookMoney d (sf_bound d req) a = Inr a'
       \<and> st_accounts tx' = Mapping.update (defAccount d) a' (st_accounts tx))"
    by (rule book_definition_parts [OF step]) blast
  have parts: "txOK x L (moneyTx tx)" "coversOpen x (st_db tx)" "bookingsOK (st_db tx)"
    using inv by (simp_all add: stInv_def)
  let ?b = "bookingOf d (sf_bound d req)"
  have op': "isOpen (st_db tx') hash" using op by (simp add: db' isOpen_def)
  have bok': "bookingsOK (st_db tx')"
    using parts(3) op bound
    by (auto simp: bookingsOK_def db' bookingOf_def lookup_update' isOpen_def split: if_splits option.splits)
  have total: "openTotal f k (st_db tx') = openTotal f k (st_db tx) + f k ?b" for f k
    unfolding db' by (rule open_total_insert [OF parts(3) new op])
  have led: "sd_ledger (st_db tx') = sd_ledger (st_db tx)" by (simp add: db')
  show "sd_bookings (st_db tx') = Mapping.update (hash, sf_id d) ?b (sd_bookings (st_db tx))" by (simp add: db')
  show "Mapping.lookup (sd_bookings (st_db tx)) (hash, sf_id d) = None" by (rule new)
  show "view (moneyTx tx') k = view (moneyTx tx) k \<or> sf_moneyKey d \<noteq> [] \<and> k = defAccount d"
    using acc by (auto simp: led view_def lookup_update' split: if_splits option.split)
  have "\<exists>x'. txOK x' L (moneyTx tx') \<and> coversOpen x' (st_db tx')"
  proof (cases "sf_moneyKey d = []")
    case True
    then have zero: "hardOf k ?b = 0" "softOf k ?b = 0" for k by (simp_all add: hardOf_def softOf_def bookingOf_def)
    have "coversOpen x (st_db tx')" using parts(2) by (simp add: coversOpen_def total zero)
    moreover have "txOK x L (moneyTx tx')" using True acc parts(1) led by simp
    ultimately show ?thesis by blast
  next
    case False
    then obtain a a' where a: "Mapping.lookup (st_accounts tx) (defAccount d) = Some a"
      "bookMoney d (sf_bound d req) a = Inr a'" "st_accounts tx' = Mapping.update (defAccount d) a' (st_accounts tx)"
      using acc by auto
    have a1: "Mapping.lookup (tx_accounts (moneyTx tx)) (defAccount d) = Some a" using a(1) by simp
    have av: "view (moneyTx tx) (defAccount d) = a" by (rule view_known [OF a1])
    have aok: "accountOK a" using parts(1) known_accounts_ok [OF _ a1] by (auto simp: txOK_def)
    note out = book_money_outcome [OF a(2) aok]
    have "frozen a' \<or> hardEncumbered a' \<le> L (defAccount d)"
      using parts(1) room [OF False] av out(2,5) by (auto simp: txOK_def withinCaps_def)
    from shift_ok [OF parts(1) a1 out(1) this]
    have "txOK (shift x (defAccount d) a a') L (moneyTx tx')" by (simp add: led a(3))
    moreover have "coversOpen (shift x (defAccount d) a a') (st_db tx')"
    proof -
      have "hardOf k ?b = (if k = defAccount d then hardEncumbered a' - hardEncumbered a else 0)"
        "softOf k ?b = (if k = defAccount d then softConsumed a' - softConsumed a else 0)"
        "softConsumed a' - softConsumed a = softPending a' - softPending a" for k
        using False out by (auto simp: hardOf_def softOf_def bookingOf_def)
      then show ?thesis
        using parts(2) out(3) by (auto simp: coversOpen_def total shift_def)
    qed
    ultimately show ?thesis by blast
  qed
  then show "\<exists>x'. stInv x' L tx' \<and> isOpen (st_db tx') hash"
    using bok' op' by (auto simp: stInv_def)
qed


text \<open>Bookings are never removed, so a second booking of the same limit fails.\<close>

lemma book_loop_fresh:
  assumes "foldE (bookDefinition req hash) ds tx = Inr tx'" "d \<in> set ds"
  shows "Mapping.lookup (sd_bookings (st_db tx)) (hash, sf_id d) = None"
  using assms
proof (induction ds arbitrary: tx)
  case (Cons e ds)
  then obtain tx1 where s: "bookDefinition req hash e tx = Inr tx1" "foldE (bookDefinition req hash) ds tx1 = Inr tx'"
    by (auto split: sum.splits)
  obtain c c' where e: "Mapping.lookup (sd_bookings (st_db tx)) (hash, sf_id e) = None"
    "st_db tx1 = (st_db tx)\<lparr>sd_bookings := Mapping.update (hash, sf_id e) (bookingOf e (sf_bound e req)) (sd_bookings (st_db tx)),
       sd_segments := (if sf_rate e > 0 \<and> sf_bound e req > 0
          then sd_segments (st_db tx) @ [\<lparr>sg_permit = hash, sg_counter = sf_id e,
                 sg_remaining = sharedScaled (sf_bound e req), sg_uncertain = True\<rparr>]
          else sd_segments (st_db tx))\<rparr>"
    by (rule book_definition_parts [OF s(1)]) blast
  show ?case
  proof (cases "d = e")
    case True
    then show ?thesis using e(1) by simp
  next
    case False
    then show ?thesis
      using Cons.IH [OF s(2)] Cons.prems(2) e(2) by (auto simp: lookup_update' split: if_splits)
  qed
qed simp

lemma book_loop_distinct:
  assumes "foldE (bookDefinition req hash) ds tx = Inr tx'"
  shows "distinct (map sf_id ds)"
  using assms
proof (induction ds arbitrary: tx)
  case (Cons e ds)
  then obtain tx1 where s: "bookDefinition req hash e tx = Inr tx1" "foldE (bookDefinition req hash) ds tx1 = Inr tx'"
    by (auto split: sum.splits)
  obtain c c' where e: "st_db tx1 = (st_db tx)\<lparr>sd_bookings := Mapping.update (hash, sf_id e) (bookingOf e (sf_bound e req)) (sd_bookings (st_db tx)),
       sd_segments := (if sf_rate e > 0 \<and> sf_bound e req > 0
          then sd_segments (st_db tx) @ [\<lparr>sg_permit = hash, sg_counter = sf_id e,
                 sg_remaining = sharedScaled (sf_bound e req), sg_uncertain = True\<rparr>]
          else sd_segments (st_db tx))\<rparr>"
    by (rule book_definition_parts [OF s(1)]) blast
  have "sf_id d \<noteq> sf_id e" if "d \<in> set ds" for d
    using book_loop_fresh [OF s(2) that] by (auto simp: e lookup_update' split: if_splits)
  then show ?case using Cons.IH [OF s(2)] by fastforce
qed simp

text \<open>A money limit names its account: the key and the window of the account are in its identity.\<close>

definition moneyNamed :: "sharedDefinition \<Rightarrow> bool" where
  "moneyNamed d \<longleftrightarrow> sf_moneyKey d \<noteq> [] \<longrightarrow> fst (sf_id d) = ''money:'' @ sf_moneyKey d"

lemma money_named_inj:
  "moneyNamed d \<Longrightarrow> moneyNamed e \<Longrightarrow> sf_moneyKey d \<noteq> [] \<Longrightarrow> sf_moneyKey e \<noteq> [] \<Longrightarrow>
   defAccount d = defAccount e \<Longrightarrow> sf_id d = sf_id e"
  by (auto simp: moneyNamed_def moneyAccount_def intro: prod_eqI)

lemma book_loop:
  assumes "foldE (bookDefinition req hash) ds tx = Inr tx'"
    and "stInv x L tx" "isOpen (st_db tx) hash"
    and "\<forall>d \<in> set ds. 0 \<le> sf_bound d req \<and> in64 (sf_bound d req) \<and> moneyNamed d \<and>
      (sf_moneyKey d \<noteq> [] \<longrightarrow> sf_hard d \<longrightarrow>
         hardEncumbered (view (moneyTx tx) (defAccount d)) + sf_bound d req \<le> L (defAccount d))"
  shows "\<exists>x'. stInv x' L tx' \<and> isOpen (st_db tx') hash"
  using assms
proof (induction ds arbitrary: tx x)
  case Nil
  then show ?case by auto
next
  case (Cons d ds)
  then obtain tx1 where s: "bookDefinition req hash d tx = Inr tx1" "foldE (bookDefinition req hash) ds tx1 = Inr tx'"
    by (auto split: sum.splits)
  have pre: "0 \<le> sf_bound d req" "in64 (sf_bound d req)"
    "sf_moneyKey d \<noteq> [] \<Longrightarrow> sf_hard d \<Longrightarrow>
       hardEncumbered (view (moneyTx tx) (defAccount d)) + sf_bound d req \<le> L (defAccount d)"
    using Cons.prems(4) by auto
  note step = book_step [OF Cons.prems(2,3) pre s(1)]
  obtain x1 where x1: "stInv x1 L tx1" "isOpen (st_db tx1) hash" using step(1) by blast
  have "\<forall>e \<in> set ds. 0 \<le> sf_bound e req \<and> in64 (sf_bound e req) \<and> moneyNamed e \<and>
      (sf_moneyKey e \<noteq> [] \<longrightarrow> sf_hard e \<longrightarrow>
         hardEncumbered (view (moneyTx tx1) (defAccount e)) + sf_bound e req \<le> L (defAccount e))"
  proof
    fix e assume e: "e \<in> set ds"
    have ne: "sf_id e \<noteq> sf_id d" using book_loop_distinct [OF Cons.prems(1)] e by (auto simp: image_iff)
    have "view (moneyTx tx1) (defAccount e) = view (moneyTx tx) (defAccount e)" if "sf_moneyKey e \<noteq> []"
    proof -
      have "\<not> (sf_moneyKey d \<noteq> [] \<and> defAccount e = defAccount d)"
        using money_named_inj [of e d] ne that Cons.prems(4) e by auto
      then show ?thesis using step(3) by blast
    qed
    then show "0 \<le> sf_bound e req \<and> in64 (sf_bound e req) \<and> moneyNamed e \<and>
      (sf_moneyKey e \<noteq> [] \<longrightarrow> sf_hard e \<longrightarrow>
         hardEncumbered (view (moneyTx tx1) (defAccount e)) + sf_bound e req \<le> L (defAccount e))"
      using Cons.prems(4) e by auto
  qed
  from Cons.IH [OF s(2) x1 this] show ?case .
qed

section \<open>Admission\<close>

text \<open>Refilling and checking touch neither the accounts nor the bookings.\<close>

definition sameBooks :: "STx \<Rightarrow> STx \<Rightarrow> bool" where
  "sameBooks tx tx' \<longleftrightarrow>
     st_accounts tx' = st_accounts tx \<and> sd_ledger (st_db tx') = sd_ledger (st_db tx)
     \<and> sd_bookings (st_db tx') = sd_bookings (st_db tx) \<and> sd_permits (st_db tx') = sd_permits (st_db tx)"

lemma same_books_trans: "sameBooks a b \<Longrightarrow> sameBooks b c \<Longrightarrow> sameBooks a c"
  by (simp add: sameBooks_def)

lemma refill_same_books:
  "refillSharedRate k now rate tx = Inr tx' \<Longrightarrow> sameBooks tx tx'"
  by (auto simp: refillSharedRate_def Let_def sameBooks_def split: option.splits sum.splits if_splits prod.splits)

lemma admit_step:
  assumes "admitDefinition req now d (tx, den) = Inr (tx', den')"
  shows "sameBooks tx tx'" and "den \<noteq> None \<Longrightarrow> den' \<noteq> None"
    and "den' = None \<Longrightarrow> \<exists>c. Mapping.lookup (st_counters tx') (sf_id d) = Some c \<and>
      sharedCheckCapacity d c (st_accounts tx) (sf_bound d req) = None"
proof -
  obtain tx1 where r: "refillSharedRate (sf_id d) now (sf_rate d) tx = Inr tx1"
    using assms by (auto simp: admitDefinition_def split: sum.splits)
  note s1 = assms [unfolded admitDefinition_def prod.case r sum.case]
  have sb: "sameBooks tx tx1" by (rule refill_same_books [OF r])
  have tx': "tx' = tx1" using s1 by (auto split: option.splits if_splits)
  show "sameBooks tx tx'" using sb by (simp add: tx')
  show "den \<noteq> None \<Longrightarrow> den' \<noteq> None" using s1 by (auto split: option.splits if_splits)
  have acc: "st_accounts tx1 = st_accounts tx" using sb by (simp add: sameBooks_def)
  show "\<exists>c. Mapping.lookup (st_counters tx') (sf_id d) = Some c \<and>
      sharedCheckCapacity d c (st_accounts tx) (sf_bound d req) = None" if "den' = None"
    using s1 that unfolding tx' acc by (auto split: option.splits if_splits)
qed

lemma admit_loop:
  assumes "foldE (admitDefinition req now) ds (tx, den) = Inr (tx', None)"
  shows "sameBooks tx tx'" and "den = None"
    and "\<forall>d \<in> set ds. \<exists>c. sharedCheckCapacity d c (st_accounts tx) (sf_bound d req) = None"
proof -
  have "sameBooks tx tx' \<and> den = None \<and>
    (\<forall>d \<in> set ds. \<exists>c. sharedCheckCapacity d c (st_accounts tx) (sf_bound d req) = None)"
    using assms
  proof (induction ds arbitrary: tx den)
    case Nil
    then show ?case by (simp add: sameBooks_def)
  next
    case (Cons d ds)
    then obtain tx1 den1 where s: "admitDefinition req now d (tx, den) = Inr (tx1, den1)"
      "foldE (admitDefinition req now) ds (tx1, den1) = Inr (tx', None)"
      by (auto split: sum.splits)
    note h = admit_step [OF s(1)] and t = Cons.IH [OF s(2)]
    have acc: "st_accounts tx1 = st_accounts tx" using h(1) by (simp add: sameBooks_def)
    have "den = None" using h(2) t by blast
    then show ?case using h(3) t same_books_trans [OF h(1)] unfolding acc by auto
  qed
  then show "sameBooks tx tx'" "den = None"
    "\<forall>d \<in> set ds. \<exists>c. sharedCheckCapacity d c (st_accounts tx) (sf_bound d req) = None" by blast+
qed

lemma capacity_money:
  assumes "sharedCheckCapacity d c accounts amount = None" "sf_moneyKey d \<noteq> []" "sf_hard d" "sf_kind d = ''microUSD''"
  obtains a where "Mapping.lookup accounts (defAccount d) = Some a" "hardEncumbered a + softConsumed a + amount \<le> sf_limit d"
    "0 \<le> amount" "0 \<le> softConsumed a"
proof -
  obtain a u where a: "Mapping.lookup accounts (defAccount d) = Some a"
    and u: "checkedAdd (hardEncumbered a) (softConsumed a) = Inr u"
    using assms(1,2) by (auto simp: sharedCheckCapacity_def unavailable_def split: option.splits sum.splits)
  have rate: "sf_rate d = 0" using assms(4) by (simp add: sf_rate_def)
  obtain n where n: "checkedAdd u amount = Inr n" "n \<le> sf_limit d"
    using assms a u rate
    by (auto simp: sharedCheckCapacity_def unavailable_def Let_def split: sum.splits if_splits)
  show thesis
    using that [OF a] led.cadd_InrD [OF u] led.cadd_InrD [OF n(1)] n(2) by simp
qed


section \<open>The reservation\<close>

lemma definitions_outcome:
  assumes "sharedDefinitions env rows p now gen = Inr (defs, budgets)"
  obtains docs all where "readPolicies env rows = Inr docs"
    "AuthorityBudgets (le_hs env) (le_hb env) docs now = Inr all" "set budgets \<subseteq> set all"
    "\<forall>d \<in> set defs. (sf_moneyKey d = [] \<or> (\<exists>b \<in> set budgets. d = budgetDefinition b))"
proof -
  obtain docs all t ds where parts: "readPolicies env rows = Inr docs"
    "AuthorityBudgets (le_hs env) (le_hb env) docs now = Inr all"
    "foldE (docDefinitions env now p) docs (identityDefinitions env now p t) = Inr ds"
    "budgets = filter (\<lambda>b. sharedMatch (ab_Team b) (ab_User b) p) all"
    "defs = sort_key sf_id (ds @ map budgetDefinition budgets)"
    using assms by (auto simp: sharedDefinitions_def Let_def split: sum.splits option.splits if_splits)
  have add: "sf_moneyKey d = []" if "d \<in> set (addDefinition env now sc idn kd pl rl li hd pe)" for d sc idn kd pl rl li hd pe
    using that by (auto simp: addDefinition_def Let_def split: if_splits prod.splits)
  have "\<forall>d \<in> set ds. sf_moneyKey d = []"
  proof (rule foldE_invariant [OF parts(3), where P = "\<lambda>ds. \<forall>d \<in> set ds. sf_moneyKey d = []"])
    show "\<forall>d \<in> set (identityDefinitions env now p t). sf_moneyKey d = []"
      by (auto simp: identityDefinitions_def Let_def dest: add)
    show "\<forall>d \<in> set s'. sf_moneyKey d = []" if "\<forall>d \<in> set s. sf_moneyKey d = []" "docDefinitions env now p doc s = Inr s'" for doc s s'
      using that by (auto simp: docDefinitions_def ruleDefinitions_def Let_def dest: add
          split: sum.splits if_splits option.splits)
  qed
  then show thesis
    using that [OF parts(1,2)] parts(4,5) by auto
qed

lemma budget_definition_fields [simp]:
  "sf_moneyKey (budgetDefinition b) = ab_Key b" "sf_limit (budgetDefinition b) = ab_LimitMicroUSD b"
  "sf_hard (budgetDefinition b) = ab_HardCap b" "sf_kind (budgetDefinition b) = ''microUSD''"
  "sf_id (budgetDefinition b) = (''money:'' @ ab_Key b, ab_WindowID b)"
  "moneyAccount (ab_Key b) (z, ab_WindowID b) = accountOf b"
  by (simp_all add: budgetDefinition_def moneyAccount_def accountOf_def)

lemma lock_counter_same: "lockSharedCounter defs now cr k tx = Inr tx' \<Longrightarrow> sameBooks tx tx'"
  by (auto simp: lockSharedCounter_def Let_def sameBooks_def split: option.splits if_splits)

lemma lock_counters_same:
  assumes "lockSharedCounters defs now cr tx = Inr tx'"
  shows "sameBooks tx tx'"
proof (rule foldE_invariant [OF assms [unfolded lockSharedCounters_def], where P = "sameBooks tx"])
  show "sameBooks tx tx" by (simp add: sameBooks_def)
qed (rule same_books_trans [OF _ lock_counter_same])

lemma same_books_inv:
  assumes "stInv x L tx" "sameBooks tx tx'"
  shows "stInv x L tx'"
proof -
  have "openTotal f k (st_db tx') = openTotal f k (st_db tx)" for f k
    using assms(2) by (simp add: openTotal_def isOpen_def sameBooks_def)
  then show ?thesis using assms by (simp add: stInv_def sameBooks_def coversOpen_def bookingsOK_def)
qed

text \<open>The locked transaction starts from the invariant of the database.\<close>

lemma shared_lock_inv:
  assumes "moneyInv L db" "sharedLock env budgets meters defs now cr db = Inr tx"
  obtains x where "stInv x L tx" "sd_bookings (st_db tx) = sd_bookings db" "sd_permits (st_db tx) = sd_permits db"
proof -
  obtain t where t: "lockAccounts env [] [] meters budgets (sd_ledger db) = Inr t"
    and l: "lockSharedCounters defs now cr
      \<lparr>st_db = db\<lparr>sd_ledger := tx_db t\<rparr>, st_accounts = tx_accounts t, st_counters = Mapping.empty\<rparr> = Inr tx"
    using assms(2) by (auto simp: sharedLock_def split: sum.splits)
  obtain x where x: "ledgerInv x (sd_ledger db)" "withinCaps L (accountAt (lg_accounts (sd_ledger db)))" "coversOpen x db"
    "bookingsOK db"
    using assms(1) by (auto simp: moneyInv_def)
  have "txOK x L \<lparr>tx_db = tx_db t, tx_accounts = tx_accounts t\<rparr>"
    using locked_ok [OF x(1,2) lock_accounts_locked [OF t]] by (cases t) simp
  moreover have "openTotal f k (db\<lparr>sd_ledger := tx_db t\<rparr>) = openTotal f k db" for f k
    by (simp add: openTotal_def isOpen_def)
  ultimately have "stInv x L \<lparr>st_db = db\<lparr>sd_ledger := tx_db t\<rparr>, st_accounts = tx_accounts t, st_counters = Mapping.empty\<rparr>"
    using x(3,4) by (simp add: stInv_def coversOpen_def bookingsOK_def)
  from same_books_inv [OF this lock_counters_same [OF l]] show thesis
    by (rule that) (use lock_counters_same [OF l] in \<open>simp_all add: sameBooks_def\<close>)
qed

lemma persist_shared_inv:
  assumes "stInv x L tx" "persistShared tx = Inr db'"
  shows "moneyInv L db'" and "sd_bookings db' = sd_bookings (st_db tx)" and "sd_permits db' = sd_permits (st_db tx)"
    and "accountAt (lg_accounts (sd_ledger db')) = view (moneyTx tx)"
proof -
  obtain led where led: "persistAccounts (moneyTx tx) = Inr led"
    and db': "db' = persistSharedCounters tx ((st_db tx)\<lparr>sd_ledger := led\<rparr>)"
    using assms(2) by (auto simp: persistShared_def split: sum.splits)
  have parts: "txOK x L (moneyTx tx)" "coversOpen x (st_db tx)" "bookingsOK (st_db tx)"
    using assms(1) by (simp_all add: stInv_def)
  have "openTotal f k db' = openTotal f k (st_db tx)" for f k
    by (simp add: db' persistSharedCounters_def openTotal_def isOpen_def)
  then show "moneyInv L db'"
    using persist_ok [OF parts(1) led] parts(2,3)
    by (auto simp: moneyInv_def db' persistSharedCounters_def coversOpen_def bookingsOK_def)
  show "sd_bookings db' = sd_bookings (st_db tx)" "sd_permits db' = sd_permits (st_db tx)"
    by (simp_all add: db' persistSharedCounters_def)
  have "finite (Mapping.keys (tx_accounts (moneyTx tx)))" using parts(1) by (simp add: txOK_def txInv_def)
  then show "accountAt (lg_accounts (sd_ledger db')) = view (moneyTx tx)"
    using persist_view(1) [OF led] by (simp add: db' persistSharedCounters_def)
qed

text \<open>Opening a permit, before it has bookings, changes no total.\<close>

lemma open_permit_inv:
  assumes "stInv x L tx" "Mapping.lookup (sd_permits (st_db tx)) hash = None" "pw_terminal prow = []"
  shows "stInv x L (tx\<lparr>st_db := (st_db tx)\<lparr>sd_permits := Mapping.update hash prow (sd_permits (st_db tx))\<rparr>\<rparr>)" (is "stInv x L ?tx'")
    and "isOpen (st_db (tx\<lparr>st_db := (st_db tx)\<lparr>sd_permits := Mapping.update hash prow (sd_permits (st_db tx))\<rparr>\<rparr>)) hash"
proof -
  have bok: "bookingsOK (st_db tx)" using assms(1) by (simp add: stInv_def)
  have "openTotal f k (st_db ?tx') = openTotal f k (st_db tx)" for f k
    unfolding openTotal_def mtotal_def
  proof (rule sum.cong)
    fix row assume "row \<in> Mapping.keys (sd_bookings (st_db tx))"
    then obtain b where "Mapping.lookup (sd_bookings (st_db tx)) row = Some b" by (auto simp: keys_lookup)
    then have "Mapping.lookup (sd_permits (st_db tx)) (fst row) \<noteq> None"
      using bok unfolding bookingsOK_def by blast
    then have "fst row \<noteq> hash" using assms(2) by auto
    then show "(if isOpen (st_db ?tx') (fst row) then f k (the (Mapping.lookup (sd_bookings (st_db ?tx')) row)) else 0) =
        (if isOpen (st_db tx) (fst row) then f k (the (Mapping.lookup (sd_bookings (st_db tx)) row)) else 0)"
      by (simp add: isOpen_def lookup_update')
  qed simp
  moreover have "bookingsOK (st_db ?tx')"
    using bok by (auto simp: bookingsOK_def lookup_update')
  ultimately show "stInv x L ?tx'" using assms(1) by (simp add: stInv_def coversOpen_def)
  show "isOpen (st_db ?tx') hash" using assms(3) by (simp add: isOpen_def)
qed

lemma reserve_transaction_parts:
  assumes "reserveTransaction env newID row rows now1 now req db = Inr (db', permit)"
  obtains p defs budgets tx0 tx1 tx2 pid where
    "sharedSnapshot row (sq_Subject req) = Inr p" "pn_SharedRevision p = sq_AuthRevision req"
    "sharedDefinitions env rows p now1 (Some (sq_PolicyGeneration req)) = Inr (defs, budgets)"
    "sharedLock env budgets [] defs now1 True db = Inr tx0" "sharedCheckClock p defs now = None"
    "foldE (admitDefinition req now) defs (tx0, None) = Inr (tx1, None)" "newID = Some pid"
    "Mapping.lookup (sd_permits (st_db tx1)) (le_ch env pid) = None"
    "foldE (bookDefinition req (le_ch env pid)) defs
       (tx1\<lparr>st_db := (st_db tx1)\<lparr>sd_permits := Mapping.update (le_ch env pid)
          \<lparr>pw_tokens = sq_TokenBound req, pw_cost = sq_CostBoundMicroUSD req, pw_bookings = length defs,
           pw_terminal = [], pw_fingerprint = [], pw_invalid = False\<rparr> (sd_permits (st_db tx1))\<rparr>\<rparr>) = Inr tx2"
    "persistShared tx2 = Inr db'"
    "permit = \<lparr>sp_ID = pid, sp_TokenBound = sq_TokenBound req, sp_CostBoundMicroUSD = sq_CostBoundMicroUSD req\<rparr>"
proof -
  note parts = that
  obtain p where p: "sharedSnapshot row (sq_Subject req) = Inr p" "pn_SharedRevision p = sq_AuthRevision req"
    using assms by (auto simp: reserveTransaction_def split: sum.splits if_splits)
  note s1 = assms [unfolded reserveTransaction_def p(1) sum.case, simplified p(2)]
  obtain defs budgets where d: "sharedDefinitions env rows p now1 (Some (sq_PolicyGeneration req)) = Inr (defs, budgets)"
    using s1 p(2) by (auto split: sum.splits prod.splits)
  note s2 = s1 [unfolded d sum.case prod.case, simplified p(2)]
  obtain tx0 where t0: "sharedLock env budgets [] defs now1 True db = Inr tx0"
    using s2 p(2) by (auto split: sum.splits)
  have clock: "sharedCheckClock p defs now = None"
    using s2 p(2) t0 by (auto split: option.splits)
  obtain tx1 where t1: "foldE (admitDefinition req now) defs (tx0, None) = Inr (tx1, None)"
    using s2 p(2) t0 clock by (auto split: sum.splits prod.splits option.splits)
  note s3 = s2 [unfolded t0 clock t1 sum.case option.case prod.case]
  obtain pid where pid: "newID = Some pid" "Mapping.lookup (sd_permits (st_db tx1)) (le_ch env pid) = None"
    using s3 p(2) by (auto simp: Let_def split: option.splits if_splits)
  obtain tx2 where t2: "foldE (bookDefinition req (le_ch env pid)) defs
       (tx1\<lparr>st_db := (st_db tx1)\<lparr>sd_permits := Mapping.update (le_ch env pid)
          \<lparr>pw_tokens = sq_TokenBound req, pw_cost = sq_CostBoundMicroUSD req, pw_bookings = length defs,
           pw_terminal = [], pw_fingerprint = [], pw_invalid = False\<rparr> (sd_permits (st_db tx1))\<rparr>\<rparr>) = Inr tx2"
    using s3 p(2) pid by (auto simp: Let_def split: sum.splits)
  show thesis
    by (rule parts [OF p d t0 clock t1 pid t2])
      (use s3 p(2) pid t2 in \<open>auto simp: Let_def split: sum.splits\<close>)
qed

lemma bound_nonneg:
  assumes "0 \<le> sq_TokenBound req" "in64 (sq_TokenBound req)" "0 \<le> sq_CostBoundMicroUSD req" "in64 (sq_CostBoundMicroUSD req)"
  shows "0 \<le> sf_bound d req \<and> in64 (sf_bound d req)"
  using assms by (simp add: sf_bound_def in64_bounds)

lemma reserve_transaction_inv:
  assumes inv: "moneyInv L db" and lim: "limitsWithin env L rows now1"
    and bounds: "0 \<le> sq_TokenBound req" "in64 (sq_TokenBound req)" "0 \<le> sq_CostBoundMicroUSD req" "in64 (sq_CostBoundMicroUSD req)"
    and step: "reserveTransaction env newID row rows now1 now req db = Inr (db', permit)"
  shows "moneyInv L db'"
  using step
proof (cases rule: reserve_transaction_parts)
  case (1 p defs budgets tx0 tx1 tx2 pid)
  obtain x where x: "stInv x L tx0" by (rule shared_lock_inv [OF inv 1(4)])
  note adm = admit_loop [OF 1(6)]
  have x1: "stInv x L tx1" by (rule same_books_inv [OF x adm(1)])
  let ?prow = "\<lparr>pw_tokens = sq_TokenBound req, pw_cost = sq_CostBoundMicroUSD req, pw_bookings = length defs,
           pw_terminal = [], pw_fingerprint = [], pw_invalid = False\<rparr>"
  let ?tx1' = "tx1\<lparr>st_db := (st_db tx1)\<lparr>sd_permits := Mapping.update (le_ch env pid) ?prow (sd_permits (st_db tx1))\<rparr>\<rparr>"
  have x1': "stInv x L ?tx1'" "isOpen (st_db ?tx1') (le_ch env pid)"
    by (rule open_permit_inv [OF x1 1(8)], simp)+
  have acc: "st_accounts ?tx1' = st_accounts tx0" "sd_ledger (st_db ?tx1') = sd_ledger (st_db tx0)"
    using adm(1) by (simp_all add: sameBooks_def)
  obtain docs all where all: "readPolicies env rows = Inr docs"
    "AuthorityBudgets (le_hs env) (le_hb env) docs now1 = Inr all" "set budgets \<subseteq> set all"
    "\<forall>d \<in> set defs. (sf_moneyKey d = [] \<or> (\<exists>b \<in> set budgets. d = budgetDefinition b))"
    by (rule definitions_outcome [OF 1(3)])
  have room: "\<forall>d \<in> set defs. 0 \<le> sf_bound d req \<and> in64 (sf_bound d req) \<and> moneyNamed d \<and>
      (sf_moneyKey d \<noteq> [] \<longrightarrow> sf_hard d \<longrightarrow>
         hardEncumbered (view (moneyTx ?tx1') (defAccount d)) + sf_bound d req \<le> L (defAccount d))"
  proof
    fix d assume d: "d \<in> set defs"
    have named: "moneyNamed d" using all(4) d by (auto simp: moneyNamed_def)
    have "hardEncumbered (view (moneyTx ?tx1') (defAccount d)) + sf_bound d req \<le> L (defAccount d)"
      if money: "sf_moneyKey d \<noteq> []" "sf_hard d"
    proof -
      obtain b where b: "b \<in> set budgets" "d = budgetDefinition b" using all(4) d money(1) by blast
      obtain c where cap: "sharedCheckCapacity d c (st_accounts tx0) (sf_bound d req) = None" using adm(3) d by blast
      obtain a where a: "Mapping.lookup (st_accounts tx0) (defAccount d) = Some a"
        "hardEncumbered a + softConsumed a + sf_bound d req \<le> sf_limit d" "0 \<le> softConsumed a"
        by (rule capacity_money [OF cap money]) (simp_all add: b(2))
      have "view (moneyTx ?tx1') (defAccount d) = a"
        by (rule view_known) (use a(1) acc(1) in simp)
      moreover have "sf_limit d \<le> L (defAccount d)"
        using lim all(1,2,3) b money(2) by (auto simp: limitsWithin_def)
      ultimately show ?thesis using a(2,3) by simp
    qed
    with named bound_nonneg [OF bounds] show "0 \<le> sf_bound d req \<and> in64 (sf_bound d req) \<and> moneyNamed d \<and>
      (sf_moneyKey d \<noteq> [] \<longrightarrow> sf_hard d \<longrightarrow>
         hardEncumbered (view (moneyTx ?tx1') (defAccount d)) + sf_bound d req \<le> L (defAccount d))" by blast
  qed
  obtain x2 where "stInv x2 L tx2" using book_loop [OF 1(9) x1' room] by blast
  then show ?thesis by (rule persist_shared_inv(1) [OF _ 1(10)])
qed


section \<open>Settlement\<close>

text \<open>The open bookings of the other permits.\<close>

definition elseTotal :: "(accountKey \<Rightarrow> sharedBooking \<Rightarrow> int) \<Rightarrow> accountKey \<Rightarrow> string \<Rightarrow> SharedDb \<Rightarrow> int" where
  "elseTotal f k hash db = mtotal (\<lambda>row b. if isOpen db (fst row) \<and> fst row \<noteq> hash then f k b else 0) (sd_bookings db)"

lemma open_total_split:
  assumes "bookingsOK db" "isOpen db hash"
  shows "openTotal f k db = elseTotal f k hash db + (\<Sum>b \<leftarrow> readSharedBookings db hash. f k b)"
proof -
  let ?K = "Mapping.keys (sd_bookings db)" and ?H = "{row \<in> Mapping.keys (sd_bookings db). fst row = hash}"
  let ?v = "\<lambda>row. the (Mapping.lookup (sd_bookings db) row)"
  have fin: "finite ?K" using assms(1) by (simp add: bookingsOK_def)
  have "(\<Sum>b \<leftarrow> readSharedBookings db hash. f k b) = (\<Sum>row \<leftarrow> filter (\<lambda>row. fst row = hash) (Mapping.ordered_keys (sd_bookings db)). f k (?v row))"
    by (simp add: readSharedBookings_def comp_def)
  also have "\<dots> = (\<Sum>row \<in> ?H. f k (?v row))"
    using fin by (subst sum_list_distinct_conv_sum_set) (auto intro!: sum.cong)
  finally have list: "(\<Sum>b \<leftarrow> readSharedBookings db hash. f k b) = (\<Sum>row \<in> ?H. f k (?v row))" .
  have "openTotal f k db = (\<Sum>row \<in> ?K. (if isOpen db (fst row) \<and> fst row \<noteq> hash then f k (?v row) else 0)
      + (if fst row = hash then f k (?v row) else 0))"
    unfolding openTotal_def mtotal_def using assms(2) by (intro sum.cong) auto
  also have "\<dots> = elseTotal f k hash db + (\<Sum>row \<in> ?K. if fst row = hash then f k (?v row) else 0)"
    by (simp add: sum.distrib elseTotal_def mtotal_def)
  also have "(\<Sum>row \<in> ?K. if fst row = hash then f k (?v row) else 0) = (\<Sum>row \<in> ?H. f k (?v row))"
    using fin by (simp add: sum.inter_filter)
  finally show ?thesis by (simp add: list)
qed

definition settling :: "external \<Rightarrow> (accountKey \<Rightarrow> int) \<Rightarrow> string \<Rightarrow> SharedDb \<Rightarrow> sharedBooking list \<Rightarrow> STx \<Rightarrow> bool" where
  "settling x L hash db bs tx \<longleftrightarrow>
     txOK x L (moneyTx tx)
     \<and> sd_bookings (st_db tx) = sd_bookings db \<and> sd_permits (st_db tx) = sd_permits db
     \<and> (\<forall>k. elseTotal hardOf k hash db + (\<Sum>b \<leftarrow> bs. hardOf k b) \<le> x_encumbered x k
          \<and> x_pending x k = elseTotal softOf k hash db + (\<Sum>b \<leftarrow> bs. softOf k b)
          \<and> elseTotal softOf k hash db + (\<Sum>b \<leftarrow> bs. softOf k b) \<le> x_soft x k \<and> 0 \<le> x_consumed x k)"

abbreviation bookAccount :: "sharedBooking \<Rightarrow> accountKey" where
  "bookAccount b \<equiv> moneyAccount (sbk_moneyKey b) (sbk_id b)"

text \<open>The accounts after one booking is settled, in one of four ways.\<close>

lemma settle_booking_parts:
  assumes "settleBooking hash terminal usage invalid b tx = Inr tx'"
  obtains (NoMoney) "sbk_moneyKey b = []" "st_accounts tx' = st_accounts tx"
    | (Invalid) a where "invalid" "sbk_moneyKey b \<noteq> []" "Mapping.lookup (st_accounts tx) (bookAccount b) = Some a"
        "sbk_hard b \<or> sbk_amount b \<le> softPending a"
        "st_accounts tx' = Mapping.update (bookAccount b)
           (a\<lparr>softPending := (if sbk_hard b then softPending a else sub64 (softPending a) (sbk_amount b)), frozen := True\<rparr>) (st_accounts tx)"
    | (Missing) "invalid" "sbk_moneyKey b \<noteq> []" "Mapping.lookup (st_accounts tx) (bookAccount b) = None" "sbk_hard b"
        "st_accounts tx' = st_accounts tx"
    | (Hard) a hc retained where "sbk_moneyKey b \<noteq> []" "sbk_hard b"
        "Mapping.lookup (st_accounts tx) (bookAccount b) = Some a" "0 \<le> retained" "retained \<le> sbk_amount b"
        "sub64 (sbk_amount b) retained \<le> hardEncumbered a" "checkedAdd (hardConsumed a) retained = Inr hc"
        "st_accounts tx' = Mapping.update (bookAccount b)
           (a\<lparr>hardEncumbered := sub64 (hardEncumbered a) (sub64 (sbk_amount b) retained), hardConsumed := hc\<rparr>) (st_accounts tx)"
    | (Soft) a retained where "sbk_moneyKey b \<noteq> []" "\<not> sbk_hard b"
        "Mapping.lookup (st_accounts tx) (bookAccount b) = Some a" "0 \<le> retained" "retained \<le> sbk_amount b"
        "sbk_amount b \<le> softPending a" "sub64 (sbk_amount b) retained \<le> softConsumed a"
        "st_accounts tx' = Mapping.update (bookAccount b)
           (a\<lparr>softPending := sub64 (softPending a) (sbk_amount b),
              softConsumed := sub64 (softConsumed a) (sub64 (sbk_amount b) retained)\<rparr>) (st_accounts tx)"
proof -
  note cases = that
  obtain tx1 where c: "clearPending b tx = Inr tx1"
    using assms by (auto simp: settleBooking_def split: sum.splits)
  note s1 = assms [unfolded settleBooking_def c sum.case]
  have cleared: "st_accounts tx1 = (if sbk_moneyKey b = [] \<or> sbk_hard b then st_accounts tx
      else Mapping.map_entry (bookAccount b) (\<lambda>a. a\<lparr>softPending := sub64 (softPending a) (sbk_amount b)\<rparr>) (st_accounts tx))"
    and pend: "sbk_moneyKey b \<noteq> [] \<Longrightarrow> \<not> sbk_hard b \<Longrightarrow>
      \<exists>a. Mapping.lookup (st_accounts tx) (bookAccount b) = Some a \<and> sbk_amount b \<le> softPending a"
    using c by (auto simp: clearPending_def Let_def lookup_update' lookup_map_entry' intro!: mapping_eqI
        split: if_splits option.splits)
  show thesis
  proof (cases "sbk_moneyKey b = []")
    case True
    have "st_accounts tx' = st_accounts tx"
      using s1 True cleared
      by (auto simp: freezeBooking_def Let_def settleSharedBooking_def split: if_splits option.splits sum.splits prod.splits)
    then show ?thesis using cases(1) True by blast
  next
    case money: False
    show ?thesis
    proof (cases invalid)
      case True
      then have tx': "st_accounts tx' = Mapping.map_entry (bookAccount b) (\<lambda>a. a\<lparr>frozen := True\<rparr>) (st_accounts tx1)"
        using s1 money by (auto simp: freezeBooking_def Let_def)
      show ?thesis
      proof (cases "Mapping.lookup (st_accounts tx) (bookAccount b)")
        case None
        then have "sbk_hard b" using pend money by auto
        moreover from this have "st_accounts tx' = st_accounts tx"
          using None tx' cleared by (auto simp: lookup_map_entry' intro!: mapping_eqI)
        ultimately show ?thesis using cases(3) True money None by blast
      next
        case (Some a)
        have "st_accounts tx' = Mapping.update (bookAccount b)
           (a\<lparr>softPending := (if sbk_hard b then softPending a else sub64 (softPending a) (sbk_amount b)), frozen := True\<rparr>) (st_accounts tx)"
          using Some tx' cleared money by (auto simp: lookup_map_entry' lookup_update' intro!: mapping_eqI)
        then show ?thesis using cases(2) [OF True money Some] pend money Some by auto
      qed
    next
      case False
      obtain retained known where r: "sharedRetained b terminal usage = (retained, known)" by (cases "sharedRetained b terminal usage")
      note s2 = s1 [unfolded if_not_P [OF False] r prod.case]
      obtain a1 a1' where a: "Mapping.lookup (st_accounts tx1) (bookAccount b) = Some a1" "settleMoney b retained a1 = Inr a1'"
        "st_accounts tx' = Mapping.update (bookAccount b) a1' (st_accounts tx1)"
        and range: "0 \<le> retained" "retained \<le> sbk_amount b"
        using s2 money
        by (auto simp: settleSharedBooking_def settleCounter_def Let_def split: option.splits sum.splits prod.splits if_splits)
      show ?thesis
      proof (cases "sbk_hard b")
        case True
        then have "st_accounts tx1 = st_accounts tx" using cleared by simp
        then show ?thesis
          using a True cases(4) [OF money True _ range]
          by (auto simp: settleMoney_def Let_def split: if_splits sum.splits)
      next
        case soft: False
        obtain a0 where a0: "Mapping.lookup (st_accounts tx) (bookAccount b) = Some a0" "sbk_amount b \<le> softPending a0"
          using pend money soft by blast
        have a1: "a1 = a0\<lparr>softPending := sub64 (softPending a0) (sbk_amount b)\<rparr>"
          using a(1) a0(1) cleared money soft by (simp add: lookup_map_entry')
        have "st_accounts tx' = Mapping.update (bookAccount b) a1' (st_accounts tx)"
          using a(3) cleared money soft by (auto simp: lookup_map_entry' lookup_update' intro!: mapping_eqI)
        then show ?thesis
          using a(2) a1 soft cases(5) [OF money soft a0(1) range a0(2)]
          by (auto simp: settleMoney_def Let_def split: if_splits)
      qed
    qed
  qed
qed


lemma settle_keeps_books:
  assumes "settleBooking hash terminal usage invalid b tx = Inr tx'"
  shows "sd_ledger (st_db tx') = sd_ledger (st_db tx)" "sd_bookings (st_db tx') = sd_bookings (st_db tx)"
    "sd_permits (st_db tx') = sd_permits (st_db tx)"
proof -
  obtain tx1 where c: "clearPending b tx = Inr tx1"
    using assms by (auto simp: settleBooking_def split: sum.splits)
  have "st_db tx1 = st_db tx"
    using c by (auto simp: clearPending_def Let_def split: if_splits option.splits)
  then show "sd_ledger (st_db tx') = sd_ledger (st_db tx)" "sd_bookings (st_db tx') = sd_bookings (st_db tx)"
    "sd_permits (st_db tx') = sd_permits (st_db tx)"
    using assms c by (auto simp: settleBooking_def freezeBooking_def settleSharedBooking_def Let_def
        split: if_splits option.splits sum.splits prod.splits)
qed

text \<open>
  One booking leaves the list of those in flight: what it returns is at most what it had
  booked, so the rest stays covered.
\<close>

lemma settling_shift:
  assumes inv: "settling x L hash db (b # bs) tx" and b: "sbk_moneyKey b \<noteq> []"
    and a: "Mapping.lookup (st_accounts tx) (bookAccount b) = Some a"
    and ok: "accountOK a'" "frozen a' \<or> hardEncumbered a' \<le> hardEncumbered a \<and> frozen a' = frozen a"
    and enc: "hardEncumbered a - (if sbk_hard b then sbk_amount b else 0) \<le> hardEncumbered a'" "hardConsumed a \<le> hardConsumed a'"
    and soft: "softConsumed a - (if sbk_hard b then 0 else sbk_amount b) \<le> softConsumed a'"
      "softPending a' = softPending a - (if sbk_hard b then 0 else sbk_amount b)"
    and tx': "st_accounts tx' = Mapping.update (bookAccount b) a' (st_accounts tx)"
      "sd_ledger (st_db tx') = sd_ledger (st_db tx)" "sd_bookings (st_db tx') = sd_bookings (st_db tx)"
      "sd_permits (st_db tx') = sd_permits (st_db tx)"
  shows "settling (shift x (bookAccount b) a a') L hash db bs tx'"
proof -
  let ?k = "bookAccount b"
  have t: "txOK x L (moneyTx tx)" using inv by (simp add: settling_def)
  have a1: "Mapping.lookup (tx_accounts (moneyTx tx)) ?k = Some a" using a by simp
  have "frozen a' \<or> hardEncumbered a' \<le> L ?k"
    using t view_known [OF a1] ok(2) by (force simp: txOK_def withinCaps_def)
  from shift_ok [OF t a1 ok(1) this] have "txOK (shift x ?k a a') L (moneyTx tx')"
    by (simp add: tx'(1,2))
  moreover have parts: "hardOf k b = (if k = ?k \<and> sbk_hard b then sbk_amount b else 0)"
    "softOf k b = (if k = ?k \<and> \<not> sbk_hard b then sbk_amount b else 0)" for k
    using b by (auto simp: hardOf_def softOf_def)
  have "elseTotal hardOf k hash db + (\<Sum>b \<leftarrow> bs. hardOf k b) \<le> x_encumbered (shift x ?k a a') k
      \<and> x_pending (shift x ?k a a') k = elseTotal softOf k hash db + (\<Sum>b \<leftarrow> bs. softOf k b)
      \<and> elseTotal softOf k hash db + (\<Sum>b \<leftarrow> bs. softOf k b) \<le> x_soft (shift x ?k a a') k
      \<and> 0 \<le> x_consumed (shift x ?k a a') k" for k
  proof -
    have "elseTotal hardOf k hash db + (hardOf k b + (\<Sum>b \<leftarrow> bs. hardOf k b)) \<le> x_encumbered x k"
      "x_pending x k = elseTotal softOf k hash db + (softOf k b + (\<Sum>b \<leftarrow> bs. softOf k b))"
      "elseTotal softOf k hash db + (softOf k b + (\<Sum>b \<leftarrow> bs. softOf k b)) \<le> x_soft x k" "0 \<le> x_consumed x k"
      using inv by (simp_all add: settling_def)
    then show ?thesis using enc soft unfolding parts
      by (cases "k = ?k"; cases "sbk_hard b") (auto simp: shift_def)
  qed
  ultimately show ?thesis using inv tx'(3,4) by (simp add: settling_def)
qed

lemma settle_step:
  assumes inv: "settling x L hash db (b # bs) tx" and amount: "0 \<le> sbk_amount b" "in64 (sbk_amount b)"
    and step: "settleBooking hash terminal usage invalid b tx = Inr tx'"
  shows "\<exists>x'. settling x' L hash db bs tx'"
proof -
  note kept = settle_keeps_books [OF step]
  have t: "txOK x L (moneyTx tx)" using inv by (simp add: settling_def)
  have aok: "accountOK a" if "Mapping.lookup (st_accounts tx) k = Some a" for k a
    using t known_accounts_ok [of x "moneyTx tx"] that by (auto simp: txOK_def)
  have sub: "sub64 c d = c - d" if "0 \<le> d" "d \<le> c" "in64 c" for c d
    using that by (intro sub64_nonneg) simp_all
  have stay: "settling x L hash db bs tx'"
    if same: "st_accounts tx' = st_accounts tx" and none: "sbk_moneyKey b = [] \<or> sbk_hard b"
  proof -
    have le: "0 \<le> hardOf k b" "softOf k b = 0" for k using amount none by (auto simp: hardOf_def softOf_def)
    have h: "elseTotal hardOf k hash db + (\<Sum>b \<leftarrow> bs. hardOf k b) \<le> x_encumbered x k" for k
      using inv le(1) [of k] by (auto simp: settling_def) (smt (verit))
    show ?thesis using inv h le(2) same kept by (simp add: settling_def)
  qed
  from step show ?thesis
  proof (cases rule: settle_booking_parts)
    case NoMoney
    then show ?thesis using stay by blast
  next
    case (Invalid a)
    have ok: "accountOK a" by (rule aok [OF Invalid(3)])
    let ?a' = "a\<lparr>softPending := (if sbk_hard b then softPending a else sub64 (softPending a) (sbk_amount b)), frozen := True\<rparr>"
    have "sub64 (softPending a) (sbk_amount b) = softPending a - sbk_amount b" if "\<not> sbk_hard b"
      using Invalid(4) that amount ok by (intro sub) (auto simp: accountOK_def in64_bounds)
    then have "settling (shift x (bookAccount b) a ?a') L hash db bs tx'"
      using Invalid(2,4) ok amount
      by (intro settling_shift [OF inv _ Invalid(3) _ _ _ _ _ _ Invalid(5) kept]) (auto simp: accountOK_def)
    then show ?thesis by blast
  next
    case Missing
    then show ?thesis using stay by blast
  next
    case (Hard a hc retained)
    have ok: "accountOK a" by (rule aok [OF Hard(3)])
    have refund: "sub64 (sbk_amount b) retained = sbk_amount b - retained" by (rule sub) (use Hard(4,5) amount in simp_all)
    have enc: "sub64 (hardEncumbered a) (sbk_amount b - retained) = hardEncumbered a - (sbk_amount b - retained)"
      by (rule sub) (use Hard(5,6) refund ok in \<open>simp_all add: accountOK_def\<close>)
    have hc: "hc = hardConsumed a + retained" "in64 hc" using led.cadd_InrD [OF Hard(7)] led.cadd_mono [OF Hard(7)] by simp_all
    let ?a' = "a\<lparr>hardEncumbered := sub64 (hardEncumbered a) (sub64 (sbk_amount b) retained), hardConsumed := hc\<rparr>"
    have "settling (shift x (bookAccount b) a ?a') L hash db bs tx'"
      using Hard(2,4,5,6) ok amount hc refund enc
      by (intro settling_shift [OF inv Hard(1,3) _ _ _ _ _ _ Hard(8) kept]) (auto simp: accountOK_def in64_bounds)
    then show ?thesis by blast
  next
    case (Soft a retained)
    have ok: "accountOK a" by (rule aok [OF Soft(3)])
    have refund: "sub64 (sbk_amount b) retained = sbk_amount b - retained" by (rule sub) (use Soft(4,5) amount in simp_all)
    have sc: "sub64 (softConsumed a) (sbk_amount b - retained) = softConsumed a - (sbk_amount b - retained)"
      by (rule sub) (use Soft(5,7) refund ok in \<open>simp_all add: accountOK_def\<close>)
    have sp: "sub64 (softPending a) (sbk_amount b) = softPending a - sbk_amount b"
      by (rule sub) (use Soft(6) amount ok in \<open>auto simp: accountOK_def in64_bounds\<close>)
    let ?a' = "a\<lparr>softPending := sub64 (softPending a) (sbk_amount b),
              softConsumed := sub64 (softConsumed a) (sub64 (sbk_amount b) retained)\<rparr>"
    have "settling (shift x (bookAccount b) a ?a') L hash db bs tx'"
      using Soft(2,4,5,6,7) ok amount refund sc sp
      by (intro settling_shift [OF inv Soft(1,3) _ _ _ _ _ _ Soft(8) kept]) (auto simp: accountOK_def in64_bounds)
    then show ?thesis by blast
  qed
qed

lemma settle_loop:
  assumes "foldE (settleBooking hash terminal usage invalid) bs tx = Inr tx'" "settling x L hash db bs tx"
    and "\<forall>b \<in> set bs. 0 \<le> sbk_amount b \<and> in64 (sbk_amount b)"
  shows "\<exists>x'. settling x' L hash db [] tx'"
  using assms
proof (induction bs arbitrary: tx x)
  case Nil
  then show ?case by auto
next
  case (Cons b bs)
  then obtain tx1 where s: "settleBooking hash terminal usage invalid b tx = Inr tx1"
    "foldE (settleBooking hash terminal usage invalid) bs tx1 = Inr tx'"
    by (auto split: sum.splits)
  obtain x1 where "settling x1 L hash db bs tx1"
    using settle_step [OF Cons.prems(2) _ _ s(1)] Cons.prems(3) by auto
  then show ?case using Cons.IH [OF s(2)] Cons.prems(3) by simp
qed


text \<open>Once every booking of a permit has left, closing the permit restores the invariant.\<close>

lemma else_total_closed:
  assumes "\<not> isOpen db' hash" "\<And>h. h \<noteq> hash \<Longrightarrow> isOpen db' h = isOpen db h" "sd_bookings db' = sd_bookings db"
  shows "openTotal f k db' = elseTotal f k hash db"
proof -
  have "(isOpen db' (fst row)) = (isOpen db (fst row) \<and> fst row \<noteq> hash)"
    for row :: "string \<times> accountKey"
    using assms(1,2) by (cases "fst row = hash") auto
  then show ?thesis by (simp add: openTotal_def elseTotal_def mtotal_def assms(3))
qed

lemma settled_inv:
  assumes "settling x L hash db [] tx" "bookingsOK db" "pw_terminal row \<noteq> []"
  shows "stInv x L (tx\<lparr>st_db := (st_db tx)\<lparr>sd_permits := Mapping.update hash row (sd_permits db)\<rparr>\<rparr>)"
    (is "stInv x L ?tx'")
proof -
  have same: "sd_bookings (st_db tx) = sd_bookings db" "sd_permits (st_db tx) = sd_permits db"
    using assms(1) by (simp_all add: settling_def)
  have total: "openTotal f k (st_db ?tx') = elseTotal f k hash db" for f k
    by (rule else_total_closed) (use assms(3) same in \<open>simp_all add: isOpen_def lookup_update'\<close>)
  have "bookingsOK (st_db ?tx')"
    using assms(2) same(1) by (auto simp: bookingsOK_def lookup_update')
  then show ?thesis using assms(1) by (simp add: stInv_def settling_def coversOpen_def total [simplified])
qed

lemma persist_permits:
  assumes "persistShared tx = Inr db'"
  shows "persistShared (tx\<lparr>st_db := (st_db tx)\<lparr>sd_permits := ps\<rparr>\<rparr>) = Inr (db'\<lparr>sd_permits := ps\<rparr>)"
  using assms by (auto simp: persistShared_def persistSharedCounters_def unavailable_def split: sum.splits)

lemma terminal_transaction_parts:
  assumes "terminalTransaction env fpr now p terminal usage db = Inr (db', invalid)"
  obtains (Replay) row where "Mapping.lookup (sd_permits db) (le_ch env (sp_ID p)) = Some row"
      "pw_terminal row \<noteq> []" "pw_terminal row = terminal" "pw_fingerprint row = fpr terminal usage" "\<not> pw_invalid row"
      "db' = db" "\<not> invalid"
  | (Settle) row tx tx' db1 where "Mapping.lookup (sd_permits db) (le_ch env (sp_ID p)) = Some row"
      "pw_terminal row = []" "pw_tokens row = sp_TokenBound p" "pw_cost row = sp_CostBoundMicroUSD p"
      "invalid = (ss_InvalidUsage usage \<or> sharedInvalidObservation (ss_Tokens usage) (pw_tokens row)
         \<or> sharedInvalidObservation (ss_CostMicroUSD usage) (pw_cost row))"
      "length (readSharedBookings db (le_ch env (sp_ID p))) = pw_bookings row"
      "sharedLock env [] (bookedMeters (readSharedBookings db (le_ch env (sp_ID p))))
         (map bookedDefinition (readSharedBookings db (le_ch env (sp_ID p)))) now False db = Inr tx"
      "foldE (settleBooking (le_ch env (sp_ID p)) terminal usage invalid) (readSharedBookings db (le_ch env (sp_ID p))) tx = Inr tx'"
      "persistShared tx' = Inr db1"
      "db' = db1\<lparr>sd_permits := Mapping.update (le_ch env (sp_ID p))
         (row\<lparr>pw_terminal := terminal, pw_fingerprint := fpr terminal usage, pw_invalid := invalid\<rparr>) (sd_permits db1)\<rparr>"
proof -
  note cases = that
  obtain row where row: "Mapping.lookup (sd_permits db) (le_ch env (sp_ID p)) = Some row"
    using assms by (auto simp: terminalTransaction_def Let_def split: option.splits)
  note s1 = assms [unfolded terminalTransaction_def Let_def row option.case]
  have bound: "pw_tokens row = sp_TokenBound p" "pw_cost row = sp_CostBoundMicroUSD p"
    using s1 by (auto split: if_splits)
  note s2 = s1 [simplified bound simp_thms if_False]
  show thesis
  proof (cases "pw_terminal row = []")
    case False
    then show ?thesis using s2 cases(1) [OF row False] by (auto split: if_splits)
  next
    case True
    note s3 = s2 [simplified True simp_thms if_False]
    let ?bs = "readSharedBookings db (le_ch env (sp_ID p))"
    let ?inv = "ss_InvalidUsage usage \<or> sharedInvalidObservation (ss_Tokens usage) (sp_TokenBound p)
         \<or> sharedInvalidObservation (ss_CostMicroUSD usage) (sp_CostBoundMicroUSD p)"
    have len: "length ?bs = pw_bookings row" using s3 by (auto split: if_splits)
    note s4 = s3 [simplified len simp_thms if_False]
    obtain tx where tx: "sharedLock env [] (bookedMeters ?bs) (map bookedDefinition ?bs) now False db = Inr tx"
      using s4 by (auto split: sum.splits)
    note s5 = s4 [unfolded tx sum.case]
    obtain tx' where tx': "foldE (settleBooking (le_ch env (sp_ID p)) terminal usage ?inv) ?bs tx = Inr tx'"
      using s5 by (auto split: sum.splits)
    note s6 = s5 [unfolded tx' sum.case]
    obtain db1 where db1: "persistShared tx' = Inr db1" using s6 by (auto split: sum.splits)
    note s7 = s6 [unfolded db1 sum.case, simplified]
    have inv: "invalid = ?inv" using s7 by blast
    show ?thesis
      by (rule cases(2) [OF row True bound _ len tx _ db1]) (use s7 tx' inv bound in simp_all)
  qed
qed


lemma read_bookings_in:
  assumes "bookingsOK db" "b \<in> set (readSharedBookings db hash)"
  shows "Mapping.lookup (sd_bookings db) (hash, sbk_id b) = Some b" "0 \<le> sbk_amount b" "in64 (sbk_amount b)"
proof -
  have "finite (Mapping.keys (sd_bookings db))" using assms(1) by (simp add: bookingsOK_def)
  then obtain i where i: "Mapping.lookup (sd_bookings db) (hash, i) = Some b"
    using assms(2) by (auto simp: readSharedBookings_def keys_lookup)
  with assms(1) have "sbk_id b = i" "0 \<le> sbk_amount b" "in64 (sbk_amount b)" by (fastforce simp: bookingsOK_def)+
  with i show "Mapping.lookup (sd_bookings db) (hash, sbk_id b) = Some b" "0 \<le> sbk_amount b" "in64 (sbk_amount b)"
    by simp_all
qed

lemma settling_start:
  assumes "stInv x L tx" "sd_bookings (st_db tx) = sd_bookings db" "sd_permits (st_db tx) = sd_permits db"
    and "bookingsOK db" "isOpen db hash"
  shows "settling x L hash db (readSharedBookings db hash) tx"
proof -
  have "openTotal f k (st_db tx) = elseTotal f k hash db + (\<Sum>b \<leftarrow> readSharedBookings db hash. f k b)" for f k
    using open_total_split [OF assms(4,5)] assms(2,3) by (simp add: openTotal_def isOpen_def)
  then show ?thesis using assms(1-3) by (simp add: settling_def stInv_def coversOpen_def)
qed

lemma terminal_transaction_inv:
  assumes inv: "moneyInv L db" and terminal: "terminal \<noteq> []"
    and step: "terminalTransaction env fpr now p terminal usage db = Inr (db', invalid)"
  shows "moneyInv L db'"
  using step
proof (cases rule: terminal_transaction_parts)
  case Replay
  then show ?thesis using inv by simp
next
  case (Settle row tx tx' db1)
  let ?h = "le_ch env (sp_ID p)"
  have bok: "bookingsOK db" using inv by (simp add: moneyInv_def)
  obtain x where x: "stInv x L tx" "sd_bookings (st_db tx) = sd_bookings db" "sd_permits (st_db tx) = sd_permits db"
    by (rule shared_lock_inv [OF inv Settle(7)])
  have "isOpen db ?h" using Settle(1,2) by (simp add: isOpen_def)
  from settling_start [OF x bok this]
  obtain x' where x': "settling x' L ?h db [] tx'"
    using settle_loop [OF Settle(8)] read_bookings_in(2,3) [OF bok] by blast
  let ?row = "row\<lparr>pw_terminal := terminal, pw_fingerprint := fpr terminal usage, pw_invalid := invalid\<rparr>"
  have "stInv x' L (tx'\<lparr>st_db := (st_db tx')\<lparr>sd_permits := Mapping.update ?h ?row (sd_permits db)\<rparr>\<rparr>)"
    by (rule settled_inv [OF x' bok]) (use terminal in simp)
  from persist_shared_inv(1) [OF this persist_permits [OF Settle(9)]]
  have "moneyInv L (db1\<lparr>sd_permits := Mapping.update ?h ?row (sd_permits db)\<rparr>)" .
  moreover have "sd_permits db1 = sd_permits db"
    using Settle(9) x' by (auto simp: persistShared_def persistSharedCounters_def settling_def split: sum.splits)
  ultimately show ?thesis using Settle(10) by simp
qed

section \<open>The operations\<close>

lemma run_shared_cases:
  assumes "runShared oc body db = (db', res)"
  obtains "db' = db" "\<exists>e. res = Inl e" | r where "body db = Inr (db', r)" "res = Inr r \<or> res = Inl ErrSharedUnavailable"
  using assms by (auto simp: runShared_def split: if_splits sum.splits commit.splits prod.splits)

definition request_in64 :: "SharedRequest \<Rightarrow> bool" where
  "request_in64 req \<longleftrightarrow> in64 (sq_TokenBound req) \<and> in64 (sq_CostBoundMicroUSD req)"

lemma reserve_shared_inv:
  assumes "moneyInv L db" "limitsWithin env L rows now1" "request_in64 req"
    and "ReserveShared env newID row rows now1 now oc req db = (db', res)"
  shows "moneyInv L db'"
proof (cases "sq_TokenBound req < 0 \<or> sq_CostBoundMicroUSD req < 0 \<or> \<not> validText (sq_AuthRevision req)
         \<or> \<not> validText (sq_Model req) \<or> \<not> validText (sq_RequestedModel req)")
  case True
  then show ?thesis using assms(1,4) by (auto simp: ReserveShared_def)
next
  case False
  then have "runShared oc (reserveTransaction env newID row rows now1 now req) db = (db', res)"
    using assms(4) by (simp add: ReserveShared_def)
  then show ?thesis
  proof (cases rule: run_shared_cases)
    case 1
    then show ?thesis using assms(1) by simp
  next
    case (2 r)
    show ?thesis
      by (rule reserve_transaction_inv [OF assms(1,2) _ _ _ _ 2(1)]) (use False assms(3) in \<open>simp_all add: request_in64_def\<close>)
  qed
qed

lemma shared_terminal_cases:
  assumes "sharedTerminal env fpr now oc permit terminal usage db = (db', res)"
  obtains "db' = db" "res = None \<Longrightarrow> False"
    | p invalid where "permit = Some p" "terminalTransaction env fpr now p terminal usage db = Inr (db', invalid)"
       "res = None \<longrightarrow> \<not> invalid"
proof (cases permit)
  case None
  then show ?thesis using that(1) assms by (auto simp: sharedTerminal_def)
next
  case (Some p)
  show ?thesis
  proof (cases "\<not> validCapability (sp_ID p) \<or> sp_TokenBound p < 0 \<or> sp_CostBoundMicroUSD p < 0")
    case True
    then show ?thesis using that(1) assms Some by (auto simp: sharedTerminal_def)
  next
    case False
    obtain r where r: "runShared oc (terminalTransaction env fpr now p terminal usage) db = (db', r)"
      "res = (case r of Inl e \<Rightarrow> Some e | Inr invalid \<Rightarrow> if invalid then Some ErrSharedUnavailable else None)"
      using assms False Some by (auto simp: sharedTerminal_def split: prod.splits sum.splits)
    from r(1) show ?thesis
      by (cases rule: run_shared_cases) (use r(2) that Some in \<open>auto split: if_splits\<close>)
  qed
qed

lemma shared_terminal_inv:
  assumes "moneyInv L db" "terminal \<noteq> []" "sharedTerminal env fpr now oc permit terminal usage db = (db', res)"
  shows "moneyInv L db'"
  using assms(3) by (cases rule: shared_terminal_cases)
    (use assms(1) terminal_transaction_inv [OF assms(1,2)] in blast)+

lemma sync_shared_inv:
  assumes "moneyInv L db" "request64 req" "limitsWithin env L rows now1"
    and "Sync env newID aid rows now1 now oc dp req (sd_ledger db) = (led, res)"
  shows "moneyInv L (db\<lparr>sd_ledger := led\<rparr>)"
proof -
  obtain x where x: "ledgerInv x (sd_ledger db)" "withinCaps L (accountAt (lg_accounts (sd_ledger db)))" "coversOpen x db"
    "bookingsOK db"
    using assms(1) by (auto simp: moneyInv_def)
  have "openTotal f k (db\<lparr>sd_ledger := led\<rparr>) = openTotal f k db" for f k by (simp add: openTotal_def isOpen_def)
  then show ?thesis
    using sync_ok [OF conjI [OF x(1,2)] assms(2-4)] x(3,4) by (auto simp: moneyInv_def coversOpen_def bookingsOK_def)
qed

end
