(* ===== verification/SharedLimits.thy ===== *)
theory SharedLimits
  imports SharedInv
begin

text \<open>
  What an admitted reservation leaves behind: every limit of the principal is booked with its
  bound, and every hard one is within its limit on the counters and accounts that are stored.
\<close>

section \<open>The counters of a transaction\<close>

abbreviation counterAt :: "STx \<Rightarrow> accountKey \<Rightarrow> sharedCounter option" where
  "counterAt tx k \<equiv> Mapping.lookup (st_counters tx) k"

definition finiteCounters :: "STx \<Rightarrow> bool" where
  "finiteCounters tx \<longleftrightarrow> finite (Mapping.keys (st_counters tx))"

lemma finite_counters_update:
  "finiteCounters tx \<Longrightarrow> st_counters tx' = Mapping.update k c (st_counters tx) \<Longrightarrow> finiteCounters tx'"
  by (simp add: finiteCounters_def)

lemma refill_counters:
  assumes "refillSharedRate k now rate tx = Inr tx'"
  obtains c where "st_counters tx' = Mapping.update k c (st_counters tx)"
  using assms that by (auto simp: refillSharedRate_def Let_def split: option.splits sum.splits if_splits prod.splits)

lemma admit_counters:
  assumes "admitDefinition req now d (tx, den) = Inr (tx', den')"
  obtains c where "st_counters tx' = Mapping.update (sf_id d) c (st_counters tx)"
proof -
  obtain tx1 where r: "refillSharedRate (sf_id d) now (sf_rate d) tx = Inr tx1" and "tx' = tx1"
    using assms by (auto simp: admitDefinition_def split: sum.splits option.splits if_splits)
  then show thesis using refill_counters [OF r] that by blast
qed

lemma admit_loop_counters:
  assumes "foldE (admitDefinition req now) ds (tx, den) = Inr (tx', None)" "distinct (map sf_id ds)"
    and "finiteCounters tx"
  shows "finiteCounters tx' \<and> (\<forall>k. k \<notin> sf_id ` set ds \<longrightarrow> counterAt tx' k = counterAt tx k)
    \<and> (\<forall>d \<in> set ds. \<exists>c. counterAt tx' (sf_id d) = Some c \<and> sharedCheckCapacity d c (st_accounts tx) (sf_bound d req) = None)"
  using assms
proof (induction ds arbitrary: tx den)
  case (Cons d ds)
  then obtain tx1 den1 where s: "admitDefinition req now d (tx, den) = Inr (tx1, den1)"
    "foldE (admitDefinition req now) ds (tx1, den1) = Inr (tx', None)"
    by (auto split: sum.splits)
  obtain c1 where c1: "st_counters tx1 = Mapping.update (sf_id d) c1 (st_counters tx)" by (rule admit_counters [OF s(1)])
  have rest: "distinct (map sf_id ds)" "sf_id d \<notin> sf_id ` set ds" using Cons.prems(2) by auto
  note ih = Cons.IH [OF s(2) rest(1) finite_counters_update [OF Cons.prems(3) c1]]
  have acc: "st_accounts tx1 = st_accounts tx" using admit_step(1) [OF s(1)] by (simp add: sameBooks_def)
  have "den1 = None" by (rule admit_loop(2) [OF s(2)])
  from admit_step(3) [OF s(1) this]
  obtain c where "counterAt tx1 (sf_id d) = Some c" "sharedCheckCapacity d c (st_accounts tx) (sf_bound d req) = None"
    by blast
  then have "\<exists>c. counterAt tx' (sf_id d) = Some c \<and> sharedCheckCapacity d c (st_accounts tx) (sf_bound d req) = None"
    using ih rest(2) by auto
  moreover have "counterAt tx' k = counterAt tx k" if "k \<notin> sf_id ` set (d # ds)" for k
    using ih that c1 by (auto simp: lookup_update')
  ultimately show ?case using ih acc by simp
qed simp

lemma lock_counters_finite:
  assumes "lockSharedCounters defs now cr tx = Inr tx'" "finiteCounters tx"
  shows "finiteCounters tx'"
proof (rule foldE_invariant [OF assms(1) [unfolded lockSharedCounters_def], where P = finiteCounters])
  show "finiteCounters s'" if "finiteCounters s" "lockSharedCounter defs now cr k s = Inr s'" for k s s'
    using that by (auto simp: lockSharedCounter_def Let_def finiteCounters_def split: option.splits)
qed (rule assms(2))

section \<open>Booking every limit\<close>

definition bookedAs :: "SharedRequest \<Rightarrow> string \<Rightarrow> STx \<Rightarrow> STx \<Rightarrow> sharedDefinition \<Rightarrow> bool" where
  "bookedAs req hash tx tx' d \<longleftrightarrow>
     Mapping.lookup (sd_bookings (st_db tx')) (hash, sf_id d) = Some (bookingOf d (sf_bound d req))
     \<and> (\<exists>c c'. counterAt tx (sf_id d) = Some c \<and> bookCounter d (sf_bound d req) c = Inr c'
          \<and> counterAt tx' (sf_id d) = Some c')
     \<and> (sf_moneyKey d \<noteq> [] \<longrightarrow> (\<exists>a a'. Mapping.lookup (st_accounts tx) (defAccount d) = Some a
          \<and> bookMoney d (sf_bound d req) a = Inr a' \<and> Mapping.lookup (st_accounts tx') (defAccount d) = Some a'))"

lemma book_loop_outcome:
  assumes "foldE (bookDefinition req hash) ds tx = Inr tx'" "finiteCounters tx" "\<forall>d \<in> set ds. moneyNamed d"
  shows "finiteCounters tx'
    \<and> (\<forall>k. k \<notin> sf_id ` set ds \<longrightarrow> counterAt tx' k = counterAt tx k)
    \<and> (\<forall>row. row \<notin> (\<lambda>d. (hash, sf_id d)) ` set ds \<longrightarrow>
         Mapping.lookup (sd_bookings (st_db tx')) row = Mapping.lookup (sd_bookings (st_db tx)) row)
    \<and> (\<forall>k. k \<notin> defAccount ` {d \<in> set ds. sf_moneyKey d \<noteq> []} \<longrightarrow>
         Mapping.lookup (st_accounts tx') k = Mapping.lookup (st_accounts tx) k)
    \<and> (\<forall>d \<in> set ds. bookedAs req hash tx tx' d)"
  using assms
proof (induction ds arbitrary: tx)
  case (Cons d ds)
  then obtain tx1 where s: "bookDefinition req hash d tx = Inr tx1" "foldE (bookDefinition req hash) ds tx1 = Inr tx'"
    by (auto split: sum.splits)
  obtain c c' where new: "counterAt tx (sf_id d) = Some c" "bookCounter d (sf_bound d req) c = Inr c'"
    and c': "st_counters tx1 = Mapping.update (sf_id d) c' (st_counters tx)"
    and bk: "sd_bookings (st_db tx1) = Mapping.update (hash, sf_id d) (bookingOf d (sf_bound d req)) (sd_bookings (st_db tx))"
    and acc: "if sf_moneyKey d = [] then st_accounts tx1 = st_accounts tx
     else (\<exists>a a'. Mapping.lookup (st_accounts tx) (defAccount d) = Some a \<and> bookMoney d (sf_bound d req) a = Inr a'
       \<and> st_accounts tx1 = Mapping.update (defAccount d) a' (st_accounts tx))"
    by (rule book_definition_parts [OF s(1)]) simp
  have named: "\<forall>d \<in> set ds. moneyNamed d" using Cons.prems(3) by simp
  note all = Cons.IH [OF s(2) finite_counters_update [OF Cons.prems(2) c'] named]
  have keptC: "counterAt tx' k = counterAt tx1 k" if "k \<notin> sf_id ` set ds" for k using all that by blast
  have keptB: "Mapping.lookup (sd_bookings (st_db tx')) row = Mapping.lookup (sd_bookings (st_db tx1)) row"
    if "row \<notin> (\<lambda>d. (hash, sf_id d)) ` set ds" for row using all that by blast
  have keptA: "Mapping.lookup (st_accounts tx') k = Mapping.lookup (st_accounts tx1) k"
    if "k \<notin> defAccount ` {d \<in> set ds. sf_moneyKey d \<noteq> []}" for k using all that by blast
  have fin: "finiteCounters tx'" using all by blast
  have ne: "sf_id e \<noteq> sf_id d" if "e \<in> set ds" for e
    using book_loop_distinct [OF Cons.prems(1)] that by (auto simp: image_iff)
  have accne: "defAccount e \<noteq> defAccount d" if "e \<in> set ds" "sf_moneyKey e \<noteq> []" "sf_moneyKey d \<noteq> []" for e
    using money_named_inj [of e d] ne [OF that(1)] that Cons.prems(3) by auto
  have same: "Mapping.lookup (st_accounts tx1) k = Mapping.lookup (st_accounts tx) k" if "sf_moneyKey d = [] \<or> k \<noteq> defAccount d" for k
    using acc that by (auto simp: lookup_update' split: if_splits)
  have nd: "sf_id d \<notin> sf_id ` set ds" using ne by force
  have headB: "Mapping.lookup (sd_bookings (st_db tx')) (hash, sf_id d) = Some (bookingOf d (sf_bound d req))"
  proof -
    have "(hash, sf_id d) \<notin> (\<lambda>d. (hash, sf_id d)) ` set ds" using ne by force
    then show ?thesis by (simp add: keptB bk)
  qed
  have headC: "counterAt tx' (sf_id d) = Some c'" by (simp add: keptC [OF nd] c')
  have headA: "Mapping.lookup (st_accounts tx') (defAccount d) = Mapping.lookup (st_accounts tx1) (defAccount d)"
    if "sf_moneyKey d \<noteq> []"
  proof (rule keptA)
    show "defAccount d \<notin> defAccount ` {d \<in> set ds. sf_moneyKey d \<noteq> []}"
      using accne that by force
  qed
  have tail: "counterAt tx1 (sf_id e) = counterAt tx (sf_id e)"
    "sf_moneyKey e \<noteq> [] \<Longrightarrow> Mapping.lookup (st_accounts tx1) (defAccount e) = Mapping.lookup (st_accounts tx) (defAccount e)"
    if "e \<in> set ds" for e
    using ne [OF that] accne [OF that] c' by (auto simp: lookup_update' intro: same)
  have money: "\<exists>a a'. Mapping.lookup (st_accounts tx) (defAccount d) = Some a
      \<and> bookMoney d (sf_bound d req) a = Inr a' \<and> Mapping.lookup (st_accounts tx') (defAccount d) = Some a'"
    if "sf_moneyKey d \<noteq> []"
    using acc that headA by auto
  have out: "counterAt tx' k = counterAt tx k" if "k \<notin> sf_id ` set (d # ds)" for k
    using keptC [of k] that c' by (auto simp: lookup_update')
  have out2: "Mapping.lookup (sd_bookings (st_db tx')) row = Mapping.lookup (sd_bookings (st_db tx)) row"
    if "row \<notin> (\<lambda>d. (hash, sf_id d)) ` set (d # ds)" for row
    using keptB [of row] that bk by (auto simp: lookup_update')
  have out3: "Mapping.lookup (st_accounts tx') k = Mapping.lookup (st_accounts tx) k"
    if "k \<notin> defAccount ` {e \<in> set (d # ds). sf_moneyKey e \<noteq> []}" for k
  proof -
    have "k \<notin> defAccount ` {d \<in> set ds. sf_moneyKey d \<noteq> []}" "sf_moneyKey d = [] \<or> k \<noteq> defAccount d"
      using that by auto
    then show ?thesis by (simp add: keptA same)
  qed
  have each: "bookedAs req hash tx tx' e"
    if "e \<in> set ds" for e
  proof (cases "sf_moneyKey e = []")
    case True
    then show ?thesis unfolding bookedAs_def tail(1) [OF that, symmetric] using all that unfolding bookedAs_def by blast
  next
    case False
    show ?thesis
      unfolding bookedAs_def tail(1) [OF that, symmetric] tail(2) [OF that False, symmetric]
      using all that unfolding bookedAs_def by blast
  qed
  have first: "bookedAs req hash tx tx' d"
    using headB headC new money unfolding bookedAs_def by blast
  show ?case
    by (intro conjI allI impI) (use fin out out2 out3 first each in simp_all)
qed simp


lemma book_loop_finite:
  assumes "foldE (bookDefinition req hash) ds tx = Inr tx'" "finite (Mapping.keys (st_accounts tx))"
  shows "finite (Mapping.keys (st_accounts tx'))"
proof (rule foldE_invariant [OF assms(1), where P = "\<lambda>tx. finite (Mapping.keys (st_accounts tx))"])
  show "finite (Mapping.keys (st_accounts s'))"
    if fin: "finite (Mapping.keys (st_accounts s))" and "bookDefinition req hash d s = Inr s'" for d s s'
    using that(2) by (rule book_definition_parts) (use fin in \<open>auto split: if_splits\<close>)
qed (rule assms(2))

section \<open>Within the limits\<close>

definition withinLimit :: "SharedDb \<Rightarrow> sharedDefinition \<Rightarrow> bool" where
  "withinLimit db d \<longleftrightarrow>
     (if sf_moneyKey d \<noteq> []
      then (let a = accountAt (lg_accounts (sd_ledger db)) (defAccount d)
            in \<not> frozen a \<and> hardEncumbered a + softConsumed a \<le> sf_limit d)
      else (case Mapping.lookup (sd_counters db) (sf_id d) of
              None \<Rightarrow> False
            | Some c \<Rightarrow> if sf_rate d > 0 then sc_debt c \<le> sharedScaled (sf_limit d) else sc_used c \<le> sf_limit d))"

lemma capacity_counter:
  assumes "sharedCheckCapacity d c accounts amount = None" "sf_moneyKey d = []" "sf_hard d"
    and "bookCounter d amount c = Inr c'"
  shows "if sf_rate d > 0 then sc_debt c' \<le> sharedScaled (sf_limit d) else sc_used c' \<le> sf_limit d"
proof -
  obtain u r where u: "checkedAdd (sc_used c) amount = Inr u" "checkedAdd (sc_reserved c) amount = Inr r"
    and c': "c' = c\<lparr>sc_used := u, sc_reserved := r,
      sc_debt := (if sf_rate d > 0 then sc_debt c + sharedScaled amount else sc_debt c)\<rparr>"
    using assms(4) by (auto simp: bookCounter_def split: sum.splits)
  show ?thesis
    using assms(1-3) u by (auto simp: sharedCheckCapacity_def Let_def c' split: if_splits sum.splits)
qed

lemma admit_not_frozen:
  assumes "foldE (admitDefinition req now) ds (tx, den) = Inr (tx', den')" "d \<in> set ds" "sf_moneyKey d \<noteq> []"
  shows "\<exists>a. Mapping.lookup (st_accounts tx) (defAccount d) = Some a \<and> \<not> frozen a"
  using assms(1,2)
proof (induction ds arbitrary: tx den)
  case (Cons e ds)
  then obtain tx1 den1 where s: "admitDefinition req now e (tx, den) = Inr (tx1, den1)"
    "foldE (admitDefinition req now) ds (tx1, den1) = Inr (tx', den')"
    by (auto split: sum.splits)
  have acc: "st_accounts tx1 = st_accounts tx" using admit_step(1) [OF s(1)] by (simp add: sameBooks_def)
  show ?case
  proof (cases "d = e")
    case True
    obtain tx0 where r: "refillSharedRate (sf_id e) now (sf_rate e) tx = Inr tx0"
      using s(1) by (auto simp: admitDefinition_def split: sum.splits)
    have "st_accounts tx0 = st_accounts tx" using refill_same_books [OF r] by (simp add: sameBooks_def)
    then show ?thesis
      using s(1) r assms(3) True by (auto simp: admitDefinition_def split: option.splits if_splits)
  next
    case False
    then show ?thesis using Cons.IH [OF s(2)] Cons.prems(2) acc by simp
  qed
qed simp

lemma persist_counters_lookup:
  assumes "persistShared tx = Inr db'" "finiteCounters tx" "counterAt tx k = Some c"
  shows "Mapping.lookup (sd_counters db') k = Some c"
  using assms
  by (auto simp: persistShared_def persistSharedCounters_def finiteCounters_def lookup_range_put split: sum.splits)

lemma shared_lock_finite:
  assumes "sharedLock env budgets meters defs now cr db = Inr tx"
  shows "finiteCounters tx"
proof -
  obtain t :: Tx where "lockSharedCounters defs now cr
      \<lparr>st_db = db\<lparr>sd_ledger := tx_db t\<rparr>, st_accounts = tx_accounts t, st_counters = Mapping.empty\<rparr> = Inr tx"
    by (cases rule: sum.exhaust [of "lockAccounts env [] [] meters budgets (sd_ledger db)"]) (use assms in \<open>auto simp: sharedLock_def split: sum.splits\<close>)
  then show ?thesis by (rule lock_counters_finite) (simp add: finiteCounters_def)
qed

lemma reserve_within_limits:
  assumes inv: "moneyInv L db" and step: "reserveTransaction env newID row rows now1 now req db = Inr (db', permit)"
  shows "\<exists>p defs budgets. sharedSnapshot row (sq_Subject req) = Inr p
    \<and> sharedDefinitions env rows p now1 (Some (sq_PolicyGeneration req)) = Inr (defs, budgets)
    \<and> (\<forall>d \<in> set defs.
         Mapping.lookup (sd_bookings db') (le_ch env (sp_ID permit), sf_id d) = Some (bookingOf d (sf_bound d req))
         \<and> (sf_hard d \<longrightarrow> withinLimit db' d))"
  using step
proof (cases rule: reserve_transaction_parts)
  case (1 p defs budgets tx0 tx1 tx2 pid)
  let ?hash = "le_ch env pid"
  let ?prow = "\<lparr>pw_tokens = sq_TokenBound req, pw_cost = sq_CostBoundMicroUSD req, pw_bookings = length defs,
           pw_terminal = [], pw_fingerprint = [], pw_invalid = False\<rparr>"
  let ?tx1' = "tx1\<lparr>st_db := (st_db tx1)\<lparr>sd_permits := Mapping.update ?hash ?prow (sd_permits (st_db tx1))\<rparr>\<rparr>"
  obtain x where x: "stInv x L tx0" by (rule shared_lock_inv [OF inv 1(4)])
  obtain docs all where named: "\<forall>d \<in> set defs. (sf_moneyKey d = [] \<or> (\<exists>b \<in> set budgets. d = budgetDefinition b))"
    by (rule definitions_outcome [OF 1(3)])
  then have mn: "\<forall>d \<in> set defs. moneyNamed d" by (auto simp: moneyNamed_def)
  note adm = admit_loop_counters [OF 1(6) book_loop_distinct [OF 1(9)] shared_lock_finite [OF 1(4)]]
  have fin1: "finiteCounters ?tx1'" using adm by (simp add: finiteCounters_def)
  note bl = book_loop_outcome [OF 1(9) fin1 mn]
  have fin2: "finiteCounters tx2" using bl by blast
  have same: "st_accounts tx1 = st_accounts tx0" using admit_loop(1) [OF 1(6)] by (simp add: sameBooks_def)
  obtain led where led: "persistAccounts (moneyTx tx2) = Inr led"
    and db': "db' = persistSharedCounters tx2 ((st_db tx2)\<lparr>sd_ledger := led\<rparr>)"
    using 1(10) by (auto simp: persistShared_def split: sum.splits)
  have finA: "finite (Mapping.keys (tx_accounts (moneyTx tx2)))"
    using book_loop_finite [OF 1(9)] x same by (simp add: stInv_def txOK_def txInv_def)
  have booked: "Mapping.lookup (sd_bookings db') (?hash, sf_id d) = Some (bookingOf d (sf_bound d req))" if "d \<in> set defs" for d
    using bl that by (simp add: bookedAs_def db' persistSharedCounters_def)
  have within: "withinLimit db' d" if d: "d \<in> set defs" and hard: "sf_hard d" for d
  proof -
    obtain c where c: "counterAt tx1 (sf_id d) = Some c" "sharedCheckCapacity d c (st_accounts tx0) (sf_bound d req) = None"
      using adm d by blast
    obtain c' where c': "bookCounter d (sf_bound d req) c = Inr c'" "counterAt tx2 (sf_id d) = Some c'"
      using bl d c(1) by (auto simp: bookedAs_def)
    show ?thesis
    proof (cases "sf_moneyKey d = []")
      case True
      then show ?thesis
        using capacity_counter [OF c(2) True hard c'(1)] persist_counters_lookup [OF 1(10) fin2 c'(2)]
        by (simp add: withinLimit_def)
    next
      case False
      then obtain b where b: "d = budgetDefinition b" using named d by blast
      obtain a where a: "Mapping.lookup (st_accounts tx0) (defAccount d) = Some a"
        "hardEncumbered a + softConsumed a + sf_bound d req \<le> sf_limit d"
        by (rule capacity_money [OF c(2) False hard]) (simp_all add: b)
      have fr: "\<not> frozen a" using admit_not_frozen [OF 1(6) d False] a(1) by simp
      obtain a' where a': "bookMoney d (sf_bound d req) a = Inr a'" "Mapping.lookup (st_accounts tx2) (defAccount d) = Some a'"
        using bl d False a(1) same by (auto simp: bookedAs_def)
      have "accountOK a"
        using x known_accounts_ok [of x "moneyTx tx0"] a(1) by (auto simp: stInv_def txOK_def)
      note out = book_money_outcome [OF a'(1) this]
      have "accountAt (lg_accounts (sd_ledger db')) (defAccount d) = a'"
        using persist_view(1) [OF led] finA view_known [of "moneyTx tx2"] a'(2)
        by (simp add: db' persistSharedCounters_def)
      then show ?thesis using False out(2,5,6) a(2) fr hard by (simp add: withinLimit_def Let_def)
    qed
  qed
  show ?thesis using 1(1,3,11) booked within by auto
qed

end
