(* ===== verification/GrantHistory.thy ===== *)
theory GrantHistory
  imports LedgerSync
begin

text \<open>
  The life of one issued grant in the ledger: its identity, amount and expiry never change, its
  consumption only grows, a closure is final. \<open>grantExtends\<close> is the order in which its row moves.
\<close>

definition grantExtends :: "grantState \<Rightarrow> grantState \<Rightarrow> bool" where
  "grantExtends g g' \<longleftrightarrow>
     g_key g' = g_key g \<and> g_window g' = g_window g \<and> g_revision g' = g_revision g \<and> g_id g' = g_id g
     \<and> g_want g' = g_want g \<and> g_amount g' = g_amount g \<and> g_expires g' = g_expires g \<and> g_denial g' = g_denial g
     \<and> g_seq g \<le> g_seq g' \<and> g_consumed g \<le> g_consumed g' \<and> g_observed g \<le> g_observed g'
     \<and> (g_closed g \<longrightarrow> g_closed g' \<and> (g_overrun g \<longrightarrow> g_overrun g'))"

lemma grant_extends_refl: "grantExtends g g"
  by (simp add: grantExtends_def)

lemma grant_extends_trans: "grantExtends a b \<Longrightarrow> grantExtends b c \<Longrightarrow> grantExtends a c"
  by (auto simp: grantExtends_def)

text \<open>Every row that carries an amount is still there, moved along that order.\<close>

definition keepsGrants :: "Ledger \<Rightarrow> Ledger \<Rightarrow> bool" where
  "keepsGrants db db' \<longleftrightarrow>
     (\<forall>row g. Mapping.lookup (lg_requests db) row = Some g \<longrightarrow> 0 < g_amount g \<longrightarrow>
        (\<exists>g'. Mapping.lookup (lg_requests db') row = Some g' \<and> grantExtends g g'))"

lemma keeps_grants_refl: "lg_requests db' = lg_requests db \<Longrightarrow> keepsGrants db db'"
  by (auto simp: keepsGrants_def intro: grant_extends_refl)

lemma keeps_grants_trans:
  assumes "keepsGrants a b" "keepsGrants b c"
  shows "keepsGrants a c"
proof -
  have "\<exists>g''. Mapping.lookup (lg_requests c) row = Some g'' \<and> grantExtends g g''"
    if "Mapping.lookup (lg_requests a) row = Some g" "0 < g_amount g" for row g
  proof -
    obtain g' where g': "Mapping.lookup (lg_requests b) row = Some g'" "grantExtends g g'"
      using assms(1) \<open>Mapping.lookup (lg_requests a) row = Some g\<close> \<open>0 < g_amount g\<close> by (auto simp: keepsGrants_def)
    moreover from this have "0 < g_amount g'" using that by (simp add: grantExtends_def)
    ultimately show ?thesis using assms(2) grant_extends_trans by (fastforce simp: keepsGrants_def)
  qed
  then show ?thesis by (simp add: keepsGrants_def)
qed

lemma keeps_grants_row:
  assumes "\<And>g. Mapping.lookup (lg_requests db) row = Some g \<Longrightarrow> 0 < g_amount g \<Longrightarrow> grantExtends g g'"
    and "lg_requests db' = Mapping.update row g' (lg_requests db)"
  shows "keepsGrants db db'"
  using assms by (auto simp: keepsGrants_def lookup_update' intro: grant_extends_refl)

lemma update_grant_unique:
  assumes "uniqueIDs db" "\<And>g. g_id (f g) = g_id g"
  shows "uniqueIDs (updateGrant gid f db)"
proof -
  have keep: "\<exists>h. Mapping.lookup (lg_requests db) row = Some h \<and> g_id h = g_id g"
    if "Mapping.lookup (lg_requests (updateGrant gid f db)) row = Some g" for row g
    using that assms(2) by (auto simp: updateGrant_def lookup_map_values split: if_splits)
  show ?thesis
    unfolding uniqueIDs_def
  proof (intro allI impI)
    fix row row' g g'
    assume "Mapping.lookup (lg_requests (updateGrant gid f db)) row = Some g"
      "Mapping.lookup (lg_requests (updateGrant gid f db)) row' = Some g'" "g_id g = g_id g'"
    then show "row = row'" using keep assms(1) unfolding uniqueIDs_def by metis
  qed
qed

lemma update_grant_keeps:
  assumes "uniqueIDs db" "Mapping.lookup (lg_requests db) row = Some g" "grantExtends g (f g)"
  shows "keepsGrants db (updateGrant (g_id g) f db)"
  by (rule keeps_grants_row [where row = row and g' = "f g"])
    (use assms in \<open>auto simp: updateGrant_row\<close>)

section \<open>Every phase keeps the grants\<close>

definition stepKeeps :: "Ledger \<Rightarrow> Tx \<Rightarrow> bool" where
  "stepKeeps db tx \<longleftrightarrow> uniqueIDs (tx_db tx) \<and> keepsGrants db (tx_db tx)"

lemma accepted_extends:
  assumes "reportRejected burned g r = None" "burned \<Longrightarrow> g_seq g \<le> ar_Sequence r"
  shows "grantExtends g (reported r g)"
  using assms by (auto simp: reportRejected_def Let_def grantExtends_def reported_def split: if_splits)

lemma apply_report_keeps:
  assumes inv: "stepKeeps db tx" and step: "applyReport env owner cur r0 tx = Inr tx'"
  shows "stepKeeps db tx'"
proof -
  have uniq: "uniqueIDs (tx_db tx)" and kept: "keepsGrants db (tx_db tx)" using inv by (simp_all add: stepKeeps_def)
  obtain g where g: "reportGrant env owner r0 (tx_db tx) = Inr g"
    using step by (auto simp: applyReport_def split: sum.splits)
  obtain row where row: "Mapping.lookup (lg_requests (tx_db tx)) row = Some g"
    using g by (auto simp: reportGrant_def split: option.splits if_splits)
  note s1 = step [unfolded applyReport_def g sum.case]
  have moved: "stepKeeps db \<lparr>tx_db = updateGrant (g_id g) f (tx_db tx), tx_accounts = m\<rparr>"
    if "grantExtends g (f g)" "\<And>g. g_id (f g) = g_id g" for f m
    using update_grant_unique [OF uniq that(2)]
      keeps_grants_trans [OF kept update_grant_keeps [where f = f, OF uniq row that(1)]]
    by (simp add: stepKeeps_def)
  show ?thesis
  proof (cases "recoveredClosure cur g r0")
    case True
    have "stepKeeps db \<lparr>tx_db = updateGrant (g_id g) (\<lambda>row. row\<lparr>g_seq := max (g_seq row) (ar_Sequence r0),
        g_observed := max (g_observed row) (ar_Observed r0)\<rparr>) (tx_db tx), tx_accounts = tx_accounts tx\<rparr>"
      by (rule moved) (simp_all add: grantExtends_def)
    then show ?thesis using s1 True by (cases tx) auto
  next
    case False
    let ?b = "recoveryBurn cur g r0"
    let ?r = "if ?b then r0\<lparr>ar_Sequence := max (ar_Sequence r0) (g_seq g), ar_Observed := max (ar_Observed r0) (g_observed g)\<rparr> else r0"
    note s2 = s1 [unfolded if_not_P [OF False] Let_def]
    have acc: "reportRejected ?b g ?r = None" using s2 by (auto split: option.splits)
    have ext: "grantExtends g (reported ?r g)" by (rule accepted_extends [OF acc]) simp
    have "tx' = tx \<or> (\<exists>m. tx' = \<lparr>tx_db = updateGrant (g_id g) (reported ?r) (tx_db tx), tx_accounts = m\<rparr>)"
      using s2 [unfolded acc option.case]
      by (auto simp: reported_def [abs_def] split: if_splits option.splits sum.splits)
    then show ?thesis
    proof
      assume "\<exists>m. tx' = \<lparr>tx_db = updateGrant (g_id g) (reported ?r) (tx_db tx), tx_accounts = m\<rparr>"
      then show ?thesis using moved [where f = "reported ?r", OF ext] by (auto simp: reported_def)
    qed (use inv in simp)
  qed
qed

lemma apply_meter_keeps:
  assumes "stepKeeps db tx" "applyMeter owner cur m tx = Inr tx'"
  shows "stepKeeps db tx'"
proof -
  have "lg_requests (tx_db tx') = lg_requests (tx_db tx)"
    using assms(2) by (auto simp: applyMeter_def Let_def split: option.splits sum.splits if_splits prod.splits)
  then show ?thesis using assms(1) by (simp add: stepKeeps_def uniqueIDs_def keepsGrants_def)
qed

lemma decide_id:
  assumes "decideGrant now budget r g accounts = Inr (g', accounts')"
  shows "g_id g' = g_id g"
  using assms by (auto simp: decideGrant_def Let_def split: option.splits sum.splits if_splits)

lemma put_unique:
  assumes "uniqueIDs db" "freshID db row (g_id h)"
  shows "uniqueIDs (db\<lparr>lg_requests := Mapping.update row h (lg_requests db)\<rparr>)"
  unfolding uniqueIDs_def
proof (intro allI impI)
  fix r r' g g'
  assume g: "Mapping.lookup (lg_requests (db\<lparr>lg_requests := Mapping.update row h (lg_requests db)\<rparr>)) r = Some g"
    "Mapping.lookup (lg_requests (db\<lparr>lg_requests := Mapping.update row h (lg_requests db)\<rparr>)) r' = Some g'" "g_id g = g_id g'"
  have other: "r = row" if "Mapping.lookup (lg_requests db) r = Some g" "g_id g = g_id h" for r g
    using assms(2) that unfolding freshID_def by blast
  show "r = r'"
  proof (cases "r = row \<or> r' = row")
    case True
    then show ?thesis using g other [of r g] other [of r' g'] by (auto simp: lookup_update' split: if_splits)
  next
    case False
    then show ?thesis using g assms(1) unfolding uniqueIDs_def by (simp add: lookup_update') metis
  qed
qed

lemma issue_keeps:
  assumes inv: "stepKeeps db tx" and step: "issueGrant env newID budgets now owner inst r (tx, out) = Inr (tx', out')"
  shows "stepKeeps db tx'"
proof -
  have uniq: "uniqueIDs (tx_db tx)" and kept: "keepsGrants db (tx_db tx)" using inv by (simp_all add: stepKeeps_def)
  let ?row = "(owner, inst, le_ch env (rw_RequestID r))"
  have put: "stepKeeps db \<lparr>tx_db = (tx_db tx)\<lparr>lg_requests := Mapping.update ?row h (lg_requests (tx_db tx))\<rparr>, tx_accounts = m\<rparr>"
    if "\<And>g. Mapping.lookup (lg_requests (tx_db tx)) ?row = Some g \<Longrightarrow> g_amount g \<le> 0"
      "freshID (tx_db tx) ?row (g_id h)" for h m
  proof -
    have "keepsGrants (tx_db tx) ((tx_db tx)\<lparr>lg_requests := Mapping.update ?row h (lg_requests (tx_db tx))\<rparr>)"
      by (rule keeps_grants_row [where row = ?row and g' = h]) (use that(1) in force)+
    moreover have "uniqueIDs ((tx_db tx)\<lparr>lg_requests := Mapping.update ?row h (lg_requests (tx_db tx))\<rparr>)"
      by (rule put_unique [OF uniq that(2)])
    ultimately show ?thesis using keeps_grants_trans [OF kept] by (simp add: stepKeeps_def)
  qed
  from step show ?thesis
  proof (cases rule: issue_state)
    case (Replay g)
    then show ?thesis using inv by simp
  next
    case (Retry g g' accounts)
    show ?thesis
      unfolding Retry(8) by (rule put) (use Retry(1,2) uniq in \<open>auto simp: uniqueIDs_def freshID_def\<close>)
  next
    case (New gid g' accounts)
    have "gid \<noteq> g_id h" if "Mapping.lookup (lg_requests (tx_db tx)) row' = Some h" for row' h
      using New(3) that by (force simp: grantIDs_def keys_lookup)
    then show ?thesis unfolding New(5) by (intro put) (use New(1) in \<open>auto simp: freshID_def\<close>)
  qed
qed


section \<open>A synchronization keeps the grants, and repeats an issued one\<close>

text \<open>The answer to a request whose row already carries an amount.\<close>

definition answered :: "string \<Rightarrow> grantState \<Rightarrow> answers \<Rightarrow> bool" where
  "answered rid g out \<longleftrightarrow>
     (if g_closed g then (\<exists>d \<in> set (snd out). ad_RequestID d = rid \<and> ad_Reason d = ''closed_grant'')
      else (\<exists>a \<in> set (fst out). ag_RequestID a = rid \<and> ag_ID a = g_id g \<and> ag_Key a = g_key g
              \<and> ag_WindowID a = g_window g \<and> ag_Amount a = g_amount g \<and> Some (ag_ExpiresAt a) = g_expires g))"

lemma answers_grow: "answered rid g out \<Longrightarrow> answered rid g (appendGrantResult r h out)"
  by (cases out) (auto simp: answered_def appendGrantResult_def)

lemma issue_out:
  assumes "issueGrant env newID budgets now owner inst r (tx, out) = Inr (tx', out')"
  shows "\<exists>h. out' = appendGrantResult r h out"
  using assms by (cases rule: issue_state) auto

lemma issue_loop:
  assumes "foldE (issueGrant env newID budgets now owner inst) rs (tx, out) = Inr (tx', out')" "stepKeeps db tx"
  shows "stepKeeps db tx' \<and> (\<forall>rid g. answered rid g out \<longrightarrow> answered rid g out') \<and>
    (\<forall>r \<in> set rs. \<forall>g. Mapping.lookup (lg_requests (tx_db tx)) (owner, inst, le_ch env (rw_RequestID r)) = Some g \<longrightarrow>
        0 < g_amount g \<longrightarrow> g_denial g = [] \<longrightarrow> g_expires g \<noteq> None \<longrightarrow>
        rw_Key r = g_key g \<and> rw_WindowID r = g_window g \<and> rw_Revision r = g_revision g \<and> rw_WantMicroUSD r = g_want g
        \<and> (\<exists>g'. grantExtends g g' \<and> answered (rw_RequestID r) g' out'))"
  using assms
proof (induction rs arbitrary: tx out)
  case (Cons r rs)
  then obtain tx1 out1 where s: "issueGrant env newID budgets now owner inst r (tx, out) = Inr (tx1, out1)"
    "foldE (issueGrant env newID budgets now owner inst) rs (tx1, out1) = Inr (tx', out')"
    by (auto split: sum.splits)
  have k1: "stepKeeps db tx1" by (rule issue_keeps [OF Cons.prems(2) s(1)])
  have "stepKeeps (tx_db tx) tx"
    using Cons.prems(2) by (simp add: stepKeeps_def keeps_grants_refl)
  then have here: "keepsGrants (tx_db tx) (tx_db tx1)" using issue_keeps [OF _ s(1)] by (simp add: stepKeeps_def)
  note ih = Cons.IH [OF s(2) k1]
  have grow: "answered rid g out'" if "answered rid g out" for rid g
    using ih issue_out [OF s(1)] answers_grow that by blast
  have first: "rw_Key r = g_key g \<and> rw_WindowID r = g_window g \<and> rw_Revision r = g_revision g \<and> rw_WantMicroUSD r = g_want g
        \<and> (\<exists>g'. grantExtends g g' \<and> answered (rw_RequestID r) g' out')"
    if g: "Mapping.lookup (lg_requests (tx_db tx)) (owner, inst, le_ch env (rw_RequestID r)) = Some g"
      "0 < g_amount g" "g_denial g = []" "g_expires g \<noteq> None" for g
  proof -
    from s(1) have rep: "out1 = appendGrantResult r g out" "g_key g = rw_Key r" "g_window g = rw_WindowID r"
      "g_revision g = rw_Revision r" "g_want g = rw_WantMicroUSD r"
      by (cases rule: issue_state; use g in auto)+
    have "answered (rw_RequestID r) g out1"
      using g(3,4) by (cases out) (auto simp: rep(1) answered_def appendGrantResult_def)
    then have "answered (rw_RequestID r) g out'" using ih by blast
    then show ?thesis using rep grant_extends_refl by auto
  qed
  have rest: "rw_Key r' = g_key g \<and> rw_WindowID r' = g_window g \<and> rw_Revision r' = g_revision g \<and> rw_WantMicroUSD r' = g_want g
        \<and> (\<exists>g'. grantExtends g g' \<and> answered (rw_RequestID r') g' out')"
    if r': "r' \<in> set rs" and g: "Mapping.lookup (lg_requests (tx_db tx)) (owner, inst, le_ch env (rw_RequestID r')) = Some g"
      "0 < g_amount g" "g_denial g = []" "g_expires g \<noteq> None" for r' g
  proof -
    obtain g1 where g1: "Mapping.lookup (lg_requests (tx_db tx1)) (owner, inst, le_ch env (rw_RequestID r')) = Some g1"
      "grantExtends g g1"
      using here g(1,2) by (auto simp: keepsGrants_def)
    have same: "g_key g1 = g_key g" "g_window g1 = g_window g" "g_revision g1 = g_revision g" "g_want g1 = g_want g"
      "0 < g_amount g1" "g_denial g1 = []" "g_expires g1 \<noteq> None"
      using g1(2) g by (simp_all add: grantExtends_def)
    have "rw_Key r' = g_key g1 \<and> rw_WindowID r' = g_window g1 \<and> rw_Revision r' = g_revision g1 \<and> rw_WantMicroUSD r' = g_want g1
        \<and> (\<exists>g'. grantExtends g1 g' \<and> answered (rw_RequestID r') g' out')"
      using ih r' g1(1) same(5-7) by blast
    then show ?thesis using same(1-4) grant_extends_trans [OF g1(2)] by auto
  qed
  show ?case using ih grow first rest by simp
qed auto


lemma persist_requests:
  assumes "persistAccounts tx = Inr db'"
  shows "lg_requests db' = lg_requests (tx_db tx)"
  by (rule foldE_invariant [OF assms [unfolded persistAccounts_def], where P = "\<lambda>db. lg_requests db = lg_requests (tx_db tx)"])
    (auto simp: persistAccount_def split: option.splits sum.splits if_splits)

lemma sync_transaction_keeps:
  assumes tables: "tablesOK db" and step: "syncTransaction env newID aid rows now1 now dp req db = Inr (db', resp)"
  shows "keepsGrants db db'"
    and "\<forall>r \<in> set (aq_Requests req). \<forall>g. Mapping.lookup (lg_requests db) (dp, aq_Instance req, le_ch env (rw_RequestID r)) = Some g \<longrightarrow>
        0 < g_amount g \<longrightarrow>
        rw_Key r = g_key g \<and> rw_WindowID r = g_window g \<and> rw_Revision r = g_revision g \<and> rw_WantMicroUSD r = g_want g
        \<and> (\<exists>g'. grantExtends g g' \<and> answered (rw_RequestID r) g' (as_Grants (sr_Authority resp), as_Denied (sr_Authority resp)))"
proof -
  have "keepsGrants db db' \<and>
    (\<forall>r \<in> set (aq_Requests req). \<forall>g. Mapping.lookup (lg_requests db) (dp, aq_Instance req, le_ch env (rw_RequestID r)) = Some g \<longrightarrow>
        0 < g_amount g \<longrightarrow>
        rw_Key r = g_key g \<and> rw_WindowID r = g_window g \<and> rw_Revision r = g_revision g \<and> rw_WantMicroUSD r = g_want g
        \<and> (\<exists>g'. grantExtends g g' \<and> answered (rw_RequestID r) g' (as_Grants (sr_Authority resp), as_Denied (sr_Authority resp))))"
    using step
  proof (cases rule: sync_transaction_parts)
    case (1 docs budgets tx0 tx out db1 tiers)
    obtain tx1 tx2 where f: "foldE (applyReport env dp (aq_Instance req)) (aq_Reports req) tx0 = Inr tx1"
      "foldE (applyMeter dp (aq_Instance req)) (aq_Meters req) tx1 = Inr tx2"
      "foldE (issueGrant env newID budgets now dp (aq_Instance req)) (aq_Requests req) (tx2, ([], [])) = Inr (tx, out)"
      using 1(5) by (auto simp: syncAccounts_def split: sum.splits)
    have "lg_requests (tx_db tx0) = lg_requests db"
      using lock_accounts_locked [OF 1(3)] by (simp add: lockedFrom_def)
    then have "stepKeeps db tx0"
      using tables by (simp add: stepKeeps_def tablesOK_def uniqueIDs_def keeps_grants_refl)
    then have "stepKeeps db tx1" by (rule foldE_invariant [OF f(1)]) (rule apply_report_keeps)
    then have k2: "stepKeeps db tx2" by (rule foldE_invariant [OF f(2)]) (rule apply_meter_keeps)
    note loop = issue_loop [OF f(3) k2]
    have "lg_requests db' = lg_requests (tx_db tx)"
      using active_tiers_same [OF 1(7)] persist_requests [OF 1(6)] by (simp add: sameMoney_def)
    then have kept: "keepsGrants db db'" using loop by (simp add: stepKeeps_def keepsGrants_def)
    have repeat: "rw_Key r = g_key g \<and> rw_WindowID r = g_window g \<and> rw_Revision r = g_revision g \<and> rw_WantMicroUSD r = g_want g
        \<and> (\<exists>g'. grantExtends g g' \<and> answered (rw_RequestID r) g' out)"
      if r: "r \<in> set (aq_Requests req)"
        and g: "Mapping.lookup (lg_requests db) (dp, aq_Instance req, le_ch env (rw_RequestID r)) = Some g" "0 < g_amount g" for r g
    proof -
      have "rowOK g" using tables g(1) by (auto simp: tablesOK_def)
      then have live: "g_denial g = []" "g_expires g \<noteq> None" using g(2) by (simp_all add: rowOK_def)
      obtain g2 where g2: "Mapping.lookup (lg_requests (tx_db tx2)) (dp, aq_Instance req, le_ch env (rw_RequestID r)) = Some g2"
        "grantExtends g g2"
        using k2 g by (auto simp: stepKeeps_def keepsGrants_def)
      have same: "g_key g2 = g_key g" "g_window g2 = g_window g" "g_revision g2 = g_revision g" "g_want g2 = g_want g"
        "0 < g_amount g2" "g_denial g2 = []" "g_expires g2 \<noteq> None"
        using g2(2) g live by (simp_all add: grantExtends_def)
      have "rw_Key r = g_key g2 \<and> rw_WindowID r = g_window g2 \<and> rw_Revision r = g_revision g2 \<and> rw_WantMicroUSD r = g_want g2
        \<and> (\<exists>g'. grantExtends g2 g' \<and> answered (rw_RequestID r) g' out)"
        using loop r g2(1) same(5-7) by blast
      then show ?thesis using same(1-4) grant_extends_trans [OF g2(2)] by auto
    qed
    have "(as_Grants (sr_Authority resp), as_Denied (sr_Authority resp)) = out" by (simp add: 1(8))
    then show ?thesis using kept repeat by simp
  qed
  then show "keepsGrants db db'"
    "\<forall>r \<in> set (aq_Requests req). \<forall>g. Mapping.lookup (lg_requests db) (dp, aq_Instance req, le_ch env (rw_RequestID r)) = Some g \<longrightarrow>
        0 < g_amount g \<longrightarrow>
        rw_Key r = g_key g \<and> rw_WindowID r = g_window g \<and> rw_Revision r = g_revision g \<and> rw_WantMicroUSD r = g_want g
        \<and> (\<exists>g'. grantExtends g g' \<and> answered (rw_RequestID r) g' (as_Grants (sr_Authority resp), as_Denied (sr_Authority resp)))"
    by blast+
qed

end
