(* ===== verification/AuthorityProps.thy ===== *)
theory AuthorityProps
  imports SharedLimits GrantHistory
begin

text \<open>
  The central authority as a state machine: any sequence of synchronizations, shared
  reservations, settlements and cancellations, with any commit outcome, and the properties
  that hold in every state it reaches.
\<close>

section \<open>Steps\<close>

text \<open>
  \<open>L\<close> bounds, for every account, the limits any policy version has published for it; a
  request carries \<^verbatim>\<open>int64\<close> amounts.
\<close>

inductive authorityStep ::
  "LedgerEnv \<Rightarrow> (string \<Rightarrow> SharedSettlement \<Rightarrow> string) \<Rightarrow> (accountKey \<Rightarrow> int) \<Rightarrow> SharedDb \<Rightarrow> SharedDb \<Rightarrow> bool"
  for env fpr L where
  synced: "authorityStep env fpr L db (db\<lparr>sd_ledger := fst (Sync env newID aid rows now1 now oc dp req (sd_ledger db))\<rparr>)"
    if "request64 req" "limitsWithin env L rows now1"
| reserved: "authorityStep env fpr L db (fst (ReserveShared env pid row rows now1 now oc req db))"
    if "request_in64 req" "limitsWithin env L rows now1"
| finished: "authorityStep env fpr L db (fst (FinishShared env fpr now oc permit usage db))"
| cancelled: "authorityStep env fpr L db (fst (CancelShared env fpr now oc permit db))"

inductive authorityReachable ::
  "LedgerEnv \<Rightarrow> (string \<Rightarrow> SharedSettlement \<Rightarrow> string) \<Rightarrow> (accountKey \<Rightarrow> int) \<Rightarrow> SharedDb \<Rightarrow> bool"
  for env fpr L where
  start: "authorityReachable env fpr L emptyShared"
| further: "authorityReachable env fpr L db'" if "authorityReachable env fpr L db" "authorityStep env fpr L db db'"

lemma empty_inv: "(\<forall>k. 0 \<le> L k) \<Longrightarrow> moneyInv L emptyShared"
  unfolding moneyInv_def
  by (intro conjI exI [of _ "\<lparr>x_encumbered = \<lambda>_. 0, x_consumed = \<lambda>_. 0, x_soft = \<lambda>_. 0, x_pending = \<lambda>_. 0\<rparr>"])
    (simp_all add: emptyShared_def emptyLedger_def bookingsOK_def ledgerInv_def tablesOK_def uniqueIDs_def withinCaps_def
      accountAt_def zeroAccount_def balanced_def accountOK_def grantTotal_def meterTotal_def coversOpen_def openTotal_def)

lemma authority_step_inv:
  assumes "authorityStep env fpr L db db'" "moneyInv L db"
  shows "moneyInv L db'"
  using assms
proof (induction rule: authorityStep.induct)
  case (synced req rows now1 db newID aid now oc dp)
  then show ?case by (intro sync_shared_inv [OF _ _ _ surjective_pairing]) simp_all
next
  case (reserved req rows now1 db pid row now oc)
  then show ?case by (intro reserve_shared_inv [OF _ _ _ surjective_pairing]) simp_all
next
  case (finished db now oc permit usage)
  then show ?case
    unfolding FinishShared_def by (intro shared_terminal_inv [OF _ _ surjective_pairing]) simp_all
next
  case (cancelled db now oc permit)
  then show ?case
    unfolding CancelShared_def by (intro shared_terminal_inv [OF _ _ surjective_pairing]) simp_all
qed

lemma reachable_money_inv:
  assumes "authorityReachable env fpr L db" "\<forall>k. 0 \<le> L k"
  shows "moneyInv L db"
  using assms(1) by (induction rule: authorityReachable.induct) (auto intro: empty_inv [OF assms(2)] authority_step_inv)

lemma spent_le_liability: "rowOK g \<Longrightarrow> spent g \<le> liability g"
  by (auto simp: rowOK_def spent_def liability_def split: if_splits)

lemma grant_total_mono:
  assumes "tablesOK db"
  shows "grantTotal spent k db \<le> grantTotal liability k db"
  unfolding grantTotal_def mtotal_def
proof (rule sum_mono)
  fix row assume "row \<in> Mapping.keys (lg_requests db)"
  then obtain g where g: "Mapping.lookup (lg_requests db) row = Some g" by (auto simp: keys_lookup)
  then have "rowOK g" using assms by (auto simp: tablesOK_def)
  then show "(if (g_key (the (Mapping.lookup (lg_requests db) row)), g_window (the (Mapping.lookup (lg_requests db) row))) = k
       then spent (the (Mapping.lookup (lg_requests db) row)) else 0)
    \<le> (if (g_key (the (Mapping.lookup (lg_requests db) row)), g_window (the (Mapping.lookup (lg_requests db) row))) = k
       then liability (the (Mapping.lookup (lg_requests db) row)) else 0)"
    using g spent_le_liability by simp
qed

section \<open>A worked ledger\<close>

text \<open>One policy with a hard daily cap of 5 dollars, published to one data plane.\<close>

definition ledgerNow :: gotime where
  "ledgerNow = 63800000000000000000"

definition ledgerEnv :: LedgerEnv where
  "ledgerEnv = \<lparr>le_hs = \<lambda>ss. if length ss = 3 then ''w'' else concat (map (take 2) ss), le_hb = \<lambda>b w. w, le_gen = \<lambda>docs. ''gen'',
     le_ch = \<lambda>s. s, le_parse = \<lambda>body. if body = ''cap'' then Some [sampleDoc [sampleCap]] else None\<rparr>"

definition ledgerRows :: "(string \<times> string) list" where
  "ledgerRows = [(''acme'', ''cap'')]"

definition ledgerBudget :: "(AuthorityBudget) option" where
  "ledgerBudget = (case readPolicies ledgerEnv ledgerRows of
     Inl _ \<Rightarrow> None
   | Inr docs \<Rightarrow> (case AuthorityBudgets (le_hs ledgerEnv) (le_hb ledgerEnv) docs ledgerNow of
        Inl _ \<Rightarrow> None | Inr bs \<Rightarrow> (case bs of [b] \<Rightarrow> Some b | _ \<Rightarrow> None)))"

definition ledgerAsk :: AuthorityGrantRequest where
  "ledgerAsk = (case ledgerBudget of
     None \<Rightarrow> \<lparr>rw_RequestID = [], rw_Key = [], rw_Revision = [], rw_WindowID = [], rw_WantMicroUSD = 0\<rparr>
   | Some b \<Rightarrow> \<lparr>rw_RequestID = replicate 32 CHR ''r'', rw_Key = ab_Key b, rw_Revision = ab_Revision b,
       rw_WindowID = ab_WindowID b, rw_WantMicroUSD = 20000\<rparr>)"

definition ledgerRequest :: AuthorityRequest where
  "ledgerRequest = \<lparr>aq_Protocol = AuthorityProtocol, aq_Instance = ''i1'', aq_Requests = [ledgerAsk], aq_Reports = [], aq_Meters = []\<rparr>"

definition ledgerSync :: "Ledger \<Rightarrow> Ledger \<times> (ledger_error + SyncResponse)" where
  "ledgerSync db = Sync ledgerEnv (\<lambda>_. Some ''g1'') ''a1'' ledgerRows ledgerNow (ledgerNow + 5) Commits ''dp1'' ledgerRequest db"

definition ledger1 :: SharedDb where
  "ledger1 = emptyShared\<lparr>sd_ledger := fst (ledgerSync (sd_ledger emptyShared))\<rparr>"

definition ledgerPrincipal :: Principal where
  "ledgerPrincipal = \<lparr>pn_KeyID = ''k1'', pn_Team = ''research'', pn_AllowedModels = [''*''], pn_Owner = ''u1'', pn_RPM = 60, pn_TPM = 0,
     pn_BudgetUSDMicros = 0, pn_BudgetUSDMicrosPerDay = 0, pn_ExpiresAt = None, pn_SharedRevision = ''rev'',
     pn_TeamSnapshot = Some \<lparr>tr_Name = ''research'', tr_AllowedModels = [], tr_RPM = 0, tr_TPM = 0, tr_TokensPerDay = 0,
       tr_QuotaOnExceeded = [], tr_BudgetUSDMicros = 0, tr_BudgetUSDMicrosPerDay = 0, tr_BudgetOnExceeded = [], tr_AllowedRegions = []\<rparr>,
     pn_TeamSnapshotLoaded = True\<rparr>"

definition ledgerReserve :: SharedRequest where
  "ledgerReserve = \<lparr>sq_Subject = \<lparr>s_Team = ''research'', s_KeyID = ''k1'', s_User = ''u1''\<rparr>, sq_AuthRevision = ''rev'',
     sq_PolicyGeneration = ''gen'', sq_RequestedModel = ''opus'', sq_Model = ''opus'', sq_TokenBound = 100,
     sq_CostBoundMicroUSD = 3000\<rparr>"

definition ledgerPermit :: SharedPermit where
  "ledgerPermit = \<lparr>sp_ID = replicate 32 CHR ''p'', sp_TokenBound = 100, sp_CostBoundMicroUSD = 3000\<rparr>"

definition ledgerReserved :: "SharedDb \<times> (shared_error + SharedPermit)" where
  "ledgerReserved = ReserveShared ledgerEnv (Some (sp_ID ledgerPermit)) (Some ledgerPrincipal) ledgerRows ledgerNow
     (ledgerNow + 7) Commits ledgerReserve ledger1"

definition ledger2 :: SharedDb where
  "ledger2 = fst ledgerReserved"

definition ledgerUsage :: SharedSettlement where
  "ledgerUsage = \<lparr>ss_Tokens = Some 80, ss_CostMicroUSD = Some 1000, ss_Complete = True, ss_InvalidUsage = False\<rparr>"

definition ledgerPrint :: "string \<Rightarrow> SharedSettlement \<Rightarrow> string" where
  "ledgerPrint terminal usage = terminal @ (case ss_CostMicroUSD usage of None \<Rightarrow> [] | Some c \<Rightarrow> show_nat (nat c))"

definition ledgerFinished :: "SharedDb \<times> shared_error option" where
  "ledgerFinished = FinishShared ledgerEnv ledgerPrint (ledgerNow + 9) Commits (Some ledgerPermit) ledgerUsage ledger2"

definition ledgerCap :: "accountKey \<Rightarrow> int" where
  "ledgerCap k = 5000000"


lemma terminal_row:
  assumes "terminalTransaction env fpr now p terminal usage db = Inr (db', False)"
  obtains row where "Mapping.lookup (sd_permits db') (le_ch env (sp_ID p)) = Some row"
    "pw_terminal row = terminal" "pw_fingerprint row = fpr terminal usage" "\<not> pw_invalid row"
    "pw_tokens row = sp_TokenBound p" "pw_cost row = sp_CostBoundMicroUSD p"
  using assms
proof (cases rule: terminal_transaction_parts)
  case (Replay row)
  have "pw_tokens row = sp_TokenBound p" "pw_cost row = sp_CostBoundMicroUSD p"
    using assms Replay(1) by (auto simp: terminalTransaction_def Let_def split: if_splits)
  then show ?thesis using Replay by (intro that [of row]) simp_all
next
  case (Settle row tx tx' db1)
  then show ?thesis
    by (intro that [of "row\<lparr>pw_terminal := terminal, pw_fingerprint := fpr terminal usage, pw_invalid := False\<rparr>"]) simp_all
qed

lemma ledger_limits: "limitsWithin ledgerEnv ledgerCap ledgerRows ledgerNow"
proof -
  have "(case readPolicies ledgerEnv ledgerRows of
      Inl _ \<Rightarrow> True
    | Inr docs \<Rightarrow> (case AuthorityBudgets (le_hs ledgerEnv) (le_hb ledgerEnv) docs ledgerNow of
         Inl _ \<Rightarrow> True | Inr bs \<Rightarrow> list_all (\<lambda>b. ab_HardCap b \<longrightarrow> ab_LimitMicroUSD b \<le> ledgerCap (accountOf b)) bs))"
    by code_simp
  then show ?thesis by (auto simp: limitsWithin_def list_all_iff)
qed

lemma ledger_reachable:
  "authorityReachable ledgerEnv ledgerPrint ledgerCap ledger1"
  "authorityReachable ledgerEnv ledgerPrint ledgerCap ledger2"
proof -
  have r: "request64 ledgerRequest" by code_simp
  show 1: "authorityReachable ledgerEnv ledgerPrint ledgerCap ledger1"
    unfolding ledger1_def ledgerSync_def
    by (rule authorityReachable.further [OF authorityReachable.start authorityStep.synced [OF r ledger_limits]])
  have "request_in64 ledgerReserve" by code_simp
  then show "authorityReachable ledgerEnv ledgerPrint ledgerCap ledger2"
    unfolding ledger2_def ledgerReserved_def
    by (rule authorityReachable.further [OF 1 authorityStep.reserved [OF _ ledger_limits]])
qed

lemma ledger_cap: "\<forall>k. 0 \<le> ledgerCap k"
  by (simp add: ledgerCap_def)

section \<open>Properties\<close>

text \<open>
  C8: in every reachable state of the authority, whatever synchronizations, reservations,
  settlements and cancellations ran and however their commits ended, the books of every account
  balance: what its grants may still cost and the bookings of all permits in flight are covered
  by the encumbered amount, no grant has been charged more than that, soft consumption coversOpen
  the meters and the pending bookings, and an account that is not frozen stays within the
  largest limit ever published for it.
\<close>

theorem central_hard_cap:
  assumes "authorityReachable env fpr L db" and "\<forall>k. 0 \<le> L k"
  shows "let a = accountAt (lg_accounts (sd_ledger db)) k in
    grantTotal spent k (sd_ledger db) \<le> grantTotal liability k (sd_ledger db)
    \<and> grantTotal liability k (sd_ledger db) + openTotal hardOf k db \<le> hardEncumbered a
    \<and> grantTotal spent k (sd_ledger db) \<le> hardConsumed a
    \<and> meterTotal k (sd_ledger db) + openTotal softOf k db \<le> softConsumed a
    \<and> softPending a = openTotal softOf k db
    \<and> (frozen a \<or> hardEncumbered a \<le> L k)"
proof -
  obtain x where x: "ledgerInv x (sd_ledger db)" "withinCaps L (accountAt (lg_accounts (sd_ledger db)))" "coversOpen x db"
    using reachable_money_inv [OF assms] by (auto simp: moneyInv_def)
  have "balanced x (sd_ledger db) k (accountAt (lg_accounts (sd_ledger db)) k)" and t: "tablesOK (sd_ledger db)"
    using x(1) by (simp_all add: ledgerInv_def)
  then show ?thesis
    using x(2,3) grant_total_mono [OF t, of k] by (auto simp: balanced_def coversOpen_def withinCaps_def Let_def)
qed

theorem central_hard_cap_witness:
  "\<exists>k. let a = accountAt (lg_accounts (sd_ledger ledger2)) k in
     hardEncumbered a = 23000 \<and> \<not> frozen a
     \<and> grantTotal liability k (sd_ledger ledger2) + openTotal hardOf k ledger2 \<le> hardEncumbered a
     \<and> hardEncumbered a \<le> ledgerCap k"
proof -
  let ?k = "(rw_Key ledgerAsk, rw_WindowID ledgerAsk)"
  have e: "(let a = accountAt (lg_accounts (sd_ledger ledger2)) ?k in hardEncumbered a = 23000 \<and> \<not> frozen a)"
    by code_simp
  from central_hard_cap [OF ledger_reachable(2) ledger_cap, of ?k] e show ?thesis
    by (intro exI [of _ ?k]) (auto simp: Let_def)
qed

text \<open>
  C9: an admitted shared reservation has booked the bound of the request on every limit that
  applies to its principal, and leaves every hard one within its limit: the debt of a rate
  bucket, the used amount of a quota window, and for a monetary budget the encumbered and soft
  consumption of an account that is not frozen.
\<close>

theorem reserve_shared_within_limits:
  assumes "authorityReachable env fpr L db" and "\<forall>k. 0 \<le> L k"
    and "ReserveShared env newID row rows now1 now oc req db = (db', Inr permit)"
  shows "\<exists>p defs budgets. sharedSnapshot row (sq_Subject req) = Inr p
    \<and> sharedDefinitions env rows p now1 (Some (sq_PolicyGeneration req)) = Inr (defs, budgets)
    \<and> (\<forall>d \<in> set defs.
         Mapping.lookup (sd_bookings db') (le_ch env (sp_ID permit), sf_id d) = Some (bookingOf d (sf_bound d req))
         \<and> (sf_hard d \<longrightarrow> withinLimit db' d))"
proof -
  have "runShared oc (reserveTransaction env newID row rows now1 now req) db = (db', Inr permit)"
    using assms(3) by (auto simp: ReserveShared_def split: if_splits)
  then have "reserveTransaction env newID row rows now1 now req db = Inr (db', permit)"
    by (cases rule: run_shared_cases) auto
  from reserve_within_limits [OF reachable_money_inv [OF assms(1,2)] this] show ?thesis .
qed

theorem reserve_shared_within_limits_witness:
  "\<exists>p defs budgets. sharedSnapshot (Some ledgerPrincipal) (sq_Subject ledgerReserve) = Inr p
    \<and> sharedDefinitions ledgerEnv ledgerRows p ledgerNow (Some (sq_PolicyGeneration ledgerReserve)) = Inr (defs, budgets)
    \<and> length defs = 2
    \<and> (\<forall>d \<in> set defs. sf_hard d \<longrightarrow> withinLimit ledger2 d)"
proof -
  have "(case snd ledgerReserved of Inl e \<Rightarrow> False | Inr p \<Rightarrow> p = ledgerPermit)" by code_simp
  then have "ReserveShared ledgerEnv (Some (sp_ID ledgerPermit)) (Some ledgerPrincipal) ledgerRows ledgerNow
     (ledgerNow + 7) Commits ledgerReserve ledger1 = (ledger2, Inr ledgerPermit)"
    by (auto simp: ledger2_def ledgerReserved_def prod_eq_iff split: sum.splits)
  from reserve_shared_within_limits [OF ledger_reachable(1) ledger_cap this]
  obtain p defs budgets where d: "sharedSnapshot (Some ledgerPrincipal) (sq_Subject ledgerReserve) = Inr p"
    "sharedDefinitions ledgerEnv ledgerRows p ledgerNow (Some (sq_PolicyGeneration ledgerReserve)) = Inr (defs, budgets)"
    "\<forall>d \<in> set defs. sf_hard d \<longrightarrow> withinLimit ledger2 d"
    by blast
  have "(case sharedSnapshot (Some ledgerPrincipal) (sq_Subject ledgerReserve) of
      Inl _ \<Rightarrow> False
    | Inr p \<Rightarrow> (case sharedDefinitions ledgerEnv ledgerRows p ledgerNow (Some (sq_PolicyGeneration ledgerReserve)) of
         Inl _ \<Rightarrow> False | Inr (defs, _) \<Rightarrow> length defs = 2))" by code_simp
  then show ?thesis using d by auto
qed

text \<open>
  C10: the first accepted settlement of a shared permit is final: repeating it changes nothing and
  succeeds again, a settlement with another content and a cancellation are refused, and none of
  them, committed or lost, touches the ledger.
\<close>

theorem shared_settlement_final:
  assumes "FinishShared env fpr now oc (Some p) usage db = (db', None)"
  shows "FinishShared env fpr now' Commits (Some p) usage db' = (db', None)
    \<and> (fpr ''finish'' usage' \<noteq> fpr ''finish'' usage \<longrightarrow>
         (\<exists>e. FinishShared env fpr now' oc' (Some p) usage' db' = (db', Some e)))
    \<and> (\<exists>e. CancelShared env fpr now' oc' (Some p) db' = (db', Some e))"
proof -
  have call: "sharedTerminal env fpr now oc (Some p) ''finish'' usage db = (db', None)"
    using assms by (simp add: FinishShared_def)
  have valid: "\<not> (\<not> validCapability (sp_ID p) \<or> sp_TokenBound p < 0 \<or> sp_CostBoundMicroUSD p < 0)"
    using call by (auto simp: sharedTerminal_def split: if_splits)
  have tx: "terminalTransaction env fpr now p ''finish'' usage db = Inr (db', False)"
    using call by (cases rule: shared_terminal_cases) auto
  obtain row where row: "Mapping.lookup (sd_permits db') (le_ch env (sp_ID p)) = Some row"
    "pw_terminal row = ''finish''" "pw_fingerprint row = fpr ''finish'' usage" "\<not> pw_invalid row"
    "pw_tokens row = sp_TokenBound p" "pw_cost row = sp_CostBoundMicroUSD p"
    by (rule terminal_row [OF tx])
  have again: "terminalTransaction env fpr now' p terminal u db' =
      (if terminal = ''finish'' \<and> fpr terminal u = fpr ''finish'' usage then Inr (db', False) else Inl ErrSharedUnavailable)" for terminal u
    using row by (auto simp: terminalTransaction_def Let_def)
  show ?thesis
    using valid
    by (cases oc') (auto simp: FinishShared_def CancelShared_def sharedTerminal_def runShared_def again)
qed

theorem shared_settlement_final_witness:
  "snd ledgerFinished = None
   \<and> FinishShared ledgerEnv ledgerPrint 0 Commits (Some ledgerPermit) ledgerUsage (fst ledgerFinished) = (fst ledgerFinished, None)
   \<and> (\<exists>e. CancelShared ledgerEnv ledgerPrint 0 Commits (Some ledgerPermit) (fst ledgerFinished) = (fst ledgerFinished, Some e))"
proof -
  have e: "snd ledgerFinished = None" by code_simp
  then have "FinishShared ledgerEnv ledgerPrint (ledgerNow + 9) Commits (Some ledgerPermit) ledgerUsage ledger2 = (fst ledgerFinished, None)"
    by (simp add: ledgerFinished_def prod_eq_iff)
  from shared_settlement_final [OF this, of 0 ledgerUsage Commits] e show ?thesis by blast
qed

text \<open>
  C12: a data plane accepts what the authority publishes: the response of a committed
  synchronization passes the bundle check, although it is validated against the later server
  time of the response and not the clock the windows were cut with.
\<close>

theorem published_bundle_validates:
  assumes "Sync env newID aid rows now1 now oc dp req db = (db', Inr resp)" and "0 < now1" "0 < now"
  shows "ValidateAuthorityBundle (le_hs env) (le_hb env) (le_gen env)
    (Some \<lparr>bu_Protocol = as_Protocol (sr_Authority resp), bu_ServerTime = as_ServerTime (sr_Authority resp),
       bu_Generation = sr_Generation resp, bu_Policies = Some (sr_Policies resp),
       bu_Budgets = Some (as_Budgets (sr_Authority resp))\<rparr>) = None"
proof -
  have "syncTransaction env newID aid rows now1 now dp req db = Inr (db', resp)"
    using assms(1) by (auto simp: Sync_def runTransaction_def split: option.splits if_splits sum.splits commit.splits prod.splits)
  then show ?thesis
  proof (cases rule: sync_transaction_parts)
    case (1 docs budgets tx0 tx out db1 tiers)
    have "AuthorityBudgets (le_hs env) (le_hb env) docs now = Inr budgets"
      by (rule authority_budgets_stable [OF 1(2) assms(2,3) 1(4)])
    moreover have "sort_key ab_Key budgets = budgets"
      using 1(2) unfolding authority_budgets_iff by (auto intro!: sort_key_id_if_sorted)
    ultimately show ?thesis by (simp add: ValidateAuthorityBundle_def 1(8))
  qed
qed

theorem published_bundle_validates_witness:
  "\<exists>resp. snd (ledgerSync emptyLedger) = Inr resp \<and> length (as_Budgets (sr_Authority resp)) = 1 \<and>
    ValidateAuthorityBundle (le_hs ledgerEnv) (le_hb ledgerEnv) (le_gen ledgerEnv)
    (Some \<lparr>bu_Protocol = as_Protocol (sr_Authority resp), bu_ServerTime = as_ServerTime (sr_Authority resp),
       bu_Generation = sr_Generation resp, bu_Policies = Some (sr_Policies resp),
       bu_Budgets = Some (as_Budgets (sr_Authority resp))\<rparr>) = None"
proof -
  have "(case snd (ledgerSync emptyLedger) of Inl e \<Rightarrow> False | Inr r \<Rightarrow> length (as_Budgets (sr_Authority r)) = 1)"
    by code_simp
  then obtain resp where resp: "snd (ledgerSync emptyLedger) = Inr resp" "length (as_Budgets (sr_Authority resp)) = 1"
    by (auto split: sum.splits)
  then have "Sync ledgerEnv (\<lambda>_. Some ''g1'') ''a1'' ledgerRows ledgerNow (ledgerNow + 5) Commits ''dp1'' ledgerRequest emptyLedger
      = (fst (ledgerSync emptyLedger), Inr resp)"
    by (simp add: ledgerSync_def prod_eq_iff)
  from published_bundle_validates [OF this] resp show ?thesis by (auto simp: ledgerNow_def)
qed

text \<open>
  A grant is issued once: no synchronization changes the account, identity, amount or expiry of
  a grant that carries an amount, its consumption never falls and a closure is never undone; and
  a data plane that repeats the request, because it never saw the answer, is given the same grant
  again, or told that it is closed.
\<close>

lemma issued_grant_stable:
  assumes "authorityReachable env fpr L db" and "\<forall>k. 0 \<le> L k"
    and "Sync env newID aid rows now1 now oc dp req (sd_ledger db) = (db', res)"
    and "Mapping.lookup (lg_requests (sd_ledger db)) row = Some g" and "0 < g_amount g"
  shows "(\<exists>g'. Mapping.lookup (lg_requests db') row = Some g' \<and> grantExtends g g')
    \<and> (\<forall>resp r. res = Inr resp \<longrightarrow> r \<in> set (aq_Requests req) \<longrightarrow> row = (dp, aq_Instance req, le_ch env (rw_RequestID r)) \<longrightarrow>
         rw_Key r = g_key g \<and> rw_WantMicroUSD r = g_want g \<and>
         (\<exists>g'. grantExtends g g' \<and> answered (rw_RequestID r) g' (as_Grants (sr_Authority resp), as_Denied (sr_Authority resp))))"
proof -
  have t: "tablesOK (sd_ledger db)"
    using reachable_money_inv [OF assms(1,2)] by (auto simp: moneyInv_def ledgerInv_def)
  have run: "(db' = sd_ledger db \<and> (\<exists>e. res = Inl e)) \<or>
      (\<exists>r. syncTransaction env newID aid rows now1 now dp req (sd_ledger db) = Inr (db', r) \<and> (res = Inr r \<or> (\<exists>e. res = Inl e)))"
    using assms(3) by (auto simp: Sync_def runTransaction_def split: option.splits if_splits sum.splits commit.splits prod.splits)
  then show ?thesis
  proof
    assume "db' = sd_ledger db \<and> (\<exists>e. res = Inl e)"
    then show ?thesis using assms(4) grant_extends_refl by auto
  next
    assume "\<exists>r. syncTransaction env newID aid rows now1 now dp req (sd_ledger db) = Inr (db', r) \<and> (res = Inr r \<or> (\<exists>e. res = Inl e))"
    then obtain r where r: "syncTransaction env newID aid rows now1 now dp req (sd_ledger db) = Inr (db', r)"
      "res = Inr r \<or> (\<exists>e. res = Inl e)" by blast
    note k = sync_transaction_keeps [OF t r(1)]
    have "\<exists>g'. Mapping.lookup (lg_requests db') row = Some g' \<and> grantExtends g g'"
      using k(1) assms(4,5) by (auto simp: keepsGrants_def)
    moreover have "rw_Key q = g_key g \<and> rw_WantMicroUSD q = g_want g \<and>
         (\<exists>g'. grantExtends g g' \<and> answered (rw_RequestID q) g' (as_Grants (sr_Authority r), as_Denied (sr_Authority r)))"
      if "q \<in> set (aq_Requests req)" "row = (dp, aq_Instance req, le_ch env (rw_RequestID q))" for q
      using k(2) assms(4,5) that by blast
    ultimately show ?thesis using r(2) by auto
  qed
qed

end
