(* ===== verification/PolicyLoad.thy ===== *)
theory PolicyLoad
  imports PolicyProps
begin

text \<open>
  Reading policy files, \<^verbatim>\<open>internal/policy/load.go\<close> and \<^verbatim>\<open>LoadWirePaths\<close> of
  \<^verbatim>\<open>internal/policy/sync.go\<close>: a stream of documents is split at its separator lines, every
  document is decoded strictly and validated by the conversion, names are unique over all
  files. The file system and the strict YAML decoder are parameters.
\<close>

section \<open>The document stream\<close>

definition re_space :: "char \<Rightarrow> bool" where
  "re_space c \<longleftrightarrow> c \<in> {CHR 0x09, CHR 0x0A, CHR 0x0C, CHR 0x0D, CHR '' ''}"

text \<open>
  What is left after the expression \<^verbatim>\<open>---\s*$\<close> matched at the start of a line: the spaces are
  matched greedily, newlines included, up to the end of the text or to the last newline
  before the next visible character.
\<close>

definition separator :: "string \<Rightarrow> string option" where
  "separator s =
     (if take 3 s \<noteq> ''---'' then None
      else
        (let rest = drop 3 s; run = takeWhile re_space rest; after = dropWhile re_space rest;
             tail = rev (takeWhile (\<lambda>c. c \<noteq> CHR 0x0A) (rev run))
         in if after = [] then Some []
            else if CHR 0x0A \<in> set run then Some (CHR 0x0A # tail @ after)
            else None))"

lemma separator_shorter: "separator s = Some r \<Longrightarrow> length r < length s"
proof -
  assume a: "separator s = Some r"
  let ?rest = "drop 3 s" and ?run = "takeWhile re_space (drop 3 s)"
  let ?tail = "rev (takeWhile (\<lambda>c. c \<noteq> CHR 0x0A) (rev ?run))"
  have l: "length s = 3 + length ?rest"
  proof -
    have "take 3 s = ''---''" using a by (auto simp: separator_def split: if_splits)
    then have "length (take 3 s) = 3" by simp
    then show ?thesis by simp
  qed
  have split: "length ?rest = length ?run + length (dropWhile re_space ?rest)"
    by (simp flip: length_append)
  have "length ?tail \<le> length ?run" using length_takeWhile_le [of _ "rev ?run"] by simp
  then have "length (CHR 0x0A # ?tail @ dropWhile re_space ?rest) < length s"
    unfolding list.size length_append using l split by linarith
  moreover have "r = [] \<or> r = CHR 0x0A # ?tail @ dropWhile re_space ?rest"
    using a by (auto simp: separator_def Let_def split: if_splits)
  moreover have "0 < length s" using l by linarith
  ultimately show ?thesis by (elim disjE) (simp_all only: list.size)
qed

text \<open>\<^verbatim>\<open>docSep.Split(s, -1)\<close>; \<open>bol\<close> tells that the position is the start of a line.\<close>

function splitDocs :: "bool \<Rightarrow> string \<Rightarrow> string \<Rightarrow> string list" where
  "splitDocs bol piece s =
     (case (if bol then separator s else None) of
        Some rest \<Rightarrow> rev piece # splitDocs False [] rest
      | None \<Rightarrow>
          (case s of
             [] \<Rightarrow> [rev piece]
           | c # cs \<Rightarrow> splitDocs (c = CHR 0x0A) (c # piece) cs))"
  by pat_completeness auto

termination
  by (relation "measure (\<lambda>(_, _, s). length s)") (auto dest: separator_shorter split: if_splits)

declare splitDocs.simps [simp del]

datatype parse_error = NotDecoded nat | NotValid nat UnsupportedError

text \<open>The loop of \<^verbatim>\<open>parseWireDocs\<close>; \<open>i\<close> is the position in the stream, blank documents included.\<close>

fun parseDocuments ::
  "(string \<Rightarrow> GovernancePolicy option) \<Rightarrow> nat \<Rightarrow> string list \<Rightarrow> parse_error + GovernancePolicy list" where
  "parseDocuments yaml i [] = Inr []"
| "parseDocuments yaml i (d # ds) =
     (if blank d then parseDocuments yaml (i + 1) ds
      else (case yaml d of
              None \<Rightarrow> Inl (NotDecoded (i + 1))
            | Some wire \<Rightarrow>
                (case FromV1Alpha1 wire of
                   Inl e \<Rightarrow> Inl (NotValid (i + 1) e)
                 | Inr _ \<Rightarrow>
                     (case parseDocuments yaml (i + 1) ds of
                        Inl e \<Rightarrow> Inl e
                      | Inr out \<Rightarrow> Inr (wire # out)))))"

definition parseWireDocs :: "(string \<Rightarrow> GovernancePolicy option) \<Rightarrow> string \<Rightarrow> parse_error + GovernancePolicy list" where
  "parseWireDocs yaml data = parseDocuments yaml 0 (splitDocs True [] data)"

fun convertAll :: "GovernancePolicy list \<Rightarrow> UnsupportedError + Policy list" where
  "convertAll [] = Inr []"
| "convertAll (d # ds) =
     (case FromV1Alpha1 d of
        Inl e \<Rightarrow> Inl e
      | Inr p \<Rightarrow> (case convertAll ds of Inl e \<Rightarrow> Inl e | Inr ps \<Rightarrow> Inr (p # ps)))"

definition ParseDocs :: "(string \<Rightarrow> GovernancePolicy option) \<Rightarrow> string \<Rightarrow> parse_error + Policy list" where
  "ParseDocs yaml data =
     (case parseWireDocs yaml data of
        Inl e \<Rightarrow> Inl e
      | Inr wires \<Rightarrow> (case convertAll wires of Inl e \<Rightarrow> Inl (NotValid 0 e) | Inr ps \<Rightarrow> Inr ps))"

section \<open>Files\<close>

text \<open>What the operating system answers: a path is missing, a directory or a file with its time.\<close>

record Fs =
  fs_stat :: "string \<Rightarrow> (bool \<times> gotime) option"
  fs_readdir :: "string \<Rightarrow> (string \<times> bool) list option"
  fs_read :: "string \<Rightarrow> string option"

datatype load_error =
    PathError string | DirError string | FileError string | FileParse string parse_error
  | NameRequired string | DuplicateName string string string | NoPaths | NotEnforceable UnsupportedError

text \<open>\<^verbatim>\<open>filepath.Ext\<close>: the suffix from the last dot of the last element.\<close>

definition file_ext :: "string \<Rightarrow> string" where
  "file_ext name =
     (let tail = takeWhile (\<lambda>c. c \<noteq> CHR ''.'' \<and> c \<noteq> CHR ''/'') (rev name); rest = drop (length tail) (rev name)
      in case rest of [] \<Rightarrow> [] | c # _ \<Rightarrow> if c = CHR ''.'' then CHR ''.'' # rev tail else [])"

definition policyFile :: "string \<Rightarrow> bool" where
  "policyFile name \<longleftrightarrow> file_ext name \<in> {''.yaml'', ''.yml'', ''.json''}"

definition enumeratePath ::
  "(string \<Rightarrow> string \<Rightarrow> string) \<Rightarrow> Fs \<Rightarrow> string \<Rightarrow> string list \<Rightarrow> load_error + string list" where
  "enumeratePath join fs p files =
     (case fs_stat fs p of
        None \<Rightarrow> Inl (PathError p)
      | Some (isDir, _) \<Rightarrow>
          if \<not> isDir then Inr (files @ [p])
          else (case fs_readdir fs p of
                  None \<Rightarrow> Inl (DirError p)
                | Some entries \<Rightarrow>
                    Inr (files @ map (\<lambda>e. join p (fst e)) (filter (\<lambda>e. \<not> snd e \<and> policyFile (fst e)) entries))))"

definition enumerate_files ::
  "(string \<Rightarrow> string \<Rightarrow> string) \<Rightarrow> Fs \<Rightarrow> string list \<Rightarrow> load_error + string list" where
  "enumerate_files join fs paths =
     (case foldE (enumeratePath join fs) paths [] of
        Inl e \<Rightarrow> Inl e
      | Inr files \<Rightarrow> Inr (sort files))"

text \<open>The names seen so far, each with the file it came from, and the result.\<close>

definition addNamed ::
  "('d \<Rightarrow> string) \<Rightarrow> string \<Rightarrow> 'd \<Rightarrow> (string, string) mapping \<times> 'd list
   \<Rightarrow> load_error + (string, string) mapping \<times> 'd list" where
  "addNamed name f d st =
     (case st of (seen, out) \<Rightarrow>
        if name d = [] then Inl (NameRequired f)
        else (case Mapping.lookup seen (name d) of
                Some prev \<Rightarrow> Inl (DuplicateName f (name d) prev)
              | None \<Rightarrow> Inr (Mapping.update (name d) f seen, out @ [d])))"

definition loadFile ::
  "(string \<Rightarrow> parse_error + 'd list) \<Rightarrow> ('d \<Rightarrow> string) \<Rightarrow> Fs \<Rightarrow> string \<Rightarrow> (string, string) mapping \<times> 'd list
   \<Rightarrow> load_error + (string, string) mapping \<times> 'd list" where
  "loadFile parse name fs f st =
     (case fs_read fs f of
        None \<Rightarrow> Inl (FileError f)
      | Some data \<Rightarrow>
          (case parse data of
             Inl e \<Rightarrow> Inl (FileParse f e)
           | Inr docs \<Rightarrow> foldE (addNamed name f) docs st))"

definition LoadPaths ::
  "(string \<Rightarrow> GovernancePolicy option) \<Rightarrow> (string \<Rightarrow> string \<Rightarrow> string) \<Rightarrow> Fs \<Rightarrow> string list
   \<Rightarrow> load_error + Policy list \<times> string list" where
  "LoadPaths yaml join fs paths =
     (case enumerate_files join fs paths of
        Inl e \<Rightarrow> Inl e
      | Inr files \<Rightarrow>
          (case foldE (loadFile (ParseDocs yaml) p_Name fs) files (Mapping.empty, []) of
             Inl e \<Rightarrow> Inl e
           | Inr (_, out) \<Rightarrow> Inr (out, files)))"

definition LoadWirePaths ::
  "(string \<Rightarrow> GovernancePolicy option) \<Rightarrow> (string \<Rightarrow> string \<Rightarrow> string) \<Rightarrow> Fs \<Rightarrow> string list
   \<Rightarrow> load_error + GovernancePolicy list \<times> string list" where
  "LoadWirePaths yaml join fs paths =
     (case enumerate_files join fs paths of
        Inl e \<Rightarrow> Inl e
      | Inr files \<Rightarrow>
          (case foldE (loadFile (parseWireDocs yaml) (\<lambda>d. om_Name (gp_Metadata d)) fs) files (Mapping.empty, []) of
             Inl e \<Rightarrow> Inl e
           | Inr (_, out) \<Rightarrow> Inr (out, files)))"

section \<open>Lemmas\<close>

lemma parse_documents_valid:
  assumes "parseDocuments yaml i ds = Inr wires" "w \<in> set wires"
  shows "\<exists>p. FromV1Alpha1 w = Inr p"
  using assms by (induction ds arbitrary: i wires) (auto split: if_splits option.splits sum.splits)

lemma parse_wire_valid: "parseWireDocs yaml data = Inr wires \<Longrightarrow> w \<in> set wires \<Longrightarrow> \<exists>p. FromV1Alpha1 w = Inr p"
  by (auto simp: parseWireDocs_def dest: parse_documents_valid)

lemma convertAll_iff: "convertAll ds = Inr ps \<longleftrightarrow> list_all2 (\<lambda>d p. FromV1Alpha1 d = Inr p) ds ps"
proof (induction ds arbitrary: ps)
  case (Cons d ds)
  show ?case
  proof (cases "convertAll ds")
    case (Inl e)
    then have "\<not> list_all2 (\<lambda>d p. FromV1Alpha1 d = Inr p) ds qs" for qs using Cons.IH [of qs] by simp
    then show ?thesis using Inl by (auto simp: list_all2_Cons1 split: sum.splits)
  next
    case (Inr qs)
    then have "list_all2 (\<lambda>d p. FromV1Alpha1 d = Inr p) ds rs \<longleftrightarrow> qs = rs" for rs using Cons.IH [of rs] by simp
    then show ?thesis using Inr by (auto simp: list_all2_Cons1 split: sum.splits)
  qed
qed auto

text \<open>The second conversion of \<^verbatim>\<open>ParseDocs\<close> cannot fail, as its comment says.\<close>

lemma convertAll_total:
  assumes "\<forall>d \<in> set ds. \<exists>p. FromV1Alpha1 d = Inr p"
  shows "\<exists>ps. convertAll ds = Inr ps"
  using assms by (induction ds) auto

lemma parse_docs_wf:
  assumes "ParseDocs yaml data = Inr ps" "p \<in> set ps"
  shows "wfPolicy p"
proof -
  obtain wires where "parseWireDocs yaml data = Inr wires" "convertAll wires = Inr ps"
    using assms(1) by (auto simp: ParseDocs_def split: sum.splits)
  then have "list_all2 (\<lambda>d p. FromV1Alpha1 d = Inr p) wires ps" by (simp add: convertAll_iff)
  then obtain d where "FromV1Alpha1 d = Inr p" using list_all2_in2 [OF _ assms(2)] by blast
  then show ?thesis by (rule conversion_wf)
qed

text \<open>Both loaders return uniquely named documents, each from one parsed file.\<close>

definition loaded :: "('d \<Rightarrow> string) \<Rightarrow> ('d \<Rightarrow> bool) \<Rightarrow> (string, string) mapping \<times> 'd list \<Rightarrow> bool" where
  "loaded name good st \<longleftrightarrow>
     distinct (map name (snd st)) \<and> Mapping.keys (fst st) = name ` set (snd st) \<and> (\<forall>d \<in> set (snd st). good d \<and> name d \<noteq> [])"

lemma add_named_loaded:
  assumes "loaded name good st" "good d" "addNamed name f d st = Inr st'"
  shows "loaded name good st'"
proof (cases st)
  case (Pair seen out)
  have "name d \<noteq> []" "Mapping.lookup seen (name d) = None" "st' = (Mapping.update (name d) f seen, out @ [d])"
    using assms(3) by (auto simp: addNamed_def Pair split: if_splits option.splits)
  moreover have "name d \<notin> name ` set out"
    using assms(1) calculation(2) by (auto simp: loaded_def Pair keys_lookup dest!: arg_cong [of _ _ "\<lambda>A. name d \<in> A"])
  ultimately show ?thesis using assms(1,2) by (auto simp: loaded_def Pair)
qed

lemma load_file_loaded:
  assumes "loaded name good st" "loadFile parse name fs f st = Inr st'"
    and "\<And>data docs d. parse data = Inr docs \<Longrightarrow> d \<in> set docs \<Longrightarrow> good d"
  shows "loaded name good st'"
proof -
  obtain data docs where p: "parse data = Inr docs" "foldE (addNamed name f) docs st = Inr st'"
    using assms(2) by (auto simp: loadFile_def split: option.splits sum.splits)
  show ?thesis
  proof (rule foldE_invariant [OF p(2), where P = "loaded name good"])
    show "loaded name good s'" if "d \<in> set docs" "loaded name good s" "addNamed name f d s = Inr s'" for d s s'
      by (rule add_named_loaded [OF that(2) assms(3) [OF p(1) that(1)] that(3)])
  qed (rule assms(1))
qed

lemma load_files_loaded:
  assumes "foldE (loadFile parse name fs) files (Mapping.empty, []) = Inr st"
    and "\<And>data docs d. parse data = Inr docs \<Longrightarrow> d \<in> set docs \<Longrightarrow> good d"
  shows "loaded name good st"
proof (rule foldE_invariant [OF assms(1), where P = "loaded name good"])
  show "loaded name good (Mapping.empty, [])" by (simp add: loaded_def)
  show "loaded name good s'" if "loaded name good s" "loadFile parse name fs f s = Inr s'" for f s s'
    by (rule load_file_loaded [OF that assms(2)])
qed

end
