(* ===== verification/PolicyStore.thy ===== *)
theory PolicyStore
  imports PolicyLoad
begin

text \<open>
  The policy set a data plane enforces, \<^verbatim>\<open>internal/policy/store.go\<close>: the merged limits per
  team and user, the model allow-lists, the enforceability gate, distribution by the control
  plane with its memory of rejected mandatory documents, and reload from files. A snapshot
  is replaced as a whole, so a reader sees one snapshot. The deep copies the source hands
  out are values here.
\<close>

section \<open>Types\<close>

record TeamLimits =
  tl_RPM :: int
  tl_TPM :: int
  tl_BudgetMicrosPerMonth :: int
  tl_BudgetHard :: bool
  tl_AdminContact :: string
  tl_BudgetMicrosPerDay :: int
  tl_BudgetDayHard :: bool
  tl_AdminContactDay :: string
  tl_RoutingBudgetMicrosPerMonth :: int
  tl_RoutingBudgetMicrosPerDay :: int

record UserLimits =
  ul_BudgetMicrosPerMonth :: int
  ul_BudgetHard :: bool
  ul_AdminContact :: string
  ul_BudgetMicrosPerDay :: int
  ul_BudgetDayHard :: bool
  ul_AdminContactDay :: string

definition noTeamLimits :: TeamLimits where
  "noTeamLimits = \<lparr>tl_RPM = 0, tl_TPM = 0, tl_BudgetMicrosPerMonth = 0, tl_BudgetHard = False, tl_AdminContact = [],
     tl_BudgetMicrosPerDay = 0, tl_BudgetDayHard = False, tl_AdminContactDay = [],
     tl_RoutingBudgetMicrosPerMonth = 0, tl_RoutingBudgetMicrosPerDay = 0\<rparr>"

definition noUserLimits :: UserLimits where
  "noUserLimits = \<lparr>ul_BudgetMicrosPerMonth = 0, ul_BudgetHard = False, ul_AdminContact = [],
     ul_BudgetMicrosPerDay = 0, ul_BudgetDayHard = False, ul_AdminContactDay = []\<rparr>"

type_synonym userKey = "string \<times> string"

record snapshot =
  sn_generation :: string
  sn_policies :: "Policy list"
  sn_rejectedRouting :: "(string, PolicySubject list) mapping"
  sn_files :: "(string, gotime) mapping"
  sn_teams :: "(string, TeamLimits) mapping"
  sn_users :: "(userKey, UserLimits) mapping"

text \<open>\<open>routedAndPriced\<close> answers with the text of an error; a nil function is \<open>None\<close>.\<close>

record PolicyStore =
  po_paths :: "string list"
  po_snap :: "snapshot option"
  po_routedAndPriced :: "(string \<Rightarrow> string option) option"
  po_sharedEnforcement :: bool

record Rejection =
  rj_Policy :: string
  rj_Rule :: string
  rj_Reason :: reason

section \<open>Merging\<close>

definition minNonZero :: "int \<Rightarrow> int \<Rightarrow> int" where
  "minNonZero a b = (if a = 0 then b else if b = 0 then a else if b < a then b else a)"

text \<open>The ladder on one window: limit, hardness and contact.\<close>

type_synonym windowLimit = "int \<times> bool \<times> string"

definition ladder :: "windowLimit \<Rightarrow> windowLimit \<Rightarrow> windowLimit" where
  "ladder u o' =
     (case u of (limit, hard, contact) \<Rightarrow> case o' of (limit', hard', contact') \<Rightarrow>
        if limit = 0 \<or> limit' < limit then (limit', hard', contact')
        else if limit' = limit \<and> hard' then (limit, True, if contact = [] then contact' else contact)
        else (limit, hard, contact))"

definition teamDay :: "TeamLimits \<Rightarrow> windowLimit" where
  "teamDay lm = (tl_BudgetMicrosPerDay lm, tl_BudgetDayHard lm, tl_AdminContactDay lm)"

definition teamMonth :: "TeamLimits \<Rightarrow> windowLimit" where
  "teamMonth lm = (tl_BudgetMicrosPerMonth lm, tl_BudgetHard lm, tl_AdminContact lm)"

definition budgetWindow :: "PolicyBudget \<Rightarrow> windowLimit" where
  "budgetWindow b = (b_LimitMicroUSD b, b_HardCap b, b_AdminContact b)"

definition teamBudget :: "bool \<Rightarrow> PolicyBudget \<Rightarrow> TeamLimits \<Rightarrow> TeamLimits" where
  "teamBudget routingOnly b lm =
     (if routingOnly then
        if b_Period b = PeriodCalendarDay
        then lm\<lparr>tl_RoutingBudgetMicrosPerDay := minNonZero (tl_RoutingBudgetMicrosPerDay lm) (b_LimitMicroUSD b)\<rparr>
        else lm\<lparr>tl_RoutingBudgetMicrosPerMonth := minNonZero (tl_RoutingBudgetMicrosPerMonth lm) (b_LimitMicroUSD b)\<rparr>
      else if b_Unlimited b then lm
      else if b_Period b = PeriodCalendarDay then
        (case ladder (teamDay lm) (budgetWindow b) of
           (limit, hard, contact) \<Rightarrow>
             lm\<lparr>tl_BudgetMicrosPerDay := limit, tl_BudgetDayHard := hard, tl_AdminContactDay := contact\<rparr>)
      else
        (case ladder (teamMonth lm) (budgetWindow b) of
           (limit, hard, contact) \<Rightarrow>
             lm\<lparr>tl_BudgetMicrosPerMonth := limit, tl_BudgetHard := hard, tl_AdminContact := contact\<rparr>))"

definition teamRule :: "Policy \<Rightarrow> Rule \<Rightarrow> TeamLimits \<times> bool \<Rightarrow> TeamLimits \<times> bool" where
  "teamRule p r st =
     (let (lm, contributed) =
            (case st of (lm, contributed) \<Rightarrow>
               (case r_Rate r of
                  None \<Rightarrow> (lm, contributed)
                | Some rate \<Rightarrow>
                    (lm\<lparr>tl_RPM := minNonZero (tl_RPM lm) (pr_RPM rate), tl_TPM := minNonZero (tl_TPM lm) (pr_TPM rate)\<rparr>, True)))
      in case r_Budget r of
           None \<Rightarrow> (lm, contributed)
         | Some b \<Rightarrow> (teamBudget (IsRoutingOnlyBudget (Some p) (r_Name r)) b lm, True))"

text \<open>A missing entry reads as the zero value and \<open>False\<close>.\<close>

definition teamPolicy :: "Policy \<Rightarrow> (string, TeamLimits) mapping \<Rightarrow> (string, TeamLimits) mapping" where
  "teamPolicy p out =
     (let team = ps_Team (p_Subject p) in
      if team = [] \<or> ps_User (p_Subject p) \<noteq> [] then out
      else
        (let start = (case Mapping.lookup out team of None \<Rightarrow> (noTeamLimits, False) | Some lm \<Rightarrow> (lm, True));
             (lm, contributed) = fold (teamRule p) (p_Rules p) start
         in if contributed then Mapping.update team lm out else out))"

definition mergeTeamLimits :: "Policy list \<Rightarrow> (string, TeamLimits) mapping" where
  "mergeTeamLimits ps = fold teamPolicy ps Mapping.empty"

definition userMonth :: "UserLimits \<Rightarrow> windowLimit" where
  "userMonth u = (ul_BudgetMicrosPerMonth u, ul_BudgetHard u, ul_AdminContact u)"

definition userDay :: "UserLimits \<Rightarrow> windowLimit" where
  "userDay u = (ul_BudgetMicrosPerDay u, ul_BudgetDayHard u, ul_AdminContactDay u)"

definition narrowWindow :: "windowLimit \<Rightarrow> windowLimit \<Rightarrow> windowLimit" where
  "narrowWindow u o' = (if fst o' = 0 then u else ladder u o')"

definition narrow :: "UserLimits \<Rightarrow> UserLimits \<Rightarrow> UserLimits" where
  "narrow u o' =
     (case narrowWindow (userMonth u) (userMonth o') of
        (m, mh, mc) \<Rightarrow>
          (case narrowWindow (userDay u) (userDay o') of
             (d, dh, dc) \<Rightarrow>
               \<lparr>ul_BudgetMicrosPerMonth = m, ul_BudgetHard = mh, ul_AdminContact = mc,
                ul_BudgetMicrosPerDay = d, ul_BudgetDayHard = dh, ul_AdminContactDay = dc\<rparr>))"

definition userLimitsFromBudget :: "PolicyBudget \<Rightarrow> UserLimits" where
  "userLimitsFromBudget b =
     (if b_Period b = PeriodCalendarDay
      then noUserLimits\<lparr>ul_BudgetMicrosPerDay := b_LimitMicroUSD b, ul_BudgetDayHard := b_HardCap b,
             ul_AdminContactDay := b_AdminContact b\<rparr>
      else noUserLimits\<lparr>ul_BudgetMicrosPerMonth := b_LimitMicroUSD b, ul_BudgetHard := b_HardCap b,
             ul_AdminContact := b_AdminContact b\<rparr>)"

definition userRule :: "Rule \<Rightarrow> UserLimits \<times> bool \<Rightarrow> UserLimits \<times> bool" where
  "userRule r st =
     (case r_Budget r of
        None \<Rightarrow> st
      | Some b \<Rightarrow> (if b_Unlimited b then fst st else narrow (fst st) (userLimitsFromBudget b), True))"

definition userPolicy :: "Policy \<Rightarrow> (userKey, UserLimits) mapping \<Rightarrow> (userKey, UserLimits) mapping" where
  "userPolicy p out =
     (let k = (ps_Team (p_Subject p), ps_User (p_Subject p)) in
      if snd k = [] then out
      else
        (let start = (case Mapping.lookup out k of None \<Rightarrow> (noUserLimits, False) | Some ul \<Rightarrow> (ul, True));
             (ul, contributed) = fold userRule (p_Rules p) start
         in if contributed then Mapping.update k ul out else out))"

definition mergeUserLimits :: "Policy list \<Rightarrow> (userKey, UserLimits) mapping" where
  "mergeUserLimits ps = fold userPolicy ps Mapping.empty"

section \<open>Lookups\<close>

definition subjectMatches :: "PolicySubject \<Rightarrow> string \<Rightarrow> string \<Rightarrow> bool" where
  "subjectMatches sub team user \<longleftrightarrow>
     \<not> (ps_Team sub \<noteq> [] \<and> ps_Team sub \<noteq> team) \<and> \<not> (ps_User sub \<noteq> [] \<and> (user = [] \<or> ps_User sub \<noteq> user))"

definition allowsModel :: "string list \<Rightarrow> string \<Rightarrow> (string \<Rightarrow> string) option \<Rightarrow> bool" where
  "allowsModel allow model canon \<longleftrightarrow>
     list_ex (\<lambda>a. a = ''*'' \<or> a = model \<or> (case canon of None \<Rightarrow> False | Some f \<Rightarrow> f a = model)) allow"

text \<open>Reading through a nil snapshot pointer panics: the result is \<open>None\<close>.\<close>

definition TeamLimitsOf :: "PolicyStore \<Rightarrow> string \<Rightarrow> TeamLimits option option" where
  "TeamLimitsOf s team = map_option (\<lambda>snap. Mapping.lookup (sn_teams snap) team) (po_snap s)"

definition userLimitsIn :: "(userKey, UserLimits) mapping \<Rightarrow> string \<Rightarrow> string \<Rightarrow> UserLimits option" where
  "userLimitsIn m team user =
     (case (Mapping.lookup m (team, user), Mapping.lookup m ([], user)) of
        (Some scoped, Some global) \<Rightarrow> Some (narrow scoped global)
      | (Some scoped, None) \<Rightarrow> Some scoped
      | (None, global) \<Rightarrow> global)"

definition UserLimitsOf :: "PolicyStore \<Rightarrow> string \<Rightarrow> string \<Rightarrow> UserLimits option option" where
  "UserLimitsOf s team user =
     (if user = [] then Some None else map_option (\<lambda>snap. userLimitsIn (sn_users snap) team user) (po_snap s))"

definition modelAllowed :: "Policy list \<Rightarrow> string \<Rightarrow> string \<Rightarrow> string \<Rightarrow> (string \<Rightarrow> string) option \<Rightarrow> bool" where
  "modelAllowed ps team user model canon \<longleftrightarrow>
     list_all (\<lambda>p. subjectMatches (p_Subject p) team user \<longrightarrow>
       list_all (\<lambda>r. case r_ModelAccess r of None \<Rightarrow> True | Some a \<Rightarrow> allowsModel (m_Allow a) model canon) (p_Rules p)) ps"

definition ModelAllowed :: "PolicyStore \<Rightarrow> string \<Rightarrow> string \<Rightarrow> string \<Rightarrow> (string \<Rightarrow> string) option \<Rightarrow> bool option" where
  "ModelAllowed s team user model canon = map_option (\<lambda>snap. modelAllowed (sn_policies snap) team user model canon) (po_snap s)"

section \<open>The enforceability gate\<close>

definition enforceError :: "string \<Rightarrow> reason \<Rightarrow> UnsupportedError" where
  "enforceError rule why =
     \<lparr>ue_APIVersion = hd SupportedAPIVersions, ue_Kind = KindGovernancePolicy, ue_Rule = rule, ue_Reason = why\<rparr>"

definition ruleTargets :: "Rule \<Rightarrow> string list" where
  "ruleTargets r =
     (case r_SensitiveData r of None \<Rightarrow> [] | Some sd \<Rightarrow> s_InternalModels sd)
     @ (case Option.bind (r_Routing r) ro_Context of
          None \<Rightarrow> []
        | Some c \<Rightarrow> [cx_SimpleModel c, cx_ComplexModel c] @ (if cx_NormalModel c \<noteq> [] then [cx_NormalModel c] else []))"

definition refusedTarget :: "(string \<Rightarrow> string option) \<Rightarrow> string list \<Rightarrow> (string \<times> string) option" where
  "refusedTarget f targets =
     (case filter (\<lambda>t. f t \<noteq> None) targets of [] \<Rightarrow> None | t # _ \<Rightarrow> Some (t, the (f t)))"

text \<open>The substitution targets of the tiers, one map in the order of its keys.\<close>

definition tierTargets :: "Rule \<Rightarrow> string list" where
  "tierTargets r =
     (case Option.bind (r_Routing r) ro_BudgetTiers of
        None \<Rightarrow> []
      | Some bt \<Rightarrow> concat (map (\<lambda>t. map (\<lambda>k. the (Mapping.lookup (t_Substitute t) k))
                     (Mapping.ordered_keys (t_Substitute t))) (ts_Tiers bt)))"

definition strictTiers :: "Rule \<Rightarrow> bool" where
  "strictTiers r \<longleftrightarrow> (case Option.bind (r_Routing r) ro_BudgetTiers of None \<Rightarrow> False | Some bt \<Rightarrow> ts_EnforceTargets bt)"

definition enforceRule :: "(string \<Rightarrow> string option) option \<Rightarrow> bool \<Rightarrow> PolicySubject \<Rightarrow> Rule \<Rightarrow> UnsupportedError option" where
  "enforceRule routedAndPriced shared sub r =
     (let teamOnly = (ps_Team sub \<noteq> [] \<and> ps_User sub = []) in
      if r_TokenQuota r \<noteq> None \<and> \<not> shared then Some (enforceError (r_Name r) QuotaNeedsShared)
      else (case Option.bind routedAndPriced (\<lambda>f. refusedTarget f (ruleTargets r)) of
              Some (t, e) \<Rightarrow> Some (enforceError (r_Name r) (TargetRefused t e))
            | None \<Rightarrow>
                if Option.bind (r_Routing r) ro_Affinity \<noteq> None
                  then Some (enforceError (r_Name r) AffinityNotEnforceable)
                else if strictTiers r \<and> \<not> teamOnly \<and> \<not> shared
                  then Some (enforceError (r_Name r) StrictNotTeamOnly)
                else (case Option.bind routedAndPriced (\<lambda>f. refusedTarget f (tierTargets r)) of
                        Some (t, e) \<Rightarrow> Some (enforceError (r_Name r) (SubstituteTargetRefused t e))
                      | None \<Rightarrow>
                          if r_Rate r \<noteq> None \<and> \<not> teamOnly \<and> \<not> shared
                          then Some (enforceError (r_Name r) RateNotTeamOnly) else None)))"

fun enforceRules ::
  "(string \<Rightarrow> string option) option \<Rightarrow> bool \<Rightarrow> PolicySubject \<Rightarrow> Rule list \<Rightarrow> UnsupportedError option" where
  "enforceRules rp shared sub [] = None"
| "enforceRules rp shared sub (r # rs) =
     (case enforceRule rp shared sub r of Some e \<Rightarrow> Some e | None \<Rightarrow> enforceRules rp shared sub rs)"

definition checkEnforceable :: "Policy \<Rightarrow> (string \<Rightarrow> string option) option \<Rightarrow> bool \<Rightarrow> UnsupportedError option" where
  "checkEnforceable p rp shared = enforceRules rp shared (p_Subject p) (p_Rules p)"

definition mandatoryRule :: "Rule \<Rightarrow> bool" where
  "mandatoryRule r \<longleftrightarrow> r_TokenQuota r \<noteq> None \<or> r_SensitiveData r \<noteq> None \<or> strictTiers r"

definition hasMandatoryRouting :: "Policy \<Rightarrow> bool" where
  "hasMandatoryRouting p \<longleftrightarrow> list_ex mandatoryRule (p_Rules p)"


section \<open>Distribution\<close>

definition mandatoryWire :: "V1Rule \<Rightarrow> bool" where
  "mandatoryWire r \<longleftrightarrow>
     wr_TokenQuota r \<noteq> None \<or> wr_SensitiveData r \<noteq> None
     \<or> (case Option.bind (wr_Routing r) rt_BudgetTiers of None \<Rightarrow> False | Some bt \<Rightarrow> bt_EnforceTargets bt)"

definition mandatoryDoc :: "GovernancePolicy \<Rightarrow> bool" where
  "mandatoryDoc doc \<longleftrightarrow> list_ex mandatoryWire (gs_Rules (gp_Spec doc))"

definition docName :: "GovernancePolicy \<Rightarrow> string" where
  "docName doc = om_Name (gp_Metadata doc)"

definition docSubject :: "GovernancePolicy \<Rightarrow> PolicySubject" where
  "docSubject doc = \<lparr>ps_Team = v1s_Team (gs_Subject (gp_Spec doc)), ps_User = v1s_User (gs_Subject (gp_Spec doc))\<rparr>"

definition addSubject :: "PolicySubject \<Rightarrow> PolicySubject list \<Rightarrow> PolicySubject list" where
  "addSubject sub subjects = (if sub \<in> set subjects then subjects else subjects @ [sub])"

definition addMandatory :: "string \<Rightarrow> Policy \<Rightarrow> PolicySubject list \<Rightarrow> PolicySubject list" where
  "addMandatory name p subjects =
     (if p_Name p = name \<and> hasMandatoryRouting p then addSubject (p_Subject p) subjects else subjects)"

definition rememberRejection ::
  "Policy list \<Rightarrow> Policy list \<Rightarrow> GovernancePolicy \<Rightarrow> (string, PolicySubject list) mapping
   \<Rightarrow> (string, PolicySubject list) mapping" where
  "rememberRejection previous accepted doc pending =
     (let name = docName doc;
          s0 = (case Mapping.lookup pending name of None \<Rightarrow> [] | Some subs \<Rightarrow> subs);
          s1 = (if mandatoryDoc doc then addSubject (docSubject doc) s0 else s0);
          s2 = fold (addMandatory name) previous s1;
          s3 = fold (addMandatory name) accepted s2
      in if s3 \<noteq> [] then Mapping.update name s3 pending else pending)"

record ApplyState =
  ap_accepted :: "Policy list"
  ap_rejected :: "Rejection list"
  ap_seen :: "string set"
  ap_pending :: "(string, PolicySubject list) mapping"

definition enforceDoc :: "PolicyStore \<Rightarrow> GovernancePolicy \<Rightarrow> UnsupportedError + Policy" where
  "enforceDoc s doc =
     (case FromV1Alpha1 doc of
        Inl e \<Rightarrow> Inl e
      | Inr p \<Rightarrow>
          (case checkEnforceable p (po_routedAndPriced s) (po_sharedEnforcement s) of
             Some e \<Rightarrow> Inl e
           | None \<Rightarrow> Inr p))"

definition applyDoc ::
  "PolicyStore \<Rightarrow> Policy list \<Rightarrow> GovernancePolicy list \<Rightarrow> GovernancePolicy \<Rightarrow> ApplyState \<Rightarrow> ApplyState" where
  "applyDoc s previous docs doc st =
     (let name = docName doc;
          remembered = rememberRejection previous (ap_accepted st) doc (ap_pending st)
      in if name = [] \<or> name \<in> ap_seen st then
           st\<lparr>ap_pending := remembered,
              ap_rejected := ap_rejected st @ [\<lparr>rj_Policy = name, rj_Rule = [], rj_Reason = NameMissingOrDuplicate\<rparr>]\<rparr>
         else
           (let st' = st\<lparr>ap_seen := insert name (ap_seen st)\<rparr> in
            case enforceDoc s doc of
              Inl e \<Rightarrow>
                st'\<lparr>ap_pending := remembered,
                    ap_rejected := ap_rejected st @ [\<lparr>rj_Policy = name, rj_Rule = ue_Rule e, rj_Reason = ue_Reason e\<rparr>]\<rparr>
            | Inr p \<Rightarrow>
                st'\<lparr>ap_pending := (if length (filter (\<lambda>d. docName d = name) docs) = 1
                                   then Mapping.delete name (ap_pending st) else ap_pending st),
                    ap_accepted := ap_accepted st @ [p]\<rparr>))"

definition previousPolicies :: "PolicyStore \<Rightarrow> Policy list" where
  "previousPolicies s = (case po_snap s of None \<Rightarrow> [] | Some snap \<Rightarrow> sn_policies snap)"

definition previousPending :: "PolicyStore \<Rightarrow> (string, PolicySubject list) mapping" where
  "previousPending s = (case po_snap s of None \<Rightarrow> Mapping.empty | Some snap \<Rightarrow> sn_rejectedRouting snap)"

definition ApplyWire ::
  "(GovernancePolicy list \<Rightarrow> string) \<Rightarrow> GovernancePolicy list \<Rightarrow> PolicyStore \<Rightarrow> PolicyStore \<times> Rejection list" where
  "ApplyWire gen docs s =
     (let st = fold (applyDoc s (previousPolicies s) docs) docs
                 \<lparr>ap_accepted = [], ap_rejected = [], ap_seen = {}, ap_pending = previousPending s\<rparr>;
          pending = (if ap_rejected st = [] \<and> docs \<noteq> [] then Mapping.delete [] (ap_pending st) else ap_pending st)
      in (s\<lparr>po_snap := Some \<lparr>sn_generation = gen docs, sn_policies = ap_accepted st, sn_rejectedRouting = pending,
               sn_files = Mapping.empty, sn_teams = mergeTeamLimits (ap_accepted st),
               sn_users = mergeUserLimits (ap_accepted st)\<rparr>\<rparr>,
          ap_rejected st))"

definition NewEmptyStore :: PolicyStore where
  "NewEmptyStore = \<lparr>po_paths = [],
     po_snap = Some \<lparr>sn_generation = [], sn_policies = [], sn_rejectedRouting = Mapping.empty, sn_files = Mapping.empty,
       sn_teams = Mapping.empty, sn_users = Mapping.empty\<rparr>,
     po_routedAndPriced = None, po_sharedEnforcement = False\<rparr>"

definition SetSharedEnforcement :: "bool \<Rightarrow> PolicyStore \<Rightarrow> PolicyStore" where
  "SetSharedEnforcement enabled s = s\<lparr>po_sharedEnforcement := enabled\<rparr>"

definition SetRoutedAndPriced :: "(string \<Rightarrow> string option) option \<Rightarrow> PolicyStore \<Rightarrow> PolicyStore" where
  "SetRoutedAndPriced f s = s\<lparr>po_routedAndPriced := f\<rparr>"

definition Policies :: "PolicyStore \<Rightarrow> Policy list option" where
  "Policies s = map_option sn_policies (po_snap s)"

section \<open>Reload\<close>

fun enforceAll :: "PolicyStore \<Rightarrow> Policy list \<Rightarrow> UnsupportedError option" where
  "enforceAll s [] = None"
| "enforceAll s (p # ps) =
     (case checkEnforceable p (po_routedAndPriced s) (po_sharedEnforcement s) of
        Some e \<Rightarrow> Some e
      | None \<Rightarrow> enforceAll s ps)"

definition fileTimes :: "Fs \<Rightarrow> string list \<Rightarrow> (string, gotime) mapping" where
  "fileTimes fs files =
     fold (\<lambda>f m. case fs_stat fs f of None \<Rightarrow> m | Some (_, t) \<Rightarrow> Mapping.update f t m) files Mapping.empty"

definition Reload ::
  "(string \<Rightarrow> GovernancePolicy option) \<Rightarrow> (string \<Rightarrow> string \<Rightarrow> string) \<Rightarrow> Fs \<Rightarrow> PolicyStore
   \<Rightarrow> PolicyStore \<times> load_error option" where
  "Reload yaml join fs s =
     (if po_paths s = [] then (s, Some NoPaths)
      else (case LoadPaths yaml join fs (po_paths s) of
              Inl e \<Rightarrow> (s, Some e)
            | Inr (ps, files) \<Rightarrow>
                (case enforceAll s ps of
                   Some e \<Rightarrow> (s, Some (NotEnforceable e))
                 | None \<Rightarrow>
                     (s\<lparr>po_snap := Some \<lparr>sn_generation = [], sn_policies = ps, sn_rejectedRouting = Mapping.empty,
                          sn_files = fileTimes fs files, sn_teams = mergeTeamLimits ps, sn_users = mergeUserLimits ps\<rparr>\<rparr>,
                      None))))"

definition NewPolicyStore ::
  "(string \<Rightarrow> GovernancePolicy option) \<Rightarrow> (string \<Rightarrow> string \<Rightarrow> string) \<Rightarrow> Fs \<Rightarrow> string list \<Rightarrow> load_error + PolicyStore" where
  "NewPolicyStore yaml join fs paths =
     (case Reload yaml join fs \<lparr>po_paths = paths, po_snap = None, po_routedAndPriced = None, po_sharedEnforcement = False\<rparr> of
        (_, Some e) \<Rightarrow> Inl e
      | (s, None) \<Rightarrow> Inr s)"

text \<open>The poll of the watcher; a nil snapshot would panic and cannot occur on a loaded store.\<close>

definition changed :: "(string \<Rightarrow> string \<Rightarrow> string) \<Rightarrow> Fs \<Rightarrow> PolicyStore \<Rightarrow> bool option" where
  "changed join fs s =
     (case po_snap s of
        None \<Rightarrow> None
      | Some snap \<Rightarrow>
          (case enumerate_files join fs (po_paths s) of
             Inl _ \<Rightarrow> Some True
           | Inr files \<Rightarrow>
               Some (length files \<noteq> Mapping.size (sn_files snap)
                 \<or> list_ex (\<lambda>f. case Mapping.lookup (sn_files snap) f of
                      None \<Rightarrow> True
                    | Some prev \<Rightarrow> (case fs_stat fs f of None \<Rightarrow> True | Some (_, t) \<Rightarrow> t \<noteq> prev)) files)))"

text \<open>
  One tick of the watcher: the text of the last error is kept so that a broken file is
  reported once; \<open>render\<close> gives the text of an error.
\<close>

definition watchTick ::
  "(load_error \<Rightarrow> string) \<Rightarrow> (string \<Rightarrow> GovernancePolicy option) \<Rightarrow> (string \<Rightarrow> string \<Rightarrow> string) \<Rightarrow> Fs \<Rightarrow>
   PolicyStore \<times> string \<Rightarrow> ((PolicyStore \<times> string) \<times> load_error option) option" where
  "watchTick render yaml join fs st =
     (case st of (s, lastErr) \<Rightarrow>
        (case changed join fs s of
           None \<Rightarrow> None
         | Some False \<Rightarrow> Some (st, None)
         | Some True \<Rightarrow>
             (case Reload yaml join fs s of
                (s', None) \<Rightarrow> Some ((s', []), None)
              | (s', Some e) \<Rightarrow> if render e \<noteq> lastErr then Some ((s', render e), Some e) else Some ((s', lastErr), None))))"

section \<open>The routing snapshot\<close>

datatype routing_error = ErrRoutingPolicyRejected

definition routingRule :: "Rule \<Rightarrow> bool" where
  "routingRule r \<longleftrightarrow> r_SensitiveData r \<noteq> None \<or> Option.bind (r_Routing r) ro_Context \<noteq> None"

definition routingPolicies :: "Policy list \<Rightarrow> string \<Rightarrow> string \<Rightarrow> Policy list" where
  "routingPolicies ps team user =
     filter (\<lambda>p. p_Rules p \<noteq> [])
       (map (\<lambda>p. p\<lparr>p_Rules := filter routingRule (p_Rules p)\<rparr>) (filter (\<lambda>p. subjectMatches (p_Subject p) team user) ps))"

definition RoutingSnapshot :: "PolicyStore \<Rightarrow> string \<Rightarrow> string \<Rightarrow> (string \<times> (routing_error + Policy list)) option" where
  "RoutingSnapshot s team user =
     map_option (\<lambda>snap.
       (sn_generation snap,
        if list_ex (\<lambda>n. list_ex (\<lambda>sub. subjectMatches sub team user) (the (Mapping.lookup (sn_rejectedRouting snap) n)))
             (Mapping.ordered_keys (sn_rejectedRouting snap))
        then Inl ErrRoutingPolicyRejected
        else Inr (routingPolicies (sn_policies snap) team user))) (po_snap s)"

definition MatchingRoutingPolicies :: "PolicyStore \<Rightarrow> string \<Rightarrow> string \<Rightarrow> (routing_error + Policy list) option" where
  "MatchingRoutingPolicies s team user = map_option snd (RoutingSnapshot s team user)"

end
