(* ===== verification/PolicyStoreProps.thy ===== *)
theory PolicyStoreProps
  imports PolicyStore
begin

text \<open>
  Properties of the policy set of a data plane: what a distribution accepts, what it keeps
  refusing after it rejected a mandatory document, and which limits the merged view of a
  team binds. The loop of \<open>ApplyWire\<close> is characterised by the documents it has processed.
\<close>

section \<open>A document and its policy agree on what is mandatory\<close>

lemma converted_mandatory_rule:
  assumes "convertKind doc wr = Inr r" and "countSet (ruleKinds wr) = 1"
  shows "mandatoryRule r \<longleftrightarrow> mandatoryWire wr"
  using assms
proof (cases rule: kind_outcome)
  case (Routing wrt x)
  have "strictTiers r \<longleftrightarrow> (case rt_BudgetTiers wrt of None \<Rightarrow> False | Some bt \<Rightarrow> bt_EnforceTargets bt)"
    using Routing(2)
    by (auto simp: Routing(3) strictTiers_def emptyRule_def routingFromV1Alpha1_def budgetTiersFromV1Alpha1_def
        noRouting_def Let_def split: if_splits option.splits sum.splits)
  then show ?thesis
    using assms(2) Routing
    by (auto simp: mandatoryRule_def mandatoryWire_def emptyRule_def ruleKinds_def split: if_splits)
qed (use assms(2) in \<open>auto simp: mandatoryRule_def mandatoryWire_def strictTiers_def emptyRule_def ruleKinds_def
      split: if_splits option.splits\<close>)

lemma converted_identity:
  assumes "FromV1Alpha1 doc = Inr p"
  shows "p_Name p = docName doc" and "p_Subject p = docSubject doc"
    and "hasMandatoryRouting p \<longleftrightarrow> mandatoryDoc doc"
proof -
  note out = document_outcome [OF assms]
  show "p_Name p = docName doc" using out(9) by (simp add: docName_def)
  show "p_Subject p = docSubject doc" using out(1,2) by (simp add: docSubject_def)
  have "list_all2 (\<lambda>wr r. mandatoryWire wr = mandatoryRule r) (gs_Rules (gp_Spec doc)) (p_Rules p)"
    using out(8) by (rule list.rel_mono_strong) (use out(7) converted_mandatory_rule ruleShape_def in auto)
  then show "hasMandatoryRouting p \<longleftrightarrow> mandatoryDoc doc"
    unfolding hasMandatoryRouting_def mandatoryDoc_def by (induction rule: list_all2_induct) auto
qed

section \<open>The pending rejections\<close>

definition pendingSubjects :: "(string, PolicySubject list) mapping \<Rightarrow> string \<Rightarrow> PolicySubject set" where
  "pendingSubjects m n = (case Mapping.lookup m n of None \<Rightarrow> {} | Some subs \<Rightarrow> set subs)"

definition mandatorySubjects :: "string \<Rightarrow> Policy list \<Rightarrow> PolicySubject set" where
  "mandatorySubjects n ps = p_Subject ` {p \<in> set ps. p_Name p = n \<and> hasMandatoryRouting p}"

lemma pendingSubjects_delete [simp]:
  "pendingSubjects (Mapping.delete k m) n = (if n = k then {} else pendingSubjects m n)"
  by (simp add: pendingSubjects_def)

lemma set_addSubject [simp]: "set (addSubject s subs) = insert s (set subs)"
  by (auto simp: addSubject_def)

lemma set_addMandatory: "set (fold (addMandatory n) ps subs) = set subs \<union> mandatorySubjects n ps"
  by (induction ps arbitrary: subs) (auto simp: addMandatory_def mandatorySubjects_def)

lemma remembered_subjects:
  "pendingSubjects (rememberRejection previous accepted doc pending) n =
     (if n = docName doc
      then pendingSubjects pending n \<union> (if mandatoryDoc doc then {docSubject doc} else {})
        \<union> mandatorySubjects n previous \<union> mandatorySubjects n accepted
      else pendingSubjects pending n)"
proof -
  define s0 where "s0 = (case Mapping.lookup pending (docName doc) of None \<Rightarrow> [] | Some subs \<Rightarrow> subs)"
  define s1 where "s1 = (if mandatoryDoc doc then addSubject (docSubject doc) s0 else s0)"
  define s3 where "s3 = fold (addMandatory (docName doc)) accepted (fold (addMandatory (docName doc)) previous s1)"
  have eq: "rememberRejection previous accepted doc pending =
      (if s3 \<noteq> [] then Mapping.update (docName doc) s3 pending else pending)"
    by (simp add: rememberRejection_def s0_def s1_def s3_def Let_def)
  have s0: "set s0 = pendingSubjects pending (docName doc)"
    by (simp add: s0_def pendingSubjects_def split: option.splits)
  have "set s3 = pendingSubjects pending (docName doc) \<union> (if mandatoryDoc doc then {docSubject doc} else {})
      \<union> mandatorySubjects (docName doc) previous \<union> mandatorySubjects (docName doc) accepted"
    by (auto simp: s3_def s1_def s0 set_addMandatory)
  then show ?thesis
    by (cases "s3 = []") (auto simp: eq pendingSubjects_def lookup_update')
qed

section \<open>The loop over a distribution\<close>

abbreviation named :: "string \<Rightarrow> GovernancePolicy list \<Rightarrow> GovernancePolicy list" where
  "named n docs \<equiv> filter (\<lambda>d. docName d = n) docs"

text \<open>A name is settled by a distribution that carries one document of that name, which is accepted.\<close>

definition settledName :: "PolicyStore \<Rightarrow> GovernancePolicy list \<Rightarrow> string \<Rightarrow> bool" where
  "settledName s docs n \<longleftrightarrow> n \<noteq> [] \<and> (\<exists>d p. named n docs = [d] \<and> enforceDoc s d = Inr p)"

definition acceptedPolicy :: "PolicyStore \<Rightarrow> GovernancePolicy list \<Rightarrow> Policy \<Rightarrow> bool" where
  "acceptedPolicy s docs p \<longleftrightarrow>
     p_Name p \<noteq> [] \<and> (\<exists>d. List.find (\<lambda>d. docName d = p_Name p) docs = Some d \<and> enforceDoc s d = Inr p)"

text \<open>The subjects a rejection under a name concerns: those of its documents and of the policies it replaced.\<close>

definition concerned :: "PolicyStore \<Rightarrow> GovernancePolicy list \<Rightarrow> string \<Rightarrow> PolicySubject set" where
  "concerned s docs n =
     docSubject ` {d \<in> set docs. docName d = n \<and> mandatoryDoc d} \<union> mandatorySubjects n (previousPolicies s)"

definition pendingAfter :: "PolicyStore \<Rightarrow> GovernancePolicy list \<Rightarrow> GovernancePolicy list \<Rightarrow> string \<Rightarrow> PolicySubject set" where
  "pendingAfter s docs pre n =
     (if named n pre = [] then pendingSubjects (previousPending s) n
      else if settledName s pre n then if length (named n docs) = 1 then {} else pendingSubjects (previousPending s) n
      else pendingSubjects (previousPending s) n \<union> concerned s pre n)"

definition loopInv :: "PolicyStore \<Rightarrow> GovernancePolicy list \<Rightarrow> GovernancePolicy list \<Rightarrow> ApplyState \<Rightarrow> bool" where
  "loopInv s docs pre st \<longleftrightarrow>
     ap_seen st = docName ` set pre - {[]} \<and>
     (\<forall>p. p \<in> set (ap_accepted st) \<longleftrightarrow> acceptedPolicy s pre p) \<and>
     distinct (map p_Name (ap_accepted st)) \<and>
     length (ap_accepted st) + length (ap_rejected st) = length pre \<and>
     (\<forall>n. n \<in> rj_Policy ` set (ap_rejected st) \<longleftrightarrow> named n pre \<noteq> [] \<and> \<not> settledName s pre n) \<and>
     (\<forall>n. pendingSubjects (ap_pending st) n = pendingAfter s docs pre n)"

lemma enforced_identity:
  assumes "enforceDoc s d = Inr p"
  shows "p_Name p = docName d" "p_Subject p = docSubject d" "hasMandatoryRouting p \<longleftrightarrow> mandatoryDoc d" "wfPolicy p"
    and "checkEnforceable p (po_routedAndPriced s) (po_sharedEnforcement s) = None"
  using assms by (auto simp: enforceDoc_def converted_identity conversion_wf split: sum.splits option.splits)

lemma find_snoc: "List.find P (xs @ [x]) = (case List.find P xs of Some y \<Rightarrow> Some y | None \<Rightarrow> if P x then Some x else None)"
  by (induction xs) auto

lemma find_named: "List.find (\<lambda>d. docName d = n) docs = (case named n docs of [] \<Rightarrow> None | d # _ \<Rightarrow> Some d)"
  by (induction docs) auto

lemma accepted_snoc:
  "acceptedPolicy s (pre @ [d]) p \<longleftrightarrow>
     acceptedPolicy s pre p \<or> (docName d \<noteq> [] \<and> named (docName d) pre = [] \<and> enforceDoc s d = Inr p)"
  by (auto simp: acceptedPolicy_def find_named enforced_identity split: list.splits)

lemma mandatory_accepted:
  assumes "\<forall>p. p \<in> set ps \<longleftrightarrow> acceptedPolicy s pre p"
  shows "mandatorySubjects n ps \<subseteq> docSubject ` {d \<in> set pre. docName d = n \<and> mandatoryDoc d}"
proof
  fix sub
  assume "sub \<in> mandatorySubjects n ps"
  then obtain p where p: "sub = p_Subject p" "p_Name p = n" "hasMandatoryRouting p" "acceptedPolicy s pre p"
    using assms by (auto simp: mandatorySubjects_def)
  then obtain d where "d \<in> set pre" "enforceDoc s d = Inr p"
    by (auto simp: acceptedPolicy_def find_Some_iff dest: nth_mem)
  then show "sub \<in> docSubject ` {d \<in> set pre. docName d = n \<and> mandatoryDoc d}"
    using p enforced_identity [of s d p] by auto
qed

lemma settled_snoc:
  "settledName s (pre @ [d]) n \<longleftrightarrow>
     (if n = docName d then n \<noteq> [] \<and> named n pre = [] \<and> (\<exists>p. enforceDoc s d = Inr p) else settledName s pre n)"
  by (auto simp: settledName_def)

lemma concerned_snoc:
  "concerned s (pre @ [d]) n = (if n = docName d \<and> mandatoryDoc d then insert (docSubject d) (concerned s pre n) else concerned s pre n)"
  by (auto simp: concerned_def)

lemma settled_accepted:
  assumes "\<forall>p. p \<in> set ps \<longleftrightarrow> acceptedPolicy s pre p" and "settledName s pre n"
  shows "docSubject ` {d \<in> set pre. docName d = n \<and> mandatoryDoc d} \<subseteq> mandatorySubjects n ps"
proof -
  obtain d p where d: "n \<noteq> []" "named n pre = [d]" "enforceDoc s d = Inr p"
    using assms(2) by (auto simp: settledName_def)
  then have "d \<in> set (named n pre)" by (simp only: list.set) simp
  then have dn: "docName d = n" by simp
  then have "acceptedPolicy s pre p"
    using d by (simp add: acceptedPolicy_def find_named enforced_identity)
  with assms(1) have mem: "p \<in> set ps" by blast
  have only: "d' = d" if "d' \<in> set pre" "docName d' = n" for d'
  proof -
    have "d' \<in> set (named n pre)" using that by simp
    then show ?thesis by (simp only: d(2)) simp
  qed
  show ?thesis
  proof
    fix sub
    assume "sub \<in> docSubject ` {d \<in> set pre. docName d = n \<and> mandatoryDoc d}"
    then have "mandatoryDoc d" "sub = docSubject d" using only by auto
    then show "sub \<in> mandatorySubjects n ps"
      using mem dn enforced_identity(1-3) [OF d(3)] by (auto simp: mandatorySubjects_def intro: image_eqI [of _ _ p])
  qed
qed

text \<open>A refusal adds exactly the subjects its document and the policies of its name concern.\<close>

lemma refused_pending:
  assumes "loopInv s docs pre st" and "docs = pre @ d # suf" and "\<not> settledName s (pre @ [d]) (docName d)"
    and "docName d = [] \<or> docName d \<in> ap_seen st \<or> named (docName d) pre = []"
  shows "pendingSubjects (rememberRejection (previousPolicies s) (ap_accepted st) d (ap_pending st)) n =
    pendingAfter s docs (pre @ [d]) n"
proof (cases "n = docName d")
  case False
  then show ?thesis
    using assms(1) by (simp add: remembered_subjects loopInv_def pendingAfter_def settled_snoc concerned_snoc)
next
  case True
  have acc: "\<forall>p. p \<in> set (ap_accepted st) \<longleftrightarrow> acceptedPolicy s pre p" using assms(1) by (simp add: loopInv_def)
  have now: "pendingSubjects (ap_pending st) n = pendingAfter s docs pre n" using assms(1) by (simp add: loopInv_def)
  note sub = mandatory_accepted [OF acc, of n]
  have goal: "pendingAfter s docs (pre @ [d]) n = pendingSubjects (previousPending s) n \<union> concerned s (pre @ [d]) n"
    using True assms(3) by (simp add: pendingAfter_def)
  consider "named n pre = []" | "named n pre \<noteq> []" "settledName s pre n" | "named n pre \<noteq> []" "\<not> settledName s pre n"
    by blast
  then show ?thesis
  proof cases
    case 1
    then have "docSubject ` {d \<in> set pre. docName d = n \<and> mandatoryDoc d} = {}" by (auto simp: filter_empty_conv)
    then show ?thesis
      using 1 sub True now unfolding goal by (auto simp: remembered_subjects pendingAfter_def concerned_def)
  next
    case 2
    then have "length (named n docs) \<noteq> 1" using True assms(2) by simp
    then show ?thesis
      using 2 sub settled_accepted [OF acc 2(2)] True now unfolding goal
      by (auto simp: remembered_subjects pendingAfter_def concerned_def)
  next
    case 3
    then show ?thesis
      using sub True now unfolding goal by (auto simp: remembered_subjects pendingAfter_def concerned_def)
  qed
qed

lemma refused_step:
  assumes inv: "loopInv s docs pre st" and split: "docs = pre @ d # suf"
    and refused: "\<not> settledName s (pre @ [d]) (docName d)"
    and seen: "docName d = [] \<or> docName d \<in> ap_seen st \<or> named (docName d) pre = []"
    and early: "named (docName d) pre = [] \<longrightarrow> docName d = [] \<or> (\<forall>p. enforceDoc s d \<noteq> Inr p)"
    and names: "S = docName ` set (pre @ [d]) - {[]}" and rej: "rj_Policy r = docName d"
  shows "loopInv s docs (pre @ [d]) (st\<lparr>ap_seen := S, ap_rejected := ap_rejected st @ [r],
      ap_pending := rememberRejection (previousPolicies s) (ap_accepted st) d (ap_pending st)\<rparr>)"
proof -
  have acc: "acceptedPolicy s (pre @ [d]) p \<longleftrightarrow> acceptedPolicy s pre p" for p
    using early by (auto simp: accepted_snoc)
  have rejs: "n \<in> rj_Policy ` set (ap_rejected st @ [r]) \<longleftrightarrow> named n (pre @ [d]) \<noteq> [] \<and> \<not> settledName s (pre @ [d]) n" for n
    using inv refused rej by (cases "n = docName d") (simp_all add: loopInv_def settled_snoc)
  show ?thesis
    using inv names refused_pending [OF inv split refused seen] rejs acc
    unfolding loopInv_def by simp
qed

lemma apply_step:
  assumes inv: "loopInv s docs pre st" and split: "docs = pre @ d # suf"
  shows "loopInv s docs (pre @ [d]) (applyDoc s (previousPolicies s) docs d st)"
proof -
  have seen: "ap_seen st = docName ` set pre - {[]}" using inv by (simp add: loopInv_def)
  have fresh: "docName d \<noteq> [] \<and> docName d \<notin> ap_seen st \<longleftrightarrow> docName d \<noteq> [] \<and> named (docName d) pre = []"
    by (auto simp: seen filter_empty_conv image_iff)
  consider (dup) "docName d = [] \<or> docName d \<in> ap_seen st"
    | (bad) e where "docName d \<noteq> []" "docName d \<notin> ap_seen st" "enforceDoc s d = Inl e"
    | (ok) p where "docName d \<noteq> []" "docName d \<notin> ap_seen st" "enforceDoc s d = Inr p"
    by (cases "enforceDoc s d") auto
  then show ?thesis
  proof cases
    case dup
    have "applyDoc s (previousPolicies s) docs d st = st\<lparr>ap_seen := ap_seen st,
        ap_rejected := ap_rejected st @ [\<lparr>rj_Policy = docName d, rj_Rule = [], rj_Reason = NameMissingOrDuplicate\<rparr>],
        ap_pending := rememberRejection (previousPolicies s) (ap_accepted st) d (ap_pending st)\<rparr>"
      using dup by (simp add: applyDoc_def Let_def)
    moreover have "ap_seen st = docName ` set (pre @ [d]) - {[]}" using dup by (auto simp: seen)
    moreover have "\<not> settledName s (pre @ [d]) (docName d)"
      using dup fresh by (auto simp: settled_snoc)
    moreover have "named (docName d) pre = [] \<longrightarrow> docName d = [] \<or> (\<forall>p. enforceDoc s d \<noteq> Inr p)"
      using dup fresh by blast
    ultimately show ?thesis using refused_step [OF inv split] dup by simp
  next
    case bad
    have "applyDoc s (previousPolicies s) docs d st = st\<lparr>ap_seen := insert (docName d) (ap_seen st),
        ap_rejected := ap_rejected st @ [\<lparr>rj_Policy = docName d, rj_Rule = ue_Rule e, rj_Reason = ue_Reason e\<rparr>],
        ap_pending := rememberRejection (previousPolicies s) (ap_accepted st) d (ap_pending st)\<rparr>"
      using bad by (simp add: applyDoc_def Let_def)
    moreover have "insert (docName d) (ap_seen st) = docName ` set (pre @ [d]) - {[]}" using bad by (auto simp: seen)
    moreover have "\<not> settledName s (pre @ [d]) (docName d)" using bad by (simp add: settled_snoc)
    ultimately show ?thesis using refused_step [OF inv split] bad fresh by simp
  next
    case ok
    have none: "named (docName d) pre = []" using ok fresh by blast
    have st: "applyDoc s (previousPolicies s) docs d st = st\<lparr>ap_seen := insert (docName d) (ap_seen st),
        ap_pending := (if length (named (docName d) docs) = 1 then Mapping.delete (docName d) (ap_pending st) else ap_pending st),
        ap_accepted := ap_accepted st @ [p]\<rparr>"
      using ok by (simp add: applyDoc_def Let_def)
    have settled: "settledName s (pre @ [d]) n \<longleftrightarrow> n = docName d \<or> settledName s pre n" for n
      using ok none by (auto simp: settled_snoc settledName_def)
    have pend: "pendingSubjects (ap_pending (applyDoc s (previousPolicies s) docs d st)) n = pendingAfter s docs (pre @ [d]) n" for n
      using inv none by (cases "n = docName d") (auto simp: st loopInv_def pendingAfter_def settled concerned_snoc)
    have "p_Name p \<notin> p_Name ` set (ap_accepted st)"
      using inv none by (auto simp: loopInv_def acceptedPolicy_def find_named enforced_identity [OF ok(3)])
    then show ?thesis
      using inv ok none pend settled unfolding loopInv_def
      by (auto simp: st accepted_snoc)
  qed
qed

lemma apply_loop:
  assumes "docs = pre @ suf"
  shows "loopInv s docs pre (fold (applyDoc s (previousPolicies s) docs) pre
    \<lparr>ap_accepted = [], ap_rejected = [], ap_seen = {}, ap_pending = previousPending s\<rparr>)"
  using assms
proof (induction pre arbitrary: suf rule: rev_induct)
  case Nil
  then show ?case by (simp add: loopInv_def acceptedPolicy_def pendingAfter_def)
next
  case (snoc d pre)
  then show ?case using apply_step [of s docs pre _ d suf] by simp
qed

text \<open>The subjects a store keeps refusing under a name after a distribution.\<close>

definition stillRefused :: "PolicyStore \<Rightarrow> GovernancePolicy list \<Rightarrow> string \<Rightarrow> PolicySubject set" where
  "stillRefused s docs n =
     (if settledName s docs n \<or> n = [] \<and> docs \<noteq> [] \<and> (\<forall>d \<in> set docs. settledName s docs (docName d)) then {}
      else pendingSubjects (previousPending s) n \<union> (if named n docs = [] then {} else concerned s docs n))"

lemma distribution_outcome:
  obtains snap where "po_snap (fst (ApplyWire gen docs s)) = Some snap" "sn_generation snap = gen docs"
    "\<forall>p. p \<in> set (sn_policies snap) \<longleftrightarrow> acceptedPolicy s docs p" "distinct (map p_Name (sn_policies snap))"
    "length (sn_policies snap) + length (snd (ApplyWire gen docs s)) = length docs"
    "\<forall>n. n \<in> rj_Policy ` set (snd (ApplyWire gen docs s)) \<longleftrightarrow> named n docs \<noteq> [] \<and> \<not> settledName s docs n"
    "\<forall>n. pendingSubjects (sn_rejectedRouting snap) n = stillRefused s docs n"
proof -
  define st where "st = fold (applyDoc s (previousPolicies s) docs) docs
    \<lparr>ap_accepted = [], ap_rejected = [], ap_seen = {}, ap_pending = previousPending s\<rparr>"
  have "loopInv s docs docs st" unfolding st_def by (rule apply_loop) simp
  then have acc: "\<forall>p. p \<in> set (ap_accepted st) \<longleftrightarrow> acceptedPolicy s docs p" "distinct (map p_Name (ap_accepted st))"
      "length (ap_accepted st) + length (ap_rejected st) = length docs"
    and rej: "\<And>n. n \<in> rj_Policy ` set (ap_rejected st) \<longleftrightarrow> named n docs \<noteq> [] \<and> \<not> settledName s docs n"
    and pend: "\<And>n. pendingSubjects (ap_pending st) n = pendingAfter s docs docs n"
    by (simp_all add: loopInv_def)
  have clean: "ap_rejected st = [] \<longleftrightarrow> (\<forall>d \<in> set docs. settledName s docs (docName d))"
  proof -
    have "ap_rejected st = [] \<longleftrightarrow> (\<forall>n. n \<notin> rj_Policy ` set (ap_rejected st))" by auto
    then show ?thesis unfolding rej by (auto simp: filter_empty_conv)
  qed
  have facts: "settledName s docs n \<Longrightarrow> length (named n docs) = 1" "\<not> settledName s docs []"
    "settledName s docs n \<Longrightarrow> named n docs \<noteq> []" for n
    by (auto simp: settledName_def)
  have refused: "pendingSubjects (if ap_rejected st = [] \<and> docs \<noteq> [] then Mapping.delete [] (ap_pending st) else ap_pending st) n
    = stillRefused s docs n" for n
    unfolding clean using facts(1) [of n] facts(2) facts(3) [of n] by (auto simp: pend pendingAfter_def stillRefused_def)
  show thesis
    by (rule that, simp add: ApplyWire_def Let_def flip: st_def)
      (use acc rej refused in \<open>simp_all add: ApplyWire_def Let_def flip: st_def\<close>)
qed

lemma remember_finite: "finite (Mapping.keys m) \<Longrightarrow> finite (Mapping.keys (rememberRejection previous accepted doc m))"
  by (simp add: rememberRejection_def Let_def)

lemma apply_finite:
  assumes "finite (Mapping.keys (ap_pending st))"
  shows "finite (Mapping.keys (ap_pending (applyDoc s previous docs d st)))"
  using assms by (auto simp: applyDoc_def Let_def remember_finite split: sum.splits)

lemma fold_apply_finite:
  "finite (Mapping.keys (ap_pending st)) \<Longrightarrow> finite (Mapping.keys (ap_pending (fold (applyDoc s previous docs) ds st)))"
  by (induction ds arbitrary: st) (simp_all add: apply_finite)

lemma pending_finite:
  assumes "po_snap (fst (ApplyWire gen docs s)) = Some snap" and "finite (Mapping.keys (previousPending s))"
  shows "finite (Mapping.keys (sn_rejectedRouting snap))"
  using assms by (auto simp: ApplyWire_def Let_def intro!: fold_apply_finite)

lemma pending_scan:
  assumes "finite (Mapping.keys m)"
  shows "list_ex (\<lambda>n. list_ex P (the (Mapping.lookup m n))) (Mapping.ordered_keys m) \<longleftrightarrow> (\<exists>n. \<exists>sub \<in> pendingSubjects m n. P sub)"
proof -
  have "(\<exists>sub \<in> pendingSubjects m n. P sub) \<longleftrightarrow> n \<in> Mapping.keys m \<and> list_ex P (the (Mapping.lookup m n))" for n
    by (cases "Mapping.lookup m n") (simp_all add: pendingSubjects_def keys_lookup list_ex_iff)
  then show ?thesis using assms by (auto simp: list_ex_iff)
qed

section \<open>The ladder\<close>

text \<open>What a window of merged limits means for the budgets folded into it.\<close>

definition binding :: "PolicyBudget list \<Rightarrow> windowLimit \<Rightarrow> bool" where
  "binding bs w \<longleftrightarrow>
     (case w of (limit, hard, contact) \<Rightarrow>
        if bs = [] then limit = 0 \<and> \<not> hard \<and> contact = []
        else limit = Min (b_LimitMicroUSD ` set bs)
          \<and> (hard \<longleftrightarrow> (\<exists>b \<in> set bs. b_LimitMicroUSD b = limit \<and> b_HardCap b))
          \<and> contact \<in> b_AdminContact ` {b \<in> set bs. b_LimitMicroUSD b = limit})"

definition positive :: "PolicyBudget list \<Rightarrow> bool" where
  "positive bs \<longleftrightarrow> (\<forall>b \<in> set bs. 0 < b_LimitMicroUSD b)"

lemma positive_simps [simp]: "positive []" "positive (b # bs) \<longleftrightarrow> 0 < b_LimitMicroUSD b \<and> positive bs"
  "positive (bs @ cs) \<longleftrightarrow> positive bs \<and> positive cs"
  by (auto simp: positive_def)

lemma binding_Nil [simp]: "binding [] (0, False, [])"
  by (simp add: binding_def)

lemma binding_limit:
  assumes "binding bs w" and "bs \<noteq> []" and "positive bs"
  shows "0 < fst w" and "\<forall>b \<in> set bs. fst w \<le> b_LimitMicroUSD b" and "\<exists>b \<in> set bs. b_LimitMicroUSD b = fst w"
    and "fst (snd w) \<longleftrightarrow> (\<exists>b \<in> set bs. b_LimitMicroUSD b = fst w \<and> b_HardCap b)"
    and "snd (snd w) \<in> b_AdminContact ` {b \<in> set bs. b_LimitMicroUSD b = fst w}"
proof -
  obtain l h c where w: "w = (l, h, c)" by (cases w)
  have l: "l = Min (b_LimitMicroUSD ` set bs)" using assms by (simp add: binding_def w)
  have "Min (b_LimitMicroUSD ` set bs) \<in> b_LimitMicroUSD ` set bs" using assms(2) by (simp add: Min_in)
  then show ex: "\<exists>b \<in> set bs. b_LimitMicroUSD b = fst w" by (auto simp: w l)
  then show "0 < fst w" using assms(3) by (auto simp: positive_def)
  show "\<forall>b \<in> set bs. fst w \<le> b_LimitMicroUSD b" by (simp add: w l)
  note parts = assms(1) [unfolded binding_def w prod.case if_not_P [OF assms(2)]]
  show "fst (snd w) \<longleftrightarrow> (\<exists>b \<in> set bs. b_LimitMicroUSD b = fst w \<and> b_HardCap b)"
    "snd (snd w) \<in> b_AdminContact ` {b \<in> set bs. b_LimitMicroUSD b = fst w}"
    unfolding w fst_conv snd_conv using parts by blast+
qed

lemma bindingI:
  assumes "bs \<noteq> []" and "\<forall>b \<in> set bs. l \<le> b_LimitMicroUSD b" and "\<exists>b \<in> set bs. b_LimitMicroUSD b = l"
    and "h \<longleftrightarrow> (\<exists>b \<in> set bs. b_LimitMicroUSD b = l \<and> b_HardCap b)"
    and "c \<in> b_AdminContact ` {b \<in> set bs. b_LimitMicroUSD b = l}"
  shows "binding bs (l, h, c)"
proof -
  have "Min (b_LimitMicroUSD ` set bs) = l" using assms(2,3) by (auto intro!: Min_eqI)
  then show ?thesis using assms(1,4,5) by (simp add: binding_def)
qed

lemma binding_narrow:
  assumes "binding bs w" and "binding cs w'" and "positive bs" and "positive cs"
  shows "binding (bs @ cs) (narrowWindow w w')"
proof -
  obtain l h c where w: "w = (l, h, c)" by (cases w)
  obtain l' h' c' where w': "w' = (l', h', c')" by (cases w')
  consider "cs = []" | "cs \<noteq> []" "bs = []" | "cs \<noteq> []" "bs \<noteq> []" by blast
  then show ?thesis
  proof cases
    case 1
    then show ?thesis using assms(1,2) by (simp add: narrowWindow_def w' binding_def)
  next
    case 2
    then have "narrowWindow w w' = w'"
      using assms(1) binding_limit(1) [OF assms(2) 2(1) assms(4)]
      by (simp add: narrowWindow_def ladder_def w w' binding_def)
    then show ?thesis using assms(2) 2 by simp
  next
    case 3
    note b = binding_limit [OF assms(1) 3(2) assms(3), unfolded w fst_conv snd_conv]
    note c = binding_limit [OF assms(2) 3(1) assms(4), unfolded w' fst_conv snd_conv]
    have low: "\<forall>b \<in> set bs. b_LimitMicroUSD b \<noteq> l'" if "l' < l" using b(2) that by force
    have high: "\<forall>b \<in> set cs. b_LimitMicroUSD b \<noteq> l" if "l < l'" using c(2) that by force
    consider "l' < l" | "l' = l" | "l < l'" by linarith
    then show ?thesis
    proof cases
      case 1
      then have "narrowWindow w w' = (l', h', c')" using c(1) by (simp add: narrowWindow_def ladder_def w w')
      moreover have "binding (bs @ cs) (l', h', c')"
        by (rule bindingI) (use 1 3 b(2) c low [OF 1] in auto)
      ultimately show ?thesis by simp
    next
      case 2
      have "binding (bs @ cs) (l, h \<or> h', if h' \<and> c = [] then c' else c)"
        by (rule bindingI) (use 2 3 b c in auto)
      moreover have "narrowWindow w w' = (l, h \<or> h', if h' \<and> c = [] then c' else c)"
        using 2 b(1) by (auto simp: narrowWindow_def ladder_def w w')
      ultimately show ?thesis by simp
    next
      case 3
      then have "narrowWindow w w' = (l, h, c)" using b(1) by (auto simp: narrowWindow_def ladder_def w w')
      moreover have "binding (bs @ cs) (l, h, c)"
        by (rule bindingI) (use 3 \<open>bs \<noteq> []\<close> b c(2) high [OF 3] in auto)
      ultimately show ?thesis by simp
    qed
  qed
qed

lemma binding_one: "0 < b_LimitMicroUSD b \<Longrightarrow> binding [b] (budgetWindow b)"
  by (simp add: binding_def budgetWindow_def)

lemma binding_ladder:
  assumes "binding bs w" and "positive bs" and "0 < b_LimitMicroUSD b"
  shows "binding (bs @ [b]) (ladder w (budgetWindow b))"
  using binding_narrow [OF assms(1) binding_one [OF assms(3)]] assms by (simp add: narrowWindow_def budgetWindow_def)

section \<open>The limits of a team\<close>

definition leastNonZero :: "int list \<Rightarrow> int" where
  "leastNonZero xs = (let ys = filter (\<lambda>x. x \<noteq> 0) xs in if ys = [] then 0 else Min (set ys))"

lemma leastNonZero_Nil [simp]: "leastNonZero [] = 0"
  by (simp add: leastNonZero_def)

lemma minNonZero_snoc: "minNonZero (leastNonZero xs) x = leastNonZero (xs @ [x])"
proof (cases "filter (\<lambda>x. x \<noteq> 0) xs = []")
  case True
  then show ?thesis by (simp add: leastNonZero_def minNonZero_def)
next
  case False
  define ys where "ys = filter (\<lambda>x. x \<noteq> 0) xs"
  have ys: "ys \<noteq> []" "0 \<notin> set ys" using False by (auto simp: ys_def)
  then have "Min (set ys) \<noteq> 0" by (metis Min_in List.finite_set set_empty)
  moreover have "leastNonZero xs = Min (set ys)" using ys(1) by (simp add: leastNonZero_def flip: ys_def)
  moreover have "leastNonZero (xs @ [x]) = (if x = 0 then Min (set ys) else min x (Min (set ys)))"
    using ys(1) by (simp add: leastNonZero_def Let_def flip: ys_def)
  ultimately show ?thesis by (simp add: minNonZero_def min_def)
qed

text \<open>
  Both merges fold the rules of the policies that share a key into one entry of a map, and
  create the entry only when some rule counted. The interface states one policy's step; the
  entry a key ends up with is the fold of all its rules.
\<close>

definition keyedRules :: "(Policy \<Rightarrow> 'k option) \<Rightarrow> Policy list \<Rightarrow> 'k \<Rightarrow> (Policy \<times> Rule) list" where
  "keyedRules key ps k = concat (map (\<lambda>p. map (Pair p) (p_Rules p)) (filter (\<lambda>p. key p = Some k) ps))"

definition entryOf :: "'a \<Rightarrow> 'a option \<Rightarrow> 'a \<times> bool" where
  "entryOf none e = (case e of None \<Rightarrow> (none, False) | Some x \<Rightarrow> (x, True))"

lemma keyedRules_simps [simp]:
  "keyedRules key [] k = []"
  "keyedRules key (p # ps) k = (if key p = Some k then map (Pair p) (p_Rules p) @ keyedRules key ps k else keyedRules key ps k)"
  by (simp_all add: keyedRules_def)

locale subject_merge =
  fixes step :: "Policy \<Rightarrow> Rule \<Rightarrow> 'a \<times> bool \<Rightarrow> 'a \<times> bool"
    and counts :: "Rule \<Rightarrow> bool"
    and key :: "Policy \<Rightarrow> 'k option"
    and none :: 'a
    and merge1 :: "Policy \<Rightarrow> ('k, 'a) mapping \<Rightarrow> ('k, 'a) mapping"
  assumes step_counts: "snd (step p r st) \<longleftrightarrow> snd st \<or> counts r"
    and step_idle: "\<not> counts r \<Longrightarrow> step p r st = st"
    and merge1_eq: "merge1 p out =
      (case key p of
         None \<Rightarrow> out
       | Some k \<Rightarrow>
           (let st = fold (step p) (p_Rules p) (entryOf none (Mapping.lookup out k))
            in if snd st then Mapping.update k (fst st) out else out))"
begin

lemma fold_counts: "snd (fold (\<lambda>(p, r). step p r) prs st) \<longleftrightarrow> snd st \<or> (\<exists>(p, r) \<in> set prs. counts r)"
  by (induction prs arbitrary: st) (auto simp: step_counts)

lemma fold_idle: "\<forall>(p, r) \<in> set prs. \<not> counts r \<Longrightarrow> fold (\<lambda>(p, r). step p r) prs st = st"
  by (induction prs arbitrary: st) (auto simp: step_idle)

lemma fold_pairs: "fold (step p) rs st = fold (\<lambda>(p, r). step p r) (map (Pair p) rs) st"
  by (induction rs arbitrary: st) auto

lemma merge1_entry:
  "entryOf none (Mapping.lookup (merge1 p out) k) =
     fold (\<lambda>(p, r). step p r) (keyedRules key [p] k) (entryOf none (Mapping.lookup out k))"
proof (cases "key p = Some k")
  case False
  then show ?thesis by (auto simp: merge1_eq Let_def lookup_update' split: option.splits)
next
  case True
  let ?e = "entryOf none (Mapping.lookup out k)"
  define st where "st = fold (\<lambda>(p, r). step p r) (map (Pair p) (p_Rules p)) ?e"
  have eq: "merge1 p out = (if snd st then Mapping.update k (fst st) out else out)"
    using True by (simp add: merge1_eq Let_def fold_pairs st_def)
  have "st = ?e" if "\<not> snd st"
    using that fold_counts [of "map (Pair p) (p_Rules p)" ?e] fold_idle [of "map (Pair p) (p_Rules p)" ?e]
    by (auto simp: st_def)
  moreover have "snd st \<Longrightarrow> entryOf none (Some (fst st)) = st" by (cases st) (simp add: entryOf_def)
  ultimately show ?thesis using True by (auto simp: eq simp flip: st_def)
qed

lemma merge_entry:
  "entryOf none (Mapping.lookup (fold merge1 ps out) k) =
     fold (\<lambda>(p, r). step p r) (keyedRules key ps k) (entryOf none (Mapping.lookup out k))"
proof (induction ps arbitrary: out)
  case Nil
  then show ?case by simp
next
  case (Cons p ps)
  then show ?case using merge1_entry [of p out k] by (simp split: if_splits)
qed

lemma merged:
  "Mapping.lookup (fold merge1 ps Mapping.empty) k =
     (if \<exists>(p, r) \<in> set (keyedRules key ps k). counts r
      then Some (fst (fold (\<lambda>(p, r). step p r) (keyedRules key ps k) (none, False))) else None)"
proof -
  define st where "st = fold (\<lambda>(p, r). step p r) (keyedRules key ps k) (none, False)"
  have entry: "entryOf none (Mapping.lookup (fold merge1 ps Mapping.empty) k) = st"
    using merge_entry [of ps Mapping.empty k] by (simp add: st_def entryOf_def)
  have "snd st \<longleftrightarrow> (\<exists>(p, r) \<in> set (keyedRules key ps k). counts r)" by (simp add: st_def fold_counts)
  then show ?thesis
    using entry by (cases "Mapping.lookup (fold merge1 ps Mapping.empty) k") (auto simp: entryOf_def simp flip: st_def)
qed

end

definition teamKey :: "Policy \<Rightarrow> string option" where
  "teamKey p = (if ps_Team (p_Subject p) = [] \<or> ps_User (p_Subject p) \<noteq> [] then None else Some (ps_Team (p_Subject p)))"

definition teamCounts :: "Rule \<Rightarrow> bool" where
  "teamCounts r \<longleftrightarrow> r_Rate r \<noteq> None \<or> r_Budget r \<noteq> None"

interpretation team: subject_merge teamRule teamCounts teamKey noTeamLimits teamPolicy
proof unfold_locales
  show "snd (teamRule p r st) \<longleftrightarrow> snd st \<or> teamCounts r" for p r st
    by (auto simp: teamRule_def teamCounts_def split: prod.splits option.splits)
  show "\<not> teamCounts r \<Longrightarrow> teamRule p r st = st" for p r st
    by (auto simp: teamRule_def teamCounts_def split: prod.splits option.splits)
  show "teamPolicy p out = (case teamKey p of None \<Rightarrow> out
      | Some k \<Rightarrow> (let st = fold (teamRule p) (p_Rules p) (entryOf noTeamLimits (Mapping.lookup out k))
                  in if snd st then Mapping.update k (fst st) out else out))" for p out
    by (simp add: teamPolicy_def teamKey_def Let_def case_prod_beta flip: entryOf_def)
qed

definition userKeyOf :: "Policy \<Rightarrow> userKey option" where
  "userKeyOf p = (if ps_User (p_Subject p) = [] then None else Some (ps_Team (p_Subject p), ps_User (p_Subject p)))"

definition userCounts :: "Rule \<Rightarrow> bool" where
  "userCounts r \<longleftrightarrow> r_Budget r \<noteq> None"

interpretation user: subject_merge "\<lambda>p. userRule" userCounts userKeyOf noUserLimits userPolicy
proof unfold_locales
  show "snd (userRule r st) \<longleftrightarrow> snd st \<or> userCounts r" for r st
    by (auto simp: userRule_def userCounts_def split: option.splits)
  show "\<not> userCounts r \<Longrightarrow> userRule r st = st" for r st
    by (auto simp: userRule_def userCounts_def split: option.splits)
  show "userPolicy p out = (case userKeyOf p of None \<Rightarrow> out
      | Some k \<Rightarrow> (let st = fold userRule (p_Rules p) (entryOf noUserLimits (Mapping.lookup out k))
                  in if snd st then Mapping.update k (fst st) out else out))" for p out
    by (simp add: userPolicy_def userKeyOf_def Let_def case_prod_beta flip: entryOf_def)
qed

definition admissionBudgets :: "string \<Rightarrow> (Policy \<times> Rule) list \<Rightarrow> PolicyBudget list" where
  "admissionBudgets period prs =
     concat (map (\<lambda>(p, r). case r_Budget r of
         None \<Rightarrow> []
       | Some b \<Rightarrow> if IsRoutingOnlyBudget (Some p) (r_Name r) \<or> b_Unlimited b \<or> b_Period b \<noteq> period then [] else [b]) prs)"

definition routingLimits :: "string \<Rightarrow> (Policy \<times> Rule) list \<Rightarrow> int list" where
  "routingLimits period prs =
     concat (map (\<lambda>(p, r). case r_Budget r of
         None \<Rightarrow> []
       | Some b \<Rightarrow> if IsRoutingOnlyBudget (Some p) (r_Name r) \<and> b_Period b = period then [b_LimitMicroUSD b] else []) prs)"

definition rateLimits :: "(PolicyRate \<Rightarrow> int) \<Rightarrow> (Policy \<times> Rule) list \<Rightarrow> int list" where
  "rateLimits f prs = concat (map (\<lambda>(p, r). case r_Rate r of None \<Rightarrow> [] | Some rate \<Rightarrow> [f rate]) prs)"

definition boundTeam :: "(Policy \<times> Rule) list \<Rightarrow> TeamLimits \<Rightarrow> bool" where
  "boundTeam prs lm \<longleftrightarrow>
     binding (admissionBudgets PeriodCalendarMonth prs) (teamMonth lm) \<and>
     binding (admissionBudgets PeriodCalendarDay prs) (teamDay lm) \<and>
     tl_RoutingBudgetMicrosPerMonth lm = leastNonZero (routingLimits PeriodCalendarMonth prs) \<and>
     tl_RoutingBudgetMicrosPerDay lm = leastNonZero (routingLimits PeriodCalendarDay prs) \<and>
     tl_RPM lm = leastNonZero (rateLimits pr_RPM prs) \<and> tl_TPM lm = leastNonZero (rateLimits pr_TPM prs)"

lemma teamBudget_windows:
  "teamMonth (teamBudget routing b lm) =
     (if routing \<or> b_Unlimited b \<or> b_Period b = PeriodCalendarDay then teamMonth lm else ladder (teamMonth lm) (budgetWindow b))"
  "teamDay (teamBudget routing b lm) =
     (if routing \<or> b_Unlimited b \<or> b_Period b \<noteq> PeriodCalendarDay then teamDay lm else ladder (teamDay lm) (budgetWindow b))"
  "tl_RoutingBudgetMicrosPerMonth (teamBudget routing b lm) =
     (if routing \<and> b_Period b \<noteq> PeriodCalendarDay then minNonZero (tl_RoutingBudgetMicrosPerMonth lm) (b_LimitMicroUSD b)
      else tl_RoutingBudgetMicrosPerMonth lm)"
  "tl_RoutingBudgetMicrosPerDay (teamBudget routing b lm) =
     (if routing \<and> b_Period b = PeriodCalendarDay then minNonZero (tl_RoutingBudgetMicrosPerDay lm) (b_LimitMicroUSD b)
      else tl_RoutingBudgetMicrosPerDay lm)"
  "tl_RPM (teamBudget routing b lm) = tl_RPM lm" "tl_TPM (teamBudget routing b lm) = tl_TPM lm"
  by (simp_all add: teamBudget_def teamMonth_def teamDay_def split: prod.splits)

lemma team_rule_bound:
  assumes "boundTeam prs lm" and "wfRule q r" and "positive (admissionBudgets PeriodCalendarMonth prs)"
    and "positive (admissionBudgets PeriodCalendarDay prs)"
  shows "boundTeam (prs @ [(p, r)]) (fst (teamRule p r (lm, c)))"
proof -
  have kinds: "r_Rate r = None \<or> r_Budget r = None" using assms(2) by (auto simp: wfRule_def split: if_splits)
  consider "r_Rate r = None" "r_Budget r = None" | rate where "r_Rate r = Some rate" "r_Budget r = None"
    | b where "r_Rate r = None" "r_Budget r = Some b"
    using kinds by (cases "r_Rate r"; cases "r_Budget r") auto
  then show ?thesis
  proof cases
    case 1
    then show ?thesis using assms(1)
      by (simp add: boundTeam_def teamRule_def admissionBudgets_def routingLimits_def rateLimits_def)
  next
    case (2 rate)
    then show ?thesis using assms(1)
      by (simp add: boundTeam_def teamRule_def admissionBudgets_def routingLimits_def rateLimits_def teamMonth_def teamDay_def
          minNonZero_snoc)
  next
    case (3 b)
    then have wf: "wfBudget (r_FailurePolicy r) b" using assms(2) by (simp add: wfRule_def)
    have days: "PeriodCalendarDay \<noteq> PeriodCalendarMonth" by (simp add: PeriodCalendarDay_def PeriodCalendarMonth_def)
    have lists: "admissionBudgets period (prs @ [(p, r)]) = admissionBudgets period prs @
        (if IsRoutingOnlyBudget (Some p) (r_Name r) \<or> b_Unlimited b \<or> b_Period b \<noteq> period then [] else [b])"
      "routingLimits period (prs @ [(p, r)]) = routingLimits period prs @
        (if IsRoutingOnlyBudget (Some p) (r_Name r) \<and> b_Period b = period then [b_LimitMicroUSD b] else [])"
      "rateLimits f (prs @ [(p, r)]) = rateLimits f prs" for period f
      using 3 by (simp_all add: admissionBudgets_def routingLimits_def rateLimits_def)
    have new: "fst (teamRule p r (lm, c)) = teamBudget (IsRoutingOnlyBudget (Some p) (r_Name r)) b lm"
      using 3 by (simp add: teamRule_def)
    have pos: "\<not> b_Unlimited b \<Longrightarrow> 0 < b_LimitMicroUSD b" using wf by (simp add: wfBudget_def)
    have period: "b_Period b = PeriodCalendarDay \<or> b_Period b = PeriodCalendarMonth" using wf by (simp add: wfBudget_def)
    show ?thesis
      using assms(1) period days binding_ladder [OF _ assms(3) pos] binding_ladder [OF _ assms(4) pos]
      unfolding boundTeam_def new lists by (auto simp: teamBudget_windows minNonZero_snoc)
  qed
qed

lemma admission_positive:
  assumes "\<forall>(p, r) \<in> set prs. \<exists>q. wfRule q r"
  shows "positive (admissionBudgets period prs)"
proof -
  have "0 < b_LimitMicroUSD b" if "(p, r) \<in> set prs" "r_Budget r = Some b" "\<not> b_Unlimited b" for p r b
    using assms that by (auto simp: wfRule_def wfBudget_def)
  then show ?thesis by (auto simp: positive_def admissionBudgets_def split: option.splits if_splits)
qed

lemma team_bound:
  assumes "\<forall>(p, r) \<in> set prs. \<exists>q. wfRule q r"
  shows "boundTeam prs (fst (fold (\<lambda>(p, r). teamRule p r) prs (noTeamLimits, False)))"
  using assms
proof (induction prs rule: rev_induct)
  case Nil
  then show ?case
    by (simp add: boundTeam_def noTeamLimits_def teamMonth_def teamDay_def admissionBudgets_def routingLimits_def rateLimits_def)
next
  case (snoc pr prs)
  obtain p r where pr: "pr = (p, r)" by (cases pr)
  obtain q where "wfRule q r" using snoc.prems by (auto simp: pr)
  moreover have "boundTeam prs (fst (fold (\<lambda>(p, r). teamRule p r) prs (noTeamLimits, False)))"
    using snoc by simp
  ultimately show ?case
    using team_rule_bound admission_positive [of prs] snoc.prems
    by (cases "fold (\<lambda>(p, r). teamRule p r) prs (noTeamLimits, False)") (simp add: pr)
qed

section \<open>The limits of a user\<close>

definition userBudgets :: "string \<Rightarrow> (Policy \<times> Rule) list \<Rightarrow> PolicyBudget list" where
  "userBudgets period prs =
     concat (map (\<lambda>(p, r). case r_Budget r of
         None \<Rightarrow> []
       | Some b \<Rightarrow> if b_Unlimited b \<or> b_Period b \<noteq> period then [] else [b]) prs)"

definition boundUser :: "(Policy \<times> Rule) list \<Rightarrow> UserLimits \<Rightarrow> bool" where
  "boundUser prs u \<longleftrightarrow>
     binding (userBudgets PeriodCalendarMonth prs) (userMonth u) \<and> binding (userBudgets PeriodCalendarDay prs) (userDay u)"

text \<open>The rules a user is subject to: those of a policy for the user, in this team or in any.\<close>

definition matchingRules :: "Policy list \<Rightarrow> string \<Rightarrow> string \<Rightarrow> (Policy \<times> Rule) list" where
  "matchingRules ps team user =
     concat (map (\<lambda>p. map (Pair p) (p_Rules p))
       (filter (\<lambda>p. ps_User (p_Subject p) \<noteq> [] \<and> subjectMatches (p_Subject p) team user) ps))"

lemma binding_set: "set bs = set cs \<Longrightarrow> binding bs w \<longleftrightarrow> binding cs w"
  by (cases "bs = []"; cases "cs = []") (auto simp: binding_def)

lemma userBudgets_set:
  "set (userBudgets period prs) =
     {b. \<exists>(p, r) \<in> set prs. r_Budget r = Some b \<and> \<not> b_Unlimited b \<and> b_Period b = period}"
  by (auto simp: userBudgets_def split: option.splits if_splits) force+

lemma boundUser_set: "set prs = set prs' \<Longrightarrow> boundUser prs u \<longleftrightarrow> boundUser prs' u"
  unfolding boundUser_def by (intro arg_cong2 [where f = "(\<and>)"] binding_set) (simp_all add: userBudgets_set)

lemma userBudgets_append [simp]: "userBudgets period (prs @ prs') = userBudgets period prs @ userBudgets period prs'"
  by (simp add: userBudgets_def)

lemma userBudgets_positive:
  assumes "\<forall>(p, r) \<in> set prs. \<exists>q. wfRule q r"
  shows "positive (userBudgets period prs)"
  using assms by (auto simp: positive_def userBudgets_set wfRule_def wfBudget_def)

lemma narrow_windows:
  "userMonth (narrow u u') = narrowWindow (userMonth u) (userMonth u')"
  "userDay (narrow u u') = narrowWindow (userDay u) (userDay u')"
  by (simp_all add: narrow_def userMonth_def userDay_def split: prod.splits)

lemma narrow_bound:
  assumes "boundUser prs u" and "boundUser prs' u'" and "\<forall>(p, r) \<in> set (prs @ prs'). \<exists>q. wfRule q r"
  shows "boundUser (prs @ prs') (narrow u u')"
  using assms userBudgets_positive [of prs] userBudgets_positive [of prs']
  by (auto simp: boundUser_def narrow_windows intro!: binding_narrow)

lemma budget_bound:
  assumes "r_Budget r = Some b" and "\<not> b_Unlimited b" and "wfRule q r"
  shows "boundUser [(p, r)] (userLimitsFromBudget b)"
proof -
  have wf: "b_Period b = PeriodCalendarDay \<or> b_Period b = PeriodCalendarMonth" "0 < b_LimitMicroUSD b"
    using assms by (auto simp: wfRule_def wfBudget_def)
  have days: "PeriodCalendarDay \<noteq> PeriodCalendarMonth" by (simp add: PeriodCalendarDay_def PeriodCalendarMonth_def)
  show ?thesis
    using assms wf(1) days binding_one [OF wf(2)]
    by (auto simp: boundUser_def userBudgets_def userLimitsFromBudget_def noUserLimits_def userMonth_def userDay_def
        budgetWindow_def)
qed

lemma user_bound:
  assumes "\<forall>(p, r) \<in> set prs. \<exists>q. wfRule q r"
  shows "boundUser prs (fst (fold (\<lambda>(p, r). userRule r) prs (noUserLimits, False)))"
  using assms
proof (induction prs rule: rev_induct)
  case Nil
  then show ?case by (simp add: boundUser_def noUserLimits_def userMonth_def userDay_def userBudgets_def)
next
  case (snoc pr prs)
  obtain p r where pr: "pr = (p, r)" by (cases pr)
  let ?st = "fold (\<lambda>(p, r). userRule r) prs (noUserLimits, False)"
  have IH: "boundUser prs (fst ?st)" using snoc by simp
  obtain q where q: "wfRule q r" using snoc.prems by (auto simp: pr)
  show ?case
  proof (cases "\<exists>b. r_Budget r = Some b \<and> \<not> b_Unlimited b")
    case True
    then obtain b where b: "r_Budget r = Some b" "\<not> b_Unlimited b" by blast
    then show ?thesis
      using narrow_bound [OF IH budget_bound [OF b q]] snoc.prems by (simp add: pr userRule_def [of r])
  next
    case False
    then show ?thesis using IH
      by (auto simp: pr userRule_def [of r] boundUser_def userBudgets_def split: option.splits)
  qed
qed

lemma matching_keys:
  assumes "user \<noteq> []"
  shows "set (matchingRules ps team user) =
    set (keyedRules userKeyOf ps (team, user) @ keyedRules userKeyOf ps ([], user))"
  using assms by (auto simp: matchingRules_def keyedRules_def userKeyOf_def subjectMatches_def)

lemma keyed_wf: "\<forall>p \<in> set ps. wfPolicy p \<Longrightarrow> \<forall>(p, r) \<in> set (keyedRules key ps k). \<exists>q. wfRule q r"
  by (auto simp: keyedRules_def wfPolicy_def)

section \<open>Properties\<close>

text \<open>
  A plane that serves a team with a strict policy, and a distribution in which the document
  of that policy names a substitution target the plane does not serve.
\<close>

definition samplePlane :: PolicyStore where
  "samplePlane = NewEmptyStore\<lparr>po_routedAndPriced := Some (\<lambda>m. if m = ''haiku'' then Some ''unrouted'' else None)\<rparr>"

definition sampleDocs :: "GovernancePolicy list" where
  "sampleDocs = [sampleDoc [sampleCap, sampleTier]]"

lemma sample_refused: "named ''acme'' sampleDocs = sampleDocs" "enforceDoc samplePlane (sampleDoc [sampleCap, sampleTier]) =
    Inl (enforceError ''tier'' (SubstituteTargetRefused ''haiku'' ''unrouted''))"
  by code_simp+

lemma sample_pending_finite: "finite (Mapping.keys (previousPending samplePlane))"
  by (simp add: samplePlane_def NewEmptyStore_def previousPending_def)

lemma sample_concerned: "\<exists>n. \<exists>sub \<in> stillRefused samplePlane sampleDocs n. subjectMatches sub ''research'' user"
proof -
  have "docSubject (sampleDoc [sampleCap, sampleTier]) \<in> stillRefused samplePlane sampleDocs ''acme''"
    using sample_refused by (simp add: stillRefused_def settledName_def concerned_def sampleDocs_def
        mandatoryDoc_def mandatoryWire_def sampleDoc_def sampleTier_def docName_def)
  moreover have "subjectMatches (docSubject (sampleDoc [sampleCap, sampleTier])) ''research'' user"
    by (simp add: subjectMatches_def docSubject_def sampleDoc_def)
  ultimately show ?thesis by blast
qed

lemma distribution_snapshot:
  assumes "finite (Mapping.keys (previousPending s))"
  shows "\<exists>ps. (\<forall>p. p \<in> set ps \<longleftrightarrow> acceptedPolicy s docs p) \<and>
    RoutingSnapshot (fst (ApplyWire gen docs s)) team user =
      Some (gen docs,
        if \<exists>n. \<exists>sub \<in> stillRefused s docs n. subjectMatches sub team user then Inl ErrRoutingPolicyRejected
        else Inr (routingPolicies ps team user))"
proof -
  obtain snap where snap: "po_snap (fst (ApplyWire gen docs s)) = Some snap" "sn_generation snap = gen docs"
    "\<forall>p. p \<in> set (sn_policies snap) \<longleftrightarrow> acceptedPolicy s docs p"
    "\<forall>n. pendingSubjects (sn_rejectedRouting snap) n = stillRefused s docs n"
    by (rule distribution_outcome)
  have "finite (Mapping.keys (sn_rejectedRouting snap))"
    using snap(1) assms by (rule pending_finite)
  then have "list_ex (\<lambda>n. list_ex (\<lambda>sub. subjectMatches sub team user) (the (Mapping.lookup (sn_rejectedRouting snap) n)))
      (Mapping.ordered_keys (sn_rejectedRouting snap)) \<longleftrightarrow>
    (\<exists>n. \<exists>sub \<in> pendingSubjects (sn_rejectedRouting snap) n. subjectMatches sub team user)"
    by (rule pending_scan)
  then show ?thesis using snap by (auto simp: RoutingSnapshot_def)
qed

text \<open>
  C37: a distribution fails closed. The routing lookup after \<open>ApplyWire\<close> denies exactly the
  subjects still refused under some name: those carried over from earlier distributions and
  those of a mandatory document rejected now or of the mandatory policy it would have
  replaced, until one distribution carries exactly one document of that name and it is
  accepted; a nameless rejection is cleared only by a nonempty distribution that is accepted
  as a whole. Every other subject gets the routing rules of the accepted policies, bound to
  the generation of this distribution.
\<close>

theorem distribution_fails_closed:
  assumes "finite (Mapping.keys (previousPending s))"
  shows "\<exists>ps. (\<forall>p. p \<in> set ps \<longleftrightarrow> acceptedPolicy s docs p) \<and>
    RoutingSnapshot (fst (ApplyWire gen docs s)) team user =
      Some (gen docs,
        if \<exists>n. \<exists>sub \<in> stillRefused s docs n. subjectMatches sub team user then Inl ErrRoutingPolicyRejected
        else Inr (routingPolicies ps team user))"
  by (rule distribution_snapshot [OF assms])

theorem distribution_fails_closed_witness:
  "RoutingSnapshot (fst (ApplyWire (\<lambda>_. ''g1'') sampleDocs samplePlane)) ''research'' ''ann'' =
     Some (''g1'', Inl ErrRoutingPolicyRejected)"
  using distribution_fails_closed [OF sample_pending_finite, of sampleDocs "\<lambda>_. ''g1''" "''research''" "''ann''"] sample_concerned [of "''ann''"]
  by auto

text \<open>
  A distribution accounts for every document: the policies it installs are those of the
  first document carrying each nonempty name, if it converts and is enforceable here; they
  are well formed, enforceable and have distinct names; installed and rejected documents add
  up to the distribution, and a rejection is reported for every name that is not settled.
\<close>

lemma distribution_accounts:
  shows "\<exists>snap. po_snap (fst (ApplyWire gen docs s)) = Some snap \<and>
    (\<forall>p. p \<in> set (sn_policies snap) \<longleftrightarrow>
       p_Name p \<noteq> [] \<and> (\<exists>d. List.find (\<lambda>d. docName d = p_Name p) docs = Some d \<and> enforceDoc s d = Inr p)) \<and>
    (\<forall>p. p \<in> set (sn_policies snap) \<longrightarrow>
       wfPolicy p \<and> checkEnforceable p (po_routedAndPriced s) (po_sharedEnforcement s) = None) \<and>
    distinct (map p_Name (sn_policies snap)) \<and>
    length (sn_policies snap) + length (snd (ApplyWire gen docs s)) = length docs \<and>
    rj_Policy ` set (snd (ApplyWire gen docs s)) = {n. n \<in> docName ` set docs \<and> \<not> settledName s docs n}"
proof -
  obtain snap where snap: "po_snap (fst (ApplyWire gen docs s)) = Some snap"
    "\<forall>p. p \<in> set (sn_policies snap) \<longleftrightarrow> acceptedPolicy s docs p" "distinct (map p_Name (sn_policies snap))"
    "length (sn_policies snap) + length (snd (ApplyWire gen docs s)) = length docs"
    "\<forall>n. n \<in> rj_Policy ` set (snd (ApplyWire gen docs s)) \<longleftrightarrow> named n docs \<noteq> [] \<and> \<not> settledName s docs n"
    by (rule distribution_outcome)
  have "named n docs \<noteq> [] \<longleftrightarrow> n \<in> docName ` set docs" for n by (auto simp: filter_empty_conv)
  then have "rj_Policy ` set (snd (ApplyWire gen docs s)) = {n. n \<in> docName ` set docs \<and> \<not> settledName s docs n}"
    using snap(5) by blast
  moreover have "wfPolicy p \<and> checkEnforceable p (po_routedAndPriced s) (po_sharedEnforcement s) = None"
    if "acceptedPolicy s docs p" for p
    using that enforced_identity(4,5) by (auto simp: acceptedPolicy_def)
  ultimately show ?thesis using snap(1-4) by (auto simp: acceptedPolicy_def)
qed

text \<open>
  The merged limits of a team are the most restrictive ones per window. A team has an
  entry exactly when a rule of one of its policies sets a rate or a budget; then each window
  carries the least finite budget that is not a mere routing threshold, it is a hard cap
  exactly when one of the binding budgets is, its contact is that of a binding budget, and
  rates and routing thresholds are the least nonzero ones.
\<close>

lemma team_limits_most_restrictive:
  assumes "\<forall>p \<in> set ps. wfPolicy p"
  shows "case Mapping.lookup (mergeTeamLimits ps) team of
      None \<Rightarrow> \<not> (\<exists>(p, r) \<in> set (keyedRules teamKey ps team). teamCounts r)
    | Some lm \<Rightarrow> (\<exists>(p, r) \<in> set (keyedRules teamKey ps team). teamCounts r) \<and> boundTeam (keyedRules teamKey ps team) lm"
  using team.merged [of ps team] team_bound [OF keyed_wf [OF assms]]
  by (simp add: mergeTeamLimits_def split: option.splits if_splits)

text \<open>
  The limits looked up for a user in a team are the most restrictive ones over all
  policies that select this user, in this team or in any: absent exactly when none of them
  has a budget rule, and otherwise the least finite budget per window, hard exactly when a
  binding one is. Folding a policy that states one window never erases the other window.
\<close>

lemma user_limits_most_restrictive:
  assumes "\<forall>p \<in> set ps. wfPolicy p" and "user \<noteq> []"
  shows "case userLimitsIn (mergeUserLimits ps) team user of
      None \<Rightarrow> \<not> (\<exists>(p, r) \<in> set (matchingRules ps team user). userCounts r)
    | Some u \<Rightarrow> (\<exists>(p, r) \<in> set (matchingRules ps team user). userCounts r) \<and> boundUser (matchingRules ps team user) u"
proof -
  let ?a = "keyedRules userKeyOf ps (team, user)" and ?b = "keyedRules userKeyOf ps ([], user)"
  let ?ex = "\<lambda>prs. \<exists>(p, r) \<in> set prs. userCounts r"
  let ?u = "\<lambda>prs. fst (fold (\<lambda>(p, r). userRule r) prs (noUserLimits, False))"
  have wf: "\<forall>(p, r) \<in> set ?a. \<exists>q. wfRule q r" "\<forall>(p, r) \<in> set ?b. \<exists>q. wfRule q r"
    by (rule keyed_wf [OF assms(1)])+
  have idle: "?u prs = noUserLimits" if "\<not> ?ex prs" for prs :: "(Policy \<times> Rule) list"
    using user.fold_idle [of prs "(noUserLimits, False)"] that by (fastforce simp: case_prod_beta)
  have same: "narrow u noUserLimits = u" for u
    by (simp add: narrow_def narrowWindow_def noUserLimits_def userMonth_def userDay_def)
  have left: "boundUser (?a @ ?b) (?u ?b)" if "\<not> ?ex ?a"
  proof -
    have "set (userBudgets period ?a) = {}" for period
      using that unfolding userBudgets_set userCounts_def by fastforce
    then show ?thesis using user_bound [OF wf(2)] by (simp add: boundUser_def)
  qed
  have both: "boundUser (?a @ ?b) (narrow (?u ?a) (?u ?b))"
    by (rule narrow_bound) (use wf user_bound in auto)
  have "userLimitsIn (mergeUserLimits ps) team user =
      (if ?ex ?a then if ?ex ?b then Some (narrow (?u ?a) (?u ?b)) else Some (?u ?a)
       else if ?ex ?b then Some (?u ?b) else None)"
    by (simp add: userLimitsIn_def mergeUserLimits_def user.merged)
  moreover have "boundUser (matchingRules ps team user) u \<longleftrightarrow> boundUser (?a @ ?b) u" for u
    by (rule boundUser_set) (rule matching_keys [OF assms(2)])
  moreover have "?ex (matchingRules ps team user) \<longleftrightarrow> ?ex ?a \<or> ?ex ?b"
    unfolding matching_keys [OF assms(2)] by auto
  ultimately show ?thesis
    using both left idle [of ?b] same by (auto split: option.splits)
qed

end
