(* ===== verification/PricingConfig.thy ===== *)
theory PricingConfig
  imports Pricing Float64
begin

text \<open>
  The rate table built from the configuration, \<^verbatim>\<open>internal/pricing/fromconfig.go\<close> and
  \<^verbatim>\<open>internal/pricing/bundled.go\<close>: dollars per million tokens as \<^verbatim>\<open>float64\<close>, converted to
  integer micro-dollars, with the cache rates derived from the input rate when they are not
  given. The maps of overrides are visited in the order of their keys; keys are distinct, so
  the result does not depend on it.
\<close>

record ConfigRate =
  cr_InputPerMTok :: rat
  cr_OutputPerMTok :: rat
  cr_CacheReadPerMTok :: rat
  cr_CacheWrite5mPerMTok :: rat
  cr_CacheWrite1hPerMTok :: rat
  cr_Free :: bool

definition Unpriced :: "ConfigRate \<Rightarrow> bool" where
  "Unpriced cr \<longleftrightarrow> cr_InputPerMTok cr = 0 \<and> cr_OutputPerMTok cr = 0 \<and> \<not> cr_Free cr"

definition cacheReadRatio :: rat where "cacheReadRatio = fl (1 / 10)"
definition cacheWrite5mRatio :: rat where "cacheWrite5mRatio = fl (5 / 4)"
definition cacheWrite1hRatio :: rat where "cacheWrite1hRatio = fl 2"

definition Bundled :: "(PriceKey, Rate) mapping" where
  "Bundled =
     Mapping.update (mkKey ''anthropic-direct'' ''claude-opus-4-8'')
       \<lparr>InputPerMTok = 5000000, OutputPerMTok = 25000000, CacheReadPerMTok = 500000,
        CacheWrite5mPerMTok = 6250000, CacheWrite1hPerMTok = 10000000\<rparr>
     (Mapping.update (mkKey ''anthropic-direct'' ''claude-sonnet-4-6'')
       \<lparr>InputPerMTok = 3000000, OutputPerMTok = 15000000, CacheReadPerMTok = 300000,
        CacheWrite5mPerMTok = 3750000, CacheWrite1hPerMTok = 6000000\<rparr>
     Mapping.empty)"

text \<open>\<^verbatim>\<open>math.Round\<close> rounds half away from zero; the conversion of a value outside \<^verbatim>\<open>int64\<close>
  yields the least one, as on amd64.\<close>

definition mathRound :: "rat \<Rightarrow> int" where
  "mathRound x = (if 0 \<le> x then \<lfloor>x + 1 / 2\<rfloor> else - \<lfloor>1 / 2 - x\<rfloor>)"

definition int64_of :: "int \<Rightarrow> int" where
  "int64_of n = (if in64 n then n else MinInt64)"

definition usdToMicros :: "rat \<Rightarrow> int" where
  "usdToMicros usd = int64_of (mathRound (fl (usd * 1000000)))"

definition derivedRate :: "rat \<Rightarrow> rat \<Rightarrow> rat \<Rightarrow> int" where
  "derivedRate explicit input ratio =
     (if explicit \<noteq> 0 then usdToMicros explicit else usdToMicros (fl (input * ratio)))"

definition rateOf :: "ConfigRate \<Rightarrow> Rate" where
  "rateOf cr =
     \<lparr>InputPerMTok = usdToMicros (cr_InputPerMTok cr), OutputPerMTok = usdToMicros (cr_OutputPerMTok cr),
      CacheReadPerMTok = derivedRate (cr_CacheReadPerMTok cr) (cr_InputPerMTok cr) cacheReadRatio,
      CacheWrite5mPerMTok = derivedRate (cr_CacheWrite5mPerMTok cr) (cr_InputPerMTok cr) cacheWrite5mRatio,
      CacheWrite1hPerMTok = derivedRate (cr_CacheWrite1hPerMTok cr) (cr_InputPerMTok cr) cacheWrite1hRatio\<rparr>"

type_synonym overrides = "(string, (string, ConfigRate) mapping) mapping"

definition overrideModel :: "string \<Rightarrow> (string, ConfigRate) mapping \<Rightarrow> string \<Rightarrow> (PriceKey, Rate) mapping \<Rightarrow> (PriceKey, Rate) mapping" where
  "overrideModel provider models model rs =
     (case Mapping.lookup models model of
        None \<Rightarrow> rs
      | Some cr \<Rightarrow> if Unpriced cr then rs else Mapping.update (mkKey provider model) (rateOf cr) rs)"

definition overrideProvider :: "overrides \<Rightarrow> string \<Rightarrow> (PriceKey, Rate) mapping \<Rightarrow> (PriceKey, Rate) mapping" where
  "overrideProvider ovs provider rs =
     (case Mapping.lookup ovs provider of
        None \<Rightarrow> rs
      | Some models \<Rightarrow> fold (overrideModel provider models) (Mapping.ordered_keys models) rs)"

definition FromConfigVersioned :: "string \<Rightarrow> string \<Rightarrow> overrides \<Rightarrow> Table" where
  "FromConfigVersioned onMiss version ovs =
     NewVersioned (if onMiss = ''block'' then OnMissingBlock else OnMissingAllow)
       (Some (fold (overrideProvider ovs) (Mapping.ordered_keys ovs) Bundled)) version"

definition FromConfig :: "string \<Rightarrow> overrides \<Rightarrow> Table" where
  "FromConfig onMiss ovs = FromConfigVersioned onMiss [] ovs"

section \<open>The table\<close>

definition overrideOf :: "overrides \<Rightarrow> string \<Rightarrow> string \<Rightarrow> ConfigRate option" where
  "overrideOf ovs provider model = Option.bind (Mapping.lookup ovs provider) (\<lambda>models. Mapping.lookup models model)"

definition finiteOverrides :: "overrides \<Rightarrow> bool" where
  "finiteOverrides ovs \<longleftrightarrow> finite (Mapping.keys ovs) \<and>
     (\<forall>p models. Mapping.lookup ovs p = Some models \<longrightarrow> finite (Mapping.keys models))"

lemma mkKey_eq [simp]: "mkKey p m = mkKey p' m' \<longleftrightarrow> p = p' \<and> m = m'"
  by (simp add: mkKey_def)

lemma override_model_lookup:
  "Mapping.lookup (fold (overrideModel p models) ms rs) (mkKey q m) =
     (case Mapping.lookup models m of
        Some cr \<Rightarrow> if q = p \<and> m \<in> set ms \<and> \<not> Unpriced cr then Some (rateOf cr) else Mapping.lookup rs (mkKey q m)
      | None \<Rightarrow> Mapping.lookup rs (mkKey q m))"
  by (induction ms arbitrary: rs) (auto simp: overrideModel_def lookup_update' split: option.splits)

lemma override_provider_lookup:
  assumes "\<forall>p models. Mapping.lookup ovs p = Some models \<longrightarrow> finite (Mapping.keys models)"
  shows "Mapping.lookup (fold (overrideProvider ovs) ps rs) (mkKey q m) =
     (case overrideOf ovs q m of
        Some cr \<Rightarrow> if q \<in> set ps \<and> \<not> Unpriced cr then Some (rateOf cr) else Mapping.lookup rs (mkKey q m)
      | None \<Rightarrow> Mapping.lookup rs (mkKey q m))"
proof (induction ps arbitrary: rs)
  case Nil
  then show ?case by (simp split: option.splits)
next
  case (Cons p ps)
  have one: "Mapping.lookup (overrideProvider ovs p rs) (mkKey q m) =
      (case overrideOf ovs q m of
         Some cr \<Rightarrow> if q = p \<and> \<not> Unpriced cr then Some (rateOf cr) else Mapping.lookup rs (mkKey q m)
       | None \<Rightarrow> Mapping.lookup rs (mkKey q m))"
    using assms
    by (auto simp: overrideProvider_def override_model_lookup overrideOf_def keys_lookup
        split: option.splits Option.bind_splits)
  show ?case unfolding fold_simps Cons.IH one by (auto split: option.splits)
qed

lemma table_lookup:
  assumes "finiteOverrides ovs"
  shows "Mapping.lookup (rates (FromConfigVersioned onMiss version ovs)) (mkKey q m) =
     (case overrideOf ovs q m of
        Some cr \<Rightarrow> if \<not> Unpriced cr then Some (rateOf cr) else Mapping.lookup Bundled (mkKey q m)
      | None \<Rightarrow> Mapping.lookup Bundled (mkKey q m))"
proof -
  have "overrideOf ovs q m = Some cr \<Longrightarrow> q \<in> set (Mapping.ordered_keys ovs)" for cr
    using assms by (auto simp: overrideOf_def finiteOverrides_def keys_lookup split: Option.bind_splits)
  then show ?thesis
    using assms override_provider_lookup [of ovs]
    by (auto simp: FromConfigVersioned_def NewVersioned_def finiteOverrides_def split: option.splits)
qed

end
