(* ===== verification/Live.thy ===== *)
theory Live
  imports PricingConfig GoStd
begin

text \<open>
  The reloadable topology, \<^verbatim>\<open>internal/live/live.go\<close> and \<^verbatim>\<open>internal/live/policy_targets.go\<close>, with the
  parts of \<^verbatim>\<open>internal/config/config.go\<close> it reads: providers, model routes, aliases, fallbacks
  and the rate table of one immutable generation. A generation is a value, so the copies the
  accessors make are values too. A provider is the instance the factory returned; the router
  uses its type name and the ingress declaration it may carry. The factory of the providers
  is a parameter. Go maps are visited in the order of their keys.
\<close>

section \<open>Types\<close>

record Target =
  tg_Provider :: string
  tg_Model :: string
  tg_API :: string

record ModelConfig =
  mc_Capabilities :: "string list"
  mc_Aliases :: "string list"
  mc_Targets :: "Target list"
  mc_ContextWindow :: int

record ProviderConfig =
  pc_DataBoundary :: string
  pc_Type :: string
  pc_BaseURL :: string
  pc_APIKey :: string
  pc_Region :: string
  pc_AuthMode :: string
  pc_AuthProfile :: string
  pc_AuthHeader :: string
  pc_GuardrailID :: string
  pc_GuardrailVersion :: string

record Provider =
  pv_Name :: string
  pv_SupportsIngress :: "(string \<Rightarrow> bool) option"

text \<open>A provider map can hold a nil interface, \<open>None\<close>.\<close>

record LiveState =
  ls_providers :: "(string, Provider option) mapping"
  ls_models :: "(string, ModelConfig) mapping"
  ls_aliases :: "(string, string) mapping"
  ls_pricing :: "Table option"
  ls_identities :: "(string, string) mapping"
  ls_providerConfigs :: "(string, ProviderConfig) mapping"
  ls_fallbacks :: "(string, string) mapping"
  ls_fallbackFamily :: bool

record TopologyConfig =
  cf_Providers :: "(string, ProviderConfig) mapping"
  cf_Models :: "(string, ModelConfig) mapping"
  cf_OnMissing :: string
  cf_PricingVersion :: string
  cf_Overrides :: overrides
  cf_ModelFallbacks :: "(string, string) mapping"
  cf_ModelFallbackFamily :: "bool option"

section \<open>Accessors\<close>

definition Route :: "LiveState \<Rightarrow> string \<Rightarrow> ModelConfig option" where
  "Route s model = Mapping.lookup (ls_models s) model"

definition Canonical :: "LiveState \<Rightarrow> string \<Rightarrow> string" where
  "Canonical s name = (case Mapping.lookup (ls_aliases s) name of Some c \<Rightarrow> c | None \<Rightarrow> name)"

definition state_Provider :: "LiveState \<Rightarrow> string \<Rightarrow> Provider option option" where
  "state_Provider s name = Mapping.lookup (ls_providers s) name"

definition ModelNames :: "LiveState \<Rightarrow> string list" where
  "ModelNames s = Mapping.ordered_keys (ls_models s)"

definition state_Identity :: "LiveState \<Rightarrow> string \<Rightarrow> string option" where
  "state_Identity s name = Mapping.lookup (ls_identities s) name"

definition state_Region :: "LiveState \<Rightarrow> string \<Rightarrow> string" where
  "state_Region s name = (case Mapping.lookup (ls_providerConfigs s) name of None \<Rightarrow> [] | Some pc \<Rightarrow> pc_Region pc)"

definition DataBoundary :: "LiveState \<Rightarrow> string \<Rightarrow> string" where
  "DataBoundary s provider =
     (let b = (case Mapping.lookup (ls_providerConfigs s) provider of None \<Rightarrow> [] | Some pc \<Rightarrow> pc_DataBoundary pc)
      in if b = ''internal'' \<or> b = ''external'' then b else ''unknown'')"

section \<open>Fallbacks\<close>

text \<open>\<^verbatim>\<open>strings.Split\<close> and \<^verbatim>\<open>strings.Join\<close> on one character; the accumulator holds the current part.\<close>

fun splitOn :: "char \<Rightarrow> string \<Rightarrow> string \<Rightarrow> string list" where
  "splitOn c acc [] = [acc]"
| "splitOn c acc (x # xs) = (if x = c then acc # splitOn c [] xs else splitOn c (acc @ [x]) xs)"

fun joinOn :: "char \<Rightarrow> string list \<Rightarrow> string" where
  "joinOn c [] = []"
| "joinOn c [p] = p"
| "joinOn c (p # ps) = p @ c # joinOn c ps"

definition Atoi :: "string \<Rightarrow> int option" where
  "Atoi s =
     (let neg = (case s of c # _ \<Rightarrow> c = CHR ''-'' | [] \<Rightarrow> False);
          ds = (case s of c # cs \<Rightarrow> if c = CHR ''-'' \<or> c = CHR ''+'' then cs else s | [] \<Rightarrow> [])
      in if ds = [] \<or> \<not> list_all is_digit ds then None
         else (let v = fold (\<lambda>c x. x * 10 + digit_of c) ds 0; n = (if neg then - v else v)
               in if in64 n then Some n else None))"

text \<open>The version is the trailing run of numeric parts.\<close>

definition familyOf :: "string \<Rightarrow> (string \<times> int list) option" where
  "familyOf name =
     (let parts = splitOn CHR ''-'' [] name;
          tail = rev (takeWhile (\<lambda>p. Atoi p \<noteq> None) (rev parts));
          head = rev (dropWhile (\<lambda>p. Atoi p \<noteq> None) (rev parts))
      in if tail = [] then None else Some (joinOn CHR ''-'' head, map (\<lambda>p. the (Atoi p)) tail))"

fun compareVersions :: "int list \<Rightarrow> int list \<Rightarrow> int" where
  "compareVersions [] [] = 0"
| "compareVersions (x # a) [] = (if x \<noteq> 0 then if x < 0 then -1 else 1 else compareVersions a [])"
| "compareVersions [] (y # b) = (if 0 \<noteq> y then if 0 < y then -1 else 1 else compareVersions [] b)"
| "compareVersions (x # a) (y # b) = (if x \<noteq> y then if x < y then -1 else 1 else compareVersions a b)"

definition betterFallback :: "string \<Rightarrow> int list \<Rightarrow> string \<Rightarrow> (string \<times> int list) option \<Rightarrow> (string \<times> int list) option" where
  "betterFallback family version name best =
     (case familyOf name of
        None \<Rightarrow> best
      | Some (f, v) \<Rightarrow>
          if f \<noteq> family \<or> compareVersions v version \<ge> 0 then best
          else (case best of
                  None \<Rightarrow> Some (name, v)
                | Some (_, bv) \<Rightarrow> if compareVersions v bv > 0 then Some (name, v) else best))"

text \<open>
  The source ranges over its map of models in no fixed order and keeps the first of several names of
  equal version (\<^verbatim>\<open>m-4\<close> and \<^verbatim>\<open>m-4-0\<close>); here that is the first in the order of the names. Any other
  order gives a name of the same family and an equal version, lemma \<open>fallback_any_order\<close> of \<open>LiveProps\<close>.
\<close>

definition FallbackFor :: "LiveState \<Rightarrow> string \<Rightarrow> string" where
  "FallbackFor s model =
     (case Mapping.lookup (ls_fallbacks s) model of
        Some served \<Rightarrow> served
      | None \<Rightarrow>
          if \<not> ls_fallbackFamily s then []
          else (case familyOf model of
                  None \<Rightarrow> []
                | Some (family, version) \<Rightarrow>
                    (case fold (betterFallback family version) (Mapping.ordered_keys (ls_models s)) None of
                       None \<Rightarrow> []
                     | Some (best, _) \<Rightarrow> best)))"

section \<open>Building a generation\<close>

definition ValidateDataBoundary :: "string \<Rightarrow> bool" where
  "ValidateDataBoundary b \<longleftrightarrow> b \<in> {[], ''unknown'', ''internal'', ''external''}"

definition ValidateModelMetadata :: "int \<Rightarrow> string list \<Rightarrow> bool" where
  "ValidateModelMetadata window caps \<longleftrightarrow>
     0 \<le> window \<and> list_all (\<lambda>c. c \<in> {''tools'', ''vision'', ''reasoning'', ''structured_output''}) caps"

datatype live_error =
    BadBoundary string
  | BadMetadata string
  | AliasIsModel string string
  | AliasTwice string
  | ProviderFailed string string
  | UnknownProvider string string
  | OverrideUnknownProvider string
  | OverrideUnrouted string string
  | UnpricedRoutes "string list"

fun checkAliases :: "(string, ModelConfig) mapping \<Rightarrow> string \<Rightarrow> string list \<Rightarrow> (string, string) mapping
    \<Rightarrow> live_error + (string, string) mapping" where
  "checkAliases models model [] seen = Inr seen"
| "checkAliases models model (alias # as) seen =
     (if Mapping.lookup models alias \<noteq> None then Inl (AliasIsModel model alias)
      else if Mapping.lookup seen alias \<noteq> None then Inl (AliasTwice alias)
      else checkAliases models model as (Mapping.update alias model seen))"

definition checkModel :: "(string, ModelConfig) mapping \<Rightarrow> string \<Rightarrow> (string, string) mapping \<Rightarrow> live_error + (string, string) mapping" where
  "checkModel models model seen =
     (case Mapping.lookup models model of
        None \<Rightarrow> Inr seen
      | Some mc \<Rightarrow>
          if \<not> ValidateModelMetadata (mc_ContextWindow mc) (mc_Capabilities mc) then Inl (BadMetadata model)
          else checkAliases models model (mc_Aliases mc) seen)"

definition validateModelAliases :: "(string, ModelConfig) mapping \<Rightarrow> live_error option" where
  "validateModelAliases models =
     (case foldE (checkModel models) (Mapping.ordered_keys models) Mapping.empty of Inl e \<Rightarrow> Some e | Inr _ \<Rightarrow> None)"

definition identityOf :: "ProviderConfig \<Rightarrow> string" where
  "identityOf pc = pc_Type pc @ CHR 0x00 # pc_BaseURL pc"

text \<open>What the factory of a provider gets: its configuration and, for Bedrock, the call path
  declared for each upstream model.\<close>

record FactoryConfig =
  fc_Type :: string
  fc_BaseURL :: string
  fc_APIKey :: string
  fc_Settings :: "(string, string) mapping"
  fc_ModelAPI :: "(string, string) mapping"

type_synonym factory = "FactoryConfig \<Rightarrow> string + Provider"

definition modelTargets :: "(string, ModelConfig) mapping \<Rightarrow> (string \<times> Target) list" where
  "modelTargets models =
     concat (map (\<lambda>m. map (Pair m) (mc_Targets (the (Mapping.lookup models m)))) (Mapping.ordered_keys models))"

definition modelAPI :: "(string, ModelConfig) mapping \<Rightarrow> string \<Rightarrow> (string, string) mapping" where
  "modelAPI models provider =
     fold (\<lambda>(m, t) out. if tg_API t \<noteq> [] \<and> tg_Provider t = provider then Mapping.update (tg_Model t) (tg_API t) out else out)
       (modelTargets models) Mapping.empty"

definition settingsOf :: "ProviderConfig \<Rightarrow> (string, string) mapping" where
  "settingsOf pc =
     (if pc_Type pc = ''bedrock'' then
        Mapping.update ''region'' (pc_Region pc) (Mapping.update ''auth_mode'' (pc_AuthMode pc)
          (Mapping.update ''profile'' (pc_AuthProfile pc) (Mapping.update ''guardrail_id'' (pc_GuardrailID pc)
            (Mapping.update ''guardrail_version'' (pc_GuardrailVersion pc) Mapping.empty))))
      else if pc_Type pc = ''anthropic'' \<and> pc_AuthHeader pc \<noteq> [] then
        Mapping.update ''auth_header'' (pc_AuthHeader pc) Mapping.empty
      else Mapping.empty)"

definition buildProvider ::
  "factory \<Rightarrow> TopologyConfig \<Rightarrow> string \<Rightarrow> (string, Provider option) mapping \<times> (string, string) mapping
   \<Rightarrow> live_error + (string, Provider option) mapping \<times> (string, string) mapping" where
  "buildProvider new cfg name st =
     (case Mapping.lookup (cf_Providers cfg) name of
        None \<Rightarrow> Inr st
      | Some pc \<Rightarrow>
          (case new \<lparr>fc_Type = pc_Type pc, fc_BaseURL = pc_BaseURL pc, fc_APIKey = pc_APIKey pc, fc_Settings = settingsOf pc,
                  fc_ModelAPI = (if pc_Type pc = ''bedrock'' then modelAPI (cf_Models cfg) name else Mapping.empty)\<rparr> of
             Inl e \<Rightarrow> Inl (ProviderFailed name e)
           | Inr p \<Rightarrow> Inr (Mapping.update name (Some p) (fst st), Mapping.update name (identityOf pc) (snd st))))"

definition pricingFromConfig :: "TopologyConfig \<Rightarrow> Table" where
  "pricingFromConfig cfg = FromConfigVersioned (cf_OnMissing cfg) (cf_PricingVersion cfg) (cf_Overrides cfg)"

definition hasSuffix :: "string \<Rightarrow> string \<Rightarrow> bool" where
  "hasSuffix s suf \<longleftrightarrow> length suf \<le> length s \<and> drop (length s - length suf) s = suf"

definition routesTo :: "TopologyConfig \<Rightarrow> string \<Rightarrow> string \<Rightarrow> bool" where
  "routesTo cfg provider model \<longleftrightarrow>
     list_ex (\<lambda>(m, t). tg_Provider t = provider \<and> (tg_Model t = model \<or> hasSuffix (tg_Model t) (CHR ''.'' # model)))
       (modelTargets (cf_Models cfg))"

definition UnpricedTargets :: "TopologyConfig \<Rightarrow> Table \<Rightarrow> string list" where
  "UnpricedTargets cfg tbl =
     sort (remdups (map (\<lambda>(m, t). tg_Provider t @ CHR ''/'' # tg_Model t)
       (filter (\<lambda>(m, t). \<not> HasRate tbl (tg_Provider t) (tg_Model t)) (modelTargets (cf_Models cfg)))))"

definition checkOverride :: "TopologyConfig \<Rightarrow> string \<Rightarrow> live_error option" where
  "checkOverride cfg provider =
     (if Mapping.lookup (cf_Providers cfg) provider = None then Some (OverrideUnknownProvider provider)
      else (case Mapping.lookup (cf_Overrides cfg) provider of
              None \<Rightarrow> None
            | Some models \<Rightarrow>
                map_option (OverrideUnrouted provider)
                  (List.find (\<lambda>m. \<not> routesTo cfg provider m) (Mapping.ordered_keys models))))"

fun firstError :: "('a \<Rightarrow> 'e option) \<Rightarrow> 'a list \<Rightarrow> 'e option" where
  "firstError f [] = None"
| "firstError f (x # xs) = (case f x of Some e \<Rightarrow> Some e | None \<Rightarrow> firstError f xs)"

definition validatePricingCoverage :: "TopologyConfig \<Rightarrow> Table \<Rightarrow> live_error option" where
  "validatePricingCoverage cfg tbl =
     (case firstError (checkOverride cfg) (Mapping.ordered_keys (cf_Overrides cfg)) of
        Some e \<Rightarrow> Some e
      | None \<Rightarrow>
          (let unpriced = UnpricedTargets cfg tbl
           in if unpriced = [] then None
              else if onMissing tbl = OnMissingBlock then Some (UnpricedRoutes unpriced)
              else None))"

definition NewState ::
  "(string, Provider option) mapping \<Rightarrow> (string, ModelConfig) mapping \<Rightarrow> Table option \<Rightarrow> (string, string) mapping \<Rightarrow> LiveState" where
  "NewState provs models price identities =
     \<lparr>ls_providers = provs, ls_models = models,
      ls_aliases = fold (\<lambda>m out. fold (\<lambda>a. Mapping.update a m) (mc_Aliases (the (Mapping.lookup models m))) out)
        (Mapping.ordered_keys models) Mapping.empty,
      ls_pricing = price, ls_identities = identities, ls_providerConfigs = Mapping.empty,
      ls_fallbacks = Mapping.empty, ls_fallbackFamily = False\<rparr>"

definition FallbackFamilyEnabled :: "TopologyConfig \<Rightarrow> bool" where
  "FallbackFamilyEnabled cfg = (case cf_ModelFallbackFamily cfg of None \<Rightarrow> True | Some b \<Rightarrow> b)"

definition checkBoundary :: "TopologyConfig \<Rightarrow> string \<Rightarrow> live_error option" where
  "checkBoundary cfg name =
     (case Mapping.lookup (cf_Providers cfg) name of
        None \<Rightarrow> None
      | Some pc \<Rightarrow> if ValidateDataBoundary (pc_DataBoundary pc) then None else Some (BadBoundary name))"

definition checkTarget :: "(string, Provider option) mapping \<Rightarrow> string \<times> Target \<Rightarrow> live_error option" where
  "checkTarget provs mt =
     (if Mapping.lookup provs (tg_Provider (snd mt)) = None then Some (UnknownProvider (fst mt) (tg_Provider (snd mt))) else None)"

definition BuildStateWith :: "factory \<Rightarrow> TopologyConfig \<Rightarrow> live_error + LiveState \<times> (string, string) mapping" where
  "BuildStateWith new cfg =
     (case firstError (checkBoundary cfg) (Mapping.ordered_keys (cf_Providers cfg)) of
        Some e \<Rightarrow> Inl e
      | None \<Rightarrow>
          (case validateModelAliases (cf_Models cfg) of
             Some e \<Rightarrow> Inl e
           | None \<Rightarrow>
               (case foldE (buildProvider new cfg) (Mapping.ordered_keys (cf_Providers cfg)) (Mapping.empty, Mapping.empty) of
                  Inl e \<Rightarrow> Inl e
                | Inr (provs, identities) \<Rightarrow>
                    (case firstError (checkTarget provs) (modelTargets (cf_Models cfg)) of
                       Some e \<Rightarrow> Inl e
                     | None \<Rightarrow>
                         (let tbl = pricingFromConfig cfg
                          in case validatePricingCoverage cfg tbl of
                               Some e \<Rightarrow> Inl e
                             | None \<Rightarrow>
                                 Inr ((NewState provs (cf_Models cfg) (Some tbl) identities)
                                        \<lparr>ls_providerConfigs := cf_Providers cfg, ls_fallbacks := cf_ModelFallbacks cfg,
                                         ls_fallbackFamily := FallbackFamilyEnabled cfg\<rparr>, identities))))))"

text \<open>The holder publishes one generation, \<open>None\<close> before the first one.\<close>

type_synonym Holder = "LiveState option"

definition RoutedAndPriced :: "Holder \<Rightarrow> string \<Rightarrow> bool" where
  "RoutedAndPriced h model \<longleftrightarrow>
     (case h of
        None \<Rightarrow> False
      | Some s \<Rightarrow>
          (case Route s (Canonical s model) of
             None \<Rightarrow> False
           | Some route \<Rightarrow>
               mc_Targets route \<noteq> [] \<and>
               list_all (\<lambda>t. (case state_Provider s (tg_Provider t) of Some (Some p) \<Rightarrow> True | _ \<Rightarrow> False)
                 \<and> (case ls_pricing s of None \<Rightarrow> False | Some tbl \<Rightarrow> HasRate tbl (tg_Provider t) (tg_Model t)))
                 (mc_Targets route)))"

end
