(* ===== verification/LiveProps.thy ===== *)
theory LiveProps
  imports Live
begin

text \<open>
  A published generation is well formed: what the router relies on when it follows an alias,
  a route or a fallback. The fallback of the version heuristic is the nearest lower version
  of the same family.
\<close>

section \<open>Validation\<close>

lemma firstError_None: "firstError f xs = None \<longleftrightarrow> (\<forall>x \<in> set xs. f x = None)"
  by (induction xs) (auto split: option.splits)

definition aliasesOf :: "(string, ModelConfig) mapping \<Rightarrow> string \<Rightarrow> string list" where
  "aliasesOf models m = mc_Aliases (the (Mapping.lookup models m))"

definition bindAliases :: "(string, ModelConfig) mapping \<Rightarrow> string \<Rightarrow> (string, string) mapping \<Rightarrow> (string, string) mapping" where
  "bindAliases models m out = fold (\<lambda>a. Mapping.update a m) (aliasesOf models m) out"

lemma lookup_bind_list:
  "Mapping.lookup (fold (\<lambda>a. Mapping.update a m) as out) a = (if a \<in> set as then Some m else Mapping.lookup out a)"
  by (induction as arbitrary: out) (auto simp: lookup_update')

lemma checkAliases_Inr:
  assumes "checkAliases models m as seen = Inr seen'"
  shows "seen' = fold (\<lambda>a. Mapping.update a m) as seen" and "\<forall>a \<in> set as. Mapping.lookup models a = None \<and> Mapping.lookup seen a = None"
proof -
  have "seen' = fold (\<lambda>a. Mapping.update a m) as seen \<and> (\<forall>a \<in> set as. Mapping.lookup models a = None \<and> Mapping.lookup seen a = None)"
    using assms
  proof (induction as arbitrary: seen)
    case Nil
    then show ?case by simp
  next
    case (Cons b as)
    from Cons.prems have b: "Mapping.lookup models b = None" "Mapping.lookup seen b = None"
      and rest: "checkAliases models m as (Mapping.update b m seen) = Inr seen'" by (simp_all split: if_splits)
    show ?case using Cons.IH [OF rest] b by (auto simp: lookup_update' split: if_splits)
  qed
  then show "seen' = fold (\<lambda>a. Mapping.update a m) as seen"
    and "\<forall>a \<in> set as. Mapping.lookup models a = None \<and> Mapping.lookup seen a = None" by simp_all
qed

definition modelOK :: "(string, ModelConfig) mapping \<Rightarrow> string \<Rightarrow> bool" where
  "modelOK models m \<longleftrightarrow>
     (\<exists>mc. Mapping.lookup models m = Some mc \<and> ValidateModelMetadata (mc_ContextWindow mc) (mc_Capabilities mc))
     \<and> (\<forall>a \<in> set (aliasesOf models m). Mapping.lookup models a = None)"

lemma alias_loop:
  assumes "foldE (checkModel models) ms seen = Inr seen'" and "set ms \<subseteq> Mapping.keys models"
  shows "seen' = fold (bindAliases models) ms seen \<and> (\<forall>m \<in> set ms. modelOK models m)
    \<and> (\<forall>m \<in> set ms. \<forall>a \<in> set (aliasesOf models m). Mapping.lookup seen a = None)
    \<and> (\<forall>a c. Mapping.lookup seen' a = Some c \<longleftrightarrow> Mapping.lookup seen a = Some c \<or> (c \<in> set ms \<and> a \<in> set (aliasesOf models c)))"
  using assms
proof (induction ms arbitrary: seen)
  case Nil
  then show ?case by simp
next
  case (Cons m ms)
  obtain mc where mc: "Mapping.lookup models m = Some mc" using Cons.prems(2) by (auto simp: keys_lookup)
  obtain s1 where s1: "checkModel models m seen = Inr s1" and rest: "foldE (checkModel models) ms s1 = Inr seen'"
    using Cons.prems(1) by (auto split: sum.splits)
  have meta: "ValidateModelMetadata (mc_ContextWindow mc) (mc_Capabilities mc)"
    and al: "checkAliases models m (aliasesOf models m) seen = Inr s1"
    using s1 by (auto simp: checkModel_def mc aliasesOf_def split: if_splits)
  note a = checkAliases_Inr [OF al]
  have look: "Mapping.lookup s1 x = (if x \<in> set (aliasesOf models m) then Some m else Mapping.lookup seen x)" for x
    by (simp add: a(1) lookup_bind_list)
  have bind: "s1 = bindAliases models m seen" using a(1) by (simp add: bindAliases_def)
  have IH: "seen' = fold (bindAliases models) ms s1" "\<forall>m \<in> set ms. modelOK models m"
    "\<forall>m' \<in> set ms. \<forall>x \<in> set (aliasesOf models m'). Mapping.lookup s1 x = None"
    "\<forall>x c. Mapping.lookup seen' x = Some c \<longleftrightarrow> Mapping.lookup s1 x = Some c \<or> (c \<in> set ms \<and> x \<in> set (aliasesOf models c))"
    using Cons.IH [OF rest] Cons.prems(2) by auto
  have fresh: "\<forall>m' \<in> set ms. \<forall>x \<in> set (aliasesOf models m'). Mapping.lookup seen x = None"
    using IH(3) look by (metis option.distinct(1))
  have ok: "modelOK models m" using mc meta a(2) by (simp add: modelOK_def)
  have "Mapping.lookup seen' x = Some c \<longleftrightarrow>
      Mapping.lookup seen x = Some c \<or> (c \<in> set (m # ms) \<and> x \<in> set (aliasesOf models c))" for x c
    using IH(4) look [of x] a(2) by auto
  then show ?case using IH(1,2) fresh a(2) ok bind by simp
qed

lemma aliases_valid:
  assumes "validateModelAliases models = None" and "finite (Mapping.keys models)"
  shows "Mapping.lookup (fold (bindAliases models) (Mapping.ordered_keys models) Mapping.empty) a = Some c \<longleftrightarrow>
      c \<in> Mapping.keys models \<and> a \<in> set (aliasesOf models c)"
    and "m \<in> Mapping.keys models \<Longrightarrow> modelOK models m"
proof -
  obtain seen where "foldE (checkModel models) (Mapping.ordered_keys models) Mapping.empty = Inr seen"
    using assms(1) by (auto simp: validateModelAliases_def split: sum.splits)
  note loop = alias_loop [OF this]
  have "set (Mapping.ordered_keys models) = Mapping.keys models" using assms(2) by simp
  with loop have "seen = fold (bindAliases models) (Mapping.ordered_keys models) Mapping.empty"
    "\<forall>m \<in> Mapping.keys models. modelOK models m"
    "Mapping.lookup seen a = Some c \<longleftrightarrow> c \<in> Mapping.keys models \<and> a \<in> set (aliasesOf models c)" by auto
  then show "Mapping.lookup (fold (bindAliases models) (Mapping.ordered_keys models) Mapping.empty) a = Some c \<longleftrightarrow>
      c \<in> Mapping.keys models \<and> a \<in> set (aliasesOf models c)"
    and "m \<in> Mapping.keys models \<Longrightarrow> modelOK models m" by simp_all
qed

lemma new_state_aliases:
  "ls_aliases (NewState provs models price ids) = fold (bindAliases models) (Mapping.ordered_keys models) Mapping.empty"
  unfolding NewState_def bindAliases_def aliasesOf_def by simp

section \<open>Providers\<close>

definition builtOK :: "TopologyConfig \<Rightarrow> (string, Provider option) mapping \<times> (string, string) mapping \<Rightarrow> bool" where
  "builtOK cfg st \<longleftrightarrow>
     (\<forall>n e. Mapping.lookup (fst st) n = Some e \<longrightarrow>
        (\<exists>p pc. e = Some p \<and> Mapping.lookup (cf_Providers cfg) n = Some pc \<and> Mapping.lookup (snd st) n = Some (identityOf pc)))"

lemma build_provider_ok:
  assumes "builtOK cfg st" and "buildProvider new cfg n st = Inr st'"
  shows "builtOK cfg st'"
proof (cases "Mapping.lookup (cf_Providers cfg) n")
  case None
  then show ?thesis using assms by (simp add: buildProvider_def)
next
  case (Some pc)
  then obtain p where "st' = (Mapping.update n (Some p) (fst st), Mapping.update n (identityOf pc) (snd st))"
    using assms(2) by (auto simp: buildProvider_def split: sum.splits)
  then show ?thesis using assms(1) Some by (auto simp: builtOK_def lookup_update')
qed

lemma build_providers_ok:
  "builtOK cfg st \<Longrightarrow> foldE (buildProvider new cfg) ns st = Inr st' \<Longrightarrow> builtOK cfg st'"
  by (induction ns arbitrary: st) (auto split: sum.splits intro: build_provider_ok)

lemma modelTargets_in:
  assumes "finite (Mapping.keys models)"
  shows "(m, t) \<in> set (modelTargets models) \<longleftrightarrow> (\<exists>mc. Mapping.lookup models m = Some mc \<and> t \<in> set (mc_Targets mc))"
  using assms by (force simp: modelTargets_def keys_lookup)

section \<open>Well-formed generations\<close>

definition wfTopology :: "LiveState \<Rightarrow> bool" where
  "wfTopology s \<longleftrightarrow>
     finite (Mapping.keys (ls_models s)) \<and>
     (\<forall>a c. Mapping.lookup (ls_aliases s) a = Some c \<longleftrightarrow> (\<exists>mc. Route s c = Some mc \<and> a \<in> set (mc_Aliases mc))) \<and>
     (\<forall>m mc. Route s m = Some mc \<longrightarrow>
        ValidateModelMetadata (mc_ContextWindow mc) (mc_Capabilities mc) \<and>
        (\<forall>a \<in> set (mc_Aliases mc). Route s a = None) \<and>
        (\<forall>t \<in> set (mc_Targets mc). \<exists>p i. state_Provider s (tg_Provider t) = Some (Some p)
           \<and> state_Identity s (tg_Provider t) = Some i))"

definition fullyPriced :: "LiveState \<Rightarrow> bool" where
  "fullyPriced s \<longleftrightarrow>
     (\<exists>tbl. ls_pricing s = Some tbl \<and>
        (\<forall>m mc t. Route s m = Some mc \<and> t \<in> set (mc_Targets mc) \<longrightarrow> HasRate tbl (tg_Provider t) (tg_Model t)))"

lemma canonical_routed:
  assumes "wfTopology s" and "Route s m \<noteq> None"
  shows "Canonical s m = m"
proof (cases "Mapping.lookup (ls_aliases s) m")
  case None
  then show ?thesis by (simp add: Canonical_def)
next
  case (Some c)
  then obtain mc where "Route s c = Some mc" "m \<in> set (mc_Aliases mc)" using assms(1) by (auto simp: wfTopology_def)
  then have "Route s m = None" using assms(1) by (auto simp: wfTopology_def)
  then show ?thesis using assms(2) by simp
qed

lemma canonical_idem: "wfTopology s \<Longrightarrow> Canonical s (Canonical s m) = Canonical s m"
proof (cases "Mapping.lookup (ls_aliases s) m")
  case None
  then show ?thesis by (simp add: Canonical_def)
next
  case (Some c)
  assume wf: "wfTopology s"
  then have "Route s c \<noteq> None" using Some by (auto simp: wfTopology_def)
  then show ?thesis using canonical_routed [OF wf] Some by (simp add: Canonical_def)
qed

lemma build_outcome:
  assumes "BuildStateWith new cfg = Inr (s, ids)"
  obtains provs where "validateModelAliases (cf_Models cfg) = None" "builtOK cfg (provs, ids)"
    "\<forall>mt \<in> set (modelTargets (cf_Models cfg)). Mapping.lookup provs (tg_Provider (snd mt)) \<noteq> None"
    "validatePricingCoverage cfg (pricingFromConfig cfg) = None"
    "s = (NewState provs (cf_Models cfg) (Some (pricingFromConfig cfg)) ids)
       \<lparr>ls_providerConfigs := cf_Providers cfg, ls_fallbacks := cf_ModelFallbacks cfg,
        ls_fallbackFamily := FallbackFamilyEnabled cfg\<rparr>"
proof -
  obtain provs where provs: "validateModelAliases (cf_Models cfg) = None"
    "foldE (buildProvider new cfg) (Mapping.ordered_keys (cf_Providers cfg)) (Mapping.empty, Mapping.empty) = Inr (provs, ids)"
    "firstError (checkTarget provs) (modelTargets (cf_Models cfg)) = None"
    "validatePricingCoverage cfg (pricingFromConfig cfg) = None"
    "s = (NewState provs (cf_Models cfg) (Some (pricingFromConfig cfg)) ids)
       \<lparr>ls_providerConfigs := cf_Providers cfg, ls_fallbacks := cf_ModelFallbacks cfg,
        ls_fallbackFamily := FallbackFamilyEnabled cfg\<rparr>"
    using assms unfolding BuildStateWith_def Let_def
    by (simp split: option.split_asm sum.split_asm prod.split_asm)
  moreover have "builtOK cfg (Mapping.empty, Mapping.empty)" by (simp add: builtOK_def)
  then have "builtOK cfg (provs, ids)" using provs(2) by (rule build_providers_ok)
  moreover have "\<forall>mt \<in> set (modelTargets (cf_Models cfg)). Mapping.lookup provs (tg_Provider (snd mt)) \<noteq> None"
    using provs(3) by (simp add: firstError_None checkTarget_def split: if_split_asm)
  ultimately show thesis using that by blast
qed

lemma unpriced_none:
  "UnpricedTargets cfg tbl = [] \<longleftrightarrow>
     (\<forall>(m, t) \<in> set (modelTargets (cf_Models cfg)). HasRate tbl (tg_Provider t) (tg_Model t))"
proof -
  have "UnpricedTargets cfg tbl = [] \<longleftrightarrow> set (UnpricedTargets cfg tbl) = {}" by simp
  then show ?thesis by (auto simp: UnpricedTargets_def)
qed

lemma build_wf:
  assumes "BuildStateWith new cfg = Inr (s, ids)" and "finite (Mapping.keys (cf_Models cfg))"
  shows "wfTopology s" and "cf_OnMissing cfg = ''block'' \<Longrightarrow> fullyPriced s"
proof -
  obtain provs where b: "validateModelAliases (cf_Models cfg) = None" "builtOK cfg (provs, ids)"
    "\<forall>mt \<in> set (modelTargets (cf_Models cfg)). Mapping.lookup provs (tg_Provider (snd mt)) \<noteq> None"
    "validatePricingCoverage cfg (pricingFromConfig cfg) = None"
    "s = (NewState provs (cf_Models cfg) (Some (pricingFromConfig cfg)) ids)
       \<lparr>ls_providerConfigs := cf_Providers cfg, ls_fallbacks := cf_ModelFallbacks cfg,
        ls_fallbackFamily := FallbackFamilyEnabled cfg\<rparr>"
    by (rule build_outcome [OF assms(1)])
  have parts: "ls_models s = cf_Models cfg" "ls_providers s = provs" "ls_identities s = ids"
    "ls_pricing s = Some (pricingFromConfig cfg)"
    "ls_aliases s = fold (bindAliases (cf_Models cfg)) (Mapping.ordered_keys (cf_Models cfg)) Mapping.empty"
    using new_state_aliases by (simp_all add: b(5) NewState_def)
  note valid = aliases_valid [OF b(1) assms(2)]
  have "Mapping.lookup (ls_aliases s) a = Some c \<longleftrightarrow> (\<exists>mc. Route s c = Some mc \<and> a \<in> set (mc_Aliases mc))" for a c
    unfolding parts valid(1) by (auto simp: Route_def parts keys_lookup aliasesOf_def)
  moreover have "ValidateModelMetadata (mc_ContextWindow mc) (mc_Capabilities mc) \<and> (\<forall>a \<in> set (mc_Aliases mc). Route s a = None)"
    if "Route s m = Some mc" for m mc
    using valid(2) [of m] that by (auto simp: modelOK_def aliasesOf_def Route_def parts keys_lookup)
  moreover have "\<exists>p i. state_Provider s (tg_Provider t) = Some (Some p) \<and> state_Identity s (tg_Provider t) = Some i"
    if "Route s m = Some mc" "t \<in> set (mc_Targets mc)" for m mc t
  proof -
    have "(m, t) \<in> set (modelTargets (cf_Models cfg))"
      using that by (auto simp: modelTargets_in [OF assms(2)] Route_def parts)
    then obtain e where "Mapping.lookup provs (tg_Provider t) = Some e" using b(3) by force
    then show ?thesis using b(2) by (auto simp: builtOK_def state_Provider_def state_Identity_def parts)
  qed
  ultimately show "wfTopology s" using assms(2) unfolding wfTopology_def parts by blast
  assume "cf_OnMissing cfg = ''block''"
  then have "onMissing (pricingFromConfig cfg) = OnMissingBlock"
    by (simp add: pricingFromConfig_def FromConfigVersioned_def NewVersioned_def)
  then have "UnpricedTargets cfg (pricingFromConfig cfg) = []"
    using b(4) by (auto simp: validatePricingCoverage_def Let_def split: option.splits if_splits)
  then show "fullyPriced s"
    unfolding unpriced_none fullyPriced_def parts using modelTargets_in [OF assms(2)]
    by (fastforce simp: Route_def parts)
qed

section \<open>Versions\<close>

text \<open>The version numbers read as an infinite sequence padded with zeros.\<close>

definition padded :: "int list \<Rightarrow> nat \<Rightarrow> int" where
  "padded v i = (if i < length v then v ! i else 0)"

lemma padded_simps [simp]: "padded [] i = 0" "padded (x # v) 0 = x" "padded (x # v) (Suc i) = padded v i"
  by (simp_all add: padded_def)

definition versionLess :: "int list \<Rightarrow> int list \<Rightarrow> bool" where
  "versionLess a b \<longleftrightarrow> (\<exists>i. padded a i < padded b i \<and> (\<forall>j<i. padded a j = padded b j))"

lemma first_difference:
  fixes f g :: "nat \<Rightarrow> int"
  shows "(\<exists>i. f i < g i \<and> (\<forall>j<i. f j = g j)) \<longleftrightarrow> f 0 < g 0 \<or> f 0 = g 0 \<and> (\<exists>i. f (Suc i) < g (Suc i) \<and> (\<forall>j<i. f (Suc j) = g (Suc j)))"
  (is "?L \<longleftrightarrow> ?R")
proof
  assume ?L
  then obtain i where i: "f i < g i" "\<forall>j<i. f j = g j" by blast
  then show ?R by (cases i) auto
next
  assume ?R
  then show ?L
  proof
    assume "f 0 < g 0"
    then show ?L by (intro exI [of _ 0]) simp
  next
    assume "f 0 = g 0 \<and> (\<exists>i. f (Suc i) < g (Suc i) \<and> (\<forall>j<i. f (Suc j) = g (Suc j)))"
    then obtain i where i: "f 0 = g 0" "f (Suc i) < g (Suc i)" "\<forall>j<i. f (Suc j) = g (Suc j)" by blast
    have "\<forall>j<Suc i. f j = g j" using i(1,3) by (simp add: less_Suc_eq_0_disj) blast
    then show ?L using i(2) by blast
  qed
qed

lemma versionLess_simps:
  "\<not> versionLess [] []"
  "versionLess (x # a) [] \<longleftrightarrow> x < 0 \<or> x = 0 \<and> versionLess a []"
  "versionLess [] (y # b) \<longleftrightarrow> 0 < y \<or> y = 0 \<and> versionLess [] b"
  "versionLess (x # a) (y # b) \<longleftrightarrow> x < y \<or> x = y \<and> versionLess a b"
  using first_difference [of "padded (x # a)" "padded []"] first_difference [of "padded []" "padded (y # b)"]
    first_difference [of "padded (x # a)" "padded (y # b)"]
  by (auto simp: versionLess_def)

lemma compare_less: "compareVersions a b < 0 \<longleftrightarrow> versionLess a b"
  by (induction a b rule: compareVersions.induct) (auto simp: versionLess_simps)

lemma compare_swap: "compareVersions b a = - compareVersions a b"
  by (induction a b rule: compareVersions.induct) auto

lemma compare_greater: "compareVersions a b > 0 \<longleftrightarrow> versionLess b a"
  using compare_less [of b a] compare_swap [of b a] by simp

lemma versionLess_trans:
  assumes "versionLess a b" and "versionLess b c"
  shows "versionLess a c"
proof -
  obtain i where i: "padded a i < padded b i" "\<forall>j<i. padded a j = padded b j"
    using assms(1) by (auto simp: versionLess_def)
  obtain k where k: "padded b k < padded c k" "\<forall>j<k. padded b j = padded c j"
    using assms(2) by (auto simp: versionLess_def)
  have "padded a (min i k) < padded c (min i k)"
    using i k by (cases i k rule: linorder_cases) (auto simp: min_def)
  moreover have "\<forall>j<min i k. padded a j = padded c j" using i(2) k(2) by simp
  ultimately show ?thesis unfolding versionLess_def by blast
qed

text \<open>The candidates of the heuristic, and what the loop over the models keeps of them.\<close>

definition candidate :: "string \<Rightarrow> int list \<Rightarrow> string \<Rightarrow> int list \<Rightarrow> bool" where
  "candidate family version name v \<longleftrightarrow> familyOf name = Some (family, v) \<and> versionLess v version"

lemma better_step:
  "betterFallback family version name best =
     (case familyOf name of
        None \<Rightarrow> best
      | Some (f, v) \<Rightarrow>
          if \<not> candidate family version name v then best
          else (case best of None \<Rightarrow> Some (name, v) | Some (_, bv) \<Rightarrow> if versionLess bv v then Some (name, v) else best))"
  by (auto simp: betterFallback_def candidate_def compare_greater simp flip: compare_less split: option.splits)

definition bestAmong :: "string \<Rightarrow> int list \<Rightarrow> string set \<Rightarrow> (string \<times> int list) option \<Rightarrow> bool" where
  "bestAmong family version names best \<longleftrightarrow>
     (case best of
        None \<Rightarrow> \<forall>n \<in> names. \<forall>v. \<not> candidate family version n v
      | Some (b, bv) \<Rightarrow> b \<in> names \<and> candidate family version b bv
          \<and> (\<forall>n \<in> names. \<forall>v. candidate family version n v \<longrightarrow> \<not> versionLess bv v))"

lemma best_step:
  assumes "bestAmong family version names best"
  shows "bestAmong family version (insert name names) (betterFallback family version name best)"
proof (cases "\<exists>v. candidate family version name v")
  case False
  then have "betterFallback family version name best = best"
    by (auto simp: better_step split: option.splits)
  then show ?thesis using assms False by (auto simp: bestAmong_def split: option.splits)
next
  case True
  then obtain v where v: "candidate family version name v" by blast
  then have fam: "familyOf name = Some (family, v)" by (simp add: candidate_def)
  have only: "candidate family version name v' \<Longrightarrow> v' = v" for v' using fam by (simp add: candidate_def)
  show ?thesis
  proof (cases best)
    case None
    then have "betterFallback family version name best = Some (name, v)" using v fam by (simp add: better_step)
    moreover have "\<not> versionLess v v" by (auto simp: versionLess_def)
    ultimately show ?thesis using assms None v by (auto simp: bestAmong_def dest: only)
  next
    case (Some bb)
    obtain b bv where best: "best = Some (b, bv)" using Some by (cases bb) simp
    have new: "betterFallback family version name best = (if versionLess bv v then Some (name, v) else best)"
      using v fam by (simp add: better_step best)
    show ?thesis
    proof (cases "versionLess bv v")
      case True
      have "\<not> versionLess v v'" if "n \<in> names" "candidate family version n v'" for n v'
        using assms that True versionLess_trans [of bv v v'] by (auto simp: bestAmong_def best)
      moreover have "\<not> versionLess v v" by (auto simp: versionLess_def)
      ultimately show ?thesis using True v by (auto simp: bestAmong_def new dest: only)
    next
      case False
      then have "betterFallback family version name best = Some (b, bv)" using new by (simp add: best)
      then show ?thesis using assms False by (auto simp: bestAmong_def best dest: only)
    qed
  qed
qed

lemma best_fold:
  assumes "bestAmong family version names best"
  shows "bestAmong family version (names \<union> set ns) (fold (betterFallback family version) ns best)"
  using assms
proof (induction ns arbitrary: names best)
  case Nil
  then show ?case by simp
next
  case (Cons n ns)
  from Cons.IH [OF best_step [OF Cons.prems, of n]] show ?case by simp
qed

text \<open>The order in which the models are visited decides between names of equal version only.\<close>

lemma fallback_any_order:
  assumes "set ms = set ns"
  shows "rel_option (\<lambda>(n, v) (m, w). compareVersions v w = 0)
    (fold (betterFallback family version) ns None) (fold (betterFallback family version) ms None)"
proof -
  have start: "bestAmong family version {} None" by (simp add: bestAmong_def)
  have same: "compareVersions v w = 0" if "\<not> versionLess v w" "\<not> versionLess w v" for v w
    using that compare_less [of v w] compare_greater [of v w] by linarith
  from best_fold [OF start, of ns] best_fold [OF start, of ms] show ?thesis
    by (auto simp: bestAmong_def assms rel_option_iff split: option.splits intro!: same)
qed

section \<open>Properties\<close>

definition sampleFactory :: factory where
  "sampleFactory fc = Inr \<lparr>pv_Name = fc_Type fc, pv_SupportsIngress = None\<rparr>"

definition sampleModel :: "string list \<Rightarrow> string \<Rightarrow> ModelConfig" where
  "sampleModel aliases upstream = \<lparr>mc_Capabilities = [''tools''], mc_Aliases = aliases,
     mc_Targets = [\<lparr>tg_Provider = ''a'', tg_Model = upstream, tg_API = []\<rparr>], mc_ContextWindow = 1000\<rparr>"

definition sampleTopology :: TopologyConfig where
  "sampleTopology = \<lparr>cf_Providers = Mapping.update ''a'' \<lparr>pc_DataBoundary = ''internal'', pc_Type = ''mock'', pc_BaseURL = ''u'',
       pc_APIKey = [], pc_Region = ''eu'', pc_AuthMode = [], pc_AuthProfile = [], pc_AuthHeader = [],
       pc_GuardrailID = [], pc_GuardrailVersion = []\<rparr> Mapping.empty,
     cf_Models = Mapping.update ''m-1'' (sampleModel [''x''] ''up1'') (Mapping.update ''m-2'' (sampleModel [] ''up2'') Mapping.empty),
     cf_OnMissing = ''allow'', cf_PricingVersion = [], cf_Overrides = Mapping.empty,
     cf_ModelFallbacks = Mapping.empty, cf_ModelFallbackFamily = None\<rparr>"

definition sampleState :: LiveState where
  "sampleState = (case BuildStateWith sampleFactory sampleTopology of Inl _ \<Rightarrow> NewState Mapping.empty Mapping.empty None Mapping.empty
     | Inr (s, _) \<Rightarrow> s)"

lemma sample_builds: "\<exists>ids. BuildStateWith sampleFactory sampleTopology = Inr (sampleState, ids)"
proof -
  have "(case BuildStateWith sampleFactory sampleTopology of Inl _ \<Rightarrow> False | Inr _ \<Rightarrow> True)" by code_simp
  then show ?thesis by (auto simp: sampleState_def split: sum.splits)
qed

lemma sample_finite: "finite (Mapping.keys (cf_Models sampleTopology))"
  by (simp add: sampleTopology_def)

text \<open>
  C35: a generation is published only when it is well formed: the alias table maps exactly
  the declared aliases to the one model that declares each, no alias shadows a model, so
  resolving twice changes nothing; every target of every model names a provider that was
  built and has a breaker identity; context windows and capabilities are valid; and with
  \<^verbatim>\<open>on_missing\<close> set to block every target has a rate.
\<close>

theorem published_topology_wellformed:
  assumes "BuildStateWith new cfg = Inr (s, ids)" and "finite (Mapping.keys (cf_Models cfg))"
  shows "wfTopology s \<and> (\<forall>m. Canonical s (Canonical s m) = Canonical s m) \<and> (cf_OnMissing cfg = ''block'' \<longrightarrow> fullyPriced s)"
  using build_wf [OF assms] canonical_idem by blast

theorem published_topology_wellformed_witness:
  "wfTopology sampleState \<and> Canonical sampleState ''x'' = ''m-1''"
proof -
  obtain ids where "BuildStateWith sampleFactory sampleTopology = Inr (sampleState, ids)" using sample_builds by blast
  from published_topology_wellformed [OF this sample_finite]
  have "wfTopology sampleState" by blast
  moreover have "Canonical sampleState ''x'' = ''m-1''" by code_simp
  ultimately show ?thesis by blast
qed

text \<open>
  The version heuristic serves an unrouted model by its nearest predecessor: without an
  explicit fallback the result is empty exactly when no configured model of the family has a
  lower version, and otherwise it is a configured model of the same family whose version is
  strictly lower and not exceeded by any other such model, comparing versions as sequences
  padded with zeros.
\<close>

lemma family_fallback_nearest:
  assumes "Mapping.lookup (ls_fallbacks s) model = None" and "ls_fallbackFamily s"
    and "familyOf model = Some (family, version)" and "finite (Mapping.keys (ls_models s))"
  shows "if FallbackFor s model = [] then \<forall>n. Route s n \<noteq> None \<longrightarrow> (\<forall>v. \<not> candidate family version n v)
    else \<exists>bv. Route s (FallbackFor s model) \<noteq> None \<and> candidate family version (FallbackFor s model) bv
      \<and> (\<forall>n v. Route s n \<noteq> None \<and> candidate family version n v \<longrightarrow> \<not> versionLess bv v)"
proof -
  let ?best = "fold (betterFallback family version) (Mapping.ordered_keys (ls_models s)) None"
  have "bestAmong family version ({} \<union> set (Mapping.ordered_keys (ls_models s))) ?best"
    by (rule best_fold) (simp add: bestAmong_def)
  then have best: "bestAmong family version (Mapping.keys (ls_models s)) ?best" using assms(4) by simp
  have routed: "Route s n \<noteq> None \<longleftrightarrow> n \<in> Mapping.keys (ls_models s)" for n by (simp add: Route_def keys_lookup)
  have "\<not> candidate family version [] v" for v by (simp add: candidate_def familyOf_def Atoi_def)
  then show ?thesis
    using best assms(1-3) unfolding routed bestAmong_def FallbackFor_def by (auto split: option.splits)
qed

end
