(* ===== verification/Router.thy ===== *)
theory Router
  imports LiveProps Subjects Breaker
begin

text \<open>
  The router, \<^verbatim>\<open>internal/router/router.go\<close>: resolving a requested model to a chain of upstream
  targets with priority fallback and a circuit breaker per provider, the allow-list of a
  virtual key narrowed by a policy gate, and the optional substitution of a budget tier.

  Every \<^verbatim>\<open>live.Load()\<close> of the source is an argument: a call that loads twice takes two
  generations, because a reload may happen in between. The clock the breaker reads for the
  i-th target is \<open>clk i\<close>. The metrics sink is not modelled. Errors are the two kinds of
  missing route.
\<close>

section \<open>State\<close>

record Router =
  rt_brk :: breaker
  rt_policyGate :: "(Principal \<Rightarrow> string \<Rightarrow> (string \<Rightarrow> string) \<Rightarrow> bool) option"
  rt_tierGate :: "(Principal \<Rightarrow> (string, string) mapping) option"
  rt_budgetGate :: "(Principal \<Rightarrow> (string, string) mapping) option"

definition NewRouter :: Router where
  "NewRouter = \<lparr>rt_brk = newBreaker 5 Second, rt_policyGate = None, rt_tierGate = None, rt_budgetGate = None\<rparr>"

definition SetPolicyGate :: "(Principal \<Rightarrow> string \<Rightarrow> (string \<Rightarrow> string) \<Rightarrow> bool) option \<Rightarrow> Router \<Rightarrow> Router" where
  "SetPolicyGate gate r = r\<lparr>rt_policyGate := gate\<rparr>"

definition SetTierGate :: "(Principal \<Rightarrow> (string, string) mapping) option \<Rightarrow> Router \<Rightarrow> Router" where
  "SetTierGate gate r = r\<lparr>rt_tierGate := gate\<rparr>"

definition SetBudgetConstraintGate :: "(Principal \<Rightarrow> (string, string) mapping) option \<Rightarrow> Router \<Rightarrow> Router" where
  "SetBudgetConstraintGate gate r = r\<lparr>rt_budgetGate := gate\<rparr>"

section \<open>Names and access\<close>

definition ContextWindow :: "LiveState \<Rightarrow> string \<Rightarrow> int" where
  "ContextWindow st model = (case Route st (Canonical st model) of None \<Rightarrow> 0 | Some mc \<Rightarrow> mc_ContextWindow mc)"

definition ResolveModel :: "LiveState \<Rightarrow> string \<Rightarrow> string \<times> bool" where
  "ResolveModel st requested =
     (let canonical = Canonical st requested
      in if Route st canonical \<noteq> None then (canonical, False)
         else let fb = FallbackFor st canonical in if fb \<noteq> [] then (fb, True) else (canonical, False))"

definition Allows :: "Router \<Rightarrow> LiveState \<Rightarrow> Principal \<Rightarrow> string \<Rightarrow> bool" where
  "Allows r st p model =
     (let allowed = (Principal_Allows p model \<or> list_ex (\<lambda>m. Canonical st m = model) (pn_AllowedModels p))
      in if \<not> allowed then False
         else (case rt_policyGate r of None \<Rightarrow> True | Some gate \<Rightarrow> gate p model (Canonical st)))"

text \<open>The three loads of a substitution: the check of the source, the topology, the check of the target.\<close>

definition SubstituteTier :: "Router \<Rightarrow> LiveState \<Rightarrow> LiveState \<Rightarrow> LiveState \<Rightarrow> Principal \<Rightarrow> string \<Rightarrow> string \<times> bool" where
  "SubstituteTier r st1 st st3 p canonical =
     (case rt_tierGate r of
        None \<Rightarrow> (canonical, False)
      | Some gate \<Rightarrow>
          if \<not> Allows r st1 p canonical then (canonical, False)
          else (case Mapping.lookup (gate p) canonical of
                  None \<Rightarrow> (canonical, False)
                | Some target0 \<Rightarrow>
                    if target0 = [] then (canonical, False)
                    else (let target = Canonical st target0
                          in if target = canonical then (canonical, False)
                             else if Route st target = None then (canonical, False)
                             else if \<not> Allows r st3 p target then (canonical, False)
                             else (target, True))))"

section \<open>Chains\<close>

record ChainTarget =
  ct_Provider :: "Provider option"
  ct_ProviderName :: string
  ct_Identity :: string
  ct_Upstream :: string
  ct_Model :: string
  ct_Region :: string
  ct_DataBoundary :: string

datatype route_error = NoRoute string | UnknownProviders string

definition hasTargets :: "LiveState \<Rightarrow> string \<Rightarrow> bool" where
  "hasTargets st model \<longleftrightarrow> (case Route st model of None \<Rightarrow> False | Some mc \<Rightarrow> mc_Targets mc \<noteq> [])"

definition targetsOf :: "LiveState \<Rightarrow> string \<Rightarrow> Target list" where
  "targetsOf st model = (case Route st model of None \<Rightarrow> [] | Some mc \<Rightarrow> mc_Targets mc)"

text \<open>A target whose provider is unknown is skipped; a missing identity reads as the empty string.\<close>

definition chainTarget :: "LiveState \<Rightarrow> string \<Rightarrow> Target \<Rightarrow> ChainTarget option" where
  "chainTarget st m t =
     (case state_Provider st (tg_Provider t) of
        None \<Rightarrow> None
      | Some p \<Rightarrow>
          Some \<lparr>ct_Provider = p, ct_ProviderName = tg_Provider t,
                ct_Identity = (case state_Identity st (tg_Provider t) of None \<Rightarrow> [] | Some i \<Rightarrow> i),
                ct_Upstream = tg_Model t, ct_Model = m, ct_Region = state_Region st (tg_Provider t),
                ct_DataBoundary = DataBoundary st (tg_Provider t)\<rparr>)"

definition modelChain :: "LiveState \<Rightarrow> string \<Rightarrow> ChainTarget list" where
  "modelChain st m = List.map_filter (chainTarget st m) (targetsOf st m)"

definition chainModels :: "LiveState \<Rightarrow> string \<Rightarrow> string list" where
  "chainModels st model =
     (let fb = FallbackFor st model in if fb \<noteq> [] \<and> hasTargets st fb then [model, fb] else [model])"

definition closedTargets :: "(nat \<Rightarrow> gotime) \<Rightarrow> breaker \<Rightarrow> ChainTarget list \<Rightarrow> ChainTarget list" where
  "closedTargets clk b chain =
     map snd (filter (\<lambda>(i, ct). brk_Allow (clk i) (ct_Identity ct) b) (enumerate 0 chain))"

definition ResolveChain :: "(nat \<Rightarrow> gotime) \<Rightarrow> Router \<Rightarrow> LiveState \<Rightarrow> string \<Rightarrow> route_error + ChainTarget list" where
  "ResolveChain clk r st model =
     (if \<not> hasTargets st model then Inl (NoRoute model)
      else (let all = concat (map (modelChain st) (chainModels st model));
                allowed = closedTargets clk (rt_brk r) all
            in if all = [] then Inl (UnknownProviders model)
               else if allowed = [] then Inr all
               else Inr allowed))"

definition FilterModelAllowed :: "ChainTarget list \<Rightarrow> (string \<Rightarrow> bool) \<Rightarrow> ChainTarget list" where
  "FilterModelAllowed chain allowed =
     (case chain of
        [] \<Rightarrow> chain
      | first # _ \<Rightarrow> filter (\<lambda>ct. ct_Model ct = ct_Model first \<or> allowed (ct_Model ct)) chain)"

definition FilterRegions :: "ChainTarget list \<Rightarrow> string list \<Rightarrow> ChainTarget list" where
  "FilterRegions chain allowed =
     (if allowed = [] then chain else filter (\<lambda>ct. ct_Region ct \<noteq> [] \<and> ct_Region ct \<in> set allowed) chain)"

definition RecordResult :: "gotime \<Rightarrow> string \<Rightarrow> bool \<Rightarrow> Router \<Rightarrow> Router" where
  "RecordResult now identity ok r =
     r\<lparr>rt_brk := (if ok then RecordSuccess identity (rt_brk r) else RecordFailure now identity (rt_brk r))\<rparr>"

definition RetainBreakers :: "(string, string) mapping \<Rightarrow> Router \<Rightarrow> Router" where
  "RetainBreakers identities r =
     r\<lparr>rt_brk := brk_Retain (set (map (\<lambda>n. the (Mapping.lookup identities n)) (Mapping.ordered_keys identities))) (rt_brk r)\<rparr>"

definition ResolveProvider :: "LiveState \<Rightarrow> string \<Rightarrow> route_error + Provider option \<times> string \<times> string" where
  "ResolveProvider st model =
     (case targetsOf st model of
        [] \<Rightarrow> Inl (NoRoute model)
      | t # _ \<Rightarrow>
          (case state_Provider st (tg_Provider t) of
             None \<Rightarrow> Inl (UnknownProviders model)
           | Some p \<Rightarrow> Inr (p, tg_Provider t, tg_Model t)))"

definition Resolve :: "LiveState \<Rightarrow> string \<Rightarrow> route_error + Provider option \<times> string" where
  "Resolve st model = (case ResolveProvider st model of Inl e \<Rightarrow> Inl e | Inr (p, _, up) \<Rightarrow> Inr (p, up))"

section \<open>Lemmas\<close>

lemma enumerate_positions:
  "map snd (filter (\<lambda>(i, x). P i x) (enumerate k xs)) = nths xs {i. i < length xs \<and> P (k + i) (xs ! i)}"
proof (induction xs arbitrary: k)
  case Nil
  then show ?case by simp
next
  case (Cons x xs)
  have "{j. Suc j \<in> {i. i < length (x # xs) \<and> P (k + i) ((x # xs) ! i)}} = {i. i < length xs \<and> P (Suc k + i) (xs ! i)}"
    by auto
  then show ?case using Cons.IH [of "Suc k"] by (auto simp: nths_Cons)
qed

lemma closed_subset: "set (closedTargets clk b chain) \<subseteq> set chain"
  by (auto simp: closedTargets_def in_set_enumerate_eq)

lemma closed_allowed: "ct \<in> set (closedTargets clk b chain) \<Longrightarrow> \<exists>i. brk_Allow (clk i) (ct_Identity ct) b"
  by (auto simp: closedTargets_def)

lemma model_chain_models: "ct \<in> set (modelChain st m) \<Longrightarrow> ct_Model ct = m"
  by (auto simp: modelChain_def List.map_filter_def chainTarget_def split: option.splits)

lemma model_chain_nonempty:
  assumes "wfTopology st" and "hasTargets st m"
  shows "length (modelChain st m) = length (targetsOf st m)" and "modelChain st m \<noteq> []"
proof -
  obtain mc where mc: "Route st m = Some mc" "mc_Targets mc \<noteq> []" using assms(2) by (auto simp: hasTargets_def split: option.splits)
  have "chainTarget st m t \<noteq> None" if "t \<in> set (mc_Targets mc)" for t
  proof -
    obtain p where "state_Provider st (tg_Provider t) = Some (Some p)"
      using assms(1) mc(1) \<open>t \<in> set (mc_Targets mc)\<close> unfolding wfTopology_def by blast
    then show ?thesis by (simp add: chainTarget_def)
  qed
  then have "filter (\<lambda>t. chainTarget st m t \<noteq> None) (mc_Targets mc) = mc_Targets mc" by (simp add: filter_id_conv)
  then show "length (modelChain st m) = length (targetsOf st m)"
    using mc(1) by (simp add: modelChain_def targetsOf_def List.map_filter_def)
  then show "modelChain st m \<noteq> []" using mc by (auto simp: targetsOf_def)
qed

lemma closed_all:
  assumes "\<forall>ct \<in> set chain. \<forall>i. brk_Allow (clk i) (ct_Identity ct) b"
  shows "closedTargets clk b chain = chain"
proof -
  have "filter (\<lambda>(i, ct). brk_Allow (clk i) (ct_Identity ct) b) (enumerate 0 chain) = enumerate 0 chain"
    using assms by (auto simp: filter_id_conv in_set_enumerate_eq)
  then show ?thesis by (simp add: closedTargets_def)
qed

section \<open>Properties\<close>

text \<open>
  The substitution of a budget tier can only narrow: when it happens, the requested model
  was allowed for the principal, the tier names a target for it, and the served model is that
  target's canonical name, is routed, differs from the requested one and is itself allowed for
  the principal; otherwise the requested model is served unchanged, in particular when the
  principal may not use the target or the tier gate is silent.
\<close>

lemma substitution_only_narrows:
  assumes "SubstituteTier r st1 st st3 p model = (served, substituted)"
  shows "if substituted
    then Allows r st1 p model \<and> Allows r st3 p served \<and> Route st served \<noteq> None \<and> served \<noteq> model
      \<and> (\<exists>gate target. rt_tierGate r = Some gate \<and> Mapping.lookup (gate p) model = Some target \<and> served = Canonical st target)
    else served = model"
  using assms by (auto simp: SubstituteTier_def Let_def split: option.splits if_splits)

definition sampleKey :: "string list \<Rightarrow> Principal" where
  "sampleKey models = \<lparr>pn_KeyID = ''k'', pn_Team = ''t'', pn_AllowedModels = models, pn_Owner = [], pn_RPM = 0, pn_TPM = 0,
     pn_BudgetUSDMicros = 0, pn_BudgetUSDMicrosPerDay = 0, pn_ExpiresAt = None, pn_SharedRevision = [],
     pn_TeamSnapshot = None, pn_TeamSnapshotLoaded = False\<rparr>"

definition sampleRouter :: Router where
  "sampleRouter = SetTierGate (Some (\<lambda>p. Mapping.update ''m-2'' ''x'' Mapping.empty)) NewRouter"

text \<open>
  Resolving a routed model never fails in a well-formed generation and never loses the
  configured order: with the targets of the model followed by those of its fallback, the chain
  is the subsequence of the targets whose breaker admits them, and the whole list when no
  breaker admits any, so that a request is still tried.
\<close>

lemma resolve_chain_available:
  assumes "wfTopology st" and "hasTargets st model"
  shows "\<exists>chain. ResolveChain clk r st model = Inr chain \<and> chain \<noteq> [] \<and>
    (let all = concat (map (modelChain st) (chainModels st model));
         closed = {i. i < length all \<and> brk_Allow (clk i) (ct_Identity (all ! i)) (rt_brk r)}
     in (\<forall>ct \<in> set (take (length (targetsOf st model)) all). ct_Model ct = model) \<and>
        chain = (if closed = {} then all else nths all closed))"
proof -
  define all where "all = concat (map (modelChain st) (chainModels st model))"
  define closed where "closed = {i. i < length all \<and> brk_Allow (clk i) (ct_Identity (all ! i)) (rt_brk r)}"
  have len: "length (modelChain st model) = length (targetsOf st model)" and "modelChain st model \<noteq> []"
    by (rule model_chain_nonempty [OF assms])+
  moreover obtain rest where rest: "all = modelChain st model @ rest"
    by (cases "FallbackFor st model \<noteq> [] \<and> hasTargets st (FallbackFor st model)")
      (auto simp: all_def chainModels_def Let_def)
  ultimately have ne: "all \<noteq> []" by simp
  have positions: "closedTargets clk (rt_brk r) all = nths all closed"
    using enumerate_positions [of "\<lambda>i ct. brk_Allow (clk i) (ct_Identity ct) (rt_brk r)" 0 all]
    by (simp add: closedTargets_def closed_def)
  have empty: "nths all closed = [] \<longleftrightarrow> closed = {}"
    by (auto simp: closed_def set_nths simp flip: set_empty)
  have own: "\<forall>ct \<in> set (take (length (targetsOf st model)) all). ct_Model ct = model"
    using len model_chain_models by (simp add: rest)
  have "ResolveChain clk r st model = Inr (if closed = {} then all else nths all closed)"
    using assms(2) ne empty positions by (simp add: ResolveChain_def Let_def flip: all_def)
  then show ?thesis using own ne empty unfolding Let_def all_def [symmetric] closed_def [symmetric] by auto
qed

text \<open>
  C36: no provider is shut out for good: whatever calls failed or succeeded and whatever
  breakers a reload dropped, thirty seconds after the last recorded failure the chain of every
  routed model is again complete, all targets in their configured order.
\<close>

theorem chain_recovers:
  assumes "wfTopology st" and "hasTargets st model"
    and "rt_brk r = brk_run ops (newBreaker 5 Second)" and "int (length ops) < MaxInt64"
    and "\<forall>t q. BFailure t q \<in> set ops \<longrightarrow> t \<le> T" and "0 \<le> T" and "\<forall>i. T + 30 * Second \<le> clk i"
  shows "ResolveChain clk r st model = Inr (concat (map (modelChain st) (chainModels st model)))"
proof -
  have "modelChain st model \<noteq> []" by (rule model_chain_nonempty [OF assms(1,2)])
  then have ne: "concat (map (modelChain st) (chainModels st model)) \<noteq> []"
    by (auto simp: chainModels_def Let_def)
  have "brk_Allow (clk i) p (rt_brk r)" for i p
    unfolding assms(3) by (rule breaker_recovers [OF _ _ _ assms(4-6)]) (use assms(7) in \<open>simp_all add: Second_def maxBackoff_def\<close>)
  then show ?thesis
    using assms(2) ne by (simp add: ResolveChain_def Let_def closed_all)
qed

theorem chain_recovers_witness:
  "ResolveChain (\<lambda>i. 40 * Second) (NewRouter\<lparr>rt_brk := brk_run (replicate 6 (BFailure 7 ''mock'')) (newBreaker 5 Second)\<rparr>) sampleState ''m-2''
   = Inr (concat (map (modelChain sampleState) (chainModels sampleState ''m-2'')))"
proof -
  have "wfTopology sampleState" using sample_builds build_wf(1) [OF _ sample_finite] by blast
  moreover have "hasTargets sampleState ''m-2''" by code_simp
  ultimately show ?thesis
    by (rule chain_recovers [where ops = "replicate 6 (BFailure 7 ''mock'')" and T = 7])
      (auto simp: Second_def MaxInt64_def)
qed

text \<open>
  The re-check of a fallback takes the first target's model for the requested one. When the
  breakers of the requested model are all open, the chain starts with its fallback, which then
  passes although the key does not allow it.
\<close>

definition pairState :: LiveState where
  "pairState = NewState (Mapping.update ''a'' (Some \<lparr>pv_Name = ''mock'', pv_SupportsIngress = None\<rparr>)
      (Mapping.update ''b'' (Some \<lparr>pv_Name = ''mock'', pv_SupportsIngress = None\<rparr>) Mapping.empty))
    (Mapping.update ''m-2'' \<lparr>mc_Capabilities = [], mc_Aliases = [],
        mc_Targets = [\<lparr>tg_Provider = ''a'', tg_Model = ''u'', tg_API = []\<rparr>], mc_ContextWindow = 0\<rparr>
      (Mapping.update ''m-1'' \<lparr>mc_Capabilities = [], mc_Aliases = [],
        mc_Targets = [\<lparr>tg_Provider = ''b'', tg_Model = ''v'', tg_API = []\<rparr>], mc_ContextWindow = 0\<rparr> Mapping.empty))
    None (Mapping.update ''a'' ''ia'' (Mapping.update ''b'' ''ib'' Mapping.empty))\<lparr>ls_fallbackFamily := True\<rparr>"

lemma filter_passes_promoted_fallback:
  "let r = NewRouter\<lparr>rt_brk := brk_run (replicate 5 (BFailure 7 ''ia'')) (newBreaker 5 Second)\<rparr>;
       p = sampleKey [''m-2'']
   in \<not> Allows r pairState p ''m-1'' \<and>
      (case ResolveChain (\<lambda>i. 8) r pairState ''m-2'' of
         Inl e \<Rightarrow> False
       | Inr chain \<Rightarrow> map ct_Model (FilterModelAllowed chain (Allows r pairState p)) = [''m-1''])"
  by code_simp

end
