(* ===== verification/RouteBoundary.thy ===== *)
theory RouteBoundary
  imports Router PolicyStore "HOL-Library.Product_Lexorder"
begin

text \<open>
  The boundary of one request, \<^verbatim>\<open>internal/router/request_routing.go\<close>: which targets a request may
  reach given its principal, region restriction, privacy obligations, budget ceiling, wire
  protocol and inspected features. The inspector and the redactor are interfaces of the source
  and parameters here; the result of an inspection is a record. Request bytes are strings.
\<close>

section \<open>Types\<close>

record Inspection =
  ip_Complete :: bool
  ip_Categories :: "string list"
  ip_InputTokens :: int
  ip_OutputTokens :: int
  ip_UserTurns :: int
  ip_HasHistory :: bool
  ip_HasTools :: bool
  ip_HasVision :: bool
  ip_HasReasoning :: bool
  ip_HasStructuredOutput :: bool
  ip_HasRemoteTools :: bool

type_synonym redactor = "string \<Rightarrow> string \<Rightarrow> string option"

record RequestRoutingInput =
  ri_Principal :: Principal
  ri_Protocol :: string
  ri_RawBody :: string
  ri_RequestedModel :: string
  ri_Model :: string
  ri_Chain :: "ChainTarget list"
  ri_State :: "LiveState option"
  ri_AllowedRegions :: "string list"
  ri_CountOnly :: bool
  ri_SessionHint :: string
  ri_Redactor :: "redactor option"
  ri_Compatible :: "(ChainTarget \<Rightarrow> bool) option"

record RoutingPolicyRef =
  rf_Name :: string
  rf_Generation :: int
  rf_Rule :: string

record requestRule =
  rr_ref :: RoutingPolicyRef
  rr_sensitive :: "SensitiveData option"
  rr_context :: "PolicyContext option"

type_synonym requestTargetKey = "string \<times> string"

text \<open>The nil model set means unrestricted; the state of the input is present once the boundary exists.\<close>

record requestBoundary =
  bd_in :: RequestRoutingInput
  bd_state :: LiveState
  bd_inspection :: "Inspection option"
  bd_models :: "string set option"
  bd_apis :: "(requestTargetKey, string) mapping"
  bd_converseSafe :: bool
  bd_budgetModel :: string

section \<open>Access in a fixed generation\<close>

definition allowsInState :: "Router \<Rightarrow> Principal \<Rightarrow> string \<Rightarrow> LiveState \<Rightarrow> bool" where
  "allowsInState r p model st \<longleftrightarrow>
     (Principal_Allows p model \<or> list_ex (\<lambda>name. Canonical st name = model) (pn_AllowedModels p))
     \<and> (case rt_policyGate r of None \<Rightarrow> True | Some gate \<Rightarrow> gate p model (Canonical st))"

definition requestAPIs :: "LiveState \<Rightarrow> (requestTargetKey, string) mapping" where
  "requestAPIs st =
     fold (\<lambda>(m, t) apis.
         if tg_API t = [] then apis
         else (let key = (tg_Provider t, tg_Model t)
               in case Mapping.lookup apis key of
                    Some previous \<Rightarrow>
                      if previous \<noteq> tg_API t then Mapping.update key ''conflicting'' apis else Mapping.update key (tg_API t) apis
                  | None \<Rightarrow> Mapping.update key (tg_API t) apis))
       (modelTargets (ls_models st)) Mapping.empty"

definition intersect :: "string list \<Rightarrow> requestBoundary \<Rightarrow> requestBoundary" where
  "intersect names b =
     (let S = set (map (Canonical (bd_state b)) names)
      in b\<lparr>bd_models := (case bd_models b of None \<Rightarrow> Some S | Some M \<Rightarrow> Some (M \<inter> S))\<rparr>)"

section \<open>Compatibility\<close>

text \<open>Subtracting after the range checks: the sum of input and output may exceed \<^verbatim>\<open>int64\<close>.\<close>

definition fitsRequest :: "ModelConfig \<Rightarrow> Inspection \<Rightarrow> bool" where
  "fitsRequest mc s \<longleftrightarrow>
     \<not> (ip_InputTokens s < 0 \<or> ip_OutputTokens s < 0 \<or> mc_ContextWindow mc \<le> 0
        \<or> ip_InputTokens s > mc_ContextWindow mc \<or> ip_OutputTokens s > sub64 (mc_ContextWindow mc) (ip_InputTokens s))
     \<and> list_all (\<lambda>(required, name). \<not> (required \<and> name \<notin> set (mc_Capabilities mc)))
         [(ip_HasTools s, ''tools''), (ip_HasVision s, ''vision''), (ip_HasReasoning s, ''reasoning''),
          (ip_HasStructuredOutput s, ''structured_output'')]"

fun containsSub :: "string \<Rightarrow> string \<Rightarrow> bool" where
  "containsSub p [] \<longleftrightarrow> p = []"
| "containsSub p (c # s) \<longleftrightarrow> take (length p) (c # s) = p \<or> containsSub p s"

definition featured :: "Inspection option \<Rightarrow> bool" where
  "featured s \<longleftrightarrow>
     (case s of None \<Rightarrow> False
      | Some i \<Rightarrow> \<not> ip_Complete i \<or> ip_HasVision i \<or> ip_HasReasoning i \<or> ip_HasStructuredOutput i)"

definition bedrockAPI :: "Target \<Rightarrow> string" where
  "bedrockAPI target =
     (if tg_API target \<noteq> [] then tg_API target
      else if containsSub ''anthropic.'' (tg_Model target) \<or> containsSub ''claude'' (tg_Model target) then ''invoke_model''
      else ''converse'')"

definition requestCompatible :: "string \<Rightarrow> Provider \<Rightarrow> Target \<Rightarrow> Inspection option \<Rightarrow> bool \<Rightarrow> bool" where
  "requestCompatible ingress provider target s converseSafe =
     (let declared = pv_SupportsIngress provider; name = pv_Name provider
      in if (case declared of None \<Rightarrow> False | Some supports \<Rightarrow> \<not> supports ingress) then False
         else if ingress = ''responses'' then
           if name = ''openai_responses'' then True
           else if name = ''bedrock'' \<or> s = None \<or> featured s then False
           else name = ''anthropic'' \<or> name = ''openai_compatible'' \<or> declared \<noteq> None
         else if name = ''openai_responses'' then False
         else if ingress \<noteq> ''anthropic'' \<and> ingress \<noteq> ''openai'' \<and> ingress \<noteq> ''bedrock'' then False
         else if name = ''anthropic'' then ingress = ''anthropic''
         else if name = ''openai_compatible'' then ingress = ''openai'' \<or> \<not> featured s
         else if name = ''bedrock'' then
           (let api = bedrockAPI target
            in if api = ''invoke_model'' then ingress \<noteq> ''openai''
               else if api = ''converse'' then
                 \<not> featured s \<and> \<not> (ingress = ''openai'' \<and> (case s of None \<Rightarrow> False | Some i \<Rightarrow> ip_HasTools i))
                 \<and> (s = None \<or> converseSafe)
               else if api = ''mantle'' then \<not> featured s
               else False)
         else if name = ''mock'' then True
         else if declared \<noteq> None then True
         else ingress \<noteq> ''bedrock'' \<and> \<not> featured s)"

definition compatible :: "requestBoundary \<Rightarrow> ChainTarget \<Rightarrow> Provider \<Rightarrow> Target \<Rightarrow> bool" where
  "compatible b ct p target =
     (if \<not> requestCompatible (ri_Protocol (bd_in b)) p target (bd_inspection b) (bd_converseSafe b) then False
      else if ri_Protocol (bd_in b) = ''responses'' \<and> pv_Name p \<noteq> ''openai_responses'' \<and> ri_Compatible (bd_in b) = None then False
      else (case ri_Compatible (bd_in b) of None \<Rightarrow> True | Some f \<Rightarrow> f ct))"

section \<open>The filter\<close>

definition findTarget :: "ModelConfig \<Rightarrow> ChainTarget \<Rightarrow> Target option" where
  "findTarget mc ct = List.find (\<lambda>t. tg_Provider t = ct_ProviderName ct \<and> tg_Model t = ct_Upstream ct) (mc_Targets mc)"

definition withAPI :: "requestBoundary \<Rightarrow> Target \<Rightarrow> Target" where
  "withAPI b t =
     (case Mapping.lookup (bd_apis b) (tg_Provider t, tg_Model t) of None \<Rightarrow> t | Some api \<Rightarrow> t\<lparr>tg_API := api\<rparr>)"

definition regionAllowed :: "string list \<Rightarrow> string \<Rightarrow> bool" where
  "regionAllowed regions region \<longleftrightarrow> \<not> (regions \<noteq> [] \<and> (region = [] \<or> region \<notin> set regions))"

text \<open>The metadata requirement: every model but the explicitly selected one must declare its
  context, its capabilities and its price.\<close>

definition metadataOK :: "requestBoundary \<Rightarrow> bool \<Rightarrow> ChainTarget \<Rightarrow> Provider \<Rightarrow> ModelConfig \<Rightarrow> bool" where
  "metadataOK b automatic ct p mc =
     (case bd_inspection b of
        None \<Rightarrow> True
      | Some s \<Rightarrow>
          if automatic \<or> ct_Model ct \<noteq> ri_Model (bd_in b) \<or> bd_budgetModel b \<noteq> []
             \<or> (ri_Protocol (bd_in b) = ''responses'' \<and> pv_Name p \<noteq> ''openai_responses'')
          then fitsRequest mc s
            \<and> (case ls_pricing (bd_state b) of None \<Rightarrow> False | Some tbl \<Rightarrow> HasRate tbl (ct_ProviderName ct) (ct_Upstream ct))
          else True)"

definition filterTarget :: "Router \<Rightarrow> requestBoundary \<Rightarrow> bool \<Rightarrow> ChainTarget \<Rightarrow> ChainTarget option" where
  "filterTarget r b automatic ct0 =
     (let st = bd_state b; ct = ct0\<lparr>ct_Model := Canonical st (ct_Model ct0)\<rparr>
      in if bd_budgetModel b \<noteq> [] \<and> ct_Model ct \<noteq> bd_budgetModel b then None
         else if \<not> allowsInState r (ri_Principal (bd_in b)) (ct_Model ct) st then None
         else (case Route st (ct_Model ct) of
                 None \<Rightarrow> None
               | Some mc \<Rightarrow>
                   (case findTarget mc ct of
                      None \<Rightarrow> None
                    | Some target0 \<Rightarrow>
                        (case state_Provider st (ct_ProviderName ct) of
                           Some (Some p) \<Rightarrow>
                             (let ct = ct\<lparr>ct_Provider := Some p,
                                    ct_Identity := (case state_Identity st (ct_ProviderName ct) of None \<Rightarrow> [] | Some i \<Rightarrow> i),
                                    ct_Region := state_Region st (ct_ProviderName ct),
                                    ct_DataBoundary := DataBoundary st (ct_ProviderName ct)\<rparr>;
                                  target = withAPI b target0
                              in if \<not> regionAllowed (ri_AllowedRegions (bd_in b)) (ct_Region ct) then None
                                 else if (case bd_models b of None \<Rightarrow> False
                                          | Some M \<Rightarrow> ct_Model ct \<notin> M \<or> ct_DataBoundary ct \<noteq> ''internal'') then None
                                 else if \<not> compatible b ct p target then None
                                 else if \<not> metadataOK b automatic ct p mc then None
                                 else Some ct)
                         | _ \<Rightarrow> None))))"

definition boundaryFilter :: "Router \<Rightarrow> requestBoundary \<Rightarrow> ChainTarget list \<Rightarrow> bool \<Rightarrow> ChainTarget list" where
  "boundaryFilter r b chain automatic =
     (if bd_models b \<noteq> None \<and> (case bd_inspection b of None \<Rightarrow> False | Some s \<Rightarrow> ip_HasRemoteTools s) then []
      else List.map_filter (filterTarget r b automatic) chain)"

section \<open>Chains within the boundary\<close>

definition requestModels :: "LiveState \<Rightarrow> string \<Rightarrow> string list" where
  "requestModels st model =
     (let fb = FallbackFor st model in if fb \<noteq> [] \<and> fb \<noteq> model then [model, Canonical st fb] else [model])"

definition requestChain :: "(nat \<Rightarrow> gotime) \<Rightarrow> Router \<Rightarrow> requestBoundary \<Rightarrow> string \<Rightarrow> ChainTarget list" where
  "requestChain clk r b model =
     (let st = bd_state b
      in if \<not> hasTargets st model then []
         else (let all = boundaryFilter r b (concat (map (modelChain st) (requestModels st model))) (model \<noteq> ri_Model (bd_in b));
                   allowed = closedTargets clk (rt_brk r) all
               in if allowed \<noteq> [] then allowed else all))"

definition legacyChain :: "Router \<Rightarrow> RequestRoutingInput \<Rightarrow> LiveState \<Rightarrow> ChainTarget list" where
  "legacyChain r inp st =
     filter (\<lambda>ct. allowsInState r (ri_Principal inp) (Canonical st (ct_Model ct)) st
         \<and> regionAllowed (ri_AllowedRegions inp) (state_Region st (ct_ProviderName ct))
         \<and> (case ri_Compatible inp of None \<Rightarrow> True | Some f \<Rightarrow> f ct)) (ri_Chain inp)"

section \<open>The budget ceiling\<close>

text \<open>The loop over the map of constraints, in the order of its keys: \<open>None\<close> continues.\<close>

fun budgetTargets :: "LiveState \<Rightarrow> string \<Rightarrow> (string, string) mapping \<Rightarrow> string list \<Rightarrow> string \<times> bool \<Rightarrow> string \<times> bool" where
  "budgetTargets st source m [] acc = acc"
| "budgetTargets st source m (from # fs) acc =
     (if Canonical st from \<noteq> source then budgetTargets st source m fs acc
      else (let to = Canonical st (the (Mapping.lookup m from))
            in if to = [] \<or> (snd acc \<and> to \<noteq> fst acc) then ([], True)
               else budgetTargets st source m fs (to, True)))"

definition budgetConstraint :: "Router \<Rightarrow> Principal \<Rightarrow> LiveState \<Rightarrow> string \<Rightarrow> string \<times> bool" where
  "budgetConstraint r p st requested =
     (case rt_budgetGate r of
        None \<Rightarrow> ([], False)
      | Some gate \<Rightarrow> budgetTargets st (Canonical st requested) (gate p) (Mapping.ordered_keys (gate p)) ([], False))"

definition BudgetTargetAllowed :: "Router \<Rightarrow> Principal \<Rightarrow> string \<Rightarrow> string \<Rightarrow> LiveState option \<Rightarrow> bool" where
  "BudgetTargetAllowed r p requested cand st =
     (case st of
        None \<Rightarrow> False
      | Some s \<Rightarrow>
          (case budgetConstraint r p s requested of
             (target, strict) \<Rightarrow> \<not> strict \<or> target \<noteq> [] \<and> target = Canonical s cand))"

section \<open>Rules\<close>

definition rulesOf :: "LiveState \<Rightarrow> string \<Rightarrow> Policy \<Rightarrow> Rule \<Rightarrow> requestRule list" where
  "rulesOf st source doc rule =
     (let ref = \<lparr>rf_Name = p_Name doc, rf_Generation = p_Generation doc, rf_Rule = r_Name rule\<rparr>
      in (case r_SensitiveData rule of
            None \<Rightarrow> []
          | Some sd \<Rightarrow> [\<lparr>rr_ref = ref, rr_sensitive = Some sd, rr_context = None\<rparr>])
         @ (case Option.bind (r_Routing rule) ro_Context of
              None \<Rightarrow> []
            | Some c \<Rightarrow>
                if list_ex (\<lambda>from. Canonical st from = source) (cx_FromModels c)
                then [\<lparr>rr_ref = ref, rr_sensitive = None, rr_context = Some c\<rparr>] else []))"

text \<open>The sort is by policy, generation and rule name; the order of equal keys is not specified
  by the source and kept here.\<close>

definition ruleKey :: "requestRule \<Rightarrow> string \<times> int \<times> string" where
  "ruleKey rule = (rf_Name (rr_ref rule), rf_Generation (rr_ref rule), rf_Rule (rr_ref rule))"

definition requestRules :: "Policy list \<Rightarrow> LiveState \<Rightarrow> string \<Rightarrow> requestRule list" where
  "requestRules docs st source =
     sort_key ruleKey (concat (map (\<lambda>doc. concat (map (rulesOf st source doc) (p_Rules doc))) docs))"

definition boundedCategories :: "string list \<Rightarrow> string list" where
  "boundedCategories cats =
     remdups (sort (filter (\<lambda>c. c \<in> {''email'', ''phone'', ''credit_card'', ''ssn'', ''ipv4'', ''korean_rrn''}) cats))"

end
