(* ===== verification/RouteRequest.thy ===== *)
theory RouteRequest
  imports RouteBoundary
begin

text \<open>
  The routing decision of one request, \<^verbatim>\<open>internal/router/request_routing.go\<close>, and the cache
  affinity it keeps between requests, \<^verbatim>\<open>internal/router/affinity.go\<close>.

  What the source reads from outside is in \<open>RouteEnv\<close>: the clocks, the lookup of the routing
  policies, the inspector and the configured redactor, whether the context was cancelled after
  masking and after the second inspection, the keyword matchers, the compatibility check of the
  Converse path, and the digests of a session and of the policies that apply to it (\<open>None\<close> when
  a session cannot be identified). Digests are strings. A policy lookup answers with the
  generation it was read from and either the fact that it failed or the documents.
\<close>

section \<open>Affinity\<close>

record affinityTarget =
  at_Model :: string
  at_Provider :: string
  at_Identity :: string
  at_Upstream :: string
  at_Region :: string
  at_Boundary :: string

definition affinityTargetOf :: "ChainTarget \<Rightarrow> affinityTarget" where
  "affinityTargetOf ct = \<lparr>at_Model = ct_Model ct, at_Provider = ct_ProviderName ct, at_Identity = ct_Identity ct,
     at_Upstream = ct_Upstream ct, at_Region = ct_Region ct, at_Boundary = ct_DataBoundary ct\<rparr>"

record affinityEntry =
  ae_target :: affinityTarget
  ae_policy :: string
  ae_since :: gotime
  ae_expires :: gotime
  ae_requests :: int
  ae_revision :: int

record affinityStore =
  as_id :: string
  as_entries :: "(string, affinityEntry) mapping"
  as_revision :: int

record AffinityToken =
  tk_owner :: string
  tk_key :: string
  tk_policy :: string
  tk_expected :: int
  tk_issued :: gotime
  tk_settings :: ContextStability
  tk_allowed :: "affinityTarget list"
  tk_used :: bool

definition maxAffinityEntries :: nat where "maxAffinityEntries = 4096"

definition newAffinityStore :: "string \<Rightarrow> affinityStore" where
  "newAffinityStore i = \<lparr>as_id = i, as_entries = Mapping.empty, as_revision = 0\<rparr>"

definition affinityExpired :: "gotime \<Rightarrow> affinityEntry \<Rightarrow> bool" where
  "affinityExpired now e \<longleftrightarrow> \<not> now < ae_expires e"

definition liveEntries :: "gotime \<Rightarrow> (string, affinityEntry) mapping \<Rightarrow> (string, affinityEntry) mapping" where
  "liveEntries now m = Mapping.filter (\<lambda>k e. \<not> affinityExpired now e) m"

text \<open>Making room, and \<open>None\<close> when the store stays full. \<open>exists\<close> is whether the key has a live entry.\<close>

definition affinityRoom :: "gotime \<Rightarrow> bool \<Rightarrow> (string, affinityEntry) mapping \<Rightarrow> (string, affinityEntry) mapping option" where
  "affinityRoom now exists m =
     (if \<not> exists \<and> Mapping.size m \<ge> maxAffinityEntries
      then (let m' = liveEntries now m in if Mapping.size m' \<ge> maxAffinityEntries then None else Some m')
      else Some m)"

definition nextEntry :: "gotime \<Rightarrow> AffinityToken \<Rightarrow> affinityTarget \<Rightarrow> affinityEntry option \<Rightarrow> int \<Rightarrow> affinityEntry" where
  "nextEntry now token target old revision =
     (let new = \<lparr>ae_target = target, ae_policy = tk_policy token, ae_since = now,
            ae_expires = time_add now (cs_SessionTTL (tk_settings token)), ae_requests = 1, ae_revision = revision\<rparr>
      in case old of
           None \<Rightarrow> new
         | Some e \<Rightarrow>
             if ae_target e = target \<and> ae_policy e = tk_policy token
             then new\<lparr>ae_since := ae_since e, ae_requests := min (add64 (ae_requests e) 1) 10000\<rparr>
             else new)"

text \<open>The critical section of a recorded success. A full store keeps the purged entries out.\<close>

definition recordEntry :: "gotime \<Rightarrow> AffinityToken \<Rightarrow> affinityTarget \<Rightarrow> affinityStore \<Rightarrow> affinityStore" where
  "recordEntry now token target s =
     (let old0 = Mapping.lookup (as_entries s) (tk_key token);
          expired = (case old0 of None \<Rightarrow> False | Some e \<Rightarrow> affinityExpired now e);
          m = (if expired then Mapping.delete (tk_key token) (as_entries s) else as_entries s);
          old = (if expired then None else old0)
      in if (case old of None \<Rightarrow> tk_expected token \<noteq> 0 | Some e \<Rightarrow> ae_revision e \<noteq> tk_expected token)
         then s\<lparr>as_entries := m\<rparr>
         else (case affinityRoom now (old \<noteq> None) m of
                 None \<Rightarrow> s\<lparr>as_entries := liveEntries now m\<rparr>
               | Some m' \<Rightarrow>
                   (let revision = (as_revision s + 1) mod 2 ^ 64
                    in s\<lparr>as_entries := Mapping.update (tk_key token) (nextEntry now token target old revision) m',
                         as_revision := revision\<rparr>)))"

text \<open>Nil store, nil token, foreign owner, a target outside the token or a used token are no-ops.\<close>

definition RecordAffinitySuccess ::
  "gotime \<Rightarrow> AffinityToken option \<Rightarrow> ChainTarget \<Rightarrow> affinityStore option \<Rightarrow> affinityStore option \<times> AffinityToken option" where
  "RecordAffinitySuccess now token target store =
     (case (store, token) of
        (Some s, Some t) \<Rightarrow>
          if tk_owner t \<noteq> as_id s \<or> affinityTargetOf target \<notin> set (tk_allowed t) then (store, token)
          else if tk_used t then (store, token)
          else (let t' = t\<lparr>tk_used := True\<rparr>
                in if now < tk_issued t \<or> \<not> now < time_add (tk_issued t) (cs_SessionTTL (tk_settings t))
                   then (store, Some t')
                   else (Some (recordEntry now t (affinityTargetOf target) s), Some t'))
      | _ \<Rightarrow> (store, token))"

text \<open>The settings every matching context rule agrees to.\<close>

definition stabilityValid :: "ContextStability \<Rightarrow> bool" where
  "stabilityValid s \<longleftrightarrow>
     \<not> (cs_MinHold s < 0 \<or> cs_MinRequests s < 1 \<or> cs_MinRequests s > 10000
        \<or> cs_SessionTTL s \<le> 0 \<or> cs_SessionTTL s > 86400 * Second \<or> cs_SessionTTL s < cs_MinHold s)"

fun stabilityFold :: "PolicyContext list \<Rightarrow> ContextStability option \<Rightarrow> ContextStability option" where
  "stabilityFold [] result = result"
| "stabilityFold (c # cs) result =
     (case cx_Stability c of
        None \<Rightarrow> None
      | Some s \<Rightarrow>
          if \<not> stabilityValid s then None
          else stabilityFold cs (Some (case result of
                 None \<Rightarrow> s
               | Some x \<Rightarrow> \<lparr>cs_MinHold = max (cs_MinHold x) (cs_MinHold s), cs_MinRequests = max (cs_MinRequests x) (cs_MinRequests s),
                             cs_SessionTTL = min (cs_SessionTTL x) (cs_SessionTTL s)\<rparr>)))"

definition stabilityOf :: "requestRule list \<Rightarrow> ContextStability option" where
  "stabilityOf rules =
     (case stabilityFold (List.map_filter rr_context rules) None of
        None \<Rightarrow> None
      | Some x \<Rightarrow> if cs_SessionTTL x < cs_MinHold x then None else Some x)"

section \<open>The decision\<close>

record RoutingRecommendation =
  rm_Policy :: RoutingPolicyRef
  rm_Model :: string
  rm_Reason :: string

record RoutingDecision =
  rd_RequestedModel :: string
  rd_SelectedModel :: string
  rd_ProposedModel :: string
  rd_Mode :: string
  rd_Reason :: string
  rd_Inspection :: string
  rd_Privacy :: string
  rd_Categories :: "string list"
  rd_Policies :: "RoutingPolicyRef list"
  rd_Recommendations :: "RoutingRecommendation list"
  rd_Masked :: bool

record RequestRoutingResult =
  rs_PolicyGeneration :: string
  rs_Model :: string
  rs_Chain :: "ChainTarget list"
  rs_State :: "LiveState option"
  rs_Decision :: RoutingDecision
  rs_MaskRequired :: bool
  rs_SanitizedBody :: "string option"
  rs_AffinityToken :: "AffinityToken option"

record RouteEnv =
  en_clkSafe :: "string \<Rightarrow> nat \<Rightarrow> gotime"
  en_clkAffinity :: "nat \<Rightarrow> gotime"
  en_clkPin :: "nat \<Rightarrow> gotime"
  en_clkContext :: "nat \<Rightarrow> gotime"
  en_now :: gotime
  en_lookup :: "(string \<Rightarrow> string \<Rightarrow> string \<times> (routing_error option + Policy list)) option"
  en_inspect :: "string \<Rightarrow> string \<Rightarrow> Inspection option"
  en_redactor :: "redactor option"
  en_cancelledMask :: bool
  en_cancelledInspect :: bool
  en_keywords :: "string \<Rightarrow> string list \<Rightarrow> bool"
  en_contextKeywords :: "string \<Rightarrow> string \<Rightarrow> string list \<Rightarrow> bool"
  en_converse :: "string \<Rightarrow> bool"
  en_sessionKey :: "RequestRoutingInput \<Rightarrow> string option"
  en_policyDigest :: "requestBoundary \<Rightarrow> requestRule list \<Rightarrow> bool \<Rightarrow> string"

record RequestRoutingError =
  re_StatusCode :: int
  re_Reason :: string
  re_cause :: "routing_error option"

text \<open>The affinity store after the decision, the result and the refusal, if any.\<close>

type_synonym routed = "affinityStore option \<times> RequestRoutingResult \<times> RequestRoutingError option"

definition denyRouting :: "RequestRoutingResult \<Rightarrow> string \<Rightarrow> routing_error option \<Rightarrow> RequestRoutingResult \<times> RequestRoutingError option" where
  "denyRouting out reason cause =
     (out\<lparr>rs_Model := [], rs_Chain := [], rs_SanitizedBody := None, rs_AffinityToken := None,
          rs_Decision := (rs_Decision out)\<lparr>rd_SelectedModel := [], rd_Reason := reason\<rparr>\<rparr>,
      Some \<lparr>re_StatusCode = 403, re_Reason = reason, re_cause = cause\<rparr>)"

definition finishRouting :: "RequestRoutingResult \<Rightarrow> ChainTarget list \<Rightarrow> RequestRoutingResult \<times> RequestRoutingError option" where
  "finishRouting out chain =
     (case chain of
        [] \<Rightarrow> denyRouting out ''no_safe_route'' None
      | first # _ \<Rightarrow>
          (out\<lparr>rs_Chain := chain, rs_Model := ct_Model first,
               rs_Decision := (rs_Decision out)\<lparr>rd_SelectedModel := ct_Model first\<rparr>\<rparr>, None))"

definition withReason :: "string \<Rightarrow> RequestRoutingResult \<Rightarrow> RequestRoutingResult" where
  "withReason reason out = out\<lparr>rs_Decision := (rs_Decision out)\<lparr>rd_Reason := reason\<rparr>\<rparr>"

section \<open>Context\<close>

definition contextKeywordMatch :: "RouteEnv \<Rightarrow> PolicyContext \<Rightarrow> RequestRoutingInput \<Rightarrow> bool" where
  "contextKeywordMatch env c inp =
     (if cx_NormalModel c \<noteq> [] \<or> cx_Stability c \<noteq> None
      then en_contextKeywords env (ri_RawBody inp) (ri_Protocol inp) (cx_ComplexKeywords c)
      else en_keywords env (ri_RawBody inp) (cx_ComplexKeywords c))"

definition recommend :: "RouteEnv \<Rightarrow> requestBoundary \<Rightarrow> Inspection \<Rightarrow> PolicyContext \<Rightarrow> string \<times> string" where
  "recommend env b s c =
     (if cx_NormalModel c \<noteq> [] \<and> contextKeywordMatch env c (bd_in b) then (cx_ComplexModel c, ''complex_keyword'')
      else if ip_InputTokens s > cx_MaxSimpleInputTokens c then
        if cx_NormalModel c \<noteq> [] \<and> ip_InputTokens s \<le> cx_MaxNormalInputTokens c then (cx_NormalModel c, ''normal_input'')
        else (cx_ComplexModel c, ''input_threshold'')
      else if cx_NormalModel c = [] \<and> contextKeywordMatch env c (bd_in b) then (cx_ComplexModel c, ''complex_keyword'')
      else (cx_SimpleModel c, ''simple''))"

definition recommendations :: "RouteEnv \<Rightarrow> requestBoundary \<Rightarrow> Inspection \<Rightarrow> requestRule list \<Rightarrow> RoutingRecommendation list" where
  "recommendations env b s rules =
     List.map_filter (\<lambda>rule. map_option (\<lambda>c.
         (case recommend env b s c of (model, reason) \<Rightarrow>
            \<lparr>rm_Policy = rr_ref rule, rm_Model = Canonical (bd_state b) model, rm_Reason = reason\<rparr>)) (rr_context rule)) rules"

text \<open>A recommendation conflicts when it differs from a nonempty one before it.\<close>

fun conflicting :: "string \<Rightarrow> string list \<Rightarrow> bool" where
  "conflicting proposed [] \<longleftrightarrow> False"
| "conflicting proposed (m # ms) \<longleftrightarrow> proposed \<noteq> [] \<and> m \<noteq> proposed \<or> conflicting m ms"

definition pinnedChain :: "RouteEnv \<Rightarrow> Router \<Rightarrow> ContextStability \<Rightarrow> affinityEntry \<Rightarrow> ChainTarget list \<Rightarrow> ChainTarget list option" where
  "pinnedChain env r settings e chain =
     (case filter (\<lambda>(i, ct). affinityTargetOf ct = ae_target e \<and> brk_Allow (en_clkPin env i) (ct_Identity ct) (rt_brk r)) (enumerate 0 chain) of
        [] \<Rightarrow> None
      | (i, ct) # _ \<Rightarrow>
          if en_now env < time_add (ae_since e) (cs_MinHold settings) \<or> ae_requests e < cs_MinRequests settings
          then Some (ct # take i chain @ drop (Suc i) chain)
          else Some [])"

text \<open>
  Two critical sections on the store: the lookup, and the removal of an unusable pin. Other
  requests may change the store in between, \<open>other\<close>.
\<close>

definition prepareAffinity ::
  "RouteEnv \<Rightarrow> (affinityStore \<Rightarrow> affinityStore) \<Rightarrow> Router \<Rightarrow> affinityStore option \<Rightarrow> RequestRoutingResult \<Rightarrow> requestBoundary \<Rightarrow>
   requestRule list \<Rightarrow> ContextStability option \<Rightarrow> affinityStore option \<times> AffinityToken option \<times> ChainTarget list" where
  "prepareAffinity env other r store out b rules settings =
     (case (store, settings) of
        (Some s, Some x) \<Rightarrow>
          if ri_CountOnly (bd_in b) then (store, None, [])
          else (case en_sessionKey env (bd_in b) of
                  None \<Rightarrow> (store, None, [])
                | Some key \<Rightarrow>
                    (let digest = en_policyDigest env b rules (rd_Masked (rs_Decision out));
                         old = Mapping.lookup (as_entries s) key;
                         gone = (case old of None \<Rightarrow> False | Some e \<Rightarrow> affinityExpired (en_now env) e \<or> ae_policy e \<noteq> digest);
                         s1 = (if gone then s\<lparr>as_entries := Mapping.delete key (as_entries s)\<rparr> else s);
                         token = \<lparr>tk_owner = as_id s, tk_key = key, tk_policy = digest, tk_expected = 0, tk_issued = en_now env,
                                  tk_settings = x, tk_allowed = [], tk_used = False\<rparr>
                     in case (if gone then None else old) of
                          None \<Rightarrow> (Some s1, Some token, [])
                        | Some e \<Rightarrow>
                            (let token = token\<lparr>tk_expected := ae_revision e\<rparr>;
                                 chain = boundaryFilter r b (requestChain (en_clkAffinity env) r b (at_Model (ae_target e))) True
                             in case pinnedChain env r x e chain of
                                  Some pinned \<Rightarrow> (Some s1, Some token, pinned)
                                | None \<Rightarrow>
                                    (let s2 = other s1
                                     in case Mapping.lookup (as_entries s2) key of
                                          Some cur \<Rightarrow>
                                            if ae_revision cur = ae_revision e
                                            then (Some (s2\<lparr>as_entries := Mapping.delete key (as_entries s2)\<rparr>), Some (token\<lparr>tk_expected := 0\<rparr>), [])
                                            else (Some s2, Some token, [])
                                        | None \<Rightarrow> (Some s2, Some token, [])))))
      | _ \<Rightarrow> (store, None, []))"

definition finishAffinity :: "Router \<Rightarrow> requestBoundary \<Rightarrow> AffinityToken option \<Rightarrow> RequestRoutingResult \<Rightarrow> RequestRoutingResult" where
  "finishAffinity r b token out =
     (case token of
        None \<Rightarrow> out
      | Some t \<Rightarrow>
          (let allowed = tk_allowed t @ map affinityTargetOf (boundaryFilter r b (rs_Chain out) True)
           in if allowed \<noteq> [] then out\<lparr>rs_AffinityToken := Some (t\<lparr>tk_allowed := allowed\<rparr>)\<rparr> else out))"

text \<open>The leading target of the proposed model must be compatible before it replaces a safe chain.\<close>

definition leadingCompatible :: "requestBoundary \<Rightarrow> string \<Rightarrow> bool" where
  "leadingCompatible b proposed =
     (case targetsOf (bd_state b) proposed of
        [] \<Rightarrow> False
      | first # _ \<Rightarrow>
          (let st = bd_state b
           in case state_Provider st (tg_Provider first) of
                Some (Some p) \<Rightarrow>
                  compatible b \<lparr>ct_Provider = Some p, ct_ProviderName = tg_Provider first,
                    ct_Identity = (case state_Identity st (tg_Provider first) of None \<Rightarrow> [] | Some i \<Rightarrow> i),
                    ct_Upstream = tg_Model first, ct_Model = proposed, ct_Region = state_Region st (tg_Provider first),
                    ct_DataBoundary = DataBoundary st (tg_Provider first)\<rparr> p (withAPI b first)
              | _ \<Rightarrow> False))"

definition contextEligible :: "Inspection \<Rightarrow> bool \<Rightarrow> bool" where
  "contextEligible s allStable \<longleftrightarrow>
     \<not> (\<not> ip_Complete s \<or> ip_UserTurns s < 1
        \<or> (\<not> allStable \<and> (ip_UserTurns s \<noteq> 1 \<or> ip_HasHistory s \<or> ip_HasTools s \<or> ip_HasVision s \<or> ip_HasReasoning s
             \<or> ip_HasStructuredOutput s)))"

definition selectContext ::
  "RouteEnv \<Rightarrow> Router \<Rightarrow> requestBoundary \<Rightarrow> AffinityToken option \<Rightarrow> string \<Rightarrow> RequestRoutingResult \<Rightarrow> RequestRoutingResult" where
  "selectContext env r b token proposed out =
     (if proposed = Canonical (bd_state b) (rs_Model out) then finishAffinity r b token (withReason ''context_unchanged'' out)
      else if \<not> hasTargets (bd_state b) proposed \<or> \<not> leadingCompatible b proposed
        then finishAffinity r b token (withReason ''context_unavailable'' out)
      else (let cand = requestChain (en_clkContext env) r b proposed
            in if cand = [] \<or> ct_Model (hd cand) \<noteq> proposed
               then finishAffinity r b token (withReason ''context_unavailable'' out)
               else finishAffinity r b token
                 (out\<lparr>rs_Model := proposed, rs_Chain := cand,
                      rs_Decision := (rs_Decision out)\<lparr>rd_SelectedModel := proposed, rd_Reason := ''context_selected''\<rparr>\<rparr>)))"

definition applyContext ::
  "RouteEnv \<Rightarrow> (affinityStore \<Rightarrow> affinityStore) \<Rightarrow> Router \<Rightarrow> affinityStore option \<Rightarrow> RequestRoutingResult \<Rightarrow> requestBoundary \<Rightarrow>
   requestRule list \<Rightarrow> Inspection \<Rightarrow> affinityStore option \<times> RequestRoutingResult" where
  "applyContext env other r store out0 b rules s =
     (let contexts = List.map_filter rr_context rules;
          recs = recommendations env b s rules;
          mode = (if list_all (\<lambda>c. cx_Mode c = Enforce) contexts then ''Enforce'' else ''Shadow'');
          stable0 = list_all (\<lambda>c. cx_Stability c \<noteq> None) contexts;
          proposed = (if recs = [] then [] else rm_Model (last recs));
          out = out0\<lparr>rs_Decision := (rs_Decision out0)\<lparr>rd_Recommendations := rd_Recommendations (rs_Decision out0) @ recs\<rparr>\<rparr>
      in if rd_Recommendations (rs_Decision out) = [] then (store, out)
         else (let out = out\<lparr>rs_Decision := (rs_Decision out)\<lparr>rd_Mode := mode\<rparr>\<rparr>
               in if conflicting [] (map rm_Model recs) then (store, withReason ''context_conflict'' out)
                  else (let out = out\<lparr>rs_Decision := (rs_Decision out)\<lparr>rd_ProposedModel := proposed\<rparr>\<rparr>
                        in if mode = ''Shadow'' then (store, withReason ''context_shadow'' out)
                           else (let settings = stabilityOf rules
                                 in case prepareAffinity env other r store out b rules settings of
                                      (store', token, pinned) \<Rightarrow>
                                        if pinned \<noteq> [] then
                                          (store', finishAffinity r b token
                                             (out\<lparr>rs_Model := ct_Model (hd pinned), rs_Chain := pinned,
                                                  rs_Decision := (rs_Decision out)\<lparr>rd_SelectedModel := ct_Model (hd pinned),
                                                    rd_Reason := ''context_affinity''\<rparr>\<rparr>))
                                        else if \<not> contextEligible s (stable0 \<and> settings \<noteq> None)
                                          then (store', withReason ''context_ineligible'' out)
                                        else (store', selectContext env r b token proposed out)))))"

section \<open>The privacy obligations\<close>

text \<open>Each active trigger of a rule, detected content first: internal-only, mask, block.\<close>

definition privacyTriggers :: "Inspection \<Rightarrow> SensitiveData \<Rightarrow> (nat \<times> string) list" where
  "privacyTriggers s sd =
     (if ip_Categories s \<noteq> [] then [(0, s_OnDetected sd)] else [])
     @ (if \<not> ip_Complete s then [(1, s_OnUninspectable sd)] else [])"

definition privacyRule :: "Inspection \<Rightarrow> SensitiveData \<Rightarrow> requestBoundary \<times> bool \<times> bool \<Rightarrow> requestBoundary \<times> bool \<times> bool" where
  "privacyRule s sd acc =
     (case acc of (b, mustMask, block) \<Rightarrow>
        (let triggers = privacyTriggers s sd;
             internal = list_ex (\<lambda>(i, a). a = InternalOnly) triggers;
             masked = list_ex (\<lambda>(i, a). a = Mask \<and> i = 0) triggers;
             blocked = list_ex (\<lambda>(i, a). if a = InternalOnly then False else if a = Mask then i \<noteq> 0 else True) triggers
         in (if internal then intersect (s_InternalModels sd) b else b, mustMask \<or> masked, block \<or> blocked)))"

definition privacyRules :: "Inspection \<Rightarrow> requestRule list \<Rightarrow> requestBoundary \<Rightarrow> requestBoundary \<times> bool \<times> bool" where
  "privacyRules s rules b =
     fold (\<lambda>rule acc. case rr_sensitive rule of None \<Rightarrow> acc | Some sd \<Rightarrow> privacyRule s sd acc) rules (b, False, False)"

text \<open>Redaction and the independent inspection of its result; \<open>None\<close> refuses the request.\<close>

definition maskRequest :: "RouteEnv \<Rightarrow> RequestRoutingInput \<Rightarrow> (string \<times> Inspection) option" where
  "maskRequest env inp =
     (case (case ri_Redactor inp of None \<Rightarrow> en_redactor env | Some f \<Rightarrow> Some f) of
        None \<Rightarrow> None
      | Some redact \<Rightarrow>
          (case redact (ri_Protocol inp) (ri_RawBody inp) of
             None \<Rightarrow> None
           | Some sanitized \<Rightarrow>
               if en_cancelledMask env then None
               else (case en_inspect env (ri_Protocol inp) sanitized of
                       None \<Rightarrow> None
                     | Some checked \<Rightarrow>
                         if \<not> ip_Complete checked \<or> ip_Categories checked \<noteq> [] \<or> en_cancelledInspect env then None
                         else Some (sanitized, checked))))"

section \<open>The request\<close>

definition initialResult :: "RequestRoutingInput \<Rightarrow> string \<Rightarrow> string \<Rightarrow> RequestRoutingResult" where
  "initialResult inp requested generation =
     \<lparr>rs_PolicyGeneration = generation, rs_Model = ri_Model inp, rs_Chain = [], rs_State = ri_State inp,
      rs_Decision = \<lparr>rd_RequestedModel = requested, rd_SelectedModel = [], rd_ProposedModel = [], rd_Mode = [],
        rd_Reason = ''unchanged'', rd_Inspection = ''not_inspected'', rd_Privacy = [], rd_Categories = [], rd_Policies = [],
        rd_Recommendations = [], rd_Masked = False\<rparr>,
      rs_MaskRequired = False, rs_SanitizedBody = None, rs_AffinityToken = None\<rparr>"

definition requestedOf :: "RequestRoutingInput \<Rightarrow> string" where
  "requestedOf inp = (if ri_RequestedModel inp = [] then ri_Model inp else ri_RequestedModel inp)"

definition lookupPolicies :: "RouteEnv \<Rightarrow> Principal \<Rightarrow> string \<times> (routing_error option + Policy list)" where
  "lookupPolicies env p = (case en_lookup env of None \<Rightarrow> ([], Inr []) | Some f \<Rightarrow> f (pn_Team p) (pn_Owner p))"

definition withInspection :: "Inspection \<Rightarrow> RequestRoutingResult \<Rightarrow> RequestRoutingResult" where
  "withInspection s out =
     out\<lparr>rs_Decision := (rs_Decision out)\<lparr>rd_Inspection := (if ip_Complete s then ''complete'' else ''incomplete''),
           rd_Categories := boundedCategories (ip_Categories s)\<rparr>\<rparr>"

definition inspectionFailed :: "RequestRoutingResult \<Rightarrow> RequestRoutingResult" where
  "inspectionFailed out = out\<lparr>rs_Decision := (rs_Decision out)\<lparr>rd_Inspection := ''failed''\<rparr>\<rparr>"

definition withPrivacy :: "string \<Rightarrow> RequestRoutingResult \<Rightarrow> RequestRoutingResult" where
  "withPrivacy v out = out\<lparr>rs_Decision := (rs_Decision out)\<lparr>rd_Privacy := v\<rparr>\<rparr>"

definition newBoundary :: "RequestRoutingInput \<Rightarrow> LiveState \<Rightarrow> string \<Rightarrow> requestBoundary" where
  "newBoundary inp st budgetModel =
     \<lparr>bd_in = inp, bd_state = st, bd_inspection = None, bd_models = None, bd_apis = requestAPIs st, bd_converseSafe = False,
      bd_budgetModel = budgetModel\<rparr>"

text \<open>The approved models in order, for the recovery of a request none of whose targets is safe.\<close>

definition recoverChain :: "RouteEnv \<Rightarrow> Router \<Rightarrow> requestBoundary \<Rightarrow> string set \<Rightarrow> ChainTarget list" where
  "recoverChain env r b names =
     (case filter (\<lambda>c. c \<noteq> []) (map (\<lambda>n. requestChain (en_clkSafe env n) r b n) (sorted_list_of_set names)) of
        [] \<Rightarrow> [] | c # _ \<Rightarrow> c)"

text \<open>The chain of a request with privacy rules or a strict budget, after the obligations are met.\<close>

definition safeRouting ::
  "RouteEnv \<Rightarrow> Router \<Rightarrow> requestBoundary \<Rightarrow> bool \<Rightarrow> RequestRoutingResult \<Rightarrow> RequestRoutingResult \<times> RequestRoutingError option" where
  "safeRouting env r b strict out0 =
     (let out = (if bd_models b \<noteq> None then withReason ''internal_only'' (withPrivacy ''internal_only'' out0) else out0)
      in if strict then
           (let safe = requestChain (en_clkSafe env (bd_budgetModel b)) r b (bd_budgetModel b)
            in if safe = [] then denyRouting out ''budget_target_unavailable'' None
               else finishRouting (if bd_models b = None then withReason ''budget_target'' out else out) safe)
         else (let safe = boundaryFilter r b (ri_Chain (bd_in b)) False
               in case bd_models b of
                    None \<Rightarrow> finishRouting out safe
                  | Some names \<Rightarrow> finishRouting out (if safe = [] then recoverChain env r b names else safe)))"

definition maskedBoundary :: "RouteEnv \<Rightarrow> requestBoundary \<Rightarrow> string \<times> Inspection \<Rightarrow> requestBoundary" where
  "maskedBoundary env b m =
     b\<lparr>bd_in := (bd_in b)\<lparr>ri_RawBody := fst m\<rparr>, bd_inspection := Some (snd m), bd_converseSafe := en_converse env (fst m)\<rparr>"

definition withMasked :: "string \<Rightarrow> RequestRoutingResult \<Rightarrow> RequestRoutingResult" where
  "withMasked body out = out\<lparr>rs_SanitizedBody := Some body, rs_Decision := (rs_Decision out)\<lparr>rd_Masked := True\<rparr>\<rparr>"

text \<open>The context rules see the route that was found unless the request only counts tokens.\<close>

definition finishContext ::
  "RouteEnv \<Rightarrow> (affinityStore \<Rightarrow> affinityStore) \<Rightarrow> Router \<Rightarrow> affinityStore option \<Rightarrow> requestBoundary \<Rightarrow> requestRule list \<Rightarrow>
   Inspection \<Rightarrow> RequestRoutingResult \<times> RequestRoutingError option \<Rightarrow> routed" where
  "finishContext env other r store b rules s res =
     (case res of (out, err) \<Rightarrow>
        if err \<noteq> None \<or> ri_CountOnly (bd_in b) then (store, out, err)
        else (case applyContext env other r store out b rules s of (store', out') \<Rightarrow> (store', out', None)))"

definition routePrivately ::
  "RouteEnv \<Rightarrow> (affinityStore \<Rightarrow> affinityStore) \<Rightarrow> Router \<Rightarrow> affinityStore option \<Rightarrow> requestBoundary \<Rightarrow> requestRule list \<Rightarrow>
   bool \<Rightarrow> Inspection \<Rightarrow> RequestRoutingResult \<Rightarrow> routed" where
  "routePrivately env other r store b0 rules strict s out0 =
     (case privacyRules s rules b0 of (b, mustMask, block) \<Rightarrow>
        (let out = out0\<lparr>rs_MaskRequired := mustMask\<rparr>
         in if block then (store, denyRouting (withPrivacy ''block'' out) ''sensitive_blocked'' None)
            else if mustMask then
              (case maskRequest env (bd_in b) of
                 None \<Rightarrow> (store, denyRouting out ''mask_failed'' None)
               | Some m \<Rightarrow>
                   (let b' = maskedBoundary env b m
                    in finishContext env other r store b' rules (snd m) (safeRouting env r b' strict (withMasked (fst m) out))))
            else finishContext env other r store b rules s (safeRouting env r b strict out)))"

text \<open>
  The decision once the topology, the rules, the budget ceiling and, on the Responses wire, the
  early inspection are known. \<open>early\<close> is that inspection.
\<close>

definition routeInspected ::
  "RouteEnv \<Rightarrow> (affinityStore \<Rightarrow> affinityStore) \<Rightarrow> Router \<Rightarrow> affinityStore option \<Rightarrow> RequestRoutingInput \<Rightarrow> LiveState \<Rightarrow>
   requestRule list \<Rightarrow> string \<times> bool \<Rightarrow> Inspection option \<Rightarrow> RequestRoutingResult \<Rightarrow> routed" where
  "routeInspected env other r store inp st rules budget early out0 =
     (let guarded = list_ex (\<lambda>rule. rr_sensitive rule \<noteq> None) rules \<or> snd budget;
          legacy = (case early of
              None \<Rightarrow> legacyChain r inp st
            | Some s \<Rightarrow> boundaryFilter r ((newBoundary inp st [])\<lparr>bd_inspection := Some s\<rparr>) (ri_Chain inp) False);
          out = (if guarded \<or> legacy = [] then out0
                 else out0\<lparr>rs_Chain := legacy, rs_Decision := (rs_Decision out0)\<lparr>rd_SelectedModel := ct_Model (hd legacy)\<rparr>\<rparr>)
      in if \<not> guarded \<and> legacy = [] then (store, denyRouting out ''no_safe_route'' None)
         else if \<not> guarded \<and> rules = [] then (store, out, None)
         else (case (case early of Some s \<Rightarrow> Some s | None \<Rightarrow> en_inspect env (ri_Protocol inp) (ri_RawBody inp)) of
                 None \<Rightarrow>
                   if guarded then (store, denyRouting (inspectionFailed out) ''inspection_failed'' None)
                   else (store, withReason ''context_inspection_failed'' (inspectionFailed out), None)
               | Some s \<Rightarrow>
                   (let out = withInspection s out;
                        b = (newBoundary inp st (fst budget))\<lparr>bd_inspection := Some s, bd_converseSafe := en_converse env (ri_RawBody inp)\<rparr>
                    in if guarded then routePrivately env other r store b rules (snd budget) s out
                       else finishContext env other r store b rules s (out, None))))"

definition routeInState ::
  "RouteEnv \<Rightarrow> (affinityStore \<Rightarrow> affinityStore) \<Rightarrow> Router \<Rightarrow> affinityStore option \<Rightarrow> RequestRoutingInput \<Rightarrow> LiveState \<Rightarrow>
   Policy list \<Rightarrow> RequestRoutingResult \<Rightarrow> routed" where
  "routeInState env other r store inp0 st docs out0 =
     (let requested = requestedOf inp0;
          inp = inp0\<lparr>ri_Model := Canonical st (ri_Model inp0)\<rparr>;
          rules = requestRules docs st (ri_Model inp);
          out = out0\<lparr>rs_Decision := (rs_Decision out0)\<lparr>rd_Policies := map rr_ref rules\<rparr>\<rparr>
      in if \<not> allowsInState r (ri_Principal inp) (Canonical st requested) st \<or> \<not> allowsInState r (ri_Principal inp) (ri_Model inp) st
         then (store, denyRouting out ''model_forbidden'' None)
         else (let budget = budgetConstraint r (ri_Principal inp) st requested
               in if snd budget \<and> fst budget = [] then (store, denyRouting out ''budget_target_unavailable'' None)
                  else if ri_Protocol inp = ''responses'' then
                    (case en_inspect env (ri_Protocol inp) (ri_RawBody inp) of
                       None \<Rightarrow> (store, denyRouting (inspectionFailed out) ''inspection_failed'' None)
                     | Some s \<Rightarrow> routeInspected env other r store inp st rules budget (Some s) (withInspection s out))
                  else routeInspected env other r store inp st rules budget None out))"

definition RouteRequest ::
  "RouteEnv \<Rightarrow> (affinityStore \<Rightarrow> affinityStore) \<Rightarrow> Router \<Rightarrow> affinityStore option \<Rightarrow> RequestRoutingInput \<Rightarrow> routed" where
  "RouteRequest env other r store inp =
     (case lookupPolicies env (ri_Principal inp) of (generation, looked) \<Rightarrow>
        (let out = initialResult inp (requestedOf inp) generation
         in case looked of
              Inl cause \<Rightarrow> (store, denyRouting out ''policy_lookup_failed'' cause)
            | Inr docs \<Rightarrow>
                (case ri_State inp of
                   None \<Rightarrow> (store, denyRouting out ''no_safe_route'' None)
                 | Some st \<Rightarrow> routeInState env other r store inp st docs out)))"

end
