(* ===== verification/RouteProps.thy ===== *)
theory RouteProps
  imports RouteRequest
begin

text \<open>
  What a routing decision guarantees. \<open>inBounds\<close> is what the boundary promises of a target;
  every chain a guarded decision returns consists of such targets, whichever of the
  filter, the rebuilt chain, the recovery, the pin or the context selection produced it.
\<close>

section \<open>Targets within a boundary\<close>

definition inBounds :: "Router \<Rightarrow> requestBoundary \<Rightarrow> ChainTarget \<Rightarrow> bool" where
  "inBounds r b ct \<longleftrightarrow>
     (let st = bd_state b
      in Route st (ct_Model ct) \<noteq> None \<and> allowsInState r (ri_Principal (bd_in b)) (ct_Model ct) st \<and>
         regionAllowed (ri_AllowedRegions (bd_in b)) (state_Region st (ct_ProviderName ct)) \<and>
         (bd_budgetModel b \<noteq> [] \<longrightarrow> ct_Model ct = bd_budgetModel b) \<and>
         (\<forall>M. bd_models b = Some M \<longrightarrow> ct_Model ct \<in> M \<and> DataBoundary st (ct_ProviderName ct) = ''internal''
            \<and> (\<forall>s. bd_inspection b = Some s \<longrightarrow> \<not> ip_HasRemoteTools s)))"

lemma filter_target_within:
  assumes "filterTarget r b automatic ct0 = Some ct"
    and "bd_models b = None \<or> (\<forall>s. bd_inspection b = Some s \<longrightarrow> \<not> ip_HasRemoteTools s)"
  shows "inBounds r b ct"
  using assms by (auto simp: filterTarget_def inBounds_def Let_def split: if_splits option.splits)

lemma map_filter_in: "y \<in> set (List.map_filter f xs) \<Longrightarrow> \<exists>x \<in> set xs. f x = Some y"
  by (induction xs) (auto simp: map_filter_simps split: option.splits)

lemma filter_within: "ct \<in> set (boundaryFilter r b chain automatic) \<Longrightarrow> inBounds r b ct"
  by (auto simp: boundaryFilter_def dest!: map_filter_in intro: filter_target_within split: if_splits option.splits)

lemma request_chain_within: "ct \<in> set (requestChain clk r b model) \<Longrightarrow> inBounds r b ct"
  using closed_subset [of clk "rt_brk r"]
  by (auto simp: requestChain_def Let_def intro: filter_within split: if_splits)

lemma recover_chain_within:
  assumes "ct \<in> set (recoverChain env r b names)"
  shows "inBounds r b ct"
proof -
  define chains where "chains = filter (\<lambda>c. c \<noteq> []) (map (\<lambda>n. requestChain (en_clkSafe env n) r b n) (sorted_list_of_set names))"
  have "recoverChain env r b names = (case chains of [] \<Rightarrow> [] | c # _ \<Rightarrow> c)" by (simp add: recoverChain_def chains_def)
  with assms obtain c cs where "chains = c # cs" "ct \<in> set c" by (cases chains) auto
  then have "c \<in> set chains" by simp
  then obtain n where "c = requestChain (en_clkSafe env n) r b n" by (auto simp: chains_def)
  with \<open>ct \<in> set c\<close> show ?thesis by (auto intro: request_chain_within)
qed

lemma pinned_subset:
  assumes "pinnedChain env r settings e chain = Some pinned"
  shows "set pinned \<subseteq> set chain"
proof -
  define found where "found = filter (\<lambda>(i, ct). affinityTargetOf ct = ae_target e \<and> brk_Allow (en_clkPin env i) (ct_Identity ct) (rt_brk r))
    (enumerate 0 chain)"
  note pin = assms [unfolded pinnedChain_def, folded found_def]
  then obtain i ct rest where f: "found = (i, ct) # rest" by (cases found) auto
  then have "(i, ct) \<in> set found" by simp
  then have "ct \<in> set chain" by (auto simp: found_def in_set_enumerate_eq)
  moreover have "pinned = [] \<or> pinned = ct # take i chain @ drop (Suc i) chain" using pin f by (auto split: if_splits)
  ultimately show ?thesis by (auto dest: in_set_takeD in_set_dropD)
qed

lemma prepare_within:
  assumes "prepareAffinity env other r store out b rules settings = (store', token, pinned)" and "ct \<in> set pinned"
  shows "inBounds r b ct"
  using assms by (auto simp: prepareAffinity_def Let_def dest!: pinned_subset intro: filter_within
      split: option.splits if_splits)

section \<open>The optional context\<close>

text \<open>What no step of the context stage touches, and what it may do to the chain.\<close>

definition refines :: "Router \<Rightarrow> requestBoundary \<Rightarrow> RequestRoutingResult \<Rightarrow> RequestRoutingResult \<Rightarrow> bool" where
  "refines r b out out' \<longleftrightarrow>
     rs_SanitizedBody out' = rs_SanitizedBody out \<and> rs_MaskRequired out' = rs_MaskRequired out \<and> rs_State out' = rs_State out \<and>
     (rs_Chain out' = rs_Chain out \<or> rs_Chain out' \<noteq> [] \<and> (\<forall>ct \<in> set (rs_Chain out'). inBounds r b ct))"

lemma refines_refl: "refines r b out out"
  by (simp add: refines_def)

lemma refines_reason: "refines r b out (withReason reason out') \<longleftrightarrow> refines r b out out'"
  by (simp add: refines_def withReason_def)

lemma refines_affinity: "refines r b out (finishAffinity r b token out') \<longleftrightarrow> refines r b out out'"
  by (simp add: refines_def finishAffinity_def Let_def split: option.splits)

lemma refines_decision: "refines r b out (out'\<lparr>rs_Decision := d\<rparr>) \<longleftrightarrow> refines r b out out'"
  by (simp add: refines_def)

lemmas refines_simps = refines_reason refines_affinity refines_decision

lemma select_refines: "refines r b out out' \<Longrightarrow> refines r b out (selectContext env r b token proposed out')"
  using request_chain_within [of _ "en_clkContext env" r b proposed]
  by (auto simp: selectContext_def Let_def refines_simps) (simp add: refines_def)

lemma refines_chain:
  "refines r b out (out\<lparr>rs_Model := m, rs_Chain := chain\<rparr>)
   \<longleftrightarrow> chain = rs_Chain out \<or> chain \<noteq> [] \<and> (\<forall>ct \<in> set chain. inBounds r b ct)"
  by (simp add: refines_def)

lemma context_refines:
  assumes "applyContext env other r store out b rules s = (store', out')"
  shows "refines r b out out'"
  using assms unfolding applyContext_def Let_def
  by (auto simp: refines_simps refines_refl refines_chain intro: select_refines dest: prepare_within split: if_splits prod.splits)

section \<open>The obligations of the privacy rules\<close>

text \<open>A later rule only shrinks the approved models and only adds obligations.\<close>

definition shrinks :: "requestBoundary \<Rightarrow> requestBoundary \<Rightarrow> bool" where
  "shrinks b b' \<longleftrightarrow>
     bd_in b' = bd_in b \<and> bd_state b' = bd_state b \<and> bd_inspection b' = bd_inspection b \<and> bd_budgetModel b' = bd_budgetModel b \<and>
     (\<forall>M. bd_models b = Some M \<longrightarrow> (\<exists>M'. bd_models b' = Some M' \<and> M' \<subseteq> M))"

definition obliges :: "Inspection \<Rightarrow> SensitiveData \<Rightarrow> requestBoundary \<times> bool \<times> bool \<Rightarrow> bool" where
  "obliges s sd acc \<longleftrightarrow>
     (case acc of (b, masked, blocked) \<Rightarrow>
        \<forall>(i, a) \<in> set (privacyTriggers s sd).
          (if a = InternalOnly
           then \<exists>M. bd_models b = Some M \<and> M \<subseteq> Canonical (bd_state b) ` set (s_InternalModels sd)
           else if a = Mask \<and> i = 0 then masked else blocked))"

lemma shrinks_refl: "shrinks b b" and shrinks_trans: "shrinks a b \<Longrightarrow> shrinks b c \<Longrightarrow> shrinks a c"
  by (auto simp: shrinks_def) blast

lemma rule_shrinks:
  assumes "privacyRule s sd (b, m, k) = (b', m', k')"
  shows "shrinks b b' \<and> (m \<longrightarrow> m') \<and> (k \<longrightarrow> k')"
  using assms by (auto simp: privacyRule_def Let_def intersect_def shrinks_def split: option.splits)

lemma rule_obliges:
  assumes "privacyRule s sd (b, m, k) = (b', m', k')"
  shows "obliges s sd (b', m', k')"
  using assms
  by (auto simp: privacyRule_def obliges_def privacyTriggers_def Let_def intersect_def InternalOnly_def Mask_def
      split: option.splits if_splits)

lemma obliges_mono:
  assumes "obliges s sd (b, m, k)" and "shrinks b b'" and "m \<longrightarrow> m'" and "k \<longrightarrow> k'"
  shows "obliges s sd (b', m', k')"
  using assms unfolding obliges_def shrinks_def by (fastforce split: if_splits)

lemma privacy_fold:
  assumes "fold (\<lambda>rule acc. case rr_sensitive rule of None \<Rightarrow> acc | Some sd \<Rightarrow> privacyRule s sd acc) rules (b, m, k) = (b', m', k')"
  shows "shrinks b b' \<and> (m \<longrightarrow> m') \<and> (k \<longrightarrow> k')
    \<and> (\<forall>rule \<in> set rules. \<forall>sd. rr_sensitive rule = Some sd \<longrightarrow> obliges s sd (b', m', k'))"
  using assms
proof (induction rules arbitrary: b m k)
  case Nil
  then show ?case by (simp add: shrinks_refl)
next
  case (Cons rule rules)
  show ?case
  proof (cases "rr_sensitive rule")
    case None
    from Cons.IH [of b m k] Cons.prems None show ?thesis by simp
  next
    case (Some sd)
    obtain b1 m1 k1 where step: "privacyRule s sd (b, m, k) = (b1, m1, k1)" by (cases "privacyRule s sd (b, m, k)")
    have rest: "shrinks b1 b' \<and> (m1 \<longrightarrow> m') \<and> (k1 \<longrightarrow> k')
      \<and> (\<forall>rule \<in> set rules. \<forall>sd. rr_sensitive rule = Some sd \<longrightarrow> obliges s sd (b', m', k'))"
      by (rule Cons.IH) (use Cons.prems Some step in simp)
    have "obliges s sd (b', m', k')"
      by (rule obliges_mono [OF rule_obliges [OF step]]) (use rest in auto)
    with rest rule_shrinks [OF step] Some show ?thesis by (auto intro: shrinks_trans)
  qed
qed

lemma privacy_rules:
  assumes "privacyRules s rules b = (b', m', k')"
  shows "shrinks b b'" and "rule \<in> set rules \<Longrightarrow> rr_sensitive rule = Some sd \<Longrightarrow> obliges s sd (b', m', k')"
  using privacy_fold [OF assms [unfolded privacyRules_def]] by auto

lemma mask_checked:
  assumes "maskRequest env inp = Some (body, checked)"
  shows "en_inspect env (ri_Protocol inp) body = Some checked \<and> ip_Complete checked \<and> ip_Categories checked = []"
  using assms by (auto simp: maskRequest_def split: option.splits if_splits)

section \<open>Refusals and routes\<close>

definition refused :: "RequestRoutingResult \<Rightarrow> RequestRoutingError \<Rightarrow> bool" where
  "refused out e \<longleftrightarrow>
     rs_Chain out = [] \<and> rs_Model out = [] \<and> rs_SanitizedBody out = None \<and> rs_AffinityToken out = None
     \<and> rd_SelectedModel (rs_Decision out) = [] \<and> rd_Reason (rs_Decision out) = re_Reason e \<and> re_StatusCode e = 403"

lemma deny_refused: "denyRouting out reason cause = (out', err) \<Longrightarrow> \<exists>e. err = Some e \<and> refused out' e"
  by (auto simp: denyRouting_def refused_def)

lemma finish_routes:
  assumes "finishRouting out chain = (out', err)"
  shows "case err of
      None \<Rightarrow> chain \<noteq> [] \<and> rs_Chain out' = chain \<and> rs_SanitizedBody out' = rs_SanitizedBody out
    | Some e \<Rightarrow> refused out' e"
proof (cases chain)
  case Nil
  then show ?thesis using assms deny_refused [of out] by (fastforce simp: finishRouting_def)
next
  case (Cons c cs)
  then show ?thesis using assms by (auto simp: finishRouting_def)
qed

text \<open>A guarded route: nonempty, within the boundary, with the sanitized body it was given.\<close>

definition guardedRoute :: "Router \<Rightarrow> requestBoundary \<Rightarrow> RequestRoutingResult \<Rightarrow> RequestRoutingResult \<Rightarrow> bool" where
  "guardedRoute r b out out' \<longleftrightarrow>
     rs_Chain out' \<noteq> [] \<and> (\<forall>ct \<in> set (rs_Chain out'). inBounds r b ct) \<and> rs_SanitizedBody out' = rs_SanitizedBody out"

lemma safe_routes:
  assumes "safeRouting env r b strict out = (out', err)"
  shows "case err of None \<Rightarrow> guardedRoute r b out out' | Some e \<Rightarrow> refused out' e"
proof -
  have fin: "case err of None \<Rightarrow> guardedRoute r b out out' | Some e \<Rightarrow> refused out' e"
    if "finishRouting o1 chain = (out', err)" "\<forall>ct \<in> set chain. inBounds r b ct" "rs_SanitizedBody o1 = rs_SanitizedBody out"
    for o1 chain
    using finish_routes [OF that(1)] that(2,3) by (auto simp: guardedRoute_def split: option.splits)
  have deny: "case err of None \<Rightarrow> guardedRoute r b out out' | Some e \<Rightarrow> refused out' e"
    if "denyRouting o1 reason None = (out', err)" for o1 reason
    using deny_refused [OF that] by auto
  note keep = withReason_def withPrivacy_def
  show ?thesis
    using assms unfolding safeRouting_def Let_def
    by (auto intro: fin deny request_chain_within filter_within recover_chain_within simp: keep
        split: if_split_asm option.split_asm)
qed

lemma finish_context_routes:
  assumes "finishContext env other r store b rules s (out1, err1) = (store', out', err)"
  shows "case err of
      None \<Rightarrow> err1 = None \<and> refines r b out1 out'
    | Some e \<Rightarrow> store' = store \<and> out' = out1 \<and> err1 = Some e"
  using assms by (cases err) (auto simp: finishContext_def refines_refl intro: context_refines split: if_splits prod.splits)

lemma safe_context_routes:
  assumes "finishContext env other r store b rules s (safeRouting env r b strict out) = (store', out', err)"
  shows "case err of None \<Rightarrow> guardedRoute r b out out' | Some e \<Rightarrow> refused out' e \<and> store' = store"
proof -
  obtain out1 err1 where safe: "safeRouting env r b strict out = (out1, err1)" by (cases "safeRouting env r b strict out")
  show ?thesis
    using finish_context_routes [OF assms [unfolded safe]] safe_routes [OF safe]
    by (auto simp: guardedRoute_def refines_def split: option.splits)
qed

text \<open>
  What a guarded decision owes each privacy rule: no trigger blocks, approved models only, and a
  masked body that was inspected again and found complete and clean. \<open>final\<close> is the inspection
  of the bytes that are forwarded.
\<close>

definition settled :: "RouteEnv \<Rightarrow> requestBoundary \<Rightarrow> requestRule list \<Rightarrow> Inspection \<Rightarrow> RequestRoutingResult \<Rightarrow> requestBoundary \<Rightarrow> bool" where
  "settled env b0 rules s out b \<longleftrightarrow>
     shrinks b0 b \<and>
     (\<exists>m. (\<forall>rule \<in> set rules. \<forall>sd. rr_sensitive rule = Some sd \<longrightarrow> obliges s sd (b, m, False)) \<and>
        (if m then \<exists>body checked. rs_SanitizedBody out = Some body \<and> en_inspect env (ri_Protocol (bd_in b)) body = Some checked
               \<and> ip_Complete checked \<and> ip_Categories checked = []
               \<and> (bd_models b \<noteq> None \<longrightarrow> \<not> ip_HasRemoteTools checked)
         else rs_SanitizedBody out = None \<and> (bd_models b \<noteq> None \<longrightarrow> \<not> ip_HasRemoteTools s)))"

lemma privately_routes:
  assumes "routePrivately env other r store b0 rules strict s out0 = (store', out', err)"
    and "bd_inspection b0 = Some s" and "rs_SanitizedBody out0 = None"
  shows "case err of
      None \<Rightarrow> (\<exists>b. settled env b0 rules s out' b \<and> rs_Chain out' \<noteq> []
               \<and> (\<forall>ct \<in> set (rs_Chain out'). inBounds r (b\<lparr>bd_inspection := None\<rparr>) ct))
    | Some e \<Rightarrow> refused out' e \<and> store' = store"
proof -
  obtain b m k where priv: "privacyRules s rules b0 = (b, m, k)" by (cases "privacyRules s rules b0")
  note kept = privacy_rules [OF priv]
  have strip: "inBounds r b' ct \<Longrightarrow> bd_state b' = bd_state b \<Longrightarrow> bd_models b' = bd_models b \<Longrightarrow> bd_budgetModel b' = bd_budgetModel b
      \<Longrightarrow> ri_Principal (bd_in b') = ri_Principal (bd_in b) \<Longrightarrow> ri_AllowedRegions (bd_in b') = ri_AllowedRegions (bd_in b)
      \<Longrightarrow> inBounds r (b\<lparr>bd_inspection := None\<rparr>) ct \<and> (bd_models b \<noteq> None \<longrightarrow> (\<forall>x. bd_inspection b' = Some x \<longrightarrow> \<not> ip_HasRemoteTools x))"
    for b' ct by (auto simp: inBounds_def Let_def)
  note unf = assms(1) [unfolded routePrivately_def priv prod.case Let_def]
  consider "k" | "\<not> k" "m" "maskRequest env (bd_in b) = None"
    | body checked where "\<not> k" "m" "maskRequest env (bd_in b) = Some (body, checked)" | "\<not> k" "\<not> m"
    by (cases "maskRequest env (bd_in b)") auto
  then show ?thesis
  proof cases
    case 1
    with unf show ?thesis by (auto dest!: deny_refused)
  next
    case 2
    with unf show ?thesis by (auto dest!: deny_refused)
  next
    case 3
    define b' where "b' = maskedBoundary env b (body, checked)"
    have same: "bd_state b' = bd_state b" "bd_models b' = bd_models b" "bd_budgetModel b' = bd_budgetModel b"
      "ri_Principal (bd_in b') = ri_Principal (bd_in b)" "ri_AllowedRegions (bd_in b') = ri_AllowedRegions (bd_in b)"
      "bd_inspection b' = Some checked"
      by (simp_all add: b'_def maskedBoundary_def)
    have fc: "finishContext env other r store b' rules checked (safeRouting env r b' strict (withMasked body (out0\<lparr>rs_MaskRequired := m\<rparr>)))
        = (store', out', err)" using unf 3 by (simp add: b'_def)
    show ?thesis
      using safe_context_routes [OF fc] kept mask_checked [OF 3(3)] strip [OF _ same(1-5)] same(6) 3(1,2)
      by (cases err) (auto simp: guardedRoute_def settled_def withMasked_def simp del: neq_Nil_conv intro!: exI [of _ b] exI [of _ True] dest!: hd_in_set)
  next
    case 4
    have fc: "finishContext env other r store b rules s (safeRouting env r b strict (out0\<lparr>rs_MaskRequired := m\<rparr>)) = (store', out', err)"
      using unf 4 by simp
    have "bd_inspection b = Some s" using kept assms(2) by (simp add: shrinks_def)
    then show ?thesis
      using safe_context_routes [OF fc] kept strip [of b] 4 assms(3)
      by (cases err) (auto simp: guardedRoute_def settled_def simp del: neq_Nil_conv intro!: exI [of _ b] exI [of _ False] dest!: hd_in_set)
  qed
qed

section \<open>The decision as a whole\<close>

definition authorized :: "Router \<Rightarrow> RequestRoutingInput \<Rightarrow> LiveState \<Rightarrow> ChainTarget \<Rightarrow> bool" where
  "authorized r inp st ct \<longleftrightarrow>
     allowsInState r (ri_Principal inp) (Canonical st (ct_Model ct)) st
     \<and> regionAllowed (ri_AllowedRegions inp) (state_Region st (ct_ProviderName ct))"

lemma bounds_authorized:
  assumes "inBounds r b ct" and "wfTopology (bd_state b)"
  shows "authorized r (bd_in b) (bd_state b) ct"
  using assms canonical_routed [OF assms(2), of "ct_Model ct"] by (simp add: inBounds_def authorized_def Let_def)

lemma legacy_authorized: "ct \<in> set (legacyChain r inp st) \<Longrightarrow> authorized r inp st ct"
  by (simp add: legacyChain_def authorized_def)

definition requestBounds :: "RouteEnv \<Rightarrow> RequestRoutingInput \<Rightarrow> LiveState \<Rightarrow> string \<Rightarrow> Inspection \<Rightarrow> requestBoundary" where
  "requestBounds env inp st budgetModel s =
     (newBoundary inp st budgetModel)\<lparr>bd_inspection := Some s, bd_converseSafe := en_converse env (ri_RawBody inp)\<rparr>"

definition guarded :: "requestRule list \<Rightarrow> string \<times> bool \<Rightarrow> bool" where
  "guarded rules budget \<longleftrightarrow> list_ex (\<lambda>rule. rr_sensitive rule \<noteq> None) rules \<or> snd budget"

lemma bounds_simps [simp]:
  "bd_in (requestBounds env inp st m s) = inp" "bd_state (requestBounds env inp st m s) = st"
  "bd_inspection (requestBounds env inp st m s) = Some s" "bd_budgetModel (requestBounds env inp st m s) = m"
  "bd_in (newBoundary inp st m) = inp" "bd_state (newBoundary inp st m) = st"
  by (simp_all add: requestBounds_def newBoundary_def)

lemma inspected_guarded:
  assumes "routeInspected env other r store inp st rules budget early out0 = (store', out', err)"
    and "early = None \<or> early = en_inspect env (ri_Protocol inp) (ri_RawBody inp)"
    and "rs_SanitizedBody out0 = None" and "guarded rules budget"
  shows "case err of
      None \<Rightarrow> (\<exists>s b. en_inspect env (ri_Protocol inp) (ri_RawBody inp) = Some s
               \<and> settled env (requestBounds env inp st (fst budget) s) rules s out' b \<and> rs_Chain out' \<noteq> []
               \<and> (\<forall>ct \<in> set (rs_Chain out'). inBounds r (b\<lparr>bd_inspection := None\<rparr>) ct))
    | Some e \<Rightarrow> refused out' e \<and> store' = store"
proof -
  note unf = assms(1) [unfolded routeInspected_def Let_def, folded guarded_def requestBounds_def]
  have early: "(case early of Some s \<Rightarrow> Some s | None \<Rightarrow> en_inspect env (ri_Protocol inp) (ri_RawBody inp))
      = en_inspect env (ri_Protocol inp) (ri_RawBody inp)"
    using assms(2) by (auto split: option.splits)
  show ?thesis
  proof (cases "en_inspect env (ri_Protocol inp) (ri_RawBody inp)")
    case None
    then show ?thesis using unf early assms(4) by (auto dest!: deny_refused)
  next
    case (Some s)
    have "routePrivately env other r store (requestBounds env inp st (fst budget) s) rules (snd budget) s (withInspection s out0)
        = (store', out', err)"
      using unf early assms(4) Some by simp
    from privately_routes [OF this] Some assms(3) show ?thesis
      by (simp add: withInspection_def split: option.splits)
  qed
qed

lemma inspected_passive:
  assumes "routeInspected env other r store inp st rules budget early out0 = (store', out', err)"
    and "wfTopology st" and "\<not> guarded rules budget"
  shows "case err of
      None \<Rightarrow> rs_Chain out' \<noteq> [] \<and> (\<forall>ct \<in> set (rs_Chain out'). authorized r inp st ct)
    | Some e \<Rightarrow> refused out' e \<and> store' = store"
proof -
  define legacy where "legacy = (case early of
              None \<Rightarrow> legacyChain r inp st
            | Some s \<Rightarrow> boundaryFilter r ((newBoundary inp st [])\<lparr>bd_inspection := Some s\<rparr>) (ri_Chain inp) False)"
  define out where "out = out0\<lparr>rs_Chain := legacy, rs_Decision := (rs_Decision out0)\<lparr>rd_SelectedModel := ct_Model (hd legacy)\<rparr>\<rparr>"
  note unf = assms(1) [unfolded routeInspected_def Let_def, folded guarded_def requestBounds_def legacy_def, folded out_def]
  have auth: "\<forall>ct \<in> set legacy. authorized r inp st ct"
    using bounds_authorized [of r "(newBoundary inp st [])\<lparr>bd_inspection := Some x\<rparr>" for x] assms(2)
    by (auto simp: legacy_def legacy_authorized dest!: filter_within split: option.splits)
  have chain: "rs_Chain out = legacy" "rs_Chain (withInspection x out) = legacy" "rs_Chain (withReason c (inspectionFailed out)) = legacy" for c x
    by (simp_all add: out_def withReason_def inspectionFailed_def withInspection_def)
  show ?thesis
  proof (cases "legacy = []")
    case True
    then show ?thesis using unf assms(3) by (auto dest!: deny_refused)
  next
    case False
    have fin: "case err of
      None \<Rightarrow> rs_Chain out' \<noteq> [] \<and> (\<forall>ct \<in> set (rs_Chain out'). authorized r inp st ct)
    | Some e \<Rightarrow> refused out' e \<and> store' = store" if "rs_Chain out' = legacy" "err = None"
      using that False auth by simp
    consider "rules = []" | "rules \<noteq> []"
        "(case early of Some s \<Rightarrow> Some s | None \<Rightarrow> en_inspect env (ri_Protocol inp) (ri_RawBody inp)) = None"
      | s where "rules \<noteq> []" "(case early of Some s \<Rightarrow> Some s | None \<Rightarrow> en_inspect env (ri_Protocol inp) (ri_RawBody inp)) = Some s"
      by (cases "case early of Some s \<Rightarrow> Some s | None \<Rightarrow> en_inspect env (ri_Protocol inp) (ri_RawBody inp)") auto
    then show ?thesis
    proof cases
      case 1
      with unf assms(3) False chain(1) show ?thesis by (intro fin) auto
    next
      case 2
      with unf assms(3) False chain(3) show ?thesis by (intro fin) auto
    next
      case 3
      have fc: "finishContext env other r store (requestBounds env inp st (fst budget) s) rules s (withInspection s out, None) = (store', out', err)"
        using unf 3 assms(3) False by simp
      have "authorized r inp st ct" if "inBounds r (requestBounds env inp st (fst budget) s) ct" for ct
        using bounds_authorized [OF that] assms(2) by simp
      then show ?thesis
        using finish_context_routes [OF fc] chain(2) False auth
        by (auto simp: refines_def split: option.splits)
    qed
  qed
qed

definition requestFor :: "RequestRoutingInput \<Rightarrow> LiveState \<Rightarrow> RequestRoutingInput" where
  "requestFor inp st = inp\<lparr>ri_Model := Canonical st (ri_Model inp)\<rparr>"

lemma request_for_simps [simp]:
  "ri_Principal (requestFor inp st) = ri_Principal inp" "ri_Protocol (requestFor inp st) = ri_Protocol inp"
  "ri_RawBody (requestFor inp st) = ri_RawBody inp" "ri_AllowedRegions (requestFor inp st) = ri_AllowedRegions inp"
  "ri_Model (requestFor inp st) = Canonical st (ri_Model inp)"
  by (simp_all add: requestFor_def)

lemma authorized_for [simp]: "authorized r (requestFor inp st) st ct = authorized r inp st ct"
  by (simp add: authorized_def)

text \<open>Every decision is a refusal or passes through the two guards and the inspection stage.\<close>

lemma in_state_cases:
  assumes "routeInState env other r store inp st docs out0 = (store', out', err)" and "rs_SanitizedBody out0 = None"
  obtains (refused) e where "err = Some e" "refused out' e" "store' = store"
  | (routed) early out1 where
      "routeInspected env other r store (requestFor inp st) st (requestRules docs st (Canonical st (ri_Model inp)))
         (budgetConstraint r (ri_Principal inp) st (requestedOf inp)) early out1 = (store', out', err)"
      "early = None \<or> early = en_inspect env (ri_Protocol inp) (ri_RawBody inp)" "rs_SanitizedBody out1 = None"
      "allowsInState r (ri_Principal inp) (Canonical st (requestedOf inp)) st"
      "allowsInState r (ri_Principal inp) (Canonical st (ri_Model inp)) st"
      "\<forall>target. budgetConstraint r (ri_Principal inp) st (requestedOf inp) = (target, True) \<longrightarrow> target \<noteq> []"
proof -
  define rules where "rules = requestRules docs st (Canonical st (ri_Model inp))"
  define out where "out = out0\<lparr>rs_Decision := (rs_Decision out0)\<lparr>rd_Policies := map rr_ref rules\<rparr>\<rparr>"
  note unf = assms(1) [unfolded routeInState_def Let_def, folded requestFor_def, simplified, folded rules_def, folded out_def]
  show thesis
  proof (cases "\<not> allowsInState r (ri_Principal inp) (Canonical st (requestedOf inp)) st
      \<or> \<not> allowsInState r (ri_Principal inp) (Canonical st (ri_Model inp)) st
      \<or> snd (budgetConstraint r (ri_Principal inp) st (requestedOf inp)) \<and> fst (budgetConstraint r (ri_Principal inp) st (requestedOf inp)) = []
      \<or> ri_Protocol inp = ''responses'' \<and> en_inspect env (ri_Protocol inp) (ri_RawBody inp) = None")
    case True
    then have "store' = store \<and> (\<exists>e. err = Some e \<and> refused out' e)"
      using unf by (auto dest: deny_refused split: if_splits)
    then show thesis using refused by blast
  next
    case False
    show thesis
      by (rule routed [of "if ri_Protocol inp = ''responses'' then en_inspect env (ri_Protocol inp) (ri_RawBody inp) else None"
            "if ri_Protocol inp = ''responses'' then withInspection (the (en_inspect env (ri_Protocol inp) (ri_RawBody inp))) out else out"])
        (use unf False assms(2) in \<open>auto simp: rules_def out_def withInspection_def split: if_splits\<close>)
  qed
qed

lemma request_cases:
  assumes "RouteRequest env other r store inp = (store', out', err)"
  obtains (refused) e where "err = Some e" "refused out' e" "store' = store"
  | (routed) generation docs st out0 where
      "lookupPolicies env (ri_Principal inp) = (generation, Inr docs)" "ri_State inp = Some st" "rs_SanitizedBody out0 = None"
      "routeInState env other r store inp st docs out0 = (store', out', err)"
proof -
  obtain generation looked where look: "lookupPolicies env (ri_Principal inp) = (generation, looked)"
    by (cases "lookupPolicies env (ri_Principal inp)")
  define out where "out = initialResult inp (requestedOf inp) generation"
  note unf = assms [unfolded RouteRequest_def look prod.case Let_def, folded out_def]
  have body: "rs_SanitizedBody out = None" by (simp add: out_def initialResult_def)
  show thesis
  proof (cases "\<exists>docs st. looked = Inr docs \<and> ri_State inp = Some st")
    case True
    then obtain docs st where "looked = Inr docs" "ri_State inp = Some st" by blast
    with routed [of generation docs st out] look body unf show thesis by simp
  next
    case False
    then have "store' = store \<and> (\<exists>e. err = Some e \<and> refused out' e)"
      using unf by (auto dest: deny_refused split: sum.splits option.splits)
    then show thesis using refused by blast
  qed
qed

section \<open>Properties\<close>

lemma routed_decision:
  assumes "RouteRequest env other r store inp = (store', out, None)"
  obtains generation docs st early out1 where
    "lookupPolicies env (ri_Principal inp) = (generation, Inr docs)" "ri_State inp = Some st"
    "routeInspected env other r store (requestFor inp st) st (requestRules docs st (Canonical st (ri_Model inp)))
       (budgetConstraint r (ri_Principal inp) st (requestedOf inp)) early out1 = (store', out, None)"
    "early = None \<or> early = en_inspect env (ri_Protocol inp) (ri_RawBody inp)" "rs_SanitizedBody out1 = None"
    "allowsInState r (ri_Principal inp) (Canonical st (requestedOf inp)) st"
    "allowsInState r (ri_Principal inp) (Canonical st (ri_Model inp)) st"
    "\<forall>target. budgetConstraint r (ri_Principal inp) st (requestedOf inp) = (target, True) \<longrightarrow> target \<noteq> []"
proof (rule request_cases [OF assms])
  fix generation docs st out0
  assume look: "lookupPolicies env (ri_Principal inp) = (generation, Inr docs)" "ri_State inp = Some st" and "rs_SanitizedBody out0 = None"
    and "routeInState env other r store inp st docs out0 = (store', out, None)"
  from this(4,3) show thesis
    by (rule in_state_cases) (use look that in auto)
qed simp

text \<open>
  A successful decision returns at least one target, and whichever path chose it, every
  target of the chain serves a model the caller may use in the generation of the request, by
  key and by policy, in a region the request allows; the model asked for and the current one
  are themselves allowed; and under a strict budget every target serves the model the budget
  prescribes, on no account another one.
\<close>

lemma routed_authorized:
  assumes "RouteRequest env other r store inp = (store', out, None)" and "ri_State inp = Some st" and "wfTopology st"
  shows "rs_Chain out \<noteq> [] \<and> (\<forall>ct \<in> set (rs_Chain out). authorized r inp st ct)
    \<and> allowsInState r (ri_Principal inp) (Canonical st (requestedOf inp)) st
    \<and> allowsInState r (ri_Principal inp) (Canonical st (ri_Model inp)) st
    \<and> (\<forall>target. budgetConstraint r (ri_Principal inp) st (requestedOf inp) = (target, True)
         \<longrightarrow> target \<noteq> [] \<and> (\<forall>ct \<in> set (rs_Chain out). ct_Model ct = target))"
proof (rule routed_decision [OF assms(1)])
  fix generation docs st' early out1
  define rules where "rules = requestRules docs st' (Canonical st' (ri_Model inp))"
  define budget where "budget = budgetConstraint r (ri_Principal inp) st' (requestedOf inp)"
  assume "ri_State inp = Some st'" and routed: "routeInspected env other r store (requestFor inp st') st' (requestRules docs st' (Canonical st' (ri_Model inp)))
       (budgetConstraint r (ri_Principal inp) st' (requestedOf inp)) early out1 = (store', out, None)"
    and early: "early = None \<or> early = en_inspect env (ri_Protocol inp) (ri_RawBody inp)" "rs_SanitizedBody out1 = None"
    and own: "allowsInState r (ri_Principal inp) (Canonical st' (requestedOf inp)) st'"
      "allowsInState r (ri_Principal inp) (Canonical st' (ri_Model inp)) st'"
      "\<forall>target. budgetConstraint r (ri_Principal inp) st' (requestedOf inp) = (target, True) \<longrightarrow> target \<noteq> []"
  then have st: "st' = st" using assms(2) by simp
  note routed = routed [folded rules_def budget_def]
  have "rs_Chain out \<noteq> [] \<and> (\<forall>ct \<in> set (rs_Chain out). authorized r inp st ct \<and> (snd budget \<longrightarrow> fst budget \<noteq> [] \<longrightarrow> ct_Model ct = fst budget))"
  proof (cases "guarded rules budget")
    case True
    from inspected_guarded [OF routed _ early(2) True] early(1)
    obtain s b where b: "settled env (requestBounds env (requestFor inp st') st' (fst budget) s) rules s out b" "rs_Chain out \<noteq> []"
      "\<forall>ct \<in> set (rs_Chain out). inBounds r (b\<lparr>bd_inspection := None\<rparr>) ct" by auto
    then have same: "bd_in b = requestFor inp st'" "bd_state b = st'" "bd_budgetModel b = fst budget"
      by (auto simp: settled_def shrinks_def)
    have "authorized r inp st ct" if "ct \<in> set (rs_Chain out)" for ct
      using bounds_authorized [of r "b\<lparr>bd_inspection := None\<rparr>" ct] b(3) that same assms(3) st by simp
    with b same show ?thesis by (auto simp: inBounds_def Let_def)
  next
    case False
    then show ?thesis using inspected_passive [OF routed _ False] assms(3) st by (auto simp: guarded_def)
  qed
  then show ?thesis using own by (auto simp: st budget_def)
qed

definition privacyPolicy :: "SensitiveData \<Rightarrow> Policy" where
  "privacyPolicy sd = \<lparr>p_Name = ''privacy'', p_Generation = 2, p_Subject = \<lparr>ps_Team = ''t'', ps_User = []\<rparr>,
     p_Rules = [\<lparr>r_Name = ''pii'', r_FailurePolicy = FailClosed, r_Budget = None, r_Routing = None, r_ModelAccess = None,
       r_SensitiveData = Some sd, r_Rate = None, r_TokenQuota = None\<rparr>]\<rparr>"

definition sampleInspection :: "string list \<Rightarrow> bool \<Rightarrow> Inspection" where
  "sampleInspection cats full = \<lparr>ip_Complete = full, ip_Categories = cats, ip_InputTokens = 10, ip_OutputTokens = 20,
     ip_UserTurns = 1, ip_HasHistory = False, ip_HasTools = False, ip_HasVision = False, ip_HasReasoning = False,
     ip_HasStructuredOutput = False, ip_HasRemoteTools = False\<rparr>"

definition sampleEnv :: "Policy list \<Rightarrow> RouteEnv" where
  "sampleEnv docs = \<lparr>en_clkSafe = (\<lambda>_ _. 0), en_clkAffinity = (\<lambda>_. 0), en_clkPin = (\<lambda>_. 0), en_clkContext = (\<lambda>_. 0), en_now = 0,
     en_lookup = Some (\<lambda>team user. (''g1'', Inr docs)),
     en_inspect = (\<lambda>protocol body. Some (if body = ''secret'' then sampleInspection [''email''] False else sampleInspection [] True)),
     en_redactor = Some (\<lambda>protocol body. Some ''clean''), en_cancelledMask = False, en_cancelledInspect = False,
     en_keywords = (\<lambda>_ _. False), en_contextKeywords = (\<lambda>_ _ _. False), en_converse = (\<lambda>_. True),
     en_sessionKey = (\<lambda>_. None), en_policyDigest = (\<lambda>_ _ _. [])\<rparr>"

definition sampleRequest :: "string \<Rightarrow> RequestRoutingInput" where
  "sampleRequest body = \<lparr>ri_Principal = sampleKey [''*''], ri_Protocol = ''anthropic'', ri_RawBody = body,
     ri_RequestedModel = [], ri_Model = ''m-2'', ri_Chain = modelChain sampleState ''m-2'', ri_State = Some sampleState, ri_AllowedRegions = [''eu''],
     ri_CountOnly = False, ri_SessionHint = [], ri_Redactor = None, ri_Compatible = None\<rparr>"

definition internalMask :: SensitiveData where
  "internalMask = \<lparr>s_OnDetected = Mask, s_OnUninspectable = InternalOnly, s_InternalModels = [''m-2'']\<rparr>"

lemma sample_masks:
  "\<exists>out. RouteRequest (sampleEnv [privacyPolicy internalMask]) id NewRouter None (sampleRequest ''secret'') = (None, out, None)
     \<and> rs_SanitizedBody out = Some ''clean'' \<and> map ct_Model (rs_Chain out) = [''m-2'']"
proof -
  have "(case RouteRequest (sampleEnv [privacyPolicy internalMask]) id NewRouter None (sampleRequest ''secret'') of
      (store, out, err) \<Rightarrow> store = None \<and> err = None \<and> rs_SanitizedBody out = Some ''clean'' \<and> map ct_Model (rs_Chain out) = [''m-2''])"
    by code_simp
  then show ?thesis by (cases "RouteRequest (sampleEnv [privacyPolicy internalMask]) id NewRouter None (sampleRequest ''secret'')") auto
qed

lemma sample_wf: "wfTopology sampleState"
  using sample_builds build_wf(1) [OF _ sample_finite] by blast

lemma rules_sensitive:
  assumes "doc \<in> set docs" and "pr \<in> set (p_Rules doc)" and "r_SensitiveData pr = Some sd"
  shows "\<exists>rule \<in> set (requestRules docs st source). rr_sensitive rule = Some sd"
proof -
  have "\<exists>rule \<in> set (rulesOf st source doc pr). rr_sensitive rule = Some sd" using assms(3) by (simp add: rulesOf_def Let_def)
  then show ?thesis using assms(1,2) by (auto simp: requestRules_def)
qed

text \<open>
  C18: no request escapes a privacy rule. When a decision succeeds, then for every
  sensitive-data rule of every policy that applies, the body was inspected; had the rule
  blocked what was found the request would not have succeeded; an internal-only obligation
  confines the whole chain to the rule's models, on providers whose data boundary is
  internal, and to bodies without remote tools; and a mask obligation means that the
  forwarded body is a redaction that was itself inspected, completely and without a finding.
\<close>

theorem privacy_obligations_met:
  assumes "RouteRequest env other r store inp = (store', out, None)" and "ri_State inp = Some st"
    and "lookupPolicies env (ri_Principal inp) = (generation, Inr docs)"
    and "doc \<in> set docs" and "pr \<in> set (p_Rules doc)" and "r_SensitiveData pr = Some sd"
  shows "\<exists>s. en_inspect env (ri_Protocol inp) (ri_RawBody inp) = Some s \<and>
    (ip_Categories s \<noteq> [] \<longrightarrow> s_OnDetected sd \<in> {InternalOnly, Mask}) \<and>
    (\<not> ip_Complete s \<longrightarrow> s_OnUninspectable sd = InternalOnly) \<and>
    (ip_Categories s \<noteq> [] \<and> s_OnDetected sd = InternalOnly \<or> \<not> ip_Complete s \<longrightarrow>
       (\<forall>ct \<in> set (rs_Chain out). ct_Model ct \<in> Canonical st ` set (s_InternalModels sd)
          \<and> DataBoundary st (ct_ProviderName ct) = ''internal'')
       \<and> (\<exists>final. en_inspect env (ri_Protocol inp) (case rs_SanitizedBody out of None \<Rightarrow> ri_RawBody inp | Some body \<Rightarrow> body) = Some final
            \<and> \<not> ip_HasRemoteTools final)) \<and>
    (ip_Categories s \<noteq> [] \<and> s_OnDetected sd = Mask \<longrightarrow>
       (\<exists>body checked. rs_SanitizedBody out = Some body \<and> en_inspect env (ri_Protocol inp) body = Some checked
          \<and> ip_Complete checked \<and> ip_Categories checked = []))"
proof (rule routed_decision [OF assms(1)])
  fix generation' docs' st' early out1
  assume "lookupPolicies env (ri_Principal inp) = (generation', Inr docs')" "ri_State inp = Some st'"
    and routed: "routeInspected env other r store (requestFor inp st') st' (requestRules docs' st' (Canonical st' (ri_Model inp)))
       (budgetConstraint r (ri_Principal inp) st' (requestedOf inp)) early out1 = (store', out, None)"
    and early: "early = None \<or> early = en_inspect env (ri_Protocol inp) (ri_RawBody inp)" "rs_SanitizedBody out1 = None"
  then have same: "docs' = docs" "st' = st" using assms(2,3) by simp_all
  define rules where "rules = requestRules docs st (Canonical st (ri_Model inp))"
  define budget where "budget = budgetConstraint r (ri_Principal inp) st (requestedOf inp)"
  note routed = routed [unfolded same, folded rules_def budget_def]
  obtain rule where rule: "rule \<in> set rules" "rr_sensitive rule = Some sd"
    using rules_sensitive [OF assms(4-6)] by (auto simp: rules_def)
  then have "guarded rules budget" by (auto simp: guarded_def list_ex_iff)
  from inspected_guarded [OF routed _ early(2) this] early(1)
  obtain s b where s: "en_inspect env (ri_Protocol inp) (ri_RawBody inp) = Some s"
    and b: "settled env (requestBounds env (requestFor inp st) st (fst budget) s) rules s out b"
      "\<forall>ct \<in> set (rs_Chain out). inBounds r (b\<lparr>bd_inspection := None\<rparr>) ct" by auto
  have inp: "bd_in b = requestFor inp st" "bd_state b = st" using b(1) by (auto simp: settled_def shrinks_def)
  have proto: "ri_Protocol (bd_in b) = ri_Protocol inp" by (simp add: inp)
  obtain m where owed: "obliges s sd (b, m, False)"
    and body: "if m then \<exists>body checked. rs_SanitizedBody out = Some body \<and> en_inspect env (ri_Protocol inp) body = Some checked
               \<and> ip_Complete checked \<and> ip_Categories checked = [] \<and> (bd_models b \<noteq> None \<longrightarrow> \<not> ip_HasRemoteTools checked)
         else rs_SanitizedBody out = None \<and> (bd_models b \<noteq> None \<longrightarrow> \<not> ip_HasRemoteTools s)"
    using b(1) [unfolded settled_def proto] rule by blast
  have clean: "\<exists>final. en_inspect env (ri_Protocol inp) (case rs_SanitizedBody out of None \<Rightarrow> ri_RawBody inp | Some body \<Rightarrow> body) = Some final
      \<and> \<not> ip_HasRemoteTools final" if "bd_models b \<noteq> None"
    using body s that by (auto split: if_split_asm)
  have internal: "ct_Model ct \<in> Canonical st ` set (s_InternalModels sd) \<and> DataBoundary st (ct_ProviderName ct) = ''internal''"
    if "bd_models b = Some M" "M \<subseteq> Canonical (bd_state b) ` set (s_InternalModels sd)" "ct \<in> set (rs_Chain out)" for M ct
    using b(2) that inp by (auto simp: inBounds_def Let_def)
  show ?thesis
    using s owed body clean internal
    by (intro exI [of _ s]) (auto simp: obliges_def privacyTriggers_def InternalOnly_def Mask_def split: if_splits)
qed

theorem privacy_obligations_met_witness:
  "\<exists>out body checked. RouteRequest (sampleEnv [privacyPolicy internalMask]) id NewRouter None (sampleRequest ''secret'') = (None, out, None)
     \<and> rs_SanitizedBody out = Some body \<and> en_inspect (sampleEnv [privacyPolicy internalMask]) ''anthropic'' body = Some checked
     \<and> ip_Complete checked \<and> ip_Categories checked = []"
proof -
  obtain out where out: "RouteRequest (sampleEnv [privacyPolicy internalMask]) id NewRouter None (sampleRequest ''secret'') = (None, out, None)"
    using sample_masks by blast
  have hyp: "ri_State (sampleRequest ''secret'') = Some sampleState"
    "lookupPolicies (sampleEnv [privacyPolicy internalMask]) (ri_Principal (sampleRequest ''secret'')) = (''g1'', Inr [privacyPolicy internalMask])"
    "privacyPolicy internalMask \<in> set [privacyPolicy internalMask]"
    "p_Rules (privacyPolicy internalMask) ! 0 \<in> set (p_Rules (privacyPolicy internalMask))"
    "r_SensitiveData (p_Rules (privacyPolicy internalMask) ! 0) = Some internalMask"
    by (simp_all add: sampleRequest_def lookupPolicies_def sampleEnv_def privacyPolicy_def)
  have "en_inspect (sampleEnv [privacyPolicy internalMask]) (ri_Protocol (sampleRequest ''secret'')) (ri_RawBody (sampleRequest ''secret''))
      = Some (sampleInspection [''email''] False)"
    by (simp add: sampleEnv_def sampleRequest_def)
  with privacy_obligations_met [OF out hyp] out show ?thesis
    by (auto simp: sampleInspection_def internalMask_def sampleRequest_def)
qed

text \<open>
  C19: every refusal is closed. Whatever the policies, the inspector, the redactor and the
  topology did, a decision either succeeds or is a 403 that carries no chain, no model, no
  body and no affinity token, names its reason in the decision and leaves the affinity store
  as it was; a failed policy lookup and a request without a topology are such refusals.
\<close>

theorem routing_fails_closed:
  assumes "RouteRequest env other r store inp = (store', out, err)"
    and "\<forall>st. ri_State inp = Some st \<longrightarrow> wfTopology st"
  shows "(case err of None \<Rightarrow> rs_Chain out \<noteq> [] | Some e \<Rightarrow> refused out e \<and> store' = store)
    \<and> (ri_State inp = None \<or> (\<exists>g c. lookupPolicies env (ri_Principal inp) = (g, Inl c)) \<longrightarrow> err \<noteq> None)"
proof -
  have "case err of None \<Rightarrow> rs_Chain out \<noteq> [] \<and> ri_State inp \<noteq> None \<and> (\<exists>g docs. lookupPolicies env (ri_Principal inp) = (g, Inr docs))
      | Some e \<Rightarrow> refused out e \<and> store' = store"
    using assms(1)
  proof (cases rule: request_cases)
    case (refused e)
    then show ?thesis by simp
  next
    case (routed generation docs st' out0)
    from routed(4,3) show ?thesis
    proof (cases rule: in_state_cases)
      case (refused e)
      then show ?thesis by simp
    next
      case inner: (routed early out1)
      define rules where "rules = requestRules docs st' (Canonical st' (ri_Model inp))"
      define budget where "budget = budgetConstraint r (ri_Principal inp) st' (requestedOf inp)"
      note step = inner(1) [folded rules_def budget_def]
      have wf: "wfTopology st'" using assms(2) routed(2) by auto
      show ?thesis
        using inspected_guarded [OF step _ inner(3)] inspected_passive [OF step wf] inner(2) routed(1,2)
        by (cases "guarded rules budget"; cases err) auto
    qed
  qed
  then show ?thesis by (auto split: option.splits)
qed

theorem routing_fails_closed_witness:
  "\<exists>out e. RouteRequest (sampleEnv [privacyPolicy (internalMask\<lparr>s_OnUninspectable := BlockAction\<rparr>)]) id NewRouter None (sampleRequest ''secret'')
     = (None, out, Some e) \<and> refused out e \<and> re_Reason e = ''sensitive_blocked''"
proof -
  define res where "res = RouteRequest (sampleEnv [privacyPolicy (internalMask\<lparr>s_OnUninspectable := BlockAction\<rparr>)]) id NewRouter None (sampleRequest ''secret'')"
  have "(case res of (store, out, err) \<Rightarrow> store = None \<and> map_option re_Reason err = Some ''sensitive_blocked'')"
    unfolding res_def by code_simp
  then obtain out e where out: "res = (None, out, Some e)" and reason: "re_Reason e = ''sensitive_blocked''" by (cases res) auto
  have "refused out e" using routing_fails_closed [OF out [unfolded res_def]] sample_wf by (simp add: sampleRequest_def)
  with out reason show ?thesis unfolding res_def by blast
qed

section \<open>Affinity\<close>

definition wfAffinity :: "affinityStore \<Rightarrow> bool" where
  "wfAffinity s \<longleftrightarrow>
     finite (Mapping.keys (as_entries s)) \<and> Mapping.size (as_entries s) \<le> maxAffinityEntries \<and>
     (\<forall>k e. Mapping.lookup (as_entries s) k = Some e \<longrightarrow> 1 \<le> ae_requests e \<and> ae_requests e \<le> 10000)"

text \<open>Making room only removes entries.\<close>

definition keeps :: "(string, affinityEntry) mapping \<Rightarrow> (string, affinityEntry) mapping \<Rightarrow> bool" where
  "keeps m m' \<longleftrightarrow> (\<forall>k e. Mapping.lookup m' k = Some e \<longrightarrow> Mapping.lookup m k = Some e)"

lemma keeps_size:
  assumes "keeps m m'" and "finite (Mapping.keys m)"
  shows "finite (Mapping.keys m')" and "Mapping.size m' \<le> Mapping.size m"
proof -
  have sub: "Mapping.keys m' \<subseteq> Mapping.keys m" using assms(1) by (auto simp: keeps_def keys_is_none_rep Option.is_none_def)
  then show fin: "finite (Mapping.keys m')" using assms(2) finite_subset by blast
  show "Mapping.size m' \<le> Mapping.size m" using card_mono [OF assms(2) sub] fin assms(2) by (simp add: Mapping.size_def)
qed

lemma keeps_delete: "keeps m m' \<Longrightarrow> keeps m (Mapping.delete k m')"
  by (auto simp: keeps_def lookup_delete')

lemma keeps_live: "keeps m (liveEntries now m)"
  by (auto simp: keeps_def liveEntries_def lookup_filter split: option.splits if_splits)

lemma keeps_refl: "keeps m m" and keeps_trans: "keeps a b \<Longrightarrow> keeps b c \<Longrightarrow> keeps a c"
  by (auto simp: keeps_def)

lemma wf_keeps:
  assumes "wfAffinity s" and "keeps (as_entries s) m"
  shows "wfAffinity (s\<lparr>as_entries := m\<rparr>)"
  using assms keeps_size [OF assms(2)] unfolding wfAffinity_def keeps_def by fastforce

lemma room_keeps:
  assumes "affinityRoom now present m = Some m'" and "finite (Mapping.keys m)" and "Mapping.size m \<le> maxAffinityEntries"
  shows "keeps m m'" and "present \<Longrightarrow> m' = m" and "\<not> present \<Longrightarrow> Mapping.size m' < maxAffinityEntries"
  using assms by (auto simp: affinityRoom_def Let_def keeps_live keeps_refl split: if_splits)

lemma wf_update:
  assumes "wfAffinity (s\<lparr>as_entries := m\<rparr>)" and "1 \<le> ae_requests e" and "ae_requests e \<le> 10000"
    and "k \<in> Mapping.keys m \<or> Mapping.size m < maxAffinityEntries"
  shows "wfAffinity (s\<lparr>as_entries := Mapping.update k e m, as_revision := n\<rparr>)"
proof -
  have "card (insert k (Mapping.keys m)) \<le> maxAffinityEntries"
    using assms(1,4) by (auto simp: wfAffinity_def Mapping.size_def card_insert_if insert_absorb)
  then show ?thesis
    using assms(1-3) by (auto simp: wfAffinity_def Mapping.size_def lookup_update')
qed

lemma next_entry:
  assumes "\<forall>e. old = Some e \<longrightarrow> 1 \<le> ae_requests e \<and> ae_requests e \<le> 10000"
  shows "1 \<le> ae_requests (nextEntry now token target old n)" and "ae_requests (nextEntry now token target old n) \<le> 10000"
    and "ae_target (nextEntry now token target old n) = target" and "ae_policy (nextEntry now token target old n) = tk_policy token"
    and "ae_expires (nextEntry now token target old n) = time_add now (cs_SessionTTL (tk_settings token))"
  using assms by (auto simp: nextEntry_def Let_def add64_def wrap64_id in64_def MinInt64_def MaxInt64_def split: option.splits)

text \<open>What one recorded success does to the store: entries go, and at most the token's own arrives.\<close>

lemma record_entry:
  assumes "wfAffinity s"
  shows "wfAffinity (recordEntry now token target s)"
    and "Mapping.lookup (as_entries (recordEntry now token target s)) k = Some e \<Longrightarrow>
      Mapping.lookup (as_entries s) k = Some e \<or> k = tk_key token \<and> ae_target e = target \<and> ae_policy e = tk_policy token
        \<and> ae_expires e = time_add now (cs_SessionTTL (tk_settings token))
        \<and> (\<forall>old. Mapping.lookup (as_entries s) k = Some old \<longrightarrow> affinityExpired now old \<or> ae_revision old = tk_expected token)"
proof -
  define old0 where "old0 = Mapping.lookup (as_entries s) (tk_key token)"
  define gone where "gone \<longleftrightarrow> (case old0 of None \<Rightarrow> False | Some e \<Rightarrow> affinityExpired now e)"
  define m where "m = (if gone then Mapping.delete (tk_key token) (as_entries s) else as_entries s)"
  define old where "old = (if gone then None else old0)"
  define stale where "stale \<longleftrightarrow> (case old of None \<Rightarrow> tk_expected token \<noteq> 0 | Some e \<Rightarrow> ae_revision e \<noteq> tk_expected token)"
  define n where "n = (as_revision s + 1) mod 2 ^ 64"
  have unf: "recordEntry now token target s =
      (if stale then s\<lparr>as_entries := m\<rparr>
       else (case affinityRoom now (old \<noteq> None) m of
               None \<Rightarrow> s\<lparr>as_entries := liveEntries now m\<rparr>
             | Some m' \<Rightarrow> s\<lparr>as_entries := Mapping.update (tk_key token) (nextEntry now token target old n) m', as_revision := n\<rparr>))"
    unfolding recordEntry_def old0_def [symmetric] gone_def [symmetric] Let_def m_def [symmetric] old_def [symmetric]
      stale_def [symmetric] n_def [symmetric] ..
  have keep: "keeps (as_entries s) m" by (simp add: m_def keeps_delete keeps_refl)
  note wf = wf_keeps [OF assms keep]
  have fin: "finite (Mapping.keys m)" "Mapping.size m \<le> maxAffinityEntries" using wf by (simp_all add: wfAffinity_def)
  have olds: "\<forall>e. old = Some e \<longrightarrow> 1 \<le> ae_requests e \<and> ae_requests e \<le> 10000"
    using assms by (auto simp: old_def old0_def wfAffinity_def)
  have present: "old \<noteq> None \<Longrightarrow> tk_key token \<in> Mapping.keys m"
    by (auto simp: old_def old0_def m_def keys_is_none_rep Option.is_none_def split: if_splits)
  have new: "wfAffinity (s\<lparr>as_entries := Mapping.update (tk_key token) (nextEntry now token target old n) m', as_revision := n\<rparr>)
      \<and> keeps (as_entries s) m'" if room: "affinityRoom now (old \<noteq> None) m = Some m'" for m'
  proof -
    have "keeps (as_entries s) m'" using keep room_keeps(1) [OF room fin] by (rule keeps_trans)
    moreover have "tk_key token \<in> Mapping.keys m' \<or> Mapping.size m' < maxAffinityEntries"
      using room_keeps(2,3) [OF room fin] present by blast
    ultimately show ?thesis using wf_update [OF wf_keeps [OF assms] next_entry(1,2) [OF olds]] by blast
  qed
  show "wfAffinity (recordEntry now token target s)"
    using wf wf_keeps [OF assms keeps_trans [OF keep keeps_live]] new by (simp add: unf split: option.split)
  have fresh: "stale \<or> (\<forall>x. Mapping.lookup (as_entries s) (tk_key token) = Some x \<longrightarrow> affinityExpired now x \<or> ae_revision x = tk_expected token)"
    by (auto simp: stale_def old_def gone_def old0_def split: option.splits if_splits)
  show "Mapping.lookup (as_entries s) k = Some e \<or> k = tk_key token \<and> ae_target e = target \<and> ae_policy e = tk_policy token
        \<and> ae_expires e = time_add now (cs_SessionTTL (tk_settings token))
        \<and> (\<forall>old. Mapping.lookup (as_entries s) k = Some old \<longrightarrow> affinityExpired now old \<or> ae_revision old = tk_expected token)"
    if "Mapping.lookup (as_entries (recordEntry now token target s)) k = Some e"
  proof (cases "stale \<or> affinityRoom now (old \<noteq> None) m = None \<or> k \<noteq> tk_key token")
    case True
    then have "Mapping.lookup (as_entries s) k = Some e"
      using that keep keeps_trans [OF keep keeps_live] new
      by (auto simp: unf keeps_def lookup_update' split: option.splits if_splits)
    then show ?thesis by simp
  next
    case False
    then show ?thesis using that fresh next_entry(3-5) [OF olds] by (auto simp: unf lookup_update' split: option.splits)
  qed
qed

text \<open>
  The affinity cache stays bounded and can only be written with a capability. Recording a
  success keeps at most 4096 entries with request counts between one and ten thousand; no
  entry changes except the one of a token that this store issued, that was not used before
  and that lists the recorded target among the targets its request was allowed to reach, and
  then only over an expired entry or the very entry the token was issued against; a used
  token does nothing.
\<close>

lemma affinity_pins_need_capability:
  assumes "wfAffinity s" and "RecordAffinitySuccess now token target (Some s) = (store', token')"
  shows "\<exists>s'. store' = Some s' \<and> wfAffinity s' \<and>
    (\<forall>k e. Mapping.lookup (as_entries s') k = Some e \<longrightarrow> Mapping.lookup (as_entries s) k = Some e \<or>
       (\<exists>t. token = Some t \<and> \<not> tk_used t \<and> map_option tk_used token' = Some True \<and> tk_owner t = as_id s \<and> k = tk_key t
          \<and> ae_target e = affinityTargetOf target \<and> ae_target e \<in> set (tk_allowed t)
          \<and> (\<forall>old. Mapping.lookup (as_entries s) k = Some old \<longrightarrow> affinityExpired now old \<or> ae_revision old = tk_expected t)))
    \<and> (\<forall>t. token = Some t \<and> tk_used t \<longrightarrow> s' = s)"
proof (cases "\<exists>t. token = Some t \<and> \<not> tk_used t \<and> tk_owner t = as_id s \<and> affinityTargetOf target \<in> set (tk_allowed t)
    \<and> store' = Some (recordEntry now t (affinityTargetOf target) s) \<and> token' = Some (t\<lparr>tk_used := True\<rparr>)")
  case True
  then obtain t where t: "token = Some t" "\<not> tk_used t" "tk_owner t = as_id s" "affinityTargetOf target \<in> set (tk_allowed t)"
    "store' = Some (recordEntry now t (affinityTargetOf target) s)" "token' = Some (t\<lparr>tk_used := True\<rparr>)" by blast
  show ?thesis using t record_entry [OF assms(1), of now t "affinityTargetOf target"] by fastforce
next
  case False
  then have "store' = Some s"
    using assms(2) by (auto simp: RecordAffinitySuccess_def Let_def split: option.splits if_splits)
  then show ?thesis using assms(1) by simp
qed

definition sampleToken :: AffinityToken where
  "sampleToken = \<lparr>tk_owner = ''store'', tk_key = ''k'', tk_policy = ''p'', tk_expected = 0, tk_issued = 5,
     tk_settings = \<lparr>cs_MinHold = 0, cs_MinRequests = 1, cs_SessionTTL = 100\<rparr>,
     tk_allowed = map affinityTargetOf (modelChain sampleState ''m-2''), tk_used = False\<rparr>"

end
