(* ===== verification/ControlPlane.thy ===== *)
theory ControlPlane
  imports PolicyStore Ledger "HOL-Library.Product_Lexorder"
begin

text \<open>
  The distribution core of the central process, \<^verbatim>\<open>internal/controlplane\<close>
  (\<^verbatim>\<open>controlplane.go\<close>, \<^verbatim>\<open>policies.go\<close>, \<^verbatim>\<open>authority.go\<close>) with the document store behind it,
  \<^verbatim>\<open>internal/policystore\<close>: it holds the policy documents, answers the heartbeats of the data
  planes, accounts for the leases of every budget rule and judges the budget tiers globally.

  A handler runs under the mutex of the server and is one definition. Clock readings, the
  fingerprint of a document set, the YAML decoder and encoder, the file system and the
  outcomes of database calls are arguments. A division that would panic is \<open>None\<close>.
\<close>

section \<open>State\<close>

type_synonym cpKey = "string \<times> string"

record ruleLedger =
  rl_team :: string
  rl_limitMicro :: int
  rl_grantMicro :: int
  rl_renew :: duration
  rl_hard :: bool
  rl_period :: BudgetPeriod
  rl_routingOnly :: bool
  rl_spent :: "(string, int) mapping"
  rl_allowance :: "(string, int) mapping"

record tierRule =
  tu_policy :: string
  tu_rule :: string
  tu_team :: string
  tu_budgetRuleKey :: cpKey
  tu_tiers :: "BudgetTier list"
  tu_enforceTargets :: bool

record dpInfo =
  dp_APIVersions :: "string list"
  dp_Generation :: string
  dp_LastSeen :: gotime
  dp_Rejections :: "Rejection list"

text \<open>A stored document and the table of documents with its seed marker.\<close>

record Doc =
  dc_YAML :: string
  dc_UpdatedAt :: gotime

record DocTable =
  dt_policies :: "(string, Doc) mapping"
  dt_seeded :: bool

record Server =
  sv_authority :: bool
  sv_paths :: "string list"
  sv_wire :: "GovernancePolicy list"
  sv_generation :: string
  sv_interval :: int
  sv_ledger :: "(cpKey, ruleLedger) mapping"
  sv_tiers :: "(cpKey, tierRule) mapping"
  sv_tierLatch :: Latch
  sv_dataplanes :: "(string, dpInfo) mapping"
  sv_files :: "(string, gotime) mapping"
  sv_policyStore :: bool
  sv_updated :: "(string, gotime) mapping"

definition staleAfter :: duration where "staleAfter = 600 * Second"
definition pruneAfter :: duration where "pruneAfter = 86400 * Second"
definition maxRejections :: nat where "maxRejections = 100"

section \<open>Accounting\<close>

definition addAccounting :: "int \<Rightarrow> int \<Rightarrow> int" where
  "addAccounting a b = (if a < 0 \<or> b < 0 \<or> a > MaxInt64 - b then MaxInt64 else a + b)"

definition amountOf :: "(string, int) mapping \<Rightarrow> string \<Rightarrow> int" where
  "amountOf m d = (case Mapping.lookup m d of None \<Rightarrow> 0 | Some x \<Rightarrow> x)"

text \<open>Whether the lease of a data plane could still be valid.\<close>

definition leaseLive :: "gotime \<Rightarrow> (string, dpInfo) mapping \<Rightarrow> ruleLedger \<Rightarrow> string \<Rightarrow> bool" where
  "leaseLive now dps l d =
     (case Mapping.lookup dps d of
        None \<Rightarrow> False
      | Some other \<Rightarrow> \<not> time_sub now (dp_LastSeen other) > mul64 3 (rl_renew l))"

definition outstandingStep :: "gotime \<Rightarrow> (string, dpInfo) mapping \<Rightarrow> string \<Rightarrow> ruleLedger \<Rightarrow> string \<Rightarrow> int \<Rightarrow> int" where
  "outstandingStep now dps excluded l d acc =
     (if d = excluded \<or> \<not> leaseLive now dps l d then acc
      else (let extra = sub64 (amountOf (rl_allowance l) d) (amountOf (rl_spent l) d)
            in if extra > 0 then addAccounting acc extra else acc))"

definition totals :: "gotime \<Rightarrow> (string, dpInfo) mapping \<Rightarrow> string \<Rightarrow> ruleLedger \<Rightarrow> int \<times> int" where
  "totals now dps excluded l =
     (fold (\<lambda>d acc. addAccounting acc (amountOf (rl_spent l) d)) (Mapping.ordered_keys (rl_spent l)) 0,
      fold (outstandingStep now dps excluded l) (Mapping.ordered_keys (rl_allowance l)) 0)"

section \<open>Installing a document set\<close>

record Installing =
  in_ledger :: "(cpKey, ruleLedger) mapping"
  in_tiers :: "(cpKey, tierRule) mapping"
  in_minRenew :: duration

definition newTierRule :: "Policy \<Rightarrow> Rule \<Rightarrow> BudgetTiers \<Rightarrow> tierRule" where
  "newTierRule p r bt = \<lparr>tu_policy = p_Name p, tu_rule = r_Name r, tu_team = ps_Team (p_Subject p),
     tu_budgetRuleKey = (p_Name p, ts_BudgetRef bt), tu_tiers = ts_Tiers bt, tu_enforceTargets = ts_EnforceTargets bt\<rparr>"

text \<open>Spend is carried over when the window is the same, the allowance only for an admission budget.\<close>

definition newRuleLedger :: "(cpKey, ruleLedger) mapping \<Rightarrow> Policy \<Rightarrow> Rule \<Rightarrow> PolicyBudget \<Rightarrow> ruleLedger" where
  "newRuleLedger old p r b =
     (let l = \<lparr>rl_team = ps_Team (p_Subject p), rl_limitMicro = b_LimitMicroUSD b, rl_grantMicro = b_LeaseGrantMicroUSD b,
            rl_renew = b_LeaseRenewInterval b, rl_hard = b_HardCap b, rl_period = b_Period b,
            rl_routingOnly = IsRoutingOnlyBudget (Some p) (r_Name r), rl_spent = Mapping.empty, rl_allowance = Mapping.empty\<rparr>
      in case Mapping.lookup old (p_Name p, r_Name r) of
           None \<Rightarrow> l
         | Some prev \<Rightarrow>
             if rl_period prev = rl_period l
             then l\<lparr>rl_spent := rl_spent prev, rl_allowance := (if rl_routingOnly l then rl_allowance l else rl_allowance prev)\<rparr>
             else l)"

definition installRule :: "(cpKey, ruleLedger) mapping \<Rightarrow> Policy \<Rightarrow> Rule \<Rightarrow> Installing \<Rightarrow> Installing" where
  "installRule old p r st =
     (let st = (case Option.bind (r_Routing r) ro_BudgetTiers of
            None \<Rightarrow> st
          | Some bt \<Rightarrow> st\<lparr>in_tiers := Mapping.update (p_Name p, r_Name r) (newTierRule p r bt) (in_tiers st)\<rparr>)
      in case r_Budget r of
           None \<Rightarrow> st
         | Some b \<Rightarrow>
             if ps_Team (p_Subject p) = [] \<or> ps_User (p_Subject p) \<noteq> [] \<or> b_Unlimited b then st
             else st\<lparr>in_ledger := Mapping.update (p_Name p, r_Name r) (newRuleLedger old p r b) (in_ledger st),
                     in_minRenew := (if in_minRenew st = 0 \<or> b_LeaseRenewInterval b < in_minRenew st
                                     then b_LeaseRenewInterval b else in_minRenew st)\<rparr>)"

definition installDoc :: "(cpKey, ruleLedger) mapping \<Rightarrow> GovernancePolicy \<Rightarrow> Installing \<Rightarrow> UnsupportedError + Installing" where
  "installDoc old doc st =
     (case FromV1Alpha1 doc of Inl e \<Rightarrow> Inl e | Inr p \<Rightarrow> Inr (fold (installRule old p) (p_Rules p) st))"

definition syncSeconds :: "duration \<Rightarrow> int" where
  "syncSeconds minRenew = max 1 (if minRenew > 0 then minRenew div Second else 60)"

definition latchKey :: "cpKey \<Rightarrow> string" where
  "latchKey k = fst k @ ''/'' @ snd k"

definition forgetTier ::
  "(cpKey, ruleLedger) mapping \<Rightarrow> (cpKey, ruleLedger) mapping \<Rightarrow> (cpKey, tierRule) mapping \<Rightarrow> cpKey \<Rightarrow> Latch \<Rightarrow> Latch" where
  "forgetTier old new tiers k latch =
     (case Mapping.lookup tiers k of
        None \<Rightarrow> Forget (latchKey k) latch
      | Some tu \<Rightarrow>
          (case (Mapping.lookup old (tu_budgetRuleKey tu), Mapping.lookup new (tu_budgetRuleKey tu)) of
             (Some before, Some after) \<Rightarrow>
               if \<not> rl_routingOnly before \<and> rl_routingOnly after then Forget (latchKey k) latch else latch
           | _ \<Rightarrow> latch))"

definition applyWire ::
  "(GovernancePolicy list \<Rightarrow> string) \<Rightarrow> GovernancePolicy list \<Rightarrow> (string, gotime) mapping \<Rightarrow> Server \<Rightarrow> UnsupportedError + Server" where
  "applyWire gen wire mtimes s =
     (case foldE (installDoc (sv_ledger s)) wire \<lparr>in_ledger = Mapping.empty, in_tiers = Mapping.empty, in_minRenew = 0\<rparr> of
        Inl e \<Rightarrow> Inl e
      | Inr st \<Rightarrow>
          Inr (s\<lparr>sv_wire := wire, sv_generation := gen wire, sv_ledger := in_ledger st, sv_tiers := in_tiers st,
                 sv_interval := syncSeconds (in_minRenew st), sv_files := mtimes,
                 sv_tierLatch := fold (forgetTier (sv_ledger s) (in_ledger st) (in_tiers st)) (Mapping.ordered_keys (sv_tiers s))
                   (sv_tierLatch s)\<rparr>))"

datatype cp_error = CpLoad load_error | CpUnsupported UnsupportedError

definition cp_Reload ::
  "(GovernancePolicy list \<Rightarrow> string) \<Rightarrow> (string \<Rightarrow> GovernancePolicy option) \<Rightarrow> (string \<Rightarrow> string \<Rightarrow> string) \<Rightarrow> Fs \<Rightarrow> Server
   \<Rightarrow> cp_error + Server" where
  "cp_Reload gen yaml join fs s =
     (case LoadWirePaths yaml join fs (sv_paths s) of
        Inl e \<Rightarrow> Inl (CpLoad e)
      | Inr (wire, files) \<Rightarrow> (case applyWire gen wire (fileTimes fs files) s of Inl e \<Rightarrow> Inl (CpUnsupported e) | Inr s' \<Rightarrow> Inr s'))"

definition emptyServer :: "string list \<Rightarrow> Server" where
  "emptyServer paths = \<lparr>sv_authority = False, sv_paths = paths, sv_wire = [], sv_generation = [], sv_interval = 0,
     sv_ledger = Mapping.empty, sv_tiers = Mapping.empty, sv_tierLatch = NewLatch, sv_dataplanes = Mapping.empty,
     sv_files = Mapping.empty, sv_policyStore = False, sv_updated = Mapping.empty\<rparr>"

definition NewServer ::
  "(GovernancePolicy list \<Rightarrow> string) \<Rightarrow> (string \<Rightarrow> GovernancePolicy option) \<Rightarrow> (string \<Rightarrow> string \<Rightarrow> string) \<Rightarrow> Fs \<Rightarrow> string
   \<Rightarrow> cp_error + Server" where
  "NewServer gen yaml join fs path = cp_Reload gen yaml join fs (emptyServer [path])"

definition cp_changed :: "(string \<Rightarrow> string \<Rightarrow> string) \<Rightarrow> Fs \<Rightarrow> Server \<Rightarrow> bool" where
  "cp_changed join fs s =
     (if sv_policyStore s then False
      else (case enumerate_files join fs (sv_paths s) of
              Inl _ \<Rightarrow> True
            | Inr files \<Rightarrow>
                length files \<noteq> Mapping.size (sv_files s)
                \<or> list_ex (\<lambda>f. case Mapping.lookup (sv_files s) f of
                     None \<Rightarrow> True
                   | Some prev \<Rightarrow> (case fs_stat fs f of None \<Rightarrow> True | Some (_, t) \<Rightarrow> t \<noteq> prev)) files))"

text \<open>One tick of the watcher, with the text of the last reported error.\<close>

definition cp_watchTick ::
  "(cp_error \<Rightarrow> string) \<Rightarrow> (GovernancePolicy list \<Rightarrow> string) \<Rightarrow> (string \<Rightarrow> GovernancePolicy option) \<Rightarrow> (string \<Rightarrow> string \<Rightarrow> string) \<Rightarrow> Fs \<Rightarrow>
   Server \<times> string \<Rightarrow> (Server \<times> string) \<times> cp_error option" where
  "cp_watchTick render gen yaml join fs st =
     (case st of (s, lastErr) \<Rightarrow>
        if \<not> cp_changed join fs s then (st, None)
        else (case cp_Reload gen yaml join fs s of
                Inr s' \<Rightarrow> ((s', []), None)
              | Inl e \<Rightarrow> if render e \<noteq> lastErr then ((s, render e), Some e) else ((s, lastErr), None)))"

section \<open>The heartbeat\<close>

record ConsumptionReport =
  cn_Policy :: string
  cn_Rule :: string
  cn_Team :: string
  cn_SpentMicroUSD :: int
  cn_Period :: BudgetPeriod

record SyncRequest =
  sq_Dataplane :: string
  sq_APIVersions :: "string list"
  sq_Generation :: string
  sq_Rejections :: "Rejection list"
  sq_Reports :: "ConsumptionReport list"
  sq_Authority :: "AuthorityRequest option"

record LeaseGrant =
  lz_Policy :: string
  lz_Rule :: string
  lz_Team :: string
  lz_AllowanceMicroUSD :: int
  lz_ExpiresAt :: gotime
  lz_HardCap :: bool
  lz_Period :: BudgetPeriod

text \<open>The fields of a response are \<^verbatim>\<open>omitempty\<close>: an empty list and an absent one look the same.\<close>

record HeartbeatResponse =
  hb_Generation :: string
  hb_Policies :: "GovernancePolicy list"
  hb_Leases :: "LeaseGrant list"
  hb_ActiveTiers :: "ActiveTier list"
  hb_SyncIntervalSeconds :: int

datatype cp_reply = HttpError int | Reply HeartbeatResponse | AuthorityReply SyncResponse

definition registerPlane :: "gotime \<Rightarrow> SyncRequest \<Rightarrow> (string, dpInfo) mapping \<Rightarrow> (string, dpInfo) mapping" where
  "registerPlane now req dps =
     (let kept = (case Mapping.lookup dps (sq_Dataplane req) of None \<Rightarrow> [] | Some dp \<Rightarrow> dp_Rejections dp) @ sq_Rejections req
      in Mapping.update (sq_Dataplane req)
           \<lparr>dp_APIVersions = sq_APIVersions req, dp_Generation = sq_Generation req, dp_LastSeen = now,
            dp_Rejections = drop (length kept - maxRejections) kept\<rparr> dps)"

definition absorbReport ::
  "string \<Rightarrow> ConsumptionReport \<Rightarrow> (cpKey, ruleLedger) mapping \<Rightarrow> (cpKey, ruleLedger) mapping" where
  "absorbReport dp rep ledger =
     (case Mapping.lookup ledger (cn_Policy rep, cn_Rule rep) of
        None \<Rightarrow> ledger
      | Some l \<Rightarrow>
          if (if cn_Period rep = [] then PeriodCalendarMonth else cn_Period rep) \<noteq> rl_period l then ledger
          else Mapping.update (cn_Policy rep, cn_Rule rep)
                 (l\<lparr>rl_spent := Mapping.update dp (cn_SpentMicroUSD rep) (rl_spent l),
                    rl_allowance := (if cn_SpentMicroUSD rep < amountOf (rl_spent l) dp then Mapping.update dp 0 (rl_allowance l)
                                     else rl_allowance l)\<rparr>) ledger)"

definition prunePlane ::
  "gotime \<Rightarrow> string \<Rightarrow> (string, dpInfo) mapping \<times> (cpKey, ruleLedger) mapping \<Rightarrow> (string, dpInfo) mapping \<times> (cpKey, ruleLedger) mapping" where
  "prunePlane now d st =
     (case st of (dps, ledger) \<Rightarrow>
        (case Mapping.lookup dps d of
           None \<Rightarrow> st
         | Some dp \<Rightarrow>
             if time_sub now (dp_LastSeen dp) > pruneAfter
             then (Mapping.delete d dps,
                   Mapping.map_values (\<lambda>k l. l\<lparr>rl_spent := Mapping.delete d (rl_spent l), rl_allowance := Mapping.delete d (rl_allowance l)\<rparr>) ledger)
             else st))"

definition grantAmount :: "gotime \<Rightarrow> (string, dpInfo) mapping \<Rightarrow> string \<Rightarrow> ruleLedger \<Rightarrow> int" where
  "grantAmount now dps dp l =
     (case totals now dps dp l of (globalSpent, outstanding) \<Rightarrow>
        (let remaining = (if globalSpent < rl_limitMicro l \<and> outstanding < sub64 (rl_limitMicro l) globalSpent
                          then sub64 (sub64 (rl_limitMicro l) globalSpent) outstanding else 0)
         in if rl_grantMicro l > remaining then remaining else rl_grantMicro l))"

definition grantLease ::
  "gotime \<Rightarrow> (string, dpInfo) mapping \<Rightarrow> string \<Rightarrow> cpKey \<Rightarrow> (cpKey, ruleLedger) mapping \<times> LeaseGrant list \<Rightarrow>
   (cpKey, ruleLedger) mapping \<times> LeaseGrant list" where
  "grantLease now dps dp k st =
     (case st of (ledger, leases) \<Rightarrow>
        (case Mapping.lookup ledger k of
           None \<Rightarrow> st
         | Some l \<Rightarrow>
             if rl_routingOnly l then st
             else (let allowance = add64 (amountOf (rl_spent l) dp) (grantAmount now dps dp l)
                   in (Mapping.update k (l\<lparr>rl_allowance := Mapping.update dp allowance (rl_allowance l)\<rparr>) ledger,
                       leases @ [\<lparr>lz_Policy = fst k, lz_Rule = snd k, lz_Team = rl_team l, lz_AllowanceMicroUSD = allowance,
                                  lz_ExpiresAt = time_add now (mul64 3 (rl_renew l)), lz_HardCap = rl_hard l, lz_Period = rl_period l\<rparr>]))))"

definition judgeTier ::
  "gotime \<Rightarrow> (string, dpInfo) mapping \<Rightarrow> (cpKey, ruleLedger) mapping \<Rightarrow> (cpKey, tierRule) mapping \<Rightarrow> cpKey \<Rightarrow> Latch \<times> ActiveTier list \<Rightarrow>
   (Latch \<times> ActiveTier list) option" where
  "judgeTier now dps ledger tiers k st =
     (case st of (latch, active) \<Rightarrow>
        (case Mapping.lookup tiers k of
           None \<Rightarrow> Some st
         | Some tu \<Rightarrow>
             (case Mapping.lookup ledger (tu_budgetRuleKey tu) of
                None \<Rightarrow> Some st
              | Some l \<Rightarrow>
                  (case totals now dps [] l of (spent, outstanding) \<Rightarrow>
                     (case UtilizedPercent spent outstanding (rl_limitMicro l) of
                        None \<Rightarrow> None
                      | Some percent \<Rightarrow>
                          (case Evaluate (latchKey k) (WindowKeyForPeriod UTC now (rl_period l))
                                  (map t_ThresholdPercent (tu_tiers tu)) percent latch of
                             (latch', i) \<Rightarrow>
                               if i < 0 then Some (latch', active)
                               else (let t = tu_tiers tu ! nat i
                                     in Some (latch', active @
                                          [\<lparr>at_Policy = tu_policy tu, at_Rule = tu_rule tu, at_BudgetRef = snd (tu_budgetRuleKey tu),
                                            at_Team = tu_team tu, at_Threshold = t_ThresholdPercent t, at_Substitute = t_Substitute t,
                                            at_EnforceTargets = tu_enforceTargets tu, at_User = []\<rparr>]))))))))"

fun judgeTiers ::
  "gotime \<Rightarrow> (string, dpInfo) mapping \<Rightarrow> (cpKey, ruleLedger) mapping \<Rightarrow> (cpKey, tierRule) mapping \<Rightarrow> cpKey list \<Rightarrow> Latch \<times> ActiveTier list \<Rightarrow>
   (Latch \<times> ActiveTier list) option" where
  "judgeTiers now dps ledger tiers [] st = Some st"
| "judgeTiers now dps ledger tiers (k # ks) st =
     (case judgeTier now dps ledger tiers k st of None \<Rightarrow> None | Some st' \<Rightarrow> judgeTiers now dps ledger tiers ks st')"

text \<open>
  The durable mode: \<open>machine\<close> is whether the bearer is the machine token, \<open>backend\<close> the
  answer of the ledger, \<open>None\<close> an error, and \<open>now'\<close> the second reading of the clock.
\<close>

definition authoritySync ::
  "bool \<Rightarrow> (string \<Rightarrow> AuthorityRequest \<Rightarrow> SyncResponse option) \<Rightarrow> gotime \<Rightarrow> SyncRequest \<Rightarrow> Server \<Rightarrow> Server \<times> cp_reply" where
  "authoritySync machine backend now' req s =
     (case sq_Authority req of
        None \<Rightarrow> (s, HttpError 409)
      | Some ar \<Rightarrow>
          if aq_Protocol ar \<noteq> AuthorityProtocol then (s, HttpError 409)
          else if \<not> machine then (s, HttpError 401)
          else if sq_Reports req \<noteq> [] then (s, HttpError 400)
          else (case backend (sq_Dataplane req) ar of
                  None \<Rightarrow> (s, HttpError 503)
                | Some resp \<Rightarrow>
                    if as_Protocol (sr_Authority resp) \<noteq> AuthorityProtocol then (s, HttpError 503)
                    else (s\<lparr>sv_dataplanes := Mapping.update (sq_Dataplane req)
                            \<lparr>dp_APIVersions = sq_APIVersions req, dp_Generation = sr_Generation resp, dp_LastSeen = now',
                             dp_Rejections = sq_Rejections req\<rparr> (sv_dataplanes s)\<rparr>, AuthorityReply resp)))"

definition heartbeat :: "gotime \<Rightarrow> SyncRequest \<Rightarrow> Server \<Rightarrow> (Server \<times> HeartbeatResponse) option" where
  "heartbeat now req s =
     (let dps0 = registerPlane now req (sv_dataplanes s);
          ledger0 = fold (absorbReport (sq_Dataplane req)) (sq_Reports req) (sv_ledger s)
      in case fold (prunePlane now) (Mapping.ordered_keys dps0) (dps0, ledger0) of
           (dps, ledger1) \<Rightarrow>
             (case fold (grantLease now dps (sq_Dataplane req)) (Mapping.ordered_keys ledger1) (ledger1, []) of
                (ledger2, leases) \<Rightarrow>
                  (case judgeTiers now dps ledger2 (sv_tiers s) (Mapping.ordered_keys (sv_tiers s)) (sv_tierLatch s, []) of
                     None \<Rightarrow> None
                   | Some (latch, active) \<Rightarrow>
                       Some (s\<lparr>sv_dataplanes := dps, sv_ledger := ledger2, sv_tierLatch := latch\<rparr>,
                         \<lparr>hb_Generation = sv_generation s,
                          hb_Policies = (if sq_Generation req \<noteq> sv_generation s then sv_wire s else []),
                          hb_Leases = leases, hb_ActiveTiers = active, hb_SyncIntervalSeconds = sv_interval s\<rparr>))))"

text \<open>An undecodable body is \<open>None\<close>.\<close>

definition handleSync ::
  "bool \<Rightarrow> (string \<Rightarrow> AuthorityRequest \<Rightarrow> SyncResponse option) \<Rightarrow> gotime \<Rightarrow> gotime \<Rightarrow> SyncRequest option \<Rightarrow> Server \<Rightarrow>
   (Server \<times> cp_reply) option" where
  "handleSync machine backend now now' body s =
     (case body of
        None \<Rightarrow> Some (s, HttpError 400)
      | Some req \<Rightarrow>
          if sq_Dataplane req = [] then Some (s, HttpError 400)
          else if sv_authority s then Some (authoritySync machine backend now' req s)
          else if sq_Authority req \<noteq> None then Some (s, HttpError 409)
          else if list_ex (\<lambda>rep. cn_SpentMicroUSD rep < 0) (sq_Reports req) then Some (s, HttpError 400)
          else map_option (\<lambda>(s', resp). (s', Reply resp)) (heartbeat now req s))"

text \<open>The planes seen recently.\<close>

definition handleDataplanes :: "gotime \<Rightarrow> Server \<Rightarrow> string \<times> (string, dpInfo) mapping" where
  "handleDataplanes now s =
     (sv_generation s, Mapping.filter (\<lambda>d dp. time_sub now (dp_LastSeen dp) \<le> staleAfter) (sv_dataplanes s))"

section \<open>The document store\<close>

text \<open>The statements of the store; an ordered listing is by name.\<close>

definition ps_List :: "DocTable \<Rightarrow> (string \<times> Doc) list" where
  "ps_List t = map (\<lambda>n. (n, the (Mapping.lookup (dt_policies t) n))) (Mapping.ordered_keys (dt_policies t))"

definition ps_Put :: "gotime \<Rightarrow> string \<Rightarrow> string \<Rightarrow> DocTable \<Rightarrow> DocTable" where
  "ps_Put now name yaml t = t\<lparr>dt_policies := Mapping.update name \<lparr>dc_YAML = yaml, dc_UpdatedAt = now\<rparr> (dt_policies t)\<rparr>"

definition ps_Delete :: "string \<Rightarrow> DocTable \<Rightarrow> DocTable option" where
  "ps_Delete name t =
     (if Mapping.lookup (dt_policies t) name = None then None
      else Some (t\<lparr>dt_policies := Mapping.delete name (dt_policies t)\<rparr>))"

datatype policy_error =
    ErrNoPolicyStore | StoreUnavailable | ErrNotFound
  | NameRequired | BadDocument parse_error | NotOneDocument nat | NameMismatch string
  | StoredInvalid string parse_error | StoredNameless string | StoredDuplicate string string | StoredUnsupported UnsupportedError

fun addStored :: "string \<Rightarrow> GovernancePolicy list \<Rightarrow> (string, string) mapping \<times> GovernancePolicy list \<Rightarrow>
   policy_error + (string, string) mapping \<times> GovernancePolicy list" where
  "addStored row [] st = Inr st"
| "addStored row (d # ds) st =
     (let name = om_Name (gp_Metadata d)
      in if name = [] then Inl (StoredNameless row)
         else if Mapping.lookup (fst st) name \<noteq> None then Inl (StoredDuplicate row name)
         else addStored row ds (Mapping.update name row (fst st), snd st @ [d]))"

definition readStored ::
  "(string \<Rightarrow> GovernancePolicy option) \<Rightarrow> string \<times> Doc \<Rightarrow> (string, string) mapping \<times> GovernancePolicy list \<Rightarrow>
   policy_error + (string, string) mapping \<times> GovernancePolicy list" where
  "readStored yaml row st =
     (case parseWireDocs yaml (dc_YAML (snd row)) of
        Inl e \<Rightarrow> Inl (StoredInvalid (fst row) e)
      | Inr docs \<Rightarrow> addStored (fst row) docs st)"

text \<open>Whether the listing succeeds is the first argument; the table is what it returns.\<close>

definition ReloadFromStore ::
  "bool \<Rightarrow> (GovernancePolicy list \<Rightarrow> string) \<Rightarrow> (string \<Rightarrow> GovernancePolicy option) \<Rightarrow> DocTable \<Rightarrow> Server \<Rightarrow> policy_error + Server" where
  "ReloadFromStore listed gen yaml t s =
     (if \<not> sv_policyStore s then Inl ErrNoPolicyStore
      else if \<not> listed then Inl StoreUnavailable
      else (case foldE (readStored yaml) (ps_List t) (Mapping.empty, []) of
              Inl e \<Rightarrow> Inl e
            | Inr (_, wire) \<Rightarrow>
                (case applyWire gen wire Mapping.empty s of
                   Inl e \<Rightarrow> Inl (StoredUnsupported e)
                 | Inr s' \<Rightarrow> Inr (s'\<lparr>sv_updated := Mapping.map_values (\<lambda>n d. dc_UpdatedAt d) (dt_policies t)\<rparr>))))"

text \<open>A write: the table after it, the server after it, and the error if any. The store call fails or commits.\<close>

definition ApplyWrite ::
  "bool \<Rightarrow> bool \<Rightarrow> gotime \<Rightarrow> (GovernancePolicy list \<Rightarrow> string) \<Rightarrow> (string \<Rightarrow> GovernancePolicy option) \<Rightarrow> string \<Rightarrow> string \<Rightarrow>
   DocTable \<times> Server \<Rightarrow> (DocTable \<times> Server) \<times> policy_error option" where
  "ApplyWrite putOK listed now gen yaml name body st =
     (case st of (t, s) \<Rightarrow>
        if \<not> sv_policyStore s then (st, Some ErrNoPolicyStore)
        else if name = [] then (st, Some NameRequired)
        else (case parseWireDocs yaml body of
                Inl e \<Rightarrow> (st, Some (BadDocument e))
              | Inr docs \<Rightarrow>
                  if length docs \<noteq> 1 then (st, Some (NotOneDocument (length docs)))
                  else if om_Name (gp_Metadata (hd docs)) \<noteq> name then (st, Some (NameMismatch (om_Name (gp_Metadata (hd docs)))))
                  else if \<not> putOK then (st, Some StoreUnavailable)
                  else (let t' = ps_Put now name body t
                        in case ReloadFromStore listed gen yaml t' s of
                             Inl e \<Rightarrow> ((t', s), Some e)
                           | Inr s' \<Rightarrow> ((t', s'), None))))"

definition ApplyDelete ::
  "bool \<Rightarrow> bool \<Rightarrow> (GovernancePolicy list \<Rightarrow> string) \<Rightarrow> (string \<Rightarrow> GovernancePolicy option) \<Rightarrow> string \<Rightarrow>
   DocTable \<times> Server \<Rightarrow> (DocTable \<times> Server) \<times> policy_error option" where
  "ApplyDelete deleteOK listed gen yaml name st =
     (case st of (t, s) \<Rightarrow>
        if \<not> sv_policyStore s then (st, Some ErrNoPolicyStore)
        else if \<not> deleteOK then (st, Some StoreUnavailable)
        else (case ps_Delete name t of
                None \<Rightarrow> (st, Some ErrNotFound)
              | Some t' \<Rightarrow>
                  (case ReloadFromStore listed gen yaml t' s of
                     Inl e \<Rightarrow> ((t', s), Some e)
                   | Inr s' \<Rightarrow> ((t', s'), None))))"

definition writeStatus :: "policy_error option \<Rightarrow> int" where
  "writeStatus e =
     (case e of
        None \<Rightarrow> 204
      | Some ErrNoPolicyStore \<Rightarrow> 405
      | Some NameRequired \<Rightarrow> 400 | Some (BadDocument _) \<Rightarrow> 400 | Some (NotOneDocument _) \<Rightarrow> 400 | Some (NameMismatch _) \<Rightarrow> 400
      | Some ErrNotFound \<Rightarrow> 404
      | Some _ \<Rightarrow> 503)"

text \<open>The hand-off from files: the loaded set is seeded once, gated by the marker. \<open>render\<close> prints a document.\<close>

fun insertSeeds :: "gotime \<Rightarrow> (string \<times> string) list \<Rightarrow> (string, Doc) mapping \<Rightarrow> (string, Doc) mapping option" where
  "insertSeeds now [] m = Some m"
| "insertSeeds now ((n, y) # docs) m =
     (if Mapping.lookup m n \<noteq> None then None
      else insertSeeds now docs (Mapping.update n \<lparr>dc_YAML = y, dc_UpdatedAt = now\<rparr> m))"

definition ps_Seed :: "gotime \<Rightarrow> (string \<times> string) list \<Rightarrow> DocTable \<Rightarrow> DocTable option" where
  "ps_Seed now docs t =
     (if dt_seeded t then Some t
      else map_option (\<lambda>m. \<lparr>dt_policies = m, dt_seeded = True\<rparr>) (insertSeeds now docs (dt_policies t)))"

definition AttachPolicyStore ::
  "bool \<Rightarrow> bool \<Rightarrow> gotime \<Rightarrow> (GovernancePolicy list \<Rightarrow> string) \<Rightarrow> (string \<Rightarrow> GovernancePolicy option) \<Rightarrow> (GovernancePolicy \<Rightarrow> string) \<Rightarrow>
   DocTable \<times> Server \<Rightarrow> (DocTable \<times> Server) \<times> policy_error option" where
  "AttachPolicyStore storeOK listed now gen yaml render st =
     (case st of (t, s) \<Rightarrow>
        if \<not> storeOK then (st, Some StoreUnavailable)
        else (case ps_Seed now (map (\<lambda>d. (om_Name (gp_Metadata d), render d)) (sv_wire s)) t of
                None \<Rightarrow> (st, Some StoreUnavailable)
              | Some t' \<Rightarrow>
                  (let s' = s\<lparr>sv_policyStore := True\<rparr>
                   in case ReloadFromStore listed gen yaml t' s' of
                        Inl e \<Rightarrow> ((t', s'), Some e)
                      | Inr s'' \<Rightarrow> ((t', s''), None))))"

end
