(* ===== verification/ControlPlaneProps.thy ===== *)
theory ControlPlaneProps
  imports ControlPlane PolicyProps
begin

text \<open>
  The accounts of the control plane: the saturating sums of the source are exact as long as
  they matter, a positive lease is issued only within the limit, and every sequence of
  document sets and heartbeats keeps the accounts well formed.
\<close>

text \<open>Keys are pairs; quantifiers over them are kept as they are.\<close>

declare split_paired_All [simp del] split_paired_Ex [simp del]

section \<open>Sums\<close>

definition spentSum :: "ruleLedger \<Rightarrow> int" where
  "spentSum l = (\<Sum>d \<in> Mapping.keys (rl_spent l). amountOf (rl_spent l) d)"

text \<open>What a data plane may still spend on a lease that could be valid.\<close>

definition promise :: "gotime \<Rightarrow> (string, dpInfo) mapping \<Rightarrow> ruleLedger \<Rightarrow> string \<Rightarrow> int" where
  "promise now dps l d = (if leaseLive now dps l d then max 0 (amountOf (rl_allowance l) d - amountOf (rl_spent l) d) else 0)"

definition promised :: "gotime \<Rightarrow> (string, dpInfo) mapping \<Rightarrow> string \<Rightarrow> ruleLedger \<Rightarrow> int" where
  "promised now dps excluded l = (\<Sum>d \<in> Mapping.keys (rl_allowance l) - {excluded}. promise now dps l d)"

definition wfAmounts :: "(string, int) mapping \<Rightarrow> bool" where
  "wfAmounts m \<longleftrightarrow> finite (Mapping.keys m) \<and> (\<forall>d x. Mapping.lookup m d = Some x \<longrightarrow> 0 \<le> x \<and> in64 x)"

definition wfRow :: "ruleLedger \<Rightarrow> bool" where
  "wfRow l \<longleftrightarrow> wfAmounts (rl_spent l) \<and> wfAmounts (rl_allowance l) \<and> 0 < rl_limitMicro l \<and> in64 (rl_limitMicro l) \<and> 0 < rl_grantMicro l"

lemma amount_range: "wfAmounts m \<Longrightarrow> 0 \<le> amountOf m d \<and> amountOf m d \<le> MaxInt64"
  by (auto simp: wfAmounts_def amountOf_def in64_bounds split: option.splits)

lemma sum_ordered: "finite (Mapping.keys m) \<Longrightarrow> sum_list (map f (Mapping.ordered_keys m)) = sum f (Mapping.keys m)"
  by (simp add: sum_list_distinct_conv_sum_set)

lemma saturating_sum:
  assumes "\<forall>d. 0 \<le> f d" and "0 \<le> a" and "a \<le> MaxInt64"
  shows "fold (\<lambda>d acc. addAccounting acc (f d)) ds a = min MaxInt64 (a + sum_list (map f ds))"
  using assms(2,3)
proof (induction ds arbitrary: a)
  case (Cons d ds)
  have step: "addAccounting a (f d) = min MaxInt64 (a + f d)" using Cons.prems assms(1) by (auto simp: addAccounting_def not_less)
  have "0 \<le> sum_list (map f ds)" using assms(1) by (intro sum_list_nonneg) auto
  moreover have "fold (\<lambda>d acc. addAccounting acc (f d)) ds (min MaxInt64 (a + f d)) = min MaxInt64 (min MaxInt64 (a + f d) + sum_list (map f ds))"
    by (rule Cons.IH) (use Cons.prems assms(1) in \<open>auto simp: MaxInt64_def\<close>)
  ultimately show ?case using step by simp
qed simp

lemma outstanding_step:
  assumes "wfRow l" and "0 \<le> acc" and "acc \<le> MaxInt64"
  shows "outstandingStep now dps excluded l d acc = addAccounting acc (if d = excluded then 0 else promise now dps l d)"
proof -
  have "sub64 (amountOf (rl_allowance l) d) (amountOf (rl_spent l) d) = amountOf (rl_allowance l) d - amountOf (rl_spent l) d"
    using amount_range [of "rl_allowance l" d] amount_range [of "rl_spent l" d] assms(1)
    by (intro sub64_exact) (auto simp: wfRow_def in64_bounds)
  moreover have "addAccounting acc 0 = acc" using assms(2,3) by (simp add: addAccounting_def)
  ultimately show ?thesis by (auto simp: outstandingStep_def promise_def Let_def max_def)
qed

lemma fold_outstanding:
  assumes "wfRow l" and "0 \<le> acc" and "acc \<le> MaxInt64"
  shows "fold (outstandingStep now dps excluded l) ds acc
    = fold (\<lambda>d acc. addAccounting acc (if d = excluded then 0 else promise now dps l d)) ds acc"
  using assms(2,3)
proof (induction ds arbitrary: acc)
  case (Cons d ds)
  have "0 \<le> addAccounting acc (if d = excluded then 0 else promise now dps l d)"
    "addAccounting acc (if d = excluded then 0 else promise now dps l d) \<le> MaxInt64"
    using Cons.prems by (auto simp: addAccounting_def promise_def MaxInt64_def)
  then show ?case using Cons by (simp add: outstanding_step [OF assms(1)])
qed simp

lemma totals_exact:
  assumes "wfRow l"
  shows "totals now dps excluded l = (min MaxInt64 (spentSum l), min MaxInt64 (promised now dps excluded l))"
proof -
  have fin: "finite (Mapping.keys (rl_spent l))" "finite (Mapping.keys (rl_allowance l))" using assms by (auto simp: wfRow_def wfAmounts_def)
  have max: "0 \<le> MaxInt64" by (simp add: MaxInt64_def)
  have "\<forall>d. 0 \<le> amountOf (rl_spent l) d" using amount_range assms by (auto simp: wfRow_def)
  then have 1: "fst (totals now dps excluded l) = min MaxInt64 (spentSum l)"
    using saturating_sum [of "amountOf (rl_spent l)" 0] max by (simp add: totals_def spentSum_def sum_ordered fin)
  have "(\<Sum>d \<in> Mapping.keys (rl_allowance l). if d = excluded then 0 else promise now dps l d) = promised now dps excluded l"
    unfolding promised_def using fin(2) by (intro sum.mono_neutral_cong_right) auto
  moreover have "\<forall>d. 0 \<le> (if d = excluded then 0 else promise now dps l d)" by (simp add: promise_def)
  ultimately have 2: "snd (totals now dps excluded l) = min MaxInt64 (promised now dps excluded l)"
    using saturating_sum [of "\<lambda>d. if d = excluded then 0 else promise now dps l d" 0] max
    by (simp add: totals_def fold_outstanding [OF assms] sum_ordered fin)
  show ?thesis using 1 2 by (simp add: prod_eq_iff)
qed

lemma sums_nonneg:
  shows "wfRow l \<Longrightarrow> 0 \<le> spentSum l" and "0 \<le> promised now dps excluded l"
proof -
  show "wfRow l \<Longrightarrow> 0 \<le> spentSum l"
    unfolding spentSum_def by (intro sum_nonneg) (use amount_range in \<open>auto simp: wfRow_def\<close>)
  show "0 \<le> promised now dps excluded l"
    unfolding promised_def by (intro sum_nonneg) (simp add: promise_def)
qed

section \<open>Leases\<close>

lemma own_spend_le: "wfRow l \<Longrightarrow> amountOf (rl_spent l) d \<le> spentSum l"
proof (cases "d \<in> Mapping.keys (rl_spent l)")
  case True
  assume "wfRow l"
  then show ?thesis unfolding spentSum_def
    using True amount_range by (intro member_le_sum) (auto simp: wfRow_def wfAmounts_def)
next
  case False
  assume "wfRow l"
  then show ?thesis using False sums_nonneg(1) [of l]
    by (simp add: amountOf_def keys_lookup split: option.splits)
qed

lemma grant_amount:
  assumes "wfRow l"
  shows "0 \<le> grantAmount now dps dp l" and "grantAmount now dps dp l \<le> rl_grantMicro l"
    and "0 < grantAmount now dps dp l \<Longrightarrow> spentSum l + promised now dps dp l + grantAmount now dps dp l \<le> rl_limitMicro l"
proof -
  note s = sums_nonneg(1) [OF assms] and p = sums_nonneg(2) [of now dps dp l]
  have lim: "0 < rl_limitMicro l" "rl_limitMicro l \<le> MaxInt64" "0 < rl_grantMicro l" using assms by (auto simp: wfRow_def in64_bounds)
  have sub: "sub64 (rl_limitMicro l) x = rl_limitMicro l - x" if "0 \<le> x" "x \<le> MaxInt64" for x
    using that lim by (intro sub64_exact) (simp add: in64_bounds MaxInt64_def)
  have sub2: "sub64 (rl_limitMicro l - x) y = rl_limitMicro l - x - y" if "0 \<le> x" "x < rl_limitMicro l" "0 \<le> y" "y \<le> MaxInt64" for x y
    using that lim by (intro sub64_exact) (simp add: in64_bounds MaxInt64_def)
  have amount: "grantAmount now dps dp l =
      (if spentSum l + promised now dps dp l < rl_limitMicro l then min (rl_grantMicro l) (rl_limitMicro l - spentSum l - promised now dps dp l) else 0)"
    using s p lim by (auto simp: grantAmount_def totals_exact [OF assms] Let_def sub sub2 min_def)
  show "0 \<le> grantAmount now dps dp l" "grantAmount now dps dp l \<le> rl_grantMicro l" using lim by (auto simp: amount)
  show "0 < grantAmount now dps dp l \<Longrightarrow> spentSum l + promised now dps dp l + grantAmount now dps dp l \<le> rl_limitMicro l"
    by (simp add: amount split: if_splits)
qed

definition granted :: "gotime \<Rightarrow> (string, dpInfo) mapping \<Rightarrow> string \<Rightarrow> ruleLedger \<Rightarrow> ruleLedger" where
  "granted now dps dp l =
     (if rl_routingOnly l then l
      else l\<lparr>rl_allowance := Mapping.update dp (add64 (amountOf (rl_spent l) dp) (grantAmount now dps dp l)) (rl_allowance l)\<rparr>)"

lemma allowance_exact:
  assumes "wfRow l"
  shows "add64 (amountOf (rl_spent l) dp) (grantAmount now dps dp l) = amountOf (rl_spent l) dp + grantAmount now dps dp l"
    and "0 \<le> amountOf (rl_spent l) dp + grantAmount now dps dp l" and "in64 (amountOf (rl_spent l) dp + grantAmount now dps dp l)"
proof -
  have a: "0 \<le> amountOf (rl_spent l) dp \<and> amountOf (rl_spent l) dp \<le> MaxInt64" using amount_range assms by (simp add: wfRow_def)
  note g = grant_amount [OF assms, of now dps dp]
  show r: "in64 (amountOf (rl_spent l) dp + grantAmount now dps dp l)"
  proof (cases "grantAmount now dps dp l = 0")
    case True
    then show ?thesis using a by (simp add: in64_bounds MaxInt64_def)
  next
    case False
    then have "spentSum l + grantAmount now dps dp l \<le> rl_limitMicro l"
      using g sums_nonneg(2) [of now dps dp l] by linarith
    then have "amountOf (rl_spent l) dp + grantAmount now dps dp l \<le> MaxInt64"
      using own_spend_le [OF assms, of dp] assms by (auto simp: wfRow_def in64_bounds)
    then show ?thesis using a g(1) by (simp add: in64_def MinInt64_def)
  qed
  show "add64 (amountOf (rl_spent l) dp) (grantAmount now dps dp l) = amountOf (rl_spent l) dp + grantAmount now dps dp l"
    using r by (rule add64_exact)
  show "0 \<le> amountOf (rl_spent l) dp + grantAmount now dps dp l" using a g(1) by simp
qed

lemma wf_amounts_update: "wfAmounts m \<Longrightarrow> 0 \<le> x \<Longrightarrow> in64 x \<Longrightarrow> wfAmounts (Mapping.update d x m)"
  by (auto simp: wfAmounts_def lookup_update')

lemma wf_amounts_delete: "wfAmounts m \<Longrightarrow> wfAmounts (Mapping.delete d m)"
  by (auto simp: wfAmounts_def lookup_delete' split: if_splits)

lemma granted_wf: "wfRow l \<Longrightarrow> wfRow (granted now dps dp l)"
  using allowance_exact [of l dp now dps] by (auto simp: granted_def wfRow_def intro: wf_amounts_update)

lemma granted_fits:
  assumes "wfRow l" and "\<not> rl_routingOnly l" and l'_def: "l' = granted now dps dp l"
  shows "amountOf (rl_allowance l') dp = amountOf (rl_spent l') dp + grantAmount now dps dp l"
    and "0 < grantAmount now dps dp l \<Longrightarrow> spentSum l' + promised now dps [] l' \<le> rl_limitMicro l'"
proof -
  have l': "l' = l\<lparr>rl_allowance := Mapping.update dp (amountOf (rl_spent l) dp + grantAmount now dps dp l) (rl_allowance l)\<rparr>"
    using assms(2) by (simp add: l'_def granted_def allowance_exact(1) [OF assms(1)])
  show "amountOf (rl_allowance l') dp = amountOf (rl_spent l') dp + grantAmount now dps dp l"
    by (simp add: l' amountOf_def)
  have other: "promise now dps l' d = promise now dps l d" if "d \<noteq> dp" for d
    using that by (simp add: l' promise_def amountOf_def leaseLive_def lookup_update' split: option.splits)
  have own: "promise now dps l' dp \<le> grantAmount now dps dp l"
    using grant_amount(1) [OF assms(1), of now dps dp] by (simp add: promise_def l' amountOf_def)
  have fin: "finite (Mapping.keys (rl_allowance l))" using assms(1) by (simp add: wfRow_def wfAmounts_def)
  have "promised now dps [] l' = (\<Sum>d \<in> insert dp (Mapping.keys (rl_allowance l)) - {[]}. promise now dps l' d)"
    by (simp add: promised_def l')
  also have "\<dots> \<le> (\<Sum>d \<in> insert dp (Mapping.keys (rl_allowance l)). promise now dps l' d)"
    using fin by (intro sum_mono2) (auto simp: promise_def)
  also have "\<dots> = promise now dps l' dp + (\<Sum>d \<in> Mapping.keys (rl_allowance l) - {dp}. promise now dps l' d)"
    using fin by (simp add: sum.insert_remove)
  also have "(\<Sum>d \<in> Mapping.keys (rl_allowance l) - {dp}. promise now dps l' d) = promised now dps dp l"
    unfolding promised_def by (intro sum.cong) (auto simp: other)
  finally have le: "promised now dps [] l' \<le> grantAmount now dps dp l + promised now dps dp l" using own by linarith
  show "0 < grantAmount now dps dp l \<Longrightarrow> spentSum l' + promised now dps [] l' \<le> rl_limitMicro l'"
    using grant_amount(3) [OF assms(1), of now dps dp] le by (simp add: l' spentSum_def)
qed

definition leaseOf :: "gotime \<Rightarrow> (string, dpInfo) mapping \<Rightarrow> string \<Rightarrow> cpKey \<Rightarrow> ruleLedger \<Rightarrow> LeaseGrant" where
  "leaseOf now dps dp k l = \<lparr>lz_Policy = fst k, lz_Rule = snd k, lz_Team = rl_team l,
     lz_AllowanceMicroUSD = add64 (amountOf (rl_spent l) dp) (grantAmount now dps dp l),
     lz_ExpiresAt = time_add now (mul64 3 (rl_renew l)), lz_HardCap = rl_hard l, lz_Period = rl_period l\<rparr>"

lemma grant_step:
  "grantLease now dps dp k (ledger, leases) =
     (case Mapping.lookup ledger k of
        None \<Rightarrow> (ledger, leases)
      | Some l \<Rightarrow> if rl_routingOnly l then (ledger, leases)
                  else (Mapping.update k (granted now dps dp l) ledger, leases @ [leaseOf now dps dp k l]))"
  by (simp add: grantLease_def granted_def leaseOf_def Let_def split: option.split)

text \<open>The loop visits every rule once: its row and its lease depend on that row alone.\<close>

lemma grant_loop:
  assumes "fold (grantLease now dps dp) ks (ledger, leases) = (ledger', leases')" and "distinct ks"
  shows "(\<forall>k. Mapping.lookup ledger' k =
        (if k \<in> set ks then map_option (granted now dps dp) (Mapping.lookup ledger k) else Mapping.lookup ledger k))
    \<and> Mapping.keys ledger' = Mapping.keys ledger
    \<and> (\<forall>g \<in> set leases'. g \<in> set leases \<or>
        (\<exists>k l. Mapping.lookup ledger k = Some l \<and> k \<in> set ks \<and> \<not> rl_routingOnly l \<and> g = leaseOf now dps dp k l))"
  using assms
proof (induction ks arbitrary: ledger leases)
  case (Cons k' ks)
  obtain m gs where st: "grantLease now dps dp k' (ledger, leases) = (m, gs)" by fastforce
  have at: "Mapping.lookup m x = (if x = k' then map_option (granted now dps dp) (Mapping.lookup ledger k') else Mapping.lookup ledger x)" for x
    using st by (auto simp: grant_step granted_def lookup_update' split: option.splits if_splits)
  have keys: "Mapping.keys m = Mapping.keys ledger"
    using at by (auto simp: keys_lookup split: if_splits)
  have new: "g \<in> set leases \<or> (\<exists>l. Mapping.lookup ledger k' = Some l \<and> \<not> rl_routingOnly l \<and> g = leaseOf now dps dp k' l)"
    if "g \<in> set gs" for g
    using st that by (auto simp: grant_step split: option.splits if_splits)
  have rest: "fold (grantLease now dps dp) ks (m, gs) = (ledger', leases')" "distinct ks" "k' \<notin> set ks"
    using Cons.prems by (simp_all add: st)
  note ih = Cons.IH [OF rest(1,2)]
  show ?case
  proof (intro conjI ballI allI)
    show "Mapping.lookup ledger' k =
        (if k \<in> set (k' # ks) then map_option (granted now dps dp) (Mapping.lookup ledger k) else Mapping.lookup ledger k)" for k
      using ih at [of k] rest(3) by auto
    show "Mapping.keys ledger' = Mapping.keys ledger" using ih keys by simp
    fix g assume "g \<in> set leases'"
    then consider "g \<in> set gs" | k l where "Mapping.lookup m k = Some l" "k \<in> set ks" "\<not> rl_routingOnly l" "g = leaseOf now dps dp k l"
      using ih by blast
    then show "g \<in> set leases \<or> (\<exists>k l. Mapping.lookup ledger k = Some l \<and> k \<in> set (k' # ks) \<and> \<not> rl_routingOnly l \<and> g = leaseOf now dps dp k l)"
    proof cases
      case 1
      then show ?thesis using new by auto
    next
      case 2
      moreover have "k \<noteq> k'" using 2 rest(3) by auto
      ultimately show ?thesis using at [of k] by auto
    qed
  qed
qed simp

lemmas grant_fold = grant_loop [THEN conjunct1, rule_format] grant_loop [THEN conjunct2, THEN conjunct1]
  grant_loop [THEN conjunct2, THEN conjunct2, rule_format]

section \<open>Well-formed servers\<close>

definition wfLedger :: "(cpKey, ruleLedger) mapping \<Rightarrow> bool" where
  "wfLedger m \<longleftrightarrow> finite (Mapping.keys m) \<and> (\<forall>k l. Mapping.lookup m k = Some l \<longrightarrow> wfRow l)"

definition wfServer :: "Server \<Rightarrow> bool" where
  "wfServer s \<longleftrightarrow> wfLedger (sv_ledger s) \<and> wf_latch (sv_tierLatch s)"

lemma absorb_wf:
  assumes "wfLedger m" and "0 \<le> cn_SpentMicroUSD rep" and "in64 (cn_SpentMicroUSD rep)"
  shows "wfLedger (absorbReport dp rep m)"
  using assms
  by (auto simp: absorbReport_def wfLedger_def wfRow_def lookup_update' intro!: wf_amounts_update split: option.splits if_splits)

lemma absorbs_wf:
  assumes "wfLedger m" and "\<forall>rep \<in> set reps. 0 \<le> cn_SpentMicroUSD rep \<and> in64 (cn_SpentMicroUSD rep)"
  shows "wfLedger (fold (absorbReport dp) reps m)"
  using assms by (induction reps arbitrary: m) (auto intro: absorb_wf)

lemma prune_wf: "wfLedger m \<Longrightarrow> prunePlane now d (dps, m) = (dps', m') \<Longrightarrow> wfLedger m'"
  by (auto simp: prunePlane_def wfLedger_def wfRow_def lookup_map_values intro!: wf_amounts_delete split: option.splits if_splits)

lemma prunes_wf: "wfLedger m \<Longrightarrow> fold (prunePlane now) ds (dps, m) = (dps', m') \<Longrightarrow> wfLedger m'"
proof (induction ds arbitrary: dps m)
  case (Cons d ds)
  obtain dps1 m1 where "prunePlane now d (dps, m) = (dps1, m1)" by fastforce
  with Cons prune_wf show ?case by fastforce
qed simp

lemma judge_total:
  assumes "wfLedger m" and "wf_latch (fst st)"
  shows "\<exists>st'. judgeTiers now dps m tiers ks st = Some st' \<and> wf_latch (fst st')"
  using assms(2)
proof (induction ks arbitrary: st)
  case (Cons k ks)
  obtain latch active where st: "st = (latch, active)" by (cases st)
  have "\<exists>st'. judgeTier now dps m tiers k st = Some st' \<and> wf_latch (fst st')"
  proof (cases "Option.bind (Mapping.lookup tiers k) (\<lambda>tu. Mapping.lookup m (tu_budgetRuleKey tu))")
    case None
    then show ?thesis using Cons.prems by (auto simp: judgeTier_def st split: option.splits)
  next
    case (Some l)
    then obtain tu where tu: "Mapping.lookup tiers k = Some tu" "Mapping.lookup m (tu_budgetRuleKey tu) = Some l"
      by (cases "Mapping.lookup tiers k") auto
    then have wf: "wfRow l" using assms(1) by (auto simp: wfLedger_def)
    obtain percent where "UtilizedPercent (fst (totals now dps [] l)) (snd (totals now dps [] l)) (rl_limitMicro l) = Some percent"
      using utilized_percent_exact [of "fst (totals now dps [] l)" "snd (totals now dps [] l)" "rl_limitMicro l"]
        totals_exact [OF wf, of now dps "[]"] sums_nonneg(1) [OF wf] sums_nonneg(2) [of now dps "[]" l] wf
      by (auto simp: wfRow_def in64_def MinInt64_def MaxInt64_def)
    then show ?thesis
      using Cons.prems tu wf_Evaluate [of latch "latchKey k" "WindowKeyForPeriod UTC now (rl_period l)" "map t_ThresholdPercent (tu_tiers tu)" percent]
      by (auto simp: judgeTier_def st Let_def split: prod.splits)
  qed
  then show ?case using Cons.IH by auto
qed simp

lemma heartbeat_outcome:
  assumes "wfServer s" and "\<forall>rep \<in> set (sq_Reports req). 0 \<le> cn_SpentMicroUSD rep \<and> in64 (cn_SpentMicroUSD rep)"
  obtains dps m m' leases latch active where "wfLedger m"
    "fold (grantLease now dps (sq_Dataplane req)) (Mapping.ordered_keys m) (m, []) = (m', leases)"
    "wf_latch latch" "heartbeat now req s = Some (s\<lparr>sv_dataplanes := dps, sv_ledger := m', sv_tierLatch := latch\<rparr>,
       \<lparr>hb_Generation = sv_generation s, hb_Policies = (if sq_Generation req \<noteq> sv_generation s then sv_wire s else []),
        hb_Leases = leases, hb_ActiveTiers = active, hb_SyncIntervalSeconds = sv_interval s\<rparr>)"
proof -
  define dps0 where "dps0 = registerPlane now req (sv_dataplanes s)"
  define m0 where "m0 = fold (absorbReport (sq_Dataplane req)) (sq_Reports req) (sv_ledger s)"
  obtain dps m where pr: "fold (prunePlane now) (Mapping.ordered_keys dps0) (dps0, m0) = (dps, m)" by fastforce
  obtain m' leases where gr: "fold (grantLease now dps (sq_Dataplane req)) (Mapping.ordered_keys m) (m, []) = (m', leases)" by fastforce
  have "wfLedger m0" unfolding m0_def using assms by (intro absorbs_wf) (auto simp: wfServer_def)
  then have wf: "wfLedger m" using pr by (rule prunes_wf)
  have keys: "distinct (Mapping.ordered_keys m)" "set (Mapping.ordered_keys m) = Mapping.keys m" using wf by (simp_all add: wfLedger_def)
  have "Mapping.lookup m' k = map_option (granted now dps (sq_Dataplane req)) (Mapping.lookup m k)" for k
    using grant_fold(1) [OF gr keys(1), of k] by (auto simp: keys keys_lookup)
  then have wf': "wfLedger m'" using wf grant_fold(2) [OF gr keys(1)] by (auto simp: wfLedger_def granted_wf)
  obtain latch active where "judgeTiers now dps m' (sv_tiers s) (Mapping.ordered_keys (sv_tiers s)) (sv_tierLatch s, []) = Some (latch, active)"
    "wf_latch latch"
    using judge_total [OF wf', of "(sv_tierLatch s, [])"] assms(1) by (fastforce simp: wfServer_def)
  then show thesis
    using that wf gr pr by (simp add: heartbeat_def Let_def dps0_def [symmetric] m0_def [symmetric])
qed

section \<open>Installing documents\<close>

lemma install_rule_ledger:
  assumes "Mapping.lookup (in_ledger (installRule old p r st)) k = Some l"
  shows "Mapping.lookup (in_ledger st) k = Some l \<or>
    (\<exists>b. r_Budget r = Some b \<and> \<not> b_Unlimited b \<and> k = (p_Name p, r_Name r) \<and> l = newRuleLedger old p r b)"
  using assms by (auto simp: installRule_def Let_def lookup_update' split: option.splits if_splits)

lemma install_rule_finite:
  "finite (Mapping.keys (in_ledger st)) \<Longrightarrow> finite (Mapping.keys (in_ledger (installRule old p r st)))"
  by (auto simp: installRule_def Let_def split: option.splits)

text \<open>Where a row of a new set comes from: a finite budget of a converted document.\<close>

definition rowOrigin :: "(cpKey, ruleLedger) mapping \<Rightarrow> cpKey \<Rightarrow> ruleLedger \<Rightarrow> bool" where
  "rowOrigin old k l \<longleftrightarrow>
     (\<exists>p r b failure. wfBudget failure b \<and> \<not> b_Unlimited b \<and> k = (p_Name p, r_Name r) \<and> l = newRuleLedger old p r b)"

definition installed :: "(cpKey, ruleLedger) mapping \<Rightarrow> Installing \<Rightarrow> bool" where
  "installed old st \<longleftrightarrow> finite (Mapping.keys (in_ledger st)) \<and> (\<forall>k l. Mapping.lookup (in_ledger st) k = Some l \<longrightarrow> rowOrigin old k l)"

lemma install_rules:
  assumes "installed old st" and "\<forall>r \<in> set rs. \<forall>b. r_Budget r = Some b \<longrightarrow> (\<exists>failure. wfBudget failure b)"
  shows "installed old (fold (installRule old p) rs st)"
  using assms
proof (induction rs arbitrary: st)
  case (Cons r rs)
  have "installed old (installRule old p r st)"
    unfolding installed_def
  proof (intro conjI allI impI)
    show "finite (Mapping.keys (in_ledger (installRule old p r st)))"
      using Cons.prems(1) by (simp add: installed_def install_rule_finite)
    fix k l assume "Mapping.lookup (in_ledger (installRule old p r st)) k = Some l"
    from install_rule_ledger [OF this] show "rowOrigin old k l"
      using Cons.prems unfolding installed_def rowOrigin_def by fastforce
  qed
  then show ?case using Cons by simp
qed simp

lemma install_docs:
  assumes "foldE (installDoc old) wire st = Inr st'" and "installed old st"
  shows "installed old st'"
  using assms
proof (induction wire arbitrary: st)
  case (Cons doc wire)
  from Cons.prems(1) obtain p where p: "FromV1Alpha1 doc = Inr p"
    and rest: "foldE (installDoc old) wire (fold (installRule old p) (p_Rules p) st) = Inr st'"
    by (cases "FromV1Alpha1 doc") (simp_all add: installDoc_def [of old doc])
  have "\<forall>r \<in> set (p_Rules p). \<forall>b. r_Budget r = Some b \<longrightarrow> (\<exists>failure. wfBudget failure b)"
    using conversion_wf [OF p] unfolding wfPolicy_def wfRule_def by blast
  then show ?case using Cons.IH [OF rest] Cons.prems(2) install_rules by blast
qed simp

lemma apply_origin:
  assumes "applyWire gen wire mt s = Inr s'"
  shows "finite (Mapping.keys (sv_ledger s'))" and "Mapping.lookup (sv_ledger s') k = Some l \<Longrightarrow> rowOrigin (sv_ledger s) k l"
proof -
  define start where "start = \<lparr>in_ledger = Mapping.empty :: (cpKey, ruleLedger) mapping, in_tiers = Mapping.empty :: (cpKey, tierRule) mapping, in_minRenew = 0\<rparr>"
  from assms obtain st where st: "foldE (installDoc (sv_ledger s)) wire start = Inr st" "sv_ledger s' = in_ledger st"
    by (auto simp: applyWire_def start_def split: sum.splits)
  have "installed (sv_ledger s) start" by (simp add: installed_def start_def)
  from install_docs [OF st(1) this]
  show "finite (Mapping.keys (sv_ledger s'))" "Mapping.lookup (sv_ledger s') k = Some l \<Longrightarrow> rowOrigin (sv_ledger s) k l"
    by (auto simp: installed_def st(2))
qed

lemma wf_amounts_empty: "wfAmounts Mapping.empty"
  by (simp add: wfAmounts_def)

lemma new_row:
  "rl_limitMicro (newRuleLedger old p r b) = b_LimitMicroUSD b" "rl_grantMicro (newRuleLedger old p r b) = b_LeaseGrantMicroUSD b"
  "rl_period (newRuleLedger old p r b) = b_Period b"
  "rl_spent (newRuleLedger old p r b) =
     (case Mapping.lookup old (p_Name p, r_Name r) of
        None \<Rightarrow> Mapping.empty | Some prev \<Rightarrow> if rl_period prev = b_Period b then rl_spent prev else Mapping.empty)"
  "rl_allowance (newRuleLedger old p r b) =
     (case Mapping.lookup old (p_Name p, r_Name r) of
        None \<Rightarrow> Mapping.empty
      | Some prev \<Rightarrow> if rl_period prev = b_Period b \<and> \<not> rl_routingOnly (newRuleLedger old p r b) then rl_allowance prev else Mapping.empty)"
  by (simp_all add: newRuleLedger_def Let_def split: option.split)

lemma origin_wf:
  assumes "rowOrigin old k l" and "wfLedger old"
  shows "wfRow l"
proof -
  obtain p r b failure where b: "wfBudget failure b" "\<not> b_Unlimited b" and l: "l = newRuleLedger old p r b"
    using assms(1) by (auto simp: rowOrigin_def)
  have "wfRow prev" if "Mapping.lookup old (p_Name p, r_Name r) = Some prev" for prev using assms(2) that by (simp add: wfLedger_def)
  then have "wfAmounts (rl_spent l)" "wfAmounts (rl_allowance l)"
    by (auto simp: l new_row wfRow_def wf_amounts_empty split: option.split)
  then show ?thesis using b by (simp add: wfRow_def wfBudget_def l new_row)
qed

lemma forget_step_wf: "wf_latch latch \<Longrightarrow> wf_latch (forgetTier old new tiers k latch)"
  by (auto simp: forgetTier_def Forget_def wf_latch_def lookup_delete' split: option.splits if_splits)

lemma forget_wf: "wf_latch latch \<Longrightarrow> wf_latch (fold (forgetTier old new tiers) ks latch)"
  by (induction ks arbitrary: latch) (simp_all add: forget_step_wf)

lemma apply_wf:
  assumes "wfServer s" and "applyWire gen wire mt s = Inr s'"
  shows "wfServer s'"
proof -
  have "wf_latch (sv_tierLatch s')"
    using assms forget_wf by (auto simp: applyWire_def wfServer_def split: sum.splits)
  moreover have "wfLedger (sv_ledger s')"
    using apply_origin [OF assms(2)] origin_wf assms(1) unfolding wfLedger_def wfServer_def by blast
  ultimately show ?thesis by (simp add: wfServer_def)
qed

section \<open>Reachable servers\<close>

text \<open>Any sequence of document sets, reconfigurations and heartbeats; reports are 64-bit numbers.\<close>

inductive cp_reachable :: "(GovernancePolicy list \<Rightarrow> string) \<Rightarrow> Server \<Rightarrow> bool" for gen where
  start: "cp_reachable gen (emptyServer paths)"
| install: "cp_reachable gen s \<Longrightarrow> applyWire gen wire mt s = Inr s' \<Longrightarrow> cp_reachable gen s'"
| configure: "cp_reachable gen s \<Longrightarrow> cp_reachable gen (s\<lparr>sv_authority := a, sv_policyStore := b, sv_updated := u\<rparr>)"
| sync: "cp_reachable gen s \<Longrightarrow> \<forall>rep \<in> set (sq_Reports req). in64 (cn_SpentMicroUSD rep) \<Longrightarrow>
    handleSync machine backend now now' (Some req) s = Some (s', reply) \<Longrightarrow> cp_reachable gen s'"

lemma authority_cases:
  "(\<exists>status. authoritySync machine backend now' req s = (s, HttpError status))
   \<or> (\<exists>dps resp. authoritySync machine backend now' req s = (s\<lparr>sv_dataplanes := dps\<rparr>, AuthorityReply resp))"
  by (auto simp: authoritySync_def split: option.split)

lemma sync_cases:
  assumes "wfServer s" and "\<forall>rep \<in> set (sq_Reports req). in64 (cn_SpentMicroUSD rep)"
  obtains (refused) status where "handleSync machine backend now now' (Some req) s = Some (s, HttpError status)"
  | (durable) resp dps where "handleSync machine backend now now' (Some req) s = Some (s\<lparr>sv_dataplanes := dps\<rparr>, AuthorityReply resp)"
  | (answered) dps m m' leases latch active where "wfLedger m" "sq_Dataplane req \<noteq> []"
      "fold (grantLease now dps (sq_Dataplane req)) (Mapping.ordered_keys m) (m, []) = (m', leases)" "wf_latch latch"
      "handleSync machine backend now now' (Some req) s = Some (s\<lparr>sv_dataplanes := dps, sv_ledger := m', sv_tierLatch := latch\<rparr>,
         Reply \<lparr>hb_Generation = sv_generation s, hb_Policies = (if sq_Generation req \<noteq> sv_generation s then sv_wire s else []),
          hb_Leases = leases, hb_ActiveTiers = active, hb_SyncIntervalSeconds = sv_interval s\<rparr>)"
proof (cases "sq_Dataplane req = [] \<or> sv_authority s \<or> sq_Authority req \<noteq> None \<or> list_ex (\<lambda>rep. cn_SpentMicroUSD rep < 0) (sq_Reports req)")
  case True
  show thesis
  proof (cases "sq_Dataplane req \<noteq> [] \<and> sv_authority s")
    case True
    then show thesis using authority_cases [of machine backend now' req s] refused durable by (auto simp: handleSync_def)
  next
    case False
    then have "handleSync machine backend now now' (Some req) s = Some (s, HttpError 400)
        \<or> handleSync machine backend now now' (Some req) s = Some (s, HttpError 409)"
      using True by (auto simp: handleSync_def)
    then show thesis using refused by blast
  qed
next
  case False
  then have "\<forall>rep \<in> set (sq_Reports req). 0 \<le> cn_SpentMicroUSD rep \<and> in64 (cn_SpentMicroUSD rep)"
    using assms(2) by (auto simp: list_ex_iff)
  from heartbeat_outcome [OF assms(1) this, of now thesis] show thesis
    using answered False by (auto simp: handleSync_def)
qed

lemma sync_wf:
  assumes "wfServer s" and "\<forall>rep \<in> set (sq_Reports req). in64 (cn_SpentMicroUSD rep)"
    and "handleSync machine backend now now' (Some req) s = Some (s', reply)"
  shows "wfServer s'"
  using assms(1,2)
proof (cases rule: sync_cases [where machine = machine and backend = backend and now = now and now' = now'])
  case (answered dps m m' leases latch active)
  have keys: "distinct (Mapping.ordered_keys m)" "set (Mapping.ordered_keys m) = Mapping.keys m"
    using answered(1) by (simp_all add: wfLedger_def)
  have row: "Mapping.lookup m' k = map_option (granted now dps (sq_Dataplane req)) (Mapping.lookup m k)" for k
    using grant_fold(1) [OF answered(3) keys(1), of k] by (auto simp: keys keys_lookup)
  have "wfLedger m'"
    using answered(1) grant_fold(2) [OF answered(3) keys(1)] granted_wf unfolding wfLedger_def row by (auto simp: map_option_case split: option.splits)
  then show ?thesis using answered assms(3) by (simp add: wfServer_def)
qed (use assms in \<open>auto simp: wfServer_def\<close>)

lemma reachable_wf: "cp_reachable gen s \<Longrightarrow> wfServer s"
proof (induction rule: cp_reachable.induct)
  case (start paths)
  then show ?case by (simp add: wfServer_def wfLedger_def wf_latch_def emptyServer_def NewLatch_def)
next
  case (install s wire mt s')
  then show ?case by (blast intro: apply_wf)
next
  case (configure s a b u)
  then show ?case by (simp add: wfServer_def)
next
  case (sync s req machine backend now now' s' reply)
  then show ?case by (blast intro: sync_wf)
qed

section \<open>Properties\<close>

text \<open>
  C13: a lease never promises money that is not there. In every reachable server, each lease a
  heartbeat hands out is exactly the spend its data plane reported plus a slice of at most
  the rule's grant size, without overflow; and when the slice is positive, everything all
  data planes reported as spent plus everything they may still spend on leases that could be
  valid, this slice included, is within the limit of the rule.
\<close>

theorem lease_grants_within_limit:
  assumes "cp_reachable gen s" and "\<forall>rep \<in> set (sq_Reports req). in64 (cn_SpentMicroUSD rep)"
    and "handleSync machine backend now now' (Some req) s = Some (s', Reply resp)" and "lease \<in> set (hb_Leases resp)"
  shows "\<exists>l slice. Mapping.lookup (sv_ledger s') (lz_Policy lease, lz_Rule lease) = Some l \<and> \<not> rl_routingOnly l
    \<and> lz_Team lease = rl_team l \<and> lz_HardCap lease = rl_hard l \<and> lz_Period lease = rl_period l
    \<and> lz_AllowanceMicroUSD lease = amountOf (rl_spent l) (sq_Dataplane req) + slice
    \<and> amountOf (rl_allowance l) (sq_Dataplane req) = lz_AllowanceMicroUSD lease
    \<and> 0 \<le> slice \<and> slice \<le> rl_grantMicro l
    \<and> (0 < slice \<longrightarrow> spentSum l + promised now (sv_dataplanes s') [] l \<le> rl_limitMicro l)"
  using reachable_wf [OF assms(1)] assms(2)
proof (cases rule: sync_cases [where machine = machine and backend = backend and now = now and now' = now'])
  case (answered dps m m' leases latch active)
  have keys: "distinct (Mapping.ordered_keys m)" "set (Mapping.ordered_keys m) = Mapping.keys m"
    using answered(1) by (simp_all add: wfLedger_def)
  have out: "s' = s\<lparr>sv_dataplanes := dps, sv_ledger := m', sv_tierLatch := latch\<rparr>" "hb_Leases resp = leases"
    using answered(5) assms(3) by auto
  obtain k l where l: "Mapping.lookup m k = Some l" "\<not> rl_routingOnly l" "lease = leaseOf now dps (sq_Dataplane req) k l"
    using grant_fold(3) [OF answered(3) keys(1)] assms(4) out(2) by force
  define l' where "l' = granted now dps (sq_Dataplane req) l"
  have wf: "wfRow l" using answered(1) l(1) by (auto simp: wfLedger_def)
  have k: "k = (lz_Policy lease, lz_Rule lease)" by (simp add: l(3) leaseOf_def)
  have row: "Mapping.lookup (sv_ledger s') k = Some l'"
    using grant_fold(1) [OF answered(3) keys(1), of k] l(1) keys(2) by (auto simp: out(1) l'_def keys_lookup)
  have same: "rl_routingOnly l' = rl_routingOnly l" "rl_team l' = rl_team l" "rl_hard l' = rl_hard l" "rl_period l' = rl_period l"
    "rl_grantMicro l' = rl_grantMicro l" "rl_spent l' = rl_spent l"
    by (simp_all add: l'_def granted_def)
  have allowance: "lz_AllowanceMicroUSD lease = amountOf (rl_spent l) (sq_Dataplane req) + grantAmount now dps (sq_Dataplane req) l"
    by (simp add: l(3) leaseOf_def allowance_exact(1) [OF wf])
  note fits = granted_fits [OF wf l(2) l'_def] and g = grant_amount(1,2) [OF wf, of now dps "sq_Dataplane req"]
  show ?thesis
  proof (intro exI conjI)
    show "Mapping.lookup (sv_ledger s') (lz_Policy lease, lz_Rule lease) = Some l'" using row k by simp
    show "lz_AllowanceMicroUSD lease = amountOf (rl_spent l') (sq_Dataplane req) + grantAmount now dps (sq_Dataplane req) l"
      using allowance same(6) by simp
    show "amountOf (rl_allowance l') (sq_Dataplane req) = lz_AllowanceMicroUSD lease" using allowance fits(1) same(6) by simp
    show "0 < grantAmount now dps (sq_Dataplane req) l \<longrightarrow> spentSum l' + promised now (sv_dataplanes s') [] l' \<le> rl_limitMicro l'"
      using fits(2) by (simp add: out(1))
  qed (use l(2) same g in \<open>simp_all add: l(3) leaseOf_def\<close>)
qed (use assms(3) in auto)

definition sampleWire :: "GovernancePolicy list" where
  "sampleWire = [sampleDoc [sampleCap, sampleTier]]"

definition sampleServer :: Server where
  "sampleServer = (case applyWire (\<lambda>docs. ''g1'') sampleWire Mapping.empty (emptyServer []) of Inl _ \<Rightarrow> emptyServer [] | Inr s \<Rightarrow> s)"

definition sampleBeat :: "int \<Rightarrow> SyncRequest" where
  "sampleBeat spent = \<lparr>sq_Dataplane = ''d1'', sq_APIVersions = [], sq_Generation = [], sq_Rejections = [],
     sq_Reports = [\<lparr>cn_Policy = ''acme'', cn_Rule = ''cap'', cn_Team = ''research'', cn_SpentMicroUSD = spent, cn_Period = PeriodCalendarDay\<rparr>],
     sq_Authority = None\<rparr>"

lemma sample_installs: "applyWire (\<lambda>docs. ''g1'') sampleWire Mapping.empty (emptyServer []) = Inr sampleServer"
proof -
  have "(case applyWire (\<lambda>docs. ''g1'') sampleWire Mapping.empty (emptyServer []) of Inl _ \<Rightarrow> False | Inr _ \<Rightarrow> True)"
    by code_simp
  then show ?thesis by (auto simp: sampleServer_def split: sum.splits)
qed

lemma sample_reachable: "cp_reachable (\<lambda>docs. ''g1'') sampleServer"
  using cp_reachable.start sample_installs by (rule cp_reachable.install)

theorem lease_grants_within_limit_witness:
  "\<exists>s' resp lease l slice. handleSync False (\<lambda>_ _. None) 7 8 (Some (sampleBeat 100)) sampleServer = Some (s', Reply resp) \<and> hb_Leases resp = [lease]
     \<and> Mapping.lookup (sv_ledger s') (lz_Policy lease, lz_Rule lease) = Some l
     \<and> lz_AllowanceMicroUSD lease = amountOf (rl_spent l) ''d1'' + slice
     \<and> slice \<le> rl_grantMicro l \<and> (0 < slice \<longrightarrow> spentSum l + promised 7 (sv_dataplanes s') [] l \<le> rl_limitMicro l)"
proof -
  define res where "res = handleSync False (\<lambda>_ _. None) 7 8 (Some (sampleBeat 100)) sampleServer"
  have "(case res of Some (s', Reply resp) \<Rightarrow> length (hb_Leases resp) = 1 | _ \<Rightarrow> False)"
    unfolding res_def by code_simp
  then obtain s' resp lease where res: "res = Some (s', Reply resp)" and lease: "hb_Leases resp = [lease]"
    by (auto simp: length_Suc_conv split: option.splits prod.splits cp_reply.splits)
  have "\<forall>rep \<in> set (sq_Reports (sampleBeat 100)). in64 (cn_SpentMicroUSD rep)" by (simp add: sampleBeat_def in64_bounds)
  from lease_grants_within_limit [OF sample_reachable this res [unfolded res_def], of lease] lease
  obtain l slice where "Mapping.lookup (sv_ledger s') (lz_Policy lease, lz_Rule lease) = Some l"
    "lz_AllowanceMicroUSD lease = amountOf (rl_spent l) ''d1'' + slice" "slice \<le> rl_grantMicro l"
    "0 < slice \<longrightarrow> spentSum l + promised 7 (sv_dataplanes s') [] l \<le> rl_limitMicro l"
    by (auto simp: sampleBeat_def)
  with res lease show ?thesis unfolding res_def by blast
qed

text \<open>
  Every heartbeat is answered and a refused one changes nothing. Whatever was installed
  and reported before, the handler does not panic, the percentages of the tier judgment
  included; a batch with any negative amount, a heartbeat without an identity and a
  durable-mode heartbeat at a server without an authority are refused with a client error;
  and a refusal leaves the whole server, its accounts and registrations, as it was.
\<close>

lemma heartbeat_atomic:
  assumes "cp_reachable gen s" and "\<forall>rep \<in> set (sq_Reports req). in64 (cn_SpentMicroUSD rep)"
  shows "\<exists>s' reply. handleSync machine backend now now' (Some req) s = Some (s', reply)
    \<and> (case reply of HttpError status \<Rightarrow> s' = s | _ \<Rightarrow> sv_wire s' = sv_wire s \<and> sv_generation s' = sv_generation s)
    \<and> (\<not> sv_authority s \<and> (sq_Dataplane req = [] \<or> sq_Authority req \<noteq> None \<or> (\<exists>rep \<in> set (sq_Reports req). cn_SpentMicroUSD rep < 0))
         \<longrightarrow> (\<exists>status. reply = HttpError status \<and> 400 \<le> status \<and> status < 500))"
  using reachable_wf [OF assms(1)] assms(2)
proof (cases rule: sync_cases [where machine = machine and backend = backend and now = now and now' = now'])
  case (refused status)
  moreover have "400 \<le> status \<and> status < 500" if "\<not> sv_authority s"
    using refused that by (auto simp: handleSync_def split: if_splits)
  ultimately show ?thesis by auto
next
  case (durable resp dps)
  then show ?thesis by (auto simp: handleSync_def split: if_splits)
next
  case (answered dps m m' leases latch active)
  then show ?thesis by (auto simp: handleSync_def list_ex_iff split: if_splits)
qed

text \<open>
  Replacing the documents keeps the books. After a new set is installed, every budget
  rule that existed before with the same window keeps the spend of every data plane, and its
  outstanding allowances unless it now only steers routing; a rule that is new or whose
  window changed starts from zero; every row is well formed.
\<close>

lemma install_keeps_accounts:
  assumes "cp_reachable gen s" and "applyWire gen wire mt s = Inr s'" and "Mapping.lookup (sv_ledger s') k = Some l'"
  shows "wfRow l' \<and>
    (case Mapping.lookup (sv_ledger s) k of
       Some l \<Rightarrow>
         if rl_period l = rl_period l'
         then rl_spent l' = rl_spent l \<and> rl_allowance l' = (if rl_routingOnly l' then Mapping.empty else rl_allowance l)
         else rl_spent l' = Mapping.empty \<and> rl_allowance l' = Mapping.empty
     | None \<Rightarrow> rl_spent l' = Mapping.empty \<and> rl_allowance l' = Mapping.empty)"
proof -
  note origin = apply_origin(2) [OF assms(2,3)]
  then obtain p r b where l': "k = (p_Name p, r_Name r)" "l' = newRuleLedger (sv_ledger s) p r b" by (auto simp: rowOrigin_def)
  have "wfRow l'" using origin_wf [OF origin] reachable_wf [OF assms(1)] by (simp add: wfServer_def)
  then show ?thesis by (auto simp: l' new_row split: option.split)
qed

section \<open>The document store\<close>

text \<open>The abstract state of the store: a document per name.\<close>

definition storedDoc :: "(string \<Rightarrow> GovernancePolicy option) \<Rightarrow> DocTable \<Rightarrow> string \<Rightarrow> GovernancePolicy option" where
  "storedDoc yaml t n =
     (case Mapping.lookup (dt_policies t) n of
        None \<Rightarrow> None
      | Some d \<Rightarrow> (case parseWireDocs yaml (dc_YAML d) of Inr [doc] \<Rightarrow> Some doc | _ \<Rightarrow> None))"

definition wfTable :: "(string \<Rightarrow> GovernancePolicy option) \<Rightarrow> DocTable \<Rightarrow> bool" where
  "wfTable yaml t \<longleftrightarrow>
     finite (Mapping.keys (dt_policies t)) \<and>
     (\<forall>n d. Mapping.lookup (dt_policies t) n = Some d \<longrightarrow>
        n \<noteq> [] \<and> (\<exists>doc. parseWireDocs yaml (dc_YAML d) = Inr [doc] \<and> om_Name (gp_Metadata doc) = n))"

definition storedWire :: "(string \<Rightarrow> GovernancePolicy option) \<Rightarrow> DocTable \<Rightarrow> GovernancePolicy list" where
  "storedWire yaml t = map (the \<circ> storedDoc yaml t) (Mapping.ordered_keys (dt_policies t))"

lemma read_rows:
  assumes "\<forall>n \<in> set ns. \<exists>d doc. Mapping.lookup (dt_policies t) n = Some d \<and> n \<noteq> [] \<and> parseWireDocs yaml (dc_YAML d) = Inr [doc]
      \<and> om_Name (gp_Metadata doc) = n"
    and "distinct ns" and "\<forall>n \<in> set ns. Mapping.lookup seen n = None"
  shows "\<exists>seen'. foldE (readStored yaml) (map (\<lambda>n. (n, the (Mapping.lookup (dt_policies t) n))) ns) (seen, wire)
    = Inr (seen', wire @ map (the \<circ> storedDoc yaml t) ns)"
  using assms
proof (induction ns arbitrary: seen wire)
  case (Cons n ns)
  obtain d doc where d: "Mapping.lookup (dt_policies t) n = Some d" "n \<noteq> []" "parseWireDocs yaml (dc_YAML d) = Inr [doc]"
    "om_Name (gp_Metadata doc) = n" using Cons.prems(1) by auto
  have step: "readStored yaml (n, d) (seen, wire) = Inr (Mapping.update n n seen, wire @ [doc])"
    using d Cons.prems(3) by (simp add: readStored_def Let_def)
  have stored: "storedDoc yaml t n = Some doc" using d by (simp add: storedDoc_def)
  have "\<exists>seen'. foldE (readStored yaml) (map (\<lambda>n. (n, the (Mapping.lookup (dt_policies t) n))) ns) (Mapping.update n n seen, wire @ [doc])
    = Inr (seen', (wire @ [doc]) @ map (the \<circ> storedDoc yaml t) ns)"
    by (rule Cons.IH) (use Cons.prems in \<open>auto simp: lookup_update'\<close>)
  then obtain seen' where "foldE (readStored yaml) (map (\<lambda>n. (n, the (Mapping.lookup (dt_policies t) n))) ns)
      (Mapping.update n n seen, wire @ [doc]) = Inr (seen', (wire @ [doc]) @ map (the \<circ> storedDoc yaml t) ns)" by blast
  then show ?case using d(1) step stored by (auto simp: comp_def)
qed simp

lemma install_docs_total:
  assumes "\<forall>doc \<in> set wire. \<exists>p. FromV1Alpha1 doc = Inr p"
  shows "\<exists>st'. foldE (installDoc old) wire st = Inr st'"
  using assms
proof (induction wire arbitrary: st)
  case (Cons doc wire)
  then obtain p where "FromV1Alpha1 doc = Inr p" by auto
  then have "installDoc old doc st = Inr (fold (installRule old p) (p_Rules p) st)" by (simp add: installDoc_def)
  then show ?case using Cons by simp
qed simp

lemma stored_valid:
  assumes "wfTable yaml t" and "n \<in> Mapping.keys (dt_policies t)"
  shows "\<exists>d doc. Mapping.lookup (dt_policies t) n = Some d \<and> n \<noteq> [] \<and> parseWireDocs yaml (dc_YAML d) = Inr [doc]
      \<and> om_Name (gp_Metadata doc) = n \<and> storedDoc yaml t n = Some doc"
  using assms by (fastforce simp: wfTable_def keys_lookup storedDoc_def)

lemma reload_installs:
  assumes "wfTable yaml t" and "sv_policyStore s"
  shows "\<exists>s'. ReloadFromStore True gen yaml t s = Inr s' \<and> sv_wire s' = storedWire yaml t \<and> sv_generation s' = gen (storedWire yaml t)
    \<and> sv_policyStore s'"
proof -
  define ns where "ns = Mapping.ordered_keys (dt_policies t)"
  have fin: "finite (Mapping.keys (dt_policies t))" using assms(1) by (simp add: wfTable_def)
  then have ns: "distinct ns" "set ns = Mapping.keys (dt_policies t)" by (simp_all add: ns_def)
  have valid: "\<forall>n \<in> set ns. \<exists>d doc. Mapping.lookup (dt_policies t) n = Some d \<and> n \<noteq> [] \<and> parseWireDocs yaml (dc_YAML d) = Inr [doc]
      \<and> om_Name (gp_Metadata doc) = n"
    using stored_valid [OF assms(1)] ns(2) by blast
  obtain seen where read: "foldE (readStored yaml) (ps_List t) (Mapping.empty, []) = Inr (seen, storedWire yaml t)"
    using read_rows [OF valid ns(1), of Mapping.empty "[]"] by (auto simp: ps_List_def storedWire_def ns_def)
  have "\<forall>doc \<in> set (storedWire yaml t). \<exists>p. FromV1Alpha1 doc = Inr p"
    using stored_valid [OF assms(1)] ns(2) by (fastforce simp: storedWire_def ns_def [symmetric] intro: parse_wire_valid)
  then obtain st' where "foldE (installDoc (sv_ledger s)) (storedWire yaml t)
      \<lparr>in_ledger = Mapping.empty, in_tiers = Mapping.empty, in_minRenew = 0\<rparr> = Inr st'"
    using install_docs_total by blast
  then show ?thesis using read assms(2) by (simp add: ReloadFromStore_def applyWire_def)
qed

text \<open>
  A policy write is all or nothing and what is distributed is what is stored. A write of a
  body that is not exactly one valid document of the given name, or that the database
  refuses, changes neither the table nor the server. An accepted one replaces that document
  alone, and the distributed set becomes the stored documents in the order of their names,
  under the fingerprint of that set; only when the table cannot be read back does the server
  keep its previous set, with the write committed.
\<close>

lemma policy_write_applies:
  assumes "wfTable yaml t" and "sv_policyStore s" and "ApplyWrite putOK listed now gen yaml name body (t, s) = ((t', s'), err)"
  shows "wfTable yaml t' \<and>
    (case err of
       None \<Rightarrow> (\<exists>doc. parseWireDocs yaml body = Inr [doc] \<and> om_Name (gp_Metadata doc) = name
          \<and> (\<forall>n. storedDoc yaml t' n = (if n = name then Some doc else storedDoc yaml t n))
          \<and> sv_wire s' = storedWire yaml t' \<and> sv_generation s' = gen (storedWire yaml t'))
     | Some e \<Rightarrow> s' = s \<and> (t' = t \<or> \<not> listed \<and> e = StoreUnavailable))"
proof (cases "\<exists>doc. name \<noteq> [] \<and> parseWireDocs yaml body = Inr [doc] \<and> om_Name (gp_Metadata doc) = name \<and> putOK")
  case False
  then have "(t', s') = (t, s) \<and> err \<noteq> None"
    using assms(2,3) by (auto simp: ApplyWrite_def Let_def length_Suc_conv split: sum.splits if_splits)
  then show ?thesis using assms(1) by (auto split: option.splits)
next
  case True
  then obtain doc where doc: "name \<noteq> []" "parseWireDocs yaml body = Inr [doc]" "om_Name (gp_Metadata doc) = name" "putOK" by blast
  define t1 where "t1 = ps_Put now name body t"
  have stored: "storedDoc yaml t1 n = (if n = name then Some doc else storedDoc yaml t n)" for n
    using doc(2) by (simp add: t1_def ps_Put_def storedDoc_def lookup_update')
  have wf: "wfTable yaml t1"
    using assms(1) doc by (auto simp: wfTable_def t1_def ps_Put_def lookup_update')
  have applied: "ApplyWrite putOK listed now gen yaml name body (t, s) =
      (case ReloadFromStore listed gen yaml t1 s of Inl e \<Rightarrow> ((t1, s), Some e) | Inr s' \<Rightarrow> ((t1, s'), None))"
    unfolding t1_def using doc assms(2) by (simp add: ApplyWrite_def Let_def)
  show ?thesis
  proof (cases listed)
    case True
    then show ?thesis using reload_installs [OF wf assms(2), of gen] applied assms(3) stored doc wf by auto
  next
    case False
    then have "ReloadFromStore listed gen yaml t1 s = Inl StoreUnavailable" using assms(2) by (simp add: ReloadFromStore_def)
    then show ?thesis using applied assms(3) wf False by auto
  qed
qed

definition sampleYaml :: "string \<Rightarrow> GovernancePolicy option" where
  "sampleYaml body = (if body = ''doc'' then Some (sampleDoc [sampleCap, sampleTier]) else None)"

end
