(* ===== verification/Syncer.thy ===== *)
theory Syncer
  imports ControlPlane EscrowSync Float64
begin

text \<open>
  The heartbeat of a data plane, \<^verbatim>\<open>internal/proxy\<close> (\<^verbatim>\<open>sync.go\<close>, \<^verbatim>\<open>authority.go\<close>, \<^verbatim>\<open>shared.go\<close>):
  the lease table the request path reads, the readiness gate, one synchronization with the
  control plane and the cadence of the loop.

  The request path reads the state of the syncer concurrently, so a synchronization returns
  the sequence of states it publishes, in order, and not only the last. The network round
  trip is a function from the request to its outcome; clocks, the random fraction of the
  jitter, the fingerprints and the usage counters are arguments. \<open>'w\<close> is the state behind
  the authority client: the durable journal, or nothing for the shared gateway.
\<close>

section \<open>Leases\<close>

record Lease =
  le_AllowanceMicroUSD :: int
  le_ExpiresAt :: gotime
  le_HardCap :: bool

type_synonym LeaseTable = "(string, (BudgetPeriod, Lease) mapping) mapping"

definition NewLeaseTable :: LeaseTable where
  "NewLeaseTable = Mapping.empty"

definition orMonth :: "BudgetPeriod \<Rightarrow> BudgetPeriod" where
  "orMonth period = (if period = [] then PeriodCalendarMonth else period)"

definition windowsOf :: "LeaseTable \<Rightarrow> string \<Rightarrow> (BudgetPeriod, Lease) mapping" where
  "windowsOf t team = (case Mapping.lookup t team of None \<Rightarrow> Mapping.empty | Some w \<Rightarrow> w)"

definition lt_Get :: "LeaseTable \<Rightarrow> string \<Rightarrow> BudgetPeriod \<Rightarrow> Lease option" where
  "lt_Get t team period = Mapping.lookup (windowsOf t team) (orMonth period)"

definition leaseExpired :: string where
  "leaseExpired = ''budget lease expired (control plane unreachable): hard cap fails closed''"

definition leaseExhausted :: string where
  "leaseExhausted = ''global hard budget exhausted: no lease allowance remaining''"

fun blockedBy :: "gotime \<Rightarrow> Lease option list \<Rightarrow> bool \<times> string" where
  "blockedBy now [] = (False, [])"
| "blockedBy now (e # es) =
     (case e of
        None \<Rightarrow> blockedBy now es
      | Some l \<Rightarrow>
          if \<not> le_HardCap l then blockedBy now es
          else if now > le_ExpiresAt l then (True, leaseExpired)
          else if le_AllowanceMicroUSD l \<le> 0 then (True, leaseExhausted)
          else blockedBy now es)"

definition lt_Blocked :: "gotime \<Rightarrow> LeaseTable \<Rightarrow> string \<Rightarrow> bool \<times> string" where
  "lt_Blocked now t team =
     blockedBy now [Mapping.lookup (windowsOf t team) PeriodCalendarDay, Mapping.lookup (windowsOf t team) PeriodCalendarMonth]"

definition mergeLease :: "LeaseGrant \<Rightarrow> Lease option \<Rightarrow> Lease" where
  "mergeLease g old =
     (case old of
        None \<Rightarrow> \<lparr>le_AllowanceMicroUSD = lz_AllowanceMicroUSD g, le_ExpiresAt = lz_ExpiresAt g, le_HardCap = lz_HardCap g\<rparr>
      | Some l \<Rightarrow>
          \<lparr>le_AllowanceMicroUSD = (if lz_AllowanceMicroUSD g < le_AllowanceMicroUSD l then lz_AllowanceMicroUSD g else le_AllowanceMicroUSD l),
           le_ExpiresAt = (if lz_ExpiresAt g < le_ExpiresAt l then lz_ExpiresAt g else le_ExpiresAt l),
           le_HardCap = (le_HardCap l \<or> lz_HardCap g)\<rparr>)"

definition addGrant :: "LeaseGrant \<Rightarrow> LeaseTable \<Rightarrow> LeaseTable" where
  "addGrant g t =
     (let period = orMonth (lz_Period g); windows = windowsOf t (lz_Team g)
      in Mapping.update (lz_Team g) (Mapping.update period (mergeLease g (Mapping.lookup windows period)) windows) t)"

definition lt_set :: "LeaseGrant list \<Rightarrow> LeaseTable" where
  "lt_set grants = fold addGrant grants Mapping.empty"

section \<open>The authority client\<close>

text \<open>The bundle of a durable response as decoded; an absent or null slice is \<open>None\<close>.\<close>

record AuthorityWire =
  aw_AuthorityID :: string
  aw_Protocol :: string
  aw_ServerTime :: gotime
  aw_Generation :: string
  aw_Policies :: "GovernancePolicy list option"
  aw_Budgets :: "AuthorityBudget list option"
  aw_Grants :: "AuthorityGrant list"
  aw_ReportAcks :: "AuthorityAck list"
  aw_MeterAcks :: "AuthorityAck list"
  aw_Denied :: "AuthorityDenial list"

definition bundleOf :: "AuthorityWire \<Rightarrow> Bundle" where
  "bundleOf r = \<lparr>bu_Protocol = aw_Protocol r, bu_ServerTime = aw_ServerTime r, bu_Generation = aw_Generation r,
     bu_Policies = aw_Policies r, bu_Budgets = aw_Budgets r\<rparr>"

definition sliceOf :: "'a list option \<Rightarrow> 'a list" where
  "sliceOf xs = (case xs of None \<Rightarrow> [] | Some ys \<Rightarrow> ys)"

definition responseOf :: "AuthorityWire \<Rightarrow> AuthorityResponse" where
  "responseOf r = \<lparr>as_Protocol = aw_Protocol r, as_ServerTime = aw_ServerTime r, as_Budgets = sliceOf (aw_Budgets r),
     as_Grants = aw_Grants r, as_ReportAcks = aw_ReportAcks r, as_MeterAcks = aw_MeterAcks r, as_Denied = aw_Denied r\<rparr>"

text \<open>The interface: \<open>None\<close> and \<open>False\<close> are errors, which the syncer only wraps.\<close>

record 'w AuthorityClient =
  ac_Request :: "'w \<Rightarrow> 'w \<times> AuthorityRequest option"
  ac_Apply :: "AuthorityWire \<Rightarrow> duration \<Rightarrow> 'w \<Rightarrow> 'w \<times> bool"

text \<open>
  The shared gateway: it journals nothing, and checks that the bundle comes from the
  namespace in which it reserves. \<open>binding\<close> is the answer of the store.
\<close>

definition shared_Request :: "string \<Rightarrow> AuthorityRequest" where
  "shared_Request inst = \<lparr>aq_Protocol = AuthorityProtocol, aq_Instance = inst, aq_Requests = [], aq_Reports = [], aq_Meters = []\<rparr>"

definition shared_Apply ::
  "(string list \<Rightarrow> string) \<Rightarrow> (PolicyBudget \<Rightarrow> string \<Rightarrow> string) \<Rightarrow> (GovernancePolicy list \<Rightarrow> string) \<Rightarrow> (string \<times> string) option \<Rightarrow>
   AuthorityWire \<Rightarrow> bool" where
  "shared_Apply hs hb gen binding r =
     (if ValidateAuthorityBundle hs hb gen (Some (bundleOf r)) \<noteq> None \<or> aw_AuthorityID r = [] \<or> aw_Grants r \<noteq> [] \<or>
         aw_ReportAcks r \<noteq> [] \<or> aw_MeterAcks r \<noteq> [] \<or> aw_Denied r \<noteq> [] then False
      else (case binding of None \<Rightarrow> False | Some (ident, generation) \<Rightarrow> ident = aw_AuthorityID r \<and> generation = aw_Generation r))"

definition sharedClient ::
  "(string list \<Rightarrow> string) \<Rightarrow> (PolicyBudget \<Rightarrow> string \<Rightarrow> string) \<Rightarrow> (GovernancePolicy list \<Rightarrow> string) \<Rightarrow> string \<Rightarrow>
   ('w \<Rightarrow> (string \<times> string) option) \<Rightarrow> 'w AuthorityClient" where
  "sharedClient hs hb gen inst binding =
     \<lparr>ac_Request = (\<lambda>w. (w, Some (shared_Request inst))), ac_Apply = (\<lambda>r rtt w. (w, shared_Apply hs hb gen (binding w) r))\<rparr>"

text \<open>The durable journal of the data plane; the two readings of its clock are arguments.\<close>

definition escrowClient :: "(AuthorityGrant \<Rightarrow> string) \<Rightarrow> storage \<Rightarrow> storage \<Rightarrow> gotime \<Rightarrow> gotime \<Rightarrow> World AuthorityClient" where
  "escrowClient fp io io' now received =
     \<lparr>ac_Request = (\<lambda>w. case Request fp io now w of (w', Inl _) \<Rightarrow> (w', None) | (w', Inr req) \<Rightarrow> (w', Some req)),
      ac_Apply = (\<lambda>r rtt w. case Apply fp io' received (responseOf r) rtt w of (w', err) \<Rightarrow> (w', err = None))\<rparr>"

section \<open>The syncer\<close>

record 'w Syncer =
  sy_authorityInvalid :: bool
  sy_Dataplane :: string
  sy_Store :: PolicyStore
  sy_Leases :: "LeaseTable option"
  sy_Tiers :: "TierTable option"
  sy_generation :: string
  sy_pending :: "Rejection list"
  sy_lastSuccess :: gotime
  sy_world :: 'w

definition MinPolicySyncInterval :: duration where "MinPolicySyncInterval = 15 * Second"
definition DefaultPolicySyncInterval :: duration where "DefaultPolicySyncInterval = 60 * Second"

datatype readiness = GateReady | AuthorityResponseInvalid | NeverSynced | PolicyStale duration

definition GovernanceReady :: "gotime \<Rightarrow> duration \<Rightarrow> 'w Syncer \<Rightarrow> readiness" where
  "GovernanceReady now maxAge s =
     (if sy_authorityInvalid s then AuthorityResponseInvalid
      else if sy_lastSuccess s = 0 then NeverSynced
      else if maxAge > 0 \<and> time_sub now (sy_lastSuccess s) > maxAge then PolicyStale (time_sub now (sy_lastSuccess s))
      else GateReady)"

record WireResponse =
  wr_Generation :: string
  wr_Policies :: "GovernancePolicy list option"
  wr_Leases :: "LeaseGrant list"
  wr_ActiveTiers :: "ActiveTier list"
  wr_SyncIntervalSeconds :: int
  wr_Authority :: "AuthorityWire option"

text \<open>The outcome of the round trip: no answer, a status other than 200, or a body; an undecodable body is \<open>None\<close>.\<close>

datatype http_outcome = HttpFailed | HttpStatus int | HttpBody "WireResponse option"

datatype sync_error =
    AuthorityRequestFailed | NilSnapshot | TransportFailed | BadStatus int | DecodeFailed
  | InvalidBundle | AuthorityApplyFailed | DurablePolicyRejected

section \<open>One synchronization\<close>

definition policyReports :: "(string \<Rightarrow> BudgetPeriod \<Rightarrow> int) option \<Rightarrow> Policy \<Rightarrow> ConsumptionReport list" where
  "policyReports spentOf p =
     (if ps_Team (p_Subject p) = [] \<or> ps_User (p_Subject p) \<noteq> [] then []
      else List.map_filter (\<lambda>r. case r_Budget r of
             None \<Rightarrow> None
           | Some b \<Rightarrow> Some \<lparr>cn_Policy = p_Name p, cn_Rule = r_Name r, cn_Team = ps_Team (p_Subject p),
               cn_SpentMicroUSD = (case spentOf of None \<Rightarrow> 0 | Some f \<Rightarrow> f (ps_Team (p_Subject p)) (b_Period b)),
               cn_Period = b_Period b\<rparr>) (p_Rules p))"

definition buildRequest ::
  "(string \<Rightarrow> BudgetPeriod \<Rightarrow> int) option \<Rightarrow> bool \<Rightarrow> AuthorityRequest option \<Rightarrow> Policy list \<Rightarrow> 'w Syncer \<Rightarrow> SyncRequest" where
  "buildRequest spentOf durable request policies s =
     \<lparr>sq_Dataplane = sy_Dataplane s, sq_APIVersions = SupportedAPIVersions, sq_Generation = sy_generation s,
      sq_Rejections = sy_pending s, sq_Reports = (if durable then [] else concat (map (policyReports spentOf) policies)),
      sq_Authority = request\<rparr>"

text \<open>The result: the states published on the way, the final state, and the outcome.\<close>

type_synonym 'w synced = "'w Syncer list \<times> 'w Syncer \<times> (sync_error + duration)"

definition nextCadence :: "int \<Rightarrow> duration" where
  "nextCadence seconds = (let next = mul64 seconds Second in if next < Second then DefaultPolicySyncInterval else next)"

text \<open>The end of a synchronization, from the delivery of the pending rejections on.\<close>

definition finishSync :: "gotime \<Rightarrow> WireResponse \<Rightarrow> 'w Syncer \<Rightarrow> 'w synced" where
  "finishSync done_at resp s4 =
     (let s5 = s4\<lparr>sy_Leases := map_option (\<lambda>_. lt_set (wr_Leases resp)) (sy_Leases s4)\<rparr>;
          s6 = s5\<lparr>sy_Tiers := map_option (\<lambda>_. tier_Set (wr_ActiveTiers resp)) (sy_Tiers s5)\<rparr>;
          s7 = s6\<lparr>sy_lastSuccess := done_at\<rparr>
      in ([s5, s6], s7, Inr (nextCadence (wr_SyncIntervalSeconds resp))))"

definition publish ::
  "(GovernancePolicy list \<Rightarrow> string) \<Rightarrow> gotime \<Rightarrow> bool \<Rightarrow> WireResponse \<Rightarrow> GovernancePolicy list option \<Rightarrow> 'w Syncer \<Rightarrow> 'w synced" where
  "publish gen done_at durable resp policies s =
     (let s1 = s\<lparr>sy_pending := []\<rparr>
      in case policies of
           None \<Rightarrow>
             (let s4 = (if durable then s1\<lparr>sy_authorityInvalid := False\<rparr> else s1)
              in case finishSync done_at resp s4 of (tr, out) \<Rightarrow> (s1 # s4 # tr, out))
         | Some docs \<Rightarrow>
             (case ApplyWire gen docs (sy_Store s1) of
                (store, rejected) \<Rightarrow>
                  (let s2 = s1\<lparr>sy_Store := store, sy_pending := rejected, sy_generation := wr_Generation resp\<rparr>
                   in if durable \<and> rejected \<noteq> []
                      then ([s1, s2], s2\<lparr>sy_authorityInvalid := True\<rparr>, Inl DurablePolicyRejected)
                      else (let s4 = (if durable then s2\<lparr>sy_authorityInvalid := False\<rparr> else s2)
                            in case finishSync done_at resp s4 of (tr, out) \<Rightarrow> (s1 # s2 # s4 # tr, out)))))"

definition bundleRefused ::
  "(string list \<Rightarrow> string) \<Rightarrow> (PolicyBudget \<Rightarrow> string \<Rightarrow> string) \<Rightarrow> (GovernancePolicy list \<Rightarrow> string) \<Rightarrow> WireResponse \<Rightarrow> bool" where
  "bundleRefused hs hb gen resp =
     (ValidateAuthorityBundle hs hb gen (map_option bundleOf (wr_Authority resp)) \<noteq> None
      \<or> (case wr_Authority resp of None \<Rightarrow> True | Some a \<Rightarrow> aw_Generation a \<noteq> wr_Generation resp)
      \<or> wr_Leases resp \<noteq> [])"

text \<open>An answer with status 200, in lease mode and with an authority client.\<close>

definition receive ::
  "(string list \<Rightarrow> string) \<Rightarrow> (PolicyBudget \<Rightarrow> string \<Rightarrow> string) \<Rightarrow> (GovernancePolicy list \<Rightarrow> string) \<Rightarrow> duration \<Rightarrow> gotime \<Rightarrow>
   'w AuthorityClient option \<Rightarrow> WireResponse \<Rightarrow> 'w Syncer \<Rightarrow> 'w synced" where
  "receive hs hb gen rtt done_at client resp s =
     (case client of
        None \<Rightarrow> publish gen done_at False resp (wr_Policies resp) s
      | Some c \<Rightarrow>
          (if bundleRefused hs hb gen resp then ([], s\<lparr>sy_authorityInvalid := True\<rparr>, Inl InvalidBundle)
           else (let bundle = the (wr_Authority resp); s1 = s\<lparr>sy_authorityInvalid := True\<rparr>
                 in case ac_Apply c bundle rtt (sy_world s1) of
                      (w, accepted) \<Rightarrow>
                        (let s2 = s1\<lparr>sy_world := w\<rparr>
                         in if \<not> accepted then ([s1], s2, Inl AuthorityApplyFailed)
                            else (case publish gen done_at True resp (aw_Policies bundle) s2 of (tr, out) \<Rightarrow> (s1 # s2 # tr, out))))))"

definition refusingStatus :: "int \<Rightarrow> bool" where
  "refusingStatus code \<longleftrightarrow> code = 401 \<or> code = 403 \<or> code = 409 \<or> code = 426"

definition exchange ::
  "(string list \<Rightarrow> string) \<Rightarrow> (PolicyBudget \<Rightarrow> string \<Rightarrow> string) \<Rightarrow> (GovernancePolicy list \<Rightarrow> string) \<Rightarrow> duration \<Rightarrow> gotime \<Rightarrow>
   'w AuthorityClient option \<Rightarrow> http_outcome \<Rightarrow> 'w Syncer \<Rightarrow> 'w synced" where
  "exchange hs hb gen rtt done_at client outcome s =
     (case outcome of
        HttpFailed \<Rightarrow> ([], s, Inl TransportFailed)
      | HttpStatus code \<Rightarrow>
          ([], if client \<noteq> None \<and> refusingStatus code then s\<lparr>sy_authorityInvalid := True\<rparr> else s, Inl (BadStatus code))
      | HttpBody None \<Rightarrow> ([], s, Inl DecodeFailed)
      | HttpBody (Some resp) \<Rightarrow> receive hs hb gen rtt done_at client resp s)"

definition authorityRequest :: "'w AuthorityClient option \<Rightarrow> 'w \<Rightarrow> 'w \<times> (sync_error + AuthorityRequest option)" where
  "authorityRequest client w =
     (case client of
        None \<Rightarrow> (w, Inr None)
      | Some c \<Rightarrow> (case ac_Request c w of (w', None) \<Rightarrow> (w', Inl AuthorityRequestFailed) | (w', Some req) \<Rightarrow> (w', Inr (Some req))))"

definition syncOnce ::
  "(string list \<Rightarrow> string) \<Rightarrow> (PolicyBudget \<Rightarrow> string \<Rightarrow> string) \<Rightarrow> (GovernancePolicy list \<Rightarrow> string) \<Rightarrow> duration \<Rightarrow> gotime \<Rightarrow>
   (string \<Rightarrow> BudgetPeriod \<Rightarrow> int) option \<Rightarrow> 'w AuthorityClient option \<Rightarrow> (SyncRequest \<Rightarrow> http_outcome) \<Rightarrow> 'w Syncer \<Rightarrow> 'w synced" where
  "syncOnce hs hb gen rtt done_at spentOf client http s =
     (case authorityRequest client (sy_world s) of
        (w, Inl e) \<Rightarrow> ([], s\<lparr>sy_world := w\<rparr>, Inl e)
      | (w, Inr request) \<Rightarrow>
          (let s1 = s\<lparr>sy_world := w\<rparr>
           in case Policies (sy_Store s1) of
                None \<Rightarrow> ([s1], s1, Inl NilSnapshot)
              | Some policies \<Rightarrow>
                  (case exchange hs hb gen rtt done_at client (http (buildRequest spentOf (client \<noteq> None) request policies s1)) s1 of
                     (tr, out) \<Rightarrow> (s1 # tr, out))))"

section \<open>The cadence\<close>

definition backoffJitter :: rat where "backoffJitter = fl (1 / 5)"

definition jitter :: "rat \<Rightarrow> duration \<Rightarrow> duration" where
  "jitter u d =
     (let out = sub64 d (trunc (fl (fl (u * backoffJitter) * float_of_int d)))
      in if out < MinPolicySyncInterval then MinPolicySyncInterval else out)"

definition backoff :: "rat \<Rightarrow> duration \<Rightarrow> duration" where
  "backoff u prev =
     (let b = mul64 prev 2;
          b = (if b < MinPolicySyncInterval then MinPolicySyncInterval else b);
          b = (if b > DefaultPolicySyncInterval then DefaultPolicySyncInterval else b)
      in jitter u b)"

text \<open>One turn of the loop: the states published, the final state, the next cadence and the reported error.\<close>

definition tick :: "rat \<Rightarrow> ('w Syncer \<Rightarrow> 'w synced) \<Rightarrow> duration \<Rightarrow> 'w Syncer \<Rightarrow> 'w Syncer list \<times> 'w Syncer \<times> duration \<times> sync_error option" where
  "tick u once prev s =
     (case once s of
        (tr, s', Inr next) \<Rightarrow> (tr, s', next, None)
      | (tr, s', Inl e) \<Rightarrow> (tr, s', backoff u prev, Some e))"

text \<open>
  The loop up to its end, one synchronization per element: a turn is taken when the timer
  fires or the authority asks for one, and both are the same step.
\<close>

primrec runSync :: "(rat \<times> ('w Syncer \<Rightarrow> 'w synced)) list \<Rightarrow> duration \<Rightarrow> 'w Syncer \<Rightarrow> 'w Syncer \<times> duration" where
  "runSync [] interval s = (s, interval)"
| "runSync (t # ts) interval s = (case tick (fst t) (snd t) interval s of (tr, s', next, e) \<Rightarrow> runSync ts next s')"

definition Run :: "(rat \<times> ('w Syncer \<Rightarrow> 'w synced)) list \<Rightarrow> 'w Syncer \<Rightarrow> 'w Syncer \<times> duration" where
  "Run ts s = runSync ts MinPolicySyncInterval s"

section \<open>The wire\<close>

text \<open>What the data plane decodes of an answer: an empty slice is omitted and decodes as nil.\<close>

definition omitEmpty :: "'a list \<Rightarrow> 'a list option" where
  "omitEmpty xs = (if xs = [] then None else Some xs)"

definition wireHeartbeat :: "HeartbeatResponse \<Rightarrow> WireResponse" where
  "wireHeartbeat r = \<lparr>wr_Generation = hb_Generation r, wr_Policies = omitEmpty (hb_Policies r), wr_Leases = hb_Leases r,
     wr_ActiveTiers = hb_ActiveTiers r, wr_SyncIntervalSeconds = hb_SyncIntervalSeconds r, wr_Authority = None\<rparr>"

end
