(* ===== verification/SyncerProps.thy ===== *)
theory SyncerProps
  imports Syncer ControlPlaneProps EscrowProps PolicyStoreProps
begin

text \<open>
  The heartbeat of a data plane: what the lease table promises to the request path, that the
  readiness gate never opens on policies whose budgets the authority has not installed, the
  bounds of the retry cadence, and the round trip with the control plane.
\<close>

section \<open>The lease table\<close>

definition grantsFor :: "string \<Rightarrow> BudgetPeriod \<Rightarrow> LeaseGrant list \<Rightarrow> LeaseGrant list" where
  "grantsFor team period grants = filter (\<lambda>g. lz_Team g = team \<and> orMonth (lz_Period g) = period) grants"

text \<open>The meet of a list of grants: least allowance, earliest expiry, hard if any is.\<close>

definition isMeet :: "LeaseGrant list \<Rightarrow> Lease option \<Rightarrow> bool" where
  "isMeet gs l = (case l of
     None \<Rightarrow> gs = []
   | Some l \<Rightarrow> gs \<noteq> [] \<and> le_AllowanceMicroUSD l = Min (lz_AllowanceMicroUSD ` set gs)
       \<and> le_ExpiresAt l = Min (lz_ExpiresAt ` set gs) \<and> (le_HardCap l \<longleftrightarrow> (\<exists>g \<in> set gs. lz_HardCap g)))"

lemma merge_fields:
  "le_AllowanceMicroUSD (mergeLease g (Some l)) = min (lz_AllowanceMicroUSD g) (le_AllowanceMicroUSD l)"
  "le_ExpiresAt (mergeLease g (Some l)) = min (lz_ExpiresAt g) (le_ExpiresAt l)"
  "le_HardCap (mergeLease g (Some l)) \<longleftrightarrow> le_HardCap l \<or> lz_HardCap g"
  by (simp_all add: mergeLease_def)

lemma meet_snoc:
  assumes "isMeet gs l"
  shows "isMeet (gs @ [g]) (Some (mergeLease g l))"
proof (cases l)
  case None
  then show ?thesis using assms by (simp add: isMeet_def mergeLease_def)
next
  case (Some l')
  then show ?thesis using assms by (auto simp: isMeet_def merge_fields)
qed

lemma windows_addGrant:
  "Mapping.lookup (windowsOf (addGrant g t) team) period =
     (if lz_Team g = team \<and> orMonth (lz_Period g) = period then Some (mergeLease g (Mapping.lookup (windowsOf t team) period))
      else Mapping.lookup (windowsOf t team) period)"
  by (auto simp: addGrant_def windowsOf_def Let_def lookup_update' split: option.splits)

lemma set_meets: "isMeet (grantsFor team period gs) (Mapping.lookup (windowsOf (lt_set gs) team) period)"
proof (induction gs rule: rev_induct)
  case Nil
  then show ?case by (simp add: lt_set_def windowsOf_def grantsFor_def isMeet_def)
next
  case (snoc g gs)
  have "lt_set (gs @ [g]) = addGrant g (lt_set gs)" by (simp add: lt_set_def)
  then show ?case using snoc meet_snoc by (simp add: windows_addGrant grantsFor_def)
qed

lemma blocked_iff:
  "fst (blockedBy now es) \<longleftrightarrow>
     (\<exists>l. Some l \<in> set es \<and> le_HardCap l \<and> (now > le_ExpiresAt l \<or> le_AllowanceMicroUSD l \<le> 0))"
  by (induction es) (auto split: option.splits)

lemma Min_le_iff_list: "gs \<noteq> [] \<Longrightarrow> Min (f ` set gs) \<le> c \<longleftrightarrow> (\<exists>g \<in> set gs. f g \<le> c)" for f :: "LeaseGrant \<Rightarrow> int"
  by (subst Min_le_iff) auto

lemma Min_less_iff_list: "gs \<noteq> [] \<Longrightarrow> Min (f ` set gs) < c \<longleftrightarrow> (\<exists>g \<in> set gs. f g < c)" for f :: "LeaseGrant \<Rightarrow> int"
  by (subst Min_less_iff) auto

text \<open>
  The lease table is the most restrictive reading of the grants of one heartbeat, window
  by window. A window of a team has a lease exactly when it was granted one; its allowance
  and expiry are the least among the grants of that window, and it is hard if any of them
  is. The gate blocks a team exactly when, in one of its two windows, some grant is hard and
  some grant has expired or has no allowance left; so soft leases never block.
\<close>

lemma lease_table_most_restrictive:
  "isMeet (grantsFor team (orMonth period) gs) (lt_Get (lt_set gs) team period)
   \<and> (fst (lt_Blocked now (lt_set gs) team) \<longleftrightarrow>
       (\<exists>window \<in> {PeriodCalendarDay, PeriodCalendarMonth}.
          (\<exists>g \<in> set (grantsFor team window gs). lz_HardCap g) \<and>
          (\<exists>g \<in> set (grantsFor team window gs). now > lz_ExpiresAt g \<or> lz_AllowanceMicroUSD g \<le> 0)))"
proof
  show "isMeet (grantsFor team (orMonth period) gs) (lt_Get (lt_set gs) team period)"
    using set_meets by (simp add: lt_Get_def)
  have one: "(\<exists>l. Mapping.lookup (windowsOf (lt_set gs) team) window = Some l \<and> le_HardCap l
        \<and> (now > le_ExpiresAt l \<or> le_AllowanceMicroUSD l \<le> 0)) \<longleftrightarrow>
      (\<exists>g \<in> set (grantsFor team window gs). lz_HardCap g) \<and>
      (\<exists>g \<in> set (grantsFor team window gs). now > lz_ExpiresAt g \<or> lz_AllowanceMicroUSD g \<le> 0)" for window
    using set_meets [of team window gs]
    by (cases "grantsFor team window gs = []") (auto simp: isMeet_def Min_le_iff_list Min_less_iff_list split: option.splits)
  show "fst (lt_Blocked now (lt_set gs) team) \<longleftrightarrow>
       (\<exists>window \<in> {PeriodCalendarDay, PeriodCalendarMonth}.
          (\<exists>g \<in> set (grantsFor team window gs). lz_HardCap g) \<and>
          (\<exists>g \<in> set (grantsFor team window gs). now > lz_ExpiresAt g \<or> lz_AllowanceMicroUSD g \<le> 0))"
    unfolding lt_Blocked_def blocked_iff using one [of PeriodCalendarDay] one [of PeriodCalendarMonth] by auto
qed

section \<open>The cadence\<close>

lemma interval_values [simp]:
  "MinPolicySyncInterval = 15000000000" "DefaultPolicySyncInterval = 60000000000"
  by (simp_all add: MinPolicySyncInterval_def DefaultPolicySyncInterval_def Second_def)

lemma jitter_share:
  assumes "0 \<le> u" and "u < 1" and "0 \<le> d" and "d \<le> 2 ^ 53"
  shows "0 \<le> trunc (fl (fl (u * backoffJitter) * float_of_int d))"
    and "trunc (fl (fl (u * backoffJitter) * float_of_int d)) \<le> trunc (fl (fl (1 / 5) * of_int d))"
    and "trunc (fl (fl (1 / 5) * of_int d)) \<le> d"
proof -
  have d: "float_of_int d = of_int d" using assms by (simp add: float_of_int_def fl_int)
  have j: "0 \<le> backoffJitter" "backoffJitter \<le> 1" "fl backoffJitter = fl (1 / 5)" by code_simp+
  have low: "0 \<le> fl (u * backoffJitter)" using assms j by (intro ieee.rnd_nonneg) simp
  have "u * backoffJitter \<le> 1 * backoffJitter" using assms j by (intro mult_right_mono) simp_all
  then have high: "fl (u * backoffJitter) \<le> fl (1 / 5)" using fl_mono [of "u * backoffJitter" backoffJitter] j(3) by simp
  have one: "fl (1 / 5) \<le> 1" by code_simp
  have nn: "0 \<le> fl (fl (u * backoffJitter) * of_int d)" using low assms by (intro ieee.rnd_nonneg) simp
  then show "0 \<le> trunc (fl (fl (u * backoffJitter) * float_of_int d))" by (simp add: d trunc_def)
  have "fl (fl (u * backoffJitter) * of_int d) \<le> fl (fl (1 / 5) * of_int d)"
    by (rule fl_mono, rule mult_right_mono [OF high]) (use assms in simp)
  then show "trunc (fl (fl (u * backoffJitter) * float_of_int d)) \<le> trunc (fl (fl (1 / 5) * of_int d))"
    using nn by (auto simp: d trunc_def intro: floor_mono)
  have "fl (1 / 5) * of_int d \<le> of_int d" using one assms by (intro mult_left_le_one_le) (simp_all add: backoffJitter_def [symmetric] j)
  then have "fl (fl (1 / 5) * of_int d) \<le> of_int d" using assms by (intro ieee.rnd_le_int) simp_all
  then show "trunc (fl (fl (1 / 5) * of_int d)) \<le> d"
    using nn by (auto simp: trunc_def floor_le_iff) linarith
qed

lemma jitter_bounds:
  assumes "MinPolicySyncInterval \<le> d" and "d \<le> DefaultPolicySyncInterval" and "0 \<le> u" and "u < 1"
  shows "MinPolicySyncInterval \<le> jitter u d \<and> jitter u d \<le> d
    \<and> (d = DefaultPolicySyncInterval \<longrightarrow> 48 * Second \<le> jitter u d)"
proof -
  define x where "x = trunc (fl (fl (u * backoffJitter) * float_of_int d))"
  have x: "0 \<le> x" "x \<le> trunc (fl (fl (1 / 5) * of_int d))" "trunc (fl (fl (1 / 5) * of_int d)) \<le> d"
    using jitter_share [of u d] assms unfolding x_def by simp_all
  then have "sub64 d x = d - x" using assms by (intro sub64_exact) (simp add: in64_bounds)
  moreover have "trunc (fl (fl (1 / 5) * of_int 60000000000)) = 12000000000" by code_simp
  ultimately have share: "d = 60000000000 \<longrightarrow> x \<le> 12000000000" "sub64 d x = d - x" using x by auto
  have "jitter u d = max MinPolicySyncInterval (d - x)"
    unfolding jitter_def x_def [symmetric] Let_def share(2) by (simp add: max_def)
  then show ?thesis using x(1) share(1) assms(1,2) by (auto simp: Second_def)
qed

text \<open>
  The loop never hammers a degraded control plane and never falls silent. Whatever the
  previous interval was, even one whose doubling overflows, the interval after a failed
  heartbeat is between the protocol minimum of 15 seconds and the default of 60 seconds; it
  is at least 48 seconds once the previous one had reached half the ceiling; the jitter only
  shortens. After a successful heartbeat it is the cadence the control plane asked for, or
  the default when that is below one second.
\<close>

lemma retry_cadence_bounded:
  assumes "0 \<le> u" and "u < 1" and "tick u once prev s = (tr, s', next, err)"
  shows "(err \<noteq> None \<longrightarrow> MinPolicySyncInterval \<le> next \<and> next \<le> DefaultPolicySyncInterval
      \<and> (DefaultPolicySyncInterval \<le> 2 * prev \<and> 2 * prev \<le> MaxInt64 \<longrightarrow> 48 * Second \<le> next))
    \<and> (err = None \<longrightarrow> once s = (tr, s', Inr next))"
proof -
  have b: "MinPolicySyncInterval \<le> backoff u prev \<and> backoff u prev \<le> DefaultPolicySyncInterval
      \<and> (DefaultPolicySyncInterval \<le> 2 * prev \<and> 2 * prev \<le> MaxInt64 \<longrightarrow> 48 * Second \<le> backoff u prev)"
  proof -
    define c where "c = (let b = mul64 prev 2; b = (if b < MinPolicySyncInterval then MinPolicySyncInterval else b)
      in if b > DefaultPolicySyncInterval then DefaultPolicySyncInterval else b)"
    have c: "MinPolicySyncInterval \<le> c" "c \<le> DefaultPolicySyncInterval" by (simp_all add: c_def Let_def)
    have "mul64 prev 2 = prev * 2" if "DefaultPolicySyncInterval \<le> 2 * prev" "2 * prev \<le> MaxInt64"
      using that by (intro mul64_exact) (simp add: in64_bounds)
    then have "DefaultPolicySyncInterval \<le> 2 * prev \<and> 2 * prev \<le> MaxInt64 \<longrightarrow> c = DefaultPolicySyncInterval"
      by (auto simp: c_def Let_def)
    then show ?thesis using jitter_bounds [OF c assms(1,2)] c unfolding backoff_def c_def [symmetric] Let_def
      by (auto simp: c_def Let_def)
  qed
  then show ?thesis using assms(3) by (auto simp: tick_def split: prod.splits sum.splits)
qed

definition freshSyncer :: "'w \<Rightarrow> 'w Syncer" where
  "freshSyncer w = \<lparr>sy_authorityInvalid = False, sy_Dataplane = ''dp1'', sy_Store = NewEmptyStore, sy_Leases = Some NewLeaseTable,
     sy_Tiers = Some NewTierTable, sy_generation = [], sy_pending = [], sy_lastSuccess = 0, sy_world = w\<rparr>"

section \<open>Readiness and coherence\<close>

lemma clean_distribution:
  assumes "ApplyWire gen docs s = (s', [])"
  shows "\<exists>snap. po_snap s' = Some snap \<and> sn_generation snap = gen docs
    \<and> (\<forall>p. p \<in> set (sn_policies snap) \<longleftrightarrow> (\<exists>d \<in> set docs. FromV1Alpha1 d = Inr p))"
proof -
  obtain snap where snap: "po_snap s' = Some snap" "sn_generation snap = gen docs"
    "\<forall>p. p \<in> set (sn_policies snap) \<longleftrightarrow> acceptedPolicy s docs p"
    "\<forall>n. named n docs \<noteq> [] \<longrightarrow> settledName s docs n"
    by (rule distribution_outcome [of gen docs s]) (use assms in auto)
  have converted: "enforceDoc s d = Inr p \<Longrightarrow> FromV1Alpha1 d = Inr p" for d p
    by (auto simp: enforceDoc_def split: sum.splits option.splits)
  have "acceptedPolicy s docs p \<longleftrightarrow> (\<exists>d \<in> set docs. FromV1Alpha1 d = Inr p)" for p
  proof
    assume "acceptedPolicy s docs p"
    then show "\<exists>d \<in> set docs. FromV1Alpha1 d = Inr p" using converted by (fastforce simp: acceptedPolicy_def find_Some_iff)
  next
    assume "\<exists>d \<in> set docs. FromV1Alpha1 d = Inr p"
    then obtain d where d: "d \<in> set docs" "FromV1Alpha1 d = Inr p" by blast
    then have listed: "d \<in> set (named (docName d) docs)" by simp
    then have "settledName s docs (docName d)" using snap(4) by (metis list.set(1) empty_iff)
    then obtain d' p' where settled: "docName d \<noteq> []" "named (docName d) docs = [d']" "enforceDoc s d' = Inr p'"
      by (auto simp: settledName_def)
    moreover have "d = d'" using listed unfolding settled(2) by simp
    ultimately have one: "docName d \<noteq> []" "named (docName d) docs = [d]" "enforceDoc s d = Inr p'" by simp_all
    then have "p' = p" "p_Name p = docName d" using converted d enforced_identity(1) by fastforce+
    then show "acceptedPolicy s docs p" using one by (simp add: acceptedPolicy_def find_named)
  qed
  then show ?thesis using snap(1-3) by blast
qed

text \<open>
  The interface of the authority client as the syncer relies on it: \<open>installed w r\<close> says that
  the state \<open>w\<close> enforces the budgets of the bundle \<open>r\<close>. Asking for a request does not disturb
  what is installed, and an accepted bundle is installed, from every wellformed state.
\<close>

locale authority_client =
  fixes client :: "'w AuthorityClient"
    and installed :: "'w \<Rightarrow> AuthorityWire \<Rightarrow> bool"
    and wellformed :: "'w \<Rightarrow> bool"
  assumes request_keeps: "installed w r \<Longrightarrow> installed (fst (ac_Request client w)) r"
    and apply_installs: "wellformed w \<Longrightarrow> ac_Apply client r rtt w = (w', True) \<Longrightarrow> installed w' r"
    and request_wellformed: "wellformed w \<Longrightarrow> wellformed (fst (ac_Request client w))"
    and apply_wellformed: "wellformed w \<Longrightarrow> wellformed (fst (ac_Apply client r rtt w))"
begin

text \<open>The policies a plane enforces are those of a r that its authority has installed.\<close>

definition coherent :: "(string list \<Rightarrow> string) \<Rightarrow> (PolicyBudget \<Rightarrow> string \<Rightarrow> string) \<Rightarrow> (GovernancePolicy list \<Rightarrow> string) \<Rightarrow> 'w Syncer \<Rightarrow> bool" where
  "coherent hs hb gen s \<longleftrightarrow>
     (\<exists>r docs snap. ValidateAuthorityBundle hs hb gen (Some (bundleOf r)) = None \<and> aw_Policies r = Some docs
        \<and> po_snap (sy_Store s) = Some snap \<and> sn_generation snap = gen docs
        \<and> (\<forall>p. p \<in> set (sn_policies snap) \<longleftrightarrow> (\<exists>d \<in> set docs. FromV1Alpha1 d = Inr p))
        \<and> installed (sy_world s) r)"

definition sound :: "(string list \<Rightarrow> string) \<Rightarrow> (PolicyBudget \<Rightarrow> string \<Rightarrow> string) \<Rightarrow> (GovernancePolicy list \<Rightarrow> string) \<Rightarrow> 'w Syncer \<Rightarrow> bool" where
  "sound hs hb gen s \<longleftrightarrow>
     wellformed (sy_world s) \<and> (sy_authorityInvalid s \<or> sy_lastSuccess s = 0 \<or> coherent hs hb gen s)"

lemma sound_world: "sound hs hb gen s \<Longrightarrow> sound hs hb gen (s\<lparr>sy_world := fst (ac_Request client (sy_world s))\<rparr>)"
  unfolding sound_def coherent_def using request_keeps request_wellformed by simp blast

lemma publish_sound:
  assumes "sy_authorityInvalid s" and "installed (sy_world s) r" and "wellformed (sy_world s)" and "aw_Policies r = Some docs"
    and "ValidateAuthorityBundle hs hb gen (Some (bundleOf r)) = None"
    and "publish gen done_at True resp (Some docs) s = (tr, s', out)"
  shows "\<forall>t \<in> set (tr @ [s']). sound hs hb gen t"
proof -
  obtain store rejected where A: "ApplyWire gen docs (sy_Store s) = (store, rejected)" by fastforce
  define s2 where "s2 = s\<lparr>sy_Store := store, sy_pending := rejected, sy_generation := wr_Generation resp\<rparr>"
  show ?thesis
  proof (cases "rejected = []")
    case True
    have "\<exists>snap. po_snap store = Some snap \<and> sn_generation snap = gen docs
      \<and> (\<forall>p. p \<in> set (sn_policies snap) \<longleftrightarrow> (\<exists>d \<in> set docs. FromV1Alpha1 d = Inr p))"
      using clean_distribution A True by simp
    then have "coherent hs hb gen t" if "sy_Store t = store" "sy_world t = sy_world s" for t
      unfolding coherent_def that using assms(2,4,5) by blast
    then show ?thesis
      using assms(1,3,6) A True by (auto simp: publish_def finishSync_def Let_def sound_def)
  next
    case False
    then show ?thesis using assms(1,3,6) A by (auto simp: publish_def Let_def sound_def)
  qed
qed

lemma receive_sound:
  assumes "sound hs hb gen s" and "receive hs hb gen rtt done_at (Some client) resp s = (tr, s', out)"
  shows "\<forall>t \<in> set (tr @ [s']). sound hs hb gen t"
proof (cases "bundleRefused hs hb gen resp")
  case True
  then show ?thesis using assms by (auto simp: receive_def sound_def)
next
  case False
  then obtain r where r: "wr_Authority resp = Some r" "ValidateAuthorityBundle hs hb gen (Some (bundleOf r)) = None"
    by (auto simp: bundleRefused_def split: option.splits)
  then obtain docs where docs: "aw_Policies r = Some docs"
    by (auto simp: ValidateAuthorityBundle_def bundleOf_def split: option.splits)
  obtain w accepted where A: "ac_Apply client r rtt (sy_world s) = (w, accepted)" by fastforce
  have wf: "wellformed (sy_world s)" "wellformed w"
    using assms(1) apply_wellformed [of "sy_world s" r rtt] A by (simp_all add: sound_def)
  show ?thesis
  proof (cases accepted)
    case True
    define s2 where "s2 = s\<lparr>sy_authorityInvalid := True, sy_world := w\<rparr>"
    have down: "sound hs hb gen (s\<lparr>sy_authorityInvalid := True\<rparr>)" "sound hs hb gen s2"
      using wf by (simp_all add: sound_def s2_def)
    obtain tr2 out2 where p: "publish gen done_at True resp (Some docs) s2 = (tr2, out2)" by (metis surj_pair)
    have "\<forall>t \<in> set (tr2 @ [fst out2]). sound hs hb gen t"
      by (rule publish_sound [OF _ _ _ docs r(2), of s2 done_at resp _ "fst out2" "snd out2"])
        (use apply_installs wf A True p in \<open>simp_all add: s2_def\<close>)
    then show ?thesis
      using assms(2) False r A True docs p down
      by (auto simp: receive_def Let_def s2_def [symmetric])
  next
    case False
    then show ?thesis using assms \<open>\<not> bundleRefused hs hb gen resp\<close> r A wf by (auto simp: receive_def Let_def sound_def)
  qed
qed

lemma sync_sound:
  assumes "sound hs hb gen s" and "syncOnce hs hb gen rtt done_at spentOf (Some client) http s = (tr, s', out)"
  shows "\<forall>t \<in> set (tr @ [s']). sound hs hb gen t"
proof -
  define s1 where "s1 = s\<lparr>sy_world := fst (ac_Request client (sy_world s))\<rparr>"
  have s1: "sound hs hb gen s1" unfolding s1_def using assms(1) by (rule sound_world)
  have down: "sound hs hb gen (s1\<lparr>sy_authorityInvalid := True\<rparr>)" using s1 by (simp add: sound_def)
  obtain w request where R: "ac_Request client (sy_world s) = (w, request)" by fastforce
  have exchange: "\<forall>t \<in> set (tr @ [s']). sound hs hb gen t"
    if "exchange hs hb gen rtt done_at (Some client) outcome s1 = (tr, s', out)" for outcome tr s' out
    using that s1 down receive_sound [OF s1] by (auto simp: exchange_def split: http_outcome.splits option.splits)
  show ?thesis
  proof (cases request)
    case None
    then show ?thesis using assms(2) s1 R by (auto simp: syncOnce_def authorityRequest_def s1_def)
  next
    case (Some req)
    then have a: "authorityRequest (Some client) (sy_world s) = (w, Inr (Some req))" using R by (simp add: authorityRequest_def)
    have w: "s\<lparr>sy_world := w\<rparr> = s1" using R by (simp add: s1_def)
    show ?thesis
    proof (cases "Policies (sy_Store s1)")
      case None
      then show ?thesis using assms(2) s1 by (auto simp: syncOnce_def a w Let_def)
    next
      case (Some policies)
      then show ?thesis
        using assms(2) s1 exchange by (auto simp: syncOnce_def a w Let_def split: prod.splits)
    qed
  qed
qed

end

section \<open>The two clients\<close>

text \<open>What the journal holds is keyed by the budgets of the bundle.\<close>

definition journalHolds :: "World \<Rightarrow> AuthorityWire \<Rightarrow> bool" where
  "journalHolds w r \<longleftrightarrow>
     (\<forall>k b. Mapping.lookup (j_Budgets (db_state (w_db w))) k = Some b \<longleftrightarrow> b \<in> set (sliceOf (aw_Budgets r)) \<and> ab_Key b = k)"

lemma onGrant_budgets: "onGrant f gid j = Inr j' \<Longrightarrow> j_Budgets j' = j_Budgets j"
  by (auto simp: onGrant_def split: option.splits sum.splits)

lemma onGrants_budgets: "foldE (\<lambda>gid. onGrant (f gid) gid) gids j = Inr j' \<Longrightarrow> j_Budgets j' = j_Budgets j"
  by (rule foldE_invariant [where P = "\<lambda>x. j_Budgets x = j_Budgets j"]) (auto dest: onGrant_budgets)

lemma closeInactive_budgets: "closeInactive s now j = Inr j' \<Longrightarrow> j_Budgets j' = j_Budgets j"
  unfolding closeInactive_def by (rule foldE_invariant [where P = "\<lambda>x. j_Budgets x = j_Budgets j"]) (auto dest: onGrant_budgets)

lemma transaction_budgets:
  assumes "transaction fp io fn w = (w', res)" and "\<And>j j' r. fn j = Inr (j', r) \<Longrightarrow> j_Budgets j' = j_Budgets j"
  shows "j_Budgets (db_state (w_db w')) = j_Budgets (db_state (w_db w))"
  using assms(1)
  by (auto simp: transaction_def storageError_def decode_def Let_def collect_frame assms(2) split: if_splits option.splits storage.splits sum.splits)

lemma fold_budgets:
  assumes "\<And>x st. j_Budgets (fst (step x st)) = j_Budgets (fst st)"
  shows "j_Budgets (fst (fold step xs st)) = j_Budgets (fst st)"
  by (induction xs arbitrary: st) (simp_all add: assms)

lemma requestBody_budgets:
  assumes "requestBody s now j = Inr (j', req)"
  shows "j_Budgets j' = j_Budgets j"
proof -
  have steps: "j_Budgets (fst (requestStep s rid st)) = j_Budgets (fst st)" "j_Budgets (fst (reportStep gid st')) = j_Budgets (fst st')"
      "j_Budgets (fst (meterStep mid st'')) = j_Budgets (fst st'')" for rid gid mid st st' st''
    by (auto simp: requestStep_def reportStep_def meterStep_def split: prod.splits option.splits if_splits)
  obtain j1 j2 reqs j3 reports j4 meters where
    "closeInactive s now j = Inr j1"
    "fold (requestStep s) (rotatingKeys (j_Requests j1) (j_RequestCursor j1)) (j1, []) = (j2, reqs)"
    "fold reportStep (rotatingKeys (j_Grants j2) (j_ReportCursor j2)) (j2, []) = (j3, reports)"
    "fold meterStep (rotatingKeys (j_Meters j3) (j_MeterCursor j3)) (j3, []) = (j4, meters)" "j' = j4"
    using assms by (auto simp: requestBody_def split: sum.splits prod.splits)
  then show ?thesis
    using closeInactive_budgets fold_budgets [of "requestStep s"] fold_budgets [of reportStep] fold_budgets [of meterStep] steps
    by (metis fst_conv)
qed

lemma installed_budgets:
  assumes "installSnapshot received rtt r budgets ws j = Inr (j', ws', False)" and "finite (Mapping.keys (j_Budgets j))"
    and "finite (Mapping.keys budgets)"
  shows "j_Budgets j' = budgets"
proof (cases "\<not> j_Ready j \<or> as_ServerTime r > j_ServerTime j")
  case True
  then show ?thesis using assms(1) by (auto simp: installSnapshot_def Let_def split: if_splits)
next
  case False
  then have same: "j' = j" "equalBudgets (j_Budgets j) budgets" using assms(1) by (auto simp: installSnapshot_def Let_def split: if_splits)
  have entries: "Mapping.lookup budgets k = Some b" if "Mapping.lookup (j_Budgets j) k = Some b" for k b
  proof -
    have "k \<in> set (Mapping.ordered_keys (j_Budgets j))" using that assms(2) by (simp add: lookup_in_keys)
    then show ?thesis using same(2) that by (fastforce simp: equalBudgets_def all_entries_def list_all_iff)
  qed
  then have "Mapping.keys (j_Budgets j) \<subseteq> Mapping.keys budgets" by (fastforce simp: keys_lookup)
  then have "Mapping.keys (j_Budgets j) = Mapping.keys budgets"
    using same(2) assms(3) by (simp add: equalBudgets_def size_card card_subset_eq)
  then have "Mapping.lookup (j_Budgets j) k = Mapping.lookup budgets k" for k
    using entries [of k] keys_lookup [of k] by (cases "Mapping.lookup (j_Budgets j) k") force+
  then show ?thesis using same(1) by (simp add: mapping_eqI)
qed

lemma validated_budgets:
  assumes "validateBudgetsFrom t bs ws res = Inr budgets"
  shows "Mapping.lookup budgets k = Some b \<longleftrightarrow> Mapping.lookup res k = Some b \<or> b \<in> set bs \<and> ab_Key b = k"
  using assms
proof (induction bs arbitrary: ws res)
  case (Cons c bs)
  then have "Mapping.lookup res (ab_Key c) = None"
    "validateBudgetsFrom t bs (ab_WindowID c # ws) (Mapping.update (ab_Key c) c res) = Inr budgets"
    by (simp_all split: if_splits)
  then show ?case using Cons.IH by (auto simp: lookup_update')
qed simp

lemma applyBody_budgets:
  assumes "applyBody fp s received rtt r budgets j = Inr (j', stale', ds, ws)"
  obtains j1 ws1 where "installSnapshot received rtt r budgets (st_windows s) j = Inr (j1, ws1, stale')" "j_Budgets j' = j_Budgets j1"
proof -
  obtain j1 ws1 stale where 1: "installSnapshot received rtt r budgets (st_windows s) j = Inr (j1, ws1, stale)"
    using assms by (cases "installSnapshot received rtt r budgets (st_windows s) j") (auto simp: applyBody_def)
  define a0 where "a0 = \<lparr>aa_j = j1, aa_deadlines = st_deadlines s, aa_seen = [], aa_ids = []\<rparr>"
  note A = assms [unfolded applyBody_def 1 sum.case prod.case a0_def [symmetric]]
  obtain a1 where 2: "foldE (applyGrant fp s stale received (as_ServerTime r) rtt) (as_Grants r) a0 = Inr a1"
    using A by (cases "foldE (applyGrant fp s stale received (as_ServerTime r) rtt) (as_Grants r) a0") simp_all
  obtain a2 where 3: "foldE (applyDenial stale) (as_Denied r) a1 = Inr a2"
    using A unfolding 2 by (cases "foldE (applyDenial stale) (as_Denied r) a1") simp_all
  obtain j3 where 4: "applyAcks r (aa_j a2) = Inr j3"
    using A unfolding 2 sum.case 3 by (cases "applyAcks r (aa_j a2)") simp_all
  have 5: "foldE (\<lambda>gid. onGrant (closeStale received (aa_deadlines a2) (j_Budgets (markObsolete j3)) gid) gid)
        (Mapping.ordered_keys (j_Grants (markObsolete j3))) (markObsolete j3) = Inr j'" and 6: "stale' = stale"
    using A unfolding 2 3 4 sum.case Let_def by (simp_all split: sum.splits)
  have "j_Budgets (aa_j a1) = j_Budgets j1"
    by (rule foldE_invariant [OF 2, where P = "\<lambda>a. j_Budgets (aa_j a) = j_Budgets j1"])
      (auto simp: applyGrant_def newGrant_def Let_def a0_def split: if_splits option.splits)
  moreover have "j_Budgets (aa_j a2) = j_Budgets (aa_j a1)"
    by (rule foldE_invariant [OF 3, where P = "\<lambda>a. j_Budgets (aa_j a) = j_Budgets (aa_j a1)"])
      (auto simp: applyDenial_def Let_def split: if_splits option.splits)
  moreover have "j_Budgets j3 = j_Budgets (aa_j a2)"
  proof -
    obtain j4 s1 s2 where r: "foldE applyReportAck (as_ReportAcks r) (aa_j a2, []) = Inr (j4, s1)"
      and m: "foldE applyMeterAck (as_MeterAcks r) (j4, []) = Inr (j3, s2)"
      using 4 by (auto simp: applyAcks_def split: sum.splits prod.splits)
    have "j_Budgets (fst (j4, s1)) = j_Budgets (aa_j a2)"
      by (rule foldE_invariant [OF r, where P = "\<lambda>a. j_Budgets (fst a) = j_Budgets (aa_j a2)"])
        (auto simp: applyReportAck_def Let_def split: if_splits option.splits list.splits prod.splits)
    moreover have "j_Budgets (fst (j3, s2)) = j_Budgets j4"
      by (rule foldE_invariant [OF m, where P = "\<lambda>a. j_Budgets (fst a) = j_Budgets j4"])
        (auto simp: applyMeterAck_def Let_def split: if_splits option.splits list.splits prod.splits)
    ultimately show ?thesis by simp
  qed
  moreover have "j_Budgets j' = j_Budgets (markObsolete j3)" using onGrants_budgets [OF 5] .
  ultimately show thesis using that 1 6 by (simp add: markObsolete_def)
qed

definition journalFinite :: "World \<Rightarrow> bool" where
  "journalFinite w \<longleftrightarrow> finite (Mapping.keys (j_Budgets (db_state (w_db w))))"

lemma request_budgets: "j_Budgets (db_state (w_db (fst (Request fp io now w)))) = j_Budgets (db_state (w_db w))"
  by (rule transaction_budgets [OF Request_transaction]) (rule requestBody_budgets)

lemma committed_apply:
  assumes "transaction fp io (applyBody fp s received rtt r budgets) w = (w', Inr (stale, ds, ws))" and "journalFinite w"
    and "validateBudgets r = Inr budgets"
  shows "journalFinite w' \<and> (\<not> stale \<longrightarrow> j_Budgets (db_state (w_db w')) = budgets)"
proof -
  obtain j' where body: "applyBody fp s received rtt r budgets (db_state (w_db w)) = Inr (j', stale, ds, ws)"
    and w': "j_Budgets (db_state (w_db w')) = j_Budgets j'"
    using assms(1)
    by (auto simp: transaction_def storageError_def decode_def Let_def collect_frame
        split: if_splits option.splits storage.splits sum.splits)
  obtain j1 ws1 where snap: "installSnapshot received rtt r budgets (st_windows s) (db_state (w_db w)) = Inr (j1, ws1, stale)"
    "j_Budgets j' = j_Budgets j1" using applyBody_budgets [OF body] .
  have fin: "finite (Mapping.keys budgets)"
    using validateBudgets_keys [OF assms(3) [unfolded validateBudgets_def]] by simp
  have "j_Budgets j1 = j_Budgets (db_state (w_db w)) \<or> j_Budgets j1 = budgets"
    using snap(1) by (auto simp: installSnapshot_def Let_def split: if_splits)
  moreover have "j_Budgets j1 = budgets" if "\<not> stale"
    using installed_budgets [of received rtt r budgets "st_windows s"] snap(1) that assms(2) fin by (auto simp: journalFinite_def)
  ultimately show ?thesis using w' snap(2) fin assms(2) by (auto simp: journalFinite_def)
qed

lemma apply_budgets:
  assumes "Apply fp io received r rtt w = (w', err)" and "journalFinite w"
  shows "journalFinite w' \<and> (err = None \<longrightarrow> (\<exists>budgets. validateBudgets r = Inr budgets \<and> j_Budgets (db_state (w_db w')) = budgets))"
proof (cases "validateBudgets r")
  case (Inl e)
  then show ?thesis using assms by (auto simp: Apply_def split: if_splits)
next
  case (Inr budgets)
  obtain w1 r1 where t: "transaction fp io (applyBody fp (w_store w) received rtt r budgets) w = (w1, r1)" by fastforce
  show ?thesis
  proof (cases r1)
    case failed: (Inl e)
    have "w_db w1 = w_db w" using transaction_fails [OF t [unfolded failed]] by simp
    then show ?thesis using assms Inr t failed by (auto simp: Apply_def journalFinite_def split: if_splits)
  next
    case committed: (Inr x)
    obtain stale ds ws where x: "x = (stale, ds, ws)" by (metis prod.exhaust)
    note c = committed_apply [OF t [unfolded committed x] assms(2) Inr]
    then show ?thesis using assms Inr t committed x by (auto simp: Apply_def journalFinite_def split: if_splits)
  qed
qed

lemma escrow_apply:
  assumes "journalFinite w" and "ac_Apply (escrowClient fp io io' now received) r rtt w = (w', ok)"
  shows "journalFinite w' \<and> (ok \<longrightarrow> journalHolds w' r)"
proof -
  obtain err where A: "Apply fp io' received (responseOf r) rtt w = (w', err)" "ok \<longleftrightarrow> err = None"
    using assms(2) by (auto simp: escrowClient_def split: prod.splits)
  note outcome = apply_budgets [OF A(1) assms(1)]
  have "journalHolds w' r" if ok
    using outcome A(2) that validated_budgets [of _ _ "[]" Mapping.empty]
    by (auto simp: journalHolds_def validateBudgets_def responseOf_def)
  then show ?thesis using outcome by simp
qed

lemma escrow_request: "fst (ac_Request (escrowClient fp io io' now received) w) = fst (Request fp io now w)"
  by (auto simp: escrowClient_def split: prod.splits sum.splits)

interpretation escrow: authority_client "escrowClient fp io io' now received" journalHolds journalFinite for fp io io' now received
proof
  show "journalHolds (fst (ac_Request (escrowClient fp io io' now received) w)) r" if "journalHolds w r" for w r
    using that by (simp add: escrow_request journalHolds_def request_budgets)
  show "journalHolds w' r" if "journalFinite w" "ac_Apply (escrowClient fp io io' now received) r rtt w = (w', True)" for w r rtt w'
    using escrow_apply [OF that] by simp
  show "journalFinite (fst (ac_Request (escrowClient fp io io' now received) w))" if "journalFinite w" for w
    using that by (simp add: escrow_request journalFinite_def request_budgets)
  show "journalFinite (fst (ac_Apply (escrowClient fp io io' now received) r rtt w))" if "journalFinite w" for w r rtt
    using escrow_apply [OF that, of fp io io' now received r rtt] by (metis fst_conv surj_pair)
qed

text \<open>The shared gateway is bound to the namespace and the generation of the bundle.\<close>

interpretation shared: authority_client "sharedClient hs hb gen inst binding"
  "\<lambda>w r. binding w = Some (aw_AuthorityID r, aw_Generation r)" "\<lambda>w. True" for hs hb gen inst binding
  by unfold_locales (auto simp: sharedClient_def shared_Apply_def split: if_splits option.splits)

section \<open>A data plane in operation\<close>

lemma pick_budgets: "pickGrant s b now bound gids j = Inr (j', r) \<Longrightarrow> j_Budgets j' = j_Budgets j"
  by (induction gids arbitrary: j) (auto simp: Let_def split: option.splits if_splits sum.splits)

lemma queue_budgets: "queue s b bound ns j = Inr (j', r) \<Longrightarrow> j_Budgets j' = j_Budgets j"
  by (auto simp: queue_def Let_def split: option.splits sum.splits prod.splits)

lemma reserveBudget_budgets: "reserveBudget s subject bound now key a = Inr a' \<Longrightarrow> j_Budgets (ra_j a') = j_Budgets (ra_j a)"
  by (auto simp: reserveBudget_def Let_def split: option.splits if_splits sum.splits prod.splits dest!: pick_budgets queue_budgets)

lemma reserveBody_budgets:
  assumes "reserveBody s subject bound now ns j = Inr (j', r)"
  shows "j_Budgets j' = j_Budgets j"
proof -
  obtain j1 a where j1: "closeInactive s now j = Inr j1"
    and a: "foldE (reserveBudget s subject bound now) (Mapping.ordered_keys (j_Budgets j1))
       \<lparr>ra_j = j1, ra_ns = ns, ra_chosen = [], ra_soft = [], ra_denied = None, ra_expires = 0\<rparr> = Inr a"
    and res: "j' = ra_j a \<or> (\<exists>p. issuePermit s bound a = Inr (j', p))"
    using assms by (auto simp: reserveBody_def split: if_splits sum.splits option.splits prod.splits)
  have "j_Budgets (ra_j a) = j_Budgets j1"
    by (rule foldE_invariant [OF a, where P = "\<lambda>a. j_Budgets (ra_j a) = j_Budgets j1"]) (auto dest: reserveBudget_budgets)
  moreover have "j_Budgets j' = j_Budgets (ra_j a)"
    using res onGrants_budgets [of "\<lambda>gid. reserveGrant bound"]
    by (auto simp: issuePermit_def Let_def split: sum.splits prod.splits)
  ultimately show ?thesis using closeInactive_budgets [OF j1] by simp
qed

lemma undoBody_budgets: "undoBody s pid now j = Inr (j', r) \<Longrightarrow> j_Budgets j' = j_Budgets j"
  by (auto simp: undoBody_def split: option.splits if_splits sum.splits
      dest!: closeInactive_budgets onGrants_budgets [of "\<lambda>gid. releaseGrant b" for b])

lemma finishBody_budgets: "finishBody s auth actual final now j = Inr (j', r) \<Longrightarrow> j_Budgets j' = j_Budgets j"
  by (auto simp: finishBody_def Let_def poisonJournal_def settleMeters_sel
      split: option.splits if_splits sum.splits prod.splits settle_check.splits
      dest!: closeInactive_budgets onGrants_budgets [of "\<lambda>gid. settleGrant b c d e" for b c d e])

lemma reserve_budgets: "j_Budgets (db_state (w_db (fst (Reserve fp io clk ns subject bound w)))) = j_Budgets (db_state (w_db w))"
proof -
  obtain w' res where R: "Reserve fp io clk ns subject bound w = (w', res)" by fastforce
  then have "j_Budgets (db_state (w_db w')) = j_Budgets (db_state (w_db w))"
  proof (cases rule: Reserve_outcome)
    case (2 io1 now r)
    show ?thesis using transaction_budgets [OF 2(2)] reserveBody_budgets by blast
  next
    case (3 io1 io2 now now3 w1 r p r2)
    show ?thesis
      using transaction_budgets [OF 3(2)] transaction_budgets [OF 3(3)] reserveBody_budgets undoBody_budgets by metis
  qed simp
  then show ?thesis using R by simp
qed

lemma finish_budgets: "j_Budgets (db_state (w_db (fst (Finish fp io now authorization actual final w)))) = j_Budgets (db_state (w_db w))"
proof -
  obtain w' res where R: "Finish fp io now authorization actual final w = (w', res)" by fastforce
  then have "j_Budgets (db_state (w_db w')) = j_Budgets (db_state (w_db w))"
  proof (cases rule: Finish_outcome)
    case (2 auth c r)
    show ?thesis using transaction_budgets [OF 2] finishBody_budgets by blast
  qed simp
  then show ?thesis using R by simp
qed

text \<open>
  A plane with a durable journal: booted, then synchronizing with any outcome and any clock,
  and serving requests. Between two synchronizations it rests in the last state; a request
  may also read any of the states a synchronization publishes on the way.
\<close>

inductive plane_run ::
  "(string list \<Rightarrow> string) \<Rightarrow> (PolicyBudget \<Rightarrow> string \<Rightarrow> string) \<Rightarrow> (GovernancePolicy list \<Rightarrow> string) \<Rightarrow> (AuthorityGrant \<Rightarrow> string) \<Rightarrow>
   World Syncer \<Rightarrow> bool" for hs hb gen fp where
  boot: "sy_lastSuccess s = 0 \<Longrightarrow> journalFinite (sy_world s) \<Longrightarrow> plane_run hs hb gen fp s"
| sync: "plane_run hs hb gen fp s \<Longrightarrow>
    syncOnce hs hb gen rtt t spentOf (Some (escrowClient fp io io' now received)) http s = (tr, s', out) \<Longrightarrow> plane_run hs hb gen fp s'"
| reserve: "plane_run hs hb gen fp s \<Longrightarrow>
    plane_run hs hb gen fp (s\<lparr>sy_world := fst (Reserve fp io2 clk ns subject bound (sy_world s))\<rparr>)"
| finish: "plane_run hs hb gen fp s \<Longrightarrow>
    plane_run hs hb gen fp (s\<lparr>sy_world := fst (Finish fp io now authorization actual final (sy_world s))\<rparr>)"

inductive plane_visible ::
  "(string list \<Rightarrow> string) \<Rightarrow> (PolicyBudget \<Rightarrow> string \<Rightarrow> string) \<Rightarrow> (GovernancePolicy list \<Rightarrow> string) \<Rightarrow> (AuthorityGrant \<Rightarrow> string) \<Rightarrow>
   World Syncer \<Rightarrow> bool" for hs hb gen fp where
  resting: "plane_run hs hb gen fp s \<Longrightarrow> plane_visible hs hb gen fp s"
| during: "plane_run hs hb gen fp s0 \<Longrightarrow>
    syncOnce hs hb gen rtt t spentOf (Some (escrowClient fp io io' now received)) http s0 = (tr, s', out) \<Longrightarrow>
    s \<in> set tr \<Longrightarrow> plane_visible hs hb gen fp s"

lemma sound_same_budgets:
  assumes "escrow.sound hs hb gen s" and "j_Budgets (db_state (w_db w)) = j_Budgets (db_state (w_db (sy_world s)))"
  shows "escrow.sound hs hb gen (s\<lparr>sy_world := w\<rparr>)"
  using assms by (simp add: escrow.sound_def escrow.coherent_def journalHolds_def journalFinite_def)

lemma run_sound: "plane_run hs hb gen fp s \<Longrightarrow> escrow.sound hs hb gen s"
proof (induction rule: plane_run.induct)
  case (boot s)
  then show ?case by (simp add: escrow.sound_def)
next
  case (sync s rtt t spentOf io io' now received http tr s' out)
  show ?case using escrow.sync_sound [OF sync.IH sync.hyps(2)] by simp
next
  case (reserve s)
  then show ?case by (intro sound_same_budgets) (simp_all add: reserve_budgets)
next
  case (finish s)
  then show ?case by (intro sound_same_budgets) (simp_all add: finish_budgets)
qed

lemma visible_sound: "plane_visible hs hb gen fp s \<Longrightarrow> escrow.sound hs hb gen s"
proof (induction rule: plane_visible.induct)
  case (during s0 rtt t spentOf io io' now received http tr s' out s)
  then show ?case using escrow.sync_sound [OF run_sound [OF during(1)] during(2)] by simp
qed (rule run_sound)

lemma validated_bundle:
  assumes "ValidateAuthorityBundle hs hb gen (Some (bundleOf r)) = None" and "aw_Policies r = Some docs"
  shows "\<exists>budgets. AuthorityBudgets hs hb docs (aw_ServerTime r) = Inr budgets \<and> set budgets = set (sliceOf (aw_Budgets r))"
  using assms by (fastforce simp: ValidateAuthorityBundle_def bundleOf_def sliceOf_def split: option.splits if_splits sum.splits)

text \<open>
  C14: the readiness gate of a plane with a durable journal never opens on half a bundle. In
  every state a request can observe, at rest or in the middle of a synchronization, after
  any sequence of successful, failed, refused, malformed and stale heartbeats: when the gate
  admits governed traffic, the policies in force are all the documents of one generation,
  none of them rejected, and the budgets against which the journal reserves are exactly the
  budgets those documents define.
\<close>

theorem ready_plane_coherent:
  assumes "plane_visible hs hb gen fp s" and "GovernanceReady now maxAge s = GateReady"
  shows "\<exists>docs snap time budgets. po_snap (sy_Store s) = Some snap \<and> sn_generation snap = gen docs
    \<and> (\<forall>p. p \<in> set (sn_policies snap) \<longleftrightarrow> (\<exists>d \<in> set docs. FromV1Alpha1 d = Inr p))
    \<and> AuthorityBudgets hs hb docs time = Inr budgets
    \<and> (\<forall>k b. Mapping.lookup (j_Budgets (db_state (w_db (sy_world s)))) k = Some b \<longleftrightarrow> b \<in> set budgets \<and> ab_Key b = k)"
proof -
  have "escrow.coherent hs hb gen s"
    using visible_sound [OF assms(1)] assms(2) by (auto simp: escrow.sound_def GovernanceReady_def split: if_splits)
  then obtain r docs snap where r: "ValidateAuthorityBundle hs hb gen (Some (bundleOf r)) = None" "aw_Policies r = Some docs"
      "po_snap (sy_Store s) = Some snap" "sn_generation snap = gen docs"
      "\<forall>p. p \<in> set (sn_policies snap) \<longleftrightarrow> (\<exists>d \<in> set docs. FromV1Alpha1 d = Inr p)" "journalHolds (sy_world s) r"
    unfolding escrow.coherent_def by blast
  obtain budgets where b: "AuthorityBudgets hs hb docs (aw_ServerTime r) = Inr budgets" "set budgets = set (sliceOf (aw_Budgets r))"
    using validated_bundle [OF r(1,2)] by blast
  show ?thesis using r(3-5) b(1) r(6) [unfolded journalHolds_def b(2) [symmetric]] by blast
qed

definition sampleHash :: "string list \<Rightarrow> string" where
  "sampleHash parts = concat (map (\<lambda>p. p @ ''|'') parts)"

definition sampleTime :: gotime where
  "sampleTime = 90000 * Second"

definition sampleBundle :: AuthorityWire where
  "sampleBundle = \<lparr>aw_AuthorityID = ''a1'', aw_Protocol = AuthorityProtocol, aw_ServerTime = sampleTime, aw_Generation = ''g1'',
     aw_Policies = Some [sampleDoc [sampleCap]],
     aw_Budgets = (case AuthorityBudgets sampleHash (\<lambda>b w. w) [sampleDoc [sampleCap]] sampleTime of Inl _ \<Rightarrow> None | Inr bs \<Rightarrow> Some bs),
     aw_Grants = [], aw_ReportAcks = [], aw_MeterAcks = [], aw_Denied = []\<rparr>"

definition sampleAnswer :: WireResponse where
  "sampleAnswer = \<lparr>wr_Generation = ''g1'', wr_Policies = None, wr_Leases = [], wr_ActiveTiers = [], wr_SyncIntervalSeconds = 10,
     wr_Authority = Some sampleBundle\<rparr>"

definition sampleSync :: "World synced" where
  "sampleSync = syncOnce sampleHash (\<lambda>b w. w) (\<lambda>docs. ''g1'') 2 sampleTime None
     (Some (escrowClient demoFp StorageOK StorageOK sampleTime sampleTime)) (\<lambda>req. HttpBody (Some sampleAnswer)) (freshSyncer demo1)"

theorem ready_plane_coherent_witness:
  "GovernanceReady sampleTime 0 (fst (snd sampleSync)) = GateReady
   \<and> (\<exists>docs snap time budgets. po_snap (sy_Store (fst (snd sampleSync))) = Some snap \<and> sn_generation snap = ''g1''
       \<and> AuthorityBudgets sampleHash (\<lambda>b w. w) docs time = Inr budgets
       \<and> (\<forall>k b. Mapping.lookup (j_Budgets (db_state (w_db (sy_world (fst (snd sampleSync)))))) k = Some b \<longleftrightarrow> b \<in> set budgets \<and> ab_Key b = k))"
proof -
  have ready: "GovernanceReady sampleTime 0 (fst (snd sampleSync)) = GateReady" by code_simp
  have "journalFinite demo1" unfolding journalFinite_def demo1_def demoDb_def by (simp add: collect_frame)
  then have "plane_run sampleHash (\<lambda>b w. w) (\<lambda>docs. ''g1'') demoFp (freshSyncer demo1)"
    by (intro plane_run.boot) (simp_all add: freshSyncer_def)
  moreover have "sampleSync = (fst sampleSync, fst (snd sampleSync), snd (snd sampleSync))" by simp
  ultimately have "plane_run sampleHash (\<lambda>b w. w) (\<lambda>docs. ''g1'') demoFp (fst (snd sampleSync))"
    unfolding sampleSync_def by (rule plane_run.sync)
  then have "plane_visible sampleHash (\<lambda>b w. w) (\<lambda>docs. ''g1'') demoFp (fst (snd sampleSync))" by (rule plane_visible.resting)
  from ready_plane_coherent [OF this ready] ready show ?thesis by blast
qed

section \<open>The round trip with the control plane\<close>

text \<open>
  The network between a plane in lease mode and a server that answers at \<open>now\<close>: what is written as
  JSON is read back as it was, and neither message exceeds the size the reader accepts (1 MiB for a
  request, 8 MiB for a response).
\<close>

definition cpHttp :: "gotime \<Rightarrow> Server \<Rightarrow> SyncRequest \<Rightarrow> http_outcome" where
  "cpHttp now sv req =
     (case handleSync False (\<lambda>_ _. None) now now (Some req) sv of
        Some (_, Reply resp) \<Rightarrow> HttpBody (Some (wireHeartbeat resp))
      | Some (_, HttpError status) \<Rightarrow> HttpStatus status
      | _ \<Rightarrow> HttpFailed)"

lemma reports_of_request:
  assumes "\<forall>f team period. spentOf = Some f \<longrightarrow> 0 \<le> f team period \<and> in64 (f team period)"
    and "rep \<in> set (concat (map (policyReports spentOf) ps))"
  shows "0 \<le> cn_SpentMicroUSD rep \<and> in64 (cn_SpentMicroUSD rep)"
  using assms by (auto simp: policyReports_def map_filter_def in64_bounds split: if_splits option.splits)

lemma lease_exchange:
  assumes "cp_reachable gen sv" and "\<not> sv_authority sv" and "sy_Dataplane sy \<noteq> []"
    and "\<forall>f team period. spentOf = Some f \<longrightarrow> 0 \<le> f team period \<and> in64 (f team period)"
  obtains leases active where "cpHttp now sv (buildRequest spentOf False None policies sy) = HttpBody (Some
    \<lparr>wr_Generation = sv_generation sv, wr_Policies = (if sy_generation sy \<noteq> sv_generation sv then omitEmpty (sv_wire sv) else None),
     wr_Leases = leases, wr_ActiveTiers = active, wr_SyncIntervalSeconds = sv_interval sv, wr_Authority = None\<rparr>)"
proof -
  define req where "req = buildRequest spentOf False None policies sy"
  have reports: "\<forall>rep \<in> set (sq_Reports req). 0 \<le> cn_SpentMicroUSD rep \<and> in64 (cn_SpentMicroUSD rep)"
    using reports_of_request [OF assms(4)] by (auto simp: req_def buildRequest_def)
  obtain dps m m' leases latch active where h: "heartbeat now req sv = Some (sv\<lparr>sv_dataplanes := dps, sv_ledger := m', sv_tierLatch := latch\<rparr>,
       \<lparr>hb_Generation = sv_generation sv, hb_Policies = (if sq_Generation req \<noteq> sv_generation sv then sv_wire sv else []),
        hb_Leases = leases, hb_ActiveTiers = active, hb_SyncIntervalSeconds = sv_interval sv\<rparr>)"
    by (rule heartbeat_outcome [OF reachable_wf [OF assms(1)] reports])
  have "sq_Dataplane req \<noteq> []" "sq_Authority req = None" "sq_Generation req = sy_generation sy"
    using assms(3) by (simp_all add: req_def buildRequest_def)
  moreover have "\<not> list_ex (\<lambda>rep. cn_SpentMicroUSD rep < 0) (sq_Reports req)" using reports by (auto simp: list_ex_iff)
  ultimately show thesis
    using that assms(2) h by (auto simp: cpHttp_def handleSync_def wireHeartbeat_def omitEmpty_def req_def [symmetric])
qed

text \<open>
  C15: how documents reach a plane in lease mode. A heartbeat with a reachable server in the
  same mode, with messages within the size both sides accept, succeeds. A plane that has the server's generation keeps its policies; a plane
  that has not installs the server's documents and takes over their generation, provided
  there are any. When the server has no documents left, the answer omits the empty set and
  reads like no change: the heartbeat counts as a success and the plane goes on enforcing
  the policies it had, at every later heartbeat again.
\<close>

theorem documents_reach_planes:
  assumes "cp_reachable gen sv" and "\<not> sv_authority sv" and "sy_Dataplane sy \<noteq> []" and "po_snap (sy_Store sy) \<noteq> None"
    and "\<forall>f team period. spentOf = Some f \<longrightarrow> 0 \<le> f team period \<and> in64 (f team period)"
    and "syncOnce hs hb gen rtt t spentOf None (cpHttp now sv) sy = (tr, sy', out)"
  shows "out = Inr (nextCadence (sv_interval sv)) \<and> sy_lastSuccess sy' = t
    \<and> (if sy_generation sy = sv_generation sv \<or> sv_wire sv = []
       then sy_Store sy' = sy_Store sy \<and> sy_generation sy' = sy_generation sy
       else (sy_Store sy', sy_pending sy') = ApplyWire gen (sv_wire sv) (sy_Store sy) \<and> sy_generation sy' = sv_generation sv)"
proof -
  obtain policies where policies: "Policies (sy_Store sy) = Some policies" using assms(4) by (auto simp: Policies_def)
  obtain leases active where x: "cpHttp now sv (buildRequest spentOf False None policies sy) = HttpBody (Some
    \<lparr>wr_Generation = sv_generation sv, wr_Policies = (if sy_generation sy \<noteq> sv_generation sv then omitEmpty (sv_wire sv) else None),
     wr_Leases = leases, wr_ActiveTiers = active, wr_SyncIntervalSeconds = sv_interval sv, wr_Authority = None\<rparr>)"
    by (rule lease_exchange [OF assms(1,2,3,5)])
  have world: "sy\<lparr>sy_world := sy_world sy\<rparr> = sy" by simp
  show ?thesis
    using assms(6)
    by (auto simp: syncOnce_def authorityRequest_def policies world x exchange_def receive_def publish_def finishSync_def omitEmpty_def
        Let_def split: if_splits prod.splits)
qed

lemma applied_fields:
  "applyWire gen wire mt s = Inr s' \<Longrightarrow> sv_authority s' = sv_authority s \<and> sv_generation s' = gen wire \<and> sv_wire s' = wire"
  by (auto simp: applyWire_def split: sum.splits)

definition samplePlaneSync :: "unit Syncer \<Rightarrow> unit synced" where
  "samplePlaneSync sy = syncOnce sampleHash (\<lambda>b w. w) (\<lambda>docs. ''g1'') 2 9 None None (cpHttp 7 sampleServer) sy"

theorem documents_reach_planes_witness:
  "snd (snd (samplePlaneSync (freshSyncer ()))) = Inr (90 * Second)
   \<and> fst (ApplyWire (\<lambda>docs. ''g1'') sampleWire NewEmptyStore) = sy_Store (fst (snd (samplePlaneSync (freshSyncer ()))))"
proof -
  have server: "\<not> sv_authority sampleServer" "sv_generation sampleServer = ''g1''" "sv_wire sampleServer = sampleWire"
    using applied_fields [OF sample_installs] by (simp_all add: emptyServer_def)
  have cadence: "nextCadence (sv_interval sampleServer) = 90 * Second" by code_simp
  have plane: "sy_Dataplane (freshSyncer ()) \<noteq> []" "po_snap (sy_Store (freshSyncer ())) \<noteq> None" "sy_generation (freshSyncer ()) = []"
    "sy_Store (freshSyncer ()) = NewEmptyStore" by (simp_all add: freshSyncer_def NewEmptyStore_def)
  have "samplePlaneSync (freshSyncer ()) = (fst (samplePlaneSync (freshSyncer ())), fst (snd (samplePlaneSync (freshSyncer ()))),
      snd (snd (samplePlaneSync (freshSyncer ()))))" by simp
  from documents_reach_planes [OF sample_reachable server(1) plane(1,2) _ this [unfolded samplePlaneSync_def], folded samplePlaneSync_def]
  show ?thesis by (simp add: server plane cadence sampleWire_def) (metis fst_conv)
qed

end
