(* ===== verification/ProviderStore.thy ===== *)
theory ProviderStore
  imports LiveProps Calendar "HOL-Library.Product_Lexorder"
begin

text \<open>
  The topology database of a data plane, \<^verbatim>\<open>internal/providerstore\<close>, and the parts of
  \<^verbatim>\<open>internal/config\<close> it shares with the file: references to secrets, their resolution and the
  fallback map. Providers and models live in tables; an overlay turns their rows into the
  configuration from which a generation is built; a fresh store is seeded from the file once.

  A statement of the database is a definition; a violated key or a failed validation is an
  error, which rolls the transaction back. Resolving a reference to its secret and the
  checks of the broker mode are arguments.
\<close>

section \<open>Secrets and providers of the file\<close>

record SecretRef =
  sx_Env :: string
  sx_File :: string

record FileProvider = ProviderConfig +
  pc_APIKeyRef :: "SecretRef option"

definition isLetter :: "char \<Rightarrow> bool" where
  "isLetter c \<longleftrightarrow> (let n = of_char c :: nat in 65 \<le> n \<and> n \<le> 90 \<or> n = 95 \<or> 97 \<le> n \<and> n \<le> 122)"

definition envRefShape :: "string \<Rightarrow> bool" where
  "envRefShape s \<longleftrightarrow> (case s of [] \<Rightarrow> False | c # cs \<Rightarrow> isLetter c \<and> list_all (\<lambda>d. isLetter d \<or> is_digit d) cs)"

definition ValidateSecretRef :: "SecretRef option \<Rightarrow> bool" where
  "ValidateSecretRef ref =
     (case ref of
        None \<Rightarrow> True
      | Some r \<Rightarrow>
          if sx_Env r \<noteq> [] \<and> sx_File r \<noteq> [] then False
          else if sx_Env r \<noteq> [] then envRefShape (sx_Env r)
          else if sx_File r \<noteq> [] then hd (sx_File r) = CHR ''/''
          else False)"

text \<open>The configuration of the file: the topology with unresolved providers.\<close>

record RawConfig =
  rc_Providers :: "(string, FileProvider) mapping"
  rc_Topology :: TopologyConfig

datatype resolve_error =
    ResolveBoundary string | UnresolvedSecret string | MisplacedAuthHeader string | BadAuthHeader string
  | VersionWithoutGuardrail string | BadGuardrailVersion string | MisplacedGuardrail string | BadAuthMode string | BrokerUnavailable string

definition guardrailVersionOK :: "string \<Rightarrow> bool" where
  "guardrailVersionOK v \<longleftrightarrow>
     v = [] \<or> v = ''DRAFT'' \<or> (case Atoi v of None \<Rightarrow> False | Some n \<Rightarrow> n \<ge> 1 \<and> Itoa n = v)"

definition authModes :: "string list" where
  "authModes = [[], ''default'', ''irsa'', ''pod_identity'', ''profile'', ''static'', ''broker'']"

definition resolveProvider ::
  "(SecretRef option \<Rightarrow> string option) \<Rightarrow> bool \<Rightarrow> string \<Rightarrow> FileProvider \<Rightarrow> resolve_error + ProviderConfig" where
  "resolveProvider resolve brokerOK name p =
     (if \<not> ValidateDataBoundary (pc_DataBoundary p) then Inl (ResolveBoundary name)
      else (case resolve (pc_APIKeyRef p) of
              None \<Rightarrow> Inl (UnresolvedSecret name)
            | Some secret \<Rightarrow>
                if pc_AuthHeader p \<noteq> [] \<and> pc_Type p \<noteq> ''anthropic'' then Inl (MisplacedAuthHeader name)
                else if pc_AuthHeader p \<notin> {[], ''x-api-key'', ''bearer''} then Inl (BadAuthHeader name)
                else if pc_GuardrailVersion p \<noteq> [] \<and> pc_GuardrailID p = [] then Inl (VersionWithoutGuardrail name)
                else if \<not> guardrailVersionOK (pc_GuardrailVersion p) then Inl (BadGuardrailVersion name)
                else if pc_GuardrailID p \<noteq> [] \<and> pc_Type p \<noteq> ''bedrock'' then Inl (MisplacedGuardrail name)
                else if pc_Type p = ''bedrock'' \<and> pc_AuthMode p \<notin> set authModes then Inl (BadAuthMode name)
                else if pc_Type p = ''bedrock'' \<and> pc_AuthMode p = ''broker'' \<and> \<not> brokerOK then Inl (BrokerUnavailable name)
                else Inr ((ProviderConfig.truncate p)\<lparr>pc_APIKey := secret\<rparr>)))"

definition resolveStep ::
  "(SecretRef option \<Rightarrow> string option) \<Rightarrow> bool \<Rightarrow> (string, FileProvider) mapping \<Rightarrow> string \<Rightarrow> (string, ProviderConfig) mapping \<Rightarrow>
   resolve_error + (string, ProviderConfig) mapping" where
  "resolveStep resolve brokerOK ps name out =
     (case Mapping.lookup ps name of
        None \<Rightarrow> Inr out
      | Some p \<Rightarrow> (case resolveProvider resolve brokerOK name p of Inl e \<Rightarrow> Inl e | Inr pc \<Rightarrow> Inr (Mapping.update name pc out)))"

definition ResolveProviders :: "(SecretRef option \<Rightarrow> string option) \<Rightarrow> bool \<Rightarrow> RawConfig \<Rightarrow> resolve_error + TopologyConfig" where
  "ResolveProviders resolve brokerOK raw =
     (case foldE (resolveStep resolve brokerOK (rc_Providers raw)) (Mapping.ordered_keys (rc_Providers raw)) Mapping.empty of
        Inl e \<Rightarrow> Inl e
      | Inr ps \<Rightarrow> Inr ((rc_Topology raw)\<lparr>cf_Providers := ps\<rparr>))"

datatype fallback_error = SelfFallback string | UnknownFallback string string | ChainedFallback string string

definition knownModels :: "(string, ModelConfig) mapping \<Rightarrow> string set" where
  "knownModels models =
     set (concat (map (\<lambda>n. n # (case Mapping.lookup models n of None \<Rightarrow> [] | Some mc \<Rightarrow> mc_Aliases mc)) (Mapping.ordered_keys models)))"

definition checkFallback :: "(string, ModelConfig) mapping \<Rightarrow> (string, string) mapping \<Rightarrow> string \<Rightarrow> fallback_error option" where
  "checkFallback models fallbacks requested =
     (case Mapping.lookup fallbacks requested of
        None \<Rightarrow> None
      | Some served \<Rightarrow>
          if served = requested then Some (SelfFallback requested)
          else if served \<notin> knownModels models then Some (UnknownFallback requested served)
          else if Mapping.lookup fallbacks served \<noteq> None then Some (ChainedFallback requested served)
          else None)"

definition ValidateModelFallbacks :: "(string, ModelConfig) mapping \<Rightarrow> (string, string) mapping \<Rightarrow> fallback_error option" where
  "ValidateModelFallbacks models fallbacks = firstError (checkFallback models fallbacks) (Mapping.ordered_keys fallbacks)"

section \<open>Rows\<close>

record ProviderRow =
  pr_DataBoundary :: string
  pr_Name :: string
  pr_Type :: string
  pr_BaseURL :: string
  pr_Region :: string
  pr_AuthMode :: string
  pr_AuthProfile :: string
  pr_APIKeyRefEnv :: string
  pr_APIKeyRefFile :: string
  pr_AuthHeader :: string
  pr_GuardrailID :: string
  pr_GuardrailVersion :: string

text \<open>The targets of a route have the fields of the configured ones.\<close>

record ModelRoute =
  mr_ContextWindow :: int
  mr_Capabilities :: "string list"
  mr_Aliases :: "string list"
  mr_Targets :: "Target list"

definition emptyRoute :: ModelRoute where
  "emptyRoute = \<lparr>mr_ContextWindow = 0, mr_Capabilities = [], mr_Aliases = [], mr_Targets = []\<rparr>"

record TopologyDb =
  td_providers :: "(string, ProviderRow) mapping"
  td_targets :: "(string \<times> nat, Target) mapping"
  td_aliases :: "(string, string) mapping"
  td_metadata :: "(string, int \<times> string list) mapping"
  td_seeded :: bool

definition emptyTopologyDb :: TopologyDb where
  "emptyTopologyDb = \<lparr>td_providers = Mapping.empty, td_targets = Mapping.empty, td_aliases = Mapping.empty,
     td_metadata = Mapping.empty, td_seeded = False\<rparr>"

definition providerConfigFromRow :: "ProviderRow \<Rightarrow> FileProvider" where
  "providerConfigFromRow p = \<lparr>pc_DataBoundary = pr_DataBoundary p, pc_Type = pr_Type p, pc_BaseURL = pr_BaseURL p, pc_APIKey = [],
     pc_Region = pr_Region p, pc_AuthMode = pr_AuthMode p, pc_AuthProfile = pr_AuthProfile p, pc_AuthHeader = pr_AuthHeader p,
     pc_GuardrailID = pr_GuardrailID p, pc_GuardrailVersion = pr_GuardrailVersion p,
     pc_APIKeyRef = (if pr_APIKeyRefEnv p \<noteq> [] then Some \<lparr>sx_Env = pr_APIKeyRefEnv p, sx_File = []\<rparr>
                     else if pr_APIKeyRefFile p \<noteq> [] then Some \<lparr>sx_Env = [], sx_File = pr_APIKeyRefFile p\<rparr> else None)\<rparr>"

definition rowFromProviderConfig :: "string \<Rightarrow> FileProvider \<Rightarrow> ProviderRow" where
  "rowFromProviderConfig name pc = \<lparr>pr_DataBoundary = pc_DataBoundary pc, pr_Name = name, pr_Type = pc_Type pc,
     pr_BaseURL = pc_BaseURL pc, pr_Region = pc_Region pc, pr_AuthMode = pc_AuthMode pc, pr_AuthProfile = pc_AuthProfile pc,
     pr_APIKeyRefEnv = (case pc_APIKeyRef pc of None \<Rightarrow> [] | Some r \<Rightarrow> sx_Env r),
     pr_APIKeyRefFile = (case pc_APIKeyRef pc of None \<Rightarrow> [] | Some r \<Rightarrow> sx_File r),
     pr_AuthHeader = pc_AuthHeader pc, pr_GuardrailID = pc_GuardrailID pc, pr_GuardrailVersion = pc_GuardrailVersion pc\<rparr>"

definition modelConfigFromRoute :: "ModelRoute \<Rightarrow> ModelConfig" where
  "modelConfigFromRoute r = \<lparr>mc_Capabilities = mr_Capabilities r, mc_Aliases = mr_Aliases r, mc_Targets = mr_Targets r,
     mc_ContextWindow = mr_ContextWindow r\<rparr>"

definition routeFromModelConfig :: "ModelConfig \<Rightarrow> ModelRoute" where
  "routeFromModelConfig mc = \<lparr>mr_ContextWindow = mc_ContextWindow mc, mr_Capabilities = mc_Capabilities mc, mr_Aliases = mc_Aliases mc,
     mr_Targets = mc_Targets mc\<rparr>"

section \<open>Statements\<close>

datatype topology_error = ProviderMetadata | ModelMetadata | AliasTaken string | TopologyNotFound | ProviderExists string

definition UpsertProvider :: "ProviderRow \<Rightarrow> TopologyDb \<Rightarrow> topology_error + TopologyDb" where
  "UpsertProvider p db =
     (if \<not> ValidateDataBoundary (pr_DataBoundary p) then Inl ProviderMetadata
      else Inr (db\<lparr>td_providers := Mapping.update (pr_Name p) p (td_providers db)\<rparr>))"

definition GetProvider :: "string \<Rightarrow> TopologyDb \<Rightarrow> ProviderRow option" where
  "GetProvider name db = Mapping.lookup (td_providers db) name"

definition ListProviders :: "TopologyDb \<Rightarrow> ProviderRow list" where
  "ListProviders db = map (\<lambda>n. the (Mapping.lookup (td_providers db) n)) (Mapping.ordered_keys (td_providers db))"

definition DeleteProvider :: "string \<Rightarrow> TopologyDb \<Rightarrow> topology_error + TopologyDb" where
  "DeleteProvider name db =
     (if Mapping.lookup (td_providers db) name = None then Inl TopologyNotFound
      else Inr (db\<lparr>td_providers := Mapping.delete name (td_providers db)\<rparr>))"

fun insertTargets :: "string \<Rightarrow> nat \<Rightarrow> Target list \<Rightarrow> (string \<times> nat, Target) mapping \<Rightarrow> (string \<times> nat, Target) mapping" where
  "insertTargets name i [] ts = ts"
| "insertTargets name i (t # rest) ts = insertTargets name (i + 1) rest (Mapping.update (name, i) t ts)"

definition insertAlias :: "string \<Rightarrow> string \<Rightarrow> (string, string) mapping \<Rightarrow> topology_error + (string, string) mapping" where
  "insertAlias name alias as =
     (if Mapping.lookup as alias \<noteq> None then Inl (AliasTaken alias) else Inr (Mapping.update alias name as))"

definition replaceModel :: "string \<Rightarrow> ModelRoute \<Rightarrow> TopologyDb \<Rightarrow> topology_error + TopologyDb" where
  "replaceModel name route db =
     (if \<not> ValidateModelMetadata (mr_ContextWindow route) (mr_Capabilities route) then Inl ModelMetadata
      else
        (case foldE (insertAlias name) (mr_Aliases route) (Mapping.filter (\<lambda>alias m. m \<noteq> name) (td_aliases db)) of
           Inl e \<Rightarrow> Inl e
         | Inr aliases \<Rightarrow>
             Inr (db\<lparr>td_metadata := Mapping.update name (mr_ContextWindow route, mr_Capabilities route) (td_metadata db),
                     td_targets := insertTargets name 0 (mr_Targets route) (Mapping.filter (\<lambda>k t. fst k \<noteq> name) (td_targets db)),
                     td_aliases := aliases\<rparr>)))"

definition SetModel :: "string \<Rightarrow> ModelRoute \<Rightarrow> TopologyDb \<Rightarrow> topology_error + TopologyDb" where
  "SetModel name route db = replaceModel name route db"

definition routeAt :: "(string, ModelRoute) mapping \<Rightarrow> string \<Rightarrow> ModelRoute" where
  "routeAt out name = (case Mapping.lookup out name of None \<Rightarrow> emptyRoute | Some r \<Rightarrow> r)"

definition addRow :: "('a \<Rightarrow> ModelRoute \<Rightarrow> ModelRoute) \<Rightarrow> string \<times> 'a \<Rightarrow> (string, ModelRoute) mapping \<Rightarrow> (string, ModelRoute) mapping" where
  "addRow f row out = Mapping.update (fst row) (f (snd row) (routeAt out (fst row))) out"

definition targetRows :: "TopologyDb \<Rightarrow> (string \<times> Target) list" where
  "targetRows db = map (\<lambda>k. (fst k, the (Mapping.lookup (td_targets db) k))) (Mapping.ordered_keys (td_targets db))"

definition aliasRows :: "TopologyDb \<Rightarrow> (string \<times> string) list" where
  "aliasRows db = sort (map (\<lambda>a. (the (Mapping.lookup (td_aliases db) a), a)) (Mapping.ordered_keys (td_aliases db)))"

definition metadataRows :: "TopologyDb \<Rightarrow> (string \<times> int \<times> string list) list" where
  "metadataRows db = map (\<lambda>m. (m, the (Mapping.lookup (td_metadata db) m))) (Mapping.ordered_keys (td_metadata db))"

definition ListModels :: "TopologyDb \<Rightarrow> (string, ModelRoute) mapping" where
  "ListModels db =
     fold (addRow (\<lambda>(window, caps) r. r\<lparr>mr_ContextWindow := window, mr_Capabilities := caps\<rparr>)) (metadataRows db)
       (fold (addRow (\<lambda>a r. r\<lparr>mr_Aliases := mr_Aliases r @ [a]\<rparr>)) (aliasRows db)
          (fold (addRow (\<lambda>t r. r\<lparr>mr_Targets := mr_Targets r @ [t]\<rparr>)) (targetRows db) Mapping.empty))"

definition DeleteModel :: "string \<Rightarrow> TopologyDb \<Rightarrow> topology_error + TopologyDb" where
  "DeleteModel name db =
     (if \<not> list_ex (\<lambda>k. fst k = name) (Mapping.ordered_keys (td_targets db)) \<and> Mapping.lookup (td_metadata db) name = None
      then Inl TopologyNotFound
      else Inr (db\<lparr>td_targets := Mapping.filter (\<lambda>k t. fst k \<noteq> name) (td_targets db),
                   td_metadata := Mapping.delete name (td_metadata db),
                   td_aliases := Mapping.filter (\<lambda>alias m. m \<noteq> name) (td_aliases db)\<rparr>))"

definition seedProvider :: "ProviderRow \<Rightarrow> TopologyDb \<Rightarrow> topology_error + TopologyDb" where
  "seedProvider p db =
     (if \<not> ValidateDataBoundary (pr_DataBoundary p) then Inl ProviderMetadata
      else if Mapping.lookup (td_providers db) (pr_Name p) \<noteq> None then Inl (ProviderExists (pr_Name p))
      else Inr (db\<lparr>td_providers := Mapping.update (pr_Name p) p (td_providers db)\<rparr>))"

definition seedModel :: "(string, ModelRoute) mapping \<Rightarrow> string \<Rightarrow> TopologyDb \<Rightarrow> topology_error + TopologyDb" where
  "seedModel models name db = (case Mapping.lookup models name of None \<Rightarrow> Inr db | Some route \<Rightarrow> replaceModel name route db)"

definition Seed :: "ProviderRow list \<Rightarrow> (string, ModelRoute) mapping \<Rightarrow> TopologyDb \<Rightarrow> topology_error + TopologyDb \<times> bool" where
  "Seed providers models db =
     (if td_seeded db then Inr (db, False)
      else
        (case foldE seedProvider providers db of
           Inl e \<Rightarrow> Inl e
         | Inr db1 \<Rightarrow>
             (case foldE (seedModel models) (Mapping.ordered_keys models) db1 of
                Inl e \<Rightarrow> Inl e
              | Inr db2 \<Rightarrow> Inr (db2\<lparr>td_seeded := True\<rparr>, True))))"

section \<open>Overlay and seeding\<close>

definition OverlayFrom :: "RawConfig \<Rightarrow> ProviderRow list \<Rightarrow> (string, ModelRoute) mapping \<Rightarrow> RawConfig" where
  "OverlayFrom raw provs models =
     raw\<lparr>rc_Providers := fold (\<lambda>p m. Mapping.update (pr_Name p) (providerConfigFromRow p) m) provs Mapping.empty,
         rc_Topology := (rc_Topology raw)\<lparr>cf_Models := Mapping.map_values (\<lambda>name r. modelConfigFromRoute r) models\<rparr>\<rparr>"

definition Overlay :: "RawConfig \<Rightarrow> TopologyDb \<Rightarrow> RawConfig" where
  "Overlay raw db = OverlayFrom raw (ListProviders db) (ListModels db)"

datatype seed_error = SeedAliases live_error | SeedBoundary string | SeedSecretRef string | SeedStore topology_error

definition checkSeedProvider :: "RawConfig \<Rightarrow> string \<Rightarrow> seed_error option" where
  "checkSeedProvider raw name =
     (case Mapping.lookup (rc_Providers raw) name of
        None \<Rightarrow> None
      | Some pc \<Rightarrow>
          if \<not> ValidateDataBoundary (pc_DataBoundary pc) then Some (SeedBoundary name)
          else if \<not> ValidateSecretRef (pc_APIKeyRef pc) then Some (SeedSecretRef name)
          else None)"

definition SeedIfEmpty :: "RawConfig \<Rightarrow> TopologyDb \<Rightarrow> seed_error + TopologyDb" where
  "SeedIfEmpty raw db =
     (case validateModelAliases (cf_Models (rc_Topology raw)) of
        Some e \<Rightarrow> Inl (SeedAliases e)
      | None \<Rightarrow>
          (case firstError (checkSeedProvider raw) (Mapping.ordered_keys (rc_Providers raw)) of
             Some e \<Rightarrow> Inl e
           | None \<Rightarrow>
               (case Seed (map (\<lambda>n. rowFromProviderConfig n (the (Mapping.lookup (rc_Providers raw) n))) (Mapping.ordered_keys (rc_Providers raw)))
                       (Mapping.map_values (\<lambda>name mc. routeFromModelConfig mc) (cf_Models (rc_Topology raw))) db of
                  Inl e \<Rightarrow> Inl (SeedStore e)
                | Inr (db', did) \<Rightarrow> Inr db')))"

end
