(* ===== verification/Gateway.thy ===== *)
theory Gateway
  imports Syncer Governance RouteRequest ProviderStore
begin

text \<open>
  The assembly of the data plane, \<^verbatim>\<open>cmd/mayu/gateway.go\<close>: the closures through which the governor
  and the router read the key store, the configuration, the policy store and the leases, the
  local judgment of budget tiers, and the reload of the topology with what must not change
  under a running journal.

  The answer of the key store is an argument, a failed query being \<open>Inl ()\<close>. A policy store
  without a snapshot, where the source would panic, is \<open>None\<close>.
\<close>

section \<open>Team policies\<close>

definition recordLimits :: "TeamRecord \<Rightarrow> Limits" where
  "recordLimits rec = \<lparr>l_RatePerMin = tr_RPM rec, l_TokensPerMinute = tr_TPM rec, l_TokensPerDay = tr_TokensPerDay rec,
     l_QuotaExceeded = tr_QuotaOnExceeded rec, l_BudgetMicrosPerMonth = tr_BudgetUSDMicros rec,
     l_BudgetExceeded = tr_BudgetOnExceeded rec, l_BudgetMicrosPerDay = tr_BudgetUSDMicrosPerDay rec,
     l_BudgetDayExceeded = tr_BudgetOnExceeded rec\<rparr>"

definition lookupBase :: "(string \<Rightarrow> unit + TeamRecord option) \<Rightarrow> (string, TeamPolicy) mapping \<Rightarrow> string \<Rightarrow> TeamPolicy option" where
  "lookupBase getTeam policies team =
     (case getTeam team of
        Inr (Some rec) \<Rightarrow> Some (PolicyFromLimits (recordLimits rec))
      | _ \<Rightarrow> Mapping.lookup policies team)"

text \<open>A window of a budget as the overlay resolves it: the limit, zero meaning none, and the knob.\<close>

definition overlayBudget :: "int \<Rightarrow> bool \<Rightarrow> int \<times> string \<Rightarrow> int \<times> string" where
  "overlayBudget limit hard base =
     (if limit > 0
      then (if fst base = 0 \<or> limit < fst base then limit else fst base,
            if hard \<or> snd base = ''block'' then ''block'' else ''warn'')
      else base)"

definition clampLease :: "LeaseTable option \<Rightarrow> string \<Rightarrow> BudgetPeriod \<Rightarrow> int \<times> string \<Rightarrow> int \<times> string" where
  "clampLease leases team period w =
     (case leases of
        None \<Rightarrow> w
      | Some t \<Rightarrow>
          (case lt_Get t team period of
             None \<Rightarrow> w
           | Some l \<Rightarrow>
               (let allowance = (if le_AllowanceMicroUSD l < 1 then 1 else le_AllowanceMicroUSD l)
                in if fst w \<noteq> 0 \<and> allowance \<ge> fst w then w
                   else if le_HardCap l \<or> snd w = ''block'' then (allowance, ''block'')
                   else (allowance, ''warn''))))"

definition meterRouting :: "int \<Rightarrow> int \<times> string \<Rightarrow> int \<times> string" where
  "meterRouting routing w = (if fst w = 0 \<and> routing > 0 then (routing, ''warn'') else w)"

definition overlayTeam :: "LeaseTable option \<Rightarrow> string \<Rightarrow> TeamLimits \<Rightarrow> TeamPolicy \<Rightarrow> TeamPolicy" where
  "overlayTeam leases team lims base =
     (let rpm = (if tl_RPM lims = 0 then tp_RatePerMin base else tl_RPM lims);
          tpm = (if tl_TPM lims = 0 then tp_TokensPerMinute base else tl_TPM lims);
          month = overlayBudget (tl_BudgetMicrosPerMonth lims) (tl_BudgetHard lims) (tp_BudgetMicrosPerMonth base, tp_BudgetExceeded base);
          day = overlayBudget (tl_BudgetMicrosPerDay lims) (tl_BudgetDayHard lims) (tp_BudgetMicrosPerDay base, tp_BudgetDayExceeded base);
          month = clampLease leases team PeriodCalendarMonth month;
          day = clampLease leases team PeriodCalendarDay day;
          month = meterRouting (tl_RoutingBudgetMicrosPerMonth lims) month;
          day = meterRouting (tl_RoutingBudgetMicrosPerDay lims) day
      in (PolicyFromLimits \<lparr>l_RatePerMin = rpm, l_TokensPerMinute = tpm, l_TokensPerDay = tp_TokensPerDay base,
            l_QuotaExceeded = tp_QuotaExceeded base, l_BudgetMicrosPerMonth = fst month, l_BudgetExceeded = snd month,
            l_BudgetMicrosPerDay = fst day, l_BudgetDayExceeded = snd day\<rparr>)
           \<lparr>tp_AdminContact := (if tl_AdminContact lims = [] then tl_AdminContactDay lims else tl_AdminContact lims)\<rparr>)"

definition gw_TeamLookup ::
  "(string \<Rightarrow> unit + TeamRecord option) \<Rightarrow> (string, TeamPolicy) mapping \<Rightarrow> PolicyStore option \<Rightarrow> LeaseTable option \<Rightarrow> string \<Rightarrow>
   TeamPolicy option option" where
  "gw_TeamLookup getTeam policies polStore leases team =
     (let base = lookupBase getTeam policies team
      in case polStore of
           None \<Rightarrow> Some base
         | Some store \<Rightarrow>
             (case TeamLimitsOf store team of
                None \<Rightarrow> None
              | Some None \<Rightarrow> Some base
              | Some (Some lims) \<Rightarrow> Some (Some (overlayTeam leases team lims (case base of None \<Rightarrow> zeroTeamPolicy | Some p \<Rightarrow> p)))))"

definition gw_UserLookup :: "PolicyStore option \<Rightarrow> string \<Rightarrow> string \<Rightarrow> UserPolicy option option" where
  "gw_UserLookup polStore team user =
     (case polStore of
        None \<Rightarrow> Some None
      | Some store \<Rightarrow>
          (case UserLimitsOf store team user of
             None \<Rightarrow> None
           | Some None \<Rightarrow> Some None
           | Some (Some ul) \<Rightarrow>
               Some (Some \<lparr>up_BudgetMicrosPerMonth = ul_BudgetMicrosPerMonth ul, up_BudgetMicrosPerDay = ul_BudgetMicrosPerDay ul,
                 up_BudgetExceeded = (if ul_BudgetHard ul \<or> ul_BudgetDayHard ul then ''block'' else ''warn''),
                 up_AdminContact = (if ul_AdminContact ul = [] then ul_AdminContactDay ul else ul_AdminContact ul)\<rparr>)))"

text \<open>The record behind the non-monetary overrides of a team; \<open>configRegions\<close> are those of the file.\<close>

definition zeroTeamRecord :: TeamRecord where
  "zeroTeamRecord = \<lparr>tr_Name = [], tr_AllowedModels = [], tr_RPM = 0, tr_TPM = 0, tr_TokensPerDay = 0, tr_QuotaOnExceeded = [],
     tr_BudgetUSDMicros = 0, tr_BudgetUSDMicrosPerDay = 0, tr_BudgetOnExceeded = [], tr_AllowedRegions = []\<rparr>"

definition gw_teamRecord :: "(string \<Rightarrow> unit + TeamRecord option) \<Rightarrow> (string \<Rightarrow> string list) \<Rightarrow> string \<Rightarrow> TeamRecord option" where
  "gw_teamRecord getTeam configRegions team =
     (case getTeam team of
        Inl _ \<Rightarrow> None
      | Inr (Some rec) \<Rightarrow> Some rec
      | Inr None \<Rightarrow> if configRegions team \<noteq> [] then Some (zeroTeamRecord\<lparr>tr_AllowedRegions := configRegions team\<rparr>) else None)"

section \<open>Spend\<close>

definition spentIn :: "BudgetPeriod \<Rightarrow> UsageStatus \<Rightarrow> int" where
  "spentIn period u =
     (if period = PeriodCalendarDay then (case us_TeamBudgetDay u of None \<Rightarrow> 0 | Some b \<Rightarrow> bu_Spent b)
      else (case us_TeamBudget u of None \<Rightarrow> 0 | Some b \<Rightarrow> bu_Spent b))"

definition noKeyPolicy :: KeyPolicy where
  "noKeyPolicy = \<lparr>kp_RatePerMin = 0, kp_TokensPerMinute = 0, kp_BudgetMicrosPerMonth = 0, kp_BudgetMicrosPerDay = 0\<rparr>"

definition teamSubject :: "string \<Rightarrow> Subject" where
  "teamSubject team = \<lparr>s_Team = team, s_KeyID = [], s_User = []\<rparr>"

definition gw_SpentOf :: "clock \<Rightarrow> Governor \<Rightarrow> Stores \<Rightarrow> string \<Rightarrow> BudgetPeriod \<Rightarrow> int" where
  "gw_SpentOf clk g st team period = spentIn period (snd (UsageOf clk g (teamSubject team) noKeyPolicy st))"

section \<open>Tiers judged locally\<close>

definition budgetRef :: "Policy \<Rightarrow> string \<Rightarrow> PolicyBudget option" where
  "budgetRef p name =
     (case List.find (\<lambda>r. r_Name r = name \<and> (case r_Budget r of None \<Rightarrow> False | Some b \<Rightarrow> \<not> b_Unlimited b)) (p_Rules p) of
        None \<Rightarrow> None
      | Some r \<Rightarrow> r_Budget r)"

text \<open>
  The state of the judgment is the latch and the tiers found; \<open>usage\<close> is the spend
  the governor shows when the judgment comes to a rule. An index the latch remembers beyond the ladder would panic in the source.
\<close>

definition standaloneRule ::
  "(string \<times> string \<Rightarrow> BudgetPeriod \<Rightarrow> int) \<Rightarrow> location \<Rightarrow> gotime \<Rightarrow> string \<Rightarrow> Policy \<Rightarrow> Rule \<Rightarrow> Latch \<times> ActiveTier list \<Rightarrow> (Latch \<times> ActiveTier list) option" where
  "standaloneRule usage loc now team p r st =
     (case Option.bind (r_Routing r) ro_BudgetTiers of
        None \<Rightarrow> Some st
      | Some bt \<Rightarrow>
          (case budgetRef p (ts_BudgetRef bt) of
             None \<Rightarrow> Some st
           | Some b \<Rightarrow>
               if b_LimitMicroUSD b \<le> 0 then Some st
               else
                 (case UtilizedPercent (usage (p_Name p, r_Name r) (b_Period b)) 0 (b_LimitMicroUSD b) of
                    None \<Rightarrow> None
                  | Some percent \<Rightarrow>
                      (case Evaluate (p_Name p @ ''/'' @ r_Name r) (WindowKeyForPeriod loc now (b_Period b))
                              (map t_ThresholdPercent (ts_Tiers bt)) percent (fst st) of
                         (latch, i) \<Rightarrow>
                           if i < 0 then Some (latch, snd st)
                           else if nat i \<ge> length (ts_Tiers bt) then None
                           else (let t = ts_Tiers bt ! nat i
                                 in Some (latch, snd st @
                                   [\<lparr>at_Policy = p_Name p, at_Rule = r_Name r, at_BudgetRef = ts_BudgetRef bt, at_Team = team,
                                     at_Threshold = t_ThresholdPercent t, at_Substitute = t_Substitute t,
                                     at_EnforceTargets = ts_EnforceTargets bt, at_User = []\<rparr>]))))))"

fun foldM :: "('a \<Rightarrow> 's \<Rightarrow> 's option) \<Rightarrow> 'a list \<Rightarrow> 's \<Rightarrow> 's option" where
  "foldM f [] s = Some s"
| "foldM f (x # xs) s = (case f x s of None \<Rightarrow> None | Some s' \<Rightarrow> foldM f xs s')"

definition standaloneTierTable ::
  "(string \<times> string \<Rightarrow> BudgetPeriod \<Rightarrow> int) \<Rightarrow> location \<Rightarrow> gotime \<Rightarrow> string \<Rightarrow> Policy list \<Rightarrow> Latch \<Rightarrow> (Latch \<times> TierTable) option" where
  "standaloneTierTable usage loc now team ps latch =
     map_option (\<lambda>(latch', active). (latch', tier_Set active))
       (foldM (\<lambda>p st. if ps_Team (p_Subject p) \<noteq> team \<or> ps_User (p_Subject p) \<noteq> [] then Some st
                       else foldM (standaloneRule usage loc now team p) (p_Rules p) st) ps (latch, []))"

section \<open>Routing gates\<close>

definition gw_policyGate :: "PolicyStore \<Rightarrow> Principal \<Rightarrow> string \<Rightarrow> (string \<Rightarrow> string) \<Rightarrow> bool" where
  "gw_policyGate store p model canonical =
     (case ModelAllowed store (pn_Team p) (pn_Owner p) model (Some canonical) of None \<Rightarrow> False | Some b \<Rightarrow> b)"

definition gw_routingLookup :: "PolicyStore \<Rightarrow> string \<Rightarrow> string \<Rightarrow> string \<times> (routing_error option + Policy list)" where
  "gw_routingLookup store team user =
     (case RoutingSnapshot store team user of
        None \<Rightarrow> ([], Inl None)
      | Some (generation, Inl e) \<Rightarrow> (generation, Inl (Some e))
      | Some (generation, Inr ps) \<Rightarrow> (generation, Inr ps))"

definition wireRoutingPolicyGates :: "redactor \<Rightarrow> PolicyStore option \<Rightarrow> Router \<times> RouteEnv \<Rightarrow> Router \<times> RouteEnv" where
  "wireRoutingPolicyGates newRedactor polStore re =
     (case re of (r, env) \<Rightarrow>
        (let env = env\<lparr>en_redactor := Some newRedactor\<rparr>
         in case polStore of
              None \<Rightarrow> (r, env)
            | Some store \<Rightarrow> (SetPolicyGate (Some (gw_policyGate store)) r, env\<lparr>en_lookup := Some (gw_routingLookup store)\<rparr>)))"

text \<open>With a control plane the tier gates read the table the syncer keeps.\<close>

definition wireTierGates :: "TierTable \<Rightarrow> Router \<Rightarrow> Router" where
  "wireTierGates t r =
     SetBudgetConstraintGate (Some (\<lambda>p. ConstraintsForSubject (pn_Team p) (pn_Owner p) t))
       (SetTierGate (Some (\<lambda>p. GetForSubject (pn_Team p) (pn_Owner p) t)) r)"

section \<open>Reload\<close>

text \<open>The configuration as far as a reload compares it; \<open>cc_JournalPath\<close> is set in the durable mode.\<close>

record ControlPlaneConfig =
  cc_JournalPath :: "string option"
  cc_URL :: string
  cc_TokenRef :: "SecretRef option"
  cc_Token :: string
  cc_Dataplane :: string
  cc_RequireSync :: bool
  cc_MaxPolicyAge :: duration

record GatewayConfig =
  gc_KeyStore :: "string \<times> string \<times> string"
  gc_SharedGovernance :: bool
  gc_ControlPlane :: "ControlPlaneConfig option"
  gc_BudgetLocation :: string
  gc_Raw :: RawConfig

definition durableJournalPath :: "(string \<Rightarrow> string) \<Rightarrow> GatewayConfig \<Rightarrow> string" where
  "durableJournalPath clean cfg =
     (case Option.bind (gc_ControlPlane cfg) cc_JournalPath of None \<Rightarrow> [] | Some path \<Rightarrow> clean path)"

datatype reload_error =
    LoadFailed | BackendChanged | SharedIdentityChanged | JournalChanged | DurableIdentityChanged
  | ReloadResolve resolve_error | ReloadBuild live_error | FiniteContextRequired string | ContextRequired string
  | InvalidTopology | StoreFailed | PersistFailed topology_error

definition validateSharedReload :: "GatewayConfig \<Rightarrow> GatewayConfig \<Rightarrow> reload_error option" where
  "validateSharedReload before next =
     (if gc_KeyStore before \<noteq> gc_KeyStore next \<or> gc_SharedGovernance before \<noteq> gc_SharedGovernance next then Some BackendChanged
      else if \<not> gc_SharedGovernance before then None
      else (case (gc_ControlPlane before, gc_ControlPlane next) of
              (Some a, Some b) \<Rightarrow>
                if cc_URL a \<noteq> cc_URL b \<or> cc_Dataplane a \<noteq> cc_Dataplane b \<or> cc_Token a \<noteq> cc_Token b
                   \<or> cc_RequireSync a \<noteq> cc_RequireSync b \<or> cc_MaxPolicyAge a \<noteq> cc_MaxPolicyAge b
                then Some SharedIdentityChanged else None
            | _ \<Rightarrow> Some SharedIdentityChanged))"

definition sameIdentity :: "ControlPlaneConfig \<Rightarrow> ControlPlaneConfig \<Rightarrow> bool" where
  "sameIdentity a b \<longleftrightarrow> cc_Dataplane a = cc_Dataplane b \<and> cc_URL a = cc_URL b \<and> cc_Token a = cc_Token b
     \<and> cc_TokenRef a \<noteq> None \<and> cc_TokenRef b \<noteq> None \<and> cc_TokenRef a = cc_TokenRef b
     \<and> cc_RequireSync a = cc_RequireSync b \<and> cc_MaxPolicyAge a = cc_MaxPolicyAge b"

definition validateAuthorityReload :: "(string \<Rightarrow> string) \<Rightarrow> GatewayConfig \<Rightarrow> GatewayConfig \<Rightarrow> reload_error option" where
  "validateAuthorityReload clean before next =
     (case validateSharedReload before next of
        Some e \<Rightarrow> Some e
      | None \<Rightarrow>
          (let oldPath = durableJournalPath clean before; newPath = durableJournalPath clean next
           in if oldPath = [] \<and> newPath = [] then None
              else if oldPath = [] \<or> newPath = [] \<or> oldPath \<noteq> newPath then Some JournalChanged
              else (case (gc_ControlPlane before, gc_ControlPlane next) of
                      (Some a, Some b) \<Rightarrow>
                        if \<not> sameIdentity a b \<or> gc_BudgetLocation before \<noteq> gc_BudgetLocation next
                        then Some DurableIdentityChanged else None
                    | _ \<Rightarrow> Some DurableIdentityChanged)))"

definition hasRateIn :: "LiveState \<Rightarrow> Target \<Rightarrow> bool" where
  "hasRateIn st t = (case ls_pricing st of None \<Rightarrow> False | Some tbl \<Rightarrow> HasRate tbl (tg_Provider t) (tg_Model t))"

definition checkDurableModel :: "GatewayConfig \<Rightarrow> LiveState \<Rightarrow> string \<Rightarrow> reload_error option" where
  "checkDurableModel cfg st name =
     (case Route st name of
        None \<Rightarrow> if gc_SharedGovernance cfg then Some (FiniteContextRequired name) else None
      | Some m \<Rightarrow>
          if gc_SharedGovernance cfg \<and> (mc_ContextWindow m \<le> 0 \<or> mc_ContextWindow m > MaxInt64 div 5) then Some (FiniteContextRequired name)
          else if list_ex (\<lambda>t. hasRateIn st t \<and> mc_ContextWindow m \<le> 0) (mc_Targets m) then Some (ContextRequired name)
          else None)"

definition validateDurableModels :: "(string \<Rightarrow> string) \<Rightarrow> GatewayConfig \<Rightarrow> LiveState \<Rightarrow> reload_error option" where
  "validateDurableModels clean cfg st =
     (if durableJournalPath clean cfg = [] \<and> \<not> gc_SharedGovernance cfg then None
      else firstError (checkDurableModel cfg st) (ModelNames st))"

text \<open>What the gateway publishes: the configuration of the boot, the generation, the router and the topology store.\<close>

record gateway =
  gw_cfg :: GatewayConfig
  gw_holder :: Holder
  gw_router :: Router
  gw_pstore :: "TopologyDb option"

text \<open>\<open>env\<close>: the path cleaner, the resolution of secrets, the broker's precondition and the provider factory.\<close>

record gatewayEnv =
  ge_clean :: "string \<Rightarrow> string"
  ge_resolve :: "SecretRef option \<Rightarrow> string option"
  ge_brokerOK :: bool
  ge_factory :: factory

text \<open>\<open>listed\<close> is whether the database could be read.\<close>

definition buildEffective :: "gatewayEnv \<Rightarrow> bool \<Rightarrow> GatewayConfig \<Rightarrow> TopologyDb option \<Rightarrow> reload_error + TopologyConfig" where
  "buildEffective env listed raw pstore =
     (if pstore \<noteq> None \<and> \<not> listed then Inl StoreFailed
      else (case ResolveProviders (ge_resolve env) (ge_brokerOK env)
                   (case pstore of None \<Rightarrow> gc_Raw raw | Some db \<Rightarrow> Overlay (gc_Raw raw) db) of
              Inl e \<Rightarrow> Inl (ReloadResolve e)
            | Inr cfg \<Rightarrow> Inr cfg))"

definition publishTopology :: "LiveState \<times> (string, string) mapping \<Rightarrow> gateway \<Rightarrow> gateway" where
  "publishTopology built g = g\<lparr>gw_holder := Some (fst built), gw_router := RetainBreakers (snd built) (gw_router g)\<rparr>"

definition buildTopology :: "gatewayEnv \<Rightarrow> GatewayConfig \<Rightarrow> TopologyConfig \<Rightarrow> reload_error + LiveState \<times> (string, string) mapping" where
  "buildTopology env raw cfg =
     (case BuildStateWith (ge_factory env) cfg of
        Inl e \<Rightarrow> Inl (ReloadBuild e)
      | Inr built \<Rightarrow> (case validateDurableModels (ge_clean env) raw (fst built) of Some e \<Rightarrow> Inl e | None \<Rightarrow> Inr built))"

text \<open>\<open>fileCfg\<close> is the file as read and validated, \<open>None\<close> when that failed.\<close>

definition reloadLocked :: "gatewayEnv \<Rightarrow> bool \<Rightarrow> GatewayConfig option \<Rightarrow> gateway \<Rightarrow> gateway \<times> reload_error option" where
  "reloadLocked env listed fileCfg g =
     (case fileCfg of
        None \<Rightarrow> (g, Some LoadFailed)
      | Some raw \<Rightarrow>
          (case validateAuthorityReload (ge_clean env) (gw_cfg g) raw of
             Some e \<Rightarrow> (g, Some e)
           | None \<Rightarrow>
               (case buildEffective env listed raw (gw_pstore g) of
                  Inl e \<Rightarrow> (g, Some e)
                | Inr cfg \<Rightarrow>
                    (case buildTopology env raw cfg of
                       Inl e \<Rightarrow> (g, Some e)
                     | Inr built \<Rightarrow> (publishTopology built g, None)))))"

section \<open>Writes\<close>

text \<open>
  The shared core of the four writes. \<open>persist\<close> is the statement on the store, \<open>mutate\<close> the same
  change on the rows read; \<open>listed\<close> and \<open>committed\<close> are whether the database could be read and
  the write be committed. The store is an embedded database: a write that reports an error was
  rolled back, no acknowledgement can be lost.
\<close>

definition rowsByName :: "ProviderRow list \<Rightarrow> (string, ProviderRow) mapping" where
  "rowsByName rows = fold (\<lambda>p m. Mapping.update (pr_Name p) p m) rows Mapping.empty"

definition rowValues :: "(string, ProviderRow) mapping \<Rightarrow> ProviderRow list" where
  "rowValues m = map (\<lambda>n. the (Mapping.lookup m n)) (Mapping.ordered_keys m)"

type_synonym topologyRows = "(string, ProviderRow) mapping \<times> (string, ModelRoute) mapping"

definition candidateConfig :: "GatewayConfig \<Rightarrow> (topologyRows \<Rightarrow> topologyRows) \<Rightarrow> TopologyDb \<Rightarrow> RawConfig" where
  "candidateConfig raw mutate db =
     (case mutate (rowsByName (ListProviders db), ListModels db) of (provs, models) \<Rightarrow> OverlayFrom (gc_Raw raw) (rowValues provs) models)"

definition buildCandidate :: "gatewayEnv \<Rightarrow> GatewayConfig \<Rightarrow> RawConfig \<Rightarrow> reload_error + LiveState \<times> (string, string) mapping" where
  "buildCandidate env raw eff =
     (if validateModelAliases (cf_Models (rc_Topology eff)) \<noteq> None then Inl InvalidTopology
      else if ValidateModelFallbacks (cf_Models (rc_Topology eff)) (cf_ModelFallbacks (rc_Topology eff)) \<noteq> None then Inl InvalidTopology
      else (case ResolveProviders (ge_resolve env) (ge_brokerOK env) eff of
              Inl _ \<Rightarrow> Inl InvalidTopology
            | Inr cfg \<Rightarrow> (case buildTopology env raw cfg of Inl _ \<Rightarrow> Inl InvalidTopology | Inr built \<Rightarrow> Inr built)))"

definition writeMutation ::
  "gatewayEnv \<Rightarrow> bool \<Rightarrow> bool \<Rightarrow> GatewayConfig option \<Rightarrow> (TopologyDb \<Rightarrow> topology_error + TopologyDb) \<Rightarrow> (topologyRows \<Rightarrow> topologyRows) \<Rightarrow>
   gateway \<Rightarrow> gateway \<times> reload_error option" where
  "writeMutation env listed committed fileCfg persist mutate g =
     (case (fileCfg, gw_pstore g) of
        (Some raw, Some db) \<Rightarrow>
          if validateAuthorityReload (ge_clean env) (gw_cfg g) raw \<noteq> None then (g, Some InvalidTopology)
          else if \<not> listed then (g, Some StoreFailed)
          else (case buildCandidate env raw (candidateConfig raw mutate db) of
                  Inl e \<Rightarrow> (g, Some e)
                | Inr built \<Rightarrow>
                    if \<not> committed then (g, Some StoreFailed)
                    else (case persist db of
                            Inl e \<Rightarrow> (g, Some (PersistFailed e))
                          | Inr db' \<Rightarrow> (publishTopology built (g\<lparr>gw_pstore := Some db'\<rparr>), None)))
      | _ \<Rightarrow> (g, Some InvalidTopology))"

definition WriteProvider :: "gatewayEnv \<Rightarrow> bool \<Rightarrow> bool \<Rightarrow> GatewayConfig option \<Rightarrow> ProviderRow \<Rightarrow> gateway \<Rightarrow> gateway \<times> reload_error option" where
  "WriteProvider env listed committed fileCfg row =
     writeMutation env listed committed fileCfg (UpsertProvider row) (\<lambda>(provs, models). (Mapping.update (pr_Name row) row provs, models))"

definition gw_DeleteProvider :: "gatewayEnv \<Rightarrow> bool \<Rightarrow> bool \<Rightarrow> GatewayConfig option \<Rightarrow> string \<Rightarrow> gateway \<Rightarrow> gateway \<times> reload_error option" where
  "gw_DeleteProvider env listed committed fileCfg name =
     writeMutation env listed committed fileCfg (DeleteProvider name) (\<lambda>(provs, models). (Mapping.delete name provs, models))"

definition WriteModel ::
  "gatewayEnv \<Rightarrow> bool \<Rightarrow> bool \<Rightarrow> GatewayConfig option \<Rightarrow> string \<Rightarrow> ModelRoute \<Rightarrow> gateway \<Rightarrow> gateway \<times> reload_error option" where
  "WriteModel env listed committed fileCfg name route =
     writeMutation env listed committed fileCfg (SetModel name route) (\<lambda>(provs, models). (provs, Mapping.update name route models))"

definition gw_DeleteModel :: "gatewayEnv \<Rightarrow> bool \<Rightarrow> bool \<Rightarrow> GatewayConfig option \<Rightarrow> string \<Rightarrow> gateway \<Rightarrow> gateway \<times> reload_error option" where
  "gw_DeleteModel env listed committed fileCfg name =
     writeMutation env listed committed fileCfg (DeleteModel name) (\<lambda>(provs, models). (provs, Mapping.delete name models))"

end
