(* ===== verification/ProviderStoreProps.thy ===== *)
theory ProviderStoreProps
  imports ProviderStore
begin

text \<open>
  What the topology database promises. The tables represent a map from model names to
  routes: \<open>ListModels\<close> reads it, \<open>SetModel\<close> and \<open>DeleteModel\<close> are the update and the deletion
  of one entry, and they fail only for the reasons the schema gives. A fresh store that was
  seeded from the file overlays to the configuration of the file without its secrets.
\<close>

declare split_paired_All [simp del] split_paired_Ex [simp del]

section \<open>Reading the tables\<close>

definition wfDb :: "TopologyDb \<Rightarrow> bool" where
  "wfDb db \<longleftrightarrow> finite (Mapping.keys (td_providers db)) \<and> finite (Mapping.keys (td_targets db))
     \<and> finite (Mapping.keys (td_aliases db)) \<and> finite (Mapping.keys (td_metadata db))
     \<and> (\<forall>n p. Mapping.lookup (td_providers db) n = Some p \<longrightarrow> pr_Name p = n)
     \<and> (\<forall>n i t. Mapping.lookup (td_targets db) (n, i) = Some t \<longrightarrow> Mapping.lookup (td_metadata db) n \<noteq> None)
     \<and> (\<forall>a n. Mapping.lookup (td_aliases db) a = Some n \<longrightarrow> Mapping.lookup (td_metadata db) n \<noteq> None)"

lemma wfDb_targets: "wfDb db \<Longrightarrow> Mapping.lookup (td_targets db) (n, i) = Some t \<Longrightarrow> Mapping.lookup (td_metadata db) n \<noteq> None"
  unfolding wfDb_def by blast

lemma wfDb_aliases: "wfDb db \<Longrightarrow> Mapping.lookup (td_aliases db) a = Some n \<Longrightarrow> Mapping.lookup (td_metadata db) n \<noteq> None"
  unfolding wfDb_def by blast

lemma filter_ordered_keys:
  "finite (Mapping.keys m) \<Longrightarrow> filter P (Mapping.ordered_keys m) = sorted_list_of_set {k \<in> Mapping.keys m. P k}"
  by (rule sorted_distinct_set_unique) (auto intro: sorted_filter [where f = id, simplified])

definition storedTargets :: "TopologyDb \<Rightarrow> string \<Rightarrow> Target list" where
  "storedTargets db n = map (\<lambda>i. the (Mapping.lookup (td_targets db) (n, i))) (sorted_list_of_set {i. Mapping.lookup (td_targets db) (n, i) \<noteq> None})"

definition storedAliases :: "TopologyDb \<Rightarrow> string \<Rightarrow> string list" where
  "storedAliases db n = sorted_list_of_set {a. Mapping.lookup (td_aliases db) a = Some n}"

definition storedRoute :: "TopologyDb \<Rightarrow> string \<Rightarrow> ModelRoute option" where
  "storedRoute db n = map_option (\<lambda>(window, caps). \<lparr>mr_ContextWindow = window, mr_Capabilities = caps,
     mr_Aliases = storedAliases db n, mr_Targets = storedTargets db n\<rparr>) (Mapping.lookup (td_metadata db) n)"

lemma lookup_fold_addRow:
  "Mapping.lookup (fold (addRow f) rows out) n =
     (if n \<in> fst ` set rows then Some (fold f (map snd (filter (\<lambda>r. fst r = n) rows)) (routeAt out n)) else Mapping.lookup out n)"
proof (induction rows arbitrary: out)
  case (Cons row rows)
  have "routeAt (addRow f row out) n = (if fst row = n then f (snd row) (routeAt out n) else routeAt out n)"
    by (simp add: addRow_def routeAt_def gomap_simps)
  moreover have "filter (\<lambda>r. fst r = n) rows = []" if "n \<notin> fst ` set rows" using that by (auto simp: filter_empty_conv)
  moreover have "Mapping.lookup (addRow f row out) n = (if fst row = n then Some (f (snd row) (routeAt out n)) else Mapping.lookup out n)"
    by (simp add: addRow_def gomap_simps)
  ultimately show ?case using Cons.IH [of "addRow f row out"] by auto
qed simp

lemma fold_targets: "fold (\<lambda>t r. r\<lparr>mr_Targets := mr_Targets r @ [t]\<rparr>) ts r = r\<lparr>mr_Targets := mr_Targets r @ ts\<rparr>"
  by (induction ts arbitrary: r) simp_all

lemma fold_aliases: "fold (\<lambda>a r. r\<lparr>mr_Aliases := mr_Aliases r @ [a]\<rparr>) as r = r\<lparr>mr_Aliases := mr_Aliases r @ as\<rparr>"
  by (induction as arbitrary: r) simp_all

lemma pair_list: "finite A \<Longrightarrow> sorted_list_of_set (Pair n ` A) = map (Pair n) (sorted_list_of_set A)"
  for A :: "'b::linorder set" and n :: "'a::linorder"
proof (rule sorted_distinct_set_unique)
  show "sorted (map (Pair n) (sorted_list_of_set A))"
    using sorted_sorted_list_of_set [of A] by (simp add: sorted_map sorted_wrt_mono_rel [where P = "(\<le>)"])
qed (auto simp: distinct_map inj_on_def)

lemma target_rows:
  assumes "finite (Mapping.keys (td_targets db))"
  shows "map snd (filter (\<lambda>r. fst r = n) (targetRows db)) = storedTargets db n"
    and "n \<in> fst ` set (targetRows db) \<longleftrightarrow> (\<exists>i. Mapping.lookup (td_targets db) (n, i) \<noteq> None)"
proof -
  have eq: "{k \<in> Mapping.keys (td_targets db). fst k = n} = Pair n ` {i. Mapping.lookup (td_targets db) (n, i) \<noteq> None}"
    by (auto simp: keys_lookup)
  then have fin: "finite {i. Mapping.lookup (td_targets db) (n, i) \<noteq> None}"
    using finite_imageD [of "Pair n"] finite_subset [OF _ assms, of "{k \<in> Mapping.keys (td_targets db). fst k = n}"]
    by (metis (no_types, lifting) inj_onI mem_Collect_eq prod.inject subsetI)
  show "map snd (filter (\<lambda>r. fst r = n) (targetRows db)) = storedTargets db n"
    unfolding targetRows_def storedTargets_def
    by (simp add: filter_map o_def filter_ordered_keys [OF assms] eq pair_list [OF fin] del: not_None_eq)
  show "n \<in> fst ` set (targetRows db) \<longleftrightarrow> (\<exists>i. Mapping.lookup (td_targets db) (n, i) \<noteq> None)"
    using assms by (force simp: targetRows_def keys_lookup image_iff)
qed

lemma alias_rows:
  assumes "finite (Mapping.keys (td_aliases db))"
  shows "map snd (filter (\<lambda>r. fst r = n) (aliasRows db)) = storedAliases db n"
    and "n \<in> fst ` set (aliasRows db) \<longleftrightarrow> (\<exists>a. Mapping.lookup (td_aliases db) a = Some n)"
proof -
  let ?R = "aliasRows db"
  have set: "set ?R = {(m, a). Mapping.lookup (td_aliases db) a = Some m}"
    using assms by (force simp: aliasRows_def keys_lookup)
  have srt: "sorted ?R" "distinct ?R" by (auto simp: aliasRows_def distinct_map inj_on_def)
  have fin: "finite {a. Mapping.lookup (td_aliases db) a = Some n}"
    by (rule finite_subset [OF _ assms]) (auto simp: keys_lookup)
  have "filter (\<lambda>r. fst r = n) ?R = sorted_list_of_set (Pair n ` {a. Mapping.lookup (td_aliases db) a = Some n})"
    by (rule sorted_distinct_set_unique) (use srt fin set in \<open>auto intro: sorted_filter [where f = id, simplified]\<close>)
  then show "map snd (filter (\<lambda>r. fst r = n) ?R) = storedAliases db n"
    by (simp add: pair_list [OF fin] storedAliases_def o_def)
  show "n \<in> fst ` set ?R \<longleftrightarrow> (\<exists>a. Mapping.lookup (td_aliases db) a = Some n)"
    unfolding set by force
qed

lemma metadata_rows:
  assumes "finite (Mapping.keys (td_metadata db))"
  shows "map snd (filter (\<lambda>r. fst r = n) (metadataRows db)) = (case Mapping.lookup (td_metadata db) n of None \<Rightarrow> [] | Some m \<Rightarrow> [m])"
    and "n \<in> fst ` set (metadataRows db) \<longleftrightarrow> Mapping.lookup (td_metadata db) n \<noteq> None"
proof -
  have "{k \<in> Mapping.keys (td_metadata db). k = n} = (if Mapping.lookup (td_metadata db) n = None then {} else {n})"
    by (auto simp: keys_lookup)
  then show "map snd (filter (\<lambda>r. fst r = n) (metadataRows db)) = (case Mapping.lookup (td_metadata db) n of None \<Rightarrow> [] | Some m \<Rightarrow> [m])"
    unfolding metadataRows_def
    by (simp add: filter_map o_def filter_ordered_keys [OF assms] split: option.splits)
  show "n \<in> fst ` set (metadataRows db) \<longleftrightarrow> Mapping.lookup (td_metadata db) n \<noteq> None"
    using assms by (force simp: metadataRows_def keys_lookup image_iff)
qed

lemma rows_absent: "n \<notin> fst ` set rows \<Longrightarrow> map snd (filter (\<lambda>r. fst r = n) rows) = []"
  by (auto simp: filter_empty_conv)

lemma lookup_ListModels:
  assumes "wfDb db"
  shows "Mapping.lookup (ListModels db) n = storedRoute db n"
proof -
  have fin: "finite (Mapping.keys (td_targets db))" "finite (Mapping.keys (td_aliases db))" "finite (Mapping.keys (td_metadata db))"
    using assms by (simp_all add: wfDb_def)
  let ?ts = "fold (addRow (\<lambda>t r. r\<lparr>mr_Targets := mr_Targets r @ [t]\<rparr>)) (targetRows db) Mapping.empty"
  let ?as = "fold (addRow (\<lambda>a r. r\<lparr>mr_Aliases := mr_Aliases r @ [a]\<rparr>)) (aliasRows db) ?ts"
  have "routeAt ?ts n = emptyRoute\<lparr>mr_Targets := storedTargets db n\<rparr>"
    using target_rows(1) [OF fin(1), of n] rows_absent [of n "targetRows db"]
    by (auto simp: routeAt_def lookup_fold_addRow fold_targets emptyRoute_def)
  then have as: "routeAt ?as n = emptyRoute\<lparr>mr_Targets := storedTargets db n, mr_Aliases := storedAliases db n\<rparr>"
    using alias_rows(1) [OF fin(2), of n] rows_absent [of n "aliasRows db"]
    by (auto simp: routeAt_def [of ?as] lookup_fold_addRow [where rows = "aliasRows db"] fold_aliases emptyRoute_def routeAt_def split: option.splits)
  show ?thesis
  proof (cases "Mapping.lookup (td_metadata db) n")
    case None
    have "Mapping.lookup (td_targets db) (n, i) = None" "Mapping.lookup (td_aliases db) a \<noteq> Some n" for i a
      using None assms unfolding wfDb_def by (cases "Mapping.lookup (td_targets db) (n, i)"; auto)+
    then have "n \<notin> fst ` set (targetRows db)" "n \<notin> fst ` set (aliasRows db)"
      using target_rows(2) [OF fin(1)] alias_rows(2) [OF fin(2)] by simp_all
    then show ?thesis
      using None metadata_rows(2) [OF fin(3)] by (simp add: ListModels_def lookup_fold_addRow storedRoute_def)
  next
    case (Some m)
    then have "Mapping.lookup (ListModels db) n = Some ((\<lambda>(window, caps) r. r\<lparr>mr_ContextWindow := window, mr_Capabilities := caps\<rparr>) m (routeAt ?as n))"
      using metadata_rows [OF fin(3)] by (simp add: ListModels_def lookup_fold_addRow [where rows = "metadataRows db"])
    then show ?thesis using Some by (simp add: as storedRoute_def emptyRoute_def split: prod.split)
  qed
qed

section \<open>Writing the tables\<close>

lemma lookup_insertTargets:
  "Mapping.lookup (insertTargets name i ts m) k =
     (if fst k = name \<and> i \<le> snd k \<and> snd k < i + length ts then Some (ts ! (snd k - i)) else Mapping.lookup m k)"
proof (induction ts arbitrary: i m)
  case (Cons t ts)
  then show ?case by (cases k) (auto simp: gomap_simps nth_Cons' Suc_le_eq)
qed auto

lemma finite_insertTargets: "finite (Mapping.keys m) \<Longrightarrow> finite (Mapping.keys (insertTargets name i ts m))"
  by (induction ts arbitrary: i m) auto

lemma insertAliases_Inr:
  assumes "foldE (insertAlias name) as m = Inr m'"
  shows "m' = fold (\<lambda>a. Mapping.update a name) as m" and "distinct as" and "\<forall>a \<in> set as. Mapping.lookup m a = None"
proof -
  have "m' = fold (\<lambda>a. Mapping.update a name) as m \<and> distinct as \<and> (\<forall>a \<in> set as. Mapping.lookup m a = None)"
    using assms
  proof (induction as arbitrary: m)
    case (Cons b as)
    then have "Mapping.lookup m b = None" "foldE (insertAlias name) as (Mapping.update b name m) = Inr m'"
      by (auto simp: insertAlias_def [of name b m] split: if_splits)
    then show ?case using Cons.IH by (fastforce simp: gomap_simps split: if_splits)
  qed simp
  then show "m' = fold (\<lambda>a. Mapping.update a name) as m" "distinct as" "\<forall>a \<in> set as. Mapping.lookup m a = None" by blast+
qed

lemma insertAliases_Inl:
  assumes "foldE (insertAlias name) as m = Inl e"
  shows "\<not> distinct as \<or> (\<exists>a \<in> set as. Mapping.lookup m a \<noteq> None)"
  using assms
proof (induction as arbitrary: m)
  case (Cons b as)
  show ?case
  proof (cases "Mapping.lookup m b")
    case None
    then have "foldE (insertAlias name) as (Mapping.update b name m) = Inl e" using Cons.prems by (simp add: insertAlias_def [of name b m])
    from Cons.IH [OF this] show ?thesis by (auto simp: gomap_simps split: if_splits)
  qed simp
qed simp

text \<open>A route as the tables give it back: its aliases come in their order.\<close>

definition normalRoute :: "ModelRoute \<Rightarrow> ModelRoute" where
  "normalRoute r = r\<lparr>mr_Aliases := sort (mr_Aliases r)\<rparr>"

lemma replaceModel_Inr:
  assumes "wfDb db" and "replaceModel name route db = Inr db'"
  shows "wfDb db'" and "td_providers db' = td_providers db" and "td_seeded db' = td_seeded db"
    and "td_aliases db' = fold (\<lambda>a. Mapping.update a name) (mr_Aliases route) (Mapping.filter (\<lambda>a m. m \<noteq> name) (td_aliases db))"
    and "storedRoute db' n = (if n = name then Some (normalRoute route) else storedRoute db n)"
    and "ValidateModelMetadata (mr_ContextWindow route) (mr_Capabilities route)"
    and "distinct (mr_Aliases route)" and "\<forall>a \<in> set (mr_Aliases route). \<forall>m. Mapping.lookup (td_aliases db) a = Some m \<longrightarrow> m = name"
proof -
  let ?kept = "Mapping.filter (\<lambda>a m. m \<noteq> name) (td_aliases db)"
  obtain as where as: "foldE (insertAlias name) (mr_Aliases route) ?kept = Inr as"
    and db': "db' = db\<lparr>td_metadata := Mapping.update name (mr_ContextWindow route, mr_Capabilities route) (td_metadata db),
                     td_targets := insertTargets name 0 (mr_Targets route) (Mapping.filter (\<lambda>k t. fst k \<noteq> name) (td_targets db)),
                     td_aliases := as\<rparr>"
    and meta: "ValidateModelMetadata (mr_ContextWindow route) (mr_Capabilities route)"
    using assms(2) by (auto simp: replaceModel_def split: if_splits sum.splits)
  note ins = insertAliases_Inr [OF as]
  have la: "Mapping.lookup as a = (if a \<in> set (mr_Aliases route) then Some name
      else if Mapping.lookup (td_aliases db) a = Some name then None else Mapping.lookup (td_aliases db) a)" for a
    by (auto simp: ins(1) lookup_bind_list gomap_simps split: option.splits)
  have lt: "Mapping.lookup (td_targets db') (m, i) = (if m = name then (if i < length (mr_Targets route) then Some (mr_Targets route ! i) else None)
      else Mapping.lookup (td_targets db) (m, i))" for m i
    by (auto simp: db' lookup_insertTargets gomap_simps split: option.splits)
  have fin: "finite (Mapping.keys as)" unfolding ins(1)
  proof -
    have "finite (Mapping.keys (fold (\<lambda>a. Mapping.update a name) xs m))" if "finite (Mapping.keys m)" for xs and m :: "(string, string) mapping"
      using that by (induction xs arbitrary: m) auto
    then show "finite (Mapping.keys (fold (\<lambda>a. Mapping.update a name) (mr_Aliases route) ?kept))"
      using assms(1) by (auto simp: wfDb_def intro: finite_keys_filter)
  qed
  have md: "Mapping.lookup (td_metadata db') m = (if m = name then Some (mr_ContextWindow route, mr_Capabilities route) else Mapping.lookup (td_metadata db) m)" for m
    by (simp add: db' gomap_simps)
  have "Mapping.lookup (td_metadata db') m \<noteq> None" if "Mapping.lookup (td_targets db') (m, i) = Some t" for m i t
    using that wfDb_targets [OF assms(1), of m i] unfolding lt md by (auto split: if_splits)
  moreover have "Mapping.lookup (td_metadata db') m \<noteq> None" if "Mapping.lookup (td_aliases db') a = Some m" for a m
    using that wfDb_aliases [OF assms(1), of a m] la [of a] unfolding md by (auto simp: db' split: if_splits)
  ultimately show "wfDb db'"
    using assms(1) fin unfolding wfDb_def
    by (auto simp: db' intro: finite_insertTargets finite_keys_filter)
  show "td_providers db' = td_providers db" "td_seeded db' = td_seeded db" by (simp_all add: db')
  show "td_aliases db' = fold (\<lambda>a. Mapping.update a name) (mr_Aliases route) ?kept" by (simp add: db' ins(1))
  show "ValidateModelMetadata (mr_ContextWindow route) (mr_Capabilities route)" "distinct (mr_Aliases route)" by (fact meta, fact ins(2))
  show "\<forall>a \<in> set (mr_Aliases route). \<forall>m. Mapping.lookup (td_aliases db) a = Some m \<longrightarrow> m = name"
    using ins(3) by (auto simp: gomap_simps split: option.splits if_splits)
  have "{a. Mapping.lookup (td_aliases db') a = Some name} = set (mr_Aliases route)" using la by (auto simp: db' split: if_splits)
  then have "storedAliases db' name = sort (mr_Aliases route)"
    using ins(2) by (simp add: storedAliases_def sorted_list_of_set_sort_remdups distinct_remdups_id)
  moreover have "storedTargets db' name = mr_Targets route"
  proof -
    have "{i. Mapping.lookup (td_targets db') (name, i) \<noteq> None} = {0..<length (mr_Targets route)}" by (auto simp: lt)
    then have "storedTargets db' name = map (\<lambda>i. the (Mapping.lookup (td_targets db') (name, i))) [0..<length (mr_Targets route)]"
      by (simp add: storedTargets_def del: not_None_eq)
    also have "\<dots> = mr_Targets route" by (rule nth_equalityI) (simp_all add: lt)
    finally show ?thesis .
  qed
  moreover have "storedAliases db' n = storedAliases db n" "storedTargets db' n = storedTargets db n" if "n \<noteq> name"
  proof -
    have "Mapping.lookup (td_aliases db') a = Some n \<longleftrightarrow> Mapping.lookup (td_aliases db) a = Some n" for a
      using that la [of a] ins(3) by (auto simp: db' gomap_simps split: if_splits option.splits)
    then show "storedAliases db' n = storedAliases db n" by (simp add: storedAliases_def)
    show "storedTargets db' n = storedTargets db n" using that by (simp add: storedTargets_def lt)
  qed
  ultimately show "storedRoute db' n = (if n = name then Some (normalRoute route) else storedRoute db n)"
    by (auto simp: storedRoute_def md normalRoute_def)
qed

lemma replaceModel_Inl:
  assumes "wfDb db" and "replaceModel name route db = Inl e"
  shows "\<not> ValidateModelMetadata (mr_ContextWindow route) (mr_Capabilities route) \<or> \<not> distinct (mr_Aliases route)
    \<or> (\<exists>a \<in> set (mr_Aliases route). \<exists>m. m \<noteq> name \<and> Mapping.lookup (td_aliases db) a = Some m)"
proof -
  have *: "Mapping.lookup (Mapping.filter (\<lambda>a m. m \<noteq> name) (td_aliases db)) a \<noteq> None \<longleftrightarrow> (\<exists>m. m \<noteq> name \<and> Mapping.lookup (td_aliases db) a = Some m)" for a
    by (auto simp: gomap_simps split: option.splits)
  show ?thesis
    using assms(2) insertAliases_Inl [of name "mr_Aliases route" "Mapping.filter (\<lambda>a m. m \<noteq> name) (td_aliases db)", unfolded *]
    unfolding replaceModel_def by (auto split: if_splits sum.splits simp del: not_None_eq)
qed

lemma aliases_listed:
  assumes "wfDb db"
  shows "Mapping.lookup (td_aliases db) a = Some m \<longleftrightarrow> (\<exists>r. Mapping.lookup (ListModels db) m = Some r \<and> a \<in> set (mr_Aliases r))"
proof -
  have "finite {x. Mapping.lookup (td_aliases db) x = Some m}"
    by (rule finite_subset [of _ "Mapping.keys (td_aliases db)"]) (use assms in \<open>auto simp: wfDb_def keys_lookup\<close>)
  then show ?thesis
    using wfDb_aliases [OF assms, of a m] by (auto simp: lookup_ListModels [OF assms] storedRoute_def storedAliases_def)
qed

lemma deleteModel_lookup:
  assumes "wfDb db" and "DeleteModel name db = Inr db'"
  shows "wfDb db'" and "td_providers db' = td_providers db" and "storedRoute db' n = (if n = name then None else storedRoute db n)"
proof -
  have db': "db' = db\<lparr>td_targets := Mapping.filter (\<lambda>k t. fst k \<noteq> name) (td_targets db), td_metadata := Mapping.delete name (td_metadata db),
      td_aliases := Mapping.filter (\<lambda>alias m. m \<noteq> name) (td_aliases db)\<rparr>"
    using assms(2) by (auto simp: DeleteModel_def split: if_splits)
  have lt: "Mapping.lookup (td_targets db') (m, i) = (if m = name then None else Mapping.lookup (td_targets db) (m, i))" for m i
    by (auto simp: db' gomap_simps split: option.splits)
  have la: "Mapping.lookup (td_aliases db') a = Some m \<longleftrightarrow> m \<noteq> name \<and> Mapping.lookup (td_aliases db) a = Some m" for a m
    by (auto simp: db' gomap_simps split: option.splits)
  have md: "Mapping.lookup (td_metadata db') m = (if m = name then None else Mapping.lookup (td_metadata db) m)" for m
    by (simp add: db' gomap_simps)
  have "Mapping.lookup (td_metadata db') m \<noteq> None" if "Mapping.lookup (td_targets db') (m, i) = Some t" for m i t
    using that wfDb_targets [OF assms(1), of m i] unfolding lt md by (auto split: if_splits)
  moreover have "Mapping.lookup (td_metadata db') m \<noteq> None" if "Mapping.lookup (td_aliases db') a = Some m" for a m
    using that wfDb_aliases [OF assms(1), of a m] unfolding la md by auto
  ultimately show "wfDb db'" using assms(1) unfolding wfDb_def by (auto simp: db' intro: finite_keys_filter)
  show "td_providers db' = td_providers db" by (simp add: db')
  show "storedRoute db' n = (if n = name then None else storedRoute db n)"
    by (simp add: storedRoute_def md storedAliases_def storedTargets_def lt la)
qed

definition setRejected :: "TopologyDb \<Rightarrow> string \<Rightarrow> ModelRoute \<Rightarrow> bool" where
  "setRejected db name route \<longleftrightarrow>
     \<not> ValidateModelMetadata (mr_ContextWindow route) (mr_Capabilities route) \<or> \<not> distinct (mr_Aliases route)
     \<or> (\<exists>m r. m \<noteq> name \<and> Mapping.lookup (ListModels db) m = Some r \<and> set (mr_Aliases r) \<inter> set (mr_Aliases route) \<noteq> {})"

lemma setModel_map:
  assumes "wfDb db"
  shows "case SetModel name route db of
      Inr db' \<Rightarrow> \<not> setRejected db name route \<and> wfDb db' \<and> ListProviders db' = ListProviders db
        \<and> Mapping.lookup (ListModels db') = (Mapping.lookup (ListModels db))(name \<mapsto> normalRoute route)
    | Inl e \<Rightarrow> setRejected db name route"
proof (cases "SetModel name route db")
  case (Inl e)
  then show ?thesis
    using replaceModel_Inl [OF assms, of name route e] aliases_listed [OF assms] by (fastforce simp: SetModel_def setRejected_def)
next
  case (Inr db')
  note r = replaceModel_Inr [OF assms Inr [unfolded SetModel_def]]
  have "\<not> setRejected db name route" using r(6-8) aliases_listed [OF assms] unfolding setRejected_def by blast
  then show ?thesis using Inr r(1,2,5) by (auto simp: lookup_ListModels [OF assms] lookup_ListModels [OF r(1)] ListProviders_def fun_eq_iff)
qed

lemma deleteModel_map:
  assumes "wfDb db"
  shows "case DeleteModel name db of
      Inr db' \<Rightarrow> wfDb db' \<and> ListProviders db' = ListProviders db
        \<and> Mapping.lookup (ListModels db') = (Mapping.lookup (ListModels db))(name := None) \<and> Mapping.lookup (ListModels db) name \<noteq> None
    | Inl e \<Rightarrow> Mapping.lookup (ListModels db) name = None"
proof (cases "DeleteModel name db")
  case (Inl e)
  then show ?thesis by (auto simp: DeleteModel_def lookup_ListModels [OF assms] storedRoute_def split: if_splits)
next
  case (Inr db')
  note d = deleteModel_lookup [OF assms Inr]
  have "Mapping.lookup (td_metadata db) name \<noteq> None"
    using Inr wfDb_targets [OF assms, of name] assms
    by (auto simp: DeleteModel_def list_ex_iff keys_lookup wfDb_def split: if_splits)
  then show ?thesis
    using Inr d by (auto simp: lookup_ListModels [OF assms] lookup_ListModels [OF d(1)] ListProviders_def fun_eq_iff storedRoute_def)
qed

text \<open>
  C27: the tables of the topology store are a map from names to routes. Setting a model replaces
  exactly its own entry by the given route, whose aliases come back sorted, and deleting
  one removes exactly its entry; the providers are left alone and the tables stay
  consistent. Setting fails exactly when the metadata is invalid or an alias is repeated or
  belongs to another model, deleting exactly when there is no such model.
\<close>

theorem model_store_is_map:
  assumes "wfDb db"
  shows "(case SetModel name route db of
      Inr db' \<Rightarrow> \<not> setRejected db name route \<and> wfDb db' \<and> ListProviders db' = ListProviders db
        \<and> Mapping.lookup (ListModels db') = (Mapping.lookup (ListModels db))(name \<mapsto> normalRoute route)
    | Inl e \<Rightarrow> setRejected db name route)
    \<and> (case DeleteModel name db of
      Inr db' \<Rightarrow> wfDb db' \<and> ListProviders db' = ListProviders db
        \<and> Mapping.lookup (ListModels db') = (Mapping.lookup (ListModels db))(name := None) \<and> Mapping.lookup (ListModels db) name \<noteq> None
    | Inl e \<Rightarrow> Mapping.lookup (ListModels db) name = None)"
  using setModel_map [OF assms] deleteModel_map [OF assms] by blast

definition sampleRoute :: "string list \<Rightarrow> ModelRoute" where
  "sampleRoute as = \<lparr>mr_ContextWindow = 8, mr_Capabilities = [''tools''], mr_Aliases = as,
     mr_Targets = [\<lparr>tg_Provider = ''a'', tg_Model = ''up'', tg_API = []\<rparr>]\<rparr>"

lemma wf_empty: "wfDb emptyTopologyDb"
  by (simp add: wfDb_def emptyTopologyDb_def)

theorem model_store_is_map_witness:
  "\<exists>db. SetModel ''m'' (sampleRoute [''y'', ''x'']) emptyTopologyDb = Inr db \<and> wfDb db
     \<and> Mapping.lookup (ListModels db) ''m'' = Some (sampleRoute [''x'', ''y'']) \<and> setRejected db ''n'' (sampleRoute [''x''])"
proof -
  have "(case SetModel ''m'' (sampleRoute [''y'', ''x'']) emptyTopologyDb of Inl _ \<Rightarrow> False | Inr _ \<Rightarrow> True)" by code_simp
  then obtain db where db: "SetModel ''m'' (sampleRoute [''y'', ''x'']) emptyTopologyDb = Inr db" by (auto split: sum.splits)
  have "normalRoute (sampleRoute [''y'', ''x'']) = sampleRoute [''x'', ''y'']" by code_simp
  then have 1: "wfDb db" "Mapping.lookup (ListModels db) ''m'' = Some (sampleRoute [''x'', ''y''])"
    using model_store_is_map [OF wf_empty, of "''m''" "sampleRoute [''y'', ''x'']"] db by simp_all
  then have "setRejected db ''n'' (sampleRoute [''x''])" by (auto simp: setRejected_def sampleRoute_def intro!: exI [of _ "''m''"])
  then show ?thesis using db 1 by blast
qed

section \<open>Seeding\<close>

lemma row_roundtrip:
  "ValidateSecretRef (pc_APIKeyRef p) \<Longrightarrow> providerConfigFromRow (rowFromProviderConfig n p) = p\<lparr>pc_APIKey := []\<rparr>"
proof -
  assume ok: "ValidateSecretRef (pc_APIKeyRef p)"
  let ?ref = "if (case pc_APIKeyRef p of None \<Rightarrow> [] | Some r \<Rightarrow> sx_Env r) \<noteq> [] then Some \<lparr>sx_Env = (case pc_APIKeyRef p of None \<Rightarrow> [] | Some r \<Rightarrow> sx_Env r), sx_File = []\<rparr>
    else if (case pc_APIKeyRef p of None \<Rightarrow> [] | Some r \<Rightarrow> sx_File r) \<noteq> []
    then Some \<lparr>sx_Env = [], sx_File = (case pc_APIKeyRef p of None \<Rightarrow> [] | Some r \<Rightarrow> sx_File r)\<rparr> else None"
  have "?ref = pc_APIKeyRef p"
  proof (cases "pc_APIKeyRef p")
    case (Some r)
    then show ?thesis using ok by (cases r) (simp add: ValidateSecretRef_def split: if_splits)
  qed simp
  then have ref: "pc_APIKeyRef (providerConfigFromRow (rowFromProviderConfig n p)) = pc_APIKeyRef p"
    unfolding providerConfigFromRow_def rowFromProviderConfig_def FileProvider.select_convs ProviderRow.select_convs .
  show ?thesis
    by (rule FileProvider.equality) (simp_all only: ref FileProvider.simps ProviderConfig.simps, simp_all add: providerConfigFromRow_def rowFromProviderConfig_def)
qed

lemma checkAliases_insert:
  "checkAliases models m as seen = Inr seen' \<Longrightarrow> foldE (insertAlias m) as seen = Inr seen'"
  by (induction as arbitrary: seen) (auto simp: insertAlias_def [abs_def] split: if_splits)

definition fileRoutes :: "(string, ModelConfig) mapping \<Rightarrow> (string, ModelRoute) mapping" where
  "fileRoutes models = Mapping.map_values (\<lambda>name mc. routeFromModelConfig mc) models"

lemma ordered_keys_fileRoutes: "Mapping.ordered_keys (fileRoutes models) = Mapping.ordered_keys models"
  by (simp add: fileRoutes_def Mapping.ordered_keys_def)

text \<open>The validation of the aliases and the seed walk the models in lockstep: the aliases seen are those stored.\<close>

lemma seed_model_step:
  assumes "wfDb db" and "checkModel models m (td_aliases db) = Inr seen" and "Mapping.lookup models m = Some mc"
    and "\<forall>a. Mapping.lookup (td_aliases db) a \<noteq> Some m"
  obtains db' where "seedModel (fileRoutes models) m db = Inr db'" "td_aliases db' = seen"
proof -
  have keep: "Mapping.filter (\<lambda>a n. n \<noteq> m) (td_aliases db) = td_aliases db"
    by (rule mapping_eqI) (use assms(4) in \<open>auto simp: gomap_simps split: option.splits\<close>)
  have "ValidateModelMetadata (mc_ContextWindow mc) (mc_Capabilities mc)" "foldE (insertAlias m) (mc_Aliases mc) (td_aliases db) = Inr seen"
    using assms(2,3) by (auto simp: checkModel_def intro: checkAliases_insert split: if_splits)
  then show ?thesis
    using that assms(3) by (simp add: seedModel_def fileRoutes_def gomap_simps replaceModel_def routeFromModelConfig_def keep)
qed

lemma seed_models:
  assumes "foldE (checkModel models) ms (td_aliases db) = Inr seen" and "distinct ms" and "set ms \<subseteq> Mapping.keys models" and "wfDb db"
    and "\<forall>a c. Mapping.lookup (td_aliases db) a = Some c \<longrightarrow> c \<notin> set ms"
  shows "\<exists>db'. foldE (seedModel (fileRoutes models)) ms db = Inr db' \<and> wfDb db' \<and> td_providers db' = td_providers db
    \<and> (\<forall>n. storedRoute db' n = (if n \<in> set ms then map_option (normalRoute \<circ> routeFromModelConfig) (Mapping.lookup models n) else storedRoute db n))"
  using assms
proof (induction ms arbitrary: db)
  case (Cons m ms)
  obtain mc where mc: "Mapping.lookup models m = Some mc" using Cons.prems(3) by (auto simp: keys_lookup)
  obtain s1 where s1: "checkModel models m (td_aliases db) = Inr s1" "foldE (checkModel models) ms s1 = Inr seen"
    using Cons.prems(1) by (auto split: sum.splits)
  obtain db1 where db1: "seedModel (fileRoutes models) m db = Inr db1" "td_aliases db1 = s1"
    using seed_model_step [OF Cons.prems(4) s1(1) mc] Cons.prems(5) by auto
  have rep: "replaceModel m (routeFromModelConfig mc) db = Inr db1"
    using db1(1) mc by (simp add: seedModel_def fileRoutes_def gomap_simps)
  note r = replaceModel_Inr [OF Cons.prems(4) rep]
  have "c \<notin> set ms" if "Mapping.lookup (td_aliases db1) a = Some c" for a c
    using that Cons.prems(2,5) unfolding r(4) lookup_bind_list by (auto simp: gomap_simps split: if_splits option.splits)
  with Cons.IH [of db1] s1(2) db1(2) Cons.prems(2,3) r(1)
  obtain db' where db': "foldE (seedModel (fileRoutes models)) ms db1 = Inr db'" "wfDb db'" "td_providers db' = td_providers db1"
    "\<forall>n. storedRoute db' n = (if n \<in> set ms then map_option (normalRoute \<circ> routeFromModelConfig) (Mapping.lookup models n) else storedRoute db1 n)"
    by auto
  have "storedRoute db' n = (if n \<in> set (m # ms) then map_option (normalRoute \<circ> routeFromModelConfig) (Mapping.lookup models n) else storedRoute db n)" for n
    using db'(4) r(5) [of n] mc Cons.prems(2) by auto
  then show ?case using db1(1) db'(1-3) r(2) by (intro exI [of _ db']) simp
qed simp

lemma seed_providers:
  assumes "distinct ns" and "\<forall>n \<in> set ns. pr_Name (row n) = n \<and> ValidateDataBoundary (pr_DataBoundary (row n)) \<and> Mapping.lookup (td_providers db) n = None"
    and "wfDb db"
  shows "\<exists>db'. foldE seedProvider (map row ns) db = Inr db' \<and> wfDb db'
    \<and> td_aliases db' = td_aliases db \<and> (\<forall>n. storedRoute db' n = storedRoute db n)
    \<and> (\<forall>n. Mapping.lookup (td_providers db') n = (if n \<in> set ns then Some (row n) else Mapping.lookup (td_providers db) n))"
  using assms
proof (induction ns arbitrary: db)
  case (Cons n ns)
  let ?db1 = "db\<lparr>td_providers := Mapping.update n (row n) (td_providers db)\<rparr>"
  have "wfDb ?db1" using Cons.prems(2,3) by (auto simp: wfDb_def gomap_simps split: if_splits)
  moreover have "\<forall>x \<in> set ns. pr_Name (row x) = x \<and> ValidateDataBoundary (pr_DataBoundary (row x)) \<and> Mapping.lookup (td_providers ?db1) x = None"
    using Cons.prems(1,2) by (auto simp: gomap_simps)
  ultimately obtain db' where db': "foldE seedProvider (map row ns) ?db1 = Inr db'" "wfDb db'" "td_aliases db' = td_aliases db"
    "\<forall>n. storedRoute db' n = storedRoute ?db1 n"
    "\<forall>x. Mapping.lookup (td_providers db') x = (if x \<in> set ns then Some (row x) else Mapping.lookup (td_providers ?db1) x)"
    using Cons.IH [of ?db1] Cons.prems(1) by auto
  have "seedProvider (row n) db = Inr ?db1" using Cons.prems(2) by (simp add: seedProvider_def)
  moreover have "storedRoute ?db1 x = storedRoute db x" for x by (simp add: storedRoute_def storedAliases_def storedTargets_def)
  ultimately show ?case using db' by (intro exI [of _ db']) (auto simp: gomap_simps)
qed simp

lemma overlay_lookup:
  assumes "wfDb db"
  shows "Mapping.lookup (rc_Providers (Overlay raw db)) n = map_option providerConfigFromRow (Mapping.lookup (td_providers db) n)"
    and "Mapping.lookup (cf_Models (rc_Topology (Overlay raw db))) n = map_option modelConfigFromRoute (storedRoute db n)"
proof -
  let ?g = "\<lambda>k. the (Mapping.lookup (td_providers db) k)"
  have fin: "finite (Mapping.keys (td_providers db))" and name: "\<And>k p. Mapping.lookup (td_providers db) k = Some p \<Longrightarrow> pr_Name p = k"
    using assms by (auto simp: wfDb_def)
  have "Mapping.lookup (fold (\<lambda>p m. Mapping.update (pr_Name p) (providerConfigFromRow p) m) (map ?g ks) m) n
      = (if n \<in> set ks then Some (providerConfigFromRow (?g n)) else Mapping.lookup m n)"
    if "\<forall>k \<in> set ks. Mapping.lookup (td_providers db) k \<noteq> None" for ks m
    using that
  proof (induction ks arbitrary: m)
    case (Cons k ks)
    have "pr_Name (?g k) = k" using Cons.prems name by auto
    then show ?case using Cons by (auto simp: gomap_simps)
  qed simp
  from this [of "Mapping.ordered_keys (td_providers db)" Mapping.empty] fin
  show "Mapping.lookup (rc_Providers (Overlay raw db)) n = map_option providerConfigFromRow (Mapping.lookup (td_providers db) n)"
    by (auto simp: Overlay_def OverlayFrom_def ListProviders_def keys_lookup)
  show "Mapping.lookup (cf_Models (rc_Topology (Overlay raw db))) n = map_option modelConfigFromRoute (storedRoute db n)"
    by (simp add: Overlay_def OverlayFrom_def gomap_simps lookup_ListModels [OF assms])
qed

lemma seed_checks:
  assumes "finite (Mapping.keys (rc_Providers raw))"
  shows "firstError (checkSeedProvider raw) (Mapping.ordered_keys (rc_Providers raw)) = None \<longleftrightarrow>
    (\<forall>n p. Mapping.lookup (rc_Providers raw) n = Some p \<longrightarrow> ValidateDataBoundary (pc_DataBoundary p) \<and> ValidateSecretRef (pc_APIKeyRef p))"
proof -
  have one: "checkSeedProvider raw n = None \<longleftrightarrow>
      (\<forall>p. Mapping.lookup (rc_Providers raw) n = Some p \<longrightarrow> ValidateDataBoundary (pc_DataBoundary p) \<and> ValidateSecretRef (pc_APIKeyRef p))" for n
    by (cases "Mapping.lookup (rc_Providers raw) n") (simp_all add: checkSeedProvider_def)
  show ?thesis unfolding firstError_None one set_ordered_keys [OF assms] by (auto simp: keys_lookup)
qed

lemma seed_fresh:
  assumes "finite (Mapping.keys (rc_Providers raw))" and "finite (Mapping.keys (cf_Models (rc_Topology raw)))"
    and "validateModelAliases (cf_Models (rc_Topology raw)) = None"
    and "firstError (checkSeedProvider raw) (Mapping.ordered_keys (rc_Providers raw)) = None"
  obtains db where "SeedIfEmpty raw emptyTopologyDb = Inr db" and "wfDb db" and "td_seeded db"
    and "\<And>n. Mapping.lookup (td_providers db) n = map_option (rowFromProviderConfig n) (Mapping.lookup (rc_Providers raw) n)"
    and "\<And>n. storedRoute db n = map_option (normalRoute \<circ> routeFromModelConfig) (Mapping.lookup (cf_Models (rc_Topology raw)) n)"
proof -
  let ?models = "cf_Models (rc_Topology raw)" and ?ps = "rc_Providers raw"
  let ?row = "\<lambda>n. rowFromProviderConfig n (the (Mapping.lookup ?ps n))"
  have "\<forall>n \<in> set (Mapping.ordered_keys ?ps). pr_Name (?row n) = n \<and> ValidateDataBoundary (pr_DataBoundary (?row n))
      \<and> Mapping.lookup (td_providers emptyTopologyDb) n = None"
    using assms(4) [unfolded seed_checks [OF assms(1)]] assms(1) by (auto simp: rowFromProviderConfig_def emptyTopologyDb_def keys_lookup)
  from seed_providers [OF _ this wf_empty]
  obtain db1 where db1: "foldE seedProvider (map ?row (Mapping.ordered_keys ?ps)) emptyTopologyDb = Inr db1" "wfDb db1"
    "td_aliases db1 = Mapping.empty" "\<forall>n. storedRoute db1 n = None"
    "\<forall>n. Mapping.lookup (td_providers db1) n = (if n \<in> Mapping.keys ?ps then Some (?row n) else None)"
    using assms(1) by (auto simp: emptyTopologyDb_def storedRoute_def)
  obtain seen where "foldE (checkModel ?models) (Mapping.ordered_keys ?models) (td_aliases db1) = Inr seen"
    using assms(3) db1(3) by (auto simp: validateModelAliases_def split: sum.splits)
  from seed_models [OF this _ _ db1(2)]
  obtain db2 where db2: "foldE (seedModel (fileRoutes ?models)) (Mapping.ordered_keys ?models) db1 = Inr db2" "wfDb db2"
    "td_providers db2 = td_providers db1"
    "\<forall>n. storedRoute db2 n = (if n \<in> Mapping.keys ?models then map_option (normalRoute \<circ> routeFromModelConfig) (Mapping.lookup ?models n) else None)"
    using assms(2) db1(3,4) by auto
  show ?thesis
  proof (rule that [of "db2\<lparr>td_seeded := True\<rparr>"])
    show "SeedIfEmpty raw emptyTopologyDb = Inr (db2\<lparr>td_seeded := True\<rparr>)"
      using assms(3,4) db1(1) db2(1) by (simp add: SeedIfEmpty_def Seed_def fileRoutes_def [symmetric] ordered_keys_fileRoutes emptyTopologyDb_def)
    show "wfDb (db2\<lparr>td_seeded := True\<rparr>)" using db2(2) by (simp add: wfDb_def)
    show "Mapping.lookup (td_providers (db2\<lparr>td_seeded := True\<rparr>)) n = map_option (rowFromProviderConfig n) (Mapping.lookup ?ps n)" for n
      using db1(5) by (cases "Mapping.lookup ?ps n") (simp_all add: db2(3) keys_lookup)
    show "storedRoute (db2\<lparr>td_seeded := True\<rparr>) n = map_option (normalRoute \<circ> routeFromModelConfig) (Mapping.lookup ?models n)" for n
      using spec [OF db2(4), of n] by (cases "Mapping.lookup ?models n") (simp_all add: storedRoute_def storedAliases_def storedTargets_def keys_lookup)
  qed simp
qed

text \<open>
  C28: the one-time import loses nothing but the secrets. Seeding a fresh store succeeds exactly
  when the aliases of the file are valid and every provider has a known data boundary and a
  well-shaped reference; then the configuration overlaid from the store is the one of the
  file, without resolved keys and with the aliases of each model sorted. A seeded store is
  never written by a later import, whatever the file says then.
\<close>

theorem seed_overlay_roundtrip:
  assumes "finite (Mapping.keys (rc_Providers raw))" and "finite (Mapping.keys (cf_Models (rc_Topology raw)))"
  shows "if validateModelAliases (cf_Models (rc_Topology raw)) = None
      \<and> (\<forall>n p. Mapping.lookup (rc_Providers raw) n = Some p \<longrightarrow> ValidateDataBoundary (pc_DataBoundary p) \<and> ValidateSecretRef (pc_APIKeyRef p))
    then \<exists>db. SeedIfEmpty raw emptyTopologyDb = Inr db \<and> wfDb db
      \<and> Mapping.lookup (rc_Providers (Overlay raw db)) = map_option (\<lambda>p. p\<lparr>pc_APIKey := []\<rparr>) \<circ> Mapping.lookup (rc_Providers raw)
      \<and> Mapping.lookup (cf_Models (rc_Topology (Overlay raw db)))
          = map_option (\<lambda>mc. mc\<lparr>mc_Aliases := sort (mc_Aliases mc)\<rparr>) \<circ> Mapping.lookup (cf_Models (rc_Topology raw))
      \<and> (\<forall>raw' db'. SeedIfEmpty raw' db = Inr db' \<longrightarrow> db' = db)
    else \<exists>e. SeedIfEmpty raw emptyTopologyDb = Inl e"
proof (cases "validateModelAliases (cf_Models (rc_Topology raw)) = None
    \<and> firstError (checkSeedProvider raw) (Mapping.ordered_keys (rc_Providers raw)) = None")
  case False
  then show ?thesis unfolding seed_checks [OF assms(1), symmetric] by (auto simp: SeedIfEmpty_def split: option.splits)
next
  case True
  then obtain db where db: "SeedIfEmpty raw emptyTopologyDb = Inr db" "wfDb db" "td_seeded db"
    "\<And>n. Mapping.lookup (td_providers db) n = map_option (rowFromProviderConfig n) (Mapping.lookup (rc_Providers raw) n)"
    "\<And>n. storedRoute db n = map_option (normalRoute \<circ> routeFromModelConfig) (Mapping.lookup (cf_Models (rc_Topology raw)) n)"
    using seed_fresh [OF assms] by metis
  have valid: "\<forall>n p. Mapping.lookup (rc_Providers raw) n = Some p \<longrightarrow> ValidateDataBoundary (pc_DataBoundary p) \<and> ValidateSecretRef (pc_APIKeyRef p)"
    using True unfolding seed_checks [OF assms(1)] by blast
  then have "Mapping.lookup (rc_Providers (Overlay raw db)) n = map_option (\<lambda>p. p\<lparr>pc_APIKey := []\<rparr>) (Mapping.lookup (rc_Providers raw) n)" for n
    by (cases "Mapping.lookup (rc_Providers raw) n") (simp_all add: overlay_lookup [OF db(2)] db(4) row_roundtrip)
  moreover have "Mapping.lookup (cf_Models (rc_Topology (Overlay raw db))) n
      = map_option (\<lambda>mc. mc\<lparr>mc_Aliases := sort (mc_Aliases mc)\<rparr>) (Mapping.lookup (cf_Models (rc_Topology raw)) n)" for n
    by (cases "Mapping.lookup (cf_Models (rc_Topology raw)) n")
      (simp_all add: overlay_lookup [OF db(2)] db(5) modelConfigFromRoute_def normalRoute_def routeFromModelConfig_def)
  moreover have "\<forall>raw' db'. SeedIfEmpty raw' db = Inr db' \<longrightarrow> db' = db"
    using db(3) by (auto simp: SeedIfEmpty_def Seed_def split: option.splits)
  ultimately show ?thesis using True valid db(1,2) by (auto simp: fun_eq_iff)
qed

definition sampleRaw :: RawConfig where
  "sampleRaw = \<lparr>rc_Providers = Mapping.update ''a'' \<lparr>pc_DataBoundary = ''internal'', pc_Type = ''mock'', pc_BaseURL = ''u'',
       pc_APIKey = ''resolved'', pc_Region = ''eu'', pc_AuthMode = [], pc_AuthProfile = [], pc_AuthHeader = [],
       pc_GuardrailID = [], pc_GuardrailVersion = [], pc_APIKeyRef = Some \<lparr>sx_Env = ''KEY'', sx_File = []\<rparr>\<rparr> Mapping.empty,
     rc_Topology = sampleTopology\<rparr>"

lemma sampleRaw_finite: "finite (Mapping.keys (rc_Providers sampleRaw))" "finite (Mapping.keys (cf_Models (rc_Topology sampleRaw)))"
  using sample_finite by (simp_all add: sampleRaw_def)

lemma sampleRaw_valid:
  "validateModelAliases (cf_Models (rc_Topology sampleRaw)) = None"
  "\<forall>n p. Mapping.lookup (rc_Providers sampleRaw) n = Some p \<longrightarrow> ValidateDataBoundary (pc_DataBoundary p) \<and> ValidateSecretRef (pc_APIKeyRef p)"
proof -
  show "validateModelAliases (cf_Models (rc_Topology sampleRaw)) = None" by code_simp
  have "firstError (checkSeedProvider sampleRaw) (Mapping.ordered_keys (rc_Providers sampleRaw)) = None" by code_simp
  then show "\<forall>n p. Mapping.lookup (rc_Providers sampleRaw) n = Some p \<longrightarrow> ValidateDataBoundary (pc_DataBoundary p) \<and> ValidateSecretRef (pc_APIKeyRef p)"
    unfolding seed_checks [OF sampleRaw_finite(1)] .
qed

theorem seed_overlay_roundtrip_witness:
  "\<exists>db. SeedIfEmpty sampleRaw emptyTopologyDb = Inr db
     \<and> map_option pc_APIKey (Mapping.lookup (rc_Providers (Overlay sampleRaw db)) ''a'') = Some []
     \<and> Mapping.lookup (cf_Models (rc_Topology (Overlay sampleRaw db))) ''m-1'' \<noteq> None"
proof -
  obtain db where db: "SeedIfEmpty sampleRaw emptyTopologyDb = Inr db"
    "Mapping.lookup (rc_Providers (Overlay sampleRaw db)) = map_option (\<lambda>p. p\<lparr>pc_APIKey := []\<rparr>) \<circ> Mapping.lookup (rc_Providers sampleRaw)"
    "Mapping.lookup (cf_Models (rc_Topology (Overlay sampleRaw db)))
      = map_option (\<lambda>mc. mc\<lparr>mc_Aliases := sort (mc_Aliases mc)\<rparr>) \<circ> Mapping.lookup (cf_Models (rc_Topology sampleRaw))"
    using seed_overlay_roundtrip [OF sampleRaw_finite] sampleRaw_valid by auto
  moreover have "Mapping.lookup (rc_Providers sampleRaw) ''a'' \<noteq> None" "Mapping.lookup (cf_Models (rc_Topology sampleRaw)) ''m-1'' \<noteq> None"
    by code_simp+
  ultimately show ?thesis by auto
qed

end
