(* ===== verification/GatewayProps.thy ===== *)
theory GatewayProps
  imports Gateway SyncerProps ProviderStoreProps
begin

text \<open>
  What the assembly of the data plane guarantees: how the layers of a team's budget combine,
  and that a topology is published only after it was validated, whether it comes from the
  file or from a write, and survives a reload.
\<close>

section \<open>Layers of a budget\<close>

text \<open>
  The effective window of a team against its layers: the configured window \<open>base\<close>, the limit
  of the policies with its hardness, the threshold of a strict tier and the lease. The lease
  \<open>binds\<close> when it is below every other limit.
\<close>

definition leaseFloor :: "Lease option \<Rightarrow> int" where
  "leaseFloor lease = (case lease of None \<Rightarrow> 0 | Some l \<Rightarrow> max 1 (le_AllowanceMicroUSD l))"

definition leaseBinds :: "int \<Rightarrow> int \<Rightarrow> Lease option \<Rightarrow> bool" where
  "leaseBinds base limit lease \<longleftrightarrow> lease \<noteq> None \<and> (\<forall>x \<in> {base, limit}. 0 < x \<longrightarrow> leaseFloor lease < x)"

definition layeredWindow :: "int \<times> string \<Rightarrow> int \<Rightarrow> bool \<Rightarrow> int \<Rightarrow> Lease option \<Rightarrow> int \<times> string \<Rightarrow> bool" where
  "layeredWindow base limit hard routing lease w \<longleftrightarrow>
     (let layers = {x \<in> {fst base, limit, leaseFloor lease}. 0 < x}
      in if layers = {} then fst w = max 0 routing \<and> (0 < routing \<longrightarrow> snd w = ''warn'')
         else fst w = Min layers \<and>
           (snd w \<noteq> ''warn'' \<longleftrightarrow> snd base = ''block'' \<or> (0 < limit \<and> hard)
              \<or> (leaseBinds (fst base) limit lease \<and> (\<exists>l. lease = Some l \<and> le_HardCap l))
              \<or> (limit \<le> 0 \<and> \<not> leaseBinds (fst base) limit lease \<and> snd base \<noteq> ''warn'')))"

lemma positive_layers:
  "{x \<in> {a, b, c}. 0 < x} = (if 0 < a then {a} else {}) \<union> (if 0 < b then {b} else {}) \<union> (if 0 < c then {c} else {})" for a :: int
  by auto

lemma window_layers:
  assumes "0 \<le> fst base"
  shows "layeredWindow base limit hard routing (Option.bind leases (\<lambda>t. lt_Get t team period))
    (meterRouting routing (clampLease leases team period (overlayBudget limit hard base)))"
proof (cases "Option.bind leases (\<lambda>t. lt_Get t team period)")
  case None
  then have "clampLease leases team period w = w" for w by (auto simp: clampLease_def split: option.splits)
  then show ?thesis
    using assms unfolding None layeredWindow_def positive_layers leaseFloor_def leaseBinds_def meterRouting_def overlayBudget_def option.case
    by (cases base; cases "0 < limit"; cases "0 < fst base") (auto simp: min_def)
next
  case (Some l)
  then obtain t where t: "leases = Some t" "lt_Get t team period = Some l" by (auto simp: bind_eq_Some_conv)
  define a where "a = max 1 (le_AllowanceMicroUSD l)"
  have clamp: "clampLease leases team period w = (if fst w \<noteq> 0 \<and> a \<ge> fst w then w
      else if le_HardCap l \<or> snd w = ''block'' then (a, ''block'') else (a, ''warn''))" for w
    by (simp add: clampLease_def t a_def max_def Let_def)
  have "0 < a" by (simp add: a_def)
  then show ?thesis
    using assms unfolding clamp Some layeredWindow_def positive_layers leaseFloor_def leaseBinds_def meterRouting_def overlayBudget_def option.case a_def [symmetric]
    by (cases base; cases "0 < limit"; cases "0 < fst base"; cases "le_HardCap l") (auto simp: min_def)
qed

definition baseOf :: "TeamPolicy option \<Rightarrow> TeamPolicy" where
  "baseOf b = (case b of None \<Rightarrow> zeroTeamPolicy | Some p \<Rightarrow> p)"

lemma overlay_windows:
  "(tp_BudgetMicrosPerMonth (overlayTeam leases team lims p), tp_BudgetExceeded (overlayTeam leases team lims p))
    = meterRouting (tl_RoutingBudgetMicrosPerMonth lims) (clampLease leases team PeriodCalendarMonth
        (overlayBudget (tl_BudgetMicrosPerMonth lims) (tl_BudgetHard lims) (tp_BudgetMicrosPerMonth p, tp_BudgetExceeded p)))"
  "(tp_BudgetMicrosPerDay (overlayTeam leases team lims p), tp_BudgetDayExceeded (overlayTeam leases team lims p))
    = meterRouting (tl_RoutingBudgetMicrosPerDay lims) (clampLease leases team PeriodCalendarDay
        (overlayBudget (tl_BudgetMicrosPerDay lims) (tl_BudgetDayHard lims) (tp_BudgetMicrosPerDay p, tp_BudgetDayExceeded p)))"
  by (simp_all add: overlayTeam_def PolicyFromLimits_def Let_def)

text \<open>
  The effective budget of a governed team is the tightest of its layers, window by window.
  The limit is the least positive one of configuration or key store, policies and lease, an
  exhausted lease counting as one micro-dollar; only when there is none does the threshold
  of a strict tier serve as a meter that never blocks. It blocks when the configured knob
  says block, when the policy budget is hard, or when a hard lease binds. A knob left at
  its default, which the governor enforces, holds only while neither a policy budget nor a
  binding lease is layered on it: a soft one turns it into a warning.
\<close>

lemma lookup_layers:
  assumes "TeamLimitsOf store team = Some (Some lims)" and "p = baseOf (lookupBase getTeam policies team)"
    and "0 \<le> tp_BudgetMicrosPerMonth p" and "0 \<le> tp_BudgetMicrosPerDay p"
  shows "\<exists>tp. gw_TeamLookup getTeam policies (Some store) leases team = Some (Some tp)
    \<and> layeredWindow (tp_BudgetMicrosPerMonth p, tp_BudgetExceeded p) (tl_BudgetMicrosPerMonth lims) (tl_BudgetHard lims)
        (tl_RoutingBudgetMicrosPerMonth lims) (Option.bind leases (\<lambda>t. lt_Get t team PeriodCalendarMonth))
        (tp_BudgetMicrosPerMonth tp, tp_BudgetExceeded tp)
    \<and> layeredWindow (tp_BudgetMicrosPerDay p, tp_BudgetDayExceeded p) (tl_BudgetMicrosPerDay lims) (tl_BudgetDayHard lims)
        (tl_RoutingBudgetMicrosPerDay lims) (Option.bind leases (\<lambda>t. lt_Get t team PeriodCalendarDay))
        (tp_BudgetMicrosPerDay tp, tp_BudgetDayExceeded tp)"
  using assms(1,3,4) unfolding assms(2)
  by (simp add: gw_TeamLookup_def baseOf_def [symmetric] overlay_windows window_layers)

definition softLimits :: TeamLimits where
  "softLimits = noTeamLimits\<lparr>tl_BudgetMicrosPerMonth := 500\<rparr>"

definition sampleGoverned :: PolicyStore where
  "sampleGoverned = NewEmptyStore\<lparr>po_snap := map_option (\<lambda>s. s\<lparr>sn_teams := Mapping.update ''acme'' softLimits Mapping.empty\<rparr>) (po_snap NewEmptyStore)\<rparr>"

definition configured :: "(string, TeamPolicy) mapping" where
  "configured = Mapping.update ''acme'' (zeroTeamPolicy\<lparr>tp_BudgetMicrosPerMonth := 100\<rparr>) Mapping.empty"

text \<open>
  A team whose configured limit blocks by default and that gets a larger soft policy budget
  is only warned at its configured limit.
\<close>

lemma soft_layer_loosens_default:
  "tp_BudgetExceeded (baseOf (lookupBase (\<lambda>_. Inr None) configured ''acme'')) = [] \<and>
   (\<exists>tp. gw_TeamLookup (\<lambda>_. Inr None) configured (Some sampleGoverned) None ''acme'' = Some (Some tp)
      \<and> tp_BudgetMicrosPerMonth tp = 100 \<and> tp_BudgetExceeded tp = ''warn'')"
proof -
  have lims: "TeamLimitsOf sampleGoverned ''acme'' = Some (Some softLimits)"
    by (simp add: sampleGoverned_def TeamLimitsOf_def NewEmptyStore_def gomap_simps)
  have base: "baseOf (lookupBase (\<lambda>_. Inr None) configured ''acme'') = zeroTeamPolicy\<lparr>tp_BudgetMicrosPerMonth := 100\<rparr>"
    by (simp add: lookupBase_def configured_def baseOf_def gomap_simps)
  obtain tp where tp: "gw_TeamLookup (\<lambda>_. Inr None) configured (Some sampleGoverned) None ''acme'' = Some (Some tp)"
    "layeredWindow (100, []) 500 False 0 None (tp_BudgetMicrosPerMonth tp, tp_BudgetExceeded tp)"
    using lookup_layers [OF lims refl, of "\<lambda>_. Inr None" configured None]
    by (auto simp: base zeroTeamPolicy_def softLimits_def noTeamLimits_def)
  have "tp_BudgetMicrosPerMonth tp = 100" "tp_BudgetExceeded tp = ''warn''"
    using tp(2) unfolding layeredWindow_def positive_layers by (simp_all add: leaseFloor_def leaseBinds_def Let_def)
  then show ?thesis using tp(1) by (auto simp: base zeroTeamPolicy_def)
qed

section \<open>Publishing a topology\<close>

lemma retain_idem: "RetainBreakers ids (RetainBreakers ids r) = RetainBreakers ids r"
proof -
  have "Mapping.filter P (Mapping.filter P m) = Mapping.filter P m" for P and m :: "(string, brkState) mapping"
    by (rule mapping_eqI) (auto simp: gomap_simps split: option.splits)
  then show ?thesis by (simp add: RetainBreakers_def brk_Retain_def)
qed

lemma publish_idem: "publishTopology built (publishTopology built g) = publishTopology built g"
  by (simp add: publishTopology_def retain_idem)

lemma resolve_models: "ResolveProviders resolve ok raw = Inr cfg \<Longrightarrow> cf_Models cfg = cf_Models (rc_Topology raw)"
  by (auto simp: ResolveProviders_def split: sum.splits)

lemma finite_ListModels: "wfDb db \<Longrightarrow> finite (Mapping.keys (ListModels db))"
  by (rule finite_subset [of _ "Mapping.keys (td_metadata db)"])
    (auto simp: keys_lookup lookup_ListModels storedRoute_def wfDb_def)

lemma finite_overlay: "finite (Mapping.keys models) \<Longrightarrow> finite (Mapping.keys (cf_Models (rc_Topology (OverlayFrom raw rows models))))"
  by (simp add: OverlayFrom_def)

text \<open>In the durable modes the admission bound needs a context window for everything that is priced.\<close>

definition boundedModels :: "(string \<Rightarrow> string) \<Rightarrow> GatewayConfig \<Rightarrow> LiveState \<Rightarrow> bool" where
  "boundedModels clean cfg st \<longleftrightarrow>
     (durableJournalPath clean cfg \<noteq> [] \<or> gc_SharedGovernance cfg \<longrightarrow>
        (\<forall>m mc t. Route st m = Some mc \<and> t \<in> set (mc_Targets mc) \<and> hasRateIn st t \<longrightarrow> 0 < mc_ContextWindow mc))
     \<and> (gc_SharedGovernance cfg \<longrightarrow> (\<forall>m mc. Route st m = Some mc \<longrightarrow> 0 < mc_ContextWindow mc \<and> 5 * mc_ContextWindow mc \<le> MaxInt64))"

lemma durable_bounded:
  assumes "validateDurableModels clean cfg st = None" and "finite (Mapping.keys (ls_models st))"
  shows "boundedModels clean cfg st"
proof (cases "durableJournalPath clean cfg = [] \<and> \<not> gc_SharedGovernance cfg")
  case False
  then have all: "checkDurableModel cfg st m = None" if "Route st m \<noteq> None" for m
    using assms that by (auto simp: validateDurableModels_def firstError_None ModelNames_def Route_def keys_lookup)
  have "(t \<in> set (mc_Targets mc) \<longrightarrow> hasRateIn st t \<longrightarrow> 0 < mc_ContextWindow mc)
      \<and> (gc_SharedGovernance cfg \<longrightarrow> 0 < mc_ContextWindow mc \<and> 5 * mc_ContextWindow mc \<le> MaxInt64)"
    if "Route st m = Some mc" for m mc t
    using all [of m] that by (auto simp: checkDurableModel_def list_ex_iff MaxInt64_def split: if_splits)
  then show ?thesis unfolding boundedModels_def by blast
qed (simp add: boundedModels_def)

lemma built_ok:
  assumes "ResolveProviders (ge_resolve env) (ge_brokerOK env) eff = Inr cfg" and "buildTopology env raw cfg = Inr built"
    and "finite (Mapping.keys (cf_Models (rc_Topology eff)))"
  shows "wfTopology (fst built)" and "boundedModels (ge_clean env) raw (fst built)"
proof -
  have b: "BuildStateWith (ge_factory env) cfg = Inr (fst built, snd built)" "validateDurableModels (ge_clean env) raw (fst built) = None"
    using assms(2) by (auto simp: buildTopology_def split: sum.splits option.splits)
  have fin: "finite (Mapping.keys (cf_Models cfg))" using assms(3) by (simp add: resolve_models [OF assms(1)])
  show "wfTopology (fst built)" by (rule build_wf(1) [OF b(1) fin])
  then show "boundedModels (ge_clean env) raw (fst built)" using durable_bounded [OF b(2)] by (simp add: wfTopology_def)
qed

text \<open>What a running journal pins: the mode, the path and the identity towards the control plane.\<close>

definition pinnedIdentity :: "(string \<Rightarrow> string) \<Rightarrow> GatewayConfig \<Rightarrow> GatewayConfig \<Rightarrow> bool" where
  "pinnedIdentity clean a b \<longleftrightarrow>
     gc_KeyStore a = gc_KeyStore b \<and> gc_SharedGovernance a = gc_SharedGovernance b \<and> durableJournalPath clean a = durableJournalPath clean b
     \<and> (durableJournalPath clean a \<noteq> [] \<or> gc_SharedGovernance a \<longrightarrow>
          (\<exists>x y. gc_ControlPlane a = Some x \<and> gc_ControlPlane b = Some y \<and> cc_URL x = cc_URL y \<and> cc_Dataplane x = cc_Dataplane y
             \<and> cc_Token x = cc_Token y \<and> cc_RequireSync x = cc_RequireSync y \<and> cc_MaxPolicyAge x = cc_MaxPolicyAge y))
     \<and> (durableJournalPath clean a \<noteq> [] \<longrightarrow> gc_BudgetLocation a = gc_BudgetLocation b)"

lemma reload_pinned:
  assumes "validateAuthorityReload clean a b = None"
  shows "pinnedIdentity clean a b"
proof -
  have sh: "validateSharedReload a b = None" using assms by (auto simp: validateAuthorityReload_def split: option.splits)
  have j: "durableJournalPath clean a = durableJournalPath clean b"
    "durableJournalPath clean a \<noteq> [] \<Longrightarrow> gc_BudgetLocation a = gc_BudgetLocation b
      \<and> (\<exists>x y. gc_ControlPlane a = Some x \<and> gc_ControlPlane b = Some y \<and> sameIdentity x y)"
    using assms by (auto simp: validateAuthorityReload_def Let_def split: option.splits if_splits)
  have s: "gc_KeyStore a = gc_KeyStore b" "gc_SharedGovernance a = gc_SharedGovernance b"
    using sh by (auto simp: validateSharedReload_def split: if_splits)
  have c: "\<exists>x y. gc_ControlPlane a = Some x \<and> gc_ControlPlane b = Some y \<and> cc_URL x = cc_URL y \<and> cc_Dataplane x = cc_Dataplane y
      \<and> cc_Token x = cc_Token y \<and> cc_RequireSync x = cc_RequireSync y \<and> cc_MaxPolicyAge x = cc_MaxPolicyAge y"
    if "gc_SharedGovernance a"
    using sh that by (auto simp: validateSharedReload_def split: if_splits option.splits)
  show ?thesis using j s c unfolding pinnedIdentity_def sameIdentity_def by blast
qed

section \<open>Writes mirror the store\<close>

lemma rowsByName_lookup:
  "Mapping.lookup (fold (\<lambda>p m. Mapping.update (pr_Name p) p m) (map g ks) m) n
     = (if n \<in> set ks then Some (g n) else Mapping.lookup m n)" if "\<forall>k \<in> set ks. pr_Name (g k) = k"
  using that by (induction ks arbitrary: m) (auto simp: gomap_simps)

lemma rows_providers:
  assumes "wfDb db"
  shows "rowsByName (ListProviders db) = td_providers db"
proof (rule mapping_eqI)
  fix n
  have "\<forall>k \<in> set (Mapping.ordered_keys (td_providers db)). pr_Name (the (Mapping.lookup (td_providers db) k)) = k"
    using assms by (auto simp: wfDb_def keys_lookup)
  then show "Mapping.lookup (rowsByName (ListProviders db)) n = Mapping.lookup (td_providers db) n"
    using assms unfolding rowsByName_def ListProviders_def by (subst rowsByName_lookup) (auto simp: wfDb_def keys_lookup)
qed

lemma values_providers: "rowValues (td_providers db) = ListProviders db"
  by (simp add: rowValues_def ListProviders_def)

definition topologyOf :: "TopologyDb \<Rightarrow> topologyRows" where
  "topologyOf db = (td_providers db, ListModels db)"

lemma candidate_overlay: "wfDb db \<Longrightarrow> mutate (topologyOf db) = topologyOf db' \<Longrightarrow> candidateConfig raw mutate db = Overlay (gc_Raw raw) db'"
  by (simp add: candidateConfig_def rows_providers topologyOf_def Overlay_def values_providers)

text \<open>
  The contract between the statement a write runs on the database and the change it made to
  the rows it validated: on every store where \<open>ok\<close> holds, the rows read back are the rows validated.
\<close>

locale mirrored_write =
  fixes persist :: "TopologyDb \<Rightarrow> topology_error + TopologyDb" and mutate :: "topologyRows \<Rightarrow> topologyRows" and ok :: bool
  assumes keeps: "wfDb db \<Longrightarrow> persist db = Inr db' \<Longrightarrow> wfDb db'"
    and finite_rows: "wfDb db \<Longrightarrow> finite (Mapping.keys (snd (mutate (topologyOf db))))"
    and mirrors: "wfDb db \<Longrightarrow> ok \<Longrightarrow> persist db = Inr db' \<Longrightarrow> mutate (topologyOf db) = topologyOf db'"
begin

lemma finite_candidate:
  assumes "wfDb db"
  shows "finite (Mapping.keys (cf_Models (rc_Topology (candidateConfig raw mutate db))))"
  using finite_rows [OF assms]
  by (simp add: candidateConfig_def rows_providers [OF assms] topologyOf_def [symmetric] finite_overlay split_beta)

lemma write_outcome:
  assumes "gw_pstore g = Some db" and "wfDb db" and "writeMutation env listed committed fileCfg persist mutate g = (g', err)"
  shows "case err of
      Some e \<Rightarrow> g' = g
    | None \<Rightarrow> \<exists>raw db' st. fileCfg = Some raw \<and> pinnedIdentity (ge_clean env) (gw_cfg g) raw \<and> gw_cfg g' = gw_cfg g
        \<and> persist db = Inr db' \<and> gw_pstore g' = Some db' \<and> wfDb db'
        \<and> gw_holder g' = Some st \<and> wfTopology st \<and> boundedModels (ge_clean env) raw st
        \<and> (ok \<longrightarrow> reloadLocked env True fileCfg g' = (g', None))"
proof (cases err)
  case None
  then obtain raw db' built where w: "fileCfg = Some raw" "validateAuthorityReload (ge_clean env) (gw_cfg g) raw = None"
    "buildCandidate env raw (candidateConfig raw mutate db) = Inr built" "persist db = Inr db'"
    "g' = publishTopology built (g\<lparr>gw_pstore := Some db'\<rparr>)"
    using assms(1,3) by (auto simp: writeMutation_def split: option.splits if_splits sum.splits)
  obtain cfg where cfg: "ResolveProviders (ge_resolve env) (ge_brokerOK env) (candidateConfig raw mutate db) = Inr cfg"
    "buildTopology env raw cfg = Inr built"
    using w(3) by (auto simp: buildCandidate_def split: if_splits sum.splits)
  note built = built_ok [OF cfg finite_candidate [OF assms(2)]]
  have fields: "gw_cfg g' = gw_cfg g" "gw_pstore g' = Some db'" "gw_holder g' = Some (fst built)"
    by (simp_all add: w(5) publishTopology_def)
  have "reloadLocked env True fileCfg g' = (g', None)" if ok
  proof -
    have "buildEffective env True raw (gw_pstore g') = Inr cfg"
      using cfg(1) by (simp add: fields buildEffective_def candidate_overlay [where mutate = mutate, OF assms(2) mirrors [OF assms(2) that w(4)]])
    moreover have "publishTopology built g' = g'" by (simp add: w(5) publish_idem)
    ultimately show ?thesis using w(2) cfg(2) by (simp add: reloadLocked_def w(1) fields)
  qed
  then show ?thesis
    using None w(1,4) reload_pinned [OF w(2)] fields keeps [OF assms(2) w(4)] built by auto
next
  case (Some e)
  then show ?thesis using assms(1,3) by (auto simp: writeMutation_def split: option.splits if_splits sum.splits)
qed

end

lemma models_of_providers: "ListModels (db\<lparr>td_providers := ps\<rparr>) = ListModels db"
  by (simp add: ListModels_def targetRows_def aliasRows_def metadataRows_def)

interpretation put_provider: mirrored_write "UpsertProvider row" "\<lambda>(provs, models). (Mapping.update (pr_Name row) row provs, models)" True for row
proof
  fix db db' assume wf: "wfDb db" and p: "UpsertProvider row db = Inr db'"
  then have db': "db' = db\<lparr>td_providers := Mapping.update (pr_Name row) row (td_providers db)\<rparr>"
    by (auto simp: UpsertProvider_def split: if_splits)
  show "wfDb db'" using wf by (auto simp: db' wfDb_def gomap_simps split: if_splits)
  show "(case topologyOf db of (provs, models) \<Rightarrow> (Mapping.update (pr_Name row) row provs, models)) = topologyOf db'"
    by (simp add: db' topologyOf_def models_of_providers)
qed (simp add: topologyOf_def finite_ListModels)

interpretation drop_provider: mirrored_write "DeleteProvider name" "\<lambda>(provs, models). (Mapping.delete name provs, models)" True for name
proof
  fix db db' assume wf: "wfDb db" and p: "DeleteProvider name db = Inr db'"
  then have db': "db' = db\<lparr>td_providers := Mapping.delete name (td_providers db)\<rparr>"
    by (auto simp: DeleteProvider_def split: if_splits)
  show "wfDb db'" using wf by (auto simp: db' wfDb_def gomap_simps split: if_splits)
  show "(case topologyOf db of (provs, models) \<Rightarrow> (Mapping.delete name provs, models)) = topologyOf db'"
    by (simp add: db' topologyOf_def models_of_providers)
qed (simp add: topologyOf_def finite_ListModels)

interpretation put_model: mirrored_write "SetModel name route" "\<lambda>(provs, models). (provs, Mapping.update name route models)" "sorted (mr_Aliases route)" for name route
proof
  fix db db' assume wf: "wfDb db" and p: "SetModel name route db = Inr db'"
  note r = replaceModel_Inr [OF wf p [unfolded SetModel_def]]
  show "wfDb db'" by (fact r(1))
  assume "sorted (mr_Aliases route)"
  then have "ListModels db' = Mapping.update name route (ListModels db)"
    using r(5) by (intro mapping_eqI) (simp add: lookup_ListModels [OF wf] lookup_ListModels [OF r(1)] gomap_simps normalRoute_def sorted_sort_id)
  then show "(case topologyOf db of (provs, models) \<Rightarrow> (provs, Mapping.update name route models)) = topologyOf db'"
    by (simp add: topologyOf_def r(2))
qed (simp add: topologyOf_def finite_ListModels)

interpretation drop_model: mirrored_write "DeleteModel name" "\<lambda>(provs, models). (provs, Mapping.delete name models)" True for name
proof
  fix db db' assume wf: "wfDb db" and p: "DeleteModel name db = Inr db'"
  note d = deleteModel_lookup [OF wf p]
  show "wfDb db'" by (fact d(1))
  have "ListModels db' = Mapping.delete name (ListModels db)"
    using d(3) by (intro mapping_eqI) (simp add: lookup_ListModels [OF wf] lookup_ListModels [OF d(1)] gomap_simps)
  then show "(case topologyOf db of (provs, models) \<Rightarrow> (provs, Mapping.delete name models)) = topologyOf db'"
    by (simp add: topologyOf_def d(2))
qed (simp add: topologyOf_def finite_ListModels)

text \<open>The four writes of the administration API.\<close>

datatype topology_write = PutProvider ProviderRow | DropProvider string | PutModel string ModelRoute | DropModel string

fun runWrite :: "gatewayEnv \<Rightarrow> bool \<Rightarrow> bool \<Rightarrow> GatewayConfig option \<Rightarrow> topology_write \<Rightarrow> gateway \<Rightarrow> gateway \<times> reload_error option" where
  "runWrite env listed committed fileCfg (PutProvider row) = WriteProvider env listed committed fileCfg row"
| "runWrite env listed committed fileCfg (DropProvider name) = gw_DeleteProvider env listed committed fileCfg name"
| "runWrite env listed committed fileCfg (PutModel name route) = WriteModel env listed committed fileCfg name route"
| "runWrite env listed committed fileCfg (DropModel name) = gw_DeleteModel env listed committed fileCfg name"

fun normalWrite :: "topology_write \<Rightarrow> bool" where
  "normalWrite (PutModel name route) = sorted (mr_Aliases route)"
| "normalWrite _ = True"

text \<open>
  C25: a write reaches the database only after the topology it leads to was built. A refused or
  failed write, for whatever reason, changes nothing: not the store, not the generation
  being served, not a breaker. An accepted one serves a well-formed generation with the
  context windows the durable modes need, and keeps the configuration of the boot, which the
  file may not contradict in anything a running journal depends on. What is stored then is
  what is served: reloading the same file succeeds and changes nothing, when the aliases of
  the model written are in order.
\<close>

theorem writes_validated_and_durable:
  assumes "gw_pstore g = Some db" and "wfDb db" and "runWrite env listed committed fileCfg op g = (g', err)"
  shows "case err of
      Some e \<Rightarrow> g' = g
    | None \<Rightarrow> \<exists>raw db' st. fileCfg = Some raw \<and> pinnedIdentity (ge_clean env) (gw_cfg g) raw \<and> gw_cfg g' = gw_cfg g
        \<and> gw_pstore g' = Some db' \<and> wfDb db' \<and> gw_holder g' = Some st \<and> wfTopology st \<and> boundedModels (ge_clean env) raw st
        \<and> (normalWrite op \<longrightarrow> reloadLocked env True fileCfg g' = (g', None))"
proof (cases op)
  case (PutProvider row)
  then show ?thesis
    using put_provider.write_outcome [OF assms(1,2), of env listed committed fileCfg row g' err] assms(3)
    by (auto simp: WriteProvider_def split: option.splits)
next
  case (DropProvider name)
  then show ?thesis
    using drop_provider.write_outcome [OF assms(1,2), of env listed committed fileCfg name g' err] assms(3)
    by (auto simp: gw_DeleteProvider_def split: option.splits)
next
  case (PutModel name route)
  then show ?thesis
    using put_model.write_outcome [OF assms(1,2), of env listed committed fileCfg name route g' err] assms(3)
    by (auto simp: WriteModel_def split: option.splits)
next
  case (DropModel name)
  then show ?thesis
    using drop_model.write_outcome [OF assms(1,2), of env listed committed fileCfg name g' err] assms(3)
    by (auto simp: gw_DeleteModel_def split: option.splits)
qed

definition sampleGatewayEnv :: gatewayEnv where
  "sampleGatewayEnv = \<lparr>ge_clean = id, ge_resolve = (\<lambda>ref. Some ''secret''), ge_brokerOK = False, ge_factory = sampleFactory\<rparr>"

definition sampleGatewayConfig :: GatewayConfig where
  "sampleGatewayConfig = \<lparr>gc_KeyStore = (''sqlite'', ''k'', []), gc_SharedGovernance = False, gc_ControlPlane = None, gc_BudgetLocation = ''UTC'',
     gc_Raw = sampleRaw\<rparr>"

definition sampleDb :: TopologyDb where
  "sampleDb = (case UpsertProvider (rowFromProviderConfig ''a'' (the (Mapping.lookup (rc_Providers sampleRaw) ''a''))) emptyTopologyDb of
     Inl _ \<Rightarrow> emptyTopologyDb | Inr db \<Rightarrow> db)"

definition sampleGateway :: gateway where
  "sampleGateway = \<lparr>gw_cfg = sampleGatewayConfig, gw_holder = None, gw_router = NewRouter, gw_pstore = Some sampleDb\<rparr>"

theorem writes_validated_and_durable_witness:
  "\<exists>g' st. runWrite sampleGatewayEnv True True (Some sampleGatewayConfig) (PutModel ''m'' (sampleRoute [''x''])) sampleGateway = (g', None)
     \<and> gw_holder g' = Some st \<and> wfTopology st \<and> reloadLocked sampleGatewayEnv True (Some sampleGatewayConfig) g' = (g', None)"
proof -
  let ?r = "runWrite sampleGatewayEnv True True (Some sampleGatewayConfig) (PutModel ''m'' (sampleRoute [''x''])) sampleGateway"
  have "snd ?r = None" by code_simp
  then obtain g' where run: "?r = (g', None)" by (metis prod.collapse)
  have "wfDb sampleDb"
    using put_provider.keeps [OF wf_empty] wf_empty by (auto simp: sampleDb_def split: sum.split)
  moreover have "gw_pstore sampleGateway = Some sampleDb" by (simp add: sampleGateway_def)
  ultimately show ?thesis
    using writes_validated_and_durable [OF _ _ run, of sampleDb] run by (auto simp: sampleRoute_def)
qed

text \<open>
  C26: a reload is all or nothing. When the file or the database cannot be read, when it contradicts
  what the running journal depends on, names an unresolvable secret, or describes a topology that
  does not build, the gateway serves on unchanged. Otherwise the new generation is well formed and
  has the context windows the durable modes need, and everything else is kept.
\<close>

theorem reload_fail_safe:
  assumes "reloadLocked env listed fileCfg g = (g', err)"
    and "\<And>db. gw_pstore g = Some db \<Longrightarrow> wfDb db"
    and "\<And>raw. fileCfg = Some raw \<Longrightarrow> finite (Mapping.keys (cf_Models (rc_Topology (gc_Raw raw))))"
  shows "case err of
      Some e \<Rightarrow> g' = g
    | None \<Rightarrow> \<exists>raw st. fileCfg = Some raw \<and> pinnedIdentity (ge_clean env) (gw_cfg g) raw \<and> gw_cfg g' = gw_cfg g \<and> gw_pstore g' = gw_pstore g
        \<and> gw_holder g' = Some st \<and> wfTopology st \<and> boundedModels (ge_clean env) raw st"
proof (cases err)
  case None
  then obtain raw cfg built where r: "fileCfg = Some raw" "validateAuthorityReload (ge_clean env) (gw_cfg g) raw = None"
    "buildEffective env listed raw (gw_pstore g) = Inr cfg" "buildTopology env raw cfg = Inr built" "g' = publishTopology built g"
    using assms(1) by (auto simp: reloadLocked_def split: option.splits sum.splits)
  define eff where "eff = (case gw_pstore g of None \<Rightarrow> gc_Raw raw | Some db \<Rightarrow> Overlay (gc_Raw raw) db)"
  have "finite (Mapping.keys (cf_Models (rc_Topology eff)))"
    using assms(2,3) r(1) by (auto simp: eff_def Overlay_def finite_overlay finite_ListModels split: option.splits)
  with built_ok [of env eff cfg raw built] r(3,4)
  have "wfTopology (fst built)" "boundedModels (ge_clean env) raw (fst built)" by (simp_all add: buildEffective_def eff_def split: if_splits sum.splits)
  then show ?thesis using None r(1,5) reload_pinned [OF r(2)] by (simp add: publishTopology_def)
next
  case (Some e)
  then show ?thesis using assms(1) by (auto simp: reloadLocked_def split: option.splits sum.splits)
qed

theorem reload_fail_safe_witness:
  "(\<exists>g'. reloadLocked sampleGatewayEnv True (Some sampleGatewayConfig) (sampleGateway\<lparr>gw_pstore := None\<rparr>) = (g', None) \<and> gw_holder g' \<noteq> None)
   \<and> (\<exists>e. reloadLocked sampleGatewayEnv True (Some (sampleGatewayConfig\<lparr>gc_SharedGovernance := True\<rparr>)) sampleGateway = (sampleGateway, Some e))"
proof
  let ?g = "sampleGateway\<lparr>gw_pstore := None\<rparr>"
  have "snd (reloadLocked sampleGatewayEnv True (Some sampleGatewayConfig) ?g) = None" by code_simp
  then obtain g' where run: "reloadLocked sampleGatewayEnv True (Some sampleGatewayConfig) ?g = (g', None)" by (metis prod.collapse)
  have "finite (Mapping.keys (cf_Models (rc_Topology (gc_Raw sampleGatewayConfig))))" using sampleRaw_finite by (simp add: sampleGatewayConfig_def)
  then show "\<exists>g'. reloadLocked sampleGatewayEnv True (Some sampleGatewayConfig) ?g = (g', None) \<and> gw_holder g' \<noteq> None"
    using reload_fail_safe [OF run] run by fastforce
  let ?c = "sampleGatewayConfig\<lparr>gc_SharedGovernance := True\<rparr>"
  have "snd (reloadLocked sampleGatewayEnv True (Some ?c) sampleGateway) \<noteq> None" by code_simp
  then obtain g'' e where run': "reloadLocked sampleGatewayEnv True (Some ?c) sampleGateway = (g'', Some e)" by (metis prod.collapse option.exhaust)
  have "wfDb sampleDb" using put_provider.keeps [OF wf_empty] wf_empty by (auto simp: sampleDb_def split: sum.split)
  moreover have "finite (Mapping.keys (cf_Models (rc_Topology (gc_Raw ?c))))" using sampleRaw_finite by (simp add: sampleGatewayConfig_def)
  ultimately have "g'' = sampleGateway"
    using reload_fail_safe [OF run'] by (simp add: sampleGateway_def)
  then show "\<exists>e. reloadLocked sampleGatewayEnv True (Some ?c) sampleGateway = (sampleGateway, Some e)" using run' by blast
qed

end
