(* ===== verification/AuditLog.thy ===== *)
theory AuditLog
  imports GoStd
begin

text \<open>
  The tamper-evident audit log, \<^verbatim>\<open>internal/audit\<close>, its online verification
  (\<^verbatim>\<open>server/auditapi\<close>) and the anchoring of its head (\<^verbatim>\<open>cmd/mayu/gateway.go\<close>).

  One goroutine takes the records from the queue in order, so the writer is a step function
  and a run is a fold of it. Files are byte strings; a write that fails leaves some prefix of
  its bytes behind. The JSON codec of a record and the SHA-256 digest are arguments.
\<close>

section \<open>Records\<close>

record AuditPrincipalRef =
  apr_KeyID :: string
  apr_Team :: string
  apr_User :: "string option"
  apr_AuthMethod :: "string option"

record AuditPolicyRef =
  app_Name :: string
  app_Generation :: int
  app_Rule :: string

record AuditRecommendation =
  apm_Policy :: AuditPolicyRef
  apm_Model :: string
  apm_Reason :: string

record AuditRoutingRef =
  arr_RequestedModel :: string
  arr_SelectedModel :: string
  arr_ProposedModel :: string
  arr_Mode :: string
  arr_Reason :: string
  arr_Inspection :: string
  arr_Privacy :: string
  arr_Categories :: "string list"
  arr_Policies :: "AuditPolicyRef list"
  arr_Recommendations :: "AuditRecommendation list"
  arr_PlannedProvider :: string
  arr_PlannedBoundary :: string
  arr_ActualModel :: string
  arr_ActualProvider :: string
  arr_ActualBoundary :: string
  arr_Masked :: bool

record AuditRequestRef =
  arq_Ingress :: string
  arq_ModelRequested :: string
  arq_ModelResolved :: string
  arq_Provider :: string
  arq_ProviderAPI :: string
  arq_Stream :: bool
  arq_PIIMasked :: bool
  arq_ModelSubstitutedFrom :: string
  arq_Routing :: "AuditRoutingRef option"

record AuditOutcomeRef =
  ao_Status :: int
  ao_FallbackUsed :: bool
  ao_FallbackChain :: "string list"
  ao_Partial :: bool
  ao_Error :: "string option"

record AuditUsageRef =
  aus_InputTokens :: int
  aus_OutputTokens :: int
  aus_CacheReadInputTokens :: int
  aus_CacheCreationInputTokens :: int
  aus_Estimated :: bool
  aus_CacheCreation5mInputTokens :: int
  aus_CacheCreation1hInputTokens :: int

record AuditLatencyRef =
  ala_TTFTMs :: int
  ala_TotalMs :: int

record AuditCostRef =
  aco_AmountUSDMicros :: int
  aco_PricingMissing :: bool
  aco_PricingVersion :: string

record AuditRecord =
  ar_SchemaVersion :: int
  ar_Event :: string
  ar_ID :: string
  ar_TS :: string
  ar_Instance :: string
  ar_Principal :: AuditPrincipalRef
  ar_Request :: AuditRequestRef
  ar_Outcome :: "AuditOutcomeRef option"
  ar_Usage :: "AuditUsageRef option"
  ar_Cost :: "AuditCostRef option"
  ar_Latency :: "AuditLatencyRef option"
  ar_TraceID :: "string option"
  ar_PrevHash :: string
  ar_BodyRef :: "string option"
  ar_RecordRef :: "string option"
  ar_GuardrailID :: "string option"
  ar_GuardrailVersion :: "string option"

record Codec =
  cd_Marshal :: "AuditRecord \<Rightarrow> string option"
  cd_Unmarshal :: "string \<Rightarrow> AuditRecord option"

text \<open>One actual provider call gets its own copy of the decision.\<close>

definition WithRoutingAttempt :: "string \<Rightarrow> string \<Rightarrow> string \<Rightarrow> AuditRoutingRef option \<Rightarrow> AuditRoutingRef option" where
  "WithRoutingAttempt model provider boundary r =
     map_option (\<lambda>r. r\<lparr>arr_ActualModel := model, arr_ActualProvider := provider,
       arr_ActualBoundary := (if boundary = [] then ''unknown'' else boundary)\<rparr>) r"

section \<open>Hashes\<close>

definition genesisHash :: string where
  "genesisHash = ''sha256:genesis''"

definition hexChar :: "int \<Rightarrow> char" where
  "hexChar n = ''0123456789abcdef'' ! nat n"

definition hexEncode :: "string \<Rightarrow> string" where
  "hexEncode bs = concat (map (\<lambda>b. [hexChar (of_char b div 16), hexChar (of_char b mod 16)]) bs)"

definition lineHash :: "(string \<Rightarrow> string) \<Rightarrow> string \<Rightarrow> string" where
  "lineHash digest line = ''sha256:'' @ hexEncode (digest line)"

section \<open>Files and sinks\<close>

definition newline :: char where
  "newline = CHR 0x0A"

text \<open>\<open>Failed n\<close>: the call returned an error after \<open>n\<close> bytes of the line reached the file.\<close>

datatype line_io = Wrote | Failed nat

definition writeLine :: "line_io \<Rightarrow> string \<Rightarrow> string \<Rightarrow> string \<times> bool" where
  "writeLine io rec content =
     (case io of Wrote \<Rightarrow> (content @ rec @ [newline], True) | Failed n \<Rightarrow> (content @ take n (rec @ [newline]), False))"

record AuditSink =
  sk_Name :: string
  sk_Required :: bool
  sk_Content :: string

fun writeSinks :: "(nat \<Rightarrow> line_io) \<Rightarrow> nat \<Rightarrow> string \<Rightarrow> AuditSink list \<Rightarrow> AuditSink list \<times> nat" where
  "writeSinks io i rec [] = ([], 0)"
| "writeSinks io i rec (s # ss) =
     (case writeLine (io i) rec (sk_Content s) of (content, ok) \<Rightarrow>
        case writeSinks io (i + 1) rec ss of (ss', failures) \<Rightarrow>
          (s\<lparr>sk_Content := content\<rparr> # ss', if \<not> ok \<and> sk_Required s then failures + 1 else failures))"

section \<open>The writer\<close>

record AuditWriter =
  wr_instance :: string
  wr_wal :: string
  wr_sinks :: "AuditSink list"
  wr_prevHash :: string
  wr_pending :: int
  wr_count :: int
  wr_head :: "(string \<times> int) option"
  wr_writeFailures :: nat
  wr_buffered :: nat

definition NewWriter :: "string \<Rightarrow> string \<Rightarrow> AuditSink list \<Rightarrow> AuditWriter" where
  "NewWriter inst wal sinks = \<lparr>wr_instance = inst, wr_wal = wal, wr_sinks = sinks, wr_prevHash = genesisHash, wr_pending = 0,
     wr_count = 0, wr_head = None, wr_writeFailures = 0, wr_buffered = 0\<rparr>"

definition HeadHash :: "AuditWriter \<Rightarrow> string \<times> int" where
  "HeadHash w = (case wr_head w of None \<Rightarrow> (genesisHash, 0) | Some h \<Rightarrow> h)"

text \<open>How the calls for one record end: the append to the WAL, each sink, and the truncation.\<close>

record RecordIO =
  io_wal :: line_io
  io_sinks :: "nat \<Rightarrow> line_io"
  io_truncated :: bool

definition writeRecord :: "Codec \<Rightarrow> (string \<Rightarrow> string) \<Rightarrow> AuditRecord \<times> RecordIO \<Rightarrow> AuditWriter \<Rightarrow> AuditWriter" where
  "writeRecord codec digest ri w =
     (case ri of (rec, io) \<Rightarrow>
        case cd_Marshal codec (rec\<lparr>ar_Instance := wr_instance w, ar_PrevHash := wr_prevHash w\<rparr>) of
          None \<Rightarrow> w\<lparr>wr_writeFailures := wr_writeFailures w + 1\<rparr>
        | Some canon \<Rightarrow>
            (let hash = lineHash digest canon;
                 (wal, durable) = writeLine (io_wal io) canon (wr_wal w);
                 pending = add64 (wr_pending w) 1;
                 count = (if durable then add64 (wr_count w) 1 else wr_count w);
                 (sinks, failures) = writeSinks (io_sinks io) 0 canon (wr_sinks w);
                 flushed = (failures = 0 \<and> pending = 1)
             in w\<lparr>wr_prevHash := hash, wr_wal := (if flushed \<and> io_truncated io then [] else wal),
                   wr_pending := (if flushed then 0 else pending), wr_count := count,
                   wr_head := (if durable then Some (hash, count) else wr_head w), wr_sinks := sinks,
                   wr_writeFailures := wr_writeFailures w + failures, wr_buffered := wr_buffered w + failures\<rparr>))"

definition loop :: "Codec \<Rightarrow> (string \<Rightarrow> string) \<Rightarrow> (AuditRecord \<times> RecordIO) list \<Rightarrow> AuditWriter \<Rightarrow> AuditWriter" where
  "loop codec digest recs w = fold (writeRecord codec digest) recs w"

section \<open>Scanning lines\<close>

text \<open>
  \<^verbatim>\<open>bufio.Scanner\<close> with \<^verbatim>\<open>ScanLines\<close>: a trailing carriage return is dropped, the empty rest after the
  last newline is no line, and a line that does not fit the buffer with its newline ends the
  scan with an error.
\<close>

definition maxToken :: int where
  "maxToken = 1048576"

fun rawLines :: "string \<Rightarrow> string \<Rightarrow> string list" where
  "rawLines acc [] = (if acc = [] then [] else [rev acc])"
| "rawLines acc (c # cs) = (if c = newline then rev acc # rawLines [] cs else rawLines (c # acc) cs)"

definition dropCR :: "string \<Rightarrow> string" where
  "dropCR line = (if line \<noteq> [] \<and> last line = CHR 0x0D then butlast line else line)"

definition fits :: "string \<Rightarrow> bool" where
  "fits line \<longleftrightarrow> int (length line) < maxToken"

definition scanned :: "string \<Rightarrow> string list \<times> bool" where
  "scanned data = (let raw = rawLines [] data in (map dropCR (takeWhile fits raw), list_all fits raw))"

definition Replay :: "string \<Rightarrow> string list" where
  "Replay wal = filter (\<lambda>l. l \<noteq> []) (fst (scanned wal))"

section \<open>Verification\<close>

record InstanceState =
  is_HeadHash :: string
  is_Count :: int

record VerifyResult =
  vr_OK :: bool
  vr_Records :: int
  vr_BrokenAt :: int
  vr_Reason :: string
  vr_Instances :: "(string, InstanceState) mapping"

definition unparseable :: string where
  "unparseable = ''unparseable record''"

text \<open>The dash of the message is written as a hyphen.\<close>

definition chainBroken :: string where
  "chainBroken = ''prev_hash mismatch - chain broken or record tampered''"

text \<open>The position in the stream; \<open>cu_Instance\<close> is \<open>None\<close> before the first record.\<close>

record Cursor =
  cu_Records :: int
  cu_Expected :: string
  cu_Instance :: "string option"
  cu_Count :: int

definition startCursor :: Cursor where
  "startCursor = \<lparr>cu_Records = 0, cu_Expected = genesisHash, cu_Instance = None, cu_Count = 0\<rparr>"

datatype line_fault = BadRecord | BadLink

definition enterSegment :: "string \<Rightarrow> Cursor \<Rightarrow> Cursor" where
  "enterSegment inst c =
     (if cu_Instance c \<noteq> Some inst then c\<lparr>cu_Instance := Some inst, cu_Expected := genesisHash, cu_Count := 0\<rparr> else c)"

definition advance :: "Codec \<Rightarrow> (string \<Rightarrow> string) \<Rightarrow> string \<Rightarrow> Cursor \<Rightarrow> line_fault + Cursor" where
  "advance codec digest line c =
     (case cd_Unmarshal codec line of
        None \<Rightarrow> Inl BadRecord
      | Some rec \<Rightarrow>
          (let c1 = enterSegment (ar_Instance rec) c
           in if ar_PrevHash rec \<noteq> cu_Expected c1 then Inl BadLink
              else Inr (c1\<lparr>cu_Expected := lineHash digest line, cu_Count := cu_Count c1 + 1\<rparr>)))"

definition counted :: "Cursor \<Rightarrow> Cursor" where
  "counted c = c\<lparr>cu_Records := cu_Records c + 1\<rparr>"

fun verifyLines :: "Codec \<Rightarrow> (string \<Rightarrow> string) \<Rightarrow> string list \<Rightarrow> Cursor \<Rightarrow> (string, InstanceState) mapping \<Rightarrow> VerifyResult" where
  "verifyLines codec digest [] c insts =
     \<lparr>vr_OK = True, vr_Records = cu_Records c, vr_BrokenAt = 0, vr_Reason = [], vr_Instances = insts\<rparr>"
| "verifyLines codec digest (line # ls) c insts =
     (if line = [] then verifyLines codec digest ls c insts
      else (case advance codec digest line (counted c) of
              Inl f \<Rightarrow> \<lparr>vr_OK = False, vr_Records = cu_Records (counted c), vr_BrokenAt = cu_Records (counted c),
                         vr_Reason = (case f of BadRecord \<Rightarrow> unparseable | BadLink \<Rightarrow> chainBroken), vr_Instances = insts\<rparr>
            | Inr c' \<Rightarrow> verifyLines codec digest ls c'
                (Mapping.update (the (cu_Instance c')) \<lparr>is_HeadHash = cu_Expected c', is_Count = cu_Count c'\<rparr> insts)))"

datatype scan_error = TooLong

definition Verify :: "Codec \<Rightarrow> (string \<Rightarrow> string) \<Rightarrow> string \<Rightarrow> scan_error + VerifyResult" where
  "Verify codec digest data =
     (case scanned data of (ls, whole) \<Rightarrow>
        let res = verifyLines codec digest ls startCursor Mapping.empty
        in if vr_OK res \<and> \<not> whole then Inl TooLong else Inr res)"

text \<open>The result of \<open>HeadAtCount\<close>: \<open>Some (Some h)\<close> is found, \<open>Some None\<close> a fault on the way, \<open>None\<close> the end of the lines.\<close>

fun headAt :: "Codec \<Rightarrow> (string \<Rightarrow> string) \<Rightarrow> string \<Rightarrow> int \<Rightarrow> string list \<Rightarrow> Cursor \<Rightarrow> string option option" where
  "headAt codec digest inst count [] c = None"
| "headAt codec digest inst count (line # ls) c =
     (if line = [] then headAt codec digest inst count ls c
      else (case advance codec digest line c of
              Inl _ \<Rightarrow> Some None
            | Inr c' \<Rightarrow> if cu_Instance c' = Some inst \<and> cu_Count c' = count then Some (Some (cu_Expected c'))
                         else headAt codec digest inst count ls c'))"

definition HeadAtCount :: "Codec \<Rightarrow> (string \<Rightarrow> string) \<Rightarrow> string \<Rightarrow> string \<Rightarrow> int \<Rightarrow> scan_error + string option" where
  "HeadAtCount codec digest data inst count =
     (case scanned data of (ls, whole) \<Rightarrow>
        (case headAt codec digest inst count ls startCursor of
           Some r \<Rightarrow> Inr r
         | None \<Rightarrow> if whole then Inr None else Inl TooLong))"

section \<open>Anchors\<close>

record AnchorPoint =
  ap_Instance :: string
  ap_HeadHash :: string
  ap_Count :: int
  ap_TS :: string

text \<open>\<open>anchored\<close> is whether the external store took the point, \<open>ts\<close> the formatted time.\<close>

definition anchorOnce :: "bool \<Rightarrow> string \<Rightarrow> AuditWriter \<Rightarrow> int \<times> AnchorPoint list \<Rightarrow> int \<times> AnchorPoint list" where
  "anchorOnce anchored ts w st =
     (case HeadHash w of (hash, count) \<Rightarrow>
        if count \<le> fst st \<or> \<not> anchored then st
        else (count, snd st @ [\<lparr>ap_Instance = wr_instance w, ap_HeadHash = hash, ap_Count = count, ap_TS = ts\<rparr>]))"

datatype sink_reason =
    NoReason | TooLarge | VerifyError | Fault string | FewerThanAnchor | HeadDiffers | PositionDiffers

record SinkResult =
  sr_OK :: bool
  sr_Records :: int
  sr_BrokenAt :: int
  sr_Reason :: sink_reason
  sr_PartialTail :: bool
  sr_AnchorChecked :: bool

definition maxVerifyBytes :: int where
  "maxVerifyBytes = 16777216"

text \<open>The prefix up to the last newline, and whether anything follows it.\<close>

definition completePrefix :: "string \<Rightarrow> string \<times> bool" where
  "completePrefix data =
     (let rest = length (takeWhile (\<lambda>c. c \<noteq> newline) (rev data))
      in (take (length data - rest) data, rest \<noteq> 0))"

definition stateOf :: "(string, InstanceState) mapping \<Rightarrow> string \<Rightarrow> InstanceState" where
  "stateOf insts inst = (case Mapping.lookup insts inst of None \<Rightarrow> \<lparr>is_HeadHash = [], is_Count = 0\<rparr> | Some st \<Rightarrow> st)"

text \<open>\<open>latest\<close> is the answer of the anchor store: \<open>Inl ()\<close> an error, \<open>Inr None\<close> nothing anchored yet.\<close>

definition checkAnchor ::
  "Codec \<Rightarrow> (string \<Rightarrow> string) \<Rightarrow> unit + AnchorPoint option \<Rightarrow> string \<Rightarrow> string \<Rightarrow> VerifyResult \<Rightarrow> SinkResult \<Rightarrow> SinkResult" where
  "checkAnchor codec digest latest inst data vr res =
     (case latest of
        Inr (Some anchor) \<Rightarrow>
          (let res = res\<lparr>sr_AnchorChecked := True\<rparr>; st = stateOf (vr_Instances vr) inst
           in if is_Count st < ap_Count anchor then res\<lparr>sr_OK := False, sr_Reason := FewerThanAnchor\<rparr>
              else if is_Count st = ap_Count anchor
                then (if is_HeadHash st \<noteq> ap_HeadHash anchor then res\<lparr>sr_OK := False, sr_Reason := HeadDiffers\<rparr> else res)
              else (case HeadAtCount codec digest data inst (ap_Count anchor) of
                      Inl _ \<Rightarrow> res
                    | Inr got \<Rightarrow> if got \<noteq> Some (ap_HeadHash anchor) then res\<lparr>sr_OK := False, sr_Reason := PositionDiffers\<rparr> else res))
      | _ \<Rightarrow> res)"

text \<open>\<open>reader\<close> is \<open>None\<close> when no anchor store can be read; \<open>content\<close> is what was read from the file, one byte beyond the cap at most.\<close>

definition verifyFile ::
  "Codec \<Rightarrow> (string \<Rightarrow> string) \<Rightarrow> (unit + AnchorPoint option) option \<Rightarrow> string \<Rightarrow> string \<Rightarrow> SinkResult" where
  "verifyFile codec digest reader inst content =
     (let res = \<lparr>sr_OK = False, sr_Records = 0, sr_BrokenAt = 0, sr_Reason = NoReason, sr_PartialTail = False, sr_AnchorChecked = False\<rparr>
      in if int (length content) > maxVerifyBytes then res\<lparr>sr_Reason := TooLarge\<rparr>
         else (case completePrefix content of (data, tail) \<Rightarrow>
           let res = res\<lparr>sr_PartialTail := tail\<rparr>
           in case Verify codec digest data of
                Inl _ \<Rightarrow> res\<lparr>sr_Reason := VerifyError\<rparr>
              | Inr vr \<Rightarrow>
                  (let res = res\<lparr>sr_OK := vr_OK vr, sr_Records := vr_Records vr, sr_BrokenAt := vr_BrokenAt vr,
                         sr_Reason := (if vr_OK vr then NoReason else Fault (vr_Reason vr))\<rparr>
                   in if vr_OK vr then (case reader of None \<Rightarrow> res | Some latest \<Rightarrow> checkAnchor codec digest latest inst data vr res)
                      else res)))"

end
