(* ===== verification/AuditProps.thy ===== *)
theory AuditProps
  imports AuditLog
begin

text \<open>
  The audit log is tamper evident: what a writer emits verifies, a head determines every
  record before it, and an anchor that still matches proves that the anchored records are
  all there. An anchor taken after a failed append to the write-ahead log no longer matches
  the file it was taken from.
\<close>

section \<open>Hashes\<close>

lemma hexChar_inj: "inj_on hexChar {0..<16}"
proof -
  have "distinct (map hexChar [0..15])" by code_simp
  then show ?thesis by (simp add: distinct_map atLeastLessThan_def atLeastAtMost_def [symmetric] inj_on_def)
qed

lemma hexChar_not_g: "0 \<le> n \<Longrightarrow> n < 16 \<Longrightarrow> hexChar n \<noteq> CHR ''g''"
proof -
  have "list_all (\<lambda>n. hexChar n \<noteq> CHR ''g'') [0..15]" by code_simp
  then show "0 \<le> n \<Longrightarrow> n < 16 \<Longrightarrow> hexChar n \<noteq> CHR ''g''" by (simp add: list_all_iff)
qed

lemma of_char_16: "0 \<le> (of_char c :: int) div 16" "(of_char c :: int) div 16 < 16" "0 \<le> (of_char c :: int) mod 16" "(of_char c :: int) mod 16 < 16"
proof -
  define n where "n = (of_char c :: int)"
  have "n = int (of_char c)" by (simp only: n_def of_nat_of_char)
  then have "0 \<le> n" "n < 256" using nat_of_char_less_256 [of c] by simp_all
  then show "0 \<le> (of_char c :: int) div 16" "(of_char c :: int) div 16 < 16" "0 \<le> (of_char c :: int) mod 16" "(of_char c :: int) mod 16 < 16"
    unfolding n_def [symmetric] by simp_all
qed

lemma hexEncode_inj: "hexEncode bs = hexEncode cs \<Longrightarrow> bs = cs"
proof (induction bs arbitrary: cs)
  case Nil
  then show ?case by (cases cs) (simp_all add: hexEncode_def)
next
  case (Cons b bs)
  then obtain c ds where cs: "cs = c # ds" by (cases cs) (simp_all add: hexEncode_def)
  have "(of_char b :: int) div 16 = of_char c div 16" "(of_char b :: int) mod 16 = of_char c mod 16"
    using Cons.prems inj_onD [OF hexChar_inj] of_char_16 [of b] of_char_16 [of c] by (auto simp: cs hexEncode_def)
  then have "(of_char b :: int) = of_char c" by (metis div_mult_mod_eq)
  then show ?case using Cons by (simp add: cs hexEncode_def)
qed

lemma lineHash_inj: "inj_on digest S \<Longrightarrow> l \<in> S \<Longrightarrow> l' \<in> S \<Longrightarrow> lineHash digest l = lineHash digest l' \<Longrightarrow> l = l'"
  using hexEncode_inj by (fastforce simp: lineHash_def dest: inj_onD)

lemma lineHash_not_genesis: "lineHash digest l \<noteq> genesisHash"
proof
  assume "lineHash digest l = genesisHash"
  then have "hexEncode (digest l) = ''genesis''" by (simp add: lineHash_def genesisHash_def)
  then show False using hexChar_not_g of_char_16(1,2) by (cases "digest l") (auto simp: hexEncode_def)
qed

section \<open>Chains\<close>

fun linked :: "Codec \<Rightarrow> (string \<Rightarrow> string) \<Rightarrow> string \<Rightarrow> string \<Rightarrow> string list \<Rightarrow> bool" where
  "linked codec digest inst h [] \<longleftrightarrow> True"
| "linked codec digest inst h (l # ls) \<longleftrightarrow>
     (\<exists>r. cd_Unmarshal codec l = Some r \<and> ar_Instance r = inst \<and> ar_PrevHash r = h) \<and> linked codec digest inst (lineHash digest l) ls"

definition endHash :: "(string \<Rightarrow> string) \<Rightarrow> string \<Rightarrow> string list \<Rightarrow> string" where
  "endHash digest h ls = (if ls = [] then h else lineHash digest (last ls))"

lemma endHash_Cons [simp]: "endHash digest (lineHash digest l) ls = endHash digest h (l # ls)"
  by (simp add: endHash_def)

lemma endHash_snoc [simp]: "endHash digest h (ls @ [l]) = lineHash digest l"
  by (simp add: endHash_def)

lemma linked_append:
  "linked codec digest inst h (ls @ ms) \<longleftrightarrow> linked codec digest inst h ls \<and> linked codec digest inst (endHash digest h ls) ms"
  by (induction ls arbitrary: h) (auto simp: endHash_def)

text \<open>The head of a chain determines every record of it.\<close>

lemma linked_unique:
  assumes "inj_on digest S" and "linked codec digest inst genesisHash ls" and "linked codec digest inst genesisHash ms"
    and "endHash digest genesisHash ls = endHash digest genesisHash ms" and "set ls \<subseteq> S" and "set ms \<subseteq> S"
  shows "ls = ms"
  using assms(2-6)
proof (induction ls arbitrary: ms rule: rev_induct)
  case Nil
  then show ?case by (cases ms rule: rev_cases) (auto simp: endHash_def lineHash_not_genesis dest: sym)
next
  case (snoc l ls)
  obtain k ks where ms: "ms = ks @ [k]"
    using snoc.prems(3) lineHash_not_genesis by (cases ms rule: rev_cases) (auto simp: endHash_def)
  have "l = k" using lineHash_inj [OF assms(1), of l k] snoc.prems(3-5) by (simp add: ms)
  moreover have "ls = ks"
    using snoc.prems(1,2,4,5) by (intro snoc.IH) (auto simp: ms linked_append \<open>l = k\<close>)
  ultimately show ?case by (simp add: ms)
qed

section \<open>What a verdict says\<close>

text \<open>\<open>seen\<close> are the records passed so far; the cursor stands at the end of a chain that is a suffix of them.\<close>

definition cursorAt :: "Codec \<Rightarrow> (string \<Rightarrow> string) \<Rightarrow> string list \<Rightarrow> Cursor \<Rightarrow> bool" where
  "cursorAt codec digest seen c \<longleftrightarrow>
     (case cu_Instance c of
        None \<Rightarrow> seen = []
      | Some inst \<Rightarrow> \<exists>pre seg. seen = pre @ seg \<and> linked codec digest inst genesisHash seg
          \<and> cu_Expected c = endHash digest genesisHash seg \<and> cu_Count c = int (length seg))"

definition stateAt :: "Codec \<Rightarrow> (string \<Rightarrow> string) \<Rightarrow> string list \<Rightarrow> string \<Rightarrow> string \<Rightarrow> int \<Rightarrow> bool" where
  "stateAt codec digest seen inst h n \<longleftrightarrow>
     (\<exists>pre seg post. seen = pre @ seg @ post \<and> linked codec digest inst genesisHash seg \<and> h = endHash digest genesisHash seg \<and> n = int (length seg))"

lemma cursor_start: "cursorAt codec digest [] startCursor"
  by (simp add: cursorAt_def startCursor_def)

lemma cursor_counted: "cursorAt codec digest seen (counted c) = cursorAt codec digest seen c"
  by (simp add: cursorAt_def counted_def split: option.split)

lemma cursor_advance:
  assumes "cursorAt codec digest seen c" and "advance codec digest line c = Inr c'"
  shows "cursorAt codec digest (seen @ [line]) c'" and "cu_Instance c' \<noteq> None"
    and "stateAt codec digest (seen @ [line]) (the (cu_Instance c')) (cu_Expected c') (cu_Count c')"
proof -
  obtain r where r: "cd_Unmarshal codec line = Some r" "ar_PrevHash r = cu_Expected (enterSegment (ar_Instance r) c)"
    "c' = (enterSegment (ar_Instance r) c)\<lparr>cu_Expected := lineHash digest line, cu_Count := cu_Count (enterSegment (ar_Instance r) c) + 1\<rparr>"
    using assms(2) by (auto simp: advance_def Let_def split: option.splits if_splits)
  obtain pre seg where seg: "seen = pre @ seg" "linked codec digest (ar_Instance r) genesisHash seg"
    "cu_Expected (enterSegment (ar_Instance r) c) = endHash digest genesisHash seg" "cu_Count (enterSegment (ar_Instance r) c) = int (length seg)"
  proof (cases "cu_Instance c = Some (ar_Instance r)")
    case True
    then show ?thesis using assms(1) that by (auto simp: cursorAt_def enterSegment_def)
  next
    case False
    then show ?thesis using that [of seen "[]"] by (simp add: enterSegment_def endHash_def)
  qed
  have link: "linked codec digest (ar_Instance r) genesisHash (seg @ [line])" using seg(2,3) r(1,2) by (simp add: linked_append)
  have inst: "cu_Instance c' = Some (ar_Instance r)" using r(3) by (simp add: enterSegment_def)
  have fields: "cu_Expected c' = endHash digest genesisHash (seg @ [line])" "cu_Count c' = int (length (seg @ [line]))"
    using r(3) seg(4) by simp_all
  show "cursorAt codec digest (seen @ [line]) c'" unfolding cursorAt_def inst option.case
    by (intro exI [of _ pre] exI [of _ "seg @ [line]"] conjI link fields) (simp add: seg(1))
  show "cu_Instance c' \<noteq> None" by (simp add: inst)
  show "stateAt codec digest (seen @ [line]) (the (cu_Instance c')) (cu_Expected c') (cu_Count c')"
    unfolding stateAt_def inst option.sel
    by (intro exI [of _ pre] exI [of _ "seg @ [line]"] exI [of _ "[]"] conjI link fields) (simp add: seg(1))
qed

lemma stateAt_more: "stateAt codec digest seen inst h n \<Longrightarrow> stateAt codec digest (seen @ rest) inst h n"
  unfolding stateAt_def by (metis append.assoc)

lemma verifyLines_OK:
  assumes "vr_OK (verifyLines codec digest ls c insts)" and "cursorAt codec digest seen c"
    and "\<forall>inst st. Mapping.lookup insts inst = Some st \<longrightarrow> stateAt codec digest seen inst (is_HeadHash st) (is_Count st)"
    and "Mapping.lookup (vr_Instances (verifyLines codec digest ls c insts)) inst = Some st"
  shows "stateAt codec digest (seen @ filter (\<lambda>l. l \<noteq> []) ls) inst (is_HeadHash st) (is_Count st)"
  using assms
proof (induction ls arbitrary: seen c insts)
  case (Cons line ls)
  show ?case
  proof (cases "line = []")
    case False
    then obtain c' where c': "advance codec digest line (counted c) = Inr c'"
      using Cons.prems(1) by (auto split: sum.splits)
    let ?insts = "Mapping.update (the (cu_Instance c')) \<lparr>is_HeadHash = cu_Expected c', is_Count = cu_Count c'\<rparr> insts"
    note adv = cursor_advance [OF Cons.prems(2) [folded cursor_counted [of _ _ _ c]] c']
    have "\<forall>inst st. Mapping.lookup ?insts inst = Some st \<longrightarrow> stateAt codec digest (seen @ [line]) inst (is_HeadHash st) (is_Count st)"
      using adv(3) Cons.prems(3) stateAt_more by (auto simp: gomap_simps split: if_splits)
    then show ?thesis using Cons.IH [OF _ adv(1), of ?insts] Cons.prems(1,4) False c' by simp
  qed (use Cons in simp)
qed simp

lemma headAt_found:
  assumes "headAt codec digest inst n ls c = Some (Some h)" and "cursorAt codec digest seen c"
  shows "stateAt codec digest (seen @ filter (\<lambda>l. l \<noteq> []) ls) inst h n"
  using assms
proof (induction ls arbitrary: seen c)
  case (Cons line ls)
  show ?case
  proof (cases "line = []")
    case False
    then obtain c' where c': "advance codec digest line c = Inr c'" using Cons.prems(1) by (auto split: sum.splits)
    note adv = cursor_advance [OF Cons.prems(2) c']
    show ?thesis
    proof (cases "cu_Instance c' = Some inst \<and> cu_Count c' = n")
      case True
      then show ?thesis using adv(3) Cons.prems(1) False c' stateAt_more [of _ _ "seen @ [line]"] by auto
    next
      case no: False
      then show ?thesis using Cons.IH [OF _ adv(1)] Cons.prems(1) False c' by auto
    qed
  qed (use Cons in simp)
qed simp

definition linesOf :: "string \<Rightarrow> string list" where
  "linesOf data = filter (\<lambda>l. l \<noteq> []) (fst (scanned data))"

lemma checkAnchor_OK:
  assumes "sr_OK (checkAnchor codec digest (Inr (Some anchor)) inst data vr res)" and "scanned data = (ls, True)" and "0 < ap_Count anchor"
    and "vr = verifyLines codec digest ls startCursor Mapping.empty" and "vr_OK vr"
  shows "stateAt codec digest (filter (\<lambda>l. l \<noteq> []) ls) inst (ap_HeadHash anchor) (ap_Count anchor)"
proof (cases "is_Count (stateOf (vr_Instances vr) inst) = ap_Count anchor")
  case True
  then obtain st where st: "Mapping.lookup (vr_Instances vr) inst = Some st" "is_Count st = ap_Count anchor" "is_HeadHash st = ap_HeadHash anchor"
    using assms(1,3) by (auto simp: checkAnchor_def Let_def stateOf_def split: if_splits option.splits)
  then show ?thesis
    using verifyLines_OK [of codec digest ls startCursor Mapping.empty "[]" inst st] cursor_start assms(4,5) by auto
next
  case False
  then have "headAt codec digest inst (ap_Count anchor) ls startCursor = Some (Some (ap_HeadHash anchor))"
    using assms(1,2) by (auto simp: checkAnchor_def HeadAtCount_def Let_def split: if_splits option.splits)
  then show ?thesis using headAt_found [OF _ cursor_start] by simp
qed

lemma anchor_matches:
  assumes "sr_OK (verifyFile codec digest (Some (Inr (Some anchor))) inst content)" and "0 < ap_Count anchor"
  shows "stateAt codec digest (linesOf (fst (completePrefix content))) inst (ap_HeadHash anchor) (ap_Count anchor)"
proof -
  obtain data rest where data: "completePrefix content = (data, rest)" by fastforce
  obtain ls whole where ls: "scanned data = (ls, whole)" by fastforce
  define vr where "vr = verifyLines codec digest ls startCursor Mapping.empty"
  have "vr_OK vr \<and> whole \<and> (\<exists>res. sr_OK (checkAnchor codec digest (Inr (Some anchor)) inst data vr res))"
    using assms(1) by (auto simp: verifyFile_def Verify_def vr_def [symmetric] data ls Let_def split: if_splits)
  then show ?thesis using checkAnchor_OK [OF _ _ assms(2) vr_def] ls by (auto simp: data linesOf_def)
qed

section \<open>What a writer emits\<close>

text \<open>What the proofs use of the JSON codec: compact output without line breaks that reads back with its two chain fields.\<close>

definition goodCodec :: "Codec \<Rightarrow> bool" where
  "goodCodec codec \<longleftrightarrow>
     (\<forall>r l. cd_Marshal codec r = Some l \<longrightarrow> l \<noteq> [] \<and> newline \<notin> set l \<and> last l \<noteq> CHR 0x0D
        \<and> (\<exists>r'. cd_Unmarshal codec l = Some r' \<and> ar_Instance r' = ar_Instance r \<and> ar_PrevHash r' = ar_PrevHash r))"

text \<open>The lines of a run and whether each became durable; they do not depend on what the sinks did.\<close>

fun emitted :: "Codec \<Rightarrow> (string \<Rightarrow> string) \<Rightarrow> string \<Rightarrow> string \<Rightarrow> (AuditRecord \<times> RecordIO) list \<Rightarrow> (string \<times> bool) list" where
  "emitted codec digest inst h [] = []"
| "emitted codec digest inst h ((r, io) # rs) =
     (case cd_Marshal codec (r\<lparr>ar_Instance := inst, ar_PrevHash := h\<rparr>) of
        None \<Rightarrow> emitted codec digest inst h rs
      | Some l \<Rightarrow> (l, io_wal io = Wrote) # emitted codec digest inst (lineHash digest l) rs)"

lemma goodCodec_link:
  assumes "goodCodec codec" and "cd_Marshal codec (r\<lparr>ar_Instance := inst, ar_PrevHash := h\<rparr>) = Some l"
  shows "\<exists>r'. cd_Unmarshal codec l = Some r' \<and> ar_Instance r' = inst \<and> ar_PrevHash r' = h"
proof -
  let ?r = "r\<lparr>ar_Instance := inst, ar_PrevHash := h\<rparr>"
  have "ar_Instance ?r = inst" "ar_PrevHash ?r = h" by simp_all
  with assms show ?thesis unfolding goodCodec_def by metis
qed

lemma emitted_linked: "goodCodec codec \<Longrightarrow> linked codec digest inst h (map fst (emitted codec digest inst h rs))"
proof (induction rs arbitrary: h)
  case (Cons x rs)
  obtain r io where x: "x = (r, io)" by (cases x)
  show ?case
  proof (cases "cd_Marshal codec (r\<lparr>ar_Instance := inst, ar_PrevHash := h\<rparr>)")
    case None
    then show ?thesis using Cons by (simp add: x)
  next
    case (Some l)
    then show ?thesis using Cons.IH [OF Cons.prems] goodCodec_link [OF Cons.prems Some] by (simp add: x)
  qed
qed simp

lemma emitted_lines:
  assumes "goodCodec codec" and "l \<in> fst ` set (emitted codec digest inst h rs)"
  shows "l \<noteq> []" and "newline \<notin> set l" and "dropCR l = l"
proof -
  have "\<exists>r. cd_Marshal codec r = Some l"
    using assms(2) by (induction codec digest inst h rs rule: emitted.induct) (auto split: option.splits)
  then show "l \<noteq> []" "newline \<notin> set l" "dropCR l = l" using assms(1) by (auto simp: goodCodec_def dropCR_def)
qed

definition fileOf :: "string list \<Rightarrow> string" where
  "fileOf ls = concat (map (\<lambda>l. l @ [newline]) ls)"

lemma rawLines_line: "newline \<notin> set l \<Longrightarrow> rawLines acc (l @ newline # rest) = (rev acc @ l) # rawLines [] rest"
  by (induction l arbitrary: acc) auto

lemma rawLines_file: "\<forall>l \<in> set ls. newline \<notin> set l \<Longrightarrow> rawLines [] (fileOf ls) = ls"
  by (induction ls) (simp_all add: fileOf_def rawLines_line)

lemma scanned_file:
  assumes "\<forall>l \<in> set ls. newline \<notin> set l \<and> dropCR l = l \<and> fits l"
  shows "scanned (fileOf ls) = (ls, True)"
proof -
  have "map dropCR ls = ls" using assms by (simp add: map_idI)
  moreover have "takeWhile fits ls = ls" using assms by (simp add: takeWhile_eq_all_conv)
  moreover have "rawLines [] (fileOf ls) = ls" using assms by (simp add: rawLines_file)
  moreover have "list_all fits ls" using assms by (simp add: list_all_iff)
  ultimately show ?thesis unfolding scanned_def Let_def by (simp only:)
qed

lemma writeSinks_nth:
  assumes "k < length ss"
  shows "length (fst (writeSinks io i rec ss)) = length ss"
    and "sk_Content (fst (writeSinks io i rec ss) ! k) = fst (writeLine (io (i + k)) rec (sk_Content (ss ! k)))"
proof -
  show "length (fst (writeSinks io i rec ss)) = length ss"
    by (induction ss arbitrary: i) (auto split: prod.split simp: split_beta)
  show "sk_Content (fst (writeSinks io i rec ss) ! k) = fst (writeLine (io (i + k)) rec (sk_Content (ss ! k)))"
    using assms
  proof (induction ss arbitrary: i k)
    case (Cons s ss)
    then show ?case by (cases k) (simp_all add: split_beta)
  qed simp
qed

lemma writeRecord_None:
  assumes "cd_Marshal codec (r\<lparr>ar_Instance := wr_instance w, ar_PrevHash := wr_prevHash w\<rparr>) = None"
  shows "writeRecord codec digest (r, io) w = w\<lparr>wr_writeFailures := wr_writeFailures w + 1\<rparr>"
  using assms by (simp add: writeRecord_def)

lemma writeRecord_Some:
  assumes "cd_Marshal codec (r\<lparr>ar_Instance := wr_instance w, ar_PrevHash := wr_prevHash w\<rparr>) = Some l"
  shows "wr_instance (writeRecord codec digest (r, io) w) = wr_instance w"
    and "wr_prevHash (writeRecord codec digest (r, io) w) = lineHash digest l"
    and "wr_count (writeRecord codec digest (r, io) w) = (if io_wal io = Wrote then add64 (wr_count w) 1 else wr_count w)"
    and "wr_head (writeRecord codec digest (r, io) w)
      = (if io_wal io = Wrote then Some (lineHash digest l, add64 (wr_count w) 1) else wr_head w)"
    and "wr_sinks (writeRecord codec digest (r, io) w) = fst (writeSinks (io_sinks io) 0 l (wr_sinks w))"
  using assms by (cases "io_wal io"; simp add: writeRecord_def writeLine_def Let_def split_beta)+

text \<open>After a run from a fresh writer: the chain value, the published head, and the content of a sink whose writes all succeeded.\<close>

lemma loop_run:
  assumes "es = emitted codec digest (wr_instance w) (wr_prevHash w) rs" and "0 \<le> wr_count w" and "wr_count w + int (length rs) \<le> MaxInt64"
  shows "wr_instance (loop codec digest rs w) = wr_instance w"
    and "wr_prevHash (loop codec digest rs w) = endHash digest (wr_prevHash w) (map fst es)"
    and "wr_count (loop codec digest rs w) = wr_count w + int (length (filter snd es))"
    and "wr_head (loop codec digest rs w)
      = (if filter snd es = [] then wr_head w else Some (lineHash digest (fst (last (filter snd es))), wr_count w + int (length (filter snd es))))"
    and "k < length (wr_sinks w) \<Longrightarrow> \<forall>(r, io) \<in> set rs. io_sinks io k = Wrote \<Longrightarrow>
      k < length (wr_sinks (loop codec digest rs w)) \<and>
      sk_Content (wr_sinks (loop codec digest rs w) ! k) = sk_Content (wr_sinks w ! k) @ fileOf (map fst es)"
proof -
  have "wr_instance (loop codec digest rs w) = wr_instance w
    \<and> wr_prevHash (loop codec digest rs w) = endHash digest (wr_prevHash w) (map fst es)
    \<and> wr_count (loop codec digest rs w) = wr_count w + int (length (filter snd es))
    \<and> wr_head (loop codec digest rs w)
      = (if filter snd es = [] then wr_head w else Some (lineHash digest (fst (last (filter snd es))), wr_count w + int (length (filter snd es))))
    \<and> (k < length (wr_sinks w) \<longrightarrow> (\<forall>(r, io) \<in> set rs. io_sinks io k = Wrote) \<longrightarrow>
      k < length (wr_sinks (loop codec digest rs w)) \<and>
      sk_Content (wr_sinks (loop codec digest rs w) ! k) = sk_Content (wr_sinks w ! k) @ fileOf (map fst es))"
    using assms
  proof (induction rs arbitrary: w es)
    case Nil
    then show ?case by (simp add: loop_def endHash_def fileOf_def)
  next
    case (Cons x rs)
    obtain r io where x: "x = (r, io)" by (cases x)
    have step: "loop codec digest (x # rs) w = loop codec digest rs (writeRecord codec digest (r, io) w)" by (simp add: loop_def x)
    show ?case
    proof (cases "cd_Marshal codec (r\<lparr>ar_Instance := wr_instance w, ar_PrevHash := wr_prevHash w\<rparr>)")
      case None
      note w1 = writeRecord_None [OF None, of digest io]
      have "es = emitted codec digest (wr_instance w) (wr_prevHash w) rs" using Cons.prems(1) by (simp add: x None)
      then show ?thesis
        using Cons.IH [of es "w\<lparr>wr_writeFailures := wr_writeFailures w + 1\<rparr>"] Cons.prems(2,3) unfolding step w1 by (auto split: if_splits)
    next
      case (Some l)
      let ?w1 = "writeRecord codec digest (r, io) w"
      note w1 = writeRecord_Some [OF Some, of digest io]
      define es1 where "es1 = emitted codec digest (wr_instance ?w1) (wr_prevHash ?w1) rs"
      have es: "es = (l, io_wal io = Wrote) # es1" using Cons.prems(1) by (simp add: x Some es1_def w1)
      have cnt: "add64 (wr_count w) 1 = wr_count w + 1" using Cons.prems(2,3) by (intro add64_exact) (simp add: in64_bounds)
      have IH: "wr_instance (loop codec digest rs ?w1) = wr_instance ?w1"
        "wr_prevHash (loop codec digest rs ?w1) = endHash digest (wr_prevHash ?w1) (map fst es1)"
        "wr_count (loop codec digest rs ?w1) = wr_count ?w1 + int (length (filter snd es1))"
        "wr_head (loop codec digest rs ?w1) = (if filter snd es1 = [] then wr_head ?w1
           else Some (lineHash digest (fst (last (filter snd es1))), wr_count ?w1 + int (length (filter snd es1))))"
        "k < length (wr_sinks ?w1) \<longrightarrow> (\<forall>(r, io) \<in> set rs. io_sinks io k = Wrote) \<longrightarrow> k < length (wr_sinks (loop codec digest rs ?w1)) \<and>
           sk_Content (wr_sinks (loop codec digest rs ?w1) ! k) = sk_Content (wr_sinks ?w1 ! k) @ fileOf (map fst es1)"
        using Cons.IH [OF es1_def] Cons.prems(2,3) by (auto simp: w1(3) cnt)
      have sink: "sk_Content (wr_sinks ?w1 ! k) = sk_Content (wr_sinks w ! k) @ l @ [newline]" "k < length (wr_sinks ?w1)"
        if "k < length (wr_sinks w)" "io_sinks io k = Wrote"
        using writeSinks_nth [OF that(1), of "io_sinks io" 0 l] that by (simp_all add: w1(5) writeLine_def)
      have "wr_prevHash (loop codec digest rs ?w1) = endHash digest (wr_prevHash w) (map fst ((l, io_wal io = Wrote) # es1))"
        by (simp add: IH(2) w1(2))
      moreover have "k < length (wr_sinks (loop codec digest rs ?w1)) \<and>
          sk_Content (wr_sinks (loop codec digest rs ?w1) ! k) = sk_Content (wr_sinks w ! k) @ fileOf (map fst ((l, io_wal io = Wrote) # es1))"
        if "k < length (wr_sinks w)" "\<forall>(r, io) \<in> set (x # rs). io_sinks io k = Wrote"
        using IH(5) sink that by (simp add: x fileOf_def)
      ultimately show ?thesis unfolding step es IH(1,3,4) by (simp add: w1 cnt)
    qed
  qed
  then show "wr_instance (loop codec digest rs w) = wr_instance w"
    "wr_prevHash (loop codec digest rs w) = endHash digest (wr_prevHash w) (map fst es)"
    "wr_count (loop codec digest rs w) = wr_count w + int (length (filter snd es))"
    "wr_head (loop codec digest rs w)
      = (if filter snd es = [] then wr_head w else Some (lineHash digest (fst (last (filter snd es))), wr_count w + int (length (filter snd es))))"
    "k < length (wr_sinks w) \<Longrightarrow> \<forall>(r, io) \<in> set rs. io_sinks io k = Wrote \<Longrightarrow>
      k < length (wr_sinks (loop codec digest rs w)) \<and>
      sk_Content (wr_sinks (loop codec digest rs w) ! k) = sk_Content (wr_sinks w ! k) @ fileOf (map fst es)" by blast+
qed

section \<open>Verifying an intact chain\<close>

lemma advance_linked:
  assumes "cd_Unmarshal codec l = Some r" and "ar_Instance r = inst" and "ar_PrevHash r = cu_Expected (enterSegment inst c)"
  obtains c' where "advance codec digest l c = Inr c'" and "enterSegment inst c' = c'" and "cu_Instance c' = Some inst"
    and "cu_Expected c' = lineHash digest l" and "cu_Count c' = cu_Count (enterSegment inst c) + 1" and "cu_Records c' = cu_Records c"
proof (rule that)
  let ?c1 = "enterSegment inst c"
  show "advance codec digest l c = Inr (?c1\<lparr>cu_Expected := lineHash digest l, cu_Count := cu_Count ?c1 + 1\<rparr>)"
    using assms by (simp add: advance_def Let_def)
qed (simp_all add: enterSegment_def)

lemma enter_counted: "cu_Expected (enterSegment inst (counted c)) = cu_Expected (enterSegment inst c)"
  "cu_Count (enterSegment inst (counted c)) = cu_Count (enterSegment inst c)"
  by (simp_all add: enterSegment_def counted_def)

lemma cu_counted: "cu_Records (counted c) = cu_Records c + 1"
  by (simp add: counted_def)

lemma verify_linked:
  assumes "linked codec digest inst (cu_Expected (enterSegment inst c)) ls" and "[] \<notin> set ls"
  shows "\<exists>insts'. verifyLines codec digest ls c insts
      = \<lparr>vr_OK = True, vr_Records = cu_Records c + int (length ls), vr_BrokenAt = 0, vr_Reason = [], vr_Instances = insts'\<rparr>
    \<and> (ls \<noteq> [] \<longrightarrow> Mapping.lookup insts' inst = Some \<lparr>is_HeadHash = lineHash digest (last ls),
         is_Count = cu_Count (enterSegment inst c) + int (length ls)\<rparr>)"
  using assms
proof (induction ls arbitrary: c insts)
  case (Cons l ls)
  then obtain r where r: "cd_Unmarshal codec l = Some r" "ar_Instance r = inst" "ar_PrevHash r = cu_Expected (enterSegment inst (counted c))"
    by (auto simp: enter_counted)
  obtain c' where c': "advance codec digest l (counted c) = Inr c'" "enterSegment inst c' = c'" "cu_Instance c' = Some inst"
    "cu_Expected c' = lineHash digest l" "cu_Count c' = cu_Count (enterSegment inst c) + 1" "cu_Records c' = cu_Records c + 1"
    by (rule advance_linked [OF r, of digest]) (simp add: enter_counted cu_counted)
  let ?insts = "Mapping.update (the (cu_Instance c')) \<lparr>is_HeadHash = cu_Expected c', is_Count = cu_Count c'\<rparr> insts"
  have "verifyLines codec digest (l # ls) c insts = verifyLines codec digest ls c' ?insts"
    using Cons.prems(2) c'(1) by (cases "l = []") simp_all
  moreover have "linked codec digest inst (cu_Expected (enterSegment inst c')) ls" using Cons.prems(1) by (simp add: c'(2,4))
  ultimately show ?case
    using Cons.IH [of c' ?insts] Cons.prems(2) c'(2-6) by (cases "ls = []") (auto simp: gomap_simps)
qed simp

lemma headAt_linked:
  assumes "linked codec digest inst (cu_Expected (enterSegment inst c)) ls" and "[] \<notin> set ls" and "0 < n" and "n \<le> length ls"
  shows "headAt codec digest inst (cu_Count (enterSegment inst c) + int n) ls c = Some (Some (lineHash digest (ls ! (n - 1))))"
  using assms
proof (induction ls arbitrary: c n)
  case (Cons l ls)
  then obtain r where r: "cd_Unmarshal codec l = Some r" "ar_Instance r = inst" "ar_PrevHash r = cu_Expected (enterSegment inst c)" by auto
  obtain c' where c': "advance codec digest l c = Inr c'" "enterSegment inst c' = c'" "cu_Instance c' = Some inst"
    "cu_Expected c' = lineHash digest l" "cu_Count c' = cu_Count (enterSegment inst c) + 1"
    by (rule advance_linked [OF r])
  show ?case
  proof (cases "n = 1")
    case True
    then show ?thesis using Cons.prems(2) c' by (cases "l = []") simp_all
  next
    case False
    then have n: "cu_Count (enterSegment inst c) + int n = cu_Count (enterSegment inst c') + int (n - 1)" "0 < n - 1" "n - 1 \<le> length ls"
      using Cons.prems(3,4) by (simp_all add: c'(2,5))
    moreover have "linked codec digest inst (cu_Expected (enterSegment inst c')) ls" using Cons.prems(1) by (simp add: c'(2,4))
    ultimately have "headAt codec digest inst (cu_Count (enterSegment inst c') + int (n - 1)) ls c' = Some (Some (lineHash digest (ls ! (n - 1 - 1))))"
      using Cons.IH [of c' "n - 1"] Cons.prems(2) by simp
    moreover have "headAt codec digest inst (cu_Count (enterSegment inst c) + int n) (l # ls) c
        = headAt codec digest inst (cu_Count (enterSegment inst c') + int (n - 1)) ls c'"
      unfolding n(1) [symmetric] using Cons.prems(2) False c'(1,5) by (cases "l = []") simp_all
    moreover have "(l # ls) ! (n - 1) = ls ! (n - 1 - 1)" using n(2) by (simp add: nth_Cons')
    ultimately show ?thesis by (simp only:)
  qed
qed simp

lemma start_segment: "cu_Expected (enterSegment inst startCursor) = genesisHash" "cu_Count (enterSegment inst startCursor) = 0"
  by (simp_all add: enterSegment_def startCursor_def)

lemma cu_start: "cu_Records startCursor = 0"
  by (simp add: startCursor_def)

lemma verify_file:
  assumes "linked codec digest inst genesisHash ls" and "\<forall>l \<in> set ls. l \<noteq> [] \<and> newline \<notin> set l \<and> dropCR l = l \<and> fits l"
  shows "\<exists>vr. Verify codec digest (fileOf ls) = Inr vr \<and> vr_OK vr \<and> vr_Records vr = int (length ls)
    \<and> (ls \<noteq> [] \<longrightarrow> Mapping.lookup (vr_Instances vr) inst = Some \<lparr>is_HeadHash = endHash digest genesisHash ls, is_Count = int (length ls)\<rparr>)"
proof -
  have "[] \<notin> set ls" using assms(2) by blast
  then obtain insts where "verifyLines codec digest ls startCursor Mapping.empty
      = \<lparr>vr_OK = True, vr_Records = int (length ls), vr_BrokenAt = 0, vr_Reason = [], vr_Instances = insts\<rparr>"
    "ls \<noteq> [] \<longrightarrow> Mapping.lookup insts inst = Some \<lparr>is_HeadHash = lineHash digest (last ls), is_Count = int (length ls)\<rparr>"
    using verify_linked [of codec digest inst startCursor ls Mapping.empty] assms(1)
    by (auto simp: start_segment cu_start)
  moreover have "scanned (fileOf ls) = (ls, True)" using assms(2) by (intro scanned_file) blast
  ultimately show ?thesis by (auto simp: Verify_def endHash_def)
qed

section \<open>Properties\<close>

text \<open>The run of a fresh process on a sink that was empty and never failed.\<close>

definition sinkRun :: "Codec \<Rightarrow> (string \<Rightarrow> string) \<Rightarrow> nat \<Rightarrow> AuditWriter \<Rightarrow> (AuditRecord \<times> RecordIO) list \<Rightarrow> bool" where
  "sinkRun codec digest k w rs \<longleftrightarrow>
     (\<exists>inst wal sinks. w = NewWriter inst wal sinks \<and> k < length sinks \<and> sk_Content (sinks ! k) = [])
     \<and> (\<forall>(r, io) \<in> set rs. io_sinks io k = Wrote) \<and> int (length rs) \<le> MaxInt64
     \<and> (\<forall>l \<in> fst ` set (emitted codec digest (wr_instance w) genesisHash rs). fits l)"

lemma sinkRun_content:
  assumes "goodCodec codec" and "sinkRun codec digest k w rs" and "es = emitted codec digest (wr_instance w) genesisHash rs"
  shows "sk_Content (wr_sinks (loop codec digest rs w) ! k) = fileOf (map fst es)"
    and "wr_prevHash (loop codec digest rs w) = endHash digest genesisHash (map fst es)"
    and "HeadHash (loop codec digest rs w) = (if filter snd es = [] then (genesisHash, 0)
          else (lineHash digest (fst (last (filter snd es))), int (length (filter snd es))))"
    and "linked codec digest (wr_instance w) genesisHash (map fst es)"
    and "\<forall>l \<in> set (map fst es). l \<noteq> [] \<and> newline \<notin> set l \<and> dropCR l = l \<and> fits l"
    and "wr_instance (loop codec digest rs w) = wr_instance w"
proof -
  obtain inst wal sinks where w: "w = NewWriter inst wal sinks" "k < length sinks" "sk_Content (sinks ! k) = []"
    "\<forall>(r, io) \<in> set rs. io_sinks io k = Wrote" "int (length rs) \<le> MaxInt64" "\<forall>l \<in> fst ` set es. fits l"
    using assms(2,3) by (auto simp: sinkRun_def)
  have fresh: "wr_prevHash w = genesisHash" "wr_count w = 0" "wr_head w = None" "wr_sinks w = sinks" by (simp_all add: w NewWriter_def)
  note run = loop_run [OF assms(3) [folded fresh(1)], unfolded fresh, simplified, OF w(5)]
  show "sk_Content (wr_sinks (loop codec digest rs w) ! k) = fileOf (map fst es)" using run(5) w(2-4) by simp
  show "wr_prevHash (loop codec digest rs w) = endHash digest genesisHash (map fst es)" by (fact run(2))
  show "HeadHash (loop codec digest rs w) = (if filter snd es = [] then (genesisHash, 0)
          else (lineHash digest (fst (last (filter snd es))), int (length (filter snd es))))"
    by (simp add: HeadHash_def run(4))
  show "linked codec digest (wr_instance w) genesisHash (map fst es)" unfolding assms(3) by (rule emitted_linked [OF assms(1)])
  show "\<forall>l \<in> set (map fst es). l \<noteq> [] \<and> newline \<notin> set l \<and> dropCR l = l \<and> fits l"
    using emitted_lines [OF assms(1)] w(6) unfolding assms(3) by simp
  show "wr_instance (loop codec digest rs w) = wr_instance w" by (fact run(1))
qed

text \<open>
  C32: the log of a process verifies. When a sink took every record of a fresh process, the
  records that could be encoded form one intact chain in it: the verification accepts the
  file, counts them all, and reports as the head of the process exactly the hash to which
  the writer will link its next record, whatever happened to the write-ahead log and the
  other sinks.
\<close>

theorem written_log_verifies:
  assumes "goodCodec codec" and "sinkRun codec digest k w rs"
  shows "\<exists>vr. Verify codec digest (sk_Content (wr_sinks (loop codec digest rs w) ! k)) = Inr vr \<and> vr_OK vr
    \<and> vr_Records vr = int (length (emitted codec digest (wr_instance w) genesisHash rs))
    \<and> (0 < vr_Records vr \<longrightarrow> Mapping.lookup (vr_Instances vr) (wr_instance w)
         = Some \<lparr>is_HeadHash = wr_prevHash (loop codec digest rs w), is_Count = vr_Records vr\<rparr>)"
proof -
  define es where "es = emitted codec digest (wr_instance w) genesisHash rs"
  note run = sinkRun_content [OF assms es_def]
  from verify_file [OF run(4,5)] show ?thesis unfolding run(1,2) es_def [symmetric] by auto
qed

text \<open>
  C33: an anchor that still matches proves that nothing it witnessed was touched. When the
  online verification of any content, however it came about, succeeds against an anchor of a
  process whose appends to the write-ahead log had all succeeded, then all records that
  process had written until then are in the content, byte for byte, in order and without
  gaps. It rests on the digest having no collision among these lines.
\<close>

theorem anchored_records_present:
  assumes "goodCodec codec" and "inj_on digest (fst ` set es \<union> set (linesOf (fst (completePrefix content))))"
    and "sinkRun codec digest k w rs" and "es = emitted codec digest (wr_instance w) genesisHash rs" and "\<forall>(l, durable) \<in> set es. durable" and "es \<noteq> []"
    and "HeadHash (loop codec digest rs w) = (ap_HeadHash anchor, ap_Count anchor)"
    and "sr_OK (verifyFile codec digest (Some (Inr (Some anchor))) (wr_instance w) content)"
  shows "\<exists>pre post. linesOf (fst (completePrefix content)) = pre @ map fst es @ post"
proof -
  note run = sinkRun_content [OF assms(1,3,4)]
  have all: "filter snd es = es" using assms(5) by (auto simp: filter_id_conv)
  have head: "ap_HeadHash anchor = endHash digest genesisHash (map fst es)" "0 < ap_Count anchor"
    using run(3) assms(6,7) by (simp_all add: all endHash_def last_map)
  obtain pre seg post where seg: "linesOf (fst (completePrefix content)) = pre @ seg @ post"
    "linked codec digest (wr_instance w) genesisHash seg" "ap_HeadHash anchor = endHash digest genesisHash seg"
    using anchor_matches [OF assms(8) head(2)] by (auto simp: stateAt_def)
  have "seg = map fst es" using linked_unique [OF assms(2) seg(2) run(4)] seg(1,3) head(1) by (simp, blast)
  then show ?thesis using seg(1) by blast
qed

lemma fileOf_snoc: "fileOf (ls @ [l]) = fileOf ls @ l @ [newline]"
  by (simp add: fileOf_def)

lemma completePrefix_file: "completePrefix (fileOf ls) = (fileOf ls, False)"
proof (cases ls rule: rev_cases)
  case (snoc ks l)
  then show ?thesis by (simp add: completePrefix_def fileOf_snoc)
qed (simp add: completePrefix_def fileOf_def)

lemma same_position:
  assumes "inj_on digest (set ls)" and "linked codec digest inst genesisHash ls" and "i < length ls" and "j < length ls"
    and "lineHash digest (ls ! i) = lineHash digest (ls ! j)"
  shows "i = j"
proof -
  have pre: "linked codec digest inst genesisHash (take (Suc n) ls)" "endHash digest genesisHash (take (Suc n) ls) = lineHash digest (ls ! n)"
    if "n < length ls" for n
  proof -
    show "linked codec digest inst genesisHash (take (Suc n) ls)"
      using assms(2) linked_append [of codec digest inst genesisHash "take (Suc n) ls" "drop (Suc n) ls"] by simp
    show "endHash digest genesisHash (take (Suc n) ls) = lineHash digest (ls ! n)" using that by (simp add: take_Suc_conv_app_nth)
  qed
  have "take (Suc i) ls = take (Suc j) ls"
    using linked_unique [OF assms(1) pre(1) [OF assms(3)] pre(1) [OF assms(4)]] pre(2) [OF assms(3)] pre(2) [OF assms(4)] assms(5)
    by (simp add: set_take_subset)
  then have "length (take (Suc i) ls) = length (take (Suc j) ls)" by simp
  then show ?thesis using assms(3,4) by simp
qed

text \<open>The online verification of an intact file against an anchor of the same process.\<close>

lemma verify_anchor:
  assumes "linked codec digest inst genesisHash ls" and "\<forall>l \<in> set ls. l \<noteq> [] \<and> newline \<notin> set l \<and> dropCR l = l \<and> fits l"
    and "int (length (fileOf ls)) \<le> maxVerifyBytes" and "0 < n" and "n \<le> length ls" and "ap_Count anchor = int n"
  shows "sr_OK (verifyFile codec digest (Some (Inr (Some anchor))) inst (fileOf ls)) \<longleftrightarrow> ap_HeadHash anchor = lineHash digest (ls ! (n - 1))"
proof -
  have ne: "ls \<noteq> []" "[] \<notin> set ls" using assms(2,4,5) by auto
  obtain vr where vr: "Verify codec digest (fileOf ls) = Inr vr" "vr_OK vr"
    "Mapping.lookup (vr_Instances vr) inst = Some \<lparr>is_HeadHash = lineHash digest (last ls), is_Count = int (length ls)\<rparr>"
    using verify_file [OF assms(1,2)] ne(1) by (auto simp: endHash_def)
  have head: "headAt codec digest inst (int n) ls startCursor = Some (Some (lineHash digest (ls ! (n - 1))))"
    using headAt_linked [of codec digest inst startCursor ls n] assms(1,4,5) ne(2) by (simp add: start_segment)
  have scan: "scanned (fileOf ls) = (ls, True)" using assms(2) by (intro scanned_file) blast
  have "HeadAtCount codec digest (fileOf ls) inst (int n) = Inr (Some (lineHash digest (ls ! (n - 1))))"
    unfolding HeadAtCount_def scan by (simp add: head)
  moreover have "n = length ls \<Longrightarrow> last ls = ls ! (n - 1)" using ne(1) by (simp add: last_conv_nth)
  ultimately show ?thesis
    using assms(3,5) by (auto simp: verifyFile_def completePrefix_file vr Let_def checkAnchor_def stateOf_def assms(6))
qed

text \<open>
  An anchor fits the file it was taken from exactly when no append to the write-ahead log
  failed before the anchored record. The published count is the number of records that
  became durable, but a record whose append failed is still linked into the chain and
  delivered to the sinks; from then on the count lags behind the position in the file, and
  the verification of the untouched file reports tampering.
\<close>

lemma anchor_fits_iff_durable:
  assumes "goodCodec codec" and "inj_on digest (fst ` set es)" and "sinkRun codec digest k w rs"
    and "es = emitted codec digest (wr_instance w) genesisHash rs" and "es = before @ (l, True) # after" and "\<forall>(m, durable) \<in> set after. \<not> durable"
    and "HeadHash (loop codec digest rs w) = (ap_HeadHash anchor, ap_Count anchor)"
    and "int (length (sk_Content (wr_sinks (loop codec digest rs w) ! k))) \<le> maxVerifyBytes"
  shows "sr_OK (verifyFile codec digest (Some (Inr (Some anchor))) (wr_instance w) (sk_Content (wr_sinks (loop codec digest rs w) ! k)))
    \<longleftrightarrow> (\<forall>(m, durable) \<in> set before. durable)"
proof -
  note run = sinkRun_content [OF assms(1,3,4)]
  define ls where "ls = map fst es"
  define d where "d = length (filter snd before)"
  have "filter snd after = []" using assms(6) by (auto simp: filter_empty_conv)
  then have D: "filter snd es = filter snd before @ [(l, True)]" by (simp add: assms(5))
  then have anchor: "ap_HeadHash anchor = lineHash digest (ls ! length before)" "ap_Count anchor = int (d + 1)"
    using run(3) assms(7) by (simp_all add: d_def ls_def assms(5) nth_append)
  have le: "d \<le> length before" "length before < length ls" by (simp_all add: d_def ls_def assms(5))
  have "sr_OK (verifyFile codec digest (Some (Inr (Some anchor))) (wr_instance w) (fileOf ls)) \<longleftrightarrow> lineHash digest (ls ! length before) = lineHash digest (ls ! d)"
    using verify_anchor [of codec digest "wr_instance w" ls "d + 1" anchor] run(1,4,5) assms(8) anchor le by (simp add: ls_def)
  also have "\<dots> \<longleftrightarrow> length before = d"
    using same_position [of digest ls, OF _ run(4) [folded ls_def], of "length before" d] le assms(2) by (auto simp: ls_def)
  also have "\<dots> \<longleftrightarrow> (\<forall>(m, durable) \<in> set before. durable)"
    unfolding d_def by (metis (mono_tags, lifting) case_prod_beta' filter_id_conv length_filter_less less_irrefl)
  finally show ?thesis by (simp add: run(1) ls_def)
qed

section \<open>Witnesses\<close>

text \<open>A codec that writes the two chain fields separated by a bar, and an injective digest.\<close>

definition barePrincipal :: AuditPrincipalRef where
  "barePrincipal = \<lparr>apr_KeyID = [], apr_Team = [], apr_User = None, apr_AuthMethod = None\<rparr>"

definition bareRecord :: "string \<Rightarrow> string \<Rightarrow> AuditRecord" where
  "bareRecord inst prev = \<lparr>ar_SchemaVersion = 1, ar_Event = [], ar_ID = [], ar_TS = [], ar_Instance = inst, ar_Principal = barePrincipal,
     ar_Request = \<lparr>arq_Ingress = [], arq_ModelRequested = [], arq_ModelResolved = [], arq_Provider = [], arq_ProviderAPI = [], arq_Stream = False,
       arq_PIIMasked = False, arq_ModelSubstitutedFrom = [], arq_Routing = None\<rparr>,
     ar_Outcome = None, ar_Usage = None, ar_Cost = None, ar_Latency = None, ar_TraceID = None, ar_PrevHash = prev, ar_BodyRef = None,
     ar_RecordRef = None, ar_GuardrailID = None, ar_GuardrailVersion = None\<rparr>"

definition barCodec :: Codec where
  "barCodec = \<lparr>cd_Marshal = (\<lambda>r. let l = ar_Instance r @ ''|'' @ ar_PrevHash r @ ''}''
       in if CHR ''|'' \<in> set (ar_Instance r) \<or> newline \<in> set l then None else Some l),
     cd_Unmarshal = (\<lambda>l. case dropWhile (\<lambda>c. c \<noteq> CHR ''|'') l of
       [] \<Rightarrow> None | _ # rest \<Rightarrow> Some (bareRecord (takeWhile (\<lambda>c. c \<noteq> CHR ''|'') l) (butlast rest)))\<rparr>"

lemma barCodec_good: "goodCodec barCodec"
proof -
  have "takeWhile (\<lambda>c. c \<noteq> CHR ''|'') (i @ CHR ''|'' # rest) = i" "dropWhile (\<lambda>c. c \<noteq> CHR ''|'') (i @ CHR ''|'' # rest) = CHR ''|'' # rest"
    if "CHR ''|'' \<notin> set i" for i rest
    using that by (induction i) auto
  then show ?thesis unfolding goodCodec_def by (auto simp: barCodec_def Let_def bareRecord_def split: if_splits)
qed

definition lineOK :: RecordIO where
  "lineOK = \<lparr>io_wal = Wrote, io_sinks = (\<lambda>_. Wrote), io_truncated = True\<rparr>"

definition walFailed :: RecordIO where
  "walFailed = lineOK\<lparr>io_wal := Failed 0\<rparr>"

definition sampleWriter :: AuditWriter where
  "sampleWriter = NewWriter ''i1'' [] [\<lparr>sk_Name = ''file'', sk_Required = True, sk_Content = []\<rparr>]"

lemma sinkRun_fresh:
  assumes "k < length sinks" and "sk_Content (sinks ! k) = []" and "list_all (\<lambda>x. io_sinks (snd x) k = Wrote) rs" and "int (length rs) \<le> MaxInt64"
    and "list_all (\<lambda>x. fits (fst x)) (emitted codec digest inst genesisHash rs)"
  shows "sinkRun codec digest k (NewWriter inst wal sinks) rs"
  unfolding sinkRun_def using assms by (auto simp: list_all_iff NewWriter_def split_beta)

lemma sample_run:
  "sinkRun barCodec id 0 sampleWriter [(bareRecord [] [], lineOK), (bareRecord [] [], lineOK)]"
  "sinkRun barCodec id 0 sampleWriter [(bareRecord [] [], walFailed), (bareRecord [] [], lineOK)]"
proof -
  have "list_all (\<lambda>x. fits (fst x)) (emitted barCodec id ''i1'' genesisHash [(bareRecord [] [], lineOK), (bareRecord [] [], lineOK)])" by code_simp
  then show "sinkRun barCodec id 0 sampleWriter [(bareRecord [] [], lineOK), (bareRecord [] [], lineOK)]"
    unfolding sampleWriter_def by (intro sinkRun_fresh) (simp_all only:, simp_all add: lineOK_def MaxInt64_def)
  have "list_all (\<lambda>x. fits (fst x)) (emitted barCodec id ''i1'' genesisHash [(bareRecord [] [], walFailed), (bareRecord [] [], lineOK)])" by code_simp
  then show "sinkRun barCodec id 0 sampleWriter [(bareRecord [] [], walFailed), (bareRecord [] [], lineOK)]"
    unfolding sampleWriter_def by (intro sinkRun_fresh) (simp_all only:, simp_all add: lineOK_def walFailed_def MaxInt64_def)
qed

theorem written_log_verifies_witness:
  "\<exists>vr. Verify barCodec id (sk_Content (wr_sinks (loop barCodec id [(bareRecord [] [], lineOK), (bareRecord [] [], lineOK)] sampleWriter) ! 0)) = Inr vr
     \<and> vr_OK vr \<and> vr_Records vr = 2"
proof -
  have "length (emitted barCodec id (wr_instance sampleWriter) genesisHash [(bareRecord [] [], lineOK), (bareRecord [] [], lineOK)]) = 2" by code_simp
  then show ?thesis using written_log_verifies [OF barCodec_good sample_run(1)] by auto
qed

definition anchorOf :: "AuditWriter \<Rightarrow> AnchorPoint" where
  "anchorOf w = \<lparr>ap_Instance = wr_instance w, ap_HeadHash = fst (HeadHash w), ap_Count = snd (HeadHash w), ap_TS = []\<rparr>"

theorem anchored_records_present_witness:
  "\<exists>pre post. linesOf (fst (completePrefix (sk_Content (wr_sinks (loop barCodec id [(bareRecord [] [], lineOK), (bareRecord [] [], lineOK)] sampleWriter) ! 0))))
     = pre @ map fst (emitted barCodec id ''i1'' genesisHash [(bareRecord [] [], lineOK), (bareRecord [] [], lineOK)]) @ post"
proof -
  let ?rs = "[(bareRecord [] [], lineOK), (bareRecord [] [], lineOK)]"
  let ?w = "loop barCodec id ?rs sampleWriter"
  let ?es = "emitted barCodec id ''i1'' genesisHash ?rs"
  have inst: "wr_instance sampleWriter = ''i1''" by (simp add: sampleWriter_def NewWriter_def)
  have "list_all snd ?es" "?es \<noteq> []" "sr_OK (verifyFile barCodec id (Some (Inr (Some (anchorOf ?w)))) ''i1'' (sk_Content (wr_sinks ?w ! 0)))"
    by code_simp+
  then have "\<forall>(l, durable) \<in> set ?es. durable" by (auto simp: list_all_iff)
  from anchored_records_present [where anchor = "anchorOf ?w", OF barCodec_good _ sample_run(1) refl, unfolded inst, OF _ this \<open>?es \<noteq> []\<close> _
      \<open>sr_OK (verifyFile barCodec id (Some (Inr (Some (anchorOf ?w)))) ''i1'' (sk_Content (wr_sinks ?w ! 0)))\<close>]
  show ?thesis by (simp add: anchorOf_def)
qed

text \<open>
  One failed append to the write-ahead log, and the untouched file no longer passes the check
  against the next anchor.
\<close>

lemma failed_append_looks_tampered:
  "\<not> sr_OK (verifyFile barCodec id (Some (Inr (Some (anchorOf (loop barCodec id [(bareRecord [] [], walFailed), (bareRecord [] [], lineOK)] sampleWriter)))))
     ''i1'' (sk_Content (wr_sinks (loop barCodec id [(bareRecord [] [], walFailed), (bareRecord [] [], lineOK)] sampleWriter) ! 0)))"
proof -
  let ?rs = "[(bareRecord [] [], walFailed), (bareRecord [] [], lineOK)]"
  let ?w = "loop barCodec id ?rs sampleWriter"
  have inst: "wr_instance sampleWriter = ''i1''" by (simp add: sampleWriter_def NewWriter_def)
  have "map snd (emitted barCodec id ''i1'' genesisHash ?rs) = [False, True]" by code_simp
  then obtain l m where es: "emitted barCodec id ''i1'' genesisHash ?rs = [(m, False), (l, True)]" by (auto simp: map_eq_Cons_conv)
  have "int (length (sk_Content (wr_sinks ?w ! 0))) \<le> maxVerifyBytes" by code_simp
  with anchor_fits_iff_durable [where anchor = "anchorOf ?w" and before = "[(m, False)]" and after = "[]" and l = l,
      OF barCodec_good _ sample_run(2) refl, unfolded inst] es
  show ?thesis by (simp add: anchorOf_def)
qed

end
