(* ===== verification/Alert.thy ===== *)
theory Alert
  imports Float64
begin

text \<open>
  Budget alerts, \<^verbatim>\<open>internal/alert\<close>: after each settlement the utilization of a team or a key is
  compared with the configured thresholds, and the highest one newly crossed is posted to a
  webhook. Teams and keys are remembered separately. The outcome of a delivery is an
  argument; it is recorded in a bounded list of recent alerts.
\<close>

section \<open>The notifier\<close>

datatype delivery_error = BuildFailed | TimedOut | DeliveryFailed | NonSuccess int

record Fire =
  fi_TS :: string
  fi_Team :: string
  fi_KeyID :: string
  fi_Threshold :: rat
  fi_Ratio :: rat
  fi_SpentMicros :: int
  fi_LimitMicros :: int
  fi_Delivered :: bool
  fi_Error :: "delivery_error option"

record Notifier =
  nt_url :: string
  nt_thresholds :: "rat list"
  nt_fired :: "(string, rat) mapping"
  nt_firedKey :: "(string, rat) mapping"
  nt_recent :: "Fire list"

definition recentCap :: nat where
  "recentCap = 50"

definition alert_New :: "string \<Rightarrow> rat list \<Rightarrow> Notifier" where
  "alert_New url thresholds = \<lparr>nt_url = url, nt_thresholds = sort (filter (\<lambda>t. t > 0) thresholds),
     nt_fired = Mapping.empty, nt_firedKey = Mapping.empty, nt_recent = []\<rparr>"

definition utilization :: "int \<Rightarrow> int \<Rightarrow> rat" where
  "utilization spent limit = fl (float_of_int spent / float_of_int limit)"

text \<open>The common part of both observations: the map afterwards and the threshold crossed, zero for none.\<close>

definition crossing :: "rat list \<Rightarrow> rat \<Rightarrow> string \<Rightarrow> (string, rat) mapping \<Rightarrow> (string, rat) mapping \<times> rat" where
  "crossing thresholds ratio key fired =
     (let prev = (case Mapping.lookup fired key of None \<Rightarrow> 0 | Some t \<Rightarrow> t);
          prev = (if ratio < prev then 0 else prev);
          crossed = fold (\<lambda>t c. if ratio \<ge> t \<and> t > prev then t else c) thresholds 0
      in (if crossed = 0 then (if prev = 0 then Mapping.delete key fired else Mapping.update key prev fired)
          else Mapping.update key crossed fired, crossed))"

definition newFire :: "string \<Rightarrow> string \<Rightarrow> string \<Rightarrow> rat \<Rightarrow> int \<Rightarrow> int \<Rightarrow> Fire" where
  "newFire ts team keyID crossed spent limit = \<lparr>fi_TS = ts, fi_Team = team, fi_KeyID = keyID, fi_Threshold = crossed,
     fi_Ratio = utilization spent limit, fi_SpentMicros = spent, fi_LimitMicros = limit, fi_Delivered = False, fi_Error = None\<rparr>"

text \<open>\<open>None\<close> is the absent notifier, on which every method is a no-op. The alert returned is handed to a goroutine of its own.\<close>

definition Observe :: "string \<Rightarrow> string \<Rightarrow> int \<Rightarrow> int \<Rightarrow> Notifier option \<Rightarrow> Notifier option \<times> Fire option" where
  "Observe ts team spent limit no =
     (case no of
        None \<Rightarrow> (None, None)
      | Some n \<Rightarrow>
          if limit \<le> 0 \<or> nt_thresholds n = [] then (Some n, None)
          else (case crossing (nt_thresholds n) (utilization spent limit) team (nt_fired n) of
                  (fired, crossed) \<Rightarrow>
                    (Some (n\<lparr>nt_fired := fired\<rparr>), if crossed = 0 then None else Some (newFire ts team [] crossed spent limit))))"

definition ObserveKey :: "string \<Rightarrow> string \<Rightarrow> string \<Rightarrow> int \<Rightarrow> int \<Rightarrow> Notifier option \<Rightarrow> Notifier option \<times> Fire option" where
  "ObserveKey ts team keyID spent limit no =
     (case no of
        None \<Rightarrow> (None, None)
      | Some n \<Rightarrow>
          if limit \<le> 0 \<or> nt_thresholds n = [] then (Some n, None)
          else (case crossing (nt_thresholds n) (utilization spent limit) keyID (nt_firedKey n) of
                  (fired, crossed) \<Rightarrow>
                    (Some (n\<lparr>nt_firedKey := fired\<rparr>), if crossed = 0 then None else Some (newFire ts team keyID crossed spent limit))))"

text \<open>How a delivery ends: the request cannot be built, the transport fails, or the webhook answers with a status.\<close>

datatype delivery = NoRequest | TransportFailed bool | Answered int

definition classifyError :: "bool \<Rightarrow> delivery_error" where
  "classifyError timeout = (if timeout then TimedOut else DeliveryFailed)"

definition alert_record :: "Fire \<Rightarrow> Notifier \<Rightarrow> Notifier" where
  "alert_record fire n = n\<lparr>nt_recent := take recentCap (fire # nt_recent n)\<rparr>"

definition deliver :: "delivery \<Rightarrow> Fire \<Rightarrow> Notifier \<Rightarrow> Notifier" where
  "deliver d fire n = alert_record
     (case d of
        NoRequest \<Rightarrow> fire\<lparr>fi_Error := Some BuildFailed\<rparr>
      | TransportFailed timeout \<Rightarrow> fire\<lparr>fi_Error := Some (classifyError timeout)\<rparr>
      | Answered status \<Rightarrow>
          if status \<ge> 300 then fire\<lparr>fi_Error := Some (NonSuccess status)\<rparr> else fire\<lparr>fi_Delivered := True\<rparr>) n"

definition Recent :: "Notifier option \<Rightarrow> Fire list" where
  "Recent no = (case no of None \<Rightarrow> [] | Some n \<Rightarrow> nt_recent n)"

section \<open>What one observation does\<close>

text \<open>The highest threshold a ratio has reached, zero when it has reached none.\<close>

definition reached :: "rat list \<Rightarrow> rat \<Rightarrow> rat" where
  "reached ts ratio = (if \<exists>t \<in> set ts. t \<le> ratio then Max {t \<in> set ts. t \<le> ratio} else 0)"

lemma last_crossed:
  fixes ratio :: rat
  assumes "sorted ts"
  shows "fold (\<lambda>t c. if ratio \<ge> t \<and> t > prev then t else c) ts c0
    = (if \<exists>t \<in> set ts. t \<le> ratio \<and> prev < t then Max {t \<in> set ts. t \<le> ratio} else c0)"
  using assms
proof (induction ts rule: rev_induct)
  case (snoc t ts)
  then have le: "\<forall>x \<in> set ts. x \<le> t" and IH: "fold (\<lambda>t c. if ratio \<ge> t \<and> t > prev then t else c) ts c0
    = (if \<exists>t \<in> set ts. t \<le> ratio \<and> prev < t then Max {t \<in> set ts. t \<le> ratio} else c0)"
    by (auto simp: sorted_append)
  show ?case
  proof (cases "t \<le> ratio")
    case True
    then have "Max {x \<in> set (ts @ [t]). x \<le> ratio} = t" using le by (intro Max_eqI) auto
    then show ?thesis using True IH le by force
  next
    case False
    then have "{x \<in> set (ts @ [t]). x \<le> ratio} = {x \<in> set ts. x \<le> ratio}" by auto
    then show ?thesis using False IH by auto
  qed
qed simp

definition firedFor :: "(string, rat) mapping \<Rightarrow> string \<Rightarrow> rat" where
  "firedFor fired key = (case Mapping.lookup fired key of None \<Rightarrow> 0 | Some t \<Rightarrow> t)"

lemma reached_bounds:
  assumes "\<forall>t \<in> set ts. 0 < t"
  shows "0 \<le> reached ts ratio" and "t \<in> set ts \<Longrightarrow> t \<le> ratio \<Longrightarrow> t \<le> reached ts ratio"
    and "reached ts ratio \<noteq> 0 \<Longrightarrow> reached ts ratio \<in> set ts \<and> reached ts ratio \<le> ratio"
proof -
  have fin: "finite {t \<in> set ts. t \<le> ratio}" by simp
  have max: "Max {t \<in> set ts. t \<le> ratio} \<in> {t \<in> set ts. t \<le> ratio}" if "\<exists>t \<in> set ts. t \<le> ratio"
    using that fin by (intro Max_in) auto
  show "0 \<le> reached ts ratio" using max assms by (cases "\<exists>t \<in> set ts. t \<le> ratio") (fastforce simp: reached_def less_imp_le)+
  show "t \<le> reached ts ratio" if "t \<in> set ts" "t \<le> ratio" using that fin by (auto simp: reached_def intro: Max_ge)
  show "reached ts ratio \<noteq> 0 \<Longrightarrow> reached ts ratio \<in> set ts \<and> reached ts ratio \<le> ratio"
    using max by (auto simp: reached_def split: if_splits)
qed

lemma reached_mono: "\<forall>t \<in> set ts. 0 < t \<Longrightarrow> r \<le> r' \<Longrightarrow> reached ts r \<le> reached ts r'"
  using reached_bounds [of ts] by (metis order.trans)

text \<open>While the ratio does not fall, the memory of a key is the threshold reached, and only a new one is reported.\<close>

lemma crossing_step:
  assumes ts: "sorted ts" "\<forall>t \<in> set ts. 0 < t" and mem: "firedFor fired key = reached ts r" and le: "r \<le> r'"
    and cr: "crossing ts r' key fired = (fired', crossed)"
  shows "firedFor fired' key = reached ts r'" and "crossed = (if reached ts r < reached ts r' then reached ts r' else 0)"
proof -
  note b = reached_bounds [OF ts(2)]
  have keep: "(if r' < reached ts r then 0 else reached ts r) = reached ts r"
    using b(3) [of r] le by (cases "reached ts r = 0") auto
  have up: "(\<exists>t \<in> set ts. t \<le> r' \<and> reached ts r < t) \<longleftrightarrow> reached ts r < reached ts r'"
    using b(1) [of r] b(2) [of _ r'] b(3) [of r'] by (metis less_le_not_le order.strict_trans1 order_less_le_trans)
  have pick: "fold (\<lambda>t c. if r' \<ge> t \<and> t > reached ts r then t else c) ts 0
      = (if reached ts r < reached ts r' then reached ts r' else 0)"
    unfolding last_crossed [OF ts(1)] up using b(1) [of r] by (auto simp: reached_def [of ts r'])
  have eq: "crossing ts r' key fired = (let p = reached ts r; c = (if p < reached ts r' then reached ts r' else 0)
      in (if c = 0 then (if p = 0 then Mapping.delete key fired else Mapping.update key p fired) else Mapping.update key c fired, c))"
    by (simp only: crossing_def mem [unfolded firedFor_def] keep pick Let_def)
  show "crossed = (if reached ts r < reached ts r' then reached ts r' else 0)" using cr eq by (auto simp: Let_def)
  have "reached ts r \<le> reached ts r'" by (rule reached_mono [OF ts(2) le])
  then show "firedFor fired' key = reached ts r'" using cr eq b(1) [of r]
    by (auto simp: Let_def firedFor_def split: if_splits)
qed

lemma crossing_other: "k \<noteq> key \<Longrightarrow> firedFor (fst (crossing ts ratio key fired)) k = firedFor fired k"
  by (simp add: crossing_def Let_def firedFor_def)

section \<open>Runs of observations\<close>

datatype observation = TeamSpend string string int int | KeySpend string string string int int

definition observe :: "observation \<Rightarrow> Notifier option \<Rightarrow> Notifier option \<times> Fire option" where
  "observe ob n = (case ob of
     TeamSpend ts team spent limit \<Rightarrow> Observe ts team spent limit n
   | KeySpend ts team keyID spent limit \<Rightarrow> ObserveKey ts team keyID spent limit n)"

text \<open>The alerts a run raises, each beside the observation that raised it.\<close>

fun alerts :: "observation list \<Rightarrow> Notifier option \<Rightarrow> (observation \<times> Fire) list" where
  "alerts [] n = []"
| "alerts (ob # obs) n = (case observe ob n of (n', fire) \<Rightarrow>
     (case fire of None \<Rightarrow> [] | Some f \<Rightarrow> [(ob, f)]) @ alerts obs n')"

fun ofTeam :: "string \<Rightarrow> observation \<Rightarrow> bool" where
  "ofTeam tm (TeamSpend ts team spent limit) = (team = tm)"
| "ofTeam tm (KeySpend ts team keyID spent limit) = False"

fun obsRatio :: "observation \<Rightarrow> rat" where
  "obsRatio (TeamSpend ts team spent limit) = utilization spent limit"
| "obsRatio (KeySpend ts team keyID spent limit) = utilization spent limit"

fun obsSpent :: "observation \<Rightarrow> int" where
  "obsSpent (TeamSpend ts team spent limit) = spent"
| "obsSpent (KeySpend ts team keyID spent limit) = spent"

fun obsLimit :: "observation \<Rightarrow> int" where
  "obsLimit (TeamSpend ts team spent limit) = limit"
| "obsLimit (KeySpend ts team keyID spent limit) = limit"

definition teamFires :: "string \<Rightarrow> observation list \<Rightarrow> Notifier option \<Rightarrow> rat list" where
  "teamFires tm obs n = map (fi_Threshold \<circ> snd) (filter (ofTeam tm \<circ> fst) (alerts obs n))"

definition armed :: "rat list \<Rightarrow> string \<Rightarrow> rat \<Rightarrow> Notifier option \<Rightarrow> bool" where
  "armed ts tm r no = (case no of None \<Rightarrow> False | Some n \<Rightarrow> nt_thresholds n = ts \<and> firedFor (nt_fired n) tm = reached ts r)"

lemma observe_other:
  "armed ts tm r n \<Longrightarrow> \<not> ofTeam tm ob \<Longrightarrow> armed ts tm r (fst (observe ob n))"
  using crossing_other [of tm]
  by (cases ob) (auto simp: armed_def observe_def Observe_def ObserveKey_def split: option.splits prod.splits, metis fst_conv)

lemma observe_team:
  assumes "sorted ts" "\<forall>t \<in> set ts. 0 < t" "armed ts tm r n" "ofTeam tm ob" "0 < obsLimit ob" "r \<le> obsRatio ob"
  shows "armed ts tm (obsRatio ob) (fst (observe ob n))"
    and "map_option fi_Threshold (snd (observe ob n))
      = (if reached ts r < reached ts (obsRatio ob) then Some (reached ts (obsRatio ob)) else None)"
proof -
  obtain s spent limit where ob: "ob = TeamSpend s tm spent limit" using assms(4) by (cases ob) auto
  obtain m where m: "n = Some m" "nt_thresholds m = ts" "firedFor (nt_fired m) tm = reached ts r"
    using assms(3) by (auto simp: armed_def split: option.splits)
  obtain fired crossed where c: "crossing ts (obsRatio ob) tm (nt_fired m) = (fired, crossed)" by fastforce
  note st = crossing_step [OF assms(1,2) m(3) assms(6) c]
  note b = reached_bounds(1) [OF assms(2), of r]
  show "armed ts tm (obsRatio ob) (fst (observe ob n))"
    using m c st(1) assms(5) by (cases "ts = []") (auto simp: ob armed_def observe_def Observe_def reached_def firedFor_def)
  show "map_option fi_Threshold (snd (observe ob n))
      = (if reached ts r < reached ts (obsRatio ob) then Some (reached ts (obsRatio ob)) else None)"
    using m c st(2) assms(5) b by (cases "ts = []") (auto simp: ob observe_def Observe_def newFire_def reached_def)
qed

lemma teamFires_run:
  assumes ts: "sorted ts" "\<forall>t \<in> set ts. 0 < t"
  shows "armed ts tm r n \<Longrightarrow> \<forall>ob \<in> set obs. ofTeam tm ob \<longrightarrow> 0 < obsLimit ob \<Longrightarrow>
    sorted (r # map obsRatio (filter (ofTeam tm) obs)) \<Longrightarrow>
    sorted_wrt (<) (reached ts r # teamFires tm obs n)
    \<and> last (reached ts r # teamFires tm obs n) = reached ts (last (r # map obsRatio (filter (ofTeam tm) obs)))
    \<and> set (teamFires tm obs n) \<subseteq> set ts"
proof (induction obs arbitrary: r n)
  case (Cons ob obs)
  obtain n' fire where st: "observe ob n = (n', fire)" by fastforce
  show ?case
  proof (cases "ofTeam tm ob")
    case False
    then show ?thesis using Cons.IH [of r n'] Cons.prems observe_other [OF Cons.prems(1) False] st
      by (auto simp: teamFires_def split: option.splits)
  next
    case True
    let ?r = "obsRatio ob"
    have le: "r \<le> ?r" and lim: "0 < obsLimit ob" using Cons.prems True by auto
    note o = observe_team [OF ts Cons.prems(1) True lim le, unfolded st, simplified]
    have IH: "sorted_wrt (<) (reached ts ?r # teamFires tm obs n')
      \<and> last (reached ts ?r # teamFires tm obs n') = reached ts (last (?r # map obsRatio (filter (ofTeam tm) obs)))
      \<and> set (teamFires tm obs n') \<subseteq> set ts"
      using Cons.IH [OF o(1)] Cons.prems True by auto
    have eq: "teamFires tm (ob # obs) n
      = (if reached ts r < reached ts ?r then reached ts ?r # teamFires tm obs n' else teamFires tm obs n')"
      using o(2) True st by (auto simp: teamFires_def split: option.splits if_splits)
    have mono: "reached ts r \<le> reached ts ?r" by (rule reached_mono [OF ts(2) le])
    have mem: "reached ts r < reached ts ?r \<Longrightarrow> reached ts ?r \<in> set ts"
      using reached_bounds [OF ts(2)] by (metis order.strict_trans1 less_irrefl)
    show ?thesis
    proof (cases "reached ts r < reached ts ?r")
      case less: True
      then show ?thesis using IH eq mem True by auto
    next
      case False
      then have "reached ts r = reached ts ?r" using mono by simp
      then show ?thesis using IH eq True by auto
    qed
  qed
qed (simp add: teamFires_def)

lemma utilization_mono: "0 < limit \<Longrightarrow> spent \<le> spent' \<Longrightarrow> utilization spent limit \<le> utilization spent' limit"
  unfolding utilization_def float_of_int_def
  by (intro fl_mono divide_right_mono) (use fl_mono [of 0 "of_int limit"] in \<open>simp_all add: fl_mono fl_def\<close>)

lemma sorted_ratios:
  assumes "0 < limit" and "\<forall>ob \<in> set obs. obsLimit ob = limit" and "sorted (map obsSpent obs)"
  shows "map obsRatio obs = map (\<lambda>s. utilization s limit) (map obsSpent obs)" and "sorted (map obsRatio obs)"
proof -
  have "obsRatio ob = utilization (obsSpent ob) (obsLimit ob)" for ob by (cases ob) auto
  then show eq: "map obsRatio obs = map (\<lambda>s. utilization s limit) (map obsSpent obs)" using assms(2) by simp
  show "sorted (map obsRatio obs)"
    unfolding eq sorted_map by (rule sorted_wrt_mono_rel [OF _ assms(3)]) (rule utilization_mono [OF assms(1)])
qed

section \<open>Every threshold is reported once\<close>

lemma team_alerts:
  fixes obs :: "observation list" and tm url :: string and thr :: "rat list" and limit :: int
  defines "team \<equiv> filter (ofTeam tm) obs"
  defines "fires \<equiv> teamFires tm obs (Some (alert_New url thr))"
  defines "final \<equiv> utilization (last (0 # map obsSpent team)) limit"
  assumes lim: "0 < limit" "\<forall>ob \<in> set team. obsLimit ob = limit" and spent: "sorted (0 # map obsSpent team)"
  shows "sorted_wrt (<) fires"
    and "set fires \<subseteq> {t \<in> set thr. 0 < t \<and> t \<le> final}"
    and "\<forall>t \<in> set thr. 0 < t \<and> t \<le> final \<longrightarrow> (\<exists>f \<in> set fires. t \<le> f)"
proof -
  let ?ts = "sort (filter (\<lambda>t. t > 0) thr)"
  have ts: "sorted ?ts" "\<forall>t \<in> set ?ts. 0 < t" by auto
  have z: "utilization 0 limit = 0" by (simp add: utilization_def float_of_int_def fl_def)
  have zero: "reached ?ts 0 = 0" by (auto simp: reached_def)
  have arm: "armed ?ts tm 0 (Some (alert_New url thr))"
    by (simp add: armed_def alert_New_def zero firedFor_def)
  have eq: "0 # map obsRatio team = map (\<lambda>s. utilization s limit) (0 # map obsSpent team)"
    using sorted_ratios(1) [OF lim] spent z by simp
  have srt: "sorted (0 # map obsRatio team)"
    unfolding eq sorted_map by (rule sorted_wrt_mono_rel [OF _ spent]) (rule utilization_mono [OF lim(1)])
  have fin: "last (0 # map obsRatio team) = final" unfolding eq final_def by (simp add: last_map z del: list.map)
  have run: "sorted_wrt (<) (0 # fires)" "last (0 # fires) = reached ?ts final" "set fires \<subseteq> set ?ts"
    using teamFires_run [OF ts arm, of obs] lim srt fin unfolding team_def fires_def zero by auto
  then show "sorted_wrt (<) fires" by simp
  have top: "f \<le> reached ?ts final" if "f \<in> set fires" for f
    using run(1,2) that by (cases fires rule: rev_cases) (auto simp: sorted_wrt_append)
  have "reached ?ts final \<le> final" if "fires \<noteq> []"
    using reached_bounds(3) [OF ts(2), of final] run(1,2) that by (metis last_ConsR last_in_set less_irrefl sorted_wrt.simps(2))
  then show "set fires \<subseteq> {t \<in> set thr. 0 < t \<and> t \<le> final}" using run(3) top by (fastforce intro: order.trans)
  show "\<forall>t \<in> set thr. 0 < t \<and> t \<le> final \<longrightarrow> (\<exists>f \<in> set fires. t \<le> f)"
  proof (intro ballI impI)
    fix t assume "t \<in> set thr" "0 < t \<and> t \<le> final"
    then have "t \<le> reached ?ts final" "0 < t" using reached_bounds(2) [OF ts(2)] by auto
    then show "\<exists>f \<in> set fires. t \<le> f" using run(2) by (cases "fires = []") (simp_all, metis last_in_set)
  qed
qed

text \<open>
  C34: While a team's limit stays fixed and its spend only grows, however its observations are
  interleaved with those of other teams and of keys, the alerts raised for it name strictly
  increasing thresholds (so none is raised twice), each a configured positive threshold that the spend
  has reached, and every configured threshold reached in the end is covered by one of them.
\<close>

theorem alerts_fire_once:
  assumes "team = filter (ofTeam tm) obs" and "0 < limit" and "\<forall>ob \<in> set team. obsLimit ob = limit"
    and "sorted (0 # map obsSpent team)" and "fires = teamFires tm obs (Some (alert_New url thr))"
    and "final = utilization (last (0 # map obsSpent team)) limit"
  shows "sorted_wrt (<) fires \<and> set fires \<subseteq> {t \<in> set thr. 0 < t \<and> t \<le> final}
    \<and> (\<forall>t \<in> set thr. 0 < t \<and> t \<le> final \<longrightarrow> (\<exists>f \<in> set fires. t \<le> f))"
  unfolding assms(5,6) using team_alerts assms(2-4) unfolding assms(1) by blast

theorem alerts_fire_once_witness:
  "let obs = [TeamSpend ''t1'' ''a'' 40 100, KeySpend ''t2'' ''a'' ''k'' 95 100, TeamSpend ''t3'' ''b'' 100 100,
       TeamSpend ''t4'' ''a'' 60 100, TeamSpend ''t5'' ''a'' 70 100, TeamSpend ''t6'' ''a'' 100 100];
     fires = teamFires ''a'' obs (Some (alert_New ''hook'' [1, 1/2, 0, 4/5]))
   in fires = [1/2, 1] \<and> sorted_wrt (<) fires \<and> (\<forall>t \<in> set [1, 1/2, 0, 4/5]. 0 < t \<and> t \<le> utilization 100 100 \<longrightarrow> (\<exists>f \<in> set fires. t \<le> f))"
proof -
  let ?obs = "[TeamSpend ''t1'' ''a'' 40 100, KeySpend ''t2'' ''a'' ''k'' 95 100, TeamSpend ''t3'' ''b'' 100 100,
       TeamSpend ''t4'' ''a'' 60 100, TeamSpend ''t5'' ''a'' 70 100, TeamSpend ''t6'' ''a'' 100 100]"
  have "teamFires ''a'' ?obs (Some (alert_New ''hook'' [1, 1/2, 0, 4/5])) = [1/2, 1]" by code_simp
  moreover note alerts_fire_once [OF refl, where obs = ?obs and tm = "''a''" and limit = 100, OF _ _ _ refl refl,
      of "''hook''" "[1, 1/2, 0, 4/5]"]
  ultimately show ?thesis unfolding Let_def by simp
qed

end
