(* ===== verification/RequestBudget.thy ===== *)
theory RequestBudget
  imports RouteRequest AuditLog Governance Escrow SharedLedger
begin

text \<open>
  The money of one provider call, \<^verbatim>\<open>internal/server/requestpolicy\<close>: before the call the largest
  possible cost is reserved with the authority of the governor, afterwards the usage that was
  observed settles it, and a finalizer that always runs keeps the entire reservation when no
  settlement proved less. Then the evidence of a routing decision for the audit log.

  The two authorities are Go interfaces, records of operations on a state \<open>'w\<close> here; the governor is an
  argument of each call, so that storage and clock may answer differently each time. A JSON
  body is a parsed value, \<open>None\<close> when it is not JSON.
\<close>

section \<open>Request bodies\<close>

datatype json = JNull | JBool bool | JNum string | JStr string | JArr "json list" | JObj "(string \<times> json) list"

text \<open>Decoding into a map: the last of several equal names counts.\<close>

definition field :: "(string \<times> json) list \<Rightarrow> string \<Rightarrow> json option" where
  "field kvs k = map_of (rev kvs) k"

text \<open>Decoding a number literal into an \<^verbatim>\<open>int64\<close>; \<open>null\<close> leaves the zero value.\<close>

definition intLiteral :: "string \<Rightarrow> int option" where
  "intLiteral s =
     (let neg = (take 1 s = ''-''); ds = (if neg then drop 1 s else s);
          n = fold (\<lambda>c acc. acc * 10 + digit_of c) ds 0; v = (if neg then - n else n)
      in if ds \<noteq> [] \<and> list_all is_digit ds \<and> in64 v then Some v else None)"

definition jsonInt64 :: "json \<Rightarrow> int option" where
  "jsonInt64 v = (case v of JNull \<Rightarrow> Some 0 | JNum s \<Rightarrow> intLiteral s | _ \<Rightarrow> None)"

definition multiplicityKeys :: "string list" where
  "multiplicityKeys = [''n'', ''best_of'', ''num_generations'', ''num_return_sequences'', ''candidate_count'', ''candidateCount'']"

definition configKeys :: "string list" where
  "configKeys = [''inferenceConfig'', ''textGenerationConfig'', ''generation_config'']"

lemma field_size: "field kvs k = Some x \<Longrightarrow> size x < size (JObj kvs)"
proof -
  assume "field kvs k = Some x"
  then have "(k, x) \<in> set kvs" by (auto simp: field_def dest: map_of_SomeD)
  from size_list_estimation [OF this, of "size x" "size_prod (\<lambda>_. 0) size"] show ?thesis by simp
qed

text \<open>\<open>False\<close> is the error \<^verbatim>\<open>errMultiplicity\<close>.\<close>

function singleGeneration :: "json \<Rightarrow> bool" where
  "singleGeneration v =
     (case v of
        JObj kvs \<Rightarrow>
          list_all (\<lambda>k. case field kvs k of None \<Rightarrow> True | Some x \<Rightarrow> jsonInt64 x = Some 1) multiplicityKeys
          \<and> list_all (\<lambda>k. case field kvs k of None \<Rightarrow> True | Some x \<Rightarrow> singleGeneration x) configKeys
      | _ \<Rightarrow> False)"
  by pat_completeness auto
termination
  by (relation "measure size") (auto dest: field_size)

declare singleGeneration.simps [simp del]

section \<open>Observed usage\<close>

record SchemaCacheCreation =
  scc_Ephemeral5mInputTokens :: "int option"
  scc_Ephemeral1hInputTokens :: "int option"

record SchemaUsage =
  su_InputTokens :: "int option"
  su_OutputTokens :: "int option"
  su_CacheReadInputTokens :: "int option"
  su_CacheCreationInputTokens :: "int option"
  su_CacheCreation :: "SchemaCacheCreation option"
  su_AccountingUncertain :: bool

definition zeroUsage :: Usage where
  "zeroUsage = \<lparr>u_Input = 0, u_Output = 0, u_CacheRead = 0, u_CacheWrite5m = 0, u_CacheWrite1h = 0\<rparr>"

definition orZero :: "int option \<Rightarrow> int" where
  "orZero v = (case v of None \<Rightarrow> 0 | Some n \<Rightarrow> n)"

definition observedCounts :: "SchemaUsage \<Rightarrow> int list" where
  "observedCounts u = List.map_filter id
     ([su_InputTokens u, su_OutputTokens u, su_CacheReadInputTokens u, su_CacheCreationInputTokens u] @
      (case su_CacheCreation u of None \<Rightarrow> [] | Some cc \<Rightarrow> [scc_Ephemeral5mInputTokens cc, scc_Ephemeral1hInputTokens cc]))"

text \<open>The usage, whether it is exact, and whether it breaks the declared window.\<close>

definition authorityUsage :: "SchemaUsage option \<Rightarrow> int \<Rightarrow> Usage \<times> bool \<times> bool" where
  "authorityUsage us window =
     (case us of
        None \<Rightarrow> (zeroUsage, False, False)
      | Some u \<Rightarrow>
          if list_ex (\<lambda>v. v < 0 \<or> v > window) (observedCounts u) then (zeroUsage, False, True)
          else if su_AccountingUncertain u then (zeroUsage, False, False)
          else
            (case (su_InputTokens u, su_OutputTokens u) of
               (Some i, Some ot) \<Rightarrow>
                 (let out = zeroUsage\<lparr>u_Input := i, u_Output := ot, u_CacheRead := orZero (su_CacheReadInputTokens u)\<rparr>;
                      total = orZero (su_CacheCreationInputTokens u)
                  in case su_CacheCreation u of
                       None \<Rightarrow> (out, total = 0, False)
                     | Some cc \<Rightarrow>
                         (case (scc_Ephemeral5mInputTokens cc, scc_Ephemeral1hInputTokens cc) of
                            (Some m5, Some h1) \<Rightarrow>
                              (let out = out\<lparr>u_CacheWrite5m := m5, u_CacheWrite1h := h1\<rparr>
                               in if su_CacheCreationInputTokens u \<noteq> None \<and> (m5 > total \<or> h1 \<noteq> sub64 total m5)
                                  then (out, False, True) else (out, True, False))
                          | _ \<Rightarrow> (out, False, False)))
             | _ \<Rightarrow> (zeroUsage, False, False)))"

text \<open>The split of a known creation count: \<open>None\<close> when it exceeds the count.\<close>

definition knownSplit :: "int \<Rightarrow> SchemaCacheCreation \<Rightarrow> bool" where
  "knownSplit creation cc =
     (case foldE (\<lambda>n known. case n of None \<Rightarrow> Inr known
          | Some v \<Rightarrow> if v < 0 \<or> v > sub64 creation known then Inl () else Inr (add64 known v))
        [scc_Ephemeral5mInputTokens cc, scc_Ephemeral1hInputTokens cc] 0 of Inl _ \<Rightarrow> False | Inr _ \<Rightarrow> True)"

text \<open>The cache creation count: \<open>Inl True\<close> is invalid, \<open>Inl False\<close> unknown.\<close>

definition creationCount :: "SchemaUsage \<Rightarrow> bool + int" where
  "creationCount u =
     (case (su_CacheCreationInputTokens u, su_CacheCreation u) of
        (Some creation, None) \<Rightarrow> Inr creation
      | (Some creation, Some cc) \<Rightarrow> if knownSplit creation cc then Inr creation else Inl True
      | (None, None) \<Rightarrow> Inr 0
      | (None, Some cc) \<Rightarrow>
          (case (scc_Ephemeral5mInputTokens cc, scc_Ephemeral1hInputTokens cc) of
             (Some m5, Some h1) \<Rightarrow> if m5 > sub64 MaxInt64 h1 then Inl True else Inr (add64 m5 h1)
           | _ \<Rightarrow> Inl False))"

definition sumTokens :: "int list \<Rightarrow> unit + int" where
  "sumTokens counts = foldE (\<lambda>n total. if n < 0 \<or> total > sub64 MaxInt64 n then Inl () else Inr (add64 total n)) counts 0"

definition authorityTokens :: "SchemaUsage option \<Rightarrow> int \<Rightarrow> int \<times> bool \<times> bool" where
  "authorityTokens us window =
     (case us of
        None \<Rightarrow> (0, False, False)
      | Some u \<Rightarrow>
          if snd (snd (authorityUsage us window)) then (0, False, True)
          else if su_AccountingUncertain u \<or> su_InputTokens u = None \<or> su_OutputTokens u = None then (0, False, False)
          else
            (case creationCount u of
               Inl invalid \<Rightarrow> (0, False, invalid)
             | Inr creation \<Rightarrow>
                 (case sumTokens (List.map_filter id [su_InputTokens u, su_OutputTokens u, su_CacheReadInputTokens u, Some creation]) of
                    Inl _ \<Rightarrow> (0, False, True)
                  | Inr n \<Rightarrow> (n, True, False))))"

section \<open>Authorities and the attempt\<close>

record 'w BudgetAuthority =
  au_Reserve :: "Subject \<Rightarrow> int \<Rightarrow> 'w \<Rightarrow> 'w \<times> (authority_error + BudgetPermit option)"
  au_Finish :: "BudgetPermit \<Rightarrow> int option \<Rightarrow> bool \<Rightarrow> 'w \<Rightarrow> 'w \<times> authority_error option"

record 'w SharedAuthority =
  sa_Reserve :: "SharedRequest \<Rightarrow> 'w \<Rightarrow> 'w \<times> (shared_error + SharedPermit option)"
  sa_Finish :: "SharedPermit \<Rightarrow> SharedSettlement \<Rightarrow> 'w \<Rightarrow> 'w \<times> shared_error option"
  sa_Usage :: "Subject \<Rightarrow> 'w \<Rightarrow> shared_error + SharedLimit list"

record 'w BudgetGovernor =
  bg_authority :: "'w BudgetAuthority option"
  bg_shared :: "'w SharedAuthority option"
  bg_notifyBudget :: bool
  bg_notifyKeyBudget :: bool

datatype budget_error = ErrMultiplicity | BudgetError authority_error | SharedError shared_error

definition gov_ReserveBudget ::
  "'w BudgetGovernor \<Rightarrow> Subject \<Rightarrow> int \<Rightarrow> 'w \<Rightarrow> 'w \<times> (authority_error + BudgetPermit option)" where
  "gov_ReserveBudget g s bound w = (case bg_authority g of None \<Rightarrow> (w, Inr None) | Some a \<Rightarrow> au_Reserve a s bound w)"

definition gov_FinishBudget ::
  "'w BudgetGovernor \<Rightarrow> BudgetPermit option \<Rightarrow> int option \<Rightarrow> bool \<Rightarrow> 'w \<Rightarrow> 'w \<times> authority_error option" where
  "gov_FinishBudget g permit actual whole w =
     (case (permit, bg_authority g) of (Some p, Some a) \<Rightarrow> au_Finish a p actual whole w | _ \<Rightarrow> (w, None))"

text \<open>The notifications of one report; the metrics are not part of the model.\<close>

definition reportLimit :: "'w BudgetGovernor \<Rightarrow> Subject \<Rightarrow> SharedLimit \<Rightarrow> notification list" where
  "reportLimit g s l =
     (if sl_Limit l \<le> 0 \<or> sl_Kind l \<noteq> ''microUSD'' \<or> sl_Window l \<noteq> ''CalendarMonth'' then []
      else if sl_Scope l = ''team'' \<and> bg_notifyBudget g then [NotifyBudget (s_Team s) (sl_Used l) (sl_Limit l)]
      else if sl_Scope l = ''key'' \<and> bg_notifyKeyBudget g then [NotifyKeyBudget (s_Team s) (s_KeyID s) (sl_Used l) (sl_Limit l)]
      else [])"

definition ObserveShared :: "'w BudgetGovernor \<Rightarrow> Subject \<Rightarrow> 'w \<Rightarrow> notification list" where
  "ObserveShared g s w =
     (case bg_shared g of
        None \<Rightarrow> []
      | Some a \<Rightarrow> (case sa_Usage a s w of Inl _ \<Rightarrow> [] | Inr limits \<Rightarrow> concat (map (reportLimit g s) limits)))"

record budgetAttempt =
  at_permit :: "BudgetPermit option"
  at_shared :: "SharedPermit option"
  at_subject :: Subject
  at_done :: bool
  at_table :: "Table option"
  at_provider :: string
  at_upstream :: string
  at_window :: int

definition subjectOf :: "Principal \<Rightarrow> Subject" where
  "subjectOf p = \<lparr>s_Team = pn_Team p, s_KeyID = pn_KeyID p, s_User = pn_Owner p\<rparr>"

text \<open>\<open>bundle\<close> is the pair of policy generation and requested model the routing decision left in the context, empty without one.\<close>

definition reserveShared ::
  "'w BudgetGovernor \<Rightarrow> string \<times> string \<Rightarrow> Principal \<Rightarrow> ChainTarget \<Rightarrow> LiveState \<Rightarrow> int \<Rightarrow> int \<Rightarrow> 'w
   \<Rightarrow> 'w \<times> (budget_error + budgetAttempt)" where
  "reserveShared g bundle p target st window costBound w =
     (case bg_shared g of
        None \<Rightarrow> (w, Inl (SharedError ErrSharedUnavailable))
      | Some a \<Rightarrow>
          if bg_authority g \<noteq> None \<or> window \<le> 0 \<or> window > MaxInt64 div 5 then (w, Inl (SharedError ErrSharedUnavailable))
          else
            (case sa_Reserve a \<lparr>sq_Subject = subjectOf p, sq_AuthRevision = pn_SharedRevision p, sq_PolicyGeneration = fst bundle,
                    sq_RequestedModel = snd bundle, sq_Model = ct_Model target, sq_TokenBound = mul64 5 window,
                    sq_CostBoundMicroUSD = costBound\<rparr> w of
               (w', Inl e) \<Rightarrow> (w', Inl (SharedError e))
             | (w', Inr None) \<Rightarrow> (w', Inl (SharedError ErrSharedUnavailable))
             | (w', Inr (Some permit)) \<Rightarrow>
                 (w', Inr \<lparr>at_permit = None, at_shared = Some permit, at_subject = subjectOf p, at_done = False,
                    at_table = ls_pricing st, at_provider = ct_ProviderName target, at_upstream = ct_Upstream target,
                    at_window = window\<rparr>)))"

definition emptySubject :: Subject where
  "emptySubject = \<lparr>s_Team = [], s_KeyID = [], s_User = []\<rparr>"

text \<open>\<open>Inr None\<close>: no authority is configured and the call is not accounted for here.\<close>

definition ReserveBudget ::
  "'w BudgetGovernor \<Rightarrow> string \<times> string \<Rightarrow> Principal \<Rightarrow> ChainTarget \<Rightarrow> LiveState option \<Rightarrow> json option \<Rightarrow> 'w
   \<Rightarrow> 'w \<times> (budget_error + budgetAttempt option)" where
  "ReserveBudget g bundle p target state raw w =
     (if bg_authority g = None \<and> bg_shared g = None then (w, Inr None)
      else if (case raw of None \<Rightarrow> True | Some v \<Rightarrow> \<not> singleGeneration v) then (w, Inl ErrMultiplicity)
      else
        (case state of
           None \<Rightarrow> (w, Inl (BudgetError ErrAuthorityUnavailable))
         | Some st \<Rightarrow>
             (case Route st (ct_Model target) of
                None \<Rightarrow> (w, Inl (BudgetError ErrAuthorityUnavailable))
              | Some model \<Rightarrow>
                  (case AuthorityBound (ls_pricing st) (ct_ProviderName target) (ct_Upstream target)
                          (mc_ContextWindow model) (mc_ContextWindow model) of
                     Inl _ \<Rightarrow> (w, Inl (BudgetError ErrAuthorityUnavailable))
                   | Inr bound \<Rightarrow>
                       if bg_shared g \<noteq> None
                       then (case reserveShared g bundle p target st (mc_ContextWindow model) bound w of
                               (w', Inl e) \<Rightarrow> (w', Inl e) | (w', Inr a) \<Rightarrow> (w', Inr (Some a)))
                       else
                         (case gov_ReserveBudget g (subjectOf p) bound w of
                            (w', Inl e) \<Rightarrow> (w', Inl (BudgetError e))
                          | (w', Inr None) \<Rightarrow> (w', Inl (BudgetError ErrAuthorityInvalid))
                          | (w', Inr (Some permit)) \<Rightarrow>
                              (w', Inr (Some \<lparr>at_permit = Some permit, at_shared = None, at_subject = emptySubject, at_done = False,
                                 at_table = ls_pricing st, at_provider = ct_ProviderName target, at_upstream = ct_Upstream target,
                                 at_window = mc_ContextWindow model\<rparr>)))))))"

section \<open>Settlement\<close>

text \<open>What a settlement leaves behind: the attempt, the state of the authority, whether a failure was logged, and the notifications.\<close>

record 'w callSettling =
  se_attempt :: budgetAttempt
  se_world :: 'w
  se_failed :: bool
  se_notes :: "notification list"

definition finishShared :: "'w BudgetGovernor \<Rightarrow> SharedSettlement \<Rightarrow> 'w callSettling \<Rightarrow> 'w callSettling" where
  "finishShared g settlement s =
     (if at_done (se_attempt s) then s
      else
        (let s1 = s\<lparr>se_attempt := (se_attempt s)\<lparr>at_done := True\<rparr>\<rparr>
         in case (bg_shared g, at_shared (se_attempt s)) of
              (Some a, Some permit) \<Rightarrow>
                (case sa_Finish a permit settlement (se_world s) of
                   (w', Some e) \<Rightarrow> s1\<lparr>se_world := w', se_failed := True\<rparr>
                 | (w', None) \<Rightarrow> s1\<lparr>se_world := w', se_notes := se_notes s @ ObserveShared g (at_subject (se_attempt s)) w'\<rparr>)
            | _ \<Rightarrow> s1))"

definition budget_finish :: "'w BudgetGovernor \<Rightarrow> int option \<Rightarrow> bool \<Rightarrow> 'w callSettling \<Rightarrow> 'w callSettling" where
  "budget_finish g actual whole s =
     (if at_shared (se_attempt s) \<noteq> None
      then finishShared g (emptySettlement\<lparr>ss_CostMicroUSD := actual, ss_Complete := whole\<rparr>) s
      else if at_done (se_attempt s) then s
      else
        (let s1 = s\<lparr>se_attempt := (se_attempt s)\<lparr>at_done := True\<rparr>\<rparr>
         in case gov_FinishBudget g (at_permit (se_attempt s)) actual whole (se_world s) of
              (w', e) \<Rightarrow> s1\<lparr>se_world := w', se_failed := (se_failed s \<or> e \<noteq> None)\<rparr>))"

definition sharedSettlement :: "budgetAttempt \<Rightarrow> SchemaUsage option \<Rightarrow> bool \<Rightarrow> SharedSettlement" where
  "sharedSettlement a usage whole =
     (case (authorityUsage usage (at_window a), authorityTokens usage (at_window a)) of
        ((u, exactCost, invalid), (count, exactTokens, invalidTokens)) \<Rightarrow>
          let bad = (invalid \<or> invalidTokens);
              settlement = \<lparr>ss_Tokens = (if exactTokens \<and> \<not> bad then Some count else None), ss_CostMicroUSD = None,
                ss_Complete = whole, ss_InvalidUsage = bad\<rparr>
          in if exactCost \<and> \<not> bad
             then (case CostUSDMicrosChecked (at_table a) (at_provider a) (at_upstream a) u of
                     Inl _ \<Rightarrow> settlement\<lparr>ss_InvalidUsage := True\<rparr>
                   | Inr cost \<Rightarrow> settlement\<lparr>ss_CostMicroUSD := Some cost\<rparr>)
             else settlement)"

definition settleShared :: "'w BudgetGovernor \<Rightarrow> SchemaUsage option \<Rightarrow> bool \<Rightarrow> 'w callSettling \<Rightarrow> 'w callSettling" where
  "settleShared g usage whole s = finishShared g (sharedSettlement (se_attempt s) usage whole) s"

definition markInvalid :: "bool \<Rightarrow> budgetAttempt \<Rightarrow> budgetAttempt" where
  "markInvalid invalid a = a\<lparr>at_permit := map_option (\<lambda>p. p\<lparr>bp_InvalidUsage := invalid\<rparr>) (at_permit a)\<rparr>"

definition SettleBudget :: "'w BudgetGovernor \<Rightarrow> SchemaUsage option \<Rightarrow> bool \<Rightarrow> 'w callSettling \<Rightarrow> 'w callSettling" where
  "SettleBudget g usage whole s =
     (if at_shared (se_attempt s) \<noteq> None then settleShared g usage whole s
      else
        (case authorityUsage usage (at_window (se_attempt s)) of
           (u, exact, invalid) \<Rightarrow>
             let s1 = s\<lparr>se_attempt := markInvalid invalid (se_attempt s)\<rparr>
             in if \<not> exact \<or> invalid then budget_finish g None False s1
                else (case CostUSDMicrosChecked (at_table (se_attempt s)) (at_provider (se_attempt s)) (at_upstream (se_attempt s)) u of
                        Inl _ \<Rightarrow> budget_finish g None False (s1\<lparr>se_attempt := markInvalid True (se_attempt s1)\<rparr>)
                      | Inr actual \<Rightarrow> budget_finish g (Some actual) whole s1)))"

text \<open>The finalizer that \<open>ReserveBudget\<close> returns.\<close>

definition finalizer :: "'w BudgetGovernor \<Rightarrow> 'w callSettling \<Rightarrow> 'w callSettling" where
  "finalizer g s =
     (if at_shared (se_attempt s) \<noteq> None then finishShared g emptySettlement s else budget_finish g None False s)"

section \<open>Answers to the client\<close>

definition BudgetStatus :: "budget_error \<Rightarrow> int" where
  "BudgetStatus e =
     (case e of
        SharedError (SharedDenial status reason retry) \<Rightarrow> status
      | SharedError ErrSharedUnavailable \<Rightarrow> 503
      | ErrMultiplicity \<Rightarrow> 400
      | BudgetError ErrAuthorityExhausted \<Rightarrow> 402
      | BudgetError _ \<Rightarrow> 503)"

text \<open>The \<^verbatim>\<open>Retry-After\<close> header.\<close>

definition BudgetErrorHeaders :: "budget_error \<Rightarrow> int option" where
  "BudgetErrorHeaders e =
     (case e of
        SharedError (SharedDenial status reason retry) \<Rightarrow>
          if retry > 0 then Some retry else if status = 503 then Some 1 else None
      | _ \<Rightarrow> if BudgetStatus e = 503 then Some 1 else None)"

definition TeamSnapshot :: "Principal \<Rightarrow> (string \<Rightarrow> TeamRecord option) option \<Rightarrow> TeamRecord option" where
  "TeamSnapshot p lookup =
     (if pn_TeamSnapshotLoaded p then pn_TeamSnapshot p
      else (case lookup of None \<Rightarrow> None | Some f \<Rightarrow> f (pn_Team p)))"

section \<open>Evidence\<close>

definition routing_Active :: "RoutingDecision \<Rightarrow> bool" where
  "routing_Active d \<longleftrightarrow> rd_Policies d \<noteq> [] \<or> rd_Masked d
     \<or> rd_Reason d \<in> {''mask_failed'', ''policy_lookup_failed'', ''budget_target'', ''budget_target_unavailable''}"

definition policyEvidence :: "RoutingPolicyRef \<Rightarrow> AuditPolicyRef" where
  "policyEvidence p = \<lparr>app_Name = rf_Name p, app_Generation = rf_Generation p, app_Rule = rf_Rule p\<rparr>"

definition routingEvidence :: "RequestRoutingResult \<Rightarrow> AuditRoutingRef" where
  "routingEvidence result =
     (let d = rs_Decision result
      in \<lparr>arr_RequestedModel = rd_RequestedModel d, arr_SelectedModel = rd_SelectedModel d, arr_ProposedModel = rd_ProposedModel d,
          arr_Mode = rd_Mode d, arr_Reason = rd_Reason d, arr_Inspection = rd_Inspection d, arr_Privacy = rd_Privacy d,
          arr_Categories = rd_Categories d, arr_Policies = map policyEvidence (rd_Policies d),
          arr_Recommendations = map (\<lambda>r. \<lparr>apm_Policy = policyEvidence (rm_Policy r), apm_Model = rm_Model r, apm_Reason = rm_Reason r\<rparr>) (rd_Recommendations d),
          arr_PlannedProvider = (case rs_Chain result of [] \<Rightarrow> [] | ct # _ \<Rightarrow> ct_ProviderName ct),
          arr_PlannedBoundary = (case rs_Chain result of [] \<Rightarrow> [] | ct # _ \<Rightarrow> if ct_DataBoundary ct = [] then ''unknown'' else ct_DataBoundary ct),
          arr_ActualModel = [], arr_ActualProvider = [], arr_ActualBoundary = [], arr_Masked = rd_Masked d\<rparr>)"

text \<open>What the context of the request carries afterwards, and the headers of the response.\<close>

record routingContext =
  rc_bundle :: "(string \<times> string) option"
  rc_routing :: "AuditRoutingRef option"
  rc_headers :: "(string \<times> string) list"

definition routing_Observe :: "RequestRoutingResult \<Rightarrow> routingContext \<Rightarrow> routingContext" where
  "routing_Observe result c =
     (let d = rs_Decision result;
          c = (if rs_PolicyGeneration result \<noteq> [] then c\<lparr>rc_bundle := Some (rs_PolicyGeneration result, rd_RequestedModel d)\<rparr> else c)
      in if \<not> routing_Active d then c
         else c\<lparr>rc_routing := Some (routingEvidence result),
                rc_headers := rc_headers c @ [(''x-inferplane-routing-reason'', rd_Reason d)]
                  @ (if rd_SelectedModel d \<noteq> [] \<and> (rd_Privacy d = ''internal_only''
                        \<or> rd_Reason d \<in> {''context_selected'', ''context_affinity'', ''budget_target''})
                     then [(''x-inferplane-routed-model'', rd_SelectedModel d)] else [])\<rparr>)"

definition evidenceWindow :: "LiveState option \<Rightarrow> string \<Rightarrow> int" where
  "evidenceWindow st model =
     (case st of None \<Rightarrow> 0 | Some s \<Rightarrow> (case Route s model of None \<Rightarrow> 0 | Some m \<Rightarrow> mc_ContextWindow m))"

end
