(* ===== verification/RequestBudgetProps.thy ===== *)
theory RequestBudgetProps
  imports RequestBudget EscrowProps
begin

text \<open>
  What the accounting of a provider call guarantees: an attempt is settled once, whatever the
  handlers do afterwards, it is charged what its usage proves or else its entire reservation,
  never more. The reports to the shared ledger are the subject of \<open>SharedCall\<close>.
\<close>

section \<open>Generation controls\<close>

text \<open>The values \<open>singleGeneration\<close> looks into.\<close>

inductive_set controls :: "json \<Rightarrow> json set" for v where
  self: "v \<in> controls v"
| nested: "JObj kvs \<in> controls v \<Longrightarrow> k \<in> set configKeys \<Longrightarrow> field kvs k = Some x \<Longrightarrow> x \<in> controls v"

lemma controls_trans: "x \<in> controls y \<Longrightarrow> y \<in> controls v \<Longrightarrow> x \<in> controls v"
  by (induction rule: controls.induct) (auto intro: controls.nested)

definition oneGeneration :: "json \<Rightarrow> bool" where
  "oneGeneration x \<longleftrightarrow> (\<exists>kvs. x = JObj kvs \<and> (\<forall>k \<in> set multiplicityKeys. \<forall>y. field kvs k = Some y \<longrightarrow> jsonInt64 y = Some 1))"

lemma singleGeneration_nested:
  "singleGeneration v \<Longrightarrow> v = JObj kvs \<Longrightarrow> k \<in> set configKeys \<Longrightarrow> field kvs k = Some x \<Longrightarrow> singleGeneration x"
  by (subst (asm) singleGeneration.simps) (auto simp: list_all_iff split: option.splits)

lemma singleGeneration_controls: "singleGeneration v \<Longrightarrow> x \<in> controls v \<Longrightarrow> singleGeneration x"
  by (rotate_tac 1, induction rule: controls.induct) (auto intro: singleGeneration_nested)

lemma singleGeneration_iff: "singleGeneration v \<longleftrightarrow> (\<forall>x \<in> controls v. oneGeneration x)"
proof
  have "oneGeneration x" if "singleGeneration x" for x
    using that by (subst (asm) singleGeneration.simps) (auto simp: oneGeneration_def list_all_iff split: json.splits option.splits)
  then show "singleGeneration v \<Longrightarrow> \<forall>x \<in> controls v. oneGeneration x" using singleGeneration_controls by blast
next
  show "\<forall>x \<in> controls v. oneGeneration x \<Longrightarrow> singleGeneration v"
  proof (induction v rule: singleGeneration.induct)
    case (1 v)
    from 1(2) obtain kvs where v: "v = JObj kvs" and one: "\<forall>k \<in> set multiplicityKeys. \<forall>y. field kvs k = Some y \<longrightarrow> jsonInt64 y = Some 1"
      using controls.self [of v] by (auto simp: oneGeneration_def)
    have "singleGeneration x" if "k \<in> set configKeys" "field kvs k = Some x" for k x
      using 1(1) [OF v, of k x] that one 1(2) controls_trans controls.nested [OF controls.self [of v, unfolded v] that] v
      by (auto simp: list_all_iff split: option.splits)
    then show ?case using one by (subst singleGeneration.simps) (auto simp: v list_all_iff split: option.splits)
  qed
qed

section \<open>Usage within the window\<close>

lemma in_map_filter [simp]: "x \<in> set (List.map_filter id xs) \<longleftrightarrow> Some x \<in> set xs"
  by (induction xs) (auto simp: List.map_filter_simps split: option.splits)

lemma observed_within:
  assumes "\<not> list_ex (\<lambda>v. v < 0 \<or> v > window) (observedCounts u)"
  shows "su_InputTokens u = Some n \<Longrightarrow> 0 \<le> n \<and> n \<le> window" and "su_OutputTokens u = Some n \<Longrightarrow> 0 \<le> n \<and> n \<le> window"
    and "su_CacheReadInputTokens u = Some n \<Longrightarrow> 0 \<le> n \<and> n \<le> window"
    and "su_CacheCreationInputTokens u = Some n \<Longrightarrow> 0 \<le> n \<and> n \<le> window"
    and "su_CacheCreation u = Some cc \<Longrightarrow> scc_Ephemeral5mInputTokens cc = Some n \<Longrightarrow> 0 \<le> n \<and> n \<le> window"
    and "su_CacheCreation u = Some cc \<Longrightarrow> scc_Ephemeral1hInputTokens cc = Some n \<Longrightarrow> 0 \<le> n \<and> n \<le> window"
proof -
  have "0 \<le> n \<and> n \<le> window" if "n \<in> set (observedCounts u)" for n using assms that by (auto simp: list_ex_iff not_less)
  note within = this [unfolded observedCounts_def in_map_filter set_append Un_iff]
  show "su_InputTokens u = Some n \<Longrightarrow> 0 \<le> n \<and> n \<le> window" "su_OutputTokens u = Some n \<Longrightarrow> 0 \<le> n \<and> n \<le> window"
    "su_CacheReadInputTokens u = Some n \<Longrightarrow> 0 \<le> n \<and> n \<le> window"
    "su_CacheCreationInputTokens u = Some n \<Longrightarrow> 0 \<le> n \<and> n \<le> window"
    "su_CacheCreation u = Some cc \<Longrightarrow> scc_Ephemeral5mInputTokens cc = Some n \<Longrightarrow> 0 \<le> n \<and> n \<le> window"
    "su_CacheCreation u = Some cc \<Longrightarrow> scc_Ephemeral1hInputTokens cc = Some n \<Longrightarrow> 0 \<le> n \<and> n \<le> window"
    by (rule within, simp)+
qed

lemma authorityUsage_valid:
  assumes "authorityUsage us window = (out, exact, False)" and "us = Some u"
  shows "\<not> list_ex (\<lambda>v. v < 0 \<or> v > window) (observedCounts u)"
  using assms by (auto simp: authorityUsage_def split: if_splits)

lemma authorityUsage_within:
  assumes "authorityUsage us window = (out, True, False)" and "0 < window"
  shows "usage_within out window window"
proof -
  obtain u where u: "us = Some u" using assms(1) by (cases us) (auto simp: authorityUsage_def)
  note w = observed_within [OF authorityUsage_valid [OF assms(1) u]]
  show ?thesis
    using assms w unfolding u authorityUsage_def
    by (auto simp: usage_within_def usage_nonneg_def zeroUsage_def orZero_def Let_def split: if_splits option.splits)
qed

section \<open>Tokens within the booked bound\<close>

lemma creationCount_within:
  assumes "\<not> list_ex (\<lambda>v. v < 0 \<or> v > window) (observedCounts u)" and "creationCount u = Inr n" and "0 < window" and "window \<le> MaxInt64 div 5"
  shows "0 \<le> n \<and> n \<le> 2 * window"
proof -
  note w = observed_within [OF assms(1)]
  have add: "add64 a b = a + b" if "0 \<le> a" "a \<le> window" "0 \<le> b" "b \<le> window" for a b
    using that assms(3,4) by (intro add64_exact) (auto simp: in64_bounds)
  show ?thesis using assms(2,3) w(4) w(5) w(6) add
    by (fastforce simp: creationCount_def split: option.splits if_splits)
qed

lemma sumTokens_exact:
  assumes "sumTokens ns = Inr n" and "\<forall>m \<in> set ns. in64 m"
  shows "n = sum_list ns"
proof -
  let ?f = "\<lambda>n total. if n < 0 \<or> total > sub64 MaxInt64 n then Inl () else Inr (add64 total n)"
  have "n = t + sum_list ns" if "foldE ?f ns t = Inr n" "0 \<le> t" "\<forall>m \<in> set ns. in64 m" for t
    using that
  proof (induction ns arbitrary: t)
    case (Cons m ns)
    have m: "0 \<le> m" "t + m \<le> MaxInt64"
      using Cons.prems sub64_nonneg [of MaxInt64 m] by (auto simp: in64_bounds split: if_splits)
    then have "add64 t m = t + m" using Cons.prems(2) by (intro add64_exact) (simp add: in64_bounds)
    then show ?case using Cons.IH [of "t + m"] Cons.prems m by (auto split: if_splits)
  qed simp
  from this [of 0] assms show ?thesis by (simp add: sumTokens_def)
qed

lemma authorityTokens_within:
  assumes "authorityTokens us window = (n, True, bad)" and "0 < window" and "window \<le> MaxInt64 div 5"
  shows "0 \<le> n \<and> n \<le> 5 * window"
proof -
  obtain u where u: "us = Some u" using assms(1) by (cases us) (auto simp: authorityTokens_def)
  obtain out exact where out: "authorityUsage us window = (out, exact, False)"
    using assms(1) by (cases "authorityUsage us window") (auto simp: authorityTokens_def u split: if_splits)
  note valid = authorityUsage_valid [OF out u]
  note w = observed_within [OF valid]
  obtain i ot c where parts: "su_InputTokens u = Some i" "su_OutputTokens u = Some ot" "creationCount u = Inr c"
    "sumTokens (List.map_filter id [Some i, Some ot, su_CacheReadInputTokens u, Some c]) = Inr n"
    using assms(1) out by (auto simp: authorityTokens_def u split: if_splits sum.splits)
  have c: "0 \<le> c \<and> c \<le> 2 * window" by (rule creationCount_within [OF valid parts(3) assms(2,3)])
  note io = w(1) [OF parts(1)] w(2) [OF parts(2)]
  have "\<forall>m \<in> set (List.map_filter id [Some i, Some ot, su_CacheReadInputTokens u, Some c]). in64 m"
  proof
    fix m assume "m \<in> set (List.map_filter id [Some i, Some ot, su_CacheReadInputTokens u, Some c])"
    then have "m = i \<or> m = ot \<or> su_CacheReadInputTokens u = Some m \<or> m = c" unfolding in_map_filter by auto
    then have "0 \<le> m \<and> m \<le> 2 * window" using io c assms(2) w(3) [of m] by linarith
    then show "in64 m" using assms(3) by (simp add: in64_bounds)
  qed
  from sumTokens_exact [OF parts(4) this] have "n = i + ot + orZero (su_CacheReadInputTokens u) + c"
    by (cases "su_CacheReadInputTokens u") (simp_all add: List.map_filter_simps orZero_def)
  moreover have "0 \<le> orZero (su_CacheReadInputTokens u) \<and> orZero (su_CacheReadInputTokens u) \<le> window"
    using w(3) assms(2) by (cases "su_CacheReadInputTokens u") (simp_all add: orZero_def)
  ultimately show ?thesis using io c by linarith
qed

section \<open>Settled once\<close>

text \<open>
  The calls that may end an attempt: the handler settles with the usage it saw, the deferred
  finalizer runs. Each call sees the governor as it answers then.
\<close>

datatype 'w attemptEvent = Settle "'w BudgetGovernor" "SchemaUsage option" bool | Finalize "'w BudgetGovernor"

definition attemptStep :: "'w attemptEvent \<Rightarrow> 'w callSettling \<Rightarrow> 'w callSettling" where
  "attemptStep e s = (case e of Settle g usage whole \<Rightarrow> SettleBudget g usage whole s | Finalize g \<Rightarrow> finalizer g s)"

text \<open>The contract of a latch: the first step sets it, and once it is set the effect stands.\<close>

locale one_shot =
  fixes step :: "'e \<Rightarrow> 's \<Rightarrow> 's" and latched :: "'s \<Rightarrow> bool" and effect :: "'s \<Rightarrow> 'r"
  assumes latches: "latched (step e s)"
    and stands: "latched s \<Longrightarrow> effect (step e s) = effect s"
begin

lemma stands_forever: "latched s \<Longrightarrow> effect (fold step es s) = effect s"
  by (induction es arbitrary: s) (simp_all add: latches stands)

lemma first_decides: "effect (fold step (e # es) s) = effect (step e s)"
  by (simp add: stands_forever latches)

end

lemmas finish_defs = finishShared_def budget_finish_def settleShared_def SettleBudget_def finalizer_def

interpretation settled: one_shot attemptStep "\<lambda>s. at_done (se_attempt s)" "\<lambda>s. (se_world s, se_failed s, se_notes s)"
proof
  fix e and s :: "'a callSettling"
  show "at_done (se_attempt (attemptStep e s))"
    by (cases e) (auto simp: attemptStep_def finish_defs Let_def split: option.splits prod.splits sum.splits)
  show "at_done (se_attempt s) \<Longrightarrow>
    (se_world (attemptStep e s), se_failed (attemptStep e s), se_notes (attemptStep e s)) = (se_world s, se_failed s, se_notes s)"
    by (cases e) (auto simp: attemptStep_def finish_defs markInvalid_def Let_def split: option.splits prod.splits sum.splits)
qed

section \<open>What a call is charged\<close>

text \<open>The amount an event proves: the price of exact usage of a call that ran to its end.\<close>

definition provenCost :: "budgetAttempt \<Rightarrow> 'w attemptEvent \<Rightarrow> int option" where
  "provenCost a e = (case e of
     Settle g usage whole \<Rightarrow>
       (case authorityUsage usage (at_window a) of (u, exact, invalid) \<Rightarrow>
          if exact \<and> \<not> invalid \<and> whole
          then (case CostUSDMicrosChecked (at_table a) (at_provider a) (at_upstream a) u of Inl _ \<Rightarrow> None | Inr c \<Rightarrow> Some c)
          else None)
   | Finalize g \<Rightarrow> None)"

text \<open>The governor of a data plane with a journal of its own.\<close>

definition escrowGovernor ::
  "(AuthorityGrant \<Rightarrow> string) \<Rightarrow> storage \<times> storage \<Rightarrow> gotime \<times> gotime \<times> gotime \<Rightarrow> string list \<Rightarrow> storage \<Rightarrow> gotime \<Rightarrow> World BudgetGovernor" where
  "escrowGovernor fp io clk ns io' now = \<lparr>
     bg_authority = Some \<lparr>au_Reserve = (\<lambda>s bound w. case Reserve fp io clk ns s bound w of
         (w', Inl e) \<Rightarrow> (w', Inl e) | (w', Inr p) \<Rightarrow> (w', Inr (Some p))),
       au_Finish = (\<lambda>p actual whole w. Finish fp io' now (Some p) actual whole w)\<rparr>,
     bg_shared = None, bg_notifyBudget = False, bg_notifyKeyBudget = False\<rparr>"

lemma reserveBody_permit: "reserveBody s subject bound now ns j = Inr (j', Inr bp, t) \<Longrightarrow> bp_BoundMicroUSD bp = bound \<and> \<not> bp_InvalidUsage bp"
  by (auto simp: reserveBody_def issuePermit_def Let_def split: if_splits sum.splits option.splits prod.splits)

lemma Reserve_permit:
  assumes "Reserve fp io clk ns subject bound w = (w', Inr bp)"
  shows "bp_BoundMicroUSD bp = bound \<and> \<not> bp_InvalidUsage bp"
proof -
  obtain now now2 now3 where clk: "clk = (now, now2, now3)" by (cases clk)
  obtain io1 t where t: "transaction fp io1 (reserveBody (w_store w) subject bound now ns) w = (w', Inr (Inr bp, t))"
    by (rule Reserve_commits [OF assms [unfolded clk]])
  show ?thesis by (rule transaction_commits [OF t]) (metis reserveBody_permit)
qed

lemma ReserveBudget_escrow:
  assumes "ReserveBudget (escrowGovernor fp io clk ns io' now) bundle pr target (Some st) raw w = (w1, Inr (Some a))"
  obtains t bound permit where "at_table a = Some t" "at_permit a = Some permit" "bp_BoundMicroUSD permit = bound"
    "AuthorityBound (Some t) (at_provider a) (at_upstream a) (at_window a) (at_window a) = Inr bound" "0 < at_window a"
    "\<not> bp_InvalidUsage permit" "at_shared a = None" "\<not> at_done a"
proof -
  note result = that
  obtain m where m: "Route st (ct_Model target) = Some m"
    using assms by (auto simp: ReserveBudget_def escrowGovernor_def split: if_splits option.splits)
  let ?w = "mc_ContextWindow m" and ?p = "ct_ProviderName target" and ?u = "ct_Upstream target"
  obtain bound where b: "AuthorityBound (ls_pricing st) ?p ?u ?w ?w = Inr bound"
    using assms m by (auto simp: ReserveBudget_def escrowGovernor_def split: if_splits option.splits sum.splits)
  then obtain t where t: "ls_pricing st = Some t" "0 < ?w" by (auto simp: AuthorityBound_def split: option.splits if_splits)
  obtain w' r where r: "Reserve fp io clk ns (subjectOf pr) bound w = (w', r)" by fastforce
  obtain permit where p: "r = Inr permit" "a = \<lparr>at_permit = Some permit, at_shared = None, at_subject = emptySubject, at_done = False,
      at_table = ls_pricing st, at_provider = ?p, at_upstream = ?u, at_window = ?w\<rparr>"
    using assms m b r by (cases r) (auto simp: ReserveBudget_def escrowGovernor_def gov_ReserveBudget_def split: if_splits option.splits)
  show thesis by (rule result [of t permit bound]) (use b t p Reserve_permit [OF r [unfolded p(1)]] in auto)
qed

text \<open>Every event is one call of \<open>Finish\<close>; what it consumes is what the event proves, or the reservation.\<close>

fun eventGovernor :: "'w attemptEvent \<Rightarrow> 'w BudgetGovernor" where
  "eventGovernor (Settle g usage whole) = g"
| "eventGovernor (Finalize g) = g"

lemma event_finish:
  assumes "at_permit a = Some permit" "\<not> bp_InvalidUsage permit" "at_shared a = None" "\<not> at_done a"
    and "at_table a = Some t" "AuthorityBound (Some t) (at_provider a) (at_upstream a) (at_window a) (at_window a) = Inr bound" "0 < at_window a"
    and "eventGovernor e = escrowGovernor fp io clk ns io' now" and "se_attempt s = a" "\<not> se_failed s"
  obtains iv actual whole c o' where
    "se_world (attemptStep e s) = fst (Finish fp io' now (Some (permit\<lparr>bp_InvalidUsage := iv\<rparr>)) actual whole (se_world s))"
    "se_failed (attemptStep e s) \<longleftrightarrow> snd (Finish fp io' now (Some (permit\<lparr>bp_InvalidUsage := iv\<rparr>)) actual whole (se_world s)) \<noteq> None"
    "settledAmounts bound actual (if iv then False else whole) = (c, o')"
    "c = (case provenCost a e of None \<Rightarrow> bound | Some x \<Rightarrow> x)" "provenCost a e \<noteq> None \<longrightarrow> 0 \<le> c \<and> c \<le> bound"
proof -
  note result = that
  define fin where "fin = (\<lambda>iv actual whole. Finish fp io' now (Some (permit\<lparr>bp_InvalidUsage := iv\<rparr>)) actual whole (se_world s))"
  have step: "se_world (budget_finish (escrowGovernor fp io clk ns io' now) actual whole (s\<lparr>se_attempt := markInvalid iv a\<rparr>)) = fst (fin iv actual whole)"
    "se_failed (budget_finish (escrowGovernor fp io clk ns io' now) actual whole (s\<lparr>se_attempt := markInvalid iv a\<rparr>)) \<longleftrightarrow> snd (fin iv actual whole) \<noteq> None" for iv actual whole
    using assms by (simp_all add: budget_finish_def markInvalid_def gov_FinishBudget_def escrowGovernor_def fin_def Let_def split: prod.splits)
  have same: "s\<lparr>se_attempt := markInvalid False a\<rparr> = s" using assms(1,2,9) by (simp add: markInvalid_def)
  have none: "settledAmounts bound None b = (bound, 0)" for b by (simp add: settledAmounts_def)
  show thesis
  proof (cases e)
    case (Finalize g)
    then have "attemptStep e s = budget_finish (escrowGovernor fp io clk ns io' now) None False (s\<lparr>se_attempt := markInvalid False a\<rparr>)"
      using assms by (simp add: attemptStep_def finalizer_def same)
    then show thesis
      by (intro result [of False None False bound 0]) (simp_all add: step fin_def none provenCost_def Finalize)
  next
    case (Settle g usage whole)
    obtain u exact invalid where u: "authorityUsage usage (at_window a) = (u, exact, invalid)" by (cases "authorityUsage usage (at_window a)")
    show thesis
    proof (cases "exact \<and> \<not> invalid")
      case False
      then have "attemptStep e s = budget_finish (escrowGovernor fp io clk ns io' now) None False (s\<lparr>se_attempt := markInvalid invalid a\<rparr>)"
        using assms u by (auto simp: attemptStep_def SettleBudget_def Settle Let_def)
      then show thesis using False
        by (intro result [of invalid None False bound 0]) (auto simp: step fin_def none provenCost_def Settle u)
    next
      case True
      then have "usage_within u (at_window a) (at_window a)" using u assms(7) by (intro authorityUsage_within) auto
      from bound_dominates [OF assms(6) this] obtain x where
        x: "CostUSDMicrosChecked (Some t) (at_provider a) (at_upstream a) u = Inr x" "0 \<le> x" "x \<le> bound" by blast
      have "attemptStep e s = budget_finish (escrowGovernor fp io clk ns io' now) (Some x) whole (s\<lparr>se_attempt := markInvalid False a\<rparr>)"
        using assms u True x(1) by (auto simp: attemptStep_def SettleBudget_def Settle Let_def)
      moreover have "settledAmounts bound (Some x) whole = (if whole then x else bound, x)"
        using x(3) by (simp add: settledAmounts_def)
      moreover have "provenCost a e = (if whole then Some x else None)"
        using True u x(1) assms(5) by (simp add: provenCost_def Settle)
      ultimately show thesis using x
        by (intro result [of False "Some x" whole "if whole then x else bound" x]) (simp_all add: step fin_def)
    qed
  qed
qed

text \<open>
  C4: A provider call is charged once and never more than was reserved for it. Whatever the
  handlers do after the reservation (settle, settle again, run the finalizer, in any order and
  with any usage), the first of these calls alone reaches the journal; when the journal
  accepts it, every grant of the permit is charged the price of the usage, if that usage is exact, within
  the window of the model and of a call that ran to its end, and the whole reservation otherwise;
  the reservation is the admission bound of the target, and the price never exceeds it.
\<close>

theorem attempt_charged_once:
  assumes "ReserveBudget (escrowGovernor fp0 io0 clk0 ns0 io1 now1) bundle pr target (Some st) raw w = (w1, Inr (Some a))"
    and "at_permit a = Some permit" and "se_attempt s = a" and "\<not> se_failed s"
    and "journal_inv (db_state (w_db (se_world s)))"
    and "Mapping.lookup (j_Permits (db_state (w_db (se_world s)))) (bp_ID permit) = Some p" and "\<not> pm_Done p"
    and "Mapping.lookup (j_Grants (db_state (w_db (se_world s)))) gid = Some g"
    and "eventGovernor e = escrowGovernor fp io clk ns io' now"
    and "s' = fold attemptStep (e # es) s" and "\<not> se_failed s'"
  shows "\<exists>bound c o' g'. AuthorityBound (at_table a) (at_provider a) (at_upstream a) (at_window a) (at_window a) = Inr bound
    \<and> pm_Bound p = bound \<and> c = (case provenCost a e of None \<Rightarrow> bound | Some x \<Rightarrow> x) \<and> 0 \<le> c \<and> c \<le> bound
    \<and> charged p c o' gid g g'
    \<and> (Mapping.lookup (j_Grants (db_state (w_db (se_world s')))) gid = Some g'
       \<or> finalized g' \<and> Mapping.lookup (j_Grants (db_state (w_db (se_world s')))) gid = None)"
proof -
  from assms(1) obtain t bound permit' where r: "at_table a = Some t" "at_permit a = Some permit'" "bp_BoundMicroUSD permit' = bound"
    "AuthorityBound (Some t) (at_provider a) (at_upstream a) (at_window a) (at_window a) = Inr bound" "0 < at_window a"
    "\<not> bp_InvalidUsage permit'" "at_shared a = None" "\<not> at_done a" by (rule ReserveBudget_escrow)
  have pp: "permit' = permit" using r(2) assms(2) by simp
  obtain iv actual whole c o' where f:
    "se_world (attemptStep e s) = fst (Finish fp io' now (Some (permit\<lparr>bp_InvalidUsage := iv\<rparr>)) actual whole (se_world s))"
    "se_failed (attemptStep e s) \<longleftrightarrow> snd (Finish fp io' now (Some (permit\<lparr>bp_InvalidUsage := iv\<rparr>)) actual whole (se_world s)) \<noteq> None"
    "settledAmounts bound actual (if iv then False else whole) = (c, o')"
    "c = (case provenCost a e of None \<Rightarrow> bound | Some x \<Rightarrow> x)" "provenCost a e \<noteq> None \<longrightarrow> 0 \<le> c \<and> c \<le> bound"
    by (rule event_finish [OF assms(2) r(6) [unfolded pp] r(7,8,1,4,5) assms(9,3,4)])
  note final = settled.first_decides [of e es s, folded assms(10)]
  have fin: "Finish fp io' now (Some (permit\<lparr>bp_InvalidUsage := iv\<rparr>)) actual whole (se_world s) = (se_world s', None)"
    using f(1,2) final assms(11) by (simp add: prod_eq_iff)
  obtain j where j: "finishBody (w_store (se_world s)) (permit\<lparr>bp_InvalidUsage := iv\<rparr>) actual (if iv then False else whole) now (db_state (w_db (se_world s))) = Inr (j, None)"
    by (rule Finish_commits [OF fin]) simp
  have bnd: "pm_Bound p = bound" "0 \<le> bound"
    using j assms(6,7) r(3) pp fin by (auto simp: finishBody_def Finish_def split: if_splits)
  obtain g' where "charged p c o' gid g g'" "Mapping.lookup (j_Grants (db_state (w_db (se_world s')))) gid = Some g'
       \<or> finalized g' \<and> Mapping.lookup (j_Grants (db_state (w_db (se_world s')))) gid = None"
    using finish_charges [OF fin assms(5) _ assms(7,8)] assms(6) f(3) bnd(1) by auto
  moreover have "0 \<le> c \<and> c \<le> bound" using f(4,5) bnd(2) by (cases "provenCost a e") auto
  ultimately show ?thesis using r(1,4) bnd(1) f(4) by auto
qed

definition unitRate :: Rate where
  "unitRate = \<lparr>InputPerMTok = 1000000, OutputPerMTok = 1000000, CacheReadPerMTok = 1000000, CacheWrite5mPerMTok = 1000000,
     CacheWrite1hPerMTok = 1000000\<rparr>"

definition callState :: LiveState where
  "callState = \<lparr>ls_providers = Mapping.empty,
     ls_models = Mapping.update ''m'' \<lparr>mc_Capabilities = [], mc_Aliases = [], mc_Targets = [], mc_ContextWindow = 1\<rparr> Mapping.empty,
     ls_aliases = Mapping.empty,
     ls_pricing = Some \<lparr>onMissing = OnMissingBlock, rates = Mapping.update (mkKey ''p'' ''u'') unitRate Mapping.empty, Version = ''v''\<rparr>,
     ls_identities = Mapping.empty, ls_providerConfigs = Mapping.empty, ls_fallbacks = Mapping.empty, ls_fallbackFamily = False\<rparr>"

definition callTarget :: ChainTarget where
  "callTarget = \<lparr>ct_Provider = None, ct_ProviderName = ''p'', ct_Identity = [], ct_Upstream = ''u'', ct_Model = ''m'', ct_Region = [], ct_DataBoundary = []\<rparr>"

definition callKey :: Principal where
  "callKey = \<lparr>pn_KeyID = [], pn_Team = ''t'', pn_AllowedModels = [], pn_Owner = [], pn_RPM = 0, pn_TPM = 0, pn_BudgetUSDMicros = 0,
     pn_BudgetUSDMicrosPerDay = 0, pn_ExpiresAt = None, pn_SharedRevision = [], pn_TeamSnapshot = None, pn_TeamSnapshotLoaded = False\<rparr>"

definition callUsage :: SchemaUsage where
  "callUsage = \<lparr>su_InputTokens = Some 1, su_OutputTokens = Some 1, su_CacheReadInputTokens = None, su_CacheCreationInputTokens = None,
     su_CacheCreation = None, su_AccountingUncertain = False\<rparr>"

definition callGovernor :: "World BudgetGovernor" where
  "callGovernor = escrowGovernor demoFp (StorageOK, StorageOK) (15, 15, 15) [''p1''] StorageOK 20"

definition callAttempt :: budgetAttempt where
  "callAttempt = \<lparr>at_permit = Some demoPermit, at_shared = None, at_subject = emptySubject, at_done = False, at_table = ls_pricing callState,
     at_provider = ''p'', at_upstream = ''u'', at_window = 1\<rparr>"

text \<open>
  A call of a model with a window of one token is reserved five micro-dollars, uses one input
  and one output token, and is charged two, although the finalizer runs twice as well.
\<close>

definition callEnd :: "World callSettling" where
  "callEnd = fold attemptStep [Settle callGovernor (Some callUsage) True, Finalize callGovernor, Finalize callGovernor]
     \<lparr>se_attempt = callAttempt, se_world = demo6, se_failed = False, se_notes = []\<rparr>"

theorem attempt_charged_once_witness:
  "\<exists>p g g' o'. Mapping.lookup (j_Grants (db_state (w_db demo6))) ''g1'' = Some g \<and> ''g1'' \<in> set (pm_Grants p) \<and> charged p 2 o' ''g1'' g g'
     \<and> Mapping.lookup (j_Grants (db_state (w_db (se_world callEnd)))) ''g1'' = Some g'"
proof -
  have "snd (ReserveBudget callGovernor ([], []) callKey callTarget (Some callState) (Some (JObj [])) demo5) = Inr (Some callAttempt)" by code_simp
  then obtain w1 where r: "ReserveBudget (escrowGovernor demoFp (StorageOK, StorageOK) (15, 15, 15) [''p1''] StorageOK 20) ([], [])
      callKey callTarget (Some callState) (Some (JObj [])) demo5 = (w1, Inr (Some callAttempt))"
    unfolding callGovernor_def by (metis prod.collapse)
  have "(case Mapping.lookup (j_Permits (db_state (w_db demo6))) ''p1'' of None \<Rightarrow> False | Some p \<Rightarrow> \<not> pm_Done p \<and> pm_Grants p = [''g1''])" by code_simp
  then obtain p where p: "Mapping.lookup (j_Permits (db_state (w_db demo6))) (bp_ID demoPermit) = Some p" "\<not> pm_Done p" "pm_Grants p = [''g1'']"
    by (auto simp: demoPermit_def split: option.splits)
  obtain g where g: "Mapping.lookup (j_Grants (db_state (w_db demo6))) ''g1'' = Some g" using demoJournal_open by (auto simp: demoJournal_def)
  let ?s = "\<lparr>se_attempt = callAttempt, se_world = demo6, se_failed = False, se_notes = []\<rparr>"
  have c: "provenCost callAttempt (Settle callGovernor (Some callUsage) True) = Some 2" by code_simp
  have e: "\<not> se_failed callEnd" "Mapping.lookup (j_Grants (db_state (w_db (se_world callEnd)))) ''g1'' \<noteq> None" by code_simp+
  have perm: "at_permit callAttempt = Some demoPermit" by (simp add: callAttempt_def)
  have gov: "eventGovernor (Settle callGovernor (Some callUsage) True) = escrowGovernor demoFp (StorageOK, StorageOK) (15, 15, 15) [''p1''] StorageOK 20"
    by (simp add: callGovernor_def)
  obtain o' g' where "charged p 2 o' ''g1'' g g'" "Mapping.lookup (j_Grants (db_state (w_db (se_world callEnd)))) ''g1'' = Some g'"
    using attempt_charged_once [OF r perm, of ?s, simplified callSettling.select_convs simp_thms, OF TrueI TrueI demo_inv(2) p(1,2) g gov callEnd_def e(1)] e(2) c by auto
  then show ?thesis using g p(3) by (intro exI [of _ p] exI [of _ g] exI [of _ g'] exI [of _ o']) simp
qed

end
