(* ===== verification/SharedCall.thy ===== *)
theory SharedCall
  imports RequestBudgetProps AuthorityProps
begin

text \<open>
  A provider call in the shared profile from end to end: the reservation of \<open>RequestBudget\<close> books with the
  central ledger of \<open>SharedLedger\<close>, and what the call reports afterwards is settled there. Every report
  stays within what was booked, on every limit of the principal, and the ledger freezes only on usage
  that contradicts itself.
\<close>

section \<open>The ledger behind the governor\<close>

definition ledgerGovernor ::
  "LedgerEnv \<Rightarrow> (string \<Rightarrow> SharedSettlement \<Rightarrow> string) \<Rightarrow> string option \<Rightarrow> Principal option \<Rightarrow> (string \<times> string) list \<Rightarrow> gotime \<Rightarrow> gotime \<Rightarrow> commit
   \<Rightarrow> gotime \<Rightarrow> commit \<Rightarrow> SharedDb BudgetGovernor" where
  "ledgerGovernor env fpr newID row rows now1 now oc fin foc = \<lparr>
     bg_authority = None,
     bg_shared = Some \<lparr>sa_Reserve = (\<lambda>req db. case ReserveShared env newID row rows now1 now oc req db of
         (db', Inl e) \<Rightarrow> (db', Inl e) | (db', Inr p) \<Rightarrow> (db', Inr (Some p))),
       sa_Finish = (\<lambda>p u db. FinishShared env fpr fin foc (Some p) u db),
       sa_Usage = (\<lambda>s db. SharedUsage env row rows now1 now s db)\<rparr>,
     bg_notifyBudget = False, bg_notifyKeyBudget = False\<rparr>"

lemma reserve_shared_permit:
  assumes "ReserveShared env newID row rows now1 now oc req db = (db', Inr permit)"
  shows "reserveTransaction env newID row rows now1 now req db = Inr (db', permit)"
    and "0 \<le> sq_TokenBound req" and "0 \<le> sq_CostBoundMicroUSD req"
proof -
  have run: "runShared oc (reserveTransaction env newID row rows now1 now req) db = (db', Inr permit)"
    using assms by (auto simp: ReserveShared_def split: if_splits)
  then show "reserveTransaction env newID row rows now1 now req db = Inr (db', permit)"
    by (cases rule: run_shared_cases) auto
  show "0 \<le> sq_TokenBound req" "0 \<le> sq_CostBoundMicroUSD req"
    using assms by (auto simp: ReserveShared_def split: if_splits)
qed

lemma book_loop_permits:
  "foldE (bookDefinition req hash) defs tx = Inr tx' \<Longrightarrow> sd_permits (st_db tx') = sd_permits (st_db tx)"
  by (erule foldE_invariant [where P = "\<lambda>t. sd_permits (st_db t) = sd_permits (st_db tx)"]) (auto elim!: book_definition_parts)

lemma reserved_row:
  assumes "reserveTransaction env newID row rows now1 now req db = Inr (db', permit)"
  obtains prow where "Mapping.lookup (sd_permits db') (le_ch env (sp_ID permit)) = Some prow"
    "pw_tokens prow = sq_TokenBound req" "pw_cost prow = sq_CostBoundMicroUSD req" "pw_terminal prow = []"
    "sp_TokenBound permit = sq_TokenBound req" "sp_CostBoundMicroUSD permit = sq_CostBoundMicroUSD req"
  using assms
proof (cases rule: reserve_transaction_parts)
  case (1 p defs budgets tx0 tx1 tx2 pid)
  have "sd_permits db' = sd_permits (st_db tx2)"
    using 1(10) by (auto simp: persistShared_def persistSharedCounters_def split: sum.splits)
  then show thesis using book_loop_permits [OF 1(9)] 1(11)
    by (intro that [of "\<lparr>pw_tokens = sq_TokenBound req, pw_cost = sq_CostBoundMicroUSD req, pw_bookings = length defs,
      pw_terminal = [], pw_fingerprint = [], pw_invalid = False\<rparr>"]) simp_all
qed

text \<open>What \<open>ReserveBudget\<close> asked the ledger for: five times the window, and the price of a full one.\<close>

lemma shared_reservation:
  assumes "ReserveBudget (ledgerGovernor env fpr newID row rows now1 now oc fin foc) bundle pr target (Some st) raw db = (db1, Inr (Some a))"
  obtains t bound permit req where "at_shared a = Some permit" "at_table a = Some t"
    "at_window a = evidenceWindow (Some st) (ct_Model target)" "0 < at_window a" "at_window a \<le> MaxInt64 div 5"
    "AuthorityBound (Some t) (at_provider a) (at_upstream a) (at_window a) (at_window a) = Inr bound"
    "ReserveShared env newID row rows now1 now oc req db = (db1, Inr permit)"
    "sq_Subject req = subjectOf pr" "sq_PolicyGeneration req = fst bundle"
    "sq_TokenBound req = 5 * at_window a" "sq_CostBoundMicroUSD req = bound"
proof -
  note result = that
  obtain m where m: "Route st (ct_Model target) = Some m"
    using assms by (auto simp: ReserveBudget_def ledgerGovernor_def split: if_splits option.splits)
  let ?w = "mc_ContextWindow m"
  obtain bound where b: "AuthorityBound (ls_pricing st) (ct_ProviderName target) (ct_Upstream target) ?w ?w = Inr bound"
    using assms m by (auto simp: ReserveBudget_def ledgerGovernor_def split: if_splits option.splits sum.splits)
  then obtain t where t: "ls_pricing st = Some t" by (auto simp: AuthorityBound_def split: option.splits)
  let ?req = "\<lparr>sq_Subject = subjectOf pr, sq_AuthRevision = pn_SharedRevision pr, sq_PolicyGeneration = fst bundle,
    sq_RequestedModel = snd bundle, sq_Model = ct_Model target, sq_TokenBound = mul64 5 ?w, sq_CostBoundMicroUSD = bound\<rparr>"
  have w: "0 < ?w" "?w \<le> MaxInt64 div 5"
    using assms m b by (auto simp: ReserveBudget_def reserveShared_def ledgerGovernor_def split: if_splits option.splits sum.splits prod.splits)
  have five: "mul64 5 ?w = 5 * ?w" using w by (intro mul64_exact) (auto simp: in64_bounds)
  obtain permit where p: "ReserveShared env newID row rows now1 now oc ?req db = (db1, Inr permit)"
    "a = \<lparr>at_permit = None, at_shared = Some permit, at_subject = subjectOf pr, at_done = False, at_table = ls_pricing st,
       at_provider = ct_ProviderName target, at_upstream = ct_Upstream target, at_window = ?w\<rparr>"
    using assms m b w by (auto simp: ReserveBudget_def reserveShared_def ledgerGovernor_def split: if_splits option.splits sum.splits prod.splits)
  show thesis by (rule result [of permit t bound ?req]) (use b t w m p five in \<open>auto simp: evidenceWindow_def\<close>)
qed

section \<open>Contradictory usage\<close>

definition reportedCount :: "SchemaUsage \<Rightarrow> int \<Rightarrow> bool" where
  "reportedCount u n \<longleftrightarrow> Some n \<in> {su_InputTokens u, su_OutputTokens u, su_CacheReadInputTokens u, su_CacheCreationInputTokens u}
     \<or> (\<exists>cc. su_CacheCreation u = Some cc \<and> Some n \<in> {scc_Ephemeral5mInputTokens cc, scc_Ephemeral1hInputTokens cc})"

text \<open>
  A count outside the window of the model; or, where the usage is complete enough to be billed, a
  total of cache writes that its own split exceeds or, given in full, does not add up to.
\<close>

definition contradictory :: "SchemaUsage option \<Rightarrow> int \<Rightarrow> bool" where
  "contradictory usage window \<longleftrightarrow> (\<exists>u. usage = Some u \<and>
     ((\<exists>n. reportedCount u n \<and> (n < 0 \<or> window < n))
      \<or> \<not> su_AccountingUncertain u \<and> su_InputTokens u \<noteq> None \<and> su_OutputTokens u \<noteq> None
        \<and> (\<exists>total cc. su_CacheCreationInputTokens u = Some total \<and> su_CacheCreation u = Some cc
            \<and> (let m5 = scc_Ephemeral5mInputTokens cc; h1 = scc_Ephemeral1hInputTokens cc; split = orZero m5 + orZero h1
               in total < split \<or> m5 \<noteq> None \<and> h1 \<noteq> None \<and> split \<noteq> total))))"

lemma reported_observed: "reportedCount u n \<longleftrightarrow> n \<in> set (observedCounts u)"
  unfolding reportedCount_def observedCounts_def in_map_filter by (cases "su_CacheCreation u") auto

lemma knownSplit_iff:
  assumes "0 \<le> creation" "creation \<le> MaxInt64" and "\<And>n. scc_Ephemeral5mInputTokens cc = Some n \<Longrightarrow> 0 \<le> n \<and> n \<le> MaxInt64"
    and "\<And>n. scc_Ephemeral1hInputTokens cc = Some n \<Longrightarrow> 0 \<le> n \<and> n \<le> MaxInt64"
  shows "knownSplit creation cc \<longleftrightarrow> orZero (scc_Ephemeral5mInputTokens cc) + orZero (scc_Ephemeral1hInputTokens cc) \<le> creation"
proof -
  have sub: "sub64 creation k = creation - k" if "0 \<le> k" "k \<le> creation" for k
    using that assms(1,2) by (intro sub64_exact) (simp add: in64_bounds)
  have add: "add64 0 v = v" if "0 \<le> v" "v \<le> MaxInt64" for v
    using that add64_exact [of 0 v] by (simp add: in64_bounds)
  show ?thesis
    using assms sub [of 0] sub add by (cases "scc_Ephemeral5mInputTokens cc"; cases "scc_Ephemeral1hInputTokens cc") (auto simp: knownSplit_def orZero_def)
qed

lemma sumTokens_ok:
  assumes "\<forall>n \<in> set ns. 0 \<le> n" and "sum_list ns \<le> MaxInt64"
  shows "sumTokens ns = Inr (sum_list ns)"
proof -
  let ?f = "\<lambda>n total. if n < 0 \<or> total > sub64 MaxInt64 n then Inl () else Inr (add64 total n)"
  have "foldE ?f ns t = Inr (t + sum_list ns)" if "0 \<le> t" "\<forall>n \<in> set ns. 0 \<le> n" "t + sum_list ns \<le> MaxInt64" for t
    using that
  proof (induction ns arbitrary: t)
    case (Cons m ns)
    have "0 \<le> sum_list ns" using Cons.prems(2) by (auto intro: sum_list_nonneg)
    then have m: "0 \<le> m" "t + m \<le> MaxInt64" using Cons.prems by auto
    have "sub64 MaxInt64 m = MaxInt64 - m" "add64 t m = t + m"
      using m Cons.prems(1) by (auto intro!: sub64_exact add64_exact simp: in64_bounds)
    then show ?case using Cons.IH [of "t + m"] Cons.prems m by simp
  qed simp
  from this [of 0] assms show ?thesis by (simp add: sumTokens_def)
qed

lemma tokens_add_up:
  assumes "\<not> list_ex (\<lambda>v. v < 0 \<or> v > window) (observedCounts u)" and "creationCount u = Inr c" and "0 < window" and "window \<le> MaxInt64 div 5"
    and "su_InputTokens u = Some i" and "su_OutputTokens u = Some ot"
  shows "sumTokens (List.map_filter id [Some i, Some ot, su_CacheReadInputTokens u, Some c]) = Inr (i + ot + orZero (su_CacheReadInputTokens u) + c)"
proof -
  note w = observed_within [OF assms(1)]
  have c: "0 \<le> c \<and> c \<le> 2 * window" by (rule creationCount_within [OF assms(1-4)])
  note io = w(1) [OF assms(5)] w(2) [OF assms(6)]
  have five: "5 * window \<le> MaxInt64" using assms(4) by (simp add: in64_bounds)
  show ?thesis
  proof (cases "su_CacheReadInputTokens u")
    case None
    then show ?thesis using sumTokens_ok [of "[i, ot, c]"] io c five assms(3) by (simp add: List.map_filter_simps orZero_def)
  next
    case (Some r)
    then show ?thesis using sumTokens_ok [of "[i, ot, r, c]"] io c five assms(3) w(3) [OF Some] by (simp add: List.map_filter_simps orZero_def)
  qed
qed

lemma creation_contradicts:
  assumes "\<not> list_ex (\<lambda>v. v < 0 \<or> v > window) (observedCounts u)" and "0 < window" and "window \<le> MaxInt64 div 5"
  shows "creationCount u = Inl True \<longleftrightarrow> (\<exists>total cc. su_CacheCreationInputTokens u = Some total \<and> su_CacheCreation u = Some cc
    \<and> total < orZero (scc_Ephemeral5mInputTokens cc) + orZero (scc_Ephemeral1hInputTokens cc))"
proof -
  note w = observed_within [OF assms(1)]
  have five: "5 * window \<le> MaxInt64" using assms(3) by (simp add: in64_bounds)
  have split: "knownSplit total cc \<longleftrightarrow> orZero (scc_Ephemeral5mInputTokens cc) + orZero (scc_Ephemeral1hInputTokens cc) \<le> total"
    if "su_CacheCreationInputTokens u = Some total" "su_CacheCreation u = Some cc" for total cc
    using w(4) [OF that(1)] w(5,6) [OF that(2)] five assms(2) by (intro knownSplit_iff) fastforce+
  have room: "\<not> m5 > sub64 MaxInt64 h1" if "su_CacheCreation u = Some cc" "scc_Ephemeral5mInputTokens cc = Some m5" "scc_Ephemeral1hInputTokens cc = Some h1" for cc m5 h1
    using w(5) [OF that(1,2)] w(6) [OF that(1,3)] five sub64_exact [of MaxInt64 h1] by (simp add: in64_bounds)
  show ?thesis using split room
    by (cases "su_CacheCreationInputTokens u"; cases "su_CacheCreation u") (auto simp: creationCount_def split: option.splits)
qed

lemma contradictory_iff:
  assumes "0 < window" and "window \<le> MaxInt64 div 5"
  shows "snd (snd (authorityUsage usage window)) \<or> snd (snd (authorityTokens usage window)) \<longleftrightarrow> contradictory usage window"
proof (cases usage)
  case (Some u)
  show ?thesis
  proof (cases "list_ex (\<lambda>v. v < 0 \<or> v > window) (observedCounts u)")
    case True
    then show ?thesis using Some by (auto simp: authorityUsage_def contradictory_def reported_observed list_ex_iff)
  next
    case within: False
    then have none: "\<not> (\<exists>n. reportedCount u n \<and> (n < 0 \<or> window < n))" by (auto simp: reported_observed list_ex_iff)
    show ?thesis
    proof (cases "su_AccountingUncertain u \<or> su_InputTokens u = None \<or> su_OutputTokens u = None")
      case True
      then show ?thesis using Some within none by (auto simp: authorityUsage_def authorityTokens_def contradictory_def split: option.splits)
    next
      case False
      then obtain i ot where io: "su_InputTokens u = Some i" "su_OutputTokens u = Some ot" "\<not> su_AccountingUncertain u" by auto
      note w = observed_within [OF within]
      have "snd (snd (authorityTokens usage window)) \<longleftrightarrow> snd (snd (authorityUsage usage window)) \<or> creationCount u = Inl True"
        using Some io tokens_add_up [OF within _ assms io(1,2)]
        by (auto simp: authorityTokens_def split: sum.splits)
      moreover have "snd (snd (authorityUsage usage window)) \<longleftrightarrow> (\<exists>total cc m5 h1. su_CacheCreationInputTokens u = Some total
          \<and> su_CacheCreation u = Some cc \<and> scc_Ephemeral5mInputTokens cc = Some m5 \<and> scc_Ephemeral1hInputTokens cc = Some h1 \<and> m5 + h1 \<noteq> total)"
      proof -
        have "m5 > total \<or> h1 \<noteq> sub64 total m5 \<longleftrightarrow> m5 + h1 \<noteq> total"
          if "su_CacheCreationInputTokens u = Some total" "su_CacheCreation u = Some cc" "scc_Ephemeral5mInputTokens cc = Some m5" "scc_Ephemeral1hInputTokens cc = Some h1"
          for total cc m5 h1
          using w(4) [OF that(1)] w(5) [OF that(2,3)] w(6) [OF that(2,4)] assms sub64_exact [of total m5] by (auto simp: in64_bounds)
        then show ?thesis using Some io within by (auto simp: authorityUsage_def Let_def orZero_def split: option.splits)
      qed
      ultimately show ?thesis
        using Some io none creation_contradicts [OF within assms] by (fastforce simp: contradictory_def Let_def orZero_def)
    qed
  qed
qed (simp add: authorityUsage_def authorityTokens_def contradictory_def)

section \<open>Reports and bookings\<close>

lemma report_within:
  assumes "at_table a = Some t" and "AuthorityBound (Some t) (at_provider a) (at_upstream a) (at_window a) (at_window a) = Inr bound"
    and "0 < at_window a" and "at_window a \<le> MaxInt64 div 5" and "u = sharedSettlement a usage whole"
  shows "ss_Tokens u = Some n \<Longrightarrow> 0 \<le> n \<and> n \<le> 5 * at_window a" and "ss_CostMicroUSD u = Some c \<Longrightarrow> 0 \<le> c \<and> c \<le> bound"
    and "ss_InvalidUsage u \<longleftrightarrow> contradictory usage (at_window a)"
proof -
  obtain x exact invalid where x: "authorityUsage usage (at_window a) = (x, exact, invalid)" by (cases "authorityUsage usage (at_window a)")
  obtain k exactN invalidN where k: "authorityTokens usage (at_window a) = (k, exactN, invalidN)" by (cases "authorityTokens usage (at_window a)")
  have price: "\<exists>y. CostUSDMicrosChecked (Some t) (at_provider a) (at_upstream a) x = Inr y \<and> 0 \<le> y \<and> y \<le> bound" if "exact" "\<not> invalid"
    using bound_dominates [OF assms(2) authorityUsage_within [of usage "at_window a" x]] x that assms(3) by auto
  show "0 \<le> n \<and> n \<le> 5 * at_window a" if "ss_Tokens u = Some n"
    using that authorityTokens_within [of usage "at_window a" k invalidN] k x assms(3,4) price assms(1)
    by (auto simp: assms(5) sharedSettlement_def Let_def split: if_splits sum.splits)
  show "0 \<le> c \<and> c \<le> bound" if "ss_CostMicroUSD u = Some c"
    using that k x price assms(1) by (auto simp: assms(5) sharedSettlement_def Let_def split: if_splits sum.splits)
  have "ss_InvalidUsage u \<longleftrightarrow> invalid \<or> invalidN"
    using k x price assms(1) by (cases "exact \<and> \<not> invalid") (auto simp: assms(5) sharedSettlement_def Let_def split: sum.splits)
  then show "ss_InvalidUsage u \<longleftrightarrow> contradictory usage (at_window a)" using contradictory_iff [OF assms(3,4), of usage] x k by simp
qed

text \<open>What a settlement leaves on a booking.\<close>

lemma retained_within:
  assumes "b = bookingOf d (sf_bound d req)" and "0 \<le> sq_TokenBound req" and "0 \<le> sq_CostBoundMicroUSD req"
    and "\<forall>n. ss_Tokens u = Some n \<longrightarrow> 0 \<le> n \<and> n \<le> sq_TokenBound req" and "\<forall>c. ss_CostMicroUSD u = Some c \<longrightarrow> 0 \<le> c \<and> c \<le> sq_CostBoundMicroUSD req"
  shows "0 \<le> fst (sharedRetained b terminal u) \<and> fst (sharedRetained b terminal u) \<le> sbk_amount b"
  using assms by (auto simp: sharedRetained_def bookingOf_def sf_bound_def split: option.splits)

text \<open>The verdict of the ledger on a report within the bounds of the permit is that of the caller.\<close>

lemma finish_verdict:
  assumes "Mapping.lookup (sd_permits db) (le_ch env (sp_ID permit)) = Some prow" and "pw_terminal prow = []"
    and "\<forall>n. ss_Tokens u = Some n \<longrightarrow> 0 \<le> n \<and> n \<le> pw_tokens prow" and "\<forall>c. ss_CostMicroUSD u = Some c \<longrightarrow> 0 \<le> c \<and> c \<le> pw_cost prow"
    and "FinishShared env fpr now oc (Some permit) u db = (db', res)"
    and "Mapping.lookup (sd_permits db') (le_ch env (sp_ID permit)) = Some prow'" and "pw_terminal prow' \<noteq> []"
  shows "pw_invalid prow' \<longleftrightarrow> ss_InvalidUsage u"
proof -
  have "sharedTerminal env fpr now oc (Some permit) ''finish'' u db = (db', res)" using assms(5) by (simp add: FinishShared_def)
  then show ?thesis
  proof (cases rule: shared_terminal_cases)
    case 1
    then show ?thesis using assms(1,2,6,7) by simp
  next
    case (2 p invalid)
    from 2(2) show ?thesis
    proof (cases rule: terminal_transaction_parts)
      case (Replay row)
      then show ?thesis using assms(1,2) 2(1) by simp
    next
      case (Settle row tx tx' db1)
      then show ?thesis using assms(1,3,4,6) 2(1) by (auto simp: sharedInvalidObservation_def split: option.splits)
    qed
  qed
qed

section \<open>Properties\<close>

text \<open>
  C11: what a call reports to the shared ledger stays within its booking. The permit row of a
  reserved call holds a token bound and a cost bound that no report of the call exceeds,
  whatever usage the provider sent: tokens and cost are nonnegative and at most those bounds. Each
  limit of the principal holds a booking of which the settlement retains a part, never more. And
  when the ledger settles the permit, at any later state and with any outcome of the commit, it
  judges the report invalid, which freezes the limits, exactly when the usage contradicts
  itself: a count outside the window of the model, or cache writes that do not add up.
\<close>

theorem shared_report_within_booking:
  assumes "authorityReachable env fpr L db" and "\<forall>k. 0 \<le> L k"
    and "ReserveBudget (ledgerGovernor env fpr newID row rows now1 now oc fin foc) bundle pr target (Some st) raw db = (db1, Inr (Some a))"
    and "u = sharedSettlement a usage whole"
  shows "\<exists>permit prow p defs budgets. at_shared a = Some permit
    \<and> Mapping.lookup (sd_permits db1) (le_ch env (sp_ID permit)) = Some prow
    \<and> (\<forall>n. ss_Tokens u = Some n \<longrightarrow> 0 \<le> n \<and> n \<le> pw_tokens prow)
    \<and> (\<forall>c. ss_CostMicroUSD u = Some c \<longrightarrow> 0 \<le> c \<and> c \<le> pw_cost prow)
    \<and> sharedSnapshot row (subjectOf pr) = Inr p \<and> sharedDefinitions env rows p now1 (Some (fst bundle)) = Inr (defs, budgets)
    \<and> (\<forall>d \<in> set defs. \<exists>b. Mapping.lookup (sd_bookings db1) (le_ch env (sp_ID permit), sf_id d) = Some b
         \<and> 0 \<le> fst (sharedRetained b ''finish'' u) \<and> fst (sharedRetained b ''finish'' u) \<le> sbk_amount b)
    \<and> (\<forall>db2 later oc' db3 res prow'. Mapping.lookup (sd_permits db2) (le_ch env (sp_ID permit)) = Some prow
         \<longrightarrow> FinishShared env fpr later oc' (Some permit) u db2 = (db3, res)
         \<longrightarrow> Mapping.lookup (sd_permits db3) (le_ch env (sp_ID permit)) = Some prow' \<longrightarrow> pw_terminal prow' \<noteq> []
         \<longrightarrow> (pw_invalid prow' \<longleftrightarrow> contradictory usage (evidenceWindow (Some st) (ct_Model target))))"
proof -
  from assms(3) obtain t bound permit req where r: "at_shared a = Some permit" "at_table a = Some t"
    "at_window a = evidenceWindow (Some st) (ct_Model target)" "0 < at_window a" "at_window a \<le> MaxInt64 div 5"
    "AuthorityBound (Some t) (at_provider a) (at_upstream a) (at_window a) (at_window a) = Inr bound"
    "ReserveShared env newID row rows now1 now oc req db = (db1, Inr permit)"
    "sq_Subject req = subjectOf pr" "sq_PolicyGeneration req = fst bundle"
    "sq_TokenBound req = 5 * at_window a" "sq_CostBoundMicroUSD req = bound" by (rule shared_reservation)
  note tx = reserve_shared_permit [OF r(7)]
  obtain prow where row: "Mapping.lookup (sd_permits db1) (le_ch env (sp_ID permit)) = Some prow"
    "pw_tokens prow = sq_TokenBound req" "pw_cost prow = sq_CostBoundMicroUSD req" "pw_terminal prow = []" by (rule reserved_row [OF tx(1)])
  note rep = report_within [OF r(2,6,4,5) assms(4)]
  have tokens: "\<forall>n. ss_Tokens u = Some n \<longrightarrow> 0 \<le> n \<and> n \<le> sq_TokenBound req"
    and cost: "\<forall>c. ss_CostMicroUSD u = Some c \<longrightarrow> 0 \<le> c \<and> c \<le> sq_CostBoundMicroUSD req"
    using rep(1,2) by (auto simp: r(10,11))
  obtain p defs budgets where d: "sharedSnapshot row (subjectOf pr) = Inr p" "sharedDefinitions env rows p now1 (Some (fst bundle)) = Inr (defs, budgets)"
    "\<forall>d \<in> set defs. Mapping.lookup (sd_bookings db1) (le_ch env (sp_ID permit), sf_id d) = Some (bookingOf d (sf_bound d req))"
    using reserve_within_limits [OF reachable_money_inv [OF assms(1,2)] tx(1)] r(8,9) by auto
  have kept: "\<forall>d \<in> set defs. \<exists>b. Mapping.lookup (sd_bookings db1) (le_ch env (sp_ID permit), sf_id d) = Some b
         \<and> 0 \<le> fst (sharedRetained b ''finish'' u) \<and> fst (sharedRetained b ''finish'' u) \<le> sbk_amount b"
    using d(3) retained_within [OF refl tx(2,3) tokens cost] by blast
  have verdict: "pw_invalid prow' \<longleftrightarrow> contradictory usage (evidenceWindow (Some st) (ct_Model target))"
    if "Mapping.lookup (sd_permits db2) (le_ch env (sp_ID permit)) = Some prow" "FinishShared env fpr later oc' (Some permit) u db2 = (db3, res)"
      "Mapping.lookup (sd_permits db3) (le_ch env (sp_ID permit)) = Some prow'" "pw_terminal prow' \<noteq> []" for db2 later oc' db3 res prow'
    using finish_verdict [OF that(1) row(4) _ _ that(2-4)] tokens cost row(2,3) rep(3) r(3) by simp
  show ?thesis using r(1) row(1) tokens cost d(1,2) kept verdict unfolding row(2,3) [symmetric] by blast
qed

text \<open>
  A call of a model with a window of one token books five tokens and five micro-dollars, and reports
  the two tokens it used.
\<close>

definition sharedCallAt :: "SharedDb \<times> (budget_error + budgetAttempt option)" where
  "sharedCallAt = ReserveBudget (ledgerGovernor ledgerEnv ledgerPrint (Some (sp_ID ledgerPermit)) (Some ledgerPrincipal) ledgerRows ledgerNow (ledgerNow + 7)
     Commits (ledgerNow + 9) Commits) (''gen'', ''m'') ledgerPrincipal callTarget (Some callState) (Some (JObj [])) ledger1"

theorem shared_report_within_booking_witness:
  "\<exists>a permit prow. snd sharedCallAt = Inr (Some a) \<and> at_shared a = Some permit
     \<and> Mapping.lookup (sd_permits (fst sharedCallAt)) (sp_ID permit) = Some prow
     \<and> ss_Tokens (sharedSettlement a (Some callUsage) True) = Some 2 \<and> 2 \<le> pw_tokens prow"
proof -
  have "(case snd sharedCallAt of Inl e \<Rightarrow> False
      | Inr x \<Rightarrow> (case x of None \<Rightarrow> False | Some a \<Rightarrow> ss_Tokens (sharedSettlement a (Some callUsage) True) = Some 2))" by code_simp
  then obtain a where a: "snd sharedCallAt = Inr (Some a)" "ss_Tokens (sharedSettlement a (Some callUsage) True) = Some 2"
    by (auto split: sum.splits option.splits)
  have "ReserveBudget (ledgerGovernor ledgerEnv ledgerPrint (Some (sp_ID ledgerPermit)) (Some ledgerPrincipal) ledgerRows ledgerNow (ledgerNow + 7)
     Commits (ledgerNow + 9) Commits) (''gen'', ''m'') ledgerPrincipal callTarget (Some callState) (Some (JObj [])) ledger1
     = (fst sharedCallAt, Inr (Some a))" unfolding sharedCallAt_def [symmetric] by (simp add: prod_eq_iff a(1))
  from shared_report_within_booking [OF ledger_reachable(1) ledger_cap this refl, of "Some callUsage" True] a
  show ?thesis by (auto simp: ledgerEnv_def)
qed

end
