(* ===== verification/KeyStore.thy ===== *)
theory KeyStore
  imports ProviderStore AuditLog Subjects
begin

text \<open>
  Virtual keys and team records, \<^verbatim>\<open>internal/keystore\<close> (\<^verbatim>\<open>keystore.go\<close>, \<^verbatim>\<open>sqlite.go\<close>), and the
  authentication of a request by its key, \<^verbatim>\<open>internal/server/auth.go\<close>. Only the hash of a key is
  stored. The digest, the random bytes of a new key, the clock and the outcome of
  a statement are arguments. The tags of a key, which decide nothing, are left out.
\<close>

section \<open>Text columns\<close>

definition joinModels :: "string list \<Rightarrow> string" where
  "joinModels models = joinOn CHR '','' models"

definition splitModels :: "string \<Rightarrow> string list" where
  "splitModels s = (if s = [] then [] else splitOn CHR '','' [] s)"

text \<open>
  The column of an expiry, by what it reads as: nothing, an instant, or text that does not
  parse. The layout prints the year as it is and reads exactly four digits, so an instant
  outside the years 0 to 9999 (in UTC) is written but cannot be read back.
\<close>

datatype expiryText = NoText | InstantText gotime | BadText

definition firstReadable :: gotime where
  "firstReadable = - 366 * 86400 * 1000000000"

definition firstUnreadable :: gotime where
  "firstUnreadable = 3652059 * 86400 * 1000000000"

definition encodeExpiry :: "gotime option \<Rightarrow> expiryText" where
  "encodeExpiry e = (case e of
     None \<Rightarrow> NoText
   | Some t \<Rightarrow> if firstReadable \<le> t \<and> t < firstUnreadable then InstantText t else BadText)"

definition decodeExpiry :: "expiryText \<Rightarrow> gotime option option" where
  "decodeExpiry s = (case s of NoText \<Rightarrow> Some None | InstantText t \<Rightarrow> Some (Some t) | BadText \<Rightarrow> None)"

section \<open>Keys\<close>

record KeyOptions =
  ko_BudgetUSDMicros :: int
  ko_BudgetUSDMicrosPerDay :: int
  ko_TPM :: int
  ko_RPM :: int
  ko_ExpiresAt :: "gotime option"
  ko_Owner :: string

definition noOptions :: KeyOptions where
  "noOptions = \<lparr>ko_BudgetUSDMicros = 0, ko_BudgetUSDMicrosPerDay = 0, ko_TPM = 0, ko_RPM = 0, ko_ExpiresAt = None, ko_Owner = []\<rparr>"

record KeyRow =
  kr_KeyID :: string
  kr_Hash :: string
  kr_Team :: string
  kr_Models :: string
  kr_CreatedAt :: string
  kr_Revoked :: bool
  kr_BudgetUSDMicros :: int
  kr_TPM :: int
  kr_RPM :: int
  kr_ExpiresAt :: expiryText
  kr_Owner :: string
  kr_BudgetUSDMicrosPerDay :: int

record TeamRow =
  tw_Models :: string
  tw_RPM :: int
  tw_TPM :: int
  tw_TokensPerDay :: int
  tw_QuotaOnExceeded :: string
  tw_BudgetUSDMicros :: int
  tw_BudgetOnExceeded :: string
  tw_BudgetUSDMicrosPerDay :: int
  tw_GuardrailID :: string
  tw_GuardrailVersion :: string
  tw_Regions :: string
  tw_CreatedAt :: string
  tw_UpdatedAt :: string

text \<open>The rows of \<^verbatim>\<open>keys\<close> in the order they were inserted, and \<^verbatim>\<open>teams\<close> by name.\<close>

record KeyDb =
  kd_keys :: "KeyRow list"
  kd_teams :: "(string, TeamRow) mapping"

datatype key_error = RandomFailed | StatementFailed | ErrKeyNotFound | ErrKeyExpired | InvalidExpiry | ErrTeamNotFound | ErrStoreUnavailable

text \<open>Lower case base32 without padding: five bits a character, the last group filled with zeros.\<close>

definition byteBits :: "char \<Rightarrow> bool list" where
  "byteBits c = map (\<lambda>i. odd ((of_char c :: int) div 2 ^ i)) (rev [0..<8])"

fun base32Chars :: "bool list \<Rightarrow> string" where
  "base32Chars [] = []"
| "base32Chars bs =
     ''abcdefghijklmnopqrstuvwxyz234567'' ! fold (\<lambda>b n. 2 * n + (if b then 1 else 0)) (take 5 (bs @ replicate 4 False)) 0
     # base32Chars (drop 5 bs)"

definition b32 :: "string \<Rightarrow> string" where
  "b32 raw = base32Chars (concat (map byteBits raw))"

definition hashKey :: "(string \<Rightarrow> string) \<Rightarrow> string \<Rightarrow> string" where
  "hashKey digest plaintext = hexEncode (digest plaintext)"

definition keyIDOf :: "string \<Rightarrow> string" where
  "keyIDOf hash = ''ik_'' @ take 12 hash"

text \<open>The random bytes are \<open>None\<close> when the system has none.\<close>

definition generateKey :: "(string \<Rightarrow> string) \<Rightarrow> string option \<Rightarrow> key_error + string \<times> string \<times> string" where
  "generateKey digest raw =
     (case raw of
        None \<Rightarrow> Inl RandomFailed
      | Some bytes \<Rightarrow>
          (let plaintext = ''ik_'' @ b32 bytes; hash = hashKey digest plaintext
           in Inr (plaintext, hash, keyIDOf hash)))"

definition keyRow :: "string \<Rightarrow> string \<Rightarrow> string list \<Rightarrow> KeyOptions \<Rightarrow> string \<Rightarrow> KeyRow" where
  "keyRow hash team models opts created = \<lparr>kr_KeyID = keyIDOf hash, kr_Hash = hash, kr_Team = team, kr_Models = joinModels models,
     kr_CreatedAt = created, kr_Revoked = False, kr_BudgetUSDMicros = ko_BudgetUSDMicros opts, kr_TPM = ko_TPM opts, kr_RPM = ko_RPM opts,
     kr_ExpiresAt = encodeExpiry (ko_ExpiresAt opts), kr_Owner = ko_Owner opts, kr_BudgetUSDMicrosPerDay = ko_BudgetUSDMicrosPerDay opts\<rparr>"

definition keyPrincipal :: "string \<Rightarrow> string \<Rightarrow> string list \<Rightarrow> KeyOptions \<Rightarrow> Principal" where
  "keyPrincipal keyID team models opts = \<lparr>pn_KeyID = keyID, pn_Team = team, pn_AllowedModels = models, pn_Owner = ko_Owner opts,
     pn_RPM = ko_RPM opts, pn_TPM = ko_TPM opts, pn_BudgetUSDMicros = ko_BudgetUSDMicros opts,
     pn_BudgetUSDMicrosPerDay = ko_BudgetUSDMicrosPerDay opts, pn_ExpiresAt = ko_ExpiresAt opts, pn_SharedRevision = [],
     pn_TeamSnapshot = None, pn_TeamSnapshotLoaded = False\<rparr>"

definition taken :: "KeyRow \<Rightarrow> KeyDb \<Rightarrow> bool" where
  "taken row db \<longleftrightarrow> list_ex (\<lambda>r. kr_KeyID r = kr_KeyID row \<or> kr_Hash r = kr_Hash row) (kd_keys db)"

definition CreateWithOptions ::
  "(string \<Rightarrow> string) \<Rightarrow> string option \<Rightarrow> string \<Rightarrow> bool \<Rightarrow> string \<Rightarrow> string list \<Rightarrow> KeyOptions \<Rightarrow> KeyDb
   \<Rightarrow> KeyDb \<times> (key_error + string \<times> Principal)" where
  "CreateWithOptions digest raw created ok team models opts db =
     (case generateKey digest raw of
        Inl e \<Rightarrow> (db, Inl e)
      | Inr (plaintext, hash, keyID) \<Rightarrow>
          (let row = keyRow hash team models opts created
           in if \<not> ok \<or> taken row db then (db, Inl StatementFailed)
              else (db\<lparr>kd_keys := kd_keys db @ [row]\<rparr>, Inr (plaintext, keyPrincipal keyID team models opts))))"

definition key_Create ::
  "(string \<Rightarrow> string) \<Rightarrow> string option \<Rightarrow> string \<Rightarrow> bool \<Rightarrow> string \<Rightarrow> string list \<Rightarrow> KeyDb \<Rightarrow> KeyDb \<times> (key_error + string \<times> Principal)" where
  "key_Create digest raw created ok team models db = CreateWithOptions digest raw created ok team models noOptions db"

text \<open>A row with the same hash is updated, its revocation and its time of creation stay.\<close>

definition refreshed :: "KeyRow \<Rightarrow> KeyRow \<Rightarrow> KeyRow" where
  "refreshed new r = new\<lparr>kr_KeyID := kr_KeyID r, kr_Hash := kr_Hash r, kr_CreatedAt := kr_CreatedAt r, kr_Revoked := kr_Revoked r\<rparr>"

definition EnsureKey ::
  "(string \<Rightarrow> string) \<Rightarrow> string \<Rightarrow> bool \<Rightarrow> string \<Rightarrow> string \<Rightarrow> string list \<Rightarrow> KeyOptions \<Rightarrow> KeyDb \<Rightarrow> KeyDb \<times> (key_error + Principal)" where
  "EnsureKey digest created ok plaintext team models opts db =
     (let hash = hashKey digest plaintext; row = keyRow hash team models opts created
      in if \<not> ok then (db, Inl StatementFailed)
         else if list_ex (\<lambda>r. kr_Hash r = hash) (kd_keys db)
         then (db\<lparr>kd_keys := map (\<lambda>r. if kr_Hash r = hash then refreshed row r else r) (kd_keys db)\<rparr>,
               Inr (keyPrincipal (keyIDOf hash) team models opts))
         else if taken row db then (db, Inl StatementFailed)
         else (db\<lparr>kd_keys := kd_keys db @ [row]\<rparr>, Inr (keyPrincipal (keyIDOf hash) team models opts)))"

definition scanPrincipal :: "KeyRow \<Rightarrow> key_error + Principal" where
  "scanPrincipal r =
     (case decodeExpiry (kr_ExpiresAt r) of
        None \<Rightarrow> Inl InvalidExpiry
      | Some e \<Rightarrow> Inr \<lparr>pn_KeyID = kr_KeyID r, pn_Team = kr_Team r, pn_AllowedModels = splitModels (kr_Models r), pn_Owner = kr_Owner r,
          pn_RPM = kr_RPM r, pn_TPM = kr_TPM r, pn_BudgetUSDMicros = kr_BudgetUSDMicros r,
          pn_BudgetUSDMicrosPerDay = kr_BudgetUSDMicrosPerDay r, pn_ExpiresAt = e, pn_SharedRevision = [], pn_TeamSnapshot = None,
          pn_TeamSnapshotLoaded = False\<rparr>)"

definition key_Resolve :: "(string \<Rightarrow> string) \<Rightarrow> bool \<Rightarrow> gotime \<Rightarrow> string \<Rightarrow> KeyDb \<Rightarrow> key_error + Principal" where
  "key_Resolve digest ok now plaintext db =
     (if \<not> ok then Inl StatementFailed
      else
        (case List.find (\<lambda>r. kr_Hash r = hashKey digest plaintext \<and> \<not> kr_Revoked r) (kd_keys db) of
           None \<Rightarrow> Inl ErrKeyNotFound
         | Some r \<Rightarrow>
             (case scanPrincipal r of
                Inl e \<Rightarrow> Inl e
              | Inr p \<Rightarrow> (case pn_ExpiresAt p of
                            Some t \<Rightarrow> if t < now then Inl ErrKeyExpired else Inr p
                          | None \<Rightarrow> Inr p))))"

definition key_Revoke :: "bool \<Rightarrow> string \<Rightarrow> KeyDb \<Rightarrow> KeyDb \<times> key_error option" where
  "key_Revoke ok keyID db =
     (if \<not> ok then (db, Some StatementFailed)
      else if \<not> list_ex (\<lambda>r. kr_KeyID r = keyID) (kd_keys db) then (db, Some ErrKeyNotFound)
      else (db\<lparr>kd_keys := map (\<lambda>r. if kr_KeyID r = keyID then r\<lparr>kr_Revoked := True\<rparr> else r) (kd_keys db)\<rparr>, None))"

text \<open>The first row that cannot be read fails the whole list.\<close>

definition key_List :: "bool \<Rightarrow> KeyDb \<Rightarrow> key_error + Principal list" where
  "key_List ok db =
     (if \<not> ok then Inl StatementFailed
      else foldE (\<lambda>r out. case scanPrincipal r of Inl e \<Rightarrow> Inl e | Inr p \<Rightarrow> Inr (out @ [p]))
             (sort_key kr_CreatedAt (filter (\<lambda>r. \<not> kr_Revoked r) (kd_keys db))) [])"

section \<open>Teams\<close>

record FullTeam = TeamRecord +
  tr_GuardrailID :: string
  tr_GuardrailVersion :: string
  tr_CreatedAt :: string
  tr_UpdatedAt :: string

definition scanTeam :: "string \<Rightarrow> TeamRow \<Rightarrow> FullTeam" where
  "scanTeam name t = \<lparr>tr_Name = name, tr_AllowedModels = splitModels (tw_Models t), tr_RPM = tw_RPM t, tr_TPM = tw_TPM t,
     tr_TokensPerDay = tw_TokensPerDay t, tr_QuotaOnExceeded = tw_QuotaOnExceeded t, tr_BudgetUSDMicros = tw_BudgetUSDMicros t,
     tr_BudgetUSDMicrosPerDay = tw_BudgetUSDMicrosPerDay t, tr_BudgetOnExceeded = tw_BudgetOnExceeded t,
     tr_AllowedRegions = splitModels (tw_Regions t), tr_GuardrailID = tw_GuardrailID t, tr_GuardrailVersion = tw_GuardrailVersion t,
     tr_CreatedAt = tw_CreatedAt t, tr_UpdatedAt = tw_UpdatedAt t\<rparr>"

definition UpsertTeam :: "bool \<Rightarrow> string \<Rightarrow> FullTeam \<Rightarrow> KeyDb \<Rightarrow> KeyDb \<times> key_error option" where
  "UpsertTeam ok now t db =
     (if \<not> ok then (db, Some StatementFailed)
      else
        (let created = (case Mapping.lookup (kd_teams db) (tr_Name t) of None \<Rightarrow> now | Some old \<Rightarrow> tw_CreatedAt old);
             row = \<lparr>tw_Models = joinModels (tr_AllowedModels t), tw_RPM = tr_RPM t, tw_TPM = tr_TPM t, tw_TokensPerDay = tr_TokensPerDay t,
               tw_QuotaOnExceeded = tr_QuotaOnExceeded t, tw_BudgetUSDMicros = tr_BudgetUSDMicros t, tw_BudgetOnExceeded = tr_BudgetOnExceeded t,
               tw_BudgetUSDMicrosPerDay = tr_BudgetUSDMicrosPerDay t, tw_GuardrailID = tr_GuardrailID t, tw_GuardrailVersion = tr_GuardrailVersion t,
               tw_Regions = joinModels (tr_AllowedRegions t), tw_CreatedAt = created, tw_UpdatedAt = now\<rparr>
         in (db\<lparr>kd_teams := Mapping.update (tr_Name t) row (kd_teams db)\<rparr>, None)))"

definition GetTeam :: "bool \<Rightarrow> string \<Rightarrow> KeyDb \<Rightarrow> key_error + FullTeam option" where
  "GetTeam ok name db = (if \<not> ok then Inl StatementFailed else Inr (map_option (scanTeam name) (Mapping.lookup (kd_teams db) name)))"

definition ListTeams :: "bool \<Rightarrow> KeyDb \<Rightarrow> key_error + FullTeam list" where
  "ListTeams ok db =
     (if \<not> ok then Inl StatementFailed
      else Inr (map (\<lambda>n. scanTeam n (the (Mapping.lookup (kd_teams db) n))) (Mapping.ordered_keys (kd_teams db))))"

definition DeleteTeam :: "bool \<Rightarrow> string \<Rightarrow> KeyDb \<Rightarrow> KeyDb \<times> key_error option" where
  "DeleteTeam ok name db =
     (if \<not> ok then (db, Some StatementFailed)
      else if Mapping.lookup (kd_teams db) name = None then (db, Some ErrTeamNotFound)
      else (db\<lparr>kd_teams := Mapping.delete name (kd_teams db)\<rparr>, None))"

section \<open>Authentication of a request\<close>

definition TrimPrefix :: "string \<Rightarrow> string \<Rightarrow> string" where
  "TrimPrefix s p = (if take (length p) s = p then drop (length p) s else s)"

datatype key_denial = MissingKey | IdentityUnavailable | ExpiredKey | InvalidKey

definition KeyAuth :: "(string \<Rightarrow> key_error + Principal) \<Rightarrow> string \<Rightarrow> string \<Rightarrow> key_denial + Principal" where
  "KeyAuth resolve xApiKey authorization =
     (let key = (if xApiKey = [] then TrimPrefix authorization ''Bearer '' else xApiKey)
      in if key = [] then Inl MissingKey
         else (case resolve key of
                 Inl e \<Rightarrow> Inl (if e = ErrStoreUnavailable then IdentityUnavailable else if e = ErrKeyExpired then ExpiredKey else InvalidKey)
               | Inr p \<Rightarrow> Inr p))"

end
