(* ===== verification/KeyStoreProps.thy ===== *)
theory KeyStoreProps
  imports KeyStore
begin

text \<open>
  What the key store guarantees under any sequence of its operations: a key that was issued
  authenticates exactly as issued until it expires, and a revocation is permanent.
\<close>

section \<open>Joined columns\<close>

lemma splitOn_no: "c \<notin> set p \<Longrightarrow> splitOn c acc p = [acc @ p]"
  by (induction p arbitrary: acc) auto

lemma splitOn_part: "c \<notin> set p \<Longrightarrow> splitOn c acc (p @ c # s) = (acc @ p) # splitOn c [] s"
  by (induction p arbitrary: acc) auto

lemma splitOn_joinOn: "ps \<noteq> [] \<Longrightarrow> \<forall>p \<in> set ps. c \<notin> set p \<Longrightarrow> splitOn c [] (joinOn c ps) = ps"
  by (induction c ps rule: joinOn.induct) (auto simp: splitOn_no splitOn_part)

definition joinable :: "string list \<Rightarrow> bool" where
  "joinable ms \<longleftrightarrow> list_all (\<lambda>m. CHR '','' \<notin> set m) ms \<and> ms \<noteq> [[]]"

lemma joinOn_empty: "joinOn c ps = [] \<longleftrightarrow> ps = [] \<or> ps = [[]]"
  by (cases "(c, ps)" rule: joinOn.cases) auto

lemma splitModels_joinModels: "joinable ms \<Longrightarrow> splitModels (joinModels ms) = ms"
  using splitOn_joinOn [of ms "CHR '',''"] by (auto simp: joinable_def splitModels_def joinModels_def joinOn_empty list_all_iff)

section \<open>Runs of the store\<close>

datatype keyOp =
    CreateOp "string option" string bool string "string list" KeyOptions
  | EnsureOp string bool string string "string list" KeyOptions
  | RevokeOp bool string
  | UpsertTeamOp bool string FullTeam
  | DeleteTeamOp bool string

fun keyStep :: "(string \<Rightarrow> string) \<Rightarrow> keyOp \<Rightarrow> KeyDb \<Rightarrow> KeyDb" where
  "keyStep digest (CreateOp raw created ok team models opts) db = fst (CreateWithOptions digest raw created ok team models opts db)"
| "keyStep digest (EnsureOp created ok plaintext team models opts) db = fst (EnsureKey digest created ok plaintext team models opts db)"
| "keyStep digest (RevokeOp ok keyID) db = fst (key_Revoke ok keyID db)"
| "keyStep digest (UpsertTeamOp ok now t) db = fst (UpsertTeam ok now t db)"
| "keyStep digest (DeleteTeamOp ok name) db = fst (DeleteTeam ok name db)"

text \<open>Key identities are unique and derived from the hashes; so the hashes are unique as well.\<close>

definition keys_inv :: "KeyDb \<Rightarrow> bool" where
  "keys_inv db \<longleftrightarrow> (\<forall>r \<in> set (kd_keys db). kr_KeyID r = keyIDOf (kr_Hash r)) \<and> distinct (map kr_KeyID (kd_keys db))"

text \<open>The row an operation may change.\<close>

fun concerns :: "(string \<Rightarrow> string) \<Rightarrow> keyOp \<Rightarrow> KeyRow \<Rightarrow> bool" where
  "concerns digest (EnsureOp created ok plaintext team models opts) r \<longleftrightarrow> kr_Hash r = hashKey digest plaintext"
| "concerns digest (RevokeOp ok keyID) r \<longleftrightarrow> kr_KeyID r = keyID"
| "concerns digest _ r \<longleftrightarrow> False"

text \<open>An operation appends a fresh row, or changes rows in place without touching their identity or lifting a revocation.\<close>

lemma keyStep_rows:
  obtains (appended) row where "kd_keys (keyStep digest op db) = kd_keys db @ [row]" "kr_KeyID row = keyIDOf (kr_Hash row)" "\<not> taken row db"
  | (changed) f where "kd_keys (keyStep digest op db) = map f (kd_keys db)"
      "\<And>r. kr_KeyID (f r) = kr_KeyID r \<and> kr_Hash (f r) = kr_Hash r \<and> (kr_Revoked r \<longrightarrow> kr_Revoked (f r))
        \<and> (\<not> concerns digest op r \<longrightarrow> f r = r)"
proof (cases op)
  case (CreateOp raw created ok team models opts)
  show thesis
  proof (cases "kd_keys (keyStep digest op db) = kd_keys db")
    case False
    then obtain hash where "kd_keys (keyStep digest op db) = kd_keys db @ [keyRow hash team models opts created]"
      "\<not> taken (keyRow hash team models opts created) db"
      by (auto simp: CreateOp CreateWithOptions_def generateKey_def Let_def split: option.splits if_splits)
    then show thesis by (intro appended) (auto simp: keyRow_def)
  qed (use changed [of id] in simp)
next
  case (EnsureOp created ok plaintext team models opts)
  let ?h = "hashKey digest plaintext"
  let ?row = "keyRow ?h team models opts created"
  consider "kd_keys (keyStep digest op db) = kd_keys db" | "kd_keys (keyStep digest op db) = kd_keys db @ [?row]" "\<not> taken ?row db"
    | "kd_keys (keyStep digest op db) = map (\<lambda>r. if kr_Hash r = ?h then refreshed ?row r else r) (kd_keys db)"
    by (cases "ok"; cases "list_ex (\<lambda>r. kr_Hash r = ?h) (kd_keys db)"; cases "taken ?row db") (simp_all add: EnsureOp EnsureKey_def Let_def)
  then show thesis
  proof cases
    case 1
    then show thesis using changed [of id] by simp
  next
    case 2
    then show thesis by (intro appended) (auto simp: keyRow_def)
  next
    case 3
    then show thesis by (rule changed) (auto simp: EnsureOp refreshed_def)
  qed
next
  case (RevokeOp ok keyID)
  show thesis
  proof (cases "kd_keys (keyStep digest op db) = kd_keys db")
    case False
    then have "kd_keys (keyStep digest op db) = map (\<lambda>r. if kr_KeyID r = keyID then r\<lparr>kr_Revoked := True\<rparr> else r) (kd_keys db)"
      by (auto simp: RevokeOp key_Revoke_def split: if_splits)
    then show thesis by (rule changed) (auto simp: RevokeOp)
  qed (use changed [of id] in simp)
qed (use changed [of id] in \<open>auto simp: UpsertTeam_def DeleteTeam_def Let_def\<close>)

lemma keyStep_inv: "keys_inv db \<Longrightarrow> keys_inv (keyStep digest op db)"
proof (cases rule: keyStep_rows [of digest op db])
  case (appended row)
  then show "keys_inv db \<Longrightarrow> keys_inv (keyStep digest op db)" by (auto simp: keys_inv_def taken_def list_ex_iff)
next
  case (changed f)
  then have "kr_KeyID \<circ> f = kr_KeyID" by auto
  then show "keys_inv db \<Longrightarrow> keys_inv (keyStep digest op db)" using changed by (auto simp: keys_inv_def)
qed

lemma keyRun_inv: "keys_inv db \<Longrightarrow> keys_inv (fold (keyStep digest) ops db)"
  by (induction ops arbitrary: db) (simp_all add: keyStep_inv)

lemma keys_inv_same:
  "keys_inv db \<Longrightarrow> r \<in> set (kd_keys db) \<Longrightarrow> r' \<in> set (kd_keys db) \<Longrightarrow> kr_KeyID r = kr_KeyID r' \<Longrightarrow> r = r'"
  unfolding keys_inv_def distinct_map by (blast dest: inj_onD)

section \<open>Revocation\<close>

definition revokedIn :: "string \<Rightarrow> KeyDb \<Rightarrow> bool" where
  "revokedIn keyID db \<longleftrightarrow> (\<exists>r \<in> set (kd_keys db). kr_KeyID r = keyID \<and> kr_Revoked r)"

lemma keyStep_revoked:
  assumes "revokedIn keyID db"
  shows "revokedIn keyID (keyStep digest op db)"
proof (cases rule: keyStep_rows [of digest op db])
  case (changed f)
  obtain r where "r \<in> set (kd_keys db)" "kr_KeyID r = keyID" "kr_Revoked r" using assms by (auto simp: revokedIn_def)
  then have "f r \<in> set (kd_keys (keyStep digest op db))" "kr_KeyID (f r) = keyID" "kr_Revoked (f r)" using changed by auto
  then show ?thesis by (auto simp: revokedIn_def)
qed (use assms in \<open>auto simp: revokedIn_def\<close>)

lemma run_revoked: "revokedIn keyID db \<Longrightarrow> revokedIn keyID (fold (keyStep digest) ops db)"
  by (induction ops arbitrary: db) (simp_all add: keyStep_revoked)

lemma revoked_unresolved:
  assumes "keys_inv db" and "revokedIn (keyIDOf (hashKey digest plaintext)) db"
  shows "key_Resolve digest ok now plaintext db \<in> {Inl StatementFailed, Inl ErrKeyNotFound}"
proof -
  have "List.find (\<lambda>r. kr_Hash r = hashKey digest plaintext \<and> \<not> kr_Revoked r) (kd_keys db) = None"
    using assms keys_inv_same [OF assms(1)] unfolding find_None_iff by (metis keys_inv_def revokedIn_def)
  then show ?thesis by (simp add: key_Resolve_def)
qed

text \<open>
  C30: A revocation is permanent. Once a key was revoked, then after any further operations, among
  them the bootstrap that declares the same key again, no request that presents
  a key of this identity is authenticated: it is answered as an unknown key, at any time.
\<close>

theorem revocation_permanent:
  assumes "keys_inv db" and "key_Revoke ok keyID db = (db1, None)" and "db2 = fold (keyStep digest) ops db1"
    and "presented = (if xApiKey = [] then TrimPrefix authorization ''Bearer '' else xApiKey)"
    and "presented \<noteq> []" and "keyIDOf (hashKey digest presented) = keyID"
  shows "KeyAuth (\<lambda>key. key_Resolve digest ok' now key db2) xApiKey authorization = Inl InvalidKey"
proof -
  have inv: "keys_inv db2" using keyRun_inv [of db1] keyStep_inv [OF assms(1), of digest "RevokeOp ok keyID"] assms(2,3) by simp
  have "revokedIn keyID db1"
  proof -
    obtain r where "r \<in> set (kd_keys db)" "kr_KeyID r = keyID" using assms(2) by (auto simp: key_Revoke_def list_ex_iff split: if_splits)
    then have "r\<lparr>kr_Revoked := True\<rparr> \<in> set (kd_keys db1)"
      using assms(2) by (auto simp: key_Revoke_def split: if_splits intro!: image_eqI [of _ _ r])
    then show ?thesis using \<open>kr_KeyID r = keyID\<close> by (auto simp: revokedIn_def intro!: bexI [of _ "r\<lparr>kr_Revoked := True\<rparr>"])
  qed
  then have "revokedIn (keyIDOf (hashKey digest presented)) db2" unfolding assms(3,6) by (rule run_revoked)
  from revoked_unresolved [OF inv this, of ok' now] show ?thesis
    unfolding KeyAuth_def Let_def assms(4) [symmetric] using assms(5) by auto
qed

definition emptyKeys :: KeyDb where
  "emptyKeys = \<lparr>kd_keys = [], kd_teams = Mapping.empty\<rparr>"

definition sampleKeys :: KeyDb where
  "sampleKeys = fst (EnsureKey id ''t0'' True ''secret'' ''research'' [''m1'', ''m2''] noOptions emptyKeys)"

lemma sampleKeys_inv: "keys_inv sampleKeys"
proof -
  have "keys_inv emptyKeys" by (simp add: keys_inv_def emptyKeys_def)
  from keyStep_inv [OF this, of id "EnsureOp ''t0'' True ''secret'' ''research'' [''m1'', ''m2''] noOptions"] show ?thesis
    by (simp add: sampleKeys_def)
qed

theorem revocation_permanent_witness:
  "KeyAuth (\<lambda>key. key_Resolve id True 5 key
      (fold (keyStep id) [EnsureOp ''t2'' True ''secret'' ''research'' [''*''] noOptions]
        (fst (key_Revoke True (keyIDOf (hashKey id ''secret'')) sampleKeys)))) [] ''Bearer secret'' = Inl InvalidKey"
proof -
  have "snd (key_Revoke True (keyIDOf (hashKey id ''secret'')) sampleKeys) = None" by code_simp
  then have r: "key_Revoke True (keyIDOf (hashKey id ''secret'')) sampleKeys
    = (fst (key_Revoke True (keyIDOf (hashKey id ''secret'')) sampleKeys), None)" by (metis prod.collapse)
  have p: "''secret'' = (if [] = [] then TrimPrefix ''Bearer secret'' ''Bearer '' else [])" by code_simp
  show ?thesis by (rule revocation_permanent [OF sampleKeys_inv r refl p _ refl]) simp
qed

section \<open>Issued keys\<close>

lemma find_only:
  "r \<in> set rs \<Longrightarrow> P r \<Longrightarrow> \<forall>r' \<in> set rs. P r' \<longrightarrow> r' = r \<Longrightarrow> List.find P rs = Some r"
proof (induction rs)
  case (Cons x xs)
  show ?case
  proof (cases "P x")
    case True
    then have "x = r" using Cons.prems(3) by (meson list.set_intros(1))
    then show ?thesis using True by simp
  next
    case False
    then have "r \<in> set xs" using Cons.prems(1,2) by auto
    then have "List.find P xs = Some r" using Cons.prems(2,3) by (intro Cons.IH) (meson list.set_intros(2))+
    then show ?thesis using False by simp
  qed
qed simp

lemma keyStep_keeps:
  assumes "r \<in> set (kd_keys db)" and "\<not> concerns digest op r"
  shows "r \<in> set (kd_keys (keyStep digest op db))"
proof (cases rule: keyStep_rows [of digest op db])
  case (changed f)
  then have "f r = r" using assms(2) by blast
  then show ?thesis unfolding changed(1) set_map using assms(1) by (metis imageI)
qed (use assms(1) in simp)

lemma run_keeps:
  "r \<in> set (kd_keys db) \<Longrightarrow> \<forall>op \<in> set ops. \<not> concerns digest op r \<Longrightarrow> r \<in> set (kd_keys (fold (keyStep digest) ops db))"
  by (induction ops arbitrary: db) (simp_all add: keyStep_keeps)

text \<open>What can be stored without loss: names without commas, an expiry in the years 0 to 9999.\<close>

definition storable :: "string list \<Rightarrow> KeyOptions \<Rightarrow> bool" where
  "storable models opts \<longleftrightarrow> joinable models
     \<and> (case ko_ExpiresAt opts of None \<Rightarrow> True | Some t \<Rightarrow> firstReadable \<le> t \<and> t < firstUnreadable)"

lemma scan_row:
  "storable models opts \<Longrightarrow> scanPrincipal (keyRow hash team models opts created) = Inr (keyPrincipal (keyIDOf hash) team models opts)"
  by (auto simp: storable_def scanPrincipal_def keyRow_def keyPrincipal_def encodeExpiry_def decodeExpiry_def splitModels_joinModels
      split: option.splits)

lemma resolve_row:
  assumes "keys_inv db" and "r \<in> set (kd_keys db)" and "\<not> kr_Revoked r" and "kr_Hash r = hashKey digest plaintext" and "scanPrincipal r = Inr p"
  shows "key_Resolve digest True now plaintext db
    = (case pn_ExpiresAt p of Some t \<Rightarrow> if t < now then Inl ErrKeyExpired else Inr p | None \<Rightarrow> Inr p)"
proof -
  have "List.find (\<lambda>r. kr_Hash r = hashKey digest plaintext \<and> \<not> kr_Revoked r) (kd_keys db) = Some r"
    using assms(1-4) keys_inv_same [OF assms(1)] by (intro find_only) (auto simp: keys_inv_def)
  then show ?thesis using assms(5) by (simp add: key_Resolve_def)
qed

text \<open>
  C31: An issued key means what was issued. When a key was created with names that contain no comma
  and an expiry the column can hold, then after any operations that do not revoke it or declare it again,
  presenting it authenticates with exactly the principal that was returned at its creation, until
  its expiry, and as an expired key from then on; and no key with another hash
  resolves to the same identity.
\<close>

theorem issued_key_authenticates:
  assumes "keys_inv db" and "CreateWithOptions digest raw created ok team models opts db = (db1, Inr (plaintext, p))"
    and "storable models opts" and "db2 = fold (keyStep digest) ops db1"
    and "\<forall>op \<in> set ops. \<forall>r. kr_KeyID r = pn_KeyID p \<and> kr_Hash r = hashKey digest plaintext \<longrightarrow> \<not> concerns digest op r"
  shows "KeyAuth (\<lambda>key. key_Resolve digest True now key db2) plaintext []
      = (case ko_ExpiresAt opts of Some t \<Rightarrow> if t < now then Inl ExpiredKey else Inr p | None \<Rightarrow> Inr p)
    \<and> pn_Team p = team \<and> pn_AllowedModels p = models
    \<and> (\<forall>other q. key_Resolve digest True now other db2 = Inr q \<and> pn_KeyID q = pn_KeyID p
         \<longrightarrow> hashKey digest other = hashKey digest plaintext)"
proof -
  let ?h = "hashKey digest plaintext" and ?r = "keyRow (hashKey digest plaintext) team models opts created"
  have c: "plaintext \<noteq> []" "p = keyPrincipal (keyIDOf ?h) team models opts" "?r \<in> set (kd_keys db1)"
    using assms(2) by (auto simp: CreateWithOptions_def generateKey_def Let_def split: option.splits if_splits)
  have inv: "keys_inv db2"
    using keyRun_inv [of db1] keyStep_inv [OF assms(1), of digest "CreateOp raw created ok team models opts"] assms(2,4) by simp
  have r: "?r \<in> set (kd_keys db2)"
    unfolding assms(4) using c(2,3) assms(5) by (intro run_keeps) (auto simp: keyRow_def keyPrincipal_def)
  have "key_Resolve digest True now plaintext db2
      = (case ko_ExpiresAt opts of Some t \<Rightarrow> if t < now then Inl ErrKeyExpired else Inr p | None \<Rightarrow> Inr p)"
  proof -
    have "\<not> kr_Revoked ?r" "kr_Hash ?r = ?h" "pn_ExpiresAt p = ko_ExpiresAt opts" by (simp_all add: keyRow_def c(2) keyPrincipal_def)
    then show ?thesis using resolve_row [OF inv r _ _ scan_row [OF assms(3), of ?h team created, folded c(2)], of digest plaintext now] by simp
  qed
  then have "KeyAuth (\<lambda>key. key_Resolve digest True now key db2) plaintext []
      = (case ko_ExpiresAt opts of Some t \<Rightarrow> if t < now then Inl ExpiredKey else Inr p | None \<Rightarrow> Inr p)"
    using c(1) by (auto simp: KeyAuth_def split: option.splits)
  moreover have "hashKey digest other = ?h" if q: "key_Resolve digest True now other db2 = Inr q" "pn_KeyID q = pn_KeyID p" for other q
  proof -
    obtain r' where r': "r' \<in> set (kd_keys db2)" "kr_Hash r' = hashKey digest other" "scanPrincipal r' = Inr q"
      using q(1) by (auto simp: key_Resolve_def find_Some_iff split: option.splits sum.splits if_splits dest!: nth_mem)
    then have "kr_KeyID r' = kr_KeyID ?r"
      using q(2) c(2) by (auto simp: scanPrincipal_def keyPrincipal_def keyRow_def split: option.splits)
    then have "r' = ?r" by (rule keys_inv_same [OF inv r'(1) r])
    then show ?thesis using r'(2) by (simp add: keyRow_def)
  qed
  ultimately show ?thesis using c(2) by (auto simp: keyPrincipal_def)
qed

definition issuedDb :: KeyDb where
  "issuedDb = fst (CreateWithOptions id (Some ''abcde'') ''t1'' True ''ops'' [''m1''] (noOptions\<lparr>ko_ExpiresAt := Some 100\<rparr>) sampleKeys)"

theorem issued_key_authenticates_witness:
  "\<exists>p plaintext. KeyAuth (\<lambda>key. key_Resolve id True 7 key (fold (keyStep id) [RevokeOp True (keyIDOf (hashKey id ''secret''))] issuedDb)) plaintext [] = Inr p
     \<and> KeyAuth (\<lambda>key. key_Resolve id True 200 key (fold (keyStep id) [RevokeOp True (keyIDOf (hashKey id ''secret''))] issuedDb)) plaintext [] = Inl ExpiredKey
     \<and> pn_Team p = ''ops''"
proof -
  let ?opts = "noOptions\<lparr>ko_ExpiresAt := Some 100\<rparr>"
  have s: "storable [''m1''] ?opts" by code_simp
  define X where "X = CreateWithOptions id (Some ''abcde'') ''t1'' True ''ops'' [''m1''] ?opts sampleKeys"
  have "case snd (CreateWithOptions id (Some ''abcde'') ''t1'' True ''ops'' [''m1''] ?opts sampleKeys) of
      Inl _ \<Rightarrow> False | Inr (plaintext, p) \<Rightarrow> pn_KeyID p \<noteq> keyIDOf (hashKey id ''secret'')" by code_simp
  then have "case snd X of Inl _ \<Rightarrow> False | Inr (plaintext, p) \<Rightarrow> pn_KeyID p \<noteq> keyIDOf (hashKey id ''secret'')" by (simp only: X_def)
  then obtain plaintext p where p: "CreateWithOptions id (Some ''abcde'') ''t1'' True ''ops'' [''m1''] ?opts sampleKeys = (issuedDb, Inr (plaintext, p))"
    "pn_KeyID p \<noteq> keyIDOf (hashKey id ''secret'')"
    unfolding issuedDb_def X_def [symmetric] by (cases X) (auto split: sum.splits)
  have c: "\<forall>op \<in> set [RevokeOp True (keyIDOf (hashKey id ''secret''))]. \<forall>r. kr_KeyID r = pn_KeyID p \<and> kr_Hash r = hashKey id plaintext \<longrightarrow> \<not> concerns id op r"
    using p(2) by simp
  have e: "ko_ExpiresAt ?opts = Some 100" by simp
  have n: "\<not> (100 :: int) < 7" "(100 :: int) < 200" by simp_all
  note at = issued_key_authenticates [OF sampleKeys_inv p(1) s refl c, unfolded e option.case]
  from at [of 7, unfolded if_not_P [OF n(1)]] at [of 200, unfolded if_P [OF n(2)]] show ?thesis by blast
qed

section \<open>What the columns lose\<close>

text \<open>A name with a comma is read back as several names, and may become the wildcard.\<close>

lemma comma_widens: "splitModels (joinModels [''m1,*'']) = [''m1'', ''*'']"
  by (simp add: joinModels_def splitModels_def)

text \<open>One key whose expiry lies beyond the year 9999 in UTC makes the listing fail as a whole.\<close>

lemma scan_fails: "foldE (\<lambda>r out. case scanPrincipal r of Inl e \<Rightarrow> Inl e | Inr p \<Rightarrow> Inr (out @ [p])) rs out = Inl InvalidExpiry"
  if "\<exists>r \<in> set rs. kr_ExpiresAt r = BadText"
  using that by (induction rs arbitrary: out) (auto simp: scanPrincipal_def decodeExpiry_def split: option.splits)

lemma unreadable_expiry_blocks_list:
  assumes "CreateWithOptions digest raw created ok team models opts db = (db1, Inr (plaintext, p))" and "ko_ExpiresAt opts = Some t" and "firstUnreadable \<le> t"
  shows "key_List True db1 = Inl InvalidExpiry"
proof -
  have "keyRow (hashKey digest plaintext) team models opts created \<in> set (kd_keys db1)"
    using assms(1) by (auto simp: CreateWithOptions_def generateKey_def Let_def split: option.splits if_splits)
  then have "\<exists>r \<in> set (sort_key kr_CreatedAt (filter (\<lambda>r. \<not> kr_Revoked r) (kd_keys db1))). kr_ExpiresAt r = BadText"
    using assms(2,3) by (intro bexI [of _ "keyRow (hashKey digest plaintext) team models opts created"]) (auto simp: keyRow_def encodeExpiry_def)
  from scan_fails [OF this] show ?thesis by (simp add: key_List_def)
qed

end
