(* ===== verification/KeyAdmin.thy ===== *)
theory KeyAdmin
  imports KeyStoreProps
begin

text \<open>
  The admin plane of keys and teams: the identity of a caller (\<^verbatim>\<open>internal/principal\<close>,
  \<^verbatim>\<open>internal/adminauth/mapping.go\<close>, \<^verbatim>\<open>internal/server/adminauth.go\<close>) and the handlers that write
  (\<^verbatim>\<open>internal/server/adminapi/keys.go\<close>, \<^verbatim>\<open>teams.go\<close>). The verifier of identity tokens is an
  argument. A request body is its decoded form, \<open>None\<close> when it does not decode.
\<close>

section \<open>Identities\<close>

record AdminIdentity =
  ai_Subject :: string
  ai_Teams :: "string list"
  ai_IsAdmin :: bool
  ai_AuthMethod :: string

definition Entitled :: "AdminIdentity \<Rightarrow> string \<Rightarrow> bool" where
  "Entitled a team \<longleftrightarrow> ai_IsAdmin a \<or> (team \<noteq> [] \<and> team \<in> set (ai_Teams a))"

definition maxBearerLen :: int where
  "maxBearerLen = 8 * 1024"

definition isBase64URLByte :: "char \<Rightarrow> bool" where
  "isBase64URLByte c \<longleftrightarrow> (let b = of_char c :: int in
     (65 \<le> b \<and> b \<le> 90) \<or> (97 \<le> b \<and> b \<le> 122) \<or> (48 \<le> b \<and> b \<le> 57) \<or> b = 45 \<or> b = 95)"

text \<open>The loop over the bytes: segments so far, and whether the current one is still empty.\<close>

fun shapeLoop :: "nat \<Rightarrow> bool \<Rightarrow> string \<Rightarrow> bool" where
  "shapeLoop seg isEmpty [] \<longleftrightarrow> \<not> isEmpty \<and> \<not> seg + 1 > 3 \<and> seg + 1 = 3"
| "shapeLoop seg isEmpty (c # cs) =
     (if c = CHR ''.'' then (if isEmpty \<or> seg + 1 > 3 then False else shapeLoop (seg + 1) True cs)
      else if \<not> isBase64URLByte c then False
      else shapeLoop seg False cs)"

definition IsOIDCBearerShape :: "string \<Rightarrow> bool" where
  "IsOIDCBearerShape bearer \<longleftrightarrow> \<not> (bearer = [] \<or> int (length bearer) > maxBearerLen) \<and> shapeLoop 0 True bearer"

record GroupMapping =
  gm_Group :: string
  gm_Teams :: "string list"

record MappingConfig =
  mp_AdminGroups :: "string list"
  mp_GroupMappings :: "GroupMapping list"

definition addNew :: "string \<Rightarrow> string list \<Rightarrow> string list" where
  "addNew t teams = (if t \<in> set teams then teams else teams @ [t])"

definition mappedTeams :: "string list \<Rightarrow> MappingConfig \<Rightarrow> string list" where
  "mappedTeams groups cfg =
     fold (\<lambda>m teams. if gm_Group m \<noteq> ''*'' \<and> gm_Group m \<notin> set groups then teams else fold addNew (gm_Teams m) teams)
       (mp_GroupMappings cfg) []"

text \<open>\<open>None\<close>: the identity maps to nothing.\<close>

definition group_Resolve :: "string list \<Rightarrow> MappingConfig \<Rightarrow> (string list \<times> bool) option" where
  "group_Resolve groups cfg =
     (if groups = [] then None
      else if list_ex (\<lambda>g. g \<in> set groups) (mp_AdminGroups cfg) then Some ([], True)
      else (let teams = mappedTeams groups cfg in if teams = [] then None else Some (teams, False)))"

datatype admin_denial = CredentialRequired | InvalidOIDCToken | MapsToNoTeam string | AdminTokenRequired | InvalidAdminToken

text \<open>The claims of a token are its subject and its groups.\<close>

definition AdminAuth ::
  "(string \<Rightarrow> string) \<Rightarrow> string list \<Rightarrow> (string \<Rightarrow> (string \<times> string list) option) option \<Rightarrow> MappingConfig \<Rightarrow> string
   \<Rightarrow> admin_denial + AdminIdentity" where
  "AdminAuth digest tokens verifier cfg authorization =
     (let bearer = TrimPrefix authorization ''Bearer ''
      in if bearer = [] \<or> int (length bearer) > maxBearerLen then Inl CredentialRequired
         else
           (case (if IsOIDCBearerShape bearer then verifier else None) of
              Some verify \<Rightarrow>
                (case verify bearer of
                   None \<Rightarrow> Inl InvalidOIDCToken
                 | Some (subject, groups) \<Rightarrow>
                     (case group_Resolve groups cfg of
                        None \<Rightarrow> Inl (MapsToNoTeam subject)
                      | Some (teams, isAdmin) \<Rightarrow>
                          Inr \<lparr>ai_Subject = subject, ai_Teams = teams, ai_IsAdmin = isAdmin, ai_AuthMethod = ''oidc''\<rparr>))
            | None \<Rightarrow>
                if tokens = [] then Inl AdminTokenRequired
                else if \<not> list_ex (\<lambda>t. digest t = digest bearer) tokens then Inl InvalidAdminToken
                else Inr \<lparr>ai_Subject = ''break-glass'', ai_Teams = [], ai_IsAdmin = True, ai_AuthMethod = ''break_glass''\<rparr>))"

section \<open>Answers\<close>

record AdminEvent =
  ae_Event :: string
  ae_Subject :: string
  ae_Method :: string
  ae_Team :: string
  ae_KeyID :: string

text \<open>The state of the store, the audit events, the status, and a key that was issued.\<close>

record adminReply =
  ay_Db :: KeyDb
  ay_Events :: "AdminEvent list"
  ay_Status :: int
  ay_Issued :: "(string \<times> Principal) option"

definition reply :: "KeyDb \<Rightarrow> AdminEvent list \<Rightarrow> int \<Rightarrow> adminReply" where
  "reply db events status = \<lparr>ay_Db = db, ay_Events = events, ay_Status = status, ay_Issued = None\<rparr>"

definition adminEvent :: "string \<Rightarrow> AdminIdentity \<Rightarrow> string \<Rightarrow> string \<Rightarrow> AdminEvent" where
  "adminEvent event a team keyID =
     \<lparr>ae_Event = event, ae_Subject = ai_Subject a, ae_Method = ai_AuthMethod a, ae_Team = team, ae_KeyID = keyID\<rparr>"

definition requireAdmin :: "(AdminIdentity \<Rightarrow> adminReply) \<Rightarrow> KeyDb \<Rightarrow> AdminIdentity option \<Rightarrow> adminReply" where
  "requireAdmin h db a =
     (case a of
        None \<Rightarrow> reply db [] 403
      | Some i \<Rightarrow> if ai_IsAdmin i then h i else reply db [adminEvent ''admin_denied'' i [] []] 403)"

section \<open>Keys\<close>

record keyOptionsBody =
  kb_BudgetUSDMicros :: int
  kb_BudgetUSDMicrosPerDay :: int
  kb_TPM :: int
  kb_RPM :: int
  kb_ExpiresAt :: expiryText
  kb_Owner :: string

definition maxOwnerBytes :: int where
  "maxOwnerBytes = 256"

definition toKeyOptions :: "gotime \<Rightarrow> keyOptionsBody \<Rightarrow> KeyOptions option" where
  "toKeyOptions now b =
     (if kb_BudgetUSDMicros b < 0 \<or> kb_BudgetUSDMicrosPerDay b < 0 \<or> kb_TPM b < 0 \<or> kb_RPM b < 0 then None
      else if int (length (kb_Owner b)) > maxOwnerBytes then None
      else
        (let opts = \<lparr>ko_BudgetUSDMicros = kb_BudgetUSDMicros b, ko_BudgetUSDMicrosPerDay = kb_BudgetUSDMicrosPerDay b,
               ko_TPM = kb_TPM b, ko_RPM = kb_RPM b, ko_ExpiresAt = None, ko_Owner = kb_Owner b\<rparr>
         in case kb_ExpiresAt b of
              NoText \<Rightarrow> Some opts
            | BadText \<Rightarrow> None
            | InstantText t \<Rightarrow> if t < now then None else Some (opts\<lparr>ko_ExpiresAt := Some t\<rparr>)))"

text \<open>What the environment answers during one request: the clock, the random bytes, the formatted time, the outcome of each statement.\<close>

record adminEnv =
  av_now :: gotime
  av_raw :: "string option"
  av_created :: string
  av_list :: bool
  av_write :: bool
  av_read :: bool

definition keys_create ::
  "(string \<Rightarrow> string) \<Rightarrow> adminEnv \<Rightarrow> (string \<times> string list \<times> keyOptionsBody) option \<Rightarrow> AdminIdentity \<Rightarrow> KeyDb \<Rightarrow> adminReply" where
  "keys_create digest env body a db =
     (case body of
        None \<Rightarrow> reply db [] 400
      | Some (team, models, b) \<Rightarrow>
          if team = [] then reply db [] 400
          else if \<not> Entitled a team then reply db [adminEvent ''admin_denied'' a team []] 403
          else
            (case toKeyOptions (av_now env) b of
               None \<Rightarrow> reply db [] 400
             | Some opts \<Rightarrow>
                 (let opts = (if ai_AuthMethod a = ''oidc'' \<and> \<not> ai_IsAdmin a then opts\<lparr>ko_Owner := ai_Subject a\<rparr> else opts)
                  in case CreateWithOptions digest (av_raw env) (av_created env) (av_write env) team models opts db of
                       (db', Inl _) \<Rightarrow> reply db' [] 500
                     | (db', Inr (plaintext, p)) \<Rightarrow>
                         (reply db' [adminEvent ''admin_key_created'' a (pn_Team p) (pn_KeyID p)] 200)\<lparr>ay_Issued := Some (plaintext, p)\<rparr>)))"

definition keyOf :: "adminEnv \<Rightarrow> string \<Rightarrow> KeyDb \<Rightarrow> key_error + Principal option" where
  "keyOf env keyID db =
     (case key_List (av_list env) db of Inl e \<Rightarrow> Inl e | Inr ps \<Rightarrow> Inr (List.find (\<lambda>p. pn_KeyID p = keyID) ps))"

text \<open>
  The store is the SQLite one, which revokes by the identity alone; the conditional revocation of the
  Postgres store, and the conflict it may report, are not part of the model.
\<close>

definition keys_revoke :: "adminEnv \<Rightarrow> string \<Rightarrow> AdminIdentity \<Rightarrow> KeyDb \<Rightarrow> adminReply" where
  "keys_revoke env path a db =
     (let keyID = TrimPrefix path ''/admin/keys/''
      in if keyID = [] \<or> keyID = path then reply db [] 400
         else
           (case keyOf env keyID db of
              Inl _ \<Rightarrow> reply db [] 500
            | Inr None \<Rightarrow> reply db [] 404
            | Inr (Some p) \<Rightarrow>
                if \<not> Entitled a (pn_Team p) then reply db [adminEvent ''admin_denied'' a (pn_Team p) keyID] 403
                else (case key_Revoke (av_write env) keyID db of
                        (db', Some _) \<Rightarrow> reply db' [] 404
                      | (db', None) \<Rightarrow> reply db' [adminEvent ''admin_key_revoked'' a (pn_Team p) keyID] 204)))"

datatype keysRequest = PostKey "(string \<times> string list \<times> keyOptionsBody) option" | GetKeys | DeleteKey string | OtherMethod

definition KeysHandler :: "(string \<Rightarrow> string) \<Rightarrow> adminEnv \<Rightarrow> keysRequest \<Rightarrow> AdminIdentity option \<Rightarrow> KeyDb \<Rightarrow> adminReply" where
  "KeysHandler digest env req ident db =
     (case ident of
        None \<Rightarrow> reply db [] 403
      | Some a \<Rightarrow>
          (case req of
             PostKey body \<Rightarrow> keys_create digest env body a db
           | GetKeys \<Rightarrow> reply db [] (case key_List (av_list env) db of Inl _ \<Rightarrow> 500 | Inr _ \<Rightarrow> 200)
           | DeleteKey path \<Rightarrow> keys_revoke env path a db
           | OtherMethod \<Rightarrow> reply db [] 405))"

section \<open>Teams\<close>

text \<open>\<^verbatim>\<open>unicode.IsControl\<close> over the runes of a string: the ASCII controls, and U+0080 to U+009F in two bytes.\<close>

fun hasControl :: "string \<Rightarrow> bool" where
  "hasControl [] \<longleftrightarrow> False"
| "hasControl (c # cs) \<longleftrightarrow> (of_char c :: int) < 32 \<or> (of_char c :: int) = 127
     \<or> (of_char c :: int) = 194 \<and> (case cs of [] \<Rightarrow> False | d # _ \<Rightarrow> 128 \<le> (of_char d :: int) \<and> (of_char d :: int) \<le> 159)
     \<or> hasControl cs"

definition validateTeamName :: "string \<Rightarrow> bool" where
  "validateTeamName name \<longleftrightarrow> name \<noteq> [] \<and> int (length name) \<le> 256 \<and> CHR ''/'' \<notin> set name \<and> \<not> hasControl name"

record teamWriteBody =
  tb_AllowedModels :: "string list"
  tb_RPM :: int
  tb_TPM :: int
  tb_TokensPerDay :: int
  tb_QuotaOnExceeded :: string
  tb_BudgetUSDMicros :: int
  tb_BudgetUSDMicrosPerDay :: int
  tb_BudgetOnExceeded :: string
  tb_GuardrailID :: string
  tb_GuardrailVersion :: string
  tb_AllowedRegions :: "string list"

definition maxJoinedBytes :: int where
  "maxJoinedBytes = 4096"

definition validOnExceeded :: "string list" where
  "validOnExceeded = [[], ''block'', ''warn'']"

definition validateAllowedRegions :: "string list \<Rightarrow> bool" where
  "validateAllowedRegions regions \<longleftrightarrow> int (length (joinOn CHR '','' regions)) \<le> maxJoinedBytes
     \<and> list_all (\<lambda>r. \<not> blank r \<and> CHR '','' \<notin> set r \<and> \<not> hasControl r) regions"

definition maxGuardrailIDBytes :: int where
  "maxGuardrailIDBytes = 2048"

definition validateGuardrailFields :: "string \<Rightarrow> string \<Rightarrow> bool" where
  "validateGuardrailFields gid version \<longleftrightarrow> int (length gid) \<le> maxGuardrailIDBytes \<and> \<not> hasControl gid \<and> \<not> (gid \<noteq> [] \<and> blank gid)
     \<and> \<not> (version \<noteq> [] \<and> gid = []) \<and> guardrailVersionOK version"

definition team_validate :: "teamWriteBody \<Rightarrow> bool" where
  "team_validate b \<longleftrightarrow> \<not> (tb_RPM b < 0 \<or> tb_TPM b < 0 \<or> tb_TokensPerDay b < 0 \<or> tb_BudgetUSDMicros b < 0 \<or> tb_BudgetUSDMicrosPerDay b < 0)
     \<and> tb_QuotaOnExceeded b \<in> set validOnExceeded \<and> tb_BudgetOnExceeded b \<in> set validOnExceeded
     \<and> int (length (joinOn CHR '','' (tb_AllowedModels b))) \<le> maxJoinedBytes
     \<and> validateGuardrailFields (tb_GuardrailID b) (tb_GuardrailVersion b) \<and> validateAllowedRegions (tb_AllowedRegions b)"

definition teamRecordOf :: "string \<Rightarrow> teamWriteBody \<Rightarrow> FullTeam" where
  "teamRecordOf name b = \<lparr>tr_Name = name, tr_AllowedModels = tb_AllowedModels b, tr_RPM = tb_RPM b, tr_TPM = tb_TPM b,
     tr_TokensPerDay = tb_TokensPerDay b, tr_QuotaOnExceeded = tb_QuotaOnExceeded b, tr_BudgetUSDMicros = tb_BudgetUSDMicros b,
     tr_BudgetUSDMicrosPerDay = tb_BudgetUSDMicrosPerDay b, tr_BudgetOnExceeded = tb_BudgetOnExceeded b, tr_AllowedRegions = tb_AllowedRegions b,
     tr_GuardrailID = tb_GuardrailID b, tr_GuardrailVersion = tb_GuardrailVersion b, tr_CreatedAt = [], tr_UpdatedAt = []\<rparr>"

definition teams_upsert :: "adminEnv \<Rightarrow> string \<Rightarrow> teamWriteBody option \<Rightarrow> AdminIdentity \<Rightarrow> KeyDb \<Rightarrow> adminReply" where
  "teams_upsert env path body a db =
     (let name = TrimPrefix path ''/admin/teams/''
      in if \<not> validateTeamName name then reply db [] 400
         else
           (case body of
              None \<Rightarrow> reply db [] 400
            | Some b \<Rightarrow>
                if \<not> team_validate b then reply db [] 400
                else (case UpsertTeam (av_write env) (av_created env) (teamRecordOf name b) db of
                        (db', Some _) \<Rightarrow> reply db' [] 500
                      | (db', None) \<Rightarrow>
                          (case GetTeam (av_read env) name db' of
                             Inr (Some _) \<Rightarrow> reply db' [adminEvent ''admin_team_upserted'' a name []] 200
                           | _ \<Rightarrow> reply db' [] 500))))"

definition teams_delete :: "adminEnv \<Rightarrow> string \<Rightarrow> AdminIdentity \<Rightarrow> KeyDb \<Rightarrow> adminReply" where
  "teams_delete env path a db =
     (let name = TrimPrefix path ''/admin/teams/''
      in if \<not> validateTeamName name then reply db [] 400
         else (case DeleteTeam (av_write env) name db of
                 (db', Some e) \<Rightarrow> reply db' [] (if e = ErrTeamNotFound then 404 else 500)
               | (db', None) \<Rightarrow> reply db' [adminEvent ''admin_team_deleted'' a name []] 204))"

datatype teamsRequest = GetTeams | PutTeam string "teamWriteBody option" | DropTeam string | OtherTeamsMethod

definition TeamsHandler :: "adminEnv \<Rightarrow> teamsRequest \<Rightarrow> AdminIdentity option \<Rightarrow> KeyDb \<Rightarrow> adminReply" where
  "TeamsHandler env req ident db =
     (case ident of
        None \<Rightarrow> reply db [] 403
      | Some a \<Rightarrow>
          (case req of
             GetTeams \<Rightarrow> reply db [] (case ListTeams (av_list env) db of Inl _ \<Rightarrow> 500 | Inr _ \<Rightarrow> 200)
           | PutTeam path body \<Rightarrow> teams_upsert env path body a db
           | DropTeam path \<Rightarrow> teams_delete env path a db
           | OtherTeamsMethod \<Rightarrow> reply db [] 405))"

section \<open>The mounted routes\<close>

datatype adminRequest = KeysRequest keysRequest | TeamsRequest teamsRequest

text \<open>A denied identity that was authenticated is audited, an unauthenticated request is not.\<close>

definition denialReply :: "KeyDb \<Rightarrow> admin_denial \<Rightarrow> adminReply" where
  "denialReply db d = (case d of
     MapsToNoTeam subject \<Rightarrow>
       reply db [\<lparr>ae_Event = ''admin_denied'', ae_Subject = subject, ae_Method = ''oidc'', ae_Team = [], ae_KeyID = []\<rparr>] 403
   | _ \<Rightarrow> reply db [] 401)"

text \<open>Other methods on the routes of teams are not mounted; the multiplexer answers them itself.\<close>

definition adminRoute ::
  "(string \<Rightarrow> string) \<Rightarrow> string list \<Rightarrow> (string \<Rightarrow> (string \<times> string list) option) option \<Rightarrow> MappingConfig
   \<Rightarrow> adminEnv \<Rightarrow> string \<Rightarrow> adminRequest \<Rightarrow> KeyDb \<Rightarrow> adminReply" where
  "adminRoute digest tokens verifier cfg env authorization req db =
     (if req = TeamsRequest OtherTeamsMethod then reply db [] 405
      else case AdminAuth digest tokens verifier cfg authorization of
        Inl d \<Rightarrow> denialReply db d
      | Inr a \<Rightarrow>
          (case req of
             KeysRequest r \<Rightarrow> KeysHandler digest env r (Some a) db
           | TeamsRequest GetTeams \<Rightarrow> TeamsHandler env GetTeams (Some a) db
           | TeamsRequest r \<Rightarrow> requireAdmin (\<lambda>i. TeamsHandler env r (Some i) db) db (Some a)))"

section \<open>Who may write what\<close>

text \<open>The teams a set of groups maps to.\<close>

lemma fold_addNew: "set (fold addNew ts teams) = set ts \<union> set teams"
  by (induction ts arbitrary: teams) (auto simp: addNew_def)

lemma mappedTeams_set:
  "set (mappedTeams groups cfg) = {t. \<exists>m \<in> set (mp_GroupMappings cfg). (gm_Group m = ''*'' \<or> gm_Group m \<in> set groups) \<and> t \<in> set (gm_Teams m)}"
proof -
  let ?f = "\<lambda>m teams. if gm_Group m \<noteq> ''*'' \<and> gm_Group m \<notin> set groups then teams else fold addNew (gm_Teams m) teams"
  have "set (fold ?f ms teams) = set teams \<union> {t. \<exists>m \<in> set ms. (gm_Group m = ''*'' \<or> gm_Group m \<in> set groups) \<and> t \<in> set (gm_Teams m)}" for ms teams
    by (induction ms arbitrary: teams) (auto simp: fold_addNew)
  from this [of "mp_GroupMappings cfg" "[]"] show ?thesis by (simp add: mappedTeams_def)
qed

text \<open>What a credential stands for, independent of the handlers: a static token for everything, verified groups for what they map to.\<close>

definition adminCredential :: "(string \<Rightarrow> string) \<Rightarrow> string list \<Rightarrow> (string \<Rightarrow> (string \<times> string list) option) option \<Rightarrow> MappingConfig \<Rightarrow> string \<Rightarrow> bool" where
  "adminCredential digest tokens verifier cfg bearer \<longleftrightarrow>
     (\<exists>t \<in> set tokens. digest t = digest bearer)
     \<or> (\<exists>verify subject groups. verifier = Some verify \<and> verify bearer = Some (subject, groups) \<and> set groups \<inter> set (mp_AdminGroups cfg) \<noteq> {})"

definition teamCredential :: "(string \<Rightarrow> (string \<times> string list) option) option \<Rightarrow> MappingConfig \<Rightarrow> string \<Rightarrow> string \<Rightarrow> string \<Rightarrow> bool" where
  "teamCredential verifier cfg bearer subject team \<longleftrightarrow>
     (\<exists>verify groups m. verifier = Some verify \<and> verify bearer = Some (subject, groups) \<and> m \<in> set (mp_GroupMappings cfg)
        \<and> (gm_Group m = ''*'' \<or> gm_Group m \<in> set groups) \<and> team \<in> set (gm_Teams m))"

lemma AdminAuth_admin:
  assumes "AdminAuth digest tokens verifier cfg authorization = Inr a" and "ai_IsAdmin a"
  shows "adminCredential digest tokens verifier cfg (TrimPrefix authorization ''Bearer '')"
  using assms by (fastforce simp: AdminAuth_def adminCredential_def group_Resolve_def Let_def list_ex_iff split: if_splits option.splits)

lemma AdminAuth_team:
  assumes "AdminAuth digest tokens verifier cfg authorization = Inr a" and "\<not> ai_IsAdmin a"
  shows "ai_AuthMethod a = ''oidc''" and "t \<in> set (ai_Teams a) \<Longrightarrow> teamCredential verifier cfg (TrimPrefix authorization ''Bearer '') (ai_Subject a) t"
proof -
  show "ai_AuthMethod a = ''oidc''"
    using assms by (auto simp: AdminAuth_def Let_def split: if_splits option.splits prod.splits)
  assume t: "t \<in> set (ai_Teams a)"
  let ?b = "TrimPrefix authorization ''Bearer ''"
  obtain verify groups where v: "verifier = Some verify" "verify ?b = Some (ai_Subject a, groups)" "ai_Teams a = mappedTeams groups cfg"
    using assms by (auto simp: AdminAuth_def group_Resolve_def Let_def split: if_splits option.splits prod.splits)
  then show "teamCredential verifier cfg ?b (ai_Subject a) t"
    using t unfolding v(3) mappedTeams_set teamCredential_def by auto
qed

lemma AdminAuth_entitled:
  assumes "AdminAuth digest tokens verifier cfg authorization = Inr a" and "Entitled a team"
  shows "adminCredential digest tokens verifier cfg (TrimPrefix authorization ''Bearer '')
    \<or> teamCredential verifier cfg (TrimPrefix authorization ''Bearer '') (ai_Subject a) team"
  using AdminAuth_admin [OF assms(1)] AdminAuth_team(2) [OF assms(1)] assms(2) by (auto simp: Entitled_def)

lemma scanned_rows:
  "foldE (\<lambda>r out. case scanPrincipal r of Inl e \<Rightarrow> Inl e | Inr p \<Rightarrow> Inr (out @ [p])) rs out = Inr ps \<Longrightarrow>
   p \<in> set ps \<Longrightarrow> p \<in> set out \<or> (\<exists>r \<in> set rs. scanPrincipal r = Inr p)"
  by (induction rs arbitrary: out) (fastforce split: sum.splits)+

lemma keyOf_row:
  assumes "keyOf env keyID db = Inr (Some p)"
  obtains row where "row \<in> set (kd_keys db)" "kr_KeyID row = keyID" "kr_Team row = pn_Team p"
proof -
  obtain ps where ps: "key_List (av_list env) db = Inr ps" "p \<in> set ps" "pn_KeyID p = keyID"
    using assms by (auto simp: keyOf_def find_Some_iff split: sum.splits)
  then obtain row where "row \<in> set (kd_keys db)" "scanPrincipal row = Inr p"
    using scanned_rows [of "sort_key kr_CreatedAt (filter (\<lambda>r. \<not> kr_Revoked r) (kd_keys db))" "[]" ps p]
    by (auto simp: key_List_def split: if_splits)
  then show thesis using ps(3) by (intro that) (auto simp: scanPrincipal_def split: option.splits)
qed

text \<open>What the two writing handlers of keys do to the table.\<close>

definition issuedRow :: "AdminIdentity \<Rightarrow> KeyRow \<Rightarrow> KeyDb \<Rightarrow> adminReply \<Rightarrow> bool" where
  "issuedRow a row db r \<longleftrightarrow> kd_keys (ay_Db r) = kd_keys db @ [row] \<and> Entitled a (kr_Team row)
     \<and> (ai_AuthMethod a = ''oidc'' \<and> \<not> ai_IsAdmin a \<longrightarrow> kr_Owner row = ai_Subject a)
     \<and> ay_Events r = [adminEvent ''admin_key_created'' a (kr_Team row) (kr_KeyID row)]"

definition revokedRow :: "AdminIdentity \<Rightarrow> KeyRow \<Rightarrow> KeyDb \<Rightarrow> adminReply \<Rightarrow> bool" where
  "revokedRow a row db r \<longleftrightarrow> row \<in> set (kd_keys db) \<and> Entitled a (kr_Team row)
     \<and> kd_keys (ay_Db r) = map (\<lambda>x. if kr_KeyID x = kr_KeyID row then x\<lparr>kr_Revoked := True\<rparr> else x) (kd_keys db)
     \<and> ay_Events r = [adminEvent ''admin_key_revoked'' a (kr_Team row) (kr_KeyID row)]"

lemma reply_simps [simp]: "ay_Db (reply db evs st) = db" "ay_Events (reply db evs st) = evs" "ay_Status (reply db evs st) = st"
  by (simp_all add: reply_def)

lemma create_row:
  "CreateWithOptions digest raw created ok team models opts db = (db', Inr (plaintext, p)) \<Longrightarrow>
   \<exists>row. kd_keys db' = kd_keys db @ [row] \<and> kd_teams db' = kd_teams db \<and> kr_Team row = team \<and> kr_Owner row = ko_Owner opts
     \<and> pn_Team p = kr_Team row \<and> pn_KeyID p = kr_KeyID row"
  by (auto simp: CreateWithOptions_def generateKey_def Let_def keyPrincipal_def keyRow_def split: option.splits if_splits)

lemma create_fails: "CreateWithOptions digest raw created ok team models opts db = (db', Inl e) \<Longrightarrow> db' = db"
  by (auto simp: CreateWithOptions_def Let_def split: sum.splits if_splits)

lemma keys_create_effect:
  "kd_teams (ay_Db (keys_create digest env body a db)) = kd_teams db
   \<and> (kd_keys (ay_Db (keys_create digest env body a db)) = kd_keys db \<or> (\<exists>row. issuedRow a row db (keys_create digest env body a db)))"
proof (cases "ay_Db (keys_create digest env body a db) = db")
  case False
  then obtain team models b opts where b: "body = Some (team, models, b)" "team \<noteq> []" "Entitled a team" "toKeyOptions (av_now env) b = Some opts"
    by (auto simp: keys_create_def split: option.splits if_splits)
  define opts' where "opts' = (if ai_AuthMethod a = ''oidc'' \<and> \<not> ai_IsAdmin a then opts\<lparr>ko_Owner := ai_Subject a\<rparr> else opts)"
  obtain db' res where c: "CreateWithOptions digest (av_raw env) (av_created env) (av_write env) team models opts' db = (db', res)" by fastforce
  have r: "keys_create digest env body a db = (case res of Inl _ \<Rightarrow> reply db' [] 500
      | Inr (plaintext, p) \<Rightarrow> (reply db' [adminEvent ''admin_key_created'' a (pn_Team p) (pn_KeyID p)] 200)\<lparr>ay_Issued := Some (plaintext, p)\<rparr>)"
    using b c by (simp add: keys_create_def Let_def flip: opts'_def split: sum.splits)
  obtain plaintext p where p: "res = Inr (plaintext, p)"
    using False r c create_fails by (cases res) (fastforce split: prod.splits)+
  show ?thesis using create_row [OF c [unfolded p]] b(3) unfolding r p by (auto simp: issuedRow_def opts'_def)
qed simp

lemma keys_revoke_effect:
  "kd_teams (ay_Db (keys_revoke env path a db)) = kd_teams db
   \<and> (kd_keys (ay_Db (keys_revoke env path a db)) = kd_keys db \<or> (\<exists>row. revokedRow a row db (keys_revoke env path a db)))"
proof (cases "ay_Db (keys_revoke env path a db) = db")
  case False
  let ?id = "TrimPrefix path ''/admin/keys/''"
  obtain p where p: "keyOf env ?id db = Inr (Some p)" "Entitled a (pn_Team p)" "\<not> (?id = [] \<or> ?id = path)"
    using False by (auto simp: keys_revoke_def Let_def split: sum.splits option.splits if_splits)
  obtain db' e where v: "key_Revoke (av_write env) ?id db = (db', e)" by fastforce
  then have e: "e = None" "db' = db\<lparr>kd_keys := map (\<lambda>r. if kr_KeyID r = ?id then r\<lparr>kr_Revoked := True\<rparr> else r) (kd_keys db)\<rparr>"
    using False p by (auto simp: keys_revoke_def key_Revoke_def Let_def split: if_splits)
  have r: "keys_revoke env path a db = reply db' [adminEvent ''admin_key_revoked'' a (pn_Team p) ?id] 204"
    using p v e(1) by (simp add: keys_revoke_def Let_def)
  obtain row where "row \<in> set (kd_keys db)" "kr_KeyID row = ?id" "kr_Team row = pn_Team p" by (rule keyOf_row [OF p(1)])
  then have "revokedRow a row db (keys_revoke env path a db)" using p(2) unfolding r by (simp add: revokedRow_def e(2))
  then show ?thesis unfolding r by (auto simp: e(2))
qed simp

lemma teams_keep_keys:
  "kd_keys (ay_Db (TeamsHandler env r i db)) = kd_keys db"
  by (auto simp: TeamsHandler_def teams_upsert_def teams_delete_def UpsertTeam_def DeleteTeam_def Let_def
      split: option.splits teamsRequest.splits if_splits sum.splits)

text \<open>
  C29: Nobody writes keys or teams of the admin plane without the standing for it. A request changes team
  records only with an administrator's credential: a configured static token, or a verified
  identity in an administrators' group. It changes keys only by issuing one key or revoking
  one, for a team the credential stands for; a key issued by a team member is owned
  by that member; and the change is reported in exactly one audit event that names the key, its team and the
  identity the credential stands for. Every other request leaves the store as it was.
\<close>

theorem admin_writes_authorized:
  assumes "r = adminRoute digest tokens verifier cfg env authorization req db" and "bearer = TrimPrefix authorization ''Bearer ''"
  shows "(kd_teams (ay_Db r) \<noteq> kd_teams db \<longrightarrow> adminCredential digest tokens verifier cfg bearer)
    \<and> (kd_keys (ay_Db r) = kd_keys db
      \<or> (\<exists>a row. AdminAuth digest tokens verifier cfg authorization = Inr a \<and> (issuedRow a row db r \<or> revokedRow a row db r)
           \<and> (adminCredential digest tokens verifier cfg bearer
             \<or> teamCredential verifier cfg bearer (ai_Subject a) (kr_Team row) \<and> (issuedRow a row db r \<longrightarrow> kr_Owner row = ai_Subject a))))"
proof (cases "AdminAuth digest tokens verifier cfg authorization")
  case (Inl d)
  then have "ay_Db r = db" by (auto simp: assms(1) adminRoute_def denialReply_def split: admin_denial.splits)
  then show ?thesis by simp
next
  case (Inr a)
  note cred = AdminAuth_admin [OF Inr, folded assms(2)] AdminAuth_team [OF Inr, folded assms(2)] AdminAuth_entitled [OF Inr, folded assms(2)]
  show ?thesis
  proof (cases req)
    case (TeamsRequest t)
    have "kd_keys (ay_Db r) = kd_keys db"
      using TeamsRequest Inr by (auto simp: assms(1) adminRoute_def requireAdmin_def teams_keep_keys split: teamsRequest.splits)
    moreover have "kd_teams (ay_Db r) = kd_teams db" if "\<not> ai_IsAdmin a"
      using that TeamsRequest Inr by (auto simp: assms(1) adminRoute_def requireAdmin_def TeamsHandler_def split: teamsRequest.splits)
    ultimately show ?thesis using cred(1) by blast
  next
    case (KeysRequest k)
    have r: "r = KeysHandler digest env k (Some a) db" using KeysRequest Inr by (simp add: assms(1) adminRoute_def)
    have eff: "kd_teams (ay_Db r) = kd_teams db \<and> (kd_keys (ay_Db r) = kd_keys db \<or> (\<exists>row. issuedRow a row db r \<or> revokedRow a row db r))"
      using keys_create_effect [of digest env _ a db] keys_revoke_effect [of env _ a db]
      unfolding r KeysHandler_def by (cases k) (auto split: sum.splits)
    have "adminCredential digest tokens verifier cfg bearer
        \<or> teamCredential verifier cfg bearer (ai_Subject a) (kr_Team row) \<and> (issuedRow a row db r \<longrightarrow> kr_Owner row = ai_Subject a)"
      if "issuedRow a row db r \<or> revokedRow a row db r" for row
    proof (cases "ai_IsAdmin a")
      case False
      have "Entitled a (kr_Team row)" using that by (auto simp: issuedRow_def revokedRow_def)
      then have "teamCredential verifier cfg bearer (ai_Subject a) (kr_Team row)" using cred(3) False by (auto simp: Entitled_def)
      moreover have "issuedRow a row db r \<longrightarrow> kr_Owner row = ai_Subject a" using cred(2) [OF False] False by (auto simp: issuedRow_def)
      ultimately show ?thesis by blast
    qed (use cred(1) in simp)
    then show ?thesis using eff Inr by blast
  qed
qed

definition sampleVerifier :: "string \<Rightarrow> (string \<times> string list) option" where
  "sampleVerifier raw = (if raw = ''aa.bb.cc'' then Some (''alice'', [''eng'']) else None)"

definition sampleMapping :: MappingConfig where
  "sampleMapping = \<lparr>mp_AdminGroups = [''root''], mp_GroupMappings = [\<lparr>gm_Group = ''eng'', gm_Teams = [''ops'']\<rparr>]\<rparr>"

definition sampleAdminEnv :: adminEnv where
  "sampleAdminEnv = \<lparr>av_now = 0, av_raw = Some ''abcde'', av_created = ''t1'', av_list = True, av_write = True, av_read = True\<rparr>"

definition sampleReply :: "string \<Rightarrow> adminReply" where
  "sampleReply team = adminRoute id [] (Some sampleVerifier) sampleMapping sampleAdminEnv ''Bearer aa.bb.cc''
     (KeysRequest (PostKey (Some (team, [''m1''], \<lparr>kb_BudgetUSDMicros = 0, kb_BudgetUSDMicrosPerDay = 0, kb_TPM = 0, kb_RPM = 0,
        kb_ExpiresAt = NoText, kb_Owner = ''bob''\<rparr>)))) sampleKeys"

text \<open>A member of the team issues a key in the name of somebody else and gets one of their own; another team is refused.\<close>

theorem admin_writes_authorized_witness:
  "ay_Status (sampleReply ''research'') = 403
   \<and> (\<exists>a row. issuedRow a row sampleKeys (sampleReply ''ops'') \<and> teamCredential (Some sampleVerifier) sampleMapping ''aa.bb.cc'' (ai_Subject a) (kr_Team row)
        \<and> kr_Owner row = ai_Subject a)"
proof -
  have ch: "length (kd_keys (ay_Db (sampleReply ''ops''))) = 2" "length (kd_keys sampleKeys) = 1" "ay_Status (sampleReply ''research'') = 403"
    by code_simp+
  have b: "''aa.bb.cc'' = TrimPrefix ''Bearer aa.bb.cc'' ''Bearer ''" by code_simp
  have no: "\<not> adminCredential id [] (Some sampleVerifier) sampleMapping ''aa.bb.cc''"
    by (simp add: adminCredential_def sampleVerifier_def sampleMapping_def)
  have "kd_keys (ay_Db (sampleReply ''ops'')) \<noteq> kd_keys sampleKeys" using ch(1,2) by force
  then obtain a row where w: "issuedRow a row sampleKeys (sampleReply ''ops'') \<or> revokedRow a row sampleKeys (sampleReply ''ops'')"
    "teamCredential (Some sampleVerifier) sampleMapping ''aa.bb.cc'' (ai_Subject a) (kr_Team row)"
    "issuedRow a row sampleKeys (sampleReply ''ops'') \<longrightarrow> kr_Owner row = ai_Subject a"
    using admin_writes_authorized [OF sampleReply_def [of "''ops''"] b] no by blast
  have "\<not> revokedRow a row sampleKeys (sampleReply ''ops'')" using ch(1,2) by (auto simp: revokedRow_def)
  then show ?thesis using w ch(3) by blast
qed

end
