(* ===== verification/MaskBody.thy ===== *)
theory MaskBody
  imports RequestBudget
begin

text \<open>
  Masking the text of a request, \<^verbatim>\<open>internal/server/anthropicapi/mask.go\<close>, and for which teams it is
  on, \<^verbatim>\<open>internal/filter/filter.go\<close>. The filter itself is a plugin behind an interface, an argument: it
  returns the new text and the number of its substitutions.

  A body is handled as a JSON value. Decoding into a map keeps the last of several equal
  names; writing a map out again lists its names once, in order. \<^verbatim>\<open>null\<close> decodes into every Go
  type as its zero value. Redactions are counted without overflow: they are fewer than the
  bytes of the body.
\<close>

section \<open>Definitions\<close>

type_synonym request_filter = "string \<Rightarrow> string \<times> int"

record Masking =
  mk_Filter :: "request_filter option"
  mk_Global :: bool
  mk_Teams :: "(string, bool) mapping"

definition mask_Enabled :: "Masking option \<Rightarrow> string \<Rightarrow> bool" where
  "mask_Enabled m team =
     (case m of
        None \<Rightarrow> False
      | Some k \<Rightarrow> if mk_Filter k = None then False else mk_Global k \<or> Mapping.lookup (mk_Teams k) team = Some True)"

definition asMap :: "json \<Rightarrow> (string \<times> json) list option" where
  "asMap v = (case v of JObj kvs \<Rightarrow> Some kvs | JNull \<Rightarrow> Some [] | _ \<Rightarrow> None)"

definition asList :: "json \<Rightarrow> json list option" where
  "asList v = (case v of JArr vs \<Rightarrow> Some vs | JNull \<Rightarrow> Some [] | _ \<Rightarrow> None)"

definition asString :: "json \<Rightarrow> string option" where
  "asString v = (case v of JStr s \<Rightarrow> Some s | JNull \<Rightarrow> Some [] | _ \<Rightarrow> None)"

text \<open>Writing out a map, and a map after an assignment.\<close>

definition remarshal :: "(string \<times> json) list \<Rightarrow> json" where
  "remarshal kvs = JObj (map (\<lambda>k. (k, the (field kvs k))) (sorted_list_of_set (set (map fst kvs))))"

definition reassign :: "string \<Rightarrow> json \<Rightarrow> (string \<times> json) list \<Rightarrow> json" where
  "reassign k v kvs = remarshal (kvs @ [(k, v)])"

datatype mask_error = NotAnObject | BadMessages | BadMessage nat | BadContent | BadBlock nat

definition blockText :: "(string \<times> json) list \<Rightarrow> string option" where
  "blockText kvs =
     (let typ = (case field kvs ''type'' of None \<Rightarrow> [] | Some v \<Rightarrow> (case asString v of None \<Rightarrow> [] | Some s \<Rightarrow> s))
      in if typ \<noteq> ''text'' then None
         else (case field kvs ''text'' of None \<Rightarrow> None | Some v \<Rightarrow> asString v))"

definition maskBlock :: "request_filter \<Rightarrow> json \<Rightarrow> (string \<times> json) list \<Rightarrow> json \<times> int" where
  "maskBlock f b kvs =
     (case blockText kvs of
        None \<Rightarrow> (b, 0)
      | Some text \<Rightarrow> (case f text of (masked, n) \<Rightarrow> if n = 0 then (b, 0) else (reassign ''text'' (JStr masked) kvs, n)))"

fun maskBlocks :: "request_filter \<Rightarrow> nat \<Rightarrow> json list \<Rightarrow> mask_error + json list \<times> int" where
  "maskBlocks f i [] = Inr ([], 0)"
| "maskBlocks f i (b # bs) =
     (case asMap b of
        None \<Rightarrow> Inl (BadBlock i)
      | Some kvs \<Rightarrow>
          (case maskBlock f b kvs of (b', n) \<Rightarrow>
             case maskBlocks f (i + 1) bs of Inl e \<Rightarrow> Inl e | Inr (bs', m) \<Rightarrow> Inr (b' # bs', n + m)))"

definition maskContent :: "request_filter \<Rightarrow> json \<Rightarrow> mask_error + json \<times> int" where
  "maskContent f content =
     (case asString content of
        Some s \<Rightarrow> (case f s of (masked, n) \<Rightarrow> if n = 0 then Inr (content, 0) else Inr (JStr masked, n))
      | None \<Rightarrow>
          (case asList content of
             None \<Rightarrow> Inl BadContent
           | Some blocks \<Rightarrow>
               (case maskBlocks f 0 blocks of
                  Inl e \<Rightarrow> Inl e
                | Inr (blocks', n) \<Rightarrow> if n = 0 then Inr (content, 0) else Inr (JArr blocks', n))))"

fun maskMessages :: "request_filter \<Rightarrow> nat \<Rightarrow> json list \<Rightarrow> mask_error + json list \<times> int" where
  "maskMessages f i [] = Inr ([], 0)"
| "maskMessages f i (m # ms) =
     (case asMap m of
        None \<Rightarrow> Inl (BadMessage i)
      | Some kvs \<Rightarrow>
          (case (case field kvs ''content'' of
                   None \<Rightarrow> Inr (m, 0)
                 | Some content \<Rightarrow>
                     (case maskContent f content of
                        Inl e \<Rightarrow> Inl e
                      | Inr (masked, n) \<Rightarrow> if n > 0 then Inr (reassign ''content'' masked kvs, n) else Inr (m, 0))) of
             Inl e \<Rightarrow> Inl e
           | Inr (m', n) \<Rightarrow>
               (case maskMessages f (i + 1) ms of Inl e \<Rightarrow> Inl e | Inr (ms', k) \<Rightarrow> Inr (m' # ms', n + k))))"

definition maskJson :: "request_filter \<Rightarrow> json \<Rightarrow> mask_error + json \<times> int" where
  "maskJson f doc =
     (case asMap doc of
        None \<Rightarrow> Inl NotAnObject
      | Some kvs \<Rightarrow>
          (case field kvs ''messages'' of
             None \<Rightarrow> Inr (doc, 0)
           | Some v \<Rightarrow>
               (case asList v of
                  None \<Rightarrow> Inl BadMessages
                | Some msgs \<Rightarrow>
                    (case maskMessages f 0 msgs of
                       Inl e \<Rightarrow> Inl e
                     | Inr (msgs', n) \<Rightarrow> if n = 0 then Inr (doc, 0) else Inr (reassign ''messages'' (JArr msgs') kvs, n)))))"

text \<open>\<open>dec\<close> and \<open>enc\<close> are the JSON codec; an unchanged body keeps its bytes.\<close>

definition maskBody :: "(string \<Rightarrow> json option) \<Rightarrow> (json \<Rightarrow> string) \<Rightarrow> request_filter \<Rightarrow> string \<Rightarrow> mask_error + string \<times> int" where
  "maskBody dec enc f raw =
     (case dec raw of
        None \<Rightarrow> Inl NotAnObject
      | Some doc \<Rightarrow> (case maskJson f doc of Inl e \<Rightarrow> Inl e | Inr (doc', n) \<Rightarrow> Inr (if n = 0 then raw else enc doc', n)))"

section \<open>The text of a request\<close>

definition blockTexts :: "json \<Rightarrow> string list" where
  "blockTexts b = (case asMap b of None \<Rightarrow> [] | Some kvs \<Rightarrow> (case blockText kvs of None \<Rightarrow> [] | Some t \<Rightarrow> [t]))"

definition contentTexts :: "json \<Rightarrow> string list" where
  "contentTexts c =
     (case asString c of
        Some s \<Rightarrow> [s]
      | None \<Rightarrow> (case asList c of None \<Rightarrow> [] | Some bs \<Rightarrow> concat (map blockTexts bs)))"

definition fieldOf :: "json \<Rightarrow> string \<Rightarrow> json option" where
  "fieldOf v k = (case asMap v of None \<Rightarrow> None | Some kvs \<Rightarrow> field kvs k)"

definition messageTexts :: "json \<Rightarrow> string list" where
  "messageTexts m = (case fieldOf m ''content'' of None \<Rightarrow> [] | Some c \<Rightarrow> contentTexts c)"

definition messagesOf :: "json \<Rightarrow> json list" where
  "messagesOf doc = (case fieldOf doc ''messages'' of None \<Rightarrow> [] | Some v \<Rightarrow> (case asList v of None \<Rightarrow> [] | Some ms \<Rightarrow> ms))"

definition bodyTexts :: "json \<Rightarrow> string list" where
  "bodyTexts doc = concat (map messageTexts (messagesOf doc))"

text \<open>Two values that agree in every field but \<open>k\<close>, where \<open>R\<close> relates what they hold.\<close>

definition sameBut :: "string \<Rightarrow> (json \<Rightarrow> json \<Rightarrow> bool) \<Rightarrow> json \<Rightarrow> json \<Rightarrow> bool" where
  "sameBut k R v v' \<longleftrightarrow> (\<forall>x. x \<noteq> k \<longrightarrow> fieldOf v' x = fieldOf v x) \<and> rel_option R (fieldOf v k) (fieldOf v' k)"

definition blockKept :: "json \<Rightarrow> json \<Rightarrow> bool" where
  "blockKept b b' \<longleftrightarrow> sameBut ''text'' (\<lambda>_ _. True) b b' \<and> (blockTexts b = [] \<longrightarrow> b' = b)"

definition contentKept :: "json \<Rightarrow> json \<Rightarrow> bool" where
  "contentKept c c' \<longleftrightarrow>
     (case asString c of
        Some _ \<Rightarrow> asString c' \<noteq> None
      | None \<Rightarrow> asString c' = None \<and> (\<exists>bs bs'. asList c = Some bs \<and> asList c' = Some bs' \<and> list_all2 blockKept bs bs'))"

definition messageKept :: "json \<Rightarrow> json \<Rightarrow> bool" where
  "messageKept m m' \<longleftrightarrow> sameBut ''content'' contentKept m m'"

definition bodyKept :: "json \<Rightarrow> json \<Rightarrow> bool" where
  "bodyKept doc doc' \<longleftrightarrow>
     sameBut ''messages'' (\<lambda>v v'. \<exists>ms ms'. asList v = Some ms \<and> asList v' = Some ms' \<and> list_all2 messageKept ms ms') doc doc'"

section \<open>Maps\<close>

lemma as_simps [simp]:
  "asMap (JObj kvs) = Some kvs" "asList (JArr vs) = Some vs" "asString (JStr s) = Some s" "asString (JArr vs) = None"
  by (simp_all add: asMap_def asList_def asString_def)

lemma field_append: "field (kvs @ [(k, v)]) x = (if x = k then Some v else field kvs x)"
  by (simp add: field_def)

lemma field_keys: "field kvs k = None \<longleftrightarrow> k \<notin> set (map fst kvs)"
  by (simp add: field_def map_of_eq_None_iff)

lemma field_remarshal: "fieldOf (remarshal kvs) x = field kvs x"
proof -
  let ?ks = "sorted_list_of_set (set (map fst kvs))"
  have "map_of (rev (map (\<lambda>k. (k, the (field kvs k))) ?ks)) x = (if x \<in> set (map fst kvs) then Some (the (field kvs x)) else None)"
    unfolding rev_map by (simp add: map_of_map_restrict restrict_map_def del: set_map)
  also have "\<dots> = field kvs x" using field_keys [of kvs x] by (cases "field kvs x") auto
  finally show ?thesis by (simp add: fieldOf_def remarshal_def field_def)
qed

lemma field_reassign: "fieldOf (reassign k v kvs) x = (if x = k then Some v else field kvs x)"
  by (simp add: reassign_def field_remarshal field_append)

lemma fieldOf_map: "asMap v = Some kvs \<Longrightarrow> fieldOf v x = field kvs x"
  by (simp add: fieldOf_def)

lemma same_refl: "(\<And>x. fieldOf v k = Some x \<Longrightarrow> R x x) \<Longrightarrow> sameBut k R v v"
  by (cases "fieldOf v k") (auto simp: sameBut_def)

lemma same_reassign: "asMap v = Some kvs \<Longrightarrow> field kvs k = Some x \<Longrightarrow> R x y \<Longrightarrow> sameBut k R v (reassign k y kvs)"
  by (simp add: sameBut_def field_reassign fieldOf_map)

lemma reassign_map: "\<exists>kvs'. asMap (reassign k v kvs) = Some kvs' \<and> (\<forall>x. field kvs' x = (if x = k then Some v else field kvs x))"
  using field_reassign [of k v kvs] by (cases "reassign k v kvs") (auto simp: reassign_def remarshal_def fieldOf_def)

section \<open>Masking is complete\<close>

text \<open>The interface of a filter: a count of its substitutions, none of which means the text is as it was.\<close>

definition honestFilter :: "request_filter \<Rightarrow> bool" where
  "honestFilter f \<longleftrightarrow> (\<forall>t. 0 \<le> snd (f t) \<and> (snd (f t) = 0 \<longrightarrow> fst (f t) = t))"

lemma honest_nonneg: "honestFilter f \<Longrightarrow> 0 \<le> sum_list (map (\<lambda>t. snd (f t)) ts)"
  by (intro sum_list_nonneg) (auto simp: honestFilter_def)

lemma honest_id:
  assumes "honestFilter f" and "sum_list (map (\<lambda>t. snd (f t)) ts) = 0"
  shows "map (\<lambda>t. fst (f t)) ts = ts"
  using assms(2)
proof (induction ts)
  case (Cons t ts)
  have "0 \<le> snd (f t)" "0 \<le> sum_list (map (\<lambda>t. snd (f t)) ts)"
    using assms(1) honest_nonneg [OF assms(1)] by (auto simp: honestFilter_def)
  then have "snd (f t) = 0" "sum_list (map (\<lambda>t. snd (f t)) ts) = 0" using Cons.prems by simp_all
  then show ?case using Cons.IH assms(1) by (auto simp: honestFilter_def)
qed simp

text \<open>Masked: the texts \<open>ts\<close> became \<open>ts'\<close> with \<open>n\<close> substitutions.\<close>

definition maskedTo :: "request_filter \<Rightarrow> string list \<Rightarrow> string list \<Rightarrow> int \<Rightarrow> bool" where
  "maskedTo f ts ts' n \<longleftrightarrow> ts' = map (\<lambda>t. fst (f t)) ts \<and> n = sum_list (map (\<lambda>t. snd (f t)) ts)"

lemma masked_append: "maskedTo f as as' n \<Longrightarrow> maskedTo f bs bs' m \<Longrightarrow> maskedTo f (as @ bs) (as' @ bs') (n + m)"
  by (simp add: maskedTo_def)

lemma masked_unchanged: "honestFilter f \<Longrightarrow> maskedTo f ts ts' 0 \<Longrightarrow> ts' = ts"
  by (metis maskedTo_def honest_id)

lemma masked_zero: "honestFilter f \<Longrightarrow> maskedTo f ts ts' 0 \<Longrightarrow> maskedTo f ts ts 0"
  using masked_unchanged by metis

lemma masked_nonneg: "honestFilter f \<Longrightarrow> maskedTo f ts ts' n \<Longrightarrow> 0 \<le> n"
  by (simp add: maskedTo_def honest_nonneg)

lemma blockText_same:
  assumes "blockText kvs = Some t" and "\<forall>x. field kvs' x = (if x = ''text'' then Some (JStr t') else field kvs x)"
  shows "blockText kvs' = Some t'"
  using assms by (auto simp: blockText_def Let_def split: if_splits)

lemma mask_block:
  assumes "honestFilter f" and "asMap b = Some kvs" and "maskBlock f b kvs = (b', n)"
  shows "maskedTo f (blockTexts b) (blockTexts b') n \<and> blockKept b b'"
proof (cases "blockText kvs")
  case None
  then show ?thesis using assms by (auto simp: maskBlock_def blockTexts_def maskedTo_def blockKept_def intro: same_refl)
next
  case (Some t)
  obtain masked k where k: "f t = (masked, k)" by fastforce
  show ?thesis
  proof (cases "k = 0")
    case True
    then have "masked = t" using assms(1) k by (auto simp: honestFilter_def dest: spec [of _ t])
    then show ?thesis using assms Some k True
      by (auto simp: maskBlock_def blockTexts_def maskedTo_def blockKept_def intro: same_refl)
  next
    case False
    then have b': "b' = reassign ''text'' (JStr masked) kvs" "n = k" using assms Some k by (auto simp: maskBlock_def)
    obtain kvs' where kvs': "asMap b' = Some kvs'" "\<forall>x. field kvs' x = (if x = ''text'' then Some (JStr masked) else field kvs x)"
      using reassign_map [of "''text''" "JStr masked" kvs] by (auto simp: b')
    from blockText_same [OF Some kvs'(2)] have "blockTexts b' = [masked]" by (simp add: blockTexts_def kvs'(1))
    moreover obtain v where "field kvs ''text'' = Some v" using Some by (auto simp: blockText_def Let_def split: if_splits option.splits)
    ultimately show ?thesis using assms(2) Some k b'
      by (auto simp: blockTexts_def maskedTo_def blockKept_def intro: same_reassign)
  qed
qed

lemma mask_blocks:
  assumes "honestFilter f" and "maskBlocks f i bs = Inr (bs', n)"
  shows "maskedTo f (concat (map blockTexts bs)) (concat (map blockTexts bs')) n \<and> list_all2 blockKept bs bs'"
  using assms(2)
proof (induction bs arbitrary: i bs' n)
  case (Cons b bs)
  from Cons.prems obtain kvs b' k bs2 m where parts: "asMap b = Some kvs" "maskBlock f b kvs = (b', k)" "maskBlocks f (i + 1) bs = Inr (bs2, m)"
    "bs' = b' # bs2" "n = k + m" by (auto split: option.splits prod.splits sum.splits)
  from mask_block [OF assms(1) parts(1,2)] Cons.IH [OF parts(3)] show ?case
    by (auto simp: parts(4,5) intro: masked_append)
qed (simp add: maskedTo_def)

lemma block_refl: "blockKept b b"
  by (auto simp: blockKept_def intro: same_refl)

lemma content_refl: "asString c \<noteq> None \<or> asList c \<noteq> None \<Longrightarrow> contentKept c c"
  using list_all2_refl [of blockKept, OF block_refl] by (auto simp: contentKept_def split: option.splits)

lemma mask_content:
  assumes "honestFilter f" and "maskContent f c = Inr (c', n)"
  shows "maskedTo f (contentTexts c) (contentTexts c') n \<and> contentKept c c'"
proof (cases "asString c")
  case (Some s)
  obtain masked k where k: "f s = (masked, k)" by fastforce
  have "k = 0 \<Longrightarrow> masked = s" using assms(1) k by (auto simp: honestFilter_def dest: spec [of _ s])
  then show ?thesis using assms(2) Some k
    by (auto simp: maskContent_def contentTexts_def maskedTo_def contentKept_def split: if_splits)
next
  case None
  then obtain bs bs' where bs: "asList c = Some bs" "maskBlocks f 0 bs = Inr (bs', n)" "c' = (if n = 0 then c else JArr bs')"
    using assms(2) by (auto simp: maskContent_def split: option.splits sum.splits if_splits)
  note m = mask_blocks [OF assms(1) bs(2)]
  show ?thesis
  proof (cases "n = 0")
    case True
    then show ?thesis using m None bs masked_zero [OF assms(1)] content_refl [of c]
      by (auto simp: contentTexts_def)
  qed (use m None bs in \<open>auto simp: contentTexts_def contentKept_def\<close>)
qed

lemma mask_messages:
  assumes "honestFilter f" and "maskMessages f i ms = Inr (ms', n)"
  shows "maskedTo f (concat (map messageTexts ms)) (concat (map messageTexts ms')) n \<and> list_all2 messageKept ms ms'"
  using assms(2)
proof (induction ms arbitrary: i ms' n)
  case (Cons m ms)
  from Cons.prems obtain kvs m' k ms2 j where parts: "asMap m = Some kvs" "maskMessages f (i + 1) ms = Inr (ms2, j)" "ms' = m' # ms2" "n = k + j"
    and own: "(case field kvs ''content'' of
                   None \<Rightarrow> Inr (m, 0)
                 | Some content \<Rightarrow>
                     (case maskContent f content of
                        Inl e \<Rightarrow> Inl e
                      | Inr (masked, n) \<Rightarrow> if n > 0 then Inr (reassign ''content'' masked kvs, n) else Inr (m, 0))) = Inr (m', k)"
    by (auto split: option.splits prod.splits sum.splits)
  have "maskedTo f (messageTexts m) (messageTexts m') k \<and> messageKept m m'"
  proof (cases "field kvs ''content''")
    case None
    then show ?thesis using own parts(1)
      by (auto simp: messageTexts_def fieldOf_map maskedTo_def messageKept_def intro: same_refl)
  next
    case (Some c)
    then obtain c' l where c': "maskContent f c = Inr (c', l)" using own by (auto split: sum.splits)
    note mc = mask_content [OF assms(1) c']
    show ?thesis
    proof (cases "l > 0")
      case True
      then show ?thesis using own Some c' mc parts(1)
        by (auto simp: messageTexts_def fieldOf_map field_reassign messageKept_def intro: same_reassign)
    next
      case False
      then have "l = 0" using masked_nonneg [OF assms(1)] mc by force
      then have "c' = c" using c' by (auto simp: maskContent_def split: option.splits sum.splits prod.splits if_splits)
      then show ?thesis using own Some c' mc parts(1) False \<open>l = 0\<close>
        by (auto simp: messageTexts_def fieldOf_map messageKept_def intro: same_refl)
    qed
  qed
  with Cons.IH [OF parts(2)] show ?case by (auto simp: parts(3,4) intro: masked_append)
qed (simp add: maskedTo_def)

lemma messages_shaped:
  assumes "m \<in> set ms" and "maskMessages f i ms = Inr (ms', n)"
  shows "\<exists>kvs. asMap m = Some kvs \<and> (\<forall>c. field kvs ''content'' = Some c \<longrightarrow> asString c \<noteq> None \<or> asList c \<noteq> None)"
  using assms
proof (induction ms arbitrary: i ms' n)
  case (Cons a ms)
  then show ?case
    by (auto simp: maskContent_def split: option.splits prod.splits sum.splits if_splits)
qed simp

lemma json_masked:
  assumes "honestFilter f" and "maskJson f doc = Inr (doc', n)"
  shows "bodyTexts doc' = map (\<lambda>t. fst (f t)) (bodyTexts doc) \<and> n = sum_list (map (\<lambda>t. snd (f t)) (bodyTexts doc)) \<and> bodyKept doc doc'"
proof -
  obtain kvs where kvs: "asMap doc = Some kvs" using assms(2) by (auto simp: maskJson_def split: option.splits)
  show ?thesis
  proof (cases "field kvs ''messages''")
    case None
    then show ?thesis using assms(2) kvs
      by (auto simp: maskJson_def bodyTexts_def messagesOf_def fieldOf_map bodyKept_def intro: same_refl)
  next
    case (Some v)
    then obtain ms ms' where ms: "asList v = Some ms" "maskMessages f 0 ms = Inr (ms', n)"
      "doc' = (if n = 0 then doc else reassign ''messages'' (JArr ms') kvs)"
      using assms(2) kvs by (auto simp: maskJson_def split: option.splits sum.splits if_splits)
    note m = mask_messages [OF assms(1) ms(2)]
    have old: "bodyTexts doc = concat (map messageTexts ms)" using Some ms(1) by (simp add: bodyTexts_def messagesOf_def fieldOf_map [OF kvs])
    show ?thesis
    proof (cases "n = 0")
      case True
      have "messageKept m m" if "m \<in> set ms" for m
      proof -
        have "\<exists>kvs. asMap m = Some kvs \<and> (\<forall>c. field kvs ''content'' = Some c \<longrightarrow> asString c \<noteq> None \<or> asList c \<noteq> None)"
          using that ms(2) by (rule messages_shaped)
        then show ?thesis by (auto simp: messageKept_def fieldOf_map intro!: same_refl content_refl)
      qed
      then show ?thesis using True ms m Some masked_unchanged [OF assms(1)] kvs
        by (auto simp: old maskedTo_def bodyKept_def fieldOf_map intro!: same_refl list.rel_refl_strong)
    next
      case False
      then have "bodyTexts doc' = concat (map messageTexts ms')"
        by (simp add: bodyTexts_def messagesOf_def field_reassign ms(3))
      then show ?thesis using m Some ms False kvs
        by (auto simp: old maskedTo_def bodyKept_def intro!: same_reassign)
    qed
  qed
qed

text \<open>
  C24: masking covers exactly the text it is for. With a filter that reports its substitutions,
  a body that comes out has in the place of every text of its messages the filtered text, and
  the count is that of the filter; nothing else changes: all other fields of the body, of
  each message and of each text block are those of the request, and a block without text
  (tool calls, tool results, thinking) is passed on as it was.
\<close>

theorem masking_covers_text:
  assumes "honestFilter f" and "maskJson f doc = Inr (doc', n)"
  shows "bodyTexts doc' = map (\<lambda>t. fst (f t)) (bodyTexts doc) \<and> n = sum_list (map (\<lambda>t. snd (f t)) (bodyTexts doc)) \<and> bodyKept doc doc'"
  by (rule json_masked [OF assms])

definition nameFilter :: request_filter where
  "nameFilter t = (if t = ''bob'' then (''[name]'', 1) else (t, 0))"

definition chatBody :: "string \<Rightarrow> json" where
  "chatBody who = JObj [(''system'', JStr ''bob''), (''messages'', JArr [JObj [(''role'', JStr ''user''), (''content'', JArr
     [JObj [(''type'', JStr ''text''), (''text'', JStr who)], JObj [(''type'', JStr ''tool_result''), (''text'', JStr ''bob'')]])]])]"

theorem masking_covers_text_witness:
  "\<exists>masked. maskJson nameFilter (chatBody ''bob'') = Inr (masked, 1) \<and> bodyTexts masked = [''[name]''] \<and> bodyKept (chatBody ''bob'') masked"
proof -
  have "honestFilter nameFilter" by (simp add: honestFilter_def nameFilter_def)
  moreover have "(case maskJson nameFilter (chatBody ''bob'') of Inl _ \<Rightarrow> False | Inr (_, n) \<Rightarrow> n = 1)" by code_simp
  then obtain masked where m: "maskJson nameFilter (chatBody ''bob'') = Inr (masked, 1)" by (auto split: sum.splits)
  moreover have "map (\<lambda>t. fst (nameFilter t)) (bodyTexts (chatBody ''bob'')) = [''[name]'']" by code_simp
  ultimately show ?thesis using masking_covers_text [OF _ m] by auto
qed

end
