(* ===== verification/Messages.thy ===== *)
theory Messages
  imports MaskBody
begin

text \<open>
  The life of a request on the Anthropic ingress, \<^verbatim>\<open>internal/server/anthropicapi/messages.go\<close>: naming the
  model, authorization, routing, masking, admission, then the chain of targets with
  fallback, settlement and the audit records; and the folding of streamed usage,
  \<^verbatim>\<open>pkg/schema/usage.go\<close>.

  Everything a request changes is one record, \<open>Exchange\<close>: the response being written, the
  router with its breakers, the affinity store, the stores of the governor, the state of the budget
  authority, the audit records handed to the writer, the usage handed to the collector, and
  as a trace the calls made to providers. What comes from outside is another, \<open>Inbound\<close>: the body, the
  principal, clocks, the generation of the topology each load returns, and the answers of
  the providers, for the \<open>i\<close>-th target of the chain. Metrics and traces are not modelled.
  Header names are canonical, and status codes are those of HTTP.
\<close>

section \<open>Usage\<close>

definition newer :: "'a option \<Rightarrow> 'a option \<Rightarrow> 'a option" where
  "newer old new = (case new of None \<Rightarrow> old | Some _ \<Rightarrow> new)"

definition mergeCacheCreation :: "SchemaCacheCreation option \<Rightarrow> SchemaCacheCreation option \<Rightarrow> SchemaCacheCreation option" where
  "mergeCacheCreation acc nxt =
     (case (acc, nxt) of
        (_, None) \<Rightarrow> acc
      | (None, Some n) \<Rightarrow> Some n
      | (Some a, Some n) \<Rightarrow>
          Some (a\<lparr>scc_Ephemeral5mInputTokens := newer (scc_Ephemeral5mInputTokens a) (scc_Ephemeral5mInputTokens n),
                  scc_Ephemeral1hInputTokens := newer (scc_Ephemeral1hInputTokens a) (scc_Ephemeral1hInputTokens n)\<rparr>))"

definition MergeUsage :: "SchemaUsage option \<Rightarrow> SchemaUsage option \<Rightarrow> SchemaUsage option" where
  "MergeUsage acc nxt =
     (case (acc, nxt) of
        (_, None) \<Rightarrow> acc
      | (None, Some n) \<Rightarrow> Some (n\<lparr>su_CacheCreation := mergeCacheCreation None (su_CacheCreation n)\<rparr>)
      | (Some a, Some n) \<Rightarrow>
          Some (a\<lparr>su_AccountingUncertain := su_AccountingUncertain a \<or> su_AccountingUncertain n,
                  su_InputTokens := newer (su_InputTokens a) (su_InputTokens n),
                  su_OutputTokens := newer (su_OutputTokens a) (su_OutputTokens n),
                  su_CacheReadInputTokens := newer (su_CacheReadInputTokens a) (su_CacheReadInputTokens n),
                  su_CacheCreationInputTokens := newer (su_CacheCreationInputTokens a) (su_CacheCreationInputTokens n),
                  su_CacheCreation := mergeCacheCreation (su_CacheCreation a) (su_CacheCreation n)\<rparr>))"

definition CacheWriteTiers :: "SchemaUsage \<Rightarrow> int \<times> int" where
  "CacheWriteTiers u =
     (let flat = (orZero (su_CacheCreationInputTokens u), 0)
      in case su_CacheCreation u of
           None \<Rightarrow> flat
         | Some cc \<Rightarrow>
             (let w5 = orZero (scc_Ephemeral5mInputTokens cc); w1 = orZero (scc_Ephemeral1hInputTokens cc)
              in if w5 \<noteq> 0 \<or> w1 \<noteq> 0 then (w5, w1) else flat))"

definition billedUsage :: "SchemaUsage \<Rightarrow> Usage" where
  "billedUsage u =
     (case CacheWriteTiers u of (w5, w1) \<Rightarrow>
        \<lparr>u_Input = orZero (su_InputTokens u), u_Output = orZero (su_OutputTokens u),
         u_CacheRead = orZero (su_CacheReadInputTokens u), u_CacheWrite5m = w5, u_CacheWrite1h = w1\<rparr>)"

definition usageRef :: "SchemaUsage option \<Rightarrow> AuditUsageRef option" where
  "usageRef us =
     map_option (\<lambda>u. case CacheWriteTiers u of (w5, w1) \<Rightarrow>
        \<lparr>aus_InputTokens = orZero (su_InputTokens u), aus_OutputTokens = orZero (su_OutputTokens u),
         aus_CacheReadInputTokens = orZero (su_CacheReadInputTokens u), aus_CacheCreationInputTokens = add64 w5 w1,
         aus_Estimated = False, aus_CacheCreation5mInputTokens = w5, aus_CacheCreation1hInputTokens = w1\<rparr>) us"

definition estimateTokens :: "string \<Rightarrow> int" where
  "estimateTokens raw = (let n = int (length raw div 4) in if n < 1 then 1 else n)"

section \<open>Providers\<close>

text \<open>
  Of a parsed request only model and stream are read here, the other fields by the providers. So
  are the headers of the request, which every call carries along; they are left out.
\<close>

record ChatRequest =
  cr_Model :: string
  cr_Stream :: "bool option"
  cr_Fields :: "(string \<times> json) list"

definition zeroChat :: ChatRequest where
  "zeroChat = \<lparr>cr_Model = [], cr_Stream = None, cr_Fields = []\<rparr>"

record ProxyRequest =
  pr_Model :: string
  pr_Upstream :: string
  pr_Parsed :: ChatRequest
  pr_RawBody :: string
  pr_Stream :: bool
  pr_IngressProtocol :: string
  pr_GuardrailID :: string
  pr_GuardrailVersion :: string

text \<open>An error is the answer of the upstream or anything else.\<close>

datatype call_error = UpstreamError int string "(string \<times> string) list" | OtherError

definition HTTPStatus :: "int \<Rightarrow> int" where
  "HTTPStatus code = (if code < 100 \<or> code > 599 then 502 else code)"

record ProxyResponse =
  ps_StatusCode :: int
  ps_Headers :: "(string \<times> string) list"
  ps_RawBody :: string
  ps_Parsed :: "SchemaUsage option option"

record StreamChunk =
  sc_Type :: string
  sc_MessageUsage :: "SchemaUsage option"
  sc_Usage :: "SchemaUsage option"

record StreamEvent =
  ev_Raw :: string
  ev_Chunk :: "StreamChunk option"

section \<open>The handler, what comes in, what it changes\<close>

record MessagesHandler =
  mh_aud :: bool
  mh_gov :: "Governor option"
  mh_mask :: "Masking option"
  mh_teamPolicy :: "(string \<Rightarrow> TeamRecord option) option"
  mh_guardrail :: "TeamRecord \<Rightarrow> string \<times> string"
  mh_bodies :: "(string \<Rightarrow> string \<Rightarrow> string \<Rightarrow> string option \<Rightarrow> string) option"
  mh_usage :: bool

text \<open>
  \<open>ib_load\<close> is the topology of the \<open>n\<close>-th load of the request, \<open>ib_budget i k\<close> the authority as it answers
  the \<open>k\<close>-th call for the \<open>i\<close>-th target. Decoding a body keeps the fields of the given value it does
  not mention. The guardrail fields of a team record are read by \<open>mh_guardrail\<close>.
\<close>

record 'w Inbound =
  ib_body :: "string option"
  ib_parse :: "ChatRequest \<Rightarrow> string \<Rightarrow> ChatRequest option"
  ib_decode :: "string \<Rightarrow> json option"
  ib_encode :: "json \<Rightarrow> string"
  ib_principal :: "Principal option"
  ib_sessionID :: string
  ib_load :: "nat \<Rightarrow> LiveState"
  ib_clkChain :: "nat \<Rightarrow> gotime"
  ib_route :: RouteEnv
  ib_other :: "affinityStore \<Rightarrow> affinityStore"
  ib_redactorWith :: "request_filter \<Rightarrow> redactor"
  ib_clkCheck :: clock
  ib_clkSettle :: clock
  ib_now :: "nat \<Rightarrow> gotime"
  ib_nowSuccess :: gotime
  ib_cancelled :: bool
  ib_flusher :: bool
  ib_id :: "nat \<Rightarrow> string"
  ib_ts :: "nat \<Rightarrow> string"
  ib_traceID :: string
  ib_budget :: "nat \<Rightarrow> nat \<Rightarrow> 'w BudgetGovernor"
  ib_complete :: "nat \<Rightarrow> ProxyRequest \<Rightarrow> call_error + ProxyResponse"
  ib_stream :: "nat \<Rightarrow> ProxyRequest \<Rightarrow> call_error + (call_error + StreamEvent) list"

record HttpResponse =
  hr_Header :: "(string \<times> string) list"
  hr_Status :: "int option"
  hr_Body :: string

record 'w Exchange =
  xc_response :: HttpResponse
  xc_router :: Router
  xc_affinity :: "affinityStore option"
  xc_stores :: Stores
  xc_world :: 'w
  xc_attempt :: "budgetAttempt option"
  xc_token :: "AffinityToken option"
  xc_audit :: "AuditRecord list"
  xc_usage :: "(string \<times> string \<times> string \<times> Usage \<times> int) list"
  xc_notes :: "notification list"
  xc_sent :: "(ChainTarget \<times> ProxyRequest) list"

text \<open>What the context of a request carries for the records.\<close>

record RequestContext =
  rx_principal :: Principal
  rx_from :: string
  rx_routing :: "AuditRoutingRef option"

section \<open>Writing the response\<close>

definition setHeader :: "string \<Rightarrow> string \<Rightarrow> 'w Exchange \<Rightarrow> 'w Exchange" where
  "setHeader k v x =
     x\<lparr>xc_response := (xc_response x)\<lparr>hr_Header := filter (\<lambda>h. fst h \<noteq> k) (hr_Header (xc_response x)) @ [(k, v)]\<rparr>\<rparr>"

definition copyUpstreamHeaders :: "(string \<times> string) list \<Rightarrow> 'w Exchange \<Rightarrow> 'w Exchange" where
  "copyUpstreamHeaders src x =
     x\<lparr>xc_response := (xc_response x)\<lparr>hr_Header := hr_Header (xc_response x)
        @ filter (\<lambda>h. fst h \<notin> {''Content-Length'', ''Transfer-Encoding'', ''Connection''}) src\<rparr>\<rparr>"

definition defaultType :: "'w Exchange \<Rightarrow> 'w Exchange" where
  "defaultType x =
     (case map_of (hr_Header (xc_response x)) ''Content-Type'' of
        None \<Rightarrow> setHeader ''Content-Type'' ''application/json'' x
      | Some v \<Rightarrow> if v = [] then setHeader ''Content-Type'' ''application/json'' x else x)"

text \<open>The first status counts; a later one is ignored by the server.\<close>

definition writeHeader :: "int \<Rightarrow> 'w Exchange \<Rightarrow> 'w Exchange" where
  "writeHeader code x =
     x\<lparr>xc_response := (xc_response x)\<lparr>hr_Status := (case hr_Status (xc_response x) of None \<Rightarrow> Some code | Some c \<Rightarrow> Some c)\<rparr>\<rparr>"

definition writeBytes :: "string \<Rightarrow> 'w Exchange \<Rightarrow> 'w Exchange" where
  "writeBytes bs x = x\<lparr>xc_response := (xc_response x)\<lparr>hr_Body := hr_Body (xc_response x) @ bs\<rparr>\<rparr>"

definition errorBody :: "string \<Rightarrow> string \<Rightarrow> json" where
  "errorBody errType msg =
     JObj [(''error'', JObj [(''message'', JStr msg), (''type'', JStr errType)]), (''type'', JStr ''error'')]"

definition writeErr :: "'w Inbound \<Rightarrow> int \<Rightarrow> string \<Rightarrow> string \<Rightarrow> 'w Exchange \<Rightarrow> 'w Exchange" where
  "writeErr e code errType msg x =
     writeBytes (ib_encode e (errorBody errType msg) @ [newline]) (writeHeader code (setHeader ''Content-Type'' ''application/json'' x))"

definition streamErrorEvent :: string where
  "streamErrorEvent =
     ''event: error'' @ [newline] @ ''data: {\"type\":\"error\",\"error\":{\"type\":\"api_error\",\"message\":\"upstream stream interrupted\"}}'' @ [newline, newline]"

section \<open>Audit records\<close>

definition requestRecord ::
  "'w Inbound \<Rightarrow> string \<Rightarrow> RequestContext \<Rightarrow> string \<Rightarrow> string \<Rightarrow> bool \<Rightarrow> AuditOutcomeRef option \<Rightarrow> 'w Exchange \<Rightarrow> AuditRecord" where
  "requestRecord e event c model upstream masked outcome x =
     \<lparr>ar_SchemaVersion = 1, ar_Event = event, ar_ID = ib_id e (length (xc_audit x)), ar_TS = ib_ts e (length (xc_audit x)), ar_Instance = [],
      ar_Principal = \<lparr>apr_KeyID = pn_KeyID (rx_principal c), apr_Team = pn_Team (rx_principal c), apr_User = None, apr_AuthMethod = None\<rparr>,
      ar_Request = \<lparr>arq_Ingress = ''anthropic'', arq_ModelRequested = model, arq_ModelResolved = upstream, arq_Provider = [],
        arq_ProviderAPI = [], arq_Stream = False, arq_PIIMasked = masked, arq_ModelSubstitutedFrom = rx_from c, arq_Routing = rx_routing c\<rparr>,
      ar_Outcome = outcome, ar_Usage = None, ar_Cost = None, ar_Latency = None,
      ar_TraceID = (if ib_traceID e \<noteq> [] then Some (ib_traceID e) else None), ar_PrevHash = [], ar_BodyRef = None, ar_RecordRef = None,
      ar_GuardrailID = None, ar_GuardrailVersion = None\<rparr>"

definition outcomeRef :: "int \<Rightarrow> string option \<Rightarrow> AuditOutcomeRef" where
  "outcomeRef code err = \<lparr>ao_Status = code, ao_FallbackUsed = False, ao_FallbackChain = [], ao_Partial = False, ao_Error = err\<rparr>"

definition appendRecord :: "MessagesHandler \<Rightarrow> AuditRecord \<Rightarrow> 'w Exchange \<Rightarrow> 'w Exchange" where
  "appendRecord h rec x = (if mh_aud h then x\<lparr>xc_audit := xc_audit x @ [rec]\<rparr> else x)"

definition msg_audit ::
  "MessagesHandler \<Rightarrow> 'w Inbound \<Rightarrow> RequestContext \<Rightarrow> string \<Rightarrow> string \<Rightarrow> AuditOutcomeRef option \<Rightarrow> bool \<Rightarrow> 'w Exchange \<Rightarrow> 'w Exchange" where
  "msg_audit h e c model upstream outcome masked x =
     appendRecord h (requestRecord e ''request_started'' c model upstream masked outcome x) x"

definition optional :: "string \<Rightarrow> string option" where
  "optional s = (if s \<noteq> [] then Some s else None)"

definition auditCompleted ::
  "MessagesHandler \<Rightarrow> 'w Inbound \<Rightarrow> RequestContext \<Rightarrow> ProxyRequest \<Rightarrow> int \<Rightarrow> AuditUsageRef option \<Rightarrow> AuditCostRef option \<Rightarrow> string
   \<Rightarrow> 'w Exchange \<Rightarrow> 'w Exchange" where
  "auditCompleted h e c pr code usage cost bodyRef x =
     appendRecord h ((requestRecord e ''request_completed'' c (pr_Model pr) (pr_Upstream pr) False (Some (outcomeRef code None)) x)
       \<lparr>ar_Usage := usage, ar_Cost := cost, ar_BodyRef := optional bodyRef,
        ar_GuardrailID := optional (pr_GuardrailID pr), ar_GuardrailVersion := optional (pr_GuardrailVersion pr)\<rparr>) x"

definition auditCompletedPartial ::
  "MessagesHandler \<Rightarrow> 'w Inbound \<Rightarrow> RequestContext \<Rightarrow> ProxyRequest \<Rightarrow> AuditUsageRef option \<Rightarrow> AuditCostRef option \<Rightarrow> 'w Exchange \<Rightarrow> 'w Exchange" where
  "auditCompletedPartial h e c pr usage cost x =
     appendRecord h ((requestRecord e ''request_completed'' c (pr_Model pr) (pr_Upstream pr) False (Some ((outcomeRef 200 None)\<lparr>ao_Partial := True\<rparr>)) x)
       \<lparr>ar_Usage := usage, ar_Cost := cost\<rparr>) x"

section \<open>Settlement\<close>

definition keyPolicyOf :: "Principal \<Rightarrow> KeyPolicy" where
  "keyPolicyOf p = \<lparr>kp_RatePerMin = pn_RPM p, kp_TokensPerMinute = pn_TPM p, kp_BudgetMicrosPerMonth = pn_BudgetUSDMicros p,
     kp_BudgetMicrosPerDay = pn_BudgetUSDMicrosPerDay p\<rparr>"

definition msg_settle ::
  "MessagesHandler \<Rightarrow> 'w Inbound \<Rightarrow> Principal \<Rightarrow> ChainTarget \<Rightarrow> SchemaUsage option \<Rightarrow> Table option \<Rightarrow> int \<Rightarrow> 'w Exchange
   \<Rightarrow> 'w Exchange \<times> AuditCostRef option" where
  "msg_settle h e p ct usage table estimated x =
     (case (mh_gov h, usage) of
        (Some g, Some u) \<Rightarrow>
          (case Settle (ib_clkSettle e) g (subjectOf p) (keyPolicyOf p) (ct_ProviderName ct) (ct_Upstream ct) (billedUsage u) table estimated (xc_stores x) of
             (stores, notes, cost, missing) \<Rightarrow>
               (x\<lparr>xc_stores := stores, xc_notes := xc_notes x @ notes,
                  xc_usage := xc_usage x @ (if mh_usage h then [(pn_Team p, pn_Owner p, ct_Upstream ct, billedUsage u, cost)] else [])\<rparr>,
                Some \<lparr>aco_AmountUSDMicros = cost, aco_PricingMissing = missing, aco_PricingVersion = PricingVersionOf table\<rparr>))
      | _ \<Rightarrow> (x, None))"

text \<open>The budget attempt in the context of a call, if the authority made a reservation for it.\<close>

definition onAttempt :: "('w callSettling \<Rightarrow> 'w callSettling) \<Rightarrow> 'w Exchange \<Rightarrow> 'w Exchange" where
  "onAttempt f x =
     (case xc_attempt x of
        None \<Rightarrow> x
      | Some a \<Rightarrow>
          (let s = f \<lparr>se_attempt = a, se_world = xc_world x, se_failed = False, se_notes = []\<rparr>
           in x\<lparr>xc_attempt := Some (se_attempt s), xc_world := se_world s, xc_notes := xc_notes x @ se_notes s\<rparr>))"

definition msg_record :: "gotime \<Rightarrow> ChainTarget \<Rightarrow> bool \<Rightarrow> 'w Exchange \<Rightarrow> 'w Exchange" where
  "msg_record now ct ok x = x\<lparr>xc_router := RecordResult now (ct_Identity ct) ok (xc_router x)\<rparr>"

text \<open>\<^verbatim>\<open>requestpolicy.RecordSuccess\<close>.\<close>

definition affinitySuccess :: "'w Inbound \<Rightarrow> ChainTarget \<Rightarrow> 'w Exchange \<Rightarrow> 'w Exchange" where
  "affinitySuccess e ct x =
     (if ib_cancelled e \<or> xc_token x = None then x
      else (case RecordAffinitySuccess (ib_nowSuccess e) (xc_token x) ct (xc_affinity x) of
              (store, token) \<Rightarrow> x\<lparr>xc_affinity := store, xc_token := token\<rparr>))"

section \<open>One target\<close>

definition containsAt :: "string \<Rightarrow> string \<Rightarrow> bool" where
  "containsAt pat s \<longleftrightarrow> list_ex (\<lambda>i. take (length pat) (drop i s) = pat) [0..<length s + 1]"

definition isModelNotFound :: "int \<Rightarrow> string \<Rightarrow> bool" where
  "isModelNotFound code body \<longleftrightarrow> code = 404 \<or> code = 400 \<and> containsAt ''ValidationException'' body"

text \<open>The last target failed before anything was written: its own error, or a generic one.\<close>

definition failTarget ::
  "MessagesHandler \<Rightarrow> 'w Inbound \<Rightarrow> RequestContext \<Rightarrow> ProxyRequest \<Rightarrow> string \<Rightarrow> call_error \<Rightarrow> 'w Exchange \<Rightarrow> 'w Exchange" where
  "failTarget h e c pr msg err x =
     (case err of
        UpstreamError code body hdr \<Rightarrow>
          auditCompleted h e c pr (HTTPStatus code) None None []
            (writeBytes body (writeHeader (HTTPStatus code) (defaultType (copyUpstreamHeaders hdr x))))
      | OtherError \<Rightarrow> auditCompleted h e c pr 502 None None [] (writeErr e 502 ''api_error'' msg x))"

definition retriableStatus :: "bool \<Rightarrow> ProxyResponse \<Rightarrow> bool" where
  "retriableStatus crossModelNext resp \<longleftrightarrow>
     ps_StatusCode resp \<ge> 500 \<or> ps_StatusCode resp = 429 \<or> crossModelNext \<and> isModelNotFound (ps_StatusCode resp) (ps_RawBody resp)"

definition is2xx :: "int \<Rightarrow> bool" where
  "is2xx code \<longleftrightarrow> 200 \<le> code \<and> code < 300"

text \<open>The answer of the upstream goes to the client as it is, then it is accounted for.\<close>

definition teeResponse :: "'w Inbound \<Rightarrow> nat \<Rightarrow> ChainTarget \<Rightarrow> ProxyResponse \<Rightarrow> 'w Exchange \<Rightarrow> 'w Exchange" where
  "teeResponse e i ct resp x =
     (let code = ps_StatusCode resp;
          y = writeBytes (ps_RawBody resp) (writeHeader code (defaultType (copyUpstreamHeaders (ps_Headers resp) x)))
      in if code < 400 then
           (let z = msg_record (ib_now e i) ct True y
            in if is2xx code \<and> ps_Parsed resp \<noteq> None \<and> ps_Parsed resp \<noteq> Some None then affinitySuccess e ct z else z)
         else y)"

definition settleResponse ::
  "MessagesHandler \<Rightarrow> 'w Inbound \<Rightarrow> nat \<Rightarrow> RequestContext \<Rightarrow> ChainTarget \<Rightarrow> ProxyRequest \<Rightarrow> Table option \<Rightarrow> ProxyResponse \<Rightarrow> 'w Exchange
   \<Rightarrow> 'w Exchange \<times> AuditUsageRef option \<times> AuditCostRef option" where
  "settleResponse h e i c ct pr table resp x =
     (case ps_Parsed resp of
        None \<Rightarrow> (x, None, None)
      | Some us \<Rightarrow>
          (case msg_settle h e (rx_principal c) ct us table (estimateTokens (pr_RawBody pr)) x of
             (y, cost) \<Rightarrow> (onAttempt (SettleBudget (ib_budget e i 1) us (is2xx (ps_StatusCode resp))) y, usageRef us, cost)))"

definition commitResponse ::
  "MessagesHandler \<Rightarrow> 'w Inbound \<Rightarrow> nat \<Rightarrow> RequestContext \<Rightarrow> ChainTarget \<Rightarrow> ProxyRequest \<Rightarrow> Table option \<Rightarrow> ProxyResponse \<Rightarrow> 'w Exchange \<Rightarrow> 'w Exchange" where
  "commitResponse h e i c ct pr table resp x =
     (case settleResponse h e i c ct pr table resp (teeResponse e i ct resp x) of
        (y, usage, cost) \<Rightarrow>
          (let bodyRef = (case mh_bodies h of
                            None \<Rightarrow> []
                          | Some capture \<Rightarrow>
                              if ps_StatusCode resp < 400
                              then capture (ib_id e (length (xc_audit y))) (pn_Team (rx_principal c)) (pr_RawBody pr) (Some (ps_RawBody resp)) else [])
           in auditCompleted h e c pr (ps_StatusCode resp) usage cost bodyRef y))"

text \<open>Each target ends the request, \<open>False\<close>, or can be followed by the next one, \<open>True\<close>.\<close>

definition serveComplete ::
  "MessagesHandler \<Rightarrow> 'w Inbound \<Rightarrow> nat \<Rightarrow> RequestContext \<Rightarrow> ChainTarget \<Rightarrow> ProxyRequest \<Rightarrow> bool \<Rightarrow> bool \<Rightarrow> Table option \<Rightarrow> 'w Exchange
   \<Rightarrow> 'w Exchange \<times> bool" where
  "serveComplete h e i c ct pr final crossModelNext table x =
     (case ib_complete e i pr of
        Inl err \<Rightarrow> if \<not> final then (x, True) else (failTarget h e c pr ''upstream error'' err x, False)
      | Inr resp \<Rightarrow>
          if \<not> final \<and> retriableStatus crossModelNext resp then (x, True)
          else (commitResponse h e i c ct pr table resp x, False))"

text \<open>The usage folded so far, whether the stream ended, and whether it reported an error.\<close>

type_synonym tally = "SchemaUsage option \<times> bool \<times> bool"

definition observeEvent :: "StreamEvent \<Rightarrow> tally \<Rightarrow> tally" where
  "observeEvent ev t =
     (case (ev_Chunk ev, t) of
        (None, _) \<Rightarrow> t
      | (Some ch, (usage, completed, failed)) \<Rightarrow>
          (MergeUsage (MergeUsage usage (sc_MessageUsage ch)) (sc_Usage ch),
           completed \<or> sc_Type ch = ''message_stop'', failed \<or> sc_Type ch = ''error''))"

text \<open>The loop over the events; the last component tells whether the upstream broke off.\<close>

fun pump :: "(call_error + StreamEvent) list \<Rightarrow> tally \<Rightarrow> 'w Exchange \<Rightarrow> 'w Exchange \<times> tally \<times> bool" where
  "pump [] t x = (x, t, False)"
| "pump (Inl err # evs) t x = (x, t, True)"
| "pump (Inr ev # evs) t x = pump evs (observeEvent ev t) (writeBytes (ev_Raw ev) x)"

definition brokenStream ::
  "MessagesHandler \<Rightarrow> 'w Inbound \<Rightarrow> nat \<Rightarrow> RequestContext \<Rightarrow> ChainTarget \<Rightarrow> ProxyRequest \<Rightarrow> Table option \<Rightarrow> tally \<Rightarrow> 'w Exchange \<Rightarrow> 'w Exchange" where
  "brokenStream h e i c ct pr table t x =
     (case msg_settle h e (rx_principal c) ct (fst t) table (estimateTokens (pr_RawBody pr)) (writeBytes streamErrorEvent x) of
        (y, cost) \<Rightarrow> auditCompletedPartial h e c pr (usageRef (fst t)) cost (onAttempt (SettleBudget (ib_budget e i 1) (fst t) False) y))"

definition endedStream ::
  "MessagesHandler \<Rightarrow> 'w Inbound \<Rightarrow> nat \<Rightarrow> RequestContext \<Rightarrow> ChainTarget \<Rightarrow> ProxyRequest \<Rightarrow> Table option \<Rightarrow> tally \<Rightarrow> 'w Exchange \<Rightarrow> 'w Exchange" where
  "endedStream h e i c ct pr table t x =
     (case t of (usage, completed, failed) \<Rightarrow>
        case msg_settle h e (rx_principal c) ct usage table (estimateTokens (pr_RawBody pr)) x of
          (y, cost) \<Rightarrow>
            (let y1 = onAttempt (SettleBudget (ib_budget e i 1) usage (completed \<and> \<not> failed)) y;
                 y2 = (if completed \<and> \<not> failed \<and> usage \<noteq> None then affinitySuccess e ct y1 else y1);
                 bodyRef = (case mh_bodies h of
                              None \<Rightarrow> []
                            | Some capture \<Rightarrow> capture (ib_id e (length (xc_audit y2))) (pn_Team (rx_principal c)) (pr_RawBody pr) None)
             in auditCompleted h e c pr 200 (usageRef usage) cost bodyRef y2))"

definition serveStream ::
  "MessagesHandler \<Rightarrow> 'w Inbound \<Rightarrow> nat \<Rightarrow> RequestContext \<Rightarrow> ChainTarget \<Rightarrow> ProxyRequest \<Rightarrow> bool \<Rightarrow> bool \<Rightarrow> Table option \<Rightarrow> 'w Exchange
   \<Rightarrow> 'w Exchange \<times> bool" where
  "serveStream h e i c ct pr final crossModelNext table x =
     (case ib_stream e i pr of
        Inl err \<Rightarrow> if \<not> final then (x, True) else (failTarget h e c pr ''upstream stream error'' err x, False)
      | Inr events \<Rightarrow>
          if \<not> ib_flusher e then
            (auditCompleted h e c pr 500 None None [] (writeErr e 500 ''api_error'' ''streaming unsupported'' x), False)
          else
            (case pump events (None, False, False)
                    (writeHeader 200 (setHeader ''Cache-Control'' ''no-cache'' (setHeader ''Content-Type'' ''text/event-stream''
                       (msg_record (ib_now e i) ct True x)))) of
               (y, t, True) \<Rightarrow> (brokenStream h e i c ct pr table t y, False)
             | (y, t, False) \<Rightarrow> (endedStream h e i c ct pr table t y, False)))"

section \<open>The chain of targets\<close>

text \<open>What was decided before the first target.\<close>

record Admitted =
  ad_context :: RequestContext
  ad_model :: string
  ad_state :: "LiveState option"
  ad_raw :: string
  ad_parsed :: ChatRequest
  ad_guardrail :: "string \<times> string"
  ad_bundle :: "string \<times> string"

definition streams :: "ChatRequest \<Rightarrow> bool" where
  "streams c \<longleftrightarrow> cr_Stream c = Some True"

definition proxyRequest :: "Admitted \<Rightarrow> ChainTarget \<Rightarrow> ProxyRequest" where
  "proxyRequest ad ct =
     \<lparr>pr_Model = ct_Model ct, pr_Upstream = ct_Upstream ct, pr_Parsed = ad_parsed ad, pr_RawBody = ad_raw ad, pr_Stream = streams (ad_parsed ad),
      pr_IngressProtocol = ''anthropic'', pr_GuardrailID = fst (ad_guardrail ad), pr_GuardrailVersion = snd (ad_guardrail ad)\<rparr>"

definition budgetHeaders :: "budget_error \<Rightarrow> 'w Exchange \<Rightarrow> 'w Exchange" where
  "budgetHeaders err x =
     (case BudgetErrorHeaders err of None \<Rightarrow> x | Some n \<Rightarrow> setHeader ''Retry-After'' (show_nat (nat n)) x)"

definition fallbackHeaders :: "nat \<Rightarrow> string \<Rightarrow> ChainTarget \<Rightarrow> 'w Exchange \<Rightarrow> 'w Exchange" where
  "fallbackHeaders i model ct x =
     (if i = 0 then x
      else (let y = setHeader ''x-inferplane-fallback'' (ct_ProviderName ct) x
            in if ct_Model ct \<noteq> model then setHeader ''x-inferplane-model-fallback'' (ct_Model ct) y else y))"

text \<open>
  The finalizer that runs right after the target is run once more when the handler returns,
  without effect by then.
\<close>

fun serveChain :: "MessagesHandler \<Rightarrow> 'w Inbound \<Rightarrow> Admitted \<Rightarrow> nat \<Rightarrow> ChainTarget list \<Rightarrow> 'w Exchange \<Rightarrow> 'w Exchange" where
  "serveChain h e ad i [] x = x"
| "serveChain h e ad i (ct # rest) x =
     (let c = ad_context ad; pr = proxyRequest ad ct;
          final = (rest = []);
          crossModelNext = (case rest of [] \<Rightarrow> False | n # _ \<Rightarrow> ct_Model n \<noteq> ct_Model ct);
          x1 = fallbackHeaders i (ad_model ad) ct x
      in case ReserveBudget (ib_budget e i 0) (ad_bundle ad) (rx_principal c) ct (ad_state ad) (ib_decode e (ad_raw ad)) (xc_world x1) of
           (w, Inl err) \<Rightarrow>
             writeErr e (BudgetStatus err) ''insufficient_quota'' ''budget authority unavailable''
               (msg_audit h e c (ad_model ad) (ct_Upstream ct) (Some (outcomeRef (BudgetStatus err) None)) False (budgetHeaders err (x1\<lparr>xc_world := w\<rparr>)))
         | (w, Inr attempt) \<Rightarrow>
             (let c' = c\<lparr>rx_routing := WithRoutingAttempt (ct_Model ct) (ct_ProviderName ct) (ct_DataBoundary ct) (rx_routing c)\<rparr>;
                  table = (case ad_state ad of None \<Rightarrow> None | Some st \<Rightarrow> ls_pricing st);
                  x2 = x1\<lparr>xc_world := w, xc_attempt := attempt, xc_sent := xc_sent x1 @ [(ct, pr)]\<rparr>;
                  (x3, retriable) =
                    (if streams (ad_parsed ad) then serveStream h e i c' ct pr final crossModelNext table x2
                     else serveComplete h e i c' ct pr final crossModelNext table x2);
                  x4 = onAttempt (finalizer (ib_budget e i 2)) x3
              in if \<not> retriable then x4
                 else serveChain h e ad (i + 1) rest (msg_record (ib_now e i) ct False x4)))"

section \<open>Before the first target\<close>

definition maxModelsInError :: nat where
  "maxModelsInError = 20"

definition availableModelsErrorSuffix :: "Router \<Rightarrow> (nat \<Rightarrow> LiveState) \<Rightarrow> Principal \<Rightarrow> string" where
  "availableModelsErrorSuffix r load p =
     (let names = ModelNames (load 0);
          available = sort (map snd (filter (\<lambda>(i, n). Allows r (load (i + 1)) p n) (enumerate 0 names)));
          listed = (if length available > maxModelsInError then take maxModelsInError available @ [''...''] else available)
      in if available = [] then ''. No models available for this key.''
         else ''. Available models: '' @ hd listed @ concat (map (\<lambda>n. '', '' @ n) (tl listed)))"

text \<open>\<open>FilterModelAllowed\<close> with the check of the handler, which loads the topology each time.\<close>

definition recheckAllowed :: "Router \<Rightarrow> (nat \<Rightarrow> LiveState) \<Rightarrow> Principal \<Rightarrow> ChainTarget list \<Rightarrow> ChainTarget list" where
  "recheckAllowed r load p chain =
     (case chain of
        [] \<Rightarrow> chain
      | first # _ \<Rightarrow>
          map snd (filter (\<lambda>(i, ct). ct_Model ct = ct_Model first \<or> Allows r (load i) p (ct_Model ct)) (enumerate 0 chain)))"

definition SessionHint :: "string \<Rightarrow> string" where
  "SessionHint hint = (if length hint > 1024 then [] else hint)"

definition CombinedRedactor :: "(request_filter \<Rightarrow> redactor) \<Rightarrow> Masking option \<Rightarrow> string \<Rightarrow> redactor option" where
  "CombinedRedactor build m team =
     (if \<not> mask_Enabled m team then None
      else (case m of None \<Rightarrow> None | Some k \<Rightarrow> map_option build (mk_Filter k)))"

definition teamOf :: "MessagesHandler \<Rightarrow> Principal \<Rightarrow> TeamRecord option" where
  "teamOf h p =
     (if mh_teamPolicy h \<noteq> None \<or> pn_TeamSnapshotLoaded p then TeamSnapshot p (mh_teamPolicy h) else None)"

definition regionsOf :: "TeamRecord option \<Rightarrow> string list" where
  "regionsOf rec = (case rec of None \<Rightarrow> [] | Some r \<Rightarrow> tr_AllowedRegions r)"

definition guardrailOf :: "MessagesHandler \<Rightarrow> TeamRecord option \<Rightarrow> string \<times> string" where
  "guardrailOf h rec = (case rec of None \<Rightarrow> ([], []) | Some r \<Rightarrow> mh_guardrail h r)"

text \<open>A stage refuses the request, \<open>Inl\<close>, with the response written, or hands on.\<close>

record Named =
  nm_raw :: string
  nm_parsed :: ChatRequest
  nm_requested :: string
  nm_model :: string
  nm_context :: RequestContext
  nm_chain :: "ChainTarget list"
  nm_state :: LiveState

definition substituteModel ::
  "'w Inbound \<Rightarrow> Principal \<Rightarrow> string \<Rightarrow> 'w Exchange \<Rightarrow> 'w Exchange \<times> string \<times> RequestContext" where
  "substituteModel e p model x =
     (case SubstituteTier (xc_router x) (ib_load e 1) (ib_load e 2) (ib_load e 3) p model of
        (served, substituted) \<Rightarrow>
          if substituted then (setHeader ''x-inferplane-substituted-model'' served x, served, \<lparr>rx_principal = p, rx_from = model, rx_routing = None\<rparr>)
          else (x, model, \<lparr>rx_principal = p, rx_from = [], rx_routing = None\<rparr>))"

definition nameModel :: "MessagesHandler \<Rightarrow> 'w Inbound \<Rightarrow> 'w Exchange \<Rightarrow> 'w Exchange + 'w Exchange \<times> Named" where
  "nameModel h e x =
     (case ib_body e of
        None \<Rightarrow> Inl (writeErr e 400 ''invalid_request_error'' ''could not read request body'' x)
      | Some raw \<Rightarrow>
          (case ib_parse e zeroChat raw of
             None \<Rightarrow> Inl (writeErr e 400 ''invalid_request_error'' ''malformed JSON'' x)
           | Some parsed \<Rightarrow>
               (case ResolveModel (ib_load e 0) (cr_Model parsed) of
                  (requested, fallback) \<Rightarrow>
                    (let x1 = (if fallback then setHeader ''x-inferplane-model-fallback'' requested x else x)
                     in case ib_principal e of
                          None \<Rightarrow> Inl (writeErr e 401 ''authentication_error'' ''no principal'' x1)
                        | Some p \<Rightarrow>
                            (case substituteModel e p requested x1 of
                               (x2, model, c) \<Rightarrow>
                                 if \<not> Allows (xc_router x2) (ib_load e 4) p model then
                                   Inl (writeErr e 403 ''permission_error''
                                     (''model not allowed for this key: '' @ model @ availableModelsErrorSuffix (xc_router x2) (\<lambda>n. ib_load e (5 + n)) p)
                                     (msg_audit h e c model [] (Some (outcomeRef 403 (Some ''model_not_allowed''))) False x2))
                                 else
                                   (case ResolveChain (ib_clkChain e) (xc_router x2) (ib_load e 5) model of
                                      Inl err \<Rightarrow>
                                        Inl (writeErr e 404 ''not_found_error''
                                          (''unknown model: '' @ model @ availableModelsErrorSuffix (xc_router x2) (\<lambda>n. ib_load e (6 + n)) p)
                                          (msg_audit h e c model [] (Some (outcomeRef 404 None)) False x2))
                                    | Inr chain \<Rightarrow>
                                        Inr (x2, \<lparr>nm_raw = raw, nm_parsed = parsed, nm_requested = requested, nm_model = model, nm_context = c,
                                                 nm_chain = recheckAllowed (xc_router x2) (\<lambda>n. ib_load e (6 + n)) p chain,
                                                 nm_state = ib_load e 5\<rparr>)))))))"

record Routed =
  ro_context :: RequestContext
  ro_result :: RequestRoutingResult
  ro_bundle :: "string \<times> string"

definition routingInput :: "MessagesHandler \<Rightarrow> 'w Inbound \<Rightarrow> Named \<Rightarrow> RequestRoutingInput" where
  "routingInput h e nm =
     (let p = rx_principal (nm_context nm); regions = regionsOf (teamOf h p)
      in \<lparr>ri_Principal = p, ri_Protocol = ''anthropic'', ri_RawBody = nm_raw nm, ri_RequestedModel = nm_requested nm, ri_Model = nm_model nm,
          ri_Chain = FilterRegions (nm_chain nm) regions, ri_State = Some (nm_state nm), ri_AllowedRegions = regions, ri_CountOnly = False,
          ri_SessionHint = SessionHint (ib_sessionID e), ri_Redactor = CombinedRedactor (ib_redactorWith e) (mh_mask h) (pn_Team p),
          ri_Compatible = None\<rparr>)"

definition routeStage :: "MessagesHandler \<Rightarrow> 'w Inbound \<Rightarrow> Named \<Rightarrow> 'w Exchange \<Rightarrow> 'w Exchange + 'w Exchange \<times> Routed" where
  "routeStage h e nm x =
     (let inp = routingInput h e nm
      in case RouteRequest (ib_route e) (ib_other e) (xc_router x) (xc_affinity x) inp of
           (store, result, err) \<Rightarrow>
             (let obs = routing_Observe result \<lparr>rc_bundle = None, rc_routing = None, rc_headers = []\<rparr>;
                  c = (nm_context nm)\<lparr>rx_routing := rc_routing obs\<rparr>;
                  x1 = fold (\<lambda>(k, v). setHeader k v) (rc_headers obs) (x\<lparr>xc_affinity := store\<rparr>)
              in case err of
                   Some re \<Rightarrow>
                     if \<not> routing_Active (rs_Decision result) \<and> ri_Chain inp = [] \<and> ri_AllowedRegions inp \<noteq> [] then
                       Inl (writeErr e 403 ''permission_error'' (''no allowed-region target for model: '' @ nm_model nm)
                         (msg_audit h e c (nm_model nm) [] (Some (outcomeRef 403 (Some ''region_blocked''))) False x1))
                     else
                       Inl (writeErr e 403 ''permission_error'' (''router: request routing denied ('' @ re_Reason re @ '')'')
                         (msg_audit h e c (nm_model nm) [] (Some (outcomeRef 403 (Some (rd_Reason (rs_Decision result))))) False x1))
                 | None \<Rightarrow>
                     Inr (x1\<lparr>xc_token := rs_AffinityToken result\<rparr>,
                          \<lparr>ro_context = c, ro_result = result, ro_bundle = (case rc_bundle obs of None \<Rightarrow> ([], []) | Some b \<Rightarrow> b)\<rparr>)))"

text \<open>A decision never returns an empty chain (\<open>routed_authorized\<close>).\<close>

definition firstUpstream :: "ChainTarget list \<Rightarrow> string" where
  "firstUpstream chain = (case chain of [] \<Rightarrow> [] | ct # _ \<Rightarrow> ct_Upstream ct)"

definition maskRefusal :: "MessagesHandler \<Rightarrow> 'w Inbound \<Rightarrow> Routed \<Rightarrow> 'w Exchange \<Rightarrow> 'w Exchange" where
  "maskRefusal h e ro x =
     writeErr e 400 ''invalid_request_error'' ''request could not be PII-masked''
       (msg_audit h e (ro_context ro) (rs_Model (ro_result ro)) (firstUpstream (rs_Chain (ro_result ro))) (Some (outcomeRef 400 None)) False x)"

text \<open>The body that is forwarded, its parsed form, and whether anything was masked.\<close>

definition policyBody :: "'w Inbound \<Rightarrow> Named \<Rightarrow> Routed \<Rightarrow> 'w Exchange \<Rightarrow> 'w Exchange + string \<times> ChatRequest" where
  "policyBody e nm ro x =
     (if rs_MaskRequired (ro_result ro) then
        (case rs_SanitizedBody (ro_result ro) of
           None \<Rightarrow> Inl (writeErr e 400 ''invalid_request_error'' ''request could not be PII-masked'' x)
         | Some body \<Rightarrow>
             if body = [] then Inl (writeErr e 400 ''invalid_request_error'' ''request could not be PII-masked'' x)
             else (case ib_parse e (nm_parsed nm) body of
                     None \<Rightarrow> Inl (writeErr e 400 ''invalid_request_error'' ''request could not be PII-masked'' x)
                   | Some parsed \<Rightarrow> Inr (body, parsed)))
      else Inr (nm_raw nm, nm_parsed nm))"

definition filterOf :: "Masking option \<Rightarrow> request_filter" where
  "filterOf m = (case m of None \<Rightarrow> (\<lambda>s. (s, 0)) | Some k \<Rightarrow> (case mk_Filter k of None \<Rightarrow> (\<lambda>s. (s, 0)) | Some f \<Rightarrow> f))"

definition maskStage ::
  "MessagesHandler \<Rightarrow> 'w Inbound \<Rightarrow> Named \<Rightarrow> Routed \<Rightarrow> 'w Exchange \<Rightarrow> 'w Exchange + string \<times> ChatRequest \<times> bool" where
  "maskStage h e nm ro x =
     (case policyBody e nm ro x of
        Inl y \<Rightarrow> Inl y
      | Inr (raw, parsed) \<Rightarrow>
          (let already = rd_Masked (rs_Decision (ro_result ro))
           in if mask_Enabled (mh_mask h) (pn_Team (rx_principal (ro_context ro))) then
                (case maskBody (ib_decode e) (ib_encode e) (filterOf (mh_mask h)) raw of
                   Inl err \<Rightarrow> Inl (maskRefusal h e ro x)
                 | Inr (masked, n) \<Rightarrow>
                     if n > 0 then
                       (case ib_parse e zeroChat masked of
                          None \<Rightarrow> Inl (maskRefusal h e ro x)
                        | Some reparsed \<Rightarrow> Inr (masked, reparsed, True))
                     else Inr (raw, parsed, already))
              else Inr (raw, parsed, already)))"

definition pricedTargets :: "ChainTarget list \<Rightarrow> PricedTarget list" where
  "pricedTargets chain = map (\<lambda>ct. \<lparr>pt_Provider = ct_ProviderName ct, pt_Upstream = ct_Upstream ct\<rparr>) chain"

definition govErrType :: "int \<Rightarrow> string" where
  "govErrType code = (if code = 429 then ''rate_limit_error'' else if code = 402 then ''permission_error'' else ''api_error'')"

definition govRefusal :: "MessagesHandler \<Rightarrow> 'w Inbound \<Rightarrow> Routed \<Rightarrow> GovDecision \<Rightarrow> 'w Exchange \<Rightarrow> 'w Exchange" where
  "govRefusal h e ro dec x =
     writeErr e (gd_Status dec) (govErrType (gd_Status dec)) (gd_Reason dec)
       (msg_audit h e (ro_context ro) (rs_Model (ro_result ro)) (firstUpstream (rs_Chain (ro_result ro)))
          (Some (outcomeRef (gd_Status dec) (Some (gd_Code dec)))) False x)"

definition windowMessage :: "int \<Rightarrow> string \<Rightarrow> int \<Rightarrow> string" where
  "windowMessage est model win =
     ''request is ~'' @ show_nat (nat est) @ '' tokens but model '' @ model @ '' has a '' @ show_nat (nat win) @ ''-token context window ''
     @ em_dash @ '' reduce the input (or raise models.'' @ model @ ''.context_window if the declaration is wrong)''"

text \<open>Window, price, then the governor, which alone changes its stores.\<close>

definition admissionStage :: "MessagesHandler \<Rightarrow> 'w Inbound \<Rightarrow> Routed \<Rightarrow> string \<Rightarrow> 'w Exchange \<Rightarrow> 'w Exchange + 'w Exchange" where
  "admissionStage h e ro raw x =
     (let result = ro_result ro; model = rs_Model result; p = rx_principal (ro_context ro);
          win = evidenceWindow (rs_State result) model; est = estimateTokens raw;
          table = (case rs_State result of None \<Rightarrow> None | Some st \<Rightarrow> ls_pricing st);
          guard = PricingGuard table (pricedTargets (rs_Chain result))
      in if win > 0 \<and> est > win then
           Inl (writeErr e 400 ''invalid_request_error'' (windowMessage est model win)
             (msg_audit h e (ro_context ro) model (firstUpstream (rs_Chain result)) (Some (outcomeRef 400 None)) False x))
         else if \<not> gd_Allowed guard then Inl (govRefusal h e ro guard x)
         else (case mh_gov h of
                 None \<Rightarrow> Inr x
               | Some g \<Rightarrow>
                   (case PreCheck (ib_clkCheck e) g (subjectOf p) (keyPolicyOf p) est (xc_stores x) of
                      (stores, dec) \<Rightarrow>
                        (let x1 = x\<lparr>xc_stores := stores\<rparr>
                         in if \<not> gd_Allowed dec then Inl (govRefusal h e ro dec x1) else Inr x1))))"

section \<open>The handler\<close>

definition ServeHTTP :: "MessagesHandler \<Rightarrow> 'w Inbound \<Rightarrow> 'w Exchange \<Rightarrow> 'w Exchange" where
  "ServeHTTP h e x =
     (case nameModel h e x of
        Inl y \<Rightarrow> y
      | Inr (x1, nm) \<Rightarrow>
          (case routeStage h e nm x1 of
             Inl y \<Rightarrow> y
           | Inr (x2, ro) \<Rightarrow>
               (case maskStage h e nm ro x2 of
                  Inl y \<Rightarrow> y
                | Inr (raw, parsed, masked) \<Rightarrow>
                    (case admissionStage h e ro raw x2 of
                       Inl y \<Rightarrow> y
                     | Inr x3 \<Rightarrow>
                         (let result = ro_result ro
                          in serveChain h e
                               \<lparr>ad_context = ro_context ro, ad_model = rs_Model result, ad_state = rs_State result, ad_raw = raw, ad_parsed = parsed,
                                ad_guardrail = guardrailOf h (teamOf h (rx_principal (ro_context ro))), ad_bundle = ro_bundle ro\<rparr>
                               0 (rs_Chain result)
                               (msg_audit h e (ro_context ro) (rs_Model result) (firstUpstream (rs_Chain result)) None masked x3))))))"

end
