(* ===== verification/MessagesProps.thy ===== *)
theory MessagesProps
  imports Messages RouteProps
begin

text \<open>
  What a request on the Anthropic ingress can and cannot do: nothing is forwarded before every
  gate has passed it, the client gets the answer of exactly one target, that answer is what
  is billed and recorded, and the usage of a stream is the latest count of each kind.
\<close>

section \<open>Frames\<close>

named_theorems exchange_simps

lemma setHeader_sel [exchange_simps]:
  "hr_Status (xc_response (setHeader k v x)) = hr_Status (xc_response x)" "hr_Body (xc_response (setHeader k v x)) = hr_Body (xc_response x)"
  "xc_router (setHeader k v x) = xc_router x" "xc_stores (setHeader k v x) = xc_stores x" "xc_audit (setHeader k v x) = xc_audit x"
  "xc_sent (setHeader k v x) = xc_sent x" "xc_world (setHeader k v x) = xc_world x" "xc_affinity (setHeader k v x) = xc_affinity x"
  by (simp_all add: setHeader_def)

lemma copyUpstreamHeaders_sel [exchange_simps]:
  "hr_Status (xc_response (copyUpstreamHeaders hs x)) = hr_Status (xc_response x)"
  "hr_Body (xc_response (copyUpstreamHeaders hs x)) = hr_Body (xc_response x)"
  "xc_router (copyUpstreamHeaders hs x) = xc_router x" "xc_stores (copyUpstreamHeaders hs x) = xc_stores x"
  "xc_audit (copyUpstreamHeaders hs x) = xc_audit x" "xc_sent (copyUpstreamHeaders hs x) = xc_sent x"
  by (simp_all add: copyUpstreamHeaders_def)

lemma defaultType_sel [exchange_simps]:
  "hr_Status (xc_response (defaultType x)) = hr_Status (xc_response x)" "hr_Body (xc_response (defaultType x)) = hr_Body (xc_response x)"
  "xc_router (defaultType x) = xc_router x" "xc_stores (defaultType x) = xc_stores x" "xc_audit (defaultType x) = xc_audit x"
  "xc_sent (defaultType x) = xc_sent x"
  by (simp_all add: defaultType_def exchange_simps split: option.splits)

lemma writeHeader_sel [exchange_simps]:
  "hr_Status (xc_response (writeHeader code x)) = Some (case hr_Status (xc_response x) of None \<Rightarrow> code | Some c \<Rightarrow> c)"
  "hr_Body (xc_response (writeHeader code x)) = hr_Body (xc_response x)"
  "xc_router (writeHeader code x) = xc_router x" "xc_stores (writeHeader code x) = xc_stores x" "xc_audit (writeHeader code x) = xc_audit x"
  "xc_sent (writeHeader code x) = xc_sent x"
  by (simp_all add: writeHeader_def split: option.splits)

lemma writeBytes_sel [exchange_simps]:
  "hr_Status (xc_response (writeBytes bs x)) = hr_Status (xc_response x)" "hr_Body (xc_response (writeBytes bs x)) = hr_Body (xc_response x) @ bs"
  "xc_router (writeBytes bs x) = xc_router x" "xc_stores (writeBytes bs x) = xc_stores x" "xc_audit (writeBytes bs x) = xc_audit x"
  "xc_sent (writeBytes bs x) = xc_sent x"
  by (simp_all add: writeBytes_def)

definition errorBytes :: "'w Inbound \<Rightarrow> string \<Rightarrow> string \<Rightarrow> string" where
  "errorBytes e errType msg = ib_encode e (errorBody errType msg) @ [newline]"

lemma writeErr_sel [exchange_simps]:
  "hr_Status (xc_response (writeErr e code t m x)) = Some (case hr_Status (xc_response x) of None \<Rightarrow> code | Some c \<Rightarrow> c)"
  "hr_Body (xc_response (writeErr e code t m x)) = hr_Body (xc_response x) @ errorBytes e t m"
  "xc_router (writeErr e code t m x) = xc_router x" "xc_stores (writeErr e code t m x) = xc_stores x"
  "xc_audit (writeErr e code t m x) = xc_audit x" "xc_sent (writeErr e code t m x) = xc_sent x"
  by (simp_all add: writeErr_def errorBytes_def exchange_simps)

lemma appendRecord_sel [exchange_simps]:
  "xc_response (appendRecord h rec x) = xc_response x" "xc_router (appendRecord h rec x) = xc_router x"
  "xc_stores (appendRecord h rec x) = xc_stores x" "xc_sent (appendRecord h rec x) = xc_sent x"
  "xc_audit (appendRecord h rec x) = xc_audit x @ (if mh_aud h then [rec] else [])"
  "xc_affinity (appendRecord h rec x) = xc_affinity x"
  by (simp_all add: appendRecord_def)

lemma msg_record_sel [exchange_simps]:
  "xc_router (msg_record now ct ok x) = RecordResult now (ct_Identity ct) ok (xc_router x)"
  "xc_response (msg_record now ct ok x) = xc_response x" "xc_stores (msg_record now ct ok x) = xc_stores x"
  "xc_audit (msg_record now ct ok x) = xc_audit x" "xc_sent (msg_record now ct ok x) = xc_sent x"
  by (simp_all add: msg_record_def)

lemma affinitySuccess_sel [exchange_simps]:
  "xc_router (affinitySuccess e ct x) = xc_router x" "xc_response (affinitySuccess e ct x) = xc_response x"
  "xc_stores (affinitySuccess e ct x) = xc_stores x" "xc_audit (affinitySuccess e ct x) = xc_audit x" "xc_sent (affinitySuccess e ct x) = xc_sent x"
  by (simp_all add: affinitySuccess_def split: prod.splits)

lemma onAttempt_sel [exchange_simps]:
  "xc_router (onAttempt f x) = xc_router x" "xc_response (onAttempt f x) = xc_response x" "xc_stores (onAttempt f x) = xc_stores x"
  "xc_audit (onAttempt f x) = xc_audit x" "xc_sent (onAttempt f x) = xc_sent x"
  by (simp_all add: onAttempt_def Let_def split: option.splits)

section \<open>Settlement of an answer\<close>

text \<open>The stores of the governor and the cost of a record after the usage of one answer.\<close>

definition billing :: "MessagesHandler \<Rightarrow> 'w Inbound \<Rightarrow> Principal \<Rightarrow> ChainTarget \<Rightarrow> SchemaUsage option \<Rightarrow> Table option \<Rightarrow> int \<Rightarrow> Stores \<Rightarrow> Stores \<times> AuditCostRef option" where
  "billing h e p ct usage table est stores =
     (case (mh_gov h, usage) of
        (Some g, Some u) \<Rightarrow>
          (case Settle (ib_clkSettle e) g (subjectOf p) (keyPolicyOf p) (ct_ProviderName ct) (ct_Upstream ct) (billedUsage u) table est stores of
             (stores', notes, cost, missing) \<Rightarrow>
               (stores', Some \<lparr>aco_AmountUSDMicros = cost, aco_PricingMissing = missing, aco_PricingVersion = PricingVersionOf table\<rparr>))
      | _ \<Rightarrow> (stores, None))"

lemma msg_settle_sel [exchange_simps]:
  "xc_router (fst (msg_settle h e p ct us table est x)) = xc_router x" "xc_response (fst (msg_settle h e p ct us table est x)) = xc_response x"
  "xc_audit (fst (msg_settle h e p ct us table est x)) = xc_audit x" "xc_sent (fst (msg_settle h e p ct us table est x)) = xc_sent x"
  "xc_stores (fst (msg_settle h e p ct us table est x)) = fst (billing h e p ct us table est (xc_stores x))"
  "snd (msg_settle h e p ct us table est x) = snd (billing h e p ct us table est (xc_stores x))"
  by (simp_all add: msg_settle_def billing_def split: option.splits prod.splits)

lemma billing_none [simp]: "billing h e p ct None table est stores = (stores, None)"
  by (simp add: billing_def split: option.splits)

section \<open>The answer of a target\<close>

fun delivered :: "(call_error + StreamEvent) list \<Rightarrow> StreamEvent list" where
  "delivered [] = []"
| "delivered (Inl err # evs) = []"
| "delivered (Inr ev # evs) = ev # delivered evs"

definition brokeOff :: "(call_error + StreamEvent) list \<Rightarrow> bool" where
  "brokeOff evs \<longleftrightarrow> list_ex isl evs"

lemma writeBytes_writeBytes: "writeBytes b (writeBytes a x) = writeBytes (a @ b) x"
  by (simp add: writeBytes_def)

lemma writeBytes_Nil: "writeBytes [] x = x"
  by (simp add: writeBytes_def)

lemma pump_result:
  "pump evs t x = (writeBytes (concat (map ev_Raw (delivered evs))) x, fold observeEvent (delivered evs) t, brokeOff evs)"
  by (induction evs t x rule: pump.induct) (simp_all add: brokeOff_def writeBytes_writeBytes writeBytes_Nil)

record Answer =
  an_status :: int
  an_bytes :: string
  an_usage :: "SchemaUsage option"
  an_healthy :: bool
  an_partial :: bool

definition failAnswer :: "'w Inbound \<Rightarrow> string \<Rightarrow> call_error \<Rightarrow> Answer" where
  "failAnswer e msg err =
     (case err of
        UpstreamError code body hdr \<Rightarrow> \<lparr>an_status = HTTPStatus code, an_bytes = body, an_usage = None, an_healthy = False, an_partial = False\<rparr>
      | OtherError \<Rightarrow> \<lparr>an_status = 502, an_bytes = errorBytes e ''api_error'' msg, an_usage = None, an_healthy = False, an_partial = False\<rparr>)"

definition streamAnswer :: "(call_error + StreamEvent) list \<Rightarrow> Answer" where
  "streamAnswer evs =
     \<lparr>an_status = 200, an_bytes = concat (map ev_Raw (delivered evs)) @ (if brokeOff evs then streamErrorEvent else []),
      an_usage = fst (fold observeEvent (delivered evs) (None, False, False)), an_healthy = True, an_partial = brokeOff evs\<rparr>"

definition completeAnswer :: "ProxyResponse \<Rightarrow> Answer" where
  "completeAnswer resp =
     \<lparr>an_status = ps_StatusCode resp, an_bytes = ps_RawBody resp, an_usage = (case ps_Parsed resp of None \<Rightarrow> None | Some us \<Rightarrow> us),
      an_healthy = (ps_StatusCode resp < 400), an_partial = False\<rparr>"

text \<open>What the client gets from the \<open>i\<close>-th target; \<open>None\<close> when the request moves on to the next.\<close>

definition targetAnswer :: "'w Inbound \<Rightarrow> nat \<Rightarrow> ProxyRequest \<Rightarrow> bool \<Rightarrow> bool \<Rightarrow> Answer option" where
  "targetAnswer e i pr final crossModelNext =
     (if pr_Stream pr then
        (case ib_stream e i pr of
           Inl err \<Rightarrow> if final then Some (failAnswer e ''upstream stream error'' err) else None
         | Inr evs \<Rightarrow>
             if \<not> ib_flusher e then
               Some \<lparr>an_status = 500, an_bytes = errorBytes e ''api_error'' ''streaming unsupported'', an_usage = None, an_healthy = False, an_partial = False\<rparr>
             else Some (streamAnswer evs))
      else
        (case ib_complete e i pr of
           Inl err \<Rightarrow> if final then Some (failAnswer e ''upstream error'' err) else None
         | Inr resp \<Rightarrow> if \<not> final \<and> retriableStatus crossModelNext resp then None else Some (completeAnswer resp)))"

text \<open>The record of an answer.\<close>

definition recordsAnswer :: "RequestContext \<Rightarrow> ProxyRequest \<Rightarrow> Answer \<Rightarrow> AuditCostRef option \<Rightarrow> AuditRecord \<Rightarrow> bool" where
  "recordsAnswer c pr a cost rec \<longleftrightarrow>
     ar_Event rec = ''request_completed'' \<and> apr_KeyID (ar_Principal rec) = pn_KeyID (rx_principal c)
     \<and> apr_Team (ar_Principal rec) = pn_Team (rx_principal c)
     \<and> arq_ModelRequested (ar_Request rec) = pr_Model pr \<and> arq_ModelResolved (ar_Request rec) = pr_Upstream pr
     \<and> map_option ao_Status (ar_Outcome rec) = Some (an_status a) \<and> map_option ao_Partial (ar_Outcome rec) = Some (an_partial a)
     \<and> ar_Usage rec = usageRef (an_usage a) \<and> ar_Cost rec = cost"

definition closedWith ::
  "MessagesHandler \<Rightarrow> 'w Inbound \<Rightarrow> nat \<Rightarrow> RequestContext \<Rightarrow> ChainTarget \<Rightarrow> ProxyRequest \<Rightarrow> Table option \<Rightarrow> Answer \<Rightarrow> 'w Exchange \<Rightarrow> 'w Exchange \<Rightarrow> bool" where
  "closedWith h e i c ct pr table a x y \<longleftrightarrow>
     (let bill = billing h e (rx_principal c) ct (an_usage a) table (estimateTokens (pr_RawBody pr)) (xc_stores x)
      in hr_Status (xc_response y) = Some (an_status a) \<and> hr_Body (xc_response y) = hr_Body (xc_response x) @ an_bytes a
         \<and> xc_router y = (if an_healthy a then RecordResult (ib_now e i) (ct_Identity ct) True (xc_router x) else xc_router x)
         \<and> xc_stores y = fst bill \<and> xc_sent y = xc_sent x
         \<and> (if mh_aud h then \<exists>rec. xc_audit y = xc_audit x @ [rec] \<and> recordsAnswer c pr a (snd bill) rec else xc_audit y = xc_audit x))"

lemma audit_completed_sel [exchange_simps]:
  "xc_response (auditCompleted h e c pr code us cost ref x) = xc_response x" "xc_router (auditCompleted h e c pr code us cost ref x) = xc_router x"
  "xc_stores (auditCompleted h e c pr code us cost ref x) = xc_stores x" "xc_sent (auditCompleted h e c pr code us cost ref x) = xc_sent x"
  by (simp_all add: auditCompleted_def exchange_simps)

lemma audit_partial_sel [exchange_simps]:
  "xc_response (auditCompletedPartial h e c pr us cost x) = xc_response x" "xc_router (auditCompletedPartial h e c pr us cost x) = xc_router x"
  "xc_stores (auditCompletedPartial h e c pr us cost x) = xc_stores x" "xc_sent (auditCompletedPartial h e c pr us cost x) = xc_sent x"
  by (simp_all add: auditCompletedPartial_def exchange_simps)

lemma completed_records:
  assumes "\<not> an_partial a" and "mh_aud h"
  shows "\<exists>rec. xc_audit (auditCompleted h e c pr (an_status a) (usageRef (an_usage a)) cost ref y) = xc_audit y @ [rec] \<and> recordsAnswer c pr a cost rec"
  using assms by (simp add: auditCompleted_def exchange_simps recordsAnswer_def requestRecord_def outcomeRef_def)

lemma partial_records:
  assumes "an_partial a" and "an_status a = 200" and "mh_aud h"
  shows "\<exists>rec. xc_audit (auditCompletedPartial h e c pr (usageRef (an_usage a)) cost y) = xc_audit y @ [rec] \<and> recordsAnswer c pr a cost rec"
  using assms by (simp add: auditCompletedPartial_def exchange_simps recordsAnswer_def requestRecord_def outcomeRef_def)

lemma no_records [exchange_simps]:
  "\<not> mh_aud h \<Longrightarrow> xc_audit (auditCompleted h e c pr code us cost ref y) = xc_audit y"
  "\<not> mh_aud h \<Longrightarrow> xc_audit (auditCompletedPartial h e c pr us cost y) = xc_audit y"
  by (simp_all add: auditCompleted_def auditCompletedPartial_def exchange_simps)

text \<open>The step before the record did everything but the record.\<close>

definition accounted ::
  "MessagesHandler \<Rightarrow> 'w Inbound \<Rightarrow> nat \<Rightarrow> RequestContext \<Rightarrow> ChainTarget \<Rightarrow> ProxyRequest \<Rightarrow> Table option \<Rightarrow> Answer \<Rightarrow> AuditCostRef option \<Rightarrow> 'w Exchange \<Rightarrow> 'w Exchange \<Rightarrow> bool" where
  "accounted h e i c ct pr table a cost x y \<longleftrightarrow>
     (let bill = billing h e (rx_principal c) ct (an_usage a) table (estimateTokens (pr_RawBody pr)) (xc_stores x)
      in hr_Status (xc_response y) = Some (an_status a) \<and> hr_Body (xc_response y) = hr_Body (xc_response x) @ an_bytes a
         \<and> xc_router y = (if an_healthy a then RecordResult (ib_now e i) (ct_Identity ct) True (xc_router x) else xc_router x)
         \<and> xc_stores y = fst bill \<and> xc_sent y = xc_sent x \<and> xc_audit y = xc_audit x \<and> cost = snd bill)"

lemma answered_completed:
  assumes "accounted h e i c ct pr table a cost x y" and "\<not> an_partial a"
  shows "closedWith h e i c ct pr table a x (auditCompleted h e c pr (an_status a) (usageRef (an_usage a)) cost ref y)"
  using assms completed_records [OF assms(2), of h e c pr cost ref y] by (auto simp: closedWith_def accounted_def Let_def exchange_simps)

lemma answered_partial:
  assumes "accounted h e i c ct pr table a cost x y" and "an_partial a" and "an_status a = 200"
  shows "closedWith h e i c ct pr table a x (auditCompletedPartial h e c pr (usageRef (an_usage a)) cost y)"
  using assms partial_records [OF assms(2,3), of h e c pr cost y] by (auto simp: closedWith_def accounted_def Let_def exchange_simps)

lemma fail_answered:
  assumes "hr_Status (xc_response x) = None"
  shows "closedWith h e i c ct pr table (failAnswer e msg err) x (failTarget h e c pr msg err x)"
proof (cases err)
  case (UpstreamError code body hdr)
  let ?a = "failAnswer e msg err"
  have "accounted h e i c ct pr table ?a None x (writeBytes body (writeHeader (HTTPStatus code) (defaultType (copyUpstreamHeaders hdr x))))"
    using assms by (simp add: accounted_def failAnswer_def UpstreamError exchange_simps)
  from answered_completed [OF this, of "[]"] show ?thesis
    by (simp add: failTarget_def failAnswer_def UpstreamError usageRef_def)
next
  case OtherError
  let ?a = "failAnswer e msg err"
  have "accounted h e i c ct pr table ?a None x (writeErr e 502 ''api_error'' msg x)"
    using assms by (simp add: accounted_def failAnswer_def OtherError exchange_simps)
  from answered_completed [OF this, of "[]"] show ?thesis
    by (simp add: failTarget_def failAnswer_def OtherError usageRef_def)
qed

lemma tee_sel [exchange_simps]:
  "hr_Status (xc_response (teeResponse e i ct resp x)) = Some (case hr_Status (xc_response x) of None \<Rightarrow> ps_StatusCode resp | Some c \<Rightarrow> c)"
  "hr_Body (xc_response (teeResponse e i ct resp x)) = hr_Body (xc_response x) @ ps_RawBody resp"
  "xc_router (teeResponse e i ct resp x)
   = (if ps_StatusCode resp < 400 then RecordResult (ib_now e i) (ct_Identity ct) True (xc_router x) else xc_router x)"
  "xc_stores (teeResponse e i ct resp x) = xc_stores x" "xc_audit (teeResponse e i ct resp x) = xc_audit x"
  "xc_sent (teeResponse e i ct resp x) = xc_sent x"
  by (simp_all add: teeResponse_def Let_def exchange_simps)

lemma settle_accounted:
  assumes "hr_Status (xc_response x) = None" and "settleResponse h e i c ct pr table resp (teeResponse e i ct resp x) = (y, usage, cost)"
  shows "accounted h e i c ct pr table (completeAnswer resp) cost x y \<and> usage = usageRef (an_usage (completeAnswer resp))"
proof (cases "ps_Parsed resp")
  case None
  then show ?thesis using assms by (auto simp: settleResponse_def accounted_def completeAnswer_def usageRef_def exchange_simps)
next
  case (Some us)
  obtain z k where z: "msg_settle h e (rx_principal c) ct us table (estimateTokens (pr_RawBody pr)) (teeResponse e i ct resp x) = (z, k)" by fastforce
  then have "y = onAttempt (SettleBudget (ib_budget e i 1) us (is2xx (ps_StatusCode resp))) z" "usage = usageRef us" "cost = k"
    using assms(2) Some by (auto simp: settleResponse_def)
  with z assms(1) Some msg_settle_sel [of h e "rx_principal c" ct us table "estimateTokens (pr_RawBody pr)" "teeResponse e i ct resp x"]
  show ?thesis by (simp add: accounted_def completeAnswer_def exchange_simps Let_def)
qed

lemma commit_answered:
  assumes "hr_Status (xc_response x) = None"
  shows "closedWith h e i c ct pr table (completeAnswer resp) x (commitResponse h e i c ct pr table resp x)"
proof -
  obtain y usage cost where y: "settleResponse h e i c ct pr table resp (teeResponse e i ct resp x) = (y, usage, cost)" by (metis prod_cases3)
  note s = settle_accounted [OF assms y]
  from answered_completed [OF conjunct1 [OF s]] show ?thesis
    using conjunct2 [OF s] by (simp add: commitResponse_def y completeAnswer_def Let_def)
qed

lemma stream_answered:
  assumes "hr_Status (xc_response x) = None" and "serveStream h e i c ct pr final cross table x = (y, retriable)" and "ib_stream e i pr = Inr evs" and "ib_flusher e"
  shows "\<not> retriable \<and> closedWith h e i c ct pr table (streamAnswer evs) x y"
proof -
  let ?a = "streamAnswer evs" and ?est = "estimateTokens (pr_RawBody pr)"
  define z where "z = writeHeader 200 (setHeader ''Cache-Control'' ''no-cache'' (setHeader ''Content-Type'' ''text/event-stream'' (msg_record (ib_now e i) ct True x)))"
  define t where "t = fold observeEvent (delivered evs) (None, False, False)"
  define w where "w = writeBytes (concat (map ev_Raw (delivered evs))) z"
  have y: "y = (if brokeOff evs then brokenStream h e i c ct pr table t w else endedStream h e i c ct pr table t w)" and r: "\<not> retriable"
    using assms by (auto simp: serveStream_def pump_result z_def t_def w_def split: if_splits bool.splits)
  have a: "an_usage ?a = fst t" "an_status ?a = 200" "an_partial ?a = brokeOff evs" by (simp_all add: streamAnswer_def t_def)
  have "closedWith h e i c ct pr table ?a x y"
  proof (cases "brokeOff evs")
    case True
    let ?s = "msg_settle h e (rx_principal c) ct (fst t) table ?est (writeBytes streamErrorEvent w)"
    have "accounted h e i c ct pr table ?a (snd ?s) x (onAttempt (SettleBudget (ib_budget e i 1) (fst t) False) (fst ?s))"
      using assms(1) True a by (simp add: accounted_def exchange_simps w_def z_def streamAnswer_def Let_def)
    from answered_partial [OF this] show ?thesis using True a by (simp add: y brokenStream_def case_prod_beta)
  next
    case False
    let ?s = "msg_settle h e (rx_principal c) ct (fst t) table ?est w"
    have acc: "accounted h e i c ct pr table ?a (snd ?s) x (onAttempt f (fst ?s))"
      "accounted h e i c ct pr table ?a (snd ?s) x (affinitySuccess e ct (onAttempt f (fst ?s)))" for f
      using assms(1) False a by (simp_all add: accounted_def exchange_simps w_def z_def streamAnswer_def Let_def)
    show ?thesis using answered_completed [OF acc(1)] answered_completed [OF acc(2)] False a
      by (cases t) (simp add: y endedStream_def case_prod_beta Let_def)
  qed
  with r show ?thesis by simp
qed

lemma target_served:
  assumes "hr_Status (xc_response x) = None"
    and "(if pr_Stream pr then serveStream h e i c ct pr final cross table x else serveComplete h e i c ct pr final cross table x) = (y, retriable)"
  shows "case targetAnswer e i pr final cross of
      None \<Rightarrow> retriable \<and> y = x \<and> \<not> final
    | Some a \<Rightarrow> \<not> retriable \<and> closedWith h e i c ct pr table a x y"
proof (cases "pr_Stream pr")
  case True
  then have s: "serveStream h e i c ct pr final cross table x = (y, retriable)" using assms(2) by simp
  show ?thesis
  proof (cases "ib_stream e i pr")
    case (Inl err)
    then show ?thesis using s True fail_answered [OF assms(1)] by (auto simp: targetAnswer_def serveStream_def split: if_splits)
  next
    case (Inr evs)
    show ?thesis
    proof (cases "ib_flusher e")
      case True
      then show ?thesis using stream_answered [OF assms(1) s Inr True] \<open>pr_Stream pr\<close> Inr by (simp add: targetAnswer_def)
    next
      case False
      define a where "a = \<lparr>an_status = 500, an_bytes = errorBytes e ''api_error'' ''streaming unsupported'', an_usage = None, an_healthy = False, an_partial = False\<rparr>"
      have "accounted h e i c ct pr table a None x (writeErr e 500 ''api_error'' ''streaming unsupported'' x)"
        using assms(1) by (simp add: accounted_def a_def exchange_simps)
      from answered_completed [OF this, of "[]"] show ?thesis
        using False Inr s \<open>pr_Stream pr\<close> by (auto simp: targetAnswer_def serveStream_def a_def usageRef_def)
    qed
  qed
next
  case False
  then have s: "serveComplete h e i c ct pr final cross table x = (y, retriable)" using assms(2) by simp
  then show ?thesis using False fail_answered [OF assms(1)] commit_answered [OF assms(1)]
    by (auto simp: targetAnswer_def serveComplete_def split: if_splits sum.splits)
qed

section \<open>The chain\<close>

definition crossAt :: "ChainTarget list \<Rightarrow> nat \<Rightarrow> bool" where
  "crossAt chain k \<longleftrightarrow> Suc k < length chain \<and> ct_Model (chain ! Suc k) \<noteq> ct_Model (chain ! k)"

text \<open>The answer at position \<open>k\<close> of what is left of the chain after \<open>i\<close> targets.\<close>

definition answerAt :: "'w Inbound \<Rightarrow> Admitted \<Rightarrow> nat \<Rightarrow> ChainTarget list \<Rightarrow> nat \<Rightarrow> Answer option" where
  "answerAt e ad i chain k = targetAnswer e (i + k) (proxyRequest ad (chain ! k)) (Suc k = length chain) (crossAt chain k)"

definition failedAt :: "'w Inbound \<Rightarrow> nat \<Rightarrow> ChainTarget list \<Rightarrow> nat \<Rightarrow> Router \<Rightarrow> Router" where
  "failedAt e i chain k r = fold (\<lambda>j. RecordResult (ib_now e (i + j)) (ct_Identity (chain ! j)) False) [0..<k] r"

definition calls :: "Admitted \<Rightarrow> ChainTarget list \<Rightarrow> (ChainTarget \<times> ProxyRequest) list" where
  "calls ad chain = map (\<lambda>ct. (ct, proxyRequest ad ct)) chain"

definition attemptContext :: "Admitted \<Rightarrow> ChainTarget \<Rightarrow> RequestContext" where
  "attemptContext ad ct =
     (ad_context ad)\<lparr>rx_routing := WithRoutingAttempt (ct_Model ct) (ct_ProviderName ct) (ct_DataBoundary ct) (rx_routing (ad_context ad))\<rparr>"

definition admittedTable :: "Admitted \<Rightarrow> Table option" where
  "admittedTable ad = (case ad_state ad of None \<Rightarrow> None | Some st \<Rightarrow> ls_pricing st)"

text \<open>The state when the \<open>k\<close>-th target is reached and \<open>n\<close> calls have been made: nothing else has happened.\<close>

definition triedUpTo :: "'w Inbound \<Rightarrow> Admitted \<Rightarrow> nat \<Rightarrow> ChainTarget list \<Rightarrow> nat \<Rightarrow> nat \<Rightarrow> 'w Exchange \<Rightarrow> 'w Exchange \<Rightarrow> bool" where
  "triedUpTo e ad i chain k n x z \<longleftrightarrow>
     hr_Status (xc_response z) = None \<and> hr_Body (xc_response z) = hr_Body (xc_response x) \<and> xc_stores z = xc_stores x
     \<and> xc_audit z = xc_audit x \<and> xc_router z = failedAt e i chain k (xc_router x) \<and> xc_sent z = xc_sent x @ calls ad (take n chain)"

definition reserves :: "'w Inbound \<Rightarrow> Admitted \<Rightarrow> nat \<Rightarrow> ChainTarget \<Rightarrow> budget_error + budgetAttempt option \<Rightarrow> bool" where
  "reserves e ad i ct res \<longleftrightarrow>
     (\<exists>w w'. ReserveBudget (ib_budget e i 0) (ad_bundle ad) (rx_principal (ad_context ad)) ct (ad_state ad) (ib_decode e (ad_raw ad)) w = (w', res))"

definition budgetRefused :: "MessagesHandler \<Rightarrow> 'w Inbound \<Rightarrow> budget_error \<Rightarrow> 'w Exchange \<Rightarrow> 'w Exchange \<Rightarrow> bool" where
  "budgetRefused h e err z y \<longleftrightarrow>
     hr_Status (xc_response y) = Some (BudgetStatus err)
     \<and> hr_Body (xc_response y) = hr_Body (xc_response z) @ errorBytes e ''insufficient_quota'' ''budget authority unavailable''
     \<and> xc_stores y = xc_stores z \<and> xc_router y = xc_router z \<and> xc_sent y = xc_sent z
     \<and> (if mh_aud h then \<exists>rec. xc_audit y = xc_audit z @ [rec] \<and> map_option ao_Status (ar_Outcome rec) = Some (BudgetStatus err) else xc_audit y = xc_audit z)"

lemma headers_sel [exchange_simps]:
  "hr_Status (xc_response (fallbackHeaders i m ct x)) = hr_Status (xc_response x)" "hr_Body (xc_response (fallbackHeaders i m ct x)) = hr_Body (xc_response x)"
  "xc_router (fallbackHeaders i m ct x) = xc_router x" "xc_stores (fallbackHeaders i m ct x) = xc_stores x"
  "xc_audit (fallbackHeaders i m ct x) = xc_audit x" "xc_sent (fallbackHeaders i m ct x) = xc_sent x"
  "hr_Status (xc_response (budgetHeaders err x)) = hr_Status (xc_response x)" "hr_Body (xc_response (budgetHeaders err x)) = hr_Body (xc_response x)"
  "xc_router (budgetHeaders err x) = xc_router x" "xc_stores (budgetHeaders err x) = xc_stores x"
  "xc_audit (budgetHeaders err x) = xc_audit x" "xc_sent (budgetHeaders err x) = xc_sent x"
  by (simp_all add: fallbackHeaders_def budgetHeaders_def Let_def exchange_simps split: option.splits)

lemma msg_audit_sel [exchange_simps]:
  "xc_response (msg_audit h e c m u o' b x) = xc_response x" "xc_router (msg_audit h e c m u o' b x) = xc_router x"
  "xc_stores (msg_audit h e c m u o' b x) = xc_stores x" "xc_sent (msg_audit h e c m u o' b x) = xc_sent x"
  "xc_affinity (msg_audit h e c m u o' b x) = xc_affinity x"
  by (simp_all add: msg_audit_def exchange_simps)

lemma msg_audit_record:
  "xc_audit (msg_audit h e c m u o' b x) = xc_audit x @ (if mh_aud h then [requestRecord e ''request_started'' c m u b o' x] else [])"
  "ar_Outcome (requestRecord e event c m u b o' x) = o'"
  by (simp_all add: msg_audit_def exchange_simps requestRecord_def)

lemma answered_onAttempt: "closedWith h e i c ct pr table a x (onAttempt f y) = closedWith h e i c ct pr table a x y"
  by (simp add: closedWith_def exchange_simps)

lemma calls_simps [simp]: "calls ad [] = []" "calls ad (ct # cts) = (ct, proxyRequest ad ct) # calls ad cts"
  by (simp_all add: calls_def)

lemma failedAt_Cons: "failedAt e (Suc i) rest k (RecordResult (ib_now e i) (ct_Identity ct) False r) = failedAt e i (ct # rest) (Suc k) r"
proof -
  have "[0..<Suc k] = 0 # map Suc [0..<k]" by (simp add: map_Suc_upt upt_conv_Cons)
  then show ?thesis by (simp add: failedAt_def fold_map o_def)
qed

lemma answerAt_Cons: "answerAt e ad i (ct # rest) (Suc k) = answerAt e ad (Suc i) rest k"
  by (simp add: answerAt_def crossAt_def)

lemma cross_first: "crossAt (ct # rest) 0 = (case rest of [] \<Rightarrow> False | n # _ \<Rightarrow> ct_Model n \<noteq> ct_Model ct)"
  by (cases rest) (simp_all add: crossAt_def)

text \<open>How the loop ends: at some target, after all before it failed and were reserved.\<close>

definition chainEnds :: "MessagesHandler \<Rightarrow> 'w Inbound \<Rightarrow> Admitted \<Rightarrow> nat \<Rightarrow> ChainTarget list \<Rightarrow> nat \<Rightarrow> 'w Exchange \<Rightarrow> 'w Exchange \<Rightarrow> bool" where
  "chainEnds h e ad i chain k x y \<longleftrightarrow>
     k < length chain \<and> (\<forall>j < k. answerAt e ad i chain j = None \<and> (\<exists>att. reserves e ad (i + j) (chain ! j) (Inr att)))
     \<and> ((\<exists>a z att. answerAt e ad i chain k = Some a \<and> reserves e ad (i + k) (chain ! k) (Inr att) \<and> triedUpTo e ad i chain k (Suc k) x z
            \<and> closedWith h e (i + k) (attemptContext ad (chain ! k)) (chain ! k) (proxyRequest ad (chain ! k)) (admittedTable ad) a z y)
        \<or> (\<exists>err z. reserves e ad (i + k) (chain ! k) (Inl err) \<and> triedUpTo e ad i chain k k x z \<and> budgetRefused h e err z y))"

lemma chainEnds_Suc:
  assumes "chainEnds h e ad (Suc i) rest k x' y" and "answerAt e ad i (ct # rest) 0 = None" and "reserves e ad i ct (Inr att)"
    and "triedUpTo e ad i (ct # rest) 1 1 x x'"
  shows "chainEnds h e ad i (ct # rest) (Suc k) x y"
proof -
  have router: "failedAt e (Suc i) rest k (xc_router x') = failedAt e i (ct # rest) (Suc k) (xc_router x)"
    using assms(4) failedAt_Cons [of e i rest k ct "xc_router x"] by (simp add: triedUpTo_def failedAt_def)
  have reach: "triedUpTo e ad i (ct # rest) (Suc k) (Suc n) x z" if "triedUpTo e ad (Suc i) rest k n x' z" for n z
    using that assms(4) router by (simp add: triedUpTo_def)
  have "answerAt e ad i (ct # rest) j = None \<and> (\<exists>att. reserves e ad (i + j) ((ct # rest) ! j) (Inr att))" if "j < Suc k" for j
    using that assms(1-3) by (cases j) (auto simp: chainEnds_def answerAt_Cons)
  then show ?thesis using assms(1) reach unfolding chainEnds_def by (auto simp: answerAt_Cons) blast+
qed

lemma chain_ends:
  assumes "hr_Status (xc_response x) = None" and "chain \<noteq> []"
  shows "\<exists>k. chainEnds h e ad i chain k x (serveChain h e ad i chain x)"
  using assms
proof (induction chain arbitrary: i x)
  case (Cons ct rest)
  define y where "y = serveChain h e ad i (ct # rest) x"
  define x1 where "x1 = fallbackHeaders i (ad_model ad) ct x"
  obtain w res where res: "ReserveBudget (ib_budget e i 0) (ad_bundle ad) (rx_principal (ad_context ad)) ct (ad_state ad) (ib_decode e (ad_raw ad)) (xc_world x1) = (w, res)"
    by fastforce
  then have r: "reserves e ad i ct res" by (auto simp: reserves_def)
  have "\<exists>k. chainEnds h e ad i (ct # rest) k x y"
  proof (cases res)
    case (Inl err)
    define z where "z = budgetHeaders err (x1\<lparr>xc_world := w\<rparr>)"
    have "triedUpTo e ad i (ct # rest) 0 0 x z" using Cons.prems(1) by (simp add: triedUpTo_def z_def x1_def exchange_simps failedAt_def)
    moreover have "budgetRefused h e err z y"
      using res Inl Cons.prems(1) by (simp add: y_def x1_def [symmetric]) (simp add: budgetRefused_def exchange_simps msg_audit_record z_def x1_def outcomeRef_def)
    ultimately have "chainEnds h e ad i (ct # rest) 0 x y"
      using r Inl by (auto simp: chainEnds_def)
    then show ?thesis by blast
  next
    case (Inr att)
    let ?pr = "proxyRequest ad ct" and ?cross = "crossAt (ct # rest) 0"
    define x2 where "x2 = x1\<lparr>xc_world := w, xc_attempt := att, xc_sent := xc_sent x1 @ [(ct, ?pr)]\<rparr>"
    obtain x3 retriable where x3: "(if pr_Stream ?pr then serveStream h e i (attemptContext ad ct) ct ?pr (rest = []) ?cross (admittedTable ad) x2
        else serveComplete h e i (attemptContext ad ct) ct ?pr (rest = []) ?cross (admittedTable ad) x2) = (x3, retriable)" by fastforce
    have run: "y =
        (if \<not> retriable then onAttempt (finalizer (ib_budget e i 2)) x3
         else serveChain h e ad (Suc i) rest (msg_record (ib_now e i) ct False (onAttempt (finalizer (ib_budget e i 2)) x3)))"
      using res Inr x3 by (simp add: y_def x1_def x2_def attemptContext_def admittedTable_def proxyRequest_def cross_first Let_def split: if_splits)
    have x2: "triedUpTo e ad i (ct # rest) 0 1 x x2" using Cons.prems(1) by (simp add: triedUpTo_def x2_def x1_def exchange_simps failedAt_def)
    then have open_: "hr_Status (xc_response x2) = None" by (simp add: triedUpTo_def)
    have ans: "answerAt e ad i (ct # rest) 0 = targetAnswer e i ?pr (rest = []) ?cross" by (auto simp: answerAt_def)
    note served = target_served [OF open_ x3]
    show ?thesis
    proof (cases "targetAnswer e i ?pr (rest = []) ?cross")
      case (Some a)
      then have "closedWith h e i (attemptContext ad ct) ct ?pr (admittedTable ad) a x2 y"
        using served by (simp add: run answered_onAttempt)
      then have "chainEnds h e ad i (ct # rest) 0 x y"
        using x2 r Inr ans Some by (auto simp: chainEnds_def)
      then show ?thesis by blast
    next
      case None
      then have n: "retriable" "x3 = x2" "rest \<noteq> []" using served by auto
      define x4 where "x4 = msg_record (ib_now e i) ct False (onAttempt (finalizer (ib_budget e i 2)) x3)"
      have x4: "triedUpTo e ad i (ct # rest) 1 1 x x4"
        using x2 n by (simp add: triedUpTo_def x4_def exchange_simps failedAt_def)
      then have "hr_Status (xc_response x4) = None" by (simp add: triedUpTo_def)
      from Cons.IH [OF this n(3), of "Suc i"] obtain k where "chainEnds h e ad (Suc i) rest k x4 y"
        using n by (auto simp: run x4_def)
      from chainEnds_Suc [OF this _ r [unfolded Inr] x4] ans None show ?thesis by metis
    qed
  qed
  then show ?case by (simp only: y_def)
qed simp

section \<open>The stages before\<close>

text \<open>A refusal writes a status and, where there is an audit log, a record with that status.\<close>

definition refusedWith :: "MessagesHandler \<Rightarrow> 'w Exchange \<Rightarrow> 'w Exchange \<Rightarrow> bool" where
  "refusedWith h x y \<longleftrightarrow>
     xc_sent y = xc_sent x \<and> (\<exists>code. hr_Status (xc_response y) = Some code
       \<and> (if mh_aud h then \<exists>rec. xc_audit y = xc_audit x @ [rec] \<and> map_option ao_Status (ar_Outcome rec) = Some code else xc_audit y = xc_audit x))"

lemma refusal:
  assumes "hr_Status (xc_response x) = None" and "xc_sent x = xc_sent x0" and "xc_audit x = xc_audit x0"
  shows "refusedWith h x0 (writeErr e code t m (msg_audit h e c model up (Some (outcomeRef code err)) b x))"
  using assms by (simp add: refusedWith_def exchange_simps msg_audit_record outcomeRef_def)

text \<open>Until the governor is asked, only headers and the affinity store change.\<close>

definition untouched :: "'w Exchange \<Rightarrow> 'w Exchange \<Rightarrow> bool" where
  "untouched x y \<longleftrightarrow>
     hr_Status (xc_response y) = hr_Status (xc_response x) \<and> hr_Body (xc_response y) = hr_Body (xc_response x) \<and> xc_router y = xc_router x
     \<and> xc_stores y = xc_stores x \<and> xc_audit y = xc_audit x \<and> xc_sent y = xc_sent x"

lemma untouched_simps:
  "untouched x x" "untouched x (setHeader k v y) = untouched x y" "untouched x (y\<lparr>xc_affinity := s\<rparr>) = untouched x y"
  "untouched x (y\<lparr>xc_token := t\<rparr>) = untouched x y"
  by (simp_all add: untouched_def exchange_simps)

lemma untouched_headers: "untouched x y \<Longrightarrow> untouched x (fold (\<lambda>(k, v). setHeader k v) hs y)"
  by (induction hs arbitrary: y) (auto simp: untouched_simps)

lemma untouched_trans: "untouched x y \<Longrightarrow> untouched y z \<Longrightarrow> untouched x z"
  by (simp add: untouched_def)

lemma refusedWith_untouched: "untouched x x' \<Longrightarrow> refusedWith h x' y \<Longrightarrow> refusedWith h x y"
  by (auto simp: refusedWith_def untouched_def)

lemma refusal_untouched:
  "untouched x y \<Longrightarrow> hr_Status (xc_response x) = None \<Longrightarrow> refusedWith h x (writeErr e code t m (msg_audit h e c model up (Some (outcomeRef code err)) b y))"
  by (auto intro!: refusal simp: untouched_def)

lemma substitute_untouched:
  assumes "substituteModel e p m x = (y, served, c)"
  shows "untouched x y \<and> xc_affinity y = xc_affinity x \<and> rx_principal c = p"
  using assms by (auto simp: substituteModel_def untouched_simps exchange_simps split: prod.splits if_splits)

lemma name_model:
  assumes "ib_body e = Some raw" and "ib_parse e zeroChat raw = Some parsed" and "ib_principal e = Some p" and "hr_Status (xc_response x) = None"
  shows "case nameModel h e x of
      Inl y \<Rightarrow> refusedWith h x y
    | Inr (x1, nm) \<Rightarrow> untouched x x1 \<and> xc_affinity x1 = xc_affinity x \<and> rx_principal (nm_context nm) = p \<and> nm_state nm = ib_load e 5 \<and> nm_raw nm = raw"
proof -
  obtain requested fb where res: "ResolveModel (ib_load e 0) (cr_Model parsed) = (requested, fb)" by fastforce
  define x1 where "x1 = (if fb then setHeader ''x-inferplane-model-fallback'' requested x else x)"
  obtain x2 model c where sub: "substituteModel e p requested x1 = (x2, model, c)" by (metis prod_cases3)
  have "untouched x x1" "xc_affinity x1 = xc_affinity x" by (simp_all add: x1_def untouched_simps exchange_simps)
  with substitute_untouched [OF sub] have u: "untouched x x2" "xc_affinity x2 = xc_affinity x" "rx_principal c = p" by (auto intro: untouched_trans)
  note named = nameModel_def [of h e x, unfolded assms(1-3) option.case res prod.case Let_def, folded x1_def, unfolded sub prod.case]
  show ?thesis
    using refusal_untouched [OF u(1) assms(4)] u
    by (cases "ResolveChain (ib_clkChain e) (xc_router x2) (ib_load e 5) model") (simp_all add: named)
qed

lemma name_model_principal:
  assumes "nameModel h e x = Inr (x1, nm)"
  obtains raw parsed p where "ib_body e = Some raw" "ib_parse e zeroChat raw = Some parsed" "ib_principal e = Some p"
  using assms by (auto simp: nameModel_def Let_def split: option.splits prod.splits)

lemma route_stage:
  assumes "hr_Status (xc_response x) = None"
  shows "case routeStage h e nm x of
      Inl y \<Rightarrow> refusedWith h x y
    | Inr (x2, ro) \<Rightarrow> untouched x x2 \<and> rx_principal (ro_context ro) = rx_principal (nm_context nm)
        \<and> (\<exists>store. RouteRequest (ib_route e) (ib_other e) (xc_router x) (xc_affinity x) (routingInput h e nm) = (store, ro_result ro, None))"
proof -
  obtain store result err where route: "RouteRequest (ib_route e) (ib_other e) (xc_router x) (xc_affinity x) (routingInput h e nm) = (store, result, err)"
    by (metis prod_cases3)
  let ?obs = "routing_Observe result \<lparr>rc_bundle = None, rc_routing = None, rc_headers = []\<rparr>"
  have u: "untouched x (fold (\<lambda>(k, v). setHeader k v) (rc_headers ?obs) (x\<lparr>xc_affinity := store\<rparr>))"
    by (intro untouched_headers) (simp add: untouched_simps)
  show ?thesis
  proof (cases err)
    case None
    then show ?thesis using route u by (simp add: routeStage_def Let_def untouched_simps)
  next
    case (Some re)
    then show ?thesis using route refusal_untouched [OF u assms] by (simp add: routeStage_def Let_def)
  qed
qed

text \<open>The body that leaves the masking stage.\<close>

definition chosenBody :: "Named \<Rightarrow> RequestRoutingResult \<Rightarrow> string" where
  "chosenBody nm result = (if rs_MaskRequired result then the (rs_SanitizedBody result) else nm_raw nm)"

lemma mask_refused:
  assumes "hr_Status (xc_response x) = None"
  shows "refusedWith h x (maskRefusal h e ro x)"
  unfolding maskRefusal_def by (rule refusal_untouched [OF untouched_simps(1) assms])

lemma maskBody_count:
  assumes "maskBody dec enc f raw = Inr (body, n)" and "honestFilter f"
  shows "0 \<le> n \<and> (n = 0 \<longrightarrow> body = raw)"
proof -
  obtain doc doc' where d: "maskJson f doc = Inr (doc', n)" "body = (if n = 0 then raw else enc doc')"
    using assms(1) by (auto simp: maskBody_def split: option.splits sum.splits)
  have "0 \<le> n" using json_masked [OF assms(2) d(1)] honest_nonneg [OF assms(2)] by simp
  then show ?thesis using d(2) by simp
qed

lemma mask_stage:
  assumes "hr_Status (xc_response x) = None" and "honestFilter (filterOf (mh_mask h))"
  shows "case maskStage h e nm ro x of
      Inl y \<Rightarrow> refusedWith h x y \<or> policyBody e nm ro x = Inl y
    | Inr (raw, parsed, masked) \<Rightarrow>
        if mask_Enabled (mh_mask h) (pn_Team (rx_principal (ro_context ro)))
        then \<exists>n. maskBody (ib_decode e) (ib_encode e) (filterOf (mh_mask h)) (chosenBody nm (ro_result ro)) = Inr (raw, n)
        else raw = chosenBody nm (ro_result ro)"
proof (cases "policyBody e nm ro x")
  case (Inl y)
  then show ?thesis by (simp add: maskStage_def)
next
  case (Inr res)
  then obtain raw parsed where p: "policyBody e nm ro x = Inr (raw, parsed)" by (cases res) auto
  then have raw: "raw = chosenBody nm (ro_result ro)" by (auto simp: policyBody_def chosenBody_def split: if_splits option.splits)
  show ?thesis
    using p mask_refused [OF assms(1)] maskBody_count [OF _ assms(2)]
    by (cases "maskBody (ib_decode e) (ib_encode e) (filterOf (mh_mask h)) raw")
      (force simp: maskStage_def raw Let_def split: option.splits prod.splits)+
qed

lemma admission_stage:
  assumes "hr_Status (xc_response x) = None"
  shows "case admissionStage h e ro raw x of
      Inl y \<Rightarrow> refusedWith h x y
    | Inr x3 \<Rightarrow>
        (let result = ro_result ro; p = rx_principal (ro_context ro); win = evidenceWindow (rs_State result) (rs_Model result)
         in (0 < win \<longrightarrow> estimateTokens raw \<le> win)
            \<and> gd_Allowed (PricingGuard (case rs_State result of None \<Rightarrow> None | Some st \<Rightarrow> ls_pricing st) (pricedTargets (rs_Chain result)))
            \<and> (\<forall>g. mh_gov h = Some g \<longrightarrow> gd_Allowed (snd (PreCheck (ib_clkCheck e) g (subjectOf p) (keyPolicyOf p) (estimateTokens raw) (xc_stores x))))
            \<and> x3 = x\<lparr>xc_stores := (case mh_gov h of None \<Rightarrow> xc_stores x
                | Some g \<Rightarrow> fst (PreCheck (ib_clkCheck e) g (subjectOf p) (keyPolicyOf p) (estimateTokens raw) (xc_stores x)))\<rparr>)"
proof -
  have ref: "refusedWith h x (govRefusal h e ro dec (x\<lparr>xc_stores := s\<rparr>))" for dec s
    unfolding govRefusal_def by (rule refusal) (simp_all add: assms)
  have ref': "refusedWith h x (govRefusal h e ro dec x)" for dec
    using ref [of dec "xc_stores x"] by simp
  show ?thesis
    using ref ref' refusal_untouched [OF untouched_simps(1) assms]
    by (auto simp: admissionStage_def Let_def split: option.splits prod.splits)
qed

section \<open>The topology of a decision\<close>

lemma deny_state: "denyRouting out reason cause = (out', err) \<Longrightarrow> rs_State out' = rs_State out"
  by (auto simp: denyRouting_def)

lemma finish_state: "finishRouting out chain = (out', err) \<Longrightarrow> rs_State out' = rs_State out"
  by (auto simp: finishRouting_def dest: deny_state split: list.splits)

lemma decorated_state [simp]:
  "rs_State (withReason c out) = rs_State out" "rs_State (withPrivacy c out) = rs_State out" "rs_State (withMasked c out) = rs_State out"
  "rs_State (withInspection s out) = rs_State out" "rs_State (inspectionFailed out) = rs_State out"
  by (simp_all add: withReason_def withPrivacy_def withMasked_def withInspection_def inspectionFailed_def)

lemma safe_state:
  assumes "safeRouting env r b tight out = (out', err)"
  shows "rs_State out' = rs_State out"
  using assms by (auto simp: safeRouting_def Let_def dest!: deny_state finish_state split: if_splits option.splits)

lemma context_state:
  assumes "finishContext env other r store b rules s (out, err) = (store', out', err')"
  shows "rs_State out' = rs_State out"
  using finish_context_routes [OF assms] by (auto simp: refines_def split: option.splits)

lemma private_state:
  assumes "routePrivately env other r store b rules tight s out = (store', out', err)"
  shows "rs_State out' = rs_State out"
proof -
  obtain b' mustMask block where p: "privacyRules s rules b = (b', mustMask, block)" by (metis prod_cases3)
  have chained: "rs_State out' = rs_State o1"
    if "finishContext env other r store b1 rules s1 (safeRouting env r b1 tight o1) = (store', out', err)" for b1 s1 o1
    using that by (cases "safeRouting env r b1 tight o1") (metis context_state safe_state)
  show ?thesis
    using assms by (auto simp: routePrivately_def p Let_def dest!: deny_state chained split: if_splits option.splits)
qed

lemma routed_state:
  assumes "RouteRequest env other r store inp = (store', out, None)"
  shows "rs_State out = ri_State inp"
proof -
  have inspected: "rs_State out = rs_State o1"
    if "routeInspected env other r store inp' st rules budget early o1 = (store', out, None)" for inp' st rules budget early o1
    using that by (auto simp: routeInspected_def Let_def dest!: deny_state private_state context_state split: if_splits option.splits)
  have "rs_State out = rs_State o1" if "routeInState env other r store inp st docs o1 = (store', out, None)" for st docs o1
    using that by (auto simp: routeInState_def Let_def dest!: deny_state inspected split: if_splits option.splits)
  then show ?thesis
    using assms by (auto simp: RouteRequest_def Let_def initialResult_def dest!: deny_state split: prod.splits sum.splits option.splits)
qed

section \<open>How a request ends\<close>

lemma sent_reserved:
  assumes "chainEnds h e ad 0 chain k x y" and "xc_sent x = []" and "(ct, pr) \<in> set (xc_sent y)"
  shows "ct \<in> set chain \<and> pr = proxyRequest ad ct \<and> (\<exists>i att. reserves e ad i ct (Inr att))"
proof -
  have before: "\<forall>j < k. \<exists>att. reserves e ad j (chain ! j) (Inr att)" using assms(1) by (auto simp: chainEnds_def)
  have "xc_sent y = calls ad (take (Suc k) chain) \<and> (\<exists>att. reserves e ad k (chain ! k) (Inr att)) \<or> xc_sent y = calls ad (take k chain)"
    using assms(1,2) by (auto simp: chainEnds_def triedUpTo_def closedWith_def budgetRefused_def Let_def)
  then obtain n where n: "xc_sent y = calls ad (take n chain)" "\<forall>j < n. \<exists>att. reserves e ad j (chain ! j) (Inr att)"
    using before by (metis less_Suc_eq)
  then obtain j where "j < n" "j < length chain" "ct = chain ! j" "pr = proxyRequest ad ct"
    using assms(3) by (auto simp: calls_def in_set_conv_nth)
  with n(2) show ?thesis by (metis nth_mem)
qed

text \<open>What the gates established for the body \<open>raw\<close> and the routing result.\<close>

definition cleared :: "MessagesHandler \<Rightarrow> 'w Inbound \<Rightarrow> 'w Exchange \<Rightarrow> Principal \<Rightarrow> Named \<Rightarrow> RequestRoutingResult \<Rightarrow> string \<Rightarrow> bool" where
  "cleared h e x p nm result raw \<longleftrightarrow>
     (if mask_Enabled (mh_mask h) (pn_Team p)
      then \<exists>n. maskBody (ib_decode e) (ib_encode e) (filterOf (mh_mask h)) (chosenBody nm result) = Inr (raw, n)
      else raw = chosenBody nm result)
     \<and> (let win = evidenceWindow (Some (ib_load e 5)) (rs_Model result) in 0 < win \<longrightarrow> estimateTokens raw \<le> win)
     \<and> gd_Allowed (PricingGuard (ls_pricing (ib_load e 5)) (pricedTargets (rs_Chain result)))
     \<and> (\<forall>g. mh_gov h = Some g \<longrightarrow>
          gd_Allowed (snd (PreCheck (ib_clkCheck e) g (subjectOf p) (keyPolicyOf p) (estimateTokens raw) (xc_stores x))))"

lemma serve_cases:
  assumes "hr_Status (xc_response x) = None" and "honestFilter (filterOf (mh_mask h))"
    and "ib_body e = Some raw0" and "ib_parse e zeroChat raw0 = Some parsed0" and "ib_principal e = Some p"
  obtains (refused) "refusedWith h x (ServeHTTP h e x)"
  | (unmasked) nm ro z where "policyBody e nm ro z = Inl (ServeHTTP h e x)" "untouched x z"
  | (served) nm store result ad z where "nm_raw nm = raw0" "rx_principal (nm_context nm) = p" "nm_state nm = ib_load e 5"
      "RouteRequest (ib_route e) (ib_other e) (xc_router x) (xc_affinity x) (routingInput h e nm) = (store, result, None)"
      "cleared h e x p nm result (ad_raw ad)" "rx_principal (ad_context ad) = p" "ad_state ad = Some (ib_load e 5)"
      "ServeHTTP h e x = serveChain h e ad 0 (rs_Chain result) z" "hr_Status (xc_response z) = None" "xc_sent z = xc_sent x"
proof (cases "nameModel h e x")
  case (Inl y)
  then show thesis using name_model [OF assms(3-5,1), of h] refused by (simp add: ServeHTTP_def)
next
  case (Inr res)
  then obtain x1 nm where n: "nameModel h e x = Inr (x1, nm)" by (cases res) auto
  note nm = name_model [OF assms(3-5,1), of h, unfolded n sum.case prod.case]
  then have x1: "hr_Status (xc_response x1) = None" using assms(1) by (simp add: untouched_def)
  show thesis
  proof (cases "routeStage h e nm x1")
    case (Inl y)
    then show thesis using route_stage [OF x1, where h = h and e = e and nm = nm] n nm refused by (auto simp: ServeHTTP_def dest: refusedWith_untouched)
  next
    case (Inr res)
    then obtain x2 ro where r: "routeStage h e nm x1 = Inr (x2, ro)" by (cases res) auto
    note ro = route_stage [OF x1, where h = h and e = e and nm = nm, unfolded r sum.case prod.case]
    then have x2: "untouched x x2" "hr_Status (xc_response x2) = None" using nm x1 by (auto intro: untouched_trans simp: untouched_def)
    obtain store where route: "RouteRequest (ib_route e) (ib_other e) (xc_router x) (xc_affinity x) (routingInput h e nm) = (store, ro_result ro, None)"
      using ro nm by (auto simp: untouched_def)
    have st: "rs_State (ro_result ro) = Some (ib_load e 5)" using routed_state [OF route] nm by (simp add: routingInput_def Let_def)
    show thesis
    proof (cases "maskStage h e nm ro x2")
      case (Inl y)
      then show thesis using mask_stage [OF x2(2) assms(2), where e = e and nm = nm and ro = ro] n r x2(1) refused unmasked
        by (auto simp: ServeHTTP_def dest: refusedWith_untouched)
    next
      case (Inr res)
      then obtain raw parsed masked where m: "maskStage h e nm ro x2 = Inr (raw, parsed, masked)" by (cases res) auto
      note mk = mask_stage [OF x2(2) assms(2), where e = e and nm = nm and ro = ro, unfolded m sum.case prod.case]
      note adm = admission_stage [OF x2(2), where h = h and e = e and ro = ro and raw = raw]
      show thesis
      proof (cases "admissionStage h e ro raw x2")
        case (Inl y)
        then show thesis using adm n r m x2(1) refused by (auto simp: ServeHTTP_def dest: refusedWith_untouched)
      next
        case (Inr x3)
        note ok = adm [unfolded Inr sum.case Let_def]
        have stores: "xc_stores x2 = xc_stores x" using x2(1) by (simp add: untouched_def)
        have clr: "cleared h e x p nm (ro_result ro) raw" using ok mk nm ro st stores unfolding cleared_def Let_def by auto
        define ad where "ad = \<lparr>ad_context = ro_context ro, ad_model = rs_Model (ro_result ro), ad_state = rs_State (ro_result ro),
          ad_raw = raw, ad_parsed = parsed, ad_guardrail = guardrailOf h (teamOf h (rx_principal (ro_context ro))), ad_bundle = ro_bundle ro\<rparr>"
        define z where "z = msg_audit h e (ro_context ro) (rs_Model (ro_result ro)) (firstUpstream (rs_Chain (ro_result ro))) None masked x3"
        have run: "ServeHTTP h e x = serveChain h e ad 0 (rs_Chain (ro_result ro)) z"
          by (simp add: ServeHTTP_def n r m Inr ad_def z_def Let_def)
        have "hr_Status (xc_response x3) = None" "xc_sent x3 = xc_sent x" using ok x2 by (simp_all add: untouched_def)
        then have z: "hr_Status (xc_response z) = None" "xc_sent z = xc_sent x" by (simp_all add: z_def exchange_simps)
        show thesis
          by (rule served [OF _ _ _ route _ _ _ run z]) (use clr nm ro st in \<open>simp_all add: ad_def\<close>)
      qed
    qed
  qed
qed

lemma policy_refusal:
  assumes "policyBody e nm ro z = Inl y"
  shows "xc_sent y = xc_sent z \<and> xc_audit y = xc_audit z \<and> rs_MaskRequired (ro_result ro)
    \<and> hr_Status (xc_response y) = Some (case hr_Status (xc_response z) of None \<Rightarrow> 400 | Some c \<Rightarrow> c)"
  using assms by (auto simp: policyBody_def exchange_simps split: if_splits option.splits)

lemma unauthenticated:
  assumes "xc_sent (ServeHTTP h e x) \<noteq> xc_sent x"
  obtains raw parsed p where "ib_body e = Some raw" "ib_parse e zeroChat raw = Some parsed" "ib_principal e = Some p"
  using assms by (auto simp: ServeHTTP_def nameModel_def Let_def exchange_simps split: option.splits prod.splits if_splits)

section \<open>The usage of a stream\<close>

text \<open>The usage reports of a stream in the order they arrive; a frame may carry two.\<close>

definition reports :: "StreamEvent list \<Rightarrow> SchemaUsage list" where
  "reports evs = concat (map (\<lambda>ev. case ev_Chunk ev of None \<Rightarrow> []
     | Some ch \<Rightarrow> (case sc_MessageUsage ch of None \<Rightarrow> [] | Some u \<Rightarrow> [u]) @ (case sc_Usage ch of None \<Rightarrow> [] | Some u \<Rightarrow> [u])) evs)"

definition mergeAll :: "SchemaUsage list \<Rightarrow> SchemaUsage option \<Rightarrow> SchemaUsage option" where
  "mergeAll us acc = fold (\<lambda>u a. MergeUsage a (Some u)) us acc"

lemma observed_usage: "fst (fold observeEvent evs t) = mergeAll (reports evs) (fst t)"
proof (induction evs arbitrary: t)
  case (Cons ev evs)
  have "fst (observeEvent ev t) = mergeAll (reports [ev]) (fst t)"
    by (cases t) (simp add: observeEvent_def reports_def mergeAll_def MergeUsage_def split: option.splits)
  then show ?case using Cons.IH [of "observeEvent ev t"] by (simp add: reports_def mergeAll_def)
qed (simp add: reports_def mergeAll_def)

text \<open>The last count that was reported at all.\<close>

definition latestOf :: "'a option list \<Rightarrow> 'a option" where
  "latestOf xs = (case filter (\<lambda>v. v \<noteq> None) (rev xs) of [] \<Rightarrow> None | v # _ \<Rightarrow> v)"

lemma latestOf_snoc: "latestOf (xs @ [v]) = newer (latestOf xs) v"
  by (cases v) (simp_all add: latestOf_def newer_def)

lemma record_same: "su_CacheCreation u = v \<Longrightarrow> u\<lparr>su_CacheCreation := v\<rparr> = u"
  by auto

text \<open>A count of the usage whose merging takes the newer value.\<close>

locale merged_count =
  fixes sel :: "SchemaUsage \<Rightarrow> int option"
  assumes merges: "map_option sel (MergeUsage (Some a) (Some n)) = Some (newer (sel a) (sel n))"
begin

lemma latest: "us \<noteq> [] \<Longrightarrow> map_option sel (mergeAll us None) = Some (latestOf (map sel us))"
proof (induction us rule: rev_induct)
  case (snoc u us)
  show ?case
  proof (cases "us = []")
    case True
    have "map_option sel (MergeUsage None (Some u)) = Some (sel u)"
      by (cases "su_CacheCreation u") (simp_all add: MergeUsage_def mergeCacheCreation_def record_same)
    moreover have "latestOf [sel u] = sel u" by (simp add: latestOf_def)
    ultimately show ?thesis using True by (simp add: mergeAll_def)
  next
    case False
    with snoc.IH obtain a where "mergeAll us None = Some a" "sel a = latestOf (map sel us)" by auto
    then show ?thesis using merges [of a u] by (simp add: mergeAll_def latestOf_snoc)
  qed
qed simp

end

interpretation inputCount: merged_count su_InputTokens
  by unfold_locales (simp add: MergeUsage_def)

interpretation outputCount: merged_count su_OutputTokens
  by unfold_locales (simp add: MergeUsage_def)

interpretation cacheReadCount: merged_count su_CacheReadInputTokens
  by unfold_locales (simp add: MergeUsage_def)

interpretation cacheWriteCount: merged_count su_CacheCreationInputTokens
  by unfold_locales (simp add: MergeUsage_def)

definition tierCount :: "(SchemaCacheCreation \<Rightarrow> int option) \<Rightarrow> SchemaUsage \<Rightarrow> int option" where
  "tierCount sel u = Option.bind (su_CacheCreation u) sel"

interpretation write5mCount: merged_count "tierCount scc_Ephemeral5mInputTokens"
  by unfold_locales (auto simp: MergeUsage_def mergeCacheCreation_def tierCount_def newer_def split: option.splits)

interpretation write1hCount: merged_count "tierCount scc_Ephemeral1hInputTokens"
  by unfold_locales (auto simp: MergeUsage_def mergeCacheCreation_def tierCount_def newer_def split: option.splits)

section \<open>A sample request\<close>

definition chatKey :: Principal where
  "chatKey = (sampleKey [''*''])\<lparr>pn_Team := ''acme''\<rparr>"

definition chatHandler :: MessagesHandler where
  "chatHandler = \<lparr>mh_aud = True, mh_gov = Some demo_gov, mh_mask = Some \<lparr>mk_Filter = Some nameFilter, mk_Global = True, mk_Teams = Mapping.empty\<rparr>,
     mh_teamPolicy = None, mh_guardrail = (\<lambda>_. ([], [])), mh_bodies = None, mh_usage = True\<rparr>"

definition chatUsage :: SchemaUsage where
  "chatUsage = \<lparr>su_InputTokens = Some 3, su_OutputTokens = Some 5, su_CacheReadInputTokens = None, su_CacheCreationInputTokens = None,
     su_CacheCreation = None, su_AccountingUncertain = False\<rparr>"

definition chatAnswer :: ProxyResponse where
  "chatAnswer = \<lparr>ps_StatusCode = 200, ps_Headers = [], ps_RawBody = ''hi'', ps_Parsed = Some (Some chatUsage)\<rparr>"

text \<open>The first \<open>n\<close> targets are down, the next one answers.\<close>

definition chatInbound :: "nat \<Rightarrow> unit Inbound" where
  "chatInbound n = \<lparr>ib_body = Some ''body'', ib_parse = (\<lambda>_ _. Some \<lparr>cr_Model = ''m-2'', cr_Stream = None, cr_Fields = []\<rparr>),
     ib_decode = (\<lambda>s. Some (chatBody (if s = ''body'' then ''bob'' else ''[name]''))), ib_encode = (\<lambda>_. ''masked''),
     ib_principal = Some chatKey, ib_sessionID = [], ib_load = (\<lambda>_. sampleState), ib_clkChain = (\<lambda>_. 10), ib_route = sampleEnv [], ib_other = id,
     ib_redactorWith = (\<lambda>_ _ _. None), ib_clkCheck = (\<lambda>_. 10), ib_clkSettle = (\<lambda>_. 10), ib_now = (\<lambda>_. 10), ib_nowSuccess = 10,
     ib_cancelled = False, ib_flusher = True, ib_id = (\<lambda>_. ''id''), ib_ts = (\<lambda>_. ''ts''), ib_traceID = [],
     ib_budget = (\<lambda>_ _. \<lparr>bg_authority = None, bg_shared = None, bg_notifyBudget = False, bg_notifyKeyBudget = False\<rparr>),
     ib_complete = (\<lambda>i _. if i < n then Inl OtherError else Inr chatAnswer), ib_stream = (\<lambda>_ _. Inl OtherError)\<rparr>"

definition chatExchange :: "unit Exchange" where
  "chatExchange = \<lparr>xc_response = \<lparr>hr_Header = [], hr_Status = None, hr_Body = []\<rparr>, xc_router = NewRouter, xc_affinity = None, xc_stores = demo_stores 40,
     xc_world = (), xc_attempt = None, xc_token = None, xc_audit = [], xc_usage = [], xc_notes = [], xc_sent = []\<rparr>"

definition chatTarget :: "string \<Rightarrow> ChainTarget" where
  "chatTarget name = \<lparr>ct_Provider = None, ct_ProviderName = name, ct_Identity = name, ct_Upstream = ''up2'', ct_Model = ''m-2'', ct_Region = [], ct_DataBoundary = []\<rparr>"

definition chatAdmitted :: Admitted where
  "chatAdmitted = \<lparr>ad_context = \<lparr>rx_principal = chatKey, rx_from = [], rx_routing = None\<rparr>, ad_model = ''m-2'', ad_state = Some sampleState, ad_raw = ''masked'',
     ad_parsed = \<lparr>cr_Model = ''m-2'', cr_Stream = None, cr_Fields = []\<rparr>, ad_guardrail = ([], []), ad_bundle = ([], [])\<rparr>"

lemma chat_honest: "honestFilter (filterOf (mh_mask chatHandler))"
  by (simp add: chatHandler_def filterOf_def honestFilter_def nameFilter_def)

lemma chat_start: "hr_Status (xc_response chatExchange) = None" "xc_sent chatExchange = []" "wfTopology (ib_load (chatInbound n) 5)"
  using sample_wf by (simp_all add: chatExchange_def chatInbound_def)

lemma chat_in: "ib_body (chatInbound n) = Some ''body''" "ib_parse (chatInbound n) zeroChat ''body'' = Some \<lparr>cr_Model = ''m-2'', cr_Stream = None, cr_Fields = []\<rparr>"
  "ib_principal (chatInbound n) = Some chatKey"
  by (simp_all add: chatInbound_def)

lemma chat_reserved: "\<not> reserves (chatInbound n) ad i ct (Inl err)"
  by (simp add: reserves_def chatInbound_def ReserveBudget_def)

definition chatChain :: "ChainTarget list" where
  "chatChain = [chatTarget ''a'', chatTarget ''b'']"

definition chatDown :: "unit Inbound" where
  "chatDown = chatInbound 1"

definition chatEnd :: "unit Exchange" where
  "chatEnd = serveChain chatHandler chatDown chatAdmitted 0 chatChain chatExchange"

lemma chat_answers:
  "answerAt chatDown chatAdmitted 0 chatChain 0 = None" "answerAt chatDown chatAdmitted 0 chatChain 1 = Some (completeAnswer chatAnswer)"
  by code_simp+

text \<open>The second target is the one that answers.\<close>

lemma chat_second:
  assumes "k < length chatChain" and "answerAt chatDown chatAdmitted 0 chatChain k = Some a"
  shows "k = 1" and "a = completeAnswer chatAnswer"
proof -
  have "k \<noteq> 0"
  proof
    assume "k = 0"
    with assms(2) chat_answers(1) show False by simp
  qed
  with assms(1) show "k = 1" by (simp add: chatChain_def)
  with assms(2) chat_answers(2) show "a = completeAnswer chatAnswer" by simp
qed

lemma chat_down: "\<not> reserves chatDown ad i ct (Inl err)"
  using chat_reserved [of 1] by (simp add: chatDown_def)

section \<open>Properties\<close>

text \<open>
  C3: nothing is forwarded before every gate has passed it. A call made to a provider by the
  handler belongs to an authenticated principal; its target was chosen by the routing
  decision and serves a model and lies in a region allowed to the principal; its body is
  the one the privacy rules left, passed through the team's filter where there is one;
  by the estimate it fits the window of the model; every target of the chain has a price
  if the table demands one; the governor admitted the request; and the authority reserved the
  money for this very call.
\<close>

theorem forwarded_only_when_cleared:
  assumes "xc_sent x = []" and "hr_Status (xc_response x) = None" and "wfTopology (ib_load e 5)" and "honestFilter (filterOf (mh_mask h))"
    and "(ct, pr) \<in> set (xc_sent (ServeHTTP h e x))"
  shows "\<exists>p nm store result bundle.
    ib_principal e = Some p \<and> ib_body e = Some (nm_raw nm) \<and> rx_principal (nm_context nm) = p
    \<and> RouteRequest (ib_route e) (ib_other e) (xc_router x) (xc_affinity x) (routingInput h e nm) = (store, result, None)
    \<and> ct \<in> set (rs_Chain result) \<and> pr_Model pr = ct_Model ct \<and> pr_Upstream pr = ct_Upstream ct
    \<and> allowsInState (xc_router x) p (Canonical (ib_load e 5) (ct_Model ct)) (ib_load e 5)
    \<and> regionAllowed (regionsOf (teamOf h p)) (state_Region (ib_load e 5) (ct_ProviderName ct))
    \<and> (if mask_Enabled (mh_mask h) (pn_Team p)
       then \<exists>n. maskBody (ib_decode e) (ib_encode e) (filterOf (mh_mask h)) (chosenBody nm result) = Inr (pr_RawBody pr, n)
       else pr_RawBody pr = chosenBody nm result)
    \<and> (let win = evidenceWindow (Some (ib_load e 5)) (rs_Model result) in 0 < win \<longrightarrow> estimateTokens (pr_RawBody pr) \<le> win)
    \<and> gd_Allowed (PricingGuard (ls_pricing (ib_load e 5)) (pricedTargets (rs_Chain result)))
    \<and> (\<forall>g. mh_gov h = Some g \<longrightarrow>
         gd_Allowed (snd (PreCheck (ib_clkCheck e) g (subjectOf p) (keyPolicyOf p) (estimateTokens (pr_RawBody pr)) (xc_stores x))))
    \<and> (\<exists>i w w' att. ReserveBudget (ib_budget e i 0) bundle p ct (Some (ib_load e 5)) (ib_decode e (pr_RawBody pr)) w = (w', Inr att))"
proof -
  have "xc_sent (ServeHTTP h e x) \<noteq> xc_sent x" using assms(1,5) by auto
  then obtain raw0 parsed0 p where in0: "ib_body e = Some raw0" "ib_parse e zeroChat raw0 = Some parsed0" "ib_principal e = Some p"
    by (rule unauthenticated)
  from assms(2,4) in0 show ?thesis
  proof (cases rule: serve_cases)
    case refused
    then show ?thesis using assms(1,5) by (simp add: refusedWith_def)
  next
    case (unmasked nm ro z)
    then show ?thesis using policy_refusal [OF unmasked(1)] assms(1,5) by (simp add: untouched_def)
  next
    case (served nm store result ad z)
    have inp: "ri_State (routingInput h e nm) = Some (ib_load e 5)" "ri_Principal (routingInput h e nm) = p"
      "ri_AllowedRegions (routingInput h e nm) = regionsOf (teamOf h p)"
      using served(2,3) by (simp_all add: routingInput_def Let_def)
    note auth = routed_authorized [OF served(4) inp(1) assms(3)]
    obtain k where "chainEnds h e ad 0 (rs_Chain result) k z (ServeHTTP h e x)"
      using chain_ends [OF served(9) conjunct1 [OF auth]] unfolding served(8) by blast
    from sent_reserved [OF this _ assms(5)] assms(1) served(10)
    obtain i att where s: "ct \<in> set (rs_Chain result)" "pr = proxyRequest ad ct" "reserves e ad i ct (Inr att)" by auto
    have ok: "allowsInState (xc_router x) p (Canonical (ib_load e 5) (ct_Model ct)) (ib_load e 5)"
      "regionAllowed (regionsOf (teamOf h p)) (state_Region (ib_load e 5) (ct_ProviderName ct))"
      using auth s(1) inp(2,3) by (auto simp: authorized_def)
    have res: "\<exists>i w w' att. ReserveBudget (ib_budget e i 0) (ad_bundle ad) p ct (Some (ib_load e 5)) (ib_decode e (ad_raw ad)) w = (w', Inr att)"
      using s(3) served(6,7) by (auto simp: reserves_def)
    have pr: "pr_RawBody pr = ad_raw ad" "pr_Model pr = ct_Model ct" "pr_Upstream pr = ct_Upstream ct" by (simp_all add: s(2) proxyRequest_def)
    show ?thesis
      by (rule exI [of _ p], rule exI [of _ nm], rule exI [of _ store], rule exI [of _ result], rule exI [of _ "ad_bundle ad"])
        (use in0 served ok res s(1) pr in \<open>simp add: cleared_def\<close>)
  qed
qed

theorem forwarded_only_when_cleared_witness:
  "\<exists>ct pr body n. xc_sent (ServeHTTP chatHandler (chatInbound 0) chatExchange) = [(ct, pr)]
     \<and> maskBody (ib_decode (chatInbound 0)) (ib_encode (chatInbound 0)) nameFilter body = Inr (pr_RawBody pr, n)"
proof -
  have "length (xc_sent (ServeHTTP chatHandler (chatInbound 0) chatExchange)) = 1" by code_simp
  then obtain ct pr where sent: "xc_sent (ServeHTTP chatHandler (chatInbound 0) chatExchange) = [(ct, pr)]" by (auto simp: length_Suc_conv)
  have "mask_Enabled (mh_mask chatHandler) (pn_Team chatKey)" "filterOf (mh_mask chatHandler) = nameFilter"
    by (simp_all add: chatHandler_def mask_Enabled_def filterOf_def)
  moreover have "(ct, pr) \<in> set (xc_sent (ServeHTTP chatHandler (chatInbound 0) chatExchange))" by (simp add: sent)
  ultimately show ?thesis
    using forwarded_only_when_cleared [OF chat_start(2,1,3) chat_honest, of ct pr 0] sent chat_in(3) [of 0] by auto
qed

text \<open>
  C20: the client gets the answer of exactly one target. The targets are called in order; all
  before the last one called failed in a way that allows to go on, each of them counts as
  a failure of its provider, and nothing of them reaches the client; the status and every
  byte of the response are those of the last one, whose provider counts as healthy unless
  it answered with an error; or the money for the next call was refused, which is then
  the answer.
\<close>

theorem one_target_answers:
  assumes "hr_Status (xc_response x) = None" and "chain \<noteq> []" and "y = serveChain h e ad 0 chain x"
  shows "\<exists>k < length chain. (\<forall>j < k. answerAt e ad 0 chain j = None) \<and>
    ((\<exists>a. answerAt e ad 0 chain k = Some a \<and> hr_Status (xc_response y) = Some (an_status a)
        \<and> hr_Body (xc_response y) = hr_Body (xc_response x) @ an_bytes a \<and> xc_sent y = xc_sent x @ calls ad (take (Suc k) chain)
        \<and> xc_router y = (if an_healthy a then RecordResult (ib_now e k) (ct_Identity (chain ! k)) True else id) (failedAt e 0 chain k (xc_router x)))
     \<or> (\<exists>err. reserves e ad k (chain ! k) (Inl err) \<and> hr_Status (xc_response y) = Some (BudgetStatus err)
        \<and> hr_Body (xc_response y) = hr_Body (xc_response x) @ errorBytes e ''insufficient_quota'' ''budget authority unavailable''
        \<and> xc_sent y = xc_sent x @ calls ad (take k chain) \<and> xc_router y = failedAt e 0 chain k (xc_router x)))"
proof -
  obtain k where "chainEnds h e ad 0 chain k x y" using chain_ends [OF assms(1,2)] assms(3) by blast
  then show ?thesis
    by (intro exI [of _ k]) (auto simp: chainEnds_def triedUpTo_def closedWith_def budgetRefused_def Let_def)
qed

theorem one_target_answers_witness:
  "hr_Status (xc_response chatEnd) = Some 200 \<and> hr_Body (xc_response chatEnd) = ''hi'' \<and> map fst (xc_sent chatEnd) = chatChain"
proof -
  have "chatChain \<noteq> []" by (simp add: chatChain_def)
  from one_target_answers [OF chat_start(1) this chatEnd_def] chat_down obtain k a where
    k: "k < length chatChain" "answerAt chatDown chatAdmitted 0 chatChain k = Some a" and y: "hr_Status (xc_response chatEnd) = Some (an_status a)"
      "hr_Body (xc_response chatEnd) = hr_Body (xc_response chatExchange) @ an_bytes a"
      "xc_sent chatEnd = xc_sent chatExchange @ calls chatAdmitted (take (Suc k) chatChain)" by blast
  have "length chatChain = 2" by (simp add: chatChain_def)
  then show ?thesis using y unfolding chat_second [OF k]
    by (simp add: completeAnswer_def chatAnswer_def calls_def chatExchange_def o_def)
qed

text \<open>
  C21: that answer is billed once, and the log says so. Whatever was tried, the stores of the
  governor change only by one settlement, of the usage of the answering target at its own
  price, and not at all without usage or when the money was refused; the one record added
  for the answer carries its status, its usage, whether it was cut short, and the cost that was settled.
\<close>

theorem answer_billed_once:
  assumes "hr_Status (xc_response x) = None" and "chain \<noteq> []" and "y = serveChain h e ad 0 chain x"
  shows "\<exists>k < length chain. (\<forall>j < k. answerAt e ad 0 chain j = None) \<and>
    ((\<exists>a. answerAt e ad 0 chain k = Some a \<and>
        (let pr = proxyRequest ad (chain ! k);
             bill = billing h e (rx_principal (ad_context ad)) (chain ! k) (an_usage a) (admittedTable ad) (estimateTokens (ad_raw ad)) (xc_stores x)
         in xc_stores y = fst bill
            \<and> (mh_aud h \<longrightarrow> (\<exists>rec. xc_audit y = xc_audit x @ [rec] \<and> recordsAnswer (ad_context ad) pr a (snd bill) rec))))
     \<or> (\<exists>err. reserves e ad k (chain ! k) (Inl err) \<and> xc_stores y = xc_stores x
        \<and> (mh_aud h \<longrightarrow> (\<exists>rec. xc_audit y = xc_audit x @ [rec] \<and> map_option ao_Status (ar_Outcome rec) = Some (BudgetStatus err)))))"
proof -
  obtain k where k: "chainEnds h e ad 0 chain k x y" using chain_ends [OF assms(1,2)] assms(3) by blast
  have ctx: "rx_principal (attemptContext ad ct) = rx_principal (ad_context ad)" for ct by (simp add: attemptContext_def)
  have rec: "recordsAnswer (attemptContext ad ct) pr a cost r = recordsAnswer (ad_context ad) pr a cost r" for ct pr a cost r
    by (simp add: recordsAnswer_def ctx)
  have raw: "pr_RawBody (proxyRequest ad ct) = ad_raw ad" for ct by (simp add: proxyRequest_def)
  from k show ?thesis
    by (intro exI [of _ k]) (auto simp: chainEnds_def triedUpTo_def closedWith_def budgetRefused_def Let_def ctx rec raw)
qed

theorem answer_billed_once_witness:
  "\<exists>rec. xc_audit chatEnd = [rec] \<and> ar_Usage rec = usageRef (Some chatUsage) \<and> ar_Cost rec \<noteq> None
     \<and> xc_stores chatEnd = fst (billing chatHandler chatDown chatKey (chatTarget ''b'') (Some chatUsage) (ls_pricing sampleState) 1 (demo_stores 40))"
proof -
  have ne: "chatChain \<noteq> []" and aud: "mh_aud chatHandler" by (simp_all add: chatChain_def chatHandler_def)
  let ?bill = "\<lambda>k a. billing chatHandler chatDown (rx_principal (ad_context chatAdmitted)) (chatChain ! k) (an_usage a) (admittedTable chatAdmitted)
      (estimateTokens (ad_raw chatAdmitted)) (xc_stores chatExchange)"
  from answer_billed_once [OF chat_start(1) ne chatEnd_def] aud chat_down obtain k a rec where
    k: "k < length chatChain" "answerAt chatDown chatAdmitted 0 chatChain k = Some a" and y: "xc_stores chatEnd = fst (?bill k a)"
      "xc_audit chatEnd = xc_audit chatExchange @ [rec]" "recordsAnswer (ad_context chatAdmitted) (proxyRequest chatAdmitted (chatChain ! k)) a (snd (?bill k a)) rec"
    unfolding Let_def by blast
  have est: "estimateTokens (ad_raw chatAdmitted) = 1" by (simp add: chatAdmitted_def estimateTokens_def)
  have bill: "?bill 1 (completeAnswer chatAnswer) = billing chatHandler chatDown chatKey (chatTarget ''b'') (Some chatUsage) (ls_pricing sampleState) 1 (demo_stores 40)"
    unfolding est by (simp add: completeAnswer_def chatAnswer_def chatAdmitted_def admittedTable_def chatChain_def chatExchange_def)
  have "snd (billing chatHandler chatDown chatKey (chatTarget ''b'') (Some chatUsage) (ls_pricing sampleState) 1 (demo_stores 40)) \<noteq> None"
    by (simp add: billing_def chatHandler_def split: prod.splits)
  moreover have "an_usage (completeAnswer chatAnswer) = Some chatUsage" by (simp add: completeAnswer_def chatAnswer_def)
  ultimately show ?thesis using y [unfolded chat_second [OF k] bill]
    by (auto simp: recordsAnswer_def chatExchange_def)
qed

text \<open>
  C22: every authenticated request is answered, and the log tells with what. For a readable
  request of an authenticated principal a status is written, and the last audit record of
  the request carries this status, whether it was refused at any stage or served; only a
  request whose prescribed masking could not be read back is refused without a record.
\<close>

theorem audit_tells_the_answer:
  assumes "hr_Status (xc_response x) = None" and "wfTopology (ib_load e 5)" and "honestFilter (filterOf (mh_mask h))" and "mh_aud h"
    and "ib_body e = Some raw" and "ib_parse e zeroChat raw = Some parsed" and "ib_principal e = Some p"
  shows "\<exists>code. hr_Status (xc_response (ServeHTTP h e x)) = Some code \<and>
    (xc_audit (ServeHTTP h e x) \<noteq> [] \<and> map_option ao_Status (ar_Outcome (last (xc_audit (ServeHTTP h e x)))) = Some code
     \<or> code = 400 \<and> xc_audit (ServeHTTP h e x) = xc_audit x \<and> (\<exists>nm ro z. rs_MaskRequired (ro_result ro) \<and> policyBody e nm ro z = Inl (ServeHTTP h e x)))"
  using assms(1,3,5,6,7)
proof (cases rule: serve_cases)
  case refused
  then show ?thesis using assms(4) by (auto simp: refusedWith_def)
next
  case (unmasked nm ro z)
  then have "hr_Status (xc_response (ServeHTTP h e x)) = Some 400 \<and> xc_audit (ServeHTTP h e x) = xc_audit x \<and> rs_MaskRequired (ro_result ro)"
    using policy_refusal [OF unmasked(1)] assms(1) by (simp add: untouched_def)
  then show ?thesis using unmasked(1) by auto
next
  case (served nm store result ad z)
  have "ri_State (routingInput h e nm) = Some (ib_load e 5)" using served(3) by (simp add: routingInput_def Let_def)
  from conjunct1 [OF routed_authorized [OF served(4) this assms(2)]]
  obtain k where "chainEnds h e ad 0 (rs_Chain result) k z (ServeHTTP h e x)"
    using chain_ends [OF served(9)] unfolding served(8) by blast
  then show ?thesis using assms(4)
    by (auto simp: chainEnds_def closedWith_def budgetRefused_def recordsAnswer_def Let_def)
qed

theorem audit_tells_the_answer_witness:
  "map_option ao_Status (ar_Outcome (last (xc_audit (ServeHTTP chatHandler (chatInbound 0) chatExchange)))) = Some 200"
proof -
  have "mh_aud chatHandler" by (simp add: chatHandler_def)
  from audit_tells_the_answer [OF chat_start(1,3) chat_honest this chat_in] obtain code where
    code: "hr_Status (xc_response (ServeHTTP chatHandler (chatInbound 0) chatExchange)) = Some code"
      "code = 400 \<or> map_option ao_Status (ar_Outcome (last (xc_audit (ServeHTTP chatHandler (chatInbound 0) chatExchange)))) = Some code" by blast
  moreover have "hr_Status (xc_response (ServeHTTP chatHandler (chatInbound 0) chatExchange)) = Some 200" by code_simp
  ultimately show ?thesis by simp
qed

text \<open>
  C23: a stream is billed for all it reported. Of every count, input, output, cache reads,
  cache writes in total and of either tier, the usage taken from a stream is the last one
  reported up to its end or its interruption, in whichever frame it came, so the input counts
  of the first frame survive a last frame that carries the output alone, and no count is
  added up twice.
\<close>

theorem streamed_usage_latest:
  assumes "reports (delivered evs) \<noteq> []"
  shows "\<exists>u. an_usage (streamAnswer evs) = Some u
    \<and> su_InputTokens u = latestOf (map su_InputTokens (reports (delivered evs)))
    \<and> su_OutputTokens u = latestOf (map su_OutputTokens (reports (delivered evs)))
    \<and> su_CacheReadInputTokens u = latestOf (map su_CacheReadInputTokens (reports (delivered evs)))
    \<and> su_CacheCreationInputTokens u = latestOf (map su_CacheCreationInputTokens (reports (delivered evs)))
    \<and> tierCount scc_Ephemeral5mInputTokens u = latestOf (map (tierCount scc_Ephemeral5mInputTokens) (reports (delivered evs)))
    \<and> tierCount scc_Ephemeral1hInputTokens u = latestOf (map (tierCount scc_Ephemeral1hInputTokens) (reports (delivered evs)))"
proof -
  have "an_usage (streamAnswer evs) = mergeAll (reports (delivered evs)) None" by (simp add: streamAnswer_def observed_usage)
  then show ?thesis
    using inputCount.latest [OF assms] outputCount.latest [OF assms] cacheReadCount.latest [OF assms] cacheWriteCount.latest [OF assms]
      write5mCount.latest [OF assms] write1hCount.latest [OF assms] by auto
qed

definition usageFrame :: "string \<Rightarrow> int option \<Rightarrow> int option \<Rightarrow> call_error + StreamEvent" where
  "usageFrame t i ot = Inr \<lparr>ev_Raw = t, ev_Chunk = Some \<lparr>sc_Type = t, sc_MessageUsage = None,
     sc_Usage = Some (chatUsage\<lparr>su_InputTokens := i, su_OutputTokens := ot\<rparr>)\<rparr>\<rparr>"

theorem streamed_usage_latest_witness:
  "\<exists>u. an_usage (streamAnswer [usageFrame ''message_start'' (Some 9) (Some 1), usageFrame ''message_delta'' None (Some 4), Inl OtherError]) = Some u
     \<and> su_InputTokens u = Some 9 \<and> su_OutputTokens u = Some 4"
proof -
  let ?evs = "[usageFrame ''message_start'' (Some 9) (Some 1), usageFrame ''message_delta'' None (Some 4), Inl OtherError]"
  have r: "reports (delivered ?evs) = [chatUsage\<lparr>su_InputTokens := Some 9, su_OutputTokens := Some 1\<rparr>, chatUsage\<lparr>su_InputTokens := None, su_OutputTokens := Some 4\<rparr>]"
    by (simp add: usageFrame_def reports_def)
  then have "reports (delivered ?evs) \<noteq> []" by simp
  from streamed_usage_latest [OF this] show ?thesis unfolding r by (auto simp: latestOf_def)
qed

end
