(* ===== verification/CountTokens.thy ===== *)
theory CountTokens
  imports MessagesProps
begin

text \<open>
  Counting tokens on the Anthropic ingress, \<^verbatim>\<open>internal/server/anthropicapi/count_tokens.go\<close>, with the records of
  \<^verbatim>\<open>requestpolicy/evidence.go\<close>: every answer is a 200 with a number, an estimate of the body unless a
  provider that may see the body counted it.
\<close>

section \<open>Definitions\<close>

record CountTokensHandler =
  ch_aud :: bool
  ch_mask :: "Masking option"
  ch_teamPolicy :: "(string \<Rightarrow> TeamRecord option) option"

text \<open>
  The body as far as it was read, whether reading failed, the governance gate if there is one,
  and whether the request was marked to be counted here; \<open>ci_model\<close> is the model a best-effort
  decoding finds, \<open>ci_counter\<close> the counting capability of a target's provider.
\<close>

record CountInbound =
  ci_raw :: string
  ci_readErr :: bool
  ci_ready :: "bool option"
  ci_local :: bool
  ci_model :: "string \<Rightarrow> string"
  ci_principal :: "Principal option"
  ci_load :: "nat \<Rightarrow> LiveState"
  ci_clkChain :: "nat \<Rightarrow> gotime"
  ci_route :: RouteEnv
  ci_other :: "affinityStore \<Rightarrow> affinityStore"
  ci_decode :: "string \<Rightarrow> json option"
  ci_encode :: "json \<Rightarrow> string"
  ci_redactorWith :: "request_filter \<Rightarrow> redactor"
  ci_counter :: "ChainTarget \<Rightarrow> (ProxyRequest \<Rightarrow> unit + int) option"
  ci_id :: "nat \<Rightarrow> string"
  ci_ts :: "nat \<Rightarrow> string"

record CountState =
  cz_router :: Router
  cz_affinity :: "affinityStore option"
  cz_audit :: "AuditRecord list"
  cz_headers :: "(string \<times> string) list"
  cz_sent :: "(ChainTarget \<times> ProxyRequest) list"

definition CountRecord :: "CountTokensHandler \<Rightarrow> CountInbound \<Rightarrow> Principal \<Rightarrow> AuditRoutingRef option \<Rightarrow> bool \<Rightarrow> CountState \<Rightarrow> CountState" where
  "CountRecord h e p ref completed s =
     (case ref of
        None \<Rightarrow> s
      | Some r \<Rightarrow>
          if \<not> ch_aud h then s
          else (let n = length (cz_audit s)
                in s\<lparr>cz_audit := cz_audit s @ [\<lparr>ar_SchemaVersion = 1, ar_Event = (if completed then ''request_completed'' else ''request_started''),
                     ar_ID = ci_id e n, ar_TS = ci_ts e n, ar_Instance = [],
                     ar_Principal = \<lparr>apr_KeyID = pn_KeyID p, apr_Team = pn_Team p, apr_User = None, apr_AuthMethod = None\<rparr>,
                     ar_Request = \<lparr>arq_Ingress = ''anthropic'', arq_ModelRequested = arr_RequestedModel r, arq_ModelResolved = [], arq_Provider = [],
                       arq_ProviderAPI = [], arq_Stream = False, arq_PIIMasked = False, arq_ModelSubstitutedFrom = [], arq_Routing = Some r\<rparr>,
                     ar_Outcome = (if completed then Some (outcomeRef 200 None) else None), ar_Usage = None, ar_Cost = None, ar_Latency = None,
                     ar_TraceID = None, ar_PrevHash = [], ar_BodyRef = None, ar_RecordRef = None, ar_GuardrailID = None, ar_GuardrailVersion = None\<rparr>]\<rparr>))"

definition countInput :: "CountTokensHandler \<Rightarrow> CountInbound \<Rightarrow> Principal \<Rightarrow> string \<Rightarrow> ChainTarget list \<Rightarrow> RequestRoutingInput" where
  "countInput h e p model chain =
     (let regions = regionsOf (if ch_teamPolicy h \<noteq> None \<or> pn_TeamSnapshotLoaded p then TeamSnapshot p (ch_teamPolicy h) else None)
      in \<lparr>ri_Principal = p, ri_Protocol = ''anthropic'', ri_RawBody = ci_raw e, ri_RequestedModel = model, ri_Model = model,
          ri_Chain = FilterRegions chain regions, ri_State = Some (ci_load e 2), ri_AllowedRegions = regions, ri_CountOnly = True,
          ri_SessionHint = [], ri_Redactor = CombinedRedactor (ci_redactorWith e) (ch_mask h) (pn_Team p), ri_Compatible = None\<rparr>)"

text \<open>The body a provider may see, or none.\<close>

definition countBody :: "CountTokensHandler \<Rightarrow> CountInbound \<Rightarrow> Principal \<Rightarrow> RequestRoutingResult \<Rightarrow> string + string" where
  "countBody h e p result =
     (case (if rs_MaskRequired result
            then (case rs_SanitizedBody result of None \<Rightarrow> Inl (ci_raw e) | Some b \<Rightarrow> if b = [] then Inl (ci_raw e) else Inr b)
            else Inr (ci_raw e)) of
        Inl raw \<Rightarrow> Inl raw
      | Inr raw \<Rightarrow>
          if mask_Enabled (ch_mask h) (pn_Team p) then
            (case maskBody (ci_decode e) (ci_encode e) (filterOf (ch_mask h)) raw of
               Inl err \<Rightarrow> Inl raw
             | Inr (masked, n) \<Rightarrow> if n > 0 then Inr masked else Inr raw)
          else Inr raw)"

definition countRequest :: "ChainTarget \<Rightarrow> string \<Rightarrow> ProxyRequest" where
  "countRequest ct raw =
     \<lparr>pr_Model = ct_Model ct, pr_Upstream = ct_Upstream ct, pr_Parsed = zeroChat, pr_RawBody = raw, pr_Stream = False,
      pr_IngressProtocol = ''anthropic'', pr_GuardrailID = [], pr_GuardrailVersion = []\<rparr>"

text \<open>
  The estimate, or the count of the first target; the last component is what the final record
  says of the call. A decision never returns an empty chain.
\<close>

definition countUpstream ::
  "CountTokensHandler \<Rightarrow> CountInbound \<Rightarrow> Principal \<Rightarrow> RequestRoutingResult \<Rightarrow> AuditRoutingRef option \<Rightarrow> CountState \<Rightarrow> CountState \<times> int \<times> AuditRoutingRef option" where
  "countUpstream h e p result ref s =
     (case countBody h e p result of
        Inl raw \<Rightarrow> (s, estimateTokens raw, ref)
      | Inr raw \<Rightarrow>
          (case rs_Chain result of
             [] \<Rightarrow> (s, estimateTokens raw, ref)
           | ct # _ \<Rightarrow>
               (case ci_counter e ct of
                  None \<Rightarrow> (s, estimateTokens raw, ref)
                | Some counter \<Rightarrow>
                    (s\<lparr>cz_sent := cz_sent s @ [(ct, countRequest ct raw)]\<rparr>,
                     (case counter (countRequest ct raw) of Inl _ \<Rightarrow> estimateTokens raw | Inr n \<Rightarrow> n),
                     WithRoutingAttempt (ct_Model ct) (ct_ProviderName ct) (ct_DataBoundary ct) ref))))"

definition countTokens :: "CountTokensHandler \<Rightarrow> CountInbound \<Rightarrow> CountState \<Rightarrow> CountState \<times> int" where
  "countTokens h e s =
     (let raw = ci_raw e; model = fst (ResolveModel (ci_load e 0) (ci_model e raw))
      in if (case ci_principal e of None \<Rightarrow> False | Some p \<Rightarrow> \<not> Allows (cz_router s) (ci_load e 1) p model) then (s, estimateTokens raw)
         else (case ResolveChain (ci_clkChain e) (cz_router s) (ci_load e 2) model of
                 Inl err \<Rightarrow> (s, estimateTokens raw)
               | Inr chain \<Rightarrow>
                   (case ci_principal e of
                      None \<Rightarrow> (s, estimateTokens raw)
                    | Some p \<Rightarrow>
                        (let inp = countInput h e p model (recheckAllowed (cz_router s) (\<lambda>n. ci_load e (3 + n)) p chain)
                         in case RouteRequest (ci_route e) (ci_other e) (cz_router s) (cz_affinity s) inp of
                              (store, result, err) \<Rightarrow>
                                (let obs = routing_Observe result \<lparr>rc_bundle = None, rc_routing = None, rc_headers = []\<rparr>;
                                     s1 = CountRecord h e p (rc_routing obs) False (s\<lparr>cz_affinity := store, cz_headers := cz_headers s @ rc_headers obs\<rparr>)
                                 in case err of
                                      Some re \<Rightarrow> (CountRecord h e p (rc_routing obs) True s1, estimateTokens raw)
                                    | None \<Rightarrow>
                                        (case countUpstream h e p result (rc_routing obs) s1 of
                                           (s2, n, ref) \<Rightarrow> (CountRecord h e p ref True s2, n)))))))"

text \<open>The state, the status, and the number.\<close>

definition count_ServeHTTP :: "CountTokensHandler \<Rightarrow> CountInbound \<Rightarrow> CountState \<Rightarrow> CountState \<times> int \<times> int" where
  "count_ServeHTTP h e s =
     (if \<not> ci_readErr e \<and> (ci_ready e = None \<or> ci_ready e = Some True) \<and> \<not> ci_local e
      then (case countTokens h e s of (s', n) \<Rightarrow> (s', 200, n)) else (s, 200, estimateTokens (ci_raw e)))"

section \<open>Properties\<close>

lemma CountRecord_sent [simp]: "cz_sent (CountRecord h e p ref completed s) = cz_sent s"
  by (simp add: CountRecord_def Let_def split: option.splits)

lemma count_body:
  assumes "countBody h e p result = Inr raw" and "honestFilter (filterOf (ch_mask h))"
  shows "let body = (if rs_MaskRequired result then the (rs_SanitizedBody result) else ci_raw e)
    in if mask_Enabled (ch_mask h) (pn_Team p) then \<exists>n. maskBody (ci_decode e) (ci_encode e) (filterOf (ch_mask h)) body = Inr (raw, n) else raw = body"
  using assms maskBody_count [OF _ assms(2)]
  by (fastforce simp: countBody_def Let_def split: if_splits option.splits sum.splits)

text \<open>
  Counting gives no more away than serving: the answer is always a 200, and a provider sees
  a body only for an authenticated principal, when the request was read in full and the
  governance gate is open, at a target whose model and region are allowed to the principal,
  and masked as the privacy rules and the filter of the team prescribe.
\<close>

lemma count_confined:
  assumes "count_ServeHTTP h e s = (s', code, n)" and "wfTopology (ci_load e 2)" and "honestFilter (filterOf (ch_mask h))"
  shows "code = 200 \<and> (cz_sent s' = cz_sent s \<or>
    (\<exists>p ct pr inp store result. cz_sent s' = cz_sent s @ [(ct, pr)] \<and> ci_principal e = Some p \<and> \<not> ci_readErr e \<and> ci_ready e \<noteq> Some False \<and> \<not> ci_local e
       \<and> RouteRequest (ci_route e) (ci_other e) (cz_router s) (cz_affinity s) inp = (store, result, None)
       \<and> ri_Principal inp = p \<and> ri_State inp = Some (ci_load e 2) \<and> authorized (cz_router s) inp (ci_load e 2) ct
       \<and> countBody h e p result = Inr (pr_RawBody pr)
       \<and> (mask_Enabled (ch_mask h) (pn_Team p) \<longrightarrow>
            (\<exists>body k. maskBody (ci_decode e) (ci_encode e) (filterOf (ch_mask h)) body = Inr (pr_RawBody pr, k)))))"
proof (cases "cz_sent s' = cz_sent s")
  case True
  then show ?thesis using assms(1) by (auto simp: count_ServeHTTP_def split: if_splits prod.splits)
next
  case False
  then have run: "countTokens h e s = (s', n)" "\<not> ci_readErr e" "ci_ready e \<noteq> Some False" "\<not> ci_local e" and code: "code = 200"
    using assms(1) by (auto simp: count_ServeHTTP_def split: if_splits prod.splits)
  define model where "model = fst (ResolveModel (ci_load e 0) (ci_model e (ci_raw e)))"
  obtain p where p: "ci_principal e = Some p"
    using run(1) False by (auto simp: countTokens_def Let_def split: option.splits if_splits sum.splits)
  obtain chain where chain: "ResolveChain (ci_clkChain e) (cz_router s) (ci_load e 2) model = Inr chain"
    using run(1) False by (auto simp: countTokens_def model_def Let_def split: option.splits if_splits sum.splits)
  define inp where "inp = countInput h e p model (recheckAllowed (cz_router s) (\<lambda>n. ci_load e (3 + n)) p chain)"
  obtain store result err where route: "RouteRequest (ci_route e) (ci_other e) (cz_router s) (cz_affinity s) inp = (store, result, err)" by (metis prod_cases3)
  note unf = run(1) [unfolded countTokens_def Let_def p option.case, folded model_def, unfolded chain sum.case, folded inp_def, unfolded route prod.case]
  have err: "err = None" using unf False by (auto split: option.splits if_splits)
  obtain raw ct cts where up: "countBody h e p result = Inr raw" "rs_Chain result = ct # cts" "cz_sent s' = cz_sent s @ [(ct, countRequest ct raw)]"
    using unf False unfolding err option.case
    by (auto simp: countUpstream_def split: option.splits if_splits sum.splits list.splits)
  have inp: "ri_Principal inp = p" "ri_State inp = Some (ci_load e 2)" by (simp_all add: inp_def countInput_def Let_def)
  have "authorized (cz_router s) inp (ci_load e 2) ct"
    using routed_authorized [OF route [unfolded err] inp(2) assms(2)] up(2) by simp
  moreover have "pr_RawBody (countRequest ct raw) = raw" by (simp add: countRequest_def)
  ultimately show ?thesis using code run(2-4) p up route err inp count_body [OF up(1) assms(3)]
    unfolding Let_def by (intro conjI disjI2) (auto, metis)
qed

end
