(* ===== verification/Spec2Isabelle.thy ===== *)
theory Spec2Isabelle
  imports Pricing Budget Limiter Tier Breaker Governance EscrowProps AuthorityProps PolicyStoreProps RouteProps ControlPlaneProps SyncerProps GatewayProps AuditProps Alert
    RequestBudgetProps SharedCall KeyAdmin CountTokens
begin

text \<open>
  Mayu is a governed gateway to model providers. A data plane (\<^verbatim>\<open>cmd/mayu\<close>) authenticates a
  request, asks its router for a chain of targets, its governor for admission, calls a
  provider, and settles the cost. A control plane (\<^verbatim>\<open>cmd/inferplaned\<close>) keeps the policy
  documents, distributes them over a heartbeat and hands out budget leases; in the durable
  modes a ledger in Postgres issues grants of money that each data plane spends from a
  journal of its own. This library models those parts and proves what makes them correct.

  \<^bold>\<open>Conventions.\<close> An \<^verbatim>\<open>int64\<close> is an \<open>int\<close> with the wrap-around written out (\<open>wrap64\<close>, \<open>add64\<close>,
  \<open>mul64\<close>; \<open>in64\<close> is the range), a \<^verbatim>\<open>float64\<close> a real rounded by the IEEE rules of \<open>Float64\<close>, an instant a
  number of nanoseconds, a string a list of bytes, a Go map a \<open>mapping\<close> visited in the order
  of its keys where the source ranges over it (the results do not depend on the order, but for
  the family fallback of \<open>Live\<close>, where it decides between names of equal version), a pointer that may be nil an
  \<open>option\<close>, an error the left part of a sum, a panic \<open>None\<close>. The clock, random numbers, hashes,
  the transport, the outcome of a commit and the provider factory are arguments of the
  definitions that use them, so the theorems hold for all of them; what is relied on is a
  named hypothesis. Loops are structural recursions or folds, so every definition is total,
  and no fuel is used; loops that run for the life of the process are given as one turn and
  as step relations.

  \<^bold>\<open>Theories and sources.\<close> Under \<^verbatim>\<open>src/internal\<close> unless said otherwise:

  \<^item> \<open>Prelude\<close>, \<open>GoStd\<close>, \<open>Float64\<close>, \<open>Calendar\<close>, \<open>Subjects\<close>: integers, maps, error folds, the parts of
    Go's standard library in use, rounding, calendar windows.
  \<^item> \<open>Pricing\<close>, \<open>PricingConfig\<close> (\<^verbatim>\<open>pricing\<close>): rate table, settlement cost, checked cost, admission bound, conversion of configured rates.
  \<^item> \<open>Counter\<close>, \<open>Budget\<close> (\<^verbatim>\<open>budget\<close>), \<open>Limiter\<close> (\<^verbatim>\<open>limiter\<close>), \<open>Tier\<close> (\<^verbatim>\<open>tier\<close>), \<open>Breaker\<close> (\<^verbatim>\<open>router/breaker.go\<close>):
    the stores of the governor and the router. \<open>Counter\<close> holds the windowed counters as a
    locale that the money store and the quota store interpret.
  \<^item> \<open>Governance\<close> (\<^verbatim>\<open>governance\<close>): PreCheck, Settle, UsageOf, the pricing guard.
  \<^item> \<open>PolicyDoc\<close>, \<open>PolicyProps\<close>, \<open>PolicyLoad\<close>, \<open>PolicyStore\<close>, \<open>PolicyStoreProps\<close> (\<^verbatim>\<open>policy\<close>, \<^verbatim>\<open>src/api/v1alpha1\<close>):
    documents and their conversion, loading, the store with its distribution and lookups.
  \<^item> \<open>Journal\<close>, \<open>Escrow\<close>, \<open>EscrowSync\<close> with \<open>EscrowInv\<close>, \<open>EscrowCollect\<close>, \<open>EscrowAdmit\<close>, \<open>EscrowSafety\<close>, \<open>EscrowProps\<close>
    (\<^verbatim>\<open>authority/local\<close>): the journal of a data plane, fencing, admission, settlement, synchronization, garbage collection.
  \<^item> \<open>AuthorityDefs\<close>, \<open>Ledger\<close>, \<open>SharedLedger\<close> with \<open>LedgerInv\<close>, \<open>LedgerSync\<close>, \<open>SharedInv\<close>, \<open>SharedLimits\<close>, \<open>GrantHistory\<close>,
    \<open>AuthorityProps\<close> (\<^verbatim>\<open>authority/pgstore\<close>): the central ledger and its transactions.
  \<^item> \<open>Live\<close>, \<open>LiveProps\<close> (\<^verbatim>\<open>live\<close>), \<open>ProviderStore\<close>, \<open>ProviderStoreProps\<close> (\<^verbatim>\<open>providerstore\<close>, the provider part of \<^verbatim>\<open>config\<close>):
    the topology being served, its validation, and the database it is kept in.
  \<^item> \<open>Router\<close>, \<open>RouteBoundary\<close>, \<open>RouteRequest\<close>, \<open>RouteProps\<close> (\<^verbatim>\<open>router\<close>): resolution, chains, filters, the decision of a request, affinity.
  \<^item> \<open>ControlPlane\<close>, \<open>ControlPlaneProps\<close> (\<^verbatim>\<open>controlplane\<close>, \<^verbatim>\<open>policystore\<close>): lease ledger, heartbeat handler, document writes.
  \<^item> \<open>Syncer\<close>, \<open>SyncerProps\<close> (\<^verbatim>\<open>proxy\<close>): lease table, heartbeat of a data plane, readiness gate, retry cadence.
  \<^item> \<open>Gateway\<close>, \<open>GatewayProps\<close> (\<^verbatim>\<open>src/cmd/mayu\<close>): the closures that connect the parts, reload and topology writes.
  \<^item> \<open>AuditLog\<close>, \<open>AuditProps\<close> (\<^verbatim>\<open>audit\<close>, \<^verbatim>\<open>server/auditapi\<close>): the hash-chained log, its verification, its anchors.
  \<^item> \<open>Alert\<close> (\<^verbatim>\<open>alert\<close>): the budget alerts.
  \<^item> \<open>RequestBudget\<close>, \<open>RequestBudgetProps\<close>, \<open>SharedCall\<close> (\<^verbatim>\<open>server/requestpolicy\<close>): reservation and settlement of one provider call,
    against the journal and against the shared ledger, evidence of a decision.
  \<^item> \<open>MaskBody\<close>, \<open>Messages\<close>, \<open>MessagesProps\<close>, \<open>CountTokens\<close> (\<^verbatim>\<open>server/anthropicapi\<close>, \<^verbatim>\<open>filter\<close>, \<^verbatim>\<open>src/pkg/schema/usage.go\<close>): the whole life
    of a request on the Anthropic ingress, from the body to the last audit record, and token counting.
  \<^item> \<open>KeyStore\<close>, \<open>KeyStoreProps\<close> (\<^verbatim>\<open>keystore\<close>), \<open>KeyAdmin\<close> (\<^verbatim>\<open>principal\<close>, \<^verbatim>\<open>adminauth/mapping.go\<close>, \<^verbatim>\<open>server/adminauth.go\<close>,
    \<^verbatim>\<open>server/adminapi\<close>): virtual keys, team records, and who may write them.

  This theory holds the properties that span the components.

  \<^bold>\<open>What is shown.\<close> Money: the counters of the governor are exact, admission respects every
  blocking budget, the reserved bound dominates the settled cost, the journal and the
  central ledger never promise more than their limits under any interleaving, crash or
  replay, a call is charged once and within its reservation, its reports fit what was booked, leases stay within the limit of their rule, and a data plane admits within its lease.
  Policies: conversion is well typed, lossless and names the culprit; a distribution fails
  closed; writes are all or nothing; a plane is ready only on a coherent set. Routing:
  every target is authorized, privacy rules are honoured, refusals are closed, chains
  recover. Requests: nothing is forwarded before every gate has passed it, masking reaches
  every text, one target answers, its answer is billed once and the log tells it. Topology: what is published is well formed, writes are validated before they
  are stored and survive a reload. Records: the log of a process verifies, an anchor that
  matches proves that nothing it witnessed was touched, and every budget threshold is
  reported once. Identity: an issued key means what was issued, a revocation is permanent,
  and the admin plane writes only what the caller's credential stands for.

  \<^bold>\<open>Interfaces.\<close> A locale states what a client relies on, and the model's own definitions
  interpret it: windowed counters for the two stores, floating-point rounding, the authority client
  of the syncer (escrow and shared), the latch of a settlement, the merged counts of a streamed usage (six counts), the mirrored write of the topology store (four writes), and others in
  the theories named above.

  \<^bold>\<open>Not modelled.\<close> The other ingresses and the translation between the wire formats of the
  providers (\<^verbatim>\<open>server/openaiapi\<close>, \<^verbatim>\<open>server/bedrockapi\<close>, \<^verbatim>\<open>openai\<close>, \<^verbatim>\<open>responses\<close>, \<^verbatim>\<open>anthropic\<close>, \<^verbatim>\<open>src/providers\<close>): they are shaped by
  third-party formats and streaming I/O, and the decisions they call are modelled. Content
  inspection and the filter plugins (\<^verbatim>\<open>sensitivity\<close>, \<^verbatim>\<open>src/plugins\<close>) are arguments of the router and of the masking. Decoding of
  YAML and JSON is an argument of the loaders and handlers. The Postgres variant of the key store, the
  verification of identity tokens, telemetry, analytics,
  body storage and the command line are I/O around the modelled state.
\<close>

section \<open>The gateway under distributed policies\<close>

text \<open>
  C17: what was distributed decides what is routed. When the gates of the router are wired to
  the policy store, then after any distribution a subject concerned by a mandatory document
  that was rejected and not yet corrected is refused with a 403 that names the rejection;
  everybody else is only ever routed to models that every accepted policy that applies to
  them allows.
\<close>

theorem governed_routing:
  assumes "finite (Mapping.keys (previousPending s))" and "wfTopology st" and "ri_State inp = Some st"
    and "wireRoutingPolicyGates redact (Some (fst (ApplyWire gen docs s))) (r, env) = (r', env')"
    and "RouteRequest env' other r' aff inp = (aff', out, err)"
  shows "if \<exists>n. \<exists>sub \<in> stillRefused s docs n. subjectMatches sub (pn_Team (ri_Principal inp)) (pn_Owner (ri_Principal inp))
    then \<exists>e. err = Some e \<and> RouteProps.refused out e \<and> re_cause e = Some ErrRoutingPolicyRejected \<and> aff' = aff
    else err = None \<longrightarrow> rs_Chain out \<noteq> [] \<and>
      (\<forall>ct \<in> set (rs_Chain out). \<forall>p rule acc. acceptedPolicy s docs p \<and> rule \<in> set (p_Rules p) \<and> r_ModelAccess rule = Some acc
         \<and> subjectMatches (p_Subject p) (pn_Team (ri_Principal inp)) (pn_Owner (ri_Principal inp))
         \<longrightarrow> allowsModel (m_Allow acc) (Canonical st (ct_Model ct)) (Some (Canonical st)))"
proof -
  define store where "store = fst (ApplyWire gen docs s)"
  let ?team = "pn_Team (ri_Principal inp)" and ?user = "pn_Owner (ri_Principal inp)"
  have wired: "rt_policyGate r' = Some (gw_policyGate store)" "en_lookup env' = Some (gw_routingLookup store)"
    using assms(4) by (auto simp: wireRoutingPolicyGates_def SetPolicyGate_def store_def Let_def)
  obtain ps where ps: "\<forall>p. p \<in> set ps \<longleftrightarrow> acceptedPolicy s docs p"
    "RoutingSnapshot store ?team ?user = Some (gen docs,
        if \<exists>n. \<exists>sub \<in> stillRefused s docs n. subjectMatches sub ?team ?user then Inl ErrRoutingPolicyRejected
        else Inr (routingPolicies ps ?team ?user))"
    using distribution_snapshot [OF assms(1)] unfolding store_def by blast
  show ?thesis
  proof (cases "\<exists>n. \<exists>sub \<in> stillRefused s docs n. subjectMatches sub ?team ?user")
    case True
    then have "lookupPolicies env' (ri_Principal inp) = (gen docs, Inl (Some ErrRoutingPolicyRejected))"
      using ps(2) by (simp add: lookupPolicies_def wired gw_routingLookup_def)
    then show ?thesis
      using True assms(5) by (auto simp: RouteRequest_def Let_def denyRouting_def RouteProps.refused_def)
  next
    case False
    obtain snap where snap: "po_snap store = Some snap" "\<forall>p. p \<in> set (sn_policies snap) \<longleftrightarrow> acceptedPolicy s docs p"
      unfolding store_def by (rule distribution_outcome)
    have "allowsModel (m_Allow acc) (Canonical st (ct_Model ct)) (Some (Canonical st))"
      if "authorized r' inp st ct" "acceptedPolicy s docs p" "rule \<in> set (p_Rules p)" "r_ModelAccess rule = Some acc" "subjectMatches (p_Subject p) ?team ?user"
      for ct p rule acc
    proof -
      have "modelAllowed (sn_policies snap) ?team ?user (Canonical st (ct_Model ct)) (Some (Canonical st))"
        using that(1) snap(1) by (simp add: authorized_def allowsInState_def wired gw_policyGate_def ModelAllowed_def)
      then show ?thesis using that(2-5) snap(2) by (force simp: modelAllowed_def list_all_iff)
    qed
    then show ?thesis using False routed_authorized [of env' other r' aff inp aff' out st] assms(2,3,5) by auto
  qed
qed

theorem governed_routing_witness:
  "\<exists>out e. RouteRequest (snd (wireRoutingPolicyGates (\<lambda>_ _. None) (Some (fst (ApplyWire (\<lambda>_. ''g1'') sampleDocs samplePlane))) (NewRouter, sampleEnv [])))
       id (fst (wireRoutingPolicyGates (\<lambda>_ _. None) (Some (fst (ApplyWire (\<lambda>_. ''g1'') sampleDocs samplePlane))) (NewRouter, sampleEnv [])))
       None ((sampleRequest ''hello'')\<lparr>ri_Principal := (sampleKey [''*''])\<lparr>pn_Team := ''research''\<rparr>\<rparr>)
     = (None, out, Some e) \<and> re_cause e = Some ErrRoutingPolicyRejected"
proof -
  let ?inp = "(sampleRequest ''hello'')\<lparr>ri_Principal := (sampleKey [''*''])\<lparr>pn_Team := ''research''\<rparr>\<rparr>"
  obtain r env where w: "wireRoutingPolicyGates (\<lambda>_ _. None) (Some (fst (ApplyWire (\<lambda>_. ''g1'') sampleDocs samplePlane))) (NewRouter, sampleEnv []) = (r, env)"
    by fastforce
  obtain aff out err where run: "RouteRequest env id r None ?inp = (aff, out, err)" by (metis prod_cases3)
  have "ri_State ?inp = Some sampleState" by (simp add: sampleRequest_def)
  from governed_routing [OF sample_pending_finite sample_wf this w run]
  obtain e where "err = Some e" "re_cause e = Some ErrRoutingPolicyRejected" "aff = None"
    using sample_concerned by auto
  then show ?thesis using run by (simp add: w)
qed

section \<open>The hard cap across the control plane\<close>

text \<open>The window of a period in the governor, its place in the check and its policy limit.\<close>

definition teamCounter :: "Governor \<Rightarrow> string \<Rightarrow> BudgetPeriod \<Rightarrow> nat \<times> string" where
  "teamCounter g team period =
     (if period = PeriodCalendarDay then (6, budget_key ScopeTeam team (dayWindow g)) else (3, budget_key ScopeTeam team (monthWindow g)))"

definition policyWindow :: "TeamLimits \<Rightarrow> BudgetPeriod \<Rightarrow> int \<times> bool" where
  "policyWindow lims period =
     (if period = PeriodCalendarDay then (tl_BudgetMicrosPerDay lims, tl_BudgetDayHard lims) else (tl_BudgetMicrosPerMonth lims, tl_BudgetHard lims))"

lemma layered_hard:
  assumes "layeredWindow base limit True routing lease w" and "0 < limit"
  shows "0 < fst w" and "snd w \<noteq> ''warn''" and "fst w \<le> limit" and "lease = Some l \<Longrightarrow> fst w \<le> max 1 (le_AllowanceMicroUSD l)"
    and "0 < fst base \<Longrightarrow> fst w \<le> fst base"
proof -
  let ?L = "{x \<in> {fst base, limit, leaseFloor lease}. 0 < x}"
  have L: "finite ?L" "limit \<in> ?L" using assms(2) by auto
  then have w: "fst w = Min ?L" "snd w \<noteq> ''warn''" using assms unfolding layeredWindow_def Let_def by (auto split: if_splits)
  show "snd w \<noteq> ''warn''" by (fact w(2))
  have "Min ?L \<in> ?L" using L by (intro Min_in) auto
  then show "0 < fst w" by (simp add: w)
  show "fst w \<le> limit" using L by (simp add: w)
  show "fst w \<le> max 1 (le_AllowanceMicroUSD l)" if "lease = Some l"
    unfolding w using L(1) that by (intro Min_le) (auto simp: leaseFloor_def)
  show "fst w \<le> fst base" if "0 < fst base" unfolding w using L(1) that by (intro Min_le) auto
qed

text \<open>
  C16: the hard cap holds at the data plane, within its lease. In lease mode, when the governor
  reads its budgets through the gateway and admits a request of a team whose policy budget
  for a window is hard, then what the team has spent in that window at the moment of the
  check is within the policy's limit and within the allowance of every lease granted for
  the window; a hard lease among them has neither expired nor run out.
\<close>

theorem hard_cap_within_lease:
  assumes "mono clk" and "wf_store (bud_store stores)" and "in64_spend (bud_store stores)" and "\<not> g_shared g"
    and "g_lookup g = Some (\<lambda>team. the (gw_TeamLookup getTeam policies (Some store) (Some (lt_set grants)) team))"
    and "g_leaseGate g = Some (lt_Blocked now (lt_set grants))"
    and "TeamLimitsOf store (s_Team s) = Some (Some lims)" and "policyWindow lims period = (limit, True)" and "0 < limit"
    and "period = PeriodCalendarDay \<or> period = PeriodCalendarMonth"
    and "0 \<le> tp_BudgetMicrosPerMonth (baseOf (lookupBase getTeam policies (s_Team s)))"
    and "0 \<le> tp_BudgetMicrosPerDay (baseOf (lookupBase getTeam policies (s_Team s)))"
    and "gd_Allowed (snd (PreCheck clk g s kp est stores))"
  shows "case teamCounter g (s_Team s) period of (i, key) \<Rightarrow>
    spend_view (clk i) (bud_store stores) key \<le> limit \<and>
    (\<forall>grant \<in> set (grantsFor (s_Team s) period grants).
       spend_view (clk i) (bud_store stores) key \<le> max 1 (lz_AllowanceMicroUSD grant)
       \<and> (lz_HardCap grant \<longrightarrow> now \<le> lz_ExpiresAt grant \<and> 0 < lz_AllowanceMicroUSD grant))"
proof -
  let ?team = "s_Team s" and ?p = "baseOf (lookupBase getTeam policies (s_Team s))"
  obtain tp where tp: "gw_TeamLookup getTeam policies (Some store) (Some (lt_set grants)) ?team = Some (Some tp)"
    and month: "layeredWindow (tp_BudgetMicrosPerMonth ?p, tp_BudgetExceeded ?p) (tl_BudgetMicrosPerMonth lims) (tl_BudgetHard lims)
        (tl_RoutingBudgetMicrosPerMonth lims) (lt_Get (lt_set grants) ?team PeriodCalendarMonth) (tp_BudgetMicrosPerMonth tp, tp_BudgetExceeded tp)"
    and day: "layeredWindow (tp_BudgetMicrosPerDay ?p, tp_BudgetDayExceeded ?p) (tl_BudgetMicrosPerDay lims) (tl_BudgetDayHard lims)
        (tl_RoutingBudgetMicrosPerDay lims) (lt_Get (lt_set grants) ?team PeriodCalendarDay) (tp_BudgetMicrosPerDay tp, tp_BudgetDayExceeded tp)"
    using lookup_layers [OF assms(7) refl assms(11,12), of "Some (lt_set grants)"] by auto
  define w where "w = (if period = PeriodCalendarDay then (tp_BudgetMicrosPerDay tp, tp_BudgetDayExceeded tp) else (tp_BudgetMicrosPerMonth tp, tp_BudgetExceeded tp))"
  obtain base routing where layers: "layeredWindow base limit True routing (lt_Get (lt_set grants) ?team period) w"
    using month day assms(8,10) by (auto simp: w_def policyWindow_def split: if_splits)
  note hard = layered_hard [OF layers assms(9)]
  obtain i key where c: "teamCounter g ?team period = (i, key)" by fastforce
  have "policyOf g ?team = Some tp" by (simp add: policyOf_def assms(5) tp)
  then have "(i, key, fst w, snd w) \<in> set (budgetsOf g s kp)"
    using c by (auto simp: budgetsOf_def teamBudgets_def budgetPair_def teamCounter_def w_def split: if_splits)
  then have spend: "spend_view (clk i) (bud_store stores) key \<le> fst w"
    using precheck_verdict(1) [OF assms(1-4,13)] hard(1,2) by (force simp: exceeded_def)
  have lease: "isMeet (grantsFor ?team period grants) (lt_Get (lt_set grants) ?team period)"
    using set_meets [of ?team period grants] assms(10) by (auto simp: lt_Get_def orMonth_def PeriodCalendarDay_def PeriodCalendarMonth_def)
  have open_gate: "\<not> fst (lt_Blocked now (lt_set grants) ?team)"
    using precheck_allowed_lease [OF assms(4,13)] by (simp add: leaseBlocks_def assms(6))
  have "spend_view (clk i) (bud_store stores) key \<le> max 1 (lz_AllowanceMicroUSD grant)
      \<and> (lz_HardCap grant \<longrightarrow> now \<le> lz_ExpiresAt grant \<and> 0 < lz_AllowanceMicroUSD grant)"
    if grant: "grant \<in> set (grantsFor ?team period grants)" for grant
  proof -
    obtain l where l: "lt_Get (lt_set grants) ?team period = Some l" "le_AllowanceMicroUSD l \<le> lz_AllowanceMicroUSD grant"
      "le_ExpiresAt l \<le> lz_ExpiresAt grant" "lz_HardCap grant \<Longrightarrow> le_HardCap l"
      using lease grant by (cases "lt_Get (lt_set grants) ?team period") (auto simp: isMeet_def)
    have "lz_HardCap grant \<Longrightarrow> now \<le> le_ExpiresAt l \<and> 0 < le_AllowanceMicroUSD l"
      using open_gate l(1,4) assms(10) unfolding lt_Blocked_def blocked_iff by (force simp: lt_Get_def orMonth_def PeriodCalendarDay_def PeriodCalendarMonth_def)
    then show ?thesis using hard(4) [OF l(1)] spend l(2,3) by force
  qed
  then show ?thesis using c spend hard(3) by auto
qed

definition leasedStore :: PolicyStore where
  "leasedStore = NewEmptyStore\<lparr>po_snap := map_option (\<lambda>s. s\<lparr>sn_teams := Mapping.update ''acme''
     (noTeamLimits\<lparr>tl_BudgetMicrosPerMonth := 500, tl_BudgetHard := True\<rparr>) Mapping.empty\<rparr>) (po_snap NewEmptyStore)\<rparr>"

definition sampleLeaseGrant :: LeaseGrant where
  "sampleLeaseGrant = \<lparr>lz_Policy = ''p'', lz_Rule = ''r'', lz_Team = ''acme'', lz_AllowanceMicroUSD = 50, lz_ExpiresAt = 100, lz_HardCap = True,
     lz_Period = PeriodCalendarMonth\<rparr>"

definition leasedGovernor :: Governor where
  "leasedGovernor = demo_gov\<lparr>g_lookup := Some (\<lambda>team. the (gw_TeamLookup (\<lambda>_. Inr None) Mapping.empty (Some leasedStore) (Some (lt_set [sampleLeaseGrant])) team)),
     g_leaseGate := Some (lt_Blocked 10 (lt_set [sampleLeaseGrant]))\<rparr>"

theorem hard_cap_within_lease_witness:
  "gd_Allowed (snd (PreCheck (\<lambda>i. 10) leasedGovernor demo_subject demo_key 5 (demo_stores 40)))
   \<and> spend_view 10 (bud_store (demo_stores 40)) (snd (teamCounter leasedGovernor ''acme'' PeriodCalendarMonth)) \<le> 50"
proof -
  have ok: "gd_Allowed (snd (PreCheck (\<lambda>i. 10) leasedGovernor demo_subject demo_key 5 (demo_stores 40)))" by code_simp
  have base: "baseOf (lookupBase (\<lambda>_. Inr None) Mapping.empty ''acme'') = zeroTeamPolicy" by (simp add: lookupBase_def baseOf_def)
  have "in64 40" by (simp add: in64_bounds)
  moreover have "TeamLimitsOf leasedStore ''acme'' = Some (Some (noTeamLimits\<lparr>tl_BudgetMicrosPerMonth := 500, tl_BudgetHard := True\<rparr>))"
    by (simp add: leasedStore_def TeamLimitsOf_def NewEmptyStore_def gomap_simps)
  ultimately have "case teamCounter leasedGovernor ''acme'' PeriodCalendarMonth of (i, key) \<Rightarrow>
      spend_view 10 (bud_store (demo_stores 40)) key \<le> 500 \<and>
      (\<forall>grant \<in> set (grantsFor ''acme'' PeriodCalendarMonth [sampleLeaseGrant]).
         spend_view 10 (bud_store (demo_stores 40)) key \<le> max 1 (lz_AllowanceMicroUSD grant)
         \<and> (lz_HardCap grant \<longrightarrow> 10 \<le> lz_ExpiresAt grant \<and> 0 < lz_AllowanceMicroUSD grant))"
    using hard_cap_within_lease [where clk = "\<lambda>i. 10" and stores = "demo_stores 40" and g = leasedGovernor and s = demo_subject and kp = demo_key
        and est = 5 and getTeam = "\<lambda>_. Inr None" and policies = Mapping.empty and store = leasedStore and grants = "[sampleLeaseGrant]" and now = 10
        and period = PeriodCalendarMonth and limit = 500] demo_stores_ok ok
    by (simp add: mono_def leasedGovernor_def demo_gov_def demo_subject_def base zeroTeamPolicy_def policyWindow_def noTeamLimits_def
        PeriodCalendarDay_def PeriodCalendarMonth_def)
  then have "spend_view 10 (bud_store (demo_stores 40)) (snd (teamCounter leasedGovernor ''acme'' PeriodCalendarMonth)) \<le> 50"
    by (auto simp: grantsFor_def sampleLeaseGrant_def orMonth_def PeriodCalendarMonth_def split: prod.splits)
  then show ?thesis using ok by blast
qed

end
